(* ===== verification/Host_Prelude.thy ===== *)
theory Host_Prelude
  imports
    Main
    "HOL-Library.Word"
    "HOL-Library.List_Lexorder"
    "HOL-Library.Char_ord"
    "HOL-Library.Product_Lexorder"
    "HOL-Library.Option_ord"
begin

text \<open>
  Shared vocabulary of the development: Rust's machine integers and the checked and saturating
  operations the hosts use on them, the two-valued \<open>Result\<close> type, the early-exit loop
  \<open>for x in xs { check(x)?; }\<close>, decimal and hexadecimal formatting, and the collections of
  rewrite rules the component theories extend.

  Conventions. A Rust \<open>String\<close> is a \<^typ>\<open>string\<close> of its UTF-8 bytes (a \<^typ>\<open>char\<close> is one byte), so
  \<open>len()\<close> is \<^const>\<open>length\<close> and the derived \<open>Ord\<close> is the lexicographic order of List_Lexorder.
  A plain Rust \<open>+\<close> on \<open>u64\<close> is word addition: it wraps, as the release profile of the workspace
  does (overflow checks are off there; a debug build would panic at the same place). A function
  that can reach an \<open>expect\<close>, an \<open>assert!\<close> or an out-of-range index returns an \<^typ>\<open>'a option\<close>
  with \<^const>\<open>None\<close> for the panic.
\<close>

section \<open>Collections of rules\<close>

named_theorems u64_arith \<open>unsigned readings of the u64 operations\<close>
named_theorems codec \<open>unfolding and injectivity of byte encoders\<close>
named_theorems std_simps \<open>facts on the ordered collections of the standard library\<close>

section \<open>Machine integers\<close>

type_synonym u8 = "8 word"
type_synonym u32 = "32 word"
type_synonym u64 = "64 word"

definition u64_MAX :: u64 where
  "u64_MAX = - 1"

definition checked_add :: "u64 \<Rightarrow> u64 \<Rightarrow> u64 option" where
  "checked_add a b = (if unat a + unat b < 2 ^ 64 then Some (a + b) else None)"

definition saturating_add :: "u64 \<Rightarrow> u64 \<Rightarrow> u64" where
  "saturating_add a b = (if unat a + unat b < 2 ^ 64 then a + b else u64_MAX)"

definition saturating_sub :: "u64 \<Rightarrow> u64 \<Rightarrow> u64" where
  "saturating_sub a b = (if b \<le> a then a - b else 0)"

definition saturating_mul :: "u64 \<Rightarrow> u64 \<Rightarrow> u64" where
  "saturating_mul a b = (if unat a * unat b < 2 ^ 64 then a * b else u64_MAX)"

lemma unat_u64_lt: "unat (x :: u64) < 18446744073709551616"
  using unsigned_less [of x] by simp

lemma unat_u64_MAX [simp, u64_arith]: "unat u64_MAX = 18446744073709551615"
  by (simp add: u64_MAX_def unsigned_minus_1_eq_mask mask_eq_exp_minus_1)

lemma u64_le_MAX [simp]: "x \<le> u64_MAX"
  by (simp add: u64_MAX_def)

lemma unat_add_u64_mod [u64_arith]:
  "unat ((a :: u64) + b) = (unat a + unat b) mod 18446744073709551616"
  by (simp add: unat_word_ariths)

lemma unat_add_u64:
  "unat (a :: u64) + unat b < 18446744073709551616 \<Longrightarrow> unat (a + b) = unat a + unat b"
  by (simp add: unat_word_ariths)

lemma checked_add_Some_iff [u64_arith]:
  "checked_add a b = Some c \<longleftrightarrow> unat a + unat b < 2 ^ 64 \<and> c = a + b"
  by (auto simp: checked_add_def)

lemma checked_add_unat:
  "checked_add a b = Some c \<Longrightarrow> unat c = unat a + unat b"
  by (auto simp: checked_add_def unat_add_u64 split: if_splits)

lemma checked_add_None_iff [u64_arith]:
  "checked_add a b = None \<longleftrightarrow> 2 ^ 64 \<le> unat a + unat b"
  by (auto simp: checked_add_def)

lemma unat_saturating_add [u64_arith]:
  "unat (saturating_add a b) = min (unat a + unat b) (2 ^ 64 - 1)"
  by (auto simp: saturating_add_def unat_add_u64 min_def)

lemma unat_saturating_sub [u64_arith]:
  "unat (saturating_sub a b) = unat a - unat b"
  by (auto simp: saturating_sub_def unat_sub word_le_nat_alt)

lemma unat_saturating_mul [u64_arith]:
  "unat (saturating_mul a b) = min (unat a * unat b) (2 ^ 64 - 1)"
  by (auto simp: saturating_mul_def min_def unat_word_ariths)

lemma u64_div_le [intro]: "unat ((a :: u64) div b) \<le> unat a"
  by (simp add: unat_div)

section \<open>Results and early exits\<close>

datatype ('a, 'e) result = Ok 'a | Err 'e

definition is_ok :: "('a, 'e) result \<Rightarrow> bool" where
  "is_ok r = (case r of Ok _ \<Rightarrow> True | Err _ \<Rightarrow> False)"

fun map_err :: "('e \<Rightarrow> 'f) \<Rightarrow> ('a, 'e) result \<Rightarrow> ('a, 'f) result" where
  "map_err f (Ok x) = Ok x"
| "map_err f (Err e) = Err (f e)"

lemma is_ok_simps [simp]: "is_ok (Ok x)" "\<not> is_ok (Err e)"
  by (simp_all add: is_ok_def)

lemma map_err_Ok_iff [simp]: "map_err f r = Ok x \<longleftrightarrow> r = Ok x"
  by (cases r) auto

lemma map_err_Err_iff: "map_err f r = Err e \<longleftrightarrow> (\<exists>d. r = Err d \<and> e = f d)"
  by (cases r) auto

text \<open>
  \<open>first_some f xs\<close> is the value an early exit returns: the first \<^const>\<open>Some\<close> that \<open>f\<close> yields
  along \<open>xs\<close>, or \<^const>\<open>None\<close> when the loop runs to its end.
\<close>

fun first_some :: "('a \<Rightarrow> 'e option) \<Rightarrow> 'a list \<Rightarrow> 'e option" where
  "first_some f [] = None"
| "first_some f (x # xs) = (case f x of Some e \<Rightarrow> Some e | None \<Rightarrow> first_some f xs)"

lemma first_some_None_iff: "first_some f xs = None \<longleftrightarrow> (\<forall>x\<in>set xs. f x = None)"
  by (induction xs) (auto split: option.splits)

lemma first_some_SomeD: "first_some f xs = Some e \<Longrightarrow> \<exists>x\<in>set xs. f x = Some e"
  by (induction xs) (auto split: option.splits)

lemma first_some_split:
  "first_some f xs = Some e \<Longrightarrow>
     \<exists>us x vs. xs = us @ x # vs \<and> (\<forall>u\<in>set us. f u = None) \<and> f x = Some e"
proof (induction xs)
  case Nil
  then show ?case by simp
next
  case (Cons y ys)
  show ?case
  proof (cases "f y")
    case None
    with Cons obtain us x vs where
      "ys = us @ x # vs" "\<forall>u\<in>set us. f u = None" "f x = Some e"
      by auto
    with None have "y # ys = (y # us) @ x # vs \<and> (\<forall>u\<in>set (y # us). f u = None) \<and> f x = Some e"
      by simp
    then show ?thesis by blast
  next
    case (Some d)
    with Cons.prems have "y # ys = [] @ y # ys \<and> (\<forall>u\<in>set []. f u = None) \<and> f y = Some e"
      by simp
    then show ?thesis by blast
  qed
qed

lemma find_Some_mem: "List.find P xs = Some x \<Longrightarrow> x \<in> set xs \<and> P x"
  by (auto simp: find_Some_iff)

section \<open>Formatting\<close>

fun show_nat :: "nat \<Rightarrow> string" where
  "show_nat n =
     (if n < 10 then [char_of (48 + n)]
      else show_nat (n div 10) @ [char_of (48 + n mod 10)])"

declare show_nat.simps [simp del]

definition display_u64 :: "u64 \<Rightarrow> string" where
  "display_u64 v = show_nat (unat v)"

definition display_u32 :: "u32 \<Rightarrow> string" where
  "display_u32 v = show_nat (unat v)"

definition hex_digit :: "nat \<Rightarrow> char" where
  "hex_digit d = char_of (if d < 10 then 48 + d else 87 + d)"

definition hex_byte :: "u8 \<Rightarrow> string" where
  "hex_byte b = [hex_digit (unat b div 16), hex_digit (unat b mod 16)]"

lemma length_hex_byte [simp]: "length (hex_byte b) = 2"
  by (simp add: hex_byte_def)

definition is_lower_hex :: "char \<Rightarrow> bool" where
  "is_lower_hex c \<longleftrightarrow> (CHR ''0'' \<le> c \<and> c \<le> CHR ''9'') \<or> (CHR ''a'' \<le> c \<and> c \<le> CHR ''f'')"

lemma hex_digit_lower:
  assumes "d < 16"
  shows "is_lower_hex (hex_digit d)"
proof -
  have "list_all (\<lambda>d. is_lower_hex (hex_digit d)) [0..<16]"
    by code_simp
  then show ?thesis
    using assms by (simp add: list_all_iff)
qed

lemma hex_byte_lower: "list_all is_lower_hex (hex_byte b)"
proof -
  have "unat b < 256"
    using unsigned_less [of b] by simp
  then show ?thesis
    by (simp add: hex_byte_def hex_digit_lower less_mult_imp_div_less)
qed

text \<open>The first match in an append.\<close>

lemma find_append: "List.find P (xs @ ys) = (case List.find P xs of Some x \<Rightarrow> Some x | None \<Rightarrow> List.find P ys)"
  by (induction xs) auto

end
