(* ===== verification/Std_Collections.thy ===== *)
theory Std_Collections
  imports Host_Prelude
begin

text \<open>
  The two ordered collections of the standard library the hosts keep their state in.
  A \<open>BTreeSet<T>\<close> is the strictly increasing list of its elements and a \<open>BTreeMap<K, V>\<close> the list
  of its entries in strictly increasing key order: iteration is the list itself, and the derived
  \<open>PartialEq\<close> is list equality. The invariants \<open>bset_ok\<close> and \<open>bmap_ok\<close> say that a list
  represents a collection; every operation keeps them. The locales state what a client may rely
  on (what a lookup returns after an insertion, that equal contents mean equal collections), and
  their lemmas about inserting many entries are proved once, from those laws.
\<close>

section \<open>Contracts\<close>

locale set_contract =
  fixes empty :: "'s"
    and insert :: "'a \<Rightarrow> 's \<Rightarrow> 's"
    and elements :: "'s \<Rightarrow> 'a set"
    and invar :: "'s \<Rightarrow> bool"
  assumes elements_empty: "elements empty = {}"
    and elements_insert: "invar s \<Longrightarrow> elements (insert x s) = Set.insert x (elements s)"
    and invar_empty: "invar empty"
    and invar_insert: "invar s \<Longrightarrow> invar (insert x s)"
    and canonical: "invar s \<Longrightarrow> invar t \<Longrightarrow> elements s = elements t \<Longrightarrow> s = t"
begin

lemma invar_fold_insert: "invar s \<Longrightarrow> invar (fold insert xs s)"
  by (induction xs arbitrary: s) (auto intro: invar_insert)

lemma elements_fold_insert:
  "invar s \<Longrightarrow> elements (fold insert xs s) = set xs \<union> elements s"
  by (induction xs arbitrary: s) (auto simp: elements_insert invar_insert)

lemma fold_insert_cong:
  "invar s \<Longrightarrow> set xs = set ys \<Longrightarrow> fold insert xs s = fold insert ys s"
  by (rule canonical) (simp_all add: invar_fold_insert elements_fold_insert)

lemma insert_member: "invar s \<Longrightarrow> x \<in> elements s \<Longrightarrow> insert x s = s"
  by (rule canonical) (auto simp: elements_insert invar_insert)

end

locale map_contract =
  fixes empty :: "'m"
    and insert :: "'k \<Rightarrow> 'v \<Rightarrow> 'm \<Rightarrow> 'm"
    and remove :: "'k \<Rightarrow> 'm \<Rightarrow> 'm"
    and get :: "'m \<Rightarrow> 'k \<Rightarrow> 'v option"
    and invar :: "'m \<Rightarrow> bool"
  assumes get_empty: "get empty k = None"
    and get_insert: "invar m \<Longrightarrow> get (insert k v m) = (get m)(k := Some v)"
    and get_remove: "invar m \<Longrightarrow> get (remove k m) = (get m)(k := None)"
    and invar_empty: "invar empty"
    and invar_insert: "invar m \<Longrightarrow> invar (insert k v m)"
    and invar_remove: "invar m \<Longrightarrow> invar (remove k m)"
    and canonical: "invar m \<Longrightarrow> invar n \<Longrightarrow> get m = get n \<Longrightarrow> m = n"
begin

lemma invar_insert_all: "invar m \<Longrightarrow> invar (fold (\<lambda>(k, v). insert k v) ps m)"
  by (induction ps arbitrary: m) (auto intro: invar_insert)

lemma get_insert_all:
  "invar m \<Longrightarrow>
     get (fold (\<lambda>(k, v). insert k v) ps m) k =
       (case map_of (rev ps) k of Some v \<Rightarrow> Some v | None \<Rightarrow> get m k)"
proof (induction ps arbitrary: m)
  case Nil
  then show ?case by simp
next
  case (Cons p ps)
  obtain a b where p: "p = (a, b)"
    by (cases p)
  have "get (fold (\<lambda>(k, v). insert k v) ps (insert a b m)) k =
      (case map_of (rev ps) k of Some v \<Rightarrow> Some v | None \<Rightarrow> get (insert a b m) k)"
    using Cons.prems by (intro Cons.IH invar_insert)
  then show ?case
    using Cons.prems p by (auto simp: map_add_def get_insert split: option.splits)
qed

lemma invar_remove_all: "invar m \<Longrightarrow> invar (fold remove ks m)"
  by (induction ks arbitrary: m) (auto intro: invar_remove)

lemma get_remove_all:
  "invar m \<Longrightarrow> get (fold remove ks m) k = (if k \<in> set ks then None else get m k)"
  by (induction ks arbitrary: m) (auto simp: get_remove invar_remove)

lemma insert_commute:
  "invar m \<Longrightarrow> a \<noteq> b \<Longrightarrow> insert a x (insert b y m) = insert b y (insert a x m)"
  by (rule canonical) (auto simp: invar_insert get_insert)

lemma insert_overwrite: "invar m \<Longrightarrow> insert a x (insert a y m) = insert a x m"
  by (rule canonical) (auto simp: invar_insert get_insert)

end

section \<open>BTreeSet\<close>

type_synonym 'a bset = "'a list"

definition bset_ok :: "'a::linorder bset \<Rightarrow> bool" where
  "bset_ok s \<longleftrightarrow> sorted_wrt (<) s"

fun bset_insert :: "'a::linorder \<Rightarrow> 'a bset \<Rightarrow> 'a bset" where
  "bset_insert x [] = [x]"
| "bset_insert x (y # s) =
     (if y < x then y # bset_insert x s else if y = x then y # s else x # y # s)"

definition bset_of_list :: "'a::linorder list \<Rightarrow> 'a bset" where
  "bset_of_list xs = fold bset_insert xs []"

definition bset_extend :: "'a::linorder list \<Rightarrow> 'a bset \<Rightarrow> 'a bset" where
  "bset_extend xs s = fold bset_insert xs s"

definition bset_difference :: "'a::linorder bset \<Rightarrow> 'a bset \<Rightarrow> 'a bset" where
  "bset_difference s t = filter (\<lambda>x. \<not> List.member t x) s"

lemma bset_ok_simps [simp]:
  "bset_ok []"
  "bset_ok (x # s) \<longleftrightarrow> (\<forall>y\<in>set s. x < y) \<and> bset_ok s"
  by (simp_all add: bset_ok_def)

lemma set_bset_insert [simp]: "set (bset_insert x s) = insert x (set s)"
  by (induction s) auto

lemma bset_ok_insert [simp, intro]: "bset_ok s \<Longrightarrow> bset_ok (bset_insert x s)"
  by (induction s) auto

lemma bset_ok_unique: "bset_ok s \<Longrightarrow> bset_ok t \<Longrightarrow> set s = set t \<Longrightarrow> s = t"
  unfolding bset_ok_def by (rule strict_sorted_equal)

lemma bset_ok_distinct: "bset_ok s \<Longrightarrow> distinct s"
  by (induction s) auto

interpretation btree_set: set_contract "[]" bset_insert set bset_ok
  by unfold_locales (auto intro: bset_ok_unique)

lemma set_bset_of_list [simp]: "set (bset_of_list xs) = set xs"
  by (simp add: bset_of_list_def btree_set.elements_fold_insert)

lemma bset_ok_of_list [simp, intro]: "bset_ok (bset_of_list xs)"
  by (simp add: bset_of_list_def btree_set.invar_fold_insert)

lemma bset_of_list_id: "bset_ok s \<Longrightarrow> bset_of_list s = s"
  by (rule bset_ok_unique) simp_all

lemma bset_of_list_cong: "set xs = set ys \<Longrightarrow> bset_of_list xs = bset_of_list ys"
  by (rule bset_ok_unique) simp_all

lemma bset_of_list_eq_iff: "bset_of_list xs = bset_of_list ys \<longleftrightarrow> set xs = set ys"
  using bset_of_list_cong set_bset_of_list by metis

lemma bset_of_list_Nil_iff [simp]: "bset_of_list xs = [] \<longleftrightarrow> xs = []"
  by (metis set_bset_of_list set_empty)

lemma set_bset_extend [simp]: "bset_ok s \<Longrightarrow> set (bset_extend xs s) = set xs \<union> set s"
  by (simp add: bset_extend_def btree_set.elements_fold_insert)

lemma bset_ok_extend [simp, intro]: "bset_ok s \<Longrightarrow> bset_ok (bset_extend xs s)"
  by (simp add: bset_extend_def btree_set.invar_fold_insert)

lemma bset_extend_empty: "bset_extend xs [] = bset_of_list xs"
  by (simp add: bset_extend_def bset_of_list_def)

lemma set_bset_difference [simp]: "set (bset_difference s t) = set s - set t"
  by (auto simp: bset_difference_def)

lemma bset_ok_difference [simp, intro]: "bset_ok s \<Longrightarrow> bset_ok (bset_difference s t)"
  by (simp add: bset_ok_def bset_difference_def sorted_wrt_filter)

lemma length_bset_of_list_le: "length (bset_of_list xs) \<le> length xs"
  by (metis bset_ok_distinct bset_ok_of_list card_length distinct_card set_bset_of_list)

lemma length_bset_of_list: "length (bset_of_list xs) = card (set xs)"
  by (metis bset_ok_distinct bset_ok_of_list distinct_card set_bset_of_list)

section \<open>BTreeMap\<close>

type_synonym ('k, 'v) bmap = "('k \<times> 'v) list"

definition bmap_ok :: "('k::linorder, 'v) bmap \<Rightarrow> bool" where
  "bmap_ok m \<longleftrightarrow> sorted_wrt (<) (map fst m)"

abbreviation bmap_get :: "('k, 'v) bmap \<Rightarrow> 'k \<Rightarrow> 'v option" where
  "bmap_get m k \<equiv> map_of m k"

abbreviation bmap_keys :: "('k, 'v) bmap \<Rightarrow> 'k list" where
  "bmap_keys m \<equiv> map fst m"

abbreviation bmap_values :: "('k, 'v) bmap \<Rightarrow> 'v list" where
  "bmap_values m \<equiv> map snd m"

definition bmap_contains :: "('k, 'v) bmap \<Rightarrow> 'k \<Rightarrow> bool" where
  "bmap_contains m k = (case map_of m k of Some _ \<Rightarrow> True | None \<Rightarrow> False)"

fun bmap_insert :: "'k::linorder \<Rightarrow> 'v \<Rightarrow> ('k, 'v) bmap \<Rightarrow> ('k, 'v) bmap" where
  "bmap_insert k v [] = [(k, v)]"
| "bmap_insert k v (p # m) =
     (if fst p < k then p # bmap_insert k v m
      else if fst p = k then (k, v) # m else (k, v) # p # m)"

definition bmap_remove :: "'k \<Rightarrow> ('k, 'v) bmap \<Rightarrow> ('k, 'v) bmap" where
  "bmap_remove k m = filter (\<lambda>p. fst p \<noteq> k) m"

definition bmap_of_list :: "('k::linorder \<times> 'v) list \<Rightarrow> ('k, 'v) bmap" where
  "bmap_of_list ps = fold (\<lambda>(k, v). bmap_insert k v) ps []"

lemma bmap_ok_simps [simp]:
  "bmap_ok []"
  "bmap_ok (p # m) \<longleftrightarrow> (\<forall>q\<in>set m. fst p < fst q) \<and> bmap_ok m"
  by (simp_all add: bmap_ok_def)

lemma bmap_contains_iff [simp]: "bmap_contains m k \<longleftrightarrow> k \<in> fst ` set m"
  by (auto simp: bmap_contains_def map_of_eq_None_iff split: option.splits
      dest: map_of_SomeD intro: rev_image_eqI)

lemma fst_bmap_insert [simp]: "fst ` set (bmap_insert k v m) = insert k (fst ` set m)"
  by (induction m) auto

lemma bmap_ok_insert [simp, intro]: "bmap_ok m \<Longrightarrow> bmap_ok (bmap_insert k v m)"
proof (induction m)
  case Nil
  then show ?case by simp
next
  case (Cons p m)
  have "\<forall>q\<in>set (bmap_insert k v m). fst p < fst q" if "fst p < k"
  proof
    fix q assume "q \<in> set (bmap_insert k v m)"
    then have "fst q \<in> insert k (fst ` set m)"
      by (metis fst_bmap_insert imageI)
    with that Cons.prems show "fst p < fst q"
      by auto
  qed
  with Cons show ?case by auto
qed

lemma bmap_get_insert [simp]:
  "bmap_ok m \<Longrightarrow> map_of (bmap_insert k v m) = (map_of m)(k \<mapsto> v)"
proof (induction m)
  case Nil
  then show ?case by auto
next
  case (Cons p m)
  have "map_of m k = None" if "\<not> fst p < k"
    using that Cons.prems by (force simp: map_of_eq_None_iff)
  with Cons show ?case by (cases p) (auto simp: fun_eq_iff)
qed

lemma bmap_ok_remove [simp, intro]: "bmap_ok m \<Longrightarrow> bmap_ok (bmap_remove k m)"
  by (induction m) (auto simp: bmap_remove_def)

lemma bmap_get_remove [simp]: "map_of (bmap_remove k m) = (map_of m)(k := None)"
  by (induction m) (auto simp: bmap_remove_def fun_eq_iff)

lemma bmap_ok_distinct: "bmap_ok m \<Longrightarrow> distinct (map fst m)"
  by (induction m) auto

lemma bmap_ok_filter [simp, intro]: "bmap_ok m \<Longrightarrow> bmap_ok (filter P m)"
  by (induction m) auto

lemma bmap_ok_unique: "bmap_ok m \<Longrightarrow> bmap_ok n \<Longrightarrow> map_of m = map_of n \<Longrightarrow> m = n"
proof (induction m arbitrary: n)
  case Nil
  then show ?case by (cases n) (auto simp: fun_eq_iff split: if_splits)
next
  case (Cons p m)
  then obtain q n' where n: "n = q # n'"
    by (cases n) (auto simp: fun_eq_iff split: if_splits)
  have fst_eq: "fst p = fst q"
  proof (rule ccontr)
    assume ne: "fst p \<noteq> fst q"
    have "map_of n (fst p) \<noteq> None" "map_of (p # m) (fst q) \<noteq> None"
      using Cons.prems n by (cases p; cases q; simp add: fun_eq_iff; metis option.distinct(1))+
    then have "fst p \<in> fst ` set n'" "fst q \<in> fst ` set m"
      using ne n by (auto simp: map_of_eq_None_iff)
    then have "fst q < fst p" "fst p < fst q"
      using Cons.prems n by auto
    then show False by simp
  qed
  have snd_eq: "snd p = snd q"
    using Cons.prems(3) n fst_eq by (cases p; cases q) (auto simp: fun_eq_iff split: if_splits)
  have "map_of m = map_of n'"
  proof
    fix k
    show "map_of m k = map_of n' k"
    proof (cases "k = fst p")
      case True
      then have "map_of m k = None" "map_of n' k = None"
        using Cons.prems n fst_eq by (auto simp: map_of_eq_None_iff)
      then show ?thesis by simp
    next
      case False
      then show ?thesis
        using Cons.prems(3) n fst_eq by (cases p; cases q) (auto simp: fun_eq_iff split: if_splits)
    qed
  qed
  then have "m = n'"
    using Cons n by auto
  then show ?case
    using n fst_eq snd_eq by (simp add: prod_eq_iff)
qed

interpretation btree_map: map_contract "[]" bmap_insert bmap_remove map_of bmap_ok
  by unfold_locales (auto intro: bmap_ok_unique)

lemma bmap_ok_of_list [simp, intro]: "bmap_ok (bmap_of_list ps)"
  by (simp add: bmap_of_list_def btree_map.invar_insert_all)

lemma map_of_bmap_of_list [simp]: "map_of (bmap_of_list ps) = map_of (rev ps)"
  by (rule ext) (simp add: bmap_of_list_def btree_map.get_insert_all split: option.splits)

lemma map_of_rev_distinct: "distinct (map fst ps) \<Longrightarrow> map_of (rev ps) = map_of ps"
  by (simp add: map_of_inject_set flip: rev_map)

lemma bmap_of_list_id: "bmap_ok m \<Longrightarrow> bmap_of_list m = m"
  by (rule bmap_ok_unique) (simp_all add: map_of_rev_distinct bmap_ok_distinct)

lemma bmap_get_iff_mem: "bmap_ok m \<Longrightarrow> map_of m k = Some v \<longleftrightarrow> (k, v) \<in> set m"
  by (metis bmap_ok_distinct map_of_eq_Some_iff)

lemma bmap_ok_keys: "bmap_ok m \<Longrightarrow> bset_ok (map fst m)"
  by (simp add: bmap_ok_def bset_ok_def)

lemma bmap_ok_map_key: "bset_ok s \<Longrightarrow> bmap_ok (map (\<lambda>x. (x, f x)) s)"
  by (simp add: bmap_ok_def bset_ok_def comp_def)

lemma map_of_map_key: "map_of (map (\<lambda>x. (x, f x)) s) k = (if k \<in> set s then Some (f k) else None)"
  by (induction s) auto

section \<open>Sorting and removing neighbours with one key\<close>

text \<open>\<open>Vec::dedup_by\<close> on a key: of neighbours with one key the first stays.\<close>

fun dedup_by_key :: "('a \<Rightarrow> 'k) \<Rightarrow> 'a list \<Rightarrow> 'a list" where
  "dedup_by_key f [] = []"
| "dedup_by_key f [x] = [x]"
| "dedup_by_key f (x # y # xs) =
     (if f x = f y then dedup_by_key f (x # xs) else x # dedup_by_key f (y # xs))"

lemma dedup_by_key_subset: "set (dedup_by_key f xs) \<subseteq> set xs"
  by (induction f xs rule: dedup_by_key.induct) auto

lemma sorted_key_unique:
  fixes k :: "'a \<Rightarrow> 'k::linorder"
  assumes "sorted_wrt (<) (map k xs)" "sorted_wrt (<) (map k ys)" "set xs = set ys"
  shows "xs = ys"
proof -
  have "map k xs = map k ys"
    using assms by (intro bset_ok_unique) (simp_all add: bset_ok_def)
  moreover have "distinct (map k xs)"
    using assms(1) by (intro bset_ok_distinct) (simp add: bset_ok_def)
  then have "inj_on k (set xs \<union> set ys)"
    using assms(3) by (simp add: distinct_map)
  ultimately show ?thesis by (rule map_inj_on)
qed

lemma dedup_by_key_strict:
  fixes f :: "'a \<Rightarrow> 'k::linorder"
  shows "sorted (map f xs) \<Longrightarrow>
    sorted_wrt (<) (map f (dedup_by_key f xs)) \<and> f ` set (dedup_by_key f xs) = f ` set xs"
proof (induction f xs rule: dedup_by_key.induct)
  case (3 f x y xs)
  show ?case
  proof (cases "f x = f y")
    case True
    with 3 show ?thesis by auto
  next
    case False
    with 3 have ih: "sorted_wrt (<) (map f (dedup_by_key f (y # xs)))"
      "f ` set (dedup_by_key f (y # xs)) = f ` set (y # xs)" by simp_all
    have "f x < f z" if "z \<in> set (dedup_by_key f (y # xs))" for z
    proof -
      from that ih(2) have "f z \<in> f ` set (y # xs)" by blast
      then have "f y \<le> f z" using 3(3) by auto
      with False 3(3) show ?thesis by auto
    qed
    then have "sorted_wrt (<) (map f (x # dedup_by_key f (y # xs)))"
      using ih(1) by auto
    with ih(2) False show ?thesis by simp
  qed
qed simp_all

end
