(* ===== verification/Codec.thy ===== *)
theory Codec
  imports Std_Collections
begin

text \<open>
  The canonical byte helpers of \<open>crates/host-coordinator/src/device_identity.rs\<close>
  (\<open>push_u64\<close>, \<open>push_u32\<close>, \<open>push_bool\<close>, \<open>push_str\<close>), which every hash and receipt of the
  coordinator is built from, and the theory of the encoders made with them.

  The locale \<open>prefix_code\<close> is the contract a canonical encoder promises to the hashes over it:
  two encodings followed by arbitrary bytes agree only if the encoded values (and the rests)
  agree. Injectivity of whole records follows by peeling one field after the other, so the
  instances are declared as rewrite rules in the collection \<open>codec\<close>.
\<close>

section \<open>The helpers of device\_identity.rs\<close>

definition u64_to_le_bytes :: "u64 \<Rightarrow> u8 list" where
  "u64_to_le_bytes v = map (\<lambda>i. ucast (drop_bit (8 * i) v)) [0, 1, 2, 3, 4, 5, 6, 7]"

definition u32_to_le_bytes :: "u32 \<Rightarrow> u8 list" where
  "u32_to_le_bytes v = map (\<lambda>i. ucast (drop_bit (8 * i) v)) [0, 1, 2, 3]"

definition str_bytes :: "string \<Rightarrow> u8 list" where
  "str_bytes s = map of_char s"

definition push_u64 :: "u8 list \<Rightarrow> u64 \<Rightarrow> u8 list" where
  "push_u64 out v = out @ u64_to_le_bytes v"

definition push_u32 :: "u8 list \<Rightarrow> u32 \<Rightarrow> u8 list" where
  "push_u32 out v = out @ u32_to_le_bytes v"

definition push_bool :: "u8 list \<Rightarrow> bool \<Rightarrow> u8 list" where
  "push_bool out v = out @ [if v then 1 else 0]"

definition push_str :: "u8 list \<Rightarrow> string \<Rightarrow> u8 list" where
  "push_str out s = push_u64 out (of_nat (length s)) @ str_bytes s"

text \<open>A Rust length is a \<open>usize\<close>: no string or collection is longer than this bound.\<close>

definition fits_usize :: "'a list \<Rightarrow> bool" where
  "fits_usize xs \<longleftrightarrow> length xs < 2 ^ 64"

section \<open>The contract of an encoder\<close>

locale prefix_code =
  fixes enc :: "'a \<Rightarrow> u8 list"
    and valid :: "'a \<Rightarrow> bool"
  assumes peel: "valid x \<Longrightarrow> valid y \<Longrightarrow> enc x @ r = enc y @ s \<Longrightarrow> x = y \<and> r = s"
begin

lemma peel_iff: "valid x \<Longrightarrow> valid y \<Longrightarrow> enc x @ r = enc y @ s \<longleftrightarrow> x = y \<and> r = s"
  using peel by blast

lemma inj: "valid x \<Longrightarrow> valid y \<Longrightarrow> enc x = enc y \<longleftrightarrow> x = y"
  using peel [of x y "[]" "[]"] by auto

lemma peel_concat:
  "length xs = length ys \<Longrightarrow> \<forall>x\<in>set xs. valid x \<Longrightarrow> \<forall>y\<in>set ys. valid y \<Longrightarrow>
     concat (map enc xs) @ r = concat (map enc ys) @ s \<longleftrightarrow> xs = ys \<and> r = s"
proof (induction xs arbitrary: ys)
  case Nil
  then show ?case by simp
next
  case (Cons x xs)
  then obtain y ys' where "ys = y # ys'"
    by (cases ys) auto
  with Cons show ?case
    by (auto simp: peel_iff)
qed

end

section \<open>Fixed-width words\<close>

lemma length_u64_to_le_bytes [simp]: "length (u64_to_le_bytes v) = 8"
  by (simp add: u64_to_le_bytes_def)

lemma length_u32_to_le_bytes [simp]: "length (u32_to_le_bytes v) = 4"
  by (simp add: u32_to_le_bytes_def)

lemma byte_eq_bits:
  "(ucast (drop_bit n v) :: u8) = ucast (drop_bit n w) \<Longrightarrow> i < 8 \<Longrightarrow>
     bit (v :: 'a::len word) (n + i) = bit w (n + i)"
  by (drule arg_cong [where f = "\<lambda>b. bit b i"])
     (auto simp: bit_unsigned_iff bit_drop_bit_eq dest: bit_imp_le_length)

lemma u64_to_le_bytes_eq_iff [codec]: "u64_to_le_bytes v = u64_to_le_bytes w \<longleftrightarrow> v = w"
proof
  assume eq: "u64_to_le_bytes v = u64_to_le_bytes w"
  show "v = w"
  proof (rule bit_word_eqI)
    fix n assume "n < LENGTH(64)"
    then have "n div 8 \<in> {0, 1, 2, 3, 4, 5, 6, 7}"
      by auto
    then have "(ucast (drop_bit (8 * (n div 8)) v) :: u8) = ucast (drop_bit (8 * (n div 8)) w)"
      using eq by (auto simp: u64_to_le_bytes_def)
    from byte_eq_bits [OF this, of "n mod 8"] show "bit v n = bit w n"
      by simp
  qed
qed simp

lemma u32_to_le_bytes_eq_iff [codec]: "u32_to_le_bytes v = u32_to_le_bytes w \<longleftrightarrow> v = w"
proof
  assume eq: "u32_to_le_bytes v = u32_to_le_bytes w"
  show "v = w"
  proof (rule bit_word_eqI)
    fix n assume "n < LENGTH(32)"
    then have "n div 8 \<in> {0, 1, 2, 3}"
      by auto
    then have "(ucast (drop_bit (8 * (n div 8)) v) :: u8) = ucast (drop_bit (8 * (n div 8)) w)"
      using eq by (auto simp: u32_to_le_bytes_def)
    from byte_eq_bits [OF this, of "n mod 8"] show "bit v n = bit w n"
      by simp
  qed
qed simp

interpretation u64_code: prefix_code u64_to_le_bytes "\<lambda>_. True"
  by unfold_locales (auto simp: append_eq_append_conv u64_to_le_bytes_eq_iff)

interpretation u32_code: prefix_code u32_to_le_bytes "\<lambda>_. True"
  by unfold_locales (auto simp: append_eq_append_conv u32_to_le_bytes_eq_iff)

section \<open>Length-prefixed strings\<close>

definition str_code :: "string \<Rightarrow> u8 list" where
  "str_code s = u64_to_le_bytes (of_nat (length s)) @ str_bytes s"

lemma unat_of_char_u8: "unat (of_char c :: u8) = of_char c"
proof -
  have "unat (of_nat (of_char c) :: u8) = of_char c"
    by (simp add: unsigned_of_nat take_bit_nat_eq_self del: of_nat_of_char)
  then show ?thesis
    by (simp only: of_nat_of_char)
qed

lemma of_char_u8_inject: "(of_char c :: u8) = of_char d \<longleftrightarrow> c = d"
  by (metis unat_of_char_u8 of_char_eq_iff)

lemma str_bytes_eq_iff [codec]: "str_bytes s = str_bytes t \<longleftrightarrow> s = t"
  unfolding str_bytes_def by (rule inj_map_eq_map) (auto intro: injI simp: of_char_u8_inject)

lemma length_str_bytes [simp]: "length (str_bytes s) = length s"
  by (simp add: str_bytes_def)

lemma of_nat_length_eq_iff:
  "fits_usize xs \<Longrightarrow> fits_usize ys \<Longrightarrow>
     (of_nat (length xs) :: u64) = of_nat (length ys) \<longleftrightarrow> length xs = length ys"
  by (simp add: fits_usize_def word_of_nat_eq_iff take_bit_nat_eq_self)

interpretation str_prefix: prefix_code str_code fits_usize
  by unfold_locales
     (auto simp: str_code_def u64_code.peel_iff u64_code.inj of_nat_length_eq_iff
       append_eq_append_conv str_bytes_eq_iff)

section \<open>Pushing is appending an encoding\<close>

definition bool_code :: "bool \<Rightarrow> u8 list" where
  "bool_code v = [if v then 1 else 0]"

interpretation bool_prefix: prefix_code bool_code "\<lambda>_. True"
  by unfold_locales (auto simp: bool_code_def split: if_splits)

lemma push_code [codec]:
  "push_u64 out v = out @ u64_to_le_bytes v"
  "push_u32 out w = out @ u32_to_le_bytes w"
  "push_bool out b = out @ bool_code b"
  "push_str out s = out @ str_code s"
  by (simp_all add: push_u64_def push_u32_def push_bool_def push_str_def str_code_def bool_code_def)

lemmas peel_simps =
  u64_code.peel_iff u32_code.peel_iff bool_prefix.peel_iff str_prefix.peel_iff
  u64_code.inj u32_code.inj bool_prefix.inj str_prefix.inj

text \<open>A length-prefixed sequence of self-delimiting encodings is self-delimiting.\<close>

definition list_code :: "('a \<Rightarrow> u8 list) \<Rightarrow> 'a list \<Rightarrow> u8 list" where
  "list_code enc xs = u64_to_le_bytes (of_nat (length xs)) @ concat (map enc xs)"

lemma list_code_prefix:
  assumes "prefix_code enc valid"
  shows "prefix_code (list_code enc) (\<lambda>xs. fits_usize xs \<and> (\<forall>x\<in>set xs. valid x))"
proof
  fix xs ys :: "'a list" and r s
  assume ok: "fits_usize xs \<and> (\<forall>x\<in>set xs. valid x)" "fits_usize ys \<and> (\<forall>x\<in>set ys. valid x)"
    and eq: "list_code enc xs @ r = list_code enc ys @ s"
  then have "length xs = length ys" "concat (map enc xs) @ r = concat (map enc ys) @ s"
    by (auto simp: list_code_def u64_code.peel_iff u64_code.inj of_nat_length_eq_iff)
  with ok show "xs = ys \<and> r = s"
    using prefix_code.peel_concat [OF assms, of xs ys r s] by simp
qed

text \<open>Encoding through an injective field is self-delimiting.\<close>

lemma prefix_code_field:
  assumes "prefix_code enc valid" and "\<And>x y. f x = f y \<Longrightarrow> x = y"
  shows "prefix_code (\<lambda>x. enc (f x)) (\<lambda>x. valid (f x))"
  by unfold_locales (meson assms prefix_code.peel)

lemma fold_push_concat:
  "(\<And>x out. f out x = out @ enc x) \<Longrightarrow> fold (\<lambda>x out. f out x) xs out = out @ concat (map enc xs)"
  by (induction xs arbitrary: out) auto

lemma fold_append_concat: "fold (\<lambda>x out. out @ enc x) xs out = out @ concat (map enc xs)"
  by (induction xs arbitrary: out) auto

end
