(* ===== verification/Device_Identity.thy ===== *)
theory Device_Identity
  imports Codec
begin

text \<open>
  \<open>crates/host-coordinator/src/backend.rs\<close> and \<open>device_identity.rs\<close>: the physical backend,
  the opaque identity of a physical device with its canonical bytes and replacement detection,
  the locator ordinal, and the machine-local health epoch.

  The key structs are one-constructor datatypes, so that the derived lexicographic \<open>Ord\<close> is an
  instance of the class linorder and device ids can key the ordered collections.
\<close>

section \<open>Backends\<close>

datatype DeviceBackend = Metal | Cuda

fun DeviceBackend_spelling :: "DeviceBackend \<Rightarrow> string" where
  "DeviceBackend_spelling Metal = ''metal''"
| "DeviceBackend_spelling Cuda = ''cuda''"

definition DeviceBackend_from_spelling :: "string \<Rightarrow> DeviceBackend option" where
  "DeviceBackend_from_spelling spelling =
     (if spelling = ''metal'' then Some Metal
      else if spelling = ''cuda'' then Some Cuda
      else None)"

lemma from_spelling_iff:
  "DeviceBackend_from_spelling s = Some b \<longleftrightarrow> s = DeviceBackend_spelling b"
  by (cases b) (auto simp: DeviceBackend_from_spelling_def)

section \<open>Identity facts and ids\<close>

datatype CudaIdentityFacts = CudaIdentityFacts (pci_uuid: string) (driver_uuid: "string option")

datatype MetalIdentityFacts = MetalIdentityFacts (registry_id: string)

datatype DeviceIdentityFacts =
    CudaFacts CudaIdentityFacts
  | MetalFacts MetalIdentityFacts

datatype PhysicalDeviceId = PhysicalDeviceId (facts: DeviceIdentityFacts)

definition PhysicalDeviceId_cuda :: "string \<Rightarrow> string option \<Rightarrow> PhysicalDeviceId" where
  "PhysicalDeviceId_cuda pci drv = PhysicalDeviceId (CudaFacts (CudaIdentityFacts pci drv))"

definition PhysicalDeviceId_metal :: "string \<Rightarrow> PhysicalDeviceId" where
  "PhysicalDeviceId_metal reg = PhysicalDeviceId (MetalFacts (MetalIdentityFacts reg))"

definition PhysicalDeviceId_backend :: "PhysicalDeviceId \<Rightarrow> DeviceBackend" where
  "PhysicalDeviceId_backend d = (case facts d of CudaFacts _ \<Rightarrow> Cuda | MetalFacts _ \<Rightarrow> Metal)"

text \<open>
  The derived order compares the variant, then the fields in declaration order; \<open>None\<close> is below
  \<open>Some\<close>.
\<close>

fun device_key :: "PhysicalDeviceId \<Rightarrow> nat \<times> string \<times> string option" where
  "device_key (PhysicalDeviceId (CudaFacts c)) = (0, pci_uuid c, driver_uuid c)"
| "device_key (PhysicalDeviceId (MetalFacts m)) = (1, registry_id m, None)"

lemma device_key_inject: "device_key a = device_key b \<longleftrightarrow> a = b"
  by (cases a rule: device_key.cases; cases b rule: device_key.cases)
     (auto simp: CudaIdentityFacts.expand MetalIdentityFacts.expand)

instantiation PhysicalDeviceId :: linorder
begin

definition less_eq_PhysicalDeviceId :: "PhysicalDeviceId \<Rightarrow> PhysicalDeviceId \<Rightarrow> bool" where
  "a \<le> b \<longleftrightarrow> device_key a \<le> device_key b"

definition less_PhysicalDeviceId :: "PhysicalDeviceId \<Rightarrow> PhysicalDeviceId \<Rightarrow> bool" where
  "a < b \<longleftrightarrow> device_key a < device_key b"

instance
  by standard
     (auto simp: less_eq_PhysicalDeviceId_def less_PhysicalDeviceId_def device_key_inject
       dest: antisym)

end

fun PhysicalDeviceId_canonical_bytes :: "PhysicalDeviceId \<Rightarrow> u8 list" where
  "PhysicalDeviceId_canonical_bytes (PhysicalDeviceId (CudaFacts c)) =
     (let out = [] @ [0];
          out = push_str out (pci_uuid c);
          out = push_bool out (driver_uuid c \<noteq> None)
      in case driver_uuid c of
           Some uuid \<Rightarrow> push_str out uuid
         | None \<Rightarrow> out)"
| "PhysicalDeviceId_canonical_bytes (PhysicalDeviceId (MetalFacts m)) =
     (let out = [] @ [1]
      in push_str out (registry_id m))"

fun PhysicalDeviceId_display :: "PhysicalDeviceId \<Rightarrow> string" where
  "PhysicalDeviceId_display (PhysicalDeviceId (CudaFacts c)) =
     ''cuda:'' @ pci_uuid c @
     (case driver_uuid c of
        Some uuid \<Rightarrow> '' (driver '' @ uuid @ '')''
      | None \<Rightarrow> [])"
| "PhysicalDeviceId_display (PhysicalDeviceId (MetalFacts m)) = ''metal:'' @ registry_id m"

datatype IdentityChange = SameDevice | Replaced

definition change_against :: "PhysicalDeviceId \<Rightarrow> PhysicalDeviceId \<Rightarrow> IdentityChange" where
  "change_against this previous = (if this = previous then SameDevice else Replaced)"

text \<open>The strings of an id are as long as a \<open>usize\<close> allows.\<close>

fun device_fits :: "PhysicalDeviceId \<Rightarrow> bool" where
  "device_fits (PhysicalDeviceId (CudaFacts c)) \<longleftrightarrow>
     fits_usize (pci_uuid c) \<and> (case driver_uuid c of None \<Rightarrow> True | Some u \<Rightarrow> fits_usize u)"
| "device_fits (PhysicalDeviceId (MetalFacts m)) \<longleftrightarrow> fits_usize (registry_id m)"

interpretation device_code: prefix_code PhysicalDeviceId_canonical_bytes device_fits
proof
  fix a b :: PhysicalDeviceId and r s
  assume "device_fits a" "device_fits b"
    and "PhysicalDeviceId_canonical_bytes a @ r = PhysicalDeviceId_canonical_bytes b @ s"
  then show "a = b \<and> r = s"
    by (cases a rule: device_key.cases; cases b rule: device_key.cases)
       (auto simp: codec peel_simps CudaIdentityFacts.expand MetalIdentityFacts.expand
         split: option.splits)
qed

section \<open>Locator and health epoch\<close>

datatype DeviceOrdinal = DeviceOrdinal (ordinal_get: u32)

instantiation DeviceOrdinal :: linorder
begin

definition less_eq_DeviceOrdinal :: "DeviceOrdinal \<Rightarrow> DeviceOrdinal \<Rightarrow> bool" where
  "a \<le> b \<longleftrightarrow> ordinal_get a \<le> ordinal_get b"

definition less_DeviceOrdinal :: "DeviceOrdinal \<Rightarrow> DeviceOrdinal \<Rightarrow> bool" where
  "a < b \<longleftrightarrow> ordinal_get a < ordinal_get b"

instance
  by standard
     (auto simp: less_eq_DeviceOrdinal_def less_DeviceOrdinal_def intro: DeviceOrdinal.expand)

end

datatype DeviceHealthGeneration = DeviceHealthGeneration (generation_get: u64)

definition DeviceHealthGeneration_initial :: DeviceHealthGeneration where
  "DeviceHealthGeneration_initial = DeviceHealthGeneration 1"

definition DeviceHealthGeneration_advance :: "DeviceHealthGeneration \<Rightarrow> DeviceHealthGeneration" where
  "DeviceHealthGeneration_advance g =
     DeviceHealthGeneration (saturating_add (generation_get g) 1)"

definition generation_is_stale :: "DeviceHealthGeneration \<Rightarrow> DeviceHealthGeneration \<Rightarrow> bool" where
  "generation_is_stale this candidate \<longleftrightarrow> candidate \<noteq> this"

definition generation_is_current :: "DeviceHealthGeneration \<Rightarrow> DeviceHealthGeneration \<Rightarrow> bool" where
  "generation_is_current this candidate \<longleftrightarrow> candidate = this"

definition display_generation :: "DeviceHealthGeneration \<Rightarrow> string" where
  "display_generation g = display_u64 (generation_get g)"

text \<open>
  The epoch is monotone, and each advance makes every earlier epoch stale, until the counter
  saturates at its maximum: from there on an advance changes nothing.
\<close>

lemma generation_after_advances:
  "unat (generation_get ((DeviceHealthGeneration_advance ^^ n) g)) =
     min (unat (generation_get g) + n) (2 ^ 64 - 1)"
proof (induction n)
  case 0
  have "unat (generation_get g) \<le> 2 ^ 64 - 1"
    using unat_u64_lt [of "generation_get g"] by (simp del: unat_u64_lt)
  then show ?case by (simp add: min_absorb1)
next
  case (Suc n)
  then show ?case
    by (simp add: DeviceHealthGeneration_advance_def unat_saturating_add)
qed

lemma advance_stale_iff:
  "generation_is_stale (DeviceHealthGeneration_advance g) g \<longleftrightarrow> generation_get g \<noteq> u64_MAX"
proof -
  have "v = saturating_add v 1 \<longleftrightarrow> v = u64_MAX" for v
  proof -
    have "unat (saturating_add v 1) = min (unat v + 1) 18446744073709551615"
      by (simp add: unat_saturating_add)
    moreover have "unat v < 18446744073709551616"
      by (rule unat_u64_lt)
    ultimately have "unat (saturating_add v 1) = unat v \<longleftrightarrow> unat v = unat u64_MAX"
      unfolding unat_u64_MAX by linarith
    then show ?thesis
      by (metis word_unat_eq_iff)
  qed
  then show ?thesis
    by (cases g) (simp add: generation_is_stale_def DeviceHealthGeneration_advance_def)
qed

end
