(* ===== verification/Sha256.thy ===== *)
theory Sha256
  imports Codec
begin

text \<open>
  The dependency-free SHA-256 of \<open>crates/host-coordinator/src/discovery.rs\<close> (\<open>struct Sha256\<close>
  and its \<open>impl\<close>), which content-addresses discovery samples. The hasher is the source's
  streaming state (chaining words, 64-byte buffer, fill level, message length); \<open>sha_represents\<close>
  relates it to the whole message, every \<open>update\<close> preserves the relation, and \<open>finalize\<close> yields
  the padded block fold of FIPS 180-4, however the message was split.
\<close>

section \<open>State and compression\<close>

type_synonym sha_words = "u32 \<times> u32 \<times> u32 \<times> u32 \<times> u32 \<times> u32 \<times> u32 \<times> u32"

record Sha256 =
  sha_state :: sha_words
  sha_buf :: "u8 list"
  sha_buf_len :: nat
  sha_total_len :: u64

definition SHA256_K :: "u32 list" where
  "SHA256_K =
     [0x428a2f98, 0x71374491, 0xb5c0fbcf, 0xe9b5dba5, 0x3956c25b, 0x59f111f1, 0x923f82a4, 0xab1c5ed5] @
     [0xd807aa98, 0x12835b01, 0x243185be, 0x550c7dc3, 0x72be5d74, 0x80deb1fe, 0x9bdc06a7, 0xc19bf174] @
     [0xe49b69c1, 0xefbe4786, 0x0fc19dc6, 0x240ca1cc, 0x2de92c6f, 0x4a7484aa, 0x5cb0a9dc, 0x76f988da] @
     [0x983e5152, 0xa831c66d, 0xb00327c8, 0xbf597fc7, 0xc6e00bf3, 0xd5a79147, 0x06ca6351, 0x14292967] @
     [0x27b70a85, 0x2e1b2138, 0x4d2c6dfc, 0x53380d13, 0x650a7354, 0x766a0abb, 0x81c2c92e, 0x92722c85] @
     [0xa2bfe8a1, 0xa81a664b, 0xc24b8b70, 0xc76c51a3, 0xd192e819, 0xd6990624, 0xf40e3585, 0x106aa070] @
     [0x19a4c116, 0x1e376c08, 0x2748774c, 0x34b0bcb5, 0x391c0cb3, 0x4ed8aa4a, 0x5b9cca4f, 0x682e6ff3] @
     [0x748f82ee, 0x78a5636f, 0x84c87814, 0x8cc70208, 0x90befffa, 0xa4506ceb, 0xbef9a3f7, 0xc67178f2]"

definition Sha256_new :: Sha256 where
  "Sha256_new =
     \<lparr>sha_state = (0x6a09e667, 0xbb67ae85, 0x3c6ef372, 0xa54ff53a,
                   0x510e527f, 0x9b05688c, 0x1f83d9ab, 0x5be0cd19),
      sha_buf = replicate 64 0,
      sha_buf_len = 0,
      sha_total_len = 0\<rparr>"

definition rotate_right :: "u32 \<Rightarrow> nat \<Rightarrow> u32" where
  "rotate_right x n = or (drop_bit n x) (push_bit (32 - n) x)"

definition u32_from_be_bytes :: "u8 \<Rightarrow> u8 \<Rightarrow> u8 \<Rightarrow> u8 \<Rightarrow> u32" where
  "u32_from_be_bytes b0 b1 b2 b3 =
     or (push_bit 24 (ucast b0)) (or (push_bit 16 (ucast b1)) (or (push_bit 8 (ucast b2)) (ucast b3)))"

definition u32_to_be_bytes :: "u32 \<Rightarrow> u8 list" where
  "u32_to_be_bytes v = map (\<lambda>i. ucast (drop_bit (8 * i) v)) [3, 2, 1, 0]"

definition u64_to_be_bytes :: "u64 \<Rightarrow> u8 list" where
  "u64_to_be_bytes v = map (\<lambda>i. ucast (drop_bit (8 * i) v)) [7, 6, 5, 4, 3, 2, 1, 0]"

definition message_schedule :: "u8 list \<Rightarrow> u32 list" where
  "message_schedule block =
     (let w = replicate 64 0;
          w = fold (\<lambda>i w. let base = i * 4 in
                w[i := u32_from_be_bytes (block ! base) (block ! (base + 1))
                         (block ! (base + 2)) (block ! (base + 3))]) [0..<16] w
      in fold (\<lambda>i w.
           let s0 = xor (xor (rotate_right (w ! (i - 15)) 7) (rotate_right (w ! (i - 15)) 18))
                      (drop_bit 3 (w ! (i - 15)));
               s1 = xor (xor (rotate_right (w ! (i - 2)) 17) (rotate_right (w ! (i - 2)) 19))
                      (drop_bit 10 (w ! (i - 2)))
           in w[i := w ! (i - 16) + s0 + w ! (i - 7) + s1]) [16..<64] w)"

definition sha_round :: "u32 list \<Rightarrow> nat \<Rightarrow> sha_words \<Rightarrow> sha_words" where
  "sha_round w i = (\<lambda>(a, b, c, d, e, f, g, h).
     let s1 = xor (xor (rotate_right e 6) (rotate_right e 11)) (rotate_right e 25);
         ch = xor (and e f) (and (not e) g);
         temp1 = h + s1 + ch + SHA256_K ! i + w ! i;
         s0 = xor (xor (rotate_right a 2) (rotate_right a 13)) (rotate_right a 22);
         maj = xor (xor (and a b) (and a c)) (and b c);
         temp2 = s0 + maj
     in (temp1 + temp2, a, b, c, d + temp1, e, f, g))"

definition compress :: "u8 list \<Rightarrow> sha_words \<Rightarrow> sha_words" where
  "compress block st =
     (let w = message_schedule block;
          (a, b, c, d, e, f, g, h) = fold (sha_round w) [0..<64] st;
          (s0, s1, s2, s3, s4, s5, s6, s7) = st
      in (s0 + a, s1 + b, s2 + c, s3 + d, s4 + e, s5 + f, s6 + g, s7 + h))"

section \<open>Streaming\<close>

text \<open>The loop of \<open>update\<close> over whole blocks: the chaining words and the data left over.\<close>

function absorb_blocks :: "sha_words \<Rightarrow> u8 list \<Rightarrow> sha_words \<times> u8 list" where
  "absorb_blocks st data =
     (if 64 \<le> length data then absorb_blocks (compress (take 64 data) st) (drop 64 data)
      else (st, data))"
  by pat_completeness auto
termination
  by (relation "measure (length \<circ> snd)") auto

declare absorb_blocks.simps [simp del]

definition write_at :: "nat \<Rightarrow> 'a list \<Rightarrow> 'a list \<Rightarrow> 'a list" where
  "write_at n src dst = take n dst @ src @ drop (n + length src) dst"

definition fill_buffer :: "u8 list \<Rightarrow> Sha256 \<Rightarrow> Sha256 \<times> u8 list" where
  "fill_buffer data h =
     (if 0 < sha_buf_len h then
        let n = min (64 - sha_buf_len h) (length data);
            h = h\<lparr>sha_buf := write_at (sha_buf_len h) (take n data) (sha_buf h),
                  sha_buf_len := sha_buf_len h + n\<rparr>;
            data = drop n data
        in if sha_buf_len h = 64
           then (h\<lparr>sha_state := compress (sha_buf h) (sha_state h), sha_buf_len := 0\<rparr>, data)
           else (h, data)
      else (h, data))"

definition Sha256_update :: "u8 list \<Rightarrow> Sha256 \<Rightarrow> Sha256" where
  "Sha256_update data h =
     (let h = h\<lparr>sha_total_len := sha_total_len h + of_nat (length data)\<rparr>;
          (h, data) = fill_buffer data h;
          (st, data) = absorb_blocks (sha_state h) data;
          h = h\<lparr>sha_state := st\<rparr>
      in if data \<noteq> [] then
           h\<lparr>sha_buf := write_at 0 data (sha_buf h), sha_buf_len := length data\<rparr>
         else h)"

definition pad_count :: "nat \<Rightarrow> nat" where
  "pad_count n = (if n mod 64 \<le> 56 then 56 - n mod 64 else 120 - n mod 64)"

lemma pad_count_0_iff: "pad_count n = 0 \<longleftrightarrow> n mod 64 = 56"
proof -
  have "n mod 64 < 64" by simp
  then show ?thesis by (auto simp: pad_count_def)
qed

lemma pad_count_Suc:
  assumes "n mod 64 \<noteq> 56"
  shows "pad_count n = Suc (pad_count (Suc n))"
proof -
  have "n mod 64 < 64" by simp
  with assms show ?thesis
    by (auto simp: pad_count_def mod_Suc split: if_splits)
qed

function pad_zeros :: "u8 list \<Rightarrow> u8 list" where
  "pad_zeros tail = (if length tail mod 64 \<noteq> 56 then pad_zeros (tail @ [0]) else tail)"
  by pat_completeness auto
termination
  by (relation "measure (pad_count \<circ> length)") (auto simp: pad_count_Suc)

declare pad_zeros.simps [simp del]

function chunks_exact :: "u8 list \<Rightarrow> u8 list list" where
  "chunks_exact xs = (if 64 \<le> length xs then take 64 xs # chunks_exact (drop 64 xs) else [])"
  by pat_completeness auto
termination
  by (relation "measure length") auto

declare chunks_exact.simps [simp del]

definition sha_output :: "sha_words \<Rightarrow> u8 list" where
  "sha_output = (\<lambda>(a, b, c, d, e, f, g, h). concat (map u32_to_be_bytes [a, b, c, d, e, f, g, h]))"

definition Sha256_finalize :: "Sha256 \<Rightarrow> u8 list" where
  "Sha256_finalize h =
     (let bit_len = u64_to_be_bytes (sha_total_len h * 8);
          tail = take (sha_buf_len h) (sha_buf h);
          tail = tail @ [0x80];
          tail = pad_zeros tail;
          tail = tail @ bit_len
      in sha_output (fold compress (chunks_exact tail) (sha_state h)))"

definition Sha256_digest :: "u8 list \<Rightarrow> u8 list" where
  "Sha256_digest data = Sha256_finalize (Sha256_update data Sha256_new)"

lemma absorb_short [simp]: "length xs < 64 \<Longrightarrow> absorb_blocks st xs = (st, xs)"
  by (simp add: absorb_blocks.simps)

lemma absorb_long:
  "64 \<le> length xs \<Longrightarrow> absorb_blocks st xs = absorb_blocks (compress (take 64 xs) st) (drop 64 xs)"
  by (subst absorb_blocks.simps) simp

lemma absorb_block:
  "length xs = 64 \<Longrightarrow> absorb_blocks st (xs @ ys) = absorb_blocks (compress xs st) ys"
  by (subst absorb_blocks.simps) simp

lemma absorb_rest_length: "absorb_blocks st xs = (s, r) \<Longrightarrow> length r = length xs mod 64"
proof (induction st xs arbitrary: s r rule: absorb_blocks.induct)
  case (1 st data)
  show ?case
  proof (cases "64 \<le> length data")
    case True
    with 1 have "length r = length (drop 64 data) mod 64"
      by (metis absorb_long)
    with True show ?thesis
      by (simp add: le_mod_geq)
  next
    case False
    with 1(2) show ?thesis by auto
  qed
qed

lemma absorb_append:
  "absorb_blocks st (xs @ ys) = (case absorb_blocks st xs of (s, r) \<Rightarrow> absorb_blocks s (r @ ys))"
proof (induction st xs rule: absorb_blocks.induct)
  case (1 st data)
  then show ?case
    by (cases "64 \<le> length data") (simp_all add: absorb_long)
qed

lemma absorb_fold:
  "64 dvd length xs \<Longrightarrow> absorb_blocks st xs = (fold compress (chunks_exact xs) st, [])"
proof (induction st xs rule: absorb_blocks.induct)
  case (1 st data)
  show ?case
  proof (cases "64 \<le> length data")
    case True
    moreover have "64 dvd length (drop 64 data)"
      using 1 True by (simp add: dvd_diff_nat)
    ultimately show ?thesis
      using 1(1) by (simp add: absorb_long chunks_exact.simps [of data])
  next
    case False
    with 1(2) have "data = []"
      by (metis dvd_imp_le length_0_conv neq0_conv not_le)
    then show ?thesis
      by (simp add: chunks_exact.simps)
  qed
qed

section \<open>The hasher represents the message read so far\<close>

definition sha_represents :: "Sha256 \<Rightarrow> u8 list \<Rightarrow> bool" where
  "sha_represents h m \<longleftrightarrow>
     absorb_blocks (sha_state Sha256_new) m = (sha_state h, take (sha_buf_len h) (sha_buf h)) \<and>
     sha_buf_len h < 64 \<and> length (sha_buf h) = 64 \<and> sha_total_len h = of_nat (length m)"

text \<open>FIPS 180-4: pad the message, fold the compression over its blocks.\<close>

definition sha_padding :: "u8 list \<Rightarrow> u8 list" where
  "sha_padding m =
     m @ [0x80] @ replicate (pad_count (length m + 1)) 0 @ u64_to_be_bytes (of_nat (8 * length m))"

definition sha_reference :: "u8 list \<Rightarrow> u8 list" where
  "sha_reference m =
     sha_output (fold compress (chunks_exact (sha_padding m)) (sha_state Sha256_new))"

lemma represents_new: "sha_represents Sha256_new []"
  by (simp add: sha_represents_def Sha256_new_def)

lemma length_write_at: "n + length src \<le> length dst \<Longrightarrow> length (write_at n src dst) = length dst"
  by (simp add: write_at_def)

lemma take_write_at:
  "n + length src \<le> length dst \<Longrightarrow> take (n + length src) (write_at n src dst) = take n dst @ src"
  by (simp add: write_at_def)

lemma fill_buffer_absorbs:
  assumes "length (sha_buf h) = 64" "sha_buf_len h < 64"
    and "fill_buffer data h = (h', data')"
  shows "absorb_blocks (sha_state h) (take (sha_buf_len h) (sha_buf h) @ data) =
           absorb_blocks (sha_state h') (take (sha_buf_len h') (sha_buf h') @ data')"
    and "length (sha_buf h') = 64" "sha_buf_len h' < 64"
    and "sha_buf_len h' = 0 \<or> data' = []"
    and "sha_total_len h' = sha_total_len h"
proof -
  let ?n = "min (64 - sha_buf_len h) (length data)"
  let ?buf = "write_at (sha_buf_len h) (take ?n data) (sha_buf h)"
  have len: "length ?buf = 64"
    using assms(1,2) by (subst length_write_at) auto
  have tk: "take (sha_buf_len h + ?n) ?buf = take (sha_buf_len h) (sha_buf h) @ take ?n data"
    using take_write_at [of "sha_buf_len h" "take ?n data" "sha_buf h"] assms(1,2) by simp
  show "absorb_blocks (sha_state h) (take (sha_buf_len h) (sha_buf h) @ data) =
           absorb_blocks (sha_state h') (take (sha_buf_len h') (sha_buf h') @ data')"
  proof (cases "0 < sha_buf_len h \<and> sha_buf_len h + ?n = 64")
    case True
    then have "?buf = take (sha_buf_len h) (sha_buf h) @ take ?n data"
      using tk len by simp
    moreover have "h' = h\<lparr>sha_buf := ?buf, sha_state := compress ?buf (sha_state h), sha_buf_len := 0\<rparr>"
        "data' = drop ?n data"
      using True assms(3) by (auto simp: fill_buffer_def Let_def)
    moreover have "take (sha_buf_len h) (sha_buf h) @ data = ?buf @ drop ?n data"
      using calculation(1) by simp
    ultimately show ?thesis
      using absorb_block [OF len, of "sha_state h" "drop ?n data"] by simp
  next
    case False
    then have "0 < sha_buf_len h \<Longrightarrow> ?n = length data"
      using assms(2) by auto
    then show ?thesis
      using False assms(3) tk by (auto simp: fill_buffer_def Let_def split: if_splits)
  qed
  show "length (sha_buf h') = 64" "sha_total_len h' = sha_total_len h"
    using assms len by (auto simp: fill_buffer_def Let_def split: if_splits)
  show "sha_buf_len h' < 64" "sha_buf_len h' = 0 \<or> data' = []"
    using assms by (auto simp: fill_buffer_def Let_def min_def split: if_splits)
qed

lemma represents_update:
  assumes "sha_represents h m"
  shows "sha_represents (Sha256_update data h) (m @ data)"
proof -
  let ?h0 = "h\<lparr>sha_total_len := sha_total_len h + of_nat (length data)\<rparr>"
  obtain h1 d1 where fb: "fill_buffer data ?h0 = (h1, d1)"
    by (cases "fill_buffer data ?h0")
  obtain s r where ab: "absorb_blocks (sha_state h1) d1 = (s, r)"
    by (cases "absorb_blocks (sha_state h1) d1")
  have h0: "length (sha_buf ?h0) = 64" "sha_buf_len ?h0 < 64"
    using assms by (simp_all add: sha_represents_def)
  note f = fill_buffer_absorbs [OF h0 fb]
  have rl: "length r < 64"
    using absorb_rest_length [OF ab] by simp
  have "absorb_blocks (sha_state Sha256_new) (m @ data) =
      absorb_blocks (sha_state h1) (take (sha_buf_len h1) (sha_buf h1) @ d1)"
    using assms f(1) absorb_append [of _ m data] by (simp add: sha_represents_def)
  also have "\<dots> = (s, if r = [] then take (sha_buf_len h1) (sha_buf h1) else r)"
    using f(4)
  proof
    assume "sha_buf_len h1 = 0"
    then show ?thesis using ab by simp
  next
    assume "d1 = []"
    moreover have "length (take (sha_buf_len h1) (sha_buf h1)) < 64"
      using f(3) by simp
    ultimately show ?thesis using ab by simp
  qed
  finally have key: "absorb_blocks (sha_state Sha256_new) (m @ data) =
      (s, if r = [] then take (sha_buf_len h1) (sha_buf h1) else r)" .
  have "take (length r) (write_at 0 r (sha_buf h1)) = r"
    using take_write_at [of 0 r "sha_buf h1"] rl f(2) by simp
  moreover have "Sha256_update data h =
      (if r \<noteq> [] then h1\<lparr>sha_state := s, sha_buf := write_at 0 r (sha_buf h1), sha_buf_len := length r\<rparr>
       else h1\<lparr>sha_state := s\<rparr>)"
    by (simp add: Sha256_update_def Let_def fb ab)
  moreover have "length (write_at 0 r (sha_buf h1)) = 64"
    using length_write_at [of 0 r "sha_buf h1"] rl f(2) by simp
  ultimately show ?thesis
    using key f(2,3,5) rl assms by (cases "r = []") (simp_all add: sha_represents_def)
qed

lemma pad_zeros_eq: "pad_zeros xs = xs @ replicate (pad_count (length xs)) 0"
proof (induction xs rule: pad_zeros.induct)
  case (1 xs)
  then show ?case
    by (cases "length xs mod 64 = 56")
       (simp_all add: pad_zeros.simps [of xs] pad_count_0_iff pad_count_Suc replicate_append_same)
qed

lemma pad_count_fills: "(n + pad_count n) mod 64 = 56"
proof -
  have "n mod 64 < 64" by simp
  then have "(n mod 64 + pad_count n) mod 64 = 56"
    by (auto simp: pad_count_def)
  then show ?thesis
    by (simp add: mod_add_left_eq)
qed

lemma length_u64_to_be_bytes [simp]: "length (u64_to_be_bytes v) = 8"
  by (simp add: u64_to_be_bytes_def)

lemma padded_blocks:
  "64 dvd length (xs @ [0x80] @ replicate (pad_count (length xs + 1)) 0 @ u64_to_be_bytes v)"
proof -
  have "n mod 64 = 56 \<Longrightarrow> 64 dvd n + 8" for n :: nat
    by presburger
  from this [OF pad_count_fills [of "length xs + 1"]] show ?thesis
    by (simp add: ac_simps)
qed

lemma finalize_represents:
  assumes "sha_represents h m"
  shows "Sha256_finalize h = sha_reference m"
proof -
  let ?r = "take (sha_buf_len h) (sha_buf h)"
  let ?s0 = "sha_state Sha256_new"
  let ?pad = "[0x80] @ replicate (pad_count (length m + 1)) 0 @ u64_to_be_bytes (of_nat (8 * length m))"
  have ab: "absorb_blocks ?s0 m = (sha_state h, ?r)"
    using assms by (simp add: sha_represents_def)
  from absorb_rest_length [OF ab] have rl: "length ?r = length m mod 64" .
  have same: "pad_count (length ?r + 1) = pad_count (length m + 1)"
    unfolding pad_count_def rl by (simp add: mod_Suc_eq)
  have d1: "64 dvd length (m @ ?pad)"
    by (rule padded_blocks)
  have d2: "64 dvd length (?r @ ?pad)"
    using padded_blocks [of ?r] unfolding same .
  have "(fold compress (chunks_exact (m @ ?pad)) ?s0, []) = absorb_blocks ?s0 (m @ ?pad)"
    by (rule absorb_fold [OF d1, symmetric])
  also have "\<dots> = absorb_blocks (sha_state h) (?r @ ?pad)"
    using absorb_append [of ?s0 m ?pad] ab by simp
  also have "\<dots> = (fold compress (chunks_exact (?r @ ?pad)) (sha_state h), [])"
    using absorb_fold [OF d2] .
  finally have "fold compress (chunks_exact (m @ ?pad)) ?s0 =
      fold compress (chunks_exact (?r @ ?pad)) (sha_state h)"
    by simp
  moreover have "pad_zeros (?r @ [0x80]) @ u64_to_be_bytes (sha_total_len h * 8) = ?r @ ?pad"
    using assms same by (simp add: pad_zeros_eq sha_represents_def mult.commute)
  ultimately show ?thesis
    by (simp add: Sha256_finalize_def sha_reference_def sha_padding_def Let_def)
qed

lemma represents_updates: "sha_represents (fold Sha256_update parts Sha256_new) (concat parts)"
proof -
  have "sha_represents (fold Sha256_update parts h) (m @ concat parts)"
    if "sha_represents h m" for h m
    using that
  proof (induction parts arbitrary: h m)
    case (Cons p parts)
    from Cons.IH [OF represents_update [OF Cons.prems]] show ?case by simp
  qed simp
  from this [OF represents_new] show ?thesis by simp
qed

lemma length_digest [simp]: "length (Sha256_digest m) = 32"
  by (simp add: Sha256_digest_def Sha256_finalize_def Let_def sha_output_def u32_to_be_bytes_def
      split: prod.splits)

end
