(* ===== verification/Discovery.thy ===== *)
theory Discovery
  imports Device_Identity Sha256
begin

text \<open>
  \<open>crates/host-coordinator/src/discovery.rs\<close>: timestamped discovery samples. A snapshot holds the
  probed facts of every device under its locator ordinal, and its id is the SHA-256 digest of the
  sample's canonical bytes. The lemmas show that the canonical bytes determine every fact of the
  sample, so two samples with one id are equal unless SHA-256 collides, and that
  \<open>from_enumerated\<close> keeps the last entry of each ordinal and never reaches the assertion of \<open>new\<close>.
\<close>

section \<open>Facts\<close>

record ComputeCapability =
  cc_major :: u32
  cc_minor :: u32

record DtypeSurface =
  dt_f32 :: bool
  dt_f64 :: bool
  dt_f16 :: bool
  dt_bf16 :: bool
  dt_i8 :: bool
  dt_i32 :: bool

definition DtypeSurface_empty :: DtypeSurface where
  "DtypeSurface_empty =
     \<lparr>dt_f32 = False, dt_f64 = False, dt_f16 = False, dt_bf16 = False, dt_i8 = False, dt_i32 = False\<rparr>"

record DeviceCapabilities =
  compute_capability :: ComputeCapability
  sm_count :: u32
  dtype_surface :: DtypeSurface
  max_threads_per_workgroup :: u32
  workgroup_shared_memory_min_bytes :: u32
  workgroup_shared_memory_max_bytes :: u32
  collective_width :: u32
  unified_memory :: bool

record DeviceMemory =
  tool_report_total_mib :: "u64 option"
  api_total_bytes :: u64

datatype DeviceHealth = Healthy | Degraded string

record ProbeProvenance =
  prov_probe :: string
  prov_tool_versions :: string

datatype P2pProbeState = P2pNotAttempted | P2pAttempted

record DeviceDiscoveryEntry =
  de_ordinal :: DeviceOrdinal
  de_identity :: PhysicalDeviceId
  de_device_model :: "string option"
  de_capabilities :: DeviceCapabilities
  de_memory :: DeviceMemory
  de_health :: DeviceHealth
  de_health_generation :: DeviceHealthGeneration
  de_probe_provenance :: ProbeProvenance

definition de_backend :: "DeviceDiscoveryEntry \<Rightarrow> DeviceBackend" where
  "de_backend e = PhysicalDeviceId_backend (de_identity e)"

datatype DeviceDiscoverySnapshotId = DeviceDiscoverySnapshotId (snapshot_id_bytes: "u8 list")

definition snapshot_id_from_canonical_bytes :: "u8 list \<Rightarrow> DeviceDiscoverySnapshotId" where
  "snapshot_id_from_canonical_bytes bytes = DeviceDiscoverySnapshotId (Sha256_digest bytes)"

definition snapshot_id_hex :: "DeviceDiscoverySnapshotId \<Rightarrow> string" where
  "snapshot_id_hex i = concat (map hex_byte (snapshot_id_bytes i))"

definition display_snapshot_id :: "DeviceDiscoverySnapshotId \<Rightarrow> string" where
  "display_snapshot_id i = snapshot_id_hex i"

record DeviceDiscoverySnapshot =
  ds_id :: DeviceDiscoverySnapshotId
  ds_probe_utc_nanos :: u64
  ds_devices :: "(DeviceOrdinal, DeviceDiscoveryEntry) bmap"
  ds_p2p :: P2pProbeState

section \<open>Canonical bytes\<close>

definition push_entry :: "DeviceOrdinal \<times> DeviceDiscoveryEntry \<Rightarrow> u8 list \<Rightarrow> u8 list" where
  "push_entry p out =
     (let (ordinal, e) = p;
          out = push_u32 out (ordinal_get ordinal);
          out = out @ PhysicalDeviceId_canonical_bytes (de_identity e);
          out = push_bool out (de_device_model e \<noteq> None);
          out = (case de_device_model e of Some model \<Rightarrow> push_str out model | None \<Rightarrow> out);
          caps = de_capabilities e;
          out = push_u32 out (cc_major (compute_capability caps));
          out = push_u32 out (cc_minor (compute_capability caps));
          out = push_u32 out (sm_count caps);
          surface = dtype_surface caps;
          out = push_bool out (dt_f32 surface);
          out = push_bool out (dt_f64 surface);
          out = push_bool out (dt_f16 surface);
          out = push_bool out (dt_bf16 surface);
          out = push_bool out (dt_i8 surface);
          out = push_bool out (dt_i32 surface);
          out = push_u32 out (max_threads_per_workgroup caps);
          out = push_u32 out (workgroup_shared_memory_min_bytes caps);
          out = push_u32 out (workgroup_shared_memory_max_bytes caps);
          out = push_u32 out (collective_width caps);
          out = push_bool out (unified_memory caps);
          out = push_bool out (tool_report_total_mib (de_memory e) \<noteq> None);
          out = (case tool_report_total_mib (de_memory e) of Some mib \<Rightarrow> push_u64 out mib | None \<Rightarrow> out);
          out = push_u64 out (api_total_bytes (de_memory e));
          out = (case de_health e of
                   Healthy \<Rightarrow> out @ [0]
                 | Degraded reason \<Rightarrow> push_str (out @ [1]) reason);
          out = push_u64 out (generation_get (de_health_generation e));
          out = push_str out (prov_probe (de_probe_provenance e))
      in push_str out (prov_tool_versions (de_probe_provenance e)))"

definition snapshot_canonical_bytes_without_id :: "DeviceDiscoverySnapshot \<Rightarrow> u8 list" where
  "snapshot_canonical_bytes_without_id s =
     (let out = [];
          out = push_u64 out (ds_probe_utc_nanos s);
          out = push_u64 out (of_nat (length (ds_devices s)));
          out = fold push_entry (ds_devices s) out
      in case ds_p2p s of P2pNotAttempted \<Rightarrow> out @ [0] | P2pAttempted \<Rightarrow> out @ [1])"

definition snapshot_canonical_bytes :: "DeviceDiscoverySnapshot \<Rightarrow> u8 list" where
  "snapshot_canonical_bytes s = snapshot_canonical_bytes_without_id s"

section \<open>Building and reading a sample\<close>

definition DeviceDiscoverySnapshot_new ::
    "u64 \<Rightarrow> (DeviceOrdinal, DeviceDiscoveryEntry) bmap \<Rightarrow> P2pProbeState \<Rightarrow>
       DeviceDiscoverySnapshot option" where
  "DeviceDiscoverySnapshot_new probe_utc_nanos devices p2p =
     (if list_all (\<lambda>(key, e). key = de_ordinal e) devices then
        let out = \<lparr>ds_id = DeviceDiscoverySnapshotId (replicate 32 0),
                   ds_probe_utc_nanos = probe_utc_nanos,
                   ds_devices = devices,
                   ds_p2p = p2p\<rparr>;
            bytes = snapshot_canonical_bytes_without_id out
        in Some (out\<lparr>ds_id := snapshot_id_from_canonical_bytes bytes\<rparr>)
      else None)"

definition snapshot_from_enumerated ::
    "u64 \<Rightarrow> DeviceDiscoveryEntry list \<Rightarrow> DeviceDiscoverySnapshot option" where
  "snapshot_from_enumerated probe_utc_nanos entries =
     (let devices = bmap_of_list (map (\<lambda>e. (de_ordinal e, e)) entries)
      in DeviceDiscoverySnapshot_new probe_utc_nanos devices P2pNotAttempted)"

definition snapshot_entry :: "DeviceDiscoverySnapshot \<Rightarrow> DeviceOrdinal \<Rightarrow> DeviceDiscoveryEntry option" where
  "snapshot_entry s ordinal = bmap_get (ds_devices s) ordinal"

definition snapshot_is_stale :: "DeviceDiscoverySnapshot \<Rightarrow> DeviceHealthGeneration \<Rightarrow> bool" where
  "snapshot_is_stale s current \<longleftrightarrow>
     list_ex (\<lambda>e. generation_is_stale current (de_health_generation e)) (bmap_values (ds_devices s))"

definition snapshot_is_current_generation ::
    "DeviceDiscoverySnapshot \<Rightarrow> DeviceHealthGeneration \<Rightarrow> bool" where
  "snapshot_is_current_generation s current \<longleftrightarrow> \<not> snapshot_is_stale s current"

section \<open>The bytes determine the facts\<close>

definition opt_code :: "('a \<Rightarrow> u8 list) \<Rightarrow> 'a option \<Rightarrow> u8 list" where
  "opt_code enc x = bool_code (x \<noteq> None) @ (case x of Some v \<Rightarrow> enc v | None \<Rightarrow> [])"

lemma opt_code_prefix:
  assumes "prefix_code enc valid"
  shows "prefix_code (opt_code enc) (\<lambda>x. case x of None \<Rightarrow> True | Some v \<Rightarrow> valid v)"
  by unfold_locales
     (auto simp: opt_code_def bool_code_def split: option.splits dest: prefix_code.peel [OF assms])

interpretation opt_str_code: prefix_code "opt_code str_code"
    "\<lambda>x. case x of None \<Rightarrow> True | Some s \<Rightarrow> fits_usize s"
  by (rule opt_code_prefix) unfold_locales

interpretation opt_u64_code: prefix_code "opt_code u64_to_le_bytes" "\<lambda>_. True"
  using opt_code_prefix [OF u64_code.prefix_code_axioms] by (simp add: option.case_eq_if)

lemma opt_push [codec]:
  "(case x of Some v \<Rightarrow> out @ bool_code b @ f v | None \<Rightarrow> out @ bool_code b) =
     out @ bool_code b @ (case x of Some v \<Rightarrow> f v | None \<Rightarrow> [])"
  by (simp split: option.split)

fun health_code :: "DeviceHealth \<Rightarrow> u8 list" where
  "health_code Healthy = [0]"
| "health_code (Degraded reason) = 1 # str_code reason"

fun health_fits :: "DeviceHealth \<Rightarrow> bool" where
  "health_fits Healthy = True"
| "health_fits (Degraded reason) = fits_usize reason"

interpretation health_prefix: prefix_code health_code health_fits
proof
  fix a b r s
  assume "health_fits a" "health_fits b" "health_code a @ r = health_code b @ s"
  then show "a = b \<and> r = s"
    by (cases a; cases b) (auto dest: str_prefix.peel)
qed

definition surface_code :: "DtypeSurface \<Rightarrow> u8 list" where
  "surface_code d =
     bool_code (dt_f32 d) @ bool_code (dt_f64 d) @ bool_code (dt_f16 d) @
     bool_code (dt_bf16 d) @ bool_code (dt_i8 d) @ bool_code (dt_i32 d)"

interpretation surface_prefix: prefix_code surface_code "\<lambda>_. True"
  by unfold_locales (auto simp: surface_code_def bool_prefix.peel_iff)

definition caps_code :: "DeviceCapabilities \<Rightarrow> u8 list" where
  "caps_code c =
     u32_to_le_bytes (cc_major (compute_capability c)) @
     u32_to_le_bytes (cc_minor (compute_capability c)) @
     u32_to_le_bytes (sm_count c) @ surface_code (dtype_surface c) @
     u32_to_le_bytes (max_threads_per_workgroup c) @
     u32_to_le_bytes (workgroup_shared_memory_min_bytes c) @
     u32_to_le_bytes (workgroup_shared_memory_max_bytes c) @
     u32_to_le_bytes (collective_width c) @ bool_code (unified_memory c)"

interpretation caps_prefix: prefix_code caps_code "\<lambda>_. True"
  by unfold_locales
     (auto simp: caps_code_def bool_prefix.peel_iff u32_code.peel_iff u32_to_le_bytes_eq_iff
       surface_prefix.peel_iff intro!: DeviceCapabilities.equality ComputeCapability.equality)

definition entry_code :: "DeviceDiscoveryEntry \<Rightarrow> u8 list" where
  "entry_code e =
     PhysicalDeviceId_canonical_bytes (de_identity e) @
     opt_code str_code (de_device_model e) @
     caps_code (de_capabilities e) @
     opt_code u64_to_le_bytes (tool_report_total_mib (de_memory e)) @
     u64_to_le_bytes (api_total_bytes (de_memory e)) @
     health_code (de_health e) @
     u64_to_le_bytes (generation_get (de_health_generation e)) @
     str_code (prov_probe (de_probe_provenance e)) @
     str_code (prov_tool_versions (de_probe_provenance e))"

definition entry_fits :: "DeviceDiscoveryEntry \<Rightarrow> bool" where
  "entry_fits e \<longleftrightarrow>
     device_fits (de_identity e) \<and>
     (case de_device_model e of None \<Rightarrow> True | Some s \<Rightarrow> fits_usize s) \<and>
     health_fits (de_health e) \<and>
     fits_usize (prov_probe (de_probe_provenance e)) \<and>
     fits_usize (prov_tool_versions (de_probe_provenance e))"

text \<open>The ordinal of an entry is the key it is stored under.\<close>

definition keyed_entry_ok :: "DeviceOrdinal \<times> DeviceDiscoveryEntry \<Rightarrow> bool" where
  "keyed_entry_ok p \<longleftrightarrow> fst p = de_ordinal (snd p) \<and> entry_fits (snd p)"

definition keyed_entry_code :: "DeviceOrdinal \<times> DeviceDiscoveryEntry \<Rightarrow> u8 list" where
  "keyed_entry_code p = u32_to_le_bytes (ordinal_get (fst p)) @ entry_code (snd p)"

interpretation keyed_entry_prefix: prefix_code keyed_entry_code keyed_entry_ok
  by unfold_locales
     (auto simp: keyed_entry_code_def keyed_entry_ok_def entry_code_def entry_fits_def
       device_code.peel_iff opt_str_code.peel_iff opt_u64_code.peel_iff caps_prefix.peel_iff
       health_prefix.peel_iff u32_code.peel_iff u64_code.peel_iff str_prefix.peel_iff
       u32_to_le_bytes_eq_iff u64_to_le_bytes_eq_iff prod_eq_iff
       intro!: DeviceOrdinal.expand DeviceHealthGeneration.expand DeviceDiscoveryEntry.equality
         DeviceMemory.equality ProbeProvenance.equality)

interpretation device_map_code: prefix_code "list_code keyed_entry_code"
    "\<lambda>xs. fits_usize xs \<and> (\<forall>x\<in>set xs. keyed_entry_ok x)"
  by (rule list_code_prefix) unfold_locales

lemma push_entry_code: "push_entry p out = out @ keyed_entry_code p"
proof -
  obtain ordinal e where p: "p = (ordinal, e)"
    by (cases p)
  show ?thesis
    unfolding p push_entry_def Let_def prod.case push_code append.assoc
    by (cases "de_device_model e"; cases "tool_report_total_mib (de_memory e)"; cases "de_health e")
       (simp_all add: keyed_entry_code_def entry_code_def opt_code_def caps_code_def
         surface_code_def codec)
qed

lemma snapshot_bytes_code:
  "snapshot_canonical_bytes s =
     u64_to_le_bytes (ds_probe_utc_nanos s) @ list_code keyed_entry_code (ds_devices s) @
     [case ds_p2p s of P2pNotAttempted \<Rightarrow> 0 | P2pAttempted \<Rightarrow> 1]"
  by (cases "ds_p2p s")
     (simp_all add: snapshot_canonical_bytes_def snapshot_canonical_bytes_without_id_def Let_def
       codec list_code_def fold_push_concat [OF push_entry_code])

definition snapshot_fits :: "DeviceDiscoverySnapshot \<Rightarrow> bool" where
  "snapshot_fits s \<longleftrightarrow> fits_usize (ds_devices s) \<and> (\<forall>p\<in>set (ds_devices s). keyed_entry_ok p)"

lemma snapshot_bytes_inject:
  assumes "snapshot_fits s" "snapshot_fits t"
  shows "snapshot_canonical_bytes s = snapshot_canonical_bytes t \<longleftrightarrow>
     ds_probe_utc_nanos s = ds_probe_utc_nanos t \<and> ds_devices s = ds_devices t \<and> ds_p2p s = ds_p2p t"
  using assms
  by (cases "ds_p2p s"; cases "ds_p2p t")
     (auto simp: snapshot_fits_def snapshot_bytes_code u64_code.peel_iff device_map_code.peel_iff
       u64_to_le_bytes_eq_iff device_map_code.inj)

lemma snapshot_bytes_ignore_id:
  "snapshot_canonical_bytes_without_id (s\<lparr>ds_id := i\<rparr>) = snapshot_canonical_bytes_without_id s"
  by (simp add: snapshot_canonical_bytes_without_id_def)

lemma snapshot_new_Some_iff:
  "DeviceDiscoverySnapshot_new t ds p = Some s \<longleftrightarrow>
     (\<forall>q\<in>set ds. fst q = de_ordinal (snd q)) \<and> ds_probe_utc_nanos s = t \<and> ds_devices s = ds \<and>
     ds_p2p s = p \<and> ds_id s = snapshot_id_from_canonical_bytes (snapshot_canonical_bytes s)"
  (is "_ \<longleftrightarrow> ?R")
proof -
  let ?out = "\<lparr>ds_id = DeviceDiscoverySnapshotId (replicate 32 0), ds_probe_utc_nanos = t,
      ds_devices = ds, ds_p2p = p\<rparr>"
  let ?id = "snapshot_id_from_canonical_bytes (snapshot_canonical_bytes_without_id ?out)"
  have new: "DeviceDiscoverySnapshot_new t ds p =
      (if \<forall>q\<in>set ds. fst q = de_ordinal (snd q) then Some (?out\<lparr>ds_id := ?id\<rparr>) else None)"
    unfolding DeviceDiscoverySnapshot_new_def Let_def list_all_iff case_prod_unfold ..
  have bytes: "snapshot_canonical_bytes s = snapshot_canonical_bytes_without_id ?out"
    if "ds_probe_utc_nanos s = t" "ds_devices s = ds" "ds_p2p s = p"
    using that by (simp add: snapshot_canonical_bytes_def snapshot_canonical_bytes_without_id_def)
  show ?thesis
  proof
    assume "DeviceDiscoverySnapshot_new t ds p = Some s"
    with new have k: "\<forall>q\<in>set ds. fst q = de_ordinal (snd q)" and s: "s = ?out\<lparr>ds_id := ?id\<rparr>"
      by (simp_all split: if_splits)
    then have "ds_probe_utc_nanos s = t" "ds_devices s = ds" "ds_p2p s = p" "ds_id s = ?id"
      by simp_all
    with k bytes show ?R by simp
  next
    assume R: ?R
    then have "s = ?out\<lparr>ds_id := ?id\<rparr>"
      using bytes by (intro DeviceDiscoverySnapshot.equality) simp_all
    with new R show "DeviceDiscoverySnapshot_new t ds p = Some s"
      by simp
  qed
qed

lemma map_of_keyed: "map_of (map (\<lambda>e. (f e, e)) es) k = List.find (\<lambda>e. f e = k) es"
  by (induction es) auto

lemma set_bmap_insert_subset: "set (bmap_insert k v m) \<subseteq> insert (k, v) (set m)"
  by (induction m) auto

lemma set_bmap_of_list_subset: "set (bmap_of_list ps) \<subseteq> set ps"
proof -
  have "set (fold (\<lambda>(k, v). bmap_insert k v) ps m) \<subseteq> set ps \<union> set m" for m
  proof (induction ps arbitrary: m)
    case (Cons p ps)
    obtain k v where p: "p = (k, v)" by (cases p)
    from Cons [of "bmap_insert k v m"] set_bmap_insert_subset [of k v m] p show ?case
      by auto
  qed simp
  from this [of "[]"] show ?thesis by (simp add: bmap_of_list_def)
qed

lemma from_enumerated_total:
  obtains s where "snapshot_from_enumerated t es = Some s" "ds_p2p s = P2pNotAttempted"
    "bmap_ok (ds_devices s)"
    "\<And>k. snapshot_entry s k = List.find (\<lambda>e. de_ordinal e = k) (rev es)"
proof -
  let ?m = "bmap_of_list (map (\<lambda>e. (de_ordinal e, e)) es)"
  have "\<forall>q\<in>set ?m. fst q = de_ordinal (snd q)"
    using set_bmap_of_list_subset [of "map (\<lambda>e. (de_ordinal e, e)) es"] by auto
  then obtain s where s: "DeviceDiscoverySnapshot_new t ?m P2pNotAttempted = Some s"
    unfolding DeviceDiscoverySnapshot_new_def Let_def list_all_iff case_prod_unfold by simp
  then have "ds_devices s = ?m" "ds_p2p s = P2pNotAttempted"
    by (simp_all add: snapshot_new_Some_iff)
  moreover have "snapshot_entry s k = List.find (\<lambda>e. de_ordinal e = k) (rev es)" for k
    unfolding snapshot_entry_def calculation(1) map_of_bmap_of_list
    by (simp add: rev_map map_of_keyed)
  ultimately show ?thesis
    using that [of s] s by (simp add: snapshot_from_enumerated_def Let_def)
qed

lemma list_all_lower_hex_concat:
  "list_all is_lower_hex (concat (map hex_byte bs))"
  by (induction bs) (simp_all add: hex_byte_lower)

lemma length_snapshot_id_hex: "length (snapshot_id_hex (snapshot_id_from_canonical_bytes bs)) = 64"
  by (simp add: snapshot_id_hex_def snapshot_id_from_canonical_bytes_def length_concat
      comp_def sum_list_triv)

end
