(* ===== verification/Device_Set.thy ===== *)
theory Device_Set
  imports Discovery
begin

text \<open>
  \<open>crates/host-coordinator/src/device_set.rs\<close>: membership of physical devices, its validation
  against a discovery sample under the current health epoch, resolution of a selection request,
  and the directed link rows of a topology with the gate every transfer passes.
\<close>

section \<open>Membership\<close>

record DeviceSet =
  set_members :: "PhysicalDeviceId bset"

definition DeviceSet_from_members :: "PhysicalDeviceId list \<Rightarrow> DeviceSet" where
  "DeviceSet_from_members ids = \<lparr>set_members = bset_of_list ids\<rparr>"

definition DeviceSet_contains :: "DeviceSet \<Rightarrow> PhysicalDeviceId \<Rightarrow> bool" where
  "DeviceSet_contains s i \<longleftrightarrow> List.member (set_members s) i"

definition DeviceSet_len :: "DeviceSet \<Rightarrow> nat" where
  "DeviceSet_len s = length (set_members s)"

definition DeviceSet_is_empty :: "DeviceSet \<Rightarrow> bool" where
  "DeviceSet_is_empty s \<longleftrightarrow> set_members s = []"

definition DeviceSet_is_singleton :: "DeviceSet \<Rightarrow> bool" where
  "DeviceSet_is_singleton s \<longleftrightarrow> length (set_members s) = 1"

datatype MembershipError =
    UnknownDevice PhysicalDeviceId
  | StaleEpoch PhysicalDeviceId DeviceHealthGeneration DeviceHealthGeneration

definition find_entry :: "DeviceDiscoverySnapshot \<Rightarrow> PhysicalDeviceId \<Rightarrow> DeviceDiscoveryEntry option" where
  "find_entry discovery i = List.find (\<lambda>e. de_identity e = i) (bmap_values (ds_devices discovery))"

definition validate_member ::
    "DeviceDiscoverySnapshot \<Rightarrow> DeviceHealthGeneration \<Rightarrow> PhysicalDeviceId \<Rightarrow> MembershipError option" where
  "validate_member discovery current i =
     (case find_entry discovery i of
        None \<Rightarrow> Some (UnknownDevice i)
      | Some e \<Rightarrow>
          if generation_is_stale current (de_health_generation e)
          then Some (StaleEpoch i (de_health_generation e) current)
          else None)"

definition DeviceSet_validate ::
    "DeviceSet \<Rightarrow> DeviceDiscoverySnapshot \<Rightarrow> DeviceHealthGeneration \<Rightarrow> MembershipError option" where
  "DeviceSet_validate s discovery current =
     first_some (validate_member discovery current) (set_members s)"

section \<open>Selection\<close>

record DeviceSetConstraints =
  con_backend :: "DeviceBackend option"
  con_exclude :: "PhysicalDeviceId bset"
  con_min_count :: nat
  con_max_count :: "nat option"

datatype DeviceSetSelection =
    Explicit "PhysicalDeviceId bset"
  | Constraints DeviceSetConstraints

datatype SelectionError =
    Membership MembershipError
  | BelowMinimum nat nat
  | AboveMaximum nat nat

definition selection_explicit :: "PhysicalDeviceId list \<Rightarrow> DeviceSetSelection" where
  "selection_explicit ids = Explicit (bset_of_list ids)"

text \<open>One iteration of the constraint loop: whether the entry is pushed.\<close>

definition constraint_selects ::
    "DeviceSetConstraints \<Rightarrow> DeviceHealthGeneration \<Rightarrow> DeviceDiscoveryEntry \<Rightarrow> bool" where
  "constraint_selects c current e =
     (if generation_is_stale current (de_health_generation e) then False
      else if (case con_backend c of
                 Some backend \<Rightarrow> PhysicalDeviceId_backend (de_identity e) \<noteq> backend
               | None \<Rightarrow> False) then False
      else if List.member (con_exclude c) (de_identity e) then False
      else True)"

fun resolve ::
    "DeviceSetSelection \<Rightarrow> DeviceDiscoverySnapshot \<Rightarrow> DeviceHealthGeneration \<Rightarrow>
       (DeviceSet, SelectionError) result" where
  "resolve (Explicit ids) discovery current =
     (let s = DeviceSet_from_members ids in
      case DeviceSet_validate s discovery current of
        Some e \<Rightarrow> Err (Membership e)
      | None \<Rightarrow> Ok s)"
| "resolve (Constraints c) discovery current =
     (let selected = map de_identity
            (filter (constraint_selects c current) (bmap_values (ds_devices discovery)));
          s = DeviceSet_from_members selected
      in if DeviceSet_len s < con_min_count c
         then Err (BelowMinimum (con_min_count c) (DeviceSet_len s))
         else case con_max_count c of
                Some mx \<Rightarrow>
                  if mx < DeviceSet_len s then Err (AboveMaximum mx (DeviceSet_len s)) else Ok s
              | None \<Rightarrow> Ok s)"

section \<open>Links and topology\<close>

datatype LinkPathClass = Peer | HostStaged

record LinkFacts =
  lf_bandwidth_bytes_per_sec :: u64
  lf_latency_nanos :: u64

datatype DeviceLinkState =
    Admitted LinkPathClass LinkFacts
  | LinkNotAttempted
  | LinkRejected string

record DeviceLink =
  link_from :: PhysicalDeviceId
  link_to :: PhysicalDeviceId
  link_state :: DeviceLinkState

definition DeviceLink_admitted ::
    "PhysicalDeviceId \<Rightarrow> PhysicalDeviceId \<Rightarrow> LinkPathClass \<Rightarrow> LinkFacts \<Rightarrow> DeviceLink option" where
  "DeviceLink_admitted i j path_class lf =
     (if i = j then None
      else Some \<lparr>link_from = i, link_to = j, link_state = Admitted path_class lf\<rparr>)"

definition DeviceLink_not_attempted :: "PhysicalDeviceId \<Rightarrow> PhysicalDeviceId \<Rightarrow> DeviceLink option" where
  "DeviceLink_not_attempted i j =
     (if i = j then None else Some \<lparr>link_from = i, link_to = j, link_state = LinkNotAttempted\<rparr>)"

definition DeviceLink_rejected ::
    "PhysicalDeviceId \<Rightarrow> PhysicalDeviceId \<Rightarrow> string \<Rightarrow> DeviceLink option" where
  "DeviceLink_rejected i j reason =
     (if i = j then None else Some \<lparr>link_from = i, link_to = j, link_state = LinkRejected reason\<rparr>)"

record DeviceTopologySnapshot =
  topo_discovery :: DeviceDiscoverySnapshot
  topo_links :: "(PhysicalDeviceId \<times> PhysicalDeviceId, DeviceLink) bmap"

text \<open>One iteration of \<open>DeviceTopologySnapshot::new\<close>; its assertions fail as \<^const>\<open>None\<close>.\<close>

definition add_link ::
    "DeviceDiscoverySnapshot \<Rightarrow> DeviceLink \<Rightarrow>
       (PhysicalDeviceId \<times> PhysicalDeviceId, DeviceLink) bmap \<Rightarrow>
       (PhysicalDeviceId \<times> PhysicalDeviceId, DeviceLink) bmap option" where
  "add_link discovery l by_pair =
     (if link_from l = link_to l then None
      else if list_ex (\<lambda>endpoint. find_entry discovery endpoint = None) [link_from l, link_to l] then None
      else Some (bmap_insert (link_from l, link_to l) l by_pair))"

fun add_links ::
    "DeviceDiscoverySnapshot \<Rightarrow> DeviceLink list \<Rightarrow>
       (PhysicalDeviceId \<times> PhysicalDeviceId, DeviceLink) bmap \<Rightarrow>
       (PhysicalDeviceId \<times> PhysicalDeviceId, DeviceLink) bmap option" where
  "add_links discovery [] by_pair = Some by_pair"
| "add_links discovery (l # ls) by_pair =
     Option.bind (add_link discovery l by_pair) (add_links discovery ls)"

definition DeviceTopologySnapshot_new ::
    "DeviceDiscoverySnapshot \<Rightarrow> DeviceLink list \<Rightarrow> DeviceTopologySnapshot option" where
  "DeviceTopologySnapshot_new discovery ls =
     map_option (\<lambda>by_pair. \<lparr>topo_discovery = discovery, topo_links = by_pair\<rparr>)
       (add_links discovery ls [])"

definition topology_member ::
    "DeviceTopologySnapshot \<Rightarrow> PhysicalDeviceId \<Rightarrow> DeviceDiscoveryEntry option" where
  "topology_member t i = find_entry (topo_discovery t) i"

definition topology_link ::
    "DeviceTopologySnapshot \<Rightarrow> PhysicalDeviceId \<Rightarrow> PhysicalDeviceId \<Rightarrow> DeviceLink option" where
  "topology_link t i j = bmap_get (topo_links t) (i, j)"

datatype LinkGateError =
    UnknownEndpoint PhysicalDeviceId
  | NoLinkRecorded PhysicalDeviceId PhysicalDeviceId
  | GateNotAttempted PhysicalDeviceId PhysicalDeviceId
  | GateRejected PhysicalDeviceId PhysicalDeviceId string

text \<open>The gate: \<^const>\<open>None\<close> is \<open>Ok(())\<close>.\<close>

definition traversal_allowed ::
    "DeviceTopologySnapshot \<Rightarrow> PhysicalDeviceId \<Rightarrow> PhysicalDeviceId \<Rightarrow> LinkGateError option" where
  "traversal_allowed t i j =
     (if i = j then None
      else if find_entry (topo_discovery t) i = None then Some (UnknownEndpoint i)
      else if find_entry (topo_discovery t) j = None then Some (UnknownEndpoint j)
      else case bmap_get (topo_links t) (i, j) of
             None \<Rightarrow> Some (NoLinkRecorded i j)
           | Some l \<Rightarrow>
               (case link_state l of
                  Admitted _ _ \<Rightarrow> None
                | LinkNotAttempted \<Rightarrow> Some (GateNotAttempted i j)
                | LinkRejected reason \<Rightarrow> Some (GateRejected i j reason)))"

section \<open>Lemmas\<close>

lemma find_entry_Some_mem:
  "find_entry d i = Some e \<Longrightarrow> e \<in> set (bmap_values (ds_devices d)) \<and> de_identity e = i"
  unfolding find_entry_def by (rule find_Some_mem)

lemma find_entry_None_iff:
  "find_entry d i = None \<longleftrightarrow> i \<notin> de_identity ` set (bmap_values (ds_devices d))"
  by (auto simp: find_entry_def find_None_iff)

text \<open>Where no identity is recorded twice, an entry of the sample is what \<open>find_entry\<close> finds.\<close>

lemma find_entry_distinct:
  assumes "distinct (map de_identity (bmap_values (ds_devices d)))"
    and "e \<in> set (bmap_values (ds_devices d))"
  shows "find_entry d (de_identity e) = Some e"
proof (cases "find_entry d (de_identity e)")
  case None
  then show ?thesis
    using assms(2) by (simp add: find_entry_None_iff)
next
  case (Some e')
  from find_entry_Some_mem [OF this] assms have "e' = e"
    by (meson distinct_map inj_onD)
  with Some show ?thesis by simp
qed

lemma validate_member_None_iff:
  "validate_member d g i = None \<longleftrightarrow>
     (\<exists>e. find_entry d i = Some e \<and> de_health_generation e = g)"
  by (auto simp: validate_member_def generation_is_stale_def split: option.splits)

lemma DeviceSet_validate_None_iff:
  "DeviceSet_validate s d g = None \<longleftrightarrow>
     (\<forall>i\<in>set (set_members s). \<exists>e. find_entry d i = Some e \<and> de_health_generation e = g)"
  by (simp add: DeviceSet_validate_def first_some_None_iff validate_member_None_iff)

lemma from_members_bset: "bset_ok ids \<Longrightarrow> DeviceSet_from_members ids = \<lparr>set_members = ids\<rparr>"
  by (simp add: DeviceSet_from_members_def bset_of_list_id)

lemma from_members_eq_iff:
  "DeviceSet_from_members ids = s \<longleftrightarrow> bset_ok (set_members s) \<and> set (set_members s) = set ids"
  by (cases s) (auto simp: DeviceSet_from_members_def intro: bset_ok_unique)

definition constraint_matches ::
    "DeviceSetConstraints \<Rightarrow> DeviceHealthGeneration \<Rightarrow> DeviceDiscoveryEntry \<Rightarrow> bool" where
  "constraint_matches c g e \<longleftrightarrow>
     de_health_generation e = g \<and>
     (\<forall>b. con_backend c = Some b \<longrightarrow> de_backend e = b) \<and>
     de_identity e \<notin> set (con_exclude c)"

lemma constraint_selects_iff: "constraint_selects c g e \<longleftrightarrow> constraint_matches c g e"
  by (auto simp: constraint_selects_def constraint_matches_def generation_is_stale_def
      de_backend_def split: option.splits)

lemma resolve_Constraints_Ok_iff:
  "resolve (Constraints c) d g = Ok s \<longleftrightarrow>
     bset_ok (set_members s) \<and>
     set (set_members s) =
       de_identity ` {e \<in> set (bmap_values (ds_devices d)). constraint_matches c g e} \<and>
     con_min_count c \<le> DeviceSet_len s \<and>
     (\<forall>mx. con_max_count c = Some mx \<longrightarrow> DeviceSet_len s \<le> mx)"
proof -
  let ?ids = "map de_identity (filter (constraint_selects c g) (bmap_values (ds_devices d)))"
  let ?t = "DeviceSet_from_members ?ids"
  have "resolve (Constraints c) d g = Ok s \<longleftrightarrow>
      ?t = s \<and> con_min_count c \<le> DeviceSet_len ?t \<and>
      (\<forall>mx. con_max_count c = Some mx \<longrightarrow> DeviceSet_len ?t \<le> mx)"
    by (auto simp: Let_def split: option.splits)
  moreover have "?t = s \<longleftrightarrow> bset_ok (set_members s) \<and> set (set_members s) = set ?ids"
    by (rule from_members_eq_iff)
  moreover have "set ?ids =
      de_identity ` {e \<in> set (bmap_values (ds_devices d)). constraint_matches c g e}"
    by (simp add: constraint_selects_iff)
  ultimately show ?thesis by auto
qed

lemma resolve_valid:
  assumes "distinct (map de_identity (bmap_values (ds_devices d)))"
    and "resolve sel d g = Ok s"
  shows "DeviceSet_validate s d g = None"
proof (cases sel)
  case (Explicit ids)
  with assms(2) show ?thesis
    by (auto simp: Let_def split: option.splits)
next
  case (Constraints c)
  show ?thesis
    unfolding DeviceSet_validate_None_iff
  proof
    fix i assume "i \<in> set (set_members s)"
    then obtain e where "e \<in> set (bmap_values (ds_devices d))" "constraint_matches c g e"
        "i = de_identity e"
      using assms(2) unfolding Constraints resolve_Constraints_Ok_iff by auto
    with find_entry_distinct [OF assms(1)] show "\<exists>e. find_entry d i = Some e \<and> de_health_generation e = g"
      by (auto simp: constraint_matches_def)
  qed
qed

text \<open>The rows of a topology are keyed by their endpoints, which are distinct recorded devices.\<close>

definition topology_ok :: "DeviceTopologySnapshot \<Rightarrow> bool" where
  "topology_ok t \<longleftrightarrow>
     bmap_ok (topo_links t) \<and>
     (\<forall>((i, j), l)\<in>set (topo_links t).
        link_from l = i \<and> link_to l = j \<and> i \<noteq> j \<and>
        find_entry (topo_discovery t) i \<noteq> None \<and> find_entry (topo_discovery t) j \<noteq> None)"

lemma add_link_ok:
  assumes "add_link d l m = Some m'"
    and "topology_ok \<lparr>topo_discovery = d, topo_links = m\<rparr>"
  shows "topology_ok \<lparr>topo_discovery = d, topo_links = m'\<rparr>"
  using assms set_bmap_insert_subset [of "(link_from l, link_to l)" l m]
  by (auto simp: add_link_def topology_ok_def split: if_splits)

lemma add_links_ok:
  "add_links d ls m = Some m' \<Longrightarrow> topology_ok \<lparr>topo_discovery = d, topo_links = m\<rparr> \<Longrightarrow>
     topology_ok \<lparr>topo_discovery = d, topo_links = m'\<rparr>"
  by (induction ls arbitrary: m) (auto simp: Option.bind_eq_Some_conv intro: add_link_ok)

lemma topology_new_ok:
  assumes "DeviceTopologySnapshot_new d ls = Some t"
  shows "topology_ok t"
proof -
  from assms obtain m where "add_links d ls [] = Some m"
      "t = \<lparr>topo_discovery = d, topo_links = m\<rparr>"
    by (auto simp: DeviceTopologySnapshot_new_def)
  with add_links_ok [of d ls "[]" m] show ?thesis
    by (simp add: topology_ok_def)
qed

lemma traversal_allowed_None_iff:
  assumes "topology_ok t"
  shows "traversal_allowed t i j = None \<longleftrightarrow>
     i = j \<or> (\<exists>l c lf. topology_link t i j = Some l \<and> link_state l = Admitted c lf)"
proof (cases "topology_link t i j")
  case None
  then show ?thesis
    by (auto simp: traversal_allowed_def topology_link_def)
next
  case (Some l)
  then have "((i, j), l) \<in> set (topo_links t)"
    unfolding topology_link_def by (rule map_of_SomeD)
  with assms have "find_entry (topo_discovery t) i \<noteq> None" "find_entry (topo_discovery t) j \<noteq> None"
    by (auto simp: topology_ok_def)
  with Some show ?thesis
    by (auto simp: traversal_allowed_def topology_link_def split: DeviceLinkState.splits)
qed

end
