(* ===== verification/Virtual_Partition.thy ===== *)
theory Virtual_Partition
  imports Device_Identity
begin

text \<open>
  \<open>crates/host-coordinator/src/partition.rs\<close>: admission of a virtual device partition against
  its policy limit, the frozen seven-class budget ledger, the post-admission lifecycle
  (\<open>Active\<close>, \<open>Failed\<close>, \<open>TornDown\<close>) and the receipt with its canonical bytes.
\<close>

section \<open>Ids, ledger and limit\<close>

datatype VirtualDevicePartitionId = VirtualDevicePartitionId (vp_id_get: u64)

instantiation VirtualDevicePartitionId :: linorder
begin

definition less_eq_VirtualDevicePartitionId ::
    "VirtualDevicePartitionId \<Rightarrow> VirtualDevicePartitionId \<Rightarrow> bool" where
  "a \<le> b \<longleftrightarrow> vp_id_get a \<le> vp_id_get b"

definition less_VirtualDevicePartitionId ::
    "VirtualDevicePartitionId \<Rightarrow> VirtualDevicePartitionId \<Rightarrow> bool" where
  "a < b \<longleftrightarrow> vp_id_get a < vp_id_get b"

instance
  by standard
     (auto simp: less_eq_VirtualDevicePartitionId_def less_VirtualDevicePartitionId_def
       intro: VirtualDevicePartitionId.expand)

end

definition VirtualDevicePartitionId_display :: "VirtualDevicePartitionId \<Rightarrow> string" where
  "VirtualDevicePartitionId_display i = ''vp:'' @ display_u64 (vp_id_get i)"

record PartitionBudgetLedger =
  weight_bytes :: u64
  kv_cache_bytes :: u64
  activation_scratch_bytes :: u64
  module_storage_bytes :: u64
  allocator_overhead_bytes :: u64
  transfer_staging_bytes :: u64
  concurrent_state_bytes :: u64

definition total_bytes :: "PartitionBudgetLedger \<Rightarrow> u64 option" where
  "total_bytes l =
     Option.bind (checked_add 0 (weight_bytes l)) (\<lambda>total.
     Option.bind (checked_add total (kv_cache_bytes l)) (\<lambda>total.
     Option.bind (checked_add total (activation_scratch_bytes l)) (\<lambda>total.
     Option.bind (checked_add total (module_storage_bytes l)) (\<lambda>total.
     Option.bind (checked_add total (allocator_overhead_bytes l)) (\<lambda>total.
     Option.bind (checked_add total (transfer_staging_bytes l)) (\<lambda>total.
     Option.bind (checked_add total (concurrent_state_bytes l)) (\<lambda>total.
     Some total)))))))"

datatype SafePhysicalLimit = SafePhysicalLimit (limit_get: u64)

text \<open>The mathematical sum the checked chain computes.\<close>

definition ledger_sum :: "PartitionBudgetLedger \<Rightarrow> nat" where
  "ledger_sum l =
     unat (weight_bytes l) + unat (kv_cache_bytes l) + unat (activation_scratch_bytes l) +
     unat (module_storage_bytes l) + unat (allocator_overhead_bytes l) +
     unat (transfer_staging_bytes l) + unat (concurrent_state_bytes l)"

lemma bind_checked_add_Some:
  "Option.bind (checked_add a b) f = Some r \<longleftrightarrow>
     unat a + unat b < 2 ^ 64 \<and> f (a + b) = Some r"
  by (auto simp: checked_add_def)

lemma bind_checked_add_None:
  "Option.bind (checked_add a b) f = None \<longleftrightarrow>
     2 ^ 64 \<le> unat a + unat b \<or> f (a + b) = None"
  by (auto simp: checked_add_def)

lemma total_bytes_SomeD:
  assumes "total_bytes l = Some t"
  shows "unat t = ledger_sum l"
  using assms unfolding total_bytes_def bind_checked_add_Some
  by (auto simp: ledger_sum_def unat_add_u64)

lemma total_bytes_NoneD:
  assumes "total_bytes l = None"
  shows "2 ^ 64 \<le> ledger_sum l"
proof (rule ccontr)
  assume small: "\<not> 2 ^ 64 \<le> ledger_sum l"
  from assms show False
    unfolding total_bytes_def bind_checked_add_None
    using small by (auto simp: ledger_sum_def unat_add_u64)
qed

lemma unat_of_nat_u64: "n < 2 ^ 64 \<Longrightarrow> unat (of_nat n :: u64) = n"
  by (simp add: unsigned_of_nat take_bit_nat_eq_self)

lemma total_bytes_cases:
  "total_bytes l =
     (if ledger_sum l < 2 ^ 64 then Some (of_nat (ledger_sum l)) else None)"
proof (cases "total_bytes l")
  case None
  with total_bytes_NoneD [OF None] show ?thesis by simp
next
  case (Some t)
  then have t: "unat t = ledger_sum l"
    by (rule total_bytes_SomeD)
  then have "ledger_sum l < 2 ^ 64"
    using unat_u64_lt [of t] by simp
  with Some t show ?thesis
    by (metis word_unat_eq_iff unat_of_nat_u64)
qed

section \<open>Admission\<close>

record AdmissionRequest =
  req_partition_id :: VirtualDevicePartitionId
  req_bound_device :: PhysicalDeviceId
  req_declared :: PartitionBudgetLedger

datatype AdmissionError = BudgetExceeded (declared_total_bytes: "u64 option") (policy_limit_bytes: u64)

datatype PartitionFailure = AllocationFailure string | DeviceLossFailure string

datatype PartitionState = Active | PartitionFailed PartitionFailure | TornDown

record VirtualDevicePartition =
  vp_id :: VirtualDevicePartitionId
  vp_bound_device :: PhysicalDeviceId
  vp_ledger :: PartitionBudgetLedger
  vp_safe_limit :: SafePhysicalLimit
  vp_state :: PartitionState

definition admit ::
    "AdmissionRequest \<Rightarrow> SafePhysicalLimit \<Rightarrow> (VirtualDevicePartition, AdmissionError) result" where
  "admit request safe_limit =
     (let limit = limit_get safe_limit in
      case total_bytes (req_declared request) of
        Some tot \<Rightarrow>
          if tot \<le> limit then
            Ok \<lparr>vp_id = req_partition_id request,
                vp_bound_device = req_bound_device request,
                vp_ledger = req_declared request,
                vp_safe_limit = safe_limit,
                vp_state = Active\<rparr>
          else Err (BudgetExceeded (Some tot) limit)
      | None \<Rightarrow> Err (BudgetExceeded None limit))"

definition implicit_local ::
    "VirtualDevicePartitionId \<Rightarrow> PhysicalDeviceId \<Rightarrow> PartitionBudgetLedger \<Rightarrow> SafePhysicalLimit \<Rightarrow>
       (VirtualDevicePartition, AdmissionError) result" where
  "implicit_local i device ledger safe_limit =
     admit \<lparr>req_partition_id = i, req_bound_device = device, req_declared = ledger\<rparr> safe_limit"

definition vp_is_active :: "VirtualDevicePartition \<Rightarrow> bool" where
  "vp_is_active p \<longleftrightarrow> vp_state p = Active"

definition vp_failure :: "VirtualDevicePartition \<Rightarrow> PartitionFailure option" where
  "vp_failure p =
     (case vp_state p of PartitionFailed f \<Rightarrow> Some f | Active \<Rightarrow> None | TornDown \<Rightarrow> None)"

definition admitted_total_bytes :: "VirtualDevicePartition \<Rightarrow> u64 option" where
  "admitted_total_bytes p = total_bytes (vp_ledger p)"

definition record_failure :: "PartitionFailure \<Rightarrow> VirtualDevicePartition \<Rightarrow> VirtualDevicePartition" where
  "record_failure failure p =
     (case vp_state p of
        Active \<Rightarrow> p\<lparr>vp_state := PartitionFailed failure\<rparr>
      | _ \<Rightarrow> p)"

definition record_allocation_failure :: "string \<Rightarrow> VirtualDevicePartition \<Rightarrow> VirtualDevicePartition" where
  "record_allocation_failure detail p = record_failure (AllocationFailure detail) p"

definition report_device_loss :: "string \<Rightarrow> VirtualDevicePartition \<Rightarrow> VirtualDevicePartition" where
  "report_device_loss detail p = record_failure (DeviceLossFailure detail) p"

definition teardown :: "VirtualDevicePartition \<Rightarrow> VirtualDevicePartition" where
  "teardown p = p\<lparr>vp_state := TornDown\<rparr>"

lemma admit_Ok_iff:
  "admit r lim = Ok p \<longleftrightarrow>
     ledger_sum (req_declared r) \<le> unat (limit_get lim) \<and>
     p = \<lparr>vp_id = req_partition_id r, vp_bound_device = req_bound_device r,
          vp_ledger = req_declared r, vp_safe_limit = lim, vp_state = Active\<rparr>"
proof (cases "total_bytes (req_declared r)")
  case None
  then have "2 ^ 64 \<le> ledger_sum (req_declared r)"
    by (rule total_bytes_NoneD)
  then have "\<not> ledger_sum (req_declared r) \<le> unat (limit_get lim)"
    using unat_u64_lt [of "limit_get lim"] by simp
  with None show ?thesis by (simp add: admit_def Let_def)
next
  case (Some t)
  then show ?thesis
    using total_bytes_SomeD [OF Some] by (auto simp: admit_def Let_def word_le_nat_alt)
qed

lemma admit_Err_iff:
  "admit r lim = Err e \<longleftrightarrow>
     unat (limit_get lim) < ledger_sum (req_declared r) \<and>
     e = BudgetExceeded (total_bytes (req_declared r)) (limit_get lim)"
proof (cases "total_bytes (req_declared r)")
  case None
  then have "2 ^ 64 \<le> ledger_sum (req_declared r)"
    by (rule total_bytes_NoneD)
  then have "unat (limit_get lim) < ledger_sum (req_declared r)"
    using unat_u64_lt [of "limit_get lim"] by simp
  with None show ?thesis by (auto simp: admit_def Let_def)
next
  case (Some t)
  then show ?thesis
    using total_bytes_SomeD [OF Some] by (auto simp: admit_def Let_def word_le_nat_alt)
qed

section \<open>Lifecycle\<close>

text \<open>The operations the runtime may apply to an admitted partition, in any order.\<close>

datatype partition_event = EvFailure PartitionFailure | EvTeardown

fun partition_step :: "partition_event \<Rightarrow> VirtualDevicePartition \<Rightarrow> VirtualDevicePartition" where
  "partition_step (EvFailure (AllocationFailure d)) p = record_allocation_failure d p"
| "partition_step (EvFailure (DeviceLossFailure d)) p = report_device_loss d p"
| "partition_step EvTeardown p = teardown p"

definition partition_run :: "partition_event list \<Rightarrow> VirtualDevicePartition \<Rightarrow> VirtualDevicePartition" where
  "partition_run evs p = fold partition_step evs p"

lemma partition_step_failure:
  "partition_step (EvFailure f) p = record_failure f p"
  by (cases f) (simp_all add: record_allocation_failure_def report_device_loss_def)

lemma partition_step_frame:
  "vp_id (partition_step e p) = vp_id p"
  "vp_bound_device (partition_step e p) = vp_bound_device p"
  "vp_ledger (partition_step e p) = vp_ledger p"
  "vp_safe_limit (partition_step e p) = vp_safe_limit p"
  by (cases e; simp add: partition_step_failure record_failure_def teardown_def
      split: PartitionState.splits)+

lemma partition_run_frame:
  "vp_id (partition_run evs p) = vp_id p"
  "vp_bound_device (partition_run evs p) = vp_bound_device p"
  "vp_ledger (partition_run evs p) = vp_ledger p"
  "vp_safe_limit (partition_run evs p) = vp_safe_limit p"
  by (induction evs arbitrary: p) (auto simp: partition_run_def partition_step_frame)

text \<open>The state a run ends in: torn down once a teardown happened, else the first failure.\<close>

fun first_failure :: "partition_event list \<Rightarrow> PartitionState" where
  "first_failure [] = Active"
| "first_failure (EvFailure f # _) = PartitionFailed f"
| "first_failure (EvTeardown # _) = TornDown"

lemma partition_run_not_active:
  "vp_state p \<noteq> Active \<Longrightarrow>
     vp_state (partition_run evs p) = (if EvTeardown \<in> set evs then TornDown else vp_state p)"
proof (induction evs arbitrary: p)
  case Nil
  then show ?case by (simp add: partition_run_def)
next
  case (Cons e evs)
  have "vp_state (partition_step e p) = (if e = EvTeardown then TornDown else vp_state p)"
    using Cons.prems
    by (cases e) (auto simp: partition_step_failure record_failure_def teardown_def
        split: PartitionState.splits)
  moreover have "vp_state (partition_step e p) \<noteq> Active"
    using Cons.prems calculation by (auto split: if_splits)
  ultimately show ?case
    using Cons.IH [of "partition_step e p"] by (auto simp: partition_run_def split: if_splits)
qed

lemma partition_run_active:
  assumes "vp_state p = Active"
  shows "vp_state (partition_run evs p) =
     (if EvTeardown \<in> set evs then TornDown else first_failure evs)"
proof (cases evs)
  case Nil
  then show ?thesis using assms by (simp add: partition_run_def)
next
  case (Cons e es)
  have st: "vp_state (partition_step e p) = first_failure [e]"
    using assms by (cases e) (simp_all add: partition_step_failure record_failure_def teardown_def)
  then have "vp_state (partition_step e p) \<noteq> Active"
    by (cases e) simp_all
  from partition_run_not_active [OF this, of es] st Cons show ?thesis
    by (cases e) (auto simp: partition_run_def)
qed

section \<open>Receipts\<close>

datatype HardwareIsolationClaim = NotClaimed

datatype FixtureIdentityClass = Physical | Virtual | Synthetic

fun FixtureIdentityClass_tag :: "FixtureIdentityClass \<Rightarrow> u64" where
  "FixtureIdentityClass_tag Physical = 0"
| "FixtureIdentityClass_tag Virtual = 1"
| "FixtureIdentityClass_tag Synthetic = 2"

datatype TransportClass = NoTransport | HostStagedTransport | DirectedPeerNotAttempted

fun TransportClass_tag :: "TransportClass \<Rightarrow> u64" where
  "TransportClass_tag NoTransport = 0"
| "TransportClass_tag HostStagedTransport = 1"
| "TransportClass_tag DirectedPeerNotAttempted = 2"

record PartitionReceipt =
  physical_device_count :: u64
  physical_device_ids :: "PhysicalDeviceId bset"
  virtual_partition_count :: u64
  virtual_partition_ids :: "VirtualDevicePartitionId bset"
  fixture_identity_class :: FixtureIdentityClass
  transport_class :: TransportClass
  hardware_isolation_claimed :: HardwareIsolationClaim

definition PartitionReceipt_new ::
    "PhysicalDeviceId bset \<Rightarrow> VirtualDevicePartitionId bset \<Rightarrow> FixtureIdentityClass \<Rightarrow>
       TransportClass \<Rightarrow> PartitionReceipt" where
  "PartitionReceipt_new devices partitions fixture transport =
     \<lparr>physical_device_count = of_nat (length devices),
      physical_device_ids = devices,
      virtual_partition_count = of_nat (length partitions),
      virtual_partition_ids = partitions,
      fixture_identity_class = fixture,
      transport_class = transport,
      hardware_isolation_claimed = NotClaimed\<rparr>"

definition PartitionReceipt_canonical_bytes :: "PartitionReceipt \<Rightarrow> u8 list" where
  "PartitionReceipt_canonical_bytes r =
     (let out = push_u64 [] (physical_device_count r);
          out = push_u64 out (of_nat (length (physical_device_ids r)));
          out = fold (\<lambda>i out. out @ PhysicalDeviceId_canonical_bytes i) (physical_device_ids r) out;
          out = push_u64 out (virtual_partition_count r);
          out = push_u64 out (of_nat (length (virtual_partition_ids r)));
          out = fold (\<lambda>i out. push_u64 out (vp_id_get i)) (virtual_partition_ids r) out;
          out = push_u64 out (FixtureIdentityClass_tag (fixture_identity_class r));
          out = push_u64 out (TransportClass_tag (transport_class r));
          claimed = (case hardware_isolation_claimed r of NotClaimed \<Rightarrow> False)
      in push_bool out claimed)"

lemma FixtureIdentityClass_tag_inject [simp]:
  "FixtureIdentityClass_tag a = FixtureIdentityClass_tag b \<longleftrightarrow> a = b"
  by (cases a; cases b) simp_all

lemma TransportClass_tag_inject [simp]:
  "TransportClass_tag a = TransportClass_tag b \<longleftrightarrow> a = b"
  by (cases a; cases b) simp_all

interpretation vp_id_code: prefix_code "\<lambda>i. u64_to_le_bytes (vp_id_get i)" "\<lambda>_. True"
  by unfold_locales (auto simp: u64_code.peel_iff u64_code.inj intro: VirtualDevicePartitionId.expand)

interpretation device_list_code: prefix_code "list_code PhysicalDeviceId_canonical_bytes"
    "\<lambda>xs. fits_usize xs \<and> (\<forall>x\<in>set xs. device_fits x)"
  by (rule list_code_prefix) unfold_locales

interpretation vp_list_code: prefix_code "list_code (\<lambda>i. u64_to_le_bytes (vp_id_get i))"
    "\<lambda>xs. fits_usize xs \<and> (\<forall>x\<in>set xs. True)"
  by (rule list_code_prefix) unfold_locales

definition receipt_fits :: "PartitionReceipt \<Rightarrow> bool" where
  "receipt_fits r \<longleftrightarrow>
     fits_usize (physical_device_ids r) \<and> (\<forall>d\<in>set (physical_device_ids r). device_fits d) \<and>
     fits_usize (virtual_partition_ids r)"

lemma receipt_bytes_code:
  "PartitionReceipt_canonical_bytes r =
     u64_to_le_bytes (physical_device_count r) @
     list_code PhysicalDeviceId_canonical_bytes (physical_device_ids r) @
     u64_to_le_bytes (virtual_partition_count r) @
     list_code (\<lambda>i. u64_to_le_bytes (vp_id_get i)) (virtual_partition_ids r) @
     u64_to_le_bytes (FixtureIdentityClass_tag (fixture_identity_class r)) @
     u64_to_le_bytes (TransportClass_tag (transport_class r)) @ bool_code False"
  by (cases "hardware_isolation_claimed r")
     (simp add: PartitionReceipt_canonical_bytes_def Let_def codec list_code_def
       fold_append_concat)

end
