(* ===== verification/Bound_Plan.thy ===== *)
theory Bound_Plan
  imports Device_Set Virtual_Partition
begin

text \<open>
  \<open>crates/host-coordinator/src/bound_plan.rs\<close>: admission of a logical plan by its hash and
  declared facts, the binding of its partitions to physical devices with all five rejection gates,
  the receipt and the canonical bytes of the bound plan.

  \<open>bind\<close> hashes those bytes with \<open>repack_plan::sha256\<close>, which wraps the external \<open>sha2\<close> crate: the
  digest is a parameter \<open>sha\<close>, of which only the 32-byte result is used (in the lemma on the
  spelling of the hash). The lookups of \<open>check_constraint\<close> panic on a missing binding, so the
  function and \<open>bind\<close> return an option with \<^const>\<open>None\<close> for the panic; the lemmas show that a plan
  that passed \<open>admit\<close> never reaches it.
\<close>

section \<open>The admitted logical plan\<close>

datatype LogicalPartitionId = LogicalPartitionId (lp_str: string)

instantiation LogicalPartitionId :: linorder
begin

definition less_eq_LogicalPartitionId :: "LogicalPartitionId \<Rightarrow> LogicalPartitionId \<Rightarrow> bool" where
  "a \<le> b \<longleftrightarrow> lp_str a \<le> lp_str b"

definition less_LogicalPartitionId :: "LogicalPartitionId \<Rightarrow> LogicalPartitionId \<Rightarrow> bool" where
  "a < b \<longleftrightarrow> lp_str a < lp_str b"

instance
  by standard
     (auto simp: less_eq_LogicalPartitionId_def less_LogicalPartitionId_def
       intro: LogicalPartitionId.expand)

end

datatype DeclaredPlacementConstraint =
    DistinctPhysicalDevices
  | Colocated "LogicalPartitionId bset"
  | RequiredBackend "LogicalPartitionId bset" DeviceBackend

record LaunchResourceDemand =
  threads_per_workgroup :: "u32 option"
  workgroup_shared_memory_bytes :: "u32 option"

definition LaunchResourceDemand_default :: LaunchResourceDemand where
  "LaunchResourceDemand_default =
     \<lparr>threads_per_workgroup = None, workgroup_shared_memory_bytes = None\<rparr>"

datatype AdmitError =
    UnadmittedLogicalHash string
  | NoDeclaredPartitions
  | ConstraintReferencesUnknownPartition LogicalPartitionId

record AdmittedLogicalPlan =
  alp_hash :: string
  alp_partitions :: "LogicalPartitionId bset"
  alp_constraints :: "DeclaredPlacementConstraint list"
  alp_demand :: LaunchResourceDemand

definition strip_prefix :: "string \<Rightarrow> string \<Rightarrow> string option" where
  "strip_prefix p s = (if take (length p) s = p then Some (drop (length p) s) else None)"

definition is_sha256_hex :: "string \<Rightarrow> bool" where
  "is_sha256_hex hash =
     (case strip_prefix ''sha256:'' hash of
        None \<Rightarrow> False
      | Some digest \<Rightarrow> length digest = 64 \<and> list_all is_lower_hex digest)"

fun constraint_unknown_partition ::
    "DeclaredPlacementConstraint \<Rightarrow> LogicalPartitionId bset \<Rightarrow> LogicalPartitionId option" where
  "constraint_unknown_partition DistinctPhysicalDevices declared = None"
| "constraint_unknown_partition (Colocated partitions) declared =
     List.find (\<lambda>p. \<not> List.member declared p) partitions"
| "constraint_unknown_partition (RequiredBackend partitions _) declared =
     List.find (\<lambda>p. \<not> List.member declared p) partitions"

definition AdmittedLogicalPlan_admit ::
    "string \<Rightarrow> LogicalPartitionId list \<Rightarrow> DeclaredPlacementConstraint list \<Rightarrow>
       (AdmittedLogicalPlan, AdmitError) result" where
  "AdmittedLogicalPlan_admit hash declared_partitions declared_constraints =
     (if \<not> is_sha256_hex hash then Err (UnadmittedLogicalHash hash)
      else let partitions = bset_of_list declared_partitions in
        if partitions = [] then Err NoDeclaredPartitions
        else case first_some (\<lambda>c. constraint_unknown_partition c partitions) declared_constraints of
               Some p \<Rightarrow> Err (ConstraintReferencesUnknownPartition p)
             | None \<Rightarrow>
                 Ok \<lparr>alp_hash = hash,
                     alp_partitions = partitions,
                     alp_constraints = declared_constraints,
                     alp_demand = LaunchResourceDemand_default\<rparr>)"

definition with_launch_resource_demand ::
    "LaunchResourceDemand \<Rightarrow> AdmittedLogicalPlan \<Rightarrow> AdmittedLogicalPlan" where
  "with_launch_resource_demand demand p = p\<lparr>alp_demand := demand\<rparr>"

definition declared_partition_count :: "AdmittedLogicalPlan \<Rightarrow> nat" where
  "declared_partition_count p = length (alp_partitions p)"

definition is_single_partition :: "AdmittedLogicalPlan \<Rightarrow> bool" where
  "is_single_partition p \<longleftrightarrow> length (alp_partitions p) = 1"

section \<open>The bound plan\<close>

record PartitionBinding =
  pb_device :: PhysicalDeviceId
  pb_virtual :: "VirtualDevicePartition option"

definition PartitionBinding_new :: "PhysicalDeviceId \<Rightarrow> PartitionBinding" where
  "PartitionBinding_new device = \<lparr>pb_device = device, pb_virtual = None\<rparr>"

definition PartitionBinding_with_virtual_partition ::
    "PhysicalDeviceId \<Rightarrow> VirtualDevicePartition \<Rightarrow> PartitionBinding" where
  "PartitionBinding_with_virtual_partition device p = \<lparr>pb_device = device, pb_virtual = Some p\<rparr>"

type_synonym Bindings = "(LogicalPartitionId, PartitionBinding) bmap"

datatype BoundPlanKind =
    ImplicitLocal PhysicalDeviceId "VirtualDevicePartition option"
  | Distributed Bindings

datatype BindError =
    StaleSnapshot DeviceDiscoverySnapshotId DeviceHealthGeneration
  | BindMembership MembershipError
  | TopologyMismatch string
  | InvalidPartitionBinding LogicalPartitionId string
  | BindBudgetExceeded LogicalPartitionId "u64 option" u64
  | ConstraintViolation DeclaredPlacementConstraint string
  | LaunchResourceLimit PhysicalDeviceId string

record BoundDistributedPlan =
  bdp_logical_hash :: string
  bdp_kind :: BoundPlanKind
  bdp_device_set :: DeviceSet
  bdp_snapshot_id :: DeviceDiscoverySnapshotId
  bdp_fixture :: FixtureIdentityClass
  bdp_transport :: TransportClass
  bdp_bound_hash :: string

definition is_degenerate :: "BoundDistributedPlan \<Rightarrow> bool" where
  "is_degenerate p = (case bdp_kind p of ImplicitLocal _ _ \<Rightarrow> True | Distributed _ \<Rightarrow> False)"

definition plan_bindings :: "BoundDistributedPlan \<Rightarrow> Bindings option" where
  "plan_bindings p = (case bdp_kind p of Distributed b \<Rightarrow> Some b | ImplicitLocal _ _ \<Rightarrow> None)"

definition plan_receipt :: "BoundDistributedPlan \<Rightarrow> PartitionReceipt" where
  "plan_receipt p =
     (case bdp_kind p of
        ImplicitLocal device vp \<Rightarrow>
          (let physical = bset_of_list [device];
               virtual_ids = bset_of_list (map vp_id (case vp of None \<Rightarrow> [] | Some v \<Rightarrow> [v]))
           in PartitionReceipt_new physical virtual_ids (bdp_fixture p) (bdp_transport p))
      | Distributed bindings \<Rightarrow>
          (let physical = bset_of_list (map pb_device (bmap_values bindings));
               virtual_ids = bset_of_list
                 (List.map_filter (\<lambda>b. map_option vp_id (pb_virtual b)) (bmap_values bindings))
           in PartitionReceipt_new physical virtual_ids (bdp_fixture p) (bdp_transport p)))"

definition push_virtual :: "VirtualDevicePartition option \<Rightarrow> u8 list \<Rightarrow> u8 list" where
  "push_virtual vp out =
     (case vp of
        Some v \<Rightarrow> push_u64 (out @ [1]) (vp_id_get (vp_id v))
      | None \<Rightarrow> out @ [0])"

definition push_binding :: "LogicalPartitionId \<times> PartitionBinding \<Rightarrow> u8 list \<Rightarrow> u8 list" where
  "push_binding pb out =
     (let (partition, binding) = pb;
          out = push_str out (lp_str partition);
          out = out @ PhysicalDeviceId_canonical_bytes (pb_device binding)
      in push_virtual (pb_virtual binding) out)"

definition plan_canonical_bytes :: "BoundDistributedPlan \<Rightarrow> u8 list" where
  "plan_canonical_bytes p =
     (let out = [];
          out = push_str out (bdp_logical_hash p);
          out = (case bdp_kind p of
                   ImplicitLocal device vp \<Rightarrow>
                     (let out = out @ [0];
                          out = out @ PhysicalDeviceId_canonical_bytes device
                      in push_virtual vp out)
                 | Distributed bindings \<Rightarrow>
                     (let out = out @ [1];
                          out = push_u64 out (of_nat (length bindings))
                      in fold push_binding bindings out));
          out = push_u64 out (of_nat (DeviceSet_len (bdp_device_set p)));
          out = fold (\<lambda>i out. out @ PhysicalDeviceId_canonical_bytes i)
                  (set_members (bdp_device_set p)) out;
          out = out @ snapshot_id_bytes (bdp_snapshot_id p);
          out = push_u64 out (FixtureIdentityClass_tag (bdp_fixture p))
      in push_u64 out (TransportClass_tag (bdp_transport p)))"

section \<open>The gates of bind\<close>

definition check_binding_consistency :: "LogicalPartitionId \<times> PartitionBinding \<Rightarrow> BindError option" where
  "check_binding_consistency pb =
     (let (partition, binding) = pb in
      case pb_virtual binding of
        None \<Rightarrow> None
      | Some v \<Rightarrow>
          if vp_bound_device v \<noteq> pb_device binding then
            Some (InvalidPartitionBinding partition
              (''attached partition '' @ VirtualDevicePartitionId_display (vp_id v) @ '' binds '' @
               PhysicalDeviceId_display (vp_bound_device v) @ '', but the binding names '' @
               PhysicalDeviceId_display (pb_device binding)))
          else if \<not> vp_is_active v then
            Some (InvalidPartitionBinding partition
              (''attached partition '' @ VirtualDevicePartitionId_display (vp_id v) @
               '' is not active''))
          else None)"

text \<open>The two loops of \<open>check_constraint\<close>; the outer \<^const>\<open>None\<close> is the panic of \<open>expect\<close>.\<close>

fun collect_devices ::
    "Bindings \<Rightarrow> LogicalPartitionId list \<Rightarrow> PhysicalDeviceId bset \<Rightarrow> PhysicalDeviceId bset option" where
  "collect_devices bindings [] devices = Some devices"
| "collect_devices bindings (p # ps) devices =
     (case bmap_get bindings p of
        None \<Rightarrow> None
      | Some b \<Rightarrow> collect_devices bindings ps (bset_insert (pb_device b) devices))"

fun check_backends ::
    "Bindings \<Rightarrow> DeviceBackend \<Rightarrow> LogicalPartitionId list \<Rightarrow> string option option" where
  "check_backends bindings backend [] = Some None"
| "check_backends bindings backend (p # ps) =
     (case bmap_get bindings p of
        None \<Rightarrow> None
      | Some b \<Rightarrow>
          if PhysicalDeviceId_backend (pb_device b) \<noteq> backend then
            Some (Some (''partition '' @ lp_str p @ '' bound to a '' @
              DeviceBackend_spelling (PhysicalDeviceId_backend (pb_device b)) @
              '' device; declared backend is '' @ DeviceBackend_spelling backend))
          else check_backends bindings backend ps)"

fun check_constraint :: "DeclaredPlacementConstraint \<Rightarrow> Bindings \<Rightarrow> string option option" where
  "check_constraint DistinctPhysicalDevices bindings =
     (let distinct_devices = bset_of_list (map pb_device (bmap_values bindings)) in
      if length distinct_devices \<noteq> length bindings then
        Some (Some (show_nat (length bindings) @
          '' partition(s) must each bind a distinct physical device; '' @
          show_nat (length distinct_devices) @ '' distinct device(s) referenced''))
      else Some None)"
| "check_constraint (Colocated partitions) bindings =
     (case collect_devices bindings partitions [] of
        None \<Rightarrow> None
      | Some devices \<Rightarrow>
          if 1 < length devices then
            Some (Some (''colocated partitions must bind exactly one physical device; found '' @
              show_nat (length devices)))
          else Some None)"
| "check_constraint (RequiredBackend partitions backend) bindings =
     check_backends bindings backend partitions"

fun check_constraints :: "DeclaredPlacementConstraint list \<Rightarrow> Bindings \<Rightarrow> BindError option option" where
  "check_constraints [] bindings = Some None"
| "check_constraints (c # cs) bindings =
     (case check_constraint c bindings of
        None \<Rightarrow> None
      | Some (Some detail) \<Rightarrow> Some (Some (ConstraintViolation c detail))
      | Some None \<Rightarrow> check_constraints cs bindings)"

definition snapshot_caps :: "DeviceDiscoverySnapshot \<Rightarrow> PhysicalDeviceId \<Rightarrow> DeviceCapabilities option" where
  "snapshot_caps snapshot device =
     map_option de_capabilities
       (List.find (\<lambda>e. de_identity e = device) (bmap_values (ds_devices snapshot)))"

definition evaluable_launch_limit :: "u32 \<Rightarrow> string \<Rightarrow> (u32, string) result" where
  "evaluable_launch_limit value field =
     (if value = 0 then Err (field @ '' is unevaluable (device reports 0)'') else Ok value)"

definition launch_limit_error :: "PhysicalDeviceId \<Rightarrow> string \<Rightarrow> BindError" where
  "launch_limit_error device detail = LaunchResourceLimit device detail"

definition check_threads :: "u32 option \<Rightarrow> DeviceCapabilities \<Rightarrow> string option" where
  "check_threads demand caps =
     (case demand of
        None \<Rightarrow> None
      | Some threads \<Rightarrow>
          (case evaluable_launch_limit (max_threads_per_workgroup caps) ''max_threads_per_workgroup'' of
             Err detail \<Rightarrow> Some detail
           | Ok limit \<Rightarrow>
               if limit < threads then
                 Some (''threads per workgroup '' @ display_u32 threads @
                   '' exceeds device max_threads_per_workgroup '' @ display_u32 limit)
               else None))"

definition check_shared_memory :: "u32 option \<Rightarrow> DeviceCapabilities \<Rightarrow> string option" where
  "check_shared_memory demand caps =
     (case demand of
        None \<Rightarrow> None
      | Some bytes \<Rightarrow>
          (case evaluable_launch_limit (workgroup_shared_memory_max_bytes caps)
                  ''workgroup_shared_memory_max_bytes'' of
             Err detail \<Rightarrow> Some detail
           | Ok limit \<Rightarrow>
               if limit < bytes then
                 Some (''workgroup shared memory '' @ display_u32 bytes @
                   '' bytes exceeds device max '' @ display_u32 limit @ '' bytes'')
               else None))"

definition check_device_limits ::
    "LaunchResourceDemand \<Rightarrow> DeviceDiscoverySnapshot \<Rightarrow> PhysicalDeviceId \<Rightarrow> BindError option" where
  "check_device_limits demand snapshot device =
     (case snapshot_caps snapshot device of
        None \<Rightarrow>
          Some (launch_limit_error device
            (''no capability facts recorded for '' @ PhysicalDeviceId_display device @
             '' in the snapshot''))
      | Some caps \<Rightarrow>
          (case check_threads (threads_per_workgroup demand) caps of
             Some detail \<Rightarrow> Some (launch_limit_error device detail)
           | None \<Rightarrow>
               (case check_shared_memory (workgroup_shared_memory_bytes demand) caps of
                  Some detail \<Rightarrow> Some (launch_limit_error device detail)
                | None \<Rightarrow> None)))"

definition check_launch_resource_limits ::
    "LaunchResourceDemand \<Rightarrow> PhysicalDeviceId bset \<Rightarrow> DeviceDiscoverySnapshot \<Rightarrow> BindError option" where
  "check_launch_resource_limits demand bound_devices snapshot =
     (if threads_per_workgroup demand = None \<and> workgroup_shared_memory_bytes demand = None then None
      else first_some (check_device_limits demand snapshot) bound_devices)"

definition hex_lower :: "u8 list \<Rightarrow> string" where
  "hex_lower bytes = concat (map hex_byte bytes)"

text \<open>The shape of the plan; \<^const>\<open>None\<close> is the \<open>expect\<close> on the single binding.\<close>

definition plan_kind :: "AdmittedLogicalPlan \<Rightarrow> Bindings \<Rightarrow> BoundPlanKind option" where
  "plan_kind admitted bindings =
     (if is_single_partition admitted then
        (case bindings of
           [] \<Rightarrow> None
         | b # _ \<Rightarrow> Some (ImplicitLocal (pb_device (snd b)) (pb_virtual (snd b))))
      else Some (Distributed bindings))"

definition bind ::
    "(u8 list \<Rightarrow> u8 list) \<Rightarrow> AdmittedLogicalPlan \<Rightarrow> Bindings \<Rightarrow> DeviceSet \<Rightarrow>
       DeviceDiscoverySnapshot \<Rightarrow> DeviceHealthGeneration \<Rightarrow> FixtureIdentityClass \<Rightarrow> TransportClass \<Rightarrow>
       (BoundDistributedPlan, BindError) result option" where
  "bind sha admitted bindings device_set snapshot current fixture transport =
     (if snapshot_is_stale snapshot current then
        Some (Err (StaleSnapshot (ds_id snapshot) current))
      else case DeviceSet_validate device_set snapshot current of
        Some e \<Rightarrow> Some (Err (BindMembership e))
      | None \<Rightarrow>
      let declared_keys = bset_of_list (alp_partitions admitted);
          bound_keys = bset_of_list (bmap_keys bindings)
      in if declared_keys \<noteq> bound_keys then
        Some (Err (TopologyMismatch
          (''binding set does not match the declared partition set: declared '' @
           show_nat (declared_partition_count admitted) @ '' partition(s), '' @
           show_nat (length bindings) @ '' binding(s)'')))
      else let bound_devices = bset_of_list (map pb_device (bmap_values bindings))
      in if bound_devices \<noteq> set_members device_set then
        Some (Err (TopologyMismatch
          (''the device set does not match the bound device set: set has '' @
           show_nat (DeviceSet_len device_set) @ '' member(s), bindings reference '' @
           show_nat (length bound_devices))))
      else case first_some check_binding_consistency bindings of
        Some e \<Rightarrow> Some (Err e)
      | None \<Rightarrow>
      case check_constraints (alp_constraints admitted) bindings of
        None \<Rightarrow> None
      | Some (Some e) \<Rightarrow> Some (Err e)
      | Some None \<Rightarrow>
      case check_launch_resource_limits (alp_demand admitted) bound_devices snapshot of
        Some e \<Rightarrow> Some (Err e)
      | None \<Rightarrow>
      case plan_kind admitted bindings of
        None \<Rightarrow> None
      | Some kind \<Rightarrow>
      let plan = \<lparr>bdp_logical_hash = alp_hash admitted, bdp_kind = kind,
                  bdp_device_set = device_set, bdp_snapshot_id = ds_id snapshot,
                  bdp_fixture = fixture, bdp_transport = transport, bdp_bound_hash = []\<rparr>;
          bytes = plan_canonical_bytes plan
      in Some (Ok (plan\<lparr>bdp_bound_hash := ''sha256:'' @ hex_lower (sha bytes)\<rparr>)))"

section \<open>Admission of the logical plan\<close>

definition constraint_partitions :: "DeclaredPlacementConstraint \<Rightarrow> LogicalPartitionId set" where
  "constraint_partitions c =
     (case c of DistinctPhysicalDevices \<Rightarrow> {} | Colocated ps \<Rightarrow> set ps | RequiredBackend ps _ \<Rightarrow> set ps)"

lemma constraint_unknown_None_iff:
  "constraint_unknown_partition c declared = None \<longleftrightarrow> constraint_partitions c \<subseteq> set declared"
  by (cases c) (auto simp: constraint_partitions_def find_None_iff)

text \<open>What \<open>admit\<close> establishes, and what attaching a launch demand keeps.\<close>

definition admitted_ok :: "AdmittedLogicalPlan \<Rightarrow> bool" where
  "admitted_ok a \<longleftrightarrow>
     is_sha256_hex (alp_hash a) \<and> bset_ok (alp_partitions a) \<and> alp_partitions a \<noteq> [] \<and>
     (\<forall>c\<in>set (alp_constraints a). constraint_partitions c \<subseteq> set (alp_partitions a))"

lemma admit_plan_Ok_iff:
  "AdmittedLogicalPlan_admit h ps cs = Ok a \<longleftrightarrow>
     is_sha256_hex h \<and> ps \<noteq> [] \<and> (\<forall>c\<in>set cs. constraint_partitions c \<subseteq> set ps) \<and>
     a = \<lparr>alp_hash = h, alp_partitions = bset_of_list ps, alp_constraints = cs,
          alp_demand = LaunchResourceDemand_default\<rparr>"
proof -
  let ?f = "first_some (\<lambda>c. constraint_unknown_partition c (bset_of_list ps)) cs"
  let ?all = "\<forall>c\<in>set cs. constraint_partitions c \<subseteq> set ps"
  have iff: "?f = None \<longleftrightarrow> ?all"
    by (simp add: first_some_None_iff constraint_unknown_None_iff)
  show ?thesis
  proof (cases ?f)
    case None
    with iff have ?all by blast
    then show ?thesis
      unfolding AdmittedLogicalPlan_admit_def Let_def None by auto
  next
    case (Some p)
    with iff have "\<not> ?all" by (metis option.distinct(1))
    then show ?thesis
      unfolding AdmittedLogicalPlan_admit_def Let_def Some by auto
  qed
qed

lemma admitted_ok_admit: "AdmittedLogicalPlan_admit h ps cs = Ok a \<Longrightarrow> admitted_ok a"
  unfolding admit_plan_Ok_iff by (auto simp: admitted_ok_def)

lemma admitted_ok_demand: "admitted_ok (with_launch_resource_demand d a) \<longleftrightarrow> admitted_ok a"
  by (simp add: admitted_ok_def with_launch_resource_demand_def)

lemma hash_spelling_ok:
  assumes "length d = 32"
  shows "is_sha256_hex (''sha256:'' @ hex_lower d)"
  using assms list_all_lower_hex_concat [of d]
  by (simp add: is_sha256_hex_def strip_prefix_def hex_lower_def length_concat comp_def sum_list_triv)

section \<open>What the gates decide\<close>

abbreviation bound_device_of :: "Bindings \<Rightarrow> LogicalPartitionId \<Rightarrow> PhysicalDeviceId" where
  "bound_device_of bindings p \<equiv> pb_device (the (bmap_get bindings p))"

fun constraint_holds :: "DeclaredPlacementConstraint \<Rightarrow> Bindings \<Rightarrow> bool" where
  "constraint_holds DistinctPhysicalDevices bindings \<longleftrightarrow>
     distinct (map pb_device (bmap_values bindings))"
| "constraint_holds (Colocated ps) bindings \<longleftrightarrow>
     (\<forall>p\<in>set ps. \<forall>q\<in>set ps. bound_device_of bindings p = bound_device_of bindings q)"
| "constraint_holds (RequiredBackend ps backend) bindings \<longleftrightarrow>
     (\<forall>p\<in>set ps. PhysicalDeviceId_backend (bound_device_of bindings p) = backend)"

lemma collect_devices_Some:
  "\<forall>p\<in>set ps. bmap_get bindings p \<noteq> None \<Longrightarrow>
     collect_devices bindings ps ds = Some (bset_extend (map (bound_device_of bindings) ps) ds)"
  by (induction ps arbitrary: ds) (auto simp: bset_extend_def)

lemma check_backends_total:
  "\<forall>p\<in>set ps. bmap_get bindings p \<noteq> None \<Longrightarrow>
     \<exists>r. check_backends bindings b ps = Some r \<and>
       (r = None \<longleftrightarrow> (\<forall>p\<in>set ps. PhysicalDeviceId_backend (bound_device_of bindings p) = b))"
proof (induction ps)
  case (Cons p ps)
  then obtain y where "bmap_get bindings p = Some y" by auto
  with Cons show ?case
    by (cases "PhysicalDeviceId_backend (pb_device y) = b") simp_all
qed simp

lemma length_bset_le_1: "length (bset_of_list xs) \<le> Suc 0 \<longleftrightarrow> (\<forall>x\<in>set xs. \<forall>y\<in>set xs. x = y)"
  by (simp add: length_bset_of_list card_le_Suc0_iff_eq)

lemma length_bset_distinct: "length (bset_of_list xs) = length xs \<longleftrightarrow> distinct xs"
  by (metis length_bset_of_list card_distinct distinct_card)

lemma check_constraint_total:
  assumes "\<forall>p\<in>constraint_partitions c. bmap_get bindings p \<noteq> None"
  shows "\<exists>r. check_constraint c bindings = Some r \<and> (r = None \<longleftrightarrow> constraint_holds c bindings)"
proof (cases c)
  case DistinctPhysicalDevices
  have "length (bset_of_list (map pb_device (bmap_values bindings))) = length bindings \<longleftrightarrow>
      distinct (map pb_device (bmap_values bindings))"
    using length_bset_distinct [of "map pb_device (bmap_values bindings)"] by simp
  then show ?thesis
    unfolding DistinctPhysicalDevices check_constraint.simps constraint_holds.simps Let_def
    by (cases "distinct (map pb_device (bmap_values bindings))") simp_all
next
  case (Colocated ps)
  let ?ds = "bset_of_list (map (bound_device_of bindings) ps)"
  have c: "collect_devices bindings ps [] = Some ?ds"
    using assms Colocated by (simp add: collect_devices_Some constraint_partitions_def bset_extend_empty)
  have e: "\<not> 1 < length ?ds \<longleftrightarrow> constraint_holds c bindings"
    unfolding Colocated constraint_holds.simps not_less One_nat_def length_bset_le_1 set_map by blast
  have "\<exists>m. check_constraint c bindings = Some (if 1 < length ?ds then Some m else None)"
    by (simp add: Colocated c)
  then show ?thesis
    unfolding e [symmetric] by (metis option.distinct(1))
next
  case (RequiredBackend ps b)
  with assms check_backends_total [of ps bindings b] show ?thesis
    by (simp add: constraint_partitions_def)
qed

lemma check_constraints_total:
  assumes "\<forall>c\<in>set cs. \<forall>p\<in>constraint_partitions c. bmap_get bindings p \<noteq> None"
  shows "\<exists>r. check_constraints cs bindings = Some r \<and>
     (r = None \<longleftrightarrow> (\<forall>c\<in>set cs. constraint_holds c bindings))"
  using assms
proof (induction cs)
  case (Cons c cs)
  from Cons.prems obtain r where "check_constraint c bindings = Some r"
      "r = None \<longleftrightarrow> constraint_holds c bindings"
    using check_constraint_total [of c bindings] by auto
  with Cons show ?case by (cases r) auto
qed simp

definition launch_fits :: "LaunchResourceDemand \<Rightarrow> DeviceCapabilities \<Rightarrow> bool" where
  "launch_fits demand caps \<longleftrightarrow>
     (\<forall>n. threads_per_workgroup demand = Some n \<longrightarrow>
        max_threads_per_workgroup caps \<noteq> 0 \<and> n \<le> max_threads_per_workgroup caps) \<and>
     (\<forall>n. workgroup_shared_memory_bytes demand = Some n \<longrightarrow>
        workgroup_shared_memory_max_bytes caps \<noteq> 0 \<and> n \<le> workgroup_shared_memory_max_bytes caps)"

lemma check_device_limits_None_iff:
  "check_device_limits demand s d = None \<longleftrightarrow>
     (\<exists>caps. snapshot_caps s d = Some caps \<and> launch_fits demand caps)"
proof (cases "snapshot_caps s d")
  case None
  then show ?thesis by (simp add: check_device_limits_def)
next
  case (Some caps)
  have "check_threads (threads_per_workgroup demand) caps = None \<longleftrightarrow>
      (\<forall>n. threads_per_workgroup demand = Some n \<longrightarrow>
        max_threads_per_workgroup caps \<noteq> 0 \<and> n \<le> max_threads_per_workgroup caps)"
    by (auto simp: check_threads_def evaluable_launch_limit_def split: option.splits)
  moreover have "check_shared_memory (workgroup_shared_memory_bytes demand) caps = None \<longleftrightarrow>
      (\<forall>n. workgroup_shared_memory_bytes demand = Some n \<longrightarrow>
        workgroup_shared_memory_max_bytes caps \<noteq> 0 \<and> n \<le> workgroup_shared_memory_max_bytes caps)"
    by (auto simp: check_shared_memory_def evaluable_launch_limit_def split: option.splits)
  ultimately show ?thesis
    using Some by (auto simp: check_device_limits_def launch_fits_def split: option.splits)
qed

lemma snapshot_caps_entry: "snapshot_caps s d = map_option de_capabilities (find_entry s d)"
  by (simp add: snapshot_caps_def find_entry_def)

lemma check_launch_None_iff:
  assumes "\<forall>d\<in>set devices. find_entry s d \<noteq> None"
  shows "check_launch_resource_limits demand devices s = None \<longleftrightarrow>
     (\<forall>d\<in>set devices. \<forall>caps. snapshot_caps s d = Some caps \<longrightarrow> launch_fits demand caps)"
proof -
  have "launch_fits demand caps"
    if "threads_per_workgroup demand = None" "workgroup_shared_memory_bytes demand = None" for caps
    using that by (simp add: launch_fits_def)
  moreover have "\<exists>caps. snapshot_caps s d = Some caps" if "d \<in> set devices" for d
    using assms that by (auto simp: snapshot_caps_entry)
  ultimately show ?thesis
    unfolding check_launch_resource_limits_def if_split [of "\<lambda>x. x = None \<longleftrightarrow> _"]
      check_device_limits_None_iff first_some_None_iff
    by (metis option.inject)
qed

lemma check_binding_None_iff:
  "check_binding_consistency (p, b) = None \<longleftrightarrow>
     (\<forall>v. pb_virtual b = Some v \<longrightarrow> vp_bound_device v = pb_device b \<and> vp_is_active v)"
  by (auto simp: check_binding_consistency_def split: option.splits)

section \<open>What bind accepts\<close>

text \<open>The bind contract of the module's header, as one predicate over the inputs.\<close>

definition bindable ::
    "AdmittedLogicalPlan \<Rightarrow> Bindings \<Rightarrow> DeviceSet \<Rightarrow> DeviceDiscoverySnapshot \<Rightarrow>
       DeviceHealthGeneration \<Rightarrow> bool" where
  "bindable admitted bindings device_set snapshot current \<longleftrightarrow>
     (\<forall>e\<in>set (bmap_values (ds_devices snapshot)). de_health_generation e = current) \<and>
     (\<forall>d\<in>set (set_members device_set). find_entry snapshot d \<noteq> None) \<and>
     set (bmap_keys bindings) = set (alp_partitions admitted) \<and>
     set (set_members device_set) = pb_device ` set (bmap_values bindings) \<and>
     (\<forall>b\<in>set (bmap_values bindings). \<forall>v. pb_virtual b = Some v \<longrightarrow>
        vp_bound_device v = pb_device b \<and> vp_is_active v) \<and>
     (\<forall>c\<in>set (alp_constraints admitted). constraint_holds c bindings) \<and>
     (\<forall>d\<in>set (set_members device_set). \<forall>caps. snapshot_caps snapshot d = Some caps \<longrightarrow>
        launch_fits (alp_demand admitted) caps)"

definition well_formed_bind :: "AdmittedLogicalPlan \<Rightarrow> Bindings \<Rightarrow> DeviceSet \<Rightarrow> bool" where
  "well_formed_bind admitted bindings device_set \<longleftrightarrow>
     admitted_ok admitted \<and> bmap_ok bindings \<and> bset_ok (set_members device_set)"

text \<open>The plan an accepted bind returns.\<close>

definition bound_plan_of ::
    "(u8 list \<Rightarrow> u8 list) \<Rightarrow> AdmittedLogicalPlan \<Rightarrow> Bindings \<Rightarrow> DeviceSet \<Rightarrow>
       DeviceDiscoverySnapshot \<Rightarrow> FixtureIdentityClass \<Rightarrow> TransportClass \<Rightarrow> BoundDistributedPlan \<Rightarrow> bool" where
  "bound_plan_of sha admitted bindings device_set snapshot fixture transport plan \<longleftrightarrow>
     bdp_logical_hash plan = alp_hash admitted \<and>
     plan_kind admitted bindings = Some (bdp_kind plan) \<and>
     bdp_device_set plan = device_set \<and> bdp_snapshot_id plan = ds_id snapshot \<and>
     bdp_fixture plan = fixture \<and> bdp_transport plan = transport \<and>
     bdp_bound_hash plan = ''sha256:'' @ hex_lower (sha (plan_canonical_bytes plan))"

text \<open>The hash field itself is not hashed.\<close>

lemma plan_bytes_cong:
  "bdp_logical_hash p = bdp_logical_hash q \<Longrightarrow> bdp_kind p = bdp_kind q \<Longrightarrow>
   bdp_device_set p = bdp_device_set q \<Longrightarrow> bdp_snapshot_id p = bdp_snapshot_id q \<Longrightarrow>
   bdp_fixture p = bdp_fixture q \<Longrightarrow> bdp_transport p = bdp_transport q \<Longrightarrow>
   plan_canonical_bytes p = plan_canonical_bytes q"
  by (simp add: plan_canonical_bytes_def)

lemma plan_kind_Some:
  assumes "well_formed_bind admitted bindings device_set"
    and "set (bmap_keys bindings) = set (alp_partitions admitted)"
  obtains kind where "plan_kind admitted bindings = Some kind"
proof (cases bindings)
  case Nil
  with assms show ?thesis by (simp add: well_formed_bind_def admitted_ok_def)
next
  case (Cons b bs)
  with that show ?thesis
    by (cases "is_single_partition admitted") (simp_all add: plan_kind_def)
qed

lemma snapshot_not_stale_iff:
  "\<not> snapshot_is_stale s g \<longleftrightarrow> (\<forall>e\<in>set (bmap_values (ds_devices s)). de_health_generation e = g)"
  by (auto simp: snapshot_is_stale_def generation_is_stale_def list_ex_iff)

lemma validate_current_iff:
  assumes "\<forall>e\<in>set (bmap_values (ds_devices s)). de_health_generation e = g"
  shows "DeviceSet_validate ds s g = None \<longleftrightarrow> (\<forall>d\<in>set (set_members ds). find_entry s d \<noteq> None)"
proof -
  have "(\<exists>e. find_entry s d = Some e \<and> de_health_generation e = g) \<longleftrightarrow> find_entry s d \<noteq> None" for d
    using assms find_entry_Some_mem [of s d] by blast
  then show ?thesis
    by (simp add: DeviceSet_validate_None_iff)
qed

lemma devices_match_iff:
  assumes "bset_ok members"
  shows "bset_of_list ds = members \<longleftrightarrow> set members = set ds"
  using assms by (metis bset_of_list_cong bset_of_list_id set_bset_of_list)

lemma consistency_None_iff:
  "first_some check_binding_consistency bindings = None \<longleftrightarrow>
     (\<forall>b\<in>set (bmap_values bindings). \<forall>v. pb_virtual b = Some v \<longrightarrow>
        vp_bound_device v = pb_device b \<and> vp_is_active v)"
proof -
  have "check_binding_consistency x = None \<longleftrightarrow> (\<forall>v. pb_virtual (snd x) = Some v \<longrightarrow>
        vp_bound_device v = pb_device (snd x) \<and> vp_is_active v)" for x
    by (cases x) (simp add: check_binding_None_iff)
  then show ?thesis
    by (simp add: first_some_None_iff)
qed

lemma constraints_bound:
  assumes "well_formed_bind a b ds" "set (bmap_keys b) = set (alp_partitions a)"
  shows "\<forall>c\<in>set (alp_constraints a). \<forall>p\<in>constraint_partitions c. bmap_get b p \<noteq> None"
  using assms unfolding well_formed_bind_def admitted_ok_def
  by (metis list.set_map map_of_eq_None_iff subsetD)

text \<open>The gates in order, each discharged by the conjunct of \<open>bindable\<close> it decides.\<close>

lemma bind_cases:
  assumes wf: "well_formed_bind a b ds"
  shows "(\<exists>plan. bind sha a b ds s g f tr = Some (Ok plan) \<and> bindable a b ds s g \<and>
            bound_plan_of sha a b ds s f tr plan) \<or>
         (\<exists>e. bind sha a b ds s g f tr = Some (Err e) \<and> \<not> bindable a b ds s g)"
proof -
  have members: "bset_ok (set_members ds)"
    using wf by (simp add: well_formed_bind_def)
  note unf = bind_def Let_def
  show ?thesis
  proof (cases "snapshot_is_stale s g")
    case True
    then show ?thesis
      using snapshot_not_stale_iff [of s g] by (auto simp: unf bindable_def)
  next
    case fresh: False
    then have gen: "\<forall>e\<in>set (bmap_values (ds_devices s)). de_health_generation e = g"
      by (simp add: snapshot_not_stale_iff)
    show ?thesis
    proof (cases "DeviceSet_validate ds s g")
      case (Some e)
      with validate_current_iff [OF gen, of ds] have "\<not> bindable a b ds s g"
        by (auto simp: bindable_def)
      with fresh Some show ?thesis by (simp add: unf)
    next
      case valid: None
      with validate_current_iff [OF gen, of ds]
      have found: "\<forall>d\<in>set (set_members ds). find_entry s d \<noteq> None" by blast
      show ?thesis
      proof (cases "bset_of_list (alp_partitions a) = bset_of_list (bmap_keys b) \<and>
          bset_of_list (map pb_device (bmap_values b)) = set_members ds")
        case False
        then have "\<not> bindable a b ds s g"
          unfolding bset_of_list_eq_iff devices_match_iff [OF members] bindable_def by auto
        with False fresh valid show ?thesis by (auto simp: unf)
      next
        case shape: True
        then have keys: "set (bmap_keys b) = set (alp_partitions a)"
            and devs: "set (set_members ds) = pb_device ` set (bmap_values b)"
          unfolding bset_of_list_eq_iff devices_match_iff [OF members] by (simp_all add: image_image)
        from check_constraints_total [OF constraints_bound [OF wf keys]]
        obtain r where r: "check_constraints (alp_constraints a) b = Some r"
            "r = None \<longleftrightarrow> (\<forall>c\<in>set (alp_constraints a). constraint_holds c b)" by blast
        obtain kind where kind: "plan_kind a b = Some kind"
          by (rule plan_kind_Some [OF wf keys])
        show ?thesis
        proof (cases "first_some check_binding_consistency b = None \<and> r = None \<and>
            check_launch_resource_limits (alp_demand a) (set_members ds) s = None")
          case True
          then have "bindable a b ds s g"
            using gen found keys devs r(2) consistency_None_iff [of b]
              check_launch_None_iff [OF found, of "alp_demand a"]
            unfolding bindable_def by blast
          then show ?thesis
            using True fresh valid shape r(1) kind
            by (simp add: unf bound_plan_of_def)
               (intro arg_cong [of _ _ hex_lower] arg_cong [of _ _ sha] plan_bytes_cong; simp)
        next
          case False
          then have "\<not> bindable a b ds s g"
            using r(2) consistency_None_iff [of b] check_launch_None_iff [OF found, of "alp_demand a"]
            unfolding bindable_def by blast
          with False fresh valid shape r(1) kind show ?thesis
            by (cases r) (auto simp: unf split: option.splits)
        qed
      qed
    qed
  qed
qed

section \<open>The canonical bytes determine the binding facts\<close>

text \<open>
  The bytes carry the id of an attached virtual partition, not its ledger or state, so they
  determine the plan up to those: \<open>plan_facts\<close> is what enters the hash.
\<close>

type_synonym binding_fact = "PhysicalDeviceId \<times> VirtualDevicePartitionId option"

definition binding_facts :: "Bindings \<Rightarrow> (LogicalPartitionId \<times> binding_fact) list" where
  "binding_facts b = map (\<lambda>(p, x). (p, pb_device x, map_option vp_id (pb_virtual x))) b"

fun kind_facts :: "BoundPlanKind \<Rightarrow> binding_fact + (LogicalPartitionId \<times> binding_fact) list" where
  "kind_facts (ImplicitLocal d v) = Inl (d, map_option vp_id v)"
| "kind_facts (Distributed b) = Inr (binding_facts b)"

definition vp_opt_code :: "VirtualDevicePartitionId option \<Rightarrow> u8 list" where
  "vp_opt_code v = opt_code (\<lambda>i. u64_to_le_bytes (vp_id_get i)) v"

interpretation vp_opt_prefix: prefix_code vp_opt_code "\<lambda>_. True"
  unfolding vp_opt_code_def
  using opt_code_prefix [OF vp_id_code.prefix_code_axioms] by (simp add: option.case_eq_if)

definition fact_code :: "binding_fact \<Rightarrow> u8 list" where
  "fact_code x = PhysicalDeviceId_canonical_bytes (fst x) @ vp_opt_code (snd x)"

interpretation fact_prefix: prefix_code fact_code "\<lambda>x. device_fits (fst x)"
  by unfold_locales
     (auto simp: fact_code_def device_code.peel_iff vp_opt_prefix.peel_iff prod_eq_iff)

definition keyed_fact_code :: "LogicalPartitionId \<times> binding_fact \<Rightarrow> u8 list" where
  "keyed_fact_code x = str_code (lp_str (fst x)) @ fact_code (snd x)"

definition keyed_fact_fits :: "LogicalPartitionId \<times> binding_fact \<Rightarrow> bool" where
  "keyed_fact_fits x \<longleftrightarrow> fits_usize (lp_str (fst x)) \<and> device_fits (fst (snd x))"

interpretation keyed_fact_prefix: prefix_code keyed_fact_code keyed_fact_fits
  by unfold_locales
     (auto simp: keyed_fact_code_def keyed_fact_fits_def str_prefix.peel_iff fact_prefix.peel_iff
       prod_eq_iff LogicalPartitionId.expand)

interpretation facts_list_code: prefix_code "list_code keyed_fact_code"
    "\<lambda>xs. fits_usize xs \<and> (\<forall>x\<in>set xs. keyed_fact_fits x)"
  by (rule list_code_prefix) unfold_locales

definition kind_code :: "binding_fact + (LogicalPartitionId \<times> binding_fact) list \<Rightarrow> u8 list" where
  "kind_code k = (case k of Inl x \<Rightarrow> 0 # fact_code x | Inr xs \<Rightarrow> 1 # list_code keyed_fact_code xs)"

definition kind_fits :: "binding_fact + (LogicalPartitionId \<times> binding_fact) list \<Rightarrow> bool" where
  "kind_fits k =
     (case k of Inl x \<Rightarrow> device_fits (fst x)
      | Inr xs \<Rightarrow> fits_usize xs \<and> (\<forall>x\<in>set xs. keyed_fact_fits x))"

interpretation kind_prefix: prefix_code kind_code kind_fits
proof
  fix a b r s
  assume "kind_fits a" "kind_fits b" "kind_code a @ r = kind_code b @ s"
  then show "a = b \<and> r = s"
    by (cases a; cases b)
       (auto simp: kind_code_def kind_fits_def dest: fact_prefix.peel [rotated 2]
         facts_list_code.peel [rotated 2])
qed

lemma push_virtual_code: "push_virtual v out = out @ vp_opt_code (map_option vp_id v)"
  by (cases v) (simp_all add: push_virtual_def vp_opt_code_def opt_code_def bool_code_def codec)

lemma push_binding_code:
  "push_binding x out =
     out @ keyed_fact_code (fst x, pb_device (snd x), map_option vp_id (pb_virtual (snd x)))"
  by (cases x)
     (simp add: push_binding_def Let_def codec push_virtual_code keyed_fact_code_def fact_code_def)

lemma plan_bytes_code:
  "plan_canonical_bytes p =
     str_code (bdp_logical_hash p) @ kind_code (kind_facts (bdp_kind p)) @
     list_code PhysicalDeviceId_canonical_bytes (set_members (bdp_device_set p)) @
     snapshot_id_bytes (bdp_snapshot_id p) @
     u64_to_le_bytes (FixtureIdentityClass_tag (bdp_fixture p)) @
     u64_to_le_bytes (TransportClass_tag (bdp_transport p))"
proof (cases "bdp_kind p")
  case (ImplicitLocal d v)
  then show ?thesis
    by (simp add: plan_canonical_bytes_def Let_def codec push_virtual_code kind_code_def
        fact_code_def list_code_def fold_append_concat DeviceSet_len_def)
next
  case (Distributed b)
  have "fold push_binding b out = out @ concat (map keyed_fact_code (binding_facts b))" for out
    using fold_push_concat [OF push_binding_code]
    by (simp add: binding_facts_def comp_def case_prod_unfold)
  with Distributed show ?thesis
    by (simp add: plan_canonical_bytes_def Let_def codec kind_code_def list_code_def
        fold_append_concat DeviceSet_len_def binding_facts_def)
qed

definition plan_fits :: "BoundDistributedPlan \<Rightarrow> bool" where
  "plan_fits p \<longleftrightarrow>
     fits_usize (bdp_logical_hash p) \<and> kind_fits (kind_facts (bdp_kind p)) \<and>
     fits_usize (set_members (bdp_device_set p)) \<and>
     (\<forall>d\<in>set (set_members (bdp_device_set p)). device_fits d) \<and>
     length (snapshot_id_bytes (bdp_snapshot_id p)) = 32"

lemma plan_bytes_inject:
  assumes "plan_fits p" "plan_fits q"
  shows "plan_canonical_bytes p = plan_canonical_bytes q \<longleftrightarrow>
     bdp_logical_hash p = bdp_logical_hash q \<and> kind_facts (bdp_kind p) = kind_facts (bdp_kind q) \<and>
     bdp_device_set p = bdp_device_set q \<and> bdp_snapshot_id p = bdp_snapshot_id q \<and>
     bdp_fixture p = bdp_fixture q \<and> bdp_transport p = bdp_transport q"
proof -
  have len: "length (snapshot_id_bytes (bdp_snapshot_id p)) = length (snapshot_id_bytes (bdp_snapshot_id q))"
    using assms by (simp add: plan_fits_def)
  have ds: "bdp_device_set p = bdp_device_set q \<longleftrightarrow>
      set_members (bdp_device_set p) = set_members (bdp_device_set q)"
    by (metis DeviceSet.equality old.unit.exhaust)
  have sid: "bdp_snapshot_id p = bdp_snapshot_id q \<longleftrightarrow>
      snapshot_id_bytes (bdp_snapshot_id p) = snapshot_id_bytes (bdp_snapshot_id q)"
    by (metis DeviceDiscoverySnapshotId.expand)
  show ?thesis
    using assms len unfolding plan_fits_def plan_bytes_code ds sid
    by (simp add: str_prefix.peel_iff kind_prefix.peel_iff device_list_code.peel_iff
        append_eq_append_conv u64_code.peel_iff u64_code.inj device_list_code.inj)
qed

end
