(* ===== verification/Mirror.thy ===== *)
theory Mirror
  imports Bound_Plan
begin

text \<open>
  \<open>crates/host-coordinator/src/execution_transaction/mirror.rs\<close>: the operations of the accepted
  plan (launch, host-staged transfer, broadcast, barrier), the references and events that name
  them, the writes each operation stages, and their canonical bytes. The derived orders of the
  references key the ordered collections of the transaction. The canonical bytes determine the
  operation; the derived output reference does not: the two components of a broadcast's
  reference are joined by \<open>:\<close> without escaping.
\<close>

section \<open>References\<close>

datatype LaunchRef = LaunchRef (launch_str: string)

instantiation LaunchRef :: linorder
begin

definition less_eq_LaunchRef :: "LaunchRef \<Rightarrow> LaunchRef \<Rightarrow> bool" where
  "a \<le> b \<longleftrightarrow> launch_str a \<le> launch_str b"

definition less_LaunchRef :: "LaunchRef \<Rightarrow> LaunchRef \<Rightarrow> bool" where
  "a < b \<longleftrightarrow> launch_str a < launch_str b"

instance
  by standard
     (auto simp: less_eq_LaunchRef_def less_LaunchRef_def intro: LaunchRef.expand)

end

datatype TransferRef = TransferRef (transfer_str: string)

instantiation TransferRef :: linorder
begin

definition less_eq_TransferRef :: "TransferRef \<Rightarrow> TransferRef \<Rightarrow> bool" where
  "a \<le> b \<longleftrightarrow> transfer_str a \<le> transfer_str b"

definition less_TransferRef :: "TransferRef \<Rightarrow> TransferRef \<Rightarrow> bool" where
  "a < b \<longleftrightarrow> transfer_str a < transfer_str b"

instance
  by standard
     (auto simp: less_eq_TransferRef_def less_TransferRef_def intro: TransferRef.expand)

end

datatype CollectiveRef = CollectiveRef (collective_str: string)

instantiation CollectiveRef :: linorder
begin

definition less_eq_CollectiveRef :: "CollectiveRef \<Rightarrow> CollectiveRef \<Rightarrow> bool" where
  "a \<le> b \<longleftrightarrow> collective_str a \<le> collective_str b"

definition less_CollectiveRef :: "CollectiveRef \<Rightarrow> CollectiveRef \<Rightarrow> bool" where
  "a < b \<longleftrightarrow> collective_str a < collective_str b"

instance
  by standard
     (auto simp: less_eq_CollectiveRef_def less_CollectiveRef_def intro: CollectiveRef.expand)

end

datatype BarrierRef = BarrierRef (barrier_str: string)

instantiation BarrierRef :: linorder
begin

definition less_eq_BarrierRef :: "BarrierRef \<Rightarrow> BarrierRef \<Rightarrow> bool" where
  "a \<le> b \<longleftrightarrow> barrier_str a \<le> barrier_str b"

definition less_BarrierRef :: "BarrierRef \<Rightarrow> BarrierRef \<Rightarrow> bool" where
  "a < b \<longleftrightarrow> barrier_str a < barrier_str b"

instance
  by standard
     (auto simp: less_eq_BarrierRef_def less_BarrierRef_def intro: BarrierRef.expand)

end

datatype OutputRef = OutputRef (output_str: string)

instantiation OutputRef :: linorder
begin

definition less_eq_OutputRef :: "OutputRef \<Rightarrow> OutputRef \<Rightarrow> bool" where
  "a \<le> b \<longleftrightarrow> output_str a \<le> output_str b"

definition less_OutputRef :: "OutputRef \<Rightarrow> OutputRef \<Rightarrow> bool" where
  "a < b \<longleftrightarrow> output_str a < output_str b"

instance
  by standard
     (auto simp: less_eq_OutputRef_def less_OutputRef_def intro: OutputRef.expand)

end

text \<open>The derived order of an enum compares the variant first, then the fields in order.\<close>

datatype OperationRef =
    OpLaunch LaunchRef
  | OpTransfer TransferRef
  | OpCollective CollectiveRef
  | OpBarrier BarrierRef

fun operation_ref_key :: "OperationRef \<Rightarrow> nat \<times> string" where
  "operation_ref_key (OpLaunch r) = (0, launch_str r)"
| "operation_ref_key (OpTransfer r) = (1, transfer_str r)"
| "operation_ref_key (OpCollective r) = (2, collective_str r)"
| "operation_ref_key (OpBarrier r) = (3, barrier_str r)"

lemma operation_ref_key_inject: "operation_ref_key a = operation_ref_key b \<longleftrightarrow> a = b"
  by (cases a; cases b)
     (auto intro: LaunchRef.expand TransferRef.expand CollectiveRef.expand BarrierRef.expand)

instantiation OperationRef :: linorder
begin

definition less_eq_OperationRef :: "OperationRef \<Rightarrow> OperationRef \<Rightarrow> bool" where
  "a \<le> b \<longleftrightarrow> operation_ref_key a \<le> operation_ref_key b"

definition less_OperationRef :: "OperationRef \<Rightarrow> OperationRef \<Rightarrow> bool" where
  "a < b \<longleftrightarrow> operation_ref_key a < operation_ref_key b"

instance
  by standard
     (auto simp: less_eq_OperationRef_def less_OperationRef_def operation_ref_key_inject dest: antisym)

end

datatype BoundaryRef = BoundaryBarrier BarrierRef | BoundaryLaunch LaunchRef

fun boundary_ref_key :: "BoundaryRef \<Rightarrow> nat \<times> string" where
  "boundary_ref_key (BoundaryBarrier r) = (0, barrier_str r)"
| "boundary_ref_key (BoundaryLaunch r) = (1, launch_str r)"

lemma boundary_ref_key_inject: "boundary_ref_key a = boundary_ref_key b \<longleftrightarrow> a = b"
  by (cases a; cases b) (auto intro: LaunchRef.expand BarrierRef.expand)

instantiation BoundaryRef :: linorder
begin

definition less_eq_BoundaryRef :: "BoundaryRef \<Rightarrow> BoundaryRef \<Rightarrow> bool" where
  "a \<le> b \<longleftrightarrow> boundary_ref_key a \<le> boundary_ref_key b"

definition less_BoundaryRef :: "BoundaryRef \<Rightarrow> BoundaryRef \<Rightarrow> bool" where
  "a < b \<longleftrightarrow> boundary_ref_key a < boundary_ref_key b"

instance
  by standard
     (auto simp: less_eq_BoundaryRef_def less_BoundaryRef_def boundary_ref_key_inject dest: antisym)

end

datatype OperationEvent =
    LaunchCompleted LogicalPartitionId LaunchRef
  | TransferCompleted LogicalPartitionId TransferRef
  | BroadcastCompleted LogicalPartitionId CollectiveRef
  | BarrierCompleted LogicalPartitionId BarrierRef

fun event_key :: "OperationEvent \<Rightarrow> nat \<times> string \<times> string" where
  "event_key (LaunchCompleted p r) = (0, lp_str p, launch_str r)"
| "event_key (TransferCompleted p r) = (1, lp_str p, transfer_str r)"
| "event_key (BroadcastCompleted p r) = (2, lp_str p, collective_str r)"
| "event_key (BarrierCompleted p r) = (3, lp_str p, barrier_str r)"

lemma event_key_inject: "event_key a = event_key b \<longleftrightarrow> a = b"
  by (cases a; cases b)
     (auto intro: LaunchRef.expand TransferRef.expand CollectiveRef.expand BarrierRef.expand
       LogicalPartitionId.expand)

instantiation OperationEvent :: linorder
begin

definition less_eq_OperationEvent :: "OperationEvent \<Rightarrow> OperationEvent \<Rightarrow> bool" where
  "a \<le> b \<longleftrightarrow> event_key a \<le> event_key b"

definition less_OperationEvent :: "OperationEvent \<Rightarrow> OperationEvent \<Rightarrow> bool" where
  "a < b \<longleftrightarrow> event_key a < event_key b"

instance
  by standard
     (auto simp: less_eq_OperationEvent_def less_OperationEvent_def event_key_inject dest: antisym)

end

section \<open>Transfer vocabulary\<close>

datatype TransferDirectionMirror = H2D | D2H | BIDI

fun TransferDirectionMirror_tag :: "TransferDirectionMirror \<Rightarrow> u64" where
  "TransferDirectionMirror_tag H2D = 0"
| "TransferDirectionMirror_tag D2H = 1"
| "TransferDirectionMirror_tag BIDI = 2"

fun TransferDirectionMirror_spelling :: "TransferDirectionMirror \<Rightarrow> string" where
  "TransferDirectionMirror_spelling H2D = ''h2d''"
| "TransferDirectionMirror_spelling D2H = ''d2h''"
| "TransferDirectionMirror_spelling BIDI = ''bidi''"

datatype MirroredDtype = F32 | F64 | F16 | BF16 | I8 | I32

fun MirroredDtype_tag :: "MirroredDtype \<Rightarrow> u64" where
  "MirroredDtype_tag F32 = 0"
| "MirroredDtype_tag F64 = 1"
| "MirroredDtype_tag F16 = 2"
| "MirroredDtype_tag BF16 = 3"
| "MirroredDtype_tag I8 = 4"
| "MirroredDtype_tag I32 = 5"

fun MirroredDtype_spelling :: "MirroredDtype \<Rightarrow> string" where
  "MirroredDtype_spelling F32 = ''f32''"
| "MirroredDtype_spelling F64 = ''f64''"
| "MirroredDtype_spelling F16 = ''f16''"
| "MirroredDtype_spelling BF16 = ''bf16''"
| "MirroredDtype_spelling I8 = ''i8''"
| "MirroredDtype_spelling I32 = ''i32''"

datatype MirroredStorageLayout = Dense | BlockPacked

fun MirroredStorageLayout_tag :: "MirroredStorageLayout \<Rightarrow> u64" where
  "MirroredStorageLayout_tag Dense = 0"
| "MirroredStorageLayout_tag BlockPacked = 1"

fun MirroredStorageLayout_spelling :: "MirroredStorageLayout \<Rightarrow> string" where
  "MirroredStorageLayout_spelling Dense = ''dense''"
| "MirroredStorageLayout_spelling BlockPacked = ''block-packed''"

datatype TransportPathMirror = HostStagedPath

fun TransportPathMirror_tag :: "TransportPathMirror \<Rightarrow> u64" where
  "TransportPathMirror_tag HostStagedPath = 0"

fun TransportPathMirror_spelling :: "TransportPathMirror \<Rightarrow> string" where
  "TransportPathMirror_spelling HostStagedPath = ''host-staged''"

record TransactionCommitBoundary =
  cb_barriers :: "BarrierRef bset"
  cb_launches :: "LaunchRef bset"

definition TransactionCommitBoundary_new ::
    "BarrierRef list \<Rightarrow> LaunchRef list \<Rightarrow> TransactionCommitBoundary" where
  "TransactionCommitBoundary_new barriers launches =
     \<lparr>cb_barriers = bset_of_list barriers, cb_launches = bset_of_list launches\<rparr>"

definition boundary_is_empty :: "TransactionCommitBoundary \<Rightarrow> bool" where
  "boundary_is_empty b \<longleftrightarrow> cb_barriers b = [] \<and> cb_launches b = []"

definition boundary_canonical_bytes :: "TransactionCommitBoundary \<Rightarrow> u8 list" where
  "boundary_canonical_bytes b =
     (let out = [];
          out = push_u64 out (of_nat (length (cb_barriers b)));
          out = fold (\<lambda>r out. push_str out (barrier_str r)) (cb_barriers b) out;
          out = push_u64 out (of_nat (length (cb_launches b)))
      in fold (\<lambda>r out. push_str out (launch_str r)) (cb_launches b) out)"

record TransferOperationMirror =
  tm_id :: TransferRef
  tm_source :: LogicalPartitionId
  tm_destination :: LogicalPartitionId
  tm_byte_count :: u64
  tm_direction :: TransferDirectionMirror
  tm_element_dtype :: MirroredDtype
  tm_layout :: MirroredStorageLayout
  tm_path_label :: TransportPathMirror
  tm_producer_generation :: u64
  tm_consumer_generation :: u64
  tm_completion_boundary :: TransactionCommitBoundary

definition transfer_mirror_canonical_bytes :: "TransferOperationMirror \<Rightarrow> u8 list" where
  "transfer_mirror_canonical_bytes t =
     (let out = [];
          out = push_str out (transfer_str (tm_id t));
          out = push_str out (lp_str (tm_source t));
          out = push_str out (lp_str (tm_destination t));
          out = push_u64 out (tm_byte_count t);
          out = push_u64 out (TransferDirectionMirror_tag (tm_direction t));
          out = push_u64 out (MirroredDtype_tag (tm_element_dtype t));
          out = push_u64 out (MirroredStorageLayout_tag (tm_layout t));
          out = push_u64 out (TransportPathMirror_tag (tm_path_label t));
          out = push_u64 out (tm_producer_generation t);
          out = push_u64 out (tm_consumer_generation t)
      in out @ boundary_canonical_bytes (tm_completion_boundary t))"

text \<open>
  \<open>broadcast\<close> checks that the source is a participant with \<open>debug_assert!\<close> only: a release build
  constructs the mirror whatever the participant set is.
\<close>

record CollectiveBroadcastMirror =
  cm_id :: CollectiveRef
  cm_source :: LogicalPartitionId
  cm_participants :: "LogicalPartitionId bset"
  cm_byte_count :: u64

definition broadcast_mirror_canonical_bytes :: "CollectiveBroadcastMirror \<Rightarrow> u8 list" where
  "broadcast_mirror_canonical_bytes c =
     (let out = [];
          out = push_str out (collective_str (cm_id c));
          out = push_str out (lp_str (cm_source c));
          out = push_u64 out (of_nat (length (cm_participants c)));
          out = fold (\<lambda>p out. push_str out (lp_str p)) (cm_participants c) out
      in push_u64 out (cm_byte_count c))"

record StagedWrite =
  sw_partition :: LogicalPartitionId
  sw_output_ref :: OutputRef
  sw_byte_count :: u64

section \<open>Operations\<close>

datatype TransactionOperation =
    Launch LogicalPartitionId LaunchRef u64
  | Transfer TransferOperationMirror
  | CollectiveBroadcast CollectiveBroadcastMirror
  | Barrier BarrierRef "LogicalPartitionId bset"

fun operation_ref :: "TransactionOperation \<Rightarrow> OperationRef" where
  "operation_ref (Launch p r output_bytes) = OpLaunch r"
| "operation_ref (Transfer t) = OpTransfer (tm_id t)"
| "operation_ref (CollectiveBroadcast c) = OpCollective (cm_id c)"
| "operation_ref (Barrier r partitions) = OpBarrier r"

fun op_partitions :: "TransactionOperation \<Rightarrow> LogicalPartitionId bset" where
  "op_partitions (Launch p r output_bytes) = bset_of_list [p]"
| "op_partitions (Transfer t) = bset_of_list [tm_source t, tm_destination t]"
| "op_partitions (CollectiveBroadcast c) = cm_participants c"
| "op_partitions (Barrier r partitions) = partitions"

fun op_byte_count :: "TransactionOperation \<Rightarrow> u64" where
  "op_byte_count (Launch p r output_bytes) = 0"
| "op_byte_count (Barrier r partitions) = 0"
| "op_byte_count (Transfer t) = tm_byte_count t"
| "op_byte_count (CollectiveBroadcast c) =
     cm_byte_count c * of_nat (length (cm_participants c) - 1)"

fun op_completed_events :: "TransactionOperation \<Rightarrow> OperationEvent bset" where
  "op_completed_events (Launch p r output_bytes) =
     bset_of_list [LaunchCompleted p r]"
| "op_completed_events (Transfer t) =
     bset_of_list [TransferCompleted (tm_source t) (tm_id t),
                   TransferCompleted (tm_destination t) (tm_id t)]"
| "op_completed_events (CollectiveBroadcast c) =
     bset_of_list (map (\<lambda>p. BroadcastCompleted p (cm_id c)) (cm_participants c))"
| "op_completed_events (Barrier r partitions) =
     bset_of_list (map (\<lambda>p. BarrierCompleted p r) partitions)"

definition broadcast_output_ref :: "CollectiveRef \<Rightarrow> LogicalPartitionId \<Rightarrow> OutputRef" where
  "broadcast_output_ref i participant =
     OutputRef (''broadcast:'' @ collective_str i @ '':'' @ lp_str participant)"

fun op_staged_writes :: "TransactionOperation \<Rightarrow> StagedWrite list" where
  "op_staged_writes (Launch p r output_bytes) =
     [\<lparr>sw_partition = p,
       sw_output_ref = OutputRef (''launch:'' @ launch_str r @ '':output''),
       sw_byte_count = output_bytes\<rparr>]"
| "op_staged_writes (Transfer t) =
     [\<lparr>sw_partition = tm_destination t,
       sw_output_ref = OutputRef (''transfer:'' @ transfer_str (tm_id t) @ '':destination''),
       sw_byte_count = tm_byte_count t\<rparr>]"
| "op_staged_writes (CollectiveBroadcast c) =
     map (\<lambda>participant.
            \<lparr>sw_partition = participant,
             sw_output_ref = broadcast_output_ref (cm_id c) participant,
             sw_byte_count = cm_byte_count c\<rparr>)
       (filter (\<lambda>participant. participant \<noteq> cm_source c) (cm_participants c))"
| "op_staged_writes (Barrier r partitions) = []"

fun op_canonical_bytes :: "TransactionOperation \<Rightarrow> u8 list" where
  "op_canonical_bytes (Launch p r output_bytes) =
     (let out = [] @ [0];
          out = push_str out (lp_str p);
          out = push_str out (launch_str r)
      in push_u64 out output_bytes)"
| "op_canonical_bytes (Transfer t) = [] @ [1] @ transfer_mirror_canonical_bytes t"
| "op_canonical_bytes (CollectiveBroadcast c) = [] @ [2] @ broadcast_mirror_canonical_bytes c"
| "op_canonical_bytes (Barrier r partitions) =
     (let out = [] @ [3];
          out = push_str out (barrier_str r);
          out = push_u64 out (of_nat (length partitions))
      in fold (\<lambda>p out. push_str out (lp_str p)) partitions out)"

section \<open>Events and writes of an operation\<close>

lemma op_events_partition:
  "op_completed_events op \<noteq> [] \<longleftrightarrow> op_partitions op \<noteq> []"
  by (cases op) simp_all

lemma op_completed_events_ok [simp]: "bset_ok (op_completed_events op)"
  by (cases op) simp_all

fun op_fits :: "TransactionOperation \<Rightarrow> bool" where
  "op_fits (Launch p r output_bytes) \<longleftrightarrow> True"
| "op_fits (Transfer t) \<longleftrightarrow> True"
| "op_fits (CollectiveBroadcast c) \<longleftrightarrow> bset_ok (cm_participants c)"
| "op_fits (Barrier r partitions) \<longleftrightarrow> bset_ok partitions"

lemma op_partitions_ok: "op_fits op \<Longrightarrow> bset_ok (op_partitions op)"
  by (cases op) simp_all

lemma op_writes_partition: "w \<in> set (op_staged_writes op) \<Longrightarrow> sw_partition w \<in> set (op_partitions op)"
  by (cases op) auto

lemma broadcast_ref_inject_partition:
  "broadcast_output_ref i p = broadcast_output_ref i q \<longleftrightarrow> p = q"
  by (simp add: broadcast_output_ref_def) (metis LogicalPartitionId.expand)

lemma op_writes_distinct:
  assumes "op_fits op"
  shows "distinct (map sw_output_ref (op_staged_writes op))"
  using assms
  by (cases op) (auto simp: distinct_map comp_def inj_on_def broadcast_ref_inject_partition
      bset_ok_distinct)

section \<open>The bytes determine the operation\<close>

interpretation lp_code: prefix_code "\<lambda>x. str_code (lp_str x)" "\<lambda>x. fits_usize (lp_str x)"
  by (rule prefix_code_field [OF str_prefix.prefix_code_axioms LogicalPartitionId.expand])

interpretation launch_code: prefix_code "\<lambda>x. str_code (launch_str x)" "\<lambda>x. fits_usize (launch_str x)"
  by (rule prefix_code_field [OF str_prefix.prefix_code_axioms LaunchRef.expand])

interpretation transfer_code: prefix_code "\<lambda>x. str_code (transfer_str x)" "\<lambda>x. fits_usize (transfer_str x)"
  by (rule prefix_code_field [OF str_prefix.prefix_code_axioms TransferRef.expand])

interpretation collective_code: prefix_code "\<lambda>x. str_code (collective_str x)" "\<lambda>x. fits_usize (collective_str x)"
  by (rule prefix_code_field [OF str_prefix.prefix_code_axioms CollectiveRef.expand])

interpretation barrier_code: prefix_code "\<lambda>x. str_code (barrier_str x)" "\<lambda>x. fits_usize (barrier_str x)"
  by (rule prefix_code_field [OF str_prefix.prefix_code_axioms BarrierRef.expand])

interpretation lp_list: prefix_code "list_code (\<lambda>x. str_code (lp_str x))"
    "\<lambda>xs. fits_usize xs \<and> (\<forall>x\<in>set xs. fits_usize (lp_str x))"
  by (rule list_code_prefix) unfold_locales

interpretation barrier_list: prefix_code "list_code (\<lambda>x. str_code (barrier_str x))"
    "\<lambda>xs. fits_usize xs \<and> (\<forall>x\<in>set xs. fits_usize (barrier_str x))"
  by (rule list_code_prefix) unfold_locales

interpretation launch_list: prefix_code "list_code (\<lambda>x. str_code (launch_str x))"
    "\<lambda>xs. fits_usize xs \<and> (\<forall>x\<in>set xs. fits_usize (launch_str x))"
  by (rule list_code_prefix) unfold_locales

definition boundary_fits :: "TransactionCommitBoundary \<Rightarrow> bool" where
  "boundary_fits b \<longleftrightarrow>
     fits_usize (cb_barriers b) \<and> (\<forall>r\<in>set (cb_barriers b). fits_usize (barrier_str r)) \<and>
     fits_usize (cb_launches b) \<and> (\<forall>r\<in>set (cb_launches b). fits_usize (launch_str r))"

lemma boundary_bytes_code:
  "boundary_canonical_bytes b =
     list_code (\<lambda>x. str_code (barrier_str x)) (cb_barriers b) @
     list_code (\<lambda>x. str_code (launch_str x)) (cb_launches b)"
  by (simp add: boundary_canonical_bytes_def Let_def codec list_code_def fold_append_concat)

interpretation boundary_prefix: prefix_code boundary_canonical_bytes boundary_fits
  by unfold_locales
     (auto simp: boundary_bytes_code boundary_fits_def barrier_list.peel_iff launch_list.peel_iff
       intro!: TransactionCommitBoundary.equality)

lemma direction_tag_inject [simp]:
  "TransferDirectionMirror_tag d = TransferDirectionMirror_tag d' \<longleftrightarrow> d = d'"
  by (cases d; cases d') simp_all

lemma dtype_tag_inject [simp]: "MirroredDtype_tag e = MirroredDtype_tag e' \<longleftrightarrow> e = e'"
  by (cases e; cases e') simp_all

lemma layout_tag_inject [simp]:
  "MirroredStorageLayout_tag l = MirroredStorageLayout_tag l' \<longleftrightarrow> l = l'"
  by (cases l; cases l') simp_all

lemma path_label_unique: "(l :: TransportPathMirror) = l'"
  by (cases l; cases l') simp

definition transfer_mirror_fits :: "TransferOperationMirror \<Rightarrow> bool" where
  "transfer_mirror_fits t \<longleftrightarrow>
     fits_usize (transfer_str (tm_id t)) \<and> fits_usize (lp_str (tm_source t)) \<and>
     fits_usize (lp_str (tm_destination t)) \<and> boundary_fits (tm_completion_boundary t)"

interpretation transfer_mirror_prefix: prefix_code transfer_mirror_canonical_bytes transfer_mirror_fits
proof
  fix x y :: TransferOperationMirror and r s
  assume "transfer_mirror_fits x" "transfer_mirror_fits y"
    and "transfer_mirror_canonical_bytes x @ r = transfer_mirror_canonical_bytes y @ s"
  then show "x = y \<and> r = s"
    using path_label_unique [of "tm_path_label x" "tm_path_label y"]
    unfolding transfer_mirror_canonical_bytes_def Let_def push_code append_Nil append_assoc
      transfer_mirror_fits_def
    by (simp add: transfer_code.peel_iff lp_code.peel_iff u64_code.peel_iff u64_to_le_bytes_eq_iff
        boundary_prefix.peel_iff)
qed

definition broadcast_mirror_fits :: "CollectiveBroadcastMirror \<Rightarrow> bool" where
  "broadcast_mirror_fits c \<longleftrightarrow>
     fits_usize (collective_str (cm_id c)) \<and> fits_usize (lp_str (cm_source c)) \<and>
     fits_usize (cm_participants c) \<and> (\<forall>p\<in>set (cm_participants c). fits_usize (lp_str p))"

lemma broadcast_bytes_code:
  "broadcast_mirror_canonical_bytes c =
     str_code (collective_str (cm_id c)) @ str_code (lp_str (cm_source c)) @
     list_code (\<lambda>x. str_code (lp_str x)) (cm_participants c) @ u64_to_le_bytes (cm_byte_count c)"
  by (simp add: broadcast_mirror_canonical_bytes_def Let_def codec list_code_def fold_append_concat)

interpretation broadcast_mirror_prefix: prefix_code broadcast_mirror_canonical_bytes broadcast_mirror_fits
  by unfold_locales
     (auto simp: broadcast_bytes_code broadcast_mirror_fits_def collective_code.peel_iff
       lp_code.peel_iff lp_list.peel_iff u64_code.peel_iff u64_to_le_bytes_eq_iff
       intro!: CollectiveBroadcastMirror.equality)

fun op_strings_fit :: "TransactionOperation \<Rightarrow> bool" where
  "op_strings_fit (Launch p r output_bytes) \<longleftrightarrow> fits_usize (lp_str p) \<and> fits_usize (launch_str r)"
| "op_strings_fit (Transfer t) \<longleftrightarrow> transfer_mirror_fits t"
| "op_strings_fit (CollectiveBroadcast c) \<longleftrightarrow> broadcast_mirror_fits c"
| "op_strings_fit (Barrier r ps) \<longleftrightarrow>
     fits_usize (barrier_str r) \<and> fits_usize ps \<and> (\<forall>p\<in>set ps. fits_usize (lp_str p))"

lemma barrier_bytes_code:
  "op_canonical_bytes (Barrier r ps) =
     3 # str_code (barrier_str r) @ list_code (\<lambda>x. str_code (lp_str x)) ps"
  by (simp add: Let_def codec list_code_def fold_append_concat)

lemma launch_bytes_code:
  "op_canonical_bytes (Launch p r n) =
     0 # str_code (lp_str p) @ str_code (launch_str r) @ u64_to_le_bytes n"
  by (simp add: Let_def codec)

interpretation op_prefix: prefix_code op_canonical_bytes op_strings_fit
proof
  fix x y :: TransactionOperation and r s
  assume "op_strings_fit x" "op_strings_fit y"
    and "op_canonical_bytes x @ r = op_canonical_bytes y @ s"
  then show "x = y \<and> r = s"
    by (cases x; cases y)
       (auto simp: barrier_bytes_code launch_bytes_code lp_code.peel_iff launch_code.peel_iff
         barrier_code.peel_iff lp_list.peel_iff u64_code.peel_iff u64_to_le_bytes_eq_iff
         transfer_mirror_prefix.peel_iff broadcast_mirror_prefix.peel_iff
         simp del: op_canonical_bytes.simps(1,4))
qed

end
