(* ===== verification/Reservation.thy ===== *)
theory Reservation
  imports Mirror
begin

text \<open>
  \<open>crates/host-coordinator/src/execution_transaction/reservation.rs\<close>: the per-partition byte
  reservation \<open>prepare\<close> derives from the accepted plan, and the declared write-set. The sums are
  accumulated with a plain \<open>+=\<close> on \<open>u64\<close>, so each field is the demand modulo \<open>2 ^ 64\<close>; the lemmas
  state it so, and the bounds that make it exact.
\<close>

section \<open>Records and derivation\<close>

definition EVENT_OBJECT_BYTES :: u64 where
  "EVENT_OBJECT_BYTES = 64"

definition TRANSACTION_SCRATCH_BYTES_PER_PARTITION :: u64 where
  "TRANSACTION_SCRATCH_BYTES_PER_PARTITION = 4096"

datatype BudgetClass = TransferStaging | ActivationScratch

fun ledger_class :: "BudgetClass \<Rightarrow> u64" where
  "ledger_class TransferStaging = 6"
| "ledger_class ActivationScratch = 3"

record ReservationRecord =
  res_transfer_staging_bytes :: u64
  res_output_buffer_bytes :: u64
  res_event_bytes :: u64
  res_transaction_scratch_bytes :: u64

definition class_six_bytes :: "ReservationRecord \<Rightarrow> u64" where
  "class_six_bytes r = res_transfer_staging_bytes r"

definition class_three_bytes :: "ReservationRecord \<Rightarrow> u64" where
  "class_three_bytes r =
     res_output_buffer_bytes r + res_event_bytes r + res_transaction_scratch_bytes r"

text \<open>\<open>*m.entry(k).or_insert(0) += v\<close>\<close>

definition entry_add :: "'k::linorder \<Rightarrow> u64 \<Rightarrow> ('k, u64) bmap \<Rightarrow> ('k, u64) bmap" where
  "entry_add k v m = bmap_insert k ((case bmap_get m k of Some x \<Rightarrow> x | None \<Rightarrow> 0) + v) m"

record Charges =
  ch_staging :: "(LogicalPartitionId, u64) bmap"
  ch_outputs :: "(LogicalPartitionId, u64) bmap"
  ch_events :: "(LogicalPartitionId, u64) bmap"

definition charge_events :: "TransactionOperation \<Rightarrow> Charges \<Rightarrow> Charges" where
  "charge_events op ch =
     ch\<lparr>ch_events := fold (\<lambda>p m. entry_add p EVENT_OBJECT_BYTES m) (op_partitions op) (ch_events ch)\<rparr>"

definition charge_participant ::
    "CollectiveBroadcastMirror \<Rightarrow> LogicalPartitionId \<Rightarrow> Charges \<Rightarrow> Charges" where
  "charge_participant c p ch =
     (let ch = ch\<lparr>ch_staging := entry_add p (cm_byte_count c) (ch_staging ch)\<rparr>
      in if p \<noteq> cm_source c
         then ch\<lparr>ch_outputs := entry_add p (cm_byte_count c) (ch_outputs ch)\<rparr>
         else ch)"

fun charge_bytes :: "TransactionOperation \<Rightarrow> Charges \<Rightarrow> Charges" where
  "charge_bytes (Launch p r output_bytes) ch =
     ch\<lparr>ch_outputs := entry_add p output_bytes (ch_outputs ch)\<rparr>"
| "charge_bytes (Transfer t) ch =
     (let count = tm_byte_count t;
          ch = ch\<lparr>ch_staging := entry_add (tm_source t) count (ch_staging ch)\<rparr>;
          ch = ch\<lparr>ch_staging := entry_add (tm_destination t) count (ch_staging ch)\<rparr>
      in ch\<lparr>ch_outputs := entry_add (tm_destination t) count (ch_outputs ch)\<rparr>)"
| "charge_bytes (CollectiveBroadcast c) ch = fold (charge_participant c) (cm_participants c) ch"
| "charge_bytes (Barrier r ps) ch = ch"

definition charge_operation :: "TransactionOperation \<Rightarrow> Charges \<Rightarrow> Charges" where
  "charge_operation op ch = charge_bytes op (charge_events op ch)"

definition copied_or_zero :: "(LogicalPartitionId, u64) bmap \<Rightarrow> LogicalPartitionId \<Rightarrow> u64" where
  "copied_or_zero m p = (case bmap_get m p of Some x \<Rightarrow> x | None \<Rightarrow> 0)"

definition derive_reservation ::
    "TransactionOperation list \<Rightarrow> LogicalPartitionId bset \<Rightarrow>
       (LogicalPartitionId, ReservationRecord) bmap" where
  "derive_reservation operations referenced =
     (let ch = fold charge_operation operations \<lparr>ch_staging = [], ch_outputs = [], ch_events = []\<rparr>
      in map (\<lambda>p. (p,
           \<lparr>res_transfer_staging_bytes = copied_or_zero (ch_staging ch) p,
            res_output_buffer_bytes = copied_or_zero (ch_outputs ch) p,
            res_event_bytes = copied_or_zero (ch_events ch) p,
            res_transaction_scratch_bytes = TRANSACTION_SCRATCH_BYTES_PER_PARTITION\<rparr>)) referenced)"

definition derive_declared_write_set ::
    "TransactionOperation list \<Rightarrow> (OutputRef, StagedWrite) bmap" where
  "derive_declared_write_set operations =
     fold (\<lambda>op writes. fold (\<lambda>w m. bmap_insert (sw_output_ref w) w m) (op_staged_writes op) writes)
       operations []"

section \<open>The accounting rules, per operation and partition\<close>

fun staging_demand :: "LogicalPartitionId \<Rightarrow> TransactionOperation \<Rightarrow> nat" where
  "staging_demand p (Transfer t) =
     (if p = tm_source t then unat (tm_byte_count t) else 0) +
     (if p = tm_destination t then unat (tm_byte_count t) else 0)"
| "staging_demand p (CollectiveBroadcast c) =
     (if p \<in> set (cm_participants c) then unat (cm_byte_count c) else 0)"
| "staging_demand p _ = 0"

fun output_demand :: "LogicalPartitionId \<Rightarrow> TransactionOperation \<Rightarrow> nat" where
  "output_demand p (Launch q r n) = (if p = q then unat n else 0)"
| "output_demand p (Transfer t) = (if p = tm_destination t then unat (tm_byte_count t) else 0)"
| "output_demand p (CollectiveBroadcast c) =
     (if p \<in> set (cm_participants c) \<and> p \<noteq> cm_source c then unat (cm_byte_count c) else 0)"
| "output_demand p (Barrier r ps) = 0"

definition event_demand :: "LogicalPartitionId \<Rightarrow> TransactionOperation \<Rightarrow> nat" where
  "event_demand p op = (if p \<in> set (op_partitions op) then 64 else 0)"

definition charges_ok :: "Charges \<Rightarrow> bool" where
  "charges_ok ch \<longleftrightarrow> bmap_ok (ch_staging ch) \<and> bmap_ok (ch_outputs ch) \<and> bmap_ok (ch_events ch)"

lemma entry_add_ok [simp]: "bmap_ok m \<Longrightarrow> bmap_ok (entry_add k v m)"
  by (simp add: entry_add_def)

lemma copied_entry_add:
  "bmap_ok m \<Longrightarrow> copied_or_zero (entry_add k v m) p = copied_or_zero m p + (if p = k then v else 0)"
  by (simp add: copied_or_zero_def entry_add_def)

lemma fold_entry_add:
  assumes "bmap_ok m" "distinct ps"
  shows "bmap_ok (fold (\<lambda>p m. entry_add p v m) ps m)"
    and "copied_or_zero (fold (\<lambda>p m. entry_add p v m) ps m) q =
           copied_or_zero m q + (if q \<in> set ps then v else 0)"
  using assms
  by (induction ps arbitrary: m) (auto simp: copied_entry_add)

lemma charge_participant_fold:
  assumes "charges_ok ch" "distinct ps"
  shows "charges_ok (fold (charge_participant c) ps ch)"
    and "copied_or_zero (ch_staging (fold (charge_participant c) ps ch)) q =
           copied_or_zero (ch_staging ch) q + (if q \<in> set ps then cm_byte_count c else 0)"
    and "copied_or_zero (ch_outputs (fold (charge_participant c) ps ch)) q =
           copied_or_zero (ch_outputs ch) q +
           (if q \<in> set ps \<and> q \<noteq> cm_source c then cm_byte_count c else 0)"
    and "ch_events (fold (charge_participant c) ps ch) = ch_events ch"
proof -
  have step: "charges_ok (charge_participant c p ch)"
      "copied_or_zero (ch_staging (charge_participant c p ch)) q =
         copied_or_zero (ch_staging ch) q + (if q = p then cm_byte_count c else 0)"
      "copied_or_zero (ch_outputs (charge_participant c p ch)) q =
         copied_or_zero (ch_outputs ch) q + (if q = p \<and> q \<noteq> cm_source c then cm_byte_count c else 0)"
      "ch_events (charge_participant c p ch) = ch_events ch"
    if "charges_ok ch" for p ch
    using that by (auto simp: charge_participant_def Let_def charges_ok_def copied_entry_add)
  show "charges_ok (fold (charge_participant c) ps ch)"
    "copied_or_zero (ch_staging (fold (charge_participant c) ps ch)) q =
           copied_or_zero (ch_staging ch) q + (if q \<in> set ps then cm_byte_count c else 0)"
    "copied_or_zero (ch_outputs (fold (charge_participant c) ps ch)) q =
           copied_or_zero (ch_outputs ch) q +
           (if q \<in> set ps \<and> q \<noteq> cm_source c then cm_byte_count c else 0)"
    "ch_events (fold (charge_participant c) ps ch) = ch_events ch"
    using assms by (induction ps arbitrary: ch) (auto simp: step)
qed

lemma charge_operation_step:
  assumes "charges_ok ch" "op_fits op"
  shows "charges_ok (charge_operation op ch)"
    and "copied_or_zero (ch_staging (charge_operation op ch)) p =
           copied_or_zero (ch_staging ch) p + of_nat (staging_demand p op)"
    and "copied_or_zero (ch_outputs (charge_operation op ch)) p =
           copied_or_zero (ch_outputs ch) p + of_nat (output_demand p op)"
    and "copied_or_zero (ch_events (charge_operation op ch)) p =
           copied_or_zero (ch_events ch) p + of_nat (event_demand p op)"
proof -
  let ?ch = "charge_events op ch"
  have d: "distinct (op_partitions op)"
    using assms(2) by (simp add: bset_ok_distinct op_partitions_ok)
  have ev: "charges_ok ?ch" "ch_staging ?ch = ch_staging ch" "ch_outputs ?ch = ch_outputs ch"
      "copied_or_zero (ch_events ?ch) p = copied_or_zero (ch_events ch) p + of_nat (event_demand p op)"
    using assms(1) fold_entry_add [OF _ d]
    by (simp_all add: charge_events_def charges_ok_def event_demand_def EVENT_OBJECT_BYTES_def)
  have "charges_ok (charge_bytes op ?ch) \<and>
      copied_or_zero (ch_staging (charge_bytes op ?ch)) p =
           copied_or_zero (ch_staging ?ch) p + of_nat (staging_demand p op) \<and>
      copied_or_zero (ch_outputs (charge_bytes op ?ch)) p =
           copied_or_zero (ch_outputs ?ch) p + of_nat (output_demand p op) \<and>
      ch_events (charge_bytes op ?ch) = ch_events ?ch"
  proof (cases op)
    case (CollectiveBroadcast c)
    then have "distinct (cm_participants c)"
      using assms(2) by (simp add: bset_ok_distinct)
    with CollectiveBroadcast ev(1) show ?thesis
      by (auto simp: charge_participant_fold)
  qed (use ev(1) in \<open>auto simp: Let_def charges_ok_def copied_entry_add\<close>)
  with ev show "charges_ok (charge_operation op ch)"
    "copied_or_zero (ch_staging (charge_operation op ch)) p =
           copied_or_zero (ch_staging ch) p + of_nat (staging_demand p op)"
    "copied_or_zero (ch_outputs (charge_operation op ch)) p =
           copied_or_zero (ch_outputs ch) p + of_nat (output_demand p op)"
    "copied_or_zero (ch_events (charge_operation op ch)) p =
           copied_or_zero (ch_events ch) p + of_nat (event_demand p op)"
    by (simp_all add: charge_operation_def)
qed

lemma charge_operations:
  assumes "charges_ok ch" "\<forall>op\<in>set ops. op_fits op"
  shows "copied_or_zero (ch_staging (fold charge_operation ops ch)) p =
           copied_or_zero (ch_staging ch) p + of_nat (sum_list (map (staging_demand p) ops))"
    and "copied_or_zero (ch_outputs (fold charge_operation ops ch)) p =
           copied_or_zero (ch_outputs ch) p + of_nat (sum_list (map (output_demand p) ops))"
    and "copied_or_zero (ch_events (fold charge_operation ops ch)) p =
           copied_or_zero (ch_events ch) p + of_nat (sum_list (map (event_demand p) ops))"
  using assms
  by (induction ops arbitrary: ch) (simp_all add: charge_operation_step)

text \<open>The demand of a plan on one partition, as mathematical sums.\<close>

definition class_six_demand :: "TransactionOperation list \<Rightarrow> LogicalPartitionId \<Rightarrow> nat" where
  "class_six_demand ops p = sum_list (map (staging_demand p) ops)"

definition class_three_demand :: "TransactionOperation list \<Rightarrow> LogicalPartitionId \<Rightarrow> nat" where
  "class_three_demand ops p =
     sum_list (map (output_demand p) ops) + sum_list (map (event_demand p) ops) + 4096"

definition demand_record :: "TransactionOperation list \<Rightarrow> LogicalPartitionId \<Rightarrow> ReservationRecord" where
  "demand_record ops p =
     \<lparr>res_transfer_staging_bytes = of_nat (sum_list (map (staging_demand p) ops)),
      res_output_buffer_bytes = of_nat (sum_list (map (output_demand p) ops)),
      res_event_bytes = of_nat (sum_list (map (event_demand p) ops)),
      res_transaction_scratch_bytes = 4096\<rparr>"

lemma derive_reservation_demand:
  assumes "\<forall>op\<in>set ops. op_fits op"
  shows "derive_reservation ops referenced = map (\<lambda>p. (p, demand_record ops p)) referenced"
proof -
  have "charges_ok \<lparr>ch_staging = [], ch_outputs = [], ch_events = []\<rparr>"
    by (simp add: charges_ok_def)
  from charge_operations [OF this assms] show ?thesis
    by (simp add: derive_reservation_def Let_def demand_record_def copied_or_zero_def
        TRANSACTION_SCRATCH_BYTES_PER_PARTITION_def)
qed

lemma demand_record_classes:
  "class_six_bytes (demand_record ops p) = of_nat (class_six_demand ops p)"
  "class_three_bytes (demand_record ops p) = of_nat (class_three_demand ops p)"
  by (simp_all add: class_six_bytes_def class_three_bytes_def demand_record_def
      class_six_demand_def class_three_demand_def)

lemma unat_of_nat_mod: "unat (of_nat n :: u64) = n mod 2 ^ 64"
  by (simp add: unsigned_of_nat take_bit_eq_mod)

section \<open>The declared write-set\<close>

definition plan_writes :: "TransactionOperation list \<Rightarrow> StagedWrite list" where
  "plan_writes ops = concat (map op_staged_writes ops)"

definition keyed_writes :: "StagedWrite list \<Rightarrow> (OutputRef \<times> StagedWrite) list" where
  "keyed_writes ws = map (\<lambda>w. (sw_output_ref w, w)) ws"

lemma insert_writes_fold:
  "fold (\<lambda>w m. bmap_insert (sw_output_ref w) w m) ws m =
     fold (\<lambda>(k, v). bmap_insert k v) (keyed_writes ws) m"
  by (induction ws arbitrary: m) (simp_all add: keyed_writes_def)

lemma declared_write_set_of_list:
  "derive_declared_write_set ops = bmap_of_list (keyed_writes (plan_writes ops))"
proof -
  have "fold (\<lambda>op writes. fold (\<lambda>w m. bmap_insert (sw_output_ref w) w m) (op_staged_writes op) writes) ops m =
      fold (\<lambda>(k, v). bmap_insert k v) (keyed_writes (plan_writes ops)) m" for m
    by (induction ops arbitrary: m)
       (simp_all add: plan_writes_def insert_writes_fold keyed_writes_def)
  then show ?thesis
    by (simp add: derive_declared_write_set_def bmap_of_list_def)
qed

lemma declared_write_set_ok [simp]: "bmap_ok (derive_declared_write_set ops)"
  by (simp add: declared_write_set_of_list)

lemma keyed_writes_append [simp]: "keyed_writes (a @ b) = keyed_writes a @ keyed_writes b"
  by (simp add: keyed_writes_def)

lemma map_fst_keyed_writes [simp]: "map fst (keyed_writes ws) = map sw_output_ref ws"
  by (simp add: keyed_writes_def comp_def)

end
