(* ===== verification/Exec_Backend.thy ===== *)
theory Exec_Backend
  imports Reservation
begin

text \<open>
  \<open>crates/host-coordinator/src/execution_transaction/backend.rs\<close> and the failure vocabulary of
  \<open>state_machine.rs\<close>: the device-execution abstraction the transaction drives, as a record of the
  trait's methods over a backend state \<open>'b\<close> (a method that may fail returns the error, if any,
  and the new state), and the in-memory \<open>FakeExecutionBackend\<close>.

  The locale \<open>execution_backend\<close> states what the trait's documentation promises in terms of three
  views of a backend: the partitions holding a reservation, the staged writes and the published
  writes. The fake is proved to be one; the transaction's safety is proved from the locale alone.
\<close>

section \<open>Failures\<close>

datatype BackendError =
    Allocation LogicalPartitionId string
  | Operation LogicalPartitionId string
  | DeviceLoss LogicalPartitionId string
  | BackendCancelled LogicalPartitionId string
  | Timeout LogicalPartitionId string

fun BackendError_partition :: "BackendError \<Rightarrow> LogicalPartitionId" where
  "BackendError_partition (Allocation p d) = p"
| "BackendError_partition (Operation p d) = p"
| "BackendError_partition (DeviceLoss p d) = p"
| "BackendError_partition (BackendCancelled p d) = p"
| "BackendError_partition (Timeout p d) = p"

datatype TransactionFailure =
    BackendFailure BackendError
  | PublishFailed string
  | Cancelled string

section \<open>The trait\<close>

record 'b DeviceExecutionBackend =
  be_reserve :: "LogicalPartitionId \<Rightarrow> ReservationRecord \<Rightarrow> 'b \<Rightarrow> BackendError option \<times> 'b"
  be_run_operation :: "TransactionOperation \<Rightarrow> 'b \<Rightarrow> BackendError option \<times> 'b"
  be_event_completed :: "'b \<Rightarrow> OperationEvent \<Rightarrow> bool"
  be_stage_write :: "StagedWrite \<Rightarrow> 'b \<Rightarrow> BackendError option \<times> 'b"
  be_publish :: "'b \<Rightarrow> BackendError option \<times> 'b"
  be_staged_bytes :: "'b \<Rightarrow> u64"
  be_published_bytes :: "'b \<Rightarrow> u64"
  be_release :: "LogicalPartitionId \<Rightarrow> 'b \<Rightarrow> 'b"
  be_retire :: "LogicalPartitionId \<Rightarrow> TransactionFailure \<Rightarrow> 'b \<Rightarrow> 'b"

section \<open>The fake\<close>

record FakeExecutionBackend =
  fb_reservations :: "(LogicalPartitionId, ReservationRecord) bmap"
  fb_staged_writes :: "(OutputRef, StagedWrite) bmap"
  fb_published_writes :: "(OutputRef, StagedWrite) bmap"
  fb_staged_total_bytes :: u64
  fb_published_total_bytes :: u64
  fb_published_once :: bool
  fb_executed_operations :: "TransactionOperation list"
  fb_dispatched_events :: "OperationEvent bset"
  fb_completed_events :: "OperationEvent bset"
  fb_released_partitions :: "LogicalPartitionId bset"
  fb_retired_partitions :: "LogicalPartitionId bset"
  fb_auto_complete :: bool

definition FakeExecutionBackend_new :: FakeExecutionBackend where
  "FakeExecutionBackend_new =
     \<lparr>fb_reservations = [], fb_staged_writes = [], fb_published_writes = [],
      fb_staged_total_bytes = 0, fb_published_total_bytes = 0, fb_published_once = False,
      fb_executed_operations = [], fb_dispatched_events = [], fb_completed_events = [],
      fb_released_partitions = [], fb_retired_partitions = [], fb_auto_complete = True\<rparr>"

definition fake_set_auto_complete :: "bool \<Rightarrow> FakeExecutionBackend \<Rightarrow> FakeExecutionBackend" where
  "fake_set_auto_complete on b = b\<lparr>fb_auto_complete := on\<rparr>"

definition fake_complete_event :: "OperationEvent \<Rightarrow> FakeExecutionBackend \<Rightarrow> FakeExecutionBackend" where
  "fake_complete_event e b =
     b\<lparr>fb_dispatched_events := bset_insert e (fb_dispatched_events b),
       fb_completed_events := bset_insert e (fb_completed_events b)\<rparr>"

definition fake_pending_events :: "FakeExecutionBackend \<Rightarrow> OperationEvent bset" where
  "fake_pending_events b = bset_difference (fb_dispatched_events b) (fb_completed_events b)"

definition fake_reserve ::
    "LogicalPartitionId \<Rightarrow> ReservationRecord \<Rightarrow> FakeExecutionBackend \<Rightarrow>
       BackendError option \<times> FakeExecutionBackend" where
  "fake_reserve p r b =
     (if bmap_contains (fb_reservations b) p then
        (Some (Allocation p (''partition '' @ lp_str p @ '' already holds a reservation'')), b)
      else (None, b\<lparr>fb_reservations := bmap_insert p r (fb_reservations b)\<rparr>))"

definition fake_dispatch_event :: "OperationEvent \<Rightarrow> FakeExecutionBackend \<Rightarrow> FakeExecutionBackend" where
  "fake_dispatch_event e b =
     (let b = b\<lparr>fb_dispatched_events := bset_insert e (fb_dispatched_events b)\<rparr>
      in if fb_auto_complete b
         then b\<lparr>fb_completed_events := bset_insert e (fb_completed_events b)\<rparr> else b)"

definition fake_run_operation ::
    "TransactionOperation \<Rightarrow> FakeExecutionBackend \<Rightarrow> BackendError option \<times> FakeExecutionBackend" where
  "fake_run_operation op b =
     (let events = op_completed_events op;
          b = b\<lparr>fb_executed_operations := fb_executed_operations b @ [op]\<rparr>
      in (None, fold fake_dispatch_event events b))"

definition fake_event_completed :: "FakeExecutionBackend \<Rightarrow> OperationEvent \<Rightarrow> bool" where
  "fake_event_completed b e \<longleftrightarrow> List.member (fb_completed_events b) e"

definition fake_stage_write ::
    "StagedWrite \<Rightarrow> FakeExecutionBackend \<Rightarrow> BackendError option \<times> FakeExecutionBackend" where
  "fake_stage_write w b =
     (if bmap_contains (fb_staged_writes b) (sw_output_ref w) then
        (Some (Allocation (sw_partition w) (''output '' @ output_str (sw_output_ref w) @ '' staged twice'')), b)
      else (None,
        b\<lparr>fb_staged_total_bytes := saturating_add (fb_staged_total_bytes b) (sw_byte_count w),
          fb_staged_writes := bmap_insert (sw_output_ref w) w (fb_staged_writes b)\<rparr>))"

definition fake_publish :: "FakeExecutionBackend \<Rightarrow> BackendError option \<times> FakeExecutionBackend" where
  "fake_publish b =
     (if fb_published_once b then
        (Some (Operation (LogicalPartitionId ''unknown'')
           (''publish called twice '' @ [CHR 0xE2, CHR 0x80, CHR 0x94] @ '' publication is one-shot'')), b)
      else (None,
        b\<lparr>fb_published_writes := fb_staged_writes b,
          fb_published_total_bytes := fb_staged_total_bytes b,
          fb_published_once := True\<rparr>))"

definition fake_release :: "LogicalPartitionId \<Rightarrow> FakeExecutionBackend \<Rightarrow> FakeExecutionBackend" where
  "fake_release p b =
     b\<lparr>fb_reservations := bmap_remove p (fb_reservations b),
       fb_released_partitions := bset_insert p (fb_released_partitions b)\<rparr>"

definition fake_retire ::
    "LogicalPartitionId \<Rightarrow> TransactionFailure \<Rightarrow> FakeExecutionBackend \<Rightarrow> FakeExecutionBackend" where
  "fake_retire p failure b =
     (let retired = sum_list (map sw_byte_count
            (filter (\<lambda>w. sw_partition w = p) (bmap_values (fb_staged_writes b))))
      in b\<lparr>fb_staged_total_bytes := saturating_sub (fb_staged_total_bytes b) retired,
           fb_staged_writes := filter (\<lambda>(_, w). sw_partition w \<noteq> p) (fb_staged_writes b),
           fb_reservations := bmap_remove p (fb_reservations b),
           fb_retired_partitions := bset_insert p (fb_retired_partitions b)\<rparr>)"

definition fake_backend :: "FakeExecutionBackend DeviceExecutionBackend" where
  "fake_backend =
     \<lparr>be_reserve = fake_reserve, be_run_operation = fake_run_operation,
      be_event_completed = fake_event_completed, be_stage_write = fake_stage_write,
      be_publish = fake_publish, be_staged_bytes = fb_staged_total_bytes,
      be_published_bytes = fb_published_total_bytes, be_release = fake_release,
      be_retire = fake_retire\<rparr>"

section \<open>The contract of a backend\<close>

text \<open>The staged state that survives when a partition is retired.\<close>

definition retire_staged ::
    "LogicalPartitionId \<Rightarrow> (OutputRef \<Rightarrow> StagedWrite option) \<Rightarrow> OutputRef \<Rightarrow> StagedWrite option" where
  "retire_staged p m =
     (\<lambda>k. case m k of Some w \<Rightarrow> if sw_partition w = p then None else Some w | None \<Rightarrow> None)"

locale execution_backend =
  fixes be :: "'b DeviceExecutionBackend"
    and valid :: "'b \<Rightarrow> bool"
    and held :: "'b \<Rightarrow> LogicalPartitionId set"
    and staged :: "'b \<Rightarrow> OutputRef \<Rightarrow> StagedWrite option"
    and published :: "'b \<Rightarrow> OutputRef \<Rightarrow> StagedWrite option"
  assumes reserve_law: "valid b \<Longrightarrow> be_reserve be p r b = (res, b') \<Longrightarrow>
      valid b' \<and> staged b' = staged b \<and> published b' = published b \<and>
      held b' = (if res = None then insert p (held b) else held b)"
    and run_law: "valid b \<Longrightarrow> be_run_operation be op b = (res, b') \<Longrightarrow>
      valid b' \<and> held b' = held b \<and> staged b' = staged b \<and> published b' = published b"
    and stage_law: "valid b \<Longrightarrow> be_stage_write be w b = (res, b') \<Longrightarrow>
      valid b' \<and> held b' = held b \<and> published b' = published b \<and>
      (if res = None
       then staged b (sw_output_ref w) = None \<and> staged b' = (staged b)(sw_output_ref w \<mapsto> w)
       else staged b' = staged b)"
    and publish_law: "valid b \<Longrightarrow> be_publish be b = (res, b') \<Longrightarrow>
      valid b' \<and> held b' = held b \<and> staged b' = staged b \<and>
      published b' = (if res = None then staged b else published b)"
    and release_law: "valid b \<Longrightarrow>
      valid (be_release be p b) \<and> held (be_release be p b) = held b - {p} \<and>
      staged (be_release be p b) = staged b \<and> published (be_release be p b) = published b"
    and retire_law: "valid b \<Longrightarrow>
      valid (be_retire be p f b) \<and> held (be_retire be p f b) = held b - {p} \<and>
      staged (be_retire be p f b) = retire_staged p (staged b) \<and>
      published (be_retire be p f b) = published b"
begin

lemma release_all:
  assumes "valid b"
  shows "valid (fold (be_release be) ps b)" "held (fold (be_release be) ps b) = held b - set ps"
    "staged (fold (be_release be) ps b) = staged b"
    "published (fold (be_release be) ps b) = published b"
  using assms by (induction ps arbitrary: b) (auto simp: release_law)

lemma retire_all:
  assumes "valid b"
  shows "valid (fold (\<lambda>p. be_retire be p f) ps b)"
    "held (fold (\<lambda>p. be_retire be p f) ps b) = held b - set ps"
    "published (fold (\<lambda>p. be_retire be p f) ps b) = published b"
    "\<And>k w. staged (fold (\<lambda>p. be_retire be p f) ps b) k = Some w \<longleftrightarrow>
       staged b k = Some w \<and> sw_partition w \<notin> set ps"
  using assms
  by (induction ps arbitrary: b) (auto simp: retire_law retire_staged_def split: option.splits if_splits)

end

section \<open>The fake satisfies the contract\<close>

definition fake_ok :: "FakeExecutionBackend \<Rightarrow> bool" where
  "fake_ok b \<longleftrightarrow> bmap_ok (fb_reservations b) \<and> bmap_ok (fb_staged_writes b)"

definition fake_held :: "FakeExecutionBackend \<Rightarrow> LogicalPartitionId set" where
  "fake_held b = set (bmap_keys (fb_reservations b))"

definition fake_staged :: "FakeExecutionBackend \<Rightarrow> OutputRef \<Rightarrow> StagedWrite option" where
  "fake_staged b = bmap_get (fb_staged_writes b)"

definition fake_published :: "FakeExecutionBackend \<Rightarrow> OutputRef \<Rightarrow> StagedWrite option" where
  "fake_published b = bmap_get (fb_published_writes b)"

lemma fake_dispatch_views:
  "fb_reservations (fold fake_dispatch_event es b) = fb_reservations b"
  "fb_staged_writes (fold fake_dispatch_event es b) = fb_staged_writes b"
  "fb_published_writes (fold fake_dispatch_event es b) = fb_published_writes b"
  by (induction es arbitrary: b) (simp_all add: fake_dispatch_event_def Let_def)

lemma map_of_filter_value:
  "distinct (map fst m) \<Longrightarrow>
     map_of (filter (\<lambda>(_, w). P w) m) k =
       (case map_of m k of Some w \<Rightarrow> if P w then Some w else None | None \<Rightarrow> None)"
  by (induction m) (auto simp: map_of_eq_None_iff split: option.splits)

lemma keys_remove: "fst ` set (bmap_remove k m) = fst ` set m - {k}"
  by (auto simp: bmap_remove_def)

interpretation fake: execution_backend fake_backend fake_ok fake_held fake_staged fake_published
proof
  fix b :: FakeExecutionBackend and p f
  assume "fake_ok b"
  then show "fake_ok (be_retire fake_backend p f b) \<and>
      fake_held (be_retire fake_backend p f b) = fake_held b - {p} \<and>
      fake_staged (be_retire fake_backend p f b) = retire_staged p (fake_staged b) \<and>
      fake_published (be_retire fake_backend p f b) = fake_published b"
    by (auto simp: fake_backend_def fake_retire_def fake_ok_def fake_held_def fake_staged_def
        fake_published_def retire_staged_def Let_def keys_remove map_of_filter_value
        bmap_ok_distinct fun_eq_iff split: option.splits)
qed (auto simp: fake_backend_def fake_reserve_def fake_run_operation_def fake_stage_write_def
    fake_publish_def fake_release_def fake_ok_def fake_held_def fake_staged_def fake_published_def
    Let_def fake_dispatch_views keys_remove map_of_eq_None_iff split: if_splits)

end
