(* ===== verification/Transport.thy ===== *)
theory Transport
  imports Exec_Backend
begin

text \<open>
  \<open>crates/host-coordinator/src/transport.rs\<close>: the typed and ranged transfer, its validation before
  copy, the host-staged adapter with its pinned staging pool, budget and timeout policy, the peer
  adapter that never copies, and the selected-transport receipt.

  A \<open>Duration\<close> is its number of nanoseconds. The time a copy takes is an input of the model
  (\<open>work\<close>, to which the injected delay is added), and so is the standard library's debug rendering
  of a duration (\<open>dbg\<close>). Slicing the source panics when the range does not lie inside it, so
  \<open>run_staged_copy\<close> and \<open>copy\<close> return an option with \<^const>\<open>None\<close> for the panic.
\<close>

section \<open>Rates\<close>

definition duration_as_nanos_u64 :: "nat \<Rightarrow> u64" where
  "duration_as_nanos_u64 d = (if d < 2 ^ 64 then of_nat d else u64_MAX)"

definition T1_SMALL_COPY_BYTES :: u64 where "T1_SMALL_COPY_BYTES = 16 * 1024"
definition T1_SMALL_COPY_LATENCY_NANOS :: u64 where "T1_SMALL_COPY_LATENCY_NANOS = 1300"
definition T1_LARGE_COPY_LATENCY_NANOS :: u64 where "T1_LARGE_COPY_LATENCY_NANOS = 5000"
definition T1_H2D_BYTES_PER_SEC :: u64 where "T1_H2D_BYTES_PER_SEC = 9800000000"
definition T1_D2H_BYTES_PER_SEC :: u64 where "T1_D2H_BYTES_PER_SEC = 11000000000"
definition T1_BIDI_BYTES_PER_SEC :: u64 where "T1_BIDI_BYTES_PER_SEC = 12100000000"

record MeasuredRates =
  h2d_bytes_per_sec :: u64
  d2h_bytes_per_sec :: u64
  bidi_bytes_per_sec :: u64

definition MeasuredRates_t1 :: MeasuredRates where
  "MeasuredRates_t1 =
     \<lparr>h2d_bytes_per_sec = T1_H2D_BYTES_PER_SEC, d2h_bytes_per_sec = T1_D2H_BYTES_PER_SEC,
      bidi_bytes_per_sec = T1_BIDI_BYTES_PER_SEC\<rparr>"

fun rate_for :: "TransferDirectionMirror \<Rightarrow> MeasuredRates \<Rightarrow> u64" where
  "rate_for H2D r = h2d_bytes_per_sec r"
| "rate_for D2H r = d2h_bytes_per_sec r"
| "rate_for BIDI r = bidi_bytes_per_sec r"

fun with_rate :: "TransferDirectionMirror \<Rightarrow> u64 \<Rightarrow> MeasuredRates \<Rightarrow> MeasuredRates" where
  "with_rate H2D rate r = r\<lparr>h2d_bytes_per_sec := rate\<rparr>"
| "with_rate D2H rate r = r\<lparr>d2h_bytes_per_sec := rate\<rparr>"
| "with_rate BIDI rate r = r\<lparr>bidi_bytes_per_sec := rate\<rparr>"

definition checked_div :: "u64 \<Rightarrow> u64 \<Rightarrow> u64 option" where
  "checked_div a b = (if b = 0 then None else Some (a div b))"

definition expected_copy_time_nanos :: "u64 \<Rightarrow> TransferDirectionMirror \<Rightarrow> MeasuredRates \<Rightarrow> u64" where
  "expected_copy_time_nanos bytes direction rates =
     (let fixed = (if bytes \<le> T1_SMALL_COPY_BYTES then T1_SMALL_COPY_LATENCY_NANOS
                   else T1_LARGE_COPY_LATENCY_NANOS);
          transfer_time = (case checked_div (saturating_mul bytes 1000000000) (rate_for direction rates) of
                             Some x \<Rightarrow> x | None \<Rightarrow> 0)
      in saturating_add fixed transfer_time)"

section \<open>Declared and actual facts\<close>

record ByteRange =
  br_offset :: u64
  br_length :: u64

definition range_end :: "ByteRange \<Rightarrow> u64" where
  "range_end r = br_offset r + br_length r"

record TransferSpec =
  ts_transfer_ref :: TransferRef
  ts_source_owner :: LogicalPartitionId
  ts_destination :: LogicalPartitionId
  ts_range :: ByteRange
  ts_direction :: TransferDirectionMirror
  ts_dtype :: MirroredDtype
  ts_layout :: MirroredStorageLayout
  ts_generation :: u64
  ts_path_label :: TransportPathMirror
  ts_timeout :: nat

definition TransferSpec_from_mirror :: "TransferOperationMirror \<Rightarrow> nat \<Rightarrow> TransferSpec" where
  "TransferSpec_from_mirror mirror timeout =
     \<lparr>ts_transfer_ref = tm_id mirror, ts_source_owner = tm_source mirror,
      ts_destination = tm_destination mirror,
      ts_range = \<lparr>br_offset = 0, br_length = tm_byte_count mirror\<rparr>,
      ts_direction = tm_direction mirror, ts_dtype = tm_element_dtype mirror,
      ts_layout = tm_layout mirror, ts_generation = tm_producer_generation mirror,
      ts_path_label = tm_path_label mirror, ts_timeout = timeout\<rparr>"

record SourceValue =
  sv_owner :: LogicalPartitionId
  sv_dtype :: MirroredDtype
  sv_layout :: MirroredStorageLayout
  sv_generation :: u64
  sv_bytes :: "u8 list"

definition sv_total_bytes :: "SourceValue \<Rightarrow> u64" where
  "sv_total_bytes s = of_nat (length (sv_bytes s))"

definition slice_range :: "SourceValue \<Rightarrow> ByteRange \<Rightarrow> u8 list option" where
  "slice_range s r =
     (let first = unat (br_offset r); last = unat (range_end r)
      in if first \<le> last \<and> last \<le> length (sv_bytes s)
         then Some (take (last - first) (drop first (sv_bytes s)))
         else None)"

datatype TransferRejection =
    DtypeMismatch TransferRef MirroredDtype MirroredDtype
  | LayoutMismatch TransferRef MirroredStorageLayout MirroredStorageLayout
  | RangeOutOfBounds TransferRef ByteRange u64
  | GenerationMismatch TransferRef u64 u64
  | OwnerMismatch TransferRef LogicalPartitionId LogicalPartitionId
  | DestinationMismatch TransferRef LogicalPartitionId LogicalPartitionId

fun rejection_class :: "TransferRejection \<Rightarrow> string" where
  "rejection_class (DtypeMismatch _ _ _) = ''dtype mismatch''"
| "rejection_class (LayoutMismatch _ _ _) = ''layout mismatch''"
| "rejection_class (RangeOutOfBounds _ _ _) = ''out-of-bounds range''"
| "rejection_class (GenerationMismatch _ _ _) = ''generation mismatch''"
| "rejection_class (OwnerMismatch _ _ _) = ''owner mismatch''"
| "rejection_class (DestinationMismatch _ _ _) = ''destination mismatch''"

definition debug_range :: "ByteRange \<Rightarrow> string" where
  "debug_range r =
     ''ByteRange { offset: '' @ display_u64 (br_offset r) @ '', length: '' @
     display_u64 (br_length r) @ '' }''"

fun display_rejection :: "TransferRejection \<Rightarrow> string" where
  "display_rejection (DtypeMismatch t d a) =
     ''dtype mismatch: transfer '' @ transfer_str t @ '' declared '' @ MirroredDtype_spelling d @
     '' but the source content is '' @ MirroredDtype_spelling a"
| "display_rejection (LayoutMismatch t d a) =
     ''layout mismatch: transfer '' @ transfer_str t @ '' declared '' @
     MirroredStorageLayout_spelling d @ '' but the source content is '' @
     MirroredStorageLayout_spelling a"
| "display_rejection (RangeOutOfBounds t r n) =
     ''out-of-bounds range: transfer '' @ transfer_str t @ '' declares range '' @ debug_range r @
     '' which exceeds the source's '' @ display_u64 n @ '' bytes''"
| "display_rejection (GenerationMismatch t d a) =
     ''generation mismatch: transfer '' @ transfer_str t @ '' declares generation '' @
     display_u64 d @ '' but the source content is generation '' @ display_u64 a"
| "display_rejection (OwnerMismatch t d a) =
     ''owner mismatch: transfer '' @ transfer_str t @ '' declares owner '' @ lp_str d @
     '' but the source content belongs to '' @ lp_str a"
| "display_rejection (DestinationMismatch t d a) =
     ''destination mismatch: transfer '' @ transfer_str t @ '' declares destination '' @ lp_str d @
     '' but the copy would land on '' @ lp_str a"

definition validate_before_copy ::
    "TransferSpec \<Rightarrow> SourceValue \<Rightarrow> LogicalPartitionId \<Rightarrow> TransferRejection option" where
  "validate_before_copy spec source destination =
     (if ts_dtype spec \<noteq> sv_dtype source then
        Some (DtypeMismatch (ts_transfer_ref spec) (ts_dtype spec) (sv_dtype source))
      else if ts_layout spec \<noteq> sv_layout source then
        Some (LayoutMismatch (ts_transfer_ref spec) (ts_layout spec) (sv_layout source))
      else if sv_total_bytes source < range_end (ts_range spec) then
        Some (RangeOutOfBounds (ts_transfer_ref spec) (ts_range spec) (sv_total_bytes source))
      else if ts_generation spec \<noteq> sv_generation source then
        Some (GenerationMismatch (ts_transfer_ref spec) (ts_generation spec) (sv_generation source))
      else if ts_source_owner spec \<noteq> sv_owner source then
        Some (OwnerMismatch (ts_transfer_ref spec) (ts_source_owner spec) (sv_owner source))
      else if ts_destination spec \<noteq> destination then
        Some (DestinationMismatch (ts_transfer_ref spec) (ts_destination spec) destination)
      else None)"

section \<open>Peer pairs\<close>

datatype DirectedPair =
  DirectedPair (pair_source: LogicalPartitionId) (pair_destination: LogicalPartitionId)

definition pair_key :: "DirectedPair \<Rightarrow> LogicalPartitionId \<times> LogicalPartitionId" where
  "pair_key p = (pair_source p, pair_destination p)"

lemma pair_key_inject: "pair_key a = pair_key b \<longleftrightarrow> a = b"
  by (cases a; cases b) (simp add: pair_key_def)

instantiation DirectedPair :: linorder
begin

definition less_eq_DirectedPair :: "DirectedPair \<Rightarrow> DirectedPair \<Rightarrow> bool" where
  "a \<le> b \<longleftrightarrow> pair_key a \<le> pair_key b"

definition less_DirectedPair :: "DirectedPair \<Rightarrow> DirectedPair \<Rightarrow> bool" where
  "a < b \<longleftrightarrow> pair_key a < pair_key b"

instance
  by standard
     (auto simp: less_eq_DirectedPair_def less_DirectedPair_def pair_key_inject dest: antisym)

end

definition display_pair :: "DirectedPair \<Rightarrow> string" where
  "display_pair p = lp_str (pair_source p) @ ''->'' @ lp_str (pair_destination p)"

record PeerPairMeasurement =
  pm_pair :: DirectedPair
  pm_probe_provenance :: string
  pm_bandwidth :: u64
  pm_latency_nanos :: u64
  pm_evidence_reference :: string

datatype PairAdmissionError =
    SelfPair DirectedPair
  | MissingBandwidthOrLatency DirectedPair
  | MissingEvidence DirectedPair

record PeerPairRegistry =
  reg_admitted :: "(DirectedPair, PeerPairMeasurement) bmap"

definition registry_admit ::
    "PeerPairMeasurement \<Rightarrow> PeerPairRegistry \<Rightarrow> PairAdmissionError option \<times> PeerPairRegistry" where
  "registry_admit m reg =
     (let pair = pm_pair m in
      if pair_source pair = pair_destination pair then (Some (SelfPair pair), reg)
      else if pm_bandwidth m = 0 \<or> pm_latency_nanos m = 0 then
        (Some (MissingBandwidthOrLatency pair), reg)
      else if pm_evidence_reference m = [] then (Some (MissingEvidence pair), reg)
      else (None, reg\<lparr>reg_admitted := bmap_insert pair m (reg_admitted reg)\<rparr>))"

definition is_admitted :: "PeerPairRegistry \<Rightarrow> DirectedPair \<Rightarrow> bool" where
  "is_admitted reg pair = bmap_contains (reg_admitted reg) pair"

datatype CopyPath = HostStagedCopy | PeerCopy

fun CopyPath_spelling :: "CopyPath \<Rightarrow> string" where
  "CopyPath_spelling HostStagedCopy = ''host-staged''"
| "CopyPath_spelling PeerCopy = ''peer''"

definition select_copy_path :: "DirectedPair \<Rightarrow> PeerPairRegistry \<Rightarrow> CopyPath" where
  "select_copy_path pair reg = (if is_admitted reg pair then PeerCopy else HostStagedCopy)"

section \<open>Transfer errors\<close>

datatype TransferError =
    TransferRejected TransferRejection
  | TransferTimeout TransferRef nat u64
  | TransferFailed TransferRef string
  | PeerNotAdmitted DirectedPair
  | PeerNotAttempted DirectedPair string
  | TransferBudgetExceeded TransferRef u64 u64 u64

text \<open>The non-ASCII characters of the messages, as their UTF-8 bytes.\<close>

definition section_sign :: string where "section_sign = [CHR 0xC2, CHR 0xA7]"
definition em_dash :: string where "em_dash = [CHR 0xE2, CHR 0x80, CHR 0x94]"
definition at_least_sign :: string where "at_least_sign = [CHR 0xE2, CHR 0x89, CHR 0xA5]"

fun into_backend_error ::
    "(nat \<Rightarrow> string) \<Rightarrow> LogicalPartitionId \<Rightarrow> TransferError \<Rightarrow> BackendError" where
  "into_backend_error dbg p (TransferRejected r) =
     Operation p (''typed/ranged transfer rejected before copy: '' @ display_rejection r)"
| "into_backend_error dbg p (TransferTimeout t declared elapsed) =
     Timeout p (''transfer '' @ transfer_str t @ '' exceeded its declared '' @ dbg declared @
       '' timeout ('' @ display_u64 elapsed @ '' ns elapsed)'')"
| "into_backend_error dbg p (TransferFailed t detail) =
     Operation p (''transfer '' @ transfer_str t @ '' failed: '' @ detail)"
| "into_backend_error dbg p (PeerNotAdmitted pair) =
     Operation p (''peer transfer on unmeasured directed pair '' @ display_pair pair @
       '' is not admitted (T2 '' @ section_sign @ ''6 '' @ em_dash @ '' NOT ATTEMPTED)'')"
| "into_backend_error dbg p (PeerNotAttempted pair detail) =
     Operation p (''peer transfer on admitted pair '' @ display_pair pair @
       '' is not attempted: '' @ detail)"
| "into_backend_error dbg p (TransferBudgetExceeded t budget used needed) =
     Operation p (''transfer '' @ transfer_str t @ '' exceeds the declared transfer budget (used '' @
       display_u64 used @ '' of '' @ display_u64 budget @ '' bytes, needs '' @ display_u64 needed @
       '' more)'')"

fun display_transfer_error :: "(nat \<Rightarrow> string) \<Rightarrow> TransferError \<Rightarrow> string" where
  "display_transfer_error dbg (TransferRejected r) = display_rejection r"
| "display_transfer_error dbg (TransferTimeout t declared elapsed) =
     ''transfer '' @ transfer_str t @ '' timed out after '' @ display_u64 elapsed @
     '' ns (declared '' @ dbg declared @ '')''"
| "display_transfer_error dbg (TransferFailed t detail) =
     ''transfer '' @ transfer_str t @ '' failed: '' @ detail"
| "display_transfer_error dbg (PeerNotAdmitted pair) =
     ''peer transfer on unmeasured directed pair '' @ display_pair pair @
     '' rejected (NOT ATTEMPTED)''"
| "display_transfer_error dbg (PeerNotAttempted pair detail) =
     ''peer transfer on pair '' @ display_pair pair @ '' not attempted: '' @ detail"
| "display_transfer_error dbg (TransferBudgetExceeded t budget used needed) =
     ''transfer '' @ transfer_str t @ '' exceeds the declared transfer budget ('' @
     display_u64 used @ ''/'' @ display_u64 budget @ '' bytes used, needs '' @
     display_u64 needed @ '')''"

section \<open>Staging pool and records\<close>

datatype StagingBufferId = StagingBufferId (staging_id_get: u64)

instantiation StagingBufferId :: linorder
begin

definition less_eq_StagingBufferId :: "StagingBufferId \<Rightarrow> StagingBufferId \<Rightarrow> bool" where
  "a \<le> b \<longleftrightarrow> staging_id_get a \<le> staging_id_get b"

definition less_StagingBufferId :: "StagingBufferId \<Rightarrow> StagingBufferId \<Rightarrow> bool" where
  "a < b \<longleftrightarrow> staging_id_get a < staging_id_get b"

instance
  by standard
     (auto simp: less_eq_StagingBufferId_def less_StagingBufferId_def intro: StagingBufferId.expand)

end

record StagingBufferRecord =
  sb_id :: StagingBufferId
  sb_capacity_bytes :: u64
  sb_pinned :: bool

record StagingPool =
  sp_next_id :: u64
  sp_allocations :: u64
  sp_active :: "(StagingBufferId, StagingBufferRecord) bmap"

definition StagingPool_new :: StagingPool where
  "StagingPool_new = \<lparr>sp_next_id = 0, sp_allocations = 0, sp_active = []\<rparr>"

definition pool_allocate :: "u64 \<Rightarrow> StagingPool \<Rightarrow> StagingBufferRecord \<times> StagingPool" where
  "pool_allocate bytes pool =
     (let pool = pool\<lparr>sp_next_id := sp_next_id pool + 1\<rparr>;
          pool = pool\<lparr>sp_allocations := sp_allocations pool + 1\<rparr>;
          rec = \<lparr>sb_id = StagingBufferId (sp_next_id pool), sb_capacity_bytes = bytes, sb_pinned = True\<rparr>
      in (rec, pool\<lparr>sp_active := bmap_insert (sb_id rec) rec (sp_active pool)\<rparr>))"

definition pool_release :: "StagingBufferId \<Rightarrow> StagingPool \<Rightarrow> StagingPool" where
  "pool_release i pool = pool\<lparr>sp_active := bmap_remove i (sp_active pool)\<rparr>"

datatype EngineId = EngineId (engine_get: u64)
datatype EventId = EventId (event_get: u64)

record SelectedTransferRecord =
  st_transfer_ref :: TransferRef
  st_copy_path :: CopyPath
  st_staging :: StagingBufferRecord
  st_engine :: EngineId
  st_event :: EventId
  st_timeout :: nat
  st_bytes :: u64
  st_elapsed_nanos :: u64
  st_expected_nanos :: u64
  st_direction :: TransferDirectionMirror
  st_destination :: LogicalPartitionId

record TransferOutcome =
  to_record :: SelectedTransferRecord
  to_destination_bytes :: "u8 list"

record TransferBudget =
  tb_bytes :: u64
  tb_time_nanos :: u64

record RateObservation =
  ro_direction :: TransferDirectionMirror
  ro_bytes :: u64
  ro_elapsed_nanos :: u64
  ro_measured_bytes_per_sec :: u64

record TransportReceipt =
  tr_records :: "SelectedTransferRecord list"
  tr_budget_bytes :: u64
  tr_budget_time_nanos :: u64
  tr_used_bytes :: u64
  tr_used_time_nanos :: u64
  tr_rates :: MeasuredRates
  tr_rate_observations :: "RateObservation list"

section \<open>The host-staged adapter\<close>

record HostStagedAdapter =
  ha_declared_budget :: TransferBudget
  ha_used_bytes :: u64
  ha_used_time_nanos :: u64
  ha_staging_pool :: StagingPool
  ha_rates :: MeasuredRates
  ha_next_engine :: u64
  ha_next_event :: u64
  ha_records :: "SelectedTransferRecord list"
  ha_rate_observations :: "RateObservation list"
  ha_simulated_delay :: nat
  ha_simulated_failure :: "string option"

definition HostStagedAdapter_new :: "TransferBudget \<Rightarrow> HostStagedAdapter" where
  "HostStagedAdapter_new budget =
     \<lparr>ha_declared_budget = budget, ha_used_bytes = 0, ha_used_time_nanos = 0,
      ha_staging_pool = StagingPool_new, ha_rates = MeasuredRates_t1, ha_next_engine = 0,
      ha_next_event = 0, ha_records = [], ha_rate_observations = [], ha_simulated_delay = 0,
      ha_simulated_failure = None\<rparr>"

definition set_simulated_delay :: "nat \<Rightarrow> HostStagedAdapter \<Rightarrow> HostStagedAdapter" where
  "set_simulated_delay delay a = a\<lparr>ha_simulated_delay := delay\<rparr>"

definition set_simulated_failure :: "string option \<Rightarrow> HostStagedAdapter \<Rightarrow> HostStagedAdapter" where
  "set_simulated_failure detail a = a\<lparr>ha_simulated_failure := detail\<rparr>"

definition record_fixture_measurement ::
    "TransferDirectionMirror \<Rightarrow> u64 \<Rightarrow> u64 \<Rightarrow> HostStagedAdapter \<Rightarrow> HostStagedAdapter" where
  "record_fixture_measurement direction bytes elapsed_nanos a =
     (if elapsed_nanos = 0 then a
      else let measured = saturating_mul bytes 1000000000 div elapsed_nanos;
               a = a\<lparr>ha_rate_observations := ha_rate_observations a @
                 [\<lparr>ro_direction = direction, ro_bytes = bytes, ro_elapsed_nanos = elapsed_nanos,
                   ro_measured_bytes_per_sec = measured\<rparr>]\<rparr>
           in a\<lparr>ha_rates := with_rate direction measured (ha_rates a)\<rparr>)"

definition transport_receipt :: "HostStagedAdapter \<Rightarrow> TransportReceipt" where
  "transport_receipt a =
     \<lparr>tr_records = ha_records a, tr_budget_bytes = tb_bytes (ha_declared_budget a),
      tr_budget_time_nanos = tb_time_nanos (ha_declared_budget a), tr_used_bytes = ha_used_bytes a,
      tr_used_time_nanos = ha_used_time_nanos a, tr_rates = ha_rates a,
      tr_rate_observations = ha_rate_observations a\<rparr>"

definition run_staged_copy ::
    "TransferSpec \<Rightarrow> SourceValue \<Rightarrow> u64 \<Rightarrow> nat \<Rightarrow> HostStagedAdapter \<Rightarrow>
       ((StagingBufferRecord \<times> u8 list \<times> nat, TransferError) result \<times> HostStagedAdapter) option" where
  "run_staged_copy spec source bytes work a =
     (let (staging, pool) = pool_allocate bytes (ha_staging_pool a);
          a = a\<lparr>ha_staging_pool := pool\<rparr>;
          released = a\<lparr>ha_staging_pool := pool_release (sb_id staging) pool\<rparr>
      in case ha_simulated_failure a of
           Some detail \<Rightarrow> Some (Err (TransferFailed (ts_transfer_ref spec) detail), released)
         | None \<Rightarrow>
             (case slice_range source (ts_range spec) of
                None \<Rightarrow> None
              | Some destination_bytes \<Rightarrow>
                  let elapsed = ha_simulated_delay a + work
                  in if ts_timeout spec < elapsed
                     then Some (Err (TransferTimeout (ts_transfer_ref spec) (ts_timeout spec)
                            (duration_as_nanos_u64 elapsed)), released)
                     else Some (Ok (staging, destination_bytes, elapsed), released)))"

definition host_staged_copy ::
    "TransferSpec \<Rightarrow> SourceValue \<Rightarrow> LogicalPartitionId \<Rightarrow> nat \<Rightarrow> HostStagedAdapter \<Rightarrow>
       ((TransferOutcome, TransferError) result \<times> HostStagedAdapter) option" where
  "host_staged_copy spec source destination work a =
     (case validate_before_copy spec source destination of
        Some r \<Rightarrow> Some (Err (TransferRejected r), a)
      | None \<Rightarrow>
        let bytes = br_length (ts_range spec);
            direction = ts_direction spec;
            expected = expected_copy_time_nanos bytes direction (ha_rates a)
        in if tb_bytes (ha_declared_budget a) < saturating_add (ha_used_bytes a) bytes \<or>
              tb_time_nanos (ha_declared_budget a) < saturating_add (ha_used_time_nanos a) expected
           then Some (Err (TransferBudgetExceeded (ts_transfer_ref spec)
                  (tb_bytes (ha_declared_budget a)) (ha_used_bytes a) bytes), a)
           else case run_staged_copy spec source bytes work a of
                  None \<Rightarrow> None
                | Some (Err e, a) \<Rightarrow> Some (Err e, a)
                | Some (Ok (staging, destination_bytes, elapsed), a) \<Rightarrow>
                    let a = a\<lparr>ha_used_bytes := saturating_add (ha_used_bytes a) bytes\<rparr>;
                        a = a\<lparr>ha_used_time_nanos := saturating_add (ha_used_time_nanos a) expected\<rparr>;
                        a = a\<lparr>ha_next_engine := ha_next_engine a + 1\<rparr>;
                        a = a\<lparr>ha_next_event := ha_next_event a + 1\<rparr>;
                        rec = \<lparr>st_transfer_ref = ts_transfer_ref spec, st_copy_path = HostStagedCopy,
                               st_staging = staging, st_engine = EngineId (ha_next_engine a),
                               st_event = EventId (ha_next_event a), st_timeout = ts_timeout spec,
                               st_bytes = bytes, st_elapsed_nanos = duration_as_nanos_u64 elapsed,
                               st_expected_nanos = expected, st_direction = direction,
                               st_destination = destination\<rparr>;
                        a = a\<lparr>ha_records := ha_records a @ [rec]\<rparr>
                    in Some (Ok \<lparr>to_record = rec, to_destination_bytes = destination_bytes\<rparr>, a))"

section \<open>The peer adapter\<close>

record PeerAdapter =
  pa_registry :: PeerPairRegistry

definition peer_copy ::
    "TransferSpec \<Rightarrow> SourceValue \<Rightarrow> LogicalPartitionId \<Rightarrow> PeerAdapter \<Rightarrow>
       (TransferOutcome, TransferError) result \<times> PeerAdapter" where
  "peer_copy spec source destination a =
     (case validate_before_copy spec source destination of
        Some r \<Rightarrow> (Err (TransferRejected r), a)
      | None \<Rightarrow>
        let pair = DirectedPair (ts_source_owner spec) destination
        in if \<not> is_admitted (pa_registry a) pair then (Err (PeerNotAdmitted pair), a)
           else (Err (PeerNotAttempted pair
                  (''real peer copies require a real same-host '' @ at_least_sign @
                   ''2-GPU topology (lane queue '' @ section_sign @ ''5b); never fabricated'')), a))"

definition peer_admit_pair ::
    "PeerPairMeasurement \<Rightarrow> PeerAdapter \<Rightarrow> PairAdmissionError option \<times> PeerAdapter" where
  "peer_admit_pair m a =
     (case registry_admit m (pa_registry a) of (r, reg) \<Rightarrow> (r, a\<lparr>pa_registry := reg\<rparr>))"

section \<open>Validation and slicing\<close>

lemma validate_None_iff:
  "validate_before_copy spec src dst = None \<longleftrightarrow>
     ts_dtype spec = sv_dtype src \<and> ts_layout spec = sv_layout src \<and>
     range_end (ts_range spec) \<le> sv_total_bytes src \<and> ts_generation spec = sv_generation src \<and>
     ts_source_owner spec = sv_owner src \<and> ts_destination spec = dst"
  by (auto simp: validate_before_copy_def not_less)

definition source_fits :: "SourceValue \<Rightarrow> bool" where
  "source_fits s \<longleftrightarrow> fits_usize (sv_bytes s)"

lemma slice_in_bounds:
  assumes "source_fits s" "range_end r \<le> sv_total_bytes s"
    and "unat (br_offset r) + unat (br_length r) < 2 ^ 64"
  shows "slice_range s r = Some (take (unat (br_length r)) (drop (unat (br_offset r)) (sv_bytes s)))"
    and "unat (br_offset r) + unat (br_length r) \<le> length (sv_bytes s)"
proof -
  have e: "unat (range_end r) = unat (br_offset r) + unat (br_length r)"
    using assms(3) by (simp add: range_end_def unat_add_u64)
  have "unat (sv_total_bytes s) = length (sv_bytes s)"
    using assms(1) by (simp add: sv_total_bytes_def source_fits_def fits_usize_def unat_of_nat_u64)
  then show "unat (br_offset r) + unat (br_length r) \<le> length (sv_bytes s)"
    using assms(2) e by (simp add: word_le_nat_alt)
  then show "slice_range s r = Some (take (unat (br_length r)) (drop (unat (br_offset r)) (sv_bytes s)))"
    by (simp add: slice_range_def Let_def e)
qed

lemma slice_wrapped:
  assumes "2 ^ 64 \<le> unat (br_offset r) + unat (br_length r)"
  shows "slice_range s r = None"
proof -
  have "unat (range_end r) = unat (br_offset r) + unat (br_length r) - 2 ^ 64"
    using assms unat_u64_lt [of "br_offset r"] unat_u64_lt [of "br_length r"]
    by (simp add: range_end_def unat_add_u64_mod le_mod_geq)
  then have "unat (range_end r) < unat (br_offset r)"
    using assms unat_u64_lt [of "br_length r"] by simp
  then show ?thesis by (simp add: slice_range_def Let_def)
qed

text \<open>After validation the slice panics exactly when \<open>offset + length\<close> overflows.\<close>

lemma slice_None_iff:
  assumes "source_fits s" "range_end r \<le> sv_total_bytes s"
  shows "slice_range s r = None \<longleftrightarrow> 2 ^ 64 \<le> unat (br_offset r) + unat (br_length r)"
proof (cases "unat (br_offset r) + unat (br_length r) < 2 ^ 64")
  case True
  with slice_in_bounds(1) [OF assms] show ?thesis by simp
next
  case False
  with slice_wrapped [of r s] show ?thesis by simp
qed

section \<open>The adapter contract\<close>

type_synonym 'a copy_method =
  "TransferSpec \<Rightarrow> SourceValue \<Rightarrow> LogicalPartitionId \<Rightarrow> nat \<Rightarrow> 'a \<Rightarrow>
     ((TransferOutcome, TransferError) result \<times> 'a) option"

type_synonym transfer_request = "TransferSpec \<times> SourceValue \<times> LogicalPartitionId \<times> nat"

text \<open>A sequence of copies; the caller goes on after a failed one.\<close>

fun run_copies ::
    "'a copy_method \<Rightarrow> transfer_request list \<Rightarrow> 'a \<Rightarrow>
       ((TransferOutcome, TransferError) result list \<times> 'a) option" where
  "run_copies copy [] a = Some ([], a)"
| "run_copies copy ((spec, src, dst, work) # reqs) a =
     (case copy spec src dst work a of
        None \<Rightarrow> None
      | Some (r, a) \<Rightarrow> map_option (\<lambda>(rs, a). (r # rs, a)) (run_copies copy reqs a))"

text \<open>A landed copy carries exactly the bytes of the validated range.\<close>

definition lands :: "transfer_request \<Rightarrow> (TransferOutcome, TransferError) result \<Rightarrow> bool" where
  "lands req r =
     (case req of (spec, src, dst, work) \<Rightarrow>
      case r of
        Err _ \<Rightarrow> True
      | Ok out \<Rightarrow>
          validate_before_copy spec src dst = None \<and>
          slice_range src (ts_range spec) = Some (to_destination_bytes out) \<and>
          st_transfer_ref (to_record out) = ts_transfer_ref spec \<and>
          st_bytes (to_record out) = br_length (ts_range spec))"

locale transport_adapter =
  fixes copy :: "'a copy_method"
    and adapter_inv :: "'a \<Rightarrow> bool"
    and records :: "'a \<Rightarrow> SelectedTransferRecord list"
  assumes copy_inv: "adapter_inv a \<Longrightarrow> copy spec src dst work a = Some (r, a') \<Longrightarrow> adapter_inv a'"
    and copy_rejects: "validate_before_copy spec src dst = Some rej \<Longrightarrow>
      copy spec src dst work a = Some (Err (TransferRejected rej), a)"
    and copy_lands: "copy spec src dst work a = Some (r, a') \<Longrightarrow> lands (spec, src, dst, work) r"
    and copy_records: "copy spec src dst work a = Some (r, a') \<Longrightarrow>
      records a' = records a @ (case r of Ok out \<Rightarrow> [to_record out] | Err e \<Rightarrow> [])"
begin

lemma run_copies_result:
  "run_copies copy reqs a = Some (rs, a') \<Longrightarrow>
     list_all2 lands reqs rs \<and>
     records a' = records a @ concat (map (\<lambda>r. case r of Ok out \<Rightarrow> [to_record out] | Err e \<Rightarrow> []) rs)"
proof (induction reqs arbitrary: a rs)
  case Nil
  then show ?case by simp
next
  case (Cons req reqs)
  obtain spec src dst work where req: "req = (spec, src, dst, work)"
    by (cases req)
  from Cons.prems obtain r b ss where
    step: "copy spec src dst work a = Some (r, b)" "run_copies copy reqs b = Some (ss, a')"
      "rs = r # ss"
    unfolding req by (auto split: option.splits)
  with Cons.IH [of b ss] copy_lands [OF step(1)] copy_records [OF step(1)] req show ?case
    by simp
qed

lemma run_copies_inv:
  "adapter_inv a \<Longrightarrow> run_copies copy reqs a = Some (rs, a') \<Longrightarrow> adapter_inv a'"
proof (induction reqs arbitrary: a rs)
  case Nil
  then show ?case by simp
next
  case (Cons req reqs)
  obtain spec src dst work where req: "req = (spec, src, dst, work)"
    by (cases req)
  from Cons.prems obtain r b ss where
    "copy spec src dst work a = Some (r, b)" "run_copies copy reqs b = Some (ss, a')"
    unfolding req by (auto split: option.splits)
  with Cons.IH [of b ss] copy_inv Cons.prems(1) show ?case by blast
qed

end

section \<open>The host-staged adapter satisfies it\<close>

text \<open>Nothing is staged between copies, and the budget accounts are the (saturated) sums over the records.\<close>

definition host_adapter_ok :: "HostStagedAdapter \<Rightarrow> bool" where
  "host_adapter_ok a \<longleftrightarrow>
     sp_active (ha_staging_pool a) = [] \<and>
     ha_used_bytes a \<le> tb_bytes (ha_declared_budget a) \<and>
     ha_used_time_nanos a \<le> tb_time_nanos (ha_declared_budget a) \<and>
     unat (ha_used_bytes a) = min (sum_list (map (unat \<circ> st_bytes) (ha_records a))) (2 ^ 64 - 1) \<and>
     unat (ha_used_time_nanos a) =
       min (sum_list (map (unat \<circ> st_expected_nanos) (ha_records a))) (2 ^ 64 - 1)"

lemma host_adapter_new_ok: "host_adapter_ok (HostStagedAdapter_new budget)"
  by (simp add: host_adapter_ok_def HostStagedAdapter_new_def StagingPool_new_def)

lemma record_measurement_ok:
  "host_adapter_ok a \<Longrightarrow> host_adapter_ok (record_fixture_measurement d n e a)"
  by (simp add: host_adapter_ok_def record_fixture_measurement_def Let_def)

lemma run_staged_copy_effect:
  assumes "run_staged_copy spec src n work a = Some (r, a')"
  obtains pool where "a' = a\<lparr>ha_staging_pool := pool\<rparr>"
    "sp_active (ha_staging_pool a) = [] \<Longrightarrow> sp_active pool = []"
    "\<And>st bs el. r = Ok (st, bs, el) \<Longrightarrow>
       slice_range src (ts_range spec) = Some bs \<and> ha_simulated_failure a = None \<and>
       el = ha_simulated_delay a + work \<and> el \<le> ts_timeout spec \<and>
       sb_capacity_bytes st = n \<and> sb_pinned st"
    "\<And>e. r = Err e \<Longrightarrow> \<exists>t d u v. e = TransferFailed t d \<or> e = TransferTimeout t u v"
proof -
  obtain st pool where alloc: "pool_allocate n (ha_staging_pool a) = (st, pool)"
    by (cases "pool_allocate n (ha_staging_pool a)")
  let ?rel = "pool_release (sb_id st) pool"
  have "sp_active (ha_staging_pool a) = [] \<Longrightarrow> sp_active ?rel = []"
    using alloc by (auto simp: pool_allocate_def pool_release_def Let_def bmap_remove_def)
  moreover have "sb_capacity_bytes st = n" "sb_pinned st"
    using alloc by (auto simp: pool_allocate_def Let_def)
  moreover have "a' = a\<lparr>ha_staging_pool := ?rel\<rparr>"
    using assms alloc by (auto simp: run_staged_copy_def Let_def split: option.splits if_splits)
  ultimately show ?thesis
    using that [of ?rel] assms alloc
    by (auto simp: run_staged_copy_def Let_def not_less split: option.splits if_splits)
qed

text \<open>What one copy does, by outcome.\<close>

lemma host_copy_Ok:
  assumes "host_staged_copy spec src dst work a = Some (Ok out, a')"
  shows "validate_before_copy spec src dst = None"
    and "slice_range src (ts_range spec) = Some (to_destination_bytes out)"
    and "ha_simulated_failure a = None" "ha_simulated_delay a + work \<le> ts_timeout spec"
    and "ha_records a' = ha_records a @ [to_record out]"
    and "ha_used_bytes a' = saturating_add (ha_used_bytes a) (br_length (ts_range spec))"
    and "ha_used_time_nanos a' = saturating_add (ha_used_time_nanos a) (st_expected_nanos (to_record out))"
    and "ha_used_bytes a' \<le> tb_bytes (ha_declared_budget a)"
    and "ha_used_time_nanos a' \<le> tb_time_nanos (ha_declared_budget a)"
    and "ha_declared_budget a' = ha_declared_budget a"
    and "sp_active (ha_staging_pool a) = [] \<Longrightarrow> sp_active (ha_staging_pool a') = []"
    and "st_bytes (to_record out) = br_length (ts_range spec)"
    and "st_transfer_ref (to_record out) = ts_transfer_ref spec"
    and "st_copy_path (to_record out) = HostStagedCopy"
proof -
  let ?n = "br_length (ts_range spec)"
  from assms obtain st bs el b where
    v: "validate_before_copy spec src dst = None" and
    run: "run_staged_copy spec src ?n work a = Some (Ok (st, bs, el), b)"
    by (auto simp: host_staged_copy_def Let_def split: option.splits result.splits if_splits)
  obtain pool where
    b: "b = a\<lparr>ha_staging_pool := pool\<rparr>" and
    pool: "sp_active (ha_staging_pool a) = [] \<Longrightarrow> sp_active pool = []" and
    ok: "slice_range src (ts_range spec) = Some bs \<and> ha_simulated_failure a = None \<and>
       el = ha_simulated_delay a + work \<and> el \<le> ts_timeout spec"
    by (rule run_staged_copy_effect [OF run]) auto
  note facts = assms v run b pool ok
  show "validate_before_copy spec src dst = None"
    "slice_range src (ts_range spec) = Some (to_destination_bytes out)"
    "ha_simulated_failure a = None" "ha_simulated_delay a + work \<le> ts_timeout spec"
    "ha_records a' = ha_records a @ [to_record out]"
    "ha_used_bytes a' = saturating_add (ha_used_bytes a) ?n"
    "ha_used_time_nanos a' = saturating_add (ha_used_time_nanos a) (st_expected_nanos (to_record out))"
    "ha_used_bytes a' \<le> tb_bytes (ha_declared_budget a)"
    "ha_used_time_nanos a' \<le> tb_time_nanos (ha_declared_budget a)"
    "ha_declared_budget a' = ha_declared_budget a"
    "sp_active (ha_staging_pool a) = [] \<Longrightarrow> sp_active (ha_staging_pool a') = []"
    "st_bytes (to_record out) = ?n" "st_transfer_ref (to_record out) = ts_transfer_ref spec"
    "st_copy_path (to_record out) = HostStagedCopy"
    using facts by (auto simp: host_staged_copy_def Let_def not_less split: if_splits)
qed

lemma host_copy_Err:
  assumes "host_staged_copy spec src dst work a = Some (Err e, a')"
  obtains pool where "a' = a\<lparr>ha_staging_pool := pool\<rparr>"
    "sp_active (ha_staging_pool a) = [] \<Longrightarrow> sp_active pool = []"
proof (cases "a' = a")
  case True
  with that [of "ha_staging_pool a"] show ?thesis by simp
next
  case False
  with assms have "run_staged_copy spec src (br_length (ts_range spec)) work a = Some (Err e, a')"
    by (auto simp: host_staged_copy_def Let_def split: option.splits result.splits if_splits)
  then show ?thesis
    by (rule run_staged_copy_effect) (use that in auto)
qed

lemma host_copy_ok_inv:
  assumes "host_adapter_ok a" "host_staged_copy spec src dst work a = Some (r, a')"
  shows "host_adapter_ok a'"
proof (cases r)
  case (Ok out)
  note c = host_copy_Ok [OF assms(2) [unfolded Ok]]
  have "unat (ha_used_bytes a') = min (unat (ha_used_bytes a) + unat (br_length (ts_range spec))) (2 ^ 64 - 1)"
    "unat (ha_used_time_nanos a') =
       min (unat (ha_used_time_nanos a) + unat (st_expected_nanos (to_record out))) (2 ^ 64 - 1)"
    unfolding c(6,7) by (rule unat_saturating_add)+
  with assms(1) c(5,8-12) show ?thesis
    unfolding host_adapter_ok_def by (simp add: min_def)
next
  case (Err e)
  with assms(2) obtain pool where "a' = a\<lparr>ha_staging_pool := pool\<rparr>"
    "sp_active (ha_staging_pool a) = [] \<Longrightarrow> sp_active pool = []"
    by (auto elim: host_copy_Err)
  with assms(1) show ?thesis by (simp add: host_adapter_ok_def)
qed

interpretation host_adapter: transport_adapter host_staged_copy host_adapter_ok ha_records
proof
  fix a a' :: HostStagedAdapter and spec src dst work r
  assume c: "host_staged_copy spec src dst work a = Some (r, a')"
  show "lands (spec, src, dst, work) r"
  proof (cases r)
    case (Ok out)
    note o = host_copy_Ok [OF c [unfolded Ok]]
    then show ?thesis using Ok by (simp add: lands_def)
  qed (simp add: lands_def)
  show "ha_records a' = ha_records a @ (case r of Ok out \<Rightarrow> [to_record out] | Err e \<Rightarrow> [])"
  proof (cases r)
    case (Ok out)
    from host_copy_Ok(5) [OF c [unfolded Ok]] show ?thesis using Ok by simp
  next
    case (Err e)
    obtain pool where "a' = a\<lparr>ha_staging_pool := pool\<rparr>"
      by (rule host_copy_Err [OF c [unfolded Err]]) auto
    with Err show ?thesis by simp
  qed
  show "host_adapter_ok a \<Longrightarrow> host_adapter_ok a'"
    using host_copy_ok_inv c by blast
next
  fix a :: HostStagedAdapter and spec src dst work rej
  assume "validate_before_copy spec src dst = Some rej"
  then show "host_staged_copy spec src dst work a = Some (Err (TransferRejected rej), a)"
    by (simp add: host_staged_copy_def)
qed

interpretation peer_adapter: transport_adapter
    "\<lambda>spec src dst work a. Some (peer_copy spec src dst a)" "\<lambda>a. bmap_ok (reg_admitted (pa_registry a))"
    "\<lambda>_. []"
  by unfold_locales (auto simp: peer_copy_def Let_def lands_def split: option.splits if_splits)

lemma host_copy_panics_iff:
  assumes "source_fits src"
  shows "host_staged_copy spec src dst work a = None \<longleftrightarrow>
     validate_before_copy spec src dst = None \<and>
     saturating_add (ha_used_bytes a) (br_length (ts_range spec)) \<le> tb_bytes (ha_declared_budget a) \<and>
     saturating_add (ha_used_time_nanos a)
       (expected_copy_time_nanos (br_length (ts_range spec)) (ts_direction spec) (ha_rates a))
       \<le> tb_time_nanos (ha_declared_budget a) \<and>
     ha_simulated_failure a = None \<and>
     2 ^ 64 \<le> unat (br_offset (ts_range spec)) + unat (br_length (ts_range spec))"
proof (cases "validate_before_copy spec src dst")
  case (Some r)
  then show ?thesis by (simp add: host_staged_copy_def)
next
  case None
  then have "range_end (ts_range spec) \<le> sv_total_bytes src"
    by (simp add: validate_None_iff)
  note slice = slice_None_iff [OF assms this]
  show ?thesis
    unfolding slice [symmetric] using None
    by (auto simp: host_staged_copy_def run_staged_copy_def pool_allocate_def Let_def not_less
        split: option.splits result.splits)
qed

section \<open>The time estimate\<close>

definition fixed_latency :: "u64 \<Rightarrow> nat" where
  "fixed_latency n = (if unat n \<le> 16384 then 1300 else 5000)"

lemma expected_time_exact:
  assumes "rate_for d r \<noteq> 0" "unat n * 1000000000 < 2 ^ 64"
    and "fixed_latency n + unat n * 1000000000 div unat (rate_for d r) < 2 ^ 64"
  shows "unat (expected_copy_time_nanos n d r) =
     fixed_latency n + unat n * 1000000000 div unat (rate_for d r)"
proof -
  have "unat (saturating_mul n 1000000000) = unat n * 1000000000"
    using assms(2) by (simp add: unat_saturating_mul)
  moreover have "unat (if n \<le> T1_SMALL_COPY_BYTES then T1_SMALL_COPY_LATENCY_NANOS
      else T1_LARGE_COPY_LATENCY_NANOS) = fixed_latency n"
    by (simp add: fixed_latency_def T1_SMALL_COPY_BYTES_def T1_SMALL_COPY_LATENCY_NANOS_def
        T1_LARGE_COPY_LATENCY_NANOS_def word_le_nat_alt)
  ultimately show ?thesis
    using assms by (simp add: expected_copy_time_nanos_def Let_def checked_div_def
        unat_saturating_add unat_div)
qed

end
