(* ===== verification/Transaction.thy ===== *)
theory Transaction
  imports Transport
begin

text \<open>
  \<open>crates/host-coordinator/src/execution_transaction/\<close>: \<open>transaction.rs\<close> with the state machine, error
  and receipt types of \<open>state_machine.rs\<close>, \<open>errors.rs\<close> and \<open>receipt.rs\<close>. Each method of
  \<open>ExecutionTransaction\<close> is a function of the backend's methods, the transaction and the backend
  state; the elapsed time its \<open>Instant\<close> reads is an input. A method returns \<^const>\<open>None\<close> where the
  code would panic (an \<open>expect\<close> or an index out of range). \<open>debug_str\<close> is the standard library's
  quoting of a string, which the recorded detail of a failed publication contains.
\<close>

section \<open>State machine and errors\<close>

datatype TransactionId = TransactionId (tid_str: string)

datatype PublicationOrdinal = PublicationOrdinal (ordinal_value: u64)

datatype TransactionState =
    New
  | Prepared
  | Executing
  | Committed
  | Failed TransactionFailure
  | Aborted TransactionFailure

datatype ConstructError = DegeneratePlan | EmptySnapshot

datatype PrepareError =
    PrepareInvalidState TransactionState
  | UnknownPartition LogicalPartitionId nat
  | DuplicateOperation OperationRef
  | UndeclaredBoundaryBarrier BarrierRef
  | UndeclaredBoundaryLaunch LaunchRef
  | MissingAdmittedBudget LogicalPartitionId
  | ReservationExceedsBudget LogicalPartitionId BudgetClass u64 u64
  | PrepareBackend BackendError

datatype ExecuteError =
    ExecuteInvalidState TransactionState
  | OperationOutsideSnapshot OperationRef
  | ExecuteBackend BackendError

datatype CommitError =
    CommitInvalidState TransactionState
  | BoundaryNotReached "BoundaryRef bset"
  | CommitPublishFailed BackendError

datatype AbortError = AlreadyCommitted

section \<open>Receipts\<close>

datatype TransactionDecision =
    DecisionCommitted PublicationOrdinal
  | DecisionAborted TransactionFailure

record ExecutedOperationRecord =
  eo_operation :: TransactionOperation
  eo_byte_count :: u64

record PublishSummary =
  ps_staged_bytes :: u64
  ps_published_bytes :: u64
  ps_atomic :: bool

record TeardownFacts =
  td_released_partitions :: "LogicalPartitionId bset"
  td_retired_partitions :: "LogicalPartitionId bset"
  td_partial_publication :: bool

definition TeardownFacts_default :: TeardownFacts where
  "TeardownFacts_default =
     \<lparr>td_released_partitions = [], td_retired_partitions = [], td_partial_publication = False\<rparr>"

record TransactionTimings =
  tt_prepare_nanos :: u64
  tt_execute_nanos :: u64
  tt_finalize_nanos :: u64

record TransactionReceipt =
  tx_transaction_id :: TransactionId
  tx_logical_hash :: string
  tx_bound_hash :: string
  tx_plan_receipt :: PartitionReceipt
  tx_reservation_summary :: "(LogicalPartitionId, ReservationRecord) bmap"
  tx_declared_write_set :: "(OutputRef, StagedWrite) bmap"
  tx_executed_operations :: "ExecutedOperationRecord list"
  tx_synchronization_events :: "OperationEvent bset"
  tx_decision :: TransactionDecision
  tx_publish_summary :: "PublishSummary option"
  tx_teardown :: TeardownFacts
  tx_timings :: TransactionTimings
  tx_selected_transports :: "TransportReceipt option"

section \<open>The transaction\<close>

record ExecutionTransaction =
  et_id :: TransactionId
  et_bound_plan :: BoundDistributedPlan
  et_operations :: "TransactionOperation list"
  et_commit_boundary :: TransactionCommitBoundary
  et_operation_keys :: "(OperationRef, nat) bmap"
  et_state :: TransactionState
  et_reservation :: "(LogicalPartitionId, ReservationRecord) bmap option"
  et_declared_write_set :: "(OutputRef, StagedWrite) bmap"
  et_staged_write_set :: "(OutputRef, StagedWrite) bmap"
  et_executed_operations :: "ExecutedOperationRecord list"
  et_completed_events :: "OperationEvent bset"
  et_failure :: "TransactionFailure option"
  et_decision :: "TransactionDecision option"
  et_publish_summary :: "PublishSummary option"
  et_teardown :: TeardownFacts
  et_timings :: TransactionTimings
  et_transport_receipt :: "TransportReceipt option"
  et_receipt :: "TransactionReceipt option"

definition ExecutionTransaction_new ::
    "TransactionId \<Rightarrow> BoundDistributedPlan \<Rightarrow> TransactionOperation list \<Rightarrow>
       TransactionCommitBoundary \<Rightarrow> (ExecutionTransaction, ConstructError) result" where
  "ExecutionTransaction_new i bound_plan operations commit_boundary =
     (if is_degenerate bound_plan then Err DegeneratePlan
      else if operations = [] then Err EmptySnapshot
      else Ok
        \<lparr>et_id = i, et_bound_plan = bound_plan, et_operations = operations,
         et_commit_boundary = commit_boundary, et_operation_keys = [], et_state = New,
         et_reservation = None, et_declared_write_set = [], et_staged_write_set = [],
         et_executed_operations = [], et_completed_events = [], et_failure = None,
         et_decision = None, et_publish_summary = None, et_teardown = TeardownFacts_default,
         et_timings = \<lparr>tt_prepare_nanos = 0, tt_execute_nanos = 0, tt_finalize_nanos = 0\<rparr>,
         et_transport_receipt = None, et_receipt = None\<rparr>)"

definition with_transport_receipt ::
    "TransportReceipt \<Rightarrow> ExecutionTransaction \<Rightarrow> ExecutionTransaction" where
  "with_transport_receipt r tx = tx\<lparr>et_transport_receipt := Some r\<rparr>"

section \<open>prepare\<close>

fun is_barrier :: "BarrierRef \<Rightarrow> TransactionOperation \<Rightarrow> bool" where
  "is_barrier r (Barrier b _) \<longleftrightarrow> b = r"
| "is_barrier r _ \<longleftrightarrow> False"

fun is_launch :: "LaunchRef \<Rightarrow> TransactionOperation \<Rightarrow> bool" where
  "is_launch r (Launch _ l _) \<longleftrightarrow> l = r"
| "is_launch r _ \<longleftrightarrow> False"

definition check_topology ::
    "LogicalPartitionId bset \<Rightarrow> TransactionOperation list \<Rightarrow> PrepareError option" where
  "check_topology declared operations =
     first_some (\<lambda>(index, op).
         first_some (\<lambda>p. if \<not> List.member declared p then Some (UnknownPartition p index) else None)
           (op_partitions op))
       (List.enumerate 0 operations)"

fun collect_operation_keys ::
    "(nat \<times> TransactionOperation) list \<Rightarrow> (OperationRef, nat) bmap \<Rightarrow>
       ((OperationRef, nat) bmap, PrepareError) result" where
  "collect_operation_keys [] keys = Ok keys"
| "collect_operation_keys ((index, op) # rest) keys =
     (let key = operation_ref op in
      case bmap_get keys key of
        Some _ \<Rightarrow> Err (DuplicateOperation key)
      | None \<Rightarrow> collect_operation_keys rest (bmap_insert key index keys))"

definition check_boundary_declared ::
    "TransactionCommitBoundary \<Rightarrow> TransactionOperation list \<Rightarrow> PrepareError option" where
  "check_boundary_declared boundary operations =
     (case first_some (\<lambda>b. if \<not> list_ex (is_barrier b) operations
              then Some (UndeclaredBoundaryBarrier b) else None) (cb_barriers boundary) of
        Some e \<Rightarrow> Some e
      | None \<Rightarrow>
          first_some (\<lambda>l. if \<not> list_ex (is_launch l) operations
              then Some (UndeclaredBoundaryLaunch l) else None) (cb_launches boundary))"

text \<open>The two loops over bindings; the outer \<^const>\<open>None\<close> is the panic of \<open>expect\<close>.\<close>

fun check_admitted_budgets ::
    "Bindings \<Rightarrow> LogicalPartitionId list \<Rightarrow> PrepareError option option" where
  "check_admitted_budgets bindings [] = Some None"
| "check_admitted_budgets bindings (p # ps) =
     (case bmap_get bindings p of
        None \<Rightarrow> None
      | Some b \<Rightarrow>
          if pb_virtual b = None then Some (Some (MissingAdmittedBudget p))
          else check_admitted_budgets bindings ps)"

fun check_reservation ::
    "Bindings \<Rightarrow> (LogicalPartitionId \<times> ReservationRecord) list \<Rightarrow> PrepareError option option" where
  "check_reservation bindings [] = Some None"
| "check_reservation bindings ((p, rec) # rest) =
     (case bmap_get bindings p of
        None \<Rightarrow> None
      | Some b \<Rightarrow>
        (case pb_virtual b of
           None \<Rightarrow> None
         | Some v \<Rightarrow>
             let ledger = vp_ledger v;
                 class_six = class_six_bytes rec;
                 class_three = class_three_bytes rec
             in if transfer_staging_bytes ledger < class_six then
                  Some (Some (ReservationExceedsBudget p TransferStaging class_six
                    (transfer_staging_bytes ledger)))
                else if activation_scratch_bytes ledger < class_three then
                  Some (Some (ReservationExceedsBudget p ActivationScratch class_three
                    (activation_scratch_bytes ledger)))
                else check_reservation bindings rest))"

fun reserve_all ::
    "'b DeviceExecutionBackend \<Rightarrow> (LogicalPartitionId \<times> ReservationRecord) list \<Rightarrow> 'b \<Rightarrow>
       BackendError option \<times> 'b" where
  "reserve_all be [] b = (None, b)"
| "reserve_all be ((p, rec) # rest) b =
     (case be_reserve be p rec b of
        (Some e, b) \<Rightarrow> (Some e, b)
      | (None, b) \<Rightarrow> reserve_all be rest b)"

definition referenced_partitions :: "TransactionOperation list \<Rightarrow> LogicalPartitionId bset" where
  "referenced_partitions operations = bset_of_list (concat (map op_partitions operations))"

definition prepare ::
    "'b DeviceExecutionBackend \<Rightarrow> nat \<Rightarrow> ExecutionTransaction \<Rightarrow> 'b \<Rightarrow>
       (PrepareError option \<times> ExecutionTransaction \<times> 'b) option" where
  "prepare be elapsed tx b =
     (if et_state tx \<noteq> New then Some (Some (PrepareInvalidState (et_state tx)), tx, b)
      else case plan_bindings (et_bound_plan tx) of
        None \<Rightarrow> None
      | Some bindings \<Rightarrow>
      let declared_partitions = bset_of_list (bmap_keys bindings) in
      case check_topology declared_partitions (et_operations tx) of
        Some e \<Rightarrow> Some (Some e, tx, b)
      | None \<Rightarrow>
      case collect_operation_keys (List.enumerate 0 (et_operations tx)) [] of
        Err e \<Rightarrow> Some (Some e, tx, b)
      | Ok operation_keys \<Rightarrow>
      case check_boundary_declared (et_commit_boundary tx) (et_operations tx) of
        Some e \<Rightarrow> Some (Some e, tx, b)
      | None \<Rightarrow>
      let referenced = referenced_partitions (et_operations tx) in
      case check_admitted_budgets bindings referenced of
        None \<Rightarrow> None
      | Some (Some e) \<Rightarrow> Some (Some e, tx, b)
      | Some None \<Rightarrow>
      let reservation = derive_reservation (et_operations tx) referenced in
      case check_reservation bindings reservation of
        None \<Rightarrow> None
      | Some (Some e) \<Rightarrow> Some (Some e, tx, b)
      | Some None \<Rightarrow>
      case reserve_all be reservation b of
        (Some e, b) \<Rightarrow> Some (Some (PrepareBackend e), tx, b)
      | (None, b) \<Rightarrow>
          Some (None,
            tx\<lparr>et_operation_keys := operation_keys,
               et_reservation := Some reservation,
               et_declared_write_set := derive_declared_write_set (et_operations tx),
               et_timings := (et_timings tx)\<lparr>tt_prepare_nanos := duration_as_nanos_u64 elapsed\<rparr>,
               et_state := Prepared\<rparr>, b))"

section \<open>execute\<close>

definition tx_fail :: "TransactionFailure \<Rightarrow> ExecutionTransaction \<Rightarrow> ExecutionTransaction" where
  "tx_fail failure tx =
     (case et_state tx of
        New \<Rightarrow> tx\<lparr>et_failure := Some failure, et_state := Failed failure\<rparr>
      | Prepared \<Rightarrow> tx\<lparr>et_failure := Some failure, et_state := Failed failure\<rparr>
      | Executing \<Rightarrow> tx\<lparr>et_failure := Some failure, et_state := Failed failure\<rparr>
      | _ \<Rightarrow> tx)"

text \<open>The staging loop of \<open>execute_operation\<close>: stops at the first write the backend refuses.\<close>

fun stage_writes ::
    "'b DeviceExecutionBackend \<Rightarrow> StagedWrite list \<Rightarrow> ExecutionTransaction \<Rightarrow> 'b \<Rightarrow>
       BackendError option \<times> ExecutionTransaction \<times> 'b" where
  "stage_writes be [] tx b = (None, tx, b)"
| "stage_writes be (w # ws) tx b =
     (case be_stage_write be w b of
        (Some e, b) \<Rightarrow> (Some e, tx_fail (BackendFailure e) tx, b)
      | (None, b) \<Rightarrow>
          stage_writes be ws
            (tx\<lparr>et_staged_write_set := bmap_insert (sw_output_ref w) w (et_staged_write_set tx)\<rparr>) b)"

definition record_events ::
    "'b DeviceExecutionBackend \<Rightarrow> 'b \<Rightarrow> OperationEvent list \<Rightarrow> ExecutionTransaction \<Rightarrow> ExecutionTransaction" where
  "record_events be b es tx =
     fold (\<lambda>e tx. if be_event_completed be b e
                  then tx\<lparr>et_completed_events := bset_insert e (et_completed_events tx)\<rparr> else tx) es tx"

definition execute_operation ::
    "'b DeviceExecutionBackend \<Rightarrow> TransactionOperation \<Rightarrow> ExecutionTransaction \<Rightarrow> 'b \<Rightarrow>
       (ExecuteError option \<times> ExecutionTransaction \<times> 'b) option" where
  "execute_operation be op tx b =
     (if et_state tx \<noteq> Executing then Some (Some (ExecuteInvalidState (et_state tx)), tx, b)
      else let key = operation_ref op in
      case bmap_get (et_operation_keys tx) key of
        None \<Rightarrow> Some (Some (OperationOutsideSnapshot key), tx, b)
      | Some index \<Rightarrow>
      if \<not> index < length (et_operations tx) then None
      else if et_operations tx ! index \<noteq> op then Some (Some (OperationOutsideSnapshot key), tx, b)
      else case be_run_operation be op b of
        (Some e, b) \<Rightarrow> Some (Some (ExecuteBackend e), tx_fail (BackendFailure e) tx, b)
      | (None, b) \<Rightarrow>
      (case stage_writes be (op_staged_writes op) tx b of
        (Some e, tx, b) \<Rightarrow> Some (Some (ExecuteBackend e), tx, b)
      | (None, tx, b) \<Rightarrow>
          let tx = tx\<lparr>et_executed_operations := et_executed_operations tx @
                [\<lparr>eo_operation = op, eo_byte_count = op_byte_count op\<rparr>]\<rparr>
          in Some (None, record_events be b (op_completed_events op) tx, b)))"

fun execute_all ::
    "'b DeviceExecutionBackend \<Rightarrow> TransactionOperation list \<Rightarrow> ExecutionTransaction \<Rightarrow> 'b \<Rightarrow>
       (ExecuteError option \<times> ExecutionTransaction \<times> 'b) option" where
  "execute_all be [] tx b = Some (None, tx, b)"
| "execute_all be (op # ops) tx b =
     (case execute_operation be op tx b of
        None \<Rightarrow> None
      | Some (Some e, tx, b) \<Rightarrow> Some (Some e, tx, b)
      | Some (None, tx, b) \<Rightarrow> execute_all be ops tx b)"

definition execute ::
    "'b DeviceExecutionBackend \<Rightarrow> nat \<Rightarrow> ExecutionTransaction \<Rightarrow> 'b \<Rightarrow>
       (ExecuteError option \<times> ExecutionTransaction \<times> 'b) option" where
  "execute be elapsed tx b =
     (if et_state tx \<noteq> Prepared then Some (Some (ExecuteInvalidState (et_state tx)), tx, b)
      else let tx = tx\<lparr>et_state := Executing\<rparr>; snapshot = et_operations tx in
        map_option (\<lambda>(r, tx, b).
            (r, tx\<lparr>et_timings := (et_timings tx)\<lparr>tt_execute_nanos := duration_as_nanos_u64 elapsed\<rparr>\<rparr>, b))
          (execute_all be snapshot tx b))"

section \<open>commit and abort\<close>

definition refresh_completed_events ::
    "'b DeviceExecutionBackend \<Rightarrow> 'b \<Rightarrow> ExecutionTransaction \<Rightarrow> ExecutionTransaction" where
  "refresh_completed_events be b tx =
     fold (\<lambda>op tx. record_events be b (op_completed_events op) tx) (et_operations tx) tx"

definition missing_barrier :: "ExecutionTransaction \<Rightarrow> BarrierRef \<Rightarrow> BoundaryRef bset \<Rightarrow> BoundaryRef bset" where
  "missing_barrier tx r missing =
     (case List.find (is_barrier r) (et_operations tx) of
        None \<Rightarrow> bset_insert (BoundaryBarrier r) missing
      | Some op \<Rightarrow>
          fold (\<lambda>p missing. if \<not> List.member (et_completed_events tx) (BarrierCompleted p r)
                            then bset_insert (BoundaryBarrier r) missing else missing)
            (op_partitions op) missing)"

definition missing_launch :: "ExecutionTransaction \<Rightarrow> LaunchRef \<Rightarrow> BoundaryRef bset \<Rightarrow> BoundaryRef bset" where
  "missing_launch tx r missing =
     (case List.find (is_launch r) (et_operations tx) of
        None \<Rightarrow> bset_insert (BoundaryLaunch r) missing
      | Some op \<Rightarrow>
          fold (\<lambda>p missing. if \<not> List.member (et_completed_events tx) (LaunchCompleted p r)
                            then bset_insert (BoundaryLaunch r) missing else missing)
            (op_partitions op) missing)"

definition missing_boundary_refs :: "ExecutionTransaction \<Rightarrow> BoundaryRef bset" where
  "missing_boundary_refs tx =
     (let missing = fold (missing_barrier tx) (cb_barriers (et_commit_boundary tx)) []
      in fold (missing_launch tx) (cb_launches (et_commit_boundary tx)) missing)"

definition build_receipt :: "ExecutionTransaction \<Rightarrow> TransactionReceipt option" where
  "build_receipt tx =
     (case et_decision tx of
        None \<Rightarrow> None
      | Some decision \<Rightarrow> Some
          \<lparr>tx_transaction_id = et_id tx,
           tx_logical_hash = bdp_logical_hash (et_bound_plan tx),
           tx_bound_hash = bdp_bound_hash (et_bound_plan tx),
           tx_plan_receipt = plan_receipt (et_bound_plan tx),
           tx_reservation_summary = (case et_reservation tx of Some r \<Rightarrow> r | None \<Rightarrow> []),
           tx_declared_write_set = et_declared_write_set tx,
           tx_executed_operations = et_executed_operations tx,
           tx_synchronization_events = et_completed_events tx,
           tx_decision = decision,
           tx_publish_summary = et_publish_summary tx,
           tx_teardown = et_teardown tx,
           tx_timings = et_timings tx,
           tx_selected_transports = et_transport_receipt tx\<rparr>)"

text \<open>The derived \<open>Debug\<close> of \<open>BackendError\<close>; \<open>dbg\<close> is the standard library's quoting of a string.\<close>

definition debug_fields :: "(string \<Rightarrow> string) \<Rightarrow> string \<Rightarrow> LogicalPartitionId \<Rightarrow> string \<Rightarrow> string" where
  "debug_fields dbg variant p detail =
     variant @ '' { partition: LogicalPartitionId('' @ dbg (lp_str p) @ ''), detail: '' @
     dbg detail @ '' }''"

fun debug_backend_error :: "(string \<Rightarrow> string) \<Rightarrow> BackendError \<Rightarrow> string" where
  "debug_backend_error dbg (Allocation p d) = debug_fields dbg ''Allocation'' p d"
| "debug_backend_error dbg (Operation p d) = debug_fields dbg ''Operation'' p d"
| "debug_backend_error dbg (DeviceLoss p d) = debug_fields dbg ''DeviceLoss'' p d"
| "debug_backend_error dbg (BackendCancelled p d) = debug_fields dbg ''Cancelled'' p d"
| "debug_backend_error dbg (Timeout p d) = debug_fields dbg ''Timeout'' p d"

definition reserved_partitions :: "ExecutionTransaction \<Rightarrow> LogicalPartitionId bset" where
  "reserved_partitions tx =
     (case et_reservation tx of Some r \<Rightarrow> bset_of_list (bmap_keys r) | None \<Rightarrow> [])"

definition commit ::
    "(string \<Rightarrow> string) \<Rightarrow> 'b DeviceExecutionBackend \<Rightarrow> PublicationOrdinal \<Rightarrow> nat \<Rightarrow>
       ExecutionTransaction \<Rightarrow> 'b \<Rightarrow>
       ((TransactionReceipt, CommitError) result \<times> ExecutionTransaction \<times> 'b) option" where
  "commit dbg be ordinal elapsed tx b =
     (if et_state tx \<noteq> Executing then Some (Err (CommitInvalidState (et_state tx)), tx, b)
      else let tx = refresh_completed_events be b tx;
               missing = missing_boundary_refs tx
      in if missing \<noteq> [] then Some (Err (BoundaryNotReached missing), tx, b)
      else case be_publish be b of
        (Some e, b) \<Rightarrow>
          Some (Err (CommitPublishFailed e), tx_fail (PublishFailed (debug_backend_error dbg e)) tx, b)
      | (None, b) \<Rightarrow>
          let reserved = reserved_partitions tx;
              b = fold (be_release be) reserved b;
              tx = tx\<lparr>et_teardown := (et_teardown tx)
                \<lparr>td_released_partitions := bset_extend reserved (td_released_partitions (et_teardown tx))\<rparr>\<rparr>;
              tx = tx\<lparr>et_publish_summary := Some
                \<lparr>ps_staged_bytes = be_staged_bytes be b, ps_published_bytes = be_published_bytes be b,
                 ps_atomic = True\<rparr>\<rparr>;
              tx = tx\<lparr>et_decision := Some (DecisionCommitted ordinal)\<rparr>;
              tx = tx\<lparr>et_state := Committed\<rparr>;
              tx = tx\<lparr>et_timings := (et_timings tx)\<lparr>tt_finalize_nanos := duration_as_nanos_u64 elapsed\<rparr>\<rparr>
          in map_option (\<lambda>receipt. (Ok receipt, tx\<lparr>et_receipt := Some receipt\<rparr>, b)) (build_receipt tx))"

definition abort ::
    "'b DeviceExecutionBackend \<Rightarrow> string \<Rightarrow> nat \<Rightarrow> ExecutionTransaction \<Rightarrow> 'b \<Rightarrow>
       ((TransactionReceipt, AbortError) result \<times> ExecutionTransaction \<times> 'b) option" where
  "abort be reason elapsed tx b =
     (if (case et_state tx of Aborted _ \<Rightarrow> True | _ \<Rightarrow> False) then
        map_option (\<lambda>receipt. (Ok receipt, tx, b)) (et_receipt tx)
      else if et_state tx = Committed then Some (Err AlreadyCommitted, tx, b)
      else let staged_partitions = bset_of_list (map sw_partition (bmap_values (et_staged_write_set tx)));
               reserved = reserved_partitions tx;
               failure = (case et_state tx of Failed failure \<Rightarrow> failure | _ \<Rightarrow> Cancelled reason);
               b = fold (\<lambda>p. be_retire be p failure) staged_partitions b;
               b = fold (be_release be) (bset_difference reserved staged_partitions) b;
               tx = tx\<lparr>et_teardown := (et_teardown tx)
                 \<lparr>td_retired_partitions :=
                    bset_extend staged_partitions (td_retired_partitions (et_teardown tx)),
                  td_released_partitions :=
                    bset_extend (bset_difference reserved staged_partitions)
                      (td_released_partitions (et_teardown tx))\<rparr>\<rparr>;
               tx = tx\<lparr>et_failure := Some failure\<rparr>;
               tx = tx\<lparr>et_state := Aborted failure\<rparr>;
               tx = tx\<lparr>et_decision := Some (DecisionAborted failure)\<rparr>;
               tx = tx\<lparr>et_timings := (et_timings tx)\<lparr>tt_finalize_nanos := duration_as_nanos_u64 elapsed\<rparr>\<rparr>
           in map_option (\<lambda>receipt. (Ok receipt, tx\<lparr>et_receipt := Some receipt\<rparr>, b)) (build_receipt tx))"

section \<open>The gates of prepare\<close>

lemma check_topology_None_iff:
  "check_topology declared ops = None \<longleftrightarrow> (\<forall>op\<in>set ops. set (op_partitions op) \<subseteq> set declared)"
proof -
  have "check_topology declared ops = None \<longleftrightarrow>
      (\<forall>x\<in>set (List.enumerate 0 ops). set (op_partitions (snd x)) \<subseteq> set declared)"
    by (force simp: check_topology_def first_some_None_iff case_prod_unfold)
  also have "\<dots> \<longleftrightarrow> (\<forall>op\<in>snd ` set (List.enumerate 0 ops). set (op_partitions op) \<subseteq> set declared)"
    by blast
  also have "snd ` set (List.enumerate 0 ops) = set ops"
    by (metis list.set_map map_snd_enumerate)
  finally show ?thesis .
qed

lemma check_topology_SomeD:
  "check_topology declared ops = Some e \<Longrightarrow>
     \<exists>i p. e = UnknownPartition p i \<and> i < length ops \<and> p \<in> set (op_partitions (ops ! i)) \<and> p \<notin> set declared"
  unfolding check_topology_def
  by (drule first_some_SomeD)
     (force simp: in_set_enumerate_eq dest!: first_some_SomeD split: if_splits)

lemma check_boundary_None_iff:
  "check_boundary_declared bd ops = None \<longleftrightarrow>
     (\<forall>r\<in>set (cb_barriers bd). \<exists>op\<in>set ops. is_barrier r op) \<and>
     (\<forall>r\<in>set (cb_launches bd). \<exists>op\<in>set ops. is_launch r op)"
proof -
  let ?fb = "first_some (\<lambda>b. if \<not> list_ex (is_barrier b) ops
      then Some (UndeclaredBoundaryBarrier b) else None) (cb_barriers bd)"
  let ?fl = "first_some (\<lambda>l. if \<not> list_ex (is_launch l) ops
      then Some (UndeclaredBoundaryLaunch l) else None) (cb_launches bd)"
  have b: "?fb = None \<longleftrightarrow> (\<forall>r\<in>set (cb_barriers bd). \<exists>op\<in>set ops. is_barrier r op)"
    by (auto simp: first_some_None_iff list_ex_iff)
  have l: "?fl = None \<longleftrightarrow> (\<forall>r\<in>set (cb_launches bd). \<exists>op\<in>set ops. is_launch r op)"
    by (auto simp: first_some_None_iff list_ex_iff)
  have "check_boundary_declared bd ops = None \<longleftrightarrow> ?fb = None \<and> ?fl = None"
    unfolding check_boundary_declared_def by (cases ?fb) simp_all
  then show ?thesis
    unfolding b l .
qed

text \<open>The key table maps every operation's reference to its index.\<close>

definition keys_ok :: "(OperationRef, nat) bmap \<Rightarrow> TransactionOperation list \<Rightarrow> bool" where
  "keys_ok keys ops \<longleftrightarrow>
     bmap_ok keys \<and>
     (\<forall>k i. bmap_get keys k = Some i \<longleftrightarrow> i < length ops \<and> operation_ref (ops ! i) = k)"

lemma collect_keys_Ok:
  "bmap_ok keys \<Longrightarrow> distinct (map fst xs) \<Longrightarrow> collect_operation_keys xs keys = Ok keys' \<Longrightarrow>
     bmap_ok keys' \<and> distinct (map (operation_ref \<circ> snd) xs) \<and>
     (\<forall>k i. bmap_get keys' k = Some i \<longleftrightarrow>
        bmap_get keys k = Some i \<or> (\<exists>op. (i, op) \<in> set xs \<and> operation_ref op = k)) \<and>
     (\<forall>x\<in>set xs. bmap_get keys (operation_ref (snd x)) = None)"
proof (induction xs arbitrary: keys)
  case Nil
  then show ?case by simp
next
  case (Cons x xs)
  obtain i op where x: "x = (i, op)" by (cases x)
  let ?keys = "bmap_insert (operation_ref op) i keys"
  from Cons.prems x have fresh: "bmap_get keys (operation_ref op) = None"
      and rest: "collect_operation_keys xs ?keys = Ok keys'"
    by (auto simp: Let_def split: option.splits)
  have ok: "bmap_ok ?keys" using Cons.prems(1) by simp
  note IH = Cons.IH [OF ok _ rest]
  from Cons.prems(2) x have d: "distinct (map fst xs)" by simp
  from IH [OF d] have ih: "bmap_ok keys'" "distinct (map (operation_ref \<circ> snd) xs)"
      "\<And>k j. bmap_get keys' k = Some j \<longleftrightarrow>
        bmap_get ?keys k = Some j \<or> (\<exists>op. (j, op) \<in> set xs \<and> operation_ref op = k)"
      "\<And>y. y \<in> set xs \<Longrightarrow> bmap_get ?keys (operation_ref (snd y)) = None"
    by blast+
  have new: "operation_ref (snd y) \<noteq> operation_ref op \<and> bmap_get keys (operation_ref (snd y)) = None"
    if "y \<in> set xs" for y
    using ih(4) [OF that] Cons.prems(1) by (auto split: if_splits)
  have get: "bmap_get keys' k = Some j \<longleftrightarrow>
      bmap_get keys k = Some j \<or> (\<exists>op'. (j, op') \<in> set (x # xs) \<and> operation_ref op' = k)" for k j
    using ih(3) [of k j] Cons.prems(1) fresh x by auto
  have "operation_ref op \<notin> (operation_ref \<circ> snd) ` set xs"
    using new by fastforce
  with ih(1,2) get new fresh x show ?case by (auto simp: comp_def)
qed

lemma collect_keys_total:
  "bmap_ok keys \<Longrightarrow> distinct (map (operation_ref \<circ> snd) xs) \<Longrightarrow>
     (\<forall>x\<in>set xs. bmap_get keys (operation_ref (snd x)) = None) \<Longrightarrow>
     \<exists>keys'. collect_operation_keys xs keys = Ok keys'"
proof (induction xs arbitrary: keys)
  case (Cons x xs)
  obtain i op where x: "x = (i, op)" by (cases x)
  have "\<forall>y\<in>set xs. bmap_get (bmap_insert (operation_ref op) i keys) (operation_ref (snd y)) = None"
    using Cons.prems x by force
  with Cons.IH [of "bmap_insert (operation_ref op) i keys"] Cons.prems x show ?case
    by (simp add: Let_def)
qed simp

lemma collect_keys_Err:
  "collect_operation_keys xs keys = Err e \<Longrightarrow> \<exists>k. e = DuplicateOperation k"
  by (induction xs keys rule: collect_operation_keys.induct)
     (auto simp: Let_def split: option.splits)

lemma collect_snapshot_keys:
  assumes "collect_operation_keys (List.enumerate 0 ops) [] = Ok keys"
  shows "keys_ok keys ops" "distinct (map operation_ref ops)"
proof -
  have "distinct (map fst (List.enumerate 0 ops))"
    by (metis distinct_upt map_fst_enumerate)
  from collect_keys_Ok [OF _ this assms]
  have *: "bmap_ok keys" "distinct (map (operation_ref \<circ> snd) (List.enumerate 0 ops))"
    "\<And>k i. bmap_get keys k = Some i \<longleftrightarrow> (\<exists>op. (i, op) \<in> set (List.enumerate 0 ops) \<and> operation_ref op = k)"
    by auto
  then show "keys_ok keys ops"
    by (auto simp: keys_ok_def in_set_enumerate_eq)
  from *(2) show "distinct (map operation_ref ops)"
    by (metis map_map map_snd_enumerate)
qed

lemma check_budgets_total:
  "\<forall>p\<in>set ps. bmap_get bs p \<noteq> None \<Longrightarrow>
     \<exists>r. check_admitted_budgets bs ps = Some r \<and>
       (r = None \<longleftrightarrow> (\<forall>p\<in>set ps. \<exists>x v. bmap_get bs p = Some x \<and> pb_virtual x = Some v)) \<and>
       (\<forall>e. r = Some e \<longrightarrow> (\<exists>p. e = MissingAdmittedBudget p))"
proof (induction ps)
  case (Cons p ps)
  then obtain x where "bmap_get bs p = Some x" by auto
  with Cons show ?case by (cases "pb_virtual x") auto
qed simp

text \<open>The reservation fits the admitted ledger of the partition's binding.\<close>

definition reservation_fits :: "Bindings \<Rightarrow> LogicalPartitionId \<Rightarrow> ReservationRecord \<Rightarrow> bool" where
  "reservation_fits bs p rec \<longleftrightarrow>
     (\<exists>x v. bmap_get bs p = Some x \<and> pb_virtual x = Some v \<and>
        class_six_bytes rec \<le> transfer_staging_bytes (vp_ledger v) \<and>
        class_three_bytes rec \<le> activation_scratch_bytes (vp_ledger v))"

lemma check_reservation_total:
  "\<forall>q\<in>set rs. \<exists>x v. bmap_get bs (fst q) = Some x \<and> pb_virtual x = Some v \<Longrightarrow>
     \<exists>r. check_reservation bs rs = Some r \<and>
       (r = None \<longleftrightarrow> (\<forall>q\<in>set rs. reservation_fits bs (fst q) (snd q))) \<and>
       (\<forall>e. r = Some e \<longrightarrow> (\<exists>p c d a. e = ReservationExceedsBudget p c d a))"
proof (induction rs)
  case (Cons q rs)
  obtain p rec where q: "q = (p, rec)" by (cases q)
  from Cons.prems q obtain x v where "bmap_get bs p = Some x" "pb_virtual x = Some v" by auto
  with Cons q show ?case
    by (auto simp: Let_def reservation_fits_def not_less)
qed simp

section \<open>The accepted plan\<close>

text \<open>Everything the five gates of \<open>prepare\<close> demand of the plan.\<close>

definition accepted_plan :: "ExecutionTransaction \<Rightarrow> bool" where
  "accepted_plan tx \<longleftrightarrow>
     (\<exists>bs. plan_bindings (et_bound_plan tx) = Some bs \<and>
       (\<forall>op\<in>set (et_operations tx). set (op_partitions op) \<subseteq> set (bmap_keys bs)) \<and>
       distinct (map operation_ref (et_operations tx)) \<and>
       (\<forall>r\<in>set (cb_barriers (et_commit_boundary tx)). \<exists>op\<in>set (et_operations tx). is_barrier r op) \<and>
       (\<forall>r\<in>set (cb_launches (et_commit_boundary tx)). \<exists>op\<in>set (et_operations tx). is_launch r op) \<and>
       (\<forall>q\<in>set (derive_reservation (et_operations tx) (referenced_partitions (et_operations tx))).
          reservation_fits bs (fst q) (snd q)))"

definition tx_reservation :: "ExecutionTransaction \<Rightarrow> (LogicalPartitionId, ReservationRecord) bmap" where
  "tx_reservation tx = derive_reservation (et_operations tx) (referenced_partitions (et_operations tx))"

definition prepared :: "nat \<Rightarrow> (OperationRef, nat) bmap \<Rightarrow> ExecutionTransaction \<Rightarrow> ExecutionTransaction" where
  "prepared elapsed keys tx =
     tx\<lparr>et_operation_keys := keys, et_reservation := Some (tx_reservation tx),
        et_declared_write_set := derive_declared_write_set (et_operations tx),
        et_timings := (et_timings tx)\<lparr>tt_prepare_nanos := duration_as_nanos_u64 elapsed\<rparr>,
        et_state := Prepared\<rparr>"

lemma set_referenced: "set (referenced_partitions ops) = (\<Union>op\<in>set ops. set (op_partitions op))"
  by (simp add: referenced_partitions_def)

lemma reservation_keys: "bmap_keys (derive_reservation ops ps) = ps"
  by (simp add: derive_reservation_def Let_def comp_def)

text \<open>A reservation check that passed the budget check before it never panics.\<close>

lemma prepare_cases:
  assumes new: "et_state tx = New" and bs: "plan_bindings (et_bound_plan tx) = Some bs"
  shows "(accepted_plan tx \<and>
            (\<exists>keys. keys_ok keys (et_operations tx) \<and>
               prepare be elapsed tx b =
                 (case reserve_all be (tx_reservation tx) b of
                    (Some e, b') \<Rightarrow> Some (Some (PrepareBackend e), tx, b')
                  | (None, b') \<Rightarrow> Some (None, prepared elapsed keys tx, b')))) \<or>
         (\<not> accepted_plan tx \<and> (\<exists>e. prepare be elapsed tx b = Some (Some e, tx, b) \<and>
            (\<forall>d. e \<noteq> PrepareBackend d)))"
proof -
  let ?ops = "et_operations tx"
  let ?refd = "referenced_partitions ?ops"
  let ?acc = "accepted_plan tx"
  have acc: "?acc \<longleftrightarrow>
       (\<forall>op\<in>set ?ops. set (op_partitions op) \<subseteq> set (bmap_keys bs)) \<and>
       distinct (map operation_ref ?ops) \<and>
       check_boundary_declared (et_commit_boundary tx) ?ops = None \<and>
       (\<forall>q\<in>set (tx_reservation tx). reservation_fits bs (fst q) (snd q))"
    using bs by (auto simp: accepted_plan_def check_boundary_None_iff tx_reservation_def)
  note p = prepare_def Let_def new bs tx_reservation_def [symmetric]
  show ?thesis
  proof (cases "check_topology (bset_of_list (bmap_keys bs)) ?ops")
    case (Some e)
    from check_topology_SomeD [OF this] Some have "\<not> ?acc" "\<forall>d. e \<noteq> PrepareBackend d"
      unfolding acc using check_topology_None_iff [of "bset_of_list (bmap_keys bs)" ?ops] by auto
    with Some show ?thesis by (simp add: p)
  next
    case topo: None
    then have declared: "\<forall>op\<in>set ?ops. set (op_partitions op) \<subseteq> set (bmap_keys bs)"
      by (simp add: check_topology_None_iff)
    show ?thesis
    proof (cases "collect_operation_keys (List.enumerate 0 ?ops) []")
      case (Err e)
      have "\<not> distinct (map operation_ref ?ops)"
        using collect_keys_total [of "[]" "List.enumerate 0 ?ops"] Err
        by (auto simp flip: map_map simp: map_snd_enumerate)
      with collect_keys_Err [OF Err] topo Err show ?thesis
        unfolding acc by (auto simp: p)
    next
      case (Ok keys)
      note keys = collect_snapshot_keys [OF Ok]
      show ?thesis
      proof (cases "check_boundary_declared (et_commit_boundary tx) ?ops")
        case (Some e)
        then have "\<forall>d. e \<noteq> PrepareBackend d"
          by (auto simp: check_boundary_declared_def dest!: first_some_SomeD
              split: option.splits if_splits)
        with Some topo Ok show ?thesis
          unfolding acc by (simp add: p)
      next
        case bd: None
        have "\<forall>q\<in>set ?refd. bmap_get bs q \<noteq> None"
          using declared by (auto simp: set_referenced map_of_eq_None_iff)
        from check_budgets_total [OF this] obtain r where
          r: "check_admitted_budgets bs ?refd = Some r"
            "r = None \<longleftrightarrow> (\<forall>q\<in>set ?refd. \<exists>x v. bmap_get bs q = Some x \<and> pb_virtual x = Some v)"
            "\<forall>e. r = Some e \<longrightarrow> (\<exists>p. e = MissingAdmittedBudget p)" by blast
        have refd: "fst ` set (tx_reservation tx) = set ?refd"
          by (metis list.set_map reservation_keys tx_reservation_def)
        show ?thesis
        proof (cases r)
          case (Some e)
          then obtain q where q: "q \<in> set ?refd"
              "\<nexists>x v. bmap_get bs q = Some x \<and> pb_virtual x = Some v"
            using r(2) by blast
          then obtain y where "y \<in> set (tx_reservation tx)" "fst y = q"
            using refd by (metis imageE)
          with q(2) have "\<not> ?acc"
            unfolding acc reservation_fits_def by blast
          with Some r topo Ok bd show ?thesis by (auto simp: p)
        next
          case vp: None
          then have "\<forall>q\<in>set (tx_reservation tx). \<exists>x v. bmap_get bs (fst q) = Some x \<and> pb_virtual x = Some v"
            using r(2) refd by blast
          from check_reservation_total [OF this] obtain s where
            s: "check_reservation bs (tx_reservation tx) = Some s"
              "s = None \<longleftrightarrow> (\<forall>q\<in>set (tx_reservation tx). reservation_fits bs (fst q) (snd q))"
              "\<forall>e. s = Some e \<longrightarrow> (\<exists>p c d a. e = ReservationExceedsBudget p c d a)" by blast
          show ?thesis
          proof (cases s)
            case (Some e)
            with s(2) have "\<not> ?acc" unfolding acc by blast
            with Some s topo Ok bd r(1) vp show ?thesis by (auto simp: p)
          next
            case None
            with s(2) declared keys(2) bd have ?acc unfolding acc by blast
            with None s(1) topo Ok bd r(1) vp keys(1) show ?thesis
              by (intro disjI1 conjI exI [of _ keys])
                 (auto simp: p prepared_def split: prod.split option.split)
          qed
        qed
      qed
    qed
  qed
qed

section \<open>What execute changes\<close>

text \<open>The fields no execution step touches.\<close>

definition same_accepted :: "ExecutionTransaction \<Rightarrow> ExecutionTransaction \<Rightarrow> bool" where
  "same_accepted tx tx' \<longleftrightarrow>
     et_id tx' = et_id tx \<and> et_bound_plan tx' = et_bound_plan tx \<and>
     et_operations tx' = et_operations tx \<and> et_commit_boundary tx' = et_commit_boundary tx \<and>
     et_operation_keys tx' = et_operation_keys tx \<and> et_reservation tx' = et_reservation tx \<and>
     et_declared_write_set tx' = et_declared_write_set tx \<and> et_decision tx' = et_decision tx \<and>
     et_publish_summary tx' = et_publish_summary tx \<and> et_teardown tx' = et_teardown tx \<and>
     et_transport_receipt tx' = et_transport_receipt tx \<and> et_receipt tx' = et_receipt tx"

lemma same_accepted_refl [simp]: "same_accepted tx tx"
  by (simp add: same_accepted_def)

lemma same_accepted_trans: "same_accepted a b \<Longrightarrow> same_accepted b c \<Longrightarrow> same_accepted a c"
  by (simp add: same_accepted_def)

lemma record_events_frame:
  "record_events be b es tx = tx\<lparr>et_completed_events :=
     bset_extend (filter (be_event_completed be b) es) (et_completed_events tx)\<rparr>"
  by (induction es arbitrary: tx) (simp_all add: record_events_def bset_extend_def)

lemma tx_fail_active:
  "et_state tx \<in> {New, Prepared, Executing} \<Longrightarrow>
     tx_fail f tx = tx\<lparr>et_failure := Some f, et_state := Failed f\<rparr>"
  by (auto simp: tx_fail_def)

abbreviation insert_write ::
    "StagedWrite \<Rightarrow> (OutputRef, StagedWrite) bmap \<Rightarrow> (OutputRef, StagedWrite) bmap" where
  "insert_write w m \<equiv> bmap_insert (sw_output_ref w) w m"

lemma stage_writes_None:
  "stage_writes be ws tx b = (None, tx', b') \<Longrightarrow>
     tx' = tx\<lparr>et_staged_write_set := fold insert_write ws (et_staged_write_set tx)\<rparr>"
proof (induction ws arbitrary: tx b)
  case Nil
  then show ?case by simp
next
  case (Cons w ws)
  then obtain c where "stage_writes be ws
      (tx\<lparr>et_staged_write_set := insert_write w (et_staged_write_set tx)\<rparr>) c = (None, tx', b')"
    by (auto split: prod.splits option.splits)
  from Cons.IH [OF this] show ?case by simp
qed

lemma same_staged: "tx\<lparr>et_staged_write_set := fold insert_write [] (et_staged_write_set tx)\<rparr> = tx"
  by simp

lemma stage_writes_Some:
  "stage_writes be ws tx b = (Some e, tx', b') \<Longrightarrow>
     \<exists>us. tx' = tx_fail (BackendFailure e)
       (tx\<lparr>et_staged_write_set := fold insert_write us (et_staged_write_set tx)\<rparr>) \<and> set us \<subseteq> set ws"
proof (induction ws arbitrary: tx b)
  case Nil
  then show ?case by simp
next
  case (Cons w ws)
  obtain r c where r: "be_stage_write be w b = (r, c)"
    by (cases "be_stage_write be w b")
  show ?case
  proof (cases r)
    case (Some d)
    with Cons.prems r have "tx_fail (BackendFailure e) tx = tx'"
      by auto
    then have eq: "tx' = tx_fail (BackendFailure e)
        (tx\<lparr>et_staged_write_set := fold insert_write [] (et_staged_write_set tx)\<rparr>)"
      unfolding same_staged by (rule sym)
    show ?thesis by (rule exI [of _ "[]"], rule conjI, rule eq, simp)
  next
    case None
    from Cons.prems r None obtain us where
      "tx' = tx_fail (BackendFailure e)
         (tx\<lparr>et_staged_write_set := fold insert_write us (insert_write w (et_staged_write_set tx))\<rparr>)"
      "set us \<subseteq> set ws"
      using Cons.IH [of "tx\<lparr>et_staged_write_set := insert_write w (et_staged_write_set tx)\<rparr>" c] by auto
    then have "tx' = tx_fail (BackendFailure e)
         (tx\<lparr>et_staged_write_set := fold insert_write (w # us) (et_staged_write_set tx)\<rparr>)"
      "set (w # us) \<subseteq> set (w # ws)"
      by auto
    then show ?thesis by blast
  qed
qed

lemma keys_lookup:
  assumes "keys_ok keys ops"
  shows "bmap_get keys (operation_ref op) = Some i \<Longrightarrow> i < length ops"
    and "distinct (map operation_ref ops) \<Longrightarrow> op \<in> set ops \<Longrightarrow>
      \<exists>i. bmap_get keys (operation_ref op) = Some i \<and> i < length ops \<and> ops ! i = op"
  using assms unfolding keys_ok_def by (blast, metis in_set_conv_nth)

text \<open>An operation is dispatched only if it is exactly a member of the snapshot.\<close>

lemma execute_operation_cases:
  assumes "et_state tx = Executing" "keys_ok (et_operation_keys tx) (et_operations tx)"
  obtains (outside) "op \<notin> set (et_operations tx) \<or> \<not> distinct (map operation_ref (et_operations tx))"
      "execute_operation be op tx b = Some (Some (OperationOutsideSnapshot (operation_ref op)), tx, b)"
  | (run_failed) e b' where "op \<in> set (et_operations tx)" "be_run_operation be op b = (Some e, b')"
      "execute_operation be op tx b =
         Some (Some (ExecuteBackend e), tx\<lparr>et_failure := Some (BackendFailure e), et_state := Failed (BackendFailure e)\<rparr>, b')"
  | (stage_failed) e tx' b1 b' where "op \<in> set (et_operations tx)" "be_run_operation be op b = (None, b1)"
      "stage_writes be (op_staged_writes op) tx b1 = (Some e, tx', b')"
      "execute_operation be op tx b = Some (Some (ExecuteBackend e), tx', b')"
  | (ran) tx1 b1 b' where "op \<in> set (et_operations tx)" "be_run_operation be op b = (None, b1)"
      "stage_writes be (op_staged_writes op) tx b1 = (None, tx1, b')"
      "execute_operation be op tx b = Some (None, record_events be b' (op_completed_events op)
         (tx1\<lparr>et_executed_operations := et_executed_operations tx1 @
            [\<lparr>eo_operation = op, eo_byte_count = op_byte_count op\<rparr>]\<rparr>), b')"
proof (cases "bmap_get (et_operation_keys tx) (operation_ref op)")
  case None
  then have "op \<notin> set (et_operations tx) \<or> \<not> distinct (map operation_ref (et_operations tx))"
    using keys_lookup(2) [OF assms(2)] by fastforce
  with None assms(1) outside show thesis by (simp add: execute_operation_def Let_def)
next
  case (Some i)
  then have i: "i < length (et_operations tx)"
    using keys_lookup(1) [OF assms(2)] by simp
  show thesis
  proof (cases "et_operations tx ! i = op")
    case False
    then have "op \<notin> set (et_operations tx) \<or> \<not> distinct (map operation_ref (et_operations tx))"
      using keys_lookup(2) [OF assms(2)] Some by fastforce
    with False Some i assms(1) outside show thesis by (simp add: execute_operation_def Let_def)
  next
    case True
    with i have mem: "op \<in> set (et_operations tx)" by (metis nth_mem)
    obtain r b1 where r: "be_run_operation be op b = (r, b1)"
      by (cases "be_run_operation be op b")
    obtain s tx1 b2 where s: "stage_writes be (op_staged_writes op) tx b1 = (s, tx1, b2)"
      by (cases "stage_writes be (op_staged_writes op) tx b1")
    have eo: "execute_operation be op tx b =
        (case r of Some e \<Rightarrow> Some (Some (ExecuteBackend e), tx_fail (BackendFailure e) tx, b1)
         | None \<Rightarrow> (case s of Some e \<Rightarrow> Some (Some (ExecuteBackend e), tx1, b2)
           | None \<Rightarrow> Some (None, record_events be b2 (op_completed_events op)
               (tx1\<lparr>et_executed_operations := et_executed_operations tx1 @
                  [\<lparr>eo_operation = op, eo_byte_count = op_byte_count op\<rparr>]\<rparr>), b2)))"
      using assms(1) Some i True r s
      by (auto simp: execute_operation_def Let_def split: option.split)
    show thesis
    proof (cases r)
      case (Some e)
      with mem r eo assms(1) run_failed show thesis by (simp add: tx_fail_active)
    next
      case None
      show thesis
      proof (cases s)
        case (Some e)
        with None mem r s eo stage_failed show thesis by simp
      next
        case s_None: None
        with None mem r s eo ran show thesis by simp
      qed
    qed
  qed
qed

text \<open>The result of an execution step, seen from the transaction alone.\<close>

lemma execute_operation_result:
  assumes "et_state tx = Executing" "keys_ok (et_operation_keys tx) (et_operations tx)"
  obtains r tx' b' where "execute_operation be op tx b = Some (r, tx', b')"
    "same_accepted tx tx'"
    "r = None \<Longrightarrow> et_state tx' = Executing \<and> op \<in> set (et_operations tx) \<and>
       et_executed_operations tx' = et_executed_operations tx @
         [\<lparr>eo_operation = op, eo_byte_count = op_byte_count op\<rparr>] \<and>
       et_staged_write_set tx' = fold insert_write (op_staged_writes op) (et_staged_write_set tx)"
    "\<And>k. r = Some (OperationOutsideSnapshot k) \<Longrightarrow> tx' = tx \<and> b' = b \<and> k = operation_ref op"
    "\<And>e. r = Some (ExecuteBackend e) \<Longrightarrow> et_state tx' = Failed (BackendFailure e) \<and>
       et_failure tx' = Some (BackendFailure e) \<and>
       et_executed_operations tx' = et_executed_operations tx"
    "\<And>s. r \<noteq> Some (ExecuteInvalidState s)"
proof (rule execute_operation_cases [OF assms, of op be b])
  assume "execute_operation be op tx b = Some (Some (OperationOutsideSnapshot (operation_ref op)), tx, b)"
  then show thesis by (rule that) simp_all
next
  fix e b'
  assume "execute_operation be op tx b = Some (Some (ExecuteBackend e),
    tx\<lparr>et_failure := Some (BackendFailure e), et_state := Failed (BackendFailure e)\<rparr>, b')"
  then show thesis by (rule that) (simp_all add: same_accepted_def)
next
  fix e tx' b1 b'
  assume st: "stage_writes be (op_staged_writes op) tx b1 = (Some e, tx', b')"
    and eo: "execute_operation be op tx b = Some (Some (ExecuteBackend e), tx', b')"
  from stage_writes_Some [OF st] obtain us where
    "tx' = tx_fail (BackendFailure e) (tx\<lparr>et_staged_write_set := fold insert_write us (et_staged_write_set tx)\<rparr>)"
    by blast
  then have "tx' = tx\<lparr>et_staged_write_set := fold insert_write us (et_staged_write_set tx),
      et_failure := Some (BackendFailure e), et_state := Failed (BackendFailure e)\<rparr>"
    using assms(1) by (simp add: tx_fail_active)
  then show thesis by (intro that [OF eo]) (simp_all add: same_accepted_def)
next
  fix tx1 b1 b'
  assume "op \<in> set (et_operations tx)"
    and st: "stage_writes be (op_staged_writes op) tx b1 = (None, tx1, b')"
    and eo: "execute_operation be op tx b = Some (None, record_events be b' (op_completed_events op)
         (tx1\<lparr>et_executed_operations := et_executed_operations tx1 @
            [\<lparr>eo_operation = op, eo_byte_count = op_byte_count op\<rparr>]\<rparr>), b')"
  then show thesis
    using stage_writes_None [OF st] assms(1)
    by (intro that [OF eo]) (simp_all add: same_accepted_def record_events_frame)
qed

end
