(* ===== verification/Transaction_Safety.thy ===== *)
theory Transaction_Safety
  imports Transaction
begin

text \<open>
  The transaction driven by an arbitrary caller: any sequence of its public methods, interleaved
  with completions of asynchronous events, on any backend that meets \<open>execution_backend\<close>. The
  invariant \<open>tx_safe\<close> ties the transaction's record to the three views of the backend; from it
  follow that nothing is visible before the commit and exactly the declared write-set after it,
  that a finished transaction holds no reservation, and that no method panics. The abstract
  machine \<open>atomic_step\<close> is the contract of the module's header; every method refines it.
\<close>

section \<open>Calls and reachable states\<close>

datatype tx_call =
    CallPrepare nat
  | CallExecute nat
  | CallExecuteOperation TransactionOperation
  | CallCommit PublicationOrdinal nat
  | CallAbort string nat
  | CallTransportReceipt TransportReceipt

fun tx_call_step ::
    "(string \<Rightarrow> string) \<Rightarrow> 'b DeviceExecutionBackend \<Rightarrow> tx_call \<Rightarrow> ExecutionTransaction \<Rightarrow> 'b \<Rightarrow>
       (ExecutionTransaction \<times> 'b) option" where
  "tx_call_step dbg be (CallPrepare n) tx b = map_option snd (prepare be n tx b)"
| "tx_call_step dbg be (CallExecute n) tx b = map_option snd (execute be n tx b)"
| "tx_call_step dbg be (CallExecuteOperation op) tx b = map_option snd (execute_operation be op tx b)"
| "tx_call_step dbg be (CallCommit ord n) tx b = map_option snd (commit dbg be ord n tx b)"
| "tx_call_step dbg be (CallAbort reason n) tx b = map_option snd (abort be reason n tx b)"
| "tx_call_step dbg be (CallTransportReceipt r) tx b = Some (with_transport_receipt r tx, b)"

inductive tx_reach ::
    "(string \<Rightarrow> string) \<Rightarrow> 'b DeviceExecutionBackend \<Rightarrow> ('b \<Rightarrow> 'b \<Rightarrow> bool) \<Rightarrow>
       ExecutionTransaction \<Rightarrow> 'b \<Rightarrow> ExecutionTransaction \<Rightarrow> 'b \<Rightarrow> bool"
  for dbg be env tx0 b0 where
  reach_start: "tx_reach dbg be env tx0 b0 tx0 b0"
| reach_call: "tx_reach dbg be env tx0 b0 tx b \<Longrightarrow> tx_call_step dbg be c tx b = Some (tx', b') \<Longrightarrow>
    tx_reach dbg be env tx0 b0 tx' b'"
| reach_event: "tx_reach dbg be env tx0 b0 tx b \<Longrightarrow> env b b' \<Longrightarrow> tx_reach dbg be env tx0 b0 tx b'"

section \<open>The contract: an atomic store\<close>

text \<open>
  What the header of \<open>execution_transaction.rs\<close> promises: the phases a transaction moves through
  and the one step at which its write-set \<open>W\<close> becomes visible, whole.
\<close>

datatype phase = PNew | PPrepared | PExecuting | PCommitted | PFailed | PAborted

record atomic_store =
  as_phase :: phase
  as_visible :: "OutputRef \<Rightarrow> StagedWrite option"

inductive atomic_step :: "(OutputRef \<Rightarrow> StagedWrite option) \<Rightarrow> atomic_store \<Rightarrow> atomic_store \<Rightarrow> bool"
  for W where
  atomic_prepare: "atomic_step W \<lparr>as_phase = PNew, as_visible = v\<rparr> \<lparr>as_phase = PPrepared, as_visible = v\<rparr>"
| atomic_execute: "p \<in> {PExecuting, PFailed} \<Longrightarrow>
    atomic_step W \<lparr>as_phase = PPrepared, as_visible = v\<rparr> \<lparr>as_phase = p, as_visible = v\<rparr>"
| atomic_fail: "atomic_step W \<lparr>as_phase = PExecuting, as_visible = v\<rparr> \<lparr>as_phase = PFailed, as_visible = v\<rparr>"
| atomic_commit: "atomic_step W \<lparr>as_phase = PExecuting, as_visible = Map.empty\<rparr>
    \<lparr>as_phase = PCommitted, as_visible = W\<rparr>"
| atomic_abort: "p \<in> {PNew, PPrepared, PExecuting, PFailed} \<Longrightarrow>
    atomic_step W \<lparr>as_phase = p, as_visible = v\<rparr> \<lparr>as_phase = PAborted, as_visible = v\<rparr>"

inductive_cases atomic_step_cases: "atomic_step W s s'"

fun phase_of :: "TransactionState \<Rightarrow> phase" where
  "phase_of New = PNew"
| "phase_of Prepared = PPrepared"
| "phase_of Executing = PExecuting"
| "phase_of Committed = PCommitted"
| "phase_of (Failed f) = PFailed"
| "phase_of (Aborted f) = PAborted"

definition tx_abs ::
    "('b \<Rightarrow> OutputRef \<Rightarrow> StagedWrite option) \<Rightarrow> ExecutionTransaction \<Rightarrow> 'b \<Rightarrow> atomic_store" where
  "tx_abs pub tx b = \<lparr>as_phase = phase_of (et_state tx), as_visible = pub b\<rparr>"

text \<open>The write-set of a plan, as a map.\<close>

definition plan_write_set :: "ExecutionTransaction \<Rightarrow> OutputRef \<Rightarrow> StagedWrite option" where
  "plan_write_set tx = bmap_get (derive_declared_write_set (et_operations tx))"

text \<open>The plan of a transaction never changes.\<close>

definition same_plan :: "ExecutionTransaction \<Rightarrow> ExecutionTransaction \<Rightarrow> bool" where
  "same_plan tx tx' \<longleftrightarrow>
     et_id tx' = et_id tx \<and> et_bound_plan tx' = et_bound_plan tx \<and>
     et_operations tx' = et_operations tx \<and> et_commit_boundary tx' = et_commit_boundary tx"

lemma same_plan_refl [simp]: "same_plan tx tx"
  by (simp add: same_plan_def)

lemma same_plan_trans: "same_plan a b \<Longrightarrow> same_plan b c \<Longrightarrow> same_plan a c"
  by (simp add: same_plan_def)

lemma same_accepted_plan: "same_accepted tx tx' \<Longrightarrow> same_plan tx tx'"
  by (simp add: same_accepted_def same_plan_def)

section \<open>The commit boundary\<close>

text \<open>Every participant of every boundary operation completed.\<close>

definition boundary_reached :: "ExecutionTransaction \<Rightarrow> OperationEvent set \<Rightarrow> bool" where
  "boundary_reached tx es \<longleftrightarrow>
     (\<forall>r\<in>set (cb_barriers (et_commit_boundary tx)). \<exists>op\<in>set (et_operations tx).
        is_barrier r op \<and> (\<forall>p\<in>set (op_partitions op). BarrierCompleted p r \<in> es)) \<and>
     (\<forall>r\<in>set (cb_launches (et_commit_boundary tx)). \<exists>op\<in>set (et_operations tx).
        is_launch r op \<and> (\<forall>p\<in>set (op_partitions op). LaunchCompleted p r \<in> es))"

lemma fold_missing_Nil:
  "fold (\<lambda>p m. if P p then bset_insert x m else m) ps m = [] \<longleftrightarrow> m = [] \<and> (\<forall>p\<in>set ps. \<not> P p)"
proof -
  have ne: "bset_insert x m \<noteq> []" for m :: "'a::linorder list"
    by (cases m) auto
  show ?thesis
  proof (induction ps arbitrary: m)
    case (Cons p ps)
    show ?case by (cases "P p") (simp_all add: Cons ne)
  qed simp
qed

lemma missing_barrier_Nil:
  "missing_barrier tx r m = [] \<longleftrightarrow> m = [] \<and> (\<exists>op. List.find (is_barrier r) (et_operations tx) = Some op \<and>
     (\<forall>p\<in>set (op_partitions op). BarrierCompleted p r \<in> set (et_completed_events tx)))"
proof -
  have ne: "bset_insert x m \<noteq> []" for x :: BoundaryRef and m
    by (cases m) auto
  show ?thesis
    by (auto simp: missing_barrier_def fold_missing_Nil ne split: option.split)
qed

lemma missing_launch_Nil:
  "missing_launch tx r m = [] \<longleftrightarrow> m = [] \<and> (\<exists>op. List.find (is_launch r) (et_operations tx) = Some op \<and>
     (\<forall>p\<in>set (op_partitions op). LaunchCompleted p r \<in> set (et_completed_events tx)))"
proof -
  have ne: "bset_insert x m \<noteq> []" for x :: BoundaryRef and m
    by (cases m) auto
  show ?thesis
    by (auto simp: missing_launch_def fold_missing_Nil ne split: option.split)
qed

lemma fold_all_Nil:
  "(\<And>r m. f r m = [] \<longleftrightarrow> m = [] \<and> P r) \<Longrightarrow> fold f rs m = [] \<longleftrightarrow> m = [] \<and> (\<forall>r\<in>set rs. P r)"
  by (induction rs arbitrary: m) auto

lemma missing_Nil_reached:
  assumes "missing_boundary_refs tx = []"
  shows "boundary_reached tx (set (et_completed_events tx))"
proof -
  note b = fold_all_Nil [where f = "missing_barrier tx", OF missing_barrier_Nil]
  note l = fold_all_Nil [where f = "missing_launch tx", OF missing_launch_Nil]
  show ?thesis
    using assms find_Some_mem
    unfolding missing_boundary_refs_def Let_def l b boundary_reached_def by fast
qed

lemma boundary_reached_mono: "boundary_reached tx es \<Longrightarrow> es \<subseteq> fs \<Longrightarrow> boundary_reached tx fs"
  unfolding boundary_reached_def by blast

text \<open>Refreshing the completed events changes nothing else.\<close>

lemma refresh_frame:
  "\<exists>es. refresh_completed_events be b tx = tx\<lparr>et_completed_events := es\<rparr>"
proof -
  have "\<exists>es. fold (\<lambda>op tx. record_events be b (op_completed_events op) tx) ops tx =
      tx\<lparr>et_completed_events := es\<rparr>" for ops
  proof (induction ops arbitrary: tx)
    case Nil
    have "tx = tx\<lparr>et_completed_events := et_completed_events tx\<rparr>" by simp
    then show ?case by (metis fold_simps(1))
  next
    case (Cons op ops)
    from Cons.IH [of "record_events be b (op_completed_events op) tx"] show ?case
      by (auto simp: record_events_frame)
  qed
  then show ?thesis by (simp add: refresh_completed_events_def)
qed

section \<open>The environment of a transaction\<close>

text \<open>
  A backend together with its fresh states and the asynchronous completions that may happen
  between calls; a completed event stays completed.
\<close>

definition events_of :: "'b DeviceExecutionBackend \<Rightarrow> 'b \<Rightarrow> OperationEvent set" where
  "events_of be b = {e. be_event_completed be b e}"

locale execution_environment = execution_backend be valid held staged published
  for be :: "'b DeviceExecutionBackend" and valid held staged published +
  fixes fresh :: "'b \<Rightarrow> bool"
    and env :: "'b \<Rightarrow> 'b \<Rightarrow> bool"
  assumes fresh_law: "fresh b \<Longrightarrow>
      valid b \<and> held b = {} \<and> staged b = Map.empty \<and> published b = Map.empty"
    and env_law: "valid b \<Longrightarrow> env b b' \<Longrightarrow>
      valid b' \<and> held b' = held b \<and> staged b' = staged b \<and> published b' = published b \<and>
      events_of be b \<subseteq> events_of be b'"
    and reserve_events: "be_reserve be p r b = (res, b') \<Longrightarrow> events_of be b \<subseteq> events_of be b'"
    and run_events: "be_run_operation be op b = (res, b') \<Longrightarrow> events_of be b \<subseteq> events_of be b'"
    and stage_events: "be_stage_write be w b = (res, b') \<Longrightarrow> events_of be b \<subseteq> events_of be b'"
    and publish_events: "be_publish be b = (res, b') \<Longrightarrow> events_of be b \<subseteq> events_of be b'"
    and release_events: "events_of be b \<subseteq> events_of be (be_release be p b)"
    and retire_events: "events_of be b \<subseteq> events_of be (be_retire be p f b)"
begin

definition recorded :: "ExecutionTransaction \<Rightarrow> 'b \<Rightarrow> bool" where
  "recorded tx b \<longleftrightarrow>
     valid b \<and> bmap_ok (et_staged_write_set tx) \<and>
     set (et_completed_events tx) \<subseteq> events_of be b \<and> bset_ok (et_completed_events tx)"

text \<open>The transaction's copy of the staged write-set is the backend's.\<close>

definition mirrors :: "ExecutionTransaction \<Rightarrow> 'b \<Rightarrow> bool" where
  "mirrors tx b \<longleftrightarrow> recorded tx b \<and> staged b = bmap_get (et_staged_write_set tx)"

definition prepared_facts :: "ExecutionTransaction \<Rightarrow> bool" where
  "prepared_facts tx \<longleftrightarrow>
     et_reservation tx = Some (tx_reservation tx) \<and>
     keys_ok (et_operation_keys tx) (et_operations tx) \<and>
     distinct (map operation_ref (et_operations tx)) \<and>
     et_declared_write_set tx = derive_declared_write_set (et_operations tx)"

abbreviation referenced :: "ExecutionTransaction \<Rightarrow> LogicalPartitionId set" where
  "referenced tx \<equiv> set (referenced_partitions (et_operations tx))"

definition tx_safe :: "ExecutionTransaction \<Rightarrow> 'b \<Rightarrow> bool" where
  "tx_safe tx b \<longleftrightarrow>
     recorded tx b \<and> \<not> td_partial_publication (et_teardown tx) \<and>
     plan_bindings (et_bound_plan tx) \<noteq> None \<and>
     (case et_state tx of
        New \<Rightarrow> mirrors tx b \<and> et_reservation tx = None \<and> et_staged_write_set tx = [] \<and>
          published b = Map.empty \<and> held b \<subseteq> referenced tx
      | Prepared \<Rightarrow> mirrors tx b \<and> prepared_facts tx \<and> et_staged_write_set tx = [] \<and>
          published b = Map.empty \<and> held b = referenced tx
      | Executing \<Rightarrow> mirrors tx b \<and> prepared_facts tx \<and>
          et_staged_write_set tx = et_declared_write_set tx \<and>
          published b = Map.empty \<and> held b = referenced tx
      | Failed f \<Rightarrow> mirrors tx b \<and> prepared_facts tx \<and>
          published b = Map.empty \<and> held b = referenced tx
      | Committed \<Rightarrow> prepared_facts tx \<and>
          published b = bmap_get (et_declared_write_set tx) \<and> held b = {}
      | Aborted f \<Rightarrow> et_receipt tx \<noteq> None \<and> published b = Map.empty \<and> staged b = Map.empty \<and>
          held b \<subseteq> referenced tx \<and> (et_reservation tx \<noteq> None \<longrightarrow> held b = {}))"

subsection \<open>Reserving\<close>

lemma reserve_all_views:
  assumes "valid b" "reserve_all be rs b = (r, b')"
  shows "valid b' \<and> staged b' = staged b \<and> published b' = published b \<and>
    held b \<subseteq> held b' \<and> held b' \<subseteq> held b \<union> fst ` set rs \<and>
    (r = None \<longrightarrow> held b' = held b \<union> fst ` set rs) \<and> events_of be b \<subseteq> events_of be b'"
  using assms
proof (induction rs arbitrary: b)
  case Nil
  then show ?case by simp
next
  case (Cons q rs)
  obtain p rec where q: "q = (p, rec)" by (cases q)
  obtain r1 b1 where r1: "be_reserve be p rec b = (r1, b1)"
    by (cases "be_reserve be p rec b")
  from reserve_law [OF Cons.prems(1) r1] reserve_events [OF r1]
  have s: "valid b1" "staged b1 = staged b" "published b1 = published b"
    "held b1 = (if r1 = None then insert p (held b) else held b)" "events_of be b \<subseteq> events_of be b1"
    by auto
  show ?case
  proof (cases r1)
    case (Some e)
    with s Cons.prems(2) r1 q show ?thesis by auto
  next
    case None
    with Cons.prems(2) r1 q have "reserve_all be rs b1 = (r, b')" by simp
    from Cons.IH [OF s(1) this] s None q show ?thesis by auto
  qed
qed

subsection \<open>Staging\<close>

lemma stage_writes_views:
  assumes "mirrors tx b" "stage_writes be ws tx b = (r, tx', b')"
  shows "mirrors tx' b' \<and> held b' = held b \<and> published b' = published b \<and>
    (r = None \<longrightarrow> (\<forall>w\<in>set ws. staged b (sw_output_ref w) = None))"
  using assms
proof (induction ws arbitrary: tx b)
  case Nil
  then show ?case by simp
next
  case (Cons w ws)
  obtain r1 b1 where r1: "be_stage_write be w b = (r1, b1)"
    by (cases "be_stage_write be w b")
  have v: "valid b" using Cons.prems(1) by (simp add: mirrors_def recorded_def)
  note law = stage_law [OF v r1] stage_events [OF r1]
  show ?case
  proof (cases r1)
    case (Some e)
    then have "tx' = tx_fail (BackendFailure e) tx" "b' = b1" "r \<noteq> None"
      using Cons.prems(2) r1 by auto
    moreover have "mirrors (tx_fail (BackendFailure e) tx) b1"
      using law Some Cons.prems(1)
      by (auto simp: mirrors_def recorded_def tx_fail_def split: TransactionState.split)
    ultimately show ?thesis using law Some by auto
  next
    case None
    let ?tx = "tx\<lparr>et_staged_write_set := insert_write w (et_staged_write_set tx)\<rparr>"
    have "mirrors ?tx b1"
      using law None Cons.prems(1) by (auto simp: mirrors_def recorded_def)
    moreover have "stage_writes be ws ?tx b1 = (r, tx', b')"
      using Cons.prems(2) r1 None by simp
    ultimately have ih: "mirrors tx' b' \<and> held b' = held b1 \<and> published b' = published b1 \<and>
        (r = None \<longrightarrow> (\<forall>w\<in>set ws. staged b1 (sw_output_ref w) = None))"
      by (rule Cons.IH)
    have mono: "staged b1 (sw_output_ref x) = None \<Longrightarrow> staged b (sw_output_ref x) = None" for x
      using law None by (auto split: if_splits)
    have "\<forall>x\<in>set (w # ws). staged b (sw_output_ref x) = None" if "r = None"
      using ih that mono law None by (metis set_ConsD)
    with ih law show ?thesis by simp
  qed
qed

lemma record_events_recorded:
  assumes "mirrors tx b"
  shows "mirrors (record_events be b es tx) b"
  using assms by (auto simp: mirrors_def recorded_def record_events_frame events_of_def)

lemma refresh_mirrors:
  assumes "mirrors tx b"
  shows "mirrors (refresh_completed_events be b tx) b"
proof -
  have "mirrors (fold (\<lambda>op tx. record_events be b (op_completed_events op) tx) ops tx) b" for ops
    using assms by (induction ops arbitrary: tx) (auto intro: record_events_recorded)
  then show ?thesis by (simp add: refresh_completed_events_def)
qed

subsection \<open>Executing\<close>

text \<open>While the plan runs: what the operations done so far staged is staged, nothing is visible.\<close>

definition running :: "StagedWrite list \<Rightarrow> ExecutionTransaction \<Rightarrow> 'b \<Rightarrow> bool" where
  "running done_writes tx b \<longleftrightarrow>
     mirrors tx b \<and> prepared_facts tx \<and> et_state tx = Executing \<and>
     et_staged_write_set tx = fold insert_write done_writes [] \<and>
     published b = Map.empty \<and> held b = referenced tx"

definition failed_cleanly :: "ExecutionTransaction \<Rightarrow> 'b \<Rightarrow> bool" where
  "failed_cleanly tx b \<longleftrightarrow>
     mirrors tx b \<and> prepared_facts tx \<and> (\<exists>f. et_state tx = Failed f) \<and>
     published b = Map.empty \<and> held b = referenced tx"

lemma prepared_facts_same: "same_accepted tx tx' \<Longrightarrow> prepared_facts tx' = prepared_facts tx"
  by (simp add: prepared_facts_def same_accepted_def tx_reservation_def)

lemma referenced_same: "same_accepted tx tx' \<Longrightarrow> referenced tx' = referenced tx"
  by (simp add: same_accepted_def)

lemma execute_operation_running:
  assumes run: "running ws tx b" and mem: "op \<in> set (et_operations tx)"
    and eo: "execute_operation be op tx b = Some (r, tx', b')"
  shows "same_accepted tx tx' \<and>
    (if r = None then running (ws @ op_staged_writes op) tx' b' \<and>
       (\<forall>w\<in>set (op_staged_writes op). staged b (sw_output_ref w) = None)
     else failed_cleanly tx' b')"
proof -
  have st: "et_state tx = Executing" and keys: "keys_ok (et_operation_keys tx) (et_operations tx)"
    and d: "distinct (map operation_ref (et_operations tx))" and m: "mirrors tx b"
    and pf: "prepared_facts tx"
    using run by (auto simp: running_def prepared_facts_def)
  obtain s tx1 b1 where res: "execute_operation be op tx b = Some (s, tx1, b1)"
    and same: "same_accepted tx tx1"
    and okr: "s = None \<Longrightarrow> et_state tx1 = Executing \<and>
       et_staged_write_set tx1 = fold insert_write (op_staged_writes op) (et_staged_write_set tx)"
    and bad: "\<And>e. s = Some (ExecuteBackend e) \<Longrightarrow> et_state tx1 = Failed (BackendFailure e)"
    by (rule execute_operation_result [OF st keys, where op = op and be = be and b = b]) blast
  from res eo have [simp]: "s = r" "tx1 = tx'" "b1 = b'" by simp_all
  have v: "valid b" using m by (simp add: mirrors_def recorded_def)
  have views: "mirrors tx' b' \<and> held b' = held b \<and> published b' = published b \<and>
      (r = None \<longrightarrow> (\<forall>w\<in>set (op_staged_writes op). staged b (sw_output_ref w) = None)) \<and>
      (r \<noteq> None \<longrightarrow> (\<exists>e. r = Some (ExecuteBackend e)))"
  proof (rule execute_operation_cases [OF st keys, where op = op and be = be and b = b])
    assume "op \<notin> set (et_operations tx) \<or> \<not> distinct (map operation_ref (et_operations tx))"
    with mem d show ?thesis by blast
  next
    fix e c
    assume r: "be_run_operation be op b = (Some e, c)" and
      "execute_operation be op tx b = Some (Some (ExecuteBackend e),
         tx\<lparr>et_failure := Some (BackendFailure e), et_state := Failed (BackendFailure e)\<rparr>, c)"
    with eo run_law [OF v r] run_events [OF r] m show ?thesis
      by (auto simp: mirrors_def recorded_def)
  next
    fix e tx2 b2 c
    assume r: "be_run_operation be op b = (None, b2)"
      and s: "stage_writes be (op_staged_writes op) tx b2 = (Some e, tx2, c)"
      and "execute_operation be op tx b = Some (Some (ExecuteBackend e), tx2, c)"
    moreover have "mirrors tx b2"
      using run_law [OF v r] run_events [OF r] m by (auto simp: mirrors_def recorded_def)
    ultimately show ?thesis
      using eo run_law [OF v r] stage_writes_views [OF _ s] by auto
  next
    fix tx2 b2 c
    assume r: "be_run_operation be op b = (None, b2)"
      and s: "stage_writes be (op_staged_writes op) tx b2 = (None, tx2, c)"
      and e: "execute_operation be op tx b = Some (None, record_events be c (op_completed_events op)
         (tx2\<lparr>et_executed_operations := et_executed_operations tx2 @
            [\<lparr>eo_operation = op, eo_byte_count = op_byte_count op\<rparr>]\<rparr>), c)"
    have "mirrors tx b2"
      using run_law [OF v r] run_events [OF r] m by (auto simp: mirrors_def recorded_def)
    from stage_writes_views [OF this s] have v2: "mirrors tx2 c" "held c = held b2"
      "published c = published b2" "\<forall>w\<in>set (op_staged_writes op). staged b2 (sw_output_ref w) = None"
      by auto
    then have "mirrors (tx2\<lparr>et_executed_operations := et_executed_operations tx2 @
            [\<lparr>eo_operation = op, eo_byte_count = op_byte_count op\<rparr>]\<rparr>) c"
      by (simp add: mirrors_def recorded_def)
    from record_events_recorded [OF this] v2 e eo run_law [OF v r] show ?thesis by auto
  qed
  show ?thesis
  proof (cases r)
    case None
    with okr views same run prepared_facts_same [OF same] referenced_same [OF same] show ?thesis
      by (simp add: running_def)
  next
    case (Some x)
    with views obtain e where "r = Some (ExecuteBackend e)" by blast
    with bad views same run prepared_facts_same [OF same] referenced_same [OF same] show ?thesis
      by (simp add: running_def failed_cleanly_def)
  qed
qed

lemma plan_writes_Cons: "plan_writes (op # ops) = op_staged_writes op @ plan_writes ops"
  by (simp add: plan_writes_def)

lemma execute_all_running:
  assumes "running ws tx b" "set ops \<subseteq> set (et_operations tx)"
  shows "\<exists>r tx' b'. execute_all be ops tx b = Some (r, tx', b') \<and> same_accepted tx tx' \<and>
    (if r = None then running (ws @ plan_writes ops) tx' b' else failed_cleanly tx' b')"
  using assms
proof (induction ops arbitrary: ws tx b)
  case Nil
  then show ?case by (simp add: plan_writes_def)
next
  case (Cons op ops)
  have st: "et_state tx = Executing" "keys_ok (et_operation_keys tx) (et_operations tx)"
    using Cons.prems(1) by (auto simp: running_def prepared_facts_def)
  obtain r tx1 b1 where r: "execute_operation be op tx b = Some (r, tx1, b1)"
    by (rule execute_operation_result [OF st, where op = op and be = be and b = b]) blast
  have mem: "op \<in> set (et_operations tx)" using Cons.prems(2) by simp
  note step = execute_operation_running [OF Cons.prems(1) mem r]
  show ?case
  proof (cases r)
    case (Some e)
    with step r show ?thesis by simp
  next
    case None
    with step have s: "same_accepted tx tx1" "running (ws @ op_staged_writes op) tx1 b1" by simp_all
    moreover have "set ops \<subseteq> set (et_operations tx1)"
      using s(1) Cons.prems(2) by (simp add: same_accepted_def)
    ultimately obtain s tx' b' where e: "execute_all be ops tx1 b1 = Some (s, tx', b')"
      "same_accepted tx1 tx'"
      "if s = None then running ((ws @ op_staged_writes op) @ plan_writes ops) tx' b'
       else failed_cleanly tx' b'"
      using Cons.IH [of "ws @ op_staged_writes op" tx1 b1] by blast
    have "execute_all be (op # ops) tx b = Some (s, tx', b')"
      using e(1) None r by simp
    moreover have "same_accepted tx tx'"
      using s(1) e(2) by (rule same_accepted_trans)
    moreover have "if s = None then running (ws @ plan_writes (op # ops)) tx' b' else failed_cleanly tx' b'"
      using e(3) unfolding plan_writes_Cons append_assoc .
    ultimately show ?thesis by blast
  qed
qed

lemma plan_writes_staged: "fold insert_write (plan_writes ops) [] = derive_declared_write_set ops"
  by (simp add: declared_write_set_of_list bmap_of_list_def insert_writes_fold)

subsection \<open>Every call keeps the invariant and refines the atomic store\<close>

definition good_step ::
    "ExecutionTransaction \<Rightarrow> 'b \<Rightarrow> (ExecutionTransaction \<times> 'b) option \<Rightarrow> bool" where
  "good_step tx b res \<longleftrightarrow>
     (\<exists>tx' b'. res = Some (tx', b') \<and> tx_safe tx' b' \<and> same_plan tx tx' \<and>
        (tx_abs published tx b = tx_abs published tx' b' \<or>
         atomic_step (plan_write_set tx) (tx_abs published tx b) (tx_abs published tx' b')))"

lemma good_stepI:
  "res = Some (tx', b') \<Longrightarrow> tx_safe tx' b' \<Longrightarrow> same_plan tx tx' \<Longrightarrow>
   tx_abs published tx b = tx_abs published tx' b' \<or>
     atomic_step (plan_write_set tx) (tx_abs published tx b) (tx_abs published tx' b') \<Longrightarrow>
   good_step tx b res"
  by (auto simp: good_step_def)

lemma good_stay: "tx_safe tx b \<Longrightarrow> good_step tx b (Some (tx, b))"
  by (rule good_stepI [where tx' = tx and b' = b]) simp_all

lemma safe_prepare:
  assumes safe: "tx_safe tx b"
  shows "good_step tx b (map_option snd (prepare be n tx b))"
proof (cases "et_state tx = New")
  case False
  then have "prepare be n tx b = Some (Some (PrepareInvalidState (et_state tx)), tx, b)"
    by (simp add: prepare_def)
  with good_stay [OF safe] show ?thesis by simp
next
  case True
  from safe obtain bs where bs: "plan_bindings (et_bound_plan tx) = Some bs"
    by (auto simp: tx_safe_def)
  have f: "mirrors tx b" "et_staged_write_set tx = []" "published b = Map.empty"
    "held b \<subseteq> referenced tx" "et_reservation tx = None"
    "\<not> td_partial_publication (et_teardown tx)"
    using safe True by (simp_all add: tx_safe_def)
  then have v: "valid b" by (simp add: mirrors_def recorded_def)
  obtain r b' where r: "reserve_all be (tx_reservation tx) b = (r, b')"
    by (cases "reserve_all be (tx_reservation tx) b")
  have keys: "fst ` set (tx_reservation tx) = referenced tx"
    by (metis list.set_map reservation_keys tx_reservation_def)
  note views = reserve_all_views [OF v r, unfolded keys]
  have m: "mirrors tx b'"
    using f(1) views by (auto simp: mirrors_def recorded_def)
  from prepare_cases [OF True bs, of be n b] consider
      e where "prepare be n tx b = Some (Some e, tx, b)"
    | ks where "accepted_plan tx" "keys_ok ks (et_operations tx)"
        "prepare be n tx b = (case r of Some e \<Rightarrow> Some (Some (PrepareBackend e), tx, b')
           | None \<Rightarrow> Some (None, prepared n ks tx, b'))"
    unfolding r by auto
  then show ?thesis
  proof cases
    case 1
    with good_stay [OF safe] show ?thesis by simp
  next
    case 2
    show ?thesis
    proof (cases r)
      case (Some e)
      have "tx_safe tx b'"
        using m f views True bs by (auto simp: tx_safe_def mirrors_def)
      moreover have "tx_abs published tx b = tx_abs published tx b'"
        using views by (simp add: tx_abs_def)
      ultimately show ?thesis
        using 2(3) Some by (intro good_stepI [where tx' = tx and b' = b']) simp_all
    next
      case None
      let ?tx = "prepared n ks tx"
      have "prepared_facts ?tx"
        using 2(1,2) by (auto simp: prepared_facts_def prepared_def tx_reservation_def accepted_plan_def)
      moreover have "mirrors ?tx b'"
        using m by (simp add: mirrors_def recorded_def prepared_def)
      ultimately have "tx_safe ?tx b'"
        using f views None bs by (auto simp: tx_safe_def mirrors_def prepared_def)
      moreover have "atomic_step (plan_write_set tx) (tx_abs published tx b) (tx_abs published ?tx b')"
        using views True by (simp add: tx_abs_def prepared_def atomic_prepare)
      ultimately show ?thesis
        using 2(3) None
        by (intro good_stepI [where tx' = ?tx and b' = b']) (simp_all add: prepared_def same_plan_def)
    qed
  qed
qed

lemma running_safe:
  assumes "running ws tx b" "fold insert_write ws [] = et_declared_write_set tx"
    and "\<not> td_partial_publication (et_teardown tx)" "plan_bindings (et_bound_plan tx) \<noteq> None"
  shows "tx_safe tx b"
  using assms by (simp add: running_def tx_safe_def mirrors_def)

lemma failed_safe:
  assumes "failed_cleanly tx b"
    and "\<not> td_partial_publication (et_teardown tx)" "plan_bindings (et_bound_plan tx) \<noteq> None"
  shows "tx_safe tx b"
  using assms by (auto simp: failed_cleanly_def tx_safe_def mirrors_def)

lemma tx_safe_timings: "tx_safe (tx\<lparr>et_timings := x\<rparr>) b \<longleftrightarrow> tx_safe tx b"
  by (simp add: tx_safe_def mirrors_def recorded_def prepared_facts_def tx_reservation_def
      split: TransactionState.split)

lemma safe_execute:
  assumes safe: "tx_safe tx b"
  shows "good_step tx b (map_option snd (execute be n tx b))"
proof (cases "et_state tx = Prepared")
  case False
  then have "execute be n tx b = Some (Some (ExecuteInvalidState (et_state tx)), tx, b)"
    by (simp add: execute_def)
  with good_stay [OF safe] show ?thesis by simp
next
  case True
  let ?tx = "tx\<lparr>et_state := Executing\<rparr>"
  have base: "\<not> td_partial_publication (et_teardown tx)" "plan_bindings (et_bound_plan tx) \<noteq> None"
      "published b = Map.empty"
    using safe True by (simp_all add: tx_safe_def)
  have run: "running [] ?tx b"
    using safe True
    by (simp add: running_def tx_safe_def mirrors_def recorded_def prepared_facts_def tx_reservation_def)
  have "set (et_operations tx) \<subseteq> set (et_operations ?tx)"
    by simp
  from execute_all_running [OF run this, unfolded append_Nil] obtain r tx' b' where
    e: "execute_all be (et_operations tx) ?tx b = Some (r, tx', b')" "same_accepted ?tx tx'"
      "if r = None then running (plan_writes (et_operations tx)) tx' b' else failed_cleanly tx' b'"
    by blast
  let ?out = "tx'\<lparr>et_timings := (et_timings tx')\<lparr>tt_execute_nanos := duration_as_nanos_u64 n\<rparr>\<rparr>"
  have ex: "map_option snd (execute be n tx b) = Some (?out, b')"
    using True e(1) by (simp add: execute_def Let_def)
  have base': "\<not> td_partial_publication (et_teardown tx')" "plan_bindings (et_bound_plan tx') \<noteq> None"
    "et_operations tx' = et_operations tx"
    using base e(2) by (simp_all add: same_accepted_def)
  have "tx_safe tx' b'"
  proof (cases r)
    case None
    with e(3) have run: "running (plan_writes (et_operations tx)) tx' b'" by simp
    then have "et_declared_write_set tx' = derive_declared_write_set (et_operations tx)"
      using base'(3) by (simp add: running_def prepared_facts_def)
    then have "fold insert_write (plan_writes (et_operations tx)) [] = et_declared_write_set tx'"
      using plan_writes_staged by (rule trans [rotated, OF sym])
    from running_safe [OF run this base'(1,2)] show ?thesis .
  next
    case (Some x)
    with e(3) base' show ?thesis by (intro failed_safe) simp_all
  qed
  moreover have "published b' = Map.empty" "phase_of (et_state tx') \<in> {PExecuting, PFailed}"
    using e(3) by (auto simp: running_def failed_cleanly_def split: if_splits)
  then have "atomic_step (plan_write_set tx) (tx_abs published tx b) (tx_abs published ?out b')"
    using True base(3) by (simp add: tx_abs_def atomic_execute)
  ultimately show ?thesis
    using e(2)
    by (intro good_stepI [OF ex]) (simp_all add: tx_safe_timings same_plan_def same_accepted_def)
qed

lemma executing_running:
  assumes "tx_safe tx b" "et_state tx = Executing"
  shows "running (plan_writes (et_operations tx)) tx b"
proof -
  have "et_staged_write_set tx = derive_declared_write_set (et_operations tx)"
    using assms by (simp add: tx_safe_def prepared_facts_def)
  with assms plan_writes_staged [of "et_operations tx"] show ?thesis
    by (simp add: running_def tx_safe_def)
qed

lemma plan_write_declared:
  assumes "op \<in> set ops" "w \<in> set (op_staged_writes op)"
  shows "bmap_get (derive_declared_write_set ops) (sw_output_ref w) \<noteq> None"
proof -
  have "w \<in> set (plan_writes ops)"
    using assms by (auto simp: plan_writes_def)
  then show ?thesis
    by (auto simp: declared_write_set_of_list map_of_eq_None_iff keyed_writes_def image_image)
qed

lemma safe_execute_operation:
  assumes safe: "tx_safe tx b"
  shows "good_step tx b (map_option snd (execute_operation be op tx b))"
proof (cases "et_state tx = Executing")
  case False
  then have "execute_operation be op tx b = Some (Some (ExecuteInvalidState (et_state tx)), tx, b)"
    by (simp add: execute_operation_def)
  with good_stay [OF safe] show ?thesis by simp
next
  case True
  note run = executing_running [OF safe True]
  have keys: "keys_ok (et_operation_keys tx) (et_operations tx)"
    and base: "\<not> td_partial_publication (et_teardown tx)" "plan_bindings (et_bound_plan tx) \<noteq> None"
    and st: "staged b = bmap_get (derive_declared_write_set (et_operations tx))"
    using safe True by (auto simp: tx_safe_def prepared_facts_def mirrors_def)
  obtain r tx' b' where r: "execute_operation be op tx b = Some (r, tx', b')"
    by (rule execute_operation_result [OF True keys, where op = op and be = be and b = b]) blast
  show ?thesis
  proof (cases "op \<in> set (et_operations tx)")
    case False
    have "execute_operation be op tx b = Some (Some (OperationOutsideSnapshot (operation_ref op)), tx, b)"
      by (rule execute_operation_cases [OF True keys, where op = op and be = be and b = b])
         (use False in blast)+
    with good_stay [OF safe] show ?thesis by simp
  next
    case mem: True
    note step = execute_operation_running [OF run mem r]
    have base': "\<not> td_partial_publication (et_teardown tx')" "plan_bindings (et_bound_plan tx') \<noteq> None"
      using step base by (simp_all add: same_accepted_def)
    have pub: "published b = Map.empty" using run by (simp add: running_def)
    show ?thesis
    proof (cases r)
      case None
      with step have "op_staged_writes op = []"
        using plan_write_declared [OF mem] st by (metis last_in_set)
      with step None have run': "running (plan_writes (et_operations tx)) tx' b'" by simp
      have "et_operations tx' = et_operations tx" "et_declared_write_set tx' = et_declared_write_set tx"
        using step by (simp_all add: same_accepted_def)
      then have "fold insert_write (plan_writes (et_operations tx)) [] = et_declared_write_set tx'"
        using run' plan_writes_staged [of "et_operations tx"] by (simp add: running_def prepared_facts_def)
      from running_safe [OF run' this base'] have "tx_safe tx' b'" .
      moreover have "tx_abs published tx b = tx_abs published tx' b'"
        using run run' by (simp add: tx_abs_def running_def)
      ultimately show ?thesis
        using step r by (intro good_stepI [where tx' = tx' and b' = b']) (simp_all add: same_accepted_plan)
    next
      case (Some e)
      with step have f: "failed_cleanly tx' b'" by simp
      from failed_safe [OF this base'] have "tx_safe tx' b'" .
      moreover have "atomic_step (plan_write_set tx) (tx_abs published tx b) (tx_abs published tx' b')"
        using f True pub by (auto simp: failed_cleanly_def tx_abs_def atomic_fail)
      ultimately show ?thesis
        using step r by (intro good_stepI [where tx' = tx' and b' = b']) (simp_all add: same_accepted_plan)
    qed
  qed
qed

lemma release_all_events: "events_of be b \<subseteq> events_of be (fold (be_release be) ps b)"
proof (induction ps arbitrary: b)
  case (Cons p ps)
  show ?case using release_events Cons.IH by (fastforce simp: fold_simps)
qed simp

lemma retire_all_events: "events_of be b \<subseteq> events_of be (fold (\<lambda>p. be_retire be p f) ps b)"
proof (induction ps arbitrary: b)
  case (Cons p ps)
  show ?case using retire_events Cons.IH by (fastforce simp: fold_simps)
qed simp

lemma map_option_snd_Some: "x = Some (r, y) \<Longrightarrow> map_option snd x = Some y"
  by simp

lemma set_reserved:
  "et_reservation tx = Some (tx_reservation tx) \<Longrightarrow> set (reserved_partitions tx) = referenced tx"
proof -
  have "set (bmap_keys (tx_reservation tx)) = referenced tx"
    by (simp only: tx_reservation_def reservation_keys)
  then show "et_reservation tx = Some (tx_reservation tx) \<Longrightarrow> ?thesis"
    by (simp add: reserved_partitions_def)
qed

text \<open>The transaction a successful commit builds its receipt from.\<close>

definition committing ::
    "PublicationOrdinal \<Rightarrow> nat \<Rightarrow> 'b \<Rightarrow> ExecutionTransaction \<Rightarrow> ExecutionTransaction" where
  "committing ordinal elapsed b tx =
     tx\<lparr>et_teardown := (et_teardown tx)\<lparr>td_released_partitions :=
          bset_extend (reserved_partitions tx) (td_released_partitions (et_teardown tx))\<rparr>,
        et_publish_summary := Some
          \<lparr>ps_staged_bytes = be_staged_bytes be b, ps_published_bytes = be_published_bytes be b,
           ps_atomic = True\<rparr>,
        et_decision := Some (DecisionCommitted ordinal), et_state := Committed,
        et_timings := (et_timings tx)\<lparr>tt_finalize_nanos := duration_as_nanos_u64 elapsed\<rparr>\<rparr>"

lemma commit_publishes:
  assumes "et_state tx = Executing" "be_publish be b = (None, b1)"
    and "missing_boundary_refs (refresh_completed_events be b tx) = []"
  shows "\<exists>receipt. commit dbg be ord n tx b = Some (Ok receipt,
      (committing ord n (fold (be_release be) (reserved_partitions tx) b1)
         (refresh_completed_events be b tx))\<lparr>et_receipt := Some receipt\<rparr>,
      fold (be_release be) (reserved_partitions tx) b1)"
proof -
  obtain es where fr: "refresh_completed_events be b tx = tx\<lparr>et_completed_events := es\<rparr>"
    using refresh_frame [of be b tx] by blast
  then have rp: "reserved_partitions (refresh_completed_events be b tx) = reserved_partitions tx"
    by (simp add: reserved_partitions_def)
  obtain receipt where "build_receipt (committing ord n (fold (be_release be) (reserved_partitions tx) b1)
      (refresh_completed_events be b tx)) = Some receipt"
    by (simp add: build_receipt_def committing_def)
  then show ?thesis
    using assms rp by (simp add: commit_def Let_def committing_def)
qed

lemma safe_commit:
  assumes safe: "tx_safe tx b"
  shows "good_step tx b (map_option snd (commit dbg be ord n tx b))"
proof (cases "et_state tx = Executing")
  case False
  then have "commit dbg be ord n tx b = Some (Err (CommitInvalidState (et_state tx)), tx, b)"
    by (simp add: commit_def)
  with good_stay [OF safe] show ?thesis by simp
next
  case True
  let ?tx = "refresh_completed_events be b tx"
  obtain es where fr: "?tx = tx\<lparr>et_completed_events := es\<rparr>"
    using refresh_frame [of be b tx] by blast
  have f: "mirrors tx b" "prepared_facts tx" "et_staged_write_set tx = et_declared_write_set tx"
    "published b = Map.empty" "held b = referenced tx"
    "\<not> td_partial_publication (et_teardown tx)" "plan_bindings (et_bound_plan tx) \<noteq> None"
    using safe True by (simp_all add: tx_safe_def)
  have m: "mirrors ?tx b" using f(1) by (rule refresh_mirrors)
  have pf: "prepared_facts ?tx"
    using f(2) by (simp add: prepared_facts_def fr tx_reservation_def)
  have safe': "tx_safe ?tx b"
    using m pf f True by (simp add: tx_safe_def mirrors_def fr)
  have v: "valid b" using f(1) by (simp add: mirrors_def recorded_def)
  show ?thesis
  proof (cases "missing_boundary_refs ?tx = []")
    case False
    with True have c: "map_option snd (commit dbg be ord n tx b) = Some (?tx, b)"
      by (simp add: commit_def Let_def)
    show ?thesis
      by (rule good_stepI [OF c safe']) (simp_all add: fr same_plan_def tx_abs_def)
  next
    case reached: True
    obtain r b1 where p: "be_publish be b = (r, b1)" by (cases "be_publish be b")
    note law = publish_law [OF v p] publish_events [OF p]
    show ?thesis
    proof (cases r)
      case (Some e)
      let ?bad = "tx_fail (PublishFailed (debug_backend_error dbg e)) ?tx"
      have c: "map_option snd (commit dbg be ord n tx b) = Some (?bad, b1)"
        using True reached p Some by (simp add: commit_def Let_def)
      have bad: "?bad = ?tx\<lparr>et_failure := Some (PublishFailed (debug_backend_error dbg e)),
          et_state := Failed (PublishFailed (debug_backend_error dbg e))\<rparr>"
        by (rule tx_fail_active) (simp add: fr True)
      have m1: "mirrors ?tx b1"
        using m law by (auto simp: mirrors_def recorded_def)
      have "tx_safe ?bad b1"
        unfolding bad using m1 pf f law Some
        by (simp add: tx_safe_def mirrors_def recorded_def prepared_facts_def tx_reservation_def fr)
      moreover have "atomic_step (plan_write_set tx) (tx_abs published tx b) (tx_abs published ?bad b1)"
        unfolding bad using True law Some by (simp add: tx_abs_def fr atomic_fail)
      moreover have "same_plan tx ?bad"
        unfolding bad by (simp add: fr same_plan_def)
      ultimately show ?thesis
        by (intro good_stepI [OF c]) simp_all
    next
      case None
      let ?b = "fold (be_release be) (reserved_partitions tx) b1"
      from p None have p': "be_publish be b = (None, b1)" by simp
      obtain receipt where c: "commit dbg be ord n tx b =
          Some (Ok receipt, (committing ord n ?b ?tx)\<lparr>et_receipt := Some receipt\<rparr>, ?b)"
        using commit_publishes [OF True p' reached] by blast
      let ?new = "(committing ord n ?b ?tx)\<lparr>et_receipt := Some receipt\<rparr>"
      from law have v1: "valid b1" by simp
      note rel = release_all [OF v1, of "reserved_partitions tx"]
      have "set (reserved_partitions tx) = referenced tx"
        using f(2) by (intro set_reserved) (simp add: prepared_facts_def)
      then have views: "held ?b = {}" "published ?b = staged b" "valid ?b"
        using rel law None f(5) by auto
      have stg: "staged b = bmap_get (et_declared_write_set tx)"
        using f(1,3) by (simp add: mirrors_def)
      have ev: "events_of be b1 \<subseteq> events_of be ?b"
        by (rule release_all_events)
      have "tx_safe ?new ?b"
        using m pf f law views stg ev
        by (auto simp: tx_safe_def mirrors_def recorded_def prepared_facts_def tx_reservation_def
            committing_def fr)
      moreover have "atomic_step (plan_write_set tx) (tx_abs published tx b) (tx_abs published ?new ?b)"
      proof -
        have "plan_write_set tx = staged b"
          using stg f(2) by (simp add: plan_write_set_def prepared_facts_def)
        then show ?thesis
          using views True f(4) by (simp add: tx_abs_def committing_def atomic_commit)
      qed
      ultimately show ?thesis
        by (intro good_stepI [OF map_option_snd_Some [OF c]])
           (simp_all add: committing_def fr same_plan_def)
    qed
  qed
qed

text \<open>The transaction an abort builds its receipt from.\<close>

definition aborting :: "TransactionFailure \<Rightarrow> nat \<Rightarrow> ExecutionTransaction \<Rightarrow> ExecutionTransaction" where
  "aborting failure elapsed tx =
     (let staged = bset_of_list (map sw_partition (bmap_values (et_staged_write_set tx)));
          kept = bset_difference (reserved_partitions tx) staged
      in tx\<lparr>et_teardown := (et_teardown tx)
           \<lparr>td_retired_partitions := bset_extend staged (td_retired_partitions (et_teardown tx)),
            td_released_partitions := bset_extend kept (td_released_partitions (et_teardown tx))\<rparr>,
         et_failure := Some failure, et_state := Aborted failure,
         et_decision := Some (DecisionAborted failure),
         et_timings := (et_timings tx)\<lparr>tt_finalize_nanos := duration_as_nanos_u64 elapsed\<rparr>\<rparr>)"

definition abort_failure :: "string \<Rightarrow> ExecutionTransaction \<Rightarrow> TransactionFailure" where
  "abort_failure reason tx = (case et_state tx of Failed failure \<Rightarrow> failure | _ \<Rightarrow> Cancelled reason)"

definition torn_down :: "TransactionFailure \<Rightarrow> ExecutionTransaction \<Rightarrow> 'b \<Rightarrow> 'b" where
  "torn_down failure tx b =
     (let staged = bset_of_list (map sw_partition (bmap_values (et_staged_write_set tx)))
      in fold (be_release be) (bset_difference (reserved_partitions tx) staged)
           (fold (\<lambda>p. be_retire be p failure) staged b))"

lemma abort_active:
  assumes "et_state tx \<noteq> Committed" "\<forall>f. et_state tx \<noteq> Aborted f"
  shows "\<exists>receipt. abort be reason n tx b = Some (Ok receipt,
      (aborting (abort_failure reason tx) n tx)\<lparr>et_receipt := Some receipt\<rparr>,
      torn_down (abort_failure reason tx) tx b)"
proof -
  obtain receipt where "build_receipt (aborting (abort_failure reason tx) n tx) = Some receipt"
    by (simp add: build_receipt_def aborting_def Let_def)
  moreover have "\<not> (case et_state tx of Aborted _ \<Rightarrow> True | _ \<Rightarrow> False)"
    using assms(2) by (simp split: TransactionState.split)
  ultimately show ?thesis
    using assms(1) by (simp add: abort_def Let_def aborting_def torn_down_def abort_failure_def)
qed

lemma torn_down_views:
  assumes "mirrors tx b"
  shows "valid (torn_down f tx b)" "staged (torn_down f tx b) = Map.empty"
    "published (torn_down f tx b) = published b"
    "held (torn_down f tx b) \<subseteq> held b - set (reserved_partitions tx)"
    "events_of be b \<subseteq> events_of be (torn_down f tx b)"
proof -
  let ?ps = "bset_of_list (map sw_partition (bmap_values (et_staged_write_set tx)))"
  let ?b1 = "fold (\<lambda>p. be_retire be p f) ?ps b"
  let ?b2 = "fold (be_release be) (bset_difference (reserved_partitions tx) ?ps) ?b1"
  have td: "torn_down f tx b = ?b2" by (simp add: torn_down_def Let_def)
  from assms have v: "valid b" by (simp add: mirrors_def recorded_def)
  note ret = retire_all [OF v, of f ?ps]
  note rel = release_all [OF ret(1), of "bset_difference (reserved_partitions tx) ?ps"]
  show "valid (torn_down f tx b)" unfolding td by (rule rel(1))
  show "published (torn_down f tx b) = published b" unfolding td using rel(4) ret(3) by simp
  show "held (torn_down f tx b) \<subseteq> held b - set (reserved_partitions tx)"
    unfolding td rel(2) ret(2) by auto
  have "staged b k = Some w \<Longrightarrow> sw_partition w \<in> set ?ps" for k w
    using assms by (auto simp: mirrors_def image_image dest!: map_of_SomeD intro!: image_eqI)
  then have "staged ?b1 k \<noteq> Some w" for k w
    using ret(4) by blast
  then have "staged ?b1 = Map.empty"
    by (intro ext) (metis not_None_eq)
  then show "staged (torn_down f tx b) = Map.empty"
    unfolding td using rel(3) by simp
  show "events_of be b \<subseteq> events_of be (torn_down f tx b)"
    unfolding td using retire_all_events release_all_events by blast
qed

lemma safe_abort:
  assumes safe: "tx_safe tx b"
  shows "good_step tx b (map_option snd (abort be reason n tx b))"
proof (cases "et_state tx = Committed \<or> (\<exists>f. et_state tx = Aborted f)")
  case True
  then have "\<exists>r. abort be reason n tx b = Some (r, tx, b)"
    using safe by (auto simp: abort_def tx_safe_def)
  then obtain r where "abort be reason n tx b = Some (r, tx, b)" ..
  with good_stay [OF safe] show ?thesis by simp
next
  case False
  let ?f = "abort_failure reason tx"
  let ?b = "torn_down ?f tx b"
  obtain receipt where c: "abort be reason n tx b =
      Some (Ok receipt, (aborting ?f n tx)\<lparr>et_receipt := Some receipt\<rparr>, ?b)"
    using abort_active False by blast
  let ?new = "(aborting ?f n tx)\<lparr>et_receipt := Some receipt\<rparr>"
  have m: "mirrors tx b" and pub: "published b = Map.empty" and h: "held b \<subseteq> referenced tx"
    and r: "et_reservation tx = None \<or> et_reservation tx = Some (tx_reservation tx)"
    and base: "\<not> td_partial_publication (et_teardown tx)" "plan_bindings (et_bound_plan tx) \<noteq> None"
    using safe False by (cases "et_state tx"; simp add: tx_safe_def prepared_facts_def)+
  note views = torn_down_views [OF m, of ?f]
  have "held ?b = {}" if "et_reservation tx \<noteq> None"
  proof -
    from r that have "et_reservation tx = Some (tx_reservation tx)" by (elim disjE) (erule (1) notE, assumption)
    from set_reserved [OF this] h have "held b - set (reserved_partitions tx) = {}" by simp
    with views(4) show ?thesis by simp
  qed
  with views h have "tx_safe ?new ?b"
    using m pub base
    by (auto simp: tx_safe_def mirrors_def recorded_def aborting_def Let_def)
  moreover have "phase_of (et_state tx) \<in> {PNew, PPrepared, PExecuting, PFailed}"
    using False by (cases "et_state tx") auto
  then have "atomic_step (plan_write_set tx) (tx_abs published tx b) (tx_abs published ?new ?b)"
    using views(3) by (simp add: tx_abs_def aborting_def Let_def atomic_abort)
  ultimately show ?thesis
    by (intro good_stepI [OF map_option_snd_Some [OF c]]) (simp_all add: aborting_def Let_def same_plan_def)
qed

lemma safe_transport:
  assumes "tx_safe tx b"
  shows "good_step tx b (Some (with_transport_receipt r tx, b))"
proof -
  have "tx_safe (with_transport_receipt r tx) b"
    using assms
    by (cases "et_state tx") (simp_all add: with_transport_receipt_def tx_safe_def mirrors_def
      recorded_def prepared_facts_def tx_reservation_def)
  then show ?thesis
    by (intro good_stepI [OF refl]) (simp_all add: with_transport_receipt_def same_plan_def tx_abs_def)
qed

lemma every_call_good: "tx_safe tx b \<Longrightarrow> good_step tx b (tx_call_step dbg be c tx b)"
  by (cases c)
     (simp_all add: safe_prepare safe_execute safe_execute_operation safe_commit safe_abort safe_transport)

subsection \<open>Reachable states\<close>

lemma start_safe:
  assumes "ExecutionTransaction_new i plan ops bd = Ok tx" "plan_bindings plan \<noteq> None" "fresh b"
  shows "tx_safe tx b"
  using assms(1,2) fresh_law [OF assms(3)]
  by (auto simp: ExecutionTransaction_new_def tx_safe_def mirrors_def recorded_def
      TeardownFacts_default_def split: if_splits)

lemma env_safe: "tx_safe tx b \<Longrightarrow> env b b' \<Longrightarrow> tx_safe tx b'"
proof -
  assume safe: "tx_safe tx b" and e: "env b b'"
  then have "valid b" by (simp add: tx_safe_def recorded_def)
  from env_law [OF this e] safe show ?thesis
    by (auto simp: tx_safe_def mirrors_def recorded_def split: TransactionState.split)
qed

lemma reach_safe:
  assumes "tx_reach dbg be env tx0 b0 tx b" "tx_safe tx0 b0"
  shows "tx_safe tx b \<and> same_plan tx0 tx"
  using assms
proof induction
  case reach_start
  then show ?case by simp
next
  case (reach_call tx b c tx' b')
  then have "good_step tx b (tx_call_step dbg be c tx b)"
    by (intro every_call_good) simp
  with reach_call show ?case
    by (auto simp: good_step_def intro: same_plan_trans)
next
  case (reach_event tx b b')
  then show ?case by (blast intro: env_safe)
qed

lemma reach_step:
  assumes "tx_reach dbg be env tx0 b0 tx b" "tx_safe tx0 b0"
  shows "\<exists>tx' b'. tx_call_step dbg be c tx b = Some (tx', b') \<and>
    (tx_abs published tx b = tx_abs published tx' b' \<or>
     atomic_step (plan_write_set tx0) (tx_abs published tx b) (tx_abs published tx' b'))"
proof -
  from reach_safe [OF assms] have "tx_safe tx b" "plan_write_set tx0 = plan_write_set tx"
    by (auto simp: same_plan_def plan_write_set_def)
  then show ?thesis
    using every_call_good [of tx b dbg c] by (auto simp: good_step_def)
qed

lemma safe_atomic:
  assumes "tx_safe tx b"
  shows "published b = (if et_state tx = Committed then plan_write_set tx else Map.empty)"
  using assms by (cases "et_state tx") (auto simp: tx_safe_def plan_write_set_def prepared_facts_def)

lemma safe_holds:
  assumes "tx_safe tx b"
  shows "held b \<subseteq> referenced tx"
    and "et_state tx = Committed \<Longrightarrow> held b = {}"
    and "et_state tx = Aborted f \<Longrightarrow> staged b = Map.empty"
    and "et_state tx = Aborted f \<Longrightarrow> et_reservation tx \<noteq> None \<Longrightarrow> held b = {}"
  using assms by (cases "et_state tx"; simp add: tx_safe_def)+

lemma commit_needs_boundary:
  assumes "tx_safe tx b" "commit dbg be ord n tx b = Some (Ok receipt, tx', b')"
  shows "boundary_reached tx (events_of be b)"
proof -
  let ?tx = "refresh_completed_events be b tx"
  obtain es where fr: "?tx = tx\<lparr>et_completed_events := es\<rparr>"
    using refresh_frame [of be b tx] by blast
  have ex: "et_state tx = Executing" and miss: "missing_boundary_refs ?tx = []"
    using assms(2) by (auto simp: commit_def Let_def split: if_splits)
  have "mirrors ?tx b"
    using assms(1) ex by (intro refresh_mirrors) (simp add: tx_safe_def)
  then have "set (et_completed_events ?tx) \<subseteq> events_of be b"
    by (simp add: mirrors_def recorded_def)
  with missing_Nil_reached [OF miss] have "boundary_reached ?tx (events_of be b)"
    by (rule boundary_reached_mono)
  then show ?thesis by (simp add: boundary_reached_def fr)
qed

end

section \<open>The fake backend as an environment\<close>

text \<open>
  A fresh fake is a new one, with either completion mode; between calls a test completes events.
\<close>

definition fake_fresh :: "FakeExecutionBackend \<Rightarrow> bool" where
  "fake_fresh b \<longleftrightarrow> (\<exists>on. b = fake_set_auto_complete on FakeExecutionBackend_new)"

definition fake_env :: "FakeExecutionBackend \<Rightarrow> FakeExecutionBackend \<Rightarrow> bool" where
  "fake_env b b' \<longleftrightarrow> (\<exists>e. b' = fake_complete_event e b)"

lemma fake_dispatch_completed:
  "set (fb_completed_events b) \<subseteq> set (fb_completed_events (fold fake_dispatch_event es b))"
proof (induction es arbitrary: b)
  case (Cons e es)
  have "set (fb_completed_events b) \<subseteq> set (fb_completed_events (fake_dispatch_event e b))"
    by (auto simp: fake_dispatch_event_def Let_def)
  with Cons.IH [of "fake_dispatch_event e b"] show ?case by auto
qed simp

lemma fake_events_of: "events_of fake_backend b = set (fb_completed_events b)"
  by (simp add: events_of_def fake_backend_def fake_event_completed_def)

lemma fake_methods:
  "be_reserve fake_backend = fake_reserve" "be_run_operation fake_backend = fake_run_operation"
  "be_stage_write fake_backend = fake_stage_write" "be_publish fake_backend = fake_publish"
  "be_release fake_backend = fake_release" "be_retire fake_backend = fake_retire"
  by (simp_all add: fake_backend_def)

interpretation fake_run: execution_environment
  fake_backend fake_ok fake_held fake_staged fake_published fake_fresh fake_env
proof unfold_locales
  fix op b res b'
  assume "be_run_operation fake_backend op b = (res, b')"
  then have "fake_run_operation op b = (res, b')" by (simp add: fake_backend_def)
  then show "events_of fake_backend b \<subseteq> events_of fake_backend b'"
    using fake_dispatch_completed
      [of "b\<lparr>fb_executed_operations := fb_executed_operations b @ [op]\<rparr>" "op_completed_events op"]
    by (auto simp: fake_events_of fake_run_operation_def Let_def)
qed (auto simp: fake_fresh_def fake_env_def fake_set_auto_complete_def FakeExecutionBackend_new_def
    fake_complete_event_def fake_events_of fake_ok_def fake_held_def fake_staged_def fake_published_def
    fake_methods fake_reserve_def fake_stage_write_def fake_publish_def fake_release_def
    fake_retire_def Let_def split: if_splits)

end
