(* ===== verification/Transaction_Runs.thy ===== *)
theory Transaction_Runs
  imports Transaction_Safety
begin

text \<open>
  Whole runs of a transaction. The boundary check of \<open>commit\<close> is exact: it blocks precisely while
  some participant of a boundary operation has not completed. On the in-memory backend every
  accepted plan whose writes have distinct output references runs from \<open>New\<close> to \<open>Committed\<close>.
  \<open>run_calls\<close> executes a list of calls; its results are reachable states.
\<close>

section \<open>Construction\<close>

lemma new_distributed:
  "ExecutionTransaction_new i plan ops bd = Ok tx \<Longrightarrow> plan_bindings plan \<noteq> None"
  by (auto simp: ExecutionTransaction_new_def is_degenerate_def plan_bindings_def
      split: if_splits BoundPlanKind.splits)

lemma new_fields:
  assumes "ExecutionTransaction_new i plan ops bd = Ok tx"
  shows "et_state tx = New" "et_operations tx = ops" "et_bound_plan tx = plan"
    "et_commit_boundary tx = bd" "et_id tx = i" "et_receipt tx = None" "ops \<noteq> []"
    "et_teardown tx = TeardownFacts_default"
  using assms by (auto simp: ExecutionTransaction_new_def split: if_splits)

section \<open>The boundary check is exact\<close>

lemma record_events_set:
  assumes "bset_ok (et_completed_events tx)"
  shows "bset_ok (et_completed_events (record_events be b es tx))"
    and "set (et_completed_events (record_events be b es tx)) =
      set (et_completed_events tx) \<union> {e \<in> set es. be_event_completed be b e}"
  using assms by (auto simp: record_events_frame)

lemma refreshed_events:
  assumes "bset_ok (et_completed_events tx)"
  shows "set (et_completed_events (refresh_completed_events be b tx)) =
    set (et_completed_events tx) \<union>
    {e \<in> (\<Union>op\<in>set (et_operations tx). set (op_completed_events op)). be_event_completed be b e}"
proof -
  have "set (et_completed_events (fold (\<lambda>op tx. record_events be b (op_completed_events op) tx) ops tx)) =
      set (et_completed_events tx) \<union>
      {e \<in> (\<Union>op\<in>set ops. set (op_completed_events op)). be_event_completed be b e}" for ops
    using assms by (induction ops arbitrary: tx) (auto simp: record_events_set)
  then show ?thesis by (simp add: refresh_completed_events_def)
qed

lemma barrier_events:
  "is_barrier r op \<Longrightarrow> p \<in> set (op_partitions op) \<Longrightarrow> BarrierCompleted p r \<in> set (op_completed_events op)"
  "is_barrier r op \<Longrightarrow> operation_ref op = OpBarrier r"
  by (cases op; simp)+

lemma launch_events:
  "is_launch r op \<Longrightarrow> p \<in> set (op_partitions op) \<Longrightarrow> LaunchCompleted p r \<in> set (op_completed_events op)"
  "is_launch r op \<Longrightarrow> operation_ref op = OpLaunch r"
  by (cases op; simp)+

text \<open>With distinct references the first operation found is the only one.\<close>

lemma find_unique:
  assumes "distinct (map operation_ref ops)" "op \<in> set ops" "P op"
    and "\<And>x. P x \<Longrightarrow> operation_ref x = k"
  shows "List.find P ops = Some op"
proof -
  obtain x where x: "List.find P ops = Some x"
    using assms(2,3) by (cases "List.find P ops") (auto simp: find_None_iff)
  from find_Some_mem [OF x] assms have "x \<in> set ops" "operation_ref x = operation_ref op"
    by auto
  with assms(1,2) have "x = op" by (meson distinct_map inj_onD)
  with x show ?thesis by simp
qed

lemma reached_missing_Nil:
  assumes "boundary_reached tx es" "distinct (map operation_ref (et_operations tx))"
    and "\<And>op e. op \<in> set (et_operations tx) \<Longrightarrow> e \<in> set (op_completed_events op) \<Longrightarrow> e \<in> es \<Longrightarrow>
      e \<in> set (et_completed_events tx)"
  shows "missing_boundary_refs tx = []"
proof -
  note b = fold_all_Nil [where f = "missing_barrier tx", OF missing_barrier_Nil]
  note l = fold_all_Nil [where f = "missing_launch tx", OF missing_launch_Nil]
  have "\<exists>op. List.find (is_barrier r) (et_operations tx) = Some op \<and>
      (\<forall>p\<in>set (op_partitions op). BarrierCompleted p r \<in> set (et_completed_events tx))"
    if "r \<in> set (cb_barriers (et_commit_boundary tx))" for r
  proof -
    from that assms(1) obtain op where op: "op \<in> set (et_operations tx)" "is_barrier r op"
      "\<forall>p\<in>set (op_partitions op). BarrierCompleted p r \<in> es"
      unfolding boundary_reached_def by blast
    have "List.find (is_barrier r) (et_operations tx) = Some op"
      by (rule find_unique [where k = "OpBarrier r"]) (use assms(2) op(1,2) barrier_events(2) in auto)
    with op assms(3) [OF op(1)] barrier_events(1) [OF op(2)] show ?thesis by blast
  qed
  moreover have "\<exists>op. List.find (is_launch r) (et_operations tx) = Some op \<and>
      (\<forall>p\<in>set (op_partitions op). LaunchCompleted p r \<in> set (et_completed_events tx))"
    if "r \<in> set (cb_launches (et_commit_boundary tx))" for r
  proof -
    from that assms(1) obtain op where op: "op \<in> set (et_operations tx)" "is_launch r op"
      "\<forall>p\<in>set (op_partitions op). LaunchCompleted p r \<in> es"
      unfolding boundary_reached_def by blast
    have "List.find (is_launch r) (et_operations tx) = Some op"
      by (rule find_unique [where k = "OpLaunch r"]) (use assms(2) op(1,2) launch_events(2) in auto)
    with op assms(3) [OF op(1)] launch_events(1) [OF op(2)] show ?thesis by blast
  qed
  ultimately show ?thesis
    unfolding missing_boundary_refs_def Let_def l b by blast
qed

context execution_environment
begin

lemma boundary_check_exact:
  assumes "tx_safe tx b" "et_state tx = Executing"
  shows "missing_boundary_refs (refresh_completed_events be b tx) = [] \<longleftrightarrow>
    boundary_reached tx (events_of be b)"
proof -
  let ?tx = "refresh_completed_events be b tx"
  obtain es where fr: "?tx = tx\<lparr>et_completed_events := es\<rparr>"
    using refresh_frame [of be b tx] by blast
  have m: "mirrors tx b" and d: "distinct (map operation_ref (et_operations tx))"
    using assms by (simp_all add: tx_safe_def prepared_facts_def)
  then have ok: "bset_ok (et_completed_events tx)" by (simp add: mirrors_def recorded_def)
  have reached: "boundary_reached ?tx fs = boundary_reached tx fs" for fs
    by (simp add: boundary_reached_def fr)
  have ops: "et_operations ?tx = et_operations tx" by (simp add: fr)
  show ?thesis
  proof
    assume "missing_boundary_refs ?tx = []"
    then have "boundary_reached tx (set (et_completed_events ?tx))"
      using missing_Nil_reached [of ?tx] unfolding reached by simp
    moreover have "set (et_completed_events ?tx) \<subseteq> events_of be b"
      using refresh_mirrors [OF m] by (simp add: mirrors_def recorded_def)
    ultimately show "boundary_reached tx (events_of be b)"
      by (rule boundary_reached_mono)
  next
    assume r: "boundary_reached tx (events_of be b)"
    show "missing_boundary_refs ?tx = []"
    proof (rule reached_missing_Nil [where es = "events_of be b"])
      show "boundary_reached ?tx (events_of be b)" using r by (simp only: reached)
      show "distinct (map operation_ref (et_operations ?tx))" using d by (simp only: ops)
      fix op e
      assume "op \<in> set (et_operations ?tx)" "e \<in> set (op_completed_events op)" "e \<in> events_of be b"
      then show "e \<in> set (et_completed_events ?tx)"
        unfolding refreshed_events [OF ok] ops by (auto simp: events_of_def)
    qed
  qed
qed

text \<open>The three outcomes of a commit of an executing transaction.\<close>

lemma commit_blocked_iff:
  assumes "tx_safe tx b" "et_state tx = Executing"
  shows "(\<exists>m tx' b'. commit dbg be ord n tx b = Some (Err (BoundaryNotReached m), tx', b')) \<longleftrightarrow>
    \<not> boundary_reached tx (events_of be b)"
proof -
  let ?tx = "refresh_completed_events be b tx"
  obtain r b1 where p: "be_publish be b = (r, b1)" by (cases "be_publish be b")
  have "\<not> (\<exists>m tx' b'. commit dbg be ord n tx b = Some (Err (BoundaryNotReached m), tx', b'))"
    if "missing_boundary_refs ?tx = []"
    using that assms(2) p
    by (cases r) (auto simp: commit_def Let_def)
  moreover have "\<exists>m tx' b'. commit dbg be ord n tx b = Some (Err (BoundaryNotReached m), tx', b')"
    if "missing_boundary_refs ?tx \<noteq> []"
    using that assms(2) by (simp add: commit_def Let_def)
  ultimately show ?thesis
    using boundary_check_exact [OF assms] by blast
qed

text \<open>What a committed receipt reports.\<close>

lemma commit_receipt:
  assumes "tx_safe tx b" "commit dbg be ord n tx b = Some (Ok receipt, tx', b')"
  shows "et_state tx = Executing" "et_state tx' = Committed" "et_receipt tx' = Some receipt"
    "tx_decision receipt = DecisionCommitted ord"
    "tx_declared_write_set receipt = derive_declared_write_set (et_operations tx)"
    "tx_bound_hash receipt = bdp_bound_hash (et_bound_plan tx)"
    "tx_reservation_summary receipt = tx_reservation tx"
    "set (tx_synchronization_events receipt) \<subseteq> events_of be b"
    "td_retired_partitions (tx_teardown receipt) = td_retired_partitions (et_teardown tx)"
proof -
  let ?tx = "refresh_completed_events be b tx"
  obtain es where fr: "?tx = tx\<lparr>et_completed_events := es\<rparr>"
    using refresh_frame [of be b tx] by blast
  have ex: "et_state tx = Executing" and miss: "missing_boundary_refs ?tx = []"
    using assms(2) by (auto simp: commit_def Let_def split: if_splits)
  obtain r b1 where p: "be_publish be b = (r, b1)" by (cases "be_publish be b")
  with assms(2) ex miss have "r = None" by (cases r) (auto simp: commit_def Let_def)
  with p have p': "be_publish be b = (None, b1)" by simp
  let ?b = "fold (be_release be) (reserved_partitions tx) b1"
  from commit_publishes [OF ex p' miss, of dbg ord n] assms(2)
  have tx': "tx' = (committing ord n ?b ?tx)\<lparr>et_receipt := Some receipt\<rparr>" and
    b': "b' = ?b" by auto
  have "build_receipt (committing ord n ?b ?tx) = Some receipt"
  proof -
    have "reserved_partitions ?tx = reserved_partitions tx" by (simp add: reserved_partitions_def fr)
    then show ?thesis
      using assms(2) ex miss p' by (auto simp: commit_def Let_def committing_def)
  qed
  then have rc: "build_receipt (committing ord n ?b (tx\<lparr>et_completed_events := es\<rparr>)) = Some receipt"
    by (simp add: fr)
  have f: "et_declared_write_set tx = derive_declared_write_set (et_operations tx)"
    "et_reservation tx = Some (tx_reservation tx)"
    using assms(1) ex by (simp_all add: tx_safe_def prepared_facts_def)
  have "mirrors ?tx b"
    using assms(1) ex by (intro refresh_mirrors) (simp add: tx_safe_def)
  then have "set es \<subseteq> events_of be b"
    by (simp add: mirrors_def recorded_def fr)
  with rc f tx' ex show "et_state tx = Executing" "et_state tx' = Committed"
    "et_receipt tx' = Some receipt" "tx_decision receipt = DecisionCommitted ord"
    "tx_declared_write_set receipt = derive_declared_write_set (et_operations tx)"
    "tx_bound_hash receipt = bdp_bound_hash (et_bound_plan tx)"
    "tx_reservation_summary receipt = tx_reservation tx"
    "set (tx_synchronization_events receipt) \<subseteq> events_of be b"
    "td_retired_partitions (tx_teardown receipt) = td_retired_partitions (et_teardown tx)"
    by (auto simp: build_receipt_def committing_def)
qed

lemma executing_keys:
  assumes "tx_safe tx b" "et_state tx = Executing"
  shows "keys_ok (et_operation_keys tx) (et_operations tx)"
  using assms by (simp add: tx_safe_def prepared_facts_def)

lemma abort_returns:
  assumes "tx_safe tx b" "et_state tx \<noteq> Committed"
  obtains receipt tx' b' where "abort be reason n tx b = Some (Ok receipt, tx', b')"
proof (cases "\<exists>f. et_state tx = Aborted f")
  case True
  then obtain f where f: "et_state tx = Aborted f" by blast
  with assms(1) obtain receipt where "et_receipt tx = Some receipt" by (auto simp: tx_safe_def)
  with f that show thesis by (simp add: abort_def)
next
  case False
  with abort_active [OF assms(2)] that show thesis by blast
qed

lemma reach_start_safe:
  assumes "ExecutionTransaction_new i plan ops bd = Ok tx0" "fresh b0"
    and "tx_reach dbg be env tx0 b0 tx b"
  shows "tx_safe tx b" "same_plan tx0 tx"
  using reach_safe [OF assms(3)] start_safe [OF assms(1) new_distributed [OF assms(1)] assms(2)]
  by blast+

end

section \<open>Terminal states\<close>

definition terminal :: "TransactionState \<Rightarrow> bool" where
  "terminal s \<longleftrightarrow> (case s of Committed \<Rightarrow> True | Aborted f \<Rightarrow> True | _ \<Rightarrow> False)"

lemma terminal_absorbing:
  assumes "terminal (et_state tx)" "tx_call_step dbg be c tx b = Some (tx', b')"
  shows "b' = b \<and> (tx' = tx \<or> (\<exists>r. tx' = tx\<lparr>et_transport_receipt := Some r\<rparr>))"
proof -
  have "prepare be n tx b = Some (Some (PrepareInvalidState (et_state tx)), tx, b)"
    "execute be n tx b = Some (Some (ExecuteInvalidState (et_state tx)), tx, b)"
    "execute_operation be op tx b = Some (Some (ExecuteInvalidState (et_state tx)), tx, b)"
    "commit dbg be ord n tx b = Some (Err (CommitInvalidState (et_state tx)), tx, b)" for n op ord
    using assms(1)
    by (cases "et_state tx";
        simp add: terminal_def prepare_def execute_def execute_operation_def commit_def)+
  moreover have "abort be reason n tx b = Some (r, tx1, b1) \<Longrightarrow> tx1 = tx \<and> b1 = b" for reason n r tx1 b1
    using assms(1) by (cases "et_state tx") (auto simp: terminal_def abort_def)
  ultimately show ?thesis
    using assms(2) by (cases c) (auto simp: with_transport_receipt_def)
qed

lemma abort_Ok_state:
  assumes "abort be reason n tx b = Some (Ok receipt, tx', b')"
  shows "(\<exists>f. et_state tx' = Aborted f) \<and> et_receipt tx' = Some receipt"
proof (cases "case et_state tx of Aborted _ \<Rightarrow> True | _ \<Rightarrow> False")
  case True
  with assms show ?thesis by (auto simp: abort_def split: TransactionState.splits)
next
  case False
  moreover have "et_state tx \<noteq> Committed" using assms False by (auto simp: abort_def)
  ultimately show ?thesis using assms by (auto simp: abort_def Let_def)
qed

lemma abort_again:
  assumes "abort be reason n tx b = Some (Ok receipt, tx', b')"
  shows "abort be2 reason2 n2 tx' b2 = Some (Ok receipt, tx', b2)"
  using abort_Ok_state [OF assms] by (auto simp: abort_def)

section \<open>The fake completes every accepted plan\<close>

text \<open>A fake that completes what it dispatches and has not published yet.\<close>

definition fake_live :: "FakeExecutionBackend \<Rightarrow> bool" where
  "fake_live b \<longleftrightarrow> fb_auto_complete b \<and> \<not> fb_published_once b"

lemma fake_dispatch_live:
  "fake_live b \<Longrightarrow> fake_live (fold fake_dispatch_event es b) \<and>
     set es \<subseteq> set (fb_completed_events (fold fake_dispatch_event es b))"
proof (induction es arbitrary: b)
  case (Cons e es)
  have "fake_live (fake_dispatch_event e b)" "e \<in> set (fb_completed_events (fake_dispatch_event e b))"
    using Cons.prems by (simp_all add: fake_dispatch_event_def fake_live_def Let_def)
  with Cons.IH [of "fake_dispatch_event e b"] fake_dispatch_completed [of "fake_dispatch_event e b" es]
  show ?case by auto
qed simp

lemma fake_reserve_all:
  "fake_ok b \<Longrightarrow> fake_live b \<Longrightarrow> distinct (map fst rs) \<Longrightarrow> fst ` set rs \<inter> fake_held b = {} \<Longrightarrow>
     \<exists>b'. reserve_all fake_backend rs b = (None, b') \<and> fake_live b'"
proof (induction rs arbitrary: b)
  case (Cons q rs)
  obtain p rec where q: "q = (p, rec)" by (cases q)
  let ?b = "b\<lparr>fb_reservations := bmap_insert p rec (fb_reservations b)\<rparr>"
  have r: "be_reserve fake_backend p rec b = (None, ?b)"
    using Cons.prems(4) q by (auto simp: fake_methods fake_reserve_def fake_held_def)
  have "fst ` set rs \<inter> fake_held ?b = {}" "distinct (map fst rs)" "fake_ok ?b" "fake_live ?b"
    using Cons.prems q by (auto simp: fake_held_def fake_ok_def fake_live_def)
  with Cons.IH [of ?b] r q show ?case by simp
qed simp

lemma fake_stage_all:
  "fake_ok b \<Longrightarrow> fake_live b \<Longrightarrow> distinct (map sw_output_ref ws) \<Longrightarrow>
     \<forall>w\<in>set ws. fake_staged b (sw_output_ref w) = None \<Longrightarrow>
     \<exists>tx' b'. stage_writes fake_backend ws tx b = (None, tx', b') \<and> fake_live b' \<and>
       fb_completed_events b' = fb_completed_events b"
proof (induction ws arbitrary: tx b)
  case (Cons w ws)
  let ?b = "b\<lparr>fb_staged_total_bytes := saturating_add (fb_staged_total_bytes b) (sw_byte_count w),
      fb_staged_writes := bmap_insert (sw_output_ref w) w (fb_staged_writes b)\<rparr>"
  have r: "be_stage_write fake_backend w b = (None, ?b)"
    using Cons.prems(4)
    by (auto simp: fake_methods fake_stage_write_def fake_staged_def map_of_eq_None_iff)
  have "fake_ok ?b" "fake_live ?b" "distinct (map sw_output_ref ws)"
      "\<forall>w\<in>set ws. fake_staged ?b (sw_output_ref w) = None"
    using Cons.prems by (auto simp: fake_ok_def fake_live_def fake_staged_def image_iff)
  from Cons.IH [OF this] r show ?case by simp
qed simp

text \<open>A dispatched operation completes its events and stays live.\<close>

lemma fake_execute_operation:
  assumes run: "fake_run.running ws tx b" and mem: "op \<in> set (et_operations tx)"
    and live: "fake_live b" and d: "distinct (map sw_output_ref (ws @ op_staged_writes op))"
  shows "\<exists>tx' b'. execute_operation fake_backend op tx b = Some (None, tx', b') \<and> fake_live b' \<and>
    set (op_completed_events op) \<union> set (fb_completed_events b) \<subseteq> set (fb_completed_events b')"
proof -
  have st: "et_state tx = Executing" "keys_ok (et_operation_keys tx) (et_operations tx)"
    and dr: "distinct (map operation_ref (et_operations tx))"
    and m: "fake_run.mirrors tx b" and sw: "et_staged_write_set tx = fold insert_write ws []"
    using run by (auto simp: fake_run.running_def fake_run.prepared_facts_def)
  have v: "fake_ok b" using m by (simp add: fake_run.mirrors_def fake_run.recorded_def)
  have stg: "fake_staged b = bmap_get (bmap_of_list (keyed_writes ws))"
    using m sw by (simp add: fake_run.mirrors_def insert_writes_fold bmap_of_list_def)
  let ?b1 = "fold fake_dispatch_event (op_completed_events op)
      (b\<lparr>fb_executed_operations := fb_executed_operations b @ [op]\<rparr>)"
  have r: "be_run_operation fake_backend op b = (None, ?b1)"
    by (simp add: fake_methods fake_run_operation_def Let_def)
  have l1: "fake_live ?b1" "set (op_completed_events op) \<subseteq> set (fb_completed_events ?b1)"
    using fake_dispatch_live [of "b\<lparr>fb_executed_operations := fb_executed_operations b @ [op]\<rparr>"
      "op_completed_events op"] live by (auto simp: fake_live_def)
  have c1: "set (fb_completed_events b) \<subseteq> set (fb_completed_events ?b1)"
    using fake_dispatch_completed [of "b\<lparr>fb_executed_operations := fb_executed_operations b @ [op]\<rparr>"
      "op_completed_events op"] by simp
  have v1: "fake_ok ?b1" "fake_staged ?b1 = fake_staged b"
    using fake.run_law [OF v r] by auto
  have "fake_staged ?b1 (sw_output_ref w) = None" if "w \<in> set (op_staged_writes op)" for w
  proof -
    have "sw_output_ref w \<notin> set (map sw_output_ref ws)" using d that by auto
    then show ?thesis
      unfolding v1(2) stg by (simp add: map_of_eq_None_iff flip: set_map)
  qed
  then have free: "\<forall>w\<in>set (op_staged_writes op). fake_staged ?b1 (sw_output_ref w) = None" by blast
  have dw: "distinct (map sw_output_ref (op_staged_writes op))" using d by simp
  obtain tx' b' where s: "stage_writes fake_backend (op_staged_writes op) tx ?b1 = (None, tx', b')"
      "fake_live b'" "fb_completed_events b' = fb_completed_events ?b1"
    using fake_stage_all [OF v1(1) l1(1) dw free] by blast
  show ?thesis
  proof (rule execute_operation_cases [OF st, where op = op and be = fake_backend and b = b])
    assume "op \<notin> set (et_operations tx) \<or> \<not> distinct (map operation_ref (et_operations tx))"
    with mem dr show ?thesis by blast
  next
    fix tx1 b2 c
    assume "be_run_operation fake_backend op b = (None, b2)"
      "stage_writes fake_backend (op_staged_writes op) tx b2 = (None, tx1, c)"
      "execute_operation fake_backend op tx b = Some (None, record_events fake_backend c (op_completed_events op)
         (tx1\<lparr>et_executed_operations := et_executed_operations tx1 @
            [\<lparr>eo_operation = op, eo_byte_count = op_byte_count op\<rparr>]\<rparr>), c)"
    with r s l1 c1 show ?thesis by auto
  qed (use r s in auto)
qed

lemma fake_execute_all:
  assumes "fake_run.running ws tx b" "set ops \<subseteq> set (et_operations tx)" "fake_live b"
    and "distinct (map sw_output_ref (ws @ plan_writes ops))"
  shows "\<exists>tx' b'. execute_all fake_backend ops tx b = Some (None, tx', b') \<and> fake_live b' \<and>
    (\<Union>op\<in>set ops. set (op_completed_events op)) \<union> set (fb_completed_events b) \<subseteq> set (fb_completed_events b')"
  using assms
proof (induction ops arbitrary: ws tx b)
  case Nil
  then show ?case by simp
next
  case (Cons op ops)
  have mem: "op \<in> set (et_operations tx)" using Cons.prems(2) by simp
  have d: "distinct (map sw_output_ref (ws @ op_staged_writes op))"
    and d': "distinct (map sw_output_ref ((ws @ op_staged_writes op) @ plan_writes ops))"
    using Cons.prems(4) by (auto simp: plan_writes_def)
  obtain tx1 b1 where s: "execute_operation fake_backend op tx b = Some (None, tx1, b1)" "fake_live b1"
      "set (op_completed_events op) \<union> set (fb_completed_events b) \<subseteq> set (fb_completed_events b1)"
    using fake_execute_operation [OF Cons.prems(1) mem Cons.prems(3) d] by blast
  from fake_run.execute_operation_running [OF Cons.prems(1) mem s(1)]
  have run: "fake_run.running (ws @ op_staged_writes op) tx1 b1" and same: "same_accepted tx tx1"
    by simp_all
  have "set ops \<subseteq> set (et_operations tx1)"
    using same Cons.prems(2) by (simp add: same_accepted_def)
  from Cons.IH [OF run this s(2) d'] obtain tx' b' where
    "execute_all fake_backend ops tx1 b1 = Some (None, tx', b')" "fake_live b'"
    "(\<Union>op\<in>set ops. set (op_completed_events op)) \<union> set (fb_completed_events b1) \<subseteq> set (fb_completed_events b')"
    by blast
  with s show ?case by (intro exI [of _ tx'] exI [of _ b'] conjI) (simp, assumption, auto)
qed

text \<open>Prepare, execute and commit all succeed.\<close>

lemma fake_commits:
  assumes new: "ExecutionTransaction_new i plan ops bd = Ok tx" and acc: "accepted_plan tx"
    and d: "distinct (map sw_output_ref (plan_writes ops))"
  shows "\<exists>tx1 b1 tx2 b2 receipt tx3 b3.
    prepare fake_backend n tx FakeExecutionBackend_new = Some (None, tx1, b1) \<and>
    execute fake_backend m tx1 b1 = Some (None, tx2, b2) \<and>
    commit dbg fake_backend ord k tx2 b2 = Some (Ok receipt, tx3, b3) \<and>
    fake_published b3 = plan_write_set tx"
proof -
  let ?b0 = "FakeExecutionBackend_new"
  note fields = new_fields [OF new]
  have fresh: "fake_fresh ?b0"
    by (auto simp: fake_fresh_def fake_set_auto_complete_def FakeExecutionBackend_new_def intro!: exI [of _ True])
  have live0: "fake_live ?b0" by (simp add: fake_live_def FakeExecutionBackend_new_def)
  note safe0 = fake_run.start_safe [OF new new_distributed [OF new] fresh]
  from acc obtain bs where bs: "plan_bindings (et_bound_plan tx) = Some bs"
    by (auto simp: accepted_plan_def)
  have dr: "distinct (map operation_ref ops)"
    using acc fields by (auto simp: accepted_plan_def)
  have "distinct (map fst (tx_reservation tx))"
    by (simp add: tx_reservation_def reservation_keys bset_ok_distinct referenced_partitions_def)
  with fake_reserve_all [of ?b0 "tx_reservation tx"] live0 obtain b1 where
    r: "reserve_all fake_backend (tx_reservation tx) ?b0 = (None, b1)" "fake_live b1"
    by (auto simp: fake_ok_def fake_held_def FakeExecutionBackend_new_def)
  from prepare_cases [OF fields(1) bs, of fake_backend n ?b0] acc r(1) obtain keys where
    p: "prepare fake_backend n tx ?b0 = Some (None, prepared n keys tx, b1)" by auto
  let ?tx1 = "prepared n keys tx"
  have safe1: "fake_run.tx_safe ?tx1 b1"
    using fake_run.safe_prepare [OF safe0, of n] p by (auto simp: fake_run.good_step_def)
  have s1: "et_state ?tx1 = Prepared" "et_operations ?tx1 = ops" by (simp_all add: prepared_def fields)
  let ?txe = "?tx1\<lparr>et_state := Executing\<rparr>"
  have run: "fake_run.running [] ?txe b1"
    using safe1 s1
    by (simp add: fake_run.running_def fake_run.tx_safe_def fake_run.mirrors_def fake_run.recorded_def
        fake_run.prepared_facts_def tx_reservation_def)
  have "distinct (map sw_output_ref ([] @ plan_writes ops))" using d by simp
  from fake_execute_all [OF run _ r(2) this] s1(2) obtain tx' b2 where
    e: "execute_all fake_backend ops ?txe b1 = Some (None, tx', b2)" "fake_live b2"
      "(\<Union>op\<in>set ops. set (op_completed_events op)) \<subseteq> set (fb_completed_events b2)" by auto
  let ?tx2 = "tx'\<lparr>et_timings := (et_timings tx')\<lparr>tt_execute_nanos := duration_as_nanos_u64 m\<rparr>\<rparr>"
  have ex: "execute fake_backend m ?tx1 b1 = Some (None, ?tx2, b2)"
    using s1 e(1) by (simp add: execute_def Let_def)
  have safe2: "fake_run.tx_safe ?tx2 b2"
    using fake_run.safe_execute [OF safe1, of m] ex by (auto simp: fake_run.good_step_def)
  have sub: "set ops \<subseteq> set (et_operations ?txe)" by (simp add: s1)
  from fake_run.execute_all_running [OF run sub] e(1)
  have "fake_run.running (plan_writes ops) tx' b2" "same_accepted ?txe tx'" by auto
  then have s2: "et_state ?tx2 = Executing" "et_operations ?tx2 = ops" "et_commit_boundary ?tx2 = bd"
    by (simp_all add: fake_run.running_def same_accepted_def s1 prepared_def fields)
  have "boundary_reached ?tx2 (events_of fake_backend b2)"
  proof -
    have "(\<forall>r\<in>set (cb_barriers bd). \<exists>op\<in>set ops. is_barrier r op) \<and>
        (\<forall>r\<in>set (cb_launches bd). \<exists>op\<in>set ops. is_launch r op)"
      using acc fields by (auto simp: accepted_plan_def)
    moreover have "op_completed_events op \<noteq> [] \<Longrightarrow> set (op_completed_events op) \<subseteq> events_of fake_backend b2"
      if "op \<in> set ops" for op
      using e(3) that by (auto simp: fake_events_of)
    then have "set (op_completed_events op) \<subseteq> events_of fake_backend b2" if "op \<in> set ops" for op
      using that by fastforce
    ultimately show ?thesis
      unfolding boundary_reached_def s2 using barrier_events(1) launch_events(1) by (meson subsetD)
  qed
  then have miss: "missing_boundary_refs (refresh_completed_events fake_backend b2 ?tx2) = []"
    using fake_run.boundary_check_exact [OF safe2 s2(1)] by blast
  have "be_publish fake_backend b2 = (None, snd (be_publish fake_backend b2))"
    using e(2) by (simp add: fake_methods fake_publish_def fake_live_def)
  from fake_run.commit_publishes [OF s2(1) this miss, of dbg ord k] obtain receipt tx3 b3 where
    c: "commit dbg fake_backend ord k ?tx2 b2 = Some (Ok receipt, tx3, b3)" by blast
  have safe3: "fake_run.tx_safe tx3 b3" and "same_plan ?tx2 tx3"
    using fake_run.safe_commit [OF safe2, of dbg ord k] c by (auto simp: fake_run.good_step_def)
  have "plan_write_set tx3 = plan_write_set tx"
    using \<open>same_plan ?tx2 tx3\<close> by (simp only: same_plan_def plan_write_set_def s2 fields)
  then have "fake_published b3 = plan_write_set tx"
    using fake_run.safe_atomic [OF safe3] fake_run.commit_receipt(2) [OF safe2 c] by simp
  with p ex c show ?thesis by blast
qed

section \<open>Executable runs\<close>

fun run_calls ::
    "(string \<Rightarrow> string) \<Rightarrow> 'b DeviceExecutionBackend \<Rightarrow> tx_call list \<Rightarrow> ExecutionTransaction \<Rightarrow> 'b \<Rightarrow>
       (ExecutionTransaction \<times> 'b) option" where
  "run_calls dbg be [] tx b = Some (tx, b)"
| "run_calls dbg be (c # cs) tx b =
     (case tx_call_step dbg be c tx b of
        None \<Rightarrow> None
      | Some (tx, b) \<Rightarrow> run_calls dbg be cs tx b)"

lemma run_calls_reach:
  assumes "run_calls dbg be cs tx b = Some (tx', b')" "tx_reach dbg be env tx0 b0 tx b"
  shows "tx_reach dbg be env tx0 b0 tx' b'"
  using assms
proof (induction cs arbitrary: tx b)
  case (Cons c cs)
  then obtain tx1 b1 where "tx_call_step dbg be c tx b = Some (tx1, b1)"
      "run_calls dbg be cs tx1 b1 = Some (tx', b')"
    by (auto split: option.splits)
  with Cons.IH [of tx1 b1] reach_call [OF Cons.prems(2)] show ?case by blast
qed simp

end
