(* ===== verification/Policy.thy ===== *)
theory Policy
  imports Device_Set Virtual_Partition "HOL-Library.Multiset"
begin

text \<open>
  \<open>crates/host-coordinator/src/policy.rs\<close>: the two-pass policy evaluator. Pass one runs four gates
  over every candidate plan and collects the violations; pass two ranks the plans without a
  violation by the declared objectives, then by the stable device ids. The explained receipt
  carries the outcome, the declared inputs and an FNV-1a fingerprint of its canonical bytes.

  \<open>evaluate\<close> asserts that the topology was measured from the request's snapshot; a failed assertion
  is \<^const>\<open>None\<close>. The standard library's stable \<open>sort_by\<close> is the insertion sort below.
\<close>

section \<open>Gates, objectives and receipts\<close>

datatype GateClass = HealthEpochMembership | Compatibility | RequiredMemory | TopologyGate

fun GateClass_tag :: "GateClass \<Rightarrow> u64" where
  "GateClass_tag HealthEpochMembership = 0"
| "GateClass_tag Compatibility = 1"
| "GateClass_tag RequiredMemory = 2"
| "GateClass_tag TopologyGate = 3"

record GateViolation =
  gv_gate :: GateClass
  gv_device :: "PhysicalDeviceId option"
  gv_failing_fact :: string

record PlanRejection =
  pr_plan :: string
  pr_violations :: "GateViolation list"

datatype Objective =
    Latency | Throughput | CapacityReserve | CacheAffinity | ExpertHotness | TransferBudgetObjective | Power

fun Objective_tag :: "Objective \<Rightarrow> u64" where
  "Objective_tag Latency = 0"
| "Objective_tag Throughput = 1"
| "Objective_tag CapacityReserve = 2"
| "Objective_tag CacheAffinity = 3"
| "Objective_tag ExpertHotness = 4"
| "Objective_tag TransferBudgetObjective = 5"
| "Objective_tag Power = 6"

datatype ObjectiveDirection = Minimize | Maximize

fun Objective_direction :: "Objective \<Rightarrow> ObjectiveDirection" where
  "Objective_direction Latency = Minimize"
| "Objective_direction TransferBudgetObjective = Minimize"
| "Objective_direction Power = Minimize"
| "Objective_direction Throughput = Maximize"
| "Objective_direction CapacityReserve = Maximize"
| "Objective_direction CacheAffinity = Maximize"
| "Objective_direction ExpertHotness = Maximize"

record ObjectiveScore =
  os_objective :: Objective
  os_value :: u64

record RankedPlan =
  rp_rank :: nat
  rp_plan :: string
  rp_devices :: "PhysicalDeviceId list"
  rp_scores :: "ObjectiveScore list"

record ExplainedReceipt =
  er_snapshot_id_hex :: string
  er_current_generation :: DeviceHealthGeneration
  er_per_device_budget :: "(PhysicalDeviceId \<times> SafePhysicalLimit) list"
  er_total_budget :: "SafePhysicalLimit option"
  er_objectives :: "Objective list"
  er_rejected :: "PlanRejection list"
  er_ranked :: "RankedPlan list"
  er_determinism_fingerprint :: string

definition push_violation :: "GateViolation \<Rightarrow> u8 list \<Rightarrow> u8 list" where
  "push_violation v out =
     (let out = push_u64 out (GateClass_tag (gv_gate v));
          out = push_bool out (gv_device v \<noteq> None);
          out = (case gv_device v of Some d \<Rightarrow> out @ PhysicalDeviceId_canonical_bytes d | None \<Rightarrow> out)
      in push_str out (gv_failing_fact v))"

definition push_rejection :: "PlanRejection \<Rightarrow> u8 list \<Rightarrow> u8 list" where
  "push_rejection r out =
     (let out = push_str out (pr_plan r);
          out = push_u64 out (of_nat (length (pr_violations r)))
      in fold push_violation (pr_violations r) out)"

definition push_score :: "ObjectiveScore \<Rightarrow> u8 list \<Rightarrow> u8 list" where
  "push_score s out = push_u64 (push_u64 out (Objective_tag (os_objective s))) (os_value s)"

definition push_ranked :: "RankedPlan \<Rightarrow> u8 list \<Rightarrow> u8 list" where
  "push_ranked r out =
     (let out = push_u64 out (of_nat (rp_rank r));
          out = push_str out (rp_plan r);
          out = push_u64 out (of_nat (length (rp_devices r)));
          out = fold (\<lambda>d out. out @ PhysicalDeviceId_canonical_bytes d) (rp_devices r) out;
          out = push_u64 out (of_nat (length (rp_scores r)))
      in fold push_score (rp_scores r) out)"

definition receipt_canonical_bytes :: "ExplainedReceipt \<Rightarrow> u8 list" where
  "receipt_canonical_bytes r =
     (let out = [];
          out = push_str out (er_snapshot_id_hex r);
          out = push_u64 out (generation_get (er_current_generation r));
          out = push_u64 out (of_nat (length (er_per_device_budget r)));
          out = fold (\<lambda>(i, limit) out. push_u64 (out @ PhysicalDeviceId_canonical_bytes i) (limit_get limit))
                  (er_per_device_budget r) out;
          out = push_bool out (er_total_budget r \<noteq> None);
          out = (case er_total_budget r of Some tot \<Rightarrow> push_u64 out (limit_get tot) | None \<Rightarrow> out);
          out = push_u64 out (of_nat (length (er_objectives r)));
          out = fold (\<lambda>ob out. push_u64 out (Objective_tag ob)) (er_objectives r) out;
          out = push_u64 out (of_nat (length (er_rejected r)));
          out = fold push_rejection (er_rejected r) out;
          out = push_u64 out (of_nat (length (er_ranked r)))
      in fold push_ranked (er_ranked r) out)"

record PolicyOutcome =
  po_rejected :: "PlanRejection list"
  po_ranked :: "RankedPlan list"
  po_receipt :: ExplainedReceipt

section \<open>The request\<close>

record DeclaredConstraints =
  dc_current_generation :: DeviceHealthGeneration
  dc_topology :: DeviceTopologySnapshot
  dc_per_device_budget :: "(PhysicalDeviceId, SafePhysicalLimit) bmap"
  dc_total_budget :: "SafePhysicalLimit option"

record RequiredCapabilities =
  rc_min_compute_capability :: "ComputeCapability option"
  rc_min_sm_count :: "u32 option"
  rc_required_dtypes :: DtypeSurface
  rc_threads_per_workgroup :: "u32 option"
  rc_workgroup_shared_memory_bytes :: "u32 option"
  rc_min_collective_width :: "u32 option"
  rc_require_unified_memory :: bool

definition RequiredCapabilities_default :: RequiredCapabilities where
  "RequiredCapabilities_default =
     \<lparr>rc_min_compute_capability = None, rc_min_sm_count = None,
      rc_required_dtypes = DtypeSurface_empty, rc_threads_per_workgroup = None,
      rc_workgroup_shared_memory_bytes = None, rc_min_collective_width = None,
      rc_require_unified_memory = False\<rparr>"

record ObjectiveFacts =
  of_latency_nanos :: "u64 option"
  of_throughput_tokens_per_sec :: "u64 option"
  of_cache_affinity_hit_rate_milli :: "u64 option"
  of_expert_hotness_score :: "u64 option"
  of_transfer_bytes :: "u64 option"
  of_estimated_power_milliwatts :: "u64 option"

record DeviceAssignment =
  da_device :: PhysicalDeviceId
  da_required :: PartitionBudgetLedger
  da_required_capabilities :: RequiredCapabilities

definition DeviceAssignment_new :: "PhysicalDeviceId \<Rightarrow> PartitionBudgetLedger \<Rightarrow> DeviceAssignment" where
  "DeviceAssignment_new device required =
     \<lparr>da_device = device, da_required = required,
      da_required_capabilities = RequiredCapabilities_default\<rparr>"

record PlanTransfer =
  pt_from :: PhysicalDeviceId
  pt_to :: PhysicalDeviceId

record CandidatePlan =
  cp_name :: string
  cp_assignments :: "DeviceAssignment list"
  cp_transfers :: "PlanTransfer list"
  cp_declared_total_bytes :: u64
  cp_facts :: ObjectiveFacts

record PolicyRequest =
  rq_discovery :: DeviceDiscoverySnapshot
  rq_selection :: DeviceSetSelection
  rq_constraints :: DeclaredConstraints
  rq_objectives :: "Objective list"
  rq_plans :: "CandidatePlan list"

section \<open>Gate 1: health epoch and membership\<close>

fun join_str :: "string \<Rightarrow> string list \<Rightarrow> string" where
  "join_str sep [] = []"
| "join_str sep [s] = s"
| "join_str sep (s # ss) = s @ sep @ join_str sep ss"

fun selection_violation :: "SelectionError \<Rightarrow> GateViolation" where
  "selection_violation (Membership (UnknownDevice i)) =
     \<lparr>gv_gate = HealthEpochMembership, gv_device = Some i,
      gv_failing_fact = ''device '' @ PhysicalDeviceId_display i @
        '' is not recorded in the snapshot (unknown or replaced)''\<rparr>"
| "selection_violation (Membership (StaleEpoch i rec current)) =
     \<lparr>gv_gate = HealthEpochMembership, gv_device = Some i,
      gv_failing_fact = ''device '' @ PhysicalDeviceId_display i @ '' recorded at generation '' @
        display_generation rec @ '', current is '' @ display_generation current\<rparr>"
| "selection_violation (BelowMinimum mn actual) =
     \<lparr>gv_gate = HealthEpochMembership, gv_device = None,
      gv_failing_fact = ''selection resolved '' @ show_nat actual @
        '' member(s), below declared minimum '' @ show_nat mn\<rparr>"
| "selection_violation (AboveMaximum mx actual) =
     \<lparr>gv_gate = HealthEpochMembership, gv_device = None,
      gv_failing_fact = ''selection resolved '' @ show_nat actual @
        '' member(s), above declared maximum '' @ show_nat mx\<rparr>"

definition gate_health_epoch_selection :: "PolicyRequest \<Rightarrow> (DeviceSet, GateViolation) result" where
  "gate_health_epoch_selection request =
     (let current = dc_current_generation (rq_constraints request) in
      if snapshot_is_stale (rq_discovery request) current then
        let stale_entries = map (\<lambda>e. PhysicalDeviceId_display (de_identity e) @
                '' recorded at generation '' @ display_generation (de_health_generation e))
              (filter (\<lambda>e. generation_is_stale current (de_health_generation e))
                (bmap_values (ds_devices (rq_discovery request))))
        in Err \<lparr>gv_gate = HealthEpochMembership, gv_device = None,
                gv_failing_fact = ''snapshot '' @ display_snapshot_id (ds_id (rq_discovery request)) @
                  '' carries stale health generation(s): '' @ join_str ''; '' stale_entries\<rparr>
      else map_err selection_violation (resolve (rq_selection request) (rq_discovery request) current))"

definition gate_membership :: "CandidatePlan \<Rightarrow> DeviceSet \<Rightarrow> GateViolation list" where
  "gate_membership plan s =
     map (\<lambda>a. \<lparr>gv_gate = HealthEpochMembership, gv_device = Some (da_device a),
               gv_failing_fact = ''device '' @ PhysicalDeviceId_display (da_device a) @
                 '' is not a current-epoch member of the resolved selection''\<rparr>)
       (filter (\<lambda>a. \<not> DeviceSet_contains s (da_device a)) (cp_assignments plan))"

section \<open>Gate 2: compatibility\<close>

definition compat_violation :: "PhysicalDeviceId option \<Rightarrow> string \<Rightarrow> GateViolation" where
  "compat_violation device failing_fact =
     \<lparr>gv_gate = Compatibility, gv_device = device, gv_failing_fact = failing_fact\<rparr>"

definition evaluable_compute_capability ::
    "DeviceBackend \<Rightarrow> ComputeCapability \<Rightarrow> (ComputeCapability, string) result" where
  "evaluable_compute_capability backend got =
     (if backend \<noteq> Cuda then
        Err (''compute capability is unevaluable on '' @ DeviceBackend_spelling backend @
          '' (CUDA identity fact)'')
      else if cc_major got = 0 \<and> cc_minor got = 0 then
        Err ''compute capability is unevaluable (device reports 0.0)''
      else Ok got)"

definition evaluable_sm_count :: "DeviceBackend \<Rightarrow> u32 \<Rightarrow> (u32, string) result" where
  "evaluable_sm_count backend got =
     (if backend \<noteq> Cuda then
        Err (''sm count is unevaluable on '' @ DeviceBackend_spelling backend @
          '' (CUDA identity fact)'')
      else if got = 0 then Err ''sm count is unevaluable (device reports 0)''
      else Ok got)"

definition gate_evaluable_launch_limit :: "u32 \<Rightarrow> string \<Rightarrow> (u32, string) result" where
  "gate_evaluable_launch_limit value field =
     (if value = 0 then Err (field @ '' is unevaluable (device reports 0)'') else Ok value)"

definition DTYPE_NAMES :: "string list" where
  "DTYPE_NAMES = [''f32'', ''f64'', ''f16'', ''bf16'', ''i8'', ''i32'']"

definition dtype_supported :: "DtypeSurface \<Rightarrow> string \<Rightarrow> bool" where
  "dtype_supported surface name =
     (if name = ''f32'' then dt_f32 surface
      else if name = ''f64'' then dt_f64 surface
      else if name = ''f16'' then dt_f16 surface
      else if name = ''bf16'' then dt_bf16 surface
      else if name = ''i8'' then dt_i8 surface
      else if name = ''i32'' then dt_i32 surface
      else False)"

definition check_compute_capability ::
    "PhysicalDeviceId \<Rightarrow> DeviceBackend \<Rightarrow> DeviceCapabilities \<Rightarrow> ComputeCapability \<Rightarrow>
       GateViolation list" where
  "check_compute_capability device backend caps required_cc =
     (case evaluable_compute_capability backend (compute_capability caps) of
        Ok got \<Rightarrow>
          if (cc_major got, cc_minor got) < (cc_major required_cc, cc_minor required_cc) then
            [compat_violation (Some device)
              (''compute capability '' @ display_u32 (cc_major got) @ ''.'' @ display_u32 (cc_minor got) @
               '' is below required '' @ display_u32 (cc_major required_cc) @ ''.'' @
               display_u32 (cc_minor required_cc))]
          else []
      | Err failing_fact \<Rightarrow> [compat_violation (Some device) failing_fact])"

definition check_dtypes ::
    "PhysicalDeviceId \<Rightarrow> DtypeSurface \<Rightarrow> DtypeSurface \<Rightarrow> GateViolation list" where
  "check_dtypes device required surface =
     map (\<lambda>name. compat_violation (Some device)
            (''device '' @ PhysicalDeviceId_display device @ '' lacks required dtype '' @ name))
       (filter (\<lambda>name. dtype_supported required name \<and> \<not> dtype_supported surface name) DTYPE_NAMES)"

definition check_sm_count ::
    "PhysicalDeviceId \<Rightarrow> DeviceBackend \<Rightarrow> DeviceCapabilities \<Rightarrow> u32 \<Rightarrow> GateViolation list" where
  "check_sm_count device backend caps required_sms =
     (case evaluable_sm_count backend (sm_count caps) of
        Ok got \<Rightarrow>
          if got < required_sms then
            [compat_violation (Some device)
              (''sm count '' @ display_u32 got @ '' is below required '' @ display_u32 required_sms)]
          else []
      | Err failing_fact \<Rightarrow> [compat_violation (Some device) failing_fact])"

definition gate_generic_launch_resources ::
    "PhysicalDeviceId \<Rightarrow> DeviceCapabilities \<Rightarrow> RequiredCapabilities \<Rightarrow> GateViolation list" where
  "gate_generic_launch_resources device caps required =
     (case rc_threads_per_workgroup required of
        None \<Rightarrow> []
      | Some demand \<Rightarrow>
          (case gate_evaluable_launch_limit (max_threads_per_workgroup caps) ''max_threads_per_workgroup'' of
             Ok limit \<Rightarrow>
               if limit < demand then
                 [compat_violation (Some device)
                   (''threads per workgroup '' @ display_u32 demand @
                    '' exceeds device max_threads_per_workgroup '' @ display_u32 limit)]
               else []
           | Err failing_fact \<Rightarrow> [compat_violation (Some device) failing_fact])) @
     (case rc_workgroup_shared_memory_bytes required of
        None \<Rightarrow> []
      | Some demand \<Rightarrow>
          (case gate_evaluable_launch_limit (workgroup_shared_memory_max_bytes caps)
                  ''workgroup_shared_memory_max_bytes'' of
             Ok limit \<Rightarrow>
               if limit < demand then
                 [compat_violation (Some device)
                   (''workgroup shared memory '' @ display_u32 demand @ '' bytes exceeds device max '' @
                    display_u32 limit @ '' bytes'')]
               else []
           | Err failing_fact \<Rightarrow> [compat_violation (Some device) failing_fact])) @
     (case rc_min_collective_width required of
        None \<Rightarrow> []
      | Some required_width \<Rightarrow>
          (case gate_evaluable_launch_limit (collective_width caps) ''collective_width'' of
             Ok got \<Rightarrow>
               if got < required_width then
                 [compat_violation (Some device)
                   (''collective width '' @ display_u32 got @ '' is below required '' @
                    display_u32 required_width)]
               else []
           | Err failing_fact \<Rightarrow> [compat_violation (Some device) failing_fact])) @
     (if rc_require_unified_memory required \<and> \<not> unified_memory caps then
        [compat_violation (Some device)
          (''device '' @ PhysicalDeviceId_display device @ '' does not provide required unified memory'')]
      else [])"

definition compat_assignment :: "DeviceDiscoverySnapshot \<Rightarrow> DeviceAssignment \<Rightarrow> GateViolation list" where
  "compat_assignment discovery a =
     (case find_entry discovery (da_device a) of
        None \<Rightarrow>
          [compat_violation (Some (da_device a))
            (''no capability facts recorded for '' @ PhysicalDeviceId_display (da_device a) @
             '' in the snapshot'')]
      | Some e \<Rightarrow>
          let caps = de_capabilities e; required = da_required_capabilities a;
              backend = de_backend e; device = da_device a
          in (case rc_min_compute_capability required of
                None \<Rightarrow> []
              | Some cc \<Rightarrow> check_compute_capability device backend caps cc) @
             check_dtypes device (rc_required_dtypes required) (dtype_surface caps) @
             (case rc_min_sm_count required of
                None \<Rightarrow> []
              | Some sms \<Rightarrow> check_sm_count device backend caps sms) @
             gate_generic_launch_resources device caps required)"

definition gate_compatibility ::
    "CandidatePlan \<Rightarrow> DeviceDiscoverySnapshot \<Rightarrow> GateViolation list" where
  "gate_compatibility plan discovery = concat (map (compat_assignment discovery) (cp_assignments plan))"

section \<open>Gate 3: required memory\<close>

definition memory_assignment :: "DeclaredConstraints \<Rightarrow> DeviceAssignment \<Rightarrow> GateViolation list" where
  "memory_assignment constraints a =
     (case bmap_get (dc_per_device_budget constraints) (da_device a) of
        None \<Rightarrow>
          [\<lparr>gv_gate = RequiredMemory, gv_device = Some (da_device a),
            gv_failing_fact = ''no declared admitted budget for device '' @
              PhysicalDeviceId_display (da_device a) @ '' (fail-closed)''\<rparr>]
      | Some limit \<Rightarrow>
          (case total_bytes (da_required a) of
             Some tot \<Rightarrow>
               if tot \<le> limit_get limit then []
               else [\<lparr>gv_gate = RequiredMemory, gv_device = Some (da_device a),
                      gv_failing_fact = ''budget_exceeded: declared '' @ display_u64 tot @
                        '' bytes exceeds policy limit '' @ display_u64 (limit_get limit) @
                        '' bytes (SafePhysicalLimit)''\<rparr>]
           | None \<Rightarrow>
               [\<lparr>gv_gate = RequiredMemory, gv_device = Some (da_device a),
                 gv_failing_fact = ''budget_exceeded: declared ledger overflow; policy limit '' @
                   display_u64 (limit_get limit) @ '' bytes''\<rparr>]))"

definition gate_memory :: "CandidatePlan \<Rightarrow> DeclaredConstraints \<Rightarrow> GateViolation list" where
  "gate_memory plan constraints =
     concat (map (memory_assignment constraints) (cp_assignments plan)) @
     (case dc_total_budget constraints of
        None \<Rightarrow> []
      | Some total_budget \<Rightarrow>
          if limit_get total_budget < cp_declared_total_bytes plan then
            [\<lparr>gv_gate = RequiredMemory, gv_device = None,
              gv_failing_fact = ''declared total '' @ display_u64 (cp_declared_total_bytes plan) @
                '' bytes exceeds declared total budget '' @ display_u64 (limit_get total_budget) @
                '' bytes''\<rparr>]
          else [])"

section \<open>Gate 4: topology\<close>

definition arrow :: string where
  "arrow = '' '' @ [CHR 0xE2, CHR 0x86, CHR 0x92] @ '' ''"

fun link_gate_fact :: "PlanTransfer \<Rightarrow> LinkGateError \<Rightarrow> string" where
  "link_gate_fact t (UnknownEndpoint endpoint) =
     ''transfer '' @ PhysicalDeviceId_display (pt_from t) @ arrow @ PhysicalDeviceId_display (pt_to t) @
     '': endpoint '' @ PhysicalDeviceId_display endpoint @ '' is not a device in the topology''"
| "link_gate_fact t (NoLinkRecorded i j) =
     ''transfer '' @ PhysicalDeviceId_display i @ arrow @ PhysicalDeviceId_display j @
     '': no directed link recorded; unmeasured pairs are never assumed''"
| "link_gate_fact t (GateNotAttempted i j) =
     ''transfer '' @ PhysicalDeviceId_display i @ arrow @ PhysicalDeviceId_display j @
     '': directed link is NOT ATTEMPTED''"
| "link_gate_fact t (GateRejected i j reason) =
     ''transfer '' @ PhysicalDeviceId_display i @ arrow @ PhysicalDeviceId_display j @
     '': directed link rejected ('' @ reason @ '')''"

definition gate_topology :: "CandidatePlan \<Rightarrow> DeviceTopologySnapshot \<Rightarrow> GateViolation list" where
  "gate_topology plan topology =
     List.map_filter (\<lambda>t.
         map_option (\<lambda>e. \<lparr>gv_gate = TopologyGate, gv_device = None, gv_failing_fact = link_gate_fact t e\<rparr>)
           (traversal_allowed topology (pt_from t) (pt_to t)))
       (cp_transfers plan)"

section \<open>Ranking\<close>

definition capacity_reserve_bytes :: "CandidatePlan \<Rightarrow> DeclaredConstraints \<Rightarrow> u64" where
  "capacity_reserve_bytes plan constraints =
     fold (\<lambda>a reserve.
         case bmap_get (dc_per_device_budget constraints) (da_device a) of
           None \<Rightarrow> reserve
         | Some limit \<Rightarrow>
             (case total_bytes (da_required a) of
                None \<Rightarrow> reserve
              | Some required \<Rightarrow> saturating_add reserve (saturating_sub (limit_get limit) required)))
       (cp_assignments plan) 0"

definition unwrap_or :: "'a option \<Rightarrow> 'a \<Rightarrow> 'a" where
  "unwrap_or x d = (case x of Some v \<Rightarrow> v | None \<Rightarrow> d)"

fun objective_value :: "CandidatePlan \<Rightarrow> Objective \<Rightarrow> DeclaredConstraints \<Rightarrow> u64" where
  "objective_value plan Latency constraints = unwrap_or (of_latency_nanos (cp_facts plan)) u64_MAX"
| "objective_value plan Throughput constraints =
     unwrap_or (of_throughput_tokens_per_sec (cp_facts plan)) 0"
| "objective_value plan CapacityReserve constraints = capacity_reserve_bytes plan constraints"
| "objective_value plan CacheAffinity constraints =
     unwrap_or (of_cache_affinity_hit_rate_milli (cp_facts plan)) 0"
| "objective_value plan ExpertHotness constraints =
     unwrap_or (of_expert_hotness_score (cp_facts plan)) 0"
| "objective_value plan TransferBudgetObjective constraints =
     unwrap_or (of_transfer_bytes (cp_facts plan)) u64_MAX"
| "objective_value plan Power constraints =
     unwrap_or (of_estimated_power_milliwatts (cp_facts plan)) u64_MAX"

datatype Ordering = Less | Equal | Greater

definition cmp :: "'a::linorder \<Rightarrow> 'a \<Rightarrow> Ordering" where
  "cmp a b = (if a < b then Less else if a = b then Equal else Greater)"

text \<open>The loop of the comparator; both value lists hold one value per objective.\<close>

fun compare_values :: "Objective list \<Rightarrow> u64 list \<Rightarrow> u64 list \<Rightarrow> Ordering" where
  "compare_values (ob # obs) (a # as) (b # bs) =
     (let ord = (case Objective_direction ob of Minimize \<Rightarrow> cmp a b | Maximize \<Rightarrow> cmp b a)
      in if ord \<noteq> Equal then ord else compare_values obs as bs)"
| "compare_values _ _ _ = Equal"

type_synonym scored = "CandidatePlan \<times> u64 list \<times> PhysicalDeviceId bset"

definition compare_scored :: "Objective list \<Rightarrow> scored \<Rightarrow> scored \<Rightarrow> Ordering" where
  "compare_scored objectives a b =
     (let ord = compare_values objectives (fst (snd a)) (fst (snd b))
      in if ord \<noteq> Equal then ord else cmp (snd (snd a)) (snd (snd b)))"

text \<open>A stable sort by a comparator: an element stays before the later ones it does not exceed.\<close>

fun insert_by :: "('a \<Rightarrow> 'a \<Rightarrow> Ordering) \<Rightarrow> 'a \<Rightarrow> 'a list \<Rightarrow> 'a list" where
  "insert_by c x [] = [x]"
| "insert_by c x (y # ys) = (if c x y = Greater then y # insert_by c x ys else x # y # ys)"

definition sort_by :: "('a \<Rightarrow> 'a \<Rightarrow> Ordering) \<Rightarrow> 'a list \<Rightarrow> 'a list" where
  "sort_by c xs = foldr (insert_by c) xs []"

definition score_plan :: "Objective list \<Rightarrow> DeclaredConstraints \<Rightarrow> CandidatePlan \<Rightarrow> scored" where
  "score_plan objectives constraints plan =
     (plan, map (\<lambda>ob. objective_value plan ob constraints) objectives,
      bset_of_list (map da_device (cp_assignments plan)))"

definition ranked_entry :: "Objective list \<Rightarrow> nat \<times> scored \<Rightarrow> RankedPlan" where
  "ranked_entry objectives x =
     (case x of (rank, plan, values, devices) \<Rightarrow>
        \<lparr>rp_rank = rank + 1, rp_plan = cp_name plan, rp_devices = devices,
         rp_scores = map (\<lambda>(ob, v). \<lparr>os_objective = ob, os_value = v\<rparr>) (zip objectives values)\<rparr>)"

definition rank_plans ::
    "CandidatePlan list \<Rightarrow> Objective list \<Rightarrow> DeclaredConstraints \<Rightarrow> RankedPlan list" where
  "rank_plans passers objectives constraints =
     (if passers = [] then []
      else let scored = map (score_plan objectives constraints) passers;
               scored = sort_by (compare_scored objectives) scored
           in map (ranked_entry objectives) (List.enumerate 0 scored))"

section \<open>Evaluation\<close>

definition fnv1a64 :: "u8 list \<Rightarrow> u64" where
  "fnv1a64 bytes = fold (\<lambda>byte hash. xor hash (ucast byte) * 0x00000100000001b3) bytes 0xcbf29ce484222325"

definition hex64 :: "u64 \<Rightarrow> string" where
  "hex64 v = map (\<lambda>i. hex_digit (unat (drop_bit (4 * i) v) mod 16)) (rev [0..<16])"

text \<open>The four gates of one plan, in order.\<close>

definition plan_violations :: "PolicyRequest \<Rightarrow> DeviceSet \<Rightarrow> CandidatePlan \<Rightarrow> GateViolation list" where
  "plan_violations request s plan =
     gate_membership plan s @ gate_compatibility plan (rq_discovery request) @
     gate_memory plan (rq_constraints request) @
     gate_topology plan (dc_topology (rq_constraints request))"

fun gate_plans ::
    "PolicyRequest \<Rightarrow> DeviceSet \<Rightarrow> CandidatePlan list \<Rightarrow> CandidatePlan list \<times> PlanRejection list \<Rightarrow>
       CandidatePlan list \<times> PlanRejection list" where
  "gate_plans request s [] acc = acc"
| "gate_plans request s (plan # plans) (passers, rejected) =
     (let violations = plan_violations request s plan
      in if violations = [] then gate_plans request s plans (passers @ [plan], rejected)
         else gate_plans request s plans
                (passers, rejected @ [\<lparr>pr_plan = cp_name plan, pr_violations = violations\<rparr>]))"

definition evaluate :: "PolicyRequest \<Rightarrow> PolicyOutcome option" where
  "evaluate request =
     (if topo_discovery (dc_topology (rq_constraints request)) \<noteq> rq_discovery request then None
      else
        let (rejected, ranked) =
              (case gate_health_epoch_selection request of
                 Ok s \<Rightarrow>
                   (let (passers, rejected) = gate_plans request s (rq_plans request) ([], [])
                    in (rejected, rank_plans passers (rq_objectives request) (rq_constraints request)))
               | Err violation \<Rightarrow>
                   (map (\<lambda>plan. \<lparr>pr_plan = cp_name plan, pr_violations = [violation]\<rparr>) (rq_plans request), []));
            receipt =
              \<lparr>er_snapshot_id_hex = snapshot_id_hex (ds_id (rq_discovery request)),
               er_current_generation = dc_current_generation (rq_constraints request),
               er_per_device_budget = dc_per_device_budget (rq_constraints request),
               er_total_budget = dc_total_budget (rq_constraints request),
               er_objectives = rq_objectives request,
               er_rejected = rejected, er_ranked = ranked, er_determinism_fingerprint = []\<rparr>;
            bytes = receipt_canonical_bytes receipt;
            receipt = receipt\<lparr>er_determinism_fingerprint := hex64 (fnv1a64 bytes)\<rparr>
        in Some \<lparr>po_rejected = rejected, po_ranked = ranked, po_receipt = receipt\<rparr>)"

section \<open>What the gates decide\<close>

lemma gate_membership_Nil_iff:
  "gate_membership plan s = [] \<longleftrightarrow> (\<forall>a\<in>set (cp_assignments plan). da_device a \<in> set (set_members s))"
  by (auto simp: gate_membership_def filter_empty_conv DeviceSet_contains_def)

definition capability_met :: "RequiredCapabilities \<Rightarrow> DeviceBackend \<Rightarrow> DeviceCapabilities \<Rightarrow> bool" where
  "capability_met r backend caps \<longleftrightarrow>
     (\<forall>cc. rc_min_compute_capability r = Some cc \<longrightarrow>
        backend = Cuda \<and> (cc_major (compute_capability caps), cc_minor (compute_capability caps)) \<noteq> (0, 0) \<and>
        (cc_major cc, cc_minor cc) \<le> (cc_major (compute_capability caps), cc_minor (compute_capability caps))) \<and>
     (\<forall>name\<in>set DTYPE_NAMES. dtype_supported (rc_required_dtypes r) name \<longrightarrow>
        dtype_supported (dtype_surface caps) name) \<and>
     (\<forall>n. rc_min_sm_count r = Some n \<longrightarrow> backend = Cuda \<and> sm_count caps \<noteq> 0 \<and> n \<le> sm_count caps) \<and>
     (\<forall>n. rc_threads_per_workgroup r = Some n \<longrightarrow>
        max_threads_per_workgroup caps \<noteq> 0 \<and> n \<le> max_threads_per_workgroup caps) \<and>
     (\<forall>n. rc_workgroup_shared_memory_bytes r = Some n \<longrightarrow>
        workgroup_shared_memory_max_bytes caps \<noteq> 0 \<and> n \<le> workgroup_shared_memory_max_bytes caps) \<and>
     (\<forall>n. rc_min_collective_width r = Some n \<longrightarrow>
        collective_width caps \<noteq> 0 \<and> n \<le> collective_width caps) \<and>
     (rc_require_unified_memory r \<longrightarrow> unified_memory caps)"

lemma check_compute_Nil_iff:
  "check_compute_capability d backend caps cc = [] \<longleftrightarrow>
     backend = Cuda \<and> (cc_major (compute_capability caps), cc_minor (compute_capability caps)) \<noteq> (0, 0) \<and>
     (cc_major cc, cc_minor cc) \<le> (cc_major (compute_capability caps), cc_minor (compute_capability caps))"
  by (auto simp: check_compute_capability_def evaluable_compute_capability_def)

lemma check_dtypes_Nil_iff:
  "check_dtypes d required surface = [] \<longleftrightarrow>
     (\<forall>name\<in>set DTYPE_NAMES. dtype_supported required name \<longrightarrow> dtype_supported surface name)"
  by (auto simp: check_dtypes_def filter_empty_conv)

lemma check_sm_Nil_iff:
  "check_sm_count d backend caps n = [] \<longleftrightarrow> backend = Cuda \<and> sm_count caps \<noteq> 0 \<and> n \<le> sm_count caps"
  by (auto simp: check_sm_count_def evaluable_sm_count_def)

lemma generic_launch_Nil_iff:
  "gate_generic_launch_resources d caps r = [] \<longleftrightarrow>
     (\<forall>n. rc_threads_per_workgroup r = Some n \<longrightarrow>
        max_threads_per_workgroup caps \<noteq> 0 \<and> n \<le> max_threads_per_workgroup caps) \<and>
     (\<forall>n. rc_workgroup_shared_memory_bytes r = Some n \<longrightarrow>
        workgroup_shared_memory_max_bytes caps \<noteq> 0 \<and> n \<le> workgroup_shared_memory_max_bytes caps) \<and>
     (\<forall>n. rc_min_collective_width r = Some n \<longrightarrow>
        collective_width caps \<noteq> 0 \<and> n \<le> collective_width caps) \<and>
     (rc_require_unified_memory r \<longrightarrow> unified_memory caps)"
  by (auto simp: gate_generic_launch_resources_def gate_evaluable_launch_limit_def split: option.splits)

lemma gate_compatibility_Nil_iff:
  "gate_compatibility plan d = [] \<longleftrightarrow>
     (\<forall>a\<in>set (cp_assignments plan). \<exists>e. find_entry d (da_device a) = Some e \<and>
        capability_met (da_required_capabilities a) (de_backend e) (de_capabilities e))"
proof -
  have "compat_assignment d a = [] \<longleftrightarrow> (\<exists>e. find_entry d (da_device a) = Some e \<and>
      capability_met (da_required_capabilities a) (de_backend e) (de_capabilities e))" for a
  proof (cases "find_entry d (da_device a)")
    case None
    then show ?thesis by (simp add: compat_assignment_def)
  next
    case (Some e)
    then show ?thesis
      by (simp add: compat_assignment_def Let_def capability_met_def check_dtypes_Nil_iff
          generic_launch_Nil_iff check_compute_Nil_iff check_sm_Nil_iff split: option.split)
  qed
  then show ?thesis by (simp add: gate_compatibility_def)
qed

lemma gate_memory_Nil_iff:
  "gate_memory plan c = [] \<longleftrightarrow>
     (\<forall>a\<in>set (cp_assignments plan). \<exists>limit. bmap_get (dc_per_device_budget c) (da_device a) = Some limit \<and>
        ledger_sum (da_required a) \<le> unat (limit_get limit)) \<and>
     (\<forall>tot. dc_total_budget c = Some tot \<longrightarrow> cp_declared_total_bytes plan \<le> limit_get tot)"
proof -
  have "memory_assignment c a = [] \<longleftrightarrow> (\<exists>limit. bmap_get (dc_per_device_budget c) (da_device a) = Some limit \<and>
        ledger_sum (da_required a) \<le> unat (limit_get limit))" for a
  proof (cases "bmap_get (dc_per_device_budget c) (da_device a)")
    case None
    then show ?thesis by (simp add: memory_assignment_def)
  next
    case (Some limit)
    show ?thesis
    proof (cases "total_bytes (da_required a)")
      case None
      with total_bytes_NoneD [OF None] Some unat_u64_lt [of "limit_get limit"] show ?thesis
        by (simp add: memory_assignment_def)
    next
      case t: (Some t)
      with total_bytes_SomeD [OF t] Some show ?thesis
        by (simp add: memory_assignment_def word_le_nat_alt)
    qed
  qed
  then show ?thesis
    by (auto simp: gate_memory_def not_less split: option.split)
qed

lemma gate_topology_Nil_iff:
  "gate_topology plan t = [] \<longleftrightarrow>
     (\<forall>x\<in>set (cp_transfers plan). traversal_allowed t (pt_from x) (pt_to x) = None)"
  by (auto simp: gate_topology_def List.map_filter_def filter_empty_conv)

text \<open>A plan passes: what the four gates of one plan demand together.\<close>

definition plan_passes :: "PolicyRequest \<Rightarrow> DeviceSet \<Rightarrow> CandidatePlan \<Rightarrow> bool" where
  "plan_passes r s plan \<longleftrightarrow>
     (\<forall>a\<in>set (cp_assignments plan).
        da_device a \<in> set (set_members s) \<and>
        (\<exists>e. find_entry (rq_discovery r) (da_device a) = Some e \<and>
           capability_met (da_required_capabilities a) (de_backend e) (de_capabilities e)) \<and>
        (\<exists>limit. bmap_get (dc_per_device_budget (rq_constraints r)) (da_device a) = Some limit \<and>
           ledger_sum (da_required a) \<le> unat (limit_get limit))) \<and>
     (\<forall>tot. dc_total_budget (rq_constraints r) = Some tot \<longrightarrow> cp_declared_total_bytes plan \<le> limit_get tot) \<and>
     (\<forall>x\<in>set (cp_transfers plan). traversal_allowed (dc_topology (rq_constraints r)) (pt_from x) (pt_to x) = None)"

lemma plan_violations_Nil_iff: "plan_violations r s plan = [] \<longleftrightarrow> plan_passes r s plan"
  unfolding plan_violations_def append_is_Nil_conv gate_membership_Nil_iff gate_compatibility_Nil_iff
    gate_memory_Nil_iff gate_topology_Nil_iff plan_passes_def by blast

section \<open>The ranking order\<close>

text \<open>Smaller is better: a value to maximize counts down from the largest word.\<close>

definition objective_key :: "Objective \<Rightarrow> u64 \<Rightarrow> nat" where
  "objective_key ob v =
     (case Objective_direction ob of Minimize \<Rightarrow> unat v | Maximize \<Rightarrow> 18446744073709551615 - unat v)"

definition rank_key :: "Objective list \<Rightarrow> scored \<Rightarrow> nat list \<times> PhysicalDeviceId list" where
  "rank_key objectives x = (map2 objective_key objectives (fst (snd x)), snd (snd x))"

lemma cmp_objective:
  "(case Objective_direction ob of Minimize \<Rightarrow> cmp a b | Maximize \<Rightarrow> cmp b a) =
     cmp (objective_key ob a) (objective_key ob b)"
proof -
  have "unat a < 18446744073709551616" "unat b < 18446744073709551616"
    by (rule unat_u64_lt)+
  then show ?thesis
    by (auto simp: cmp_def objective_key_def word_less_nat_alt word_unat_eq_iff
        split: ObjectiveDirection.split)
qed

lemma compare_values_key:
  "length as = length obs \<Longrightarrow> length bs = length obs \<Longrightarrow>
     compare_values obs as bs = cmp (map2 objective_key obs as) (map2 objective_key obs bs)"
proof (induction obs arbitrary: as bs)
  case Nil
  then show ?case by (simp add: cmp_def)
next
  case (Cons ob obs)
  then obtain a as' b bs' where ab: "as = a # as'" "bs = b # bs'"
    by (metis length_Suc_conv)
  with Cons show ?case
    by (auto simp: cmp_objective cmp_def Let_def)
qed

lemma compare_scored_key:
  assumes "length (fst (snd x)) = length obs" "length (fst (snd y)) = length obs"
  shows "compare_scored obs x y = Greater \<longleftrightarrow> \<not> rank_key obs x \<le> rank_key obs y"
  using assms
  by (auto simp: compare_scored_def Let_def compare_values_key rank_key_def cmp_def)

lemma insert_by_key:
  "(\<And>y. y \<in> set ys \<Longrightarrow> c x y = Greater \<longleftrightarrow> \<not> f x \<le> f y) \<Longrightarrow> insert_by c x ys = insort_key f x ys"
  by (induction ys) auto

lemma sort_by_key:
  "(\<And>x y. x \<in> set xs \<Longrightarrow> y \<in> set xs \<Longrightarrow> c x y = Greater \<longleftrightarrow> \<not> f x \<le> f y) \<Longrightarrow>
     sort_by c xs = sort_key f xs"
proof (induction xs)
  case (Cons x xs)
  then have IH: "sort_by c xs = sort_key f xs" by simp
  then have "insert_by c x (sort_by c xs) = insort_key f x (sort_key f xs)"
    unfolding IH using Cons.prems by (intro insert_by_key) simp
  then show ?case by (simp add: sort_by_def)
qed (simp add: sort_by_def)

text \<open>The ranking is the stable sort of the scored plans by their keys.\<close>

lemma rank_plans_sorted:
  "rank_plans ps obs c =
     map (ranked_entry obs) (List.enumerate 0 (sort_key (rank_key obs) (map (score_plan obs c) ps)))"
proof -
  have "sort_by (compare_scored obs) (map (score_plan obs c) ps) =
      sort_key (rank_key obs) (map (score_plan obs c) ps)"
    by (rule sort_by_key) (auto simp: score_plan_def intro!: compare_scored_key)
  then show ?thesis by (simp add: rank_plans_def Let_def)
qed

lemma ranked_entry_name: "rp_plan (ranked_entry obs x) = cp_name (fst (snd x))"
  by (simp add: ranked_entry_def split: prod.split)

lemma ranked_names:
  "map rp_plan (rank_plans ps obs c) =
     map (cp_name \<circ> fst) (sort_key (rank_key obs) (map (score_plan obs c) ps))"
proof -
  have "map rp_plan (map (ranked_entry obs) (List.enumerate 0 xs)) =
      map (cp_name \<circ> fst) (map snd (List.enumerate 0 xs))" for xs
    by (simp only: map_map comp_def ranked_entry_name)
  then show ?thesis by (simp only: rank_plans_sorted map_snd_enumerate)
qed

lemma ranked_mset: "mset (map rp_plan (rank_plans ps obs c)) = mset (map cp_name ps)"
proof -
  have "mset (map rp_plan (rank_plans ps obs c)) = image_mset (cp_name \<circ> fst) (mset (map (score_plan obs c) ps))"
    unfolding ranked_names by simp
  also have "\<dots> = mset (map ((cp_name \<circ> fst) \<circ> score_plan obs c) ps)"
    by (simp add: image_mset.compositionality)
  also have "(cp_name \<circ> fst) \<circ> score_plan obs c = cp_name"
    by (simp add: fun_eq_iff score_plan_def)
  finally show ?thesis .
qed

section \<open>The outcome\<close>

lemma gate_plans_filter:
  "gate_plans r s plans (ps, rj) =
     (ps @ filter (plan_passes r s) plans,
      rj @ map (\<lambda>p. \<lparr>pr_plan = cp_name p, pr_violations = plan_violations r s p\<rparr>)
             (filter (\<lambda>p. \<not> plan_passes r s p) plans))"
  by (induction plans arbitrary: ps rj) (auto simp: plan_violations_Nil_iff Let_def)

lemma evaluate_None_iff:
  "evaluate r = None \<longleftrightarrow> topo_discovery (dc_topology (rq_constraints r)) \<noteq> rq_discovery r"
  by (simp add: evaluate_def Let_def split: prod.split)

lemma evaluate_lists:
  assumes "evaluate r = Some out"
  shows "(po_rejected out, po_ranked out) =
    (case gate_health_epoch_selection r of
       Ok s \<Rightarrow>
         (map (\<lambda>p. \<lparr>pr_plan = cp_name p, pr_violations = plan_violations r s p\<rparr>)
            (filter (\<lambda>p. \<not> plan_passes r s p) (rq_plans r)),
          rank_plans (filter (plan_passes r s) (rq_plans r)) (rq_objectives r) (rq_constraints r))
     | Err v \<Rightarrow> (map (\<lambda>p. \<lparr>pr_plan = cp_name p, pr_violations = [v]\<rparr>) (rq_plans r), []))"
  using assms
  by (cases "gate_health_epoch_selection r")
     (auto simp: evaluate_def Let_def gate_plans_filter split: if_splits)

text \<open>The fingerprint is not hashed.\<close>

lemma receipt_bytes_fingerprint:
  "receipt_canonical_bytes (r\<lparr>er_determinism_fingerprint := x\<rparr>) = receipt_canonical_bytes r"
  by (simp add: receipt_canonical_bytes_def)

lemma evaluate_receipt:
  assumes "evaluate r = Some out"
  shows "er_rejected (po_receipt out) = po_rejected out" "er_ranked (po_receipt out) = po_ranked out"
    "er_objectives (po_receipt out) = rq_objectives r"
    "er_snapshot_id_hex (po_receipt out) = snapshot_id_hex (ds_id (rq_discovery r))"
    "er_per_device_budget (po_receipt out) = dc_per_device_budget (rq_constraints r)"
    "er_determinism_fingerprint (po_receipt out) = hex64 (fnv1a64 (receipt_canonical_bytes (po_receipt out)))"
  using assms
  using receipt_bytes_fingerprint
  by (auto simp: evaluate_def Let_def split: if_splits prod.splits) (metis ExplainedReceipt.update_convs(8))+

text \<open>The selection gate passes exactly on a current snapshot whose selection resolves.\<close>

lemma selection_gate_Ok_iff:
  "gate_health_epoch_selection r = Ok s \<longleftrightarrow>
     \<not> snapshot_is_stale (rq_discovery r) (dc_current_generation (rq_constraints r)) \<and>
     resolve (rq_selection r) (rq_discovery r) (dc_current_generation (rq_constraints r)) = Ok s"
  by (simp add: gate_health_epoch_selection_def Let_def)

lemma sorted_ranking:
  assumes "i < j" "j < length (sort_key f xs)"
  shows "f (sort_key f xs ! i) \<le> f (sort_key f xs ! j)"
proof -
  have "sorted (map f (sort_key f xs))" by simp
  from sorted_nth_mono [OF this, of i j] assms show ?thesis by simp
qed

end
