(* ===== verification/Sample_Plan.thy ===== *)
theory Sample_Plan
  imports Transaction_Runs Policy "HOL-Library.Code_Target_Numeral"
begin

text \<open>
  A small accepted plan on two partitions (a launch, a transfer and a barrier) with the values it
  is made of, a discovery sample, a binding and a policy request over them: the concrete inputs at
  which the properties are instantiated.
\<close>

definition sample_ledger :: PartitionBudgetLedger where
  "sample_ledger =
     \<lparr>weight_bytes = 0, kv_cache_bytes = 0, activation_scratch_bytes = 8192, module_storage_bytes = 0,
      allocator_overhead_bytes = 0, transfer_staging_bytes = 1024, concurrent_state_bytes = 0\<rparr>"

definition sample_device :: "string \<Rightarrow> PhysicalDeviceId" where
  "sample_device s = PhysicalDeviceId_metal s"

definition sample_partition :: "u64 \<Rightarrow> string \<Rightarrow> VirtualDevicePartition" where
  "sample_partition i s =
     \<lparr>vp_id = VirtualDevicePartitionId i, vp_bound_device = sample_device s,
      vp_ledger = sample_ledger, vp_safe_limit = SafePhysicalLimit 16384, vp_state = Active\<rparr>"

definition sample_bindings :: Bindings where
  "sample_bindings =
     [(LogicalPartitionId ''a'', PartitionBinding_with_virtual_partition (sample_device ''x'') (sample_partition 1 ''x'')),
      (LogicalPartitionId ''b'', PartitionBinding_with_virtual_partition (sample_device ''y'') (sample_partition 2 ''y''))]"

definition sample_set :: DeviceSet where
  "sample_set = \<lparr>set_members = [sample_device ''x'', sample_device ''y'']\<rparr>"

definition sample_bound_plan :: BoundDistributedPlan where
  "sample_bound_plan =
     \<lparr>bdp_logical_hash = ''h'', bdp_kind = Distributed sample_bindings,
      bdp_device_set = sample_set,
      bdp_snapshot_id = DeviceDiscoverySnapshotId (replicate 32 0),
      bdp_fixture = Virtual, bdp_transport = HostStagedTransport, bdp_bound_hash = ''k''\<rparr>"

definition sample_transfer :: TransferOperationMirror where
  "sample_transfer =
     \<lparr>tm_id = TransferRef ''t'', tm_source = LogicalPartitionId ''a'',
      tm_destination = LogicalPartitionId ''b'', tm_byte_count = 8, tm_direction = H2D,
      tm_element_dtype = F32, tm_layout = Dense, tm_path_label = HostStagedPath,
      tm_producer_generation = 1, tm_consumer_generation = 1,
      tm_completion_boundary = \<lparr>cb_barriers = [], cb_launches = []\<rparr>\<rparr>"

definition sample_operations :: "TransactionOperation list" where
  "sample_operations =
     [Launch (LogicalPartitionId ''a'') (LaunchRef ''l'') 16,
      Transfer sample_transfer,
      Barrier (BarrierRef ''z'') [LogicalPartitionId ''a'', LogicalPartitionId ''b'']]"

definition sample_boundary :: TransactionCommitBoundary where
  "sample_boundary = \<lparr>cb_barriers = [BarrierRef ''z''], cb_launches = [LaunchRef ''l'']\<rparr>"

definition sample_new :: "(ExecutionTransaction, ConstructError) result" where
  "sample_new = ExecutionTransaction_new (TransactionId ''i'') sample_bound_plan sample_operations sample_boundary"

definition sample_tx :: ExecutionTransaction where
  "sample_tx = (case sample_new of Ok tx \<Rightarrow> tx | Err e \<Rightarrow> undefined)"

text \<open>
  Runs of the calls on a fresh fake, which completes the events it dispatches or leaves them pending.
\<close>

definition sample_fake :: "bool \<Rightarrow> FakeExecutionBackend" where
  "sample_fake on = fake_set_auto_complete on FakeExecutionBackend_new"

definition sample_run :: "bool \<Rightarrow> tx_call list \<Rightarrow> (ExecutionTransaction \<times> FakeExecutionBackend) option" where
  "sample_run on cs = run_calls (\<lambda>s. s) fake_backend cs sample_tx (sample_fake on)"

lemma sample_new_Ok:
  "ExecutionTransaction_new (TransactionId ''i'') sample_bound_plan sample_operations sample_boundary = Ok sample_tx"
  by (simp add: sample_tx_def sample_new_def ExecutionTransaction_new_def is_degenerate_def
      sample_bound_plan_def sample_operations_def)

lemma sample_fake_fresh: "fake_fresh (sample_fake on)"
  by (auto simp: fake_fresh_def sample_fake_def)

lemma sample_run_reach:
  "sample_run on cs = Some (tx, b) \<Longrightarrow>
     tx_reach (\<lambda>s. s) fake_backend fake_env sample_tx (sample_fake on) tx b"
  unfolding sample_run_def by (rule run_calls_reach [OF _ reach_start])

text \<open>The calls up to each state.\<close>

definition prepare_calls :: "tx_call list" where "prepare_calls = [CallPrepare 1]"
definition execute_calls :: "tx_call list" where "execute_calls = [CallPrepare 1, CallExecute 2]"

definition commit_calls :: "tx_call list" where
  "commit_calls = [CallPrepare 1, CallExecute 2, CallCommit (PublicationOrdinal 7) 3]"

definition abort_calls :: "tx_call list" where
  "abort_calls = [CallPrepare 1, CallExecute 2, CallAbort ''stop'' 3]"

definition ends_in :: "(TransactionState \<Rightarrow> bool) \<Rightarrow> (ExecutionTransaction \<times> FakeExecutionBackend) option \<Rightarrow> bool" where
  "ends_in P r = (case r of None \<Rightarrow> False | Some (tx, b) \<Rightarrow> P (et_state tx))"

lemma ends_inE:
  assumes "ends_in P r"
  obtains tx b where "r = Some (tx, b)" "P (et_state tx)"
  using assms by (auto simp: ends_in_def split: option.splits)

text \<open>Results read off an evaluated case distinction.\<close>

lemma some_okE:
  assumes "case x of Some (Ok r, s) \<Rightarrow> True | _ \<Rightarrow> False"
  obtains r s where "x = Some (Ok r, s)"
  using assms by (cases x; cases "fst (the x)"; cases "the x") auto

lemma ok_then_errE:
  assumes "case x of Some ([Ok _, Err _], _) \<Rightarrow> True | _ \<Rightarrow> False"
  obtains r e s where "x = Some ([Ok r, Err e], s)"
  using assms by (auto split: option.splits prod.splits list.splits result.splits)

lemma sample_commits: "ends_in (\<lambda>s. s = Committed) (sample_run True commit_calls)"
  by code_simp

lemma sample_executes: "ends_in (\<lambda>s. s = Executing) (sample_run True execute_calls)"
  by code_simp

lemma sample_waits: "ends_in (\<lambda>s. s = Executing) (sample_run False execute_calls)"
  by code_simp

lemma sample_aborts:
  "ends_in (\<lambda>s. case s of Aborted f \<Rightarrow> True | _ \<Rightarrow> False) (sample_run True abort_calls)"
  by code_simp

text \<open>Two launches of half the word range each, whose sum wraps to nothing.\<close>

definition wrap_operations :: "TransactionOperation list" where
  "wrap_operations =
     [Launch (LogicalPartitionId ''a'') (LaunchRef ''l'') 9223372036854775808,
      Launch (LogicalPartitionId ''a'') (LaunchRef ''m'') 9223372036854775808]"

definition wrap_tx :: ExecutionTransaction where
  "wrap_tx = sample_tx\<lparr>et_operations := wrap_operations,
     et_commit_boundary := \<lparr>cb_barriers = [], cb_launches = []\<rparr>\<rparr>"

text \<open>A fake on which partition \<open>b\<close> is already reserved by someone else.\<close>

definition busy_fake :: FakeExecutionBackend where
  "busy_fake = FakeExecutionBackend_new\<lparr>fb_reservations :=
     [(LogicalPartitionId ''b'', \<lparr>res_transfer_staging_bytes = 0, res_output_buffer_bytes = 0,
        res_event_bytes = 0, res_transaction_scratch_bytes = 0\<rparr>)]\<rparr>"

section \<open>Discovery, binding and policy\<close>

definition sample_caps :: DeviceCapabilities where
  "sample_caps =
     \<lparr>compute_capability = \<lparr>cc_major = 0, cc_minor = 0\<rparr>, sm_count = 0, dtype_surface = DtypeSurface_empty,
      max_threads_per_workgroup = 1024, workgroup_shared_memory_min_bytes = 0,
      workgroup_shared_memory_max_bytes = 32768, collective_width = 32, unified_memory = True\<rparr>"

definition sample_entry :: "u32 \<Rightarrow> string \<Rightarrow> DeviceDiscoveryEntry" where
  "sample_entry i s =
     \<lparr>de_ordinal = DeviceOrdinal i, de_identity = sample_device s, de_device_model = None,
      de_capabilities = sample_caps,
      de_memory = \<lparr>tool_report_total_mib = None, api_total_bytes = 65536\<rparr>, de_health = Healthy,
      de_health_generation = DeviceHealthGeneration 1,
      de_probe_provenance = \<lparr>prov_probe = ''p'', prov_tool_versions = ''v''\<rparr>\<rparr>"

definition sample_snapshot :: DeviceDiscoverySnapshot where
  "sample_snapshot =
     \<lparr>ds_id = DeviceDiscoverySnapshotId (replicate 32 0), ds_probe_utc_nanos = 5,
      ds_devices = [(DeviceOrdinal 0, sample_entry 0 ''x''), (DeviceOrdinal 1, sample_entry 1 ''y'')],
      ds_p2p = P2pNotAttempted\<rparr>"

definition sample_hash :: string where
  "sample_hash = ''sha256:'' @ replicate 64 (CHR ''0'')"

definition sample_sha :: "u8 list \<Rightarrow> u8 list" where
  "sample_sha bytes = replicate 32 0"

definition sample_admitted :: AdmittedLogicalPlan where
  "sample_admitted =
     \<lparr>alp_hash = sample_hash, alp_partitions = [LogicalPartitionId ''a'', LogicalPartitionId ''b''],
      alp_constraints = [DistinctPhysicalDevices], alp_demand = LaunchResourceDemand_default\<rparr>"

definition sample_link :: DeviceLink where
  "sample_link =
     \<lparr>link_from = sample_device ''x'', link_to = sample_device ''y'',
      link_state = Admitted HostStaged \<lparr>lf_bandwidth_bytes_per_sec = 1, lf_latency_nanos = 1\<rparr>\<rparr>"

definition sample_topology :: DeviceTopologySnapshot where
  "sample_topology =
     \<lparr>topo_discovery = sample_snapshot,
      topo_links = [((sample_device ''x'', sample_device ''y''), sample_link)]\<rparr>"

definition sample_no_facts :: ObjectiveFacts where
  "sample_no_facts =
     \<lparr>of_latency_nanos = Some 3, of_throughput_tokens_per_sec = None,
      of_cache_affinity_hit_rate_milli = None, of_expert_hotness_score = None,
      of_transfer_bytes = None, of_estimated_power_milliwatts = None\<rparr>"

text \<open>One assignment per device, and two assignments on one device that exceed its budget together.\<close>

definition sample_candidate :: "string \<Rightarrow> string list \<Rightarrow> CandidatePlan" where
  "sample_candidate name ds =
     \<lparr>cp_name = name, cp_assignments = map (\<lambda>s. DeviceAssignment_new (sample_device s) sample_ledger) ds,
      cp_transfers = [], cp_declared_total_bytes = 9216, cp_facts = sample_no_facts\<rparr>"

definition sample_request :: PolicyRequest where
  "sample_request =
     \<lparr>rq_discovery = sample_snapshot,
      rq_selection = Explicit [sample_device ''x'', sample_device ''y''],
      rq_constraints =
        \<lparr>dc_current_generation = DeviceHealthGeneration 1, dc_topology = sample_topology,
         dc_per_device_budget =
           [(sample_device ''x'', SafePhysicalLimit 10000), (sample_device ''y'', SafePhysicalLimit 4000)],
         dc_total_budget = None\<rparr>,
      rq_objectives = [Latency],
      rq_plans = [sample_candidate ''one'' [''x''], sample_candidate ''big'' [''y''],
                  sample_candidate ''twice'' [''x'', ''x'']]\<rparr>"

section \<open>Transport\<close>

definition sample_source :: SourceValue where
  "sample_source =
     \<lparr>sv_owner = LogicalPartitionId ''a'', sv_dtype = F32, sv_layout = Dense, sv_generation = 1,
      sv_bytes = [1, 2, 3, 4, 5, 6, 7, 8]\<rparr>"

definition sample_spec :: "u64 \<Rightarrow> u64 \<Rightarrow> TransferSpec" where
  "sample_spec off n =
     (TransferSpec_from_mirror sample_transfer 1000)\<lparr>ts_range := \<lparr>br_offset = off, br_length = n\<rparr>\<rparr>"

definition sample_adapter :: HostStagedAdapter where
  "sample_adapter = HostStagedAdapter_new \<lparr>tb_bytes = u64_MAX, tb_time_nanos = u64_MAX\<rparr>"

end
