(* ===== verification/Result_Flow.thy ===== *)
theory Result_Flow
  imports Std_Collections
begin

text \<open>
  The control flow of functions that return a \<open>Result\<close>: the operator \<open>?\<close> as \<open>and_then\<close>, a guard
  that returns an error early as \<open>ensure\<close>, and the loop \<open>for x in xs { s = f(x, s)?; }\<close> as
  \<open>try_fold\<close>. Each comes with the equivalence that says when it succeeds; these are collected in
  \<open>flow\<close>, so that a component's success condition follows by rewriting.
\<close>

named_theorems flow \<open>when a sequence of checks succeeds\<close>

definition and_then :: "('a, 'e) result \<Rightarrow> ('a \<Rightarrow> ('b, 'e) result) \<Rightarrow> ('b, 'e) result" where
  "and_then r f = (case r of Ok x \<Rightarrow> f x | Err e \<Rightarrow> Err e)"

definition ensure :: "bool \<Rightarrow> 'e \<Rightarrow> (unit, 'e) result" where
  "ensure c e = (if c then Ok () else Err e)"

fun try_fold :: "('a \<Rightarrow> 's \<Rightarrow> ('s, 'e) result) \<Rightarrow> 'a list \<Rightarrow> 's \<Rightarrow> ('s, 'e) result" where
  "try_fold f [] s = Ok s"
| "try_fold f (x # xs) s = and_then (f x s) (try_fold f xs)"

definition try_each :: "('a \<Rightarrow> (unit, 'e) result) \<Rightarrow> 'a list \<Rightarrow> (unit, 'e) result" where
  "try_each f xs = try_fold (\<lambda>x _. f x) xs ()"

fun try_map :: "('a \<Rightarrow> ('b, 'e) result) \<Rightarrow> 'a list \<Rightarrow> ('b list, 'e) result" where
  "try_map f [] = Ok []"
| "try_map f (x # xs) = and_then (f x) (\<lambda>y. and_then (try_map f xs) (\<lambda>ys. Ok (y # ys)))"

definition ok_or :: "'a option \<Rightarrow> 'e \<Rightarrow> ('a, 'e) result" where
  "ok_or v e = (case v of Some x \<Rightarrow> Ok x | None \<Rightarrow> Err e)"

lemma and_then_simps [simp]:
  "and_then (Ok x) f = f x"
  "and_then (Err e) f = Err e"
  by (simp_all add: and_then_def)

lemma ensure_simps [simp]:
  "ensure True e = Ok ()"
  "ensure False e = Err e"
  by (simp_all add: ensure_def)

lemma and_then_Ok_iff [flow]: "and_then r f = Ok y \<longleftrightarrow> (\<exists>x. r = Ok x \<and> f x = Ok y)"
  by (cases r) auto

lemma and_then_Err_iff: "and_then r f = Err e \<longleftrightarrow> r = Err e \<or> (\<exists>x. r = Ok x \<and> f x = Err e)"
  by (cases r) auto

lemma ensure_Ok_iff [flow]: "ensure c e = Ok u \<longleftrightarrow> c"
  by (simp add: ensure_def)

lemma ensure_Err_iff [simp]: "ensure c e = Err d \<longleftrightarrow> \<not> c \<and> d = e"
  by (auto simp: ensure_def)

lemma ok_or_Ok_iff [flow]: "ok_or v e = Ok x \<longleftrightarrow> v = Some x"
  by (auto simp: ok_or_def split: option.splits)

lemma try_fold_append: "try_fold f (xs @ ys) s = and_then (try_fold f xs s) (try_fold f ys)"
proof (induction xs arbitrary: s)
  case (Cons x xs)
  then show ?case by (cases "f x s") simp_all
qed simp

lemma try_each_simps [simp]:
  "try_each f [] = Ok ()"
  "try_each f (x # xs) = and_then (f x) (\<lambda>_. try_each f xs)"
  by (simp_all add: try_each_def unit_eq)

lemma try_each_Ok_iff [flow]: "try_each f xs = Ok u \<longleftrightarrow> (\<forall>x\<in>set xs. f x = Ok ())"
proof (induction xs)
  case (Cons x xs)
  then show ?case by (cases "f x") auto
qed simp

lemma try_each_ErrD: "try_each f xs = Err e \<Longrightarrow> \<exists>x\<in>set xs. f x = Err e"
proof (induction xs)
  case (Cons x xs)
  then show ?case by (cases "f x") auto
qed simp

lemma try_map_Ok_iff [flow]: "try_map f xs = Ok ys \<longleftrightarrow> list_all2 (\<lambda>x y. f x = Ok y) xs ys"
proof (induction xs arbitrary: ys)
  case (Cons x xs)
  then show ?case by (cases ys) (auto simp: and_then_Ok_iff)
qed auto

lemma try_fold_invariant:
  assumes "try_fold f xs s = Ok t" and "I s"
    and "\<And>x s t. x \<in> set xs \<Longrightarrow> I s \<Longrightarrow> f x s = Ok t \<Longrightarrow> I t"
  shows "I t"
  using assms
proof (induction xs arbitrary: s)
  case (Cons x xs)
  then obtain s' where "f x s = Ok s'" "try_fold f xs s' = Ok t"
    by (auto simp: and_then_Ok_iff)
  with Cons show ?case by (metis list.set_intros)
qed simp

text \<open>
  A loop that accumulates and checks each element against what came before: it succeeds exactly
  when every element passes its check on the accumulator of its prefix.
\<close>

lemma try_fold_accumulate:
  assumes "\<And>x s. x \<in> set xs \<Longrightarrow> f x s = (if P x s then Ok (g x s) else Err (err x s))"
  shows "try_fold f xs s = Ok t \<longleftrightarrow>
    (\<forall>us x vs. xs = us @ x # vs \<longrightarrow> P x (fold g us s)) \<and> t = fold g xs s"
  using assms
proof (induction xs arbitrary: s)
  case (Cons y ys)
  have split: "(\<forall>us x vs. y # ys = us @ x # vs \<longrightarrow> P x (fold g us s)) \<longleftrightarrow>
      P y s \<and> (\<forall>us x vs. ys = us @ x # vs \<longrightarrow> P x (fold g us (g y s)))"
  proof (intro iffI conjI allI impI)
    assume all: "\<forall>us x vs. y # ys = us @ x # vs \<longrightarrow> P x (fold g us s)"
    from all [rule_format, of "[]" y ys] show "P y s" by simp
    fix us x vs
    assume "ys = us @ x # vs"
    with all [rule_format, of "y # us" x vs] show "P x (fold g us (g y s))" by simp
  qed (auto simp: Cons_eq_append_conv)
  from Cons show ?case
    unfolding split by (auto simp: and_then_Ok_iff)
qed auto

end
