(* ===== verification/Device_Types.thy ===== *)
theory Device_Types
  imports Result_Flow Device_Identity
begin

text \<open>
  \<open>crates/host-device-core/src/kernel/error.rs\<close> (the host error carried by every failure) and the
  closed vocabularies of \<open>device_descriptor.rs\<close>: element types, packed storage formats, slot
  roles, lifetimes, initialization policies and program lifetimes, each with its spelling and the
  parser of the spelling. The lemmas say that each parser accepts exactly the spellings it
  prints, and what the packed extent of a tensor is.
\<close>

section \<open>Host errors\<close>

record HostError =
  he_code :: string
  he_message :: string
  he_retryable :: bool

definition HostError_new :: "string \<Rightarrow> string \<Rightarrow> bool \<Rightarrow> HostError" where
  "HostError_new code message retryable =
     \<lparr>he_code = code, he_message = message, he_retryable = retryable\<rparr>"

definition HostError_invalid_args :: "string \<Rightarrow> HostError" where
  "HostError_invalid_args message = HostError_new ''E_INVALID_ARGS'' message False"

definition HostError_forbidden :: "string \<Rightarrow> HostError" where
  "HostError_forbidden message = HostError_new ''E_FORBIDDEN'' message False"

definition HostError_timeout :: "string \<Rightarrow> HostError" where
  "HostError_timeout message = HostError_new ''E_TIMEOUT'' message True"

definition HostError_cancelled :: HostError where
  "HostError_cancelled = HostError_new ''E_CANCELLED'' ''operation cancelled'' False"

definition HostError_internal :: "string \<Rightarrow> HostError" where
  "HostError_internal message = HostError_new ''E_INTERNAL'' message False"

definition HostError_no_route :: "string \<Rightarrow> HostError" where
  "HostError_no_route message = HostError_new ''E_NO_ROUTE'' message False"

definition HostError_display :: "HostError \<Rightarrow> string" where
  "HostError_display e = he_code e @ '': '' @ he_message e"

section \<open>The codes of the descriptor surface\<close>

definition E_DEVICE_DESCRIPTOR :: string where
  "E_DEVICE_DESCRIPTOR = ''E_DEVICE_DESCRIPTOR''"

definition E_DEVICE_ABI_MISMATCH :: string where
  "E_DEVICE_ABI_MISMATCH = ''E_DEVICE_ABI_MISMATCH''"

definition E_DEVICE_ENTRY_MISMATCH :: string where
  "E_DEVICE_ENTRY_MISMATCH = ''E_DEVICE_ENTRY_MISMATCH''"

definition E_DEVICE_SHAPE_MISMATCH :: string where
  "E_DEVICE_SHAPE_MISMATCH = ''E_DEVICE_SHAPE_MISMATCH''"

definition E_DEVICE_DTYPE_MISMATCH :: string where
  "E_DEVICE_DTYPE_MISMATCH = ''E_DEVICE_DTYPE_MISMATCH''"

definition E_BACKEND_UNAVAILABLE :: string where
  "E_BACKEND_UNAVAILABLE = ''E_BACKEND_UNAVAILABLE''"

definition E_NO_DEVICE_PROGRAM :: string where
  "E_NO_DEVICE_PROGRAM = ''E_NO_DEVICE_PROGRAM''"

definition err_backend_unavailable :: "string \<Rightarrow> HostError" where
  "err_backend_unavailable message =
     \<lparr>he_code = E_BACKEND_UNAVAILABLE, he_message = message, he_retryable = False\<rparr>"

definition err_no_device_program :: "string \<Rightarrow> HostError" where
  "err_no_device_program message =
     \<lparr>he_code = E_NO_DEVICE_PROGRAM, he_message = message, he_retryable = False\<rparr>"

definition err_shape_mismatch :: "string \<Rightarrow> HostError" where
  "err_shape_mismatch message =
     \<lparr>he_code = E_DEVICE_SHAPE_MISMATCH, he_message = message, he_retryable = False\<rparr>"

definition err_descriptor :: "string \<Rightarrow> HostError" where
  "err_descriptor message =
     \<lparr>he_code = E_DEVICE_DESCRIPTOR, he_message = message, he_retryable = False\<rparr>"

definition err_abi_mismatch :: "string \<Rightarrow> HostError" where
  "err_abi_mismatch message =
     \<lparr>he_code = E_DEVICE_ABI_MISMATCH, he_message = message, he_retryable = False\<rparr>"

definition err_dtype_mismatch :: "string \<Rightarrow> HostError" where
  "err_dtype_mismatch message =
     \<lparr>he_code = E_DEVICE_DTYPE_MISMATCH, he_message = message, he_retryable = False\<rparr>"

section \<open>Element types\<close>

datatype DeviceDataType =
    DtF32
  | DtF64
  | DtI32
  | DtI64
  | DtU8
  | DtF16
  | DtBF16

fun DeviceDataType_spelling :: "DeviceDataType \<Rightarrow> string" where
  "DeviceDataType_spelling DtF32 = ''f32''"
| "DeviceDataType_spelling DtF64 = ''f64''"
| "DeviceDataType_spelling DtI32 = ''i32''"
| "DeviceDataType_spelling DtI64 = ''i64''"
| "DeviceDataType_spelling DtU8 = ''u8''"
| "DeviceDataType_spelling DtF16 = ''f16''"
| "DeviceDataType_spelling DtBF16 = ''bf16''"

definition DeviceDataType_from_spelling :: "string \<Rightarrow> DeviceDataType option" where
  "DeviceDataType_from_spelling s =
     (if s = ''f32'' then Some DtF32
      else if s = ''f64'' then Some DtF64
      else if s = ''i32'' then Some DtI32
      else if s = ''i64'' then Some DtI64
      else if s = ''u8'' then Some DtU8
      else if s = ''f16'' then Some DtF16
      else if s = ''bf16'' then Some DtBF16
      else None)"

lemma DeviceDataType_spelling_iff: "DeviceDataType_from_spelling s = Some x \<longleftrightarrow> s = DeviceDataType_spelling x"
  by (cases x) (auto simp: DeviceDataType_from_spelling_def)

fun byte_width :: "DeviceDataType \<Rightarrow> nat" where
  "byte_width DtF32 = 4"
| "byte_width DtF64 = 8"
| "byte_width DtI32 = 4"
| "byte_width DtI64 = 8"
| "byte_width DtU8 = 1"
| "byte_width DtF16 = 2"
| "byte_width DtBF16 = 2"

definition from_placement_discriminant :: "u32 \<Rightarrow> DeviceDataType option" where
  "from_placement_discriminant d =
     (if d = 3 then Some DtI32
      else if d = 4 then Some DtI64
      else if d = 6 then Some DtU8
      else if d = 10 then Some DtF16
      else if d = 11 then Some DtBF16
      else if d = 12 then Some DtF32
      else if d = 13 then Some DtF64
      else None)"

fun placement_discriminant :: "DeviceDataType \<Rightarrow> u32 option" where
  "placement_discriminant DtI32 = Some 3"
| "placement_discriminant DtI64 = Some 4"
| "placement_discriminant DtU8 = Some 6"
| "placement_discriminant DtF16 = Some 10"
| "placement_discriminant DtBF16 = Some 11"
| "placement_discriminant DtF32 = Some 12"
| "placement_discriminant DtF64 = Some 13"

lemma placement_iff: "from_placement_discriminant d = Some t \<longleftrightarrow> placement_discriminant t = Some d"
  by (cases t) (auto simp: from_placement_discriminant_def)

section \<open>Packed storage\<close>

datatype PackedStorageFormat =
    PsF32
  | PsF16
  | PsBf16
  | PsQ8_0
  | PsQ4_K
  | PsQ5_K
  | PsQ6_K
  | PsQ5_0
  | PsMXFP4

fun PackedStorageFormat_spelling :: "PackedStorageFormat \<Rightarrow> string" where
  "PackedStorageFormat_spelling PsF32 = ''F32''"
| "PackedStorageFormat_spelling PsF16 = ''F16''"
| "PackedStorageFormat_spelling PsBf16 = ''BF16''"
| "PackedStorageFormat_spelling PsQ8_0 = ''Q8_0''"
| "PackedStorageFormat_spelling PsQ4_K = ''Q4_K''"
| "PackedStorageFormat_spelling PsQ5_K = ''Q5_K''"
| "PackedStorageFormat_spelling PsQ6_K = ''Q6_K''"
| "PackedStorageFormat_spelling PsQ5_0 = ''Q5_0''"
| "PackedStorageFormat_spelling PsMXFP4 = ''MXFP4''"

definition PackedStorageFormat_from_spelling :: "string \<Rightarrow> PackedStorageFormat option" where
  "PackedStorageFormat_from_spelling s =
     (if s = ''F32'' then Some PsF32
      else if s = ''F16'' then Some PsF16
      else if s = ''BF16'' then Some PsBf16
      else if s = ''Q8_0'' then Some PsQ8_0
      else if s = ''Q4_K'' then Some PsQ4_K
      else if s = ''Q5_K'' then Some PsQ5_K
      else if s = ''Q6_K'' then Some PsQ6_K
      else if s = ''Q5_0'' then Some PsQ5_0
      else if s = ''MXFP4'' then Some PsMXFP4
      else None)"

lemma PackedStorageFormat_spelling_iff: "PackedStorageFormat_from_spelling s = Some x \<longleftrightarrow> s = PackedStorageFormat_spelling x"
  by (cases x) (auto simp: PackedStorageFormat_from_spelling_def)

fun ggml_type_id :: "PackedStorageFormat \<Rightarrow> u32" where
  "ggml_type_id PsF32 = 0"
| "ggml_type_id PsF16 = 1"
| "ggml_type_id PsBf16 = 30"
| "ggml_type_id PsQ8_0 = 8"
| "ggml_type_id PsQ4_K = 12"
| "ggml_type_id PsQ5_K = 13"
| "ggml_type_id PsQ6_K = 14"
| "ggml_type_id PsQ5_0 = 6"
| "ggml_type_id PsMXFP4 = 39"

definition from_ggml_type_id :: "u32 \<Rightarrow> PackedStorageFormat option" where
  "from_ggml_type_id i =
     (if i = 0 then Some PsF32
      else if i = 1 then Some PsF16
      else if i = 6 then Some PsQ5_0
      else if i = 8 then Some PsQ8_0
      else if i = 12 then Some PsQ4_K
      else if i = 13 then Some PsQ5_K
      else if i = 14 then Some PsQ6_K
      else if i = 30 then Some PsBf16
      else if i = 39 then Some PsMXFP4
      else None)"

fun block_elements :: "PackedStorageFormat \<Rightarrow> u32" where
  "block_elements PsF32 = 1"
| "block_elements PsF16 = 1"
| "block_elements PsBf16 = 1"
| "block_elements PsQ8_0 = 32"
| "block_elements PsQ4_K = 256"
| "block_elements PsQ5_K = 256"
| "block_elements PsQ6_K = 256"
| "block_elements PsQ5_0 = 32"
| "block_elements PsMXFP4 = 32"

fun block_bytes :: "PackedStorageFormat \<Rightarrow> u32" where
  "block_bytes PsF32 = 4"
| "block_bytes PsF16 = 2"
| "block_bytes PsBf16 = 2"
| "block_bytes PsQ8_0 = 34"
| "block_bytes PsQ4_K = 144"
| "block_bytes PsQ5_K = 176"
| "block_bytes PsQ6_K = 210"
| "block_bytes PsQ5_0 = 22"
| "block_bytes PsMXFP4 = 17"

text \<open>Rust's \<open>checked_mul\<close> on \<open>u64\<close>.\<close>

definition checked_mul :: "u64 \<Rightarrow> u64 \<Rightarrow> u64 option" where
  "checked_mul a b = (if unat a * unat b < 2 ^ 64 then Some (a * b) else None)"

definition packed_bytes_for_elements :: "PackedStorageFormat \<Rightarrow> u64 \<Rightarrow> u64 option" where
  "packed_bytes_for_elements f logical_elements =
     (let elements = ucast (block_elements f) in
      if logical_elements mod elements \<noteq> 0 then None
      else checked_mul (logical_elements div elements) (ucast (block_bytes f)))"

lemma from_ggml_iff: "from_ggml_type_id i = Some f \<longleftrightarrow> i = ggml_type_id f"
  by (cases f) (auto simp: from_ggml_type_id_def)

lemma checked_mul_Some_iff [u64_arith]:
  "checked_mul a b = Some c \<longleftrightarrow> unat a * unat b < 2 ^ 64 \<and> c = a * b"
  by (auto simp: checked_mul_def)

lemma checked_mul_unat: "checked_mul a b = Some c \<longleftrightarrow> unat a * unat b < 2 ^ 64 \<and> unat c = unat a * unat b"
  by (auto simp: checked_mul_def unat_word_ariths intro!: word_unat_eq_iff [THEN iffD2])

lemma block_elements_pos: "0 < unat (block_elements f)"
  by (cases f) simp_all

lemma unat_u32_lt: "unat (w :: u32) < 4294967296"
  using unsigned_less [of w] by simp

lemma unat_ucast_u32: "unat (ucast (w :: u32) :: u64) = unat w"
  using unat_u32_lt [of w] by (simp add: unsigned_ucast_eq take_bit_nat_eq_self)

text \<open>The packed extent in natural numbers.\<close>

lemma packed_bytes_iff:
  "packed_bytes_for_elements f n = Some b \<longleftrightarrow>
     unat (block_elements f) dvd unat n \<and>
     unat b = unat n div unat (block_elements f) * unat (block_bytes f)"
proof -
  have mod: "n mod ucast (block_elements f) \<noteq> 0 \<longleftrightarrow> \<not> unat (block_elements f) dvd unat n"
    by (simp add: word_unat_eq_iff unat_mod unat_ucast_u32 dvd_eq_mod_eq_0)
  show ?thesis
    unfolding packed_bytes_for_elements_def Let_def mod
    using unat_u64_lt [of b] by (auto simp: checked_mul_unat unat_div unat_ucast_u32)
qed

section \<open>Slot roles\<close>

datatype DeviceBufferRole =
    RoleInput
  | RoleOutput
  | RoleInOut

fun DeviceBufferRole_spelling :: "DeviceBufferRole \<Rightarrow> string" where
  "DeviceBufferRole_spelling RoleInput = ''input''"
| "DeviceBufferRole_spelling RoleOutput = ''output''"
| "DeviceBufferRole_spelling RoleInOut = ''in-out''"

definition DeviceBufferRole_from_spelling :: "string \<Rightarrow> DeviceBufferRole option" where
  "DeviceBufferRole_from_spelling s =
     (if s = ''input'' then Some RoleInput
      else if s = ''output'' then Some RoleOutput
      else if s = ''in-out'' then Some RoleInOut
      else None)"

lemma DeviceBufferRole_spelling_iff: "DeviceBufferRole_from_spelling s = Some x \<longleftrightarrow> s = DeviceBufferRole_spelling x"
  by (cases x) (auto simp: DeviceBufferRole_from_spelling_def)

section \<open>Lifetimes\<close>

datatype DeviceBufferLifetime =
    PerProgram
  | PerStep
  | ObservationPoint

fun DeviceBufferLifetime_spelling :: "DeviceBufferLifetime \<Rightarrow> string" where
  "DeviceBufferLifetime_spelling PerProgram = ''per-program''"
| "DeviceBufferLifetime_spelling PerStep = ''per-step''"
| "DeviceBufferLifetime_spelling ObservationPoint = ''observation-point''"

definition DeviceBufferLifetime_from_spelling :: "string \<Rightarrow> DeviceBufferLifetime option" where
  "DeviceBufferLifetime_from_spelling s =
     (if s = ''per-program'' then Some PerProgram
      else if s = ''per-step'' then Some PerStep
      else if s = ''observation-point'' then Some ObservationPoint
      else None)"

lemma DeviceBufferLifetime_spelling_iff: "DeviceBufferLifetime_from_spelling s = Some x \<longleftrightarrow> s = DeviceBufferLifetime_spelling x"
  by (cases x) (auto simp: DeviceBufferLifetime_from_spelling_def)

section \<open>Initialization\<close>

datatype DeviceBufferInitialization =
    ZeroFill
  | HostProvided
  | KernelInitialized

fun DeviceBufferInitialization_spelling :: "DeviceBufferInitialization \<Rightarrow> string" where
  "DeviceBufferInitialization_spelling ZeroFill = ''zero-fill''"
| "DeviceBufferInitialization_spelling HostProvided = ''host-provided''"
| "DeviceBufferInitialization_spelling KernelInitialized = ''kernel-initialized''"

definition DeviceBufferInitialization_from_spelling :: "string \<Rightarrow> DeviceBufferInitialization option" where
  "DeviceBufferInitialization_from_spelling s =
     (if s = ''zero-fill'' then Some ZeroFill
      else if s = ''host-provided'' then Some HostProvided
      else if s = ''kernel-initialized'' then Some KernelInitialized
      else None)"

lemma DeviceBufferInitialization_spelling_iff: "DeviceBufferInitialization_from_spelling s = Some x \<longleftrightarrow> s = DeviceBufferInitialization_spelling x"
  by (cases x) (auto simp: DeviceBufferInitialization_from_spelling_def)

section \<open>Program lifetimes\<close>

datatype DeviceProgramLifetime =
    SingleRun
  | RepeatingStep

fun DeviceProgramLifetime_spelling :: "DeviceProgramLifetime \<Rightarrow> string" where
  "DeviceProgramLifetime_spelling SingleRun = ''single-run''"
| "DeviceProgramLifetime_spelling RepeatingStep = ''repeating-step''"

definition DeviceProgramLifetime_from_spelling :: "string \<Rightarrow> DeviceProgramLifetime option" where
  "DeviceProgramLifetime_from_spelling s =
     (if s = ''single-run'' then Some SingleRun
      else if s = ''repeating-step'' then Some RepeatingStep
      else None)"

lemma DeviceProgramLifetime_spelling_iff: "DeviceProgramLifetime_from_spelling s = Some x \<longleftrightarrow> s = DeviceProgramLifetime_spelling x"
  by (cases x) (auto simp: DeviceProgramLifetime_from_spelling_def)

section \<open>Discriminants\<close>

text \<open>The casts \<open>as u32\<close> of the unit enums: declaration order.\<close>

fun dtype_u32 :: "DeviceDataType \<Rightarrow> u32" where
  "dtype_u32 DtF32 = 0"
| "dtype_u32 DtF64 = 1"
| "dtype_u32 DtI32 = 2"
| "dtype_u32 DtI64 = 3"
| "dtype_u32 DtU8 = 4"
| "dtype_u32 DtF16 = 5"
| "dtype_u32 DtBF16 = 6"

lemma dtype_u32_inject [codec]: "dtype_u32 x = dtype_u32 y \<longleftrightarrow> x = y"
  by (cases x; cases y) simp_all

fun role_u32 :: "DeviceBufferRole \<Rightarrow> u32" where
  "role_u32 RoleInput = 0"
| "role_u32 RoleOutput = 1"
| "role_u32 RoleInOut = 2"

lemma role_u32_inject [codec]: "role_u32 x = role_u32 y \<longleftrightarrow> x = y"
  by (cases x; cases y) simp_all

fun lifetime_u32 :: "DeviceBufferLifetime \<Rightarrow> u32" where
  "lifetime_u32 PerProgram = 0"
| "lifetime_u32 PerStep = 1"
| "lifetime_u32 ObservationPoint = 2"

lemma lifetime_u32_inject [codec]: "lifetime_u32 x = lifetime_u32 y \<longleftrightarrow> x = y"
  by (cases x; cases y) simp_all

fun init_u32 :: "DeviceBufferInitialization \<Rightarrow> u32" where
  "init_u32 ZeroFill = 0"
| "init_u32 HostProvided = 1"
| "init_u32 KernelInitialized = 2"

lemma init_u32_inject [codec]: "init_u32 x = init_u32 y \<longleftrightarrow> x = y"
  by (cases x; cases y) simp_all

fun program_lifetime_u32 :: "DeviceProgramLifetime \<Rightarrow> u32" where
  "program_lifetime_u32 SingleRun = 0"
| "program_lifetime_u32 RepeatingStep = 1"

lemma program_lifetime_u32_inject [codec]: "program_lifetime_u32 x = program_lifetime_u32 y \<longleftrightarrow> x = y"
  by (cases x; cases y) simp_all

end
