(* ===== verification/Descriptor.thy ===== *)
theory Descriptor
  imports Device_Types
begin

text \<open>
  The device descriptor of \<open>crates/host-device-core/src/device_descriptor.rs\<close> and its validation
  before any launch: the structures, the facts a validation accumulates slot by slot, and the
  stages of \<open>validate\<close> in the order of the source, each returning the first typed error.

  The two indexings \<open>position[&id]\<close> of the source panic on a missing key: the stages that contain
  them return an option whose \<^const>\<open>None\<close> is the panic. The traversal of the launch graph is the
  source's worklist loop; its termination is proved.
\<close>

section \<open>Structures\<close>

record DescriptorBuffer =
  bf_id :: u32
  bf_name :: string
  bf_semantic :: u32
  bf_role :: DeviceBufferRole
  bf_lifetime :: DeviceBufferLifetime
  bf_init :: DeviceBufferInitialization
  bf_binding :: u32
  bf_ty :: DeviceDataType
  bf_count :: u64
  bf_shape :: "u64 list option"
  bf_version :: u32

definition checked_byte_length :: "u64 \<Rightarrow> DeviceDataType \<Rightarrow> u64 option" where
  "checked_byte_length count ty = checked_mul count (of_nat (byte_width ty))"

definition buffer_byte_length :: "DescriptorBuffer \<Rightarrow> u64 option" where
  "buffer_byte_length b = checked_byte_length (bf_count b) (bf_ty b)"

record DescriptorKernel =
  kn_entry :: string
  kn_buffers :: "DescriptorBuffer list"
  kn_grid :: "u32 \<times> u32 \<times> u32"
  kn_block :: "u32 \<times> u32 \<times> u32"

definition axes :: "u32 \<times> u32 \<times> u32 \<Rightarrow> u32 list" where
  "axes a = (case a of (x, y, z) \<Rightarrow> [x, y, z])"

record DescriptorLaunch =
  ln_id :: u32
  ln_kernel :: u32

record DescriptorResult =
  rs_buffer :: u32
  rs_version :: u32
  rs_produced_by :: u32
  rs_at_launch :: u32

record DescriptorEndOfRunResult =
  eor_buffer :: u32
  eor_version :: u32

record DescriptorBufferVersion =
  bv_buffer :: u32
  bv_version :: u32
  bv_ty :: DeviceDataType
  bv_count :: u64
  bv_shape :: "u64 list option"

record DescriptorDataFlow =
  df_buffer :: u32
  df_version :: u32
  df_producer :: u32
  df_consumer :: u32

record DeviceDescriptor =
  dd_backend :: DeviceBackend
  dd_module :: "u8 list"
  dd_kernels :: "DescriptorKernel list"
  dd_launches :: "DescriptorLaunch list"
  dd_versions :: "DescriptorBufferVersion list"
  dd_lifetime :: DeviceProgramLifetime
  dd_flow :: "DescriptorDataFlow list"
  dd_roots :: "u32 list"
  dd_results :: "DescriptorResult list"
  dd_end_of_run :: "DescriptorEndOfRunResult list"

section \<open>Text helpers of the standard library\<close>

text \<open>\<open>trim().is_empty()\<close> on UTF-8 bytes: every character has the property White\_Space.\<close>

fun is_blank :: "string \<Rightarrow> bool" where
  "is_blank [] = True"
| "is_blank (c # s) =
     (if c \<in> {CHR 0x09, CHR 0x0A, CHR 0x0B, CHR 0x0C, CHR 0x0D, CHR 0x20} then is_blank s
      else case s of
        [] \<Rightarrow> False
      | d # s' \<Rightarrow>
          if c = CHR 0xC2 \<and> d \<in> {CHR 0x85, CHR 0xA0} then is_blank s'
          else case s' of
            [] \<Rightarrow> False
          | e # s'' \<Rightarrow>
              if (c, d, e) = (CHR 0xE1, CHR 0x9A, CHR 0x80) \<or>
                 (c, d) = (CHR 0xE2, CHR 0x80) \<and>
                   (CHR 0x80 \<le> e \<and> e \<le> CHR 0x8A \<or> e \<in> {CHR 0xA8, CHR 0xA9, CHR 0xAF}) \<or>
                 (c, d, e) = (CHR 0xE2, CHR 0x81, CHR 0x9F) \<or>
                 (c, d, e) = (CHR 0xE3, CHR 0x80, CHR 0x80)
              then is_blank s'' else False)"

fun debug_u64s :: "u64 list \<Rightarrow> string" where
  "debug_u64s [] = []"
| "debug_u64s [v] = display_u64 v"
| "debug_u64s (v # vs) = display_u64 v @ '', '' @ debug_u64s vs"

definition debug_shape :: "u64 list option \<Rightarrow> string" where
  "debug_shape s = (case s of None \<Rightarrow> ''None'' | Some v \<Rightarrow> ''Some(['' @ debug_u64s v @ ''])'')"

section \<open>The facts a validation accumulates\<close>

record DescriptorValidationFacts =
  vf_identities :: "(u32 \<times> string \<times> DeviceBufferRole) list"
  vf_semantic :: "(u32 \<times> u32) list"
  vf_lifetimes :: "(u32 \<times> DeviceBufferLifetime) list"
  vf_inits :: "(u32 \<times> DeviceBufferInitialization) list"
  vf_inputs :: "u32 list"
  vf_writes :: "u32 list"

definition no_facts :: DescriptorValidationFacts where
  "no_facts = \<lparr>vf_identities = [], vf_semantic = [], vf_lifetimes = [], vf_inits = [],
     vf_inputs = [], vf_writes = []\<rparr>"

definition buffer_label :: "DescriptorBuffer \<Rightarrow> string" where
  "buffer_label b = ''`'' @ bf_name b @ ''` (id '' @ display_u32 (bf_id b) @ '')''"

definition role_conflict :: "DeviceBufferRole \<Rightarrow> DeviceBufferRole \<Rightarrow> bool" where
  "role_conflict a b \<longleftrightarrow>
     (a = RoleInput \<and> b = RoleOutput) \<or> (a = RoleOutput \<and> b = RoleInput)"

definition validate_semantic_identity ::
    "DescriptorBuffer \<Rightarrow> DescriptorValidationFacts \<Rightarrow> (DescriptorValidationFacts, HostError) result" where
  "validate_semantic_identity slot fs =
     (if bf_semantic slot = 0 then
        Err (err_descriptor (''device buffer '' @ buffer_label slot @
          '' carries the reserved zero semantic value identity''))
      else case map_of (vf_semantic fs) (bf_id slot) of
        Some first \<Rightarrow>
          if first \<noteq> bf_semantic slot then
            Err (err_abi_mismatch (''device buffer '' @ buffer_label slot @
              '' is referenced with conflicting semantic value identities '' @ display_u32 first @
              '' and '' @ display_u32 (bf_semantic slot)))
          else Ok fs
      | None \<Rightarrow>
          (case List.find (\<lambda>(_, value). value = bf_semantic slot) (vf_semantic fs) of
             Some (other, value) \<Rightarrow>
               Err (err_abi_mismatch (''device buffers '' @ buffer_label slot @ '' and id '' @
                 display_u32 value @ '' alias the same semantic value '' @
                 display_u32 (bf_semantic slot) @ ''; each value is held by exactly one buffer''))
           | None \<Rightarrow> Ok (fs\<lparr>vf_semantic := vf_semantic fs @ [(bf_id slot, bf_semantic slot)]\<rparr>)))"

definition validate_buffer_identity ::
    "DescriptorBuffer \<Rightarrow> DescriptorValidationFacts \<Rightarrow> (DescriptorValidationFacts, HostError) result" where
  "validate_buffer_identity slot fs =
     (case map_of (vf_identities fs) (bf_id slot) of
        Some (name, role) \<Rightarrow>
          if role_conflict role (bf_role slot) then
            Err (err_abi_mismatch (''device buffer '' @ buffer_label slot @
              '' is referenced with conflicting roles '' @ DeviceBufferRole_spelling role @ '' and '' @
              DeviceBufferRole_spelling (bf_role slot)))
          else if name \<noteq> bf_name slot then
            Err (err_abi_mismatch (''device buffer id '' @ display_u32 (bf_id slot) @
              '' is referenced with conflicting names `'' @ name @ ''` and `'' @ bf_name slot @ ''`''))
          else Ok fs
      | None \<Rightarrow>
          Ok (fs\<lparr>vf_identities := vf_identities fs @ [(bf_id slot, bf_name slot, bf_role slot)]\<rparr>))"

definition push_new :: "'a \<Rightarrow> 'a list \<Rightarrow> 'a list" where
  "push_new x xs = (if List.member xs x then xs else xs @ [x])"

definition record_per_step_access ::
    "DescriptorBuffer \<Rightarrow> DescriptorValidationFacts \<Rightarrow> DescriptorValidationFacts" where
  "record_per_step_access slot fs =
     (if bf_lifetime slot = PerStep then
        (case bf_role slot of
           RoleInput \<Rightarrow> fs\<lparr>vf_inputs := push_new (bf_id slot) (vf_inputs fs)\<rparr>
         | _ \<Rightarrow> fs\<lparr>vf_writes := push_new (bf_id slot) (vf_writes fs)\<rparr>)
      else fs)"

definition has_key :: "u32 \<Rightarrow> u32 \<Rightarrow> DescriptorBufferVersion \<Rightarrow> bool" where
  "has_key buffer version v \<longleftrightarrow> bv_buffer v = buffer \<and> bv_version v = version"

definition versioned_label :: "DescriptorBuffer \<Rightarrow> string" where
  "versioned_label slot =
     ''device buffer '' @ buffer_label slot @ '' version '' @ display_u32 (bf_version slot)"

definition validate_version_metadata ::
    "DescriptorBuffer \<Rightarrow> DescriptorBufferVersion list \<Rightarrow> (unit, HostError) result" where
  "validate_version_metadata slot versions =
     (case List.find (has_key (bf_id slot) (bf_version slot)) versions of
        None \<Rightarrow> Err (err_descriptor (versioned_label slot @ '' has no keyed metadata''))
      | Some v \<Rightarrow>
          if bv_ty v \<noteq> bf_ty slot then
            Err (err_dtype_mismatch (versioned_label slot @
              '' is referenced with conflicting element types '' @ DeviceDataType_spelling (bv_ty v) @
              '' and '' @ DeviceDataType_spelling (bf_ty slot)))
          else if bv_count v \<noteq> bf_count slot then
            Err (err_shape_mismatch (versioned_label slot @
              '' is referenced with conflicting element counts '' @ display_u64 (bv_count v) @
              '' and '' @ display_u64 (bf_count slot)))
          else if bv_shape v \<noteq> bf_shape slot then
            Err (err_shape_mismatch (versioned_label slot @
              '' is referenced with conflicting shapes '' @ debug_shape (bv_shape v) @
              '' and '' @ debug_shape (bf_shape slot)))
          else Ok ())"

definition validate_lifetime ::
    "DescriptorBuffer \<Rightarrow> DescriptorValidationFacts \<Rightarrow> (DescriptorValidationFacts, HostError) result" where
  "validate_lifetime slot fs =
     (case map_of (vf_lifetimes fs) (bf_id slot) of
        Some first \<Rightarrow>
          if first \<noteq> bf_lifetime slot then
            Err (err_abi_mismatch (''device buffer '' @ buffer_label slot @
              '' is referenced with conflicting lifetimes '' @ DeviceBufferLifetime_spelling first @
              '' and '' @ DeviceBufferLifetime_spelling (bf_lifetime slot)))
          else Ok fs
      | None \<Rightarrow> Ok (fs\<lparr>vf_lifetimes := vf_lifetimes fs @ [(bf_id slot, bf_lifetime slot)]\<rparr>))"

definition validate_initialization ::
    "DescriptorBuffer \<Rightarrow> DescriptorValidationFacts \<Rightarrow> (DescriptorValidationFacts, HostError) result" where
  "validate_initialization slot fs =
     (case map_of (vf_inits fs) (bf_id slot) of
        Some first \<Rightarrow>
          if first \<noteq> bf_init slot then
            Err (err_abi_mismatch (''device buffer '' @ buffer_label slot @
              '' is referenced with conflicting initialization policies '' @
              DeviceBufferInitialization_spelling first @ '' and '' @
              DeviceBufferInitialization_spelling (bf_init slot)))
          else Ok fs
      | None \<Rightarrow> Ok (fs\<lparr>vf_inits := vf_inits fs @ [(bf_id slot, bf_init slot)]\<rparr>))"

definition validate_slot ::
    "DescriptorBufferVersion list \<Rightarrow> DescriptorKernel \<Rightarrow> DescriptorBuffer \<Rightarrow>
       u32 list \<times> DescriptorValidationFacts \<Rightarrow>
       (u32 list \<times> DescriptorValidationFacts, HostError) result" where
  "validate_slot versions kn slot state =
     (case state of (seen, fs) \<Rightarrow>
      if bf_count slot = 0 then
        Err (err_descriptor (''device descriptor kernel `'' @ kn_entry kn @
          ''` binds a zero-count buffer `'' @ bf_name slot @ ''`''))
      else if bf_version slot = 0 then
        Err (err_descriptor (''device descriptor kernel `'' @ kn_entry kn @
          ''` binds buffer `'' @ bf_name slot @ ''` with the reserved zero version''))
      else if List.member seen (bf_binding slot) then
        Err (err_abi_mismatch (''device descriptor kernel `'' @ kn_entry kn @
          ''` binds index '' @ display_u32 (bf_binding slot) @ '' more than once''))
      else
        and_then (validate_semantic_identity slot fs) (\<lambda>fs.
        and_then (validate_buffer_identity slot fs) (\<lambda>fs.
        let fs = record_per_step_access slot fs in
        and_then (validate_version_metadata slot versions) (\<lambda>_.
        and_then (validate_lifetime slot fs) (\<lambda>fs.
        and_then (validate_initialization slot fs) (\<lambda>fs.
          Ok (seen @ [bf_binding slot], fs)))))))"

definition validate_kernel ::
    "DescriptorBufferVersion list \<Rightarrow> DescriptorKernel \<Rightarrow> DescriptorValidationFacts \<Rightarrow>
       (DescriptorValidationFacts, HostError) result" where
  "validate_kernel versions kn fs =
     (if is_blank (kn_entry kn) then
        Err (err_descriptor ''device descriptor has a kernel with an empty entry name'')
      else if kn_buffers kn = [] then
        Err (err_descriptor (''device descriptor kernel `'' @ kn_entry kn @ ''` binds no buffers''))
      else if List.member (axes (kn_grid kn)) 0 \<or> List.member (axes (kn_block kn)) 0 then
        Err (err_descriptor (''device descriptor kernel `'' @ kn_entry kn @
          ''` has a zero grid or block axis''))
      else
        and_then (try_fold (validate_slot versions kn) (kn_buffers kn) ([], fs))
          (\<lambda>(seen, fs). Ok fs))"

definition validated_kernels ::
    "DeviceDescriptor \<Rightarrow> DescriptorBufferVersion list \<Rightarrow> (DescriptorValidationFacts, HostError) result" where
  "validated_kernels d versions = try_fold (validate_kernel versions) (dd_kernels d) no_facts"

section \<open>Launches and roots\<close>

definition check_launch ::
    "DeviceDescriptor \<Rightarrow> DescriptorLaunch \<Rightarrow> u32 list \<Rightarrow> (u32 list, HostError) result" where
  "check_launch d launch ids =
     (if ln_id launch = 0 then
        Err (err_descriptor ''device descriptor has a launch with the reserved zero identity'')
      else if List.member ids (ln_id launch) then
        Err (err_descriptor (''device descriptor repeats launch identity '' @ display_u32 (ln_id launch)))
      else if \<not> unat (ln_kernel launch) < length (dd_kernels d) then
        Err (err_descriptor (''device descriptor launch '' @ display_u32 (ln_id launch) @
          '' references unknown kernel index '' @ display_u32 (ln_kernel launch)))
      else Ok (ids @ [ln_id launch]))"

definition check_root :: "u32 list \<Rightarrow> u32 \<Rightarrow> u32 list \<Rightarrow> (u32 list, HostError) result" where
  "check_root launch_ids root roots =
     (if root = 0 then
        Err (err_descriptor ''device descriptor has a root with the reserved zero identity'')
      else if List.member roots root then
        Err (err_descriptor (''device descriptor repeats legal execution root '' @ display_u32 root))
      else if \<not> List.member launch_ids root then
        Err (err_descriptor (''device descriptor root '' @ display_u32 root @ '' names an unknown launch''))
      else Ok (roots @ [root]))"

definition validated_launches_and_roots ::
    "DeviceDescriptor \<Rightarrow> (u32 list \<times> u32 list, HostError) result" where
  "validated_launches_and_roots d =
     (if dd_module d = [] then
        Err (err_descriptor ''device descriptor carries an empty module image'')
      else if dd_kernels d = [] then
        Err (err_descriptor ''device descriptor declares no kernels'')
      else if dd_launches d = [] then
        Err (err_descriptor ''device descriptor declares no launches'')
      else
        and_then (try_fold (check_launch d) (dd_launches d) []) (\<lambda>launch_ids.
        and_then (try_fold (check_root launch_ids) (dd_roots d) []) (\<lambda>root_ids.
        if root_ids = [] then
          Err (err_descriptor ''device descriptor declares no legal execution roots'')
        else Ok (launch_ids, root_ids))))"

section \<open>Version metadata\<close>

text \<open>\<open>usize::try_from\<close> of a \<open>u64\<close> on the 64-bit targets of the host.\<close>

definition usize_holds :: "u64 \<Rightarrow> bool" where
  "usize_holds v \<longleftrightarrow> unat v < 2 ^ 64"

definition version_name :: "DescriptorBufferVersion \<Rightarrow> string" where
  "version_name v = display_u32 (bv_buffer v) @ '' version '' @ display_u32 (bv_version v)"

definition check_version ::
    "DescriptorBufferVersion \<Rightarrow> DescriptorBufferVersion list \<Rightarrow>
       (DescriptorBufferVersion list, HostError) result" where
  "check_version v versions =
     (if bv_version v = 0 then
        Err (err_descriptor (''device descriptor buffer '' @ display_u32 (bv_buffer v) @
          '' uses the reserved zero version''))
      else if bv_count v = 0 then
        Err (err_descriptor (''device descriptor buffer '' @ version_name v @
          '' has a zero element count''))
      else case checked_byte_length (bv_count v) (bv_ty v) of
        None \<Rightarrow>
          Err (err_shape_mismatch (''device descriptor buffer '' @ version_name v @
            '' has an overflowing element count '' @ display_u64 (bv_count v) @ '' for '' @
            DeviceDataType_spelling (bv_ty v)))
      | Some byte_length \<Rightarrow>
      if \<not> usize_holds byte_length then
        Err (err_shape_mismatch (''device descriptor buffer '' @ version_name v @ '' needs '' @
          display_u64 byte_length @ '' bytes, which overflows the host address space''))
      else case List.find (has_key (bv_buffer v) (bv_version v)) versions of
        Some first \<Rightarrow>
          if bv_ty first \<noteq> bv_ty v then
            Err (err_dtype_mismatch (''device buffer '' @ version_name v @
              '' carries conflicting element types '' @ DeviceDataType_spelling (bv_ty first) @
              '' and '' @ DeviceDataType_spelling (bv_ty v)))
          else if bv_count first \<noteq> bv_count v then
            Err (err_shape_mismatch (''device buffer '' @ version_name v @
              '' carries conflicting element counts '' @ display_u64 (bv_count first) @
              '' and '' @ display_u64 (bv_count v)))
          else if bv_shape first \<noteq> bv_shape v then
            Err (err_shape_mismatch (''device buffer '' @ version_name v @
              '' carries conflicting shapes '' @ debug_shape (bv_shape first) @
              '' and '' @ debug_shape (bv_shape v)))
          else
            Err (err_descriptor (''device descriptor repeats buffer '' @ version_name v @ '' metadata''))
      | None \<Rightarrow> Ok (versions @ [v]))"

definition validated_buffer_versions ::
    "DeviceDescriptor \<Rightarrow> (DescriptorBufferVersion list, HostError) result" where
  "validated_buffer_versions d =
     and_then (try_fold check_version (dd_versions d) []) (\<lambda>versions.
     if versions = [] then
       Err (err_descriptor ''device descriptor declares no version-keyed buffer metadata'')
     else Ok versions)"

section \<open>Data-flow edges and the schedule\<close>

definition edge_buffer :: "DescriptorDataFlow \<Rightarrow> string" where
  "edge_buffer e = display_u32 (df_buffer e) @ '' version '' @ display_u32 (df_version e)"

definition check_edge_references ::
    "u32 list \<Rightarrow> DescriptorBufferVersion list \<Rightarrow> DescriptorDataFlow \<Rightarrow> (unit, HostError) result" where
  "check_edge_references launch_ids versions e =
     (if df_version e = 0 \<or> df_producer e = 0 \<or> df_consumer e = 0 then
        Err (err_descriptor ''device descriptor data-flow edge uses a reserved zero identity'')
      else if df_producer e = df_consumer e then
        Err (err_descriptor (''device descriptor data-flow edge for buffer '' @ edge_buffer e @
          '' is self-referential at launch '' @ display_u32 (df_producer e)))
      else if \<not> List.member launch_ids (df_producer e) \<or> \<not> List.member launch_ids (df_consumer e) then
        Err (err_descriptor (''device descriptor data-flow edge for buffer '' @ edge_buffer e @
          '' references an unknown launch''))
      else if \<not> list_ex (has_key (df_buffer e) (df_version e)) versions then
        Err (err_descriptor (''device descriptor data-flow edge references unknown buffer '' @
          edge_buffer e))
      else Ok ())"

definition validate_data_flow_references ::
    "DeviceDescriptor \<Rightarrow> u32 list \<Rightarrow> DescriptorBufferVersion list \<Rightarrow> (unit, HostError) result" where
  "validate_data_flow_references d launch_ids versions =
     try_each (check_edge_references launch_ids versions) (dd_flow d)"

definition check_producer ::
    "DescriptorDataFlow \<Rightarrow> ((u32 \<times> u32) \<times> u32) list \<Rightarrow> (((u32 \<times> u32) \<times> u32) list, HostError) result" where
  "check_producer e producers =
     (case map_of producers (df_buffer e, df_version e) of
        Some first \<Rightarrow>
          if first = df_producer e then Ok producers
          else Err (err_descriptor (''device descriptor defines buffer '' @ edge_buffer e @
            '' twice (producers '' @ display_u32 first @ '' and '' @ display_u32 (df_producer e) @
            ''); one value generation has exactly one producer''))
      | None \<Rightarrow> Ok (producers @ [((df_buffer e, df_version e), df_producer e)]))"

definition launch_positions :: "DeviceDescriptor \<Rightarrow> (u32, nat) bmap" where
  "launch_positions d =
     fold (\<lambda>(i, l). bmap_insert (ln_id l) i) (List.enumerate 0 (dd_launches d)) []"

text \<open>The order check of the edges; the outer \<^const>\<open>None\<close> is the panic of an index.\<close>

fun check_order ::
    "(u32, nat) bmap \<Rightarrow> DescriptorDataFlow list \<Rightarrow> (unit, HostError) result option" where
  "check_order position [] = Some (Ok ())"
| "check_order position (e # es) =
     (case bmap_get position (df_producer e) of
        None \<Rightarrow> None
      | Some producer_at \<Rightarrow>
        (case bmap_get position (df_consumer e) of
           None \<Rightarrow> None
         | Some consumer_at \<Rightarrow>
             if consumer_at \<le> producer_at then
               Some (Err (err_descriptor
                 (''device descriptor launch order violates the carried dependency graph: launch '' @
                  display_u32 (df_producer e) @ '' (producer of buffer '' @ edge_buffer e @
                  '') is not scheduled before launch '' @ display_u32 (df_consumer e) @
                  '' (its consumer)'')))
             else check_order position es))"

text \<open>The worklist loop. The stack is held with its top first; the source's vector has it last.\<close>

definition push_consumers ::
    "DescriptorDataFlow list \<Rightarrow> u32 \<Rightarrow> u32 list \<Rightarrow> u32 list \<Rightarrow> u32 list" where
  "push_consumers edges launch reachable stack =
     fold (\<lambda>e stack. if df_producer e = launch \<and> \<not> List.member reachable (df_consumer e)
                      then df_consumer e # stack else stack) edges stack"

lemma set_push_consumers:
  "set (push_consumers edges l r stack) =
     set stack \<union> {df_consumer e | e. e \<in> set edges \<and> df_producer e = l \<and> df_consumer e \<notin> set r}"
proof -
  have "set (fold (\<lambda>e stack. if df_producer e = l \<and> \<not> List.member r (df_consumer e)
            then df_consumer e # stack else stack) es stack) =
      set stack \<union> {df_consumer e | e. e \<in> set es \<and> df_producer e = l \<and> df_consumer e \<notin> set r}" for es
    by (induction es arbitrary: stack) auto
  then show ?thesis by (simp add: push_consumers_def)
qed

function reach_loop ::
    "DescriptorDataFlow list \<Rightarrow> u32 list \<Rightarrow> u32 list \<Rightarrow> u32 list" where
  "reach_loop edges [] reachable = reachable"
| "reach_loop edges (launch # stack) reachable =
     (if List.member reachable launch then reach_loop edges stack reachable
      else let reachable = reachable @ [launch]
        in reach_loop edges (push_consumers edges launch reachable stack) reachable)"
  by pat_completeness auto

termination
proof (relation "(\<lambda>(edges, stack, reachable).
      card ((set stack \<union> df_consumer ` set edges) - set reachable)) <*mlex*>
    measure (\<lambda>(edges, stack, reachable). length stack)")
  fix edges :: "DescriptorDataFlow list" and launch :: u32 and stack reachable :: "u32 list"
  let ?c = "df_consumer ` set edges"
  assume "List.member reachable launch"
  then have "(set stack \<union> ?c) - set reachable = (set (launch # stack) \<union> ?c) - set reachable"
    by auto
  then show "((edges, stack, reachable), edges, launch # stack, reachable) \<in>
      (\<lambda>(edges, stack, reachable). card ((set stack \<union> df_consumer ` set edges) - set reachable)) <*mlex*>
      measure (\<lambda>(edges, stack, reachable). length stack)"
    by (simp add: mlex_prod_def)
next
  fix edges :: "DescriptorDataFlow list" and launch :: u32 and stack reachable x :: "u32 list"
  let ?c = "df_consumer ` set edges"
  assume new: "\<not> List.member reachable launch" and x: "x = reachable @ [launch]"
  have "(set (push_consumers edges launch x stack) \<union> ?c) - set x \<subset> (set (launch # stack) \<union> ?c) - set reachable"
    using new x by (auto simp: set_push_consumers)
  then have "card ((set (push_consumers edges launch x stack) \<union> ?c) - set x) <
      card ((set (launch # stack) \<union> ?c) - set reachable)"
    by (intro psubset_card_mono) auto
  then show "((edges, push_consumers edges launch x stack, x), edges, launch # stack, reachable) \<in>
      (\<lambda>(edges, stack, reachable). card ((set stack \<union> df_consumer ` set edges) - set reachable)) <*mlex*>
      measure (\<lambda>(edges, stack, reachable). length stack)"
    by (intro mlex_less) simp
qed (auto intro: wf_mlex)

definition check_reachable :: "u32 list \<Rightarrow> u32 \<Rightarrow> (unit, HostError) result" where
  "check_reachable reachable launch =
     ensure (List.member reachable launch)
       (err_descriptor (''device descriptor launch '' @ display_u32 launch @
         '' is not reachable from any declared root; the carried graph is incomplete''))"

definition validated_schedule ::
    "DeviceDescriptor \<Rightarrow> u32 list \<Rightarrow> u32 list \<Rightarrow> ((u32, nat) bmap, HostError) result option" where
  "validated_schedule d launch_ids root_ids =
     (case try_fold check_producer (dd_flow d) [] of
        Err e \<Rightarrow> Some (Err e)
      | Ok producers \<Rightarrow>
      let position = launch_positions d in
      case check_order position (dd_flow d) of
        None \<Rightarrow> None
      | Some (Err e) \<Rightarrow> Some (Err e)
      | Some (Ok _) \<Rightarrow>
          let reachable = reach_loop (dd_flow d) (rev root_ids) []
          in Some (and_then (try_each (check_reachable reachable) launch_ids) (\<lambda>_. Ok position)))"

section \<open>Observations\<close>

text \<open>One result row; the outer \<^const>\<open>None\<close> is the panic of indexing the positions.\<close>

definition check_result ::
    "u32 list \<Rightarrow> (u32, nat) bmap \<Rightarrow> (u32 \<times> DeviceBufferLifetime) list \<Rightarrow> DescriptorBufferVersion list \<Rightarrow>
       DescriptorResult \<Rightarrow> u32 list \<Rightarrow> (u32 list, HostError) result option" where
  "check_result launch_ids position lifetimes versions r ids =
     (let name = ''device descriptor result for buffer '' @ display_u32 (rs_buffer r) in
      if rs_version r = 0 then Some (Err (err_descriptor (name @ '' uses the reserved zero version'')))
      else if rs_produced_by r = 0 \<or> rs_at_launch r = 0 then
        Some (Err (err_descriptor (name @ '' uses a reserved zero launch identity'')))
      else if \<not> List.member launch_ids (rs_produced_by r) then
        Some (Err (err_descriptor (name @ '' names unknown producing launch '' @
          display_u32 (rs_produced_by r))))
      else if \<not> List.member launch_ids (rs_at_launch r) then
        Some (Err (err_descriptor (name @ '' names unknown observation launch '' @
          display_u32 (rs_at_launch r))))
      else case (bmap_get position (rs_at_launch r), bmap_get position (rs_produced_by r)) of
        (Some at_pos, Some produced_pos) \<Rightarrow>
          if at_pos < produced_pos then
            Some (Err (err_descriptor (name @ '' is observed at launch '' @ display_u32 (rs_at_launch r) @
              '' before its producing launch '' @ display_u32 (rs_produced_by r) @
              ''; an observation is valid only at or after the producer'')))
          else if List.member ids (rs_buffer r) then
            Some (Err (err_descriptor (''device descriptor repeats observation buffer '' @
              display_u32 (rs_buffer r) @ ''; results must be unique in the host receipt'')))
          else (case map_of lifetimes (rs_buffer r) of
            None \<Rightarrow> Some (Err (err_descriptor (''device descriptor result names buffer '' @
              display_u32 (rs_buffer r) @ '' which no kernel slot allocates'')))
          | Some lifetime \<Rightarrow>
              if lifetime \<noteq> ObservationPoint then
                Some (Err (err_descriptor (''device descriptor result names buffer '' @
                  display_u32 (rs_buffer r) @ '' with lifetime `'' @ DeviceBufferLifetime_spelling lifetime @
                  ''`; only declared observation-point buffers are read back (no undeclared readback)'')))
              else if \<not> list_ex (has_key (rs_buffer r) (rs_version r)) versions then
                Some (Err (err_descriptor (''device descriptor result names buffer '' @
                  display_u32 (rs_buffer r) @ '' version '' @ display_u32 (rs_version r) @
                  '' which has no keyed metadata'')))
              else Some (Ok (ids @ [rs_buffer r])))
      | _ \<Rightarrow> None)"

fun check_results ::
    "u32 list \<Rightarrow> (u32, nat) bmap \<Rightarrow> (u32 \<times> DeviceBufferLifetime) list \<Rightarrow> DescriptorBufferVersion list \<Rightarrow>
       DescriptorResult list \<Rightarrow> u32 list \<Rightarrow> (u32 list, HostError) result option" where
  "check_results launch_ids position lifetimes versions [] ids = Some (Ok ids)"
| "check_results launch_ids position lifetimes versions (r # rs) ids =
     (case check_result launch_ids position lifetimes versions r ids of
        None \<Rightarrow> None
      | Some (Err e) \<Rightarrow> Some (Err e)
      | Some (Ok ids) \<Rightarrow> check_results launch_ids position lifetimes versions rs ids)"

definition validated_results ::
    "DeviceDescriptor \<Rightarrow> u32 list \<Rightarrow> (u32, nat) bmap \<Rightarrow> (u32 \<times> DeviceBufferLifetime) list \<Rightarrow>
       DescriptorBufferVersion list \<Rightarrow> (u32 list, HostError) result option" where
  "validated_results d launch_ids position lifetimes versions =
     check_results launch_ids position lifetimes versions (dd_results d) []"

definition all_slots :: "DeviceDescriptor \<Rightarrow> DescriptorBuffer list" where
  "all_slots d = concat (map kn_buffers (dd_kernels d))"

definition check_end_of_run ::
    "DeviceDescriptor \<Rightarrow> DescriptorBufferVersion list \<Rightarrow> u32 list \<Rightarrow>
       DescriptorEndOfRunResult \<Rightarrow> u32 list \<Rightarrow> (u32 list, HostError) result" where
  "check_end_of_run d versions result_ids r ids =
     (let b = display_u32 (eor_buffer r); v = display_u32 (eor_version r) in
      if eor_version r = 0 then
        Err (err_descriptor (''device descriptor end-of-run observation for buffer '' @ b @
          '' uses the reserved zero version''))
      else if List.member result_ids (eor_buffer r) then
        Err (err_descriptor (''device descriptor end-of-run observation names per-step observation buffer '' @ b @
          ''; a buffer is never read both per step and at the end''))
      else if List.member ids (eor_buffer r) then
        Err (err_descriptor (''device descriptor end-of-run observation repeats buffer '' @ b @
          ''; the set must be unique in the host receipt''))
      else case List.find (\<lambda>slot. bf_id slot = eor_buffer r \<and> bf_version slot = eor_version r) (all_slots d) of
        None \<Rightarrow>
          Err (err_descriptor (''device descriptor end-of-run observation names buffer '' @ b @
            '' version '' @ v @ '' which no kernel slot allocates''))
      | Some meta \<Rightarrow>
          if bf_role meta = RoleInput then
            Err (err_descriptor (''device descriptor end-of-run observation names input buffer '' @ b @
              ''; a final value must be written by the program''))
          else if bf_lifetime meta \<noteq> PerStep \<and> bf_lifetime meta \<noteq> PerProgram then
            Err (err_descriptor (''device descriptor end-of-run observation names buffer '' @ b @
              '' with lifetime `'' @ DeviceBufferLifetime_spelling (bf_lifetime meta) @
              ''`; only per-step and per-program buffers are read back once at the end (observation-point buffers are the per-step results)''))
          else if \<not> list_ex (has_key (eor_buffer r) (eor_version r)) versions then
            Err (err_descriptor (''device descriptor end-of-run observation names buffer '' @ b @
              '' version '' @ v @ '' which has no keyed metadata''))
          else Ok (ids @ [eor_buffer r]))"

definition validate_end_of_run_results ::
    "DeviceDescriptor \<Rightarrow> DescriptorBufferVersion list \<Rightarrow> u32 list \<Rightarrow> (unit, HostError) result" where
  "validate_end_of_run_results d versions result_ids =
     and_then (try_fold (check_end_of_run d versions result_ids) (dd_end_of_run d) []) (\<lambda>_. Ok ())"

section \<open>validate\<close>

definition fact_name :: "DescriptorValidationFacts \<Rightarrow> u32 \<Rightarrow> string" where
  "fact_name fs i = (case map_of (vf_identities fs) i of Some (name, _) \<Rightarrow> name | None \<Rightarrow> ''<unknown>'')"

definition check_per_step :: "DescriptorValidationFacts \<Rightarrow> u32 \<Rightarrow> (unit, HostError) result" where
  "check_per_step fs i =
     ensure (\<not> List.member (vf_writes fs) i)
       (err_descriptor (''device buffer `'' @ fact_name fs i @ ''` (id '' @ display_u32 i @
         '') is a PerStep input written mid-graph; resident steps copy PerStep inputs once, so a later kernel write would clobber the host value''))"

definition check_once_init ::
    "DescriptorValidationFacts \<Rightarrow> u32 \<times> DeviceBufferInitialization \<Rightarrow> (unit, HostError) result" where
  "check_once_init fs entry =
     (case entry of (i, init) \<Rightarrow>
        ensure (init \<noteq> HostProvided \<or> map_of (vf_lifetimes fs) i = Some PerProgram)
          (err_descriptor (''RepeatingStep buffer `'' @ fact_name fs i @ ''` (id '' @ display_u32 i @
            '') is host-provided but has lifetime `'' @
            (case map_of (vf_lifetimes fs) i of
               None \<Rightarrow> ''(no declared lifetime)''
             | Some lifetime \<Rightarrow> DeviceBufferLifetime_spelling lifetime) @
            ''`; a repeating step once-inits its host-provided params at session creation, which is defined only for per-program storage'')))"

definition check_facts :: "DeviceDescriptor \<Rightarrow> DescriptorValidationFacts \<Rightarrow> (unit, HostError) result" where
  "check_facts d fs =
     and_then (try_each (check_per_step fs) (vf_inputs fs)) (\<lambda>_.
       if dd_lifetime d = RepeatingStep then try_each (check_once_init fs) (vf_inits fs) else Ok ())"

definition validate :: "DeviceDescriptor \<Rightarrow> (unit, HostError) result option" where
  "validate d =
     (case validated_launches_and_roots d of
        Err e \<Rightarrow> Some (Err e)
      | Ok (launch_ids, root_ids) \<Rightarrow>
      case validated_buffer_versions d of
        Err e \<Rightarrow> Some (Err e)
      | Ok versions \<Rightarrow>
      case validate_data_flow_references d launch_ids versions of
        Err e \<Rightarrow> Some (Err e)
      | Ok _ \<Rightarrow>
      case validated_schedule d launch_ids root_ids of
        None \<Rightarrow> None
      | Some (Err e) \<Rightarrow> Some (Err e)
      | Some (Ok position) \<Rightarrow>
      case validated_kernels d versions of
        Err e \<Rightarrow> Some (Err e)
      | Ok fs \<Rightarrow>
      case check_facts d fs of
        Err e \<Rightarrow> Some (Err e)
      | Ok _ \<Rightarrow>
      case validated_results d launch_ids position (vf_lifetimes fs) versions of
        None \<Rightarrow> None
      | Some (Err e) \<Rightarrow> Some (Err e)
      | Some (Ok result_ids) \<Rightarrow> Some (validate_end_of_run_results d versions result_ids))"

end
