(* ===== verification/Descriptor_Valid.thy ===== *)
theory Descriptor_Valid
  imports Descriptor
begin

text \<open>
  What \<open>validate\<close> of a device descriptor decides. The predicate \<open>valid_descriptor\<close> states the
  rules over sets of launches, edges and slots, without the source's accumulators and traversals;
  the lemmas show stage by stage that the code accepts exactly the valid descriptors and never
  panics, and that the worklist loop computes the launches reachable from the roots.
\<close>

section \<open>Accumulating loops\<close>

text \<open>A loop that appends \<open>g x\<close> after checking that its key is new.\<close>

lemma try_fold_unique:
  assumes "\<And>x s t. x \<in> set xs \<Longrightarrow>
      f x s = Ok t \<longleftrightarrow> ok x \<and> key (g x) \<notin> key ` set s \<and> t = s @ [g x]"
  shows "try_fold f xs s = Ok t \<longleftrightarrow>
    t = s @ map g xs \<and> distinct (map (key \<circ> g) xs) \<and>
    key ` g ` set xs \<inter> key ` set s = {} \<and> (\<forall>x\<in>set xs. ok x)"
  using assms
proof (induction xs arbitrary: s)
  case (Cons x xs)
  have "try_fold f (x # xs) s = Ok t \<longleftrightarrow>
      ok x \<and> key (g x) \<notin> key ` set s \<and> try_fold f xs (s @ [g x]) = Ok t"
    using Cons.prems by (auto simp: and_then_Ok_iff)
  also have "try_fold f xs (s @ [g x]) = Ok t \<longleftrightarrow>
      t = s @ g x # map g xs \<and> distinct (map (key \<circ> g) xs) \<and>
      key ` g ` set xs \<inter> insert (key (g x)) (key ` set s) = {} \<and> (\<forall>x\<in>set xs. ok x)"
    using Cons.IH [of "s @ [g x]"] Cons.prems by (simp add: comp_def)
  finally show ?case by (auto simp: image_iff comp_def)
qed auto

text \<open>Facts keyed by an identity, of which the first recorded one stays.\<close>

definition add_key :: "'k \<Rightarrow> 'v \<Rightarrow> ('k \<times> 'v) list \<Rightarrow> ('k \<times> 'v) list" where
  "add_key k v xs = (if map_of xs k = None then xs @ [(k, v)] else xs)"

lemma map_of_add_key:
  "map_of (add_key k v xs) i = (case map_of xs i of Some w \<Rightarrow> Some w | None \<Rightarrow> if i = k then Some v else None)"
  by (auto simp: add_key_def map_add_def split: option.splits)

lemma distinct_add_key: "distinct (map fst xs) \<Longrightarrow> distinct (map fst (add_key k v xs))"
  by (auto simp: add_key_def map_of_eq_None_iff)

lemma find_None_set: "List.find P xs = None \<longleftrightarrow> (\<forall>x\<in>set xs. \<not> P x)"
  by (auto simp: find_None_iff)

lemma pairwise_Cons:
  assumes "\<And>x y. K x y \<Longrightarrow> K y x" and "\<And>x. K x x"
  shows "(\<forall>x\<in>set (z # zs). \<forall>y\<in>set (z # zs). K x y) \<longleftrightarrow>
    (\<forall>y\<in>set zs. K z y) \<and> (\<forall>x\<in>set zs. \<forall>y\<in>set zs. K x y)"
  using assms by (simp add: ball_Un) blast

section \<open>The rules\<close>

abbreviation launch_ids :: "DeviceDescriptor \<Rightarrow> u32 list" where
  "launch_ids d \<equiv> map ln_id (dd_launches d)"

abbreviation version_key :: "DescriptorBufferVersion \<Rightarrow> u32 \<times> u32" where
  "version_key v \<equiv> (bv_buffer v, bv_version v)"

definition launches_valid :: "DeviceDescriptor \<Rightarrow> bool" where
  "launches_valid d \<longleftrightarrow>
     dd_module d \<noteq> [] \<and> dd_kernels d \<noteq> [] \<and> dd_launches d \<noteq> [] \<and>
     distinct (launch_ids d) \<and> 0 \<notin> set (launch_ids d) \<and>
     (\<forall>l\<in>set (dd_launches d). unat (ln_kernel l) < length (dd_kernels d)) \<and>
     dd_roots d \<noteq> [] \<and> distinct (dd_roots d) \<and> set (dd_roots d) \<subseteq> set (launch_ids d)"

definition version_valid :: "DescriptorBufferVersion \<Rightarrow> bool" where
  "version_valid v \<longleftrightarrow>
     bv_version v \<noteq> 0 \<and> bv_count v \<noteq> 0 \<and> unat (bv_count v) * byte_width (bv_ty v) < 2 ^ 64"

definition versions_valid :: "DeviceDescriptor \<Rightarrow> bool" where
  "versions_valid d \<longleftrightarrow>
     dd_versions d \<noteq> [] \<and> distinct (map version_key (dd_versions d)) \<and>
     (\<forall>v\<in>set (dd_versions d). version_valid v)"

definition edge_valid :: "DeviceDescriptor \<Rightarrow> DescriptorDataFlow \<Rightarrow> bool" where
  "edge_valid d e \<longleftrightarrow>
     df_version e \<noteq> 0 \<and> df_producer e \<noteq> df_consumer e \<and>
     {df_producer e, df_consumer e} \<subseteq> set (launch_ids d) - {0} \<and>
     (df_buffer e, df_version e) \<in> version_key ` set (dd_versions d)"

definition scheduled_before :: "DeviceDescriptor \<Rightarrow> u32 \<Rightarrow> u32 \<Rightarrow> bool" where
  "scheduled_before d l m \<longleftrightarrow>
     (\<exists>i j. i < j \<and> j < length (dd_launches d) \<and> launch_ids d ! i = l \<and> launch_ids d ! j = m)"

definition flow_edges :: "DescriptorDataFlow list \<Rightarrow> (u32 \<times> u32) set" where
  "flow_edges es = {(df_producer e, df_consumer e) | e. e \<in> set es}"

text \<open>One value generation has one producer.\<close>

definition same_producer :: "DescriptorDataFlow \<Rightarrow> DescriptorDataFlow \<Rightarrow> bool" where
  "same_producer e f \<longleftrightarrow>
     (df_buffer e = df_buffer f \<and> df_version e = df_version f \<longrightarrow> df_producer e = df_producer f)"

definition schedule_valid :: "DeviceDescriptor \<Rightarrow> bool" where
  "schedule_valid d \<longleftrightarrow>
     (\<forall>e\<in>set (dd_flow d). \<forall>f\<in>set (dd_flow d). same_producer e f) \<and>
     (\<forall>e\<in>set (dd_flow d). scheduled_before d (df_producer e) (df_consumer e)) \<and>
     set (launch_ids d) \<subseteq> (flow_edges (dd_flow d))\<^sup>* `` set (dd_roots d)"

definition slot_valid :: "DeviceDescriptor \<Rightarrow> DescriptorBuffer \<Rightarrow> bool" where
  "slot_valid d b \<longleftrightarrow>
     bf_count b \<noteq> 0 \<and> bf_version b \<noteq> 0 \<and> bf_semantic b \<noteq> 0 \<and>
     (\<exists>v\<in>set (dd_versions d). version_key v = (bf_id b, bf_version b) \<and>
        bv_ty v = bf_ty b \<and> bv_count v = bf_count b \<and> bv_shape v = bf_shape b)"

definition kernel_valid :: "DescriptorKernel \<Rightarrow> bool" where
  "kernel_valid k \<longleftrightarrow>
     \<not> is_blank (kn_entry k) \<and> kn_buffers k \<noteq> [] \<and>
     0 \<notin> set (axes (kn_grid k)) \<and> 0 \<notin> set (axes (kn_block k)) \<and>
     distinct (map bf_binding (kn_buffers k))"

definition first_slot :: "DescriptorBuffer list \<Rightarrow> u32 \<Rightarrow> DescriptorBuffer option" where
  "first_slot bs i = List.find (\<lambda>b. bf_id b = i) bs"

text \<open>A buffer id is one identity: one semantic value (and no other id has it), name, lifetime and
  initialization; its roles do not contradict the role of its first slot.\<close>

definition same_identity :: "DescriptorBuffer \<Rightarrow> DescriptorBuffer \<Rightarrow> bool" where
  "same_identity a b \<longleftrightarrow>
     (bf_id a = bf_id b \<longleftrightarrow> bf_semantic a = bf_semantic b) \<and>
     (bf_id a = bf_id b \<longrightarrow>
        bf_name a = bf_name b \<and> bf_lifetime a = bf_lifetime b \<and> bf_init a = bf_init b)"

definition first_role_agrees :: "DescriptorBuffer list \<Rightarrow> DescriptorBuffer \<Rightarrow> bool" where
  "first_role_agrees bs b \<longleftrightarrow>
     (\<forall>a. first_slot bs (bf_id b) = Some a \<longrightarrow> \<not> role_conflict (bf_role a) (bf_role b))"

definition identities_valid :: "DescriptorBuffer list \<Rightarrow> bool" where
  "identities_valid bs \<longleftrightarrow>
     (\<forall>a\<in>set bs. \<forall>b\<in>set bs. same_identity a b) \<and> (\<forall>b\<in>set bs. first_role_agrees bs b)"

definition policies_valid :: "DeviceDescriptor \<Rightarrow> bool" where
  "policies_valid d \<longleftrightarrow>
     (\<forall>a\<in>set (all_slots d). \<forall>b\<in>set (all_slots d).
        bf_id a = bf_id b \<and> bf_lifetime a = PerStep \<and> bf_role a = RoleInput \<longrightarrow>
        bf_lifetime b = PerStep \<longrightarrow> bf_role b = RoleInput) \<and>
     (dd_lifetime d = RepeatingStep \<longrightarrow>
        (\<forall>b\<in>set (all_slots d). bf_init b = HostProvided \<longrightarrow> bf_lifetime b = PerProgram))"

definition result_valid :: "DeviceDescriptor \<Rightarrow> DescriptorResult \<Rightarrow> bool" where
  "result_valid d r \<longleftrightarrow>
     rs_version r \<noteq> 0 \<and>
     {rs_produced_by r, rs_at_launch r} \<subseteq> set (launch_ids d) - {0} \<and>
     (rs_produced_by r = rs_at_launch r \<or> scheduled_before d (rs_produced_by r) (rs_at_launch r)) \<and>
     (\<exists>b\<in>set (all_slots d). bf_id b = rs_buffer r) \<and>
     (\<forall>b\<in>set (all_slots d). bf_id b = rs_buffer r \<longrightarrow> bf_lifetime b = ObservationPoint) \<and>
     (rs_buffer r, rs_version r) \<in> version_key ` set (dd_versions d)"

definition end_of_run_valid :: "DeviceDescriptor \<Rightarrow> DescriptorEndOfRunResult \<Rightarrow> bool" where
  "end_of_run_valid d r \<longleftrightarrow>
     eor_version r \<noteq> 0 \<and> eor_buffer r \<notin> rs_buffer ` set (dd_results d) \<and>
     (\<exists>b. List.find (\<lambda>b. bf_id b = eor_buffer r \<and> bf_version b = eor_version r) (all_slots d) = Some b \<and>
        bf_role b \<noteq> RoleInput \<and> bf_lifetime b \<noteq> ObservationPoint) \<and>
     (eor_buffer r, eor_version r) \<in> version_key ` set (dd_versions d)"

definition valid_descriptor :: "DeviceDescriptor \<Rightarrow> bool" where
  "valid_descriptor d \<longleftrightarrow>
     launches_valid d \<and> versions_valid d \<and> (\<forall>e\<in>set (dd_flow d). edge_valid d e) \<and>
     schedule_valid d \<and>
     (\<forall>k\<in>set (dd_kernels d). kernel_valid k) \<and> (\<forall>b\<in>set (all_slots d). slot_valid d b) \<and>
     identities_valid (all_slots d) \<and> policies_valid d \<and>
     distinct (map rs_buffer (dd_results d)) \<and> (\<forall>r\<in>set (dd_results d). result_valid d r) \<and>
     distinct (map eor_buffer (dd_end_of_run d)) \<and> (\<forall>r\<in>set (dd_end_of_run d). end_of_run_valid d r)"

section \<open>Launches, roots, versions and edges\<close>

lemma check_launch_Ok_iff:
  "check_launch d l s = Ok t \<longleftrightarrow>
     (ln_id l \<noteq> 0 \<and> unat (ln_kernel l) < length (dd_kernels d)) \<and> id (ln_id l) \<notin> id ` set s \<and>
     t = s @ [ln_id l]"
  by (auto simp: check_launch_def)

lemma check_root_Ok_iff:
  "check_root ids r s = Ok t \<longleftrightarrow> (r \<noteq> 0 \<and> r \<in> set ids) \<and> id r \<notin> id ` set s \<and> t = s @ [r]"
  by (auto simp: check_root_def)

lemma launches_Ok_iff:
  "validated_launches_and_roots d = Ok x \<longleftrightarrow> launches_valid d \<and> x = (launch_ids d, dd_roots d)"
proof -
  have l: "try_fold (check_launch d) (dd_launches d) [] = Ok ids \<longleftrightarrow>
      ids = launch_ids d \<and> distinct (launch_ids d) \<and>
      (\<forall>l\<in>set (dd_launches d). ln_id l \<noteq> 0 \<and> unat (ln_kernel l) < length (dd_kernels d))" for ids
    using try_fold_unique [where f = "check_launch d" and g = ln_id and key = id and xs = "dd_launches d"
        and s = "[]" and t = ids, OF check_launch_Ok_iff] by simp
  have r: "try_fold (check_root ids) (dd_roots d) [] = Ok rs \<longleftrightarrow>
      rs = dd_roots d \<and> distinct (dd_roots d) \<and> (\<forall>r\<in>set (dd_roots d). r \<noteq> 0 \<and> r \<in> set ids)" for ids rs
    using try_fold_unique [where f = "check_root ids" and g = "\<lambda>x. x" and key = id and xs = "dd_roots d"
        and s = "[]" and t = rs, OF check_root_Ok_iff] by simp
  show ?thesis
    unfolding validated_launches_and_roots_def launches_valid_def
    by (cases x) (auto simp: and_then_Ok_iff l r split: if_splits)
qed

lemma byte_length_Some_iff:
  "checked_byte_length n t = Some b \<longleftrightarrow> unat n * byte_width t < 2 ^ 64 \<and> unat b = unat n * byte_width t"
proof -
  have "unat (of_nat (byte_width t) :: u64) = byte_width t" by (cases t) simp_all
  then show ?thesis by (simp add: checked_byte_length_def checked_mul_unat)
qed

lemma byte_length_None_iff:
  "checked_byte_length n t = None \<longleftrightarrow> \<not> unat n * byte_width t < 2 ^ 64"
proof -
  have "unat (of_nat (byte_width t) :: u64) = byte_width t" by (cases t) simp_all
  then show ?thesis by (simp add: checked_byte_length_def checked_mul_def)
qed

lemma has_key_iff: "has_key b v x \<longleftrightarrow> version_key x = (b, v)"
  by (auto simp: has_key_def)

lemma find_has_key_None: "List.find (has_key b v) vs = None \<longleftrightarrow> (b, v) \<notin> version_key ` set vs"
  by (force simp: find_None_set has_key_iff)

lemma check_version_Ok_iff:
  "check_version v s = Ok t \<longleftrightarrow>
     version_valid v \<and> version_key v \<notin> version_key ` set s \<and> t = s @ [v]"
proof (cases "checked_byte_length (bv_count v) (bv_ty v)")
  case None
  then have "\<not> unat (bv_count v) * byte_width (bv_ty v) < 2 ^ 64"
    by (simp add: byte_length_None_iff)
  with None show ?thesis by (simp add: check_version_def version_valid_def)
next
  case (Some b)
  then have "unat (bv_count v) * byte_width (bv_ty v) < 2 ^ 64" "usize_holds b"
    using unat_u64_lt [of b] by (simp_all add: byte_length_Some_iff usize_holds_def)
  with Some show ?thesis
    by (auto simp: check_version_def version_valid_def find_has_key_None [symmetric] split: option.splits)
qed

lemma versions_Ok_iff:
  "validated_buffer_versions d = Ok vs \<longleftrightarrow> versions_valid d \<and> vs = dd_versions d"
proof -
  have "try_fold check_version (dd_versions d) [] = Ok vs \<longleftrightarrow>
      vs = dd_versions d \<and> distinct (map version_key (dd_versions d)) \<and>
      (\<forall>v\<in>set (dd_versions d). version_valid v)" for vs
    using try_fold_unique [where f = check_version and g = "\<lambda>x. x" and key = version_key and xs = "dd_versions d"
        and s = "[]" and t = vs, OF check_version_Ok_iff] by (simp add: comp_def)
  then show ?thesis
    by (auto simp: validated_buffer_versions_def versions_valid_def and_then_Ok_iff split: if_splits)
qed

lemma ex_has_key: "list_ex (has_key b v) vs \<longleftrightarrow> (b, v) \<in> version_key ` set vs"
  by (force simp: list_ex_iff has_key_iff)

lemma edges_Ok_iff:
  "validate_data_flow_references d (launch_ids d) (dd_versions d) = Ok u \<longleftrightarrow>
     (\<forall>e\<in>set (dd_flow d). edge_valid d e)"
proof -
  have "check_edge_references (launch_ids d) (dd_versions d) e = Ok () \<longleftrightarrow> edge_valid d e" for e
    unfolding check_edge_references_def edge_valid_def ex_has_key by auto
  then show ?thesis by (simp add: validate_data_flow_references_def try_each_Ok_iff)
qed

section \<open>The schedule\<close>

lemma check_producer_Ok_iff:
  "check_producer e s = Ok t \<longleftrightarrow>
     (\<forall>p. map_of s (df_buffer e, df_version e) = Some p \<longrightarrow> p = df_producer e) \<and>
     t = add_key (df_buffer e, df_version e) (df_producer e) s"
  by (auto simp: check_producer_def add_key_def split: option.splits)

definition agrees_with :: "((u32 \<times> u32) \<times> u32) list \<Rightarrow> DescriptorDataFlow \<Rightarrow> bool" where
  "agrees_with s e \<longleftrightarrow> (\<forall>p. map_of s (df_buffer e, df_version e) = Some p \<longrightarrow> p = df_producer e)"

lemma agrees_with_add:
  assumes "agrees_with s e"
  shows "agrees_with (add_key (df_buffer e, df_version e) (df_producer e) s) f \<longleftrightarrow>
    agrees_with s f \<and> same_producer e f"
  using assms
  by (cases "map_of s (df_buffer f, df_version f)") (auto simp: agrees_with_def map_of_add_key same_producer_def)

lemma producers_Ok_iff:
  "(\<exists>t. try_fold check_producer es s = Ok t) \<longleftrightarrow>
     (\<forall>e\<in>set es. agrees_with s e) \<and> (\<forall>e\<in>set es. \<forall>f\<in>set es. same_producer e f)"
proof (induction es arbitrary: s)
  case (Cons e es)
  let ?s = "add_key (df_buffer e, df_version e) (df_producer e) s"
  have "(\<exists>t. try_fold check_producer (e # es) s = Ok t) \<longleftrightarrow>
      agrees_with s e \<and> (\<exists>t. try_fold check_producer es ?s = Ok t)"
    by (auto simp: and_then_Ok_iff check_producer_Ok_iff agrees_with_def)
  also have "\<dots> \<longleftrightarrow> agrees_with s e \<and> (\<forall>f\<in>set es. agrees_with s f \<and> same_producer e f) \<and>
      (\<forall>f\<in>set es. \<forall>g\<in>set es. same_producer f g)"
    using Cons.IH [of ?s] by (auto simp: agrees_with_add)
  also have "\<dots> \<longleftrightarrow> (\<forall>f\<in>set (e # es). agrees_with s f) \<and>
      (\<forall>f\<in>set es. same_producer e f) \<and> (\<forall>f\<in>set es. \<forall>g\<in>set es. same_producer f g)"
    by (simp add: ball_conj_distrib conj_ac)
  also have "(\<forall>f\<in>set es. same_producer e f) \<and> (\<forall>f\<in>set es. \<forall>g\<in>set es. same_producer f g) \<longleftrightarrow>
      (\<forall>f\<in>set (e # es). \<forall>g\<in>set (e # es). same_producer f g)"
    by (rule pairwise_Cons [symmetric]) (auto simp: same_producer_def)
  finally show ?case .
qed simp

lemma positions_of_list:
  "launch_positions d = bmap_of_list (map (\<lambda>(i, l). (ln_id l, i)) (List.enumerate 0 (dd_launches d)))"
proof -
  have "fold (\<lambda>(i, l). bmap_insert (ln_id l) i) xs m =
      fold (\<lambda>(k, v). bmap_insert k v) (map (\<lambda>(i, l). (ln_id l, i)) xs) m"
    for xs :: "(nat \<times> DescriptorLaunch) list" and m
    by (induction xs arbitrary: m) auto
  then show ?thesis by (simp add: launch_positions_def bmap_of_list_def)
qed

lemma position_iff:
  assumes "distinct (launch_ids d)"
  shows "bmap_get (launch_positions d) l = Some i \<longleftrightarrow> i < length (dd_launches d) \<and> launch_ids d ! i = l"
proof -
  let ?ps = "map (\<lambda>(i, l). (ln_id l, i)) (List.enumerate 0 (dd_launches d))"
  have keys: "map fst ?ps = launch_ids d"
  proof -
    have "map fst ?ps = map ln_id (map snd (List.enumerate 0 (dd_launches d)))"
      by (simp only: map_map) (simp add: comp_def case_prod_unfold)
    then show ?thesis by simp
  qed
  have "bmap_get (launch_positions d) l = map_of ?ps l"
    unfolding positions_of_list map_of_bmap_of_list
    by (rule arg_cong [where f = "\<lambda>m. m l"], rule map_of_rev_distinct) (use keys assms in simp)
  also have "\<dots> = Some i \<longleftrightarrow> (l, i) \<in> set ?ps"
    using keys assms by (intro map_of_eq_Some_iff) simp
  also have "\<dots> \<longleftrightarrow> i < length (dd_launches d) \<and> launch_ids d ! i = l"
  proof -
    have "(l, i) \<in> set ?ps \<longleftrightarrow> (\<exists>x. (i, x) \<in> set (List.enumerate 0 (dd_launches d)) \<and> ln_id x = l)"
      by force
    then show ?thesis by (auto simp: in_set_enumerate_eq)
  qed
  finally show ?thesis .
qed

lemma position_ex:
  assumes "distinct (launch_ids d)" "l \<in> set (launch_ids d)"
  obtains i where "bmap_get (launch_positions d) l = Some i"
proof -
  from assms(2) obtain i where "i < length (dd_launches d)" "launch_ids d ! i = l"
    by (auto simp: in_set_conv_nth)
  with that position_iff [OF assms(1)] show thesis by blast
qed

lemma scheduled_before_iff:
  assumes "distinct (launch_ids d)"
    and "bmap_get (launch_positions d) l = Some i" "bmap_get (launch_positions d) m = Some j"
  shows "scheduled_before d l m \<longleftrightarrow> i < j"
proof -
  from assms have at: "i < length (launch_ids d)" "launch_ids d ! i = l"
      "j < length (launch_ids d)" "launch_ids d ! j = m"
    by (auto simp: position_iff)
  have "i' = i \<and> j' = j"
    if "i' < j'" "j' < length (dd_launches d)" "launch_ids d ! i' = l" "launch_ids d ! j' = m" for i' j'
    using that at assms(1) by (metis length_map nth_eq_iff_index_eq order.strict_trans)
  with at show ?thesis unfolding scheduled_before_def by (metis length_map)
qed

lemma check_order_cases:
  assumes "distinct (launch_ids d)"
    and "\<forall>e\<in>set es. {df_producer e, df_consumer e} \<subseteq> set (launch_ids d)"
  shows "check_order (launch_positions d) es \<noteq> None \<and>
    (check_order (launch_positions d) es = Some (Ok u) \<longleftrightarrow>
      (\<forall>e\<in>set es. scheduled_before d (df_producer e) (df_consumer e)))"
  using assms(2)
proof (induction es)
  case (Cons e es)
  from Cons.prems obtain i j where pos: "bmap_get (launch_positions d) (df_producer e) = Some i"
      "bmap_get (launch_positions d) (df_consumer e) = Some j"
    using position_ex [OF assms(1)] by (metis insert_subset list.set_intros(1))
  from Cons pos scheduled_before_iff [OF assms(1) pos] show ?case
    by auto
qed simp

lemma closed_reach:
  assumes "E `` R \<subseteq> R \<union> S"
  shows "E\<^sup>* `` R \<subseteq> R \<union> E\<^sup>* `` S"
proof
  fix y assume "y \<in> E\<^sup>* `` R"
  then obtain x where "(x, y) \<in> E\<^sup>*" "x \<in> R" by blast
  then show "y \<in> R \<union> E\<^sup>* `` S"
  proof (induction rule: rtrancl_induct)
    case (step y z)
    then consider "y \<in> R" | s where "s \<in> S" "(s, y) \<in> E\<^sup>*" by blast
    then show ?case
    proof cases
      case 1
      with step.hyps(2) assms show ?thesis by blast
    next
      case 2
      with step.hyps(2) show ?thesis by (meson ImageI UnI2 rtrancl.rtrancl_into_rtrancl)
    qed
  qed simp
qed

text \<open>The worklist loop adds to the launches already visited everything reachable from the stack.\<close>

lemma reach_loop_set:
  assumes "flow_edges edges `` set reachable \<subseteq> set reachable \<union> set stack"
  shows "set (reach_loop edges stack reachable) = set reachable \<union> (flow_edges edges)\<^sup>* `` set stack"
  using assms
proof (induction edges stack reachable rule: reach_loop.induct)
  case (1 edges reachable)
  then show ?case by simp
next
  case (2 edges l stack reachable)
  let ?E = "flow_edges edges"
  show ?case
  proof (cases "List.member reachable l")
    case True
    with "2.prems" have inv: "?E `` set reachable \<subseteq> set reachable \<union> set stack" by auto
    from True "2.IH"(1) [OF _ inv] have eq: "set (reach_loop edges (l # stack) reachable) =
        set reachable \<union> ?E\<^sup>* `` set stack" by simp
    have "?E\<^sup>* `` {l} \<subseteq> set reachable \<union> ?E\<^sup>* `` set stack"
      using closed_reach [OF inv] True by auto
    then show ?thesis unfolding eq by auto
  next
    case False
    let ?r = "reachable @ [l]"
    let ?s = "push_consumers edges l ?r stack"
    have stack': "set ?s = set stack \<union> (?E `` {l} - set ?r)"
      by (auto simp: set_push_consumers flow_edges_def)
    have inv: "?E `` set ?r \<subseteq> set ?r \<union> set ?s"
      using "2.prems" unfolding stack' by auto
    have eq: "set (reach_loop edges (l # stack) reachable) = set ?r \<union> ?E\<^sup>* `` set ?s"
      using False "2.IH"(2) [OF False refl inv] by (simp add: Let_def)
    have "?E\<^sup>* `` set ?s \<subseteq> ?E\<^sup>* `` set (l # stack)"
      unfolding stack' by (auto intro: converse_rtrancl_into_rtrancl)
    moreover have "?E\<^sup>* `` {l} \<subseteq> set ?r \<union> ?E\<^sup>* `` set ?s"
      using closed_reach [OF inv] by auto
    moreover have "?E\<^sup>* `` set stack \<subseteq> ?E\<^sup>* `` set ?s" unfolding stack' by auto
    ultimately show ?thesis unfolding eq by auto
  qed
qed

lemma schedule_cases:
  assumes "launches_valid d" and "\<forall>e\<in>set (dd_flow d). edge_valid d e"
  shows "validated_schedule d (launch_ids d) (dd_roots d) \<noteq> None \<and>
    (validated_schedule d (launch_ids d) (dd_roots d) = Some (Ok p) \<longleftrightarrow>
      schedule_valid d \<and> p = launch_positions d)"
proof -
  have ids: "distinct (launch_ids d)" using assms(1) by (simp add: launches_valid_def)
  have ends: "\<forall>e\<in>set (dd_flow d). {df_producer e, df_consumer e} \<subseteq> set (launch_ids d)"
    using assms(2) by (auto simp: edge_valid_def)
  note order = check_order_cases [OF ids ends]
  have reach: "try_each (check_reachable (reach_loop (dd_flow d) (rev (dd_roots d)) [])) (launch_ids d) = Ok () \<longleftrightarrow>
      set (launch_ids d) \<subseteq> (flow_edges (dd_flow d))\<^sup>* `` set (dd_roots d)"
    by (auto simp: try_each_Ok_iff check_reachable_def ensure_Ok_iff reach_loop_set)
  have one: "(\<exists>t. try_fold check_producer (dd_flow d) [] = Ok t) \<longleftrightarrow>
      (\<forall>e\<in>set (dd_flow d). \<forall>f\<in>set (dd_flow d). same_producer e f)"
    by (simp add: producers_Ok_iff agrees_with_def)
  show ?thesis
  proof (cases "try_fold check_producer (dd_flow d) []")
    case (Ok t)
    obtain r where r: "check_order (launch_positions d) (dd_flow d) = Some r"
      using order by blast
    show ?thesis
    proof (cases r)
      case (Ok u)
      with r order have "\<forall>e\<in>set (dd_flow d). scheduled_before d (df_producer e) (df_consumer e)" by simp
      with one \<open>try_fold check_producer _ _ = Ok t\<close> have v: "schedule_valid d \<longleftrightarrow>
          set (launch_ids d) \<subseteq> (flow_edges (dd_flow d))\<^sup>* `` set (dd_roots d)"
        unfolding schedule_valid_def by blast
      show ?thesis
        using \<open>try_fold check_producer _ _ = Ok t\<close> r Ok
        by (auto simp: validated_schedule_def and_then_Ok_iff reach v Let_def)
    next
      case (Err e)
      with r order have "\<not> schedule_valid d" by (auto simp: schedule_valid_def)
      with r Err \<open>try_fold check_producer _ _ = Ok t\<close> show ?thesis
        by (simp add: validated_schedule_def Let_def)
    qed
  next
    case (Err e)
    with one have "\<not> schedule_valid d" unfolding schedule_valid_def by auto
    with Err show ?thesis by (simp add: validated_schedule_def)
  qed
qed

section \<open>Slots and kernels\<close>

text \<open>The facts after a slot that passes: each keyed fact keeps its first entry.\<close>

definition add_slot :: "DescriptorBuffer \<Rightarrow> DescriptorValidationFacts \<Rightarrow> DescriptorValidationFacts" where
  "add_slot b fs = (record_per_step_access b fs)
     \<lparr>vf_semantic := add_key (bf_id b) (bf_semantic b) (vf_semantic fs),
      vf_identities := add_key (bf_id b) (bf_name b, bf_role b) (vf_identities fs),
      vf_lifetimes := add_key (bf_id b) (bf_lifetime b) (vf_lifetimes fs),
      vf_inits := add_key (bf_id b) (bf_init b) (vf_inits fs)\<rparr>"

definition slot_facts :: "DescriptorBuffer list \<Rightarrow> DescriptorValidationFacts" where
  "slot_facts us = fold add_slot us no_facts"

lemma first_slot_snoc:
  "first_slot (us @ [b]) i = (case first_slot us i of Some a \<Rightarrow> Some a | None \<Rightarrow> if bf_id b = i then Some b else None)"
  by (simp add: first_slot_def find_append split: option.split)

lemma first_slot_Some: "first_slot us i = Some a \<Longrightarrow> a \<in> set us \<and> bf_id a = i"
  unfolding first_slot_def by (rule find_Some_mem)

lemma first_slot_None: "first_slot us i = None \<longleftrightarrow> (\<forall>a\<in>set us. bf_id a \<noteq> i)"
  by (simp add: first_slot_def find_None_set)

lemma record_access_frame [simp]:
  "vf_semantic (record_per_step_access b fs) = vf_semantic fs"
  "vf_identities (record_per_step_access b fs) = vf_identities fs"
  "vf_lifetimes (record_per_step_access b fs) = vf_lifetimes fs"
  "vf_inits (record_per_step_access b fs) = vf_inits fs"
  by (simp_all add: record_per_step_access_def split: DeviceBufferRole.split)

lemma slot_facts_snoc: "slot_facts (us @ [b]) = add_slot b (slot_facts us)"
  by (simp add: slot_facts_def)

lemma slot_facts_lookup:
  "map_of (vf_semantic (slot_facts us)) i = map_option bf_semantic (first_slot us i)"
  "map_of (vf_identities (slot_facts us)) i = map_option (\<lambda>b. (bf_name b, bf_role b)) (first_slot us i)"
  "map_of (vf_lifetimes (slot_facts us)) i = map_option bf_lifetime (first_slot us i)"
  "map_of (vf_inits (slot_facts us)) i = map_option bf_init (first_slot us i)"
proof (induction us rule: rev_induct)
  case Nil
  { case 1 show ?case by (simp add: slot_facts_def no_facts_def first_slot_def) }
  { case 2 show ?case by (simp add: slot_facts_def no_facts_def first_slot_def) }
  { case 3 show ?case by (simp add: slot_facts_def no_facts_def first_slot_def) }
  { case 4 show ?case by (simp add: slot_facts_def no_facts_def first_slot_def) }
next
  case (snoc b us)
  note s = slot_facts_snoc add_slot_def map_of_add_key first_slot_snoc
  { case 1 show ?case using snoc(1) by (auto simp: s split: option.split) }
  { case 2 show ?case using snoc(2) by (auto simp: s split: option.split) }
  { case 3 show ?case using snoc(3) by (auto simp: s split: option.split) }
  { case 4 show ?case using snoc(4) by (auto simp: s split: option.split) }
qed

lemma slot_facts_distinct:
  "distinct (map fst (vf_semantic (slot_facts us)))" "distinct (map fst (vf_inits (slot_facts us)))"
  by (induction us rule: rev_induct)
     (simp_all add: slot_facts_snoc add_slot_def distinct_add_key, simp_all add: slot_facts_def no_facts_def)

lemma slot_facts_accesses:
  "set (vf_inputs (slot_facts us)) = {bf_id b | b. b \<in> set us \<and> bf_lifetime b = PerStep \<and> bf_role b = RoleInput}"
  "set (vf_writes (slot_facts us)) = {bf_id b | b. b \<in> set us \<and> bf_lifetime b = PerStep \<and> bf_role b \<noteq> RoleInput}"
proof (induction us rule: rev_induct)
  case Nil
  { case 1 show ?case by (simp add: slot_facts_def no_facts_def) }
  { case 2 show ?case by (simp add: slot_facts_def no_facts_def) }
next
  case (snoc b us)
  note s = slot_facts_snoc add_slot_def record_per_step_access_def push_new_def
  { case 1 show ?case using snoc(1) by (cases "bf_role b") (auto simp: s) }
  { case 2 show ?case using snoc(2) by (cases "bf_role b") (auto simp: s) }
qed

text \<open>What a slot is checked against: the slots before it.\<close>

definition slot_compatible :: "DescriptorBuffer list \<Rightarrow> DescriptorBuffer \<Rightarrow> bool" where
  "slot_compatible us b \<longleftrightarrow>
     (case first_slot us (bf_id b) of
        Some a \<Rightarrow> bf_semantic a = bf_semantic b \<and> \<not> role_conflict (bf_role a) (bf_role b) \<and>
          bf_name a = bf_name b \<and> bf_lifetime a = bf_lifetime b \<and> bf_init a = bf_init b
      | None \<Rightarrow> \<forall>i a. first_slot us i = Some a \<longrightarrow> bf_semantic a \<noteq> bf_semantic b)"

lemma metadata_Ok_iff:
  assumes "distinct (map version_key vs)"
  shows "validate_version_metadata b vs = Ok u \<longleftrightarrow>
    (\<exists>v\<in>set vs. version_key v = (bf_id b, bf_version b) \<and>
       bv_ty v = bf_ty b \<and> bv_count v = bf_count b \<and> bv_shape v = bf_shape b)"
proof (cases "List.find (has_key (bf_id b) (bf_version b)) vs")
  case None
  then have "\<forall>v\<in>set vs. version_key v \<noteq> (bf_id b, bf_version b)"
    by (simp add: find_None_set has_key_iff)
  with None show ?thesis by (auto simp: validate_version_metadata_def)
next
  case (Some v)
  then have v: "v \<in> set vs" "version_key v = (bf_id b, bf_version b)"
    using find_Some_mem [OF Some] by (simp_all add: has_key_iff)
  have unique: "w = v" if "w \<in> set vs" "version_key w = (bf_id b, bf_version b)" for w
    by (rule inj_onD [where f = "\<lambda>v. (bv_buffer v, bv_version v)" and A = "set vs"])
       (use assms that v in \<open>simp_all add: distinct_map\<close>)
  have "validate_version_metadata b vs = Ok u \<longleftrightarrow>
      bv_ty v = bf_ty b \<and> bv_count v = bf_count b \<and> bv_shape v = bf_shape b"
    using Some by (simp add: validate_version_metadata_def)
  then show ?thesis using v unique by blast
qed

lemma semantic_alias_iff:
  "List.find (\<lambda>(_, value). value = s) (vf_semantic (slot_facts us)) = None \<longleftrightarrow>
     (\<forall>i a. first_slot us i = Some a \<longrightarrow> bf_semantic a \<noteq> s)"
proof -
  have "(i, v) \<in> set (vf_semantic (slot_facts us)) \<longleftrightarrow> map_option bf_semantic (first_slot us i) = Some v" for i v
    using map_of_eq_Some_iff [OF slot_facts_distinct(1)] by (simp add: slot_facts_lookup)
  then show ?thesis by (auto simp: find_None_set)
qed

definition slot_local :: "DescriptorBufferVersion list \<Rightarrow> DescriptorBuffer \<Rightarrow> bool" where
  "slot_local vs b \<longleftrightarrow>
     bf_count b \<noteq> 0 \<and> bf_version b \<noteq> 0 \<and> bf_semantic b \<noteq> 0 \<and> validate_version_metadata b vs = Ok ()"

lemma semantic_step:
  "validate_semantic_identity b (slot_facts us) = Ok fs \<longleftrightarrow>
     bf_semantic b \<noteq> 0 \<and>
     (case first_slot us (bf_id b) of
        Some a \<Rightarrow> bf_semantic a = bf_semantic b
      | None \<Rightarrow> \<forall>i a. first_slot us i = Some a \<longrightarrow> bf_semantic a \<noteq> bf_semantic b) \<and>
     fs = (slot_facts us)\<lparr>vf_semantic := add_key (bf_id b) (bf_semantic b) (vf_semantic (slot_facts us))\<rparr>"
  by (cases "first_slot us (bf_id b)")
     (auto simp: validate_semantic_identity_def slot_facts_lookup add_key_def semantic_alias_iff [symmetric]
       split: option.splits)

lemma identity_step:
  assumes "vf_identities fs = vf_identities (slot_facts us)"
  shows "validate_buffer_identity b fs = Ok gs \<longleftrightarrow>
     (\<forall>a. first_slot us (bf_id b) = Some a \<longrightarrow>
        \<not> role_conflict (bf_role a) (bf_role b) \<and> bf_name a = bf_name b) \<and>
     gs = fs\<lparr>vf_identities := add_key (bf_id b) (bf_name b, bf_role b) (vf_identities fs)\<rparr>"
  using assms
  by (cases "first_slot us (bf_id b)")
     (auto simp: validate_buffer_identity_def slot_facts_lookup add_key_def)

lemma lifetime_step:
  assumes "vf_lifetimes fs = vf_lifetimes (slot_facts us)"
  shows "validate_lifetime b fs = Ok gs \<longleftrightarrow>
     (\<forall>a. first_slot us (bf_id b) = Some a \<longrightarrow> bf_lifetime a = bf_lifetime b) \<and>
     gs = fs\<lparr>vf_lifetimes := add_key (bf_id b) (bf_lifetime b) (vf_lifetimes fs)\<rparr>"
  using assms
  by (cases "first_slot us (bf_id b)") (auto simp: validate_lifetime_def slot_facts_lookup add_key_def)

lemma initialization_step:
  assumes "vf_inits fs = vf_inits (slot_facts us)"
  shows "validate_initialization b fs = Ok gs \<longleftrightarrow>
     (\<forall>a. first_slot us (bf_id b) = Some a \<longrightarrow> bf_init a = bf_init b) \<and>
     gs = fs\<lparr>vf_inits := add_key (bf_id b) (bf_init b) (vf_inits fs)\<rparr>"
  using assms
  by (cases "first_slot us (bf_id b)") (auto simp: validate_initialization_def slot_facts_lookup add_key_def)

lemma slot_step:
  "validate_slot vs k b (seen, slot_facts us) = Ok st \<longleftrightarrow>
     slot_local vs b \<and> bf_binding b \<notin> set seen \<and> slot_compatible us b \<and>
     st = (seen @ [bf_binding b], slot_facts (us @ [b]))"
proof -
  let ?f = "slot_facts us"
  let ?f1 = "?f\<lparr>vf_semantic := add_key (bf_id b) (bf_semantic b) (vf_semantic ?f)\<rparr>"
  let ?f2 = "?f1\<lparr>vf_identities := add_key (bf_id b) (bf_name b, bf_role b) (vf_identities ?f1)\<rparr>"
  let ?f3 = "record_per_step_access b ?f2"
  let ?f4 = "?f3\<lparr>vf_lifetimes := add_key (bf_id b) (bf_lifetime b) (vf_lifetimes ?f3)\<rparr>"
  let ?f5 = "?f4\<lparr>vf_inits := add_key (bf_id b) (bf_init b) (vf_inits ?f4)\<rparr>"
  have final: "?f5 = slot_facts (us @ [b])"
    by (cases "bf_role b"; cases "bf_lifetime b")
       (simp_all add: slot_facts_snoc add_slot_def record_per_step_access_def)
  have "validate_slot vs k b (seen, ?f) = Ok st \<longleftrightarrow>
      slot_local vs b \<and> bf_binding b \<notin> set seen \<and>
      (\<exists>g1. validate_semantic_identity b ?f = Ok g1 \<and>
        (\<exists>g2. validate_buffer_identity b g1 = Ok g2 \<and>
          (\<exists>g4. validate_lifetime b (record_per_step_access b g2) = Ok g4 \<and>
            (\<exists>g5. validate_initialization b g4 = Ok g5 \<and> st = (seen @ [bf_binding b], g5)))))"
    by (auto simp: validate_slot_def slot_local_def semantic_step and_then_Ok_iff Let_def)
  also have "\<dots> \<longleftrightarrow> slot_local vs b \<and> bf_binding b \<notin> set seen \<and>
      validate_semantic_identity b ?f = Ok ?f1 \<and> validate_buffer_identity b ?f1 = Ok ?f2 \<and>
      validate_lifetime b ?f3 = Ok ?f4 \<and> validate_initialization b ?f4 = Ok ?f5 \<and>
      st = (seen @ [bf_binding b], ?f5)"
    by (simp add: semantic_step identity_step lifetime_step initialization_step conj_ac cong: conj_cong)
  also have "\<dots> \<longleftrightarrow> slot_local vs b \<and> bf_binding b \<notin> set seen \<and> slot_compatible us b \<and>
      st = (seen @ [bf_binding b], ?f5)"
    by (cases "first_slot us (bf_id b)")
       (auto simp: semantic_step identity_step lifetime_step initialization_step slot_compatible_def slot_local_def)
  finally show ?thesis unfolding final .
qed

fun compatible_from :: "DescriptorBuffer list \<Rightarrow> DescriptorBuffer list \<Rightarrow> bool" where
  "compatible_from us [] \<longleftrightarrow> True"
| "compatible_from us (b # bs) \<longleftrightarrow> slot_compatible us b \<and> compatible_from (us @ [b]) bs"

lemma compatible_from_append:
  "compatible_from us (bs @ cs) \<longleftrightarrow> compatible_from us bs \<and> compatible_from (us @ bs) cs"
  by (induction bs arbitrary: us) auto

lemma slots_loop:
  "try_fold (validate_slot vs k) bs (seen, slot_facts us) = Ok st \<longleftrightarrow>
     (\<forall>b\<in>set bs. slot_local vs b) \<and> distinct (map bf_binding bs) \<and>
     bf_binding ` set bs \<inter> set seen = {} \<and> compatible_from us bs \<and>
     st = (seen @ map bf_binding bs, slot_facts (us @ bs))"
proof (induction bs arbitrary: seen us)
  case (Cons b bs)
  have "try_fold (validate_slot vs k) (b # bs) (seen, slot_facts us) = Ok st \<longleftrightarrow>
      slot_local vs b \<and> bf_binding b \<notin> set seen \<and> slot_compatible us b \<and>
      try_fold (validate_slot vs k) bs (seen @ [bf_binding b], slot_facts (us @ [b])) = Ok st"
    by (auto simp: and_then_Ok_iff slot_step)
  then show ?case unfolding Cons.IH by auto
qed auto

lemma kernels_loop:
  "try_fold (validate_kernel vs) ks (slot_facts us) = Ok fs \<longleftrightarrow>
     (\<forall>k\<in>set ks. kernel_valid k \<and> (\<forall>b\<in>set (kn_buffers k). slot_local vs b)) \<and>
     compatible_from us (concat (map kn_buffers ks)) \<and>
     fs = slot_facts (us @ concat (map kn_buffers ks))"
proof (induction ks arbitrary: us)
  case (Cons k ks)
  have one: "validate_kernel vs k (slot_facts us) = Ok gs \<longleftrightarrow>
      kernel_valid k \<and> (\<forall>b\<in>set (kn_buffers k). slot_local vs b) \<and> compatible_from us (kn_buffers k) \<and>
      gs = slot_facts (us @ kn_buffers k)" for gs
    by (auto simp: validate_kernel_def kernel_valid_def and_then_Ok_iff slots_loop)
  have "try_fold (validate_kernel vs) (k # ks) (slot_facts us) = Ok fs \<longleftrightarrow>
      kernel_valid k \<and> (\<forall>b\<in>set (kn_buffers k). slot_local vs b) \<and> compatible_from us (kn_buffers k) \<and>
      try_fold (validate_kernel vs) ks (slot_facts (us @ kn_buffers k)) = Ok fs"
    by (auto simp: and_then_Ok_iff one)
  then show ?case unfolding Cons.IH by (auto simp: compatible_from_append)
qed auto

lemma first_slot_member:
  assumes "c \<in> set us"
  obtains a where "first_slot us (bf_id c) = Some a" "a \<in> set us" "bf_id a = bf_id c"
  using assms first_slot_None first_slot_Some by (metis not_None_eq)

lemma role_conflict_self [simp]: "\<not> role_conflict r r"
  by (auto simp: role_conflict_def)

lemma same_identity_refl [simp]: "same_identity a a"
  by (simp add: same_identity_def)

lemma same_identity_sym: "same_identity a b \<Longrightarrow> same_identity b a"
  by (auto simp: same_identity_def)

lemma pairwise_snoc:
  assumes "\<And>x y. K x y \<Longrightarrow> K y x" and "\<And>x. K x x"
  shows "(\<forall>x\<in>set (zs @ [z]). \<forall>y\<in>set (zs @ [z]). K x y) \<longleftrightarrow>
    (\<forall>x\<in>set zs. \<forall>y\<in>set zs. K x y) \<and> (\<forall>x\<in>set zs. K x z)"
  using assms by (simp add: ball_Un) blast

lemma roles_snoc:
  "(\<forall>x\<in>set (us @ [b]). first_role_agrees (us @ [b]) x) \<longleftrightarrow>
     (\<forall>x\<in>set us. first_role_agrees us x) \<and> first_role_agrees us b"
proof -
  have "first_role_agrees (us @ [b]) x \<longleftrightarrow> first_role_agrees us x" if "x \<in> set us" for x
    using that by (rule first_slot_member) (simp add: first_role_agrees_def first_slot_snoc)
  moreover have "first_role_agrees (us @ [b]) b \<longleftrightarrow> first_role_agrees us b"
    by (cases "first_slot us (bf_id b)") (simp_all add: first_role_agrees_def first_slot_snoc)
  ultimately show ?thesis by auto
qed

lemma compatible_iff:
  assumes "\<forall>x\<in>set us. \<forall>y\<in>set us. same_identity x y"
  shows "slot_compatible us b \<longleftrightarrow> (\<forall>x\<in>set us. same_identity x b) \<and> first_role_agrees us b"
proof (cases "first_slot us (bf_id b)")
  case None
  then have other: "bf_id x \<noteq> bf_id b" if "x \<in> set us" for x
    using that by (simp add: first_slot_None)
  have "(\<forall>i a. first_slot us i = Some a \<longrightarrow> bf_semantic a \<noteq> bf_semantic b) \<longleftrightarrow>
      (\<forall>x\<in>set us. bf_semantic x \<noteq> bf_semantic b)"
  proof (intro iffI allI impI ballI)
    fix x assume all: "\<forall>i a. first_slot us i = Some a \<longrightarrow> bf_semantic a \<noteq> bf_semantic b" and x: "x \<in> set us"
    obtain a where a: "first_slot us (bf_id x) = Some a" "a \<in> set us" "bf_id a = bf_id x"
      using x by (rule first_slot_member)
    with assms x have "bf_semantic a = bf_semantic x" by (simp add: same_identity_def)
    with all a(1) show "bf_semantic x \<noteq> bf_semantic b" by metis
  next
    fix i a assume "\<forall>x\<in>set us. bf_semantic x \<noteq> bf_semantic b" "first_slot us i = Some a"
    then show "bf_semantic a \<noteq> bf_semantic b" using first_slot_Some by blast
  qed
  with None other show ?thesis by (simp add: slot_compatible_def first_role_agrees_def same_identity_def)
next
  case (Some a)
  note a = first_slot_Some [OF Some]
  have "same_identity a b \<longleftrightarrow> (\<forall>x\<in>set us. same_identity x b)"
  proof
    assume ab: "same_identity a b"
    show "\<forall>x\<in>set us. same_identity x b"
    proof
      fix x assume "x \<in> set us"
      with assms a have "same_identity x a" by simp
      with ab a show "same_identity x b" unfolding same_identity_def by simp
    qed
  qed (use a in simp)
  moreover have "slot_compatible us b \<longleftrightarrow> same_identity a b \<and> \<not> role_conflict (bf_role a) (bf_role b)"
    using Some a by (auto simp: slot_compatible_def same_identity_def)
  ultimately show ?thesis using Some by (simp add: first_role_agrees_def)
qed

lemma identities_snoc:
  "identities_valid (us @ [b]) \<longleftrightarrow> identities_valid us \<and> slot_compatible us b"
  unfolding identities_valid_def roles_snoc
  using pairwise_snoc [of same_identity us b] same_identity_sym compatible_iff [of us b] by auto

lemma compatible_identities: "compatible_from [] bs \<longleftrightarrow> identities_valid bs"
proof (induction bs rule: rev_induct)
  case Nil
  show ?case by (simp add: identities_valid_def)
next
  case (snoc b bs)
  then show ?case by (simp add: compatible_from_append identities_snoc)
qed

lemma kernels_Ok_iff:
  assumes "versions_valid d"
  shows "validated_kernels d (dd_versions d) = Ok fs \<longleftrightarrow>
    (\<forall>k\<in>set (dd_kernels d). kernel_valid k) \<and> (\<forall>b\<in>set (all_slots d). slot_valid d b) \<and>
    identities_valid (all_slots d) \<and> fs = slot_facts (all_slots d)"
proof -
  have keys: "distinct (map version_key (dd_versions d))" using assms by (simp add: versions_valid_def)
  have local: "slot_local (dd_versions d) b \<longleftrightarrow> slot_valid d b" for b
    by (simp add: slot_local_def slot_valid_def metadata_Ok_iff [OF keys])
  have start: "no_facts = slot_facts []" by (simp add: slot_facts_def)
  show ?thesis
    unfolding validated_kernels_def start kernels_loop compatible_identities local all_slots_def
    by auto
qed

section \<open>Policies and observations\<close>

lemma same_identity_facts:
  "same_identity a b \<Longrightarrow> bf_id a = bf_id b \<Longrightarrow>
     bf_name a = bf_name b \<and> bf_lifetime a = bf_lifetime b \<and> bf_init a = bf_init b"
  by (simp add: same_identity_def)

lemma first_slot_facts:
  assumes "identities_valid us" "b \<in> set us"
  obtains a where "first_slot us (bf_id b) = Some a" "a \<in> set us"
    "bf_lifetime a = bf_lifetime b" "bf_init a = bf_init b"
proof -
  obtain a where a: "first_slot us (bf_id b) = Some a" "a \<in> set us" "bf_id a = bf_id b"
    using assms(2) by (rule first_slot_member)
  have "same_identity a b" using assms a(2) by (simp add: identities_valid_def)
  from same_identity_facts [OF this a(3)] a that show thesis by blast
qed

lemma once_init_iff:
  assumes "identities_valid us"
  shows "try_each (check_once_init (slot_facts us)) (vf_inits (slot_facts us)) = Ok u \<longleftrightarrow>
    (\<forall>b\<in>set us. bf_init b = HostProvided \<longrightarrow> bf_lifetime b = PerProgram)"
proof -
  have mem: "(i, init) \<in> set (vf_inits (slot_facts us)) \<longleftrightarrow> (\<exists>a. first_slot us i = Some a \<and> init = bf_init a)" for i init
    using map_of_eq_Some_iff [OF slot_facts_distinct(2), of us i init] by (auto simp: slot_facts_lookup)
  have "try_each (check_once_init (slot_facts us)) (vf_inits (slot_facts us)) = Ok u \<longleftrightarrow>
      (\<forall>i a. first_slot us i = Some a \<longrightarrow> bf_init a = HostProvided \<longrightarrow> bf_lifetime a = PerProgram)"
  proof -
    have "check_once_init (slot_facts us) (i, init) = Ok v \<longleftrightarrow>
        (init = HostProvided \<longrightarrow> map_option bf_lifetime (first_slot us i) = Some PerProgram)" for i init v
      unfolding check_once_init_def prod.case ensure_Ok_iff slot_facts_lookup by blast
    then have "try_each (check_once_init (slot_facts us)) (vf_inits (slot_facts us)) = Ok u \<longleftrightarrow>
        (\<forall>i init. (i, init) \<in> set (vf_inits (slot_facts us)) \<longrightarrow>
          init = HostProvided \<longrightarrow> map_option bf_lifetime (first_slot us i) = Some PerProgram)"
      unfolding try_each_Ok_iff Ball_def split_paired_All by simp
    then show ?thesis unfolding mem by (auto; metis option.inject)
  qed
  also have "\<dots> \<longleftrightarrow> (\<forall>b\<in>set us. bf_init b = HostProvided \<longrightarrow> bf_lifetime b = PerProgram)"
    using first_slot_facts [OF assms] first_slot_Some by metis
  finally show ?thesis .
qed

lemma facts_Ok_iff:
  assumes "identities_valid (all_slots d)"
  shows "check_facts d (slot_facts (all_slots d)) = Ok u \<longleftrightarrow> policies_valid d"
proof -
  let ?S = "set (all_slots d)"
  have "try_each (check_per_step (slot_facts (all_slots d))) (vf_inputs (slot_facts (all_slots d))) = Ok v \<longleftrightarrow>
      (\<forall>a\<in>?S. \<forall>b\<in>?S. bf_id a = bf_id b \<and> bf_lifetime a = PerStep \<and> bf_role a = RoleInput \<longrightarrow>
        bf_lifetime b = PerStep \<longrightarrow> bf_role b = RoleInput)" for v
    by (auto simp: try_each_Ok_iff check_per_step_def ensure_Ok_iff slot_facts_accesses)
  then show ?thesis
    by (simp add: check_facts_def and_then_Ok_iff once_init_iff [OF assms] policies_valid_def)
qed

lemma result_lifetime_iff:
  assumes "identities_valid us"
  shows "map_option bf_lifetime (first_slot us i) = Some L \<longleftrightarrow>
    (\<exists>b\<in>set us. bf_id b = i) \<and> (\<forall>b\<in>set us. bf_id b = i \<longrightarrow> bf_lifetime b = L)"
proof (cases "first_slot us i")
  case None
  then have "\<forall>b\<in>set us. bf_id b \<noteq> i" by (simp add: first_slot_None)
  with None show ?thesis by auto
next
  case (Some a)
  have same: "bf_lifetime b = bf_lifetime a" if b: "b \<in> set us" "bf_id b = i" for b
  proof -
    obtain a' where "first_slot us (bf_id b) = Some a'" "bf_lifetime a' = bf_lifetime b"
      using first_slot_facts [OF assms b(1)] by metis
    with Some b(2) show ?thesis by simp
  qed
  have "(\<forall>b\<in>set us. bf_id b = i \<longrightarrow> bf_lifetime b = L) \<longleftrightarrow> bf_lifetime a = L"
    using same first_slot_Some [OF Some] by metis
  with Some first_slot_Some [OF Some] show ?thesis by auto
qed

lemma not_before_iff:
  assumes "distinct (launch_ids d)"
    and "bmap_get (launch_positions d) l = Some i" "bmap_get (launch_positions d) m = Some j"
  shows "\<not> j < i \<longleftrightarrow> l = m \<or> scheduled_before d l m"
proof -
  have "i = j \<longleftrightarrow> l = m"
    using assms position_iff [OF assms(1)] by (metis length_map nth_eq_iff_index_eq option.inject)
  with scheduled_before_iff [OF assms] show ?thesis by auto
qed

lemma check_result_cases:
  assumes "distinct (launch_ids d)" "identities_valid (all_slots d)"
  shows "check_result (launch_ids d) (launch_positions d) (vf_lifetimes (slot_facts (all_slots d))) (dd_versions d) r ids \<noteq> None
    \<and> (check_result (launch_ids d) (launch_positions d) (vf_lifetimes (slot_facts (all_slots d))) (dd_versions d) r ids =
        Some (Ok t) \<longleftrightarrow> result_valid d r \<and> rs_buffer r \<notin> set ids \<and> t = ids @ [rs_buffer r])"
proof (cases "rs_version r \<noteq> 0 \<and> rs_produced_by r \<noteq> 0 \<and> rs_at_launch r \<noteq> 0 \<and>
    rs_produced_by r \<in> set (launch_ids d) \<and> rs_at_launch r \<in> set (launch_ids d)")
  case False
  then have "\<not> result_valid d r" unfolding result_valid_def by blast
  moreover have "\<exists>e. check_result (launch_ids d) (launch_positions d) (vf_lifetimes (slot_facts (all_slots d)))
      (dd_versions d) r ids = Some (Err e)"
  proof -
    consider "rs_version r = 0" | "rs_version r \<noteq> 0" "rs_produced_by r = 0 \<or> rs_at_launch r = 0"
      | "rs_version r \<noteq> 0" "rs_produced_by r \<noteq> 0" "rs_at_launch r \<noteq> 0" "rs_produced_by r \<notin> set (launch_ids d)"
      | "rs_version r \<noteq> 0" "rs_produced_by r \<noteq> 0" "rs_at_launch r \<noteq> 0" "rs_produced_by r \<in> set (launch_ids d)"
        "rs_at_launch r \<notin> set (launch_ids d)"
      using False by blast
    then show ?thesis by cases (simp_all add: check_result_def Let_def)
  qed
  ultimately show ?thesis by (metis option.distinct(1) option.inject result.distinct(1))
next
  case True
  then obtain i j where pos: "bmap_get (launch_positions d) (rs_at_launch r) = Some i"
      "bmap_get (launch_positions d) (rs_produced_by r) = Some j"
    using position_ex [OF assms(1)] by metis
  note before = not_before_iff [OF assms(1) pos(2) pos(1)]
  have lt: "map_of (vf_lifetimes (slot_facts (all_slots d))) (rs_buffer r) = Some ObservationPoint \<longleftrightarrow>
      (\<exists>b\<in>set (all_slots d). bf_id b = rs_buffer r) \<and>
      (\<forall>b\<in>set (all_slots d). bf_id b = rs_buffer r \<longrightarrow> bf_lifetime b = ObservationPoint)"
    unfolding slot_facts_lookup by (rule result_lifetime_iff [OF assms(2)])
  have valid: "result_valid d r \<longleftrightarrow> \<not> i < j \<and>
      map_of (vf_lifetimes (slot_facts (all_slots d))) (rs_buffer r) = Some ObservationPoint \<and>
      list_ex (has_key (rs_buffer r) (rs_version r)) (dd_versions d)"
    using True unfolding result_valid_def before lt ex_has_key by auto
  show ?thesis
    unfolding valid using True pos
    by (cases "i < j"; cases "rs_buffer r \<in> set ids";
        cases "map_of (vf_lifetimes (slot_facts (all_slots d))) (rs_buffer r)")
       (simp_all add: check_result_def Let_def, auto)
qed

lemma results_cases:
  assumes "distinct (launch_ids d)" "identities_valid (all_slots d)"
  shows "check_results (launch_ids d) (launch_positions d) (vf_lifetimes (slot_facts (all_slots d))) (dd_versions d) rs ids
      \<noteq> None
    \<and> (check_results (launch_ids d) (launch_positions d) (vf_lifetimes (slot_facts (all_slots d))) (dd_versions d) rs ids =
        Some (Ok t) \<longleftrightarrow>
      (\<forall>r\<in>set rs. result_valid d r) \<and> distinct (map rs_buffer rs) \<and> rs_buffer ` set rs \<inter> set ids = {} \<and>
      t = ids @ map rs_buffer rs)"
proof (induction rs arbitrary: ids)
  case (Cons r rs)
  let ?c = "check_result (launch_ids d) (launch_positions d) (vf_lifetimes (slot_facts (all_slots d))) (dd_versions d) r ids"
  note one = check_result_cases [OF assms, of r ids]
  show ?case
  proof (cases "result_valid d r \<and> rs_buffer r \<notin> set ids")
    case True
    with one have "?c = Some (Ok (ids @ [rs_buffer r]))" by blast
    with True Cons.IH [of "ids @ [rs_buffer r]"] show ?thesis by auto
  next
    case False
    with one have "\<exists>e. ?c = Some (Err e)" by (metis not_None_eq result.exhaust)
    then obtain e where "?c = Some (Err e)" by blast
    with False show ?thesis by auto
  qed
qed auto

lemma end_of_run_Ok_iff:
  "check_end_of_run d (dd_versions d) (map rs_buffer (dd_results d)) r ids = Ok t \<longleftrightarrow>
     end_of_run_valid d r \<and> id (eor_buffer r) \<notin> id ` set ids \<and> t = ids @ [eor_buffer r]"
proof -
  have other: "bf_lifetime b \<noteq> PerStep \<and> bf_lifetime b \<noteq> PerProgram \<longleftrightarrow> bf_lifetime b = ObservationPoint" for b
    by (cases "bf_lifetime b") simp_all
  show ?thesis
    unfolding check_end_of_run_def end_of_run_valid_def ex_has_key other Let_def
    by (cases "List.find (\<lambda>b. bf_id b = eor_buffer r \<and> bf_version b = eor_version r) (all_slots d)") auto
qed

lemma end_of_run_results_Ok_iff:
  "validate_end_of_run_results d (dd_versions d) (map rs_buffer (dd_results d)) = Ok u \<longleftrightarrow>
     distinct (map eor_buffer (dd_end_of_run d)) \<and> (\<forall>r\<in>set (dd_end_of_run d). end_of_run_valid d r)"
  unfolding validate_end_of_run_results_def
  using try_fold_unique [where g = eor_buffer and key = id and xs = "dd_end_of_run d" and s = "[]",
      OF end_of_run_Ok_iff]
  by (auto simp: and_then_Ok_iff)

section \<open>validate\<close>

lemma validate_cases:
  "validate d \<noteq> None \<and> (validate d = Some (Ok u) \<longleftrightarrow> valid_descriptor d)"
proof (cases "launches_valid d \<and> versions_valid d \<and> (\<forall>e\<in>set (dd_flow d). edge_valid d e)")
  case False
  then have "\<exists>e. validate d = Some (Err e)"
  proof (cases "validated_launches_and_roots d")
    case (Ok x)
    then have x: "launches_valid d" "x = (launch_ids d, dd_roots d)" by (simp_all add: launches_Ok_iff)
    show ?thesis
    proof (cases "validated_buffer_versions d")
      case (Ok vs)
      then have vs: "versions_valid d" "vs = dd_versions d" by (simp_all add: versions_Ok_iff)
      with False x edges_Ok_iff [of d] obtain e where
        "validate_data_flow_references d (launch_ids d) (dd_versions d) = Err e"
        by (metis result.exhaust)
      with x vs Ok \<open>validated_launches_and_roots d = _\<close> show ?thesis by (simp add: validate_def)
    qed (use x \<open>validated_launches_and_roots d = _\<close> in \<open>simp add: validate_def\<close>)
  qed (simp add: validate_def)
  with False show ?thesis by (auto simp: valid_descriptor_def)
next
  case True
  then have pre: "validated_launches_and_roots d = Ok (launch_ids d, dd_roots d)"
      "validated_buffer_versions d = Ok (dd_versions d)"
      "validate_data_flow_references d (launch_ids d) (dd_versions d) = Ok ()"
    by (simp_all add: launches_Ok_iff versions_Ok_iff edges_Ok_iff)
  have ids: "distinct (launch_ids d)" using True by (simp add: launches_valid_def)
  note sched = schedule_cases [of d, OF conjunct1 [OF True] conjunct2 [OF conjunct2 [OF True]]]
  note kern = kernels_Ok_iff [of d, OF conjunct1 [OF conjunct2 [OF True]]]
  obtain s where s: "validated_schedule d (launch_ids d) (dd_roots d) = Some s" using sched by blast
  show ?thesis
  proof (cases s)
    case (Err e)
    with s sched have "\<not> schedule_valid d" by auto
    with s Err pre show ?thesis by (simp add: validate_def valid_descriptor_def)
  next
    case (Ok p)
    with s sched have p: "schedule_valid d" "p = launch_positions d" by simp_all
    show ?thesis
    proof (cases "validated_kernels d (dd_versions d)")
      case (Err e)
      with kern have "\<not> ((\<forall>k\<in>set (dd_kernels d). kernel_valid k) \<and> (\<forall>b\<in>set (all_slots d). slot_valid d b) \<and>
          identities_valid (all_slots d))" by auto
      with Err s Ok pre show ?thesis by (auto simp: validate_def valid_descriptor_def)
    next
      case (Ok fs)
      from iffD1 [OF kern this] have fs: "\<forall>k\<in>set (dd_kernels d). kernel_valid k"
          "\<forall>b\<in>set (all_slots d). slot_valid d b" "identities_valid (all_slots d)"
          "fs = slot_facts (all_slots d)" by blast+
      note facts = facts_Ok_iff [OF fs(3)] and results = results_cases [OF ids fs(3), of "dd_results d" "[]"]
      have expand: "validate d =
          (case check_facts d fs of
             Err e \<Rightarrow> Some (Err e)
           | Ok _ \<Rightarrow>
             (case validated_results d (launch_ids d) (launch_positions d) (vf_lifetimes fs) (dd_versions d) of
                None \<Rightarrow> None
              | Some (Err e) \<Rightarrow> Some (Err e)
              | Some (Ok ids) \<Rightarrow> Some (validate_end_of_run_results d (dd_versions d) ids)))"
        using pre s \<open>s = _\<close> p Ok by (simp add: validate_def)
      have rest: "valid_descriptor d \<longleftrightarrow> policies_valid d \<and>
          (distinct (map rs_buffer (dd_results d)) \<and> (\<forall>r\<in>set (dd_results d). result_valid d r)) \<and>
          (distinct (map eor_buffer (dd_end_of_run d)) \<and> (\<forall>r\<in>set (dd_end_of_run d). end_of_run_valid d r))"
        using True p(1) fs(1-3) by (auto simp: valid_descriptor_def)
      have "validated_results d (launch_ids d) (launch_positions d) (vf_lifetimes fs) (dd_versions d) = Some (Ok ids) \<longleftrightarrow>
          (distinct (map rs_buffer (dd_results d)) \<and> (\<forall>r\<in>set (dd_results d). result_valid d r)) \<and>
          ids = map rs_buffer (dd_results d)" for ids
        using results unfolding validated_results_def fs(4) by auto
      moreover obtain rr where rr: "validated_results d (launch_ids d) (launch_positions d) (vf_lifetimes fs) (dd_versions d) = Some rr"
        using results unfolding validated_results_def fs(4) by blast
      ultimately have res: "rr = Ok ids \<longleftrightarrow>
          (distinct (map rs_buffer (dd_results d)) \<and> (\<forall>r\<in>set (dd_results d). result_valid d r)) \<and>
          ids = map rs_buffer (dd_results d)" for ids by simp
      show ?thesis
      proof (cases rr)
        case (Ok ids)
        with res [of ids] show ?thesis
          unfolding expand rr rest facts [of "()", folded fs(4), symmetric] end_of_run_results_Ok_iff [of d "()", symmetric]
          by (cases "check_facts d fs") simp_all
      next
        case (Err e)
        with res [of "map rs_buffer (dd_results d)"] show ?thesis
          unfolding expand rr rest facts [of "()", folded fs(4), symmetric]
          by (cases "check_facts d fs") auto
      qed
    qed
  qed
qed

end
