(* ===== verification/Descriptor_Graph.thy ===== *)
theory Descriptor_Graph
  imports Descriptor_Valid Sha256 "HOL-Library.Multiset"
begin

text \<open>
  The program-graph identity of \<open>crates/host-device-core/src/device_descriptor.rs\<close>: the canonical
  byte stream of a descriptor, the second SHA-256 of the repository (one shot, over the padded
  message) and the receipt spelled from it. The lemmas show that this SHA-256 is the digest of
  the coordinator's streaming hasher, that the stream of a valid descriptor determines the graph
  facts it is made of, and that it does not depend on the order in which kernels and slots are
  declared.
\<close>

section \<open>The canonical stream\<close>

definition HOST_PROGRAM_GRAPH_DOMAIN_TAG :: string where
  "HOST_PROGRAM_GRAPH_DOMAIN_TAG = ''faber.host-program-graph.v2''"

definition push_len :: "u8 list \<Rightarrow> nat \<Rightarrow> u8 list" where
  "push_len bytes n = bytes @ u64_to_le_bytes (of_nat n)"

definition push_bytes :: "u8 list \<Rightarrow> u8 list \<Rightarrow> u8 list" where
  "push_bytes bytes value = push_len bytes (length value) @ value"

abbreviation slot_key :: "DescriptorBuffer \<Rightarrow> u32 \<times> u32" where
  "slot_key b \<equiv> (bf_id b, bf_version b)"

definition graph_buffers :: "DeviceDescriptor \<Rightarrow> DescriptorBuffer list" where
  "graph_buffers d = dedup_by_key slot_key (sort_key slot_key (all_slots d))"

definition push_graph_buffer :: "DescriptorBuffer \<Rightarrow> u8 list \<Rightarrow> u8 list" where
  "push_graph_buffer b bytes =
     (let bytes = push_u32 bytes (bf_id b);
          bytes = push_u32 bytes (bf_semantic b);
          bytes = push_u32 bytes (bf_version b);
          bytes = push_u32 bytes (dtype_u32 (bf_ty b));
          bytes = push_u64 bytes (bf_count b);
          bytes = push_u32 bytes (lifetime_u32 (bf_lifetime b))
      in push_u32 bytes (init_u32 (bf_init b)))"

definition launch_slots :: "DescriptorKernel \<Rightarrow> DescriptorBuffer list" where
  "launch_slots k = sort_key (\<lambda>b. (bf_id b, bf_version b, bf_binding b)) (kn_buffers k)"

definition push_launch_slot :: "DescriptorBuffer \<Rightarrow> u8 list \<Rightarrow> u8 list" where
  "push_launch_slot b bytes =
     (let bytes = push_u32 bytes (bf_id b);
          bytes = push_u32 bytes (bf_semantic b);
          bytes = push_u32 bytes (bf_version b);
          bytes = push_u32 bytes (role_u32 (bf_role b));
          bytes = push_u32 bytes (bf_binding b);
          bytes = push_u32 bytes (lifetime_u32 (bf_lifetime b));
          bytes = push_u32 bytes (init_u32 (bf_init b));
          bytes = push_u32 bytes (dtype_u32 (bf_ty b))
      in push_u64 bytes (bf_count b))"

definition push_kernel :: "DescriptorKernel \<Rightarrow> u8 list \<Rightarrow> u8 list" where
  "push_kernel k bytes =
     (let bytes = push_bytes bytes (str_bytes (kn_entry k));
          bytes = push_len bytes (length (kn_buffers k));
          bytes = fold push_launch_slot (launch_slots k) bytes;
          bytes = fold (\<lambda>axis bytes. push_u32 bytes axis) (axes (kn_grid k)) bytes
      in fold (\<lambda>axis bytes. push_u32 bytes axis) (axes (kn_block k)) bytes)"

definition kernel_of :: "DeviceDescriptor \<Rightarrow> DescriptorLaunch \<Rightarrow> DescriptorKernel option" where
  "kernel_of d l =
     (if unat (ln_kernel l) < length (dd_kernels d) then Some (dd_kernels d ! unat (ln_kernel l)) else None)"

definition push_launch :: "DeviceDescriptor \<Rightarrow> DescriptorLaunch \<Rightarrow> u8 list \<Rightarrow> u8 list" where
  "push_launch d l bytes =
     (let bytes = push_u32 bytes (ln_id l) in
      case kernel_of d l of Some k \<Rightarrow> push_kernel k bytes | None \<Rightarrow> bytes)"

definition push_edge :: "DescriptorDataFlow \<Rightarrow> u8 list \<Rightarrow> u8 list" where
  "push_edge e bytes =
     push_u32 (push_u32 (push_u32 (push_u32 bytes (df_buffer e)) (df_version e)) (df_producer e))
       (df_consumer e)"

definition push_result :: "DescriptorResult \<Rightarrow> u8 list \<Rightarrow> u8 list" where
  "push_result r bytes =
     push_u32 (push_u32 (push_u32 (push_u32 bytes (rs_buffer r)) (rs_version r)) (rs_produced_by r))
       (rs_at_launch r)"

definition push_end_of_run :: "DescriptorEndOfRunResult \<Rightarrow> u8 list \<Rightarrow> u8 list" where
  "push_end_of_run r bytes = push_u32 (push_u32 bytes (eor_buffer r)) (eor_version r)"

definition program_graph_bytes :: "DeviceDescriptor \<Rightarrow> u8 list" where
  "program_graph_bytes d =
     (let bytes = push_bytes [] (str_bytes HOST_PROGRAM_GRAPH_DOMAIN_TAG);
          bytes = push_u32 bytes (program_lifetime_u32 (dd_lifetime d));
          bytes = fold push_graph_buffer (graph_buffers d) bytes;
          bytes = push_len bytes (length (dd_roots d));
          bytes = fold (\<lambda>root bytes. push_u32 bytes root) (dd_roots d) bytes;
          bytes = push_len bytes (length (dd_launches d));
          bytes = fold (push_launch d) (dd_launches d) bytes;
          bytes = push_len bytes (length (dd_flow d));
          bytes = fold push_edge (dd_flow d) bytes;
          bytes = push_len bytes (length (dd_results d));
          bytes = fold push_result (dd_results d) bytes;
          bytes = push_len bytes (length (dd_end_of_run d))
      in fold push_end_of_run (dd_end_of_run d) bytes)"

section \<open>The one-shot SHA-256\<close>

definition SHA256_ROUND_CONSTANTS :: "u32 list" where
  "SHA256_ROUND_CONSTANTS =
     concat
      [[0x428a2f98, 0x71374491, 0xb5c0fbcf, 0xe9b5dba5], [0x3956c25b, 0x59f111f1, 0x923f82a4, 0xab1c5ed5],
       [0xd807aa98, 0x12835b01, 0x243185be, 0x550c7dc3], [0x72be5d74, 0x80deb1fe, 0x9bdc06a7, 0xc19bf174],
       [0xe49b69c1, 0xefbe4786, 0x0fc19dc6, 0x240ca1cc], [0x2de92c6f, 0x4a7484aa, 0x5cb0a9dc, 0x76f988da],
       [0x983e5152, 0xa831c66d, 0xb00327c8, 0xbf597fc7], [0xc6e00bf3, 0xd5a79147, 0x06ca6351, 0x14292967],
       [0x27b70a85, 0x2e1b2138, 0x4d2c6dfc, 0x53380d13], [0x650a7354, 0x766a0abb, 0x81c2c92e, 0x92722c85],
       [0xa2bfe8a1, 0xa81a664b, 0xc24b8b70, 0xc76c51a3], [0xd192e819, 0xd6990624, 0xf40e3585, 0x106aa070],
       [0x19a4c116, 0x1e376c08, 0x2748774c, 0x34b0bcb5], [0x391c0cb3, 0x4ed8aa4a, 0x5b9cca4f, 0x682e6ff3],
       [0x748f82ee, 0x78a5636f, 0x84c87814, 0x8cc70208], [0x90befffa, 0xa4506ceb, 0xbef9a3f7, 0xc67178f2]]"

definition SHA256_INITIAL_STATE :: sha_words where
  "SHA256_INITIAL_STATE =
     (0x6a09e667, 0xbb67ae85, 0x3c6ef372, 0xa54ff53a, 0x510e527f, 0x9b05688c, 0x1f83d9ab, 0x5be0cd19)"

function word_chunks :: "u8 list \<Rightarrow> u8 list list" where
  "word_chunks xs = (if 4 \<le> length xs then take 4 xs # word_chunks (drop 4 xs) else [])"
  by pat_completeness auto
termination
  by (relation "measure length") auto

declare word_chunks.simps [simp del]

definition graph_schedule :: "u8 list \<Rightarrow> u32 list" where
  "graph_schedule block =
     (let schedule = fold (\<lambda>(index, w) schedule.
            schedule[index := u32_from_be_bytes (w ! 0) (w ! 1) (w ! 2) (w ! 3)])
            (List.enumerate 0 (word_chunks block)) (replicate 64 0)
      in fold (\<lambda>index s.
           let sigma0 = xor (xor (rotate_right (s ! (index - 15)) 7) (rotate_right (s ! (index - 15)) 18))
                          (drop_bit 3 (s ! (index - 15)));
               sigma1 = xor (xor (rotate_right (s ! (index - 2)) 17) (rotate_right (s ! (index - 2)) 19))
                          (drop_bit 10 (s ! (index - 2)))
           in s[index := s ! (index - 16) + sigma0 + s ! (index - 7) + sigma1]) [16..<64] schedule)"

definition graph_round :: "u32 list \<Rightarrow> nat \<times> u32 \<Rightarrow> sha_words \<Rightarrow> sha_words" where
  "graph_round schedule entry st =
     (case entry of (index, constant) \<Rightarrow> case st of (a, b, c, d, e, f, g, h) \<Rightarrow>
      let sum1 = xor (xor (rotate_right e 6) (rotate_right e 11)) (rotate_right e 25);
          ch = xor (and e f) (and (not e) g);
          temp1 = h + sum1 + ch + constant + schedule ! index;
          sum0 = xor (xor (rotate_right a 2) (rotate_right a 13)) (rotate_right a 22);
          maj = xor (xor (and a b) (and a c)) (and b c);
          temp2 = sum0 + maj;
          h = g; g = f; f = e; e = d + temp1; d = c; c = b; b = a; a = temp1 + temp2
      in (a, b, c, d, e, f, g, h))"

definition graph_compress :: "u8 list \<Rightarrow> sha_words \<Rightarrow> sha_words" where
  "graph_compress block st =
     (let schedule = graph_schedule block;
          (a, b, c, d, e, f, g, h) =
            fold (graph_round schedule) (List.enumerate 0 SHA256_ROUND_CONSTANTS) st;
          (s0, s1, s2, s3, s4, s5, s6, s7) = st
      in (s0 + a, s1 + b, s2 + c, s3 + d, s4 + e, s5 + f, s6 + g, s7 + h))"

text \<open>The padding loop and the block iteration are those of the streaming hasher.\<close>

definition graph_sha256 :: "u8 list \<Rightarrow> u8 list" where
  "graph_sha256 bytes =
     (let bit_length = of_nat (length bytes) * 8;
          padded = bytes @ [0x80];
          padded = pad_zeros padded;
          padded = padded @ u64_to_be_bytes bit_length
      in sha_output (fold graph_compress (chunks_exact padded) SHA256_INITIAL_STATE))"

definition hex_encode :: "u8 list \<Rightarrow> string" where
  "hex_encode bytes = concat (map (\<lambda>b. [hex_digit (unat (drop_bit 4 b)), hex_digit (unat (and b 0x0f))]) bytes)"

definition sha256_hex :: "u8 list \<Rightarrow> string" where
  "sha256_hex bytes = hex_encode (graph_sha256 bytes)"

definition program_graph_hash :: "DeviceDescriptor \<Rightarrow> string" where
  "program_graph_hash d = ''sha256:'' @ sha256_hex (program_graph_bytes d)"

definition fnv1a64 :: "u8 list \<Rightarrow> u64" where
  "fnv1a64 bytes = fold (\<lambda>b h. xor h (ucast b) * 0x100000001b3) bytes 0xcbf29ce484222325"

section \<open>The digest is that of the streaming hasher\<close>

lemma constants_eq: "SHA256_ROUND_CONSTANTS = SHA256_K"
  by (simp add: SHA256_ROUND_CONSTANTS_def SHA256_K_def)

lemma enumerate_nth: "List.enumerate 0 xs = map (\<lambda>i. (i, xs ! i)) [0..<length xs]"
  by (rule nth_equalityI) (simp_all add: nth_enumerate_eq)

lemma rounds_eq: "fold (graph_round w) (List.enumerate 0 SHA256_ROUND_CONSTANTS) st = fold (sha_round w) [0..<64] st"
proof -
  have len: "length SHA256_K = 64" by (simp add: SHA256_K_def)
  have "fold (graph_round w) (List.enumerate 0 SHA256_K) st =
      fold (\<lambda>i. graph_round w (i, SHA256_K ! i)) [0..<64] st"
    unfolding enumerate_nth len by (simp add: fold_map comp_def)
  also have "(\<lambda>i. graph_round w (i, SHA256_K ! i)) = sha_round w"
    by (simp add: fun_eq_iff graph_round_def sha_round_def Let_def)
  finally show ?thesis unfolding constants_eq .
qed

lemma word_chunks_nth:
  "length xs = 4 * n \<Longrightarrow> length (word_chunks xs) = n \<and> (\<forall>i<n. word_chunks xs ! i = take 4 (drop (4 * i) xs))"
proof (induction n arbitrary: xs)
  case 0
  then show ?case by (simp add: word_chunks.simps)
next
  case (Suc n)
  then have "length (drop 4 xs) = 4 * n" by simp
  from Suc.IH [OF this] Suc.prems show ?case
    by (subst (1 2) word_chunks.simps) (auto simp: nth_Cons' less_Suc_eq_0_disj add.commute)
qed

lemma schedule_eq:
  assumes "length block = 64"
  shows "graph_schedule block = message_schedule block"
proof -
  have c: "length (word_chunks block) = 16" "\<forall>i<16. word_chunks block ! i = take 4 (drop (4 * i) block)"
    using word_chunks_nth [of block 16] assms by simp_all
  have "fold (\<lambda>(index, w) schedule. schedule[index := u32_from_be_bytes (w ! 0) (w ! 1) (w ! 2) (w ! 3)])
      (List.enumerate 0 (word_chunks block)) (replicate 64 0) =
    fold (\<lambda>i schedule. schedule[i := u32_from_be_bytes (word_chunks block ! i ! 0) (word_chunks block ! i ! 1)
      (word_chunks block ! i ! 2) (word_chunks block ! i ! 3)]) [0..<16] (replicate 64 0)"
    unfolding enumerate_nth c(1) by (simp add: fold_map comp_def)
  also have "\<dots> = fold (\<lambda>i w. let base = i * 4 in
        w[i := u32_from_be_bytes (block ! base) (block ! (base + 1)) (block ! (base + 2)) (block ! (base + 3))])
      [0..<16] (replicate 64 0)"
  proof (rule fold_cong [OF refl refl])
    fix i assume "i \<in> set [0..<16::nat]"
    then have "word_chunks block ! i ! j = block ! (i * 4 + j)" if "j < 4" for j
      using c(2) assms that by (simp add: mult.commute)
    from this [of 0] this [of 1] this [of 2] this [of 3]
    show "(\<lambda>schedule. schedule[i := u32_from_be_bytes (word_chunks block ! i ! 0) (word_chunks block ! i ! 1)
        (word_chunks block ! i ! 2) (word_chunks block ! i ! 3)]) =
      (\<lambda>w. let base = i * 4 in
        w[i := u32_from_be_bytes (block ! base) (block ! (base + 1)) (block ! (base + 2)) (block ! (base + 3))])"
      by (simp add: Let_def)
  qed
  finally show ?thesis
    by (simp only: graph_schedule_def message_schedule_def Let_def)
qed

lemma compress_eq: "length block = 64 \<Longrightarrow> graph_compress block st = compress block st"
  by (simp add: graph_compress_def compress_def schedule_eq rounds_eq)

lemma chunks_exact_lengths: "b \<in> set (chunks_exact xs) \<Longrightarrow> length b = 64"
proof (induction xs rule: chunks_exact.induct)
  case (1 xs)
  from 1(2) have long: "64 \<le> length xs" and "b = take 64 xs \<or> b \<in> set (chunks_exact (drop 64 xs))"
    by (subst (asm) chunks_exact.simps, force split: if_splits)+
  with 1(1) show ?case by (elim disjE) simp_all
qed

lemma graph_padding: "pad_zeros (m @ [0x80]) @ u64_to_be_bytes (of_nat (length m) * 8) = sha_padding m"
proof -
  have "of_nat (length m) * 8 = (of_nat (8 * length m) :: u64)" by simp
  then show ?thesis
    by (simp only: pad_zeros_eq sha_padding_def append.assoc length_append list.size add_0 One_nat_def)
qed

lemma graph_sha256_digest: "graph_sha256 m = Sha256_digest m"
proof -
  have "graph_sha256 m = sha_output (fold graph_compress (chunks_exact (sha_padding m)) SHA256_INITIAL_STATE)"
    by (simp only: graph_sha256_def Let_def graph_padding)
  also have "fold graph_compress (chunks_exact (sha_padding m)) SHA256_INITIAL_STATE =
      fold compress (chunks_exact (sha_padding m)) SHA256_INITIAL_STATE"
    by (rule fold_cong) (simp_all add: fun_eq_iff compress_eq chunks_exact_lengths)
  also have "SHA256_INITIAL_STATE = sha_state Sha256_new"
    by (simp add: SHA256_INITIAL_STATE_def Sha256_new_def)
  also have "sha_output (fold compress (chunks_exact (sha_padding m)) (sha_state Sha256_new)) = Sha256_digest m"
    using finalize_represents [OF represents_updates [of "[m]"]]
    by (simp add: Sha256_digest_def sha_reference_def)
  finally show ?thesis .
qed

lemma hex_encode_eq: "hex_encode bytes = concat (map hex_byte bytes)"
proof -
  have "unat (drop_bit 4 b) = unat b div 16" "unat (and b 0x0f) = unat b mod 16" for b :: u8
  proof -
    show "unat (drop_bit 4 b) = unat b div 16"
      by (simp only: unsigned_drop_bit_eq) (use unsigned_less [of b, where ?'a = nat] in \<open>simp add: drop_bit_eq_div take_bit_nat_eq_self\<close>)
    have "and b 0x0f = take_bit 4 b" by (simp add: take_bit_eq_mask mask_eq_exp_minus_1)
    then have "and b 0x0f = b mod 16" by (simp add: take_bit_eq_mod)
    then show "unat (and b 0x0f) = unat b mod 16" by (simp add: unat_mod)
  qed
  then show ?thesis by (simp only: hex_encode_def hex_byte_def [abs_def])
qed

section \<open>The facts the stream is made of\<close>

definition buffer_fact :: "DescriptorBuffer \<Rightarrow> _" where
  "buffer_fact b = (bf_id b, bf_semantic b, bf_version b, bf_ty b, bf_count b, bf_lifetime b, bf_init b)"

definition slot_fact :: "DescriptorBuffer \<Rightarrow> _" where
  "slot_fact b = (bf_id b, bf_version b, bf_binding b, bf_semantic b, bf_role b, bf_lifetime b, bf_init b,
     bf_ty b, bf_count b)"

definition kernel_fact :: "DescriptorKernel \<Rightarrow> _" where
  "kernel_fact k = (kn_entry k, map slot_fact (launch_slots k), kn_grid k, kn_block k)"

definition launch_fact :: "DeviceDescriptor \<Rightarrow> DescriptorLaunch \<Rightarrow> _" where
  "launch_fact d l = (ln_id l, kernel_fact (the (kernel_of d l)))"

definition edge_fact :: "DescriptorDataFlow \<Rightarrow> _" where
  "edge_fact e = (df_buffer e, df_version e, df_producer e, df_consumer e)"

definition result_fact :: "DescriptorResult \<Rightarrow> _" where
  "result_fact r = (rs_buffer r, rs_version r, rs_produced_by r, rs_at_launch r)"

definition end_of_run_fact :: "DescriptorEndOfRunResult \<Rightarrow> _" where
  "end_of_run_fact r = (eor_buffer r, eor_version r)"

text \<open>The encodings of these facts, each self-delimiting.\<close>

fun buffer_code :: "u32 \<times> u32 \<times> u32 \<times> DeviceDataType \<times> u64 \<times> DeviceBufferLifetime \<times> DeviceBufferInitialization \<Rightarrow> u8 list"
  where
  "buffer_code (i, s, v, t, n, l, z) =
     u32_to_le_bytes i @ u32_to_le_bytes s @ u32_to_le_bytes v @ u32_to_le_bytes (dtype_u32 t) @
     u64_to_le_bytes n @ u32_to_le_bytes (lifetime_u32 l) @ u32_to_le_bytes (init_u32 z)"

fun slot_code ::
  "u32 \<times> u32 \<times> u32 \<times> u32 \<times> DeviceBufferRole \<times> DeviceBufferLifetime \<times> DeviceBufferInitialization \<times> DeviceDataType \<times> u64 \<Rightarrow> u8 list"
  where
  "slot_code (i, v, b, s, r, l, z, t, n) =
     u32_to_le_bytes i @ u32_to_le_bytes s @ u32_to_le_bytes v @ u32_to_le_bytes (role_u32 r) @
     u32_to_le_bytes b @ u32_to_le_bytes (lifetime_u32 l) @ u32_to_le_bytes (init_u32 z) @
     u32_to_le_bytes (dtype_u32 t) @ u64_to_le_bytes n"

fun axes_code :: "u32 \<times> u32 \<times> u32 \<Rightarrow> u8 list" where
  "axes_code (x, y, z) = u32_to_le_bytes x @ u32_to_le_bytes y @ u32_to_le_bytes z"

fun launch_code where
  "launch_code (i, entry, slots, grid, block) =
     u32_to_le_bytes i @ str_code entry @ list_code slot_code slots @ axes_code grid @ axes_code block"

fun edge_code :: "u32 \<times> u32 \<times> u32 \<times> u32 \<Rightarrow> u8 list" where
  "edge_code (b, v, p, c) =
     u32_to_le_bytes b @ u32_to_le_bytes v @ u32_to_le_bytes p @ u32_to_le_bytes c"

fun end_of_run_code :: "u32 \<times> u32 \<Rightarrow> u8 list" where
  "end_of_run_code (b, v) = u32_to_le_bytes b @ u32_to_le_bytes v"

lemmas u32_injects =
  dtype_u32_inject role_u32_inject lifetime_u32_inject init_u32_inject program_lifetime_u32_inject

interpretation buffer_prefix: prefix_code buffer_code "\<lambda>_. True"
  by unfold_locales (auto simp: peel_simps u32_injects)

interpretation slot_prefix: prefix_code slot_code "\<lambda>_. True"
  by unfold_locales (auto simp: peel_simps u32_injects)

interpretation slots_prefix: prefix_code "list_code slot_code" "\<lambda>xs. fits_usize xs \<and> (\<forall>x\<in>set xs. True)"
  by (rule list_code_prefix [OF slot_prefix.prefix_code_axioms])

interpretation axes_prefix: prefix_code axes_code "\<lambda>_. True"
  by unfold_locales (auto simp: peel_simps)

definition launch_fits where
  "launch_fits f = (case f of (i :: u32, entry :: string, slots :: (u32 \<times> u32 \<times> u32 \<times> u32 \<times> DeviceBufferRole \<times>
     DeviceBufferLifetime \<times> DeviceBufferInitialization \<times> DeviceDataType \<times> u64) list,
     grid :: u32 \<times> u32 \<times> u32, block :: u32 \<times> u32 \<times> u32) \<Rightarrow> fits_usize entry \<and> fits_usize slots)"

interpretation launch_prefix: prefix_code launch_code launch_fits
  by unfold_locales
     (auto simp: launch_fits_def peel_simps slots_prefix.peel_iff axes_prefix.peel_iff axes_prefix.inj)

interpretation edge_prefix: prefix_code edge_code "\<lambda>_. True"
  by unfold_locales (auto simp: peel_simps)

interpretation end_of_run_prefix: prefix_code end_of_run_code "\<lambda>_. True"
  by unfold_locales (auto simp: peel_simps)

interpretation roots_prefix: prefix_code "list_code u32_to_le_bytes" "\<lambda>xs. fits_usize xs \<and> (\<forall>x\<in>set xs. True)"
  by (rule list_code_prefix [OF u32_code.prefix_code_axioms])

interpretation launches_prefix: prefix_code "list_code launch_code" "\<lambda>xs. fits_usize xs \<and> (\<forall>x\<in>set xs. launch_fits x)"
  by (rule list_code_prefix [OF launch_prefix.prefix_code_axioms])

interpretation edges_prefix: prefix_code "list_code edge_code" "\<lambda>xs. fits_usize xs \<and> (\<forall>x\<in>set xs. True)"
  by (rule list_code_prefix [OF edge_prefix.prefix_code_axioms])

interpretation end_of_runs_prefix: prefix_code "list_code end_of_run_code" "\<lambda>xs. fits_usize xs \<and> (\<forall>x\<in>set xs. True)"
  by (rule list_code_prefix [OF end_of_run_prefix.prefix_code_axioms])

lemma push_facts:
  "push_graph_buffer b out = out @ buffer_code (buffer_fact b)"
  "push_launch_slot b out = out @ slot_code (slot_fact b)"
  "push_edge e out = out @ edge_code (edge_fact e)"
  "push_result r out = out @ edge_code (result_fact r)"
  "push_end_of_run r' out = out @ end_of_run_code (end_of_run_fact r')"
  by (simp_all add: push_graph_buffer_def buffer_fact_def push_launch_slot_def slot_fact_def push_edge_def
      edge_fact_def push_result_def result_fact_def push_end_of_run_def end_of_run_fact_def push_code Let_def)

lemma fold_push_facts:
  "fold push_graph_buffer bs out = out @ concat (map buffer_code (map buffer_fact bs))"
  "fold push_launch_slot bs out = out @ concat (map slot_code (map slot_fact bs))"
  "fold push_edge es out = out @ concat (map edge_code (map edge_fact es))"
  "fold push_result rs out = out @ concat (map edge_code (map result_fact rs))"
  "fold push_end_of_run fs out = out @ concat (map end_of_run_code (map end_of_run_fact fs))"
  "fold (\<lambda>root bytes. push_u32 bytes root) ws out = out @ concat (map u32_to_le_bytes ws)"
  by (simp_all add: fold_push_concat push_facts push_code comp_def)

lemma axes_concat: "concat (map u32_to_le_bytes (axes a)) = axes_code a"
  by (cases a) (simp add: axes_def)

lemma push_kernel_code:
  "push_kernel k (out @ u32_to_le_bytes i) = out @ launch_code (i, kernel_fact k)"
  by (simp add: push_kernel_def kernel_fact_def Let_def axes_concat fold_push_facts push_bytes_def push_len_def
      str_code_def list_code_def launch_slots_def)

lemma push_launch_code:
  assumes "unat (ln_kernel l) < length (dd_kernels d)"
  shows "push_launch d l out = out @ launch_code (launch_fact d l)"
  using assms by (simp add: push_launch_def kernel_of_def launch_fact_def push_kernel_code push_code)

text \<open>The stream of a descriptor whose launches name declared kernels.\<close>

definition graph_head :: "DeviceDescriptor \<Rightarrow> u8 list" where
  "graph_head d = str_code HOST_PROGRAM_GRAPH_DOMAIN_TAG @ u32_to_le_bytes (program_lifetime_u32 (dd_lifetime d))"

definition graph_tail :: "DeviceDescriptor \<Rightarrow> u8 list" where
  "graph_tail d = list_code u32_to_le_bytes (dd_roots d) @
     list_code launch_code (map (launch_fact d) (dd_launches d)) @
     list_code edge_code (map edge_fact (dd_flow d)) @
     list_code edge_code (map result_fact (dd_results d)) @
     list_code end_of_run_code (map end_of_run_fact (dd_end_of_run d))"

lemma fold_push_launch:
  assumes "\<forall>l\<in>set ls. unat (ln_kernel l) < length (dd_kernels d)"
  shows "fold (push_launch d) ls out = out @ concat (map launch_code (map (launch_fact d) ls))"
  using assms by (induction ls arbitrary: out) (simp_all add: push_launch_code)

lemma program_graph_bytes_code:
  assumes "launches_valid d"
  shows "program_graph_bytes d =
    graph_head d @ concat (map buffer_code (map buffer_fact (graph_buffers d))) @ graph_tail d"
proof -
  have "\<forall>l\<in>set (dd_launches d). unat (ln_kernel l) < length (dd_kernels d)"
    using assms by (simp add: launches_valid_def)
  note launches = fold_push_launch [OF this]
  show ?thesis
    unfolding program_graph_bytes_def Let_def fold_push_facts launches push_len_def push_bytes_def
      graph_head_def graph_tail_def list_code_def str_code_def push_code length_map length_str_bytes
    by (simp add: fold_append_concat)
qed

section \<open>The stream determines the facts\<close>

definition graph_fits :: "DeviceDescriptor \<Rightarrow> bool" where
  "graph_fits d \<longleftrightarrow>
     length (dd_roots d) < 2 ^ 32 \<and> fits_usize (dd_launches d) \<and> fits_usize (dd_flow d) \<and>
     fits_usize (dd_results d) \<and> fits_usize (dd_end_of_run d) \<and>
     (\<forall>k\<in>set (dd_kernels d). fits_usize (kn_entry k) \<and> fits_usize (kn_buffers k))"

text \<open>The unprefixed buffer list ends itself: a semantic value is never zero, and the upper half of
  the length that follows the list is.\<close>

lemma length_high_bytes:
  assumes "n < 2 ^ 32"
  shows "drop 4 (u64_to_le_bytes (of_nat n)) = u32_to_le_bytes 0"
proof -
  have "(ucast (drop_bit (8 * i) (of_nat n :: u64)) :: u8) = 0" if "4 \<le> i" "i < 8" for i
  proof -
    have "unat (of_nat n :: u64) = n"
      using assms by (simp add: unsigned_of_nat take_bit_nat_eq_self)
    moreover have "take_bit 64 n = n"
      using assms by (simp add: take_bit_nat_eq_self)
    moreover have "n < 2 ^ (8 * i)"
      using assms that by (intro order_less_le_trans [OF assms] power_increasing) auto
    ultimately have "drop_bit (8 * i) (of_nat n :: u64) = 0"
      by (intro word_unat_eq_iff [THEN iffD2], simp only: unsigned_drop_bit_eq)
         (simp add: drop_bit_eq_div)
    then show ?thesis by simp
  qed
  from this [of 4] this [of 5] this [of 6] this [of 7] show ?thesis
    by (simp add: u64_to_le_bytes_def u32_to_le_bytes_def)
qed

lemma buffer_code_not_length:
  assumes "n < 2 ^ 32" and "buffer_code f @ r = u64_to_le_bytes (of_nat n) @ s"
  shows "fst (snd f) = 0"
proof -
  obtain i v t c l z w where f: "f = (i, v, t, c, l, z, w)" by (cases f) auto
  have "u32_to_le_bytes v = take 4 (drop 4 (buffer_code f @ r))"
    by (simp add: f)
  also have "\<dots> = take 4 (drop 4 (u64_to_le_bytes (of_nat n)) @ s)"
    by (simp add: assms(2))
  also have "\<dots> = u32_to_le_bytes 0"
    unfolding length_high_bytes [OF assms(1)] by simp
  finally show ?thesis by (simp add: f u32_to_le_bytes_eq_iff)
qed

lemma buffers_end_themselves:
  assumes "\<forall>f\<in>set xs. fst (snd f) \<noteq> 0" "\<forall>f\<in>set ys. fst (snd f) \<noteq> 0" "m < 2 ^ 32" "n < 2 ^ 32"
    and "concat (map buffer_code xs) @ u64_to_le_bytes (of_nat m) @ r =
         concat (map buffer_code ys) @ u64_to_le_bytes (of_nat n) @ s"
  shows "xs = ys \<and> u64_to_le_bytes (of_nat m) @ r = u64_to_le_bytes (of_nat n) @ s"
  using assms
proof (induction xs arbitrary: ys)
  case Nil
  then show ?case
  proof (cases ys)
    case (Cons y ys')
    with Nil.prems have "buffer_code y @ concat (map buffer_code ys') @ u64_to_le_bytes (of_nat n) @ s =
        u64_to_le_bytes (of_nat m) @ r" by simp
    from buffer_code_not_length [OF Nil.prems(3) this] Nil.prems(2) Cons show ?thesis by simp
  qed simp
next
  case (Cons x xs)
  show ?case
  proof (cases ys)
    case Nil
    with Cons.prems have "buffer_code x @ concat (map buffer_code xs) @ u64_to_le_bytes (of_nat m) @ r =
        u64_to_le_bytes (of_nat n) @ s" by simp
    from buffer_code_not_length [OF Cons.prems(4) this] Cons.prems(1) show ?thesis by simp
  next
    case (Cons y ys')
    with Cons.prems Cons.IH [of ys'] show ?thesis
      by (simp add: buffer_prefix.peel_iff del: buffer_code.simps)
  qed
qed

lemma graph_tail_eq_iff:
  assumes "launches_valid d" "launches_valid e" "graph_fits d" "graph_fits e"
  shows "graph_tail d @ r = graph_tail e @ s \<longleftrightarrow>
    r = s \<and> dd_roots d = dd_roots e \<and> map (launch_fact d) (dd_launches d) = map (launch_fact e) (dd_launches e) \<and>
    map edge_fact (dd_flow d) = map edge_fact (dd_flow e) \<and>
    map result_fact (dd_results d) = map result_fact (dd_results e) \<and>
    map end_of_run_fact (dd_end_of_run d) = map end_of_run_fact (dd_end_of_run e)"
proof -
  have "fits_usize (dd_roots d)" if "graph_fits d" for d
    using that by (simp add: graph_fits_def fits_usize_def)
  moreover have "\<forall>x\<in>set (map (launch_fact d) (dd_launches d)). launch_fits x"
    if "launches_valid d" "graph_fits d" for d
  proof -
    have "launch_fits (launch_fact d l)" if "l \<in> set (dd_launches d)" for l
    proof -
      have "unat (ln_kernel l) < length (dd_kernels d)"
        using that \<open>launches_valid d\<close> by (simp add: launches_valid_def)
      moreover from this have "dd_kernels d ! unat (ln_kernel l) \<in> set (dd_kernels d)" by simp
      ultimately show ?thesis
        using \<open>graph_fits d\<close>
        by (simp add: launch_fits_def launch_fact_def kernel_of_def kernel_fact_def graph_fits_def
            fits_usize_def launch_slots_def)
    qed
    then show ?thesis by simp
  qed
  moreover have "fits_usize (map (launch_fact d) (dd_launches d))" "fits_usize (map edge_fact (dd_flow d))"
    "fits_usize (map result_fact (dd_results d))" "fits_usize (map end_of_run_fact (dd_end_of_run d))"
    if "graph_fits d" for d
    using that by (simp_all add: graph_fits_def fits_usize_def)
  ultimately show ?thesis
    using assms unfolding graph_tail_def
    by (auto simp: roots_prefix.peel_iff launches_prefix.peel_iff edges_prefix.peel_iff end_of_runs_prefix.peel_iff
        simp del: set_map)
qed

lemma graph_buffers_subset: "set (graph_buffers d) \<subseteq> set (all_slots d)"
  using dedup_by_key_subset [of slot_key "sort_key slot_key (all_slots d)"] by (simp add: graph_buffers_def)

lemma buffers_semantic:
  assumes "valid_descriptor d"
  shows "\<forall>f\<in>set (map buffer_fact (graph_buffers d)). fst (snd f) \<noteq> 0"
  using assms graph_buffers_subset [of d]
  by (auto simp: valid_descriptor_def slot_valid_def buffer_fact_def)

lemma graph_bytes_facts:
  assumes "valid_descriptor d" "valid_descriptor e" "graph_fits d" "graph_fits e"
  shows "program_graph_bytes d @ r = program_graph_bytes e @ s \<longleftrightarrow>
    dd_lifetime d = dd_lifetime e \<and>
    map buffer_fact (graph_buffers d) = map buffer_fact (graph_buffers e) \<and>
    graph_tail d @ r = graph_tail e @ s" (is "?bytes \<longleftrightarrow> ?facts")
proof
  have v: "launches_valid d" "launches_valid e"
    using assms by (simp_all add: valid_descriptor_def)
  have tag: "fits_usize HOST_PROGRAM_GRAPH_DOMAIN_TAG"
    by (simp add: HOST_PROGRAM_GRAPH_DOMAIN_TAG_def fits_usize_def)
  {
    assume ?bytes
    then have life: "dd_lifetime d = dd_lifetime e"
      and rest: "concat (map buffer_code (map buffer_fact (graph_buffers d))) @ graph_tail d @ r =
        concat (map buffer_code (map buffer_fact (graph_buffers e))) @ graph_tail e @ s"
      unfolding program_graph_bytes_code [OF v(1)] program_graph_bytes_code [OF v(2)] graph_head_def append.assoc
        str_prefix.peel_iff [OF tag tag] u32_code.peel_iff [OF TrueI TrueI] by (simp_all add: u32_injects)
    have roots: "length (dd_roots d) < 2 ^ 32" "length (dd_roots e) < 2 ^ 32"
      using assms by (simp_all add: graph_fits_def)
    from buffers_end_themselves [OF buffers_semantic [OF assms(1)] buffers_semantic [OF assms(2)] roots
        rest [unfolded graph_tail_def list_code_def append.assoc]] life
    show ?facts by (simp add: graph_tail_def list_code_def)
  }
  show ?bytes if ?facts
    unfolding program_graph_bytes_code [OF v(1)] program_graph_bytes_code [OF v(2)] graph_head_def
    using that by simp
qed

section \<open>The facts do not depend on the order of declarations\<close>

definition fact_key where
  "fact_key f = (case f of (i :: u32, s :: u32, v :: u32, r :: DeviceDataType \<times> u64 \<times> DeviceBufferLifetime \<times>
     DeviceBufferInitialization) \<Rightarrow> (i, v))"

lemma fact_key_buffer [simp]: "fact_key (buffer_fact b) = slot_key b"
  by (simp add: fact_key_def buffer_fact_def)

lemma key_determines_fact:
  assumes "valid_descriptor d" "a \<in> set (all_slots d)" "b \<in> set (all_slots d)" "slot_key a = slot_key b"
  shows "buffer_fact a = buffer_fact b"
proof -
  have "identities_valid (all_slots d)" "versions_valid d" "\<forall>b\<in>set (all_slots d). slot_valid d b"
    using assms(1) by (simp_all add: valid_descriptor_def)
  then have id: "same_identity a b" and slots: "slot_valid d a" "slot_valid d b"
    and dist: "distinct (map version_key (dd_versions d))"
    using assms(2,3) by (simp_all add: identities_valid_def versions_valid_def)
  have version: "\<exists>v\<in>set (dd_versions d). version_key v = slot_key b \<and> bv_ty v = bf_ty b \<and> bv_count v = bf_count b"
    if "slot_valid d b" for b
    using that unfolding slot_valid_def by blast
  from version [OF slots(1)] obtain v where
    v: "v \<in> set (dd_versions d)" "version_key v = slot_key a" "bv_ty v = bf_ty a" "bv_count v = bf_count a"
    by blast
  from version [OF slots(2)] obtain w where
    w: "w \<in> set (dd_versions d)" "version_key w = slot_key b" "bv_ty w = bf_ty b" "bv_count w = bf_count b"
    by blast
  have same: "version_key v = version_key w"
    by (simp only: v(2) w(2) assms(4))
  have "inj_on version_key (set (dd_versions d))"
    using dist by (simp add: distinct_map)
  then have "v = w"
    by (rule inj_onD [OF _ same v(1) w(1)])
  then have "bf_ty a = bf_ty b" "bf_count a = bf_count b"
    by (simp_all only: v(3) [symmetric] v(4) [symmetric] w(3,4))
  moreover have "bf_id a = bf_id b" "bf_version a = bf_version b"
    using assms(4) by simp_all
  moreover from id this(1) have "bf_semantic a = bf_semantic b" "bf_lifetime a = bf_lifetime b" "bf_init a = bf_init b"
    unfolding same_identity_def by blast+
  ultimately show ?thesis by (simp only: buffer_fact_def)
qed

lemma graph_buffers_canonical:
  assumes "valid_descriptor d"
  shows "sorted_wrt (<) (map fact_key (map buffer_fact (graph_buffers d)))"
    and "set (map buffer_fact (graph_buffers d)) = buffer_fact ` set (all_slots d)"
proof -
  have strict: "sorted_wrt (<) (map slot_key (graph_buffers d))"
    and keys: "slot_key ` set (graph_buffers d) = slot_key ` set (all_slots d)"
    using dedup_by_key_strict [of slot_key "sort_key slot_key (all_slots d)"] by (simp_all add: graph_buffers_def)
  from strict show "sorted_wrt (<) (map fact_key (map buffer_fact (graph_buffers d)))"
    by (simp add: comp_def)
  have "buffer_fact b \<in> buffer_fact ` set (graph_buffers d)" if b: "b \<in> set (all_slots d)" for b
  proof -
    from b keys obtain c where c: "c \<in> set (graph_buffers d)" "slot_key c = slot_key b"
      by (metis (no_types, lifting) image_iff)
    with graph_buffers_subset [of d] b have "buffer_fact c = buffer_fact b"
      by (intro key_determines_fact [OF assms]) auto
    with c(1) show ?thesis by (metis image_eqI)
  qed
  with graph_buffers_subset [of d]
  show "set (map buffer_fact (graph_buffers d)) = buffer_fact ` set (all_slots d)" by auto
qed

lemma graph_buffers_eq_iff:
  assumes "valid_descriptor d" "valid_descriptor e"
  shows "map buffer_fact (graph_buffers d) = map buffer_fact (graph_buffers e) \<longleftrightarrow>
    buffer_fact ` set (all_slots d) = buffer_fact ` set (all_slots e)"
  using graph_buffers_canonical [OF assms(1)] graph_buffers_canonical [OF assms(2)]
    sorted_key_unique [of fact_key "map buffer_fact (graph_buffers d)" "map buffer_fact (graph_buffers e)"]
  by metis

definition slot_fact_key where
  "slot_fact_key f = (case f of (i :: u32, v :: u32, b :: u32, r :: u32 \<times> DeviceBufferRole \<times> DeviceBufferLifetime \<times>
     DeviceBufferInitialization \<times> DeviceDataType \<times> u64) \<Rightarrow> (i, v, b))"

lemma launch_slots_canonical:
  assumes "kernel_valid k"
  shows "sorted_wrt (<) (map slot_fact_key (map slot_fact (launch_slots k)))"
    and "set (map slot_fact (launch_slots k)) = slot_fact ` set (kn_buffers k)"
proof -
  let ?key = "\<lambda>b. (bf_id b, bf_version b, bf_binding b)"
  have "distinct (map bf_binding (kn_buffers k))"
    using assms by (simp add: kernel_valid_def)
  then have "distinct (map ?key (kn_buffers k))"
    by (auto simp: distinct_map inj_on_def)
  then have "distinct (map ?key (launch_slots k))"
    by (simp add: launch_slots_def distinct_map)
  moreover have "sorted (map ?key (launch_slots k))"
    by (simp add: launch_slots_def)
  ultimately have "sorted_wrt (<) (map ?key (launch_slots k))"
    by (simp add: strict_sorted_iff)
  moreover have "map slot_fact_key (map slot_fact (launch_slots k)) = map ?key (launch_slots k)"
    by (simp add: slot_fact_key_def slot_fact_def)
  ultimately show "sorted_wrt (<) (map slot_fact_key (map slot_fact (launch_slots k)))" by (simp only:)
  show "set (map slot_fact (launch_slots k)) = slot_fact ` set (kn_buffers k)"
    by (simp add: launch_slots_def)
qed

text \<open>Two kernels with one entry, one geometry and one set of slots.\<close>

definition same_kernel :: "DescriptorKernel \<Rightarrow> DescriptorKernel \<Rightarrow> bool" where
  "same_kernel k m \<longleftrightarrow>
     kn_entry k = kn_entry m \<and> kn_grid k = kn_grid m \<and> kn_block k = kn_block m \<and>
     slot_fact ` set (kn_buffers k) = slot_fact ` set (kn_buffers m)"

lemma kernel_fact_eq_iff:
  assumes "kernel_valid k" "kernel_valid m"
  shows "kernel_fact k = kernel_fact m \<longleftrightarrow> same_kernel k m"
proof -
  have "map slot_fact (launch_slots k) = map slot_fact (launch_slots m) \<longleftrightarrow>
      slot_fact ` set (kn_buffers k) = slot_fact ` set (kn_buffers m)"
    using launch_slots_canonical [OF assms(1)] launch_slots_canonical [OF assms(2)]
      sorted_key_unique [of slot_fact_key "map slot_fact (launch_slots k)" "map slot_fact (launch_slots m)"]
    by metis
  then show ?thesis by (auto simp: kernel_fact_def same_kernel_def)
qed

text \<open>What two descriptors must share to be one program.\<close>

definition same_program :: "DeviceDescriptor \<Rightarrow> DeviceDescriptor \<Rightarrow> bool" where
  "same_program d e \<longleftrightarrow>
     dd_lifetime d = dd_lifetime e \<and>
     buffer_fact ` set (all_slots d) = buffer_fact ` set (all_slots e) \<and>
     dd_roots d = dd_roots e \<and>
     list_all2 (\<lambda>l m. ln_id l = ln_id m \<and>
         same_kernel (dd_kernels d ! unat (ln_kernel l)) (dd_kernels e ! unat (ln_kernel m)))
       (dd_launches d) (dd_launches e) \<and>
     dd_flow d = dd_flow e \<and> dd_results d = dd_results e \<and> dd_end_of_run d = dd_end_of_run e"

lemma launch_facts_eq_iff:
  assumes "valid_descriptor d" "valid_descriptor e"
  shows "map (launch_fact d) (dd_launches d) = map (launch_fact e) (dd_launches e) \<longleftrightarrow>
    list_all2 (\<lambda>l m. ln_id l = ln_id m \<and>
        same_kernel (dd_kernels d ! unat (ln_kernel l)) (dd_kernels e ! unat (ln_kernel m)))
      (dd_launches d) (dd_launches e)"
proof -
  have k: "unat (ln_kernel l) < length (dd_kernels d)" "kernel_valid (dd_kernels d ! unat (ln_kernel l))"
    if "valid_descriptor d" "l \<in> set (dd_launches d)" for d l
    using that by (simp_all add: valid_descriptor_def launches_valid_def)
  have "launch_fact d l = launch_fact e m \<longleftrightarrow> ln_id l = ln_id m \<and>
      same_kernel (dd_kernels d ! unat (ln_kernel l)) (dd_kernels e ! unat (ln_kernel m))"
    if "l \<in> set (dd_launches d)" "m \<in> set (dd_launches e)" for l m
    using k [OF assms(1) that(1)] k [OF assms(2) that(2)]
    by (simp add: launch_fact_def kernel_of_def kernel_fact_eq_iff)
  then have "list_all2 (\<lambda>l m. launch_fact d l = launch_fact e m) (dd_launches d) (dd_launches e) \<longleftrightarrow>
      list_all2 (\<lambda>l m. ln_id l = ln_id m \<and>
        same_kernel (dd_kernels d ! unat (ln_kernel l)) (dd_kernels e ! unat (ln_kernel m)))
        (dd_launches d) (dd_launches e)"
    by (intro list.rel_cong) (simp_all add: list.in_rel)
  then show ?thesis
    by (simp add: list_all2_eq list_all2_map1 list_all2_map2)
qed

lemma fact_lists_eq_iff:
  "map edge_fact es = map edge_fact fs \<longleftrightarrow> es = fs"
  "map result_fact rs = map result_fact ss \<longleftrightarrow> rs = ss"
  "map end_of_run_fact us = map end_of_run_fact vs \<longleftrightarrow> us = vs"
proof -
  have "inj edge_fact"
    by (intro injI DescriptorDataFlow.equality) (simp_all add: edge_fact_def)
  moreover have "inj result_fact"
    by (intro injI DescriptorResult.equality) (simp_all add: result_fact_def)
  moreover have "inj end_of_run_fact"
    by (intro injI DescriptorEndOfRunResult.equality) (simp_all add: end_of_run_fact_def)
  ultimately show "map edge_fact es = map edge_fact fs \<longleftrightarrow> es = fs" "map result_fact rs = map result_fact ss \<longleftrightarrow> rs = ss"
    "map end_of_run_fact us = map end_of_run_fact vs \<longleftrightarrow> us = vs"
    by simp_all
qed

lemma graph_bytes_peel_iff:
  assumes "valid_descriptor d" "valid_descriptor e" "graph_fits d" "graph_fits e"
  shows "program_graph_bytes d @ r = program_graph_bytes e @ s \<longleftrightarrow> same_program d e \<and> r = s"
proof -
  have "launches_valid d" "launches_valid e"
    using assms by (simp_all add: valid_descriptor_def)
  then show ?thesis
    unfolding graph_bytes_facts [OF assms] graph_tail_eq_iff [OF \<open>launches_valid d\<close> \<open>launches_valid e\<close> assms(3,4)]
      graph_buffers_eq_iff [OF assms(1,2)] launch_facts_eq_iff [OF assms(1,2)] fact_lists_eq_iff same_program_def
    by blast
qed

lemma program_graph_hash_digest:
  "program_graph_hash d = ''sha256:'' @ concat (map hex_byte (Sha256_digest (program_graph_bytes d)))"
  by (simp add: program_graph_hash_def sha256_hex_def hex_encode_eq graph_sha256_digest)

end
