(* ===== verification/Kv_Cache.thy ===== *)
theory Kv_Cache
  imports Descriptor_Graph
begin

text \<open>
  The KV storage and binding plan of \<open>crates/host-device-core/src/device_descriptor.rs\<close>
  (\<open>KvCacheDescriptor\<close>): persistent allocations, bounded views over them and launch bindings, their
  validation and the bytes of their identity. The lemmas say exactly which plans validate and
  which plans share an identity; the runtime cursor is no part of it.
\<close>

section \<open>Structures\<close>

record DescriptorAllocation =
  al_id :: u32
  al_dtype :: DeviceDataType
  al_capacity :: u64
  al_lifetime :: DeviceBufferLifetime
  al_init :: DeviceBufferInitialization

record DescriptorView =
  vw_allocation :: u32
  vw_dims :: "u64 list"
  vw_strides :: "u64 list"
  vw_base :: u64
  vw_span :: u64

record DescriptorInvocationState =
  iv_position :: u32
  iv_valid_len_after :: u32
  iv_query_rows :: u32
  iv_sequence_epoch :: u32

datatype DescriptorRuntimeSource =
    SourceConstant
  | SourcePosition
  | SourceValidLenAfter
  | SourceQueryRows
  | SourceSequenceEpoch

fun source_u32 :: "DescriptorRuntimeSource \<Rightarrow> u32" where
  "source_u32 SourceConstant = 0"
| "source_u32 SourcePosition = 1"
| "source_u32 SourceValidLenAfter = 2"
| "source_u32 SourceQueryRows = 3"
| "source_u32 SourceSequenceEpoch = 4"

record DescriptorLaunchBinding =
  lb_handle :: u32
  lb_index :: u32
  lb_offset :: u64
  lb_span :: u64
  lb_source :: DescriptorRuntimeSource

record KvCacheDescriptor =
  kv_allocations :: "DescriptorAllocation list"
  kv_views :: "DescriptorView list"
  kv_state :: DescriptorInvocationState
  kv_bindings :: "DescriptorLaunchBinding list"

section \<open>Validation\<close>

definition check_allocation ::
    "DescriptorAllocation \<Rightarrow> DescriptorAllocation list \<Rightarrow> (DescriptorAllocation list, HostError) result" where
  "check_allocation a seen =
     (if al_id a = 0 then
        Err (err_descriptor ''device descriptor allocation uses the reserved zero buffer identity'')
      else if al_capacity a = 0 then
        Err (err_descriptor (''device descriptor allocation '' @ display_u32 (al_id a) @
          '' has a zero byte capacity''))
      else if list_ex (\<lambda>first. al_id first = al_id a) seen then
        Err (err_descriptor (''device descriptor repeats allocation identity '' @ display_u32 (al_id a)))
      else Ok (seen @ [a]))"

definition validated_allocations :: "KvCacheDescriptor \<Rightarrow> (DescriptorAllocation list, HostError) result" where
  "validated_allocations kv =
     and_then (try_fold check_allocation (kv_allocations kv) []) (\<lambda>allocations.
       if allocations = [] then Err (err_descriptor ''device descriptor declares no allocations'')
       else Ok allocations)"

definition check_view :: "DescriptorAllocation list \<Rightarrow> DescriptorView \<Rightarrow> (unit, HostError) result" where
  "check_view allocations v =
     (let name = ''device descriptor view on allocation '' @ display_u32 (vw_allocation v) in
      if vw_dims v = [] \<or> length (vw_dims v) \<noteq> length (vw_strides v) then
        Err (err_descriptor (name @ '' has rank-mismatched dims and strides''))
      else if List.member (vw_dims v) 0 \<or> List.member (vw_strides v) 0 then
        Err (err_descriptor (name @ '' has a zero dim or stride''))
      else if vw_span v = 0 then Err (err_descriptor (name @ '' has a zero maximum span''))
      else case List.find (\<lambda>a. al_id a = vw_allocation v) allocations of
        None \<Rightarrow> Err (err_descriptor (''device descriptor view names unknown allocation '' @
          display_u32 (vw_allocation v)))
      | Some a \<Rightarrow>
          (case checked_add (vw_base v) (vw_span v) of
             None \<Rightarrow> Err (err_shape_mismatch (name @ '' overflows its static envelope''))
           | Some end_at \<Rightarrow>
               if al_capacity a < end_at then
                 Err (err_shape_mismatch (name @ '' spans '' @ display_u64 (vw_span v) @
                   '' bytes from base '' @ display_u64 (vw_base v) @ '' but allocation capacity is '' @
                   display_u64 (al_capacity a) @ '' bytes''))
               else Ok ()))"

definition check_binding :: "DescriptorAllocation list \<Rightarrow> DescriptorLaunchBinding \<Rightarrow> (unit, HostError) result" where
  "check_binding allocations b =
     (let name = ''device descriptor launch binding index '' @ display_u32 (lb_index b) in
      if lb_span b = 0 then Err (err_descriptor (name @ '' has a zero view span''))
      else case List.find (\<lambda>a. al_id a = lb_handle b) allocations of
        None \<Rightarrow> Err (err_descriptor (name @ '' names unknown allocation handle '' @ display_u32 (lb_handle b)))
      | Some a \<Rightarrow>
          (case checked_add (lb_offset b) (lb_span b) of
             None \<Rightarrow> Err (err_shape_mismatch (name @ '' overflows its static envelope''))
           | Some end_at \<Rightarrow>
               if al_capacity a < end_at then
                 Err (err_shape_mismatch (name @ '' spans '' @ display_u64 (lb_span b) @
                   '' bytes from offset '' @ display_u64 (lb_offset b) @ '' but allocation '' @
                   display_u32 (lb_handle b) @ '' capacity is '' @ display_u64 (al_capacity a) @ '' bytes''))
               else Ok ()))"

definition kv_validate :: "KvCacheDescriptor \<Rightarrow> (unit, HostError) result" where
  "kv_validate kv =
     and_then (validated_allocations kv) (\<lambda>allocations.
     and_then (try_each (check_view allocations) (kv_views kv)) (\<lambda>_.
     try_each (check_binding allocations) (kv_bindings kv)))"

definition launch_records :: "KvCacheDescriptor \<Rightarrow> DescriptorLaunchBinding list" where
  "launch_records kv = kv_bindings kv"

section \<open>Identity\<close>

definition HOST_KV_STORAGE_DOMAIN_TAG :: string where
  "HOST_KV_STORAGE_DOMAIN_TAG = ''faber.host-kv-storage.v2''"

definition push_allocation :: "DescriptorAllocation \<Rightarrow> u8 list \<Rightarrow> u8 list" where
  "push_allocation a bytes =
     (let bytes = push_u32 bytes (al_id a);
          bytes = push_u32 bytes (dtype_u32 (al_dtype a));
          bytes = push_u64 bytes (al_capacity a);
          bytes = push_u32 bytes (lifetime_u32 (al_lifetime a))
      in push_u32 bytes (init_u32 (al_init a)))"

definition push_view :: "DescriptorView \<Rightarrow> u8 list \<Rightarrow> u8 list" where
  "push_view v bytes =
     (let bytes = push_u32 bytes (vw_allocation v);
          bytes = push_len bytes (length (vw_dims v));
          bytes = fold (\<lambda>dim bytes. push_u64 bytes dim) (vw_dims v) bytes;
          bytes = push_len bytes (length (vw_strides v));
          bytes = fold (\<lambda>stride bytes. push_u64 bytes stride) (vw_strides v) bytes;
          bytes = push_u64 bytes (vw_base v)
      in push_u64 bytes (vw_span v))"

definition push_binding :: "DescriptorLaunchBinding \<Rightarrow> u8 list \<Rightarrow> u8 list" where
  "push_binding b bytes =
     (let bytes = push_u32 bytes (lb_handle b);
          bytes = push_u32 bytes (lb_index b);
          bytes = push_u64 bytes (lb_offset b);
          bytes = push_u64 bytes (lb_span b)
      in push_u32 bytes (source_u32 (lb_source b)))"

abbreviation view_key :: "DescriptorView \<Rightarrow> u32 \<times> u64 \<times> u64 \<times> u64 list" where
  "view_key v \<equiv> (vw_allocation v, vw_base v, vw_span v, vw_dims v)"

definition static_graph_bytes :: "KvCacheDescriptor \<Rightarrow> u8 list" where
  "static_graph_bytes kv =
     (let bytes = push_bytes [] (str_bytes HOST_KV_STORAGE_DOMAIN_TAG);
          allocations = sort_key al_id (kv_allocations kv);
          bytes = push_len bytes (length allocations);
          bytes = fold push_allocation allocations bytes;
          views = sort_key view_key (kv_views kv);
          bytes = push_len bytes (length views);
          bytes = fold push_view views bytes;
          bytes = push_len bytes (length (kv_bindings kv))
      in fold push_binding (kv_bindings kv) bytes)"

definition kv_program_graph_hash :: "KvCacheDescriptor \<Rightarrow> string" where
  "kv_program_graph_hash kv = ''sha256:'' @ sha256_hex (static_graph_bytes kv)"

definition program_graph_hash_with_kv :: "DeviceDescriptor \<Rightarrow> KvCacheDescriptor \<Rightarrow> string" where
  "program_graph_hash_with_kv d kv =
     (let bytes = program_graph_bytes d; bytes = bytes @ static_graph_bytes kv
      in ''sha256:'' @ sha256_hex bytes)"

section \<open>Which plans validate\<close>

definition fits_in :: "DescriptorAllocation list \<Rightarrow> u32 \<Rightarrow> u64 \<Rightarrow> u64 \<Rightarrow> bool" where
  "fits_in allocations i base n \<longleftrightarrow>
     n \<noteq> 0 \<and> (\<exists>a\<in>set allocations. al_id a = i \<and> unat base + unat n \<le> unat (al_capacity a))"

definition allocations_valid :: "DescriptorAllocation list \<Rightarrow> bool" where
  "allocations_valid allocations \<longleftrightarrow>
     allocations \<noteq> [] \<and> distinct (map al_id allocations) \<and>
     (\<forall>a\<in>set allocations. al_id a \<noteq> 0 \<and> al_capacity a \<noteq> 0)"

definition view_valid :: "DescriptorAllocation list \<Rightarrow> DescriptorView \<Rightarrow> bool" where
  "view_valid allocations v \<longleftrightarrow>
     vw_dims v \<noteq> [] \<and> length (vw_dims v) = length (vw_strides v) \<and>
     0 \<notin> set (vw_dims v) \<union> set (vw_strides v) \<and>
     fits_in allocations (vw_allocation v) (vw_base v) (vw_span v)"

definition kv_valid :: "KvCacheDescriptor \<Rightarrow> bool" where
  "kv_valid kv \<longleftrightarrow>
     allocations_valid (kv_allocations kv) \<and>
     (\<forall>v\<in>set (kv_views kv). view_valid (kv_allocations kv) v) \<and>
     (\<forall>b\<in>set (kv_bindings kv). fits_in (kv_allocations kv) (lb_handle b) (lb_offset b) (lb_span b))"

lemma seen_allocation: "list_ex (\<lambda>first. al_id first = al_id a) seen \<longleftrightarrow> al_id a \<in> al_id ` set seen"
  by (force simp: list_ex_iff)

lemma check_allocation_Ok_iff:
  "check_allocation a seen = Ok t \<longleftrightarrow>
     (al_id a \<noteq> 0 \<and> al_capacity a \<noteq> 0) \<and> al_id a \<notin> al_id ` set seen \<and> t = seen @ [a]"
  unfolding check_allocation_def seen_allocation by (simp add: eq_commute [of t])

lemma allocations_Ok_iff:
  "validated_allocations kv = Ok as \<longleftrightarrow> as = kv_allocations kv \<and> allocations_valid (kv_allocations kv)"
proof -
  have "try_fold check_allocation (kv_allocations kv) [] = Ok as \<longleftrightarrow>
      as = kv_allocations kv \<and> distinct (map al_id (kv_allocations kv)) \<and>
      (\<forall>a\<in>set (kv_allocations kv). al_id a \<noteq> 0 \<and> al_capacity a \<noteq> 0)" for as
    using try_fold_unique [where f = check_allocation and g = "\<lambda>x. x" and key = al_id and xs = "kv_allocations kv"
        and s = "[]" and t = as, OF check_allocation_Ok_iff] by (simp add: comp_def)
  then show ?thesis
    by (auto simp: validated_allocations_def and_then_Ok_iff allocations_valid_def)
qed

lemma envelope_iff:
  assumes "distinct (map al_id as)"
  shows "(\<exists>a. List.find (\<lambda>a. al_id a = i) as = Some a \<and>
      (\<exists>e. checked_add base n = Some e \<and> \<not> al_capacity a < e)) \<longleftrightarrow>
    (\<exists>a\<in>set as. al_id a = i \<and> unat base + unat n \<le> unat (al_capacity a))"
proof -
  have room: "(\<exists>e. checked_add base n = Some e \<and> \<not> c < e) \<longleftrightarrow> unat base + unat n \<le> unat c" for c
  proof (cases "checked_add base n")
    case None
    from this [unfolded checked_add_None_iff] have "\<not> unat base + unat n \<le> unat c"
      using unat_u64_lt [of c] by simp
    with None show ?thesis by simp
  next
    case (Some e)
    then show ?thesis using checked_add_unat [OF Some] by (simp add: not_less word_le_nat_alt)
  qed
  have "List.find (\<lambda>a. al_id a = i) as = Some a \<longleftrightarrow> a \<in> set as \<and> al_id a = i" for a
  proof
    assume "a \<in> set as \<and> al_id a = i"
    then have "List.find (\<lambda>a. al_id a = i) as \<noteq> None"
      by (auto simp: find_None_iff)
    then obtain b where b: "List.find (\<lambda>a. al_id a = i) as = Some b" by blast
    then have "b \<in> set as" "al_id b = i"
      using find_Some_mem [OF b] by simp_all
    with \<open>a \<in> set as \<and> al_id a = i\<close> assms have "a = b"
      by (auto simp: distinct_map inj_on_def)
    with b show "List.find (\<lambda>a. al_id a = i) as = Some a" by simp
  qed (auto dest: find_Some_mem)
  then show ?thesis unfolding room by blast
qed

lemma check_view_Ok_iff:
  assumes "distinct (map al_id as)"
  shows "check_view as v = Ok () \<longleftrightarrow> view_valid as v"
proof -
  have "check_view as v = Ok () \<longleftrightarrow>
      vw_dims v \<noteq> [] \<and> length (vw_dims v) = length (vw_strides v) \<and>
      0 \<notin> set (vw_dims v) \<union> set (vw_strides v) \<and> vw_span v \<noteq> 0 \<and>
      (\<exists>a. List.find (\<lambda>a. al_id a = vw_allocation v) as = Some a \<and>
        (\<exists>e. checked_add (vw_base v) (vw_span v) = Some e \<and> \<not> al_capacity a < e))"
    unfolding check_view_def Let_def by (simp split: option.split)
  then show ?thesis
    unfolding envelope_iff [OF assms] view_valid_def fits_in_def by blast
qed

lemma check_binding_Ok_iff:
  assumes "distinct (map al_id as)"
  shows "check_binding as b = Ok () \<longleftrightarrow> fits_in as (lb_handle b) (lb_offset b) (lb_span b)"
proof -
  have "check_binding as b = Ok () \<longleftrightarrow> lb_span b \<noteq> 0 \<and>
      (\<exists>a. List.find (\<lambda>a. al_id a = lb_handle b) as = Some a \<and>
        (\<exists>e. checked_add (lb_offset b) (lb_span b) = Some e \<and> \<not> al_capacity a < e))"
    unfolding check_binding_def Let_def by (simp split: option.split)
  then show ?thesis
    unfolding envelope_iff [OF assms] fits_in_def by blast
qed

lemma kv_validate_Ok_iff: "kv_validate kv = Ok () \<longleftrightarrow> kv_valid kv"
proof (cases "allocations_valid (kv_allocations kv)")
  case True
  then have "distinct (map al_id (kv_allocations kv))"
    by (simp add: allocations_valid_def)
  from check_view_Ok_iff [OF this] check_binding_Ok_iff [OF this] True show ?thesis
    by (simp add: kv_validate_def and_then_Ok_iff allocations_Ok_iff try_each_Ok_iff kv_valid_def)
next
  case False
  then show ?thesis
    by (simp add: kv_validate_def and_then_Ok_iff allocations_Ok_iff kv_valid_def)
qed

section \<open>Which plans share an identity\<close>

fun allocation_code where
  "allocation_code (i, t, c, l, z) =
     u32_to_le_bytes i @ u32_to_le_bytes (dtype_u32 t) @ u64_to_le_bytes c @
     u32_to_le_bytes (lifetime_u32 l) @ u32_to_le_bytes (init_u32 z)"

fun view_code where
  "view_code (i, ds, ss, b, n) =
     u32_to_le_bytes i @ list_code u64_to_le_bytes ds @ list_code u64_to_le_bytes ss @
     u64_to_le_bytes b @ u64_to_le_bytes n"

fun binding_code where
  "binding_code (h, i, b, n, r) =
     u32_to_le_bytes h @ u32_to_le_bytes i @ u64_to_le_bytes b @ u64_to_le_bytes n @
     u32_to_le_bytes (source_u32 r)"

definition allocation_fact :: "DescriptorAllocation \<Rightarrow> _" where
  "allocation_fact a = (al_id a, al_dtype a, al_capacity a, al_lifetime a, al_init a)"

definition view_fact :: "DescriptorView \<Rightarrow> _" where
  "view_fact v = (vw_allocation v, vw_dims v, vw_strides v, vw_base v, vw_span v)"

definition binding_fact :: "DescriptorLaunchBinding \<Rightarrow> _" where
  "binding_fact b = (lb_handle b, lb_index b, lb_offset b, lb_span b, lb_source b)"

definition view_fits :: "u32 \<times> u64 list \<times> u64 list \<times> u64 \<times> u64 \<Rightarrow> bool" where
  "view_fits f = (case f of (_, ds, ss, _) \<Rightarrow> fits_usize ds \<and> fits_usize ss)"

lemma source_u32_inject: "source_u32 r = source_u32 s \<longleftrightarrow> r = s"
  by (cases r; cases s) simp_all

interpretation allocation_prefix: prefix_code allocation_code "\<lambda>_. True"
  by unfold_locales (auto simp: peel_simps u32_injects)

interpretation dims_prefix: prefix_code "list_code u64_to_le_bytes" "\<lambda>xs. fits_usize xs \<and> (\<forall>x\<in>set xs. True)"
  by (rule list_code_prefix [OF u64_code.prefix_code_axioms])

interpretation view_prefix: prefix_code view_code view_fits
  by unfold_locales (auto simp: view_fits_def peel_simps dims_prefix.peel_iff)

interpretation binding_prefix: prefix_code binding_code "\<lambda>_. True"
  by unfold_locales (auto simp: peel_simps source_u32_inject)

interpretation allocations_prefix: prefix_code "list_code allocation_code" "\<lambda>xs. fits_usize xs \<and> (\<forall>x\<in>set xs. True)"
  by (rule list_code_prefix [OF allocation_prefix.prefix_code_axioms])

interpretation views_prefix: prefix_code "list_code view_code" "\<lambda>xs. fits_usize xs \<and> (\<forall>x\<in>set xs. view_fits x)"
  by (rule list_code_prefix [OF view_prefix.prefix_code_axioms])

interpretation bindings_prefix: prefix_code "list_code binding_code" "\<lambda>xs. fits_usize xs \<and> (\<forall>x\<in>set xs. True)"
  by (rule list_code_prefix [OF binding_prefix.prefix_code_axioms])

lemma push_kv_facts:
  "push_allocation a out = out @ allocation_code (allocation_fact a)"
  "push_view v out = out @ view_code (view_fact v)"
  "push_binding b out = out @ binding_code (binding_fact b)"
  by (simp_all add: push_allocation_def allocation_fact_def push_view_def view_fact_def push_binding_def
      binding_fact_def push_code push_len_def list_code_def fold_append_concat Let_def)

lemma static_graph_bytes_code:
  "static_graph_bytes kv = str_code HOST_KV_STORAGE_DOMAIN_TAG @
     list_code allocation_code (map allocation_fact (sort_key al_id (kv_allocations kv))) @
     list_code view_code (map view_fact (sort_key view_key (kv_views kv))) @
     list_code binding_code (map binding_fact (kv_bindings kv))"
  by (simp add: static_graph_bytes_def Let_def push_bytes_def push_len_def str_code_def list_code_def
      fold_push_concat push_kv_facts comp_def)

lemma kv_facts_inj: "inj allocation_fact" "inj view_fact" "inj binding_fact"
proof -
  show "inj allocation_fact"
    by (intro injI DescriptorAllocation.equality) (simp_all add: allocation_fact_def)
  show "inj view_fact"
    by (intro injI DescriptorView.equality) (simp_all add: view_fact_def)
  show "inj binding_fact"
    by (intro injI DescriptorLaunchBinding.equality) (simp_all add: binding_fact_def)
qed

definition kv_fits :: "KvCacheDescriptor \<Rightarrow> bool" where
  "kv_fits kv \<longleftrightarrow> fits_usize (kv_allocations kv) \<and> fits_usize (kv_views kv) \<and> fits_usize (kv_bindings kv) \<and>
     (\<forall>v\<in>set (kv_views kv). fits_usize (vw_dims v) \<and> fits_usize (vw_strides v))"

lemma static_bytes_peel_iff:
  assumes "kv_fits kv" "kv_fits kw"
  shows "static_graph_bytes kv = static_graph_bytes kw \<longleftrightarrow>
    sort_key al_id (kv_allocations kv) = sort_key al_id (kv_allocations kw) \<and>
    sort_key view_key (kv_views kv) = sort_key view_key (kv_views kw) \<and>
    kv_bindings kv = kv_bindings kw"
proof -
  have tag: "fits_usize HOST_KV_STORAGE_DOMAIN_TAG"
    by (simp add: HOST_KV_STORAGE_DOMAIN_TAG_def fits_usize_def)
  have fits: "fits_usize (map allocation_fact (sort_key al_id (kv_allocations kv)))"
    "fits_usize (map view_fact (sort_key view_key (kv_views kv)))" "fits_usize (map binding_fact (kv_bindings kv))"
    "\<forall>x\<in>set (map view_fact (sort_key view_key (kv_views kv))). view_fits x" if "kv_fits kv" for kv
    using that by (simp_all add: kv_fits_def fits_usize_def view_fits_def view_fact_def)
  note f = fits [OF assms(1)] fits [OF assms(2)]
  show ?thesis
    unfolding static_graph_bytes_code append.assoc str_prefix.peel_iff [OF tag tag]
    using f
    by (simp only: allocations_prefix.peel_iff views_prefix.peel_iff bindings_prefix.inj simp_thms ball_triv
        inj_map_eq_map [OF kv_facts_inj(1)] inj_map_eq_map [OF kv_facts_inj(2)] inj_map_eq_map [OF kv_facts_inj(3)])
qed

text \<open>Views that agree on the sort key agree on their strides.\<close>

definition views_keyed :: "KvCacheDescriptor \<Rightarrow> bool" where
  "views_keyed kv \<longleftrightarrow> inj_on view_key (set (kv_views kv))"

definition same_storage :: "KvCacheDescriptor \<Rightarrow> KvCacheDescriptor \<Rightarrow> bool" where
  "same_storage kv kw \<longleftrightarrow>
     set (kv_allocations kv) = set (kv_allocations kw) \<and> mset (kv_views kv) = mset (kv_views kw) \<and>
     kv_bindings kv = kv_bindings kw"

lemma sort_key_mset_iff:
  assumes "inj_on f (set xs)"
  shows "sort_key f xs = sort_key f ys \<longleftrightarrow> mset xs = mset ys"
proof
  assume "sort_key f xs = sort_key f ys"
  then show "mset xs = mset ys" by (metis mset_sort)
next
  assume "mset xs = mset ys"
  then have "mset xs = mset (sort_key f ys)" by simp
  from sort_key_inj_key_eq [OF this assms sorted_sort_key]
  show "sort_key f xs = sort_key f ys" .
qed

lemma static_bytes_eq_iff:
  assumes "kv_valid kv" "kv_valid kw" "kv_fits kv" "kv_fits kw" "views_keyed kv"
  shows "static_graph_bytes kv = static_graph_bytes kw \<longleftrightarrow> same_storage kv kw"
proof -
  have d: "distinct (map al_id (kv_allocations kv))" "distinct (map al_id (kv_allocations kw))"
    using assms by (simp_all add: kv_valid_def allocations_valid_def)
  then have "inj_on al_id (set (kv_allocations kv))" by (simp add: distinct_map)
  moreover have "mset (kv_allocations kv) = mset (kv_allocations kw) \<longleftrightarrow>
      set (kv_allocations kv) = set (kv_allocations kw)"
    using d by (metis distinct_map set_eq_iff_mset_eq_distinct)
  ultimately show ?thesis
    using sort_key_mset_iff [OF assms(5) [unfolded views_keyed_def]]
    by (simp only: static_bytes_peel_iff [OF assms(3,4)] same_storage_def sort_key_mset_iff)
qed

lemma graph_and_kv_bytes_eq_iff:
  assumes "valid_descriptor d" "valid_descriptor e" "graph_fits d" "graph_fits e"
    and "kv_valid kv" "kv_valid kw" "kv_fits kv" "kv_fits kw" "views_keyed kv"
  shows "program_graph_bytes d @ static_graph_bytes kv = program_graph_bytes e @ static_graph_bytes kw \<longleftrightarrow>
    same_program d e \<and> same_storage kv kw"
  by (simp only: graph_bytes_peel_iff [OF assms(1-4)] static_bytes_eq_iff [OF assms(5-9)])

text \<open>The two identities never share a preimage: their domain tags differ.\<close>

lemma graph_kv_domains_differ: "launches_valid d \<Longrightarrow> program_graph_bytes d \<noteq> static_graph_bytes kv"
proof
  assume v: "launches_valid d" and eq: "program_graph_bytes d = static_graph_bytes kv"
  have tags: "fits_usize HOST_PROGRAM_GRAPH_DOMAIN_TAG" "fits_usize HOST_KV_STORAGE_DOMAIN_TAG"
    by (simp_all add: HOST_PROGRAM_GRAPH_DOMAIN_TAG_def HOST_KV_STORAGE_DOMAIN_TAG_def fits_usize_def)
  from eq have "HOST_PROGRAM_GRAPH_DOMAIN_TAG = HOST_KV_STORAGE_DOMAIN_TAG"
    unfolding program_graph_bytes_code [OF v] static_graph_bytes_code graph_head_def append.assoc
      str_prefix.peel_iff [OF tags] by blast
  then show False by (simp add: HOST_PROGRAM_GRAPH_DOMAIN_TAG_def HOST_KV_STORAGE_DOMAIN_TAG_def)
qed

end
