(* ===== verification/Valor.thy ===== *)
theory Valor
  imports Device_Types
begin

text \<open>
  The value carried in frames. \<open>Valor\<close> is declared in the language's runtime crate; its
  constructors are those of the exhaustive match in \<open>macos-arm64/src/kernel/valor_wire.rs\<close>
  (\<open>valor_to_json\<close>). The theory holds that carrier and the projections of
  \<open>crates/host-device-core/src/kernel/frame_data.rs\<close>.

  An \<open>f64\<close> is its 64 IEEE bits and an \<open>i64\<close> a \<^typ>\<open>64 word\<close> read by \<^const>\<open>sint\<close>; a \<open>Magnus\<close> carries
  an unbounded integer. A \<open>Tabula\<close> is a \<open>BTreeMap\<close>, so its entries are in strictly increasing key
  order: \<open>valor_ok\<close> says so at every depth. The trait \<open>FromValor\<close> is the runtime's too: its four
  instances are a parameter, whose documented behaviour on the carrier of its own type is the
  locale \<open>from_valor\<close>.
\<close>

type_synonym i64 = "64 word"
type_synonym f64 = "64 word"

datatype Valor =
    Nihil
  | Bivalens bool
  | Numerus i64
  | Magnus int
  | Fractus f64
  | Textus string
  | Octeti "u8 list"
  | Lista "Valor list"
  | Tabula "(string \<times> Valor) list"
  | Instans string

fun valor_ok :: "Valor \<Rightarrow> bool" where
  "valor_ok (Lista items) \<longleftrightarrow> (\<forall>v\<in>set items. valor_ok v)"
| "valor_ok (Tabula tab) \<longleftrightarrow> bmap_ok tab \<and> (\<forall>(k, v)\<in>set tab. valor_ok v)"
| "valor_ok _ \<longleftrightarrow> True"

definition HostError_to_data :: "HostError \<Rightarrow> Valor" where
  "HostError_to_data e = Tabula (bmap_of_list
     [(''code'', Textus (he_code e)), (''message'', Textus (he_message e)),
      (''retryable'', Bivalens (he_retryable e))])"

section \<open>Readers of the runtime\<close>

record FromValor =
  string_from_valor :: "Valor \<Rightarrow> string option"
  i64_from_valor :: "Valor \<Rightarrow> i64 option"
  bool_from_valor :: "Valor \<Rightarrow> bool option"
  strings_from_valor :: "Valor \<Rightarrow> string list option"

locale from_valor =
  fixes fv :: FromValor
  assumes string_Textus: "string_from_valor fv (Textus s) = Some s"
    and i64_Numerus: "i64_from_valor fv (Numerus n) = Some n"
    and bool_Bivalens: "bool_from_valor fv (Bivalens b) = Some b"
    and strings_Lista: "strings_from_valor fv (Lista (map Textus ss)) = Some ss"

text \<open>The strict instance, which reads only the carrier of its type.\<close>

definition strict_from_valor :: FromValor where
  "strict_from_valor =
     \<lparr>string_from_valor = (\<lambda>v. case v of Textus s \<Rightarrow> Some s | _ \<Rightarrow> None),
      i64_from_valor = (\<lambda>v. case v of Numerus n \<Rightarrow> Some n | _ \<Rightarrow> None),
      bool_from_valor = (\<lambda>v. case v of Bivalens b \<Rightarrow> Some b | _ \<Rightarrow> None),
      strings_from_valor = (\<lambda>v. case v of
          Lista items \<Rightarrow> if list_all (\<lambda>i. case i of Textus _ \<Rightarrow> True | _ \<Rightarrow> False) items
            then Some (map (\<lambda>i. case i of Textus s \<Rightarrow> s | _ \<Rightarrow> '''') items) else None
        | _ \<Rightarrow> None)\<rparr>"

interpretation strict: from_valor strict_from_valor
  by unfold_locales (simp_all add: strict_from_valor_def list_all_iff comp_def)

section \<open>frame\_data.rs\<close>

definition empty_data :: Valor where
  "empty_data = Tabula []"

definition is_empty_tabula :: "Valor \<Rightarrow> bool" where
  "is_empty_tabula data = (case data of Tabula tab \<Rightarrow> tab = [] | _ \<Rightarrow> False)"

definition is_empty_data :: "Valor \<Rightarrow> bool" where
  "is_empty_data data = (data = Nihil \<or> is_empty_tabula data)"

definition tabula_of :: "(string \<times> Valor) list \<Rightarrow> Valor" where
  "tabula_of tab = Tabula (bmap_of_list tab)"

definition positional_or_field :: "Valor \<Rightarrow> nat \<Rightarrow> string \<Rightarrow> (Valor, HostError) result" where
  "positional_or_field data index key =
     (let missing = HostError_invalid_args (''missing positional argument '' @ show_nat index @
            '' ('' @ key @ '')'') in
      case data of
        Tabula tab \<Rightarrow> ok_or (bmap_get tab key) (HostError_invalid_args (''missing '' @ key))
      | Lista items \<Rightarrow> if index < length items then Ok (items ! index) else Err missing
      | _ \<Rightarrow> if index = 0 then Ok data else Err missing)"

definition data_field :: "Valor \<Rightarrow> string \<Rightarrow> (Valor, HostError) result" where
  "data_field data key =
     (case data of
        Tabula tab \<Rightarrow> ok_or (bmap_get tab key) (HostError_invalid_args (''missing '' @ key))
      | _ \<Rightarrow> Err (HostError_invalid_args ''frame data must be a tabula''))"

definition string_arg :: "FromValor \<Rightarrow> Valor \<Rightarrow> nat \<Rightarrow> string \<Rightarrow> (string, HostError) result" where
  "string_arg fv data index key =
     and_then (positional_or_field data index key) (\<lambda>v.
       ok_or (string_from_valor fv v) (HostError_invalid_args (key @ '' must be a string'')))"

definition string_field :: "FromValor \<Rightarrow> Valor \<Rightarrow> string \<Rightarrow> (string, HostError) result" where
  "string_field fv data key =
     and_then (data_field data key) (\<lambda>v.
       ok_or (string_from_valor fv v) (HostError_invalid_args (key @ '' must be a string'')))"

definition i64_arg :: "FromValor \<Rightarrow> Valor \<Rightarrow> nat \<Rightarrow> string \<Rightarrow> (i64, HostError) result" where
  "i64_arg fv data index key =
     and_then (positional_or_field data index key) (\<lambda>v.
       ok_or (i64_from_valor fv v) (HostError_invalid_args (key @ '' must be an integer'')))"

definition i64_field :: "FromValor \<Rightarrow> Valor \<Rightarrow> string \<Rightarrow> (i64, HostError) result" where
  "i64_field fv data key =
     and_then (data_field data key) (\<lambda>v.
       ok_or (i64_from_valor fv v) (HostError_invalid_args (key @ '' must be an integer'')))"

definition string_list_arg :: "FromValor \<Rightarrow> Valor \<Rightarrow> nat \<Rightarrow> string \<Rightarrow> (string list, HostError) result" where
  "string_list_arg fv data index key =
     (case (if index = 0 then strings_from_valor fv data else None) of
        Some items \<Rightarrow> Ok items
      | None \<Rightarrow>
          and_then (positional_or_field data index key) (\<lambda>v.
            ok_or (strings_from_valor fv v) (HostError_invalid_args (key @ '' must be a list of strings''))))"

definition bool_field :: "FromValor \<Rightarrow> Valor \<Rightarrow> string \<Rightarrow> (bool, HostError) result" where
  "bool_field fv data key =
     and_then (data_field data key) (\<lambda>v.
       ok_or (bool_from_valor fv v) (HostError_invalid_args (key @ '' must be a boolean'')))"

definition byte_of_valor :: "string \<Rightarrow> Valor \<Rightarrow> (u8, HostError) result" where
  "byte_of_valor key item =
     (case item of
        Numerus byte \<Rightarrow>
          if 0 \<le> sint byte \<and> sint byte \<le> 255 then Ok (ucast byte)
          else Err (HostError_invalid_args (key @ '' must contain bytes''))
      | _ \<Rightarrow> Err (HostError_invalid_args (key @ '' must contain bytes'')))"

definition bytes_from_valor :: "Valor \<Rightarrow> string \<Rightarrow> (u8 list, HostError) result" where
  "bytes_from_valor value key =
     (case value of
        Lista items \<Rightarrow> try_map (byte_of_valor key) items
      | Textus text \<Rightarrow> Ok (str_bytes text)
      | _ \<Rightarrow> Err (HostError_invalid_args (key @ '' must be a byte array or string'')))"

definition bytes_arg :: "Valor \<Rightarrow> nat \<Rightarrow> string \<Rightarrow> (u8 list, HostError) result" where
  "bytes_arg data index key =
     and_then (positional_or_field data index key) (\<lambda>v. bytes_from_valor v key)"

definition bytes_field :: "Valor \<Rightarrow> string \<Rightarrow> (u8 list, HostError) result" where
  "bytes_field data key = and_then (data_field data key) (\<lambda>v. bytes_from_valor v key)"

definition single_text :: "string \<Rightarrow> Valor" where
  "single_text value = Textus value"

definition single_bool :: "bool \<Rightarrow> Valor" where
  "single_bool value = Bivalens value"

definition single_bytes :: "u8 list \<Rightarrow> Valor" where
  "single_bytes value = Octeti value"

definition string_list :: "string list \<Rightarrow> Valor" where
  "string_list items = Lista (map Textus items)"

section \<open>What the readers accept\<close>

lemma u8_of_small_i64:
  assumes "0 \<le> sint (n :: i64)" "sint n \<le> 255"
  shows "uint (ucast n :: u8) = sint n"
proof -
  have "uint n = sint n"
    using assms by (subst uint_sint) (simp add: take_bit_int_eq_self)
  moreover have "take_bit 8 (sint n) = sint n"
    using assms by (intro take_bit_int_eq_self) simp_all
  ultimately show ?thesis by (simp add: unsigned_ucast_eq)
qed

lemma byte_of_valor_Ok_iff:
  "byte_of_valor key v = Ok b \<longleftrightarrow> (\<exists>n. v = Numerus n \<and> sint n = uint b)"
proof -
  have "sint n = uint b \<longleftrightarrow> 0 \<le> sint n \<and> sint n \<le> 255 \<and> ucast n = b" for n :: i64
  proof
    assume eq: "sint n = uint b"
    then have "0 \<le> sint n" "sint n \<le> 255"
      using unsigned_less [of b, where ?'a = int] by simp_all
    with u8_of_small_i64 [of n] eq show "0 \<le> sint n \<and> sint n \<le> 255 \<and> ucast n = b"
      by (simp add: word_uint_eq_iff)
  next
    assume "0 \<le> sint n \<and> sint n \<le> 255 \<and> ucast n = b"
    with u8_of_small_i64 [of n] show "sint n = uint b" by simp
  qed
  then show ?thesis
    by (cases v) (auto simp: byte_of_valor_def)
qed

text \<open>A reader accepts a list of byte numbers or a text, and nothing else; in particular it does not
  accept the byte carrier that \<^const>\<open>single_bytes\<close> builds.\<close>

lemma bytes_from_valor_Ok_iff:
  "bytes_from_valor v key = Ok bs \<longleftrightarrow>
     (\<exists>ns. v = Lista (map Numerus ns) \<and> map sint ns = map uint bs) \<or> (\<exists>s. v = Textus s \<and> bs = str_bytes s)"
proof -
  have "list_all2 (\<lambda>i b. \<exists>n. i = Numerus n \<and> sint n = uint b) items bs \<longleftrightarrow>
      (\<exists>ns. items = map Numerus ns \<and> map sint ns = map uint bs)" for items
  proof (induction items arbitrary: bs)
    case (Cons i items)
    show ?case
    proof
      assume "list_all2 (\<lambda>i b. \<exists>n. i = Numerus n \<and> sint n = uint b) (i # items) bs"
      then obtain b bs' n where bs: "bs = b # bs'" "i = Numerus n" "sint n = uint b"
        and "list_all2 (\<lambda>i b. \<exists>n. i = Numerus n \<and> sint n = uint b) items bs'"
        by (cases bs) auto
      with Cons.IH obtain ns where "items = map Numerus ns" "map sint ns = map uint bs'" by blast
      with bs have "i # items = map Numerus (n # ns) \<and> map sint (n # ns) = map uint bs" by simp
      then show "\<exists>ns. i # items = map Numerus ns \<and> map sint ns = map uint bs"
        by (rule exI [of _ "n # ns"])
    next
      assume "\<exists>ns. i # items = map Numerus ns \<and> map sint ns = map uint bs"
      then obtain ns where ns: "i # items = map Numerus ns" and "map sint ns = map uint bs"
        by (elim exE conjE) (rule that)
      from this(2) have "list_all2 (\<lambda>n b. sint n = uint b) ns bs"
        by (simp add: list_all2_eq list_all2_map1 list_all2_map2)
      then show "list_all2 (\<lambda>i b. \<exists>n. i = Numerus n \<and> sint n = uint b) (i # items) bs"
        unfolding ns by (simp add: list_all2_map1)
    qed
  qed auto
  then show ?thesis
    by (cases v) (auto simp: bytes_from_valor_def try_map_Ok_iff byte_of_valor_Ok_iff)
qed

lemma single_bytes_not_read: "\<exists>e. bytes_arg (single_bytes bs) 0 key = Err e"
  by (simp add: bytes_arg_def single_bytes_def positional_or_field_def bytes_from_valor_def)

lemma positional_Ok_iff:
  "positional_or_field data index key = Ok v \<longleftrightarrow>
     (case data of
        Tabula tab \<Rightarrow> bmap_get tab key = Some v
      | Lista items \<Rightarrow> index < length items \<and> v = items ! index
      | _ \<Rightarrow> index = 0 \<and> v = data)"
  by (cases data) (auto simp: positional_or_field_def ok_or_Ok_iff)

end
