(* ===== verification/Host_Kernel.thy ===== *)
theory Host_Kernel
  imports Valor
begin

text \<open>
  The routing kernel of \<open>crates/host-kernel/src/lib.rs\<close>: provider manifests and their validation,
  the registration of providers, and the checked dispatch of a request to the provider whose
  manifest declares its route.

  A provider is a record of its registration and of its dispatch function; the outcome
  \<^const>\<open>None\<close> of a dispatch is a panic, which the kernel catches. A cancellation probe is the
  sequence of answers to its successive reads (\<^const>\<open>None\<close> a panic of the probe): the kernel takes
  the first and hands the rest to the provider.
\<close>

section \<open>Errors\<close>

record KernelError =
  ke_code :: string
  ke_message :: string
  ke_retryable :: bool

definition ke_unchecked :: "string \<Rightarrow> string \<Rightarrow> bool \<Rightarrow> KernelError" where
  "ke_unchecked code message retryable =
     \<lparr>ke_code = code, ke_message = message, ke_retryable = retryable\<rparr>"

definition ke_invalid_args :: "string \<Rightarrow> KernelError" where
  "ke_invalid_args message = ke_unchecked ''E_INVALID_ARGS'' message False"

definition ke_internal :: "string \<Rightarrow> KernelError" where
  "ke_internal message = ke_unchecked ''E_INTERNAL'' message False"

definition ke_no_route :: "string \<Rightarrow> KernelError" where
  "ke_no_route message = ke_unchecked ''E_NO_ROUTE'' message False"

definition ke_cancelled :: KernelError where
  "ke_cancelled = ke_unchecked ''E_CANCELLED'' ''operation cancelled'' False"

definition ke_provider_panic :: KernelError where
  "ke_provider_panic = ke_unchecked ''E_PROVIDER_PANIC'' ''provider panicked'' False"

definition ke_to_valor :: "KernelError \<Rightarrow> Valor" where
  "ke_to_valor e = Tabula
     (bmap_insert ''retryable'' (Bivalens (ke_retryable e))
       (bmap_insert ''message'' (Textus (ke_message e))
         (bmap_insert ''code'' (Textus (ke_code e)) [])))"

definition ke_display :: "KernelError \<Rightarrow> string" where
  "ke_display e = ke_code e @ '': '' @ ke_message e"

definition is_ascii_uppercase :: "char \<Rightarrow> bool" where
  "is_ascii_uppercase c \<longleftrightarrow> CHR ''A'' \<le> c \<and> c \<le> CHR ''Z''"

definition is_ascii_lowercase :: "char \<Rightarrow> bool" where
  "is_ascii_lowercase c \<longleftrightarrow> CHR ''a'' \<le> c \<and> c \<le> CHR ''z''"

definition is_ascii_digit :: "char \<Rightarrow> bool" where
  "is_ascii_digit c \<longleftrightarrow> CHR ''0'' \<le> c \<and> c \<le> CHR ''9''"

definition valid_error_code :: "string \<Rightarrow> bool" where
  "valid_error_code code =
     (case code of
        c # d # rest \<Rightarrow> c = CHR ''E'' \<and> d = CHR ''_'' \<and>
          list_all (\<lambda>ch. is_ascii_uppercase ch \<or> is_ascii_digit ch \<or> ch = CHR ''_'') rest
      | _ \<Rightarrow> False)"

definition ke_try_new :: "string \<Rightarrow> string \<Rightarrow> bool \<Rightarrow> (KernelError, KernelError) result" where
  "ke_try_new code message retryable =
     (if \<not> valid_error_code code then
        Err (ke_invalid_args (''invalid host error code `'' @ code @ ''`''))
      else Ok \<lparr>ke_code = code, ke_message = message, ke_retryable = retryable\<rparr>)"

section \<open>Requests and replies\<close>

record RequestFrame =
  rq_conversation_id :: string
  rq_route :: string
  rq_opener :: Valor
  rq_target :: "string option"

type_synonym CancellationProbe = "nat \<Rightarrow> bool option"

record DispatchContext =
  dc_cancellation :: CancellationProbe

definition probe_from_flag :: "(nat \<Rightarrow> bool) \<Rightarrow> CancellationProbe" where
  "probe_from_flag flag = (\<lambda>n. Some (flag n))"

definition try_is_cancelled :: "DispatchContext \<Rightarrow> (bool, KernelError) result" where
  "try_is_cancelled ctx =
     ok_or (dc_cancellation ctx 0) (ke_internal ''cancellation probe panicked'')"

definition after_read :: "DispatchContext \<Rightarrow> DispatchContext" where
  "after_read ctx = \<lparr>dc_cancellation = (\<lambda>n. dc_cancellation ctx (Suc n))\<rparr>"

datatype ProviderContent = Item Valor | Byte "u8 list" | Bulk Valor

record ProviderReply =
  pr_contents :: "ProviderContent list"

definition reply_vacuum :: ProviderReply where
  "reply_vacuum = \<lparr>pr_contents = []\<rparr>"

definition reply_item :: "Valor \<Rightarrow> ProviderReply" where
  "reply_item data = \<lparr>pr_contents = [Item data]\<rparr>"

definition reply_byte :: "u8 list \<Rightarrow> ProviderReply" where
  "reply_byte data = \<lparr>pr_contents = [Byte data]\<rparr>"

definition reply_list :: "Valor list \<Rightarrow> ProviderReply" where
  "reply_list items = \<lparr>pr_contents = map Item items\<rparr>"

section \<open>Manifests and contracts\<close>

record ManifestCall =
  mc_route :: string
  mc_summary :: string
  mc_opener :: string
  mc_result :: string

record ProviderManifest =
  pm_version :: u32
  pm_provider :: string
  pm_owner :: string
  pm_prefixes :: "string list"
  pm_calls :: "ManifestCall list"
  pm_native_dependencies :: "string list"

datatype OpenerContract =
    OpVacuum | OpSponteNumerus | OpTextus | OpNumerus | OpOcteti | OpListaTextus | OpListaNumerus
  | OpListaValor | OpTextusOrListaValor | OpValor

text \<open>The union sign of the source is the three UTF-8 bytes of U+222A.\<close>

definition textus_or_lista :: string where
  "textus_or_lista = ''textus '' @ [CHR 0xE2, CHR 0x88, CHR 0xAA] @ '' lista<valor>''"

definition OpenerContract_parse :: "string \<Rightarrow> OpenerContract option" where
  "OpenerContract_parse v =
     (if v = ''vacuum'' then Some OpVacuum
      else if v = ''sponte<numerus>'' then Some OpSponteNumerus
      else if v = ''textus'' then Some OpTextus
      else if v = ''numerus'' then Some OpNumerus
      else if v = ''octeti'' then Some OpOcteti
      else if v = ''lista<textus>'' then Some OpListaTextus
      else if v = ''lista<numerus>'' then Some OpListaNumerus
      else if v = ''lista<valor>'' then Some OpListaValor
      else if v = textus_or_lista then Some OpTextusOrListaValor
      else if v = ''valor'' then Some OpValor
      else None)"

datatype ResultContract =
    ResVacuum | ResTextus | ResNumerus | ResFractus | ResBivalens | ResOcteti | ResInstansNs
  | ResListaTextus | ResValor | ResBytes | ResListaValor | ResBulkValor

definition ResultContract_parse :: "string \<Rightarrow> ResultContract option" where
  "ResultContract_parse v =
     (if v = ''vacuum'' then Some ResVacuum
      else if v = ''textus'' then Some ResTextus
      else if v = ''numerus'' then Some ResNumerus
      else if v = ''fractus'' then Some ResFractus
      else if v = ''bivalens'' then Some ResBivalens
      else if v = ''octeti'' then Some ResOcteti
      else if v = ''instans<ns>'' then Some ResInstansNs
      else if v = ''lista<textus>'' then Some ResListaTextus
      else if v = ''valor'' then Some ResValor
      else if v = ''bytes'' then Some ResBytes
      else if v = ''lista-valor'' then Some ResListaValor
      else if v = ''bulk-valor'' then Some ResBulkValor
      else None)"

record RouteContract =
  rc_opener :: OpenerContract
  rc_result :: ResultContract

definition RouteContract_parse :: "ManifestCall \<Rightarrow> (RouteContract, KernelError) result" where
  "RouteContract_parse call =
     (case OpenerContract_parse (mc_opener call) of
        None \<Rightarrow> Err (ke_invalid_args (''manifest route `'' @ mc_route call @
          ''` declares unsupported opener contract `'' @ mc_opener call @ ''`''))
      | Some opener \<Rightarrow>
          (case ResultContract_parse (mc_result call) of
             None \<Rightarrow> Err (ke_invalid_args (''manifest route `'' @ mc_route call @
               ''` declares unsupported result contract `'' @ mc_result call @ ''`''))
           | Some result \<Rightarrow> Ok \<lparr>rc_opener = opener, rc_result = result\<rparr>))"

definition valid_prefix :: "string \<Rightarrow> bool" where
  "valid_prefix prefix =
     (case prefix of
        ch # rest \<Rightarrow> is_ascii_lowercase ch \<and>
          list_all (\<lambda>ch. is_ascii_lowercase ch \<or> is_ascii_digit ch \<or> ch = CHR ''_'' \<or> ch = CHR ''-'') rest
      | [] \<Rightarrow> False)"

text \<open>\<open>str::split_once\<close>: the text before and after the first separator.\<close>

definition split_once :: "char \<Rightarrow> string \<Rightarrow> (string \<times> string) option" where
  "split_once sep s =
     (case dropWhile (\<lambda>c. c \<noteq> sep) s of
        [] \<Rightarrow> None
      | _ # rest \<Rightarrow> Some (takeWhile (\<lambda>c. c \<noteq> sep) s, rest))"

definition check_call :: "string bset \<Rightarrow> ManifestCall \<Rightarrow> string bset \<Rightarrow> (string bset, KernelError) result" where
  "check_call prefixes call routes =
     and_then (RouteContract_parse call) (\<lambda>_.
       case split_once (CHR '':'') (mc_route call) of
         None \<Rightarrow> Err (ke_invalid_args (''manifest route `'' @ mc_route call @ ''` has no prefix''))
       | Some (prefix, verb) \<Rightarrow>
           if verb = [] \<or> List.member verb (CHR '':'') \<or> \<not> List.member prefixes prefix then
             Err (ke_invalid_args (''manifest route `'' @ mc_route call @
               ''` does not match provider prefixes''))
           else if List.member routes (mc_route call) then
             Err (ke_internal (''provider manifest repeats route `'' @ mc_route call @ ''`''))
           else Ok (bset_insert (mc_route call) routes))"

definition validate_manifest :: "ProviderManifest \<Rightarrow> (unit, KernelError) result" where
  "validate_manifest manifest =
     (if pm_version manifest \<noteq> 1 then
        Err (ke_invalid_args (''unsupported provider manifest version '' @ display_u32 (pm_version manifest)))
      else if pm_provider manifest = [] \<or> pm_prefixes manifest = [] then
        Err (ke_invalid_args ''provider manifest requires provider and prefixes'')
      else if pm_calls manifest = [] then
        Err (ke_invalid_args ''provider manifest requires at least one call'')
      else
        let prefixes = bset_of_list (pm_prefixes manifest) in
        if length prefixes \<noteq> length (pm_prefixes manifest) then
          Err (ke_invalid_args ''provider prefixes must be unique'')
        else
          and_then (try_each (\<lambda>prefix. ensure (valid_prefix prefix)
              (ke_invalid_args (''invalid provider prefix `'' @ prefix @ ''`''))) (pm_prefixes manifest)) (\<lambda>_.
          and_then (try_fold (check_call prefixes) (pm_calls manifest) []) (\<lambda>_. Ok ())))"

section \<open>The kernel\<close>

record Provider =
  pv_registration :: ProviderManifest
  pv_dispatch :: "RequestFrame \<Rightarrow> DispatchContext \<Rightarrow> (ProviderReply, KernelError) result option"

record KernelManifest =
  km_version :: u32
  km_providers :: "ProviderManifest list"

record Kernel =
  kl_providers :: "(string, Provider) bmap"
  kl_routes :: "string bset"
  kl_contracts :: "(string, RouteContract) bmap"

definition Kernel_new :: Kernel where
  "Kernel_new = \<lparr>kl_providers = [], kl_routes = [], kl_contracts = []\<rparr>"

definition call_contract :: "ManifestCall \<Rightarrow> (string \<times> RouteContract, KernelError) result" where
  "call_contract call = and_then (RouteContract_parse call) (\<lambda>contract. Ok (mc_route call, contract))"

definition register :: "Provider \<Rightarrow> Kernel \<Rightarrow> (Kernel, KernelError) result" where
  "register provider k =
     (let manifest = pv_registration provider in
      and_then (validate_manifest manifest) (\<lambda>_.
      if list_ex (\<lambda>registered. pm_provider (pv_registration registered) = pm_provider manifest)
           (bmap_values (kl_providers k)) then
        Err (ke_internal (''duplicate provider identity `'' @ pm_provider manifest @ ''`''))
      else
        and_then (try_each (\<lambda>prefix. ensure (\<not> bmap_contains (kl_providers k) prefix)
            (ke_internal (''duplicate provider prefix `'' @ prefix @ ''`''))) (pm_prefixes manifest)) (\<lambda>_.
        and_then (try_each (\<lambda>call. ensure (\<not> List.member (kl_routes k) (mc_route call))
            (ke_internal (''duplicate provider route `'' @ mc_route call @ ''`''))) (pm_calls manifest)) (\<lambda>_.
        and_then (try_map call_contract (pm_calls manifest)) (\<lambda>route_contracts.
          Ok \<lparr>kl_providers = fold (\<lambda>prefix m. bmap_insert prefix provider m) (pm_prefixes manifest) (kl_providers k),
              kl_routes = fold (\<lambda>call s. bset_insert (mc_route call) s) (pm_calls manifest) (kl_routes k),
              kl_contracts = fold (\<lambda>(route, contract) m. bmap_insert route contract m) route_contracts
                (kl_contracts k)\<rparr>)))))"

section \<open>Contracts on openers and replies\<close>

definition is_vacuum_carrier :: "Valor \<Rightarrow> bool" where
  "is_vacuum_carrier v = (v = Nihil \<or> v = Tabula [])"

definition is_Numerus :: "Valor \<Rightarrow> bool" where
  "is_Numerus v = (case v of Numerus _ \<Rightarrow> True | _ \<Rightarrow> False)"

definition is_Textus :: "Valor \<Rightarrow> bool" where
  "is_Textus v = (case v of Textus _ \<Rightarrow> True | _ \<Rightarrow> False)"

definition is_Octeti :: "Valor \<Rightarrow> bool" where
  "is_Octeti v = (case v of Octeti _ \<Rightarrow> True | _ \<Rightarrow> False)"

fun opener_matches :: "OpenerContract \<Rightarrow> Valor \<Rightarrow> bool" where
  "opener_matches OpVacuum v = is_vacuum_carrier v"
| "opener_matches OpSponteNumerus v = (is_vacuum_carrier v \<or> is_Numerus v)"
| "opener_matches OpTextus v = is_Textus v"
| "opener_matches OpNumerus v = is_Numerus v"
| "opener_matches OpOcteti v = is_Octeti v"
| "opener_matches OpListaTextus v = (case v of Lista items \<Rightarrow> list_all is_Textus items | _ \<Rightarrow> False)"
| "opener_matches OpListaNumerus v = (case v of Lista items \<Rightarrow> list_all is_Numerus items | _ \<Rightarrow> False)"
| "opener_matches OpListaValor v = (case v of Lista _ \<Rightarrow> True | _ \<Rightarrow> False)"
| "opener_matches OpTextusOrListaValor v = (case v of Textus _ \<Rightarrow> True | Lista _ \<Rightarrow> True | _ \<Rightarrow> False)"
| "opener_matches OpValor v = True"

definition validate_request_contract ::
    "string \<Rightarrow> RequestFrame \<Rightarrow> OpenerContract \<Rightarrow> (unit, KernelError) result" where
  "validate_request_contract route request opener =
     ensure (opener_matches opener (rq_opener request))
       (ke_invalid_args (''request opener for route `'' @ route @
         ''` does not match declared opener contract''))"

definition is_item :: "(Valor \<Rightarrow> bool) \<Rightarrow> ProviderContent \<Rightarrow> bool" where
  "is_item P c = (case c of Item v \<Rightarrow> P v | _ \<Rightarrow> False)"

definition single :: "(ProviderContent \<Rightarrow> bool) \<Rightarrow> ProviderContent list \<Rightarrow> bool" where
  "single P cs = (case cs of [c] \<Rightarrow> P c | _ \<Rightarrow> False)"

fun reply_matches :: "ResultContract \<Rightarrow> ProviderContent list \<Rightarrow> bool" where
  "reply_matches ResVacuum cs = (cs = [])"
| "reply_matches ResTextus cs = single (is_item is_Textus) cs"
| "reply_matches ResNumerus cs = single (is_item is_Numerus) cs"
| "reply_matches ResFractus cs = single (is_item (\<lambda>v. case v of Fractus _ \<Rightarrow> True | _ \<Rightarrow> False)) cs"
| "reply_matches ResBivalens cs = single (is_item (\<lambda>v. case v of Bivalens _ \<Rightarrow> True | _ \<Rightarrow> False)) cs"
| "reply_matches ResOcteti cs =
     single (\<lambda>c. case c of Byte _ \<Rightarrow> True | Item (Octeti _) \<Rightarrow> True | _ \<Rightarrow> False) cs"
| "reply_matches ResBytes cs =
     single (\<lambda>c. case c of Byte _ \<Rightarrow> True | Item (Octeti _) \<Rightarrow> True | _ \<Rightarrow> False) cs"
| "reply_matches ResInstansNs cs = single (is_item (\<lambda>v. case v of Instans _ \<Rightarrow> True | _ \<Rightarrow> False)) cs"
| "reply_matches ResListaTextus cs = list_all (is_item is_Textus) cs"
| "reply_matches ResValor cs = single (is_item (\<lambda>_. True)) cs"
| "reply_matches ResListaValor cs = list_all (is_item (\<lambda>_. True)) cs"
| "reply_matches ResBulkValor cs = single (\<lambda>c. case c of Bulk _ \<Rightarrow> True | _ \<Rightarrow> False) cs"

definition validate_reply_contract ::
    "string \<Rightarrow> ProviderReply \<Rightarrow> ResultContract \<Rightarrow> (unit, KernelError) result" where
  "validate_reply_contract route reply result =
     ensure (reply_matches result (pr_contents reply))
       (ke_internal (''provider reply for route `'' @ route @
         ''` does not match declared result contract''))"

section \<open>Dispatch\<close>

definition catch_provider :: "('a, KernelError) result option \<Rightarrow> ('a, KernelError) result" where
  "catch_provider outcome = (case outcome of None \<Rightarrow> Err ke_provider_panic | Some r \<Rightarrow> r)"

definition dispatch :: "Kernel \<Rightarrow> RequestFrame \<Rightarrow> DispatchContext \<Rightarrow> (ProviderReply, KernelError) result" where
  "dispatch k request ctx =
     and_then (try_is_cancelled ctx) (\<lambda>cancelled.
       if cancelled then Err ke_cancelled
       else case split_once (CHR '':'') (rq_route request) of
         None \<Rightarrow> Err (ke_no_route (''route `'' @ rq_route request @ ''` has no provider prefix''))
       | Some (prefix, _) \<Rightarrow>
      (case bmap_get (kl_providers k) prefix of
         None \<Rightarrow> Err (ke_no_route (''no provider registered for `'' @ prefix @ ''`''))
       | Some provider \<Rightarrow>
           if \<not> List.member (kl_routes k) (rq_route request) then
             Err (ke_no_route (''provider manifest does not export `'' @ rq_route request @ ''`''))
           else
             and_then (ok_or (bmap_get (kl_contracts k) (rq_route request))
                 (ke_internal (''provider manifest route `'' @ rq_route request @ ''` has no call contract''))) (\<lambda>contract.
             and_then (validate_request_contract (rq_route request) request (rc_opener contract)) (\<lambda>_.
             and_then (catch_provider (pv_dispatch provider request (after_read ctx))) (\<lambda>reply.
             and_then (validate_reply_contract (rq_route request) reply (rc_result contract)) (\<lambda>_.
               Ok reply))))))"

definition supports_route :: "Kernel \<Rightarrow> string \<Rightarrow> bool" where
  "supports_route k route = List.member (kl_routes k) route"

definition kernel_manifest :: "Kernel \<Rightarrow> KernelManifest" where
  "kernel_manifest k =
     (let providers = map pv_registration (bmap_values (kl_providers k));
          providers = sort_key pm_provider providers;
          providers = dedup_by_key pm_provider providers
      in \<lparr>km_version = 1, km_providers = providers\<rparr>)"

end
