(* ===== verification/Kernel_Registry.thy ===== *)
theory Kernel_Registry
  imports Host_Kernel
begin

text \<open>
  What the routing kernel promises. The specification of its three maps is the list of providers
  registered so far: \<open>represents k ps\<close> says that the maps of \<open>k\<close> answer for exactly the prefixes,
  routes and contracts the manifests of \<open>ps\<close> declare. Registration refines adding a provider to
  that list, and dispatch refines finding the one provider that declares the route: several checks
  of the source (a duplicate route across providers, a route without a contract) are shown to be
  unreachable.
\<close>

section \<open>Which manifests validate\<close>

lemma split_once_Some_iff: "split_once c s = Some (a, b) \<longleftrightarrow> s = a @ c # b \<and> c \<notin> set a"
proof
  assume some: "split_once c s = Some (a, b)"
  then obtain d where d: "dropWhile (\<lambda>d. d \<noteq> c) s = d # b" and a: "takeWhile (\<lambda>d. d \<noteq> c) s = a"
    unfolding split_once_def by (cases "dropWhile (\<lambda>d. d \<noteq> c) s") simp_all
  have "d = c"
    using hd_dropWhile [of "\<lambda>d. d \<noteq> c" s] unfolding d by simp
  then have "s = a @ c # b"
    using takeWhile_dropWhile_id [of "\<lambda>d. d \<noteq> c" s] unfolding d a by simp
  moreover have "c \<notin> set a"
    unfolding a [symmetric] by (auto dest: set_takeWhileD)
  ultimately show "s = a @ c # b \<and> c \<notin> set a" by blast
next
  assume "s = a @ c # b \<and> c \<notin> set a"
  then have "takeWhile (\<lambda>d. d \<noteq> c) s = a" "dropWhile (\<lambda>d. d \<noteq> c) s = c # b"
    by (auto simp: takeWhile_append dropWhile_append)
  then show "split_once c s = Some (a, b)" by (simp add: split_once_def)
qed

lemma split_once_None_iff: "split_once c s = None \<longleftrightarrow> c \<notin> set s"
proof -
  have "split_once c s = None \<longleftrightarrow> dropWhile (\<lambda>d. d \<noteq> c) s = []"
  proof (cases "dropWhile (\<lambda>d. d \<noteq> c) s")
    case Nil
    show ?thesis unfolding split_once_def Nil by simp
  next
    case (Cons x xs)
    show ?thesis unfolding split_once_def Cons by simp
  qed
  then show ?thesis by (auto simp: dropWhile_eq_Nil_conv)
qed

lemma valid_prefix_no_colon: "valid_prefix p \<Longrightarrow> CHR '':'' \<notin> set p"
  by (auto simp: valid_prefix_def is_ascii_lowercase_def is_ascii_digit_def list_all_iff less_eq_char_def
      split: list.splits)

definition call_valid :: "string set \<Rightarrow> ManifestCall \<Rightarrow> bool" where
  "call_valid prefixes call \<longleftrightarrow>
     (\<exists>contract. RouteContract_parse call = Ok contract) \<and>
     (\<exists>prefix verb. mc_route call = prefix @ CHR '':'' # verb \<and> prefix \<in> prefixes \<and>
        CHR '':'' \<notin> set prefix \<union> set verb \<and> verb \<noteq> [])"

definition manifest_valid :: "ProviderManifest \<Rightarrow> bool" where
  "manifest_valid m \<longleftrightarrow>
     pm_version m = 1 \<and> pm_provider m \<noteq> [] \<and> pm_prefixes m \<noteq> [] \<and> pm_calls m \<noteq> [] \<and>
     distinct (pm_prefixes m) \<and> (\<forall>p\<in>set (pm_prefixes m). valid_prefix p) \<and>
     distinct (map mc_route (pm_calls m)) \<and>
     (\<forall>call\<in>set (pm_calls m). call_valid (set (pm_prefixes m)) call)"

lemma check_call_Ok_iff:
  "check_call prefixes call routes = Ok t \<longleftrightarrow>
     call_valid (set prefixes) call \<and> mc_route call \<notin> set routes \<and> t = bset_insert (mc_route call) routes"
proof (cases "\<exists>contract. RouteContract_parse call = Ok contract")
  case True
  then obtain contract where c: "RouteContract_parse call = Ok contract" by blast
  show ?thesis
  proof (cases "split_once (CHR '':'') (mc_route call)")
    case None
    then have "\<not> call_valid (set prefixes) call"
      by (auto simp: call_valid_def split_once_None_iff)
    with None c show ?thesis by (simp add: check_call_def)
  next
    case (Some pv)
    obtain p v where pv: "pv = (p, v)" by (cases pv)
    with Some have route: "mc_route call = p @ CHR '':'' # v" "CHR '':'' \<notin> set p"
      by (simp_all add: split_once_Some_iff)
    have "call_valid (set prefixes) call \<longleftrightarrow> p \<in> set prefixes \<and> CHR '':'' \<notin> set v \<and> v \<noteq> []"
    proof
      assume "call_valid (set prefixes) call"
      then obtain q w where "mc_route call = q @ CHR '':'' # w" "q \<in> set prefixes"
          "CHR '':'' \<notin> set q" "CHR '':'' \<notin> set w" "w \<noteq> []"
        by (auto simp: call_valid_def)
      moreover from this(1,3) have "split_once (CHR '':'') (mc_route call) = Some (q, w)"
        by (simp add: split_once_Some_iff)
      ultimately show "p \<in> set prefixes \<and> CHR '':'' \<notin> set v \<and> v \<noteq> []"
        using Some pv by simp
    qed (use c route in \<open>auto simp: call_valid_def\<close>)
    with Some pv c show ?thesis by (auto simp: check_call_def)
  qed
next
  case False
  then have "\<not> call_valid (set prefixes) call" by (simp add: call_valid_def)
  with False show ?thesis by (cases "RouteContract_parse call") (auto simp: check_call_def)
qed

lemma check_calls_Ok_iff:
  "(\<exists>t. try_fold (check_call prefixes) calls routes = Ok t) \<longleftrightarrow>
     (\<forall>call\<in>set calls. call_valid (set prefixes) call \<and> mc_route call \<notin> set routes) \<and>
     distinct (map mc_route calls)"
proof (induction calls arbitrary: routes)
  case (Cons call calls)
  show ?case
    by (auto simp: and_then_Ok_iff check_call_Ok_iff Cons.IH) (metis image_eqI)
qed simp

lemma length_prefixes_iff: "length (bset_of_list ps) = length ps \<longleftrightarrow> distinct (ps :: string list)"
  by (simp add: length_bset_of_list card_distinct distinct_card eq_commute) (metis card_distinct distinct_card)

lemma validate_manifest_Ok_iff: "validate_manifest m = Ok () \<longleftrightarrow> manifest_valid m"
proof -
  have "validate_manifest m = Ok () \<longleftrightarrow>
      pm_version m = 1 \<and> pm_provider m \<noteq> [] \<and> pm_prefixes m \<noteq> [] \<and> pm_calls m \<noteq> [] \<and>
      distinct (pm_prefixes m) \<and> (\<forall>p\<in>set (pm_prefixes m). valid_prefix p) \<and>
      (\<exists>t. try_fold (check_call (bset_of_list (pm_prefixes m))) (pm_calls m) [] = Ok t)"
    unfolding validate_manifest_def Let_def length_prefixes_iff
    by (simp add: and_then_Ok_iff try_each_Ok_iff ensure_Ok_iff)
  then show ?thesis
    by (auto simp: check_calls_Ok_iff manifest_valid_def)
qed

section \<open>The specification of the kernel's maps\<close>

abbreviation manifest_of :: "Provider \<Rightarrow> ProviderManifest" where
  "manifest_of \<equiv> pv_registration"

definition declares :: "Provider \<Rightarrow> ManifestCall \<Rightarrow> bool" where
  "declares v call \<longleftrightarrow> call \<in> set (pm_calls (manifest_of v))"

definition registry_ok :: "Provider list \<Rightarrow> bool" where
  "registry_ok ps \<longleftrightarrow>
     (\<forall>v\<in>set ps. manifest_valid (manifest_of v)) \<and>
     distinct (map (\<lambda>v. pm_provider (manifest_of v)) ps) \<and>
     (\<forall>v\<in>set ps. \<forall>w\<in>set ps. set (pm_prefixes (manifest_of v)) \<inter> set (pm_prefixes (manifest_of w)) \<noteq> {} \<longrightarrow> v = w)"

definition represents :: "Kernel \<Rightarrow> Provider list \<Rightarrow> bool" where
  "represents k ps \<longleftrightarrow>
     registry_ok ps \<and> bmap_ok (kl_providers k) \<and> bset_ok (kl_routes k) \<and> bmap_ok (kl_contracts k) \<and>
     (\<forall>p v. bmap_get (kl_providers k) p = Some v \<longleftrightarrow> v \<in> set ps \<and> p \<in> set (pm_prefixes (manifest_of v))) \<and>
     set (kl_routes k) = {mc_route call | v call. v \<in> set ps \<and> declares v call} \<and>
     (\<forall>r c. bmap_get (kl_contracts k) r = Some c \<longleftrightarrow>
        (\<exists>v\<in>set ps. \<exists>call. declares v call \<and> mc_route call = r \<and> RouteContract_parse call = Ok c))"

definition accepts :: "Provider list \<Rightarrow> Provider \<Rightarrow> bool" where
  "accepts ps v \<longleftrightarrow>
     manifest_valid (manifest_of v) \<and>
     (\<forall>w\<in>set ps. pm_provider (manifest_of w) \<noteq> pm_provider (manifest_of v) \<and>
        set (pm_prefixes (manifest_of w)) \<inter> set (pm_prefixes (manifest_of v)) = {})"

text \<open>A route determines the prefix it is declared under, so no route is declared twice.\<close>

lemma route_prefix:
  assumes "call_valid P call"
  obtains p verb where "split_once (CHR '':'') (mc_route call) = Some (p, verb)" "p \<in> P"
  using assms by (auto simp: call_valid_def split_once_Some_iff)

lemma declared_prefix:
  assumes "manifest_valid (manifest_of v)" "declares v call"
  obtains p verb where "split_once (CHR '':'') (mc_route call) = Some (p, verb)" "p \<in> set (pm_prefixes (manifest_of v))"
proof -
  have "call_valid (set (pm_prefixes (manifest_of v))) call"
    using assms by (simp add: manifest_valid_def declares_def)
  from route_prefix [OF this] that show ?thesis by blast
qed

lemma route_owner:
  assumes "manifest_valid (manifest_of v)" "manifest_valid (manifest_of w)" "declares v call" "declares w call'"
    "mc_route call = mc_route call'"
  shows "set (pm_prefixes (manifest_of v)) \<inter> set (pm_prefixes (manifest_of w)) \<noteq> {}"
proof -
  obtain p x where "split_once (CHR '':'') (mc_route call) = Some (p, x)" "p \<in> set (pm_prefixes (manifest_of v))"
    by (rule declared_prefix [OF assms(1,3)])
  moreover obtain q y where "split_once (CHR '':'') (mc_route call') = Some (q, y)" "q \<in> set (pm_prefixes (manifest_of w))"
    by (rule declared_prefix [OF assms(2,4)])
  ultimately show ?thesis using assms(5) by auto
qed

lemma one_call_per_route:
  assumes "registry_ok ps" "v \<in> set ps" "w \<in> set ps" "declares v call" "declares w call'" "mc_route call = mc_route call'"
  shows "v = w \<and> call = call'"
proof -
  have valid: "manifest_valid (manifest_of v)" "manifest_valid (manifest_of w)"
    using assms by (simp_all add: registry_ok_def)
  from route_owner [OF this assms(4-6)] assms(1-3) have "v = w"
    unfolding registry_ok_def by blast
  moreover from valid(1) have "inj_on mc_route (set (pm_calls (manifest_of v)))"
    by (simp add: manifest_valid_def distinct_map)
  ultimately show ?thesis
    using assms(4-6) by (auto simp: declares_def dest: inj_onD)
qed

lemma kernel_represents_new: "represents Kernel_new []"
  by (simp add: represents_def Kernel_new_def registry_ok_def)

lemma representsD:
  assumes "represents k ps"
  shows rep_registry: "registry_ok ps"
    and rep_maps: "bmap_ok (kl_providers k)" "bset_ok (kl_routes k)" "bmap_ok (kl_contracts k)"
    and rep_providers: "bmap_get (kl_providers k) p = Some v \<longleftrightarrow> v \<in> set ps \<and> p \<in> set (pm_prefixes (manifest_of v))"
    and rep_routes: "r \<in> set (kl_routes k) \<longleftrightarrow> (\<exists>v\<in>set ps. \<exists>call. declares v call \<and> mc_route call = r)"
    and rep_contracts: "bmap_get (kl_contracts k) r = Some c \<longleftrightarrow>
      (\<exists>v\<in>set ps. \<exists>call. declares v call \<and> mc_route call = r \<and> RouteContract_parse call = Ok c)"
proof -
  note d = assms [unfolded represents_def]
  from d show "registry_ok ps" by (elim conjE)
  from d show "bmap_ok (kl_providers k)" by (elim conjE)
  from d show "bset_ok (kl_routes k)" by (elim conjE)
  from d show "bmap_ok (kl_contracts k)" by (elim conjE)
  from d have "\<forall>p v. bmap_get (kl_providers k) p = Some v \<longleftrightarrow> v \<in> set ps \<and> p \<in> set (pm_prefixes (manifest_of v))"
    by (elim conjE)
  then show "bmap_get (kl_providers k) p = Some v \<longleftrightarrow> v \<in> set ps \<and> p \<in> set (pm_prefixes (manifest_of v))"
    by (elim allE)
  from d have "set (kl_routes k) = {mc_route call | v call. v \<in> set ps \<and> declares v call}"
    by (elim conjE)
  then show "r \<in> set (kl_routes k) \<longleftrightarrow> (\<exists>v\<in>set ps. \<exists>call. declares v call \<and> mc_route call = r)"
    by auto
  from d have "\<forall>r c. bmap_get (kl_contracts k) r = Some c \<longleftrightarrow>
      (\<exists>v\<in>set ps. \<exists>call. declares v call \<and> mc_route call = r \<and> RouteContract_parse call = Ok c)"
    by (elim conjE)
  then show "bmap_get (kl_contracts k) r = Some c \<longleftrightarrow>
      (\<exists>v\<in>set ps. \<exists>call. declares v call \<and> mc_route call = r \<and> RouteContract_parse call = Ok c)"
    by (elim allE)
qed

section \<open>Registration\<close>

lemma map_get_in_dom: "(\<exists>w. map_of m p = Some w) \<longleftrightarrow> p \<in> fst ` set m"
  by (metis map_of_eq_None_iff not_Some_eq)

lemma registered_providers:
  assumes "represents k ps"
  shows "set (bmap_values (kl_providers k)) = set ps"
proof (intro equalityI subsetI)
  fix w assume "w \<in> set (bmap_values (kl_providers k))"
  then obtain p where "(p, w) \<in> set (kl_providers k)" by auto
  then have "bmap_get (kl_providers k) p = Some w"
    by (simp only: bmap_get_iff_mem [OF rep_maps(1) [OF assms]])
  then show "w \<in> set ps" by (simp add: rep_providers [OF assms])
next
  fix w assume w: "w \<in> set ps"
  then have "pm_prefixes (manifest_of w) \<noteq> []"
    using rep_registry [OF assms] by (simp add: registry_ok_def manifest_valid_def)
  then obtain p where "p \<in> set (pm_prefixes (manifest_of w))" by (cases "pm_prefixes (manifest_of w)") auto
  with w have "bmap_get (kl_providers k) p = Some w"
    by (simp add: rep_providers [OF assms])
  then show "w \<in> set (bmap_values (kl_providers k))"
    by (auto dest!: map_of_SomeD intro: rev_image_eqI)
qed

lemma prefix_taken_iff:
  assumes "represents k ps"
  shows "bmap_contains (kl_providers k) p \<longleftrightarrow> (\<exists>w\<in>set ps. p \<in> set (pm_prefixes (manifest_of w)))"
  using rep_providers [OF assms, of p] map_get_in_dom [of "kl_providers k" p] by (simp add: Bex_def)

lemma accepted_routes_free:
  assumes "represents k ps" "accepts ps v" "declares v call"
  shows "mc_route call \<notin> set (kl_routes k)"
proof
  assume "mc_route call \<in> set (kl_routes k)"
  then obtain w call' where w: "w \<in> set ps" "declares w call'" "mc_route call' = mc_route call"
    by (auto simp: rep_routes [OF assms(1)])
  with rep_registry [OF assms(1)] assms(2) have "manifest_valid (manifest_of w)" "manifest_valid (manifest_of v)"
    by (simp_all add: registry_ok_def accepts_def)
  from route_owner [OF this w(2) assms(3) w(3)] assms(2) w(1) show False
    by (simp add: accepts_def)
qed

lemma call_contracts_Ok:
  assumes "manifest_valid m"
  obtains cs where "try_map call_contract (pm_calls m) = Ok cs"
    and "map fst cs = map mc_route (pm_calls m)"
    and "\<And>r c. (r, c) \<in> set cs \<longleftrightarrow> (\<exists>call\<in>set (pm_calls m). mc_route call = r \<and> RouteContract_parse call = Ok c)"
proof -
  define g where "g call = (THE c. RouteContract_parse call = Ok c)" for call
  let ?c = "\<lambda>call. (mc_route call, g call)"
  let ?cs = "map ?c (pm_calls m)"
  have parse: "RouteContract_parse call = Ok (snd (?c call))" if "call \<in> set (pm_calls m)" for call
    using assms that by (auto simp: manifest_valid_def call_valid_def g_def)
  then have "call_contract call = Ok (?c call)" if "call \<in> set (pm_calls m)" for call
    using that by (simp add: call_contract_def)
  then have "list_all2 (\<lambda>x y. call_contract x = Ok (?c y)) (pm_calls m) (pm_calls m)"
    by (intro list.rel_refl_strong)
  then have "try_map call_contract (pm_calls m) = Ok ?cs"
    by (simp add: try_map_Ok_iff list_all2_map2)
  moreover have "map fst ?cs = map mc_route (pm_calls m)" by simp
  moreover have "(r, c) \<in> set ?cs \<longleftrightarrow> (\<exists>call\<in>set (pm_calls m). mc_route call = r \<and> RouteContract_parse call = Ok c)" for r c
    using parse by fastforce
  ultimately show ?thesis by (rule that)
qed

lemma fold_bmap_insert_same:
  "bmap_ok m \<Longrightarrow> bmap_ok (fold (\<lambda>p m. bmap_insert p v m) ps m) \<and>
     bmap_get (fold (\<lambda>p m. bmap_insert p v m) ps m) q = (if q \<in> set ps then Some v else bmap_get m q)"
  by (induction ps arbitrary: m) auto

lemma fold_bset_insert_map:
  "bset_ok s \<Longrightarrow> bset_ok (fold (\<lambda>c s. bset_insert (f c) s) cs s) \<and>
     set (fold (\<lambda>c s. bset_insert (f c) s) cs s) = f ` set cs \<union> set s"
  by (induction cs arbitrary: s) auto

lemma register_Ok_iff:
  assumes "represents k ps"
  shows "register v k = Ok k' \<longleftrightarrow> accepts ps v \<and>
    (\<exists>cs. try_map call_contract (pm_calls (manifest_of v)) = Ok cs \<and>
      k' = \<lparr>kl_providers = fold (\<lambda>p m. bmap_insert p v m) (pm_prefixes (manifest_of v)) (kl_providers k),
            kl_routes = fold (\<lambda>call s. bset_insert (mc_route call) s) (pm_calls (manifest_of v)) (kl_routes k),
            kl_contracts = fold (\<lambda>(route, contract) m. bmap_insert route contract m) cs (kl_contracts k)\<rparr>)"
    (is "_ \<longleftrightarrow> _ \<and> ?built")
proof -
  let ?m = "manifest_of v"
  have "register v k = Ok k' \<longleftrightarrow>
      manifest_valid ?m \<and> \<not> (\<exists>w\<in>set ps. pm_provider (manifest_of w) = pm_provider ?m) \<and>
      (\<forall>p\<in>set (pm_prefixes ?m). \<not> bmap_contains (kl_providers k) p) \<and>
      (\<forall>call\<in>set (pm_calls ?m). mc_route call \<notin> set (kl_routes k)) \<and> ?built"
    unfolding register_def Let_def validate_manifest_Ok_iff [symmetric] registered_providers [OF assms, symmetric]
    by (simp add: and_then_Ok_iff try_each_Ok_iff ensure_Ok_iff list_ex_iff eq_commute [of k']
        del: bmap_contains_iff)
  moreover have "(\<forall>p\<in>set (pm_prefixes ?m). \<not> bmap_contains (kl_providers k) p) \<longleftrightarrow>
      (\<forall>w\<in>set ps. set (pm_prefixes (manifest_of w)) \<inter> set (pm_prefixes ?m) = {})"
    using prefix_taken_iff [OF assms] by blast
  moreover have "\<forall>call\<in>set (pm_calls ?m). mc_route call \<notin> set (kl_routes k)" if "accepts ps v"
    using accepted_routes_free [OF assms that] by (simp add: declares_def)
  ultimately show ?thesis unfolding accepts_def by blast
qed

lemma register_accepts_iff:
  assumes "represents k ps"
  shows "(\<exists>k'. register v k = Ok k') \<longleftrightarrow> accepts ps v"
proof
  assume acc: "accepts ps v"
  then have "manifest_valid (manifest_of v)" by (simp add: accepts_def)
  then obtain cs where "try_map call_contract (pm_calls (manifest_of v)) = Ok cs"
    by (rule call_contracts_Ok)
  with acc show "\<exists>k'. register v k = Ok k'" unfolding register_Ok_iff [OF assms] by blast
qed (auto simp: register_Ok_iff [OF assms])

lemma contracts_extend:
  assumes "represents k ps" "accepts ps v"
    and cs: "map fst cs = map mc_route (pm_calls (manifest_of v))"
      "\<And>r c. (r, c) \<in> set cs \<longleftrightarrow> (\<exists>call\<in>set (pm_calls (manifest_of v)). mc_route call = r \<and> RouteContract_parse call = Ok c)"
  shows "bmap_get (fold (\<lambda>(route, contract) m. bmap_insert route contract m) cs (kl_contracts k)) r = Some c \<longleftrightarrow>
    (r, c) \<in> set cs \<or> bmap_get (kl_contracts k) r = Some c"
proof -
  have "distinct (map fst cs)"
    using assms(2) unfolding cs(1) by (simp add: accepts_def manifest_valid_def)
  then have new: "map_of (rev cs) r = Some d \<longleftrightarrow> (r, d) \<in> set cs" for d
    by (simp add: map_of_rev_distinct)
  have old: "bmap_get (kl_contracts k) r = None" if "(r, d) \<in> set cs" for d
  proof (rule ccontr)
    assume "bmap_get (kl_contracts k) r \<noteq> None"
    then obtain e where "bmap_get (kl_contracts k) r = Some e" by blast
    then have "r \<in> set (kl_routes k)"
      unfolding rep_contracts [OF assms(1)] rep_routes [OF assms(1)] by blast
    moreover from that obtain call where "declares v call" "mc_route call = r"
      unfolding cs(2) declares_def by blast
    ultimately show False using accepted_routes_free [OF assms(1,2)] by blast
  qed
  have get: "bmap_get (fold (\<lambda>(route, contract) m. bmap_insert route contract m) cs (kl_contracts k)) r =
      (case map_of (rev cs) r of Some c \<Rightarrow> Some c | None \<Rightarrow> bmap_get (kl_contracts k) r)"
    by (rule btree_map.get_insert_all [OF rep_maps(3) [OF assms(1)]])
  show ?thesis
  proof (cases "map_of (rev cs) r")
    case None
    then have "(r, d) \<notin> set cs" for d using new by simp
    with get None show ?thesis by simp
  next
    case (Some d)
    then have "(r, d) \<in> set cs" by (simp add: new)
    from old [OF this] get Some new [of c] show ?thesis by auto
  qed
qed

lemma register_represents:
  assumes "represents k ps" "register v k = Ok k'"
  shows "represents k' (v # ps)"
proof -
  let ?m = "manifest_of v"
  from assms(2) have acc: "accepts ps v" by (simp add: register_Ok_iff [OF assms(1)])
  then have "manifest_valid ?m" by (simp add: accepts_def)
  then obtain cs where cs: "try_map call_contract (pm_calls ?m) = Ok cs" "map fst cs = map mc_route (pm_calls ?m)"
    "\<And>r c. (r, c) \<in> set cs \<longleftrightarrow> (\<exists>call\<in>set (pm_calls ?m). mc_route call = r \<and> RouteContract_parse call = Ok c)"
    by (rule call_contracts_Ok) (rule that)
  have k': "kl_providers k' = fold (\<lambda>p m. bmap_insert p v m) (pm_prefixes ?m) (kl_providers k)"
    "kl_routes k' = fold (\<lambda>call s. bset_insert (mc_route call) s) (pm_calls ?m) (kl_routes k)"
    "kl_contracts k' = fold (\<lambda>(route, contract) m. bmap_insert route contract m) cs (kl_contracts k)"
    using assms(2) cs(1) by (simp_all add: register_Ok_iff [OF assms(1)])
  note prov = fold_bmap_insert_same [OF rep_maps(1) [OF assms(1)], of v "pm_prefixes ?m"]
  note routes = fold_bset_insert_map [OF rep_maps(2) [OF assms(1)], of mc_route "pm_calls ?m"]
  have free: "p \<notin> set (pm_prefixes (manifest_of w))" if "w \<in> set ps" "p \<in> set (pm_prefixes ?m)" for p w
    using acc that unfolding accepts_def by blast
  have "registry_ok (v # ps)"
    using rep_registry [OF assms(1)] acc unfolding registry_ok_def accepts_def by auto
  moreover have "bmap_ok (kl_providers k')" "bset_ok (kl_routes k')"
    unfolding k' by (simp_all only: prov routes)
  moreover have "bmap_ok (kl_contracts k')"
    unfolding k' by (rule btree_map.invar_insert_all [OF rep_maps(3) [OF assms(1)]])
  moreover have "\<forall>p w. bmap_get (kl_providers k') p = Some w \<longleftrightarrow>
      w \<in> set (v # ps) \<and> p \<in> set (pm_prefixes (manifest_of w))"
    using free by (auto simp: k' prov rep_providers [OF assms(1)])
  moreover have "set (kl_routes k') = {mc_route call | w call. w \<in> set (v # ps) \<and> declares w call}"
  proof -
    have "set (kl_routes k) = {mc_route call | w call. w \<in> set ps \<and> declares w call}"
      by (rule set_eqI) (auto simp: rep_routes [OF assms(1)])
    then show ?thesis
      unfolding k' conjunct2 [OF routes] by (auto simp: declares_def)
  qed
  moreover have "\<forall>r c. bmap_get (kl_contracts k') r = Some c \<longleftrightarrow>
      (\<exists>w\<in>set (v # ps). \<exists>call. declares w call \<and> mc_route call = r \<and> RouteContract_parse call = Ok c)"
    unfolding k' contracts_extend [OF assms(1) acc cs(2,3)] rep_contracts [OF assms(1)] cs(3) declares_def
      list.set bex_simps by blast
  ultimately show ?thesis
    unfolding represents_def by (intro conjI)
qed

section \<open>Kernels built by registration\<close>

inductive kernel_built :: "Kernel \<Rightarrow> Provider list \<Rightarrow> bool" where
  built_new: "kernel_built Kernel_new []"
| built_register: "kernel_built k ps \<Longrightarrow> register v k = Ok k' \<Longrightarrow> kernel_built k' (v # ps)"

lemma built_represents: "kernel_built k ps \<Longrightarrow> represents k ps"
  by (induction rule: kernel_built.induct) (auto intro: kernel_represents_new register_represents)

section \<open>Dispatch\<close>

text \<open>What dispatch does once the route is found.\<close>

definition call_provider :: "Provider \<Rightarrow> RouteContract \<Rightarrow> RequestFrame \<Rightarrow> DispatchContext \<Rightarrow> (ProviderReply, KernelError) result" where
  "call_provider v c request ctx =
     and_then (validate_request_contract (rq_route request) request (rc_opener c)) (\<lambda>_.
     and_then (catch_provider (pv_dispatch v request (after_read ctx))) (\<lambda>reply.
     and_then (validate_reply_contract (rq_route request) reply (rc_result c)) (\<lambda>_. Ok reply)))"

lemma dispatch_declared:
  assumes "represents k ps" "v \<in> set ps" "declares v call" "mc_route call = rq_route request"
    and "dc_cancellation ctx 0 = Some False"
  shows "\<exists>c. RouteContract_parse call = Ok c \<and> dispatch k request ctx = call_provider v c request ctx"
proof -
  have mv: "manifest_valid (manifest_of v)"
    using assms by (simp add: represents_def registry_ok_def)
  then obtain c where c: "RouteContract_parse call = Ok c"
    using assms(3) by (auto simp: manifest_valid_def declares_def call_valid_def)
  obtain p verb where p: "split_once (CHR '':'') (mc_route call) = Some (p, verb)" "p \<in> set (pm_prefixes (manifest_of v))"
    by (rule declared_prefix [OF mv assms(3)])
  have "bmap_get (kl_providers k) p = Some v"
    using p assms(2) by (simp add: rep_providers [OF assms(1)])
  moreover have "rq_route request \<in> set (kl_routes k)"
    using assms(2-4) by (auto simp: rep_routes [OF assms(1)])
  moreover have "bmap_get (kl_contracts k) (rq_route request) = Some c"
    using assms(2-4) c by (auto simp: rep_contracts [OF assms(1)])
  ultimately show ?thesis
    using p c assms(4,5)
    by (simp add: dispatch_def try_is_cancelled_def ok_or_def call_provider_def)
qed

lemma dispatch_undeclared:
  assumes "represents k ps" "\<forall>v\<in>set ps. \<forall>call. declares v call \<longrightarrow> mc_route call \<noteq> rq_route request"
    and "dc_cancellation ctx 0 = Some False"
  shows "\<exists>m. dispatch k request ctx = Err (ke_no_route m)"
proof -
  have "rq_route request \<notin> set (kl_routes k)"
    using assms(2) by (auto simp: rep_routes [OF assms(1)])
  with assms(3) show ?thesis
    by (auto simp: dispatch_def try_is_cancelled_def ok_or_def split: option.split)
qed

lemma dispatch_stopped:
  "dc_cancellation ctx 0 = Some True \<Longrightarrow> dispatch k request ctx = Err ke_cancelled"
  "dc_cancellation ctx 0 = None \<Longrightarrow> dispatch k request ctx = Err (ke_internal ''cancellation probe panicked'')"
  by (simp_all add: dispatch_def try_is_cancelled_def ok_or_def)

lemma call_provider_Ok_iff:
  "call_provider v c request ctx = Ok reply \<longleftrightarrow>
     opener_matches (rc_opener c) (rq_opener request) \<and>
     pv_dispatch v request (after_read ctx) = Some (Ok reply) \<and>
     reply_matches (rc_result c) (pr_contents reply)"
  by (auto simp: call_provider_def and_then_Ok_iff validate_request_contract_def validate_reply_contract_def
      ensure_Ok_iff catch_provider_def split: option.splits)

text \<open>On a request that is not cancelled, dispatch is decided by who declares its route.\<close>

lemma dispatch_by_route:
  assumes "represents k ps" "dc_cancellation ctx 0 = Some False"
  shows "if \<exists>v\<in>set ps. \<exists>call. declares v call \<and> mc_route call = rq_route request
    then \<exists>!v. v \<in> set ps \<and> (\<exists>call c. declares v call \<and> mc_route call = rq_route request \<and>
           RouteContract_parse call = Ok c \<and> dispatch k request ctx = call_provider v c request ctx)
    else \<exists>m. dispatch k request ctx = Err (ke_no_route m)"
proof (cases "\<exists>v\<in>set ps. \<exists>call. declares v call \<and> mc_route call = rq_route request")
  case True
  then obtain v call where v: "v \<in> set ps" "declares v call" "mc_route call = rq_route request" by blast
  have one: "w = v" if "w \<in> set ps" "declares w call'" "mc_route call' = rq_route request" for w call'
    using one_call_per_route [OF rep_registry [OF assms(1)] that(1) v(1) that(2) v(2)] that(3) v(3) by simp
  obtain c where "RouteContract_parse call = Ok c" "dispatch k request ctx = call_provider v c request ctx"
    using dispatch_declared [OF assms(1) v assms(2)] by blast
  with v one have "\<exists>!v. v \<in> set ps \<and> (\<exists>call c. declares v call \<and> mc_route call = rq_route request \<and>
           RouteContract_parse call = Ok c \<and> dispatch k request ctx = call_provider v c request ctx)"
    by (intro ex1I [of _ v]) blast+
  with True show ?thesis by simp
next
  case False
  with dispatch_undeclared [OF assms(1) _ assms(2)] show ?thesis by auto
qed

lemma dispatch_Ok_typed:
  assumes "represents k ps" "dispatch k request ctx = Ok reply"
  shows "\<exists>v\<in>set ps. \<exists>call c. declares v call \<and> mc_route call = rq_route request \<and> RouteContract_parse call = Ok c \<and>
    opener_matches (rc_opener c) (rq_opener request) \<and> reply_matches (rc_result c) (pr_contents reply)"
proof -
  have running: "dc_cancellation ctx 0 = Some False"
  proof (cases "dc_cancellation ctx 0")
    case (Some b)
    with assms(2) show ?thesis by (cases b) (simp_all add: dispatch_stopped)
  qed (use assms(2) in \<open>simp add: dispatch_stopped\<close>)
  show ?thesis
  proof (cases "\<exists>v\<in>set ps. \<exists>call. declares v call \<and> mc_route call = rq_route request")
    case True
    then obtain v call where v: "v \<in> set ps" "declares v call" "mc_route call = rq_route request" by blast
    then obtain c where "RouteContract_parse call = Ok c" "dispatch k request ctx = call_provider v c request ctx"
      using dispatch_declared [OF assms(1) v running] by blast
    with v assms(2) show ?thesis by (auto simp: call_provider_Ok_iff)
  next
    case False
    with dispatch_undeclared [OF assms(1) _ running, of request] assms(2) show ?thesis by auto
  qed
qed

section \<open>The manifest of the kernel\<close>

lemma distinct_map_sort_key: "distinct (map f (sort_key g xs)) \<longleftrightarrow> distinct (map f xs)"
  by (simp add: distinct_map)

lemma kernel_manifest_eq:
  assumes "represents k ps"
  shows "km_providers (kernel_manifest k) = sort_key pm_provider (map manifest_of ps)"
proof -
  let ?ms = "map manifest_of (bmap_values (kl_providers k))"
  have reg: "distinct (map pm_provider (map manifest_of ps))"
    using rep_registry [OF assms] by (simp add: registry_ok_def comp_def)
  have src: "set ?ms = set (map manifest_of ps)"
    using registered_providers [OF assms] by (metis set_map)
  have inj: "inj_on pm_provider (set ?ms)"
    using reg unfolding src by (simp only: distinct_map)
  have d: "sorted_wrt (<) (map pm_provider (dedup_by_key pm_provider (sort_key pm_provider ?ms)))"
    "pm_provider ` set (dedup_by_key pm_provider (sort_key pm_provider ?ms)) = pm_provider ` set ?ms"
    using dedup_by_key_strict [of pm_provider "sort_key pm_provider ?ms"] by simp_all
  have "set (dedup_by_key pm_provider (sort_key pm_provider ?ms)) \<subseteq> set ?ms"
    using dedup_by_key_subset [of pm_provider "sort_key pm_provider ?ms"] by simp
  with inj d(2) have "set (dedup_by_key pm_provider (sort_key pm_provider ?ms)) = set ?ms"
    by (metis inj_on_image_eq_iff order_refl)
  moreover have "sorted_wrt (<) (map pm_provider (sort_key pm_provider (map manifest_of ps)))"
    using reg by (simp only: strict_sorted_iff sorted_sort_key distinct_map set_sort distinct_sort simp_thms)
  ultimately show ?thesis
    using d(1) src sorted_key_unique [of pm_provider "dedup_by_key pm_provider (sort_key pm_provider ?ms)"
        "sort_key pm_provider (map manifest_of ps)"]
    by (simp add: kernel_manifest_def Let_def)
qed

end
