(* ===== verification/Native_Host.thy ===== *)
theory Native_Host
  imports Kernel_Registry "HOL-Library.Multiset"
begin

text \<open>
  The bounded worker pool of \<open>crates/host-native/src/lib.rs\<close>: requests enter a bounded channel,
  worker threads take them, dispatch them on the routing kernel and answer on the request's
  response channel; shutdown closes the channel, cancels what runs and joins the workers.

  The threads are interleaved by the step relation \<open>native_step\<close>: a step is one atomic access to
  shared state (an atomic flag, a critical section of one mutex, one channel operation). A
  critical section that spans several accesses (\<open>begin_shutdown\<close> under the queue lock) is several
  steps with a program counter of its own. The channel, the response sender and the cancellation
  token belong to the standard library and the language runtime: the channel is modelled by its
  documented behaviour (a bounded buffer that outlives its sender; capacity zero hands over to a
  waiting receiver), a token is a number that may be cancelled at any time by anyone, and the
  results of sending are arbitrary.
\<close>

section \<open>Jobs and answers\<close>

definition DEFAULT_WORKERS :: nat where
  "DEFAULT_WORKERS = 16"

definition DEFAULT_QUEUE_CAPACITY :: nat where
  "DEFAULT_QUEUE_CAPACITY = 256"

record SermoRequest =
  sq_conversation_id :: string
  sq_route :: string
  sq_opener :: Valor
  sq_target :: "string option"

record DispatchError =
  de_issue :: string
  de_message :: string

record NativeJob =
  nj_id :: u64
  nj_request :: SermoRequest
  nj_token :: nat

datatype ResponseFrame =
    FrItem Valor
  | FrByte "u8 list"
  | FrBulk Valor
  | FrDone
  | FrCancel
  | FrError Valor

definition frame_terminal :: "ResponseFrame \<Rightarrow> bool" where
  "frame_terminal f = (case f of FrDone \<Rightarrow> True | FrCancel \<Rightarrow> True | FrError _ \<Rightarrow> True | _ \<Rightarrow> False)"

definition content_frame :: "ProviderContent \<Rightarrow> ResponseFrame" where
  "content_frame c = (case c of Item data \<Rightarrow> FrItem data | Byte bytes \<Rightarrow> FrByte bytes | Bulk data \<Rightarrow> FrBulk data)"

text \<open>
  The frames a job offers to its response channel. \<open>cancels n\<close> is the answer of the \<open>n\<close>-th read of
  the token by the loop and \<open>accepted n\<close> whether the \<open>n\<close>-th content frame was accepted.
\<close>

fun send_reply :: "ProviderContent list \<Rightarrow> (nat \<Rightarrow> bool) \<Rightarrow> (nat \<Rightarrow> bool) \<Rightarrow> ResponseFrame list" where
  "send_reply [] cancels accepted = (if cancels 0 then [FrCancel] else [FrDone])"
| "send_reply (content # contents) cancels accepted =
     (if cancels 0 then [FrCancel]
      else content_frame content #
        (if accepted 0 then send_reply contents (\<lambda>n. cancels (Suc n)) (\<lambda>n. accepted (Suc n)) else []))"

definition send_error :: "string \<Rightarrow> string \<Rightarrow> ResponseFrame list" where
  "send_error code message =
     [FrError (Tabula
       (bmap_insert ''retryable'' (Bivalens False)
         (bmap_insert ''message'' (Textus message) (bmap_insert ''code'' (Textus code) []))))]"

definition send_host_error :: "KernelError \<Rightarrow> ResponseFrame list" where
  "send_host_error e = (if ke_code e = ''E_CANCELLED'' then [FrCancel] else [FrError (ke_to_valor e)])"

definition request_of :: "NativeJob \<Rightarrow> RequestFrame" where
  "request_of job =
     \<lparr>rq_conversation_id = sq_conversation_id (nj_request job), rq_route = sq_route (nj_request job),
      rq_opener = sq_opener (nj_request job), rq_target = sq_target (nj_request job)\<rparr>"

text \<open>
  One job: \<open>first\<close> is the read of the token before anything else, \<open>probe\<close> the reads of the dispatch.
  The kernel catches the panics of a provider, so the outer \<open>catch_unwind\<close> finds none.
\<close>

definition run_job ::
    "Kernel \<Rightarrow> NativeJob \<Rightarrow> bool \<Rightarrow> CancellationProbe \<Rightarrow> (nat \<Rightarrow> bool) \<Rightarrow> (nat \<Rightarrow> bool) \<Rightarrow> ResponseFrame list" where
  "run_job k job first probe cancels accepted =
     (if first then [FrCancel]
      else case dispatch k (request_of job) \<lparr>dc_cancellation = probe\<rparr> of
        Ok reply \<Rightarrow> send_reply (pr_contents reply) cancels accepted
      | Err e \<Rightarrow> send_host_error e)"

section \<open>The shared state\<close>

datatype Worker =
    WIdle
  | WRecv
  | WGot NativeJob
  | WRegister NativeJob
  | WReject NativeJob
  | WRun NativeJob
  | WUnregister NativeJob
  | WExit

text \<open>The progress of the one \<open>begin_shutdown\<close> that finds the flag unset.\<close>

datatype Shutdown = ShNone | ShFlagged | ShTaken | ShDone

record NativeState =
  ns_kernel :: Kernel
  ns_capacity :: nat
  ns_buffer :: "NativeJob list"
  ns_shutdown :: Shutdown
  ns_handles :: nat
  ns_next_job_id :: u64
  ns_active :: "(u64, nat) bmap"
  ns_workers :: "Worker list"
  ns_cancelled :: "nat set"
  ns_pending :: "NativeJob list"
  \<comment> \<open>history: jobs given an id, jobs the queue accepted, jobs answered with their frames\<close>
  ns_started :: nat
  ns_accepted :: "NativeJob list"
  ns_answered :: "(NativeJob \<times> ResponseFrame list) list"

definition shutting_down :: "NativeState \<Rightarrow> bool" where
  "shutting_down st \<longleftrightarrow> ns_shutdown st \<noteq> ShNone"

definition queue_open :: "NativeState \<Rightarrow> bool" where
  "queue_open st \<longleftrightarrow> ns_shutdown st = ShNone \<or> ns_shutdown st = ShFlagged"

definition host_shutting_down :: DispatchError where
  "host_shutting_down = \<lparr>de_issue = ''host_shutting_down'', de_message = ''native host is shutting down''\<rparr>"

definition host_queue_saturated :: DispatchError where
  "host_queue_saturated =
     \<lparr>de_issue = ''host_queue_saturated'', de_message = ''native host worker queue is saturated''\<rparr>"

definition host_unsupported_route :: "string \<Rightarrow> DispatchError" where
  "host_unsupported_route route =
     \<lparr>de_issue = ''host_unsupported_route'',
      de_message = ''unsupported native host route `'' @ route @ ''`''\<rparr>"

section \<open>Construction\<close>

record NativeHostConstructionError =
  ce_issue :: string
  ce_message :: string

definition initial_state :: "Kernel \<Rightarrow> nat \<Rightarrow> nat \<Rightarrow> NativeState" where
  "initial_state k workers capacity =
     \<lparr>ns_kernel = k, ns_capacity = capacity, ns_buffer = [], ns_shutdown = ShNone, ns_handles = 1,
      ns_next_job_id = 0, ns_active = [], ns_workers = replicate workers WIdle, ns_cancelled = {},
      ns_pending = [], ns_started = 0, ns_accepted = [], ns_answered = []\<rparr>"

text \<open>\<open>spawn i\<close> is the error of spawning worker \<open>i\<close>, if it fails; the workers spawned before are
  joined before the error is returned, so nothing of the state survives it.\<close>

definition build_with_worker_spawner ::
    "Kernel \<Rightarrow> nat \<Rightarrow> nat \<Rightarrow> (nat \<Rightarrow> string option) \<Rightarrow> (NativeState, NativeHostConstructionError) result" where
  "build_with_worker_spawner k workers capacity spawn =
     (if workers = 0 then
        Err \<lparr>ce_issue = ''native_host_zero_workers'',
             ce_message = ''native host requires at least one worker''\<rparr>
      else case first_some spawn [0..<workers] of
        Some error \<Rightarrow>
          Err \<lparr>ce_issue = ''native_host_worker_spawn_failed'',
               ce_message = ''spawn native host worker: '' @ error\<rparr>
      | None \<Rightarrow> Ok (initial_state k workers capacity))"

definition try_new :: "Kernel \<Rightarrow> (nat \<Rightarrow> string option) \<Rightarrow> (NativeState, NativeHostConstructionError) result" where
  "try_new k spawn = build_with_worker_spawner k DEFAULT_WORKERS DEFAULT_QUEUE_CAPACITY spawn"

section \<open>Calls of the host\<close>

text \<open>\<open>start\<close> up to the allocation of the id; \<open>enqueue_job\<close> follows as a step of its own.\<close>

definition start_request ::
    "SermoRequest \<Rightarrow> nat \<Rightarrow> NativeState \<Rightarrow> (NativeJob, DispatchError) result \<times> NativeState" where
  "start_request request token st =
     (if \<not> supports_route (ns_kernel st) (sq_route request) then
        (Err (host_unsupported_route (sq_route request)), st)
      else
        let job = \<lparr>nj_id = ns_next_job_id st, nj_request = request, nj_token = token\<rparr>
        in (Ok job, st\<lparr>ns_next_job_id := ns_next_job_id st + 1, ns_started := Suc (ns_started st),
                      ns_pending := job # ns_pending st\<rparr>))"

text \<open>\<open>try_send\<close>: a free place in the buffer, or for capacity zero a receiver that waits.\<close>

definition waiting_receiver :: "NativeState \<Rightarrow> nat option" where
  "waiting_receiver st = List.find (\<lambda>w. ns_workers st ! w = WRecv) [0..<length (ns_workers st)]"

definition try_send :: "NativeJob \<Rightarrow> NativeState \<Rightarrow> NativeState option" where
  "try_send job st =
     (if length (ns_buffer st) < ns_capacity st then Some (st\<lparr>ns_buffer := ns_buffer st @ [job]\<rparr>)
      else if ns_capacity st = 0 then
        (case waiting_receiver st of
           Some w \<Rightarrow> Some (st\<lparr>ns_workers := (ns_workers st)[w := WGot job]\<rparr>)
         | None \<Rightarrow> None)
      else None)"

definition enqueue_job :: "NativeJob \<Rightarrow> NativeState \<Rightarrow> (unit, DispatchError) result \<times> NativeState" where
  "enqueue_job job st =
     (let st = st\<lparr>ns_pending := remove1 job (ns_pending st)\<rparr> in
      if shutting_down st then (Err host_shutting_down, st)
      else if \<not> queue_open st then (Err host_shutting_down, st)
      else case try_send job st of
        Some st \<Rightarrow> (Ok (), st\<lparr>ns_accepted := job # ns_accepted st\<rparr>)
      | None \<Rightarrow> (Err host_queue_saturated, st))"

definition clone_handle :: "NativeState \<Rightarrow> NativeState" where
  "clone_handle st = st\<lparr>ns_handles := Suc (ns_handles st)\<rparr>"

text \<open>The three accesses of \<open>begin_shutdown\<close>: the swap of the flag and the removal of the sender under
  the queue lock, then the cancellation of the active jobs under theirs. A caller that finds the
  flag set does nothing.\<close>

definition shutdown_swap :: "NativeState \<Rightarrow> NativeState" where
  "shutdown_swap st = (if shutting_down st then st else st\<lparr>ns_shutdown := ShFlagged\<rparr>)"

definition shutdown_take :: "NativeState \<Rightarrow> NativeState" where
  "shutdown_take st = st\<lparr>ns_shutdown := ShTaken\<rparr>"

definition shutdown_cancel :: "NativeState \<Rightarrow> NativeState" where
  "shutdown_cancel st =
     st\<lparr>ns_shutdown := ShDone, ns_cancelled := ns_cancelled st \<union> set (bmap_values (ns_active st))\<rparr>"

definition drop_handle :: "NativeState \<Rightarrow> NativeState" where
  "drop_handle st =
     (let last = (ns_handles st = 1); st = st\<lparr>ns_handles := ns_handles st - 1\<rparr>
      in if last then shutdown_swap st else st)"

section \<open>The worker loop\<close>

definition set_worker :: "nat \<Rightarrow> Worker \<Rightarrow> NativeState \<Rightarrow> NativeState" where
  "set_worker w pc st = st\<lparr>ns_workers := (ns_workers st)[w := pc]\<rparr>"

definition register_active_job :: "NativeJob \<Rightarrow> NativeState \<Rightarrow> bool \<times> NativeState" where
  "register_active_job job st =
     (if shutting_down st then (False, st)
      else (True, st\<lparr>ns_active := bmap_insert (nj_id job) (nj_token job) (ns_active st)\<rparr>))"

definition unregister_active_job :: "u64 \<Rightarrow> NativeState \<Rightarrow> NativeState" where
  "unregister_active_job i st = st\<lparr>ns_active := bmap_remove i (ns_active st)\<rparr>"

definition answer :: "NativeJob \<Rightarrow> ResponseFrame list \<Rightarrow> NativeState \<Rightarrow> NativeState" where
  "answer job frames st = st\<lparr>ns_answered := (job, frames) # ns_answered st\<rparr>"

text \<open>One access of worker \<open>w\<close>; \<^const>\<open>None\<close> when it has to wait. The reads of the token and the
  results of sending are inputs.\<close>

definition worker_step ::
    "bool \<Rightarrow> CancellationProbe \<Rightarrow> (nat \<Rightarrow> bool) \<Rightarrow> (nat \<Rightarrow> bool) \<Rightarrow> nat \<Rightarrow> NativeState \<Rightarrow> NativeState option" where
  "worker_step first probe cancels accepted w st =
     (case ns_workers st ! w of
        WIdle \<Rightarrow>
          if list_ex (\<lambda>pc. pc = WRecv) (ns_workers st) then None else Some (set_worker w WRecv st)
      | WRecv \<Rightarrow>
          (case ns_buffer st of
             job # rest \<Rightarrow> Some (set_worker w (WGot job) (st\<lparr>ns_buffer := rest\<rparr>))
           | [] \<Rightarrow> if queue_open st then None else Some (set_worker w WExit st))
      | WGot job \<Rightarrow>
          Some (if shutting_down st then set_worker w (WReject job) st
                else set_worker w (WRegister job) st)
      | WRegister job \<Rightarrow>
          (case register_active_job job st of
             (True, st) \<Rightarrow> Some (set_worker w (WRun job) st)
           | (False, st) \<Rightarrow> Some (set_worker w (WReject job) st))
      | WReject job \<Rightarrow>
          Some (set_worker w WIdle
            (answer job (send_error ''host_shutting_down'' ''native host is shutting down'') st))
      | WRun job \<Rightarrow>
          Some (set_worker w (WUnregister job)
            (answer job (run_job (ns_kernel st) job first probe cancels accepted) st))
      | WUnregister job \<Rightarrow> Some (set_worker w WIdle (unregister_active_job (nj_id job) st))
      | WExit \<Rightarrow> None)"

inductive native_step :: "NativeState \<Rightarrow> NativeState \<Rightarrow> bool" where
  step_start: "start_request request token st = (r, st') \<Longrightarrow> native_step st st'"
| step_enqueue: "job \<in> set (ns_pending st) \<Longrightarrow> ns_shutdown st \<noteq> ShFlagged \<Longrightarrow>
    enqueue_job job st = (r, st') \<Longrightarrow> native_step st st'"
| step_clone: "0 < ns_handles st \<Longrightarrow> native_step st (clone_handle st)"
| step_drop: "0 < ns_handles st \<Longrightarrow> native_step st (drop_handle st)"
| step_shutdown: "native_step st (shutdown_swap st)"
| step_take: "ns_shutdown st = ShFlagged \<Longrightarrow> native_step st (shutdown_take st)"
| step_cancel_active: "ns_shutdown st = ShTaken \<Longrightarrow> native_step st (shutdown_cancel st)"
| step_cancel: "native_step st (st\<lparr>ns_cancelled := insert token (ns_cancelled st)\<rparr>)"
| step_worker: "w < length (ns_workers st) \<Longrightarrow>
    worker_step first probe cancels accepted w st = Some st' \<Longrightarrow> native_step st st'"

inductive native_reach :: "NativeState \<Rightarrow> NativeState \<Rightarrow> bool" for s0 where
  reach_refl: "native_reach s0 s0"
| reach_next: "native_reach s0 st \<Longrightarrow> native_step st st' \<Longrightarrow> native_reach s0 st'"

end
