(* ===== verification/Native_Safety.thy ===== *)
theory Native_Safety
  imports Native_Host
begin

text \<open>
  Safety and liveness of the worker pool: an invariant of every reachable state (each accepted job
  is in the buffer, held by one worker or answered, and in one place only; the table of active
  jobs holds exactly the jobs that run; once shutdown is through, all of these are cancelled), and
  the drain after shutdown: the workers can only take finitely many more steps, and when none is
  left every accepted job has been answered once.
\<close>

section \<open>Jobs at the workers\<close>

definition job_held :: "Worker \<Rightarrow> NativeJob multiset" where
  "job_held pc = (case pc of WGot j \<Rightarrow> {#j#} | WRegister j \<Rightarrow> {#j#} | WReject j \<Rightarrow> {#j#} | WRun j \<Rightarrow> {#j#} | _ \<Rightarrow> {#})"

definition job_leaving :: "Worker \<Rightarrow> NativeJob multiset" where
  "job_leaving pc = (case pc of WUnregister j \<Rightarrow> {#j#} | _ \<Rightarrow> {#})"

definition job_registered :: "Worker \<Rightarrow> NativeJob multiset" where
  "job_registered pc = (case pc of WRun j \<Rightarrow> {#j#} | WUnregister j \<Rightarrow> {#j#} | _ \<Rightarrow> {#})"

definition at_workers :: "(Worker \<Rightarrow> NativeJob multiset) \<Rightarrow> Worker list \<Rightarrow> NativeJob multiset" where
  "at_workers f ws = (\<Sum>pc\<leftarrow>ws. f pc)"

lemmas worker_jobs = job_held_def job_leaving_def job_registered_def

lemma sum_list_update_add:
  fixes f :: "'a \<Rightarrow> 'b multiset"
  shows "w < length ws \<Longrightarrow> (\<Sum>x\<leftarrow>ws[w := y]. f x) + f (ws ! w) = (\<Sum>x\<leftarrow>ws. f x) + f y"
proof (induction ws arbitrary: w)
  case (Cons x ws)
  show ?case
  proof (cases w)
    case (Suc v)
    with Cons show ?thesis by (simp add: add.assoc)
  qed simp
qed simp

lemma at_workers_update:
  "w < length ws \<Longrightarrow> at_workers f (ws[w := pc]) = at_workers f ws - f (ws ! w) + f pc"
proof -
  assume w: "w < length ws"
  have "f (ws ! w) \<subseteq># at_workers f ws"
    using w unfolding at_workers_def
  proof (induction ws arbitrary: w)
    case (Cons x ws)
    then show ?case by (cases w) (auto intro: subset_mset.order_trans [OF _ mset_subset_eq_add_right])
  qed simp
  moreover from sum_list_update_add [OF w, of f pc]
  have "at_workers f (ws[w := pc]) + f (ws ! w) = at_workers f ws + f pc"
    by (simp add: at_workers_def)
  ultimately show ?thesis
    by (metis add.commute add_diff_cancel_right' subset_mset.add_diff_assoc2)
qed

lemma at_workers_mem: "w < length ws \<Longrightarrow> f (ws ! w) \<subseteq># at_workers f ws"
proof (induction ws arbitrary: w)
  case (Cons x ws)
  then show ?case
    by (cases w) (auto simp: at_workers_def intro: subset_mset.order_trans [OF _ mset_subset_eq_add_right])
qed simp

section \<open>The invariant\<close>

definition ids_fresh :: "NativeState \<Rightarrow> bool" where
  "ids_fresh st \<longleftrightarrow>
     ns_next_job_id st = of_nat (ns_started st) \<and>
     distinct (map nj_id (ns_pending st @ ns_accepted st)) \<and>
     nj_id ` set (ns_pending st @ ns_accepted st) \<subseteq> of_nat ` {..<ns_started st}"

definition conserved :: "NativeState \<Rightarrow> bool" where
  "conserved st \<longleftrightarrow>
     mset (ns_accepted st) =
       mset (ns_buffer st) + at_workers job_held (ns_workers st) + mset (map fst (ns_answered st)) \<and>
     at_workers job_leaving (ns_workers st) \<subseteq># mset (map fst (ns_answered st))"

definition table_exact :: "NativeState \<Rightarrow> bool" where
  "table_exact st \<longleftrightarrow>
     bmap_ok (ns_active st) \<and>
     (\<forall>i t. bmap_get (ns_active st) i = Some t \<longleftrightarrow>
        (\<exists>j \<in># at_workers job_registered (ns_workers st). nj_id j = i \<and> nj_token j = t))"

definition active_cancelled :: "NativeState \<Rightarrow> bool" where
  "active_cancelled st \<longleftrightarrow>
     (ns_shutdown st = ShDone \<longrightarrow> set (bmap_values (ns_active st)) \<subseteq> ns_cancelled st)"

definition native_inv :: "NativeState \<Rightarrow> bool" where
  "native_inv st \<longleftrightarrow>
     ids_fresh st \<and> conserved st \<and> table_exact st \<and> active_cancelled st \<and>
     length (ns_buffer st) \<le> ns_capacity st"

lemma native_inv_initial: "native_inv (initial_state k n capacity)"
proof -
  have "at_workers f (replicate n WIdle) = {#}" if "f WIdle = {#}" for f
    using that by (induction n) (simp_all add: at_workers_def)
  then have "at_workers job_held (replicate n WIdle) = {#}" "at_workers job_leaving (replicate n WIdle) = {#}"
    "at_workers job_registered (replicate n WIdle) = {#}"
    by (simp_all add: worker_jobs)
  then show ?thesis
    by (simp add: native_inv_def initial_state_def ids_fresh_def conserved_def table_exact_def active_cancelled_def)
qed

lemma distinct_keys_pair:
  assumes "distinct (map f xs)" "{#x, y#} \<subseteq># mset xs"
  shows "f x \<noteq> f y"
proof
  assume same: "f x = f y"
  have mem: "x \<in> set xs" "y \<in> set xs"
    using set_mset_mono [OF assms(2)] by simp_all
  with assms(1) same have "x = y" by (meson distinct_map inj_onD)
  with assms(2) have "2 \<le> count (mset xs) x"
    using mset_subset_eq_count [OF assms(2), of x] by simp
  moreover have "distinct xs" using assms(1) by (simp add: distinct_map)
  then have "count (mset xs) x \<le> 1" by (simp add: distinct_count_atmost_1)
  ultimately show False by simp
qed

text \<open>Jobs that differ have different ids, and a registered job is one of the accepted ones.\<close>

lemma registered_split: "at_workers job_registered ws \<subseteq># at_workers job_held ws + at_workers job_leaving ws"
proof (induction ws)
  case (Cons pc ws)
  have "job_registered pc \<subseteq># job_held pc + job_leaving pc"
    by (cases pc) (simp_all add: worker_jobs)
  from subset_mset.add_mono [OF this Cons] show ?case
    by (simp add: at_workers_def ac_simps)
qed (simp add: at_workers_def)

text \<open>Focus on one worker.\<close>

lemma at_workers_focus:
  assumes "w < length ws"
  obtains R where "at_workers f ws = f (ws ! w) + R" "\<And>pc. at_workers f (ws[w := pc]) = f pc + R"
proof -
  have "f (ws ! w) \<subseteq># at_workers f ws" by (rule at_workers_mem [where ws = ws and f = f, OF assms])
  then obtain R where R: "at_workers f ws = f (ws ! w) + R"
    by (auto simp: mset_subset_eq_exists_conv)
  have "at_workers f (ws[w := pc]) = f pc + R" for pc
    using at_workers_update [OF assms, of f pc] R by simp
  with R show ?thesis by (rule that)
qed

section \<open>Every step keeps the invariant\<close>

text \<open>Each part of the invariant reads only some fields.\<close>

lemma ids_fresh_updates [simp]:
  "ids_fresh (st\<lparr>ns_buffer := x_buffer\<rparr>) = ids_fresh st"
  "ids_fresh (st\<lparr>ns_shutdown := x_shutdown\<rparr>) = ids_fresh st"
  "ids_fresh (st\<lparr>ns_handles := x_handles\<rparr>) = ids_fresh st"
  "ids_fresh (st\<lparr>ns_active := x_active\<rparr>) = ids_fresh st"
  "ids_fresh (st\<lparr>ns_workers := x_workers\<rparr>) = ids_fresh st"
  "ids_fresh (st\<lparr>ns_cancelled := x_cancelled\<rparr>) = ids_fresh st"
  "ids_fresh (st\<lparr>ns_answered := x_answered\<rparr>) = ids_fresh st"
  by (simp_all add: ids_fresh_def)

lemma conserved_updates [simp]:
  "conserved (st\<lparr>ns_shutdown := x_shutdown\<rparr>) = conserved st"
  "conserved (st\<lparr>ns_handles := x_handles\<rparr>) = conserved st"
  "conserved (st\<lparr>ns_next_job_id := x_next_job_id\<rparr>) = conserved st"
  "conserved (st\<lparr>ns_active := x_active\<rparr>) = conserved st"
  "conserved (st\<lparr>ns_cancelled := x_cancelled\<rparr>) = conserved st"
  "conserved (st\<lparr>ns_pending := x_pending\<rparr>) = conserved st"
  "conserved (st\<lparr>ns_started := x_started\<rparr>) = conserved st"
  by (simp_all add: conserved_def)

lemma table_exact_updates [simp]:
  "table_exact (st\<lparr>ns_buffer := x_buffer\<rparr>) = table_exact st"
  "table_exact (st\<lparr>ns_shutdown := x_shutdown\<rparr>) = table_exact st"
  "table_exact (st\<lparr>ns_handles := x_handles\<rparr>) = table_exact st"
  "table_exact (st\<lparr>ns_next_job_id := x_next_job_id\<rparr>) = table_exact st"
  "table_exact (st\<lparr>ns_cancelled := x_cancelled\<rparr>) = table_exact st"
  "table_exact (st\<lparr>ns_pending := x_pending\<rparr>) = table_exact st"
  "table_exact (st\<lparr>ns_started := x_started\<rparr>) = table_exact st"
  "table_exact (st\<lparr>ns_accepted := x_accepted\<rparr>) = table_exact st"
  "table_exact (st\<lparr>ns_answered := x_answered\<rparr>) = table_exact st"
  by (simp_all add: table_exact_def)

lemma active_cancelled_updates [simp]:
  "active_cancelled (st\<lparr>ns_buffer := x_buffer\<rparr>) = active_cancelled st"
  "active_cancelled (st\<lparr>ns_handles := x_handles\<rparr>) = active_cancelled st"
  "active_cancelled (st\<lparr>ns_next_job_id := x_next_job_id\<rparr>) = active_cancelled st"
  "active_cancelled (st\<lparr>ns_workers := x_workers\<rparr>) = active_cancelled st"
  "active_cancelled (st\<lparr>ns_pending := x_pending\<rparr>) = active_cancelled st"
  "active_cancelled (st\<lparr>ns_started := x_started\<rparr>) = active_cancelled st"
  "active_cancelled (st\<lparr>ns_accepted := x_accepted\<rparr>) = active_cancelled st"
  "active_cancelled (st\<lparr>ns_answered := x_answered\<rparr>) = active_cancelled st"
  by (simp_all add: active_cancelled_def)

lemma start_keeps:
  assumes "native_inv st" "start_request request token st = (r, st')" "ns_started st' \<le> 2 ^ 64"
  shows "native_inv st'"
proof (cases "supports_route (ns_kernel st) (sq_route request)")
  case False
  with assms show ?thesis by (simp add: start_request_def)
next
  case True
  let ?job = "\<lparr>nj_id = ns_next_job_id st, nj_request = request, nj_token = token\<rparr>"
  from True assms(2) have st': "st' = st\<lparr>ns_next_job_id := ns_next_job_id st + 1,
      ns_started := Suc (ns_started st), ns_pending := ?job # ns_pending st\<rparr>"
    by (simp add: start_request_def Let_def)
  with assms(3) have "ns_started st < 2 ^ 64" by simp
  then have fresh: "(of_nat (ns_started st) :: u64) \<notin> of_nat ` {..<ns_started st}"
    by (auto simp: word_of_nat_eq_iff take_bit_nat_eq_self)
  have ids: "ids_fresh st" using assms(1) by (simp add: native_inv_def)
  then have sub: "nj_id ` set (ns_pending st @ ns_accepted st) \<subseteq> of_nat ` {..<ns_started st}"
    and nxt: "ns_next_job_id st = of_nat (ns_started st)"
    by (simp_all add: ids_fresh_def)
  have "nj_id ?job \<notin> nj_id ` set (ns_pending st @ ns_accepted st)"
    using fresh sub nxt by auto
  with ids have "ids_fresh st'"
    by (auto simp: st' ids_fresh_def lessThan_Suc)
  with assms(1) show ?thesis
    by (simp add: native_inv_def st')
qed

lemma try_send_cases:
  assumes "try_send job st = Some st'"
  obtains "length (ns_buffer st) < ns_capacity st" "st' = st\<lparr>ns_buffer := ns_buffer st @ [job]\<rparr>"
  | w where "w < length (ns_workers st)" "ns_workers st ! w = WRecv"
      "st' = st\<lparr>ns_workers := (ns_workers st)[w := WGot job]\<rparr>"
  using assms
  by (auto simp: try_send_def waiting_receiver_def find_Some_iff split: if_splits option.splits)

lemma enqueue_cases:
  assumes "enqueue_job job st = (r, st')"
  obtains "r \<noteq> Ok ()" "st' = st\<lparr>ns_pending := remove1 job (ns_pending st)\<rparr>"
  | st1 where "r = Ok ()" "\<not> shutting_down st" "try_send job (st\<lparr>ns_pending := remove1 job (ns_pending st)\<rparr>) = Some st1"
      "st' = st1\<lparr>ns_accepted := job # ns_accepted st1\<rparr>"
  using assms
  by (auto simp: enqueue_job_def Let_def shutting_down_def split: if_splits option.splits)

lemma pending_removed:
  assumes "ids_fresh st" "job \<in> set (ns_pending st)"
  shows "ids_fresh (st\<lparr>ns_pending := remove1 job (ns_pending st)\<rparr>)"
    and "ids_fresh (st\<lparr>ns_pending := remove1 job (ns_pending st), ns_accepted := job # ns_accepted st\<rparr>)"
proof -
  have d: "distinct (map nj_id (ns_pending st @ ns_accepted st))"
    using assms(1) by (simp add: ids_fresh_def)
  have perm: "mset (remove1 job (ns_pending st) @ job # ns_accepted st) = mset (ns_pending st @ ns_accepted st)"
    using assms(2) by simp
  then have d': "distinct (map nj_id (remove1 job (ns_pending st) @ job # ns_accepted st))"
    using d by (metis mset_eq_imp_distinct_iff mset_map)
  have sets: "set (remove1 job (ns_pending st) @ job # ns_accepted st) = set (ns_pending st @ ns_accepted st)"
    using perm by (rule mset_eq_setD)
  show "ids_fresh (st\<lparr>ns_pending := remove1 job (ns_pending st), ns_accepted := job # ns_accepted st\<rparr>)"
    using assms(1) d' sets by (simp add: ids_fresh_def)
  have "nj_id ` set (remove1 job (ns_pending st) @ ns_accepted st) \<subseteq> nj_id ` set (ns_pending st @ ns_accepted st)"
    unfolding sets [symmetric] by (intro image_mono) auto
  also have "\<dots> \<subseteq> of_nat ` {..<ns_started st}"
    using assms(1) by (simp add: ids_fresh_def)
  finally have sub: "nj_id ` set (remove1 job (ns_pending st) @ ns_accepted st) \<subseteq> of_nat ` {..<ns_started st}" .
  moreover have "distinct (map nj_id (remove1 job (ns_pending st) @ ns_accepted st))"
    using d' by simp
  moreover have "ns_next_job_id st = of_nat (ns_started st)"
    using assms(1) by (simp add: ids_fresh_def)
  ultimately show "ids_fresh (st\<lparr>ns_pending := remove1 job (ns_pending st)\<rparr>)"
    unfolding ids_fresh_def by simp
qed

lemma enqueue_keeps:
  assumes "native_inv st" "job \<in> set (ns_pending st)" "enqueue_job job st = (r, st')"
  shows "native_inv st'"
  using assms(3)
proof (rule enqueue_cases)
  assume "st' = st\<lparr>ns_pending := remove1 job (ns_pending st)\<rparr>"
  with assms pending_removed(1) [of st job] show ?thesis
    by (simp add: native_inv_def)
next
  fix st1
  let ?p = "st\<lparr>ns_pending := remove1 job (ns_pending st)\<rparr>"
  assume s: "try_send job ?p = Some st1" and st': "st' = st1\<lparr>ns_accepted := job # ns_accepted st1\<rparr>"
  have ids: "ids_fresh (st\<lparr>ns_pending := remove1 job (ns_pending st), ns_accepted := job # ns_accepted st\<rparr>)"
    using assms by (intro pending_removed) (simp_all add: native_inv_def)
  from s show ?thesis
  proof (rule try_send_cases)
    assume room: "length (ns_buffer ?p) < ns_capacity ?p" and st1: "st1 = ?p\<lparr>ns_buffer := ns_buffer ?p @ [job]\<rparr>"
    have "ids_fresh st'"
      using ids by (simp add: st' st1 ids_fresh_def)
    moreover have "conserved st'"
      using assms(1) by (simp add: native_inv_def conserved_def st' st1)
    ultimately show ?thesis
      using assms(1) room by (simp add: native_inv_def st' st1)
  next
    fix w
    assume w: "w < length (ns_workers ?p)" "ns_workers ?p ! w = WRecv"
      and st1: "st1 = ?p\<lparr>ns_workers := (ns_workers ?p)[w := WGot job]\<rparr>"
    from w(1) have wl: "w < length (ns_workers st)" by simp
    obtain H where H: "at_workers job_held (ns_workers st) = job_held (ns_workers st ! w) + H"
      "\<And>pc. at_workers job_held ((ns_workers st)[w := pc]) = job_held pc + H"
      by (rule at_workers_focus [OF wl, where f = job_held]) (rule that)
    obtain L where L: "at_workers job_leaving (ns_workers st) = job_leaving (ns_workers st ! w) + L"
      "\<And>pc. at_workers job_leaving ((ns_workers st)[w := pc]) = job_leaving pc + L"
      by (rule at_workers_focus [OF wl, where f = job_leaving]) (rule that)
    obtain R where R: "at_workers job_registered (ns_workers st) = job_registered (ns_workers st ! w) + R"
      "\<And>pc. at_workers job_registered ((ns_workers st)[w := pc]) = job_registered pc + R"
      by (rule at_workers_focus [OF wl, where f = job_registered]) (rule that)
    have "ids_fresh st'"
      using ids by (simp add: st' st1 ids_fresh_def)
    moreover have "conserved st'"
      using assms(1) w by (simp add: native_inv_def conserved_def st' st1 H L worker_jobs)
    moreover have "table_exact st'"
      using assms(1) w by (simp add: native_inv_def table_exact_def st' st1 R worker_jobs)
    ultimately show ?thesis
      using assms(1) by (simp add: native_inv_def st' st1)
  qed
qed

lemma shutdown_keeps:
  assumes "native_inv st"
  shows "native_inv (shutdown_swap st)" "native_inv (clone_handle st)" "native_inv (drop_handle st)"
    "native_inv (shutdown_take st)" "native_inv (shutdown_cancel st)"
    "native_inv (st\<lparr>ns_cancelled := insert t (ns_cancelled st)\<rparr>)"
proof -
  have swap: "native_inv (shutdown_swap st)" if "native_inv st" for st
    using that by (simp add: native_inv_def shutdown_swap_def shutting_down_def) (simp add: active_cancelled_def)
  show "native_inv (shutdown_swap st)" by (rule swap [OF assms])
  have "native_inv (st\<lparr>ns_handles := n\<rparr>)" for n
    using assms by (simp add: native_inv_def)
  then show "native_inv (clone_handle st)" "native_inv (drop_handle st)"
    by (simp_all add: clone_handle_def drop_handle_def Let_def swap)
  show "native_inv (shutdown_take st)"
    using assms by (simp add: native_inv_def shutdown_take_def) (simp add: active_cancelled_def)
  show "native_inv (shutdown_cancel st)"
    using assms by (simp add: native_inv_def shutdown_cancel_def) (simp add: active_cancelled_def)
  show "native_inv (st\<lparr>ns_cancelled := insert t (ns_cancelled st)\<rparr>)"
    using assms by (simp add: native_inv_def) (auto simp: active_cancelled_def)
qed

text \<open>What a worker's step does, case by case.\<close>

lemma worker_step_cases:
  assumes "worker_step first probe cancels accepted w st = Some st'"
  obtains
    (lock) "ns_workers st ! w = WIdle" "st' = set_worker w WRecv st"
  | (take) job rest where "ns_workers st ! w = WRecv" "ns_buffer st = job # rest"
      "st' = set_worker w (WGot job) (st\<lparr>ns_buffer := rest\<rparr>)"
  | (exit) "ns_workers st ! w = WRecv" "ns_buffer st = []" "\<not> queue_open st" "st' = set_worker w WExit st"
  | (refuse) job where "ns_workers st ! w \<in> {WGot job, WRegister job}" "shutting_down st"
      "st' = set_worker w (WReject job) st"
  | (admit) job where "ns_workers st ! w = WGot job" "st' = set_worker w (WRegister job) st"
  | (enter) job where "ns_workers st ! w = WRegister job" "\<not> shutting_down st"
      "st' = set_worker w (WRun job) (st\<lparr>ns_active := bmap_insert (nj_id job) (nj_token job) (ns_active st)\<rparr>)"
  | (reject) job frames where "ns_workers st ! w = WReject job" "st' = set_worker w WIdle (answer job frames st)"
  | (run) job where "ns_workers st ! w = WRun job"
      "st' = set_worker w (WUnregister job)
        (answer job (run_job (ns_kernel st) job first probe cancels accepted) st)"
  | (leave) job where "ns_workers st ! w = WUnregister job"
      "st' = set_worker w WIdle (st\<lparr>ns_active := bmap_remove (nj_id job) (ns_active st)\<rparr>)"
  using assms
  by (cases "ns_workers st ! w")
     (auto simp: worker_step_def register_active_job_def unregister_active_job_def
       split: if_splits list.splits)

lemma set_worker_eq:
  "ns_workers (set_worker w pc st) = (ns_workers st)[w := pc]"
  "ns_buffer (set_worker w pc st) = ns_buffer st" "ns_active (set_worker w pc st) = ns_active st"
  "ns_answered (set_worker w pc st) = ns_answered st" "ns_accepted (set_worker w pc st) = ns_accepted st"
  "ids_fresh (set_worker w pc st) = ids_fresh st" "active_cancelled (set_worker w pc st) = active_cancelled st"
  "ns_capacity (set_worker w pc st) = ns_capacity st" "ns_shutdown (set_worker w pc st) = ns_shutdown st"
  "ns_cancelled (set_worker w pc st) = ns_cancelled st"
  by (simp_all add: set_worker_def)

lemma answer_eq:
  "ns_workers (answer j fs st) = ns_workers st" "ns_buffer (answer j fs st) = ns_buffer st"
  "ns_active (answer j fs st) = ns_active st" "ns_answered (answer j fs st) = (j, fs) # ns_answered st"
  "ns_accepted (answer j fs st) = ns_accepted st" "ids_fresh (answer j fs st) = ids_fresh st"
  "active_cancelled (answer j fs st) = active_cancelled st" "ns_capacity (answer j fs st) = ns_capacity st"
  "ns_shutdown (answer j fs st) = ns_shutdown st" "ns_cancelled (answer j fs st) = ns_cancelled st"
  by (simp_all add: answer_def)

lemmas worker_eqs = set_worker_eq answer_eq

text \<open>The registered jobs besides the one at a worker have other ids.\<close>

lemma other_ids:
  assumes "native_inv st" "w < length (ns_workers st)" "job_held (ns_workers st ! w) + job_leaving (ns_workers st ! w) = {#j#}"
    and R: "at_workers job_registered (ns_workers st) = job_registered (ns_workers st ! w) + R" and i: "i \<in># R"
  shows "nj_id i \<noteq> nj_id j"
proof -
  let ?ws = "ns_workers st"
  obtain H where H: "at_workers job_held ?ws = job_held (?ws ! w) + H" "\<And>pc. at_workers job_held (?ws[w := pc]) = job_held pc + H"
    by (rule at_workers_focus [OF assms(2), where f = job_held]) (rule that)
  obtain L where L: "at_workers job_leaving ?ws = job_leaving (?ws ! w) + L" "\<And>pc. at_workers job_leaving (?ws[w := pc]) = job_leaving pc + L"
    by (rule at_workers_focus [OF assms(2), where f = job_leaving]) (rule that)
  obtain R' where R': "at_workers job_registered ?ws = job_registered (?ws ! w) + R'"
    "\<And>pc. at_workers job_registered (?ws[w := pc]) = job_registered pc + R'"
    by (rule at_workers_focus [OF assms(2), where f = job_registered]) (rule that)
  from R R'(1) have "R' = R" by simp
  with registered_split [of "?ws[w := WIdle]"] have "R \<subseteq># H + L"
    by (simp only: R'(2) H(2) L(2)) (simp add: worker_jobs)
  with i have "i \<in># H + L" by (rule mset_subset_eqD [rotated])
  then have "{#j, i#} \<subseteq># {#j#} + (H + L)" by simp
  also have "\<dots> = at_workers job_held ?ws + at_workers job_leaving ?ws"
    unfolding H(1) L(1) assms(3) [symmetric] by (simp add: ac_simps)
  also have "\<dots> \<subseteq># mset (ns_accepted st)"
  proof -
    have "mset (ns_accepted st) = mset (ns_buffer st) + at_workers job_held ?ws + mset (map fst (ns_answered st))"
      "at_workers job_leaving ?ws \<subseteq># mset (map fst (ns_answered st))"
      using assms(1) by (simp_all add: native_inv_def conserved_def)
    then show ?thesis
      by (simp add: add.assoc) (meson mset_subset_eq_add_right subset_mset.order_trans)
  qed
  finally have "{#j, i#} \<subseteq># mset (ns_accepted st)" .
  moreover have "distinct (map nj_id (ns_accepted st))"
    using assms(1) by (simp add: native_inv_def ids_fresh_def)
  ultimately show ?thesis using distinct_keys_pair by metis
qed

lemma worker_keeps:
  assumes inv: "native_inv st" and w: "w < length (ns_workers st)"
    and step: "worker_step first probe cancels accepted w st = Some st'"
  shows "native_inv st'"
proof -
  let ?ws = "ns_workers st"
  obtain H where H: "at_workers job_held ?ws = job_held (?ws ! w) + H" "\<And>pc. at_workers job_held (?ws[w := pc]) = job_held pc + H"
    by (rule at_workers_focus [OF w, where f = job_held]) (rule that)
  obtain L where L: "at_workers job_leaving ?ws = job_leaving (?ws ! w) + L" "\<And>pc. at_workers job_leaving (?ws[w := pc]) = job_leaving pc + L"
    by (rule at_workers_focus [OF w, where f = job_leaving]) (rule that)
  obtain R where R: "at_workers job_registered ?ws = job_registered (?ws ! w) + R"
    "\<And>pc. at_workers job_registered (?ws[w := pc]) = job_registered pc + R"
    by (rule at_workers_focus [OF w, where f = job_registered]) (rule that)
  have parts: "ids_fresh st" "active_cancelled st" "length (ns_buffer st) \<le> ns_capacity st"
    and cons: "mset (ns_accepted st) = mset (ns_buffer st) + (job_held (?ws ! w) + H) + mset (map fst (ns_answered st))"
      "job_leaving (?ws ! w) + L \<subseteq># mset (map fst (ns_answered st))"
    and table: "bmap_ok (ns_active st)" "\<And>i t. bmap_get (ns_active st) i = Some t \<longleftrightarrow>
      (\<exists>j \<in># job_registered (?ws ! w) + R. nj_id j = i \<and> nj_token j = t)"
    using inv by (simp_all add: native_inv_def conserved_def table_exact_def H(1) L(1) R(1))
  note simps = native_inv_def conserved_def table_exact_def worker_eqs H(2) L(2) R(2) worker_jobs parts
  from step show ?thesis
  proof (cases rule: worker_step_cases)
    case lock
    with cons table show ?thesis by (simp add: simps)
  next
    case (take job rest)
    with cons table parts(3) show ?thesis by (simp add: simps)
  next
    case exit
    with cons table show ?thesis by (simp add: simps)
  next
    case (refuse job)
    with cons table show ?thesis by (auto simp: simps)
  next
    case (admit job)
    with cons table show ?thesis by (simp add: simps)
  next
    case (enter job)
    have others: "nj_id i \<noteq> nj_id job" if "i \<in># R" for i
      by (rule other_ids [OF inv w _ R(1) that]) (simp add: enter worker_jobs)
    have act: "active_cancelled (st\<lparr>ns_active := m\<rparr>)" for m
      using enter(2) by (simp add: active_cancelled_def shutting_down_def)
    from enter cons table others show ?thesis
      by (simp add: simps act)
  next
    case (reject job frames)
    from cons(2) have "L \<subseteq># add_mset job (mset (map fst (ns_answered st)))"
      using reject by (simp add: worker_jobs) (metis add_mset_add_single mset_subset_eq_add_left subset_mset.order_trans)
    with reject cons table show ?thesis
      by (simp add: simps)
  next
    case (run job)
    with cons table show ?thesis by (simp add: simps)
  next
    case (leave job)
    have others: "nj_id i \<noteq> nj_id job" if "i \<in># R" for i
      by (rule other_ids [OF inv w _ R(1) that]) (simp add: leave worker_jobs)
    have "set (bmap_values (bmap_remove (nj_id job) (ns_active st))) \<subseteq> set (bmap_values (ns_active st))"
      by (auto simp: bmap_remove_def)
    then have act: "active_cancelled (st\<lparr>ns_active := bmap_remove (nj_id job) (ns_active st)\<rparr>)"
      using parts(2) by (auto simp: active_cancelled_def)
    have sub: "L \<subseteq># mset (map fst (ns_answered st))"
      using cons(2) by (meson mset_subset_eq_add_right subset_mset.order_trans)
    from leave cons(1) table others sub show ?thesis
      by (simp add: simps act)
  qed
qed

lemma native_step_keeps:
  assumes "native_step st st'" "native_inv st" "ns_started st' \<le> 2 ^ 64"
  shows "native_inv st'"
  using assms
proof (cases rule: native_step.cases)
  case (step_start request token r)
  with assms show ?thesis by (blast intro: start_keeps)
next
  case (step_enqueue job r)
  with assms show ?thesis by (blast intro: enqueue_keeps)
next
  case (step_worker w first probe cancels accepted)
  with assms show ?thesis by (blast intro: worker_keeps)
qed (use assms in \<open>simp_all add: shutdown_keeps\<close>)

section \<open>Reachable states\<close>

lemma worker_step_history:
  assumes "worker_step first probe cancels accepted w st = Some st'"
  shows "ns_started st' = ns_started st" "ns_shutdown st' = ns_shutdown st" "length (ns_workers st') = length (ns_workers st)"
    "ns_cancelled st' = ns_cancelled st" "ns_accepted st' = ns_accepted st" "ns_kernel st' = ns_kernel st"
  using assms
  by (cases rule: worker_step_cases; simp add: set_worker_def answer_def)+

lemma enqueue_history:
  assumes "enqueue_job job st = (r, st')"
  shows "ns_started st' = ns_started st" "ns_shutdown st' = ns_shutdown st" "length (ns_workers st') = length (ns_workers st)"
    "ns_kernel st' = ns_kernel st"
  using assms by (cases rule: enqueue_cases; fastforce elim: try_send_cases)+

lemma native_step_started: "native_step st st' \<Longrightarrow> ns_started st \<le> ns_started st'"
  by (induction rule: native_step.induct)
     (auto simp: start_request_def Let_def clone_handle_def drop_handle_def shutdown_swap_def shutdown_take_def
       shutdown_cancel_def enqueue_history worker_step_history split: if_splits)

lemma reach_inv:
  assumes "native_reach s0 st" "native_inv s0" "ns_started st \<le> 2 ^ 64"
  shows "native_inv st"
  using assms
proof (induction rule: native_reach.induct)
  case (reach_next st st')
  then have "ns_started st \<le> 2 ^ 64"
    using native_step_started [OF reach_next.hyps(2)] by simp
  with reach_next show ?case by (blast intro: native_step_keeps)
qed

lemma running_registered:
  assumes "w < length (ns_workers st)" "ns_workers st ! w = WRun job"
  shows "job \<in># at_workers job_registered (ns_workers st)"
  using at_workers_mem [OF assms(1), of job_registered] assms(2) by (simp add: job_registered_def)

text \<open>Once shutdown has cancelled the active jobs, no worker runs a job that is not cancelled: a job
  that job_registered before is in the table, one that comes later is refused.\<close>

lemma shutdown_cancels_running:
  assumes "native_inv st" "ns_shutdown st = ShDone" "w < length (ns_workers st)" "ns_workers st ! w = WRun job"
  shows "nj_token job \<in> ns_cancelled st"
proof -
  have "bmap_get (ns_active st) (nj_id job) = Some (nj_token job)"
    using assms(1) running_registered [OF assms(3,4)] by (auto simp: native_inv_def table_exact_def)
  then have "nj_token job \<in> set (bmap_values (ns_active st))"
    by (force dest: map_of_SomeD)
  with assms(1,2) show ?thesis by (auto simp: native_inv_def active_cancelled_def)
qed

text \<open>Every accepted job is in one place.\<close>

lemma accepted_distinct:
  assumes "native_inv st"
  shows "distinct (ns_accepted st)" "distinct (map fst (ns_answered st))"
    "set (map fst (ns_answered st)) \<subseteq> set (ns_accepted st)"
proof -
  have c: "mset (ns_accepted st) = mset (ns_buffer st) + at_workers job_held (ns_workers st) + mset (map fst (ns_answered st))"
    using assms by (simp add: native_inv_def conserved_def)
  have "distinct (map nj_id (ns_accepted st))"
    using assms by (simp add: native_inv_def ids_fresh_def)
  then show d: "distinct (ns_accepted st)" by (simp add: distinct_map)
  have sub: "mset (map fst (ns_answered st)) \<subseteq># mset (ns_accepted st)"
    unfolding c by simp
  from sub show "set (map fst (ns_answered st)) \<subseteq> set (ns_accepted st)"
    using set_mset_mono by fastforce
  have "count (mset (map fst (ns_answered st))) a \<le> 1" for a
    using mset_subset_eq_count [OF sub, of a] d by (metis count_mset distinct_count_atmost_1 le_trans
        count_mset_0_iff le0 order_refl)
  then show "distinct (map fst (ns_answered st))"
    unfolding distinct_count_atmost_1 by (metis count_eq_zero_iff le_antisym less_one not_le set_mset_mset)
qed

section \<open>The drain after shutdown\<close>

definition worker_weight :: "Worker \<Rightarrow> nat" where
  "worker_weight pc = (case pc of WIdle \<Rightarrow> 2 | WRecv \<Rightarrow> 1 | WGot _ \<Rightarrow> 7 | WRegister _ \<Rightarrow> 6 | WReject _ \<Rightarrow> 5
     | WRun _ \<Rightarrow> 5 | WUnregister _ \<Rightarrow> 4 | WExit \<Rightarrow> 0)"

definition work_left :: "NativeState \<Rightarrow> nat" where
  "work_left st = 8 * length (ns_buffer st) + (\<Sum>pc\<leftarrow>ns_workers st. worker_weight pc)"

lemma weight_update:
  "w < length ws \<Longrightarrow>
     (\<Sum>pc\<leftarrow>ws[w := pc']. worker_weight pc) + worker_weight (ws ! w) = (\<Sum>pc\<leftarrow>ws. worker_weight pc) + worker_weight pc'"
proof (induction ws arbitrary: w)
  case (Cons pc ws)
  then show ?case by (cases w) auto
qed simp

lemma work_left_set_worker:
  assumes "w < length (ns_workers st)" "ns_workers s = ns_workers st"
    and "8 * length (ns_buffer s) + worker_weight pc < 8 * length (ns_buffer st) + worker_weight (ns_workers st ! w)"
  shows "work_left (set_worker w pc s) < work_left st"
  using weight_update [OF assms(1), of pc] assms(2,3)
  by (simp add: work_left_def set_worker_def)

lemma worker_step_decreases:
  assumes "w < length (ns_workers st)" "worker_step first probe cancels accepted w st = Some st'"
  shows "work_left st' < work_left st"
  using assms(2)
  by (cases rule: worker_step_cases)
     (auto intro!: work_left_set_worker [OF assms(1)] simp: worker_weight_def answer_def)

text \<open>Nothing enters a closed queue, so the bound holds against every other step.\<close>

lemma closed_step:
  assumes "native_step st st'" "ns_shutdown st = ShDone"
  shows "ns_shutdown st' = ShDone \<and> work_left st' \<le> work_left st \<and> ns_accepted st' = ns_accepted st"
  using assms
proof (cases rule: native_step.cases)
  case (step_enqueue job r)
  with assms show ?thesis
    by (auto simp: enqueue_job_def Let_def shutting_down_def work_left_def)
next
  case (step_worker w first probe cancels accepted)
  with worker_step_decreases [OF this] worker_step_history [OF step_worker(2)] assms(2) show ?thesis
    by simp
qed (auto simp: start_request_def Let_def clone_handle_def drop_handle_def shutdown_swap_def shutting_down_def
    work_left_def split: if_splits)

text \<open>A worker that has not exited can step, or waits for another one that can.\<close>

lemma worker_enabled:
  assumes "ns_shutdown st = ShDone" "w < length (ns_workers st)" "ns_workers st ! w \<noteq> WExit"
  shows "\<exists>v < length (ns_workers st). worker_step first probe cancels accepted v st \<noteq> None"
proof (cases "\<exists>v < length (ns_workers st). ns_workers st ! v = WRecv")
  case True
  then obtain v where v: "v < length (ns_workers st)" "ns_workers st ! v = WRecv" by blast
  have "worker_step first probe cancels accepted v st \<noteq> None"
    using v(2) assms(1) by (simp add: worker_step_def queue_open_def split: list.split)
  with v(1) show ?thesis by blast
next
  case False
  then have "\<not> list_ex (\<lambda>pc. pc = WRecv) (ns_workers st)"
    by (auto simp: list_ex_iff in_set_conv_nth)
  with False assms have "worker_step first probe cancels accepted w st \<noteq> None"
    by (cases "ns_workers st ! w") (auto simp: worker_step_def split: prod.split bool.split)
  with assms(2) show ?thesis by blast
qed

text \<open>With all workers gone every accepted job has been answered.\<close>

lemma exited_workers_hold_nothing:
  "\<forall>pc\<in>set ws. pc = WExit \<Longrightarrow> f WExit = {#} \<Longrightarrow> at_workers f ws = {#}"
  by (induction ws) (auto simp: at_workers_def)

definition exit_inv :: "NativeState \<Rightarrow> bool" where
  "exit_inv st \<longleftrightarrow> (WExit \<in> set (ns_workers st) \<longrightarrow> \<not> queue_open st \<and> ns_buffer st = [])"

lemma exit_set_worker:
  "pc \<noteq> WExit \<Longrightarrow> WExit \<in> set (ws[w := pc]) \<Longrightarrow> WExit \<in> set ws"
  by (metis insertE set_update_subset_insert subsetD)

lemma worker_step_exit:
  assumes "worker_step first probe cancels accepted w st = Some st'" "exit_inv st"
  shows "exit_inv st'"
  using assms(1)
  by (cases rule: worker_step_cases)
     (use assms(2) in \<open>auto simp: exit_inv_def set_worker_def answer_def queue_open_def
        dest: exit_set_worker [rotated]\<close>)

lemma native_step_exit:
  assumes "native_step st st'" "exit_inv st"
  shows "exit_inv st'"
  using assms
proof (cases rule: native_step.cases)
  case (step_enqueue job r)
  from step_enqueue(3) show ?thesis
  proof (rule enqueue_cases)
    fix st1
    assume opened: "\<not> shutting_down st" and s: "try_send job (st\<lparr>ns_pending := remove1 job (ns_pending st)\<rparr>) = Some st1"
      and st': "st' = st1\<lparr>ns_accepted := job # ns_accepted st1\<rparr>"
    from opened assms(2) have "WExit \<notin> set (ns_workers st)"
      by (auto simp: exit_inv_def queue_open_def shutting_down_def)
    moreover from s have "WExit \<in> set (ns_workers st1) \<Longrightarrow> WExit \<in> set (ns_workers st)"
      by (rule try_send_cases) (auto dest: exit_set_worker [rotated])
    ultimately show ?thesis by (auto simp: exit_inv_def st')
  qed (use assms(2) in \<open>simp add: exit_inv_def queue_open_def\<close>)
next
  case (step_worker w first probe cancels accepted)
  with assms show ?thesis by (blast intro: worker_step_exit)
qed (use assms(2) in \<open>auto simp: exit_inv_def queue_open_def start_request_def Let_def clone_handle_def drop_handle_def
    shutdown_swap_def shutting_down_def shutdown_take_def shutdown_cancel_def split: if_splits\<close>)

lemma reach_exit: "native_reach s0 st \<Longrightarrow> exit_inv s0 \<Longrightarrow> exit_inv st"
  by (induction rule: native_reach.induct) (auto intro: native_step_exit)

lemma exit_initial: "exit_inv (initial_state k n capacity)"
  by (simp add: exit_inv_def initial_state_def)

lemma drained_answers:
  assumes "native_inv st" "exit_inv st" "ns_workers st \<noteq> []" "\<forall>pc\<in>set (ns_workers st). pc = WExit"
  shows "mset (map fst (ns_answered st)) = mset (ns_accepted st)"
proof -
  have "at_workers job_held (ns_workers st) = {#}"
    using assms(4) by (intro exited_workers_hold_nothing) (simp_all add: job_held_def)
  moreover have "ns_buffer st = []"
    using assms(2-4) by (cases "ns_workers st") (auto simp: exit_inv_def)
  ultimately show ?thesis using assms(1) by (simp add: native_inv_def conserved_def)
qed

section \<open>Answers\<close>

definition ends_once :: "ResponseFrame list \<Rightarrow> bool" where
  "ends_once fs \<longleftrightarrow> fs \<noteq> [] \<and> frame_terminal (last fs) \<and> (\<forall>f\<in>set (butlast fs). \<not> frame_terminal f)"

lemma frame_terminal_simps [simp]:
  "frame_terminal FrDone" "frame_terminal FrCancel" "frame_terminal (FrError v)"
  "\<not> frame_terminal (FrItem v)" "\<not> frame_terminal (FrByte b)" "\<not> frame_terminal (FrBulk v)"
  by (simp_all add: frame_terminal_def)

lemma content_not_terminal: "\<not> frame_terminal (content_frame c)"
  by (cases c) (simp_all add: content_frame_def)

lemma send_reply_terminal: "\<forall>f\<in>set (butlast (send_reply cs cancels accepted)). \<not> frame_terminal f"
  by (induction cs cancels accepted rule: send_reply.induct)
     (auto simp: content_not_terminal dest: in_set_butlastD)

lemma send_reply_ends: "(\<And>n. accepted n) \<Longrightarrow> ends_once (send_reply cs cancels accepted)"
proof (induction cs cancels accepted rule: send_reply.induct)
  case (1 cancels accepted)
  then show ?case by (simp add: ends_once_def)
next
  case (2 c cs cancels accepted)
  then show ?case
    by (cases "cancels 0") (auto simp: ends_once_def content_not_terminal dest: in_set_butlastD)
qed

lemma run_job_ends:
  "\<forall>f\<in>set (butlast (run_job k job first probe cancels accepted)). \<not> frame_terminal f"
  "(\<And>n. accepted n) \<Longrightarrow> ends_once (run_job k job first probe cancels accepted)"
proof -
  show "\<forall>f\<in>set (butlast (run_job k job first probe cancels accepted)). \<not> frame_terminal f"
    using send_reply_terminal [of _ cancels accepted]
    by (auto simp: run_job_def send_host_error_def split: result.split)
  show "ends_once (run_job k job first probe cancels accepted)" if "\<And>n. accepted n"
    using send_reply_ends [of accepted _ cancels] that
    by (auto simp: run_job_def send_host_error_def ends_once_def split: result.split)
qed

section \<open>What no step changes\<close>

lemma native_step_frame:
  assumes "native_step st st'"
  shows "ns_capacity st' = ns_capacity st" "length (ns_workers st') = length (ns_workers st)"
proof -
  have "ns_capacity st' = ns_capacity st \<and> length (ns_workers st') = length (ns_workers st)"
    using assms
  proof (cases rule: native_step.cases)
    case (step_worker w first probe cancels accepted)
    from step_worker(2) show ?thesis
      by (cases rule: worker_step_cases)
         (auto simp: set_worker_def answer_def register_active_job_def unregister_active_job_def)
  qed (auto simp: start_request_def enqueue_job_def try_send_def Let_def clone_handle_def drop_handle_def shutdown_swap_def
      shutdown_take_def shutdown_cancel_def split: if_splits option.splits)
  then show "ns_capacity st' = ns_capacity st" "length (ns_workers st') = length (ns_workers st)" by simp_all
qed

lemma reach_capacity: "native_reach s0 st \<Longrightarrow> ns_capacity st = ns_capacity s0"
  by (induction rule: native_reach.induct) (simp_all add: native_step_frame)

lemma reach_workers: "native_reach s0 st \<Longrightarrow> length (ns_workers st) = length (ns_workers s0)"
  by (induction rule: native_reach.induct) (simp_all add: native_step_frame)

end
