(* ===== verification/Sample_Host.thy ===== *)
theory Sample_Host
  imports Kv_Cache Native_Safety
begin

text \<open>
  Concrete values for the witnesses of the device descriptor, the KV plan, the routing kernel and
  the worker pool: a descriptor of two kernels and two launches and the same program with its
  declarations in another order, a KV plan of one arena, a provider with one route, and a pool
  that is shut down with a job running.
\<close>

section \<open>A device program\<close>

definition sample_slot ::
    "u32 \<Rightarrow> string \<Rightarrow> DeviceBufferRole \<Rightarrow> DeviceBufferLifetime \<Rightarrow> DeviceBufferInitialization \<Rightarrow> u32 \<Rightarrow> DescriptorBuffer"
  where
  "sample_slot i name role life init binding =
     \<lparr>bf_id = i, bf_name = name, bf_semantic = 10 + i, bf_role = role, bf_lifetime = life, bf_init = init,
      bf_binding = binding, bf_ty = DtF32, bf_count = 4, bf_shape = None, bf_version = 1\<rparr>"

definition slot_x :: "u32 \<Rightarrow> DescriptorBuffer" where
  "slot_x = sample_slot 1 ''x'' RoleInput PerProgram HostProvided"

definition slot_y :: "u32 \<Rightarrow> DescriptorBuffer" where
  "slot_y = sample_slot 2 ''y'' RoleInOut PerProgram ZeroFill"

definition slot_z :: "u32 \<Rightarrow> DescriptorBuffer" where
  "slot_z = sample_slot 3 ''z'' RoleOutput ObservationPoint KernelInitialized"

definition kernel_add :: "DescriptorBuffer list \<Rightarrow> DescriptorKernel" where
  "kernel_add slots = \<lparr>kn_entry = ''add'', kn_buffers = slots, kn_grid = (1, 1, 1), kn_block = (4, 1, 1)\<rparr>"

definition kernel_out :: "DescriptorBuffer list \<Rightarrow> DescriptorKernel" where
  "kernel_out slots = \<lparr>kn_entry = ''out'', kn_buffers = slots, kn_grid = (1, 1, 1), kn_block = (4, 1, 1)\<rparr>"

definition sample_version :: "u32 \<Rightarrow> DescriptorBufferVersion" where
  "sample_version i = \<lparr>bv_buffer = i, bv_version = 1, bv_ty = DtF32, bv_count = 4, bv_shape = None\<rparr>"

definition sample_device_program :: "DescriptorKernel list \<Rightarrow> u32 \<Rightarrow> u32 \<Rightarrow> DeviceDescriptor" where
  "sample_device_program kernels add out =
     \<lparr>dd_backend = Metal, dd_module = [1], dd_kernels = kernels,
      dd_launches = [\<lparr>ln_id = 1, ln_kernel = add\<rparr>, \<lparr>ln_id = 2, ln_kernel = out\<rparr>],
      dd_versions = [sample_version 1, sample_version 2, sample_version 3],
      dd_lifetime = SingleRun,
      dd_flow = [\<lparr>df_buffer = 2, df_version = 1, df_producer = 1, df_consumer = 2\<rparr>],
      dd_roots = [1],
      dd_results = [\<lparr>rs_buffer = 3, rs_version = 1, rs_produced_by = 2, rs_at_launch = 2\<rparr>],
      dd_end_of_run = [\<lparr>eor_buffer = 2, eor_version = 1\<rparr>]\<rparr>"

definition sample_descriptor :: DeviceDescriptor where
  "sample_descriptor =
     sample_device_program [kernel_add [slot_x 0, slot_y 1], kernel_out [slot_y 0, slot_z 1]] 0 1"

definition shuffled_descriptor :: DeviceDescriptor where
  "shuffled_descriptor =
     sample_device_program [kernel_out [slot_z 1, slot_y 0], kernel_add [slot_y 1, slot_x 0]] 1 0"

lemmas sample_program_defs =
  sample_descriptor_def shuffled_descriptor_def sample_device_program_def kernel_add_def kernel_out_def
  slot_x_def slot_y_def slot_z_def sample_slot_def sample_version_def all_slots_def axes_def

lemma sample_launches: "launches_valid sample_descriptor" "launches_valid shuffled_descriptor"
  by (simp_all add: launches_valid_def sample_program_defs)

lemma sample_versions: "versions_valid sample_descriptor" "versions_valid shuffled_descriptor"
  by (simp_all add: versions_valid_def version_valid_def sample_program_defs)

lemma sample_before:
  "scheduled_before sample_descriptor 1 2" "scheduled_before shuffled_descriptor 1 2"
  unfolding scheduled_before_def
  by (rule exI [of _ 0], rule exI [of _ 1], simp add: sample_program_defs)+

lemma sample_schedules: "schedule_valid sample_descriptor" "schedule_valid shuffled_descriptor"
proof -
  have "(1, 2) \<in> flow_edges (dd_flow sample_descriptor)" "(1, 2) \<in> flow_edges (dd_flow shuffled_descriptor)"
    by (auto simp: flow_edges_def sample_program_defs)
  then show "schedule_valid sample_descriptor" "schedule_valid shuffled_descriptor"
    using sample_before
    by (auto simp: schedule_valid_def same_producer_def sample_program_defs intro: rtrancl.intros)
qed

lemma sample_slots:
  "\<forall>k\<in>set (dd_kernels sample_descriptor). kernel_valid k" "\<forall>k\<in>set (dd_kernels shuffled_descriptor). kernel_valid k"
  "\<forall>b\<in>set (all_slots sample_descriptor). slot_valid sample_descriptor b"
  "\<forall>b\<in>set (all_slots shuffled_descriptor). slot_valid shuffled_descriptor b"
  by (simp_all add: kernel_valid_def slot_valid_def sample_program_defs)

lemma sample_identities:
  "identities_valid (all_slots sample_descriptor)" "identities_valid (all_slots shuffled_descriptor)"
  "policies_valid sample_descriptor" "policies_valid shuffled_descriptor"
  by (simp_all add: identities_valid_def same_identity_def first_role_agrees_def first_slot_def role_conflict_def
      policies_valid_def sample_program_defs)

lemma sample_observations:
  "\<forall>r\<in>set (dd_results sample_descriptor). result_valid sample_descriptor r"
  "\<forall>r\<in>set (dd_results shuffled_descriptor). result_valid shuffled_descriptor r"
  "\<forall>r\<in>set (dd_end_of_run sample_descriptor). end_of_run_valid sample_descriptor r"
  "\<forall>r\<in>set (dd_end_of_run shuffled_descriptor). end_of_run_valid shuffled_descriptor r"
  by (simp_all add: result_valid_def end_of_run_valid_def sample_program_defs)

lemma sample_descriptors_valid: "valid_descriptor sample_descriptor" "valid_descriptor shuffled_descriptor"
proof -
  have "distinct (map rs_buffer (dd_results d))" "distinct (map eor_buffer (dd_end_of_run d))"
    "\<forall>e\<in>set (dd_flow d). edge_valid d e" if "d \<in> {sample_descriptor, shuffled_descriptor}" for d
    using that by (auto simp: edge_valid_def sample_program_defs)
  then show "valid_descriptor sample_descriptor" "valid_descriptor shuffled_descriptor"
    unfolding valid_descriptor_def
    using sample_launches sample_versions sample_schedules sample_slots sample_identities sample_observations
    by blast+
qed

lemma sample_descriptors_fit: "graph_fits sample_descriptor" "graph_fits shuffled_descriptor"
  by (simp_all add: graph_fits_def fits_usize_def sample_descriptor_def shuffled_descriptor_def sample_device_program_def
      kernel_add_def kernel_out_def)

lemma sample_same_program: "same_program sample_descriptor shuffled_descriptor"
  by (auto simp: same_program_def same_kernel_def sample_program_defs)

section \<open>A KV plan\<close>

definition sample_view :: "u64 \<Rightarrow> u64 list \<Rightarrow> DescriptorView" where
  "sample_view base strides =
     \<lparr>vw_allocation = 7, vw_dims = [2, 4], vw_strides = strides, vw_base = base, vw_span = 32\<rparr>"

definition sample_kv :: "DescriptorView list \<Rightarrow> u32 \<Rightarrow> KvCacheDescriptor" where
  "sample_kv views position =
     \<lparr>kv_allocations = [\<lparr>al_id = 7, al_dtype = DtF32, al_capacity = 64, al_lifetime = PerProgram, al_init = ZeroFill\<rparr>],
      kv_views = views,
      kv_state = \<lparr>iv_position = position, iv_valid_len_after = 0, iv_query_rows = 1, iv_sequence_epoch = 0\<rparr>,
      kv_bindings = [\<lparr>lb_handle = 7, lb_index = 0, lb_offset = 0, lb_span = 64, lb_source = SourcePosition\<rparr>]\<rparr>"

definition kv_a :: KvCacheDescriptor where
  "kv_a = sample_kv [sample_view 0 [4, 1], sample_view 32 [4, 1]] 0"

definition kv_b :: KvCacheDescriptor where
  "kv_b = sample_kv [sample_view 32 [4, 1], sample_view 0 [4, 1]] 9"

lemma sample_kv_valid: "kv_valid kv_a" "kv_valid kv_b"
  by (simp_all add: kv_valid_def allocations_valid_def view_valid_def fits_in_def kv_a_def kv_b_def sample_kv_def
      sample_view_def)

lemma sample_kv_fit: "kv_fits kv_a" "kv_fits kv_b" "views_keyed kv_a" "same_storage kv_a kv_b"
  by (auto simp: kv_fits_def fits_usize_def kv_a_def kv_b_def sample_kv_def sample_view_def views_keyed_def
      same_storage_def)

section \<open>A provider\<close>

definition sample_manifest :: "string \<Rightarrow> string \<Rightarrow> ProviderManifest" where
  "sample_manifest name prefix =
     \<lparr>pm_version = 1, pm_provider = name, pm_owner = ''faber'', pm_prefixes = [prefix],
      pm_calls = [\<lparr>mc_route = prefix @ '':now'', mc_summary = ''clock'', mc_opener = ''vacuum'', mc_result = ''numerus''\<rparr>],
      pm_native_dependencies = []\<rparr>"

definition sample_provider :: "string \<Rightarrow> string \<Rightarrow> Provider" where
  "sample_provider name prefix =
     \<lparr>pv_registration = sample_manifest name prefix,
      pv_dispatch = (\<lambda>_ _. Some (Ok (reply_item (Numerus 5))))\<rparr>"

definition clock_provider :: Provider where
  "clock_provider = sample_provider ''clock'' ''tempus''"

definition sample_kernel :: Kernel where
  "sample_kernel = (case register clock_provider Kernel_new of Ok k \<Rightarrow> k | Err _ \<Rightarrow> Kernel_new)"

definition now_request :: RequestFrame where
  "now_request = \<lparr>rq_conversation_id = ''c'', rq_route = ''tempus:now'', rq_opener = Nihil, rq_target = None\<rparr>"

definition quiet_context :: DispatchContext where
  "quiet_context = \<lparr>dc_cancellation = (\<lambda>_. Some False)\<rparr>"

lemma clock_registers: "register clock_provider Kernel_new = Ok sample_kernel"
proof -
  have "is_ok (register clock_provider Kernel_new)" by code_simp
  then show ?thesis by (cases "register clock_provider Kernel_new") (simp_all add: sample_kernel_def)
qed

lemma sample_kernel_built: "kernel_built sample_kernel [clock_provider]"
  by (rule built_register [OF built_new clock_registers])

lemma random_accepted: "accepts [clock_provider] (sample_provider ''random'' ''aleator'')"
proof -
  have "is_ok (register (sample_provider ''random'' ''aleator'') sample_kernel)"
    unfolding sample_kernel_def by code_simp
  then obtain k' where "register (sample_provider ''random'' ''aleator'') sample_kernel = Ok k'"
    by (cases "register (sample_provider ''random'' ''aleator'') sample_kernel") auto
  with register_accepts_iff [OF built_represents [OF sample_kernel_built]] show ?thesis by blast
qed

lemma now_dispatched: "dispatch sample_kernel now_request quiet_context = Ok (reply_item (Numerus 5))"
  unfolding sample_kernel_def by code_simp

section \<open>A pool that is shut down with a job running\<close>

definition sample_pool ::
    "NativeJob list \<Rightarrow> Shutdown \<Rightarrow> (u64, nat) bmap \<Rightarrow> Worker \<Rightarrow> nat set \<Rightarrow> NativeJob list \<Rightarrow> nat \<Rightarrow> NativeJob list \<Rightarrow>
       (NativeJob \<times> ResponseFrame list) list \<Rightarrow> NativeState" where
  "sample_pool buffer shutdown active worker cancelled pending n accepted answered =
     \<lparr>ns_kernel = sample_kernel, ns_capacity = 4, ns_buffer = buffer, ns_shutdown = shutdown, ns_handles = 1,
      ns_next_job_id = of_nat n, ns_active = active, ns_workers = [worker], ns_cancelled = cancelled,
      ns_pending = pending, ns_started = n, ns_accepted = accepted, ns_answered = answered\<rparr>"

definition sample_job :: NativeJob where
  "sample_job = \<lparr>nj_id = 0, nj_request = \<lparr>sq_conversation_id = ''c'', sq_route = ''tempus:now'', sq_opener = Nihil,
     sq_target = None\<rparr>, nj_token = 8\<rparr>"

definition pool_new :: NativeState where
  "pool_new = initial_state sample_kernel 1 4"

definition pool_shutdown :: NativeState where
  "pool_shutdown = sample_pool [] ShDone [(0, 8)] (WRun sample_job) {8} [] 1 [sample_job] []"

definition sample_answer :: "ResponseFrame list" where
  "sample_answer = run_job sample_kernel sample_job True (\<lambda>_. Some True) (\<lambda>_. True) (\<lambda>_. True)"

definition pool_drained :: NativeState where
  "pool_drained = sample_pool [] ShDone [] WExit {8} [] 1 [sample_job] [(sample_job, sample_answer)]"

lemma sample_route_supported: "supports_route sample_kernel ''tempus:now''"
  unfolding supports_route_def
  by (simp add: rep_routes [OF built_represents [OF sample_kernel_built]] declares_def clock_provider_def
      sample_provider_def sample_manifest_def)

lemmas pool_defs = sample_pool_def shutting_down_def queue_open_def

lemma pool_worker:
  assumes "native_reach pool_new st" "ns_workers st = [pc]"
    and "worker_step True (\<lambda>_. Some True) (\<lambda>_. True) (\<lambda>_. True) 0 st = Some st'"
  shows "native_reach pool_new st'"
  using assms by (intro reach_next [OF assms(1)] step_worker [where w = 0]) simp_all

lemma reach_pool_shutdown: "native_reach pool_new pool_shutdown"
proof -
  let ?j = sample_job and ?pool = sample_pool
  have "native_reach pool_new (?pool [] ShNone [] WIdle {} [] 0 [] [])"
    using reach_refl by (simp add: pool_new_def initial_state_def sample_pool_def)
  moreover have "native_step (?pool [] ShNone [] WIdle {} [] 0 [] []) (?pool [] ShNone [] WIdle {} [?j] 1 [] [])"
    by (rule step_start [where request = "nj_request ?j" and token = 8 and r = "Ok ?j"])
       (simp add: start_request_def sample_route_supported sample_job_def sample_pool_def Let_def)
  moreover have "native_step (?pool [] ShNone [] WIdle {} [?j] 1 [] []) (?pool [?j] ShNone [] WIdle {} [] 1 [?j] [])"
    by (rule step_enqueue [where job = ?j and r = "Ok ()"])
       (simp_all add: enqueue_job_def try_send_def pool_defs Let_def)
  ultimately have "native_reach pool_new (?pool [?j] ShNone [] WIdle {} [] 1 [?j] [])"
    by (blast intro: reach_next)
  then have "native_reach pool_new (?pool [?j] ShNone [] WRecv {} [] 1 [?j] [])"
    by (rule pool_worker) (simp_all add: pool_defs worker_step_def set_worker_def)
  then have "native_reach pool_new (?pool [] ShNone [] (WGot ?j) {} [] 1 [?j] [])"
    by (rule pool_worker) (simp_all add: pool_defs worker_step_def set_worker_def)
  then have "native_reach pool_new (?pool [] ShNone [] (WRegister ?j) {} [] 1 [?j] [])"
    by (rule pool_worker) (simp_all add: pool_defs worker_step_def set_worker_def)
  then have "native_reach pool_new (?pool [] ShNone [(0, 8)] (WRun ?j) {} [] 1 [?j] [])"
    by (rule pool_worker) (simp_all add: pool_defs worker_step_def set_worker_def register_active_job_def sample_job_def)
  then have "native_reach pool_new (shutdown_swap (?pool [] ShNone [(0, 8)] (WRun ?j) {} [] 1 [?j] []))"
    by (rule reach_next [OF _ step_shutdown])
  then have "native_reach pool_new (?pool [] ShFlagged [(0, 8)] (WRun ?j) {} [] 1 [?j] [])"
    by (simp add: shutdown_swap_def pool_defs)
  then have "native_reach pool_new (shutdown_take (?pool [] ShFlagged [(0, 8)] (WRun ?j) {} [] 1 [?j] []))"
    by (rule reach_next [OF _ step_take]) (simp add: pool_defs)
  then have "native_reach pool_new (?pool [] ShTaken [(0, 8)] (WRun ?j) {} [] 1 [?j] [])"
    by (simp add: shutdown_take_def pool_defs)
  then have "native_reach pool_new (shutdown_cancel (?pool [] ShTaken [(0, 8)] (WRun ?j) {} [] 1 [?j] []))"
    by (rule reach_next [OF _ step_cancel_active]) (simp add: pool_defs)
  then show ?thesis by (simp add: shutdown_cancel_def pool_shutdown_def sample_pool_def)
qed

lemma reach_pool_drained: "native_reach pool_new pool_drained"
proof -
  let ?j = sample_job and ?pool = sample_pool
  note reach_pool_shutdown
  then have "native_reach pool_new (?pool [] ShDone [(0, 8)] (WUnregister ?j) {8} [] 1 [?j] [(?j, sample_answer)])"
    unfolding pool_shutdown_def
    by (rule pool_worker) (simp_all add: pool_defs worker_step_def set_worker_def answer_def sample_answer_def)
  then have "native_reach pool_new (?pool [] ShDone [] WIdle {8} [] 1 [?j] [(?j, sample_answer)])"
    by (rule pool_worker)
       (simp_all add: pool_defs worker_step_def set_worker_def unregister_active_job_def bmap_remove_def sample_job_def)
  then have "native_reach pool_new (?pool [] ShDone [] WRecv {8} [] 1 [?j] [(?j, sample_answer)])"
    by (rule pool_worker) (simp_all add: pool_defs worker_step_def set_worker_def)
  then have "native_reach pool_new (?pool [] ShDone [] WExit {8} [] 1 [?j] [(?j, sample_answer)])"
    by (rule pool_worker) (simp_all add: pool_defs worker_step_def set_worker_def)
  then show ?thesis by (simp add: pool_drained_def)
qed

end
