(* ===== verification/Device_Handles.thy ===== *)
theory Device_Handles
  imports Valor Device_Identity
begin

unbundle bit_operations_syntax

text \<open>
  Opaque device handles: the carrier of \<open>host-coordinator/src/device_handle.rs\<close>, the handle registry
  of \<open>host-device-core/src/device_registry.rs\<close> and the typed byte surface of the session trait of
  \<open>host-device-core/src/device_session.rs\<close>. An \<open>f32\<close> is its 32 IEEE bits. The session trait is the
  record \<open>DeviceSession\<close> of functions over a session state; only the operations its provided methods
  call are fields.
\<close>

section \<open>Handles and their control frames\<close>

datatype DeviceHandleKind = HandleModule | HandleBuffer u64

fun DeviceHandleKind_spelling :: "DeviceHandleKind \<Rightarrow> string" where
  "DeviceHandleKind_spelling HandleModule = ''module''"
| "DeviceHandleKind_spelling (HandleBuffer _) = ''buffer''"

record DeviceHandle =
  dh_backend :: DeviceBackend
  dh_kind :: DeviceHandleKind
  dh_id :: u64

definition handle_len_bytes :: "DeviceHandle \<Rightarrow> u64 option" where
  "handle_len_bytes h = (case dh_kind h of HandleModule \<Rightarrow> None | HandleBuffer len \<Rightarrow> Some len)"

text \<open>The casts \<open>as i64\<close> keep the bits.\<close>

definition handle_to_valor :: "DeviceHandle \<Rightarrow> Valor" where
  "handle_to_valor h =
     (let tab = bmap_insert ''device_backend'' (Textus (DeviceBackend_spelling (dh_backend h))) [];
          tab = bmap_insert ''device_kind'' (Textus (DeviceHandleKind_spelling (dh_kind h))) tab;
          tab = bmap_insert ''device_id'' (Numerus (dh_id h)) tab
      in case handle_len_bytes h of
           Some len \<Rightarrow> Tabula (bmap_insert ''len_bytes'' (Numerus len) tab)
         | None \<Rightarrow> Tabula tab)"

definition u64_try_from_i64 :: "i64 \<Rightarrow> u64 option" where
  "u64_try_from_i64 n = (if sint n < 0 then None else Some n)"

definition is_octeti :: "Valor \<Rightarrow> bool" where
  "is_octeti v = (case v of Octeti _ \<Rightarrow> True | _ \<Rightarrow> False)"

definition handle_u64_field :: "FromValor \<Rightarrow> (string, Valor) bmap \<Rightarrow> string \<Rightarrow> u64 option" where
  "handle_u64_field fv tab key =
     Option.bind (bmap_get tab key) (\<lambda>v. Option.bind (i64_from_valor fv v) u64_try_from_i64)"

definition handle_from_valor :: "FromValor \<Rightarrow> Valor \<Rightarrow> DeviceHandle option" where
  "handle_from_valor fv v =
     (case v of
        Tabula tab \<Rightarrow>
          if list_ex is_octeti (bmap_values tab) then None
          else
            Option.bind (Option.bind (bmap_get tab ''device_backend'') (string_from_valor fv)) (\<lambda>spelling.
            Option.bind (DeviceBackend_from_spelling spelling) (\<lambda>backend.
            Option.bind (handle_u64_field fv tab ''device_id'') (\<lambda>i.
            Option.bind (Option.bind (bmap_get tab ''device_kind'') (string_from_valor fv)) (\<lambda>kind.
              if kind = ''module'' then Some \<lparr>dh_backend = backend, dh_kind = HandleModule, dh_id = i\<rparr>
              else if kind = ''buffer'' then
                Option.bind (handle_u64_field fv tab ''len_bytes'') (\<lambda>len.
                  Some \<lparr>dh_backend = backend, dh_kind = HandleBuffer len, dh_id = i\<rparr>)
              else None))))
      | _ \<Rightarrow> None)"

text \<open>A handle survives its control frame exactly when its numbers fit an \<open>i64\<close>.\<close>

definition handle_fits :: "DeviceHandle \<Rightarrow> bool" where
  "handle_fits h \<longleftrightarrow>
     unat (dh_id h) < 2 ^ 63 \<and> (case dh_kind h of HandleModule \<Rightarrow> True | HandleBuffer len \<Rightarrow> unat len < 2 ^ 63)"

lemma sint_nonneg_iff: "0 \<le> sint (n :: i64) \<longleftrightarrow> uint n < 2 ^ 63"
proof
  assume "0 \<le> sint n"
  moreover have "sint n < 2 ^ 63" using sint_lt [of n] by simp
  ultimately have "take_bit 64 (sint n) = sint n" by (simp add: take_bit_int_eq_self)
  then have "uint n = sint n" by (simp add: uint_sint)
  with \<open>sint n < 2 ^ 63\<close> show "uint n < 2 ^ 63" by simp
next
  assume "uint n < 2 ^ 63"
  moreover have "- (2 ^ 63) \<le> uint n" by (rule order_trans [OF _ uint_ge_0]) simp
  ultimately have "signed_take_bit 63 (uint n) = uint n" by (simp only: signed_take_bit_int_eq_self)
  then show "0 \<le> sint n" by (simp add: sint_uint)
qed

lemma u64_try_from_i64_eq: "u64_try_from_i64 n = (if unat n < 2 ^ 63 then Some n else None)"
proof -
  have "unat n < 2 ^ 63 \<longleftrightarrow> uint n < 2 ^ 63"
    unfolding uint_nat by (metis of_nat_less_iff of_nat_numeral of_nat_power)
  with sint_nonneg_iff [of n] show ?thesis by (simp add: u64_try_from_i64_def not_less flip: not_le)
qed

lemma backend_of_spelling: "DeviceBackend_from_spelling (DeviceBackend_spelling b) = Some b"
  by (cases b) (simp_all add: DeviceBackend_from_spelling_def)

context from_valor
begin

lemma handle_roundtrip:
  "handle_from_valor fv (handle_to_valor h) = (if handle_fits h then Some h else None)"
proof -
  obtain b k i where h: "h = \<lparr>dh_backend = b, dh_kind = k, dh_id = i\<rparr>" by (cases h)
  show ?thesis
    by (cases k) (simp_all add: h handle_from_valor_def handle_to_valor_def handle_len_bytes_def handle_u64_field_def
        is_octeti_def string_Textus i64_Numerus backend_of_spelling u64_try_from_i64_eq handle_fits_def)
qed

end

lemma handle_frame_is_scalar:
  assumes "handle_from_valor fv v = Some h"
  shows "\<exists>tab. v = Tabula tab \<and> (\<forall>w\<in>set (bmap_values tab). \<not> is_octeti w)"
  using assms by (auto simp: handle_from_valor_def list_ex_iff split: Valor.Valor.splits if_splits)

section \<open>The handle registry\<close>

record 'k RegisteredHandle =
  rh_kind :: 'k
  rh_token :: u64

record 'k HandleRegistry =
  hr_handles :: "(u64, 'k RegisteredHandle) bmap"
  hr_next_id :: u64

definition HandleRegistry_default :: "'k HandleRegistry" where
  "HandleRegistry_default = \<lparr>hr_handles = [], hr_next_id = 0\<rparr>"

definition HandleRegistry_new :: "'k HandleRegistry" where
  "HandleRegistry_new = \<lparr>hr_handles = [], hr_next_id = 1\<rparr>"

definition registry_insert :: "'k \<Rightarrow> u64 \<Rightarrow> 'k HandleRegistry \<Rightarrow> u64 \<times> 'k HandleRegistry" where
  "registry_insert kind token r =
     (hr_next_id r,
      r\<lparr>hr_next_id := hr_next_id r + 1,
        hr_handles := bmap_insert (hr_next_id r) \<lparr>rh_kind = kind, rh_token = token\<rparr> (hr_handles r)\<rparr>)"

definition registry_get :: "u64 \<Rightarrow> 'k HandleRegistry \<Rightarrow> 'k RegisteredHandle option" where
  "registry_get i r = bmap_get (hr_handles r) i"

definition registry_remove :: "u64 \<Rightarrow> 'k HandleRegistry \<Rightarrow> 'k RegisteredHandle option \<times> 'k HandleRegistry" where
  "registry_remove i r = (bmap_get (hr_handles r) i, r\<lparr>hr_handles := bmap_remove i (hr_handles r)\<rparr>)"

definition registry_len :: "'k HandleRegistry \<Rightarrow> nat" where
  "registry_len r = length (hr_handles r)"

definition registry_is_empty :: "'k HandleRegistry \<Rightarrow> bool" where
  "registry_is_empty r \<longleftrightarrow> hr_handles r = []"

record DriverCounters =
  dc_module_loads :: nat
  dc_module_releases :: nat
  dc_buffer_allocs :: nat
  dc_buffer_releases :: nat
  dc_uploads :: nat

definition no_counters :: DriverCounters where
  "no_counters = \<lparr>dc_module_loads = 0, dc_module_releases = 0, dc_buffer_allocs = 0, dc_buffer_releases = 0,
     dc_uploads = 0\<rparr>"

datatype FakeFailureStage = StageModuleLoad | StageAlloc | StageCopyIn | StageLaunch | StageSync | StageReadback

fun stage_debug :: "FakeFailureStage \<Rightarrow> string" where
  "stage_debug StageModuleLoad = ''ModuleLoad''"
| "stage_debug StageAlloc = ''Alloc''"
| "stage_debug StageCopyIn = ''CopyIn''"
| "stage_debug StageLaunch = ''Launch''"
| "stage_debug StageSync = ''Sync''"
| "stage_debug StageReadback = ''Readback''"

text \<open>The derived order of the stages: that of their declaration.\<close>

fun stage_rank :: "FakeFailureStage \<Rightarrow> nat" where
  "stage_rank StageModuleLoad = 0"
| "stage_rank StageAlloc = 1"
| "stage_rank StageCopyIn = 2"
| "stage_rank StageLaunch = 3"
| "stage_rank StageSync = 4"
| "stage_rank StageReadback = 5"

lemma stage_rank_eq_iff: "stage_rank a = stage_rank b \<longleftrightarrow> a = b"
  by (cases a; cases b) simp_all

instantiation FakeFailureStage :: linorder
begin

definition less_eq_FakeFailureStage :: "FakeFailureStage \<Rightarrow> FakeFailureStage \<Rightarrow> bool" where
  "a \<le> b \<longleftrightarrow> stage_rank a \<le> stage_rank b"

definition less_FakeFailureStage :: "FakeFailureStage \<Rightarrow> FakeFailureStage \<Rightarrow> bool" where
  "a < b \<longleftrightarrow> stage_rank a < stage_rank b"

instance
  by standard (auto simp: less_eq_FakeFailureStage_def less_FakeFailureStage_def simp flip: stage_rank_eq_iff)

end

text \<open>\<open>entry(stage).or_insert(0)\<close> and the increment of the fake drivers.\<close>

definition count_stage_call ::
    "FakeFailureStage \<Rightarrow> (FakeFailureStage, u32) bmap \<Rightarrow> u32 \<times> (FakeFailureStage, u32) bmap" where
  "count_stage_call stage calls =
     (let call = (case bmap_get calls stage of Some n \<Rightarrow> n | None \<Rightarrow> 0) + 1
      in (call, bmap_insert stage call calls))"

text \<open>
  The registry against its contract: ids are handed out once, in order from one, and an id resolves
  exactly to what it was inserted with until it is removed. \<open>registry_inv n r\<close> holds after \<open>n\<close>
  insertions.
\<close>

definition registry_inv :: "nat \<Rightarrow> 'k HandleRegistry \<Rightarrow> bool" where
  "registry_inv n r \<longleftrightarrow>
     bmap_ok (hr_handles r) \<and> hr_next_id r = of_nat (Suc n) \<and>
     (\<forall>i\<in>fst ` set (hr_handles r). 0 < unat i \<and> unat i \<le> n)"

lemma registry_inv_new: "registry_inv 0 HandleRegistry_new"
  by (simp add: registry_inv_def HandleRegistry_new_def)

lemma registry_inv_remove: "registry_inv n r \<Longrightarrow> registry_inv n (snd (registry_remove i r))"
  by (auto simp: registry_inv_def registry_remove_def bmap_remove_def)

lemma registry_insert_fresh:
  assumes "registry_inv n r" "Suc n < 2 ^ 64"
  shows "unat (fst (registry_insert kind token r)) = Suc n"
    and "registry_get (fst (registry_insert kind token r)) r = None"
    and "registry_inv (Suc n) (snd (registry_insert kind token r))"
proof -
  show i: "unat (fst (registry_insert kind token r)) = Suc n"
    using assms by (simp add: registry_insert_def registry_inv_def unat_of_nat take_bit_nat_eq_self del: of_nat_Suc)
  then have "fst (registry_insert kind token r) \<notin> fst ` set (hr_handles r)"
    using assms(1) by (fastforce simp: registry_inv_def)
  then show "registry_get (fst (registry_insert kind token r)) r = None"
    by (simp add: registry_get_def map_of_eq_None_iff)
  from assms(1) i show "registry_inv (Suc n) (snd (registry_insert kind token r))"
    by (auto simp: registry_inv_def registry_insert_def le_Suc_eq add.commute)
qed

lemma registry_get_insert:
  "bmap_ok (hr_handles r) \<Longrightarrow> registry_get j (snd (registry_insert kind token r)) =
     (if j = fst (registry_insert kind token r) then Some \<lparr>rh_kind = kind, rh_token = token\<rparr> else registry_get j r)"
  by (simp add: registry_get_def registry_insert_def)

lemma registry_get_remove:
  "registry_get j (snd (registry_remove i r)) = (if j = i then None else registry_get j r)"
  by (simp add: registry_get_def registry_remove_def)

section \<open>The typed byte surface of a session\<close>

record 's DeviceSession =
  ds_copy_in_bytes :: "DeviceHandle \<Rightarrow> u8 list \<Rightarrow> DeviceDataType \<Rightarrow> 's \<Rightarrow> (unit, HostError) result \<times> 's"
  ds_readback_bytes :: "DeviceHandle \<Rightarrow> DeviceDataType \<Rightarrow> 's \<Rightarrow> (u8 list, HostError) result \<times> 's"

definition session_copy_in_f32 ::
    "'s DeviceSession \<Rightarrow> DeviceHandle \<Rightarrow> u32 list \<Rightarrow> 's \<Rightarrow> (unit, HostError) result \<times> 's" where
  "session_copy_in_f32 ds buffer vals s =
     ds_copy_in_bytes ds buffer (concat (map u32_to_le_bytes vals)) DtF32 s"

text \<open>\<open>f32::from_le_bytes\<close>, and \<open>chunks_exact(4)\<close> followed by it.\<close>

definition u32_from_le_bytes :: "u8 \<Rightarrow> u8 \<Rightarrow> u8 \<Rightarrow> u8 \<Rightarrow> u32" where
  "u32_from_le_bytes a b c d =
     ucast a OR push_bit 8 (ucast b) OR push_bit 16 (ucast c) OR push_bit 24 (ucast d)"

fun f32_of_chunks :: "u8 list \<Rightarrow> u32 list" where
  "f32_of_chunks (a # b # c # d # rest) = u32_from_le_bytes a b c d # f32_of_chunks rest"
| "f32_of_chunks _ = []"

definition session_readback_f32 ::
    "'s DeviceSession \<Rightarrow> DeviceHandle \<Rightarrow> 's \<Rightarrow> (u32 list, HostError) result \<times> 's" where
  "session_readback_f32 ds buffer s =
     (case ds_readback_bytes ds buffer DtF32 s of
        (Err e, s) \<Rightarrow> (Err e, s)
      | (Ok bytes, s) \<Rightarrow>
          (if length bytes mod 4 \<noteq> 0 then
             Err (HostError_internal ''f32 readback returned an unexpected byte length'')
           else Ok (f32_of_chunks bytes), s))"

lemma u32_le_roundtrip:
  "u32_to_le_bytes v = [a, b, c, d] \<longleftrightarrow> v = u32_from_le_bytes a b c d"
proof -
  have "u32_to_le_bytes (u32_from_le_bytes a b c d) = [a, b, c, d]"
    unfolding u32_to_le_bytes_def u32_from_le_bytes_def list.map list.inject
    by (intro conjI bit_word_eqI) (auto simp: bit_simps dest: bit_imp_le_length)
  then show ?thesis by (metis u32_to_le_bytes_eq_iff)
qed

lemma f32_of_chunks_concat: "f32_of_chunks (concat (map u32_to_le_bytes vals)) = vals"
proof (induction vals)
  case (Cons v vals)
  obtain a b c d where v: "u32_to_le_bytes v = [a, b, c, d]" by (simp add: u32_to_le_bytes_def)
  with Cons u32_le_roundtrip [of v a b c d] show ?case by simp
qed simp

section \<open>What the fake drivers share\<close>

text \<open>
  Both fakes simulate kernels on the bytes of their buffers. The sums and products of \<open>f32\<close> are those
  of the hardware: an argument. \<open>map_words f a b out\<close> is the loop that reads the words of \<open>a\<close> and \<open>b\<close>
  and overwrites the words of \<open>out\<close>, up to the length of the shortest.
\<close>

record Float32 =
  f32_add :: "u32 \<Rightarrow> u32 \<Rightarrow> u32"
  f32_mul :: "u32 \<Rightarrow> u32 \<Rightarrow> u32"

type_synonym grid3 = "u32 \<times> u32 \<times> u32"

fun map_words :: "(u32 \<Rightarrow> u32 \<Rightarrow> u32) \<Rightarrow> u8 list \<Rightarrow> u8 list \<Rightarrow> u8 list \<Rightarrow> u8 list" where
  "map_words f (a # b # c # d # rest) (a' # b' # c' # d' # rest') (_ # _ # _ # _ # out) =
     u32_to_le_bytes (f (u32_from_le_bytes a b c d) (u32_from_le_bytes a' b' c' d')) @ map_words f rest rest' out"
| "map_words f _ _ out = out"

lemma length_map_words [simp]: "length (map_words f a b out) = length out"
  by (induction f a b out rule: map_words.induct) simp_all

end
