(* ===== verification/State_Flow.thy ===== *)
theory State_Flow
  imports Result_Flow
begin

text \<open>
  The control flow of methods that take \<open>&mut self\<close> and return a \<open>Result\<close>: a step maps a state to
  its answer and the state it leaves behind, also when the answer is an error. \<open>sthen\<close> is the
  operator \<open>?\<close> on such steps, \<open>slift\<close> a check that does not touch the state, \<open>son\<close> a step of a
  part of the state, \<open>sfold\<close> a loop that stops at the first error.
\<close>

type_synonym ('s, 'a, 'e) step = "'s \<Rightarrow> ('a, 'e) result \<times> 's"

definition sthen :: "('s, 'a, 'e) step \<Rightarrow> ('a \<Rightarrow> ('s, 'b, 'e) step) \<Rightarrow> ('s, 'b, 'e) step" where
  "sthen m f s = (case m s of (Ok x, t) \<Rightarrow> f x t | (Err e, t) \<Rightarrow> (Err e, t))"

definition slift :: "('a, 'e) result \<Rightarrow> ('s, 'a, 'e) step" where
  "slift r s = (r, s)"

definition sget :: "('s \<Rightarrow> ('a, 'e) result) \<Rightarrow> ('s, 'a, 'e) step" where
  "sget f s = (f s, s)"

definition smodify :: "('s \<Rightarrow> 's) \<Rightarrow> ('s, unit, 'e) step" where
  "smodify f s = (Ok (), f s)"

definition son :: "('s \<Rightarrow> 't) \<Rightarrow> ('t \<Rightarrow> 's \<Rightarrow> 's) \<Rightarrow> ('t, 'a, 'e) step \<Rightarrow> ('s, 'a, 'e) step" where
  "son get put m s = (case m (get s) of (r, t) \<Rightarrow> (r, put t s))"

fun sfold :: "('x \<Rightarrow> ('s, unit, 'e) step) \<Rightarrow> 'x list \<Rightarrow> ('s, unit, 'e) step" where
  "sfold f [] s = (Ok (), s)"
| "sfold f (x # xs) s = sthen (f x) (\<lambda>_. sfold f xs) s"

lemma sthen_simps [simp]:
  "sthen (slift (Ok x)) f s = f x s"
  "sthen (slift (Err e)) f s = (Err e, s)"
  "sthen (smodify g) f' s = f' () (g s)"
  by (simp_all add: sthen_def slift_def smodify_def)

lemma slift_apply: "slift r s = (r, s)"
  by (simp add: slift_def)

lemma sthen_Ok_iff [flow]:
  "sthen m f s = (Ok y, t) \<longleftrightarrow> (\<exists>x s'. m s = (Ok x, s') \<and> f x s' = (Ok y, t))"
  by (auto simp: sthen_def split: prod.split result.split)

lemma sthen_cases:
  assumes "sthen m f s = (r, t)"
  obtains e where "m s = (Err e, t)" "r = Err e"
  | x s' where "m s = (Ok x, s')" "f x s' = (r, t)"
  using assms by (auto simp: sthen_def split: prod.splits result.splits)

lemma sthen_lift: "sthen (slift r) f s = (case r of Ok x \<Rightarrow> f x s | Err e \<Rightarrow> (Err e, s))"
  by (simp add: sthen_def slift_def split: result.split)

lemma sthen_get: "sthen (sget g) f s = (case g s of Ok x \<Rightarrow> f x s | Err e \<Rightarrow> (Err e, s))"
  by (simp add: sthen_def sget_def split: result.split)

text \<open>What every step of a kind keeps, a sequence of them keeps.\<close>

definition preserves :: "('s \<Rightarrow> bool) \<Rightarrow> ('s, 'a, 'e) step \<Rightarrow> bool" where
  "preserves I m \<longleftrightarrow> (\<forall>s. I s \<longrightarrow> I (snd (m s)))"

lemma preservesI: "(\<And>s. I s \<Longrightarrow> I (snd (m s))) \<Longrightarrow> preserves I m"
  by (simp add: preserves_def)

lemma preservesD: "preserves I m \<Longrightarrow> I s \<Longrightarrow> m s = (r, t) \<Longrightarrow> I t"
  by (metis preserves_def snd_conv)

lemma preserves_snd: "preserves I m \<Longrightarrow> I s \<Longrightarrow> I (snd (m s))"
  by (simp add: preserves_def)

named_theorems keeps \<open>steps that keep an invariant\<close>

lemma preserves_sthen [keeps]:
  assumes "preserves I m" "\<And>x. preserves I (f x)"
  shows "preserves I (sthen m f)"
proof (rule preservesI)
  fix s assume "I s"
  obtain r t where st: "sthen m f s = (r, t)" by (cases "sthen m f s")
  then have "I t" using assms \<open>I s\<close> by (cases rule: sthen_cases) (auto dest: preservesD)
  with st show "I (snd (sthen m f s))" by simp
qed

lemma preserves_slift [keeps]: "preserves I (slift r)"
  by (simp add: preserves_def slift_def)

lemma preserves_sget [keeps]: "preserves I (sget f)"
  by (simp add: preserves_def sget_def)

lemma preserves_smodify [keeps]: "(\<And>s. I s \<Longrightarrow> I (f s)) \<Longrightarrow> preserves I (smodify f)"
  by (simp add: preserves_def smodify_def)

lemma preserves_sfold [keeps]:
  assumes "\<And>x. preserves I (f x)"
  shows "preserves I (sfold f xs)"
proof (induction xs)
  case Nil
  show ?case by (simp add: preserves_def)
next
  case (Cons x xs)
  have "sfold f (x # xs) = sthen (f x) (\<lambda>_. sfold f xs)" by (simp add: fun_eq_iff)
  with assms Cons show ?case by (metis preserves_sthen)
qed

end
