(* ===== verification/Device_Driver.thy ===== *)
theory Device_Driver
  imports Device_Handles State_Flow
begin

text \<open>
  The contract between a native device session and its driver. Both \<open>CudaDriver\<close> and \<open>MetalDriver\<close>
  are traits whose implementations create modules and buffers under tokens; a session registers every
  token under an opaque handle. The locale \<open>device_driver\<close> states what a session relies on, in terms
  of the modules and the buffer contents a driver holds. The lemmas show once for both sessions that
  the registry and the driver hold the same objects.

  \<open>bytes_of\<close> reads the bytes of the slice that is copied in and \<open>src_ok d src\<close> says that the slice is what
  it claims to be for the mappings \<open>d\<close> retains; after a copy the buffer starts with those bytes. \<open>room d\<close>
  says that the driver can still number an object: the fakes number tokens with a \<open>u64\<close>.
\<close>

lemma set_bmap_insert:
  assumes "bmap_ok m"
  shows "(k', v') \<in> set (bmap_insert k v m) \<longleftrightarrow> (if k' = k then v' = v else (k', v') \<in> set m)"
proof -
  have ok: "bmap_ok (bmap_insert k v m)" using assms by simp
  show ?thesis
    using bmap_get_iff_mem [OF ok, of k' v'] bmap_get_iff_mem [OF assms, of k' v'] assms by auto
qed

lemma length_bmap_insert_new: "k \<notin> fst ` set m \<Longrightarrow> length (bmap_insert k v m) = Suc (length m)"
  by (induction m) auto

lemma length_bmap_insert_old: "bmap_ok m \<Longrightarrow> k \<in> fst ` set m \<Longrightarrow> length (bmap_insert k v m) = length m"
  using bmap_ok_distinct [of m] bmap_ok_distinct [OF bmap_ok_insert, of m k v] fst_bmap_insert [of k v m]
  by (metis distinct_card image_set insert_absorb length_map)

lemma length_bmap_remove: "bmap_ok m \<Longrightarrow> k \<in> fst ` set m \<Longrightarrow> Suc (length (bmap_remove k m)) = length m"
proof -
  assume m: "bmap_ok m" "k \<in> fst ` set m"
  have "fst ` set (bmap_remove k m) = fst ` set m - {k}" by (force simp: bmap_remove_def)
  then have "card (fst ` set (bmap_remove k m)) = card (fst ` set m) - 1" using m(2) by simp
  moreover have "card (fst ` set x) = length x" if "bmap_ok x" for x :: "('a, 'b) bmap"
    using bmap_ok_distinct [OF that] by (metis distinct_card image_set length_map)
  moreover have "0 < length m" using m(2) by (cases m) auto
  ultimately show ?thesis using m(1) by simp
qed

text \<open>The kinds both sessions register (\<open>CudaHandleKind\<close>, \<open>MetalHandleKind\<close>).\<close>

datatype HandleKind = KindModule | KindBuffer nat

definition has_kind :: "'k \<Rightarrow> u64 \<Rightarrow> 'k HandleRegistry \<Rightarrow> u64 \<Rightarrow> bool" where
  "has_kind kind i r t \<longleftrightarrow> registry_get i r = Some \<lparr>rh_kind = kind, rh_token = t\<rparr>"

definition token_of :: "u64 \<Rightarrow> 'k HandleRegistry \<Rightarrow> u64 option" where
  "token_of i r = map_option rh_token (registry_get i r)"

definition module_tokens :: "HandleKind HandleRegistry \<Rightarrow> u64 set" where
  "module_tokens r = {t. \<exists>i. has_kind KindModule i r t}"

definition buffer_tokens :: "HandleKind HandleRegistry \<Rightarrow> u64 set" where
  "buffer_tokens r = {t. \<exists>i len. has_kind (KindBuffer len) i r t}"

definition tokens_distinct :: "'k HandleRegistry \<Rightarrow> bool" where
  "tokens_distinct r \<longleftrightarrow> (\<forall>i j t. token_of i r = Some t \<longrightarrow> token_of j r = Some t \<longrightarrow> i = j)"

lemma token_of_iff: "token_of i r = Some t \<longleftrightarrow> (\<exists>kind. has_kind kind i r t)"
proof (cases "registry_get i r")
  case (Some h)
  then show ?thesis by (cases h) (auto simp: token_of_def has_kind_def)
qed (simp add: token_of_def has_kind_def)

lemma all_tokens: "module_tokens r \<union> buffer_tokens r = {t. \<exists>i. token_of i r = Some t}"
proof -
  have "(\<exists>kind. P kind) \<longleftrightarrow> P KindModule \<or> (\<exists>len. P (KindBuffer len))" for P
    by (metis HandleKind.exhaust)
  then show ?thesis by (auto simp: module_tokens_def buffer_tokens_def token_of_iff)
qed

locale device_driver =
  fixes load :: "u8 list \<Rightarrow> ('d, u64, HostError) step"
    and alloc :: "nat \<Rightarrow> ('d, u64, HostError) step"
    and copy_in :: "u64 \<Rightarrow> 'b \<Rightarrow> ('d, unit, HostError) step"
    and bytes_of :: "'b \<Rightarrow> u8 list"
    and src_ok :: "'d \<Rightarrow> 'b \<Rightarrow> bool"
    and copy_out :: "u64 \<Rightarrow> nat \<Rightarrow> ('d, u8 list, HostError) step"
    and free :: "u64 \<Rightarrow> ('d, unit, HostError) step"
    and launch_add :: "u64 \<Rightarrow> u64 \<Rightarrow> u64 \<Rightarrow> u64 \<Rightarrow> nat \<Rightarrow> ('d, unit, HostError) step"
    and launch :: "u64 \<Rightarrow> string \<Rightarrow> u64 list \<Rightarrow> grid3 \<Rightarrow> grid3 \<Rightarrow> ('d, unit, HostError) step"
    and sync :: "('d, unit, HostError) step"
    and driver_ok :: "'d \<Rightarrow> bool"
    and room :: "'d \<Rightarrow> bool"
    and mods :: "'d \<Rightarrow> u64 set"
    and mem :: "'d \<Rightarrow> u64 \<Rightarrow> u8 list option"
  assumes load_Ok: "driver_ok d \<Longrightarrow> room d \<Longrightarrow> load img d = (Ok t, d') \<Longrightarrow>
      driver_ok d' \<and> t \<notin> mods d \<union> dom (mem d) \<and> mods d' = insert t (mods d) \<and> mem d' = mem d"
    and load_Err: "driver_ok d \<Longrightarrow> load img d = (Err e, d') \<Longrightarrow> driver_ok d' \<and> mods d' = mods d \<and> mem d' = mem d"
    and alloc_Ok: "driver_ok d \<Longrightarrow> room d \<Longrightarrow> alloc len d = (Ok t, d') \<Longrightarrow>
      driver_ok d' \<and> t \<notin> mods d \<union> dom (mem d) \<and> mods d' = mods d \<and> mem d' = (mem d)(t \<mapsto> replicate len 0)"
    and alloc_Err: "driver_ok d \<Longrightarrow> alloc len d = (Err e, d') \<Longrightarrow> driver_ok d' \<and> mods d' = mods d \<and> mem d' = mem d"
    and copy_in_Ok: "driver_ok d \<Longrightarrow> copy_in t src d = (Ok u, d') \<Longrightarrow>
      driver_ok d' \<and> mods d' = mods d \<and> t \<in> dom (mem d) \<and>
      (\<exists>c. mem d' = (mem d)(t \<mapsto> c) \<and> (src_ok d src \<longrightarrow> take (length (bytes_of src)) c = bytes_of src))"
    and copy_in_Err: "driver_ok d \<Longrightarrow> copy_in t src d = (Err e, d') \<Longrightarrow>
      driver_ok d' \<and> mods d' = mods d \<and> mem d' = mem d"
    and copy_out_Ok: "driver_ok d \<Longrightarrow> copy_out t len d = (Ok bytes, d') \<Longrightarrow>
      driver_ok d' \<and> mods d' = mods d \<and> mem d' = mem d \<and> (\<exists>c. mem d t = Some c \<and> bytes = take len c)"
    and copy_out_Err: "driver_ok d \<Longrightarrow> copy_out t len d = (Err e, d') \<Longrightarrow>
      driver_ok d' \<and> mods d' = mods d \<and> mem d' = mem d"
    and free_any: "driver_ok d \<Longrightarrow> free t d = (r, d') \<Longrightarrow>
      driver_ok d' \<and> mods d' = mods d - {t} \<and> mem d' = (mem d)(t := None)"
    and launch_any: "driver_ok d \<Longrightarrow> launch m entry ts grid block d = (r, d') \<Longrightarrow>
      driver_ok d' \<and> mods d' = mods d \<and> dom (mem d') = dom (mem d)"
    and launch_add_any: "driver_ok d \<Longrightarrow> launch_add m a b out len d = (r, d') \<Longrightarrow>
      driver_ok d' \<and> mods d' = mods d \<and> dom (mem d') = dom (mem d)"
    and sync_any: "driver_ok d \<Longrightarrow> sync d = (r, d') \<Longrightarrow> driver_ok d' \<and> mods d' = mods d \<and> mem d' = mem d"

text \<open>
  The registry of a session and its driver hold the same objects, each under one handle; \<open>n\<close> handles
  have been handed out.
\<close>

definition registered :: "nat \<Rightarrow> HandleKind HandleRegistry \<Rightarrow> u64 set \<Rightarrow> u64 set \<Rightarrow> bool" where
  "registered n r modules buffers \<longleftrightarrow>
     registry_inv n r \<and> tokens_distinct r \<and> module_tokens r = modules \<and> buffer_tokens r = buffers"

lemma has_kind_insert:
  assumes "registry_inv n r" "Suc n < 2 ^ 64" "registry_insert kind t r = (i, r')"
  shows "has_kind k j r' u \<longleftrightarrow> (if j = i then k = kind \<and> u = t else has_kind k j r u)"
  using registry_get_insert [of r j kind t] assms by (auto simp: has_kind_def registry_inv_def)

lemma token_of_insert:
  assumes "registry_inv n r" "Suc n < 2 ^ 64" "registry_insert kind t r = (i, r')"
  shows "token_of j r' = (if j = i then Some t else token_of j r)"
  using registry_get_insert [of r j kind t] assms by (simp add: token_of_def registry_inv_def)

lemma registered_insert:
  assumes "registered n r modules buffers" "Suc n < 2 ^ 64" "t \<notin> modules \<union> buffers"
    and ins: "registry_insert kind t r = (i, r')"
  shows "registered (Suc n) r'
    (if kind = KindModule then insert t modules else modules) (if kind = KindModule then buffers else insert t buffers)"
proof -
  have inv: "registry_inv n r" and dist: "tokens_distinct r"
    and toks: "module_tokens r = modules" "buffer_tokens r = buffers"
    using assms(1) by (simp_all add: registered_def)
  have fresh: "registry_get i r = None" and inv': "registry_inv (Suc n) r'"
    using registry_insert_fresh [OF inv assms(2), of kind t] ins by simp_all
  note kinds = has_kind_insert [OF inv assms(2) ins] and tok = token_of_insert [OF inv assms(2) ins]
  have none: "\<not> has_kind k i r u" "token_of i r = None" for k u
    using fresh by (simp_all add: has_kind_def token_of_def)
  have "token_of j r \<noteq> Some t" for j
    using assms(3) all_tokens [of r] unfolding toks by blast
  with dist have "tokens_distinct r'" by (auto simp: tokens_distinct_def tok split: if_splits)
  moreover have any: "(\<exists>j. has_kind k j r' u) \<longleftrightarrow> k = kind \<and> u = t \<or> (\<exists>j. has_kind k j r u)" for k u
    unfolding kinds using none(1) by metis
  have "module_tokens r' = (if kind = KindModule then insert t modules else modules)"
    unfolding module_tokens_def any by (auto simp: module_tokens_def simp flip: toks)
  moreover have "buffer_tokens r' = (if kind = KindModule then buffers else insert t buffers)"
  proof -
    have "(\<exists>j len. has_kind (KindBuffer len) j r' u) \<longleftrightarrow> (kind \<noteq> KindModule \<and> u = t) \<or> u \<in> buffer_tokens r" for u
      using any [of "KindBuffer _" u] unfolding buffer_tokens_def
      by (cases kind) (simp_all, metis+)
    then show ?thesis by (auto simp: buffer_tokens_def simp flip: toks)
  qed
  ultimately show ?thesis using inv' by (simp add: registered_def)
qed

lemma registered_remove:
  assumes "registered n r modules buffers" and rem: "registry_remove i r = (Some h, r')"
  shows "registered n r' (modules - {rh_token h}) (buffers - {rh_token h})"
proof -
  have inv: "registry_inv n r" and dist: "tokens_distinct r"
    and toks: "module_tokens r = modules" "buffer_tokens r = buffers"
    using assms(1) by (simp_all add: registered_def)
  have get: "registry_get j r' = (if j = i then None else registry_get j r)" for j
    using registry_get_remove [of j i r] rem by simp
  have here: "token_of i r = Some (rh_token h)"
    using rem by (simp add: token_of_def registry_get_def registry_remove_def)
  have kinds: "has_kind k j r' u \<longleftrightarrow> j \<noteq> i \<and> has_kind k j r u" for k j u
    by (simp add: has_kind_def get)
  have other: "has_kind k j r u \<Longrightarrow> j \<noteq> i \<longleftrightarrow> u \<noteq> rh_token h" for k j u
    using dist here unfolding tokens_distinct_def token_of_iff by (metis here option.inject token_of_iff)
  have "tokens_distinct r'"
    using dist unfolding tokens_distinct_def by (auto simp: token_of_def get)
  moreover have "module_tokens r' = modules - {rh_token h}" "buffer_tokens r' = buffers - {rh_token h}"
    using other by (auto simp: module_tokens_def buffer_tokens_def kinds simp flip: toks)
  moreover have "registry_inv n r'"
    using registry_inv_remove [OF inv, of i] rem by simp
  ultimately show ?thesis by (simp add: registered_def)
qed

lemma registered_new: "registered 0 HandleRegistry_new {} {}"
  using registry_inv_new
  by (simp add: registered_def tokens_distinct_def module_tokens_def buffer_tokens_def
      has_kind_def token_of_def registry_get_def HandleRegistry_new_def)

text \<open>The live handles are as many as the objects.\<close>

lemma registered_count:
  assumes "registered n r modules buffers" "modules \<inter> buffers = {}"
  shows "finite modules" "finite buffers" "registry_len r = card modules + card buffers"
proof -
  have ok: "bmap_ok (hr_handles r)" and dist: "tokens_distinct r"
    and toks: "module_tokens r = modules" "buffer_tokens r = buffers"
    using assms(1) by (simp_all add: registered_def registry_inv_def)
  let ?tok = "\<lambda>p. rh_token (snd p)"
  have get: "registry_get i r = Some h \<longleftrightarrow> (i, h) \<in> set (hr_handles r)" for i h
    by (simp add: registry_get_def bmap_get_iff_mem [OF ok])
  have "token_of i r = Some t \<longleftrightarrow> (\<exists>h. (i, h) \<in> set (hr_handles r) \<and> rh_token h = t)" for i t
    by (auto simp: token_of_def get simp flip: get)
  then have mem: "modules \<union> buffers = ?tok ` set (hr_handles r)"
    using all_tokens [of r] unfolding toks by force
  then have "finite (modules \<union> buffers)" by simp
  then show fin: "finite modules" "finite buffers" by simp_all
  have "inj_on ?tok (set (hr_handles r))"
  proof (rule inj_onI)
    fix p q assume p: "p \<in> set (hr_handles r)" and q: "q \<in> set (hr_handles r)" and eq: "?tok p = ?tok q"
    from p q get have "registry_get (fst p) r = Some (snd p)" "registry_get (fst q) r = Some (snd q)" by simp_all
    with dist eq have "fst p = fst q" unfolding tokens_distinct_def token_of_def by (metis option.simps(9))
    with \<open>registry_get (fst p) r = _\<close> \<open>registry_get (fst q) r = _\<close> show "p = q" by (simp add: prod_eq_iff)
  qed
  then have "card (modules \<union> buffers) = length (hr_handles r)"
    unfolding mem using bmap_ok_distinct [OF ok] by (simp add: card_image distinct_card distinct_map)
  then show "registry_len r = card modules + card buffers"
    using assms(2) fin by (simp add: registry_len_def card_Un_disjoint)
qed

section \<open>A session in step with its driver\<close>

definition in_step ::
    "('d \<Rightarrow> bool) \<Rightarrow> ('d \<Rightarrow> u64 set) \<Rightarrow> ('d \<Rightarrow> u64 \<Rightarrow> u8 list option) \<Rightarrow> 'd \<Rightarrow> HandleKind HandleRegistry \<Rightarrow> bool" where
  "in_step driver_ok mods mem d r \<longleftrightarrow>
     driver_ok d \<and> mods d \<inter> dom (mem d) = {} \<and> (\<exists>n. Suc n < 2 ^ 64 \<and> registered n r (mods d) (dom (mem d)))"

definition ids_left :: "'k HandleRegistry \<Rightarrow> bool" where
  "ids_left r \<longleftrightarrow> unat (hr_next_id r) + 1 < 2 ^ 64"

lemma in_step_new:
  assumes "driver_ok d" "mods d = {}" "mem d = Map.empty"
  shows "in_step driver_ok mods mem d HandleRegistry_new"
  using assms registered_new by (auto simp: in_step_def intro!: exI [of _ 0])

lemma in_step_same:
  assumes "in_step driver_ok mods mem d r" "driver_ok d' \<and> mods d' = mods d \<and> dom (mem d') = dom (mem d)"
  shows "in_step driver_ok mods mem d' r"
  using assms by (simp add: in_step_def)

lemma in_step_insert:
  assumes "in_step driver_ok mods mem d r" "ids_left r" "registry_insert kind t r = (i, r')"
    and d': "driver_ok d'" "t \<notin> mods d \<union> dom (mem d)"
      "mods d' = (if kind = KindModule then insert t (mods d) else mods d)"
      "dom (mem d') = (if kind = KindModule then dom (mem d) else insert t (dom (mem d)))"
  shows "in_step driver_ok mods mem d' r'"
proof -
  obtain n where n: "Suc n < 2 ^ 64" "registered n r (mods d) (dom (mem d))"
    using assms(1) by (auto simp: in_step_def)
  then have "unat (hr_next_id r) = Suc n"
    by (simp add: registered_def registry_inv_def unat_of_nat take_bit_nat_eq_self del: of_nat_Suc)
  with assms(2) have "Suc (Suc n) < 2 ^ 64" by (simp add: ids_left_def)
  moreover have "registered (Suc n) r' (mods d') (dom (mem d'))"
    unfolding d'(3,4) by (rule registered_insert [OF n(2,1) d'(2) assms(3)])
  moreover have "mods d' \<inter> dom (mem d') = {}"
    using assms(1) d'(2) unfolding d'(3,4) in_step_def by auto
  ultimately show ?thesis using d'(1) unfolding in_step_def by blast
qed

lemma in_step_remove:
  assumes "in_step driver_ok mods mem d r" "registry_remove i r = (Some h, r')"
    and d': "driver_ok d' \<and> mods d' = mods d - {rh_token h} \<and> mem d' = (mem d)(rh_token h := None)"
  shows "in_step driver_ok mods mem d' r'"
proof -
  obtain n where n: "Suc n < 2 ^ 64" "registered n r (mods d) (dom (mem d))"
    using assms(1) by (auto simp: in_step_def)
  then have "registered n r' (mods d') (dom (mem d'))"
    using registered_remove [OF n(2) assms(2)] d' by simp
  with n(1) assms(1) d' show ?thesis by (auto simp: in_step_def)
qed

lemma in_step_count:
  assumes "in_step driver_ok mods mem d r"
  shows "registry_len r = card (mods d) + card (dom (mem d))"
  using assms registered_count(3) by (auto simp: in_step_def)

text \<open>An identity that was handed out and is gone never comes back.\<close>

definition dead_id :: "u64 \<Rightarrow> 'k HandleRegistry \<Rightarrow> bool" where
  "dead_id i r \<longleftrightarrow> registry_get i r = None \<and> unat i < unat (hr_next_id r)"

lemma dead_insert:
  assumes "dead_id i r" "ids_left r" "bmap_ok (hr_handles r)"
  shows "dead_id i (snd (registry_insert kind t r))"
proof -
  have "unat (hr_next_id r + 1) = unat (hr_next_id r) + 1"
    using assms(2) by (simp add: ids_left_def unat_add_u64)
  moreover have "hr_next_id r \<noteq> i" using assms(1) by (auto simp: dead_id_def)
  ultimately show ?thesis
    using assms(1,3) registry_get_insert [of r i kind t] by (simp add: dead_id_def registry_insert_def)
qed

lemma dead_remove: "dead_id i r \<Longrightarrow> dead_id i (snd (registry_remove j r))"
  using registry_get_remove [of i j r] by (simp add: dead_id_def registry_remove_def)

lemma in_step_map: "in_step driver_ok mods mem d r \<Longrightarrow> bmap_ok (hr_handles r)"
  by (auto simp: in_step_def registered_def registry_inv_def)

text \<open>
  Identities are handed out in order whatever the driver answers, so a released one stays dead over
  every driver, as long as the counter of the registry does not wrap.
\<close>

definition numbered :: "'k HandleRegistry \<Rightarrow> bool" where
  "numbered r \<longleftrightarrow> (\<exists>n. Suc n < 2 ^ 64 \<and> registry_inv n r)"

lemma numbered_new: "numbered HandleRegistry_new"
  unfolding numbered_def by (intro exI [of _ 0]) (simp add: registry_inv_new)

lemma numbered_map: "numbered r \<Longrightarrow> bmap_ok (hr_handles r)"
  by (auto simp: numbered_def registry_inv_def)

lemma numbered_insert:
  assumes "numbered r" "ids_left r"
  shows "numbered (snd (registry_insert kind t r))"
proof -
  obtain n where n: "Suc n < 2 ^ 64" "registry_inv n r" using assms(1) by (auto simp: numbered_def)
  then have "unat (hr_next_id r) = Suc n"
    by (simp add: registry_inv_def unat_of_nat take_bit_nat_eq_self del: of_nat_Suc)
  with assms(2) have "Suc (Suc n) < 2 ^ 64" by (simp add: ids_left_def)
  with registry_insert_fresh(3) [OF n(2,1)] show ?thesis unfolding numbered_def by blast
qed

lemma numbered_remove: "numbered r \<Longrightarrow> numbered (snd (registry_remove i r))"
  unfolding numbered_def using registry_inv_remove by blast

lemma numbered_removed_dead:
  assumes "numbered r" "registry_get i r \<noteq> None"
  shows "dead_id i (snd (registry_remove i r))"
proof -
  obtain n where n: "Suc n < 2 ^ 64" "registry_inv n r" using assms(1) by (auto simp: numbered_def)
  have "i \<in> fst ` set (hr_handles r)"
    using assms(2) by (simp add: registry_get_def map_of_eq_None_iff)
  with n have "unat i < unat (hr_next_id r)"
    by (auto simp: registry_inv_def unat_of_nat take_bit_nat_eq_self simp del: of_nat_Suc)
  then show ?thesis
    using registry_get_remove [of i i r] by (simp add: dead_id_def registry_remove_def)
qed

lemma removed_dead:
  assumes "in_step driver_ok mods mem d r" "registry_get i r \<noteq> None"
  shows "dead_id i (snd (registry_remove i r))"
  using assms(1) by (intro numbered_removed_dead [OF _ assms(2)]) (auto simp: in_step_def registered_def numbered_def)

end
