(* ===== verification/Cuda_Session.thy ===== *)
theory Cuda_Session
  imports Device_Driver Descriptor_Graph
begin

text \<open>
  \<open>crates/host-cuda/src/cuda_host.rs\<close>: the session of opaque handles over a CUDA driver, and the
  sequencing fake of the driver. The trait \<open>CudaDriver\<close> is the record of its functions over a driver
  state; the live driver over the CUDA library is foreign code and one possible value of the record.
  A driver shares the state with nothing else, so a call maps a state to an answer and a state.

  A \<open>usize\<close> is a \<^typ>\<open>nat\<close>: lengths of allocations, far below the bound.
\<close>

section \<open>Errors, driver and session state\<close>

definition E_CUDA_UNAVAILABLE :: string where "E_CUDA_UNAVAILABLE = ''E_CUDA_UNAVAILABLE''"
definition E_CUDA_INVALID_HANDLE :: string where "E_CUDA_INVALID_HANDLE = ''E_CUDA_INVALID_HANDLE''"
definition E_CUDA_DRIVER :: string where "E_CUDA_DRIVER = ''E_CUDA_DRIVER''"

definition cuda_unavailable :: "string \<Rightarrow> HostError" where
  "cuda_unavailable message = \<lparr>he_code = E_CUDA_UNAVAILABLE, he_message = message, he_retryable = False\<rparr>"

definition cuda_invalid_handle :: "u64 \<Rightarrow> HostError" where
  "cuda_invalid_handle i =
     \<lparr>he_code = E_CUDA_INVALID_HANDLE, he_message = ''unknown or released CUDA handle '' @ display_u64 i,
      he_retryable = False\<rparr>"

definition cuda_driver :: "string \<Rightarrow> HostError" where
  "cuda_driver message = \<lparr>he_code = E_CUDA_DRIVER, he_message = message, he_retryable = False\<rparr>"

definition cuda_misaligned_tail :: "DeviceDataType \<Rightarrow> nat \<Rightarrow> HostError" where
  "cuda_misaligned_tail dtype len =
     HostError_invalid_args (''CUDA copy rejects a misaligned '' @ DeviceDataType_spelling dtype @
       '' tail of '' @ show_nat len @ '' bytes'')"

record CudaEnvReport =
  cr_admitted :: bool
  cr_nvidia_smi :: "string option"
  cr_libcuda_candidates :: "string list"
  cr_reason :: string

record 'd CudaDriver =
  cd_discover :: "('d, CudaEnvReport, HostError) step"
  cd_create_context :: "('d, unit, HostError) step"
  cd_load_module :: "u8 list \<Rightarrow> ('d, u64, HostError) step"
  cd_alloc :: "nat \<Rightarrow> ('d, u64, HostError) step"
  cd_copy_in :: "u64 \<Rightarrow> u8 list \<Rightarrow> ('d, unit, HostError) step"
  cd_launch_elementwise_add_f32 :: "u64 \<Rightarrow> u64 \<Rightarrow> u64 \<Rightarrow> u64 \<Rightarrow> nat \<Rightarrow> ('d, unit, HostError) step"
  cd_launch_kernel :: "u64 \<Rightarrow> string \<Rightarrow> u64 list \<Rightarrow> grid3 \<Rightarrow> grid3 \<Rightarrow> ('d, unit, HostError) step"
  cd_sync :: "('d, unit, HostError) step"
  cd_copy_out :: "u64 \<Rightarrow> nat \<Rightarrow> ('d, u8 list, HostError) step"
  cd_free :: "u64 \<Rightarrow> ('d, unit, HostError) step"
  cd_counters :: "'d \<Rightarrow> DriverCounters"

record CachedModule =
  cm_image :: "u8 list"
  cm_handle :: u64

record 'd CudaHostSession =
  cs_driver :: 'd
  cs_handles :: "HandleKind HandleRegistry"
  cs_module_cache :: "(u64, CachedModule list) bmap"
  cs_admitted :: bool
  cs_uploads :: nat

abbreviation cuda_on_driver :: "('d, 'a, HostError) step \<Rightarrow> ('d CudaHostSession, 'a, HostError) step" where
  "cuda_on_driver \<equiv> son cs_driver (\<lambda>d s. s\<lparr>cs_driver := d\<rparr>)"

section \<open>The session\<close>

definition cuda_from_driver :: "'d CudaDriver \<Rightarrow> bool \<Rightarrow> 'd \<Rightarrow> ('d CudaHostSession, HostError) result" where
  "cuda_from_driver dr admitted d =
     (let session = (\<lambda>d. \<lparr>cs_driver = d, cs_handles = HandleRegistry_new, cs_module_cache = [],
                          cs_admitted = admitted, cs_uploads = 0\<rparr>)
      in if admitted then
           (case cd_create_context dr d of (Ok _, d) \<Rightarrow> Ok (session d) | (Err e, _) \<Rightarrow> Err e)
         else Ok (session d))"

definition cuda_with_driver :: "'d CudaDriver \<Rightarrow> 'd \<Rightarrow> ('d CudaHostSession, HostError) result" where
  "cuda_with_driver dr d =
     (case cd_discover dr d of
        (Ok report, d) \<Rightarrow> cuda_from_driver dr (cr_admitted report) d
      | (Err e, _) \<Rightarrow> Err e)"

definition cuda_require_admitted :: "'d CudaHostSession \<Rightarrow> (unit, HostError) result" where
  "cuda_require_admitted s =
     ensure (cs_admitted s) (cuda_unavailable ''CUDA host session is not admitted for product execution'')"

definition cuda_insert :: "HandleKind \<Rightarrow> u64 \<Rightarrow> ('d CudaHostSession, u64, HostError) step" where
  "cuda_insert kind token s =
     (let (i, r) = registry_insert kind token (cs_handles s) in (Ok i, s\<lparr>cs_handles := r\<rparr>))"

definition cuda_module_token :: "u64 \<Rightarrow> 'd CudaHostSession \<Rightarrow> (u64, HostError) result" where
  "cuda_module_token i s =
     (case registry_get i (cs_handles s) of
        Some h \<Rightarrow>
          (case rh_kind h of
             KindModule \<Rightarrow> Ok (rh_token h)
           | _ \<Rightarrow> Err (HostError_invalid_args ''handle is not a CUDA module''))
      | None \<Rightarrow> Err (cuda_invalid_handle i))"

definition cuda_buffer_token :: "u64 \<Rightarrow> 'd CudaHostSession \<Rightarrow> (u64 \<times> nat, HostError) result" where
  "cuda_buffer_token i s =
     (case registry_get i (cs_handles s) of
        Some h \<Rightarrow>
          (case rh_kind h of
             KindBuffer len \<Rightarrow> Ok (rh_token h, len)
           | KindModule \<Rightarrow> Err (HostError_invalid_args ''handle is not a CUDA buffer''))
      | None \<Rightarrow> Err (cuda_invalid_handle i))"

definition cuda_live_handle_count :: "'d CudaHostSession \<Rightarrow> nat" where
  "cuda_live_handle_count s = registry_len (cs_handles s)"

definition cuda_driver_counters :: "'d CudaDriver \<Rightarrow> 'd CudaHostSession \<Rightarrow> DriverCounters" where
  "cuda_driver_counters dr s = (cd_counters dr (cs_driver s))\<lparr>dc_uploads := cs_uploads s\<rparr>"

definition cuda_record_weight_upload :: "'d CudaHostSession \<Rightarrow> 'd CudaHostSession" where
  "cuda_record_weight_upload s = s\<lparr>cs_uploads := min (cs_uploads s + 1) (2 ^ 64 - 1)\<rparr>"

definition cuda_load_module :: "'d CudaDriver \<Rightarrow> u8 list \<Rightarrow> ('d CudaHostSession, u64, HostError) step" where
  "cuda_load_module dr img =
     sthen (sget cuda_require_admitted) (\<lambda>_.
     sthen (slift (ensure (img \<noteq> []) (HostError_invalid_args ''CUDA module image is empty''))) (\<lambda>_.
     sthen (cuda_on_driver (cd_load_module dr img)) (\<lambda>token.
       cuda_insert KindModule token)))"

definition cached_module :: "u8 list \<Rightarrow> 'd CudaHostSession \<Rightarrow> CachedModule option" where
  "cached_module img s =
     (case bmap_get (cs_module_cache s) (fnv1a64 img) of
        Some modules \<Rightarrow> List.find (\<lambda>m. cm_image m = img) modules
      | None \<Rightarrow> None)"

definition cache_push :: "u8 list \<Rightarrow> u64 \<Rightarrow> 'd CudaHostSession \<Rightarrow> 'd CudaHostSession" where
  "cache_push img i s =
     (let cache = cs_module_cache s; hash = fnv1a64 img;
          modules = (case bmap_get cache hash of Some ms \<Rightarrow> ms | None \<Rightarrow> [])
      in s\<lparr>cs_module_cache := bmap_insert hash (modules @ [\<lparr>cm_image = img, cm_handle = i\<rparr>]) cache\<rparr>)"

definition cuda_load_cached_module :: "'d CudaDriver \<Rightarrow> u8 list \<Rightarrow> ('d CudaHostSession, u64, HostError) step" where
  "cuda_load_cached_module dr img =
     sthen (sget cuda_require_admitted) (\<lambda>_.
     sthen (slift (ensure (img \<noteq> []) (HostError_invalid_args ''CUDA module image is empty''))) (\<lambda>_ s.
       case cached_module img s of
         Some m \<Rightarrow> (Ok (cm_handle m), s)
       | None \<Rightarrow> sthen (cuda_load_module dr img) (\<lambda>i s. (Ok i, cache_push img i s)) s))"

definition remove_cached_module :: "u64 \<Rightarrow> 'd CudaHostSession \<Rightarrow> 'd CudaHostSession" where
  "remove_cached_module i s =
     s\<lparr>cs_module_cache :=
        filter (\<lambda>(_, modules). modules \<noteq> [])
          (map (\<lambda>(hash, modules). (hash, filter (\<lambda>m. cm_handle m \<noteq> i) modules)) (cs_module_cache s))\<rparr>"

definition cuda_release :: "'d CudaDriver \<Rightarrow> u64 \<Rightarrow> ('d CudaHostSession, unit, HostError) step" where
  "cuda_release dr i s =
     (case registry_remove i (cs_handles s) of
        (None, _) \<Rightarrow> (Err (cuda_invalid_handle i), s)
      | (Some h, r) \<Rightarrow>
          (let s = s\<lparr>cs_handles := r\<rparr>;
               s = (if rh_kind h = KindModule then remove_cached_module i s else s)
           in cuda_on_driver (cd_free dr (rh_token h)) s))"

text \<open>The loop of \<open>teardown\<close> goes on after an error and keeps the first one.\<close>

fun release_all :: "'d CudaDriver \<Rightarrow> u64 list \<Rightarrow> HostError option \<Rightarrow> 'd CudaHostSession
    \<Rightarrow> HostError option \<times> 'd CudaHostSession" where
  "release_all dr [] first s = (first, s)"
| "release_all dr (i # rest) first s =
     (case cuda_release dr i s of
        (Ok _, s) \<Rightarrow> release_all dr rest first s
      | (Err e, s) \<Rightarrow> release_all dr rest (if first = None then Some e else first) s)"

definition cached_handles :: "'d CudaHostSession \<Rightarrow> u64 list" where
  "cached_handles s = concat (map (map cm_handle) (bmap_values (cs_module_cache s)))"

definition cuda_teardown :: "'d CudaDriver \<Rightarrow> ('d CudaHostSession, unit, HostError) step" where
  "cuda_teardown dr s =
     (case release_all dr (cached_handles s) None s of
        (Some e, s) \<Rightarrow> (Err e, s)
      | (None, s) \<Rightarrow> (Ok (), s))"

definition cuda_alloc_bytes :: "'d CudaDriver \<Rightarrow> nat \<Rightarrow> ('d CudaHostSession, u64, HostError) step" where
  "cuda_alloc_bytes dr len =
     sthen (sget cuda_require_admitted) (\<lambda>_.
     sthen (slift (ensure (len \<noteq> 0) (HostError_invalid_args ''CUDA buffer length must be non-zero''))) (\<lambda>_.
     sthen (cuda_on_driver (cd_alloc dr len)) (\<lambda>token. cuda_insert (KindBuffer len) token)))"

definition cuda_copy_in_bytes ::
    "'d CudaDriver \<Rightarrow> u64 \<Rightarrow> u8 list \<Rightarrow> DeviceDataType \<Rightarrow> ('d CudaHostSession, unit, HostError) step" where
  "cuda_copy_in_bytes dr buffer bytes dtype =
     sthen (sget cuda_require_admitted) (\<lambda>_.
     sthen (slift (ensure (length bytes mod byte_width dtype = 0) (cuda_misaligned_tail dtype (length bytes)))) (\<lambda>_.
     sthen (sget (cuda_buffer_token buffer)) (\<lambda>(token, len).
     sthen (slift (ensure (length bytes = len)
         (HostError_invalid_args (''copy_in size mismatch: buffer '' @ show_nat len @ '' bytes, got '' @
            show_nat (length bytes))))) (\<lambda>_.
       cuda_on_driver (cd_copy_in dr token bytes)))))"

definition cuda_copy_in_f32 ::
    "'d CudaDriver \<Rightarrow> u64 \<Rightarrow> u32 list \<Rightarrow> ('d CudaHostSession, unit, HostError) step" where
  "cuda_copy_in_f32 dr buffer vals =
     cuda_copy_in_bytes dr buffer (concat (map u32_to_le_bytes vals)) DtF32"

definition cuda_launch_elementwise_add_f32 ::
    "'d CudaDriver \<Rightarrow> u64 \<Rightarrow> u64 \<Rightarrow> u64 \<Rightarrow> u64 \<Rightarrow> ('d CudaHostSession, unit, HostError) step" where
  "cuda_launch_elementwise_add_f32 dr m a b out =
     sthen (sget cuda_require_admitted) (\<lambda>_.
     sthen (sget (cuda_module_token m)) (\<lambda>module_token.
     sthen (sget (cuda_buffer_token a)) (\<lambda>(a_token, a_len).
     sthen (sget (cuda_buffer_token b)) (\<lambda>(b_token, b_len).
     sthen (sget (cuda_buffer_token out)) (\<lambda>(out_token, out_len).
     sthen (slift (ensure (a_len = b_len \<and> a_len = out_len)
         (HostError_invalid_args ''elementwise add requires equal buffer sizes''))) (\<lambda>_.
     sthen (slift (ensure (a_len mod 4 = 0)
         (HostError_invalid_args ''elementwise add buffers must be multiples of 4 bytes (f32)''))) (\<lambda>_.
     sthen (cuda_on_driver (cd_launch_elementwise_add_f32 dr module_token a_token b_token out_token (a_len div 4))) (\<lambda>_.
       cuda_on_driver (cd_sync dr)))))))))"

definition cuda_launch_kernel_3d ::
    "'d CudaDriver \<Rightarrow> u64 \<Rightarrow> string \<Rightarrow> u64 list \<Rightarrow> grid3 \<Rightarrow> grid3 \<Rightarrow> ('d CudaHostSession, unit, HostError) step" where
  "cuda_launch_kernel_3d dr m entry buffers grid block =
     sthen (sget cuda_require_admitted) (\<lambda>_.
     sthen (sget (cuda_module_token m)) (\<lambda>module_token.
     sthen (slift (ensure (entry \<noteq> []) (HostError_invalid_args ''CUDA kernel entry name is empty''))) (\<lambda>_.
     sthen (sget (\<lambda>s. try_map (\<lambda>i. cuda_buffer_token i s) buffers)) (\<lambda>tokens.
     sthen (cuda_on_driver (cd_launch_kernel dr module_token entry (map fst tokens) grid block)) (\<lambda>_.
       cuda_on_driver (cd_sync dr))))))"

definition cuda_launch_kernel ::
    "'d CudaDriver \<Rightarrow> u64 \<Rightarrow> string \<Rightarrow> u64 list \<Rightarrow> u32 \<Rightarrow> u32 \<Rightarrow> ('d CudaHostSession, unit, HostError) step" where
  "cuda_launch_kernel dr m entry buffers grid_x block_x =
     cuda_launch_kernel_3d dr m entry buffers (grid_x, 1, 1) (block_x, 1, 1)"

definition cuda_sync :: "'d CudaDriver \<Rightarrow> ('d CudaHostSession, unit, HostError) step" where
  "cuda_sync dr = sthen (sget cuda_require_admitted) (\<lambda>_. cuda_on_driver (cd_sync dr))"

definition cuda_readback_bytes ::
    "'d CudaDriver \<Rightarrow> u64 \<Rightarrow> DeviceDataType \<Rightarrow> ('d CudaHostSession, u8 list, HostError) step" where
  "cuda_readback_bytes dr buffer dtype =
     sthen (sget cuda_require_admitted) (\<lambda>_.
     sthen (sget (cuda_buffer_token buffer)) (\<lambda>(token, len).
     sthen (slift (ensure (len mod byte_width dtype = 0) (cuda_misaligned_tail dtype len))) (\<lambda>_.
     sthen (cuda_on_driver (cd_copy_out dr token len)) (\<lambda>bytes.
     sthen (slift (ensure (length bytes = len)
         (HostError_internal ''CUDA readback returned unexpected byte length''))) (\<lambda>_.
       slift (Ok bytes))))))"

definition cuda_readback_f32 :: "'d CudaDriver \<Rightarrow> u64 \<Rightarrow> ('d CudaHostSession, u32 list, HostError) step" where
  "cuda_readback_f32 dr buffer =
     sthen (cuda_readback_bytes dr buffer DtF32) (\<lambda>bytes.
     sthen (slift (ensure (length bytes mod 4 = 0)
         (HostError_internal ''CUDA readback returned unexpected f32 byte length''))) (\<lambda>_.
       slift (Ok (f32_of_chunks bytes))))"

text \<open>\<^const>\<open>None\<close> is the panic of \<open>expect\<close>.\<close>

definition cuda_handle_frame_data :: "u64 \<Rightarrow> Valor option" where
  "cuda_handle_frame_data i =
     (if sint i < 0 then None else Some (tabula_of [(''cuda_handle'', Numerus i)]))"

end
