(* ===== verification/Cuda_Fake.thy ===== *)
theory Cuda_Fake
  imports Cuda_Session
begin

text \<open>The sequencing fake of the CUDA driver (\<open>FakeCudaDriver\<close> of \<open>cuda_host.rs\<close>).\<close>

record FakeCudaDriver =
  fc_next_token :: u64
  fc_buffers :: "(u64, u8 list) bmap"
  fc_modules :: "(u64, u8 list) bmap"
  fc_force_unavailable :: bool
  fc_known_entries :: "string list"
  fc_matmul_simulation :: "(u64 \<times> u64 \<times> u64) option"
  fc_module_loads :: nat
  fc_module_releases :: nat
  fc_buffer_allocs :: nat
  fc_buffer_releases :: nat
  fc_fail_at :: "(FakeFailureStage, u32) bmap"
  fc_stage_calls :: "(FakeFailureStage, u32) bmap"

definition fake_cuda_default :: FakeCudaDriver where
  "fake_cuda_default =
     \<lparr>fc_next_token = 0, fc_buffers = [], fc_modules = [], fc_force_unavailable = False, fc_known_entries = [],
      fc_matmul_simulation = None, fc_module_loads = 0, fc_module_releases = 0, fc_buffer_allocs = 0,
      fc_buffer_releases = 0, fc_fail_at = [], fc_stage_calls = []\<rparr>"

definition fake_cuda_unavailable :: FakeCudaDriver where
  "fake_cuda_unavailable = fake_cuda_default\<lparr>fc_force_unavailable := True\<rparr>"

definition fc_with_known_entry :: "string \<Rightarrow> FakeCudaDriver \<Rightarrow> FakeCudaDriver" where
  "fc_with_known_entry entry d = d\<lparr>fc_known_entries := fc_known_entries d @ [entry]\<rparr>"

definition fc_with_matmul_simulation :: "u64 \<Rightarrow> u64 \<Rightarrow> u64 \<Rightarrow> FakeCudaDriver \<Rightarrow> FakeCudaDriver" where
  "fc_with_matmul_simulation m k n d = d\<lparr>fc_matmul_simulation := Some (m, k, n)\<rparr>"

definition fc_with_failure_at :: "FakeFailureStage \<Rightarrow> u32 \<Rightarrow> FakeCudaDriver \<Rightarrow> FakeCudaDriver" where
  "fc_with_failure_at stage call d = d\<lparr>fc_fail_at := bmap_insert stage call (fc_fail_at d)\<rparr>"

definition fc_maybe_fail :: "FakeFailureStage \<Rightarrow> (FakeCudaDriver, unit, HostError) step" where
  "fc_maybe_fail stage d =
     (let (call, calls) = count_stage_call stage (fc_stage_calls d); d = d\<lparr>fc_stage_calls := calls\<rparr>
      in (ensure (bmap_get (fc_fail_at d) stage \<noteq> Some call)
            (cuda_driver (''injected failure at '' @ stage_debug stage @ '' stage (S2-3 failure-injection test)'')), d))"

definition fc_buffer :: "u64 \<Rightarrow> string \<Rightarrow> FakeCudaDriver \<Rightarrow> (u8 list, HostError) result" where
  "fc_buffer token missing d = ok_or (bmap_get (fc_buffers d) token) (HostError_internal missing)"

definition fc_write :: "u64 \<Rightarrow> u8 list \<Rightarrow> FakeCudaDriver \<Rightarrow> FakeCudaDriver" where
  "fc_write token bytes d = d\<lparr>fc_buffers := bmap_insert token bytes (fc_buffers d)\<rparr>"

definition fc_require_module :: "u64 \<Rightarrow> string \<Rightarrow> FakeCudaDriver \<Rightarrow> (unit, HostError) result" where
  "fc_require_module m missing d = ensure (bmap_contains (fc_modules d) m) (HostError_internal missing)"

definition fc_simulate_elementwise_add ::
    "Float32 \<Rightarrow> u64 \<Rightarrow> u64 \<Rightarrow> u64 \<Rightarrow> u64 \<Rightarrow> (FakeCudaDriver, unit, HostError) step" where
  "fc_simulate_elementwise_add fl m a b out =
     sthen (sget (fc_require_module m ''fake launch missing module'')) (\<lambda>_.
     sthen (sget (fc_buffer a ''fake launch missing a'')) (\<lambda>a_bytes.
     sthen (sget (fc_buffer b ''fake launch missing b'')) (\<lambda>b_bytes.
     sthen (sget (fc_buffer out ''fake launch missing out'')) (\<lambda>out_buf.
     sthen (slift (ensure (length a_bytes = length b_bytes \<and> length a_bytes = length out_buf)
         (HostError_invalid_args ''fake launch length mismatch''))) (\<lambda>_.
       smodify (fc_write out (map_words (f32_add fl) a_bytes b_bytes out_buf)))))))"

definition fc_simulate_accumulate ::
    "Float32 \<Rightarrow> u64 \<Rightarrow> u64 \<Rightarrow> u64 \<Rightarrow> (FakeCudaDriver, unit, HostError) step" where
  "fc_simulate_accumulate fl m a acc =
     sthen (sget (fc_require_module m ''fake accumulate missing module'')) (\<lambda>_.
     sthen (sget (fc_buffer a ''fake accumulate missing a'')) (\<lambda>a_bytes.
     sthen (sget (fc_buffer acc ''fake accumulate missing acc'')) (\<lambda>acc_buf.
     sthen (slift (ensure (length a_bytes = length acc_buf)
         (HostError_invalid_args ''fake accumulate length mismatch''))) (\<lambda>_.
       smodify (fc_write acc (map_words (f32_add fl) acc_buf a_bytes acc_buf))))))"

definition fc_simulate_copy :: "u64 \<Rightarrow> u64 \<Rightarrow> u64 \<Rightarrow> (FakeCudaDriver, unit, HostError) step" where
  "fc_simulate_copy m src out =
     sthen (sget (fc_require_module m ''fake copy missing module'')) (\<lambda>_.
     sthen (sget (fc_buffer src ''fake copy missing src'')) (\<lambda>src_bytes.
     sthen (sget (fc_buffer out ''fake copy missing out'')) (\<lambda>out_buf.
     sthen (slift (ensure (length src_bytes = length out_buf)
         (HostError_invalid_args ''fake copy length mismatch''))) (\<lambda>_.
       smodify (fc_write out src_bytes)))))"

definition usize_checked_mul :: "nat \<Rightarrow> nat \<Rightarrow> nat option" where
  "usize_checked_mul a b = (if a * b < 2 ^ 64 then Some (a * b) else None)"

definition all_some :: "nat option list \<Rightarrow> 'e \<Rightarrow> (nat list, 'e) result" where
  "all_some xs e = (if None \<in> set xs then Err e else Ok (map the xs))"

text \<open>One entry of the product: the accumulator starts at zero and runs over the inner dimension.\<close>

definition matmul_entry :: "Float32 \<Rightarrow> nat \<Rightarrow> nat \<Rightarrow> u32 list \<Rightarrow> u32 list \<Rightarrow> nat \<Rightarrow> nat \<Rightarrow> u32" where
  "matmul_entry fl depth columns lhs rhs row column =
     fold (\<lambda>inner acc. f32_add fl acc (f32_mul fl (lhs ! (row * depth + inner)) (rhs ! (inner * columns + column))))
       [0..<depth] 0"

text \<open>The loops write every word of the output once, row by row.\<close>

definition matmul_bytes :: "Float32 \<Rightarrow> nat \<Rightarrow> nat \<Rightarrow> nat \<Rightarrow> u32 list \<Rightarrow> u32 list \<Rightarrow> u8 list" where
  "matmul_bytes fl rows depth columns lhs rhs =
     concat (map (\<lambda>row. concat (map (\<lambda>column. u32_to_le_bytes (matmul_entry fl depth columns lhs rhs row column))
       [0..<columns])) [0..<rows])"

text \<open>The UTF-8 bytes of the middle dot.\<close>

definition middle_dot :: string where
  "middle_dot = [CHR 0xC2, CHR 0xB7]"

definition fc_simulate_matmul ::
    "Float32 \<Rightarrow> u64 \<Rightarrow> u64 \<times> u64 \<times> u64 \<Rightarrow> u64 \<times> u64 \<times> u64 \<Rightarrow> (FakeCudaDriver, unit, HostError) step" where
  "fc_simulate_matmul fl m buffers dims =
     (case buffers of (lhs, rhs, output) \<Rightarrow>
      (let rows = unat (fst dims); depth = unat (fst (snd dims)); columns = unat (snd (snd dims)) in
     sthen (sget (fc_require_module m ''fake matmul missing module'')) (\<lambda>_.
     sthen (sget (fc_buffer lhs ''fake matmul missing lhs'')) (\<lambda>lhs_bytes.
     sthen (sget (fc_buffer rhs ''fake matmul missing rhs'')) (\<lambda>rhs_bytes.
     sthen (sget (fc_buffer output ''fake matmul missing output'')) (\<lambda>output_buffer.
     sthen (slift (all_some [usize_checked_mul rows depth, usize_checked_mul depth columns, usize_checked_mul rows columns]
         (HostError_internal ''fake matmul plan dims overflow''))) (\<lambda>lens.
     sthen (slift (all_some (map (\<lambda>n. usize_checked_mul n 4) lens)
         (HostError_internal ''fake matmul byte lengths overflow''))) (\<lambda>byte_lens.
     sthen (slift (ensure (map length [lhs_bytes, rhs_bytes, output_buffer] = byte_lens)
         (HostError_invalid_args (''fake matmul buffer sizes contradict the M'' @ middle_dot @ ''K/K'' @ middle_dot @
            ''N/M'' @ middle_dot @ ''N plan'')))) (\<lambda>_.
       smodify (fc_write output
         (matmul_bytes fl rows depth columns (f32_of_chunks lhs_bytes) (f32_of_chunks rhs_bytes))))))))))))"

section \<open>The driver\<close>

definition fc_discover :: "(FakeCudaDriver, CudaEnvReport, HostError) step" where
  "fc_discover d =
     (if fc_force_unavailable d then
        (Err (cuda_unavailable ''fake driver configured unavailable (sequencing test)''), d)
      else
        (Ok \<lparr>cr_admitted = True, cr_nvidia_smi = Some ''fake-gpu'', cr_libcuda_candidates = [''fake://libcuda''],
             cr_reason = ''fake driver admitted for sequencing tests only''\<rparr>, d))"

definition fc_load_module :: "u8 list \<Rightarrow> (FakeCudaDriver, u64, HostError) step" where
  "fc_load_module img =
     sthen (fc_maybe_fail StageModuleLoad) (\<lambda>_ d.
       (Ok (fc_next_token d),
        d\<lparr>fc_module_loads := fc_module_loads d + 1, fc_next_token := fc_next_token d + 1,
          fc_modules := bmap_insert (fc_next_token d) img (fc_modules d)\<rparr>))"

definition fc_alloc :: "nat \<Rightarrow> (FakeCudaDriver, u64, HostError) step" where
  "fc_alloc len =
     sthen (fc_maybe_fail StageAlloc) (\<lambda>_ d.
       (Ok (fc_next_token d),
        d\<lparr>fc_buffer_allocs := fc_buffer_allocs d + 1, fc_next_token := fc_next_token d + 1,
          fc_buffers := bmap_insert (fc_next_token d) (replicate len 0) (fc_buffers d)\<rparr>))"

definition fc_copy_in :: "u64 \<Rightarrow> u8 list \<Rightarrow> (FakeCudaDriver, unit, HostError) step" where
  "fc_copy_in token bytes =
     sthen (fc_maybe_fail StageCopyIn) (\<lambda>_.
     sthen (sget (fc_buffer token ''fake copy_in missing buffer'')) (\<lambda>buffer.
     sthen (slift (ensure (length buffer = length bytes) (HostError_invalid_args ''fake copy_in size mismatch''))) (\<lambda>_.
       smodify (fc_write token bytes))))"

definition fc_launch_elementwise_add_f32 ::
    "Float32 \<Rightarrow> u64 \<Rightarrow> u64 \<Rightarrow> u64 \<Rightarrow> u64 \<Rightarrow> nat \<Rightarrow> (FakeCudaDriver, unit, HostError) step" where
  "fc_launch_elementwise_add_f32 fl m a b out len = fc_simulate_elementwise_add fl m a b out"

definition fc_entry_known :: "string \<Rightarrow> FakeCudaDriver \<Rightarrow> (unit, HostError) result" where
  "fc_entry_known entry d =
     ensure (fc_known_entries d = [] \<or> List.member (fc_known_entries d) entry)
       \<lparr>he_code = E_DEVICE_ENTRY_MISMATCH, he_message = ''module has no entry named '' @ entry, he_retryable = False\<rparr>"

definition fc_launch_kernel ::
    "Float32 \<Rightarrow> u64 \<Rightarrow> string \<Rightarrow> u64 list \<Rightarrow> grid3 \<Rightarrow> grid3 \<Rightarrow> (FakeCudaDriver, unit, HostError) step" where
  "fc_launch_kernel fl m entry buffers grid block =
     sthen (fc_maybe_fail StageLaunch) (\<lambda>_.
     sthen (sget (fc_entry_known entry)) (\<lambda>_ d.
       (case fc_matmul_simulation d of
          Some dims \<Rightarrow>
            (case buffers of
               [a, b, out] \<Rightarrow> fc_simulate_matmul fl m (a, b, out) dims d
             | _ \<Rightarrow> (Err (HostError_invalid_args
                 ''fake launch_kernel matmul simulation requires exactly 3 buffers (a, b, out)''), d))
        | None \<Rightarrow>
            if entry = ''accumulate'' then
              (case buffers of
                 [a, acc] \<Rightarrow> fc_simulate_accumulate fl m a acc d
               | _ \<Rightarrow> (Err (HostError_invalid_args
                   ''fake launch_kernel 'accumulate' simulates the 2-buffer kernel (a, acc)''), d))
            else if entry = ''observa'' then
              (case buffers of
                 [src, out] \<Rightarrow> fc_simulate_copy m src out d
               | _ \<Rightarrow> (Err (HostError_invalid_args
                   ''fake launch_kernel 'observa' simulates the 2-buffer kernel (src, out)''), d))
            else
              (case buffers of
                 [a, b, out] \<Rightarrow> fc_simulate_elementwise_add fl m a b out d
               | _ \<Rightarrow> (Err (HostError_invalid_args
                   ''fake launch_kernel simulates the 3-buffer elementwise-add kernel (a, b, out)''), d)))))"

definition fc_sync :: "(FakeCudaDriver, unit, HostError) step" where
  "fc_sync = sthen (fc_maybe_fail StageSync) (\<lambda>_. slift (Ok ()))"

definition fc_copy_out :: "u64 \<Rightarrow> nat \<Rightarrow> (FakeCudaDriver, u8 list, HostError) step" where
  "fc_copy_out token len =
     sthen (fc_maybe_fail StageReadback) (\<lambda>_.
     sthen (sget (fc_buffer token ''fake copy_out missing buffer'')) (\<lambda>buffer.
     sthen (slift (ensure (length buffer = len) (HostError_internal ''fake copy_out size mismatch''))) (\<lambda>_.
       slift (Ok buffer))))"

definition fc_free :: "u64 \<Rightarrow> (FakeCudaDriver, unit, HostError) step" where
  "fc_free token d =
     (Ok (),
      if bmap_contains (fc_buffers d) token then
        d\<lparr>fc_buffers := bmap_remove token (fc_buffers d), fc_buffer_releases := fc_buffer_releases d + 1\<rparr>
      else if bmap_contains (fc_modules d) token then
        d\<lparr>fc_modules := bmap_remove token (fc_modules d), fc_module_releases := fc_module_releases d + 1\<rparr>
      else d)"

definition fc_counters :: "FakeCudaDriver \<Rightarrow> DriverCounters" where
  "fc_counters d =
     \<lparr>dc_module_loads = fc_module_loads d, dc_module_releases = fc_module_releases d,
      dc_buffer_allocs = fc_buffer_allocs d, dc_buffer_releases = fc_buffer_releases d, dc_uploads = 0\<rparr>"

definition fake_cuda :: "Float32 \<Rightarrow> FakeCudaDriver CudaDriver" where
  "fake_cuda fl =
     \<lparr>cd_discover = fc_discover, cd_create_context = slift (Ok ()), cd_load_module = fc_load_module,
      cd_alloc = fc_alloc, cd_copy_in = fc_copy_in,
      cd_launch_elementwise_add_f32 = fc_launch_elementwise_add_f32 fl, cd_launch_kernel = fc_launch_kernel fl,
      cd_sync = fc_sync, cd_copy_out = fc_copy_out, cd_free = fc_free, cd_counters = fc_counters\<rparr>"

end
