(* ===== verification/Cuda_Safety.thy ===== *)
theory Cuda_Safety
  imports Cuda_Fake
begin

text \<open>
  The CUDA session over any driver that meets the contract: in every reachable state the registry and
  the driver hold the same objects, the module cache points to live modules only, and a released
  handle is never resolved again. The contract is interpreted on the sequencing fake.
\<close>

section \<open>Calls\<close>

datatype CudaCall =
    CallLoad "u8 list"
  | CallLoadCached "u8 list"
  | CallAlloc nat
  | CallCopyIn u64 "u8 list" DeviceDataType
  | CallLaunchAdd u64 u64 u64 u64
  | CallLaunch u64 string "u64 list" grid3 grid3
  | CallSync
  | CallReadback u64 DeviceDataType
  | CallRelease u64
  | CallTeardown
  | CallUpload

fun cuda_call :: "'d CudaDriver \<Rightarrow> CudaCall \<Rightarrow> 'd CudaHostSession \<Rightarrow> 'd CudaHostSession" where
  "cuda_call dr (CallLoad img) s = snd (cuda_load_module dr img s)"
| "cuda_call dr (CallLoadCached img) s = snd (cuda_load_cached_module dr img s)"
| "cuda_call dr (CallAlloc len) s = snd (cuda_alloc_bytes dr len s)"
| "cuda_call dr (CallCopyIn i bytes dtype) s = snd (cuda_copy_in_bytes dr i bytes dtype s)"
| "cuda_call dr (CallLaunchAdd m a b out) s = snd (cuda_launch_elementwise_add_f32 dr m a b out s)"
| "cuda_call dr (CallLaunch m entry bufs grid block) s = snd (cuda_launch_kernel_3d dr m entry bufs grid block s)"
| "cuda_call dr CallSync s = snd (cuda_sync dr s)"
| "cuda_call dr (CallReadback i dtype) s = snd (cuda_readback_bytes dr i dtype s)"
| "cuda_call dr (CallRelease i) s = snd (cuda_release dr i s)"
| "cuda_call dr CallTeardown s = snd (cuda_teardown dr s)"
| "cuda_call dr CallUpload s = cuda_record_weight_upload s"

text \<open>The numbering of handles and of driver objects has not run out.\<close>

definition cuda_room :: "('d \<Rightarrow> bool) \<Rightarrow> 'd CudaHostSession \<Rightarrow> bool" where
  "cuda_room room s \<longleftrightarrow> room (cs_driver s) \<and> unat (hr_next_id (cs_handles s)) + 1 < 2 ^ 64"

inductive cuda_reach :: "'d CudaDriver \<Rightarrow> ('d \<Rightarrow> bool) \<Rightarrow> 'd CudaHostSession \<Rightarrow> 'd CudaHostSession \<Rightarrow> bool"
  for dr room s0 where
  cuda_start: "cuda_reach dr room s0 s0"
| cuda_next: "cuda_reach dr room s0 s \<Longrightarrow> cuda_room room s \<Longrightarrow> cuda_reach dr room s0 (cuda_call dr c s)"

section \<open>The module cache\<close>

definition cache_entries :: "'d CudaHostSession \<Rightarrow> CachedModule list" where
  "cache_entries s = concat (bmap_values (cs_module_cache s))"

definition cache_ok :: "'d CudaHostSession \<Rightarrow> bool" where
  "cache_ok s \<longleftrightarrow>
     bmap_ok (cs_module_cache s) \<and>
     (\<forall>(hash, ms)\<in>set (cs_module_cache s). \<forall>m\<in>set ms. fnv1a64 (cm_image m) = hash) \<and>
     (\<forall>m\<in>set (cache_entries s). \<exists>t. has_kind KindModule (cm_handle m) (cs_handles s) t) \<and>
     inj_on cm_image (set (cache_entries s))"

lemma cache_entries_iff:
  "m \<in> set (cache_entries s) \<longleftrightarrow> (\<exists>hash ms. (hash, ms) \<in> set (cs_module_cache s) \<and> m \<in> set ms)"
  by (force simp: cache_entries_def)

lemma cached_module_iff:
  assumes "cache_ok s"
  shows "cached_module img s = Some m \<longleftrightarrow> m \<in> set (cache_entries s) \<and> cm_image m = img"
proof
  assume "cached_module img s = Some m"
  then obtain ms where "bmap_get (cs_module_cache s) (fnv1a64 img) = Some ms" "List.find (\<lambda>m. cm_image m = img) ms = Some m"
    by (auto simp: cached_module_def split: option.splits)
  then show "m \<in> set (cache_entries s) \<and> cm_image m = img"
    by (auto simp: cache_entries_iff dest: map_of_SomeD find_Some_mem)
next
  assume m: "m \<in> set (cache_entries s) \<and> cm_image m = img"
  then obtain hash ms where ms: "(hash, ms) \<in> set (cs_module_cache s)" "m \<in> set ms"
    by (auto simp: cache_entries_iff)
  with assms m have "hash = fnv1a64 img" by (auto simp: cache_ok_def)
  with ms assms have get: "bmap_get (cs_module_cache s) (fnv1a64 img) = Some ms"
    by (simp add: cache_ok_def bmap_get_iff_mem)
  obtain m' where m': "List.find (\<lambda>m. cm_image m = img) ms = Some m'"
    using ms(2) m by (cases "List.find (\<lambda>m. cm_image m = img) ms") (auto simp: find_None_iff)
  then have "m' \<in> set ms" "cm_image m' = img" by (auto dest: find_Some_mem)
  with ms(1) have "m' \<in> set (cache_entries s)" by (auto simp: cache_entries_iff)
  with assms m \<open>cm_image m' = img\<close> have "m' = m" by (auto simp: cache_ok_def dest: inj_onD)
  with get m' show "cached_module img s = Some m" by (simp add: cached_module_def)
qed

lemma entry_live:
  assumes "cache_ok s" "m \<in> set (cache_entries s)"
  shows "\<exists>t. registry_get (cm_handle m) (cs_handles s) = Some \<lparr>rh_kind = KindModule, rh_token = t\<rparr>"
  using assms by (simp add: cache_ok_def has_kind_def)

lemma entries_cache_push:
  assumes "bmap_ok (cs_module_cache s)"
  shows "set (cache_entries (cache_push img i s)) = insert \<lparr>cm_image = img, cm_handle = i\<rparr> (set (cache_entries s))"
proof (rule set_eqI)
  fix m
  let ?c = "cs_module_cache s" and ?h = "fnv1a64 img" and ?e = "\<lparr>cm_image = img, cm_handle = i\<rparr>"
  define old where "old = (case bmap_get ?c ?h of Some ms \<Rightarrow> ms | None \<Rightarrow> [])"
  have old: "x \<in> set old \<longleftrightarrow> (\<exists>ms. (?h, ms) \<in> set ?c \<and> x \<in> set ms)" for x
    by (cases "bmap_get ?c ?h") (simp_all add: old_def flip: bmap_get_iff_mem [OF assms])
  have "m \<in> set (cache_entries (cache_push img i s)) \<longleftrightarrow>
      (\<exists>k ms. (if k = ?h then ms = old @ [?e] else (k, ms) \<in> set ?c) \<and> m \<in> set ms)"
    by (simp add: cache_entries_iff cache_push_def Let_def set_bmap_insert [OF assms] flip: old_def)
  also have "\<dots> \<longleftrightarrow> m \<in> set old \<or> m = ?e \<or> (\<exists>k ms. k \<noteq> ?h \<and> (k, ms) \<in> set ?c \<and> m \<in> set ms)"
    by (rule iffI; force split: if_splits)
  also have "\<dots> \<longleftrightarrow> m = ?e \<or> m \<in> set (cache_entries s)"
    unfolding old cache_entries_iff by metis
  finally show "m \<in> set (cache_entries (cache_push img i s)) \<longleftrightarrow> m \<in> insert ?e (set (cache_entries s))"
    by simp
qed

lemma cache_remove_iff:
  "(hash, ms) \<in> set (cs_module_cache (remove_cached_module i s)) \<longleftrightarrow>
     (\<exists>all. (hash, all) \<in> set (cs_module_cache s) \<and> ms = filter (\<lambda>m. cm_handle m \<noteq> i) all \<and> ms \<noteq> [])"
  by (auto simp: remove_cached_module_def)

lemma entries_remove_cached:
  "set (cache_entries (remove_cached_module i s)) = {m \<in> set (cache_entries s). cm_handle m \<noteq> i}"
proof (rule set_eqI)
  fix m
  show "m \<in> set (cache_entries (remove_cached_module i s)) \<longleftrightarrow> m \<in> {m \<in> set (cache_entries s). cm_handle m \<noteq> i}"
    unfolding cache_entries_iff cache_remove_iff mem_Collect_eq
    by (rule iffI) (fastforce simp: filter_empty_conv)+
qed

section \<open>The invariant of a session\<close>

definition cuda_inv ::
    "('d \<Rightarrow> bool) \<Rightarrow> ('d \<Rightarrow> u64 set) \<Rightarrow> ('d \<Rightarrow> u64 \<Rightarrow> u8 list option) \<Rightarrow> 'd CudaHostSession \<Rightarrow> bool" where
  "cuda_inv driver_ok mods mem s \<longleftrightarrow> in_step driver_ok mods mem (cs_driver s) (cs_handles s) \<and> cache_ok s"

lemmas cuda_inv_alt = cuda_inv_def [unfolded in_step_def]

locale cuda_session =
  device_driver "cd_load_module dr" "cd_alloc dr" "cd_copy_in dr" "\<lambda>b. b" "\<lambda>d b. True" "cd_copy_out dr" "cd_free dr"
    "cd_launch_elementwise_add_f32 dr" "cd_launch_kernel dr" "cd_sync dr" driver_ok room mods mem
  for dr :: "'d CudaDriver" and driver_ok room mods mem
begin

lemma inv_on_driver:
  assumes "cuda_inv driver_ok mods mem s" "cuda_on_driver m s = (r, s')"
    and "\<And>r d'. m (cs_driver s) = (r, d') \<Longrightarrow>
      driver_ok d' \<and> mods d' = mods (cs_driver s) \<and> dom (mem d') = dom (mem (cs_driver s))"
  shows "cuda_inv driver_ok mods mem s'"
proof -
  obtain d' where "m (cs_driver s) = (r, d')" "s' = s\<lparr>cs_driver := d'\<rparr>"
    using assms(2) by (auto simp: son_def split: prod.splits)
  with assms(1) assms(3) [of r d'] show ?thesis
    by (simp add: cuda_inv_alt cache_ok_def cache_entries_def)
qed

lemma preserves_on_driver:
  assumes "\<And>d r d'. driver_ok d \<Longrightarrow> m d = (r, d') \<Longrightarrow> driver_ok d' \<and> mods d' = mods d \<and> dom (mem d') = dom (mem d)"
  shows "preserves (cuda_inv driver_ok mods mem) (cuda_on_driver m)"
proof (rule preservesI)
  fix s assume s: "cuda_inv driver_ok mods mem s"
  then have "driver_ok (cs_driver s)" by (simp add: cuda_inv_alt)
  note frame = assms [OF this]
  show "cuda_inv driver_ok mods mem (snd (cuda_on_driver m s))"
    by (rule inv_on_driver [OF s prod.collapse [symmetric]]) (rule frame)
qed

lemma keeps_sync: "preserves (cuda_inv driver_ok mods mem) (cuda_on_driver (cd_sync dr))"
  by (rule preserves_on_driver) (use sync_any in auto)

lemma keeps_launch: "preserves (cuda_inv driver_ok mods mem) (cuda_on_driver (cd_launch_kernel dr m entry ts grid block))"
  by (rule preserves_on_driver) (rule launch_any)

lemma keeps_launch_add:
  "preserves (cuda_inv driver_ok mods mem) (cuda_on_driver (cd_launch_elementwise_add_f32 dr m a b out len))"
  by (rule preserves_on_driver) (rule launch_add_any)

lemma copy_in_frame:
  assumes "driver_ok d" "cd_copy_in dr t bytes d = (r, d')"
  shows "driver_ok d' \<and> mods d' = mods d \<and> dom (mem d') = dom (mem d)"
proof (cases r)
  case (Ok u)
  from copy_in_Ok [OF assms [unfolded Ok]] obtain c where "driver_ok d'" "mods d' = mods d" "t \<in> dom (mem d)"
    "mem d' = (mem d)(t \<mapsto> c)" by blast
  then show ?thesis by (simp add: insert_absorb)
next
  case (Err e)
  from copy_in_Err [OF assms [unfolded Err]] show ?thesis by simp
qed

lemma copy_out_frame:
  assumes "driver_ok d" "cd_copy_out dr t len d = (r, d')"
  shows "driver_ok d' \<and> mods d' = mods d \<and> mem d' = mem d"
proof (cases r)
  case (Ok u)
  from copy_out_Ok [OF assms [unfolded Ok]] show ?thesis by simp
next
  case (Err e)
  from copy_out_Err [OF assms [unfolded Err]] show ?thesis by simp
qed

lemma keeps_copy_in: "preserves (cuda_inv driver_ok mods mem) (cuda_on_driver (cd_copy_in dr t bytes))"
  by (rule preserves_on_driver) (rule copy_in_frame)

lemma keeps_copy_out: "preserves (cuda_inv driver_ok mods mem) (cuda_on_driver (cd_copy_out dr t len))"
  by (rule preserves_on_driver) (use copy_out_frame in auto)

lemmas driver_keeps = keeps_sync keeps_launch keeps_launch_add keeps_copy_in keeps_copy_out

lemma keeps_readers:
  "preserves (cuda_inv driver_ok mods mem) (cuda_copy_in_bytes dr i bytes dtype)"
  "preserves (cuda_inv driver_ok mods mem) (cuda_readback_bytes dr i dtype)"
  "preserves (cuda_inv driver_ok mods mem) (cuda_sync dr)"
  "preserves (cuda_inv driver_ok mods mem) (cuda_launch_kernel_3d dr m entry bufs grid block)"
  "preserves (cuda_inv driver_ok mods mem) (cuda_launch_elementwise_add_f32 dr m a b out)"
  unfolding cuda_copy_in_bytes_def cuda_readback_bytes_def cuda_sync_def cuda_launch_kernel_3d_def
    cuda_launch_elementwise_add_f32_def case_prod_beta
  by (intro keeps driver_keeps)+

text \<open>A new object of the driver is registered under a new handle.\<close>

lemma inv_insert:
  assumes inv: "cuda_inv driver_ok mods mem s" and room: "cuda_room room s"
    and d': "driver_ok d'" "t \<notin> mods (cs_driver s) \<union> dom (mem (cs_driver s))"
      "mods d' = (if kind = KindModule then insert t (mods (cs_driver s)) else mods (cs_driver s))"
      "dom (mem d') = (if kind = KindModule then dom (mem (cs_driver s)) else insert t (dom (mem (cs_driver s))))"
    and ins: "cuda_insert kind t (s\<lparr>cs_driver := d'\<rparr>) = (r, s')"
  shows "cuda_inv driver_ok mods mem s'" "\<exists>i. r = Ok i \<and> has_kind kind i (cs_handles s') t"
    "cs_module_cache s' = cs_module_cache s"
    "has_kind k j (cs_handles s) u \<Longrightarrow> has_kind k j (cs_handles s') u"
proof -
  have step: "in_step driver_ok mods mem (cs_driver s) (cs_handles s)" and left: "ids_left (cs_handles s)"
    using inv room by (simp_all add: cuda_inv_def cuda_room_def ids_left_def)
  then obtain n where n: "Suc n < 2 ^ 64" "registry_inv n (cs_handles s)"
    by (auto simp: in_step_def registered_def)
  obtain i reg where ir: "registry_insert kind t (cs_handles s) = (i, reg)"
    by (cases "registry_insert kind t (cs_handles s)")
  from ins ir have s': "s' = s\<lparr>cs_driver := d', cs_handles := reg\<rparr>" and r: "r = Ok i"
    by (simp_all add: cuda_insert_def)
  note kinds = has_kind_insert [OF n(2,1) ir]
  have fresh: "\<not> has_kind k i (cs_handles s) u" for k u
    using registry_insert_fresh(2) [OF n(2,1), of kind t] ir by (simp add: has_kind_def)
  show old: "has_kind k j (cs_handles s) u \<Longrightarrow> has_kind k j (cs_handles s') u" for k j u
    using fresh by (auto simp: s' kinds)
  show "\<exists>i. r = Ok i \<and> has_kind kind i (cs_handles s') t"
    using r by (simp add: s' kinds)
  show "cs_module_cache s' = cs_module_cache s" by (simp add: s')
  have "cache_ok s'"
    using inv old by (fastforce simp: cuda_inv_def cache_ok_def cache_entries_def s')
  with in_step_insert [OF step left ir d'] show "cuda_inv driver_ok mods mem s'"
    by (simp add: cuda_inv_def s')
qed

lemma inv_load:
  assumes "cuda_inv driver_ok mods mem s" "cuda_room room s" "cuda_load_module dr img s = (r, s')"
  shows "cuda_inv driver_ok mods mem s'"
    and "r = Ok i \<Longrightarrow> (\<exists>t. has_kind KindModule i (cs_handles s') t) \<and> cs_module_cache s' = cs_module_cache s"
proof -
  have ok: "driver_ok (cs_driver s)" "room (cs_driver s)"
    using assms(1,2) by (simp_all add: cuda_inv_alt cuda_room_def)
  show "cuda_inv driver_ok mods mem s'"
    and "r = Ok i \<Longrightarrow> (\<exists>t. has_kind KindModule i (cs_handles s') t) \<and> cs_module_cache s' = cs_module_cache s"
  proof (atomize (full), cases "cs_admitted s \<and> img \<noteq> []")
    case False
    then have "s' = s \<and> (\<exists>e. r = Err e)"
      using assms(3) by (auto simp: cuda_load_module_def sthen_get sthen_lift cuda_require_admitted_def ensure_def split: if_splits)
    with assms(1) show "cuda_inv driver_ok mods mem s' \<and> (r = Ok i \<longrightarrow>
        (\<exists>t. has_kind KindModule i (cs_handles s') t) \<and> cs_module_cache s' = cs_module_cache s)" by auto
  next
    case True
    then have run: "sthen (cuda_on_driver (cd_load_module dr img)) (cuda_insert KindModule) s = (r, s')"
      using assms(3) by (simp add: cuda_load_module_def sthen_get cuda_require_admitted_def)
    obtain q d' where ld: "cd_load_module dr img (cs_driver s) = (q, d')" by (cases "cd_load_module dr img (cs_driver s)")
    show "cuda_inv driver_ok mods mem s' \<and> (r = Ok i \<longrightarrow>
        (\<exists>t. has_kind KindModule i (cs_handles s') t) \<and> cs_module_cache s' = cs_module_cache s)"
    proof (cases q)
      case (Ok t)
      note d' = load_Ok [OF ok ld [unfolded Ok]]
      have ins: "cuda_insert KindModule t (s\<lparr>cs_driver := d'\<rparr>) = (r, s')"
        using run ld Ok by (simp add: sthen_def son_def)
      note facts = inv_insert [OF assms(1,2) _ _ _ _ ins]
      from d' facts show ?thesis by auto
    next
      case (Err e)
      from load_Err [OF ok(1) ld [unfolded Err]] have d': "driver_ok d'" "mods d' = mods (cs_driver s)"
        "mem d' = mem (cs_driver s)" by simp_all
      have "s' = s\<lparr>cs_driver := d'\<rparr>" "r = Err e"
        using run ld Err by (simp_all add: sthen_def son_def)
      with d' assms(1) show ?thesis by (simp add: cuda_inv_alt cache_ok_def cache_entries_def)
    qed
  qed
qed

lemma inv_alloc:
  assumes "cuda_inv driver_ok mods mem s" "cuda_room room s" "cuda_alloc_bytes dr len s = (r, s')"
  shows "cuda_inv driver_ok mods mem s'"
proof -
  have ok: "driver_ok (cs_driver s)" "room (cs_driver s)"
    using assms(1,2) by (simp_all add: cuda_inv_alt cuda_room_def)
  show ?thesis
  proof (cases "cs_admitted s \<and> len \<noteq> 0")
    case False
    then have "s' = s"
      using assms(3) by (auto simp: cuda_alloc_bytes_def sthen_get sthen_lift cuda_require_admitted_def ensure_def split: if_splits)
    with assms(1) show ?thesis by simp
  next
    case True
    then have run: "sthen (cuda_on_driver (cd_alloc dr len)) (cuda_insert (KindBuffer len)) s = (r, s')"
      using assms(3) by (simp add: cuda_alloc_bytes_def sthen_get cuda_require_admitted_def)
    obtain q d' where al: "cd_alloc dr len (cs_driver s) = (q, d')" by (cases "cd_alloc dr len (cs_driver s)")
    show ?thesis
    proof (cases q)
      case (Ok t)
      note d' = alloc_Ok [OF ok al [unfolded Ok]]
      have ins: "cuda_insert (KindBuffer len) t (s\<lparr>cs_driver := d'\<rparr>) = (r, s')"
        using run al Ok by (simp add: sthen_def son_def)
      from d' show ?thesis by (intro inv_insert(1) [OF assms(1,2) _ _ _ _ ins]) auto
    next
      case (Err e)
      from alloc_Err [OF ok(1) al [unfolded Err]] have d': "driver_ok d'" "mods d' = mods (cs_driver s)"
        "mem d' = mem (cs_driver s)" by simp_all
      have "s' = s\<lparr>cs_driver := d'\<rparr>" using run al Err by (simp add: sthen_def son_def)
      with d' assms(1) show ?thesis by (simp add: cuda_inv_alt cache_ok_def cache_entries_def)
    qed
  qed
qed

lemma inv_load_cached:
  assumes "cuda_inv driver_ok mods mem s" "cuda_room room s" "cuda_load_cached_module dr img s = (r, s')"
  shows "cuda_inv driver_ok mods mem s'"
    and "r = Ok i \<Longrightarrow> cached_module img s' = Some \<lparr>cm_image = img, cm_handle = i\<rparr>"
proof (atomize (full), cases "cs_admitted s \<and> img \<noteq> []")
  case False
  then have "s' = s \<and> (\<exists>e. r = Err e)"
    using assms(3) by (auto simp: cuda_load_cached_module_def sthen_get sthen_lift cuda_require_admitted_def
        ensure_def split: if_splits)
  with assms(1) show "cuda_inv driver_ok mods mem s' \<and>
      (r = Ok i \<longrightarrow> cached_module img s' = Some \<lparr>cm_image = img, cm_handle = i\<rparr>)" by auto
next
  case True
  have cache: "cache_ok s" using assms(1) by (simp add: cuda_inv_alt)
  show "cuda_inv driver_ok mods mem s' \<and>
      (r = Ok i \<longrightarrow> cached_module img s' = Some \<lparr>cm_image = img, cm_handle = i\<rparr>)"
  proof (cases "cached_module img s")
    case (Some m)
    then have "cm_image m = img" using cached_module_iff [OF cache] by blast
    with Some True assms show ?thesis
      by (cases m) (auto simp: cuda_load_cached_module_def sthen_get cuda_require_admitted_def)
  next
    case None
    obtain q s1 where ld: "cuda_load_module dr img s = (q, s1)" by (cases "cuda_load_module dr img s")
    have run: "sthen (cuda_load_module dr img) (\<lambda>i s. (Ok i, cache_push img i s)) s = (r, s')"
      using None True assms(3) by (simp add: cuda_load_cached_module_def sthen_get cuda_require_admitted_def)
    note inv1 = inv_load(1) [OF assms(1,2) ld] and live = inv_load(2) [OF assms(1,2) ld]
    show ?thesis
    proof (cases q)
      case (Err e)
      with run ld inv1 show ?thesis by (auto simp: sthen_def)
    next
      case (Ok j)
      then have r: "r = Ok j" "s' = cache_push img j s1"
        using run ld by (simp_all add: sthen_def)
      from live [OF Ok] obtain t where t: "has_kind KindModule j (cs_handles s1) t"
        and same: "cs_module_cache s1 = cs_module_cache s" by blast
      have c1: "cache_ok s1" using inv1 by (simp add: cuda_inv_alt)
      then have map1: "bmap_ok (cs_module_cache s1)" by (simp add: cache_ok_def)
      note entries = entries_cache_push [OF map1, of img j]
      have "cached_module img s1 = None" using None same by (simp add: cached_module_def)
      then have new: "img \<notin> cm_image ` set (cache_entries s1)"
        using cached_module_iff [OF c1] by (metis imageE option.distinct(1))
      have "cache_ok s'"
        unfolding cache_ok_def
      proof (intro conjI)
        show "bmap_ok (cs_module_cache s')" using map1 by (simp add: r cache_push_def Let_def)
        show "\<forall>(hash, ms)\<in>set (cs_module_cache s'). \<forall>m\<in>set ms. fnv1a64 (cm_image m) = hash"
          using c1 by (fastforce simp: r cache_push_def Let_def set_bmap_insert [OF map1] cache_ok_def
              simp flip: bmap_get_iff_mem [OF map1] split: if_splits option.splits)
        show "\<forall>m\<in>set (cache_entries s'). \<exists>t. has_kind KindModule (cm_handle m) (cs_handles s') t"
          using c1 t unfolding r(2) entries by (auto simp: cache_ok_def cache_push_def Let_def)
        show "inj_on cm_image (set (cache_entries s'))"
          using c1 new unfolding r(2) entries by (auto simp: cache_ok_def)
      qed
      then have "cuda_inv driver_ok mods mem s'"
        using inv1 by (simp add: cuda_inv_alt r cache_push_def Let_def)
      moreover have "cached_module img s' = Some \<lparr>cm_image = img, cm_handle = j\<rparr>"
        unfolding cached_module_iff [OF \<open>cache_ok s'\<close>] unfolding r(2) entries by simp
      ultimately show ?thesis using r(1) by auto
    qed
  qed
qed

lemma cache_ok_remove:
  assumes "cache_ok s" "\<And>k j u. j \<noteq> i \<Longrightarrow> has_kind k j (cs_handles s) u \<Longrightarrow> has_kind k j (cs_handles s') u"
    and "cs_module_cache s' = cs_module_cache (remove_cached_module i s)"
  shows "cache_ok s'"
proof -
  have entries: "set (cache_entries s') = {m \<in> set (cache_entries s). cm_handle m \<noteq> i}"
    using entries_remove_cached [of i s] assms(3) by (simp add: cache_entries_def)
  have "bmap_ok (map (\<lambda>(hash, ms). (hash, filter (\<lambda>m. cm_handle m \<noteq> i) ms)) (cs_module_cache s))"
    using assms(1) by (simp add: cache_ok_def bmap_ok_def comp_def case_prod_beta sorted_wrt_map)
  then have "bmap_ok (cs_module_cache s')"
    unfolding assms(3) remove_cached_module_def by simp
  moreover have "\<forall>(hash, ms)\<in>set (cs_module_cache s'). \<forall>m\<in>set ms. fnv1a64 (cm_image m) = hash"
    using assms(1) unfolding assms(3) by (fastforce simp: cache_remove_iff cache_ok_def)
  moreover have "\<forall>m\<in>set (cache_entries s'). \<exists>t. has_kind KindModule (cm_handle m) (cs_handles s') t"
    unfolding entries using assms(1,2) by (fastforce simp: cache_ok_def)
  moreover have "inj_on cm_image (set (cache_entries s'))"
    using assms(1) unfolding entries cache_ok_def by (elim conjE) (erule inj_on_subset, blast)
  ultimately show ?thesis by (simp add: cache_ok_def)
qed

lemma inv_release:
  assumes "cuda_inv driver_ok mods mem s" "cuda_release dr i s = (r, s')"
  shows "cuda_inv driver_ok mods mem s'" "registry_get i (cs_handles s') = None"
    "set (cache_entries s') = {m \<in> set (cache_entries s). cm_handle m \<noteq> i}"
proof -
  have step: "in_step driver_ok mods mem (cs_driver s) (cs_handles s)"
    and cache: "cache_ok s" and ok: "driver_ok (cs_driver s)"
    using assms(1) by (auto simp: cuda_inv_def in_step_def)
  have goal: "cuda_inv driver_ok mods mem s' \<and> registry_get i (cs_handles s') = None \<and>
    set (cache_entries s') = {m \<in> set (cache_entries s). cm_handle m \<noteq> i}"
  proof (cases "registry_get i (cs_handles s)")
    case None
    then have "s' = s" using assms(2) by (simp add: cuda_release_def registry_remove_def registry_get_def)
    moreover have "\<forall>m\<in>set (cache_entries s). cm_handle m \<noteq> i"
      using entry_live [OF cache] None by (metis option.distinct(1))
    then have "set (cache_entries s) = {m \<in> set (cache_entries s). cm_handle m \<noteq> i}" by blast
    ultimately show ?thesis using assms(1) None by simp
  next
    case (Some h)
    define reg where "reg = snd (registry_remove i (cs_handles s))"
    have rem: "registry_remove i (cs_handles s) = (Some h, reg)"
      using Some by (simp add: reg_def registry_remove_def registry_get_def)
    define s1 where "s1 = (if rh_kind h = KindModule then remove_cached_module i (s\<lparr>cs_handles := reg\<rparr>)
      else s\<lparr>cs_handles := reg\<rparr>)"
    obtain q d' where fr: "cd_free dr (rh_token h) (cs_driver s) = (q, d')" by (cases "cd_free dr (rh_token h) (cs_driver s)")
    note d' = free_any [OF ok fr]
    have s': "s' = s1\<lparr>cs_driver := d'\<rparr>"
      using assms(2) rem fr by (auto simp: cuda_release_def s1_def son_def Let_def remove_cached_module_def)
    have s1: "cs_handles s1 = reg" "cs_driver s1 = cs_driver s" by (simp_all add: s1_def remove_cached_module_def)
    have get: "registry_get j reg = (if j = i then None else registry_get j (cs_handles s))" for j
      using registry_get_remove [of j i "cs_handles s"] by (simp add: reg_def)
    have kept: "has_kind k j (cs_handles s') u" if "j \<noteq> i" "has_kind k j (cs_handles s) u" for k j u
      using that by (simp add: s' s1 has_kind_def get)
    have none: "\<forall>m\<in>set (cache_entries s). cm_handle m \<noteq> i" if "rh_kind h \<noteq> KindModule"
      using entry_live [OF cache] Some that by (metis RegisteredHandle.select_convs(1) option.inject)
    have entries: "set (cache_entries s') = {m \<in> set (cache_entries s). cm_handle m \<noteq> i}"
    proof (cases "rh_kind h = KindModule")
      case True
      then show ?thesis
        using entries_remove_cached [of i "s\<lparr>cs_handles := reg\<rparr>"] by (simp add: s' s1_def cache_entries_def)
    next
      case False
      with none show ?thesis by (auto simp: s' s1_def cache_entries_def)
    qed
    have "cache_ok s'"
    proof (cases "rh_kind h = KindModule")
      case True
      then have "cs_module_cache s' = cs_module_cache (remove_cached_module i s)"
        by (simp add: s' s1_def remove_cached_module_def)
      show ?thesis
      proof (rule cache_ok_remove [OF cache])
        show "has_kind k j (cs_handles s') u" if "j \<noteq> i" "has_kind k j (cs_handles s) u" for k j u
          using that by (rule kept)
      qed (rule \<open>cs_module_cache s' = _\<close>)
    next
      case False
      then have "cs_module_cache s' = cs_module_cache s" by (simp add: s' s1_def)
      then have "cache_entries s' = cache_entries s" by (simp add: cache_entries_def)
      have "\<forall>m\<in>set (cache_entries s'). \<exists>t. has_kind KindModule (cm_handle m) (cs_handles s') t"
      proof
        fix m assume "m \<in> set (cache_entries s')"
        then have m: "m \<in> set (cache_entries s)" by (simp only: \<open>cache_entries s' = _\<close>)
        then obtain t where "has_kind KindModule (cm_handle m) (cs_handles s) t"
          using cache by (auto simp: cache_ok_def)
        with kept none [OF False] m show "\<exists>t. has_kind KindModule (cm_handle m) (cs_handles s') t" by blast
      qed
      with cache show ?thesis
        by (simp add: cache_ok_def \<open>cs_module_cache s' = _\<close> \<open>cache_entries s' = _\<close>)
    qed
    moreover have "in_step driver_ok mods mem d' reg"
      by (rule in_step_remove [OF step rem d'])
    ultimately show ?thesis using entries by (auto simp: cuda_inv_def s' s1 get)
  qed
  from goal show "cuda_inv driver_ok mods mem s'" "registry_get i (cs_handles s') = None"
    "set (cache_entries s') = {m \<in> set (cache_entries s). cm_handle m \<noteq> i}" by simp_all
qed

lemma inv_release_all:
  assumes "cuda_inv driver_ok mods mem s" "release_all dr hs first s = (r, s')"
  shows "cuda_inv driver_ok mods mem s' \<and> set (cache_entries s') = {m \<in> set (cache_entries s). cm_handle m \<notin> set hs}"
  using assms
proof (induction hs arbitrary: first s)
  case (Cons i hs)
  obtain q s1 where rel: "cuda_release dr i s = (q, s1)" by (cases "cuda_release dr i s")
  note one = inv_release [OF Cons.prems(1) rel]
  from Cons.prems(2) rel obtain first' where "release_all dr hs first' s1 = (r, s')"
    by (cases q) auto
  from Cons.IH [OF one(1) this] one(3) show ?case by auto
qed simp

lemma inv_teardown:
  assumes "cuda_inv driver_ok mods mem s" "cuda_teardown dr s = (r, s')"
  shows "cuda_inv driver_ok mods mem s'" "cache_entries s' = []"
proof -
  obtain first where all: "release_all dr (cached_handles s) None s = (first, s')"
    using assms(2) by (auto simp: cuda_teardown_def split: prod.splits option.splits)
  have "cm_handle m \<in> set (cached_handles s)" if "m \<in> set (cache_entries s)" for m
    using that by (auto simp: cached_handles_def cache_entries_def)
  with inv_release_all [OF assms(1) all] show "cuda_inv driver_ok mods mem s'" "cache_entries s' = []"
    by (auto simp flip: set_empty)
qed

lemma teardown_again:
  assumes "cache_entries s = []"
  shows "cuda_teardown dr s = (Ok (), s)"
proof -
  have "cached_handles s = map cm_handle (cache_entries s)"
    by (simp add: cached_handles_def cache_entries_def map_concat)
  with assms show ?thesis by (simp add: cuda_teardown_def)
qed

lemma inv_call:
  assumes inv: "cuda_inv driver_ok mods mem s" and "cuda_room room s"
  shows "cuda_inv driver_ok mods mem (cuda_call dr c s)"
proof -
  show ?thesis
  proof (cases c)
    case CallUpload
    with inv show ?thesis by (simp add: cuda_inv_alt cuda_record_weight_upload_def cache_ok_def cache_entries_def)
  qed (simp_all add: keeps_readers [THEN preserves_snd, OF inv] inv_load(1) [OF assms prod.collapse [symmetric]]
      inv_load_cached(1) [OF assms prod.collapse [symmetric]] inv_alloc [OF assms prod.collapse [symmetric]]
      inv_release(1) [OF inv prod.collapse [symmetric]] inv_teardown(1) [OF inv prod.collapse [symmetric]])
qed

lemma session_reach_inv: "cuda_reach dr room s0 s \<Longrightarrow> cuda_inv driver_ok mods mem s0 \<Longrightarrow> cuda_inv driver_ok mods mem s"
  by (induction rule: cuda_reach.induct) (auto intro: inv_call)

text \<open>What was copied in is read back.\<close>

lemma bytes_roundtrip:
  assumes "cuda_inv driver_ok mods mem s" "cuda_copy_in_bytes dr i bytes dtype s = (Ok u, s1)"
    and "cuda_readback_bytes dr i dtype s1 = (Ok out, s2)"
  shows "out = bytes"
proof -
  have ok: "driver_ok (cs_driver s)" using assms(1) by (simp add: cuda_inv_alt)
  obtain t len where tok: "cuda_buffer_token i s = Ok (t, len)" "length bytes = len"
    and cp: "cuda_on_driver (cd_copy_in dr t bytes) s = (Ok u, s1)"
    using assms(2) by (auto simp: cuda_copy_in_bytes_def flow sget_def slift_def split: prod.splits)
  then obtain d1 where d1: "cd_copy_in dr t bytes (cs_driver s) = (Ok u, d1)" "s1 = s\<lparr>cs_driver := d1\<rparr>"
    by (auto simp: son_def split: prod.splits)
  note c = copy_in_Ok [OF ok d1(1)]
  have tok1: "cuda_buffer_token i s1 = Ok (t, len)"
    using tok(1) by (simp add: d1 cuda_buffer_token_def)
  obtain q d2 where co: "cd_copy_out dr t len d1 = (q, d2)" by (cases "cd_copy_out dr t len d1")
  then have "q = Ok out"
    using assms(3) tok1 by (auto simp: cuda_readback_bytes_def flow sget_def slift_def son_def d1(2))
  from copy_out_Ok [OF conjunct1 [OF c] co [unfolded this]] c tok(2) show ?thesis by auto
qed

end

section \<open>A released handle\<close>

definition retired :: "u64 \<Rightarrow> 'd CudaHostSession \<Rightarrow> bool" where
  "retired i s \<longleftrightarrow> dead_id i (cs_handles s)"

definition handles_kept :: "'d CudaHostSession \<Rightarrow> 'd CudaHostSession \<Rightarrow> bool" where
  "handles_kept s s' \<longleftrightarrow> cs_handles s' = cs_handles s"

definition handle_added :: "'d CudaHostSession \<Rightarrow> 'd CudaHostSession \<Rightarrow> bool" where
  "handle_added s s' \<longleftrightarrow> (\<exists>kind t. cs_handles s' = snd (registry_insert kind t (cs_handles s)))"

lemma on_driver_handles [simp]: "cs_handles (snd (cuda_on_driver m s)) = cs_handles s"
  by (simp add: son_def split: prod.split)

lemma keeps_handles:
  "preserves (\<lambda>s. cs_handles s = r) (cuda_copy_in_bytes dr i bytes dtype)"
  "preserves (\<lambda>s. cs_handles s = r) (cuda_readback_bytes dr i dtype)"
  "preserves (\<lambda>s. cs_handles s = r) (cuda_sync dr)"
  "preserves (\<lambda>s. cs_handles s = r) (cuda_launch_kernel_3d dr m entry bufs grid block)"
  "preserves (\<lambda>s. cs_handles s = r) (cuda_launch_elementwise_add_f32 dr m a b out)"
proof -
  have d: "preserves (\<lambda>s. cs_handles s = r) (cuda_on_driver m)" for m :: "('d, 'a, HostError) step"
    by (simp add: preserves_def)
  show "preserves (\<lambda>s. cs_handles s = r) (cuda_copy_in_bytes dr i bytes dtype)"
    "preserves (\<lambda>s. cs_handles s = r) (cuda_readback_bytes dr i dtype)"
    "preserves (\<lambda>s. cs_handles s = r) (cuda_sync dr)"
    "preserves (\<lambda>s. cs_handles s = r) (cuda_launch_kernel_3d dr m entry bufs grid block)"
    "preserves (\<lambda>s. cs_handles s = r) (cuda_launch_elementwise_add_f32 dr m a b out)"
    unfolding cuda_copy_in_bytes_def cuda_readback_bytes_def cuda_sync_def cuda_launch_kernel_3d_def
      cuda_launch_elementwise_add_f32_def case_prod_beta
    by (intro keeps preservesI; simp)+
qed

lemma sthen_insert_handles:
  "let s' = snd (sthen (cuda_on_driver m) (cuda_insert kind) s) in handles_kept s s' \<or> handle_added s s'"
  by (auto simp: sthen_def son_def Let_def handles_kept_def handle_added_def cuda_insert_def registry_insert_def
      split: prod.split result.split)

lemma load_handles: "handles_kept s (snd (cuda_load_module dr img s)) \<or> handle_added s (snd (cuda_load_module dr img s))"
  using sthen_insert_handles [of "cd_load_module dr img" KindModule s]
  by (simp add: cuda_load_module_def sthen_get sthen_lift Let_def handles_kept_def split: result.split)

lemma alloc_handles: "handles_kept s (snd (cuda_alloc_bytes dr len s)) \<or> handle_added s (snd (cuda_alloc_bytes dr len s))"
  using sthen_insert_handles [of "cd_alloc dr len" "KindBuffer len" s]
  by (simp add: cuda_alloc_bytes_def sthen_get sthen_lift Let_def handles_kept_def split: result.split)

lemma push_handles: "cs_handles (snd (sthen m (\<lambda>i s. (Ok i, cache_push img i s)) s)) = cs_handles (snd (m s))"
  by (simp add: sthen_def cache_push_def Let_def split: prod.split result.split)

lemma load_cached_handles:
  "handles_kept s (snd (cuda_load_cached_module dr img s)) \<or> handle_added s (snd (cuda_load_cached_module dr img s))"
  using load_handles [of s dr img]
  by (simp add: cuda_load_cached_module_def sthen_get sthen_lift push_handles handles_kept_def
      handle_added_def split: result.split option.split)

lemma release_handles:
  "cs_handles (snd (cuda_release dr i s)) = snd (registry_remove i (cs_handles s))"
proof (cases "registry_get i (cs_handles s)")
  case None
  then have "bmap_remove i (hr_handles (cs_handles s)) = hr_handles (cs_handles s)"
    by (auto simp: bmap_remove_def registry_get_def map_of_eq_None_iff filter_id_conv)
  with None show ?thesis by (simp add: cuda_release_def registry_remove_def registry_get_def)
next
  case (Some h)
  then show ?thesis by (simp add: cuda_release_def registry_remove_def registry_get_def Let_def remove_cached_module_def)
qed

lemma retired_remove: "retired i s \<Longrightarrow> cs_handles s' = snd (registry_remove j (cs_handles s)) \<Longrightarrow> retired i s'"
  by (simp add: retired_def dead_remove)

lemma retired_added:
  assumes "retired i s" "handle_added s s'" "cuda_room room s" "bmap_ok (hr_handles (cs_handles s))"
  shows "retired i s'"
proof -
  obtain kind t where s': "cs_handles s' = snd (registry_insert kind t (cs_handles s))"
    using assms(2) by (auto simp: handle_added_def)
  with assms show ?thesis
    using dead_insert [of i "cs_handles s" kind t] by (simp add: retired_def cuda_room_def ids_left_def)
qed

lemma retired_release_all: "retired i s \<Longrightarrow> retired i (snd (release_all dr hs first s))"
proof (induction hs arbitrary: first s)
  case (Cons j hs)
  have "retired i (snd (cuda_release dr j s))"
    by (rule retired_remove [OF Cons.prems release_handles])
  with Cons.IH show ?case by (auto split: prod.split result.split)
qed simp

lemma retired_teardown: "retired i s \<Longrightarrow> retired i (snd (cuda_teardown dr s))"
  using retired_release_all [of i s dr "cached_handles s" None]
  by (auto simp: cuda_teardown_def split: prod.split option.split)

lemma retired_call:
  assumes "retired i s" "cuda_room room s" "bmap_ok (hr_handles (cs_handles s))"
  shows "retired i (cuda_call dr c s)"
proof -
  have kept: "retired i s'" if "handles_kept s s'" for s'
    using assms(1) that by (simp add: retired_def handles_kept_def)
  have add: "retired i s'" if "handles_kept s s' \<or> handle_added s s'" for s'
    using kept retired_added [OF assms(1) _ assms(2,3)] that by blast
  note same = keeps_handles [THEN preserves_snd, OF refl]
  show ?thesis
  proof (cases c)
    case CallUpload
    show ?thesis unfolding CallUpload
      by (rule kept) (simp add: handles_kept_def cuda_record_weight_upload_def)
  qed (simp_all add: add [OF load_handles] add [OF load_cached_handles] add [OF alloc_handles] kept handles_kept_def same
      retired_remove [OF assms(1) release_handles] retired_teardown [OF assms(1)])
qed

lemma retired_tokens:
  assumes "retired i s"
  shows "cuda_module_token i s = Err (cuda_invalid_handle i)" "cuda_buffer_token i s = Err (cuda_invalid_handle i)"
    "cuda_release dr i s = (Err (cuda_invalid_handle i), s)"
  using assms by (simp_all add: retired_def dead_id_def cuda_module_token_def cuda_buffer_token_def cuda_release_def
      registry_remove_def registry_get_def)

text \<open>Every call keeps the identities in order, whatever the driver answers.\<close>

lemma numbered_release_all: "numbered (cs_handles s) \<Longrightarrow> numbered (cs_handles (snd (release_all dr hs first s)))"
proof (induction hs arbitrary: first s)
  case (Cons j hs)
  have "numbered (cs_handles (snd (cuda_release dr j s)))"
    unfolding release_handles using Cons.prems by (rule numbered_remove)
  with Cons.IH show ?case by (auto split: prod.split result.split)
qed simp

lemma numbered_call:
  assumes "numbered (cs_handles s)" "cuda_room room s"
  shows "numbered (cs_handles (cuda_call dr c s))"
proof -
  have left: "ids_left (cs_handles s)" using assms(2) by (simp add: cuda_room_def ids_left_def)
  have add: "numbered (cs_handles s')" if "handles_kept s s' \<or> handle_added s s'" for s'
    using that numbered_insert [OF assms(1) left] assms(1) by (auto simp: handles_kept_def handle_added_def)
  note same = keeps_handles [THEN preserves_snd, OF refl]
  show ?thesis
  proof (cases c)
    case CallTeardown
    show ?thesis
      unfolding CallTeardown using numbered_release_all [OF assms(1), of dr "cached_handles s" None]
      by (auto simp: cuda_teardown_def split: prod.split option.split)
  qed (simp_all add: add [OF load_handles] add [OF load_cached_handles] add [OF alloc_handles] same assms(1)
      release_handles numbered_remove cuda_record_weight_upload_def)
qed

lemma reach_numbered: "cuda_reach dr room s0 s \<Longrightarrow> numbered (cs_handles s0) \<Longrightarrow> numbered (cs_handles s)"
  by (induction rule: cuda_reach.induct) (auto intro: numbered_call)

lemma reach_retired: "cuda_reach dr room s0 s \<Longrightarrow> numbered (cs_handles s0) \<Longrightarrow> retired i s0 \<Longrightarrow> retired i s"
  by (induction rule: cuda_reach.induct) (auto intro: retired_call numbered_map dest: reach_numbered)

lemma release_retires:
  assumes "numbered (cs_handles s)" "cuda_release dr i s = (r, s')" "registry_get i (cs_handles s) \<noteq> None"
  shows "retired i s'" "numbered (cs_handles s')"
  using release_handles [of dr i s] numbered_removed_dead [OF assms(1,3)] numbered_remove [OF assms(1)] assms(2)
  by (simp_all add: retired_def)

lemma opened_numbered: "cuda_with_driver dr d = Ok s \<Longrightarrow> numbered (cs_handles s)"
  using numbered_new
  by (auto simp: cuda_with_driver_def cuda_from_driver_def Let_def split: prod.splits result.splits if_splits)

text \<open>A release of a live handle is one call of the driver, of a dead one none.\<close>

lemma release_frees_once:
  "cuda_release dr i s = (case registry_get i (cs_handles s) of
       None \<Rightarrow> (Err (cuda_invalid_handle i), s)
     | Some h \<Rightarrow>
         (fst (cd_free dr (rh_token h) (cs_driver s)),
          (if rh_kind h = KindModule then remove_cached_module i else id)
            (s\<lparr>cs_handles := snd (registry_remove i (cs_handles s)), cs_driver := snd (cd_free dr (rh_token h) (cs_driver s))\<rparr>)))"
  by (simp add: cuda_release_def registry_remove_def registry_get_def son_def Let_def remove_cached_module_def
      split: option.split prod.split)

context cuda_session
begin

lemma live_handles:
  assumes "cuda_inv driver_ok mods mem s"
  shows "cuda_live_handle_count s = card (mods (cs_driver s)) + card (dom (mem (cs_driver s)))"
  using assms in_step_count [of driver_ok mods mem "cs_driver s" "cs_handles s"]
  by (simp add: cuda_inv_def cuda_live_handle_count_def)

end

lemma cuda_inv_new:
  assumes "driver_ok d" "mods d = {}" "mem d = Map.empty"
  shows "cuda_inv driver_ok mods mem \<lparr>cs_driver = d, cs_handles = HandleRegistry_new, cs_module_cache = [],
    cs_admitted = admitted, cs_uploads = 0\<rparr>"
  using in_step_new [of driver_ok d mods mem] assms
  by (simp add: cuda_inv_def cache_ok_def cache_entries_def bmap_ok_simps)

section \<open>The fake meets the contract\<close>

definition fake_cuda_ok :: "FakeCudaDriver \<Rightarrow> bool" where
  "fake_cuda_ok d \<longleftrightarrow>
     bmap_ok (fc_buffers d) \<and> bmap_ok (fc_modules d) \<and>
     (\<forall>t \<in> fst ` set (fc_buffers d) \<union> fst ` set (fc_modules d). unat t < unat (fc_next_token d)) \<and>
     fst ` set (fc_buffers d) \<inter> fst ` set (fc_modules d) = {} \<and>
     length (fc_modules d) + fc_module_releases d = fc_module_loads d \<and>
     length (fc_buffers d) + fc_buffer_releases d = fc_buffer_allocs d"

definition fake_cuda_room :: "FakeCudaDriver \<Rightarrow> bool" where
  "fake_cuda_room d \<longleftrightarrow> unat (fc_next_token d) + 1 < 2 ^ 64"

definition fake_cuda_mods :: "FakeCudaDriver \<Rightarrow> u64 set" where
  "fake_cuda_mods d = fst ` set (fc_modules d)"

definition fake_cuda_mem :: "FakeCudaDriver \<Rightarrow> u64 \<Rightarrow> u8 list option" where
  "fake_cuda_mem d = bmap_get (fc_buffers d)"

lemmas fake_cuda_views = fake_cuda_ok_def fake_cuda_mods_def fake_cuda_mem_def

lemma fc_maybe_fail_frame:
  assumes "fc_maybe_fail stage d = (r, d')"
  shows "d' = d\<lparr>fc_stage_calls := fc_stage_calls d'\<rparr>"
  using assms by (auto simp: fc_maybe_fail_def Let_def split: prod.splits)

lemma fake_cuda_stage_calls [simp]:
  "fake_cuda_ok (d\<lparr>fc_stage_calls := c\<rparr>) = fake_cuda_ok d"
  "fake_cuda_mods (d\<lparr>fc_stage_calls := c\<rparr>) = fake_cuda_mods d"
  "fake_cuda_mem (d\<lparr>fc_stage_calls := c\<rparr>) = fake_cuda_mem d"
  "fake_cuda_room (d\<lparr>fc_stage_calls := c\<rparr>) = fake_cuda_room d"
  by (simp_all add: fake_cuda_views fake_cuda_room_def)

lemma fake_cuda_create:
  assumes "fake_cuda_ok d" "fake_cuda_room d"
  shows "unat (fc_next_token d + 1) = unat (fc_next_token d) + 1"
    "fc_next_token d \<notin> fst ` set (fc_buffers d)" "fc_next_token d \<notin> fst ` set (fc_modules d)"
  using assms by (auto simp: fake_cuda_ok_def fake_cuda_room_def unat_add_u64)

definition cuda_frame :: "FakeCudaDriver \<Rightarrow> FakeCudaDriver \<Rightarrow> bool" where
  "cuda_frame d0 d \<longleftrightarrow>
     fake_cuda_ok d \<and> fake_cuda_mods d = fake_cuda_mods d0 \<and> dom (fake_cuda_mem d) = dom (fake_cuda_mem d0)"

lemma dom_fake_cuda_mem: "dom (fake_cuda_mem d) = fst ` set (fc_buffers d)"
  by (simp add: fake_cuda_mem_def dom_map_of_conv_image_fst)

lemma frame_maybe_fail: "preserves (cuda_frame d0) (fc_maybe_fail stage)"
proof (rule preservesI)
  fix d assume d: "cuda_frame d0 d"
  obtain c where "snd (fc_maybe_fail stage d) = d\<lparr>fc_stage_calls := c\<rparr>"
    by (cases "count_stage_call stage (fc_stage_calls d)") (simp add: fc_maybe_fail_def)
  with d show "cuda_frame d0 (snd (fc_maybe_fail stage d))"
    by (simp add: cuda_frame_def)
qed

text \<open>A buffer is written only after it was found, and keeps its length.\<close>

definition writes :: "FakeCudaDriver \<Rightarrow> u64 \<Rightarrow> nat \<Rightarrow> (FakeCudaDriver, unit, HostError) step \<Rightarrow> bool" where
  "writes d0 t len m \<longleftrightarrow>
     (\<forall>d bytes. cuda_frame d0 d \<longrightarrow> fake_cuda_mem d t = Some bytes \<longrightarrow> length bytes = len \<longrightarrow> cuda_frame d0 (snd (m d)))"

lemma writes_write: "writes d0 t len (smodify (fc_write t bytes))"
proof -
  have "cuda_frame d0 (fc_write t bytes d)" if "cuda_frame d0 d" "fake_cuda_mem d t = Some old" for d old
  proof -
    have "t \<in> fst ` set (fc_buffers d)"
      using that(2) by (metis dom_fake_cuda_mem domI)
    then have "fst ` set (bmap_insert t bytes (fc_buffers d)) = fst ` set (fc_buffers d)"
      "length (bmap_insert t bytes (fc_buffers d)) = length (fc_buffers d)"
      using that(1) by (simp_all add: insert_absorb length_bmap_insert_old cuda_frame_def fake_cuda_ok_def)
    moreover have "fake_cuda_ok d" "fake_cuda_mods d = fake_cuda_mods d0"
      "fst ` set (fc_buffers d) = fst ` set (fc_buffers d0)"
      using that(1) by (simp_all add: cuda_frame_def dom_fake_cuda_mem)
    ultimately show ?thesis
      by (simp add: cuda_frame_def fake_cuda_ok_def fake_cuda_mods_def dom_fake_cuda_mem fc_write_def del: fst_bmap_insert)
  qed
  then show ?thesis by (auto simp: writes_def smodify_def)
qed

lemma writes_lift: "(\<And>x. writes d0 t len (f x)) \<Longrightarrow> writes d0 t len (sthen (slift r) f)"
  by (cases r) (auto simp: writes_def)

lemma frame_read:
  assumes "\<And>bytes. writes d0 t (length bytes) (f bytes)"
  shows "preserves (cuda_frame d0) (sthen (sget (fc_buffer t msg)) f)"
proof (rule preservesI)
  fix d assume d: "cuda_frame d0 d"
  show "cuda_frame d0 (snd (sthen (sget (fc_buffer t msg)) f d))"
  proof (cases "fc_buffer t msg d")
    case (Ok bytes)
    then have "fake_cuda_mem d t = Some bytes" by (simp add: fc_buffer_def ok_or_Ok_iff fake_cuda_mem_def)
    with assms [of bytes] d Ok show ?thesis by (simp add: sthen_get writes_def)
  qed (use d in \<open>simp add: sthen_get\<close>)
qed

lemmas frame_rules = preserves_sthen preserves_slift preserves_sget frame_maybe_fail

lemma frame_simulations:
  "preserves (cuda_frame d0) (fc_simulate_elementwise_add fl m a b out)"
  "preserves (cuda_frame d0) (fc_simulate_accumulate fl m a acc)"
  "preserves (cuda_frame d0) (fc_simulate_copy m a out)"
  "preserves (cuda_frame d0) (fc_simulate_matmul fl m bufs dims)"
  unfolding fc_simulate_elementwise_add_def fc_simulate_accumulate_def fc_simulate_copy_def fc_simulate_matmul_def
    Let_def case_prod_beta
  by (rule preserves_sthen preserves_sget frame_read writes_lift writes_write)+

lemma frame_launch: "preserves (cuda_frame d0) (fc_launch_kernel fl m entry bufs grid block)"
proof -
  have pick: "preserves (cuda_frame d0) (\<lambda>d. case f d of None \<Rightarrow> g d | Some x \<Rightarrow> h x d)"
    if "preserves (cuda_frame d0) g" "\<And>x. preserves (cuda_frame d0) (h x)" for f :: "_ \<Rightarrow> 'x option" and g h
    using that by (simp add: preserves_def split: option.split)
  have choose: "preserves (cuda_frame d0) (\<lambda>d. if c then g d else h d)"
    if "preserves (cuda_frame d0) g" "preserves (cuda_frame d0) h" for c and g h :: "(FakeCudaDriver, unit, HostError) step"
    using that by (simp add: preserves_def)
  have two: "preserves (cuda_frame d0) (\<lambda>d. case bufs of [a, b] \<Rightarrow> f a b d | _ \<Rightarrow> (Err e, d))"
    if "\<And>a b. preserves (cuda_frame d0) (f a b)" for f :: "_ \<Rightarrow> _ \<Rightarrow> (FakeCudaDriver, unit, HostError) step" and e
    using that by (simp add: preserves_def split: list.split)
  have three: "preserves (cuda_frame d0) (\<lambda>d. case bufs of [a, b, c] \<Rightarrow> f a b c d | _ \<Rightarrow> (Err e, d))"
    if "\<And>a b c. preserves (cuda_frame d0) (f a b c)" for f :: "_ \<Rightarrow> _ \<Rightarrow> _ \<Rightarrow> (FakeCudaDriver, unit, HostError) step" and e
    using that by (simp add: preserves_def split: list.split)
  show ?thesis
    unfolding fc_launch_kernel_def
    by (rule preserves_sthen frame_maybe_fail preserves_sget pick choose two three frame_simulations)+
qed

lemma frameD:
  assumes "preserves (cuda_frame d) m" "fake_cuda_ok d" "m d = (r, d')"
  shows "fake_cuda_ok d' \<and> fake_cuda_mods d' = fake_cuda_mods d \<and> dom (fake_cuda_mem d') = dom (fake_cuda_mem d)"
  using preservesD [OF assms(1) _ assms(3)] assms(2) by (simp add: cuda_frame_def)

lemma fc_maybe_fail_cases:
  assumes "sthen (fc_maybe_fail stage) f d = (r, d')"
  obtains e c where "r = Err e" "d' = d\<lparr>fc_stage_calls := c\<rparr>"
  | c where "f () (d\<lparr>fc_stage_calls := c\<rparr>) = (r, d')"
  using assms
proof (cases rule: sthen_cases)
  case (1 e)
  with that(1) fc_maybe_fail_frame [OF 1(1)] show ?thesis by metis
next
  case (2 x s')
  with that(2) fc_maybe_fail_frame [OF 2(1)] show ?thesis by (metis (full_types) unit_eq)
qed

lemma fake_cuda_token_fresh:
  assumes "fake_cuda_ok d" "fake_cuda_room d"
  shows "fc_next_token d \<notin> fake_cuda_mods d \<union> dom (fake_cuda_mem d)"
  using fake_cuda_create [OF assms] by (simp add: fake_cuda_mods_def dom_fake_cuda_mem)

lemma fake_cuda_load:
  assumes "fake_cuda_ok d" "fc_load_module img d = (r, d')"
  shows "r = Ok t \<Longrightarrow> fake_cuda_room d \<Longrightarrow> fake_cuda_ok d' \<and> t \<notin> fake_cuda_mods d \<union> dom (fake_cuda_mem d) \<and>
      fake_cuda_mods d' = insert t (fake_cuda_mods d) \<and> fake_cuda_mem d' = fake_cuda_mem d"
    and "r = Err e \<Longrightarrow> fake_cuda_ok d' \<and> fake_cuda_mods d' = fake_cuda_mods d \<and> fake_cuda_mem d' = fake_cuda_mem d"
proof -
  show "r = Ok t \<Longrightarrow> fake_cuda_room d \<Longrightarrow> fake_cuda_ok d' \<and> t \<notin> fake_cuda_mods d \<union> dom (fake_cuda_mem d) \<and>
      fake_cuda_mods d' = insert t (fake_cuda_mods d) \<and> fake_cuda_mem d' = fake_cuda_mem d"
    using assms(2) unfolding fc_load_module_def
  proof (cases rule: fc_maybe_fail_cases)
    case (2 c)
    assume "r = Ok t" "fake_cuda_room d"
    note new = fake_cuda_create [OF assms(1) this(2)]
    from 2 \<open>r = Ok t\<close> have t: "t = fc_next_token d" by simp
    from 2 have d': "d' = d\<lparr>fc_stage_calls := c, fc_module_loads := fc_module_loads d + 1, fc_next_token := fc_next_token d + 1,
      fc_modules := bmap_insert (fc_next_token d) img (fc_modules d)\<rparr>"
      by simp
    show ?thesis
      using new assms(1) unfolding d' t
      by (simp add: fake_cuda_ok_def fake_cuda_mods_def fake_cuda_mem_def dom_map_of_conv_image_fst length_bmap_insert_new
          less_SucI ball_Un fun_eq_iff)
  qed simp
  show "r = Err e \<Longrightarrow> fake_cuda_ok d' \<and> fake_cuda_mods d' = fake_cuda_mods d \<and> fake_cuda_mem d' = fake_cuda_mem d"
    using assms(2) unfolding fc_load_module_def
    by (cases rule: fc_maybe_fail_cases) (use assms(1) in simp_all)
qed

lemma fake_cuda_alloc:
  assumes "fake_cuda_ok d" "fc_alloc len d = (r, d')"
  shows "r = Ok t \<Longrightarrow> fake_cuda_room d \<Longrightarrow> fake_cuda_ok d' \<and> t \<notin> fake_cuda_mods d \<union> dom (fake_cuda_mem d) \<and>
      fake_cuda_mods d' = fake_cuda_mods d \<and> fake_cuda_mem d' = (fake_cuda_mem d)(t \<mapsto> replicate len 0)"
    and "r = Err e \<Longrightarrow> fake_cuda_ok d' \<and> fake_cuda_mods d' = fake_cuda_mods d \<and> fake_cuda_mem d' = fake_cuda_mem d"
proof -
  show "r = Ok t \<Longrightarrow> fake_cuda_room d \<Longrightarrow> fake_cuda_ok d' \<and> t \<notin> fake_cuda_mods d \<union> dom (fake_cuda_mem d) \<and>
      fake_cuda_mods d' = fake_cuda_mods d \<and> fake_cuda_mem d' = (fake_cuda_mem d)(t \<mapsto> replicate len 0)"
    using assms(2) unfolding fc_alloc_def
  proof (cases rule: fc_maybe_fail_cases)
    case (2 c)
    assume "r = Ok t" "fake_cuda_room d"
    note new = fake_cuda_create [OF assms(1) this(2)]
    from 2 \<open>r = Ok t\<close> have t: "t = fc_next_token d" by simp
    from 2 have d': "d' = d\<lparr>fc_stage_calls := c, fc_buffer_allocs := fc_buffer_allocs d + 1, fc_next_token := fc_next_token d + 1,
      fc_buffers := bmap_insert (fc_next_token d) (replicate len 0) (fc_buffers d)\<rparr>"
      by simp
    show ?thesis
      using new assms(1) unfolding d' t
      by (simp add: fake_cuda_ok_def fake_cuda_mods_def fake_cuda_mem_def dom_map_of_conv_image_fst length_bmap_insert_new
          less_SucI ball_Un fun_eq_iff)
  qed simp
  show "r = Err e \<Longrightarrow> fake_cuda_ok d' \<and> fake_cuda_mods d' = fake_cuda_mods d \<and> fake_cuda_mem d' = fake_cuda_mem d"
    using assms(2) unfolding fc_alloc_def
    by (cases rule: fc_maybe_fail_cases) (use assms(1) in simp_all)
qed

lemma fake_cuda_copy_in:
  assumes "fake_cuda_ok d" "fc_copy_in t bytes d = (r, d')"
  shows "r = Ok u \<Longrightarrow> t \<in> dom (fake_cuda_mem d) \<and> fake_cuda_mem d' = (fake_cuda_mem d)(t \<mapsto> bytes)"
    and "r = Err e \<Longrightarrow> fake_cuda_mem d' = fake_cuda_mem d"
  using assms(2) unfolding fc_copy_in_def
  by (cases rule: fc_maybe_fail_cases; use assms(1) in \<open>auto simp: sthen_get sthen_lift fc_buffer_def smodify_def ok_or_def
      ensure_def fc_write_def fake_cuda_mem_def fake_cuda_ok_def split: option.splits if_splits result.splits\<close>)+

lemma frame_copy_in: "preserves (cuda_frame d0) (fc_copy_in t bytes)"
  unfolding fc_copy_in_def
  by (rule preserves_sthen frame_maybe_fail frame_read writes_lift writes_write)+

lemma fake_cuda_copy_out:
  assumes "fake_cuda_ok d" "fc_copy_out t len d = (r, d')"
  shows "fake_cuda_ok d' \<and> fake_cuda_mods d' = fake_cuda_mods d \<and> fake_cuda_mem d' = fake_cuda_mem d"
    and "r = Ok bytes \<Longrightarrow> \<exists>c. fake_cuda_mem d t = Some c \<and> bytes = take len c"
  using assms(2) unfolding fc_copy_out_def
  by (cases rule: fc_maybe_fail_cases; use assms(1) in \<open>auto simp: sthen_get sthen_lift fc_buffer_def slift_def ok_or_def
      ensure_def fake_cuda_mem_def split: option.splits if_splits result.splits\<close>)+

lemma fake_cuda_free:
  assumes "fake_cuda_ok d" "fc_free t d = (r, d')"
  shows "fake_cuda_ok d' \<and> fake_cuda_mods d' = fake_cuda_mods d - {t} \<and> fake_cuda_mem d' = (fake_cuda_mem d)(t := None)"
proof -
  have keys: "fst ` set (bmap_remove t m) = fst ` set m - {t}" for m :: "(u64, u8 list) bmap"
    by (force simp: bmap_remove_def)
  have same: "bmap_remove t m = m" if "t \<notin> fst ` set m" for m :: "(u64, u8 list) bmap"
    using that by (force simp: bmap_remove_def filter_id_conv)
  have ok: "bmap_ok (fc_buffers d)" "bmap_ok (fc_modules d)" using assms(1) by (simp_all add: fake_cuda_ok_def)
  consider "t \<in> fst ` set (fc_buffers d)" | "t \<notin> fst ` set (fc_buffers d)" "t \<in> fst ` set (fc_modules d)"
    | "t \<notin> fst ` set (fc_buffers d)" "t \<notin> fst ` set (fc_modules d)" by blast
  then show ?thesis
  proof cases
    case 1
    then have "t \<notin> fst ` set (fc_modules d)" using assms(1) by (auto simp: fake_cuda_ok_def)
    moreover from assms(1) this have "(fst ` set (fc_buffers d) - {t}) \<inter> fst ` set (fc_modules d) = {}"
      by (simp add: fake_cuda_ok_def Diff_Int_distrib2)
    moreover from 1 assms(2) have d': "d' = d\<lparr>fc_buffers := bmap_remove t (fc_buffers d),
        fc_buffer_releases := fc_buffer_releases d + 1\<rparr>" by (simp add: fc_free_def)
    ultimately show ?thesis
      using assms(1) length_bmap_remove [OF ok(1) 1] unfolding d'
      by (simp add: fc_free_def fake_cuda_ok_def fake_cuda_mods_def fake_cuda_mem_def keys fun_eq_iff) blast
  next
    case 2
    from assms(1) have "fst ` set (fc_buffers d) \<inter> (fst ` set (fc_modules d) - {t}) = {}"
      by (simp add: fake_cuda_ok_def Diff_Int_distrib)
    moreover from 2 assms(2) have d': "d' = d\<lparr>fc_modules := bmap_remove t (fc_modules d),
        fc_module_releases := fc_module_releases d + 1\<rparr>" by (simp add: fc_free_def)
    ultimately show ?thesis
      using assms(1) length_bmap_remove [OF ok(2) 2(2)] same [OF 2(1)] bmap_get_remove [of t "fc_buffers d"] unfolding d'
      by (simp add: fc_free_def fake_cuda_ok_def fake_cuda_mods_def fake_cuda_mem_def keys fun_eq_iff) blast
  next
    case 3
    then have "d' = d" using assms(2) by (simp add: fc_free_def)
    with 3 assms(1) same [OF 3(1)] bmap_get_remove [of t "fc_buffers d"] show ?thesis
      by (simp add: fake_cuda_mods_def fake_cuda_mem_def)
  qed
qed

interpretation fake_session: cuda_session "fake_cuda fl" fake_cuda_ok fake_cuda_room fake_cuda_mods fake_cuda_mem for fl
proof unfold_locales
  fix d d' :: FakeCudaDriver and img bytes len t e u
  assume ok: "fake_cuda_ok d"
  show "fake_cuda_room d \<Longrightarrow> cd_load_module (fake_cuda fl) img d = (Ok t, d') \<Longrightarrow>
      fake_cuda_ok d' \<and> t \<notin> fake_cuda_mods d \<union> dom (fake_cuda_mem d) \<and>
      fake_cuda_mods d' = insert t (fake_cuda_mods d) \<and> fake_cuda_mem d' = fake_cuda_mem d"
    using fake_cuda_load(1) [OF ok _ refl] by (simp add: fake_cuda_def)
  show "cd_load_module (fake_cuda fl) img d = (Err e, d') \<Longrightarrow>
      fake_cuda_ok d' \<and> fake_cuda_mods d' = fake_cuda_mods d \<and> fake_cuda_mem d' = fake_cuda_mem d"
    using fake_cuda_load(2) [OF ok _ refl] by (simp add: fake_cuda_def)
  show "fake_cuda_room d \<Longrightarrow> cd_alloc (fake_cuda fl) len d = (Ok t, d') \<Longrightarrow>
      fake_cuda_ok d' \<and> t \<notin> fake_cuda_mods d \<union> dom (fake_cuda_mem d) \<and> fake_cuda_mods d' = fake_cuda_mods d \<and>
      fake_cuda_mem d' = (fake_cuda_mem d)(t \<mapsto> replicate len 0)"
    using fake_cuda_alloc(1) [OF ok _ refl] by (simp add: fake_cuda_def)
  show "cd_alloc (fake_cuda fl) len d = (Err e, d') \<Longrightarrow>
      fake_cuda_ok d' \<and> fake_cuda_mods d' = fake_cuda_mods d \<and> fake_cuda_mem d' = fake_cuda_mem d"
    using fake_cuda_alloc(2) [OF ok _ refl] by (simp add: fake_cuda_def)
  show "cd_copy_in (fake_cuda fl) t bytes d = (Ok u, d') \<Longrightarrow>
      fake_cuda_ok d' \<and> fake_cuda_mods d' = fake_cuda_mods d \<and> t \<in> dom (fake_cuda_mem d) \<and>
      (\<exists>c. fake_cuda_mem d' = (fake_cuda_mem d)(t \<mapsto> c) \<and> (True \<longrightarrow> take (length bytes) c = bytes))"
    using fake_cuda_copy_in(1) [OF ok _ refl] frameD [OF frame_copy_in ok]
    by (intro conjI exI [of _ bytes]) (simp_all add: fake_cuda_def)
  show "cd_copy_in (fake_cuda fl) t bytes d = (Err e, d') \<Longrightarrow>
      fake_cuda_ok d' \<and> fake_cuda_mods d' = fake_cuda_mods d \<and> fake_cuda_mem d' = fake_cuda_mem d"
    using fake_cuda_copy_in(2) [OF ok _ refl] frameD [OF frame_copy_in ok] by (simp add: fake_cuda_def)
  show "cd_copy_out (fake_cuda fl) t len d = (Ok bytes, d') \<Longrightarrow>
      fake_cuda_ok d' \<and> fake_cuda_mods d' = fake_cuda_mods d \<and> fake_cuda_mem d' = fake_cuda_mem d \<and>
      (\<exists>c. fake_cuda_mem d t = Some c \<and> bytes = take len c)"
    using fake_cuda_copy_out [OF ok] by (simp add: fake_cuda_def)
  show "cd_copy_out (fake_cuda fl) t len d = (Err e, d') \<Longrightarrow>
      fake_cuda_ok d' \<and> fake_cuda_mods d' = fake_cuda_mods d \<and> fake_cuda_mem d' = fake_cuda_mem d"
    using fake_cuda_copy_out(1) [OF ok] by (simp add: fake_cuda_def)
next
  fix d d' :: FakeCudaDriver and t m entry ts grid block a b out len and r :: "(unit, HostError) result"
  assume ok: "fake_cuda_ok d"
  show "cd_free (fake_cuda fl) t d = (r, d') \<Longrightarrow>
      fake_cuda_ok d' \<and> fake_cuda_mods d' = fake_cuda_mods d - {t} \<and> fake_cuda_mem d' = (fake_cuda_mem d)(t := None)"
    using fake_cuda_free [OF ok] by (simp add: fake_cuda_def)
  show "cd_launch_kernel (fake_cuda fl) m entry ts grid block d = (r, d') \<Longrightarrow>
      fake_cuda_ok d' \<and> fake_cuda_mods d' = fake_cuda_mods d \<and> dom (fake_cuda_mem d') = dom (fake_cuda_mem d)"
    using frameD [OF frame_launch ok] by (simp add: fake_cuda_def)
  show "cd_launch_elementwise_add_f32 (fake_cuda fl) m a b out len d = (r, d') \<Longrightarrow>
      fake_cuda_ok d' \<and> fake_cuda_mods d' = fake_cuda_mods d \<and> dom (fake_cuda_mem d') = dom (fake_cuda_mem d)"
    using frameD [OF frame_simulations(1) ok] by (simp add: fake_cuda_def fc_launch_elementwise_add_f32_def)
  show "cd_sync (fake_cuda fl) d = (r, d') \<Longrightarrow>
      fake_cuda_ok d' \<and> fake_cuda_mods d' = fake_cuda_mods d \<and> fake_cuda_mem d' = fake_cuda_mem d"
    unfolding fake_cuda_def CudaDriver.simps fc_sync_def
    by (erule fc_maybe_fail_cases) (use ok in \<open>auto simp: slift_def\<close>)
qed

lemma fake_cuda_counts:
  assumes "fake_cuda_ok d"
  shows "card (fake_cuda_mods d) + fc_module_releases d = fc_module_loads d"
    "card (dom (fake_cuda_mem d)) + fc_buffer_releases d = fc_buffer_allocs d"
proof -
  have "card (fst ` set m) = length m" if "bmap_ok m" for m :: "(u64, u8 list) bmap"
    using bmap_ok_distinct [OF that] by (metis distinct_card image_set length_map)
  with assms show "card (fake_cuda_mods d) + fc_module_releases d = fc_module_loads d"
    "card (dom (fake_cuda_mem d)) + fc_buffer_releases d = fc_buffer_allocs d"
    by (simp_all add: fake_cuda_ok_def fake_cuda_mods_def dom_fake_cuda_mem)
qed

section \<open>A fresh fake, opened\<close>

text \<open>The builders of the fake only choose what it simulates and where it fails.\<close>

definition fake_cuda_configured :: "FakeCudaDriver \<Rightarrow> bool" where
  "fake_cuda_configured d \<longleftrightarrow>
     d\<lparr>fc_force_unavailable := False, fc_known_entries := [], fc_matmul_simulation := None, fc_fail_at := []\<rparr> =
       fake_cuda_default"

lemma fake_cuda_configured_built:
  "fake_cuda_configured fake_cuda_default" "fake_cuda_configured fake_cuda_unavailable"
  "fake_cuda_configured d \<Longrightarrow> fake_cuda_configured (fc_with_known_entry entry d)"
  "fake_cuda_configured d \<Longrightarrow> fake_cuda_configured (fc_with_matmul_simulation m k n d)"
  "fake_cuda_configured d \<Longrightarrow> fake_cuda_configured (fc_with_failure_at stage call d)"
  by (simp_all add: fake_cuda_configured_def fake_cuda_default_def fake_cuda_unavailable_def fc_with_known_entry_def
      fc_with_matmul_simulation_def fc_with_failure_at_def)

lemma fake_cuda_open_inv:
  assumes "fake_cuda_configured d" "cuda_with_driver (fake_cuda fl) d = Ok s"
  shows "cuda_inv fake_cuda_ok fake_cuda_mods fake_cuda_mem s"
proof -
  obtain known matmul fail unavailable where d: "d = fake_cuda_default\<lparr>fc_known_entries := known,
      fc_matmul_simulation := matmul, fc_fail_at := fail, fc_force_unavailable := unavailable\<rparr>"
    using assms(1) by (cases d) (simp add: fake_cuda_configured_def fake_cuda_default_def)
  have "fake_cuda_ok d" "fake_cuda_mods d = {}" "fake_cuda_mem d = Map.empty"
    by (simp_all add: d fake_cuda_views fake_cuda_default_def fun_eq_iff)
  moreover have "s = \<lparr>cs_driver = d, cs_handles = HandleRegistry_new, cs_module_cache = [], cs_admitted = True,
      cs_uploads = 0\<rparr>"
    using assms(2) by (auto simp: cuda_with_driver_def cuda_from_driver_def fake_cuda_def fc_discover_def slift_apply
        Let_def split: if_splits)
  ultimately show ?thesis using cuda_inv_new [of fake_cuda_ok d fake_cuda_mods fake_cuda_mem True] by simp
qed

lemma release_all_gone:
  "i \<in> set hs \<or> registry_get i (cs_handles s) = None \<Longrightarrow> registry_get i (cs_handles (snd (release_all dr hs first s))) = None"
proof (induction hs arbitrary: first s)
  case (Cons j hs)
  have "registry_get i (cs_handles (snd (cuda_release dr j s))) = (if i = j then None else registry_get i (cs_handles s))"
    by (simp add: release_handles registry_get_remove)
  with Cons.prems have "i \<in> set hs \<or> registry_get i (cs_handles (snd (cuda_release dr j s))) = None" by auto
  from Cons.IH [OF this] show ?case by (auto split: prod.split result.split)
qed simp

lemma teardown_gone:
  assumes "cached_module img s = Some m" "cache_ok s"
  shows "registry_get (cm_handle m) (cs_handles (snd (cuda_teardown dr s))) = None"
proof -
  have "m \<in> set (cache_entries s)" using assms cached_module_iff by blast
  then have "cm_handle m \<in> set (cached_handles s)" by (auto simp: cached_handles_def cache_entries_def)
  then have "registry_get (cm_handle m) (cs_handles (snd (release_all dr (cached_handles s) None s))) = None"
    by (intro release_all_gone disjI1)
  then show ?thesis by (auto simp: cuda_teardown_def split: prod.split option.split)
qed

text \<open>A run that leaves room in the driver is a run.\<close>

lemma cuda_reach_weaken: "cuda_reach dr room s0 s \<Longrightarrow> cuda_reach dr (\<lambda>_. True) s0 s"
proof (induction rule: cuda_reach.induct)
  case (cuda_next s c)
  then have "cuda_room (\<lambda>_. True) s" by (simp add: cuda_room_def)
  with cuda_next show ?case by (intro cuda_reach.cuda_next)
qed (rule cuda_start)

text \<open>A list of calls, all made while there is room.\<close>

fun cuda_runs :: "'d CudaDriver \<Rightarrow> ('d \<Rightarrow> bool) \<Rightarrow> CudaCall list \<Rightarrow> 'd CudaHostSession \<Rightarrow> bool" where
  "cuda_runs dr room [] s \<longleftrightarrow> True"
| "cuda_runs dr room (c # cs) s \<longleftrightarrow> cuda_room room s \<and> cuda_runs dr room cs (cuda_call dr c s)"

lemma cuda_reach_runs:
  "cuda_reach dr room s0 s \<Longrightarrow> cuda_runs dr room cs s \<Longrightarrow> cuda_reach dr room s0 (fold (cuda_call dr) cs s)"
  by (induction cs arbitrary: s) (auto intro: cuda_reach.intros)

lemma load_admitted: "cs_admitted (snd (cuda_load_module dr img s)) = cs_admitted s"
proof -
  have "cs_admitted (snd (sthen (cuda_on_driver m) (cuda_insert kind) s)) = cs_admitted s" for m kind
    by (auto simp: sthen_def son_def cuda_insert_def split: result.split prod.split)
  then show ?thesis by (simp add: cuda_load_module_def sthen_get sthen_lift split: result.split)
qed

lemma cached_load_admitted:
  assumes "cuda_load_cached_module dr img s = (Ok i, s')"
  shows "cs_admitted s' \<and> img \<noteq> []"
proof -
  have s: "cs_admitted s" "img \<noteq> []"
    using assms by (auto simp: cuda_load_cached_module_def flow sget_def slift_def cuda_require_admitted_def ensure_def
        split: if_splits)
  have "cs_admitted s' = cs_admitted s"
  proof (cases "cached_module img s")
    case None
    then have "sthen (cuda_load_module dr img) (\<lambda>i s. (Ok i, cache_push img i s)) s = (Ok i, s')"
      using assms s by (simp add: cuda_load_cached_module_def sthen_get sthen_lift cuda_require_admitted_def ensure_def)
    then obtain j s1 where "cuda_load_module dr img s = (Ok j, s1)" "s' = cache_push img j s1"
      by (auto simp: flow)
    with load_admitted [of dr img s] show ?thesis by (simp add: cache_push_def Let_def)
  next
    case (Some m)
    with assms s show ?thesis
      by (simp add: cuda_load_cached_module_def sthen_get sthen_lift cuda_require_admitted_def ensure_def)
  qed
  with s show ?thesis by simp
qed

lemma cached_none: "cache_ok s \<Longrightarrow> cache_entries s = [] \<Longrightarrow> cached_module img s = None"
  using cached_module_iff [of s img] by (cases "cached_module img s") auto

section \<open>Reading back\<close>

lemma cuda_copied:
  assumes "cuda_copy_in_bytes dr i bytes dtype s = (Ok u, s1)"
  obtains t d1 where "cs_admitted s" "length bytes mod byte_width dtype = 0" "cuda_buffer_token i s = Ok (t, length bytes)"
    "cd_copy_in dr t bytes (cs_driver s) = (Ok u, d1)" "s1 = s\<lparr>cs_driver := d1\<rparr>"
proof -
  obtain t where c: "cs_admitted s" "length bytes mod byte_width dtype = 0" "cuda_buffer_token i s = Ok (t, length bytes)"
    and cp: "cuda_on_driver (cd_copy_in dr t bytes) s = (Ok u, s1)"
    using assms by (auto simp: cuda_copy_in_bytes_def flow sget_def slift_def cuda_require_admitted_def ensure_def
        split: prod.splits if_splits)
  from cp obtain d1 where "cd_copy_in dr t bytes (cs_driver s) = (Ok u, d1)" "s1 = s\<lparr>cs_driver := d1\<rparr>"
    by (auto simp: son_def split: prod.splits)
  with c show ?thesis by (rule that)
qed

lemma fake_cuda_readback:
  assumes "cuda_inv fake_cuda_ok fake_cuda_mods fake_cuda_mem s"
    and "cuda_copy_in_bytes (fake_cuda fl) i bytes dtype s = (Ok u, s1)"
    and "bmap_get (fc_fail_at (cs_driver s1)) StageReadback = None"
  shows "fst (cuda_readback_bytes (fake_cuda fl) i dtype s1) = Ok bytes"
proof -
  from assms(2) obtain t d1 where c: "cs_admitted s" "length bytes mod byte_width dtype = 0"
    "cuda_buffer_token i s = Ok (t, length bytes)" "cd_copy_in (fake_cuda fl) t bytes (cs_driver s) = (Ok u, d1)"
    and s1: "s1 = s\<lparr>cs_driver := d1\<rparr>" by (rule cuda_copied)
  have "fake_cuda_ok (cs_driver s)" using assms(1) by (simp add: cuda_inv_alt)
  with c(4) have "fake_cuda_mem d1 t = Some bytes"
    using fake_cuda_copy_in(1) [of "cs_driver s" t bytes "Ok u" d1 u] by (simp add: fake_cuda_def)
  then have "bmap_get (fc_buffers d1) t = Some bytes" by (simp add: fake_cuda_mem_def)
  moreover have "cuda_buffer_token i s1 = Ok (t, length bytes)" using c(3) by (simp add: s1 cuda_buffer_token_def)
  ultimately show ?thesis
    using c(1,2) assms(3)
    by (simp add: cuda_readback_bytes_def sthen_get sthen_lift cuda_require_admitted_def s1 sthen_def son_def
        fake_cuda_def fc_copy_out_def fc_maybe_fail_def fc_buffer_def sget_def slift_apply ensure_def ok_or_def
        split: prod.split)
qed

lemma fake_cuda_readback_f32:
  assumes "cuda_inv fake_cuda_ok fake_cuda_mods fake_cuda_mem s"
    and "cuda_copy_in_f32 (fake_cuda fl) i vals s = (Ok u, s1)"
    and "bmap_get (fc_fail_at (cs_driver s1)) StageReadback = None"
  shows "fst (cuda_readback_f32 (fake_cuda fl) i s1) = Ok vals"
proof -
  let ?bytes = "concat (map u32_to_le_bytes vals)"
  have len: "length ?bytes mod 4 = 0" by (induction vals) (simp_all add: u32_to_le_bytes_def)
  obtain s2 where "cuda_readback_bytes (fake_cuda fl) i DtF32 s1 = (Ok ?bytes, s2)"
    using fake_cuda_readback [OF assms(1) assms(2) [unfolded cuda_copy_in_f32_def] assms(3)]
    by (metis prod.collapse)
  with len show ?thesis
    by (simp add: cuda_readback_f32_def sthen_def slift_apply f32_of_chunks_concat ensure_def)
qed

end
