(* ===== verification/Metal_Session.thy ===== *)
theory Metal_Session
  imports Device_Driver
begin

unbundle bit_operations_syntax

text \<open>
  \<open>macos-arm64/src/metal_host.rs\<close>: the session of opaque handles over a Metal driver, the bound
  launches, and the admission of mapped weight pages. The trait \<open>MetalDriver\<close> is the record of its
  functions over a driver state; the live driver is foreign code.

  A slice of bytes has an address when it lies in mapped memory (\<open>ByteSlice\<close>); memory of the process
  heap is in no retained mapping, and its address is \<^const>\<open>None\<close>. A mapping is its address, its page
  size and the bytes of its pages. Addresses and byte counts of that arithmetic are \<open>usize\<close> words.
\<close>

section \<open>Errors\<close>

definition E_METAL_UNAVAILABLE :: string where "E_METAL_UNAVAILABLE = ''E_METAL_UNAVAILABLE''"
definition E_METAL_INVALID_HANDLE :: string where "E_METAL_INVALID_HANDLE = ''E_METAL_INVALID_HANDLE''"
definition E_METAL_DRIVER :: string where "E_METAL_DRIVER = ''E_METAL_DRIVER''"

definition metal_unavailable :: "string \<Rightarrow> HostError" where
  "metal_unavailable message = \<lparr>he_code = E_METAL_UNAVAILABLE, he_message = message, he_retryable = False\<rparr>"

definition metal_invalid_handle :: "u64 \<Rightarrow> HostError" where
  "metal_invalid_handle i =
     \<lparr>he_code = E_METAL_INVALID_HANDLE, he_message = ''unknown or released Metal handle '' @ display_u64 i,
      he_retryable = False\<rparr>"

definition metal_driver :: "string \<Rightarrow> HostError" where
  "metal_driver message = \<lparr>he_code = E_METAL_DRIVER, he_message = message, he_retryable = False\<rparr>"

definition metal_entry_mismatch :: "string \<Rightarrow> HostError" where
  "metal_entry_mismatch entry =
     \<lparr>he_code = E_DEVICE_ENTRY_MISMATCH, he_message = ''launch: module has no entry named '' @ entry,
      he_retryable = False\<rparr>"

section \<open>Mapped weight files\<close>

record ByteSlice =
  sl_addr :: "u64 option"
  sl_bytes :: "u8 list"

definition owned :: "u8 list \<Rightarrow> ByteSlice" where
  "owned bytes = \<lparr>sl_addr = None, sl_bytes = bytes\<rparr>"

definition slice_len :: "ByteSlice \<Rightarrow> u64" where
  "slice_len s = of_nat (length (sl_bytes s))"

record MappedWeightFile =
  mf_ptr :: u64
  mf_file_len :: nat
  mf_page_size :: u64
  mf_pages :: "u8 list"

definition mapped_len :: "MappedWeightFile \<Rightarrow> u64" where
  "mapped_len f = of_nat (length (mf_pages f))"

definition mapped_bytes :: "MappedWeightFile \<Rightarrow> u8 list" where
  "mapped_bytes f = take (mf_file_len f) (mf_pages f)"

definition mapped_contains :: "MappedWeightFile \<Rightarrow> u64 \<Rightarrow> u64 \<Rightarrow> bool" where
  "mapped_contains f p len =
     (let start = mf_ptr f; stop = saturating_add start (mapped_len f); q = saturating_add p len
      in start \<le> p \<and> p \<le> q \<and> q \<le> stop)"

record MmapWrap =
  mw_ptr :: u64
  mw_page_len :: u64
  mw_offset :: u64

definition is_power_of_two :: "u64 \<Rightarrow> bool" where
  "is_power_of_two n \<longleftrightarrow> n \<noteq> 0 \<and> n AND (n - 1) = 0"

definition div_ceil :: "u64 \<Rightarrow> u64 \<Rightarrow> u64" where
  "div_ceil a b = a div b + (if a mod b = 0 then 0 else 1)"

definition wrap_in :: "MappedWeightFile \<Rightarrow> u64 \<Rightarrow> u64 \<Rightarrow> MmapWrap option" where
  "wrap_in f addr len =
     (let page = mf_page_size f in
      if page = 0 \<or> \<not> is_power_of_two page then None
      else
        let page_addr = addr AND NOT (page - 1);
            map_start = mf_ptr f;
            map_end = saturating_add map_start (mapped_len f)
        in if page_addr < map_start then None
           else
             let offset = addr - page_addr;
                 region_len = max (saturating_mul (div_ceil len 4) 4) len;
                 need = saturating_add offset region_len;
                 page_len = saturating_mul (div_ceil need page) page
             in if map_end < saturating_add page_addr page_len then None
                else Some \<lparr>mw_ptr = page_addr, mw_page_len = page_len, mw_offset = offset\<rparr>)"

text \<open>The first mapping that holds the slice decides.\<close>

definition mapped_wrap_for :: "MappedWeightFile list \<Rightarrow> ByteSlice \<Rightarrow> MmapWrap option" where
  "mapped_wrap_for maps s =
     (case sl_addr s of
        None \<Rightarrow> None
      | Some addr \<Rightarrow>
          if sl_bytes s = [] then None
          else case List.find (\<lambda>f. mapped_contains f addr (slice_len s)) maps of
            Some f \<Rightarrow> wrap_in f addr (slice_len s)
          | None \<Rightarrow> None)"

text \<open>What a read through the wrapped pointer sees.\<close>

definition wrapped_bytes :: "MappedWeightFile list \<Rightarrow> MmapWrap \<Rightarrow> u8 list" where
  "wrapped_bytes maps w =
     (case List.find (\<lambda>f. mapped_contains f (mw_ptr w) (mw_page_len w)) maps of
        Some f \<Rightarrow> take (unat (mw_page_len w)) (drop (unat (mw_ptr w - mf_ptr f)) (mf_pages f))
      | None \<Rightarrow> [])"

section \<open>The driver and the session\<close>

record MetalEnvReport =
  mr_admitted :: bool
  mr_mtl_device :: "string option"
  mr_framework_paths :: "string list"
  mr_reason :: string

record MetalLaunchBinding =
  mb_handle :: u64
  mb_binding_index :: u32
  mb_byte_offset :: u64
  mb_view_span :: u64

record 'd MetalDriver =
  md_discover :: "('d, MetalEnvReport, HostError) step"
  md_create_context :: "('d, unit, HostError) step"
  md_load_module :: "u8 list \<Rightarrow> ('d, u64, HostError) step"
  md_alloc :: "nat \<Rightarrow> ('d, u64, HostError) step"
  md_copy_in :: "u64 \<Rightarrow> ByteSlice \<Rightarrow> ('d, unit, HostError) step"
  md_launch_elementwise_add_f32 :: "u64 \<Rightarrow> u64 \<Rightarrow> u64 \<Rightarrow> u64 \<Rightarrow> nat \<Rightarrow> ('d, unit, HostError) step"
  md_launch_kernel_bound ::
    "u64 \<Rightarrow> string \<Rightarrow> u64 list \<Rightarrow> u64 list \<Rightarrow> u64 list \<Rightarrow> grid3 \<Rightarrow> grid3 \<Rightarrow> ('d, unit, HostError) step"
  md_sync :: "('d, unit, HostError) step"
  md_copy_out :: "u64 \<Rightarrow> nat \<Rightarrow> ('d, u8 list, HostError) step"
  md_free :: "u64 \<Rightarrow> ('d, unit, HostError) step"
  md_counters :: "'d \<Rightarrow> DriverCounters"
  md_command_submit_count :: "'d \<Rightarrow> nat"
  md_blocking_wait_count :: "'d \<Rightarrow> nat"
  md_retain_mapped_file :: "MappedWeightFile \<Rightarrow> 'd \<Rightarrow> 'd"
  md_mmap_wrap_count :: "'d \<Rightarrow> nat"

text \<open>The provided method \<open>launch_kernel\<close>: all offsets and spans are zero.\<close>

definition md_launch_kernel ::
    "'d MetalDriver \<Rightarrow> u64 \<Rightarrow> string \<Rightarrow> u64 list \<Rightarrow> grid3 \<Rightarrow> grid3 \<Rightarrow> ('d, unit, HostError) step" where
  "md_launch_kernel dr m entry buffers grid block =
     (let zeros = replicate (length buffers) 0
      in md_launch_kernel_bound dr m entry buffers zeros zeros grid block)"

record 'd MetalHostSession =
  ms_driver :: 'd
  ms_handles :: "HandleKind HandleRegistry"
  ms_admitted :: bool
  ms_uploads :: nat

abbreviation metal_on_driver :: "('d, 'a, HostError) step \<Rightarrow> ('d MetalHostSession, 'a, HostError) step" where
  "metal_on_driver \<equiv> son ms_driver (\<lambda>d s. s\<lparr>ms_driver := d\<rparr>)"

definition metal_with_driver :: "'d MetalDriver \<Rightarrow> 'd \<Rightarrow> ('d MetalHostSession, HostError) result" where
  "metal_with_driver dr d =
     (let session = (\<lambda>admitted d. \<lparr>ms_driver = d, ms_handles = HandleRegistry_new, ms_admitted = admitted,
                                   ms_uploads = 0\<rparr>)
      in case md_discover dr d of
           (Err e, _) \<Rightarrow> Err e
         | (Ok report, d) \<Rightarrow>
             if mr_admitted report then
               (case md_create_context dr d of (Ok _, d) \<Rightarrow> Ok (session True d) | (Err e, _) \<Rightarrow> Err e)
             else Ok (session False d))"

definition metal_require_admitted :: "'d MetalHostSession \<Rightarrow> (unit, HostError) result" where
  "metal_require_admitted s =
     ensure (ms_admitted s) (metal_unavailable ''Metal host session is not admitted for product execution'')"

definition metal_insert :: "HandleKind \<Rightarrow> u64 \<Rightarrow> ('d MetalHostSession, u64, HostError) step" where
  "metal_insert kind token s =
     (let (i, r) = registry_insert kind token (ms_handles s) in (Ok i, s\<lparr>ms_handles := r\<rparr>))"

definition metal_module_token :: "u64 \<Rightarrow> 'd MetalHostSession \<Rightarrow> (u64, HostError) result" where
  "metal_module_token i s =
     (case registry_get i (ms_handles s) of
        Some h \<Rightarrow>
          (case rh_kind h of
             KindModule \<Rightarrow> Ok (rh_token h)
           | _ \<Rightarrow> Err (HostError_invalid_args ''handle is not a Metal module''))
      | None \<Rightarrow> Err (metal_invalid_handle i))"

definition metal_buffer_token :: "u64 \<Rightarrow> 'd MetalHostSession \<Rightarrow> (u64 \<times> nat, HostError) result" where
  "metal_buffer_token i s =
     (case registry_get i (ms_handles s) of
        Some h \<Rightarrow>
          (case rh_kind h of
             KindBuffer len \<Rightarrow> Ok (rh_token h, len)
           | _ \<Rightarrow> Err (HostError_invalid_args ''handle is not a Metal buffer''))
      | None \<Rightarrow> Err (metal_invalid_handle i))"

definition metal_live_handle_count :: "'d MetalHostSession \<Rightarrow> nat" where
  "metal_live_handle_count s = registry_len (ms_handles s)"

definition metal_driver_counters :: "'d MetalDriver \<Rightarrow> 'd MetalHostSession \<Rightarrow> DriverCounters" where
  "metal_driver_counters dr s = (md_counters dr (ms_driver s))\<lparr>dc_uploads := ms_uploads s\<rparr>"

definition metal_record_weight_upload :: "'d MetalHostSession \<Rightarrow> 'd MetalHostSession" where
  "metal_record_weight_upload s = s\<lparr>ms_uploads := min (ms_uploads s + 1) (2 ^ 64 - 1)\<rparr>"

definition metal_load_module :: "'d MetalDriver \<Rightarrow> u8 list \<Rightarrow> ('d MetalHostSession, u64, HostError) step" where
  "metal_load_module dr img =
     sthen (sget metal_require_admitted) (\<lambda>_.
     sthen (slift (ensure (img \<noteq> []) (HostError_invalid_args ''Metal module image is empty''))) (\<lambda>_.
     sthen (metal_on_driver (md_load_module dr img)) (\<lambda>token.
       metal_insert KindModule token)))"

definition metal_alloc_bytes :: "'d MetalDriver \<Rightarrow> nat \<Rightarrow> ('d MetalHostSession, u64, HostError) step" where
  "metal_alloc_bytes dr len =
     sthen (sget metal_require_admitted) (\<lambda>_.
     sthen (slift (ensure (len \<noteq> 0) (HostError_invalid_args ''Metal buffer length must be non-zero''))) (\<lambda>_.
     sthen (metal_on_driver (md_alloc dr len)) (\<lambda>token. metal_insert (KindBuffer len) token)))"

definition metal_retain_mapped_file ::
    "'d MetalDriver \<Rightarrow> MappedWeightFile \<Rightarrow> ('d MetalHostSession, unit, HostError) step" where
  "metal_retain_mapped_file dr f =
     sthen (sget metal_require_admitted) (\<lambda>_.
       smodify (\<lambda>s. s\<lparr>ms_driver := md_retain_mapped_file dr f (ms_driver s)\<rparr>))"

text \<open>A slice one to three bytes short is offered as it is, then padded with zeros.\<close>

definition metal_copy_in_bytes ::
    "'d MetalDriver \<Rightarrow> u64 \<Rightarrow> ByteSlice \<Rightarrow> DeviceDataType \<Rightarrow> ('d MetalHostSession, unit, HostError) step" where
  "metal_copy_in_bytes dr buffer bytes dtype =
     sthen (sget metal_require_admitted) (\<lambda>_.
     sthen (sget (metal_buffer_token buffer)) (\<lambda>(token, len).
       let n = length (sl_bytes bytes) in
       if n = len then metal_on_driver (md_copy_in dr token bytes)
       else if len < n \<or> 4 \<le> len - n then
         slift (Err (HostError_invalid_args (''packed-region size mismatch: buffer '' @ show_nat len @
           '' bytes, got '' @ show_nat n)))
       else (\<lambda>s. case metal_on_driver (md_copy_in dr token bytes) s of
           (Ok u, s) \<Rightarrow> (Ok u, s)
         | (Err _, s) \<Rightarrow>
             metal_on_driver (md_copy_in dr token (owned (sl_bytes bytes @ replicate (len - n) 0))) s)))"

definition metal_copy_in_f32 ::
    "'d MetalDriver \<Rightarrow> u64 \<Rightarrow> u32 list \<Rightarrow> ('d MetalHostSession, unit, HostError) step" where
  "metal_copy_in_f32 dr buffer vals =
     metal_copy_in_bytes dr buffer (owned (concat (map u32_to_le_bytes vals))) DtF32"

definition metal_launch_elementwise_add_f32 ::
    "'d MetalDriver \<Rightarrow> u64 \<Rightarrow> u64 \<Rightarrow> u64 \<Rightarrow> u64 \<Rightarrow> ('d MetalHostSession, unit, HostError) step" where
  "metal_launch_elementwise_add_f32 dr m a b out =
     sthen (sget metal_require_admitted) (\<lambda>_.
     sthen (sget (metal_module_token m)) (\<lambda>module_token.
     sthen (sget (metal_buffer_token a)) (\<lambda>(a_token, a_len).
     sthen (sget (metal_buffer_token b)) (\<lambda>(b_token, b_len).
     sthen (sget (metal_buffer_token out)) (\<lambda>(out_token, out_len).
     sthen (slift (ensure (a_len = b_len \<and> a_len = out_len)
         (HostError_invalid_args ''elementwise add requires equal buffer sizes''))) (\<lambda>_.
     sthen (slift (ensure (a_len mod 4 = 0)
         (HostError_invalid_args ''elementwise add buffers must be multiples of 4 bytes (f32)''))) (\<lambda>_.
     sthen (metal_on_driver
         (md_launch_elementwise_add_f32 dr module_token a_token b_token out_token (a_len div 4))) (\<lambda>_.
       metal_on_driver (md_sync dr)))))))))"

definition metal_launch_kernel_3d ::
    "'d MetalDriver \<Rightarrow> u64 \<Rightarrow> string \<Rightarrow> u64 list \<Rightarrow> grid3 \<Rightarrow> grid3 \<Rightarrow> ('d MetalHostSession, unit, HostError) step" where
  "metal_launch_kernel_3d dr m entry buffers grid block =
     sthen (sget metal_require_admitted) (\<lambda>_.
     sthen (sget (metal_module_token m)) (\<lambda>module_token.
     sthen (slift (ensure (entry \<noteq> []) (HostError_invalid_args ''Metal kernel entry name is empty''))) (\<lambda>_.
     sthen (sget (\<lambda>s. try_map (\<lambda>i. metal_buffer_token i s) buffers)) (\<lambda>tokens.
       metal_on_driver (md_launch_kernel dr module_token entry (map fst tokens) grid block)))))"

definition metal_launch_kernel ::
    "'d MetalDriver \<Rightarrow> u64 \<Rightarrow> string \<Rightarrow> u64 list \<Rightarrow> u32 \<Rightarrow> u32 \<Rightarrow> ('d MetalHostSession, unit, HostError) step" where
  "metal_launch_kernel dr m entry buffers grid_x block_x =
     metal_launch_kernel_3d dr m entry buffers (grid_x, 1, 1) (block_x, 1, 1)"

section \<open>Bound launches\<close>

definition place_binding ::
    "MetalLaunchBinding list \<Rightarrow> MetalLaunchBinding \<Rightarrow> MetalLaunchBinding option list
       \<Rightarrow> (MetalLaunchBinding option list, HostError) result" where
  "place_binding bindings b slots =
     (let i = unat (mb_binding_index b) in
      if length slots \<le> i then
        Err (err_abi_mismatch (''launch binding index '' @ display_u32 (mb_binding_index b) @
          '' is outside 0..'' @ show_nat (length bindings)))
      else if slots ! i \<noteq> None then
        Err (err_abi_mismatch (''launch binding index '' @ display_u32 (mb_binding_index b) @ '' is declared twice''))
      else Ok (slots[i := Some b]))"

definition filled_slot :: "nat \<times> MetalLaunchBinding option \<Rightarrow> (MetalLaunchBinding, HostError) result" where
  "filled_slot p =
     ok_or (snd p) (err_abi_mismatch (''launch binding index '' @ show_nat (fst p) @
       '' was validated then dropped before launch''))"

definition ordered_launch_bindings ::
    "MetalLaunchBinding list \<Rightarrow> (MetalLaunchBinding list, HostError) result" where
  "ordered_launch_bindings bindings =
     and_then (try_fold (place_binding bindings) bindings (replicate (length bindings) None)) (\<lambda>slots.
       try_map filled_slot (List.enumerate 0 slots))"

definition check_launch_binding ::
    "'d MetalHostSession \<Rightarrow> MetalLaunchBinding \<Rightarrow> (u64 \<times> u64 \<times> u64, HostError) result" where
  "check_launch_binding s b =
     and_then (metal_buffer_token (mb_handle b) s) (\<lambda>(token, len).
     let name = ''launch binding index '' @ display_u32 (mb_binding_index b) in
     if mb_view_span b = 0 then Err (err_descriptor (name @ '' has a zero view span''))
     else case checked_add (mb_byte_offset b) (mb_view_span b) of
       None \<Rightarrow> Err (err_shape_mismatch (name @ '' overflows its static envelope''))
     | Some stop \<Rightarrow>
         if of_nat len < stop then
           Err (err_shape_mismatch (name @ '' spans '' @ display_u64 (mb_view_span b) @ '' bytes from offset '' @
             display_u64 (mb_byte_offset b) @ '' but the allocation is '' @ show_nat len @ '' bytes''))
         else Ok (token, mb_byte_offset b, mb_view_span b))"

definition metal_launch_kernel_bound ::
    "'d MetalDriver \<Rightarrow> u64 \<Rightarrow> string \<Rightarrow> MetalLaunchBinding list \<Rightarrow> grid3 \<Rightarrow> grid3
       \<Rightarrow> ('d MetalHostSession, unit, HostError) step" where
  "metal_launch_kernel_bound dr m entry bindings grid block =
     sthen (sget metal_require_admitted) (\<lambda>_.
     sthen (sget (metal_module_token m)) (\<lambda>module_token.
     sthen (slift (ensure (entry \<noteq> []) (HostError_invalid_args ''Metal kernel entry name is empty''))) (\<lambda>_.
     sthen (slift (ordered_launch_bindings bindings)) (\<lambda>ordered.
     sthen (sget (\<lambda>s. try_map (check_launch_binding s) ordered)) (\<lambda>checked.
       metal_on_driver (md_launch_kernel_bound dr module_token entry (map fst checked)
         (map (fst \<circ> snd) checked) (map (snd \<circ> snd) checked) grid block))))))"

definition metal_sync :: "'d MetalDriver \<Rightarrow> ('d MetalHostSession, unit, HostError) step" where
  "metal_sync dr = sthen (sget metal_require_admitted) (\<lambda>_. metal_on_driver (md_sync dr))"

definition metal_readback_bytes ::
    "'d MetalDriver \<Rightarrow> u64 \<Rightarrow> DeviceDataType \<Rightarrow> ('d MetalHostSession, u8 list, HostError) step" where
  "metal_readback_bytes dr buffer dtype =
     sthen (sget metal_require_admitted) (\<lambda>_.
     sthen (sget (metal_buffer_token buffer)) (\<lambda>(token, len).
     sthen (metal_on_driver (md_copy_out dr token len)) (\<lambda>bytes.
     sthen (slift (ensure (length bytes = len)
         (HostError_internal ''Metal readback returned unexpected byte length''))) (\<lambda>_.
       slift (Ok bytes)))))"

definition metal_readback_f32 :: "'d MetalDriver \<Rightarrow> u64 \<Rightarrow> ('d MetalHostSession, u32 list, HostError) step" where
  "metal_readback_f32 dr buffer =
     sthen (metal_readback_bytes dr buffer DtF32) (\<lambda>bytes.
     sthen (slift (ensure (length bytes mod 4 = 0)
         (HostError_internal ''Metal readback returned unexpected f32 byte length''))) (\<lambda>_.
       slift (Ok (f32_of_chunks bytes))))"

definition metal_release :: "'d MetalDriver \<Rightarrow> u64 \<Rightarrow> ('d MetalHostSession, unit, HostError) step" where
  "metal_release dr i s =
     (case registry_remove i (ms_handles s) of
        (None, _) \<Rightarrow> (Err (metal_invalid_handle i), s)
      | (Some h, r) \<Rightarrow> metal_on_driver (md_free dr (rh_token h)) (s\<lparr>ms_handles := r\<rparr>))"

definition metal_handle_frame_data :: "u64 \<Rightarrow> Valor" where
  "metal_handle_frame_data i = tabula_of [(''metal_handle'', Numerus i)]"

end
