(* ===== verification/Metal_Launch.thy ===== *)
theory Metal_Launch
  imports Metal_Session
begin

text \<open>
  The pure parts of a Metal launch, shown exact: the bindings reach the encoder in the order of their
  declared indices or the launch is refused, a composed offset never wraps into range, and a wrapped
  mapping serves the bytes of the slice it was made for.
\<close>

section \<open>Bindings in the order of their indices\<close>

abbreviation binding_at :: "MetalLaunchBinding \<Rightarrow> nat" where
  "binding_at b \<equiv> unat (mb_binding_index b)"

lemma place_Ok_iff:
  "place_binding all b slots = Ok t \<longleftrightarrow>
     binding_at b < length slots \<and> slots ! binding_at b = None \<and> t = slots[binding_at b := Some b]"
  by (auto simp: place_binding_def Let_def)

definition fill :: "MetalLaunchBinding list \<Rightarrow> MetalLaunchBinding option list \<Rightarrow> MetalLaunchBinding option list" where
  "fill bs slots = fold (\<lambda>b s. s[binding_at b := Some b]) bs slots"

lemma fill_simps [simp]:
  "fill [] slots = slots" "fill (b # bs) slots = fill bs (slots[binding_at b := Some b])"
  by (simp_all add: fill_def)

lemma place_all_Ok_iff:
  "try_fold (place_binding all) bs slots = Ok t \<longleftrightarrow>
     (\<forall>b\<in>set bs. binding_at b < length slots \<and> slots ! binding_at b = None) \<and> distinct (map binding_at bs) \<and>
     t = fill bs slots"
proof (induction bs arbitrary: slots)
  case (Cons b bs)
  show ?case
    by (auto simp: and_then_Ok_iff place_Ok_iff Cons.IH nth_list_update split: if_splits)
qed auto

lemma length_fill [simp]: "length (fill bs slots) = length slots"
  by (induction bs arbitrary: slots) simp_all

lemma fill_other: "i \<notin> binding_at ` set bs \<Longrightarrow> fill bs slots ! i = slots ! i"
  by (induction bs arbitrary: slots) (simp_all add: nth_list_update)

lemma fill_at:
  "b \<in> set bs \<Longrightarrow> distinct (map binding_at bs) \<Longrightarrow> binding_at b < length slots \<Longrightarrow>
     fill bs slots ! binding_at b = Some b"
proof (induction bs arbitrary: slots)
  case (Cons c bs)
  show ?case
  proof (cases "b \<in> set bs")
    case True
    with Cons show ?thesis by simp
  next
    case False
    with Cons.prems have "b = c" "binding_at b \<notin> binding_at ` set bs" by auto
    with Cons.prems(3) show ?thesis by (simp add: fill_other)
  qed
qed simp

lemma filled_slots_Ok_iff:
  "try_map filled_slot (List.enumerate n slots) = Ok ys \<longleftrightarrow> slots = map Some ys"
proof (induction slots arbitrary: n ys)
  case (Cons s slots)
  then show ?case by (cases ys) (auto simp: and_then_Ok_iff filled_slot_def ok_or_Ok_iff)
qed auto

lemma indices_fill:
  assumes "distinct (map binding_at bs)" "\<forall>b\<in>set bs. binding_at b < length bs"
  shows "binding_at ` set bs = {..<length bs}"
proof (rule card_subset_eq)
  show "card (binding_at ` set bs) = card {..<length bs}"
    using distinct_card [OF assms(1)] by simp
qed (use assms(2) in auto)

lemma same_keys_same_list:
  assumes "set ys = set zs" "map f ys = map f zs" "inj_on f (set zs)"
  shows "ys = zs"
  using map_inj_on [OF assms(2)] assms(1,3) by simp

abbreviation slots_of :: "MetalLaunchBinding list \<Rightarrow> MetalLaunchBinding option list" where
  "slots_of bs \<equiv> fill bs (replicate (length bs) None)"

abbreviation dense :: "MetalLaunchBinding list \<Rightarrow> bool" where
  "dense bs \<equiv> (\<forall>b\<in>set bs. binding_at b < length bs) \<and> distinct (map binding_at bs)"

lemma ordered_by_slots:
  "ordered_launch_bindings bs = Ok ys \<longleftrightarrow> dense bs \<and> slots_of bs = map Some ys"
  unfolding ordered_launch_bindings_def and_then_Ok_iff place_all_Ok_iff filled_slots_Ok_iff by auto

lemma dense_slots:
  assumes "dense bs"
  obtains zs where "slots_of bs = map Some zs" "map binding_at zs = [0..<length bs]" "set zs = set bs"
proof -
  have "\<exists>b\<in>set bs. binding_at b = i" if "i < length bs" for i
  proof -
    have "i \<in> binding_at ` set bs" using indices_fill [of bs] assms that by simp
    then show ?thesis by blast
  qed
  then obtain g where g: "\<And>i. i < length bs \<Longrightarrow> g i \<in> set bs \<and> binding_at (g i) = i" by metis
  define zs where "zs = map g [0..<length bs]"
  have "slots_of bs ! i = Some (g i)" if "i < length bs" for i
    using fill_at [of "g i" bs "replicate (length bs) None"] g [OF that] assms that by simp
  then have slots: "slots_of bs = map Some zs"
    by (intro nth_equalityI) (simp_all add: zs_def)
  have keys: "map binding_at zs = [0..<length bs]"
    unfolding zs_def map_map by (rule map_idI) (simp add: g)
  have "b \<in> set zs" if "b \<in> set bs" for b
  proof -
    have i: "binding_at b < length bs" using assms that by blast
    have "inj_on binding_at (set bs)" using assms by (simp add: distinct_map)
    then have "g (binding_at b) = b" using g [OF i] that by (auto dest: inj_onD)
    with i show ?thesis unfolding zs_def by (metis (no_types) atLeastLessThan_iff image_eqI le0 list.set_map set_upt)
  qed
  then have "set zs = set bs" using g by (auto simp: zs_def)
  with slots keys show ?thesis by (rule that)
qed

lemma dense_of_order:
  assumes "map binding_at ys = [0..<length bs]" "set ys = set bs"
  shows "dense bs" "inj_on binding_at (set bs)"
proof -
  have len: "length ys = length bs" using arg_cong [OF assms(1), of length] by simp
  have "distinct (map binding_at ys)" using assms(1) by simp
  then have ys: "distinct ys" "inj_on binding_at (set ys)" unfolding distinct_map by blast+
  then have "card (set bs) = length bs" using assms(2) len distinct_card [of ys] by simp
  then have "distinct bs" by (rule card_distinct)
  with ys(2) assms(2) have "distinct (map binding_at bs)" by (simp add: distinct_map)
  moreover have "binding_at b < length bs" if "b \<in> set bs" for b
  proof -
    have "binding_at b \<in> set (map binding_at ys)" using that assms(2) by simp
    then show ?thesis unfolding assms(1) by simp
  qed
  ultimately show "dense bs" by blast
  show "inj_on binding_at (set bs)" using ys(2) assms(2) by simp
qed

lemma ordered_bindings_Ok_iff:
  "ordered_launch_bindings bs = Ok ys \<longleftrightarrow> map binding_at ys = [0..<length bs] \<and> set ys = set bs"
proof
  assume "ordered_launch_bindings bs = Ok ys"
  then have d: "dense bs" and s: "slots_of bs = map Some ys" unfolding ordered_by_slots by blast+
  from d obtain zs where zs: "slots_of bs = map Some zs" "map binding_at zs = [0..<length bs]" "set zs = set bs"
    by (rule dense_slots)
  from s zs(1) have "ys = zs" by (simp add: inj_map_eq_map)
  with zs show "map binding_at ys = [0..<length bs] \<and> set ys = set bs" by blast
next
  assume ys: "map binding_at ys = [0..<length bs] \<and> set ys = set bs"
  then have d: "dense bs" and inj: "inj_on binding_at (set bs)" using dense_of_order by blast+
  from d obtain zs where zs: "slots_of bs = map Some zs" "map binding_at zs = [0..<length bs]" "set zs = set bs"
    by (rule dense_slots)
  have "ys = zs"
    by (rule same_keys_same_list [of _ _ binding_at]) (use ys zs inj in simp_all)
  with d zs(1) show "ordered_launch_bindings bs = Ok ys" unfolding ordered_by_slots by blast
qed

section \<open>Composed offsets\<close>

definition compose_bind_offset :: "u64 \<Rightarrow> u64 \<Rightarrow> u64 \<Rightarrow> u64 \<Rightarrow> (u64, HostError) result" where
  "compose_bind_offset region_offset binding_offset view_span buffer_len =
     and_then (ok_or (checked_add region_offset binding_offset)
       (err_shape_mismatch ''launch binding offset overflows when added to the mmap page remainder'')) (\<lambda>composed.
     and_then (if view_span = 0 then Ok composed
       else ok_or (checked_add composed view_span)
         (err_shape_mismatch ''launch binding span overflows its static envelope'')) (\<lambda>stop.
     if buffer_len < composed \<or> buffer_len < stop then
       Err (err_shape_mismatch (''launch binding composed offset '' @ display_u64 composed @ '' span '' @
         display_u64 view_span @ '' exceeds buffer length '' @ display_u64 buffer_len @ '' (region remainder '' @
         display_u64 region_offset @ '')''))
     else Ok composed))"

lemma compose_by_adds:
  "compose_bind_offset region off span len = Ok c \<longleftrightarrow>
     checked_add region off = Some c \<and> c \<le> len \<and>
     (span = 0 \<or> (\<exists>stop. checked_add c span = Some stop \<and> stop \<le> len))"
  unfolding compose_bind_offset_def and_then_Ok_iff ok_or_Ok_iff
  by (cases "span = 0") (auto simp: ok_or_Ok_iff not_less split: if_splits)

lemma checked_add_is: "checked_add a b = Some c \<longleftrightarrow> unat c = unat a + unat b"
proof
  assume c: "unat c = unat a + unat b"
  then have "unat a + unat b < 2 ^ 64" using unat_u64_lt [of c] by simp
  with c show "checked_add a b = Some c" by (simp add: u64_arith word_unat_eq_iff)
qed (rule checked_add_unat)

lemma compose_Ok_iff:
  "compose_bind_offset region off span len = Ok c \<longleftrightarrow>
     unat c = unat region + unat off \<and> unat region + unat off + unat span \<le> unat len"
proof -
  have ex: "(\<exists>stop::u64. unat stop = unat c + unat span \<and> unat stop \<le> unat len) \<longleftrightarrow> unat c + unat span \<le> unat len"
  proof
    assume le: "unat c + unat span \<le> unat len"
    then have "unat (c + span) = unat c + unat span" using unat_u64_lt [of len] by (simp add: unat_add_u64)
    with le show "\<exists>stop::u64. unat stop = unat c + unat span \<and> unat stop \<le> unat len" by metis
  qed force
  show ?thesis
    unfolding compose_by_adds checked_add_is word_le_nat_alt ex
    by (cases "span = 0") auto
qed

section \<open>Wrapped pages\<close>

lemma power_of_two_nat: "0 < n \<Longrightarrow> n AND (n - 1) = 0 \<Longrightarrow> \<exists>k. (n :: nat) = 2 ^ k"
proof (induction n rule: less_induct)
  case (less n)
  show ?case
  proof (cases "even n")
    case True
    then obtain a where a: "n = 2 * a" by blast
    with less.prems have "0 < a" by simp
    then have "n - 1 = 2 * (a - 1) + 1" using a by simp
    then have "n AND (n - 1) = 2 * (a AND (a - 1))" using a by (simp only: and_nat_rec [of "2 * a"]) simp
    with less.prems have "a AND (a - 1) = 0" by simp
    with less.IH [of a] a \<open>0 < a\<close> obtain k where "a = 2 ^ k" by auto
    with a have "n = 2 ^ Suc k" by simp
    then show ?thesis by blast
  next
    case False
    then obtain a where a: "n = 2 * a + 1" using oddE by blast
    then have "n AND (n - 1) = 2 * (a AND a)" by (simp only: and_nat_rec [of "2 * a + 1"]) simp
    with less.prems a have "n = 2 ^ 0" by simp
    then show ?thesis by blast
  qed
qed

lemma power_of_two_word:
  assumes "is_power_of_two n"
  obtains k where "k < 64" "n = 2 ^ k" "unat n = 2 ^ k"
proof -
  have "0 < unat n" using assms by (simp add: is_power_of_two_def unat_gt_0)
  moreover have "unat n AND (unat n - 1) = 0"
  proof -
    have "unat (n - 1) = unat n - 1" using \<open>0 < unat n\<close> by (simp add: unat_sub word_le_nat_alt Suc_leI)
    moreover have "unat (n AND (n - 1)) = 0" using assms by (simp add: is_power_of_two_def)
    ultimately show ?thesis by (simp add: unsigned_and_eq)
  qed
  ultimately obtain k where k: "unat n = 2 ^ k" using power_of_two_nat by blast
  have "(2::nat) ^ k < 2 ^ 64" using k unat_u64_lt [of n] by simp
  then have "k < 64" by (simp only: power_strict_increasing_iff)
  moreover have "n = 2 ^ k"
  proof -
    have "n = of_nat (unat n)" by simp
    then show ?thesis unfolding k by simp
  qed
  ultimately show ?thesis using k by (rule that)
qed

lemma page_start_unat:
  "unat (a AND NOT (2 ^ k - 1) :: u64) = unat a - unat a mod 2 ^ k"
proof -
  have "a AND NOT (2 ^ k - 1) = push_bit k (drop_bit k a)"
    unfolding mask_eq_exp_minus_1 [symmetric] by (rule bit_eqI) (auto simp: bit_simps)
  also have "\<dots> = a - take_bit k a"
    using bits_ident [of k a] by (metis add_diff_cancel_right')
  finally have "a AND NOT (2 ^ k - 1) = a - take_bit k a" .
  moreover have t: "unat (take_bit k a) = unat a mod 2 ^ k"
    unfolding unsigned_take_bit_eq by (simp add: take_bit_eq_mod)
  moreover have "unat (a - take_bit k a) = unat a - unat (take_bit k a)"
    by (rule unat_sub) (simp add: word_le_nat_alt t)
  ultimately show ?thesis by simp
qed

lemma div_ceil_unat: "unat (div_ceil a b) = unat a div unat b + (if unat a mod unat b = 0 then 0 else 1)"
proof -
  have "unat a div unat b < unat u64_MAX" if "unat a mod unat b \<noteq> 0"
  proof (cases "unat b \<le> 1")
    case True
    with that have "unat b = 0" by (cases "unat b") auto
    then show ?thesis by simp
  next
    case False
    then have "unat a div unat b \<le> unat a div 2" by (simp add: div_le_mono2)
    with unat_u64_lt [of a] show ?thesis by (simp add: less_mult_imp_div_less)
  qed
  moreover have "a mod b = 0 \<longleftrightarrow> unat a mod unat b = 0"
    by (simp add: unat_mod [symmetric] unat_eq_0)
  ultimately show ?thesis
    by (auto simp: div_ceil_def unat_add_u64 unat_div)
qed

lemma round_up_nat:
  assumes "0 < (b :: nat)"
  shows "a \<le> (a div b + (if a mod b = 0 then 0 else 1)) * b" "(a div b + (if a mod b = 0 then 0 else 1)) * b < a + b"
proof -
  have split: "a div b * b + a mod b = a" and less: "a mod b < b" using assms by simp_all
  have up: "(a div b + 1) * b = a div b * b + b" by (simp only: distrib_right mult_1)
  show "a \<le> (a div b + (if a mod b = 0 then 0 else 1)) * b"
  proof (cases "a mod b = 0")
    case True with split show ?thesis by simp
  next
    case False with split less up have "a \<le> (a div b + 1) * b" by linarith
    with False show ?thesis by (simp only: if_False)
  qed
  show "(a div b + (if a mod b = 0 then 0 else 1)) * b < a + b"
  proof (cases "a mod b = 0")
    case True with split assms show ?thesis by simp
  next
    case False with split up have "(a div b + 1) * b < a + b" by linarith
    with False show ?thesis by (simp only: if_False)
  qed
qed

definition map_fits :: "MappedWeightFile \<Rightarrow> bool" where
  "map_fits f \<longleftrightarrow> unat (mf_ptr f) + length (mf_pages f) < 2 ^ 64 - 1"

definition map_end :: "MappedWeightFile \<Rightarrow> nat" where
  "map_end f = unat (mf_ptr f) + length (mf_pages f)"

lemma map_fits_end:
  assumes "map_fits f"
  shows "unat (saturating_add (mf_ptr f) (mapped_len f)) = map_end f" "map_end f < 2 ^ 64 - 1"
proof -
  have "unat (mapped_len f) = length (mf_pages f)"
    using assms by (simp add: mapped_len_def map_fits_def unat_of_nat)
  with assms show "unat (saturating_add (mf_ptr f) (mapped_len f)) = map_end f" "map_end f < 2 ^ 64 - 1"
    by (simp_all add: unat_saturating_add map_fits_def map_end_def)
qed

lemma mapped_contains_iff:
  assumes "map_fits f"
  shows "mapped_contains f p n \<longleftrightarrow> unat (mf_ptr f) \<le> unat p \<and> unat p + unat n \<le> map_end f"
proof -
  have "unat (saturating_add p n) \<le> map_end f \<longleftrightarrow> unat p + unat n \<le> map_end f"
    using map_fits_end(2) [OF assms] by (simp add: unat_saturating_add min_le_iff_disj)
  moreover have "unat p \<le> unat (saturating_add p n)"
    using unat_u64_lt [of p] by (simp add: unat_saturating_add)
  ultimately show ?thesis
    by (simp add: mapped_contains_def Let_def word_le_nat_alt map_fits_end(1) [OF assms])
qed

lemma unsaturated_add: "unat (saturating_add a b) < 2 ^ 64 - 1 \<Longrightarrow> unat (saturating_add a b) = unat a + unat b"
  by (simp add: unat_saturating_add min_def split: if_splits)

lemma unsaturated_mul: "unat (saturating_mul a b) < 2 ^ 64 - 1 \<Longrightarrow> unat (saturating_mul a b) = unat a * unat b"
  by (simp add: unat_saturating_mul min_def split: if_splits)

lemma wrap_in_Some:
  assumes "wrap_in f addr n = Some w" "map_fits f"
  shows "unat (mf_page_size f) dvd unat (mw_ptr w)" "unat (mf_page_size f) dvd unat (mw_page_len w)"
    "unat (mw_ptr w) + unat (mw_offset w) = unat addr" "unat (mw_offset w) + unat n \<le> unat (mw_page_len w)"
    "unat (mf_ptr f) \<le> unat (mw_ptr w)" "unat (mw_ptr w) + unat (mw_page_len w) \<le> map_end f"
proof -
  define page where "page = mf_page_size f"
  define start where "start = addr AND NOT (page - 1)"
  define region where "region = max (saturating_mul (div_ceil n 4) 4) n"
  define need where "need = saturating_add (addr - start) region"
  define len where "len = saturating_mul (div_ceil need page) page"
  have two: "is_power_of_two page" and low: "mf_ptr f \<le> start"
    and high: "saturating_add start len \<le> saturating_add (mf_ptr f) (mapped_len f)"
    and w: "w = \<lparr>mw_ptr = start, mw_page_len = len, mw_offset = addr - start\<rparr>"
    using assms(1) unfolding wrap_in_def Let_def page_def start_def region_def need_def len_def
    by (simp_all add: not_less split: if_splits)
  obtain k where k: "unat page = 2 ^ k" "page = 2 ^ k" using power_of_two_word [OF two] by metis
  have start: "unat start = unat addr - unat addr mod 2 ^ k"
    unfolding start_def k(2) by (rule page_start_unat)
  have off: "unat (addr - start) = unat addr - unat start"
    by (rule unat_sub) (simp add: word_le_nat_alt start)
  have "unat (saturating_add start len) \<le> map_end f"
    using high map_fits_end(1) [OF assms(2)] by (simp add: word_le_nat_alt)
  with map_fits_end(2) [OF assms(2)] have stop: "unat start + unat len \<le> map_end f" "unat len < 2 ^ 64 - 1"
    using unsaturated_add [of start len] by simp_all
  then have len: "unat len = unat (div_ceil need page) * unat page"
    using unsaturated_mul [of "div_ceil need page" page] unfolding len_def by blast
  have "0 < unat page" using k by simp
  then have "unat need \<le> unat len"
    unfolding len div_ceil_unat by (rule round_up_nat(1))
  with stop(2) have "unat need = unat (addr - start) + unat region"
    using unsaturated_add [of "addr - start" region] unfolding need_def by (metis le_less_trans)
  moreover have "unat n \<le> unat region" by (simp add: region_def word_le_nat_alt [symmetric])
  ultimately show "unat (mw_offset w) + unat n \<le> unat (mw_page_len w)"
    using \<open>unat need \<le> unat len\<close> by (simp add: w)
  show "unat (mf_page_size f) dvd unat (mw_ptr w)"
    unfolding page_def [symmetric] by (simp add: w start k(1) dvd_minus_mod)
  show "unat (mf_page_size f) dvd unat (mw_page_len w)"
    unfolding page_def [symmetric] by (simp add: w len)
  show "unat (mw_ptr w) + unat (mw_offset w) = unat addr"
    using start by (simp add: w off)
  show "unat (mf_ptr f) \<le> unat (mw_ptr w)" using low by (simp add: w word_le_nat_alt)
  show "unat (mw_ptr w) + unat (mw_page_len w) \<le> map_end f" using stop by (simp add: w)
qed

text \<open>The slice is a part of the mapping it is found in.\<close>

definition slice_of :: "ByteSlice \<Rightarrow> MappedWeightFile \<Rightarrow> bool" where
  "slice_of s f \<longleftrightarrow>
     (case sl_addr s of
        None \<Rightarrow> True
      | Some a \<Rightarrow> mapped_contains f a (slice_len s) \<longrightarrow>
          sl_bytes s = take (length (sl_bytes s)) (drop (unat (a - mf_ptr f)) (mf_pages f)))"

lemma find_same:
  assumes "List.find P xs = Some x" "Q x" "\<And>y. Q y \<Longrightarrow> y \<in> set xs \<Longrightarrow> P y"
  shows "List.find Q xs = Some x"
  using assms by (induction xs) (auto split: if_splits)

lemma mapped_wrap_Some:
  assumes "mapped_wrap_for maps s = Some w"
  obtains f addr where "sl_addr s = Some addr" "f \<in> set maps" "mapped_contains f addr (slice_len s)"
    "List.find (\<lambda>f. mapped_contains f addr (slice_len s)) maps = Some f" "wrap_in f addr (slice_len s) = Some w"
proof -
  from assms obtain addr f where "sl_addr s = Some addr"
    and f: "List.find (\<lambda>f. mapped_contains f addr (slice_len s)) maps = Some f"
    and "wrap_in f addr (slice_len s) = Some w"
    by (auto simp: mapped_wrap_for_def split: option.splits if_splits)
  moreover from f have "f \<in> set maps" "mapped_contains f addr (slice_len s)"
    by (auto simp: find_Some_iff)
  ultimately show ?thesis by (metis that)
qed

lemma wrapped_slice:
  assumes w: "mapped_wrap_for maps s = Some w" and fits: "\<forall>f\<in>set maps. map_fits f \<and> slice_of s f"
    and len: "length (sl_bytes s) < 2 ^ 64"
  shows "take (length (sl_bytes s)) (drop (unat (mw_offset w)) (wrapped_bytes maps w)) = sl_bytes s"
proof -
  let ?n = "slice_len s"
  from w obtain f addr where addr: "sl_addr s = Some addr" and f: "f \<in> set maps" "mapped_contains f addr ?n"
    and found: "List.find (\<lambda>f. mapped_contains f addr ?n) maps = Some f" and wrap: "wrap_in f addr ?n = Some w"
    by (rule mapped_wrap_Some)
  have fit: "map_fits f" using fits f by blast
  note page = wrap_in_Some [OF wrap fit]
  have n: "unat ?n = length (sl_bytes s)" using len by (simp add: slice_len_def unat_of_nat)
  have "List.find (\<lambda>f. mapped_contains f (mw_ptr w) (mw_page_len w)) maps = Some f"
  proof (rule find_same [OF found])
    show "mapped_contains f (mw_ptr w) (mw_page_len w)"
      using page by (simp add: mapped_contains_iff fit)
    fix g assume "mapped_contains g (mw_ptr w) (mw_page_len w)" "g \<in> set maps"
    with page fits show "mapped_contains g addr ?n" by (auto simp: mapped_contains_iff)
  qed
  then have bytes: "wrapped_bytes maps w =
      take (unat (mw_page_len w)) (drop (unat (mw_ptr w - mf_ptr f)) (mf_pages f))"
    by (simp add: wrapped_bytes_def)
  have sub: "unat (mw_ptr w - mf_ptr f) = unat (mw_ptr w) - unat (mf_ptr f)"
    "unat (addr - mf_ptr f) = unat addr - unat (mf_ptr f)"
    using page f(2) fit by (simp_all add: unat_sub word_le_nat_alt mapped_contains_iff)
  have off: "unat (mw_offset w) + unat (mw_ptr w - mf_ptr f) = unat (addr - mf_ptr f)"
    unfolding sub using page by simp
  have "take (length (sl_bytes s)) (drop (unat (mw_offset w)) (wrapped_bytes maps w)) =
      take (length (sl_bytes s)) (drop (unat (addr - mf_ptr f)) (mf_pages f))"
    unfolding bytes drop_take drop_drop off using page(4) n by simp
  also have "\<dots> = sl_bytes s"
    using fits f addr by (auto simp: slice_of_def)
  finally show ?thesis .
qed

end
