(* ===== verification/Metal_Fake.thy ===== *)
theory Metal_Fake
  imports Metal_Launch
begin

text \<open>
  The sequencing fake of the Metal driver (\<open>FakeMetalDriver\<close> of \<open>metal_host.rs\<close>). A slot holds its
  bytes and the remainder of the page at which a wrapped slice starts; encodes wait until a \<open>sync\<close> or
  a readback submits them. The simulated QKV carrier, which only \<open>with_qkv_carrier_sim\<close> installs, is
  left out: the model is the fake without one.
\<close>

record FakeBufferSlot =
  fb_bytes :: "u8 list"
  fb_region_offset :: u64
  fb_logical_len :: nat

record FakeMetalDriver =
  fm_next_token :: u64
  fm_buffers :: "(u64, FakeBufferSlot) bmap"
  fm_maps :: "MappedWeightFile list"
  fm_modules :: "(u64, u8 list) bmap"
  fm_force_unavailable :: bool
  fm_known_entries :: "string list"
  fm_module_loads :: nat
  fm_module_releases :: nat
  fm_buffer_allocs :: nat
  fm_buffer_releases :: nat
  fm_fail_at :: "(FakeFailureStage, u32) bmap"
  fm_stage_calls :: "(FakeFailureStage, u32) bmap"
  fm_pending_encodes :: nat
  fm_command_submits :: nat
  fm_blocking_waits :: nat
  fm_mmap_wraps :: nat

definition fake_metal_default :: FakeMetalDriver where
  "fake_metal_default =
     \<lparr>fm_next_token = 0, fm_buffers = [], fm_maps = [], fm_modules = [], fm_force_unavailable = False,
      fm_known_entries = [], fm_module_loads = 0, fm_module_releases = 0, fm_buffer_allocs = 0,
      fm_buffer_releases = 0, fm_fail_at = [], fm_stage_calls = [], fm_pending_encodes = 0,
      fm_command_submits = 0, fm_blocking_waits = 0, fm_mmap_wraps = 0\<rparr>"

definition fake_metal_unavailable :: FakeMetalDriver where
  "fake_metal_unavailable = fake_metal_default\<lparr>fm_force_unavailable := True\<rparr>"

definition fm_with_known_entry :: "string \<Rightarrow> FakeMetalDriver \<Rightarrow> FakeMetalDriver" where
  "fm_with_known_entry entry d = d\<lparr>fm_known_entries := fm_known_entries d @ [entry]\<rparr>"

definition fm_with_failure_at :: "FakeFailureStage \<Rightarrow> u32 \<Rightarrow> FakeMetalDriver \<Rightarrow> FakeMetalDriver" where
  "fm_with_failure_at stage call d = d\<lparr>fm_fail_at := bmap_insert stage call (fm_fail_at d)\<rparr>"

section \<open>Entry tables\<close>

definition GEA2_ENTRY_ARITIES :: "(string \<times> nat list) list" where
  "GEA2_ENTRY_ARITIES =
     [(''rmsnorm'', [3]), (''gemm_qo'', [3]), (''gemm_qo_gathered'', [17]), (''gemm_kv'', [3]),
      (''gemm_kv_windows'', [8]), (''gemm_gate_up'', [3]), (''gemm_down'', [3]), (''rope_q'', [18]),
      (''rope_k'', [8]), (''transpose'', [2]), (''score_gemm'', [4]), (''causal_softmax'', [2]),
      (''context_gemm'', [3]), (''swiglu'', [3]), (''residual_add'', [3])]"

definition GEA3_ENTRY_ARITIES :: "(string \<times> nat list) list" where
  "GEA3_ENTRY_ARITIES =
     [(''embedding_gather'', [3, 4]), (''prefill_embedding_gather'', [4]), (''decode_rmsnorm'', [5]),
      (''decode_gemv_qo'', [5]), (''decode_gemv_kv'', [5]), (''decode_mlp'', [8]), (''decode_rope_q'', [4]),
      (''decode_rope_k'', [4]), (''kv_append_k'', [4]), (''kv_append_v'', [4]),
      (''decode_key_transpose'', [2]), (''decode_score_gemm'', [4]), (''decode_masked_softmax'', [4]),
      (''decode_context_gemm'', [3]), (''decode_residual_add'', [4]), (''prefill_rmsnorm'', [5]),
      (''prefill_gemm_qo'', [5]), (''prefill_gemm_o'', [4]), (''prefill_gemm_kv'', [5]),
      (''prefill_gemm_gate_up'', [5]), (''prefill_gemm_down'', [5]), (''prefill_mlp'', [8]),
      (''prefill_rope_q'', [4]), (''prefill_rope_k'', [4]), (''prefill_key_transpose'', [2]),
      (''prefill_score_gemm'', [4]), (''prefill_causal_softmax'', [4]), (''prefill_context_gemm'', [3]),
      (''prefill_residual_add'', [4]), (''prefill_kv_write_k'', [4]), (''prefill_kv_write_v'', [4]),
      (''head_rmsnorm'', [5]), (''lm_head_gemv'', [5]), (''prefill_head_rmsnorm'', [5]),
      (''prefill_lm_head_gemv'', [5])]"

definition entry_arities :: "(string \<times> nat list) list \<Rightarrow> string \<Rightarrow> nat list option" where
  "entry_arities table entry = map_option snd (List.find (\<lambda>row. fst row = entry) table)"

definition gea2_entry_arities :: "string \<Rightarrow> nat list option" where
  "gea2_entry_arities = entry_arities GEA2_ENTRY_ARITIES"

definition gea3_entry_arities :: "string \<Rightarrow> nat list option" where
  "gea3_entry_arities = entry_arities GEA3_ENTRY_ARITIES"

section \<open>Views of the slots\<close>

definition fm_maybe_fail :: "FakeFailureStage \<Rightarrow> (FakeMetalDriver, unit, HostError) step" where
  "fm_maybe_fail stage d =
     (let (call, calls) = count_stage_call stage (fm_stage_calls d); d = d\<lparr>fm_stage_calls := calls\<rparr>
      in (ensure (bmap_get (fm_fail_at d) stage \<noteq> Some call)
            (metal_driver (''injected failure at '' @ stage_debug stage @ '' stage (S2-3 failure-injection test)'')), d))"

definition fm_slot :: "u64 \<Rightarrow> string \<Rightarrow> FakeMetalDriver \<Rightarrow> (FakeBufferSlot, HostError) result" where
  "fm_slot token what d =
     ok_or (bmap_get (fm_buffers d) token) (HostError_internal (''fake '' @ what @ '' missing buffer''))"

definition slot_len :: "FakeBufferSlot \<Rightarrow> u64" where
  "slot_len slot = of_nat (length (fb_bytes slot))"

text \<open>The bytes a kernel reads: from the bound offset to the end of the logical buffer.\<close>

definition fm_view_from :: "u64 \<Rightarrow> u64 \<Rightarrow> string \<Rightarrow> FakeMetalDriver \<Rightarrow> (u8 list, HostError) result" where
  "fm_view_from token binding_offset what d =
     and_then (fm_slot token what d) (\<lambda>slot.
     and_then (compose_bind_offset (fb_region_offset slot) binding_offset 0 (slot_len slot)) (\<lambda>start.
       let stop = max (min (saturating_add (fb_region_offset slot) (of_nat (fb_logical_len slot))) (slot_len slot)) start
       in Ok (take (unat (stop - start)) (drop (unat start) (fb_bytes slot)))))"

text \<open>Where a kernel writes: the start of its view, which runs to the end of the slot.\<close>

definition fm_write_start :: "u64 \<Rightarrow> u64 \<Rightarrow> string \<Rightarrow> FakeMetalDriver \<Rightarrow> (nat \<times> u8 list, HostError) result" where
  "fm_write_start token binding_offset what d =
     and_then (fm_slot token what d) (\<lambda>slot.
     and_then (compose_bind_offset (fb_region_offset slot) binding_offset 0 (slot_len slot)) (\<lambda>start.
       Ok (unat start, drop (unat start) (fb_bytes slot))))"

definition fm_write_from :: "u64 \<Rightarrow> nat \<Rightarrow> u8 list \<Rightarrow> FakeMetalDriver \<Rightarrow> FakeMetalDriver" where
  "fm_write_from token start bytes d =
     d\<lparr>fm_buffers := map (\<lambda>(t, slot). (t, if t = token
         then slot\<lparr>fb_bytes := take start (fb_bytes slot) @ bytes\<rparr> else slot)) (fm_buffers d)\<rparr>"

definition fm_require_module :: "u64 \<Rightarrow> string \<Rightarrow> FakeMetalDriver \<Rightarrow> (unit, HostError) result" where
  "fm_require_module m missing d = ensure (bmap_contains (fm_modules d) m) (HostError_internal missing)"

section \<open>Simulated kernels\<close>

definition fm_simulate_elementwise_add ::
    "Float32 \<Rightarrow> u64 \<Rightarrow> u64 \<times> u64 \<Rightarrow> u64 \<times> u64 \<Rightarrow> u64 \<times> u64 \<Rightarrow> (FakeMetalDriver, unit, HostError) step" where
  "fm_simulate_elementwise_add fl m a b out =
     sthen (sget (fm_require_module m ''fake launch missing module'')) (\<lambda>_.
     sthen (sget (fm_view_from (fst a) (snd a) ''launch a'')) (\<lambda>a_bytes.
     sthen (sget (fm_view_from (fst b) (snd b) ''launch b'')) (\<lambda>b_bytes.
     sthen (sget (fm_write_start (fst out) (snd out) ''launch out'')) (\<lambda>(start, out_view).
     sthen (slift (ensure (length a_bytes = length b_bytes \<and> length a_bytes = length out_view)
         (HostError_invalid_args ''fake launch length mismatch''))) (\<lambda>_.
       smodify (fm_write_from (fst out) start (map_words (f32_add fl) a_bytes b_bytes out_view)))))))"

definition fm_simulate_accumulate ::
    "Float32 \<Rightarrow> u64 \<Rightarrow> u64 \<times> u64 \<Rightarrow> u64 \<times> u64 \<Rightarrow> (FakeMetalDriver, unit, HostError) step" where
  "fm_simulate_accumulate fl m a acc =
     sthen (sget (fm_require_module m ''fake accumulate missing module'')) (\<lambda>_.
     sthen (sget (fm_view_from (fst a) (snd a) ''accumulate a'')) (\<lambda>a_bytes.
     sthen (sget (fm_write_start (fst acc) (snd acc) ''accumulate acc'')) (\<lambda>(start, acc_view).
     sthen (slift (ensure (length a_bytes = length acc_view)
         (HostError_invalid_args ''fake accumulate length mismatch''))) (\<lambda>_.
       smodify (fm_write_from (fst acc) start (map_words (f32_add fl) acc_view a_bytes acc_view))))))"

definition fm_simulate_copy :: "u64 \<Rightarrow> u64 \<times> u64 \<Rightarrow> u64 \<times> u64 \<Rightarrow> (FakeMetalDriver, unit, HostError) step" where
  "fm_simulate_copy m src out =
     sthen (sget (fm_require_module m ''fake copy missing module'')) (\<lambda>_.
     sthen (sget (fm_view_from (fst src) (snd src) ''copy src'')) (\<lambda>src_bytes.
     sthen (sget (fm_write_start (fst out) (snd out) ''copy out'')) (\<lambda>(start, out_view).
     sthen (slift (ensure (length out_view \<le> length src_bytes)
         (HostError_invalid_args ''fake copy length mismatch''))) (\<lambda>_.
       smodify (fm_write_from (fst out) start (take (length out_view) src_bytes))))))"

definition fm_encoded :: "FakeMetalDriver \<Rightarrow> FakeMetalDriver" where
  "fm_encoded d = d\<lparr>fm_pending_encodes := fm_pending_encodes d + 1\<rparr>"

text \<open>One submit and one wait for all pending encodes, none when there are none.\<close>

definition fm_flush_pending :: "FakeMetalDriver \<Rightarrow> FakeMetalDriver" where
  "fm_flush_pending d =
     (if fm_pending_encodes d = 0 then d
      else d\<lparr>fm_command_submits := fm_command_submits d + 1, fm_blocking_waits := fm_blocking_waits d + 1,
             fm_pending_encodes := 0\<rparr>)"

definition expect_fake_arity :: "u64 list \<Rightarrow> nat \<Rightarrow> string \<Rightarrow> (unit, HostError) result" where
  "expect_fake_arity buffers count what =
     ensure (length buffers = count) (HostError_invalid_args (''fake launch_kernel '' @ what))"

section \<open>The driver\<close>

definition fm_discover :: "(FakeMetalDriver, MetalEnvReport, HostError) step" where
  "fm_discover d =
     (if fm_force_unavailable d then
        (Err (metal_unavailable ''fake driver configured unavailable (sequencing test)''), d)
      else
        (Ok \<lparr>mr_admitted = True, mr_mtl_device = Some ''fake-metal-device'',
             mr_framework_paths = [''fake://Metal.framework''],
             mr_reason = ''fake driver admitted for sequencing tests only''\<rparr>, d))"

definition fm_load_module :: "u8 list \<Rightarrow> (FakeMetalDriver, u64, HostError) step" where
  "fm_load_module img =
     sthen (fm_maybe_fail StageModuleLoad) (\<lambda>_ d.
       (Ok (fm_next_token d),
        d\<lparr>fm_module_loads := fm_module_loads d + 1, fm_next_token := fm_next_token d + 1,
          fm_modules := bmap_insert (fm_next_token d) img (fm_modules d)\<rparr>))"

definition fm_alloc :: "nat \<Rightarrow> (FakeMetalDriver, u64, HostError) step" where
  "fm_alloc len =
     sthen (fm_maybe_fail StageAlloc) (\<lambda>_ d.
       (Ok (fm_next_token d),
        d\<lparr>fm_buffer_allocs := fm_buffer_allocs d + 1, fm_next_token := fm_next_token d + 1,
          fm_buffers := bmap_insert (fm_next_token d)
            \<lparr>fb_bytes = replicate len 0, fb_region_offset = 0, fb_logical_len = len\<rparr> (fm_buffers d)\<rparr>))"

definition fm_copy_in :: "u64 \<Rightarrow> ByteSlice \<Rightarrow> (FakeMetalDriver, unit, HostError) step" where
  "fm_copy_in token src =
     sthen (fm_maybe_fail StageCopyIn) (\<lambda>_ d.
       case bmap_get (fm_buffers d) token of
         None \<Rightarrow> (Err (HostError_internal ''fake copy_in missing buffer''), d)
       | Some slot \<Rightarrow>
           (case mapped_wrap_for (fm_maps d) src of
              Some w \<Rightarrow>
                (Ok (), d\<lparr>fm_buffers := bmap_insert token
                    (slot\<lparr>fb_bytes := wrapped_bytes (fm_maps d) w, fb_region_offset := mw_offset w\<rparr>) (fm_buffers d),
                  fm_mmap_wraps := fm_mmap_wraps d + 1\<rparr>)
            | None \<Rightarrow>
                if fb_region_offset slot \<noteq> 0 then
                  (Err (HostError_invalid_args ''Metal mmap-backed region is read-only''), d)
                else if length (fb_bytes slot) \<noteq> length (sl_bytes src) then
                  (Err (HostError_invalid_args ''fake copy_in size mismatch''), d)
                else (Ok (), d\<lparr>fm_buffers := bmap_insert token (slot\<lparr>fb_bytes := sl_bytes src\<rparr>) (fm_buffers d)\<rparr>)))"

definition fm_launch_elementwise_add_f32 ::
    "Float32 \<Rightarrow> u64 \<Rightarrow> u64 \<Rightarrow> u64 \<Rightarrow> u64 \<Rightarrow> nat \<Rightarrow> (FakeMetalDriver, unit, HostError) step" where
  "fm_launch_elementwise_add_f32 fl m a b out len =
     sthen (fm_simulate_elementwise_add fl m (a, 0) (b, 0) (out, 0)) (\<lambda>_. smodify fm_encoded)"

definition fm_check_binding :: "u64 \<times> u64 \<times> u64 \<Rightarrow> FakeMetalDriver \<Rightarrow> (u64, HostError) result" where
  "fm_check_binding b d =
     and_then (fm_slot (fst b) ''launch'' d) (\<lambda>slot.
       compose_bind_offset (fb_region_offset slot) (fst (snd b)) (snd (snd b)) (slot_len slot))"

definition fm_entry_known :: "string \<Rightarrow> FakeMetalDriver \<Rightarrow> (unit, HostError) result" where
  "fm_entry_known entry d =
     ensure (fm_known_entries d = [] \<or> List.member (fm_known_entries d) entry) (metal_entry_mismatch entry)"

definition fm_structural :: "string \<Rightarrow> nat list \<Rightarrow> u64 list \<Rightarrow> (FakeMetalDriver, unit, HostError) step" where
  "fm_structural family arities buffers =
     sthen (slift (ensure (List.member arities (length buffers))
         (HostError_invalid_args (''fake launch_kernel declared '' @ family @ '' entry'')))) (\<lambda>_.
       smodify fm_encoded)"

definition fm_launch_simulated ::
    "Float32 \<Rightarrow> u64 \<Rightarrow> string \<Rightarrow> u64 list \<Rightarrow> (nat \<Rightarrow> u64) \<Rightarrow> (FakeMetalDriver, unit, HostError) step" where
  "fm_launch_simulated fl m entry buffers offset_at =
     (let bound = (\<lambda>i. (buffers ! i, offset_at i)) in
      if entry = ''accumulate'' then
        sthen (slift (expect_fake_arity buffers 2 '''accumulate' simulates the 2-buffer kernel (a, acc)'')) (\<lambda>_.
        sthen (fm_simulate_accumulate fl m (bound 0) (bound 1)) (\<lambda>_. smodify fm_encoded))
      else if entry = ''observa'' then
        sthen (slift (expect_fake_arity buffers 2 '''observa' simulates the 2-buffer kernel (src, out)'')) (\<lambda>_.
        sthen (fm_simulate_copy m (bound 0) (bound 1)) (\<lambda>_. smodify fm_encoded))
      else
        sthen (slift (expect_fake_arity buffers 3 ''simulates the 3-buffer elementwise-add kernel (a, b, out)'')) (\<lambda>_.
        sthen (fm_simulate_elementwise_add fl m (bound 0) (bound 1) (bound 2)) (\<lambda>_. smodify fm_encoded)))"

definition fm_launch_kernel_bound ::
    "Float32 \<Rightarrow> u64 \<Rightarrow> string \<Rightarrow> u64 list \<Rightarrow> u64 list \<Rightarrow> u64 list \<Rightarrow> grid3 \<Rightarrow> grid3
       \<Rightarrow> (FakeMetalDriver, unit, HostError) step" where
  "fm_launch_kernel_bound fl m entry buffers offsets spans grid block =
     sthen (fm_maybe_fail StageLaunch) (\<lambda>_.
     sthen (slift (ensure (length buffers = length offsets \<and> length buffers = length spans)
         (HostError_invalid_args ''fake launch_kernel_bound offset/span arity mismatch''))) (\<lambda>_.
     sthen (sget (\<lambda>d. try_map (\<lambda>b. fm_check_binding b d) (zip buffers (zip offsets spans)))) (\<lambda>_.
     sthen (sget (fm_entry_known entry)) (\<lambda>_ d.
       let simulated = fm_launch_simulated fl m entry buffers (\<lambda>i. if i < length offsets then offsets ! i else 0) in
       (if fm_known_entries d = [] then simulated d
        else case gea3_entry_arities entry of
          Some arities \<Rightarrow> fm_structural ''GEA3'' arities buffers d
        | None \<Rightarrow>
            (case gea2_entry_arities entry of
               Some arities \<Rightarrow> fm_structural ''GEA2'' arities buffers d
             | None \<Rightarrow> simulated d))))))"

definition fm_sync :: "(FakeMetalDriver, unit, HostError) step" where
  "fm_sync = sthen (fm_maybe_fail StageSync) (\<lambda>_. smodify fm_flush_pending)"

definition fm_copy_out :: "u64 \<Rightarrow> nat \<Rightarrow> (FakeMetalDriver, u8 list, HostError) step" where
  "fm_copy_out token len =
     sthen (smodify fm_flush_pending) (\<lambda>_.
     sthen (fm_maybe_fail StageReadback) (\<lambda>_.
     sthen (sget (\<lambda>d. ok_or (bmap_get (fm_buffers d) token) (HostError_internal ''fake copy_out missing buffer''))) (\<lambda>slot.
       let offset = unat (fb_region_offset slot) in
       if offset + len < 2 ^ 64 \<and> offset + len \<le> length (fb_bytes slot) then
         slift (Ok (take len (drop offset (fb_bytes slot))))
       else slift (Err (HostError_internal ''fake copy_out size mismatch'')))))"

definition fm_retain_mapped_file :: "MappedWeightFile \<Rightarrow> FakeMetalDriver \<Rightarrow> FakeMetalDriver" where
  "fm_retain_mapped_file f d = d\<lparr>fm_maps := fm_maps d @ [f]\<rparr>"

definition fm_free :: "u64 \<Rightarrow> (FakeMetalDriver, unit, HostError) step" where
  "fm_free token d =
     (Ok (),
      if bmap_contains (fm_buffers d) token then
        d\<lparr>fm_buffers := bmap_remove token (fm_buffers d), fm_buffer_releases := fm_buffer_releases d + 1\<rparr>
      else if bmap_contains (fm_modules d) token then
        d\<lparr>fm_modules := bmap_remove token (fm_modules d), fm_module_releases := fm_module_releases d + 1\<rparr>
      else d)"

definition fm_counters :: "FakeMetalDriver \<Rightarrow> DriverCounters" where
  "fm_counters d =
     \<lparr>dc_module_loads = fm_module_loads d, dc_module_releases = fm_module_releases d,
      dc_buffer_allocs = fm_buffer_allocs d, dc_buffer_releases = fm_buffer_releases d, dc_uploads = 0\<rparr>"

definition fake_metal :: "Float32 \<Rightarrow> FakeMetalDriver MetalDriver" where
  "fake_metal fl =
     \<lparr>md_discover = fm_discover, md_create_context = slift (Ok ()), md_load_module = fm_load_module,
      md_alloc = fm_alloc, md_copy_in = fm_copy_in,
      md_launch_elementwise_add_f32 = fm_launch_elementwise_add_f32 fl,
      md_launch_kernel_bound = fm_launch_kernel_bound fl, md_sync = fm_sync, md_copy_out = fm_copy_out,
      md_free = fm_free, md_counters = fm_counters, md_command_submit_count = fm_command_submits,
      md_blocking_wait_count = fm_blocking_waits, md_retain_mapped_file = fm_retain_mapped_file,
      md_mmap_wrap_count = fm_mmap_wraps\<rparr>"

end
