(* ===== verification/Metal_Contract.thy ===== *)
theory Metal_Contract
  imports Metal_Fake
begin

text \<open>
  The sequencing fake of the Metal driver meets the contract of a device driver, also for mapped
  slices: after a copy the buffer starts with the bytes of the slice, whether they were copied or the
  pages that hold them were wrapped.
\<close>

definition fake_metal_ok :: "FakeMetalDriver \<Rightarrow> bool" where
  "fake_metal_ok d \<longleftrightarrow>
     bmap_ok (fm_buffers d) \<and> bmap_ok (fm_modules d) \<and>
     (\<forall>t \<in> fst ` set (fm_buffers d) \<union> fst ` set (fm_modules d). unat t < unat (fm_next_token d)) \<and>
     fst ` set (fm_buffers d) \<inter> fst ` set (fm_modules d) = {} \<and>
     length (fm_modules d) + fm_module_releases d = fm_module_loads d \<and>
     length (fm_buffers d) + fm_buffer_releases d = fm_buffer_allocs d \<and>
     fm_blocking_waits d = fm_command_submits d"

definition fake_metal_room :: "FakeMetalDriver \<Rightarrow> bool" where
  "fake_metal_room d \<longleftrightarrow> unat (fm_next_token d) + 1 < 2 ^ 64"

definition fake_metal_mods :: "FakeMetalDriver \<Rightarrow> u64 set" where
  "fake_metal_mods d = fst ` set (fm_modules d)"

definition slot_contents :: "FakeBufferSlot \<Rightarrow> u8 list" where
  "slot_contents slot = drop (unat (fb_region_offset slot)) (fb_bytes slot)"

definition fake_metal_mem :: "FakeMetalDriver \<Rightarrow> u64 \<Rightarrow> u8 list option" where
  "fake_metal_mem d t = map_option slot_contents (bmap_get (fm_buffers d) t)"

definition fake_metal_src :: "FakeMetalDriver \<Rightarrow> ByteSlice \<Rightarrow> bool" where
  "fake_metal_src d src \<longleftrightarrow>
     (\<forall>f\<in>set (fm_maps d). map_fits f \<and> slice_of src f) \<and> length (sl_bytes src) < 2 ^ 64"

lemmas fake_metal_views = fake_metal_ok_def fake_metal_mods_def fake_metal_mem_def fun_eq_iff

lemma dom_fake_metal_mem: "dom (fake_metal_mem d) = fst ` set (fm_buffers d)"
  by (force simp: fake_metal_mem_def dom_def map_of_eq_None_iff simp flip: not_None_eq)

definition metal_frame :: "FakeMetalDriver \<Rightarrow> FakeMetalDriver \<Rightarrow> bool" where
  "metal_frame d0 d \<longleftrightarrow>
     fake_metal_ok d \<and> fake_metal_mods d = fake_metal_mods d0 \<and> dom (fake_metal_mem d) = dom (fake_metal_mem d0)"

lemma metal_frameD:
  assumes "preserves (metal_frame d) m" "fake_metal_ok d" "m d = (r, d')"
  shows "fake_metal_ok d' \<and> fake_metal_mods d' = fake_metal_mods d \<and> dom (fake_metal_mem d') = dom (fake_metal_mem d)"
  using preservesD [OF assms(1) _ assms(3)] assms(2) by (simp add: metal_frame_def)

section \<open>Steps that touch no object\<close>

lemma fake_metal_stage_calls [simp]:
  "fake_metal_ok (d\<lparr>fm_stage_calls := c\<rparr>) = fake_metal_ok d"
  "fake_metal_mods (d\<lparr>fm_stage_calls := c\<rparr>) = fake_metal_mods d"
  "fake_metal_mem (d\<lparr>fm_stage_calls := c\<rparr>) = fake_metal_mem d"
  "fake_metal_room (d\<lparr>fm_stage_calls := c\<rparr>) = fake_metal_room d"
  "fake_metal_src (d\<lparr>fm_stage_calls := c\<rparr>) = fake_metal_src d"
  by (simp_all add: fake_metal_views fake_metal_room_def fake_metal_src_def)

lemma fake_metal_flush [simp]:
  "fake_metal_ok (fm_flush_pending d) = fake_metal_ok d"
  "fake_metal_mods (fm_flush_pending d) = fake_metal_mods d"
  "fake_metal_mem (fm_flush_pending d) = fake_metal_mem d"
  by (simp_all add: fake_metal_views fm_flush_pending_def)

lemma fake_metal_encoded [simp]:
  "fake_metal_ok (fm_encoded d) = fake_metal_ok d"
  "fake_metal_mods (fm_encoded d) = fake_metal_mods d"
  "fake_metal_mem (fm_encoded d) = fake_metal_mem d"
  by (simp_all add: fake_metal_views fm_encoded_def)

lemma metal_frame_same [simp]:
  "metal_frame d0 (d\<lparr>fm_stage_calls := c\<rparr>) = metal_frame d0 d"
  "metal_frame d0 (fm_flush_pending d) = metal_frame d0 d"
  "metal_frame d0 (fm_encoded d) = metal_frame d0 d"
  by (simp_all add: metal_frame_def)

lemma metal_frame_fail [keeps]: "preserves (metal_frame d0) (fm_maybe_fail stage)"
  by (rule preservesI) (simp add: fm_maybe_fail_def split: prod.split)

lemma fm_maybe_fail_cases:
  assumes "sthen (fm_maybe_fail stage) f d = (r, d')"
  obtains e c where "r = Err e" "d' = d\<lparr>fm_stage_calls := c\<rparr>"
  | c where "f () (d\<lparr>fm_stage_calls := c\<rparr>) = (r, d')"
  using assms
  by (cases "count_stage_call stage (fm_stage_calls d)")
     (auto simp: sthen_def fm_maybe_fail_def split: result.splits)

section \<open>Writes\<close>

lemma keys_write_from [simp]: "map fst (fm_buffers (fm_write_from t start bytes d)) = map fst (fm_buffers d)"
  by (simp add: fm_write_from_def comp_def case_prod_beta)

lemma write_from_frame: "metal_frame d0 d \<Longrightarrow> metal_frame d0 (fm_write_from t start bytes d)"
proof -
  let ?d = "fm_write_from t start bytes d"
  assume d: "metal_frame d0 d"
  have keys: "fst ` set (fm_buffers ?d) = fst ` set (fm_buffers d)"
    by (metis keys_write_from list.set_map)
  have "length (fm_buffers ?d) = length (fm_buffers d)"
    by (metis keys_write_from length_map)
  moreover have "bmap_ok (fm_buffers ?d) = bmap_ok (fm_buffers d)"
    by (simp add: bmap_ok_def)
  moreover have "fm_modules ?d = fm_modules d" "fm_next_token ?d = fm_next_token d"
    "fm_module_loads ?d = fm_module_loads d" "fm_module_releases ?d = fm_module_releases d"
    "fm_buffer_allocs ?d = fm_buffer_allocs d" "fm_buffer_releases ?d = fm_buffer_releases d"
    "fm_blocking_waits ?d = fm_blocking_waits d" "fm_command_submits ?d = fm_command_submits d"
    by (simp_all add: fm_write_from_def)
  ultimately have "fake_metal_ok ?d = fake_metal_ok d" "fake_metal_mods ?d = fake_metal_mods d"
    "dom (fake_metal_mem ?d) = dom (fake_metal_mem d)"
    by (simp_all only: fake_metal_ok_def fake_metal_mods_def dom_fake_metal_mem keys)
  then show ?thesis using d by (simp only: metal_frame_def)
qed

lemma metal_frame_write [keeps]: "preserves (metal_frame d0) (smodify (fm_write_from t start bytes))"
  by (rule preserves_smodify) (rule write_from_frame)

lemma metal_frame_encoded [keeps]: "preserves (metal_frame d0) (smodify fm_encoded)"
  by (rule preserves_smodify) simp

lemma metal_frame_simulations [keeps]:
  "preserves (metal_frame d0) (fm_simulate_elementwise_add fl m a b out)"
  "preserves (metal_frame d0) (fm_simulate_accumulate fl m a acc)"
  "preserves (metal_frame d0) (fm_simulate_copy m a out)"
  unfolding fm_simulate_elementwise_add_def fm_simulate_accumulate_def fm_simulate_copy_def case_prod_beta
  by (intro keeps)+

lemma metal_frame_simulated [keeps]: "preserves (metal_frame d0) (fm_launch_simulated fl m entry bufs off)"
  unfolding fm_launch_simulated_def Let_def by (simp, intro conjI impI keeps)

lemma metal_frame_structural [keeps]: "preserves (metal_frame d0) (fm_structural family arities bufs)"
  unfolding fm_structural_def by (intro keeps)

lemma metal_frame_launch: "preserves (metal_frame d0) (fm_launch_kernel_bound fl m entry bufs offs spans grid block)"
proof -
  have pick: "preserves I (\<lambda>d. let s = m' in if c d then s d else case x of Some a \<Rightarrow> g a d
      | None \<Rightarrow> (case y of Some a \<Rightarrow> h a d | None \<Rightarrow> s d))"
    if "preserves I m'" "\<And>a. preserves I (g a)" "\<And>a. preserves I (h a)"
    for I :: "FakeMetalDriver \<Rightarrow> bool" and m' :: "(FakeMetalDriver, unit, HostError) step" and c x y g h
    using that by (simp add: preserves_def Let_def split: option.split)
  show ?thesis
    unfolding fm_launch_kernel_bound_def by (intro pick keeps)
qed

lemma metal_frame_launch_add: "preserves (metal_frame d0) (fm_launch_elementwise_add_f32 fl m a b out len)"
  unfolding fm_launch_elementwise_add_f32_def by (intro keeps)

section \<open>Objects\<close>

lemma fake_metal_create:
  assumes "fake_metal_ok d" "fake_metal_room d"
  shows "unat (fm_next_token d + 1) = unat (fm_next_token d) + 1"
    "fm_next_token d \<notin> fst ` set (fm_buffers d)" "fm_next_token d \<notin> fst ` set (fm_modules d)"
  using assms by (auto simp: fake_metal_ok_def fake_metal_room_def unat_add_u64)

lemma fake_metal_load:
  assumes "fake_metal_ok d" "fm_load_module img d = (r, d')"
  shows "r = Ok t \<Longrightarrow> fake_metal_room d \<Longrightarrow> fake_metal_ok d' \<and> t \<notin> fake_metal_mods d \<union> dom (fake_metal_mem d) \<and>
      fake_metal_mods d' = insert t (fake_metal_mods d) \<and> fake_metal_mem d' = fake_metal_mem d"
    and "r = Err e \<Longrightarrow> fake_metal_ok d' \<and> fake_metal_mods d' = fake_metal_mods d \<and> fake_metal_mem d' = fake_metal_mem d"
proof -
  show "r = Ok t \<Longrightarrow> fake_metal_room d \<Longrightarrow> fake_metal_ok d' \<and> t \<notin> fake_metal_mods d \<union> dom (fake_metal_mem d) \<and>
      fake_metal_mods d' = insert t (fake_metal_mods d) \<and> fake_metal_mem d' = fake_metal_mem d"
    using assms(2) unfolding fm_load_module_def
  proof (cases rule: fm_maybe_fail_cases)
    case (2 c)
    assume "r = Ok t" "fake_metal_room d"
    note new = fake_metal_create [OF assms(1) this(2)]
    from 2 \<open>r = Ok t\<close> have t: "t = fm_next_token d" by simp
    from 2 have d': "d' = d\<lparr>fm_stage_calls := c, fm_module_loads := fm_module_loads d + 1,
        fm_next_token := fm_next_token d + 1, fm_modules := bmap_insert (fm_next_token d) img (fm_modules d)\<rparr>"
      by simp
    show ?thesis
      using new assms(1) unfolding d' t dom_fake_metal_mem
      by (simp add: fake_metal_views length_bmap_insert_new less_SucI ball_Un)
  qed simp
  show "r = Err e \<Longrightarrow> fake_metal_ok d' \<and> fake_metal_mods d' = fake_metal_mods d \<and> fake_metal_mem d' = fake_metal_mem d"
    using assms(2) unfolding fm_load_module_def
    by (cases rule: fm_maybe_fail_cases) (use assms(1) in simp_all)
qed

lemma fake_metal_alloc:
  assumes "fake_metal_ok d" "fm_alloc len d = (r, d')"
  shows "r = Ok t \<Longrightarrow> fake_metal_room d \<Longrightarrow> fake_metal_ok d' \<and> t \<notin> fake_metal_mods d \<union> dom (fake_metal_mem d) \<and>
      fake_metal_mods d' = fake_metal_mods d \<and> fake_metal_mem d' = (fake_metal_mem d)(t \<mapsto> replicate len 0)"
    and "r = Err e \<Longrightarrow> fake_metal_ok d' \<and> fake_metal_mods d' = fake_metal_mods d \<and> fake_metal_mem d' = fake_metal_mem d"
proof -
  show "r = Ok t \<Longrightarrow> fake_metal_room d \<Longrightarrow> fake_metal_ok d' \<and> t \<notin> fake_metal_mods d \<union> dom (fake_metal_mem d) \<and>
      fake_metal_mods d' = fake_metal_mods d \<and> fake_metal_mem d' = (fake_metal_mem d)(t \<mapsto> replicate len 0)"
    using assms(2) unfolding fm_alloc_def
  proof (cases rule: fm_maybe_fail_cases)
    case (2 c)
    assume "r = Ok t" "fake_metal_room d"
    note new = fake_metal_create [OF assms(1) this(2)]
    from 2 \<open>r = Ok t\<close> have t: "t = fm_next_token d" by simp
    from 2 have d': "d' = d\<lparr>fm_stage_calls := c, fm_buffer_allocs := fm_buffer_allocs d + 1,
        fm_next_token := fm_next_token d + 1, fm_buffers := bmap_insert (fm_next_token d)
          \<lparr>fb_bytes = replicate len 0, fb_region_offset = 0, fb_logical_len = len\<rparr> (fm_buffers d)\<rparr>"
      by simp
    show ?thesis
      using new assms(1) unfolding d' t dom_fake_metal_mem
      by (simp add: fake_metal_views length_bmap_insert_new less_SucI ball_Un slot_contents_def)
  qed simp
  show "r = Err e \<Longrightarrow> fake_metal_ok d' \<and> fake_metal_mods d' = fake_metal_mods d \<and> fake_metal_mem d' = fake_metal_mem d"
    using assms(2) unfolding fm_alloc_def
    by (cases rule: fm_maybe_fail_cases) (use assms(1) in simp_all)
qed

text \<open>An existing slot is replaced.\<close>

lemma fake_metal_replace:
  assumes "fake_metal_ok d" "bmap_get (fm_buffers d) t = Some slot"
    and d': "d' = d\<lparr>fm_stage_calls := c, fm_buffers := bmap_insert t slot' (fm_buffers d), fm_mmap_wraps := w\<rparr>"
  shows "fake_metal_ok d' \<and> fake_metal_mods d' = fake_metal_mods d \<and> t \<in> dom (fake_metal_mem d) \<and>
    fake_metal_mem d' = (fake_metal_mem d)(t \<mapsto> slot_contents slot')"
proof -
  have ok: "bmap_ok (fm_buffers d)" using assms(1) by (simp add: fake_metal_ok_def)
  have t: "t \<in> fst ` set (fm_buffers d)"
    using assms(2) by (force simp: bmap_get_iff_mem [OF ok])
  have "length (bmap_insert t slot' (fm_buffers d)) = length (fm_buffers d)"
    using length_bmap_insert_old [OF ok t] .
  with t assms(1) show ?thesis
    unfolding d' dom_fake_metal_mem by (simp add: fake_metal_views insert_absorb)
qed

lemma fake_metal_copy_in:
  assumes "fake_metal_ok d" "fm_copy_in t src d = (r, d')"
  shows "r = Ok u \<Longrightarrow> fake_metal_ok d' \<and> fake_metal_mods d' = fake_metal_mods d \<and> t \<in> dom (fake_metal_mem d) \<and>
      (\<exists>c. fake_metal_mem d' = (fake_metal_mem d)(t \<mapsto> c) \<and>
           (fake_metal_src d src \<longrightarrow> take (length (sl_bytes src)) c = sl_bytes src))"
    and "r = Err e \<Longrightarrow> fake_metal_ok d' \<and> fake_metal_mods d' = fake_metal_mods d \<and> fake_metal_mem d' = fake_metal_mem d"
proof -
  show "r = Err e \<Longrightarrow> fake_metal_ok d' \<and> fake_metal_mods d' = fake_metal_mods d \<and> fake_metal_mem d' = fake_metal_mem d"
    using assms(2) unfolding fm_copy_in_def
    by (cases rule: fm_maybe_fail_cases) (use assms(1) in \<open>auto split: option.splits if_splits\<close>)
  assume "r = Ok u"
  with assms(2) show "fake_metal_ok d' \<and> fake_metal_mods d' = fake_metal_mods d \<and> t \<in> dom (fake_metal_mem d) \<and>
      (\<exists>c. fake_metal_mem d' = (fake_metal_mem d)(t \<mapsto> c) \<and>
           (fake_metal_src d src \<longrightarrow> take (length (sl_bytes src)) c = sl_bytes src))"
    unfolding fm_copy_in_def
  proof (cases rule: fm_maybe_fail_cases)
    case (2 c)
    then obtain slot where slot: "bmap_get (fm_buffers d) t = Some slot"
      using \<open>r = Ok u\<close> by (cases "bmap_get (fm_buffers d) t") auto
    note put = fake_metal_replace [OF assms(1) slot]
    show ?thesis
    proof (cases "mapped_wrap_for (fm_maps d) src")
      case (Some w)
      define slot' where "slot' = slot\<lparr>fb_bytes := wrapped_bytes (fm_maps d) w, fb_region_offset := mw_offset w\<rparr>"
      have "d' = d\<lparr>fm_stage_calls := c, fm_buffers := bmap_insert t slot' (fm_buffers d), fm_mmap_wraps := fm_mmap_wraps d + 1\<rparr>"
        using 2 slot Some by (simp add: slot'_def)
      note mem = put [OF this]
      have "take (length (sl_bytes src)) (slot_contents slot') = sl_bytes src" if "fake_metal_src d src"
        using wrapped_slice [OF Some] that by (simp add: fake_metal_src_def slot_contents_def slot'_def)
      with mem show ?thesis by blast
    next
      case None
      define slot' where "slot' = slot\<lparr>fb_bytes := sl_bytes src\<rparr>"
      have plain: "fb_region_offset slot = 0"
        and "d' = d\<lparr>fm_stage_calls := c, fm_buffers := bmap_insert t slot' (fm_buffers d), fm_mmap_wraps := fm_mmap_wraps d\<rparr>"
        using 2 slot None \<open>r = Ok u\<close> by (simp_all add: slot'_def split: if_splits)
      note mem = put [OF this(2)]
      have "take (length (sl_bytes src)) (slot_contents slot') = sl_bytes src"
        by (simp add: slot_contents_def slot'_def plain)
      with mem show ?thesis by blast
    qed
  qed simp
qed

lemma fake_metal_copy_out:
  assumes "fake_metal_ok d" "fm_copy_out t len d = (r, d')"
  shows "fake_metal_ok d' \<and> fake_metal_mods d' = fake_metal_mods d \<and> fake_metal_mem d' = fake_metal_mem d"
    and "r = Ok bytes \<Longrightarrow> \<exists>c. fake_metal_mem d t = Some c \<and> bytes = take len c"
proof -
  let ?e = "fm_flush_pending d"
  have same: "fm_buffers ?e = fm_buffers d" by (simp add: fm_flush_pending_def)
  have run: "sthen (fm_maybe_fail StageReadback) (\<lambda>_.
     sthen (sget (\<lambda>d. ok_or (bmap_get (fm_buffers d) t) (HostError_internal ''fake copy_out missing buffer''))) (\<lambda>slot.
       let offset = unat (fb_region_offset slot) in
       if offset + len < 2 ^ 64 \<and> offset + len \<le> length (fb_bytes slot) then
         slift (Ok (take len (drop offset (fb_bytes slot))))
       else slift (Err (HostError_internal ''fake copy_out size mismatch'')))) ?e = (r, d')"
    using assms(2) by (simp add: fm_copy_out_def)
  have both: "(\<exists>c. d' = ?e\<lparr>fm_stage_calls := c\<rparr>) \<and>
    (r = Ok bytes \<longrightarrow> (\<exists>slot. bmap_get (fm_buffers d) t = Some slot \<and> bytes = take len (slot_contents slot)))"
    using run
  proof (cases rule: fm_maybe_fail_cases)
    case (2 c)
    then show ?thesis
      by (auto simp: sthen_get slift_apply same ok_or_def slot_contents_def Let_def split: option.splits if_splits)
  qed auto
  then show "fake_metal_ok d' \<and> fake_metal_mods d' = fake_metal_mods d \<and> fake_metal_mem d' = fake_metal_mem d"
    using assms(1) by auto
  show "r = Ok bytes \<Longrightarrow> \<exists>c. fake_metal_mem d t = Some c \<and> bytes = take len c"
    using both by (auto simp: fake_metal_mem_def)
qed

lemma fake_metal_free:
  assumes "fake_metal_ok d" "fm_free t d = (r, d')"
  shows "fake_metal_ok d' \<and> fake_metal_mods d' = fake_metal_mods d - {t} \<and> fake_metal_mem d' = (fake_metal_mem d)(t := None)"
proof -
  have keys: "fst ` set (bmap_remove t m) = fst ` set m - {t}" for m :: "(u64, 'x) bmap"
    by (force simp: bmap_remove_def)
  have ok: "bmap_ok (fm_buffers d)" "bmap_ok (fm_modules d)" using assms(1) by (simp_all add: fake_metal_ok_def)
  have same: "bmap_remove t m = m" if "t \<notin> fst ` set m" for m :: "(u64, 'x) bmap"
    using that by (force simp: bmap_remove_def filter_id_conv)
  have "fm_buffers d' = bmap_remove t (fm_buffers d)"
    using assms(2) same [of "fm_buffers d"] by (auto simp: fm_free_def)
  then have mem: "fake_metal_mem d' = (fake_metal_mem d)(t := None)"
    using bmap_get_remove [of t "fm_buffers d"] by (simp add: fake_metal_mem_def fun_eq_iff)
  consider "t \<in> fst ` set (fm_buffers d)" | "t \<notin> fst ` set (fm_buffers d)" "t \<in> fst ` set (fm_modules d)"
    | "t \<notin> fst ` set (fm_buffers d)" "t \<notin> fst ` set (fm_modules d)" by blast
  then show ?thesis
  proof cases
    case 1
    then have d': "d' = d\<lparr>fm_buffers := bmap_remove t (fm_buffers d),
        fm_buffer_releases := fm_buffer_releases d + 1\<rparr>" using assms(2) by (simp add: fm_free_def)
    have "t \<notin> fst ` set (fm_modules d)" using 1 assms(1) by (auto simp: fake_metal_ok_def)
    moreover have "fake_metal_ok d'"
      using assms(1) length_bmap_remove [OF ok(1) 1] unfolding d'
      by (simp add: fake_metal_ok_def keys Diff_Int_distrib2) blast
    ultimately show ?thesis using mem by (simp add: d' fake_metal_mods_def)
  next
    case 2
    then have d': "d' = d\<lparr>fm_modules := bmap_remove t (fm_modules d),
        fm_module_releases := fm_module_releases d + 1\<rparr>" using assms(2) by (simp add: fm_free_def)
    have "fake_metal_ok d'"
      using assms(1) length_bmap_remove [OF ok(2) 2(2)] unfolding d'
      by (simp add: fake_metal_ok_def keys Diff_Int_distrib) blast
    then show ?thesis using mem by (simp add: d' fake_metal_mods_def keys)
  next
    case 3
    then have "d' = d" using assms(2) by (simp add: fm_free_def)
    with 3 assms(1) mem show ?thesis by (simp add: fake_metal_mods_def)
  qed
qed

lemma card_keys: "bmap_ok m \<Longrightarrow> card (fst ` set m) = length m"
  using bmap_ok_distinct [of m] by (metis distinct_card image_set length_map)

lemma fake_metal_counts:
  assumes "fake_metal_ok d"
  shows "card (fake_metal_mods d) + fm_module_releases d = fm_module_loads d"
    "card (dom (fake_metal_mem d)) + fm_buffer_releases d = fm_buffer_allocs d"
proof -
  from assms show "card (fake_metal_mods d) + fm_module_releases d = fm_module_loads d"
    "card (dom (fake_metal_mem d)) + fm_buffer_releases d = fm_buffer_allocs d"
    by (simp_all add: fake_metal_ok_def fake_metal_mods_def dom_fake_metal_mem card_keys)
qed

end
