(* ===== verification/Metal_Safety.thy ===== *)
theory Metal_Safety
  imports Metal_Contract
begin

text \<open>
  The Metal session over any driver that meets the contract: in every reachable state the registry and
  the driver hold the same objects, and a released handle is never resolved again. The contract is
  interpreted on the sequencing fake.
\<close>

section \<open>Calls\<close>

datatype MetalCall =
    MCallLoad "u8 list"
  | MCallAlloc nat
  | MCallRetain MappedWeightFile
  | MCallCopyIn u64 ByteSlice DeviceDataType
  | MCallLaunchAdd u64 u64 u64 u64
  | MCallLaunch u64 string "u64 list" grid3 grid3
  | MCallLaunchBound u64 string "MetalLaunchBinding list" grid3 grid3
  | MCallSync
  | MCallReadback u64 DeviceDataType
  | MCallRelease u64
  | MCallUpload

fun metal_call :: "'d MetalDriver \<Rightarrow> MetalCall \<Rightarrow> 'd MetalHostSession \<Rightarrow> 'd MetalHostSession" where
  "metal_call dr (MCallLoad img) s = snd (metal_load_module dr img s)"
| "metal_call dr (MCallAlloc len) s = snd (metal_alloc_bytes dr len s)"
| "metal_call dr (MCallRetain f) s = snd (metal_retain_mapped_file dr f s)"
| "metal_call dr (MCallCopyIn i src dtype) s = snd (metal_copy_in_bytes dr i src dtype s)"
| "metal_call dr (MCallLaunchAdd m a b out) s = snd (metal_launch_elementwise_add_f32 dr m a b out s)"
| "metal_call dr (MCallLaunch m entry bufs grid block) s = snd (metal_launch_kernel_3d dr m entry bufs grid block s)"
| "metal_call dr (MCallLaunchBound m entry bs grid block) s = snd (metal_launch_kernel_bound dr m entry bs grid block s)"
| "metal_call dr MCallSync s = snd (metal_sync dr s)"
| "metal_call dr (MCallReadback i dtype) s = snd (metal_readback_bytes dr i dtype s)"
| "metal_call dr (MCallRelease i) s = snd (metal_release dr i s)"
| "metal_call dr MCallUpload s = metal_record_weight_upload s"

definition metal_room :: "('d \<Rightarrow> bool) \<Rightarrow> 'd MetalHostSession \<Rightarrow> bool" where
  "metal_room room s \<longleftrightarrow> room (ms_driver s) \<and> ids_left (ms_handles s)"

inductive metal_reach :: "'d MetalDriver \<Rightarrow> ('d \<Rightarrow> bool) \<Rightarrow> 'd MetalHostSession \<Rightarrow> 'd MetalHostSession \<Rightarrow> bool"
  for dr room s0 where
  metal_start: "metal_reach dr room s0 s0"
| metal_next: "metal_reach dr room s0 s \<Longrightarrow> metal_room room s \<Longrightarrow> metal_reach dr room s0 (metal_call dr c s)"

definition metal_inv ::
    "('d \<Rightarrow> bool) \<Rightarrow> ('d \<Rightarrow> u64 set) \<Rightarrow> ('d \<Rightarrow> u64 \<Rightarrow> u8 list option) \<Rightarrow> 'd MetalHostSession \<Rightarrow> bool" where
  "metal_inv driver_ok mods mem s \<longleftrightarrow> in_step driver_ok mods mem (ms_driver s) (ms_handles s)"

section \<open>The session over a driver that meets the contract\<close>

locale metal_session =
  device_driver "md_load_module dr" "md_alloc dr" "md_copy_in dr" sl_bytes src_ok "md_copy_out dr" "md_free dr"
    "md_launch_elementwise_add_f32 dr" "md_launch_kernel dr" "md_sync dr" driver_ok room mods mem
  for dr :: "'d MetalDriver" and src_ok driver_ok room mods mem +
  assumes retain_any: "driver_ok d \<Longrightarrow> driver_ok (md_retain_mapped_file dr f d) \<and>
      mods (md_retain_mapped_file dr f d) = mods d \<and> mem (md_retain_mapped_file dr f d) = mem d"
    and launch_bound_any: "driver_ok d \<Longrightarrow> md_launch_kernel_bound dr m entry ts offs spans grid block d = (r, d') \<Longrightarrow>
      driver_ok d' \<and> mods d' = mods d \<and> dom (mem d') = dom (mem d)"
begin

abbreviation inv_s :: "'d MetalHostSession \<Rightarrow> bool" where
  "inv_s \<equiv> metal_inv driver_ok mods mem"

lemma copy_in_frame:
  assumes "driver_ok d" "md_copy_in dr t src d = (r, d')"
  shows "driver_ok d' \<and> mods d' = mods d \<and> dom (mem d') = dom (mem d)"
proof (cases r)
  case (Ok u)
  from copy_in_Ok [OF assms [unfolded Ok]] obtain c where "driver_ok d'" "mods d' = mods d" "t \<in> dom (mem d)"
    "mem d' = (mem d)(t \<mapsto> c)" by blast
  then show ?thesis by (simp add: insert_absorb)
next
  case (Err e)
  from copy_in_Err [OF assms [unfolded Err]] show ?thesis by simp
qed

lemma copy_out_frame:
  assumes "driver_ok d" "md_copy_out dr t len d = (r, d')"
  shows "driver_ok d' \<and> mods d' = mods d \<and> dom (mem d') = dom (mem d)"
  using copy_out_Ok [OF assms(1)] copy_out_Err [OF assms(1)] assms(2) by (cases r) auto

lemma preserves_on_driver:
  assumes "\<And>d r d'. driver_ok d \<Longrightarrow> m d = (r, d') \<Longrightarrow> driver_ok d' \<and> mods d' = mods d \<and> dom (mem d') = dom (mem d)"
  shows "preserves inv_s (metal_on_driver m)"
proof (rule preservesI)
  fix s assume s: "inv_s s"
  then have step: "in_step driver_ok mods mem (ms_driver s) (ms_handles s)" by (simp add: metal_inv_def)
  then have "driver_ok (ms_driver s)" by (simp add: in_step_def)
  note frame = assms [OF this prod.collapse [symmetric]]
  show "inv_s (snd (metal_on_driver m s))"
    using in_step_same [OF step frame] by (simp add: metal_inv_def son_def case_prod_beta)
qed

lemma keeps_driver_launch: "preserves inv_s (metal_on_driver (md_launch_kernel dr m entry ts grid block))"
  by (rule preserves_on_driver) (rule launch_any)

lemma keeps_driver_bound: "preserves inv_s (metal_on_driver (md_launch_kernel_bound dr m entry ts offs spans grid block))"
  by (rule preserves_on_driver) (rule launch_bound_any)

lemma keeps_driver_add: "preserves inv_s (metal_on_driver (md_launch_elementwise_add_f32 dr m a b out len))"
  by (rule preserves_on_driver) (rule launch_add_any)

lemma keeps_driver_in: "preserves inv_s (metal_on_driver (md_copy_in dr t src))"
  by (rule preserves_on_driver) (rule copy_in_frame)

lemma keeps_driver_out: "preserves inv_s (metal_on_driver (md_copy_out dr t len))"
  by (rule preserves_on_driver) (rule copy_out_frame)

lemma keeps_driver_sync: "preserves inv_s (metal_on_driver (md_sync dr))"
  by (rule preserves_on_driver) (use sync_any in auto)

lemmas driver_keeps = keeps_driver_sync keeps_driver_launch keeps_driver_bound keeps_driver_add
  keeps_driver_in keeps_driver_out

lemma keeps_copy_in: "preserves inv_s (metal_copy_in_bytes dr i src dtype)"
proof -
  have retry: "preserves inv_s (\<lambda>s. case m s of (Ok u, s) \<Rightarrow> (Ok (), s) | (Err _, s) \<Rightarrow> m' s)"
    if "preserves inv_s m" "preserves inv_s m'" for m m' :: "('d MetalHostSession, unit, HostError) step"
    using that by (fastforce simp: preserves_def split: prod.split result.split)
  show ?thesis
    unfolding metal_copy_in_bytes_def Let_def
    by (intro keeps) (auto intro!: driver_keeps retry preserves_slift)
qed

lemma keeps_readers:
  "preserves inv_s (metal_readback_bytes dr i dtype)"
  "preserves inv_s (metal_sync dr)"
  "preserves inv_s (metal_launch_kernel_3d dr m entry bufs grid block)"
  "preserves inv_s (metal_launch_kernel_bound dr m entry bs grid block)"
  "preserves inv_s (metal_launch_elementwise_add_f32 dr m a b out)"
  unfolding metal_readback_bytes_def metal_sync_def metal_launch_kernel_3d_def metal_launch_kernel_bound_def
    metal_launch_elementwise_add_f32_def case_prod_beta
  by (intro keeps driver_keeps)+

lemma keeps_retain: "preserves inv_s (metal_retain_mapped_file dr f)"
  unfolding metal_retain_mapped_file_def
proof (intro keeps)
  fix s assume "inv_s s"
  then have step: "in_step driver_ok mods mem (ms_driver s) (ms_handles s)" by (simp add: metal_inv_def)
  then have "driver_ok (ms_driver s)" by (simp add: in_step_def)
  from retain_any [OF this, of f]
  have "in_step driver_ok mods mem (md_retain_mapped_file dr f (ms_driver s)) (ms_handles s)"
    by (intro in_step_same [OF step]) simp
  then show "inv_s (s\<lparr>ms_driver := md_retain_mapped_file dr f (ms_driver s)\<rparr>)"
    by (simp add: metal_inv_def)
qed

text \<open>A step that may register an object, and is refused or fails otherwise.\<close>

lemma inv_create:
  assumes inv: "inv_s s" and room: "metal_room room s"
    and Ok: "\<And>t d'. create (ms_driver s) = (Ok t, d') \<Longrightarrow> driver_ok d' \<and> t \<notin> mods (ms_driver s) \<union> dom (mem (ms_driver s)) \<and>
      mods d' = (if kind = KindModule then insert t (mods (ms_driver s)) else mods (ms_driver s)) \<and>
      dom (mem d') = (if kind = KindModule then dom (mem (ms_driver s)) else insert t (dom (mem (ms_driver s))))"
    and Err: "\<And>e d'. create (ms_driver s) = (Err e, d') \<Longrightarrow>
      driver_ok d' \<and> mods d' = mods (ms_driver s) \<and> mem d' = mem (ms_driver s)"
  shows "inv_s (snd (sthen (metal_on_driver create) (metal_insert kind) s))"
proof -
  have step: "in_step driver_ok mods mem (ms_driver s) (ms_handles s)" and left: "ids_left (ms_handles s)"
    using inv room by (simp_all add: metal_inv_def metal_room_def)
  obtain r d' where run: "create (ms_driver s) = (r, d')" by (cases "create (ms_driver s)")
  show ?thesis
  proof (cases r)
    case [simp]: (Ok t)
    note d' = assms(3) [OF run [unfolded Ok]]
    obtain i reg where ir: "registry_insert kind t (ms_handles s) = (i, reg)" by (metis surj_pair)
    have "in_step driver_ok mods mem d' reg"
      by (rule in_step_insert [OF step left ir]) (use d' in auto)
    then show ?thesis using run ir by (simp add: sthen_def son_def metal_insert_def metal_inv_def)
  next
    case [simp]: (Err e)
    have "in_step driver_ok mods mem d' (ms_handles s)"
      by (rule in_step_same [OF step]) (use assms(4) [OF run [unfolded Err]] in simp)
    then show ?thesis using run by (simp add: sthen_def son_def metal_inv_def)
  qed
qed

lemma inv_load:
  assumes "inv_s s" "metal_room room s"
  shows "inv_s (snd (metal_load_module dr img s))"
proof -
  have ok: "driver_ok (ms_driver s)" "room (ms_driver s)"
    using assms by (simp_all add: metal_inv_def in_step_def metal_room_def)
  have "inv_s (snd (sthen (metal_on_driver (md_load_module dr img)) (metal_insert KindModule) s))"
    by (rule inv_create [OF assms]) (use load_Ok [OF ok] load_Err [OF ok(1)] in auto)
  with assms(1) show ?thesis
    by (simp add: metal_load_module_def sthen_get sthen_lift split: result.split)
qed

lemma inv_alloc:
  assumes "inv_s s" "metal_room room s"
  shows "inv_s (snd (metal_alloc_bytes dr len s))"
proof -
  have ok: "driver_ok (ms_driver s)" "room (ms_driver s)"
    using assms by (simp_all add: metal_inv_def in_step_def metal_room_def)
  have "inv_s (snd (sthen (metal_on_driver (md_alloc dr len)) (metal_insert (KindBuffer len)) s))"
    by (rule inv_create [OF assms]) (use alloc_Ok [OF ok] alloc_Err [OF ok(1)] in auto)
  with assms(1) show ?thesis
    by (simp add: metal_alloc_bytes_def sthen_get sthen_lift split: result.split)
qed

lemma inv_release:
  assumes "inv_s s"
  shows "inv_s (snd (metal_release dr i s))"
proof -
  have step: "in_step driver_ok mods mem (ms_driver s) (ms_handles s)" using assms by (simp add: metal_inv_def)
  obtain h reg where rem: "registry_remove i (ms_handles s) = (h, reg)" by (metis surj_pair)
  show ?thesis
  proof (cases h)
    case None
    with rem assms show ?thesis by (simp add: metal_release_def)
  next
    case (Some h)
    obtain q d' where fr: "md_free dr (rh_token h) (ms_driver s) = (q, d')" by (metis surj_pair)
    have "driver_ok (ms_driver s)" using step by (simp add: in_step_def)
    from in_step_remove [OF step rem [unfolded Some] free_any [OF this fr]]
    show ?thesis using rem Some fr by (simp add: metal_release_def son_def metal_inv_def)
  qed
qed

lemma inv_call:
  assumes "inv_s s" "metal_room room s"
  shows "inv_s (metal_call dr c s)"
proof (cases c)
  case MCallUpload
  with assms show ?thesis by (simp add: metal_inv_def metal_record_weight_upload_def)
qed (simp_all add: keeps_readers [THEN preserves_snd, OF assms(1)] keeps_copy_in [THEN preserves_snd, OF assms(1)]
    keeps_retain [THEN preserves_snd, OF assms(1)] inv_load [OF assms] inv_alloc [OF assms] inv_release [OF assms(1)])

lemma session_reach_inv: "metal_reach dr room s0 s \<Longrightarrow> inv_s s0 \<Longrightarrow> inv_s s"
  by (induction rule: metal_reach.induct) (auto intro: inv_call)

lemma live_handles:
  assumes "inv_s s"
  shows "metal_live_handle_count s = card (mods (ms_driver s)) + card (dom (mem (ms_driver s)))"
  using assms in_step_count [of driver_ok mods mem "ms_driver s" "ms_handles s"]
  by (simp add: metal_inv_def metal_live_handle_count_def)

text \<open>A slice of the length of its buffer is read back as it is, copied or wrapped.\<close>

lemma bytes_roundtrip:
  assumes "inv_s s" "src_ok (ms_driver s) src" "metal_buffer_token i s = Ok (t, length (sl_bytes src))"
    and cp: "metal_copy_in_bytes dr i src dtype s = (Ok u, s1)"
    and rb: "metal_readback_bytes dr i dtype s1 = (Ok out, s2)"
  shows "out = sl_bytes src"
proof -
  have ok: "driver_ok (ms_driver s)" using assms(1) by (simp add: metal_inv_def in_step_def)
  have "metal_on_driver (md_copy_in dr t src) s = (Ok u, s1)"
    using cp assms(3) by (auto simp: metal_copy_in_bytes_def flow sget_def)
  then obtain d1 where d1: "md_copy_in dr t src (ms_driver s) = (Ok u, d1)" "s1 = s\<lparr>ms_driver := d1\<rparr>"
    by (auto simp: son_def split: prod.splits)
  from copy_in_Ok [OF ok d1(1)] assms(2) obtain c
    where ok1: "driver_ok d1" and c: "mem d1 t = Some c" "take (length (sl_bytes src)) c = sl_bytes src" by auto
  have tok1: "metal_buffer_token i s1 = Ok (t, length (sl_bytes src))"
    using assms(3) by (simp add: d1 metal_buffer_token_def)
  obtain q d2 where co: "md_copy_out dr t (length (sl_bytes src)) d1 = (q, d2)" by (metis surj_pair)
  then have "q = Ok out"
    using rb tok1 by (auto simp: metal_readback_bytes_def flow sget_def slift_def son_def d1(2))
  from copy_out_Ok [OF ok1 co [unfolded this]] c show ?thesis by auto
qed

end

section \<open>A released handle\<close>

definition handles_step :: "'k HandleRegistry \<Rightarrow> 'k HandleRegistry \<Rightarrow> bool" where
  "handles_step r r' \<longleftrightarrow>
     r' = r \<or> (\<exists>kind t. r' = snd (registry_insert kind t r)) \<or> (\<exists>i. r' = snd (registry_remove i r))"

lemma handles_step_refl [simp]: "handles_step r r"
  by (simp add: handles_step_def)

lemma metal_on_driver_handles [simp]: "ms_handles (snd (metal_on_driver m s)) = ms_handles s"
  by (simp add: son_def split: prod.split)

lemma metal_keeps_handles:
  "preserves (\<lambda>s. ms_handles s = r) (metal_readback_bytes dr i dtype)"
  "preserves (\<lambda>s. ms_handles s = r) (metal_sync dr)"
  "preserves (\<lambda>s. ms_handles s = r) (metal_retain_mapped_file dr f)"
  "preserves (\<lambda>s. ms_handles s = r) (metal_launch_kernel_3d dr m entry bufs grid block)"
  "preserves (\<lambda>s. ms_handles s = r) (metal_launch_kernel_bound dr m entry bs grid block)"
  "preserves (\<lambda>s. ms_handles s = r) (metal_launch_elementwise_add_f32 dr m a b out)"
  unfolding metal_readback_bytes_def metal_sync_def metal_retain_mapped_file_def metal_launch_kernel_3d_def
    metal_launch_kernel_bound_def metal_launch_elementwise_add_f32_def case_prod_beta
  by (intro keeps preservesI; simp)+

lemma metal_copy_in_handles: "ms_handles (snd (metal_copy_in_bytes dr i src dtype s)) = ms_handles s"
proof -
  have on: "ms_handles t = ms_handles s" if "metal_on_driver m s = (r, t)"
    for m :: "('a, 'b, HostError) step" and r t
    using metal_on_driver_handles [of m s] that by simp
  show ?thesis
    by (simp add: metal_copy_in_bytes_def sthen_get slift_apply Let_def split: result.split prod.split)
       (auto dest: on)
qed

lemma metal_create_handles:
  "handles_step (ms_handles s) (ms_handles (snd (sthen (metal_on_driver create) (metal_insert kind) s)))"
  by (auto simp: sthen_def son_def handles_step_def metal_insert_def registry_insert_def split: prod.split result.split)

lemma metal_call_handles: "handles_step (ms_handles s) (ms_handles (metal_call dr c s))"
proof -
  note same = metal_keeps_handles [THEN preserves_snd, OF refl]
  show ?thesis
  proof (cases c)
    case MCallLoad
    then show ?thesis
      by (simp add: metal_load_module_def sthen_get sthen_lift metal_create_handles split: result.split)
  next
    case MCallAlloc
    then show ?thesis
      by (simp add: metal_alloc_bytes_def sthen_get sthen_lift metal_create_handles split: result.split)
  next
    case (MCallRelease i)
    obtain h reg where rem: "registry_remove i (ms_handles s) = (h, reg)" by (metis surj_pair)
    then have "reg = snd (registry_remove i (ms_handles s))" by simp
    then have "handles_step (ms_handles s) reg" unfolding handles_step_def by blast
    with rem MCallRelease show ?thesis by (cases h) (simp_all add: metal_release_def)
  next
    case MCallUpload
    then show ?thesis by (simp add: metal_record_weight_upload_def)
  qed (simp_all add: same metal_copy_in_handles)
qed

lemma handles_step_dead:
  assumes "handles_step r r'" "dead_id i r" "ids_left r" "bmap_ok (hr_handles r)"
  shows "dead_id i r'" "bmap_ok (hr_handles r')"
  using assms dead_insert [OF assms(2-4)] dead_remove [OF assms(2)]
  by (auto simp: handles_step_def registry_insert_def registry_remove_def)

lemma metal_reach_dead:
  assumes "metal_reach dr room s0 s" "dead_id i (ms_handles s0)" "bmap_ok (hr_handles (ms_handles s0))"
  shows "dead_id i (ms_handles s) \<and> bmap_ok (hr_handles (ms_handles s))"
  using assms
proof (induction rule: metal_reach.induct)
  case (metal_next s c)
  then have "dead_id i (ms_handles s)" "ids_left (ms_handles s)" "bmap_ok (hr_handles (ms_handles s))"
    by (simp_all add: metal_room_def)
  from handles_step_dead [OF metal_call_handles this] show ?case by blast
qed simp

lemma metal_dead_tokens:
  assumes "dead_id i (ms_handles s)"
  shows "metal_module_token i s = Err (metal_invalid_handle i)" "metal_buffer_token i s = Err (metal_invalid_handle i)"
    "metal_release dr i s = (Err (metal_invalid_handle i), s)"
  using assms by (simp_all add: dead_id_def metal_module_token_def metal_buffer_token_def metal_release_def
      registry_remove_def registry_get_def)

lemma metal_release_dead:
  assumes "metal_inv driver_ok mods mem s" "metal_release dr i s = (r, s')" "registry_get i (ms_handles s) \<noteq> None"
  shows "dead_id i (ms_handles s')"
proof -
  have "dead_id i (snd (registry_remove i (ms_handles s)))"
    using assms(1,3) by (auto simp: metal_inv_def intro: removed_dead)
  moreover have "ms_handles s' = snd (registry_remove i (ms_handles s))"
  proof -
    obtain h reg where rem: "registry_remove i (ms_handles s) = (Some h, reg)"
      using assms(3) by (auto simp: registry_remove_def registry_get_def)
    with assms(2) have "s' = snd (metal_on_driver (md_free dr (rh_token h)) (s\<lparr>ms_handles := reg\<rparr>))"
      by (simp add: metal_release_def)
    with rem show ?thesis by simp
  qed
  ultimately show ?thesis by simp
qed

section \<open>The fake\<close>

interpretation fake_metal_session:
  metal_session "fake_metal fl" fake_metal_src fake_metal_ok fake_metal_room fake_metal_mods fake_metal_mem for fl
proof unfold_locales
  fix d d' :: FakeMetalDriver and img bytes len t e u src m entry ts offs spans grid block a b out r f
  assume ok: "fake_metal_ok d"
  show "fake_metal_room d \<Longrightarrow> md_load_module (fake_metal fl) img d = (Ok t, d') \<Longrightarrow>
      fake_metal_ok d' \<and> t \<notin> fake_metal_mods d \<union> dom (fake_metal_mem d) \<and>
      fake_metal_mods d' = insert t (fake_metal_mods d) \<and> fake_metal_mem d' = fake_metal_mem d"
    using fake_metal_load(1) [OF ok _ refl] by (simp add: fake_metal_def)
  show "md_load_module (fake_metal fl) img d = (Err e, d') \<Longrightarrow>
      fake_metal_ok d' \<and> fake_metal_mods d' = fake_metal_mods d \<and> fake_metal_mem d' = fake_metal_mem d"
    using fake_metal_load(2) [OF ok _ refl] by (simp add: fake_metal_def)
  show "fake_metal_room d \<Longrightarrow> md_alloc (fake_metal fl) len d = (Ok t, d') \<Longrightarrow>
      fake_metal_ok d' \<and> t \<notin> fake_metal_mods d \<union> dom (fake_metal_mem d) \<and> fake_metal_mods d' = fake_metal_mods d \<and>
      fake_metal_mem d' = (fake_metal_mem d)(t \<mapsto> replicate len 0)"
    using fake_metal_alloc(1) [OF ok _ refl] by (simp add: fake_metal_def)
  show "md_alloc (fake_metal fl) len d = (Err e, d') \<Longrightarrow>
      fake_metal_ok d' \<and> fake_metal_mods d' = fake_metal_mods d \<and> fake_metal_mem d' = fake_metal_mem d"
    using fake_metal_alloc(2) [OF ok _ refl] by (simp add: fake_metal_def)
  show "md_copy_in (fake_metal fl) t src d = (Ok u, d') \<Longrightarrow>
      fake_metal_ok d' \<and> fake_metal_mods d' = fake_metal_mods d \<and> t \<in> dom (fake_metal_mem d) \<and>
      (\<exists>c. fake_metal_mem d' = (fake_metal_mem d)(t \<mapsto> c) \<and>
        (fake_metal_src d src \<longrightarrow> take (length (sl_bytes src)) c = sl_bytes src))"
    using fake_metal_copy_in(1) [OF ok _ refl] by (simp add: fake_metal_def)
  show "md_copy_in (fake_metal fl) t src d = (Err e, d') \<Longrightarrow>
      fake_metal_ok d' \<and> fake_metal_mods d' = fake_metal_mods d \<and> fake_metal_mem d' = fake_metal_mem d"
    using fake_metal_copy_in(2) [OF ok _ refl] by (simp add: fake_metal_def)
  show "md_copy_out (fake_metal fl) t len d = (Ok bytes, d') \<Longrightarrow>
      fake_metal_ok d' \<and> fake_metal_mods d' = fake_metal_mods d \<and> fake_metal_mem d' = fake_metal_mem d \<and>
      (\<exists>c. fake_metal_mem d t = Some c \<and> bytes = take len c)"
    using fake_metal_copy_out [OF ok] by (simp add: fake_metal_def)
  show "md_copy_out (fake_metal fl) t len d = (Err e, d') \<Longrightarrow>
      fake_metal_ok d' \<and> fake_metal_mods d' = fake_metal_mods d \<and> fake_metal_mem d' = fake_metal_mem d"
    using fake_metal_copy_out(1) [OF ok] by (simp add: fake_metal_def)
  show "md_free (fake_metal fl) t d = (r, d') \<Longrightarrow>
      fake_metal_ok d' \<and> fake_metal_mods d' = fake_metal_mods d - {t} \<and> fake_metal_mem d' = (fake_metal_mem d)(t := None)"
    using fake_metal_free [OF ok] by (simp add: fake_metal_def)
  show "md_launch_kernel (fake_metal fl) m entry ts grid block d = (r, d') \<Longrightarrow>
      fake_metal_ok d' \<and> fake_metal_mods d' = fake_metal_mods d \<and> dom (fake_metal_mem d') = dom (fake_metal_mem d)"
    using metal_frameD [OF metal_frame_launch ok] by (simp add: fake_metal_def md_launch_kernel_def Let_def)
  show "md_launch_kernel_bound (fake_metal fl) m entry ts offs spans grid block d = (r, d') \<Longrightarrow>
      fake_metal_ok d' \<and> fake_metal_mods d' = fake_metal_mods d \<and> dom (fake_metal_mem d') = dom (fake_metal_mem d)"
    using metal_frameD [OF metal_frame_launch ok] by (simp add: fake_metal_def)
  show "md_launch_elementwise_add_f32 (fake_metal fl) m a b out len d = (r, d') \<Longrightarrow>
      fake_metal_ok d' \<and> fake_metal_mods d' = fake_metal_mods d \<and> dom (fake_metal_mem d') = dom (fake_metal_mem d)"
    using metal_frameD [OF metal_frame_launch_add ok] by (simp add: fake_metal_def)
  show "md_sync (fake_metal fl) d = (r, d') \<Longrightarrow>
      fake_metal_ok d' \<and> fake_metal_mods d' = fake_metal_mods d \<and> fake_metal_mem d' = fake_metal_mem d"
    unfolding fake_metal_def MetalDriver.simps fm_sync_def
    by (erule fm_maybe_fail_cases) (use ok in \<open>auto simp: smodify_def\<close>)
  show "fake_metal_ok (md_retain_mapped_file (fake_metal fl) f d) \<and>
      fake_metal_mods (md_retain_mapped_file (fake_metal fl) f d) = fake_metal_mods d \<and>
      fake_metal_mem (md_retain_mapped_file (fake_metal fl) f d) = fake_metal_mem d"
    using ok by (simp add: fake_metal_def fm_retain_mapped_file_def fake_metal_views)
qed

section \<open>A fresh fake, opened\<close>

definition fake_metal_configured :: "FakeMetalDriver \<Rightarrow> bool" where
  "fake_metal_configured d \<longleftrightarrow>
     d\<lparr>fm_force_unavailable := False, fm_known_entries := [], fm_fail_at := []\<rparr> = fake_metal_default"

lemma fake_metal_configured_built:
  "fake_metal_configured fake_metal_default" "fake_metal_configured fake_metal_unavailable"
  "fake_metal_configured d \<Longrightarrow> fake_metal_configured (fm_with_known_entry entry d)"
  "fake_metal_configured d \<Longrightarrow> fake_metal_configured (fm_with_failure_at stage call d)"
  by (simp_all add: fake_metal_configured_def fake_metal_default_def fake_metal_unavailable_def fm_with_known_entry_def
      fm_with_failure_at_def)

lemma fake_metal_open_inv:
  assumes "fake_metal_configured d" "metal_with_driver (fake_metal fl) d = Ok s"
  shows "metal_inv fake_metal_ok fake_metal_mods fake_metal_mem s"
proof -
  obtain known fail unavailable where d: "d = fake_metal_default\<lparr>fm_known_entries := known,
      fm_fail_at := fail, fm_force_unavailable := unavailable\<rparr>"
    using assms(1) by (cases d) (simp add: fake_metal_configured_def fake_metal_default_def)
  have "fake_metal_ok d" "fake_metal_mods d = {}" "fake_metal_mem d = Map.empty"
    by (simp_all add: d fake_metal_views fake_metal_default_def)
  moreover have "s = \<lparr>ms_driver = d, ms_handles = HandleRegistry_new, ms_admitted = True, ms_uploads = 0\<rparr>"
    using assms(2) by (auto simp: metal_with_driver_def fake_metal_def fm_discover_def slift_apply split: if_splits)
  ultimately show ?thesis
    using in_step_new [of fake_metal_ok d fake_metal_mods fake_metal_mem] by (simp add: metal_inv_def)
qed

lemma metal_inv_bmap: "metal_inv driver_ok mods mem s \<Longrightarrow> bmap_ok (hr_handles (ms_handles s))"
  by (auto simp: metal_inv_def intro: in_step_map)

fun metal_runs :: "'d MetalDriver \<Rightarrow> ('d \<Rightarrow> bool) \<Rightarrow> MetalCall list \<Rightarrow> 'd MetalHostSession \<Rightarrow> bool" where
  "metal_runs dr room [] s \<longleftrightarrow> True"
| "metal_runs dr room (c # cs) s \<longleftrightarrow> metal_room room s \<and> metal_runs dr room cs (metal_call dr c s)"

lemma metal_reach_runs:
  "metal_reach dr room s0 s \<Longrightarrow> metal_runs dr room cs s \<Longrightarrow> metal_reach dr room s0 (fold (metal_call dr) cs s)"
  by (induction cs arbitrary: s) (auto intro: metal_reach.intros)

section \<open>Reading back\<close>

lemma fake_metal_copied:
  assumes "fm_copy_in t src d = (Ok u, d')" "fake_metal_ok d" "fake_metal_src d src"
  obtains slot where "bmap_get (fm_buffers d') t = Some slot"
    "unat (fb_region_offset slot) + length (sl_bytes src) \<le> length (fb_bytes slot)"
    "length (fb_bytes slot) < 2 ^ 64" "take (length (sl_bytes src)) (slot_contents slot) = sl_bytes src"
proof -
  have ok: "bmap_ok (fm_buffers d)" using assms(2) by (simp add: fake_metal_ok_def)
  have len: "length (sl_bytes src) < 2 ^ 64" and maps: "\<forall>f\<in>set (fm_maps d). map_fits f \<and> slice_of src f"
    using assms(3) by (simp_all add: fake_metal_src_def)
  show ?thesis
    using assms(1) unfolding fm_copy_in_def
  proof (cases rule: fm_maybe_fail_cases)
    case (2 c)
    then obtain slot where slot: "bmap_get (fm_buffers d) t = Some slot"
      by (cases "bmap_get (fm_buffers d) t") auto
    show ?thesis
    proof (cases "mapped_wrap_for (fm_maps d) src")
      case (Some w)
      define page where "page = wrapped_bytes (fm_maps d) w"
      have "bmap_get (fm_buffers d') t = Some (slot\<lparr>fb_bytes := page, fb_region_offset := mw_offset w\<rparr>)"
        using 2 slot Some ok by (auto simp: page_def)
      moreover have part: "take (length (sl_bytes src)) (drop (unat (mw_offset w)) page) = sl_bytes src"
        using wrapped_slice [OF Some maps len] by (simp add: page_def)
      moreover have "sl_bytes src \<noteq> []"
        using Some by (auto simp: mapped_wrap_for_def split: option.splits if_splits)
      with arg_cong [OF part, of length] have "unat (mw_offset w) + length (sl_bytes src) \<le> length page"
        by (cases "unat (mw_offset w) \<le> length page") auto
      moreover have "length page < 2 ^ 64"
        using unat_u64_lt [of "mw_page_len w"]
        by (simp add: page_def wrapped_bytes_def min_less_iff_disj split: option.split)
      ultimately show ?thesis
        by (rule_tac that [of "slot\<lparr>fb_bytes := page, fb_region_offset := mw_offset w\<rparr>"])
           (simp_all add: slot_contents_def)
    next
      case None
      then have "bmap_get (fm_buffers d') t = Some (slot\<lparr>fb_bytes := sl_bytes src\<rparr>)" "fb_region_offset slot = 0"
        using 2 slot ok by (auto split: if_splits)
      with len show ?thesis
        by (rule_tac that [of "slot\<lparr>fb_bytes := sl_bytes src\<rparr>"]) (simp_all add: slot_contents_def)
    qed
  qed simp
qed

lemma fake_metal_readback:
  assumes "metal_inv fake_metal_ok fake_metal_mods fake_metal_mem s" "fake_metal_src (ms_driver s) src"
    and "metal_buffer_token i s = Ok (t, length (sl_bytes src))"
    and "metal_copy_in_bytes (fake_metal fl) i src dtype s = (Ok u, s1)"
    and "bmap_get (fm_fail_at (ms_driver s1)) StageReadback = None"
  shows "fst (metal_readback_bytes (fake_metal fl) i dtype' s1) = Ok (sl_bytes src)"
proof -
  let ?n = "length (sl_bytes src)"
  have adm: "ms_admitted s"
    using assms(4) by (auto simp: metal_copy_in_bytes_def flow sget_def metal_require_admitted_def ensure_def split: if_splits)
  have "metal_on_driver (md_copy_in (fake_metal fl) t src) s = (Ok u, s1)"
    using assms(3,4) by (auto simp: metal_copy_in_bytes_def flow sget_def)
  then obtain d1 where d1: "fm_copy_in t src (ms_driver s) = (Ok u, d1)" and s1: "s1 = s\<lparr>ms_driver := d1\<rparr>"
    by (auto simp: son_def fake_metal_def split: prod.splits)
  have "fake_metal_ok (ms_driver s)" using assms(1) by (simp add: metal_inv_def in_step_def)
  from fake_metal_copied [OF d1 this assms(2)] obtain slot where slot: "bmap_get (fm_buffers d1) t = Some slot"
    "unat (fb_region_offset slot) + ?n \<le> length (fb_bytes slot)" "length (fb_bytes slot) < 2 ^ 64"
    "take ?n (slot_contents slot) = sl_bytes src" .
  have flushed: "fm_buffers (fm_flush_pending d1) = fm_buffers d1" "fm_fail_at (fm_flush_pending d1) = fm_fail_at d1"
    by (simp_all add: fm_flush_pending_def)
  have "\<exists>d2. fm_copy_out t ?n d1 = (Ok (sl_bytes src), d2)"
    using slot assms(5)
    by (simp add: fm_copy_out_def fm_maybe_fail_def s1 flushed sthen_def smodify_def sget_def slift_apply ok_or_def
        ensure_def slot_contents_def Let_def split: prod.split)
  then obtain d2 where "fm_copy_out t ?n d1 = (Ok (sl_bytes src), d2)" by blast
  moreover have "metal_buffer_token i s1 = Ok (t, ?n)" using assms(3) by (simp add: s1 metal_buffer_token_def)
  ultimately show ?thesis
    using adm by (simp add: metal_readback_bytes_def metal_require_admitted_def s1 sthen_def son_def sget_def
        fake_metal_def slift_apply ensure_def)
qed

end
