(* ===== verification/Sample_Device.thy ===== *)
theory Sample_Device
  imports Cuda_Safety Metal_Safety
begin

text \<open>
  Concrete sessions for the witnesses of the device sessions: a CUDA session on the fake that has
  loaded a module through the cache, allocated a buffer and released another, and a Metal session that
  retains one mapped file of three pages of four bytes and owns one buffer.
\<close>

definition sample_float :: Float32 where
  "sample_float = \<lparr>f32_add = (+), f32_mul = (*)\<rparr>"

lemmas run_step = sthen_get sthen_lift sthen_simps sthen_def son_def slift_apply sget_def smodify_def ensure_def
  registry_insert_def registry_get_def HandleRegistry_new_def count_stage_call_def Let_def

section \<open>CUDA\<close>

definition cuda_session0 :: "FakeCudaDriver CudaHostSession" where
  "cuda_session0 = \<lparr>cs_driver = fake_cuda_default, cs_handles = HandleRegistry_new, cs_module_cache = [],
     cs_admitted = True, cs_uploads = 0\<rparr>"

definition cuda_sample_calls :: "CudaCall list" where
  "cuda_sample_calls = [CallAlloc 8, CallLoadCached [7], CallAlloc 4]"

lemmas run_cuda = run_step cuda_alloc_bytes_def cuda_load_cached_module_def cuda_load_module_def cuda_insert_def
  cuda_require_admitted_def cached_module_def cache_push_def fake_cuda_def fc_alloc_def fc_load_module_def
  fc_maybe_fail_def fake_cuda_default_def cuda_room_def fake_cuda_room_def cuda_session0_def cuda_sample_calls_def

lemmas run_cuda_copy = cuda_copy_in_f32_def cuda_copy_in_bytes_def cuda_buffer_token_def fc_copy_in_def fc_buffer_def
  fc_write_def ok_or_def u32_to_le_bytes_def

definition cuda_session1 :: "FakeCudaDriver CudaHostSession" where
  "cuda_session1 = fold (cuda_call (fake_cuda sample_float)) cuda_sample_calls cuda_session0"

lemma cuda_session0_open: "cuda_with_driver (fake_cuda sample_float) fake_cuda_default = Ok cuda_session0"
  by (simp add: cuda_with_driver_def cuda_from_driver_def fake_cuda_def fc_discover_def fake_cuda_default_def
      cuda_session0_def slift_apply)

lemma cuda_session1_runs: "cuda_runs (fake_cuda sample_float) fake_cuda_room cuda_sample_calls cuda_session0"
  by (simp add: run_cuda)

lemma cuda_session1_reached: "cuda_reach (fake_cuda sample_float) fake_cuda_room cuda_session0 cuda_session1"
  unfolding cuda_session1_def by (rule cuda_reach_runs [OF cuda_start cuda_session1_runs])

section \<open>Metal\<close>

definition sample_mapping :: MappedWeightFile where
  "sample_mapping = \<lparr>mf_ptr = 4096, mf_file_len = 10, mf_page_size = 4, mf_pages = [1, 2, 3, 4, 5, 6, 7, 8, 9, 10, 0, 0]\<rparr>"

definition sample_slice :: ByteSlice where
  "sample_slice = \<lparr>sl_addr = Some 4099, sl_bytes = [4, 5, 6, 7]\<rparr>"

definition metal_session0 :: "FakeMetalDriver MetalHostSession" where
  "metal_session0 = \<lparr>ms_driver = fake_metal_default, ms_handles = HandleRegistry_new, ms_admitted = True, ms_uploads = 0\<rparr>"

definition metal_sample_calls :: "MetalCall list" where
  "metal_sample_calls = [MCallRetain sample_mapping, MCallAlloc 4, MCallLoad [1]]"

lemmas run_metal = run_step metal_alloc_bytes_def metal_load_module_def metal_insert_def metal_retain_mapped_file_def
  metal_require_admitted_def fake_metal_def fm_alloc_def fm_load_module_def fm_retain_mapped_file_def
  fm_maybe_fail_def fake_metal_default_def metal_room_def ids_left_def fake_metal_room_def metal_session0_def
  metal_sample_calls_def

definition metal_session1 :: "FakeMetalDriver MetalHostSession" where
  "metal_session1 = fold (metal_call (fake_metal sample_float)) metal_sample_calls metal_session0"

lemma metal_session0_open: "metal_with_driver (fake_metal sample_float) fake_metal_default = Ok metal_session0"
  by (simp add: metal_with_driver_def fake_metal_def fm_discover_def fake_metal_default_def
      metal_session0_def slift_apply)

lemma metal_session1_runs: "metal_runs (fake_metal sample_float) fake_metal_room metal_sample_calls metal_session0"
  by (simp add: run_metal)

lemma metal_session1_reached: "metal_reach (fake_metal sample_float) fake_metal_room metal_session0 metal_session1"
  unfolding metal_session1_def by (rule metal_reach_runs [OF metal_start metal_session1_runs])

lemma sample_source: "fake_metal_src (ms_driver metal_session1) sample_slice"
  by (simp add: run_metal metal_session1_def fake_metal_src_def sample_slice_def sample_mapping_def map_fits_def
      slice_of_def mapped_contains_def slice_len_def mapped_len_def)

lemma sample_buffer: "metal_buffer_token 1 metal_session1 = Ok (0, length (sl_bytes sample_slice))"
  by (simp add: run_metal metal_session1_def metal_buffer_token_def sample_slice_def)

lemma sample_wrap:
  "mapped_wrap_for [sample_mapping] sample_slice = Some \<lparr>mw_ptr = 4096, mw_page_len = 8, mw_offset = 3\<rparr>"
  by (simp add: mapped_wrap_for_def sample_mapping_def sample_slice_def mapped_contains_def slice_len_def
      mapped_len_def wrap_in_def is_power_of_two_def div_ceil_def saturating_add_def saturating_mul_def
      saturating_sub_def Let_def)

lemma sample_wrapped_bytes:
  "wrapped_bytes [sample_mapping] \<lparr>mw_ptr = 4096, mw_page_len = 8, mw_offset = 3\<rparr> = [1, 2, 3, 4, 5, 6, 7, 8]"
  by (simp add: wrapped_bytes_def sample_mapping_def mapped_contains_def mapped_len_def saturating_add_def Let_def)

definition metal_session2 :: "FakeMetalDriver MetalHostSession" where
  "metal_session2 = snd (metal_copy_in_bytes (fake_metal sample_float) 1 sample_slice DtF32 metal_session1)"

lemma sample_copied:
  "metal_copy_in_bytes (fake_metal sample_float) 1 sample_slice DtF32 metal_session1 = (Ok (), metal_session2)"
  "fm_mmap_wraps (ms_driver metal_session2) = 1"
  "fst (metal_readback_bytes (fake_metal sample_float) 1 DtF32 metal_session2) = Ok [4, 5, 6, 7]"
  unfolding metal_session2_def using sample_wrap sample_wrapped_bytes
  by (simp_all add: run_metal metal_session1_def metal_copy_in_bytes_def metal_buffer_token_def fm_copy_in_def
      sample_slice_def metal_readback_bytes_def fm_copy_out_def fm_flush_pending_def ok_or_def split: prod.split)

end
