(* ===== verification/Inference_State.thy ===== *)
theory Inference_State
  imports State_Flow Device_Types
begin

text \<open>
  The sequence machine of a model session, \<open>macos-arm64/src/composite_host/inference_state.rs\<close>:
  capacity, committed length, epoch and phase of one sequence; invocations are planned without
  touching the machine, committed, poisoned or reset. A method that takes \<open>&mut self\<close> is a step of
  State_Flow, a method that takes \<open>&self\<close> a function of the state.
\<close>

section \<open>Errors, modes and phases\<close>

definition E_KV_OVERFLOW :: string where
  "E_KV_OVERFLOW = ''E_KV_OVERFLOW''"

definition E_KV_PHASE :: string where
  "E_KV_PHASE = ''E_KV_PHASE''"

definition E_KV_POISONED :: string where
  "E_KV_POISONED = ''E_KV_POISONED''"

definition E_KV_RELEASED :: string where
  "E_KV_RELEASED = ''E_KV_RELEASED''"

definition E_KV_STALE :: string where
  "E_KV_STALE = ''E_KV_STALE''"

definition E_INVALID_ARGS :: string where
  "E_INVALID_ARGS = ''E_INVALID_ARGS''"

record SessionError =
  se_code :: string
  se_message :: string

definition SessionError_new :: "string \<Rightarrow> string \<Rightarrow> SessionError" where
  "SessionError_new code msg = \<lparr>se_code = code, se_message = msg\<rparr>"

definition session_overflow :: "u32 \<Rightarrow> u32 \<Rightarrow> u32 \<Rightarrow> SessionError" where
  "session_overflow prefix_before query_rows capacity =
     SessionError_new E_KV_OVERFLOW
       (''KV overflow: prefix_before='' @ display_u32 prefix_before @ '' + query_rows='' @
        display_u32 query_rows @ '' exceeds capacity='' @ display_u32 capacity)"

definition session_phase_error :: "string \<Rightarrow> SessionError" where
  "session_phase_error msg = SessionError_new E_KV_PHASE msg"

datatype FailureStage = StageCursorUpload | StageDispatch | StageSynchronize | StageOutput

fun FailureStage_debug :: "FailureStage \<Rightarrow> string" where
  "FailureStage_debug StageCursorUpload = ''CursorUpload''"
| "FailureStage_debug StageDispatch = ''Dispatch''"
| "FailureStage_debug StageSynchronize = ''Sync''"
| "FailureStage_debug StageOutput = ''Readback''"

definition session_poisoned :: "u32 \<Rightarrow> FailureStage \<Rightarrow> SessionError" where
  "session_poisoned epoch stage =
     SessionError_new E_KV_POISONED
       (''sequence epoch '' @ display_u32 epoch @ '' is poisoned at '' @ FailureStage_debug stage @
        ''; only receipt inspection and release are legal'')"

definition session_released :: SessionError where
  "session_released =
     SessionError_new E_KV_RELEASED ''sequence is released; only receipt inspection is legal''"

definition session_stale :: "string \<Rightarrow> SessionError" where
  "session_stale msg = SessionError_new E_KV_STALE msg"

definition session_invalid_args :: "string \<Rightarrow> SessionError" where
  "session_invalid_args msg = SessionError_new E_INVALID_ARGS msg"

definition SessionError_display :: "SessionError \<Rightarrow> string" where
  "SessionError_display e = se_code e @ '': '' @ se_message e"

datatype InvocationMode = ModePrefill | ModeScalarDecode | ModeVerification

datatype SequencePhase =
    PhaseFresh
  | PhasePrefill
  | PhaseDecode
  | PhasePoisoned u32 FailureStage

fun SequencePhase_debug :: "SequencePhase \<Rightarrow> string" where
  "SequencePhase_debug PhaseFresh = ''Fresh''"
| "SequencePhase_debug PhasePrefill = ''Prefill''"
| "SequencePhase_debug PhaseDecode = ''Decode''"
| "SequencePhase_debug (PhasePoisoned epoch stage) =
     ''Poisoned { epoch: '' @ display_u32 epoch @ '', failure_stage: '' @ FailureStage_debug stage @ '' }''"

section \<open>Plans and transactions\<close>

definition u32_checked_add :: "u32 \<Rightarrow> u32 \<Rightarrow> u32 option" where
  "u32_checked_add a b = (if unat a + unat b < 2 ^ 32 then Some (a + b) else None)"

record CursorFacts =
  cf_prefix_before :: u32
  cf_query_rows :: u32
  cf_write_position :: u32
  cf_valid_len_after :: u32
  cf_capacity :: u32
  cf_query_start :: u32

definition causal_end_exclusive :: "CursorFacts \<Rightarrow> u32 \<Rightarrow> (u32, SessionError) result" where
  "causal_end_exclusive c query_row =
     (if cf_query_rows c \<le> query_row then
        Err (session_invalid_args (''query row '' @ display_u32 query_row @
          '' is outside query_rows='' @ display_u32 (cf_query_rows c)))
      else ok_or (Option.bind (u32_checked_add (cf_prefix_before c) query_row)
             (\<lambda>position. u32_checked_add position 1))
           (session_overflow (cf_prefix_before c) (cf_query_rows c) (cf_capacity c)))"

record PlannedInvocation =
  pi_mode :: InvocationMode
  pi_coordinates :: CursorFacts
  pi_sequence_epoch :: u32

record CandidateRows =
  cr_start :: u32
  cr_rows :: u32
  cr_capacity :: u32

definition candidate_position :: "CandidateRows \<Rightarrow> u32 \<Rightarrow> (u32, SessionError) result" where
  "candidate_position c row =
     (if cr_rows c \<le> row then
        Err (session_invalid_args (''candidate row '' @ display_u32 row @ '' is outside rows='' @
          display_u32 (cr_rows c)))
      else Ok (cr_start c + row))"

datatype VerificationCommit = AbortedZero | VerificationCommitted u32 CursorFacts

record InvocationTransaction =
  it_plan :: PlannedInvocation
  it_possible_mutation :: "FailureStage option"

definition is_pre_dispatch :: "InvocationTransaction \<Rightarrow> bool" where
  "is_pre_dispatch tx \<longleftrightarrow> it_possible_mutation tx = None"

definition candidate_rows :: "InvocationTransaction \<Rightarrow> CandidateRows" where
  "candidate_rows tx = (let c = pi_coordinates (it_plan tx) in
     \<lparr>cr_start = cf_query_start c, cr_rows = cf_query_rows c, cr_capacity = cf_capacity c\<rparr>)"

definition record_possible_mutation :: "FailureStage \<Rightarrow> InvocationTransaction \<Rightarrow> InvocationTransaction" where
  "record_possible_mutation stage tx = tx\<lparr>it_possible_mutation := Some stage\<rparr>"

record ResetReceipt =
  rr_previous_epoch :: u32
  rr_sequence_epoch :: u32
  rr_previous_valid_len :: u32
  rr_valid_len :: u32
  rr_capacity :: u32
  rr_cache_cleared :: bool
  rr_buffers_zero_filled :: bool
  rr_uploads :: u32

datatype FailureOutcome = OutcomeUnchanged | OutcomePoisoned u32 FailureStage

section \<open>The machine\<close>

record InferenceSessionState =
  is_capacity :: u32
  is_valid_len :: u32
  is_epoch :: u32
  is_phase :: SequencePhase
  is_released :: bool
  is_last_commit :: "CursorFacts option"
  is_poisoned_invocation :: "PlannedInvocation option"

record SessionInspection =
  si_phase :: SequencePhase
  si_capacity :: u32
  si_valid_len :: u32
  si_sequence_epoch :: u32
  si_last_commit :: "CursorFacts option"
  si_poisoned_invocation :: "PlannedInvocation option"
  si_released :: bool

type_synonym 'a sequence_step = "(InferenceSessionState, 'a, SessionError) step"

definition sequence_new :: "u32 \<Rightarrow> (InferenceSessionState, SessionError) result" where
  "sequence_new capacity =
     (if capacity = 0 then Err (session_invalid_args ''sequence capacity must be at least 1'')
      else Ok \<lparr>is_capacity = capacity, is_valid_len = 0, is_epoch = 1, is_phase = PhaseFresh,
        is_released = False, is_last_commit = None, is_poisoned_invocation = None\<rparr>)"

definition sequence_inspect :: "InferenceSessionState \<Rightarrow> SessionInspection" where
  "sequence_inspect s =
     \<lparr>si_phase = is_phase s, si_capacity = is_capacity s, si_valid_len = is_valid_len s,
      si_sequence_epoch = is_epoch s, si_last_commit = is_last_commit s,
      si_poisoned_invocation = is_poisoned_invocation s, si_released = is_released s\<rparr>"

definition ensure_mutable :: "InferenceSessionState \<Rightarrow> (unit, SessionError) result" where
  "ensure_mutable s =
     (if is_released s then Err session_released
      else case is_phase s of
        PhasePoisoned epoch stage \<Rightarrow> Err (session_poisoned epoch stage)
      | _ \<Rightarrow> Ok ())"

definition ensure_plan_matches :: "PlannedInvocation \<Rightarrow> InferenceSessionState \<Rightarrow> (unit, SessionError) result" where
  "ensure_plan_matches plan s =
     (if pi_sequence_epoch plan \<noteq> is_epoch s then
        Err (session_stale (''plan epoch '' @ display_u32 (pi_sequence_epoch plan) @
          '' does not match live epoch '' @ display_u32 (is_epoch s)))
      else if cf_prefix_before (pi_coordinates plan) \<noteq> is_valid_len s then
        Err (session_stale (''plan prefix_before '' @ display_u32 (cf_prefix_before (pi_coordinates plan)) @
          '' does not match live valid_len '' @ display_u32 (is_valid_len s)))
      else if cf_capacity (pi_coordinates plan) \<noteq> is_capacity s then
        Err (session_stale (''plan capacity '' @ display_u32 (cf_capacity (pi_coordinates plan)) @
          '' does not match live capacity '' @ display_u32 (is_capacity s)))
      else Ok ())"

definition started_phase :: "string \<Rightarrow> SequencePhase \<Rightarrow> (unit, SessionError) result" where
  "started_phase fresh_message phase =
     (case phase of
        PhaseFresh \<Rightarrow> Err (session_phase_error fresh_message)
      | PhasePoisoned epoch stage \<Rightarrow> Err (session_poisoned epoch stage)
      | _ \<Rightarrow> Ok ())"

definition admit_mode :: "InvocationMode \<Rightarrow> u32 \<Rightarrow> InferenceSessionState \<Rightarrow> (unit, SessionError) result" where
  "admit_mode mode query_rows s =
     (case mode of
        ModePrefill \<Rightarrow>
          ensure (is_phase s = PhaseFresh \<and> is_valid_len s = 0)
            (session_phase_error ''prefill requires a fresh sequence with prefix_before=0'')
      | ModeScalarDecode \<Rightarrow>
          and_then (ensure (query_rows = 1)
            (session_invalid_args ''scalar decode is M=1; query_rows must be 1'')) (\<lambda>_.
          started_phase ''scalar decode requires a committed prefill; mode is not inferred from length''
            (is_phase s))
      | ModeVerification \<Rightarrow>
          and_then (ensure (2 \<le> query_rows)
            (session_invalid_args ''verification is M=k>1; use scalar decode for a single row'')) (\<lambda>_.
          and_then (started_phase
            ''verification requires a committed prefill at nonzero L; a fresh-prefill masquerade is rejected''
            (is_phase s)) (\<lambda>_.
          ensure (is_valid_len s \<noteq> 0)
            (session_phase_error ''verification requires a committed nonzero prefix_before=L''))))"

definition begin_invocation ::
    "InvocationMode \<Rightarrow> u32 \<Rightarrow> InferenceSessionState \<Rightarrow> (PlannedInvocation, SessionError) result" where
  "begin_invocation mode query_rows s =
     and_then (ensure_mutable s) (\<lambda>_.
     and_then (ensure (query_rows \<noteq> 0) (session_invalid_args ''query_rows must be at least 1'')) (\<lambda>_.
     and_then (admit_mode mode query_rows s) (\<lambda>_.
       let prefix_before = is_valid_len s in
       case u32_checked_add prefix_before query_rows of
         Some valid_len_after \<Rightarrow>
           if valid_len_after \<le> is_capacity s then
             Ok \<lparr>pi_mode = mode,
                 pi_coordinates = \<lparr>cf_prefix_before = prefix_before, cf_query_rows = query_rows,
                   cf_write_position = prefix_before, cf_valid_len_after = valid_len_after,
                   cf_capacity = is_capacity s, cf_query_start = prefix_before\<rparr>,
                 pi_sequence_epoch = is_epoch s\<rparr>
           else Err (session_overflow prefix_before query_rows (is_capacity s))
       | None \<Rightarrow> Err (session_overflow prefix_before query_rows (is_capacity s)))))"

definition begin_transaction ::
    "InvocationMode \<Rightarrow> u32 \<Rightarrow> InferenceSessionState \<Rightarrow> (InvocationTransaction, SessionError) result" where
  "begin_transaction mode query_rows s =
     and_then (begin_invocation mode query_rows s) (\<lambda>plan.
       Ok \<lparr>it_plan = plan, it_possible_mutation = None\<rparr>)"

definition sequence_commit :: "PlannedInvocation \<Rightarrow> CursorFacts sequence_step" where
  "sequence_commit plan =
     sthen (sget ensure_mutable) (\<lambda>_.
     sthen (sget (ensure_plan_matches plan)) (\<lambda>_.
     sthen (slift (ensure (pi_mode plan \<noteq> ModeVerification)
       (session_invalid_args ''verification commits exactly r accepted rows, not k; use commit_verification''))) (\<lambda>_.
     sthen (smodify (\<lambda>s. s\<lparr>is_valid_len := cf_valid_len_after (pi_coordinates plan),
         is_phase := (case pi_mode plan of
             ModePrefill \<Rightarrow> PhasePrefill | ModeScalarDecode \<Rightarrow> PhaseDecode | ModeVerification \<Rightarrow> PhaseDecode),
         is_last_commit := Some (pi_coordinates plan)\<rparr>)) (\<lambda>_.
     slift (Ok (pi_coordinates plan))))))"

definition sequence_commit_transaction :: "InvocationTransaction \<Rightarrow> CursorFacts sequence_step" where
  "sequence_commit_transaction tx = sequence_commit (it_plan tx)"

definition accepted_facts :: "u32 \<Rightarrow> CursorFacts \<Rightarrow> CursorFacts" where
  "accepted_facts accepted_rows c =
     \<lparr>cf_prefix_before = cf_prefix_before c, cf_query_rows = accepted_rows,
      cf_write_position = cf_prefix_before c,
      cf_valid_len_after = cf_prefix_before c + accepted_rows,
      cf_capacity = cf_capacity c, cf_query_start = cf_prefix_before c\<rparr>"

definition sequence_commit_verification ::
    "InvocationTransaction \<Rightarrow> u32 \<Rightarrow> VerificationCommit sequence_step" where
  "sequence_commit_verification tx accepted_rows =
     sthen (sget ensure_mutable) (\<lambda>_.
     sthen (slift (ensure (pi_mode (it_plan tx) = ModeVerification)
       (session_invalid_args ''commit_verification requires a Verification transaction''))) (\<lambda>_.
     sthen (sget (ensure_plan_matches (it_plan tx))) (\<lambda>_.
     let coordinates = pi_coordinates (it_plan tx);
         committed = accepted_facts accepted_rows coordinates in
     sthen (slift (ensure (accepted_rows \<le> cf_query_rows coordinates)
       (session_invalid_args (''accepted_rows='' @ display_u32 accepted_rows @
          '' exceeds candidate query_rows='' @ display_u32 (cf_query_rows coordinates))))) (\<lambda>_.
     if accepted_rows = 0 then slift (Ok AbortedZero)
     else sthen (smodify (\<lambda>s. s\<lparr>is_valid_len := cf_valid_len_after committed, is_phase := PhaseDecode,
            is_last_commit := Some committed\<rparr>)) (\<lambda>_.
          slift (Ok (VerificationCommitted accepted_rows committed)))))))"

definition sequence_poison :: "PlannedInvocation \<Rightarrow> FailureStage \<Rightarrow> SequencePhase sequence_step" where
  "sequence_poison plan stage =
     sthen (sget ensure_mutable) (\<lambda>_.
     sthen (sget (ensure_plan_matches plan)) (\<lambda>_.
     sthen (sget (\<lambda>s. Ok (PhasePoisoned (is_epoch s) stage))) (\<lambda>phase.
     sthen (smodify (\<lambda>s. s\<lparr>is_phase := phase, is_poisoned_invocation := Some plan\<rparr>)) (\<lambda>_.
     slift (Ok phase)))))"

definition abort_pre_dispatch :: "InvocationTransaction \<Rightarrow> InferenceSessionState \<Rightarrow> (unit, SessionError) result" where
  "abort_pre_dispatch tx s =
     and_then (ensure_mutable s) (\<lambda>_.
     and_then (ensure_plan_matches (it_plan tx) s) (\<lambda>_.
     case it_possible_mutation tx of
       Some stage \<Rightarrow> Err (session_invalid_args (''abort_pre_dispatch after possible mutation at '' @
         FailureStage_debug stage @ ''; poison because rollback is not proven''))
     | None \<Rightarrow> Ok ()))"

definition fail_unproven :: "InvocationTransaction \<Rightarrow> SequencePhase sequence_step" where
  "fail_unproven tx =
     sthen (slift (ok_or (it_possible_mutation tx) (session_invalid_args
       ''fail_unproven requires a possible mutation stage; abort_pre_dispatch if still pre-dispatch'')))
     (\<lambda>stage. sequence_poison (it_plan tx) stage)"

definition sequence_fail :: "InvocationTransaction \<Rightarrow> FailureOutcome sequence_step" where
  "sequence_fail tx =
     (if is_pre_dispatch tx then
        sthen (sget (abort_pre_dispatch tx)) (\<lambda>_. slift (Ok OutcomeUnchanged))
      else sthen (fail_unproven tx) (\<lambda>phase.
        slift (case phase of
          PhasePoisoned epoch stage \<Rightarrow> Ok (OutcomePoisoned epoch stage)
        | other \<Rightarrow> Err (session_invalid_args (''expected poison after unproven mutation, got '' @
            SequencePhase_debug other)))))"

definition logical_reset :: "ResetReceipt sequence_step" where
  "logical_reset =
     sthen (sget ensure_mutable) (\<lambda>_.
     sthen (sget (\<lambda>s. and_then (ok_or (u32_checked_add (is_epoch s) 1)
         (session_invalid_args ''sequence epoch overflow'')) (\<lambda>next_epoch.
       Ok \<lparr>rr_previous_epoch = is_epoch s, rr_sequence_epoch = next_epoch,
           rr_previous_valid_len = is_valid_len s, rr_valid_len = 0, rr_capacity = is_capacity s,
           rr_cache_cleared = False, rr_buffers_zero_filled = False, rr_uploads = 0\<rparr>))) (\<lambda>receipt.
     sthen (smodify (\<lambda>s. s\<lparr>is_valid_len := 0, is_epoch := rr_sequence_epoch receipt,
         is_phase := PhaseFresh, is_last_commit := None, is_poisoned_invocation := None\<rparr>)) (\<lambda>_.
     slift (Ok receipt))))"

definition sequence_reset :: "u32 sequence_step" where
  "sequence_reset = sthen logical_reset (\<lambda>receipt. slift (Ok (rr_sequence_epoch receipt)))"

definition sequence_release :: "unit sequence_step" where
  "sequence_release =
     sthen (sget (\<lambda>s. ensure (\<not> is_released s) session_released)) (\<lambda>_.
     smodify (\<lambda>s. s\<lparr>is_released := True\<rparr>))"

end
