(* ===== verification/Inference_Safety.thy ===== *)
theory Inference_Safety
  imports Inference_State
begin

text \<open>
  What the sequence machine of inference_state.rs promises. The public mutating methods are collected
  in the datatype SequenceCall; plans can only come from \<open>begin_invocation\<close>, which the mutually
  inductive predicates \<open>sequence_live\<close> and \<open>plan_issued\<close> say. The invariant of the live machines,
  the exact condition of every method, the order of stamps (epoch, committed length) that no call
  decreases, and what follows: a plan takes effect at most once, errors change nothing, poison and
  release are final.
\<close>

section \<open>Conditions of the methods\<close>

definition sequence_mutable :: "InferenceSessionState \<Rightarrow> bool" where
  "sequence_mutable s \<longleftrightarrow> \<not> is_released s \<and> (\<forall>e st. is_phase s \<noteq> PhasePoisoned e st)"

definition plan_matches :: "PlannedInvocation \<Rightarrow> InferenceSessionState \<Rightarrow> bool" where
  "plan_matches p s \<longleftrightarrow> pi_sequence_epoch p = is_epoch s \<and>
     cf_prefix_before (pi_coordinates p) = is_valid_len s \<and> cf_capacity (pi_coordinates p) = is_capacity s"

lemma ensure_mutable_Ok_iff [flow]: "ensure_mutable s = Ok u \<longleftrightarrow> sequence_mutable s"
  by (auto simp: ensure_mutable_def sequence_mutable_def split: SequencePhase.split)

lemma ensure_plan_matches_Ok_iff [flow]: "ensure_plan_matches p s = Ok u \<longleftrightarrow> plan_matches p s"
  by (simp add: ensure_plan_matches_def plan_matches_def)

lemma started_phase_Ok_iff [flow]: "started_phase m ph = Ok u \<longleftrightarrow> ph = PhasePrefill \<or> ph = PhaseDecode"
  by (cases ph) (simp_all add: started_phase_def)

lemma u32_checked_add_Some_iff:
  "u32_checked_add a b = Some c \<longleftrightarrow> unat a + unat b < 2 ^ 32 \<and> c = a + b"
  by (auto simp: u32_checked_add_def)

lemma unat_add_u32: "unat (a :: u32) + unat b < 4294967296 \<Longrightarrow> unat (a + b) = unat a + unat b"
  by (simp add: unat_word_ariths)

lemma u32_checked_add_unat: "u32_checked_add a b = Some c \<Longrightarrow> unat c = unat a + unat b"
  by (auto simp: u32_checked_add_Some_iff unat_add_u32)

definition mode_admits :: "InvocationMode \<Rightarrow> u32 \<Rightarrow> InferenceSessionState \<Rightarrow> bool" where
  "mode_admits mode rows s \<longleftrightarrow> (case mode of
       ModePrefill \<Rightarrow> is_phase s = PhaseFresh \<and> is_valid_len s = 0
     | ModeScalarDecode \<Rightarrow> rows = 1 \<and> is_phase s \<in> {PhasePrefill, PhaseDecode}
     | ModeVerification \<Rightarrow> 2 \<le> rows \<and> is_phase s \<in> {PhasePrefill, PhaseDecode} \<and> is_valid_len s \<noteq> 0)"

lemma admit_mode_Ok_iff [flow]: "admit_mode mode rows s = Ok u \<longleftrightarrow> mode_admits mode rows s"
  by (cases mode) (auto simp: admit_mode_def mode_admits_def flow)

definition plan_at :: "InvocationMode \<Rightarrow> u32 \<Rightarrow> InferenceSessionState \<Rightarrow> PlannedInvocation" where
  "plan_at mode rows s =
     \<lparr>pi_mode = mode,
      pi_coordinates = \<lparr>cf_prefix_before = is_valid_len s, cf_query_rows = rows,
        cf_write_position = is_valid_len s, cf_valid_len_after = is_valid_len s + rows,
        cf_capacity = is_capacity s, cf_query_start = is_valid_len s\<rparr>,
      pi_sequence_epoch = is_epoch s\<rparr>"

lemma begin_invocation_Ok_iff:
  "begin_invocation mode rows s = Ok p \<longleftrightarrow>
     sequence_mutable s \<and> rows \<noteq> 0 \<and> mode_admits mode rows s \<and>
     unat (is_valid_len s) + unat rows \<le> unat (is_capacity s) \<and> p = plan_at mode rows s"
proof -
  have room: "(\<exists>a. u32_checked_add (is_valid_len s) rows = Some a \<and> a \<le> is_capacity s \<and> q = f a) \<longleftrightarrow>
      unat (is_valid_len s) + unat rows \<le> unat (is_capacity s) \<and> q = f (is_valid_len s + rows)" for q f
    using unat_u32_lt [of "is_capacity s"]
    by (auto simp: u32_checked_add_Some_iff word_le_nat_alt unat_add_u32)
  have "begin_invocation mode rows s = Ok p \<longleftrightarrow>
     sequence_mutable s \<and> rows \<noteq> 0 \<and> mode_admits mode rows s \<and>
     (\<exists>a. u32_checked_add (is_valid_len s) rows = Some a \<and> a \<le> is_capacity s \<and>
        p = (plan_at mode rows s)\<lparr>pi_coordinates := (pi_coordinates (plan_at mode rows s))\<lparr>cf_valid_len_after := a\<rparr>\<rparr>)"
    by (auto simp: begin_invocation_def flow Let_def plan_at_def split: option.splits if_splits)
  then show ?thesis unfolding room by (simp add: plan_at_def)
qed

definition commit_effect :: "PlannedInvocation \<Rightarrow> InferenceSessionState \<Rightarrow> InferenceSessionState" where
  "commit_effect p s = s\<lparr>is_valid_len := cf_valid_len_after (pi_coordinates p),
     is_phase := (if pi_mode p = ModePrefill then PhasePrefill else PhaseDecode),
     is_last_commit := Some (pi_coordinates p)\<rparr>"

definition accept_effect :: "CursorFacts \<Rightarrow> InferenceSessionState \<Rightarrow> InferenceSessionState" where
  "accept_effect c s = s\<lparr>is_valid_len := cf_valid_len_after c, is_phase := PhaseDecode, is_last_commit := Some c\<rparr>"

definition poison_effect :: "PlannedInvocation \<Rightarrow> FailureStage \<Rightarrow> InferenceSessionState \<Rightarrow> InferenceSessionState" where
  "poison_effect p st s = s\<lparr>is_phase := PhasePoisoned (is_epoch s) st, is_poisoned_invocation := Some p\<rparr>"

definition reset_effect :: "InferenceSessionState \<Rightarrow> InferenceSessionState" where
  "reset_effect s = s\<lparr>is_valid_len := 0, is_epoch := is_epoch s + 1, is_phase := PhaseFresh,
     is_last_commit := None, is_poisoned_invocation := None\<rparr>"

lemma sget_Ok_iff [flow]: "sget f s = (Ok x, t) \<longleftrightarrow> f s = Ok x \<and> t = s"
  by (auto simp: sget_def)

lemma slift_Ok_iff [flow]: "slift r s = (Ok x, t) \<longleftrightarrow> r = Ok x \<and> t = s"
  by (auto simp: slift_def)

lemma smodify_Ok_iff [flow]: "smodify f s = (Ok u, t) \<longleftrightarrow> t = f s"
  by (auto simp: smodify_def)

lemma sequence_commit_Ok_iff [flow]:
  "sequence_commit p s = (Ok c, t) \<longleftrightarrow>
     sequence_mutable s \<and> plan_matches p s \<and> pi_mode p \<noteq> ModeVerification \<and>
     c = pi_coordinates p \<and> t = commit_effect p s"
  by (cases "pi_mode p") (auto simp: sequence_commit_def flow commit_effect_def)

lemma sequence_verification_Ok_iff [flow]:
  "sequence_commit_verification tx r s = (Ok v, t) \<longleftrightarrow>
     sequence_mutable s \<and> pi_mode (it_plan tx) = ModeVerification \<and> plan_matches (it_plan tx) s \<and>
     r \<le> cf_query_rows (pi_coordinates (it_plan tx)) \<and>
     (if r = 0 then v = AbortedZero \<and> t = s
      else v = VerificationCommitted r (accepted_facts r (pi_coordinates (it_plan tx))) \<and>
           t = accept_effect (accepted_facts r (pi_coordinates (it_plan tx))) s)"
  by (auto simp: sequence_commit_verification_def Let_def flow accept_effect_def split: if_splits)

lemma sequence_poison_Ok_iff [flow]:
  "sequence_poison p st s = (Ok ph, t) \<longleftrightarrow>
     sequence_mutable s \<and> plan_matches p s \<and> ph = PhasePoisoned (is_epoch s) st \<and> t = poison_effect p st s"
  by (auto simp: sequence_poison_def flow poison_effect_def)

lemma abort_pre_dispatch_Ok_iff [flow]:
  "abort_pre_dispatch tx s = Ok u \<longleftrightarrow>
     sequence_mutable s \<and> plan_matches (it_plan tx) s \<and> it_possible_mutation tx = None"
  by (auto simp: abort_pre_dispatch_def flow split: option.split)

lemma fail_unproven_Ok_iff [flow]:
  "fail_unproven tx s = (Ok ph, t) \<longleftrightarrow>
     (\<exists>st. it_possible_mutation tx = Some st \<and> sequence_poison (it_plan tx) st s = (Ok ph, t))"
  by (auto simp: fail_unproven_def sthen_Ok_iff slift_Ok_iff ok_or_Ok_iff)

lemma sequence_fail_Ok_iff [flow]:
  "sequence_fail tx s = (Ok out, t) \<longleftrightarrow>
     sequence_mutable s \<and> plan_matches (it_plan tx) s \<and>
     (case it_possible_mutation tx of
        None \<Rightarrow> out = OutcomeUnchanged \<and> t = s
      | Some st \<Rightarrow> out = OutcomePoisoned (is_epoch s) st \<and> t = poison_effect (it_plan tx) st s)"
  by (cases "it_possible_mutation tx") (auto simp: sequence_fail_def is_pre_dispatch_def flow)

lemma logical_reset_Ok_iff [flow]:
  "logical_reset s = (Ok r, t) \<longleftrightarrow>
     sequence_mutable s \<and> unat (is_epoch s) + 1 < 2 ^ 32 \<and> t = reset_effect s \<and>
     r = \<lparr>rr_previous_epoch = is_epoch s, rr_sequence_epoch = is_epoch s + 1,
           rr_previous_valid_len = is_valid_len s, rr_valid_len = 0, rr_capacity = is_capacity s,
           rr_cache_cleared = False, rr_buffers_zero_filled = False, rr_uploads = 0\<rparr>"
  by (auto simp: logical_reset_def flow u32_checked_add_Some_iff reset_effect_def)

lemma sequence_reset_Ok_iff [flow]:
  "sequence_reset s = (Ok e, t) \<longleftrightarrow>
     sequence_mutable s \<and> unat (is_epoch s) + 1 < 2 ^ 32 \<and> t = reset_effect s \<and> e = is_epoch s + 1"
  by (auto simp: sequence_reset_def flow)

lemma sequence_release_Ok_iff [flow]:
  "sequence_release s = (Ok u, t) \<longleftrightarrow> \<not> is_released s \<and> t = s\<lparr>is_released := True\<rparr>"
  by (auto simp: sequence_release_def flow)

section \<open>Calls\<close>

datatype SequenceCall =
    SeqCommit PlannedInvocation
  | SeqCommitTransaction InvocationTransaction
  | SeqCommitVerification InvocationTransaction u32
  | SeqPoison PlannedInvocation FailureStage
  | SeqAbort InvocationTransaction
  | SeqFailUnproven InvocationTransaction
  | SeqFail InvocationTransaction
  | SeqLogicalReset
  | SeqReset
  | SeqRelease

datatype SequenceAnswer =
    AnswerFacts CursorFacts
  | AnswerVerified VerificationCommit
  | AnswerPhase SequencePhase
  | AnswerFailure FailureOutcome
  | AnswerReset ResetReceipt
  | AnswerEpoch u32
  | AnswerUnit

definition answered :: "('a \<Rightarrow> 'b) \<Rightarrow> ('s, 'a, 'e) step \<Rightarrow> ('s, 'b, 'e) step" where
  "answered f m s = (case m s of (Ok x, t) \<Rightarrow> (Ok (f x), t) | (Err e, t) \<Rightarrow> (Err e, t))"

fun sequence_call :: "SequenceCall \<Rightarrow> SequenceAnswer sequence_step" where
  "sequence_call (SeqCommit p) = answered AnswerFacts (sequence_commit p)"
| "sequence_call (SeqCommitTransaction tx) = answered AnswerFacts (sequence_commit_transaction tx)"
| "sequence_call (SeqCommitVerification tx r) = answered AnswerVerified (sequence_commit_verification tx r)"
| "sequence_call (SeqPoison p st) = answered AnswerPhase (sequence_poison p st)"
| "sequence_call (SeqAbort tx) = answered (\<lambda>_. AnswerUnit) (sget (abort_pre_dispatch tx))"
| "sequence_call (SeqFailUnproven tx) = answered AnswerPhase (fail_unproven tx)"
| "sequence_call (SeqFail tx) = answered AnswerFailure (sequence_fail tx)"
| "sequence_call SeqLogicalReset = answered AnswerReset logical_reset"
| "sequence_call SeqReset = answered AnswerEpoch sequence_reset"
| "sequence_call SeqRelease = answered (\<lambda>_. AnswerUnit) sequence_release"

fun call_plan :: "SequenceCall \<Rightarrow> PlannedInvocation option" where
  "call_plan (SeqCommit p) = Some p"
| "call_plan (SeqCommitTransaction tx) = Some (it_plan tx)"
| "call_plan (SeqCommitVerification tx r) = Some (it_plan tx)"
| "call_plan (SeqPoison p st) = Some p"
| "call_plan (SeqAbort tx) = Some (it_plan tx)"
| "call_plan (SeqFailUnproven tx) = Some (it_plan tx)"
| "call_plan (SeqFail tx) = Some (it_plan tx)"
| "call_plan SeqLogicalReset = None"
| "call_plan SeqReset = None"
| "call_plan SeqRelease = None"

lemma answered_Ok_iff [flow]: "answered f m s = (Ok y, t) \<longleftrightarrow> (\<exists>x. m s = (Ok x, t) \<and> y = f x)"
  by (auto simp: answered_def split: prod.splits result.splits)

lemma answered_Err_iff: "answered f m s = (Err e, t) \<longleftrightarrow> m s = (Err e, t)"
  by (auto simp: answered_def split: prod.splits result.splits)

text \<open>
  The rows a call commits and the epochs it opens, read off its answer.
\<close>

fun answer_rows :: "(SequenceAnswer, SessionError) result \<Rightarrow> nat" where
  "answer_rows (Ok (AnswerFacts c)) = unat (cf_query_rows c)"
| "answer_rows (Ok (AnswerVerified (VerificationCommitted r c))) = unat r"
| "answer_rows _ = 0"

fun answer_resets :: "(SequenceAnswer, SessionError) result \<Rightarrow> bool" where
  "answer_resets (Ok (AnswerReset r)) = True"
| "answer_resets (Ok (AnswerEpoch e)) = True"
| "answer_resets _ = False"

section \<open>Errors change nothing\<close>

definition fail_closed :: "('s, 'a, 'e) step \<Rightarrow> bool" where
  "fail_closed m \<longleftrightarrow> (\<forall>s e t. m s = (Err e, t) \<longrightarrow> t = s)"

named_theorems atomic \<open>steps whose errors leave the state unchanged\<close>

lemma atomic_sget [atomic]: "fail_closed (sget f)"
  by (simp add: fail_closed_def sget_def)

lemma atomic_slift [atomic]: "fail_closed (slift r)"
  by (simp add: fail_closed_def slift_def)

lemma atomic_smodify [atomic]: "fail_closed (smodify f)"
  by (simp add: fail_closed_def smodify_def)

lemma atomic_answered [atomic]: "fail_closed m \<Longrightarrow> fail_closed (answered f m)"
  by (simp add: fail_closed_def answered_Err_iff)

lemma atomic_check_then [atomic]: "(\<And>x. fail_closed (k x)) \<Longrightarrow> fail_closed (sthen (sget f) k)"
  by (auto simp: fail_closed_def sthen_get split: result.splits)

lemma atomic_lift_then [atomic]: "(\<And>x. fail_closed (k x)) \<Longrightarrow> fail_closed (sthen (slift r) k)"
  by (auto simp: fail_closed_def sthen_lift split: result.splits)

lemma atomic_then_answer [atomic]: "fail_closed m \<Longrightarrow> fail_closed (sthen m (\<lambda>x. slift (Ok (f x))))"
  by (auto simp: fail_closed_def slift_apply elim!: sthen_cases)

lemma atomic_commit [atomic]: "fail_closed (sequence_commit p)"
  unfolding sequence_commit_def by (intro atomic)

lemma atomic_verification [atomic]: "fail_closed (sequence_commit_verification tx r)"
  unfolding sequence_commit_verification_def Let_def
  by (intro atomic; cases "r = 0"; simp add: atomic)

lemma atomic_poison [atomic]: "fail_closed (sequence_poison p st)"
  unfolding sequence_poison_def by (intro atomic)

lemma atomic_fail [atomic]: "fail_closed (sequence_fail tx)"
proof -
  have unproven: "sthen (fail_unproven tx) (\<lambda>ph. slift (case ph of PhasePoisoned e st \<Rightarrow> Ok (OutcomePoisoned e st)
      | other \<Rightarrow> Err (g other))) s = (Err e, t) \<Longrightarrow> t = s" for g s e t
  proof (erule sthen_cases)
    fix e assume "fail_unproven tx s = (Err e, t)"
    moreover have "fail_closed (fail_unproven tx)" unfolding fail_unproven_def by (intro atomic)
    ultimately show ?thesis by (simp add: fail_closed_def)
  qed (auto simp: flow slift_def)
  show ?thesis
    unfolding sequence_fail_def
    by (cases "is_pre_dispatch tx") (auto simp: atomic, auto simp: fail_closed_def intro!: unproven)
qed

lemma atomic_reset [atomic]: "fail_closed logical_reset"
  unfolding logical_reset_def by (intro atomic)

lemma sequence_call_atomic: "fail_closed (sequence_call c)"
  by (cases c)
    (simp_all add: atomic sequence_commit_transaction_def fail_unproven_def sequence_reset_def sequence_release_def)

section \<open>Live machines and issued plans\<close>

inductive sequence_live :: "InferenceSessionState \<Rightarrow> bool" and plan_issued :: "PlannedInvocation \<Rightarrow> bool" where
  live_new: "sequence_new c = Ok s \<Longrightarrow> sequence_live s"
| issue: "sequence_live s \<Longrightarrow> begin_invocation mode rows s = Ok p \<Longrightarrow> plan_issued p"
| live_call: "sequence_live s \<Longrightarrow> (\<And>p. call_plan c = Some p \<Longrightarrow> plan_issued p) \<Longrightarrow>
    sequence_call c s = (r, t) \<Longrightarrow> sequence_live t"

definition facts_ok :: "CursorFacts \<Rightarrow> bool" where
  "facts_ok c \<longleftrightarrow> cf_query_rows c \<noteq> 0 \<and> cf_write_position c = cf_prefix_before c \<and>
     cf_query_start c = cf_prefix_before c \<and> cf_valid_len_after c = cf_prefix_before c + cf_query_rows c \<and>
     unat (cf_prefix_before c) + unat (cf_query_rows c) \<le> unat (cf_capacity c)"

definition plan_ok :: "PlannedInvocation \<Rightarrow> bool" where
  "plan_ok p \<longleftrightarrow> facts_ok (pi_coordinates p) \<and> pi_sequence_epoch p \<noteq> 0 \<and>
     (case pi_mode p of
        ModePrefill \<Rightarrow> cf_prefix_before (pi_coordinates p) = 0
      | ModeScalarDecode \<Rightarrow> cf_query_rows (pi_coordinates p) = 1 \<and> cf_prefix_before (pi_coordinates p) \<noteq> 0
      | ModeVerification \<Rightarrow> 2 \<le> cf_query_rows (pi_coordinates p) \<and> cf_prefix_before (pi_coordinates p) \<noteq> 0)"

definition sequence_ok :: "InferenceSessionState \<Rightarrow> bool" where
  "sequence_ok s \<longleftrightarrow> is_epoch s \<noteq> 0 \<and> unat (is_valid_len s) \<le> unat (is_capacity s) \<and> is_capacity s \<noteq> 0 \<and>
     (is_valid_len s = 0 \<longleftrightarrow> is_last_commit s = None) \<and>
     (\<forall>c. is_last_commit s = Some c \<longrightarrow>
        facts_ok c \<and> cf_valid_len_after c = is_valid_len s \<and> cf_capacity c = is_capacity s) \<and>
     (case is_phase s of
        PhaseFresh \<Rightarrow> is_valid_len s = 0 \<and> is_poisoned_invocation s = None
      | PhasePrefill \<Rightarrow> is_valid_len s \<noteq> 0 \<and> is_poisoned_invocation s = None
      | PhaseDecode \<Rightarrow> is_valid_len s \<noteq> 0 \<and> is_poisoned_invocation s = None
      | PhasePoisoned e st \<Rightarrow> e = is_epoch s \<and>
          (\<exists>p. is_poisoned_invocation s = Some p \<and> plan_ok p \<and> plan_matches p s))"

lemma facts_end:
  assumes "facts_ok c"
  shows "unat (cf_valid_len_after c) = unat (cf_prefix_before c) + unat (cf_query_rows c)"
    and "0 < unat (cf_query_rows c)" and "cf_valid_len_after c \<noteq> 0"
proof -
  show end_eq: "unat (cf_valid_len_after c) = unat (cf_prefix_before c) + unat (cf_query_rows c)"
    using assms unat_u32_lt [of "cf_capacity c"] by (simp add: facts_ok_def unat_add_u32)
  show pos: "0 < unat (cf_query_rows c)"
    using assms by (simp add: facts_ok_def unat_gt_0)
  show "cf_valid_len_after c \<noteq> 0"
    using end_eq pos by (metis add_is_0 less_numeral_extra(3) unat_0)
qed

lemma accepted_ok:
  assumes "facts_ok c" "r \<le> cf_query_rows c" "r \<noteq> 0"
  shows "facts_ok (accepted_facts r c)"
  using assms by (auto simp: facts_ok_def accepted_facts_def word_le_nat_alt)

lemma new_sequence_ok: "sequence_new c = Ok s \<Longrightarrow> sequence_ok s"
  by (auto simp: sequence_new_def sequence_ok_def split: if_splits)

lemma begin_plan_ok:
  assumes "sequence_ok s" "begin_invocation mode rows s = Ok p"
  shows "plan_ok p" and "plan_matches p s"
proof -
  note p = assms(2) [unfolded begin_invocation_Ok_iff]
  show "plan_matches p s" using p by (simp add: plan_matches_def plan_at_def)
  show "plan_ok p" using p assms(1)
    by (cases mode) (auto simp: plan_ok_def plan_at_def facts_ok_def mode_admits_def sequence_ok_def)
qed

lemma plan_room:
  assumes "plan_ok p" "plan_matches p s"
  shows "unat (cf_valid_len_after (pi_coordinates p)) = unat (is_valid_len s) + unat (cf_query_rows (pi_coordinates p))"
    and "unat (cf_valid_len_after (pi_coordinates p)) \<le> unat (is_capacity s)"
    and "cf_valid_len_after (pi_coordinates p) \<noteq> 0"
  using assms facts_end [of "pi_coordinates p"] by (auto simp: plan_ok_def plan_matches_def facts_ok_def)

lemma mutable_unpoisoned: "sequence_mutable s \<Longrightarrow> sequence_ok s \<Longrightarrow> is_poisoned_invocation s = None"
  by (cases "is_phase s") (simp_all add: sequence_mutable_def sequence_ok_def)

lemma commit_effect_ok:
  assumes "sequence_ok s" "plan_ok p" "plan_matches p s" "sequence_mutable s"
  shows "sequence_ok (commit_effect p s)"
  using assms plan_room [OF assms(2,3)] mutable_unpoisoned [OF assms(4,1)]
  by (auto simp: sequence_ok_def commit_effect_def plan_ok_def plan_matches_def)

lemma accept_effect_ok:
  assumes "sequence_ok s" "facts_ok c" "cf_prefix_before c = is_valid_len s" "cf_capacity c = is_capacity s"
    and "sequence_mutable s"
  shows "sequence_ok (accept_effect c s)"
  using assms facts_end [OF assms(2)] mutable_unpoisoned [OF assms(5,1)]
  by (auto simp: sequence_ok_def accept_effect_def facts_ok_def)

lemma poison_effect_ok:
  "sequence_ok s \<Longrightarrow> plan_ok p \<Longrightarrow> plan_matches p s \<Longrightarrow> sequence_ok (poison_effect p st s)"
  by (auto simp: sequence_ok_def poison_effect_def plan_matches_def)

lemma epoch_next:
  assumes "unat (e :: u32) + 1 < 2 ^ 32"
  shows "unat (e + 1) = unat e + 1" and "e + 1 \<noteq> 0"
proof -
  show "unat (e + 1) = unat e + 1" using assms by (simp add: unat_word_ariths)
  then show "e + 1 \<noteq> 0" by (metis add_is_0 one_neq_zero unat_0)
qed

lemma reset_effect_ok: "sequence_ok s \<Longrightarrow> unat (is_epoch s) + 1 < 2 ^ 32 \<Longrightarrow> sequence_ok (reset_effect s)"
  using epoch_next(2) [of "is_epoch s"] by (simp add: sequence_ok_def reset_effect_def)

lemma release_effect_ok: "sequence_ok s \<Longrightarrow> sequence_ok (s\<lparr>is_released := True\<rparr>)"
  by (auto simp: sequence_ok_def plan_matches_def split: SequencePhase.splits)

text \<open>
  The effect of a call: an error changes nothing, and an answer is the effect of its method on a
  machine that accepts it.
\<close>

lemma sequence_effect:
  assumes "sequence_call c s = (r, t)"
  obtains (same) "t = s" "answer_rows r = 0" "\<not> answer_resets r"
  | (commit) p where "call_plan c = Some p" "sequence_mutable s" "plan_matches p s" "t = commit_effect p s"
      "answer_rows r = unat (cf_query_rows (pi_coordinates p))" "\<not> answer_resets r"
  | (accept) p n where "call_plan c = Some p" "sequence_mutable s" "plan_matches p s" "n \<noteq> 0"
      "n \<le> cf_query_rows (pi_coordinates p)" "t = accept_effect (accepted_facts n (pi_coordinates p)) s"
      "answer_rows r = unat n" "\<not> answer_resets r"
  | (poison) p st where "call_plan c = Some p" "sequence_mutable s" "plan_matches p s" "t = poison_effect p st s"
      "answer_rows r = 0" "\<not> answer_resets r"
  | (reset) "sequence_mutable s" "unat (is_epoch s) + 1 < 2 ^ 32" "t = reset_effect s"
      "answer_rows r = 0" "answer_resets r"
  | (release) "\<not> is_released s" "t = s\<lparr>is_released := True\<rparr>" "answer_rows r = 0" "\<not> answer_resets r"
proof (cases r)
  case (Err e)
  then have "t = s" using assms sequence_call_atomic [of c] by (simp add: fail_closed_def)
  with Err show ?thesis by (intro same) simp_all
next
  case (Ok a)
  show ?thesis
  proof (cases c)
    case (SeqCommitVerification tx n)
    then show ?thesis using assms Ok
      by (cases "n = 0") (auto simp: answered_Ok_iff sequence_verification_Ok_iff intro: same accept)
  next
    case (SeqFail tx)
    then show ?thesis using assms Ok
      by (cases "it_possible_mutation tx") (auto simp: flow intro: same poison)
  qed (use assms Ok in \<open>auto simp: flow sequence_commit_transaction_def intro: same commit poison reset release\<close>)
qed

lemma sequence_call_ok:
  assumes "sequence_ok s" "\<And>p. call_plan c = Some p \<Longrightarrow> plan_ok p" "sequence_call c s = (r, t)"
  shows "sequence_ok t"
  using assms(3)
proof (cases rule: sequence_effect)
  case (accept p n)
  then have "facts_ok (pi_coordinates p)" using assms(2) [of p] by (simp add: plan_ok_def)
  then have "facts_ok (accepted_facts n (pi_coordinates p))"
    using accept by (intro accepted_ok)
  then have "sequence_ok (accept_effect (accepted_facts n (pi_coordinates p)) s)"
    by (rule accept_effect_ok [OF assms(1)]) (use accept in \<open>simp_all add: accepted_facts_def plan_matches_def\<close>)
  with accept show ?thesis by simp
qed (use assms in \<open>auto intro: commit_effect_ok poison_effect_ok reset_effect_ok release_effect_ok\<close>)

lemma live_issued_ok: "(sequence_live s \<longrightarrow> sequence_ok s) \<and> (plan_issued p \<longrightarrow> plan_ok p)"
proof -
  have "(sequence_live s \<Longrightarrow> sequence_ok s)" "(plan_issued p \<Longrightarrow> plan_ok p)"
  proof (induction rule: sequence_live_plan_issued.inducts)
    case (live_call s c r t)
    show ?case by (rule sequence_call_ok [OF live_call(4,5,3)])
  qed (auto intro: new_sequence_ok begin_plan_ok(1))
  then show ?thesis by blast
qed

lemmas live_ok = live_issued_ok [THEN conjunct1, rule_format]
lemmas issued_ok = live_issued_ok [THEN conjunct2, rule_format]

section \<open>Stamps\<close>

text \<open>
  The stamp of a machine is its epoch and its committed length. No call decreases it; a commit
  raises the length, a reset the epoch, so a plan that took effect never matches again.
\<close>

definition stamp_le :: "InferenceSessionState \<Rightarrow> InferenceSessionState \<Rightarrow> bool" where
  "stamp_le s t \<longleftrightarrow> is_capacity t = is_capacity s \<and>
     (unat (is_epoch s) < unat (is_epoch t) \<or>
      is_epoch s = is_epoch t \<and> unat (is_valid_len s) \<le> unat (is_valid_len t))"

definition plan_spent :: "PlannedInvocation \<Rightarrow> InferenceSessionState \<Rightarrow> bool" where
  "plan_spent p s \<longleftrightarrow> unat (pi_sequence_epoch p) < unat (is_epoch s) \<or>
     pi_sequence_epoch p = is_epoch s \<and> unat (cf_prefix_before (pi_coordinates p)) < unat (is_valid_len s)"

lemma stamp_le_refl [simp]: "stamp_le s s"
  by (simp add: stamp_le_def)

lemma stamp_le_trans: "stamp_le s t \<Longrightarrow> stamp_le t u \<Longrightarrow> stamp_le s u"
  by (auto simp: stamp_le_def)

lemma spent_stays: "plan_spent p s \<Longrightarrow> stamp_le s t \<Longrightarrow> plan_spent p t"
  by (auto simp: plan_spent_def stamp_le_def)

lemma spent_no_match: "plan_spent p s \<Longrightarrow> \<not> plan_matches p s"
  by (auto simp: plan_spent_def plan_matches_def)

lemma call_stamp:
  assumes "\<And>p. call_plan c = Some p \<Longrightarrow> plan_ok p" "sequence_call c s = (r, t)"
  shows "stamp_le s t"
    and "\<not> answer_resets r \<Longrightarrow> is_epoch t = is_epoch s \<and> unat (is_valid_len t) = unat (is_valid_len s) + answer_rows r"
    and "answer_resets r \<Longrightarrow> unat (is_epoch t) = unat (is_epoch s) + 1 \<and> is_valid_len t = 0"
proof -
  have "(\<not> answer_resets r \<longrightarrow> is_capacity t = is_capacity s \<and> is_epoch t = is_epoch s \<and>
        unat (is_valid_len t) = unat (is_valid_len s) + answer_rows r) \<and>
      (answer_resets r \<longrightarrow> is_capacity t = is_capacity s \<and> unat (is_epoch t) = unat (is_epoch s) + 1 \<and> is_valid_len t = 0)"
    using assms(2)
  proof (cases rule: sequence_effect)
    case (commit p)
    with plan_room(1) [OF assms(1) commit(3)] show ?thesis by (simp add: commit_effect_def)
  next
    case (accept p n)
    then have "facts_ok (pi_coordinates p)" using assms(1) [of p] by (simp add: plan_ok_def)
    then have "facts_ok (accepted_facts n (pi_coordinates p))" using accept by (intro accepted_ok)
    from facts_end(1) [OF this] accept show ?thesis
      by (simp add: accept_effect_def accepted_facts_def plan_matches_def)
  next
    case reset
    then show ?thesis using epoch_next(1) [of "is_epoch s"] by (simp add: reset_effect_def)
  qed (simp_all add: poison_effect_def)
  then show "stamp_le s t"
    and "\<not> answer_resets r \<Longrightarrow> is_epoch t = is_epoch s \<and> unat (is_valid_len t) = unat (is_valid_len s) + answer_rows r"
    and "answer_resets r \<Longrightarrow> unat (is_epoch t) = unat (is_epoch s) + 1 \<and> is_valid_len t = 0"
    by (cases "answer_resets r"; simp add: stamp_le_def)+
qed

text \<open>Sequences of calls with issued plans.\<close>

fun sequence_run :: "SequenceCall list \<Rightarrow> InferenceSessionState \<Rightarrow>
    (SequenceAnswer, SessionError) result list \<times> InferenceSessionState" where
  "sequence_run [] s = ([], s)"
| "sequence_run (c # cs) s =
     (case sequence_call c s of (r, t) \<Rightarrow> (case sequence_run cs t of (rs, u) \<Rightarrow> (r # rs, u)))"

definition calls_issued :: "SequenceCall list \<Rightarrow> bool" where
  "calls_issued cs \<longleftrightarrow> (\<forall>c\<in>set cs. \<forall>p. call_plan c = Some p \<longrightarrow> plan_issued p)"

text \<open>The abstract sequence: rows committed since the last reset, and the number of resets.\<close>

fun replay :: "(SequenceAnswer, SessionError) result list \<Rightarrow> nat \<times> nat \<Rightarrow> nat \<times> nat" where
  "replay [] x = x"
| "replay (r # rs) (n, k) = replay rs (if answer_resets r then (0, k + 1) else (n + answer_rows r, k))"

lemma sequence_run_exact:
  assumes "calls_issued cs" "sequence_live s" "sequence_run cs s = (rs, t)"
  shows "sequence_live t \<and> stamp_le s t \<and>
    (unat (is_valid_len t), unat (is_epoch t)) = replay rs (unat (is_valid_len s), unat (is_epoch s))"
  using assms
proof (induction cs arbitrary: s rs)
  case Nil
  then show ?case by simp
next
  case (Cons c cs)
  obtain r u where one: "sequence_call c s = (r, u)" by (cases "sequence_call c s")
  obtain rs' where rest: "sequence_run cs u = (rs', t)" and rs: "rs = r # rs'"
    using Cons.prems(3) one by (auto split: prod.splits)
  have issued: "call_plan c = Some p \<Longrightarrow> plan_issued p" for p
    using Cons.prems(1) by (simp add: calls_issued_def)
  have ok: "call_plan c = Some p \<Longrightarrow> plan_ok p" for p
    using issued issued_ok by blast
  have live: "sequence_live u" by (rule live_call [OF Cons.prems(2) issued one])
  have "calls_issued cs" using Cons.prems(1) by (simp add: calls_issued_def)
  from Cons.IH [OF this live rest] call_stamp [OF ok one] show ?case
    by (cases "answer_resets r") (auto simp: rs intro: stamp_le_trans)
qed

lemma spent_refused:
  assumes "call_plan c = Some p" "\<not> plan_matches p s"
  obtains e where "sequence_call c s = (Err e, s)"
proof (cases "sequence_call c s")
  case (Pair r t)
  show ?thesis
  proof (cases r)
    case (Ok a)
    with Pair assms show ?thesis
      by (cases c) (auto simp: flow sequence_commit_transaction_def)
  next
    case (Err e)
    with Pair sequence_call_atomic [of c] that show ?thesis by (simp add: fail_closed_def)
  qed
qed

lemma effect_spends:
  assumes "plan_ok p" "call_plan c = Some p" "sequence_call c s = (r, t)" "0 < answer_rows r"
  shows "plan_spent p t"
proof -
  have match: "plan_matches p s"
  proof (rule ccontr)
    assume "\<not> plan_matches p s"
    from spent_refused [OF assms(2) this] obtain e where "sequence_call c s = (Err e, s)" .
    with assms(3,4) show False by auto
  qed
  have "\<not> answer_resets r" using assms(4) by (cases r rule: answer_resets.cases) simp_all
  with call_stamp(2) [of c s r t] assms have "is_epoch t = is_epoch s \<and> unat (is_valid_len s) < unat (is_valid_len t)"
    by simp
  with match show ?thesis by (simp add: plan_spent_def plan_matches_def)
qed

lemma reset_spends:
  assumes "sequence_ok s" "begin_invocation mode rows s = Ok p" "logical_reset s = (Ok receipt, t)"
  shows "plan_spent p t"
  using assms(2,3) epoch_next(1) [of "is_epoch s"]
  by (auto simp: begin_invocation_Ok_iff logical_reset_Ok_iff plan_spent_def plan_at_def reset_effect_def)

section \<open>Final states\<close>

lemma immutable_refused:
  assumes "\<not> sequence_mutable s" "c \<noteq> SeqRelease"
  obtains e where "sequence_call c s = (Err e, s)"
proof (cases "sequence_call c s")
  case (Pair r t)
  show ?thesis
  proof (cases r)
    case (Ok a)
    with Pair assms show ?thesis
      by (cases c) (auto simp: flow sequence_commit_transaction_def)
  next
    case (Err e)
    with Pair sequence_call_atomic [of c] that show ?thesis by (simp add: fail_closed_def)
  qed
qed

lemma run_immutable:
  assumes "\<not> sequence_mutable s" "sequence_run cs s = (rs, t)"
  shows "t = s \<or> t = s\<lparr>is_released := True\<rparr>"
  using assms
proof (induction cs arbitrary: s rs)
  case (Cons c cs)
  obtain r u where one: "sequence_call c s = (r, u)" by (cases "sequence_call c s")
  obtain rs' where rest: "sequence_run cs u = (rs', t)" using Cons.prems(2) one by (auto split: prod.splits)
  have u: "u = s \<or> u = s\<lparr>is_released := True\<rparr>"
  proof (cases "c = SeqRelease")
    case True
    with one show ?thesis
      by (cases "is_released s") (auto simp: answered_def sequence_release_def sthen_get smodify_def)
  next
    case False
    from immutable_refused [OF Cons.prems(1) this] one show ?thesis by (metis Pair_inject)
  qed
  then have "\<not> sequence_mutable u" using Cons.prems(1) by (auto simp: sequence_mutable_def)
  from Cons.IH [OF this rest] u show ?case by auto
qed simp

text \<open>Every call but the release is answered by an error, and so is a release once released.\<close>

lemma run_refused:
  assumes "\<not> sequence_mutable s" "sequence_run cs s = (rs, t)"
  shows "length rs = length cs \<and> (\<forall>i<length cs. cs ! i \<noteq> SeqRelease \<or> is_released s \<longrightarrow> (\<exists>x. rs ! i = Err x))"
  using assms
proof (induction cs arbitrary: s rs)
  case (Cons c cs)
  obtain r u where one: "sequence_call c s = (r, u)" by (cases "sequence_call c s")
  obtain rs' where rest: "sequence_run cs u = (rs', t)" and rs: "rs = r # rs'"
    using Cons.prems(2) one by (auto split: prod.splits)
  have "sequence_run [c] s = ([r], u)" using one by simp
  then have u: "u = s \<or> u = s\<lparr>is_released := True\<rparr>" by (rule run_immutable [OF Cons.prems(1)])
  then have "\<not> sequence_mutable u" using Cons.prems(1) by (auto simp: sequence_mutable_def)
  from Cons.IH [OF this rest] u have tail: "length rs' = length cs"
    "\<forall>i<length cs. cs ! i \<noteq> SeqRelease \<or> is_released s \<longrightarrow> (\<exists>x. rs' ! i = Err x)" by auto
  have "\<exists>x. r = Err x" if "c \<noteq> SeqRelease \<or> is_released s"
  proof (cases "c = SeqRelease")
    case True
    with that one show ?thesis by (auto simp: answered_def sequence_release_def sthen_get)
  next
    case False
    from immutable_refused [OF Cons.prems(1) this] one show ?thesis by (metis Pair_inject)
  qed
  with tail show ?case by (auto simp: rs nth_Cons split: nat.split)
qed simp

section \<open>Windows of a plan\<close>

lemma causal_end_Ok_iff:
  assumes "unat (cf_prefix_before c) + unat (cf_query_rows c) < 4294967296"
  shows "causal_end_exclusive c row = Ok e \<longleftrightarrow>
    row < cf_query_rows c \<and> unat e = unat (cf_prefix_before c) + unat row + 1"
proof (cases "row < cf_query_rows c")
  case True
  then have lt: "unat row < unat (cf_query_rows c)" by (simp add: word_less_nat_alt)
  have x: "u32_checked_add (cf_prefix_before c) row = Some (cf_prefix_before c + row)"
    "unat (cf_prefix_before c + row) = unat (cf_prefix_before c) + unat row"
    using lt assms by (simp_all add: u32_checked_add_Some_iff unat_add_u32)
  moreover have y: "u32_checked_add (cf_prefix_before c + row) 1 = Some (cf_prefix_before c + row + 1)"
    "unat (cf_prefix_before c + row + 1) = unat (cf_prefix_before c) + unat row + 1"
    using lt assms x(2) unat_add_u32 [of "cf_prefix_before c + row" 1] by (simp_all add: u32_checked_add_Some_iff)
  ultimately have "causal_end_exclusive c row = Ok (cf_prefix_before c + row + 1)"
    using True by (simp add: causal_end_exclusive_def ok_or_def)
  with True y(2) show ?thesis by (metis result.inject(1) unsigned_word_eqI)
qed (simp add: causal_end_exclusive_def not_less)

lemma causal_window:
  assumes "facts_ok c" "row < cf_query_rows c"
  obtains e where "causal_end_exclusive c row = Ok e" "unat e = unat (cf_prefix_before c) + unat row + 1"
    and "unat e \<le> unat (cf_valid_len_after c)"
proof -
  have lt: "unat row < unat (cf_query_rows c)" using assms(2) by (simp add: word_less_nat_alt)
  have sum: "unat (cf_prefix_before c) + unat (cf_query_rows c) < 4294967296"
    using assms(1) unat_u32_lt [of "cf_capacity c"] by (simp add: facts_ok_def)
  define x where "x = cf_prefix_before c + row"
  have ux: "unat x = unat (cf_prefix_before c) + unat row"
    unfolding x_def using lt sum by (intro unat_add_u32) linarith
  have x: "u32_checked_add (cf_prefix_before c) row = Some x"
    using lt sum by (simp add: u32_checked_add_Some_iff x_def)
  have ue: "unat (x + 1) = unat x + 1"
    using lt sum ux by (intro epoch_next(1)) simp
  have e: "u32_checked_add x 1 = Some (x + 1)"
    using lt sum ux by (simp add: u32_checked_add_Some_iff)
  have "causal_end_exclusive c row = Ok (x + 1)"
    using assms(2) by (simp add: causal_end_exclusive_def x e ok_or_def not_le)
  moreover have "unat (x + 1) \<le> unat (cf_valid_len_after c)"
    unfolding facts_end(1) [OF assms(1)] ue ux using lt by simp
  moreover have "unat (x + 1) = unat (cf_prefix_before c) + unat row + 1"
    unfolding ue ux by simp
  ultimately show ?thesis using that by blast
qed

lemma candidate_window:
  assumes "facts_ok (pi_coordinates (it_plan tx))" "row < cr_rows (candidate_rows tx)"
  obtains x where "candidate_position (candidate_rows tx) row = Ok x"
    "unat x = unat (cf_prefix_before (pi_coordinates (it_plan tx))) + unat row"
    "unat x < unat (cr_capacity (candidate_rows tx))"
proof -
  let ?c = "pi_coordinates (it_plan tx)"
  have lt: "unat row < unat (cf_query_rows ?c)"
    using assms(2) by (simp add: candidate_rows_def Let_def word_less_nat_alt)
  have sum: "unat (cf_prefix_before ?c) + unat (cf_query_rows ?c) \<le> unat (cf_capacity ?c)"
    using assms(1) by (simp add: facts_ok_def)
  have "unat (cf_prefix_before ?c + row) = unat (cf_prefix_before ?c) + unat row"
    using lt sum unat_u32_lt [of "cf_capacity ?c"] by (intro unat_add_u32) simp
  moreover from this have "unat (cf_prefix_before ?c + row) < unat (cr_capacity (candidate_rows tx))"
    unfolding candidate_rows_def Let_def using lt sum by simp
  moreover have "candidate_position (candidate_rows tx) row = Ok (cf_prefix_before ?c + row)"
    using assms by (simp add: candidate_position_def candidate_rows_def Let_def not_le facts_ok_def)
  ultimately show ?thesis using that by blast
qed

end
