(* ===== verification/Residency.thy ===== *)
theory Residency
  imports Inference_Safety Kv_Cache
begin

text \<open>
  The residency of a model session, \<open>macos-arm64/src/composite_host/residency.rs\<close>, and the invocation
  programs over it, \<open>invocation_program.rs\<close>: weights and arenas that are prepared once, the sequence
  machine that moves over them, the release of every handle. The process-wide counter that mints
  allocation identities is the state of the preparing functions.
\<close>

section \<open>Allocations\<close>

datatype AllocationIdentity = AllocationIdentity u64

type_synonym 'a mint_step = "(u64, 'a, SessionError) step"

definition mint_identity :: "AllocationIdentity mint_step" where
  "mint_identity counter = (Ok (AllocationIdentity counter), counter + 1)"

record ResidentAllocation =
  ra_identity :: AllocationIdentity
  ra_descriptor :: DescriptorAllocation

fun lifetime_debug :: "DeviceBufferLifetime \<Rightarrow> string" where
  "lifetime_debug PerProgram = ''PerProgram''"
| "lifetime_debug PerStep = ''PerStep''"
| "lifetime_debug ObservationPoint = ''ObservationPoint''"

definition expect_persistent :: "DescriptorAllocation \<Rightarrow> string \<Rightarrow> (unit, SessionError) result" where
  "expect_persistent a what =
     (if al_id a = 0 then Err (session_invalid_args (what @ '' uses the reserved zero buffer identity''))
      else if al_capacity a = 0 then Err (session_invalid_args (what @ '' has a zero byte capacity''))
      else if al_lifetime a \<noteq> PerProgram then
        Err (session_invalid_args (what @ '' must have PerProgram lifetime; got '' @ lifetime_debug (al_lifetime a)))
      else Ok ())"

definition resident_new :: "DescriptorAllocation \<Rightarrow> ResidentAllocation mint_step" where
  "resident_new descriptor =
     sthen (slift (expect_persistent descriptor ''allocation'')) (\<lambda>_.
     sthen mint_identity (\<lambda>identity.
     slift (Ok \<lparr>ra_identity = identity, ra_descriptor = descriptor\<rparr>)))"

definition ra_buffer_id :: "ResidentAllocation \<Rightarrow> u32" where
  "ra_buffer_id r = al_id (ra_descriptor r)"

definition expect_view :: "DescriptorView \<Rightarrow> DescriptorAllocation \<Rightarrow> string \<Rightarrow> (unit, SessionError) result" where
  "expect_view v a what =
     (if vw_allocation v \<noteq> al_id a then
        Err (session_invalid_args (what @ '' allocation_id '' @ display_u32 (vw_allocation v) @
          '' does not match allocation '' @ display_u32 (al_id a)))
      else if vw_dims v = [] \<or> length (vw_dims v) \<noteq> length (vw_strides v) then
        Err (session_invalid_args (what @ '' has rank-mismatched dims and strides''))
      else case checked_add (vw_base v) (vw_span v) of
        None \<Rightarrow> Err (session_invalid_args (what @ '' overflows its static envelope''))
      | Some end_at \<Rightarrow>
          if al_capacity a < end_at then
            Err (session_invalid_args (what @ '' spans '' @ display_u64 end_at @
              '' bytes but allocation capacity is '' @ display_u64 (al_capacity a)))
          else Ok ())"

fun unique_ids_after :: "u32 list \<Rightarrow> u32 list \<Rightarrow> (unit, SessionError) result" where
  "unique_ids_after seen [] = Ok ()"
| "unique_ids_after seen (i # ids) =
     (if List.member seen i then
        Err (session_invalid_args (''allocation buffer identity '' @ display_u32 i @ '' is repeated''))
      else unique_ids_after (seen @ [i]) ids)"

definition expect_unique_buffer_ids :: "u32 list \<Rightarrow> (unit, SessionError) result" where
  "expect_unique_buffer_ids ids = unique_ids_after [] ids"

section \<open>Model residency\<close>

record ModelIdentity =
  mi_name :: string
  mi_epoch :: u32

record PreparedArtifacts =
  pa_prefill :: "u8 list"
  pa_scalar_decode :: "u8 list"
  pa_verification :: "u8 list"

fun artifact_for_mode :: "PreparedArtifacts \<Rightarrow> InvocationMode \<Rightarrow> u8 list" where
  "artifact_for_mode a ModePrefill = pa_prefill a"
| "artifact_for_mode a ModeScalarDecode = pa_scalar_decode a"
| "artifact_for_mode a ModeVerification = pa_verification a"

record ModelSpec =
  sp_identity :: ModelIdentity
  sp_prefill_artifact :: "u8 list"
  sp_decode_artifact :: "u8 list"
  sp_verification_artifact :: "u8 list"
  sp_weights :: "DescriptorAllocation list"

record ModelResidency =
  mr_identity :: ModelIdentity
  mr_artifacts :: PreparedArtifacts
  mr_weights :: "ResidentAllocation list"
  mr_weight_uploads :: u32
  mr_artifact_prepares :: u32

fun residents_new :: "DescriptorAllocation list \<Rightarrow> ResidentAllocation list mint_step" where
  "residents_new [] = slift (Ok [])"
| "residents_new (w # ws) =
     sthen (resident_new w) (\<lambda>r. sthen (residents_new ws) (\<lambda>rs. slift (Ok (r # rs))))"

definition model_prepare :: "ModelSpec \<Rightarrow> ModelResidency mint_step" where
  "model_prepare spec =
     sthen (slift (ensure (mi_name (sp_identity spec) \<noteq> [])
       (session_invalid_args ''model identity name must not be empty''))) (\<lambda>_.
     sthen (slift (ensure (sp_prefill_artifact spec \<noteq> [])
       (session_invalid_args ''prefill artifact must be prepared before first invocation''))) (\<lambda>_.
     sthen (slift (ensure (sp_decode_artifact spec \<noteq> [])
       (session_invalid_args ''scalar-decode artifact must be prepared before first invocation''))) (\<lambda>_.
     sthen (slift (ensure (sp_verification_artifact spec \<noteq> [])
       (session_invalid_args ''verification artifact must be prepared before first invocation''))) (\<lambda>_.
     sthen (slift (ensure (sp_weights spec \<noteq> [])
       (session_invalid_args ''model residency requires at least one weight allocation''))) (\<lambda>_.
     sthen (residents_new (sp_weights spec)) (\<lambda>weights.
     sthen (slift (expect_unique_buffer_ids (map al_id (sp_weights spec)))) (\<lambda>_.
     slift (Ok \<lparr>mr_identity = sp_identity spec,
       mr_artifacts = \<lparr>pa_prefill = sp_prefill_artifact spec, pa_scalar_decode = sp_decode_artifact spec,
         pa_verification = sp_verification_artifact spec\<rparr>,
       mr_weights = weights, mr_weight_uploads = 1, mr_artifact_prepares = 1\<rparr>))))))))"

section \<open>Sequence residency\<close>

record SequenceSpec =
  ss_k_arena :: DescriptorAllocation
  ss_v_arena :: DescriptorAllocation
  ss_k_prefix :: DescriptorView
  ss_k_append :: DescriptorView
  ss_v_prefix :: DescriptorView
  ss_v_append :: DescriptorView
  ss_invocation_state :: DescriptorAllocation
  ss_capacity :: u32

record SequenceResidency =
  sr_k_arena :: ResidentAllocation
  sr_v_arena :: ResidentAllocation
  sr_k_prefix :: DescriptorView
  sr_k_append :: DescriptorView
  sr_v_prefix :: DescriptorView
  sr_v_append :: DescriptorView
  sr_invocation_allocation :: ResidentAllocation
  sr_invocation_state :: DescriptorInvocationState
  sr_state :: InferenceSessionState

definition invocation_state_reset :: "u32 \<Rightarrow> DescriptorInvocationState" where
  "invocation_state_reset epoch =
     \<lparr>iv_position = 0, iv_valid_len_after = 0, iv_query_rows = 0, iv_sequence_epoch = epoch\<rparr>"

definition sequence_prepare :: "SequenceSpec \<Rightarrow> SequenceResidency mint_step" where
  "sequence_prepare spec =
     sthen (slift (expect_view (ss_k_prefix spec) (ss_k_arena spec) ''K prefix view'')) (\<lambda>_.
     sthen (slift (expect_view (ss_k_append spec) (ss_k_arena spec) ''K append view'')) (\<lambda>_.
     sthen (slift (expect_view (ss_v_prefix spec) (ss_v_arena spec) ''V prefix view'')) (\<lambda>_.
     sthen (slift (expect_view (ss_v_append spec) (ss_v_arena spec) ''V append view'')) (\<lambda>_.
     sthen (slift (expect_unique_buffer_ids
       [al_id (ss_k_arena spec), al_id (ss_v_arena spec), al_id (ss_invocation_state spec)])) (\<lambda>_.
     sthen (slift (sequence_new (ss_capacity spec))) (\<lambda>state.
     sthen (resident_new (ss_k_arena spec)) (\<lambda>k_arena.
     sthen (resident_new (ss_v_arena spec)) (\<lambda>v_arena.
     sthen (resident_new (ss_invocation_state spec)) (\<lambda>invocation_allocation.
     slift (Ok \<lparr>sr_k_arena = k_arena, sr_v_arena = v_arena, sr_k_prefix = ss_k_prefix spec,
       sr_k_append = ss_k_append spec, sr_v_prefix = ss_v_prefix spec, sr_v_append = ss_v_append spec,
       sr_invocation_allocation = invocation_allocation,
       sr_invocation_state = invocation_state_reset (is_epoch state), sr_state = state\<rparr>))))))))))"

definition cache_plan :: "SequenceResidency \<Rightarrow> KvCacheDescriptor" where
  "cache_plan s =
     \<lparr>kv_allocations = [ra_descriptor (sr_k_arena s), ra_descriptor (sr_v_arena s)],
      kv_views = [sr_k_prefix s, sr_k_append s, sr_v_prefix s, sr_v_append s],
      kv_state = sr_invocation_state s, kv_bindings = []\<rparr>"

definition sync_invocation_state :: "CursorFacts \<Rightarrow> SequenceResidency \<Rightarrow> SequenceResidency" where
  "sync_invocation_state f s = s\<lparr>sr_invocation_state :=
     \<lparr>iv_position = cf_write_position f, iv_valid_len_after = cf_valid_len_after f,
      iv_query_rows = cf_query_rows f, iv_sequence_epoch = is_epoch (sr_state s)\<rparr>\<rparr>"

definition sync_invocation_state_reset :: "SequenceResidency \<Rightarrow> SequenceResidency" where
  "sync_invocation_state_reset s =
     s\<lparr>sr_invocation_state := invocation_state_reset (is_epoch (sr_state s))\<rparr>"

definition on_state :: "'a sequence_step \<Rightarrow> (SequenceResidency, 'a, SessionError) step" where
  "on_state m = son sr_state (\<lambda>t s. s\<lparr>sr_state := t\<rparr>) m"

definition residency_begin_transaction ::
    "InvocationMode \<Rightarrow> u32 \<Rightarrow> SequenceResidency \<Rightarrow> (InvocationTransaction, SessionError) result" where
  "residency_begin_transaction mode rows s = begin_transaction mode rows (sr_state s)"

definition residency_commit :: "PlannedInvocation \<Rightarrow> (SequenceResidency, CursorFacts, SessionError) step" where
  "residency_commit plan =
     sthen (on_state (sequence_commit plan)) (\<lambda>f.
     sthen (smodify (sync_invocation_state f)) (\<lambda>_. slift (Ok f)))"

definition residency_commit_transaction ::
    "InvocationTransaction \<Rightarrow> (SequenceResidency, CursorFacts, SessionError) step" where
  "residency_commit_transaction tx = residency_commit (it_plan tx)"

definition residency_logical_reset :: "(SequenceResidency, ResetReceipt, SessionError) step" where
  "residency_logical_reset =
     sthen (on_state logical_reset) (\<lambda>receipt.
     sthen (smodify sync_invocation_state_reset) (\<lambda>_. slift (Ok receipt)))"

definition residency_abort :: "InvocationTransaction \<Rightarrow> SequenceResidency \<Rightarrow> (unit, SessionError) result" where
  "residency_abort tx s = abort_pre_dispatch tx (sr_state s)"

definition residency_fail :: "InvocationTransaction \<Rightarrow> (SequenceResidency, FailureOutcome, SessionError) step" where
  "residency_fail tx = on_state (sequence_fail tx)"

definition residency_release :: "(SequenceResidency, unit, SessionError) step" where
  "residency_release = on_state sequence_release"

section \<open>Session residency\<close>

record ResolvedHandles =
  rh_mode :: InvocationMode
  rh_model_identity :: ModelIdentity
  rh_artifact :: "u8 list"
  rh_weights :: "ResidentAllocation list"
  rh_k_arena :: ResidentAllocation
  rh_v_arena :: ResidentAllocation
  rh_invocation_state :: ResidentAllocation

record SessionResidency =
  sn_model :: ModelResidency
  sn_sequence :: SequenceResidency
  sn_released_allocations :: u64
  sn_live_handles :: bool
  sn_cache_clear_bytes :: u64
  sn_buffer_zero_fill_bytes :: u64
  sn_old_prefix_copy_bytes :: u64
  sn_reset_count :: u32

definition session_compose :: "ModelResidency \<Rightarrow> SequenceResidency \<Rightarrow> (SessionResidency, SessionError) result" where
  "session_compose model sequence =
     and_then (expect_unique_buffer_ids (map ra_buffer_id (mr_weights model) @
       [ra_buffer_id (sr_k_arena sequence), ra_buffer_id (sr_v_arena sequence),
        ra_buffer_id (sr_invocation_allocation sequence)])) (\<lambda>_.
     Ok \<lparr>sn_model = model, sn_sequence = sequence, sn_released_allocations = 0, sn_live_handles = True,
       sn_cache_clear_bytes = 0, sn_buffer_zero_fill_bytes = 0, sn_old_prefix_copy_bytes = 0,
       sn_reset_count = 0\<rparr>)"

definition session_prepare :: "ModelSpec \<Rightarrow> SequenceSpec \<Rightarrow> SessionResidency mint_step" where
  "session_prepare model sequence =
     sthen (model_prepare model) (\<lambda>m. sthen (sequence_prepare sequence) (\<lambda>s. slift (session_compose m s)))"

definition session_allocations :: "SessionResidency \<Rightarrow> u64" where
  "session_allocations s = of_nat (length (mr_weights (sn_model s))) + 3"

definition live_allocation_count :: "SessionResidency \<Rightarrow> u64" where
  "live_allocation_count s = (if sn_live_handles s then session_allocations s else 0)"

definition resolve_handles :: "InvocationMode \<Rightarrow> SessionResidency \<Rightarrow> ResolvedHandles" where
  "resolve_handles mode s =
     \<lparr>rh_mode = mode, rh_model_identity = mr_identity (sn_model s),
      rh_artifact = artifact_for_mode (mr_artifacts (sn_model s)) mode,
      rh_weights = mr_weights (sn_model s), rh_k_arena = sr_k_arena (sn_sequence s),
      rh_v_arena = sr_v_arena (sn_sequence s), rh_invocation_state = sr_invocation_allocation (sn_sequence s)\<rparr>"

definition on_sequence :: "(SequenceResidency, 'a, SessionError) step \<Rightarrow> (SessionResidency, 'a, SessionError) step" where
  "on_sequence m = son sn_sequence (\<lambda>t s. s\<lparr>sn_sequence := t\<rparr>) m"

definition session_begin_invocation ::
    "InvocationMode \<Rightarrow> u32 \<Rightarrow> SessionResidency \<Rightarrow> (PlannedInvocation, SessionError) result" where
  "session_begin_invocation mode rows s = begin_invocation mode rows (sr_state (sn_sequence s))"

definition session_commit :: "PlannedInvocation \<Rightarrow> (SessionResidency, CursorFacts, SessionError) step" where
  "session_commit plan = on_sequence (residency_commit plan)"

definition session_commit_transaction :: "InvocationTransaction \<Rightarrow> (SessionResidency, CursorFacts, SessionError) step" where
  "session_commit_transaction tx = on_sequence (residency_commit_transaction tx)"

definition u32_saturating_add :: "u32 \<Rightarrow> u32 \<Rightarrow> u32" where
  "u32_saturating_add a b = (if unat a + unat b < 2 ^ 32 then a + b else - 1)"

definition session_logical_reset :: "(SessionResidency, ResetReceipt, SessionError) step" where
  "session_logical_reset =
     sthen (on_sequence residency_logical_reset) (\<lambda>receipt.
     sthen (smodify (\<lambda>s. s\<lparr>sn_reset_count := u32_saturating_add (sn_reset_count s) 1\<rparr>)) (\<lambda>_.
     slift (Ok receipt)))"

definition session_abort :: "InvocationTransaction \<Rightarrow> SessionResidency \<Rightarrow> (unit, SessionError) result" where
  "session_abort tx s = residency_abort tx (sn_sequence s)"

definition session_fail :: "InvocationTransaction \<Rightarrow> (SessionResidency, FailureOutcome, SessionError) step" where
  "session_fail tx = on_sequence (residency_fail tx)"

definition session_release :: "(SessionResidency, unit, SessionError) step" where
  "session_release =
     sthen (on_sequence residency_release) (\<lambda>_.
     smodify (\<lambda>s. if sn_live_handles s then
         s\<lparr>sn_released_allocations := saturating_add (sn_released_allocations s) (session_allocations s),
           sn_live_handles := False\<rparr>
       else s))"

end
