(* ===== verification/Invocation_Programs.thy ===== *)
theory Invocation_Programs
  imports Residency "HOL-Library.Multiset"
begin

text \<open>
  The invocation programs of \<open>macos-arm64/src/composite_host/invocation_program.rs\<close>: three graphs over one
  session residency, admitted from a KV plan that is split into prefix and append views. The lemmas
  say what an admitted session is, and what every session reached from it keeps.
\<close>

definition SCALAR_DECODE_QUERY_ROWS :: u32 where
  "SCALAR_DECODE_QUERY_ROWS = 1"

record InvocationGraph =
  ig_mode :: InvocationMode
  ig_query_rows :: u32
  ig_launch_bindings :: "DescriptorLaunchBinding list"

record SelectedProgram =
  sel_graph :: InvocationGraph
  sel_handles :: ResolvedHandles

record AdmittedDescriptor =
  ad_identity :: ModelIdentity
  ad_prefill_artifact :: "u8 list"
  ad_decode_artifact :: "u8 list"
  ad_verification_artifact :: "u8 list"
  ad_verification_query_rows :: u32
  ad_prefill_query_rows :: u32
  ad_weights :: "DescriptorAllocation list"
  ad_kv :: KvCacheDescriptor
  ad_invocation_state :: DescriptorAllocation
  ad_capacity :: u32

record InvocationPrograms =
  ip_residency :: SessionResidency
  ip_prefill :: InvocationGraph
  ip_scalar_decode :: InvocationGraph
  ip_verification :: InvocationGraph
  ip_kv :: KvCacheDescriptor
  ip_module_loads :: u32
  ip_compiles :: u32

definition admit_kv_plan :: "KvCacheDescriptor \<Rightarrow> (unit, SessionError) result" where
  "admit_kv_plan kv =
     map_err (\<lambda>e. session_invalid_args (''admitted KV descriptor: '' @ he_message e)) (kv_validate kv)"

definition split_prefix_append ::
    "DescriptorView list \<Rightarrow> DescriptorAllocation \<Rightarrow> (DescriptorView \<times> DescriptorView, SessionError) result" where
  "split_prefix_append views a =
     (let owned = filter (\<lambda>v. vw_allocation v = al_id a) views in
      if length owned \<noteq> 2 then
        Err (session_invalid_args (''allocation '' @ display_u32 (al_id a) @
          '' must expose prefix and append views; found '' @ show_nat (length owned)))
      else if vw_span (owned ! 0) = vw_span (owned ! 1) then
        Err (session_invalid_args (''allocation '' @ display_u32 (al_id a) @
          '' prefix and append views have the same span''))
      else if vw_span (owned ! 1) < vw_span (owned ! 0) then Ok (owned ! 0, owned ! 1)
      else Ok (owned ! 1, owned ! 0))"

definition sequence_spec_from_kv ::
    "KvCacheDescriptor \<Rightarrow> DescriptorAllocation \<Rightarrow> u32 \<Rightarrow> (SequenceSpec, SessionError) result" where
  "sequence_spec_from_kv kv invocation_state capacity =
     (if length (kv_allocations kv) \<noteq> 2 then
        Err (session_invalid_args (''admitted KV plan must declare exactly two cache allocations; found '' @
          show_nat (length (kv_allocations kv))))
      else
        let k_arena = kv_allocations kv ! 0; v_arena = kv_allocations kv ! 1 in
        and_then (split_prefix_append (kv_views kv) k_arena) (\<lambda>(k_prefix, k_append).
        and_then (split_prefix_append (kv_views kv) v_arena) (\<lambda>(v_prefix, v_append).
        Ok \<lparr>ss_k_arena = k_arena, ss_v_arena = v_arena, ss_k_prefix = k_prefix, ss_k_append = k_append,
            ss_v_prefix = v_prefix, ss_v_append = v_append, ss_invocation_state = invocation_state,
            ss_capacity = capacity\<rparr>)))"

definition admit_checks :: "AdmittedDescriptor \<Rightarrow> (unit, SessionError) result" where
  "admit_checks d =
     (if ad_prefill_query_rows d = 0 then
        Err (session_invalid_args ''prefill query_rows (M=T) must be at least 1'')
      else if ad_verification_artifact d = [] then
        Err (session_invalid_args ''verification artifact must be materialized before first invocation'')
      else if ad_verification_query_rows d = 0 then
        Err (session_invalid_args ''verification query_rows must be at least 1'')
      else if ad_capacity d < ad_verification_query_rows d then
        Err (session_invalid_args (''verification M='' @ display_u32 (ad_verification_query_rows d) @
          '' exceeds capacity '' @ display_u32 (ad_capacity d)))
      else if ad_capacity d < ad_prefill_query_rows d then
        Err (session_invalid_args (''prefill M='' @ display_u32 (ad_prefill_query_rows d) @
          '' exceeds capacity '' @ display_u32 (ad_capacity d)))
      else if kv_state (ad_kv d) \<noteq> invocation_state_reset 0 then
        Err (session_invalid_args ''admitted KV plan must not carry live cursor values'')
      else Ok ())"

definition graph_of :: "InvocationMode \<Rightarrow> u32 \<Rightarrow> AdmittedDescriptor \<Rightarrow> InvocationGraph" where
  "graph_of mode rows d = \<lparr>ig_mode = mode, ig_query_rows = rows, ig_launch_bindings = kv_bindings (ad_kv d)\<rparr>"

definition programs_admit :: "AdmittedDescriptor \<Rightarrow> InvocationPrograms mint_step" where
  "programs_admit d =
     sthen (slift (admit_checks d)) (\<lambda>_.
     sthen (slift (admit_kv_plan (ad_kv d))) (\<lambda>_.
     sthen (slift (sequence_spec_from_kv (ad_kv d) (ad_invocation_state d) (ad_capacity d))) (\<lambda>sequence.
     sthen (session_prepare
       \<lparr>sp_identity = ad_identity d, sp_prefill_artifact = ad_prefill_artifact d,
        sp_decode_artifact = ad_decode_artifact d, sp_verification_artifact = ad_verification_artifact d,
        sp_weights = ad_weights d\<rparr> sequence) (\<lambda>residency.
     slift (Ok \<lparr>ip_residency = residency,
       ip_prefill = graph_of ModePrefill (ad_prefill_query_rows d) d,
       ip_scalar_decode = graph_of ModeScalarDecode SCALAR_DECODE_QUERY_ROWS d,
       ip_verification = graph_of ModeVerification (ad_verification_query_rows d) d,
       ip_kv = ad_kv d, ip_module_loads = 3, ip_compiles = 3\<rparr>)))))"

definition programs_select :: "InvocationMode \<Rightarrow> InvocationPrograms \<Rightarrow> SelectedProgram" where
  "programs_select mode p =
     \<lparr>sel_graph = (case mode of ModePrefill \<Rightarrow> ip_prefill p | ModeScalarDecode \<Rightarrow> ip_scalar_decode p
        | ModeVerification \<Rightarrow> ip_verification p),
      sel_handles = resolve_handles mode (ip_residency p)\<rparr>"

definition begin_selected :: "InvocationMode \<Rightarrow> InvocationPrograms \<Rightarrow> (PlannedInvocation, SessionError) result" where
  "begin_selected mode p =
     session_begin_invocation mode (ig_query_rows (sel_graph (programs_select mode p))) (ip_residency p)"

definition programs_commit :: "PlannedInvocation \<Rightarrow> (InvocationPrograms, CursorFacts, SessionError) step" where
  "programs_commit plan = son ip_residency (\<lambda>t s. s\<lparr>ip_residency := t\<rparr>) (session_commit plan)"

section \<open>What prepared residencies are\<close>

lemma son_Ok_iff [flow]: "son get put m s = (Ok x, t) \<longleftrightarrow> (\<exists>u. m (get s) = (Ok x, u) \<and> t = put u s)"
  by (auto simp: son_def split: prod.splits)

definition persistent :: "DescriptorAllocation \<Rightarrow> bool" where
  "persistent a \<longleftrightarrow> al_id a \<noteq> 0 \<and> al_capacity a \<noteq> 0 \<and> al_lifetime a = PerProgram"

lemma expect_persistent_Ok_iff [flow]: "expect_persistent a what = Ok u \<longleftrightarrow> persistent a"
  by (simp add: expect_persistent_def persistent_def)

lemma unique_after_iff: "unique_ids_after seen ids = Ok u \<longleftrightarrow> distinct ids \<and> set seen \<inter> set ids = {}"
  by (induction seen ids rule: unique_ids_after.induct) auto

lemma expect_unique_Ok_iff [flow]: "expect_unique_buffer_ids ids = Ok u \<longleftrightarrow> distinct ids"
  by (simp add: expect_unique_buffer_ids_def unique_after_iff)

lemma resident_new_Ok_iff [flow]:
  "resident_new a c = (Ok r, c') \<longleftrightarrow>
     persistent a \<and> r = \<lparr>ra_identity = AllocationIdentity c, ra_descriptor = a\<rparr> \<and> c' = c + 1"
  by (auto simp: resident_new_def flow mint_identity_def)

lemma residents_new_Ok:
  "residents_new as c = (Ok rs, c') \<Longrightarrow>
     map ra_descriptor rs = as \<and> (\<forall>a\<in>set as. persistent a) \<and> c' = c + of_nat (length as) \<and>
     map ra_identity rs = map (\<lambda>i. AllocationIdentity (c + of_nat i)) [0..<length as]"
proof (induction as arbitrary: c rs)
  case Nil
  then show ?case by (simp add: slift_def)
next
  case (Cons a as)
  from Cons.prems obtain rs' where rs': "residents_new as (c + 1) = (Ok rs', c')" "persistent a"
    "rs = \<lparr>ra_identity = AllocationIdentity c, ra_descriptor = a\<rparr> # rs'"
    by (auto simp: flow)
  have "map (\<lambda>i. AllocationIdentity (c + of_nat i)) [0..<length (a # as)] =
      AllocationIdentity c # map (\<lambda>i. AllocationIdentity (c + 1 + of_nat i)) [0..<length as]"
    by (simp add: upt_conv_Cons map_Suc_upt [symmetric] comp_def del: upt_Suc)
  with Cons.IH [OF rs'(1)] rs'(2,3) show ?case by simp
qed

text \<open>The objects a session holds, in the order they were made.\<close>

definition session_residents :: "SessionResidency \<Rightarrow> ResidentAllocation list" where
  "session_residents s = mr_weights (sn_model s) @
     [sr_k_arena (sn_sequence s), sr_v_arena (sn_sequence s), sr_invocation_allocation (sn_sequence s)]"

lemma model_prepare_Ok:
  assumes "model_prepare spec c = (Ok m, c')"
  shows "residents_new (sp_weights spec) c = (Ok (mr_weights m), c')" and "mr_weights m \<noteq> []"
    and "mr_identity m = sp_identity spec" and "mr_weight_uploads m = 1" and "mr_artifact_prepares m = 1"
    and "artifact_for_mode (mr_artifacts m) mode \<noteq> []"
proof -
  show weights: "residents_new (sp_weights spec) c = (Ok (mr_weights m), c')"
    and "mr_identity m = sp_identity spec" and "mr_weight_uploads m = 1" and "mr_artifact_prepares m = 1"
    using assms by (auto simp: model_prepare_def flow)
  show "artifact_for_mode (mr_artifacts m) mode \<noteq> []"
    using assms by (cases mode) (auto simp: model_prepare_def flow)
  have "sp_weights spec \<noteq> []" using assms by (auto simp: model_prepare_def flow)
  with residents_new_Ok [OF weights] show "mr_weights m \<noteq> []" by auto
qed

definition view_inside :: "DescriptorView \<Rightarrow> DescriptorAllocation \<Rightarrow> bool" where
  "view_inside v a \<longleftrightarrow> vw_allocation v = al_id a \<and> vw_dims v \<noteq> [] \<and>
     length (vw_dims v) = length (vw_strides v) \<and> unat (vw_base v) + unat (vw_span v) \<le> unat (al_capacity a)"

lemma expect_view_Ok_iff [flow]: "expect_view v a what = Ok u \<longleftrightarrow> view_inside v a"
proof (cases "checked_add (vw_base v) (vw_span v)")
  case None
  from this [unfolded checked_add_None_iff] have "\<not> unat (vw_base v) + unat (vw_span v) \<le> unat (al_capacity a)"
    using unat_u64_lt [of "al_capacity a"] by simp
  with None show ?thesis by (simp add: expect_view_def view_inside_def)
next
  case (Some e)
  from checked_add_unat [OF Some] have "al_capacity a < e \<longleftrightarrow> \<not> unat (vw_base v) + unat (vw_span v) \<le> unat (al_capacity a)"
    by (simp add: word_less_nat_alt not_le)
  with Some show ?thesis by (auto simp: expect_view_def view_inside_def)
qed

definition sequence_wf :: "SequenceResidency \<Rightarrow> bool" where
  "sequence_wf s \<longleftrightarrow>
     view_inside (sr_k_prefix s) (ra_descriptor (sr_k_arena s)) \<and> view_inside (sr_k_append s) (ra_descriptor (sr_k_arena s)) \<and>
     view_inside (sr_v_prefix s) (ra_descriptor (sr_v_arena s)) \<and> view_inside (sr_v_append s) (ra_descriptor (sr_v_arena s)) \<and>
     persistent (ra_descriptor (sr_k_arena s)) \<and> persistent (ra_descriptor (sr_v_arena s)) \<and>
     persistent (ra_descriptor (sr_invocation_allocation s)) \<and>
     distinct [ra_buffer_id (sr_k_arena s), ra_buffer_id (sr_v_arena s), ra_buffer_id (sr_invocation_allocation s)]"

lemma sequence_prepare_Ok:
  assumes "sequence_prepare spec c = (Ok s, c')"
  shows "sequence_wf s" and "sequence_new (ss_capacity spec) = Ok (sr_state s)"
    and "sr_invocation_state s = invocation_state_reset (is_epoch (sr_state s))"
    and "sr_k_arena s = \<lparr>ra_identity = AllocationIdentity c, ra_descriptor = ss_k_arena spec\<rparr>"
    and "sr_v_arena s = \<lparr>ra_identity = AllocationIdentity (c + 1), ra_descriptor = ss_v_arena spec\<rparr>"
    and "sr_invocation_allocation s = \<lparr>ra_identity = AllocationIdentity (c + 2), ra_descriptor = ss_invocation_state spec\<rparr>"
    and "[sr_k_prefix s, sr_k_append s, sr_v_prefix s, sr_v_append s] =
      [ss_k_prefix spec, ss_k_append spec, ss_v_prefix spec, ss_v_append spec]"
    and "c' = c + 3"
  using assms by (auto simp: sequence_prepare_def flow sequence_wf_def ra_buffer_id_def)

lemma session_prepare_Ok:
  assumes "session_prepare ms qs c = (Ok s, c')"
  obtains c1 where "model_prepare ms c = (Ok (sn_model s), c1)" "sequence_prepare qs c1 = (Ok (sn_sequence s), c')"
    "distinct (map ra_buffer_id (session_residents s))" "sn_released_allocations s = 0" "sn_live_handles s"
    "sn_cache_clear_bytes s = 0" "sn_buffer_zero_fill_bytes s = 0" "sn_old_prefix_copy_bytes s = 0"
proof -
  from assms obtain m c1 q where "model_prepare ms c = (Ok m, c1)" "sequence_prepare qs c1 = (Ok q, c')"
    "session_compose m q = Ok s" by (auto simp: session_prepare_def flow)
  then show ?thesis by (intro that) (auto simp: session_compose_def flow session_residents_def)
qed

text \<open>The identities are the consecutive values of the counter, so no two objects share one.\<close>

lemma prepared_identities:
  assumes "session_prepare ms qs c = (Ok s, c')"
  shows "map ra_identity (session_residents s) =
      map (\<lambda>i. AllocationIdentity (c + of_nat i)) [0..<length (session_residents s)]"
proof -
  from assms obtain c1 where m: "model_prepare ms c = (Ok (sn_model s), c1)"
    and q: "sequence_prepare qs c1 = (Ok (sn_sequence s), c')" by (rule session_prepare_Ok)
  note ws = residents_new_Ok [OF model_prepare_Ok(1) [OF m]]
  then have "map ra_descriptor (mr_weights (sn_model s)) = sp_weights ms" by simp
  then have len: "length (sp_weights ms) = length (mr_weights (sn_model s))" by (metis length_map)
  have "[0..<length (session_residents s)] =
      [0..<length (mr_weights (sn_model s))] @ map (\<lambda>i. length (mr_weights (sn_model s)) + i) [0, 1, 2]"
    by (simp add: session_residents_def numeral_3_eq_3)
  with ws len sequence_prepare_Ok(4-6) [OF q] show ?thesis
    by (simp add: session_residents_def add.assoc)
qed

lemma identities_distinct:
  assumes "session_prepare ms qs c = (Ok s, c')" "length (session_residents s) < 2 ^ 64"
  shows "distinct (map ra_identity (session_residents s))"
proof -
  have "inj_on (\<lambda>i. c + of_nat i) {0..<length (session_residents s)}"
  proof (rule inj_onI)
    fix i j assume ij: "i \<in> {0..<length (session_residents s)}" "j \<in> {0..<length (session_residents s)}"
      "c + of_nat i = c + of_nat j"
    from ij(3) have "unat (of_nat i :: u64) = unat (of_nat j :: u64)" by simp
    with ij(1,2) assms(2) show "i = j" by (simp add: unat_of_nat)
  qed
  then show ?thesis
    unfolding prepared_identities [OF assms(1)] by (auto simp: distinct_map inj_on_def)
qed

section \<open>Sessions reached from a prepared one\<close>

datatype ResidencyCall =
    SessionCommit PlannedInvocation
  | SessionCommitTransaction InvocationTransaction
  | SessionFail InvocationTransaction
  | SessionReset
  | SessionRelease

fun session_call :: "ResidencyCall \<Rightarrow> (SessionResidency, SequenceAnswer, SessionError) step" where
  "session_call (SessionCommit p) = answered AnswerFacts (session_commit p)"
| "session_call (SessionCommitTransaction tx) = answered AnswerFacts (session_commit_transaction tx)"
| "session_call (SessionFail tx) = answered AnswerFailure (session_fail tx)"
| "session_call SessionReset = answered AnswerReset session_logical_reset"
| "session_call SessionRelease = answered (\<lambda>_. AnswerUnit) session_release"

fun sequence_of_call :: "ResidencyCall \<Rightarrow> SequenceCall" where
  "sequence_of_call (SessionCommit p) = SeqCommit p"
| "sequence_of_call (SessionCommitTransaction tx) = SeqCommitTransaction tx"
| "sequence_of_call (SessionFail tx) = SeqFail tx"
| "sequence_of_call SessionReset = SeqLogicalReset"
| "sequence_of_call SessionRelease = SeqRelease"

definition session_state :: "SessionResidency \<Rightarrow> InferenceSessionState" where
  "session_state s = sr_state (sn_sequence s)"

inductive session_reach :: "SessionResidency \<Rightarrow> SessionResidency \<Rightarrow> bool" for s0 where
  start: "session_reach s0 s0"
| step: "session_reach s0 s \<Longrightarrow> (\<And>p. call_plan (sequence_of_call c) = Some p \<Longrightarrow> plan_issued p) \<Longrightarrow>
    session_call c s = (r, t) \<Longrightarrow> session_reach s0 t"

text \<open>
  A call of the session is the call of its machine, and an error changes nothing.
\<close>

lemma atomic_son [atomic]:
  assumes "fail_closed m" "\<And>s. put (get s) s = s"
  shows "fail_closed (son get put m)"
  unfolding fail_closed_def
proof (intro allI impI)
  fix s e t
  assume "son get put m s = (Err e, t)"
  then obtain u where "m (get s) = (Err e, u)" "t = put u s" by (auto simp: son_def split: prod.splits)
  moreover from this(1) assms(1) have "u = get s" unfolding fail_closed_def by blast
  ultimately show "t = s" by (simp add: assms(2))
qed

lemma atomic_then_total [atomic]:
  assumes "fail_closed m" "\<And>x s e t. k x s \<noteq> (Err e, t)"
  shows "fail_closed (sthen m k)"
  using assms by (auto simp: fail_closed_def elim!: sthen_cases)

lemma atomic_on_sequence:
  "fail_closed m \<Longrightarrow> fail_closed (on_sequence m)" "fail_closed n \<Longrightarrow> fail_closed (on_state n)"
  by (auto simp: on_sequence_def on_state_def intro: atomic_son)

lemma session_call_atomic: "fail_closed (session_call c)"
proof -
  have total: "sthen (smodify f) (\<lambda>_. slift (Ok x)) s \<noteq> (Err e, t)" "smodify f s \<noteq> (Err e, t)"
    for f x s e t by (simp_all add: slift_def smodify_def)
  have commit: "fail_closed (residency_commit p)" for p
    unfolding residency_commit_def by (intro atomic_then_total atomic_on_sequence atomic_commit total(1))
  have reset: "fail_closed residency_logical_reset"
    unfolding residency_logical_reset_def by (intro atomic_then_total atomic_on_sequence atomic_reset total(1))
  have release: "fail_closed sequence_release"
    using sequence_call_atomic [of SeqRelease] by (auto simp: fail_closed_def answered_Err_iff)
  have "fail_closed session_logical_reset"
    unfolding session_logical_reset_def by (intro atomic_then_total atomic_on_sequence reset total(1))
  moreover have "fail_closed session_release"
    unfolding session_release_def residency_release_def by (intro atomic_then_total atomic_on_sequence release total(2))
  ultimately show ?thesis
    by (cases c) (auto intro!: atomic_answered atomic_on_sequence commit atomic_fail
      simp: session_commit_def session_commit_transaction_def residency_commit_transaction_def
        session_fail_def residency_fail_def)
qed

text \<open>
  \<open>simulates f m n\<close>: what \<open>m\<close> does to a state, \<open>n\<close> does to its image under \<open>f\<close>, with the same answer.
\<close>

definition simulates :: "('s \<Rightarrow> 't) \<Rightarrow> ('s, 'a, 'e) step \<Rightarrow> ('t, 'a, 'e) step \<Rightarrow> bool" where
  "simulates f m n \<longleftrightarrow> (\<forall>s r t. m s = (r, t) \<longrightarrow> n (f s) = (r, f t))"

lemma simulates_then:
  assumes "simulates f m n" "\<And>x s. \<exists>t. k x s = (Ok x, t) \<and> f t = f s"
  shows "simulates f (sthen m k) n"
  unfolding simulates_def
proof (intro allI impI)
  fix s r t
  assume "sthen m k s = (r, t)"
  then show "n (f s) = (r, f t)"
  proof (cases rule: sthen_cases)
    case (1 e)
    with assms(1) show ?thesis unfolding simulates_def by blast
  next
    case (2 x u)
    with assms(2) [of x u] have "r = Ok x" "f t = f u" by auto
    moreover have "n (f s) = (Ok x, f u)" using 2(1) assms(1) unfolding simulates_def by blast
    ultimately show ?thesis by simp
  qed
qed

lemma simulates_answered: "simulates f m n \<Longrightarrow> simulates f (answered g m) (answered g n)"
  unfolding simulates_def answered_def by (force split: prod.splits result.splits)

lemma simulates_on:
  "simulates sr_state (on_state m) m"
  "simulates sr_state n m \<Longrightarrow> simulates session_state (on_sequence n) m"
  unfolding on_state_def on_sequence_def
  by (auto simp: simulates_def session_state_def son_def split: prod.splits)

lemma residency_commit_sim: "simulates sr_state (residency_commit p) (sequence_commit p)"
  unfolding residency_commit_def
  by (rule simulates_then [OF simulates_on(1)]) (simp add: slift_def sync_invocation_state_def)

lemma residency_reset_sim: "simulates sr_state residency_logical_reset logical_reset"
  unfolding residency_logical_reset_def
  by (rule simulates_then [OF simulates_on(1)]) (simp add: slift_def sync_invocation_state_reset_def)

lemma session_reset_sim: "simulates session_state session_logical_reset logical_reset"
  unfolding session_logical_reset_def
  by (rule simulates_then [OF simulates_on(2) [OF residency_reset_sim]]) (simp add: slift_def session_state_def)

lemma session_release_sim: "simulates session_state session_release sequence_release"
  unfolding session_release_def residency_release_def
  by (rule simulates_then [OF simulates_on(2) [OF simulates_on(1)]]) (simp add: smodify_def session_state_def)

lemma session_call_sim: "simulates session_state (session_call c) (sequence_call (sequence_of_call c))"
  by (cases c)
    (auto intro!: simulates_answered simulates_on residency_commit_sim session_reset_sim session_release_sim
      simp: session_commit_def session_commit_transaction_def residency_commit_transaction_def
        sequence_commit_transaction_def session_fail_def residency_fail_def)

lemma session_call_simD:
  "session_call c s = (r, t) \<Longrightarrow> sequence_call (sequence_of_call c) (session_state s) = (r, session_state t)"
  using session_call_sim [of c] unfolding simulates_def by blast

text \<open>What a session keeps of the prepared one, and the words the device reads.\<close>

definition same_residents :: "SessionResidency \<Rightarrow> SessionResidency \<Rightarrow> bool" where
  "same_residents s0 s \<longleftrightarrow> sn_model s = sn_model s0 \<and> session_residents s = session_residents s0 \<and>
     kv_views (cache_plan (sn_sequence s)) = kv_views (cache_plan (sn_sequence s0)) \<and>
     sn_cache_clear_bytes s = sn_cache_clear_bytes s0 \<and> sn_buffer_zero_fill_bytes s = sn_buffer_zero_fill_bytes s0 \<and>
     sn_old_prefix_copy_bytes s = sn_old_prefix_copy_bytes s0"

definition shadows_sequence :: "SequenceResidency \<Rightarrow> bool" where
  "shadows_sequence s \<longleftrightarrow> sr_invocation_state s =
     (case is_last_commit (sr_state s) of
        None \<Rightarrow> invocation_state_reset (is_epoch (sr_state s))
      | Some f \<Rightarrow> \<lparr>iv_position = cf_write_position f, iv_valid_len_after = cf_valid_len_after f,
                    iv_query_rows = cf_query_rows f, iv_sequence_epoch = is_epoch (sr_state s)\<rparr>)"

definition handles_accounted :: "SessionResidency \<Rightarrow> bool" where
  "handles_accounted s \<longleftrightarrow> sn_live_handles s = (\<not> is_released (session_state s)) \<and>
     sn_released_allocations s = (if sn_live_handles s then 0 else session_allocations s)"

lemmas session_ops = session_commit_def session_commit_transaction_def residency_commit_transaction_def
  residency_commit_def session_fail_def residency_fail_def session_logical_reset_def residency_logical_reset_def
  session_release_def residency_release_def on_sequence_def on_state_def

lemma same_residents_refl [simp]: "same_residents s s"
  by (simp add: same_residents_def)

lemma session_call_frame:
  assumes "session_call c s = (Ok a, t)"
  shows "same_residents s t"
  using assms
  by (cases c) (auto simp: session_ops flow same_residents_def session_residents_def cache_plan_def
      sync_invocation_state_def sync_invocation_state_reset_def)

lemma saturating_zero [simp]: "saturating_add 0 x = x"
  by (simp add: saturating_add_def u64_MAX_def) (metis unat_u64_lt not_less)

lemma session_call_accounts:
  assumes "session_call c s = (Ok a, t)" "handles_accounted s"
  shows "handles_accounted t"
  using assms
  by (cases c) (auto simp: session_ops flow handles_accounted_def session_state_def session_allocations_def
      sync_invocation_state_def sync_invocation_state_reset_def commit_effect_def poison_effect_def reset_effect_def
      split: option.splits if_splits)

lemma session_call_mirrors:
  assumes "session_call c s = (Ok a, t)" "shadows_sequence (sn_sequence s)"
  shows "shadows_sequence (sn_sequence t)"
  using assms
  by (cases c) (auto simp: session_ops flow shadows_sequence_def
      sync_invocation_state_def sync_invocation_state_reset_def commit_effect_def poison_effect_def reset_effect_def
      split: option.splits if_splits)

lemma same_residents_trans: "same_residents r s \<Longrightarrow> same_residents s t \<Longrightarrow> same_residents r t"
  by (simp add: same_residents_def)

lemma session_reach_ok:
  assumes "session_reach s0 s" "session_prepare ms qs c = (Ok s0, c')"
  shows "sequence_live (session_state s) \<and> same_residents s0 s \<and> shadows_sequence (sn_sequence s) \<and> handles_accounted s"
  using assms
proof (induction rule: session_reach.induct)
  case start
  from start obtain c1 where q: "sequence_prepare qs c1 = (Ok (sn_sequence s0), c')"
    and live: "sn_live_handles s0" "sn_released_allocations s0 = 0" by (rule session_prepare_Ok)
  note new = sequence_prepare_Ok(2) [OF q]
  then have "is_last_commit (sr_state (sn_sequence s0)) = None" "\<not> is_released (sr_state (sn_sequence s0))"
    by (auto simp: sequence_new_def dest!: sym [of _ "sr_state (sn_sequence s0)"] split: if_splits)
  with sequence_prepare_Ok(3) [OF q] live live_new [OF new] show ?case
    by (simp add: session_state_def shadows_sequence_def handles_accounted_def)
next
  case (step s c r t)
  have live: "sequence_live (session_state t)"
    using step.IH [OF step.prems] session_call_simD [OF step.hyps(3)] by (auto intro: live_call step.hyps(2))
  show ?case
  proof (cases r)
    case (Err e)
    with step.hyps(3) session_call_atomic [of c] have "t = s" by (simp add: fail_closed_def)
    with step.IH [OF step.prems] show ?thesis by simp
  next
    case (Ok a)
    with step.hyps(3) have call: "session_call c s = (Ok a, t)" by simp
    from step.IH [OF step.prems] live session_call_frame [OF call] session_call_mirrors [OF call]
      session_call_accounts [OF call] same_residents_trans show ?thesis by blast
  qed
qed

section \<open>Admission\<close>

lemma two_elements:
  assumes "length xs = 2"
  shows "xs = [xs ! 0, xs ! 1]"
  using assms by (cases xs; cases "tl xs") auto

lemma split_Ok:
  assumes "split_prefix_append views a = Ok (p, q)"
  shows "mset [p, q] = mset (filter (\<lambda>v. vw_allocation v = al_id a) views)" and "unat (vw_span q) < unat (vw_span p)"
proof -
  let ?owned = "filter (\<lambda>v. vw_allocation v = al_id a) views"
  from assms have two: "length ?owned = 2"
    and pq: "vw_span (?owned ! 0) \<noteq> vw_span (?owned ! 1)"
      "(p, q) = (if vw_span (?owned ! 1) < vw_span (?owned ! 0) then (?owned ! 0, ?owned ! 1) else (?owned ! 1, ?owned ! 0))"
    unfolding split_prefix_append_def Let_def by (simp_all split: if_splits)
  have "mset ?owned = mset [?owned ! 0, ?owned ! 1]" using two_elements [OF two] by metis
  with pq(2) show "mset [p, q] = mset ?owned" by (auto split: if_splits)
  from pq show "unat (vw_span q) < unat (vw_span p)"
    unfolding word_less_nat_alt [symmetric] by (auto split: if_splits)
qed

lemma spec_from_kv_Ok:
  assumes "sequence_spec_from_kv kv inv_state cap = Ok spec"
  shows "kv_allocations kv = [ss_k_arena spec, ss_v_arena spec]"
    and "split_prefix_append (kv_views kv) (ss_k_arena spec) = Ok (ss_k_prefix spec, ss_k_append spec)"
    and "split_prefix_append (kv_views kv) (ss_v_arena spec) = Ok (ss_v_prefix spec, ss_v_append spec)"
    and "ss_capacity spec = cap" and "ss_invocation_state spec = inv_state"
proof -
  from assms have two: "length (kv_allocations kv) = 2" by (simp add: sequence_spec_from_kv_def split: if_splits)
  with assms have "ss_k_arena spec = kv_allocations kv ! 0 \<and> ss_v_arena spec = kv_allocations kv ! 1 \<and>
      split_prefix_append (kv_views kv) (ss_k_arena spec) = Ok (ss_k_prefix spec, ss_k_append spec) \<and>
      split_prefix_append (kv_views kv) (ss_v_arena spec) = Ok (ss_v_prefix spec, ss_v_append spec) \<and>
      ss_capacity spec = cap \<and> ss_invocation_state spec = inv_state"
    by (auto simp: sequence_spec_from_kv_def Let_def and_then_Ok_iff split: prod.splits)
  then show "kv_allocations kv = [ss_k_arena spec, ss_v_arena spec]"
    and "split_prefix_append (kv_views kv) (ss_k_arena spec) = Ok (ss_k_prefix spec, ss_k_append spec)"
    and "split_prefix_append (kv_views kv) (ss_v_arena spec) = Ok (ss_v_prefix spec, ss_v_append spec)"
    and "ss_capacity spec = cap" and "ss_invocation_state spec = inv_state"
    using two_elements [OF two] by metis+
qed

text \<open>A valid plan with two allocations has no views but those of the two.\<close>

lemma views_of_two:
  assumes "kv_valid kv" "kv_allocations kv = [k, v]"
  shows "mset (kv_views kv) = mset (filter (\<lambda>w. vw_allocation w = al_id k) (kv_views kv)) +
      mset (filter (\<lambda>w. vw_allocation w = al_id v) (kv_views kv))"
proof -
  have ids: "al_id k \<noteq> al_id v" using assms by (simp add: kv_valid_def allocations_valid_def)
  have own: "\<forall>w\<in>set (kv_views kv). vw_allocation w = al_id k \<or> vw_allocation w = al_id v"
    using assms by (auto simp: kv_valid_def view_valid_def fits_in_def)
  have "mset ws = mset (filter (\<lambda>w. vw_allocation w = al_id k) ws) + mset (filter (\<lambda>w. vw_allocation w = al_id v) ws)"
    if "\<forall>w\<in>set ws. vw_allocation w = al_id k \<or> vw_allocation w = al_id v" for ws
    using that ids by (induction ws) auto
  with own show ?thesis by blast
qed

lemma programs_admit_Ok:
  assumes "programs_admit d c = (Ok p, c')"
  obtains spec where "admit_checks d = Ok ()" "kv_valid (ad_kv d)"
    "sequence_spec_from_kv (ad_kv d) (ad_invocation_state d) (ad_capacity d) = Ok spec"
    "session_prepare \<lparr>sp_identity = ad_identity d, sp_prefill_artifact = ad_prefill_artifact d,
        sp_decode_artifact = ad_decode_artifact d, sp_verification_artifact = ad_verification_artifact d,
        sp_weights = ad_weights d\<rparr> spec c = (Ok (ip_residency p), c')"
    "ip_prefill p = graph_of ModePrefill (ad_prefill_query_rows d) d"
    "ip_scalar_decode p = graph_of ModeScalarDecode 1 d"
    "ip_verification p = graph_of ModeVerification (ad_verification_query_rows d) d" "ip_kv p = ad_kv d"
  using assms
  by (auto simp: programs_admit_def flow admit_kv_plan_def kv_validate_Ok_iff SCALAR_DECODE_QUERY_ROWS_def)

lemma admitted_cache_plan:
  assumes "programs_admit d c = (Ok p, c')"
  defines "plan \<equiv> cache_plan (sn_sequence (ip_residency p))"
  shows "kv_allocations plan = kv_allocations (ad_kv d)" and "mset (kv_views plan) = mset (kv_views (ad_kv d))"
    and "kv_validate plan = Ok ()"
proof -
  from assms(1) obtain spec where kv: "kv_valid (ad_kv d)"
    and spec: "sequence_spec_from_kv (ad_kv d) (ad_invocation_state d) (ad_capacity d) = Ok spec"
    and prep: "session_prepare \<lparr>sp_identity = ad_identity d, sp_prefill_artifact = ad_prefill_artifact d,
        sp_decode_artifact = ad_decode_artifact d, sp_verification_artifact = ad_verification_artifact d,
        sp_weights = ad_weights d\<rparr> spec c = (Ok (ip_residency p), c')" by (rule programs_admit_Ok)
  from prep obtain c1 where q: "sequence_prepare spec c1 = (Ok (sn_sequence (ip_residency p)), c')"
    by (rule session_prepare_Ok)
  note sq = sequence_prepare_Ok(4,5,7) [OF q] and sp = spec_from_kv_Ok [OF spec]
  show allocs: "kv_allocations plan = kv_allocations (ad_kv d)"
    using sq sp(1) by (simp add: plan_def cache_plan_def)
  have "kv_views plan = [ss_k_prefix spec, ss_k_append spec] @ [ss_v_prefix spec, ss_v_append spec]"
    using sq(3) by (simp add: plan_def cache_plan_def)
  then show views: "mset (kv_views plan) = mset (kv_views (ad_kv d))"
    unfolding views_of_two [OF kv sp(1)] split_Ok(1) [OF sp(2), symmetric] split_Ok(1) [OF sp(3), symmetric]
    by (simp add: ac_simps)
  then have "set (kv_views plan) = set (kv_views (ad_kv d))" by (rule mset_eq_setD)
  then have "kv_valid plan"
    using kv allocs by (simp add: kv_valid_def) (simp add: plan_def cache_plan_def)
  then show "kv_validate plan = Ok ()" by (simp add: kv_validate_Ok_iff)
qed

lemma admitted_fresh:
  assumes "programs_admit d c = (Ok p, c')"
  shows "sequence_new (ad_capacity d) = Ok (session_state (ip_residency p))"
proof -
  from assms obtain spec where spec: "sequence_spec_from_kv (ad_kv d) (ad_invocation_state d) (ad_capacity d) = Ok spec"
    and prep: "session_prepare \<lparr>sp_identity = ad_identity d, sp_prefill_artifact = ad_prefill_artifact d,
        sp_decode_artifact = ad_decode_artifact d, sp_verification_artifact = ad_verification_artifact d,
        sp_weights = ad_weights d\<rparr> spec c = (Ok (ip_residency p), c')" by (rule programs_admit_Ok)
  from prep obtain c1 where "sequence_prepare spec c1 = (Ok (sn_sequence (ip_residency p)), c')"
    by (rule session_prepare_Ok)
  from sequence_prepare_Ok(2) [OF this] spec_from_kv_Ok(4) [OF spec] show ?thesis by (simp add: session_state_def)
qed

lemma admitted_prefill_starts:
  assumes "programs_admit d c = (Ok p, c')"
  shows "begin_selected ModePrefill p = Ok (plan_at ModePrefill (ad_prefill_query_rows d) (session_state (ip_residency p)))"
proof -
  from assms have rows: "ig_query_rows (ip_prefill p) = ad_prefill_query_rows d" and checks: "admit_checks d = Ok ()"
    by (auto elim!: programs_admit_Ok simp: graph_of_def)
  from checks have "ad_prefill_query_rows d \<noteq> 0" "ad_prefill_query_rows d \<le> ad_capacity d"
    by (simp_all add: admit_checks_def not_less split: if_splits)
  moreover have "session_state (ip_residency p) =
      \<lparr>is_capacity = ad_capacity d, is_valid_len = 0, is_epoch = 1, is_phase = PhaseFresh,
        is_released = False, is_last_commit = None, is_poisoned_invocation = None\<rparr>"
    using admitted_fresh [OF assms] by (simp add: sequence_new_def split: if_splits)
  ultimately show ?thesis
    unfolding begin_selected_def session_begin_invocation_def session_state_def [symmetric] begin_invocation_Ok_iff
    by (simp add: programs_select_def rows sequence_mutable_def mode_admits_def word_le_nat_alt)
qed

lemma single_row_verification:
  assumes "programs_admit d c = (Ok p, c')" "ad_verification_query_rows d = 1"
  shows "begin_selected ModeVerification (p\<lparr>ip_residency := s\<rparr>) \<noteq> Ok plan"
proof -
  from assms have "ig_query_rows (ip_verification p) = 1"
    by (auto elim!: programs_admit_Ok simp: graph_of_def)
  moreover have "\<not> (2 :: u32) \<le> 1" by (simp add: word_le_nat_alt)
  ultimately show ?thesis
    unfolding begin_selected_def session_begin_invocation_def begin_invocation_Ok_iff
    by (simp add: programs_select_def mode_admits_def)
qed

end
