(* ===== verification/Sample_Sequence.thy ===== *)
theory Sample_Sequence
  imports Invocation_Programs
begin

text \<open>
  A concrete sequence of capacity 8 for the witnesses: a prefill of three rows, a verification of four
  rows of which two are accepted, a poisoned decode; and an admitted model session with two arenas of
  64 bytes.
\<close>

definition sequence0 :: InferenceSessionState where
  "sequence0 = \<lparr>is_capacity = 8, is_valid_len = 0, is_epoch = 1, is_phase = PhaseFresh, is_released = False,
     is_last_commit = None, is_poisoned_invocation = None\<rparr>"

definition plan0 :: PlannedInvocation where
  "plan0 = plan_at ModePrefill 3 sequence0"

definition sequence1 :: InferenceSessionState where
  "sequence1 = commit_effect plan0 sequence0"

definition plan1 :: PlannedInvocation where
  "plan1 = plan_at ModeVerification 4 sequence1"

definition tx1 :: InvocationTransaction where
  "tx1 = \<lparr>it_plan = plan1, it_possible_mutation = None\<rparr>"

definition sequence2 :: InferenceSessionState where
  "sequence2 = accept_effect (accepted_facts 2 (pi_coordinates plan1)) sequence1"

lemmas sample_sequence = sequence0_def plan0_def sequence1_def plan1_def tx1_def sequence2_def plan_at_def
  commit_effect_def accept_effect_def accepted_facts_def

lemma sequence0_new: "sequence_new 8 = Ok sequence0"
  by (simp add: sequence_new_def sequence0_def)

lemma sequence0_live: "sequence_live sequence0"
  by (rule live_new [OF sequence0_new])

lemma plan0_begun: "begin_invocation ModePrefill 3 sequence0 = Ok plan0"
  by (simp add: begin_invocation_Ok_iff sample_sequence sequence_mutable_def mode_admits_def)

lemma plan0_issued: "plan_issued plan0"
  by (rule issue [OF sequence0_live plan0_begun])

lemma plan0_committed: "sequence_call (SeqCommit plan0) sequence0 = (Ok (AnswerFacts (pi_coordinates plan0)), sequence1)"
  by (simp add: answered_Ok_iff sequence_commit_Ok_iff sequence1_def) (simp add: sample_sequence sequence_mutable_def plan_matches_def)

lemma sequence1_live: "sequence_live sequence1"
  using live_call [OF sequence0_live _ plan0_committed] plan0_issued by simp

lemma plan1_begun: "begin_invocation ModeVerification 4 sequence1 = Ok plan1"
  unfolding begin_invocation_Ok_iff
  by (simp add: sample_sequence sequence_mutable_def mode_admits_def word_le_nat_alt)

lemma plan1_issued: "plan_issued plan1"
  by (rule issue [OF sequence1_live plan1_begun])

lemma plan1_accepted:
  "sequence_call (SeqCommitVerification tx1 2) sequence1 =
     (Ok (AnswerVerified (VerificationCommitted 2 (accepted_facts 2 (pi_coordinates plan1)))), sequence2)"
  by (simp add: answered_Ok_iff sequence_verification_Ok_iff sequence2_def tx1_def)
    (simp add: sample_sequence sequence_mutable_def plan_matches_def word_le_nat_alt)

definition sample_calls :: "SequenceCall list" where
  "sample_calls = [SeqCommit plan0, SeqCommitVerification tx1 2, SeqLogicalReset]"

lemma sample_calls_issued: "calls_issued sample_calls"
  using plan0_issued plan1_issued by (simp add: calls_issued_def sample_calls_def tx1_def)

lemma sample_calls_run:
  "\<exists>receipt. sequence_run sample_calls sequence0 =
     ([Ok (AnswerFacts (pi_coordinates plan0)),
       Ok (AnswerVerified (VerificationCommitted 2 (accepted_facts 2 (pi_coordinates plan1)))),
       Ok (AnswerReset receipt)], reset_effect sequence2)"
proof -
  have "\<exists>receipt. sequence_call SeqLogicalReset sequence2 = (Ok (AnswerReset receipt), reset_effect sequence2)"
    unfolding sequence_call.simps answered_Ok_iff logical_reset_Ok_iff
    by (simp add: sample_sequence sequence_mutable_def)
  then show ?thesis
    by (auto simp: sample_calls_def plan0_committed plan1_accepted simp del: sequence_call.simps)
qed

section \<open>An admitted model session\<close>

definition sample_arena :: "u32 \<Rightarrow> DescriptorAllocation" where
  "sample_arena i = \<lparr>al_id = i, al_dtype = DtF32, al_capacity = 64, al_lifetime = PerProgram, al_init = ZeroFill\<rparr>"

definition sample_arena_view :: "u32 \<Rightarrow> u64 \<Rightarrow> DescriptorView" where
  "sample_arena_view i n = \<lparr>vw_allocation = i, vw_dims = [n], vw_strides = [1], vw_base = 0, vw_span = n\<rparr>"

definition sample_invocations :: AdmittedDescriptor where
  "sample_invocations =
     \<lparr>ad_identity = \<lparr>mi_name = ''model'', mi_epoch = 1\<rparr>, ad_prefill_artifact = [1], ad_decode_artifact = [2],
      ad_verification_artifact = [3], ad_verification_query_rows = 3, ad_prefill_query_rows = 2,
      ad_weights = [sample_arena 7],
      ad_kv = \<lparr>kv_allocations = [sample_arena 1, sample_arena 2],
        kv_views = [sample_arena_view 1 64, sample_arena_view 1 8, sample_arena_view 2 8, sample_arena_view 2 64],
        kv_state = invocation_state_reset 0, kv_bindings = []\<rparr>,
      ad_invocation_state = (sample_arena 3)\<lparr>al_capacity := 16\<rparr>, ad_capacity = 8\<rparr>"

definition sample_programs :: InvocationPrograms where
  "sample_programs = (case programs_admit sample_invocations 1 of (Ok p, _) \<Rightarrow> p | _ \<Rightarrow> undefined)"

lemma admitted_kv_valid: "kv_validate (ad_kv sample_invocations) = Ok ()"
  unfolding kv_validate_Ok_iff
  by (simp add: sample_invocations_def kv_valid_def allocations_valid_def view_valid_def fits_in_def
      sample_arena_def sample_arena_view_def)

lemma sample_admits: "\<exists>p c. programs_admit sample_invocations 1 = (Ok p, c)"
  using admitted_kv_valid
  by (simp add: programs_admit_def admit_checks_def admit_kv_plan_def sample_invocations_def sthen_lift
      sequence_spec_from_kv_def split_prefix_append_def session_prepare_def model_prepare_def sequence_prepare_def
      sample_arena_def sample_arena_view_def expect_view_def checked_add_def expect_unique_buffer_ids_def
      resident_new_def expect_persistent_def mint_identity_def sthen_def slift_def session_compose_def
      ra_buffer_id_def sequence_new_def Let_def ensure_def)

lemma sample_programs_admitted: "\<exists>c. programs_admit sample_invocations 1 = (Ok sample_programs, c)"
  using sample_admits by (auto simp: sample_programs_def)

end
