(* ===== verification/Device_Host.thy ===== *)
theory Device_Host
  imports Cuda_Safety Metal_Safety Kv_Cache
begin

text \<open>
  The uniform device surface of \<open>macos-arm64/src/device_host.rs\<close>: one runtime that is a Metal or a CUDA
  session, handles that carry their backend, launch bindings checked against allocations and views
  before a session is touched. The two drivers are the records of Metal_Session and Cuda_Session.
\<close>

section \<open>Bindings\<close>

definition E_DEVICE_INVALID_HANDLE :: string where
  "E_DEVICE_INVALID_HANDLE = ''E_DEVICE_INVALID_HANDLE''"

definition E_CUDA_UNSUPPORTED :: string where
  "E_CUDA_UNSUPPORTED = ''E_CUDA_UNSUPPORTED''"

definition device_invalid_handle :: "DeviceHandle \<Rightarrow> HostError" where
  "device_invalid_handle h =
     \<lparr>he_code = E_DEVICE_INVALID_HANDLE,
      he_message = ''device handle '' @ display_u64 (dh_id h) @ '' from backend '' @
        DeviceBackend_spelling (dh_backend h) @ '' cannot be used on a session for a different backend'',
      he_retryable = False\<rparr>"

record DeviceLaunchBinding =
  db_handle :: DeviceHandle
  db_binding_index :: u32
  db_byte_offset :: u64
  db_view_span :: u64
  db_runtime_source :: DescriptorRuntimeSource

definition whole_handle :: "DeviceHandle \<Rightarrow> u32 \<Rightarrow> (DeviceLaunchBinding, HostError) result" where
  "whole_handle h i =
     (case handle_len_bytes h of
        None \<Rightarrow> Err (device_invalid_handle h)
      | Some span \<Rightarrow> Ok \<lparr>db_handle = h, db_binding_index = i, db_byte_offset = 0, db_view_span = span,
                          db_runtime_source = SourceConstant\<rparr>)"

definition is_cuda_dynamic :: "DeviceLaunchBinding \<Rightarrow> bool" where
  "is_cuda_dynamic b \<longleftrightarrow> db_byte_offset b \<noteq> 0 \<or> db_runtime_source b \<noteq> SourceConstant"

fun runtime_source_spelling :: "DescriptorRuntimeSource \<Rightarrow> string" where
  "runtime_source_spelling SourceConstant = ''constant''"
| "runtime_source_spelling SourcePosition = ''position''"
| "runtime_source_spelling SourceValidLenAfter = ''valid_len_after''"
| "runtime_source_spelling SourceQueryRows = ''query_rows''"
| "runtime_source_spelling SourceSequenceEpoch = ''sequence_epoch''"

definition cuda_dynamic_unsupported :: "DeviceLaunchBinding \<Rightarrow> HostError" where
  "cuda_dynamic_unsupported b =
     \<lparr>he_code = E_CUDA_UNSUPPORTED,
      he_message = ''CUDA rejects KV-dynamic launch binding index '' @ display_u32 (db_binding_index b) @
        '' (offset '' @ display_u64 (db_byte_offset b) @ '', source '' @
        runtime_source_spelling (db_runtime_source b) @ ''); this campaign does not bind it at offset zero'',
      he_retryable = False\<rparr>"

record InvocationStateBuffer =
  isb_handle :: DeviceHandle

definition encoded_bytes :: "DescriptorInvocationState \<Rightarrow> u8 list" where
  "encoded_bytes s = u32_to_le_bytes (iv_position s) @ u32_to_le_bytes (iv_valid_len_after s) @
     u32_to_le_bytes (iv_query_rows s) @ u32_to_le_bytes (iv_sequence_epoch s)"

definition metal_handle :: "DeviceHandle \<Rightarrow> (u64, HostError) result" where
  "metal_handle h = (if dh_backend h \<noteq> Metal then Err (device_invalid_handle h) else Ok (dh_id h))"

definition cuda_handle :: "DeviceHandle \<Rightarrow> (u64, HostError) result" where
  "cuda_handle h = (if dh_backend h \<noteq> Cuda then Err (device_invalid_handle h) else Ok (dh_id h))"

definition metal_from_device_binding :: "DeviceLaunchBinding \<Rightarrow> (MetalLaunchBinding, HostError) result" where
  "metal_from_device_binding b =
     and_then (metal_handle (db_handle b)) (\<lambda>i.
     Ok \<lparr>mb_handle = i, mb_binding_index = db_binding_index b, mb_byte_offset = db_byte_offset b,
         mb_view_span = db_view_span b\<rparr>)"

definition whole_handle_at :: "nat \<times> DeviceHandle \<Rightarrow> (DeviceLaunchBinding, HostError) result" where
  "whole_handle_at p =
     and_then (if fst p < 2 ^ 32 then Ok (of_nat (fst p))
       else Err (err_descriptor ''launch buffer count exceeds a u32 binding index'')) (\<lambda>i. whole_handle (snd p) i)"

definition whole_handle_bindings :: "DeviceHandle list \<Rightarrow> (DeviceLaunchBinding list, HostError) result" where
  "whole_handle_bindings buffers = try_map whole_handle_at (List.enumerate 0 buffers)"

definition place_handle ::
    "DeviceLaunchBinding list \<Rightarrow> DeviceLaunchBinding \<Rightarrow> DeviceHandle option list
       \<Rightarrow> (DeviceHandle option list, HostError) result" where
  "place_handle bindings b slots =
     (let i = unat (db_binding_index b) in
      if length slots \<le> i then
        Err (err_abi_mismatch (''launch binding index '' @ display_u32 (db_binding_index b) @
          '' is outside 0..'' @ show_nat (length bindings)))
      else if slots ! i \<noteq> None then
        Err (err_abi_mismatch (''launch binding index '' @ display_u32 (db_binding_index b) @ '' is declared twice''))
      else Ok (slots[i := Some (db_handle b)]))"

definition filled_handle :: "nat \<times> DeviceHandle option \<Rightarrow> (DeviceHandle, HostError) result" where
  "filled_handle p = ok_or (snd p) (err_abi_mismatch (''launch binding index '' @ show_nat (fst p) @
     '' was validated then dropped before launch''))"

definition handles_in_binding_order :: "DeviceLaunchBinding list \<Rightarrow> (DeviceHandle list, HostError) result" where
  "handles_in_binding_order bindings =
     and_then (try_fold (place_handle bindings) bindings (replicate (length bindings) None)) (\<lambda>slots.
     try_map filled_handle (List.enumerate 0 slots))"

definition validate_dispatch_binding :: "DeviceBackend \<Rightarrow> DeviceLaunchBinding \<Rightarrow> (unit, HostError) result" where
  "validate_dispatch_binding backend b =
     (let name = ''launch binding index '' @ display_u32 (db_binding_index b) in
      if dh_backend (db_handle b) \<noteq> backend then Err (device_invalid_handle (db_handle b))
      else if db_view_span b = 0 then Err (err_descriptor (name @ '' has a zero view span''))
      else case handle_len_bytes (db_handle b) of
        None \<Rightarrow> Err (device_invalid_handle (db_handle b))
      | Some capacity \<Rightarrow>
          (case checked_add (db_byte_offset b) (db_view_span b) of
             None \<Rightarrow> Err (err_shape_mismatch (name @ '' overflows its static envelope''))
           | Some end_at \<Rightarrow>
               if capacity < end_at then
                 Err (err_shape_mismatch (name @ '' spans '' @ display_u64 (db_view_span b) @ '' bytes from offset '' @
                   display_u64 (db_byte_offset b) @ '' but the allocation is '' @ display_u64 capacity @ '' bytes''))
               else if backend = Cuda \<and> is_cuda_dynamic b then Err (cuda_dynamic_unsupported b)
               else Ok ()))"

definition validate_dispatch_bindings :: "DeviceBackend \<Rightarrow> DeviceLaunchBinding list \<Rightarrow> (unit, HostError) result" where
  "validate_dispatch_bindings backend bindings = try_each (validate_dispatch_binding backend) bindings"

section \<open>Launch records of a KV plan\<close>

type_synonym allocation_map = "(u32 \<times> DeviceHandle) list"

definition check_allocation_entry ::
    "KvCacheDescriptor \<Rightarrow> u32 \<times> DeviceHandle \<Rightarrow> u32 list \<Rightarrow> (u32 list, HostError) result" where
  "check_allocation_entry kv entry seen =
     (if List.member seen (fst entry) then
        Err (err_descriptor (''allocation map repeats identity '' @ display_u32 (fst entry)))
      else case List.find (\<lambda>a. al_id a = fst entry) (kv_allocations kv) of
        None \<Rightarrow> Err (err_descriptor (''allocation map names unknown allocation '' @ display_u32 (fst entry)))
      | Some a \<Rightarrow>
          (case handle_len_bytes (snd entry) of
             None \<Rightarrow> Err (device_invalid_handle (snd entry))
           | Some len \<Rightarrow>
               if len \<noteq> al_capacity a then
                 Err (err_shape_mismatch (''allocation '' @ display_u32 (fst entry) @ '' handle is '' @ display_u64 len @
                   '' bytes but descriptor capacity is '' @ display_u64 (al_capacity a) @ '' bytes''))
               else Ok (seen @ [fst entry])))"

definition validate_allocation_map :: "KvCacheDescriptor \<Rightarrow> allocation_map \<Rightarrow> (unit, HostError) result" where
  "validate_allocation_map kv allocations =
     and_then (try_fold (check_allocation_entry kv) allocations []) (\<lambda>_. Ok ())"

definition matching_view :: "KvCacheDescriptor \<Rightarrow> u32 \<Rightarrow> DeviceLaunchBinding \<Rightarrow> DescriptorView option" where
  "matching_view kv i b =
     List.find (\<lambda>v. vw_allocation v = i \<and> vw_base v = db_byte_offset b \<and> db_view_span b \<le> vw_span v) (kv_views kv)"

definition handle_for_allocation :: "allocation_map \<Rightarrow> u32 \<Rightarrow> (DeviceHandle, HostError) result" where
  "handle_for_allocation allocations i =
     ok_or (map_option snd (List.find (\<lambda>e. fst e = i) allocations))
       (err_descriptor (''launch binding names allocation '' @ display_u32 i @ '' with no live handle''))"

definition note_allocation ::
    "DeviceHandle \<Rightarrow> u32 \<times> DeviceHandle \<Rightarrow> u32 option \<Rightarrow> (u32 option, HostError) result" where
  "note_allocation h entry found =
     (if snd entry = h then
        (if found \<noteq> None then
           Err (err_descriptor (''device handle '' @ display_u64 (dh_id h) @ '' is mapped to more than one allocation''))
         else Ok (Some (fst entry)))
      else Ok found)"

definition allocation_id_for_handle :: "allocation_map \<Rightarrow> DeviceHandle \<Rightarrow> (u32, HostError) result" where
  "allocation_id_for_handle allocations h =
     and_then (try_fold (note_allocation h) allocations None) (\<lambda>found.
     ok_or found (err_descriptor (''device handle '' @ display_u64 (dh_id h) @ '' is not in the allocation map'')))"

definition resolve_one_binding ::
    "KvCacheDescriptor \<Rightarrow> allocation_map \<Rightarrow> DescriptorLaunchBinding \<Rightarrow> (DeviceLaunchBinding, HostError) result" where
  "resolve_one_binding kv allocations rec =
     and_then (handle_for_allocation allocations (lb_handle rec)) (\<lambda>h.
     let b = \<lparr>db_handle = h, db_binding_index = lb_index rec, db_byte_offset = lb_offset rec,
              db_view_span = lb_span rec, db_runtime_source = lb_source rec\<rparr> in
     if matching_view kv (lb_handle rec) b = None then
       Err (err_shape_mismatch (''launch binding index '' @ display_u32 (lb_index rec) @ '' offset '' @
         display_u64 (lb_offset rec) @ '' span '' @ display_u64 (lb_span rec) @
         '' does not match a view on allocation '' @ display_u32 (lb_handle rec)))
     else Ok b)"

definition check_resolved ::
    "KvCacheDescriptor \<Rightarrow> allocation_map \<Rightarrow> DeviceLaunchBinding \<Rightarrow> (unit, HostError) result" where
  "check_resolved kv allocations b =
     (let name = ''launch binding index '' @ display_u32 (db_binding_index b) in
      and_then (allocation_id_for_handle allocations (db_handle b)) (\<lambda>i.
      case List.find (\<lambda>a. al_id a = i) (kv_allocations kv) of
        None \<Rightarrow> Err (err_descriptor (name @ '' names unknown allocation '' @ display_u32 i))
      | Some a \<Rightarrow>
          (case checked_add (db_byte_offset b) (db_view_span b) of
             None \<Rightarrow> Err (err_shape_mismatch (name @ '' overflows its static envelope''))
           | Some end_at \<Rightarrow>
               if al_capacity a < end_at then
                 Err (err_shape_mismatch (name @ '' spans '' @ display_u64 (db_view_span b) @ '' bytes from offset '' @
                   display_u64 (db_byte_offset b) @ '' but allocation '' @ display_u32 i @ '' capacity is '' @
                   display_u64 (al_capacity a) @ '' bytes''))
               else if matching_view kv i b = None then
                 Err (err_shape_mismatch (name @ '' offset '' @ display_u64 (db_byte_offset b) @ '' span '' @
                   display_u64 (db_view_span b) @ '' does not match a view on allocation '' @ display_u32 i))
               else Ok ())))"

definition validate_launch_bindings ::
    "KvCacheDescriptor \<Rightarrow> DeviceLaunchBinding list \<Rightarrow> allocation_map \<Rightarrow> (unit, HostError) result" where
  "validate_launch_bindings kv bindings allocations =
     and_then (kv_validate kv) (\<lambda>_.
     and_then (validate_allocation_map kv allocations) (\<lambda>_.
     try_each (check_resolved kv allocations) bindings))"

definition resolve_launch_bindings ::
    "KvCacheDescriptor \<Rightarrow> allocation_map \<Rightarrow> (DeviceLaunchBinding list, HostError) result" where
  "resolve_launch_bindings kv allocations =
     and_then (kv_validate kv) (\<lambda>_.
     and_then (validate_allocation_map kv allocations) (\<lambda>_.
     and_then (try_map (resolve_one_binding kv allocations) (launch_records kv)) (\<lambda>resolved.
     and_then (validate_launch_bindings kv resolved allocations) (\<lambda>_. Ok resolved))))"

section \<open>The runtime\<close>

datatype ('m, 'c) DeviceRuntime = MetalRuntime "'m MetalHostSession" | CudaRuntime "'c CudaHostSession"

type_synonym ('m, 'c, 'a) runtime_step = "(('m, 'c) DeviceRuntime, 'a, HostError) step"

record ('m, 'c) Drivers =
  dr_metal :: "'m MetalDriver"
  dr_cuda :: "'c CudaDriver"

fun runtime_backend :: "('m, 'c) DeviceRuntime \<Rightarrow> DeviceBackend" where
  "runtime_backend (MetalRuntime s) = Metal"
| "runtime_backend (CudaRuntime s) = Cuda"

fun on_runtime ::
    "('m MetalHostSession, 'a, HostError) step \<Rightarrow> ('c CudaHostSession, 'a, HostError) step \<Rightarrow> ('m, 'c, 'a) runtime_step" where
  "on_runtime f g (MetalRuntime s) = (case f s of (r, t) \<Rightarrow> (r, MetalRuntime t))"
| "on_runtime f g (CudaRuntime s) = (case g s of (r, t) \<Rightarrow> (r, CudaRuntime t))"

definition runtime_retain_mapped :: "('m, 'c) Drivers \<Rightarrow> MappedWeightFile \<Rightarrow> ('m, 'c, unit) runtime_step" where
  "runtime_retain_mapped dr f = on_runtime (metal_retain_mapped_file (dr_metal dr) f) (slift (Ok ()))"

fun runtime_live_handle_count :: "('m, 'c) DeviceRuntime \<Rightarrow> nat" where
  "runtime_live_handle_count (MetalRuntime s) = metal_live_handle_count s"
| "runtime_live_handle_count (CudaRuntime s) = cuda_live_handle_count s"

fun runtime_driver_counters :: "('m, 'c) Drivers \<Rightarrow> ('m, 'c) DeviceRuntime \<Rightarrow> DriverCounters" where
  "runtime_driver_counters dr (MetalRuntime s) = metal_driver_counters (dr_metal dr) s"
| "runtime_driver_counters dr (CudaRuntime s) = cuda_driver_counters (dr_cuda dr) s"

fun runtime_record_weight_upload :: "('m, 'c) DeviceRuntime \<Rightarrow> ('m, 'c) DeviceRuntime" where
  "runtime_record_weight_upload (MetalRuntime s) = MetalRuntime (metal_record_weight_upload s)"
| "runtime_record_weight_upload (CudaRuntime s) = CudaRuntime (cuda_record_weight_upload s)"

fun runtime_command_submit_count :: "('m, 'c) Drivers \<Rightarrow> ('m, 'c) DeviceRuntime \<Rightarrow> nat" where
  "runtime_command_submit_count dr (MetalRuntime s) = md_command_submit_count (dr_metal dr) (ms_driver s)"
| "runtime_command_submit_count dr (CudaRuntime s) = 0"

fun runtime_blocking_wait_count :: "('m, 'c) Drivers \<Rightarrow> ('m, 'c) DeviceRuntime \<Rightarrow> nat" where
  "runtime_blocking_wait_count dr (MetalRuntime s) = md_blocking_wait_count (dr_metal dr) (ms_driver s)"
| "runtime_blocking_wait_count dr (CudaRuntime s) = 0"

fun runtime_is_admitted :: "('m, 'c) DeviceRuntime \<Rightarrow> bool" where
  "runtime_is_admitted (MetalRuntime s) = ms_admitted s"
| "runtime_is_admitted (CudaRuntime s) = cs_admitted s"

fun supports_mapped_weight_retention :: "('m, 'c) DeviceRuntime \<Rightarrow> bool" where
  "supports_mapped_weight_retention (MetalRuntime s) = True"
| "supports_mapped_weight_retention (CudaRuntime s) = False"

definition module_handle :: "DeviceBackend \<Rightarrow> u64 \<Rightarrow> DeviceHandle" where
  "module_handle backend i = \<lparr>dh_backend = backend, dh_kind = HandleModule, dh_id = i\<rparr>"

definition buffer_handle :: "DeviceBackend \<Rightarrow> nat \<Rightarrow> u64 \<Rightarrow> DeviceHandle" where
  "buffer_handle backend len i = \<lparr>dh_backend = backend, dh_kind = HandleBuffer (of_nat len), dh_id = i\<rparr>"

definition runtime_load_module :: "('m, 'c) Drivers \<Rightarrow> u8 list \<Rightarrow> ('m, 'c, DeviceHandle) runtime_step" where
  "runtime_load_module dr img = on_runtime
     (sthen (metal_load_module (dr_metal dr) img) (\<lambda>i. slift (Ok (module_handle Metal i))))
     (sthen (cuda_load_module (dr_cuda dr) img) (\<lambda>i. slift (Ok (module_handle Cuda i))))"

definition runtime_alloc_bytes :: "('m, 'c) Drivers \<Rightarrow> nat \<Rightarrow> ('m, 'c, DeviceHandle) runtime_step" where
  "runtime_alloc_bytes dr len = on_runtime
     (sthen (metal_alloc_bytes (dr_metal dr) len) (\<lambda>i. slift (Ok (buffer_handle Metal len i))))
     (sthen (cuda_alloc_bytes (dr_cuda dr) len) (\<lambda>i. slift (Ok (buffer_handle Cuda len i))))"

definition runtime_copy_in_bytes ::
    "('m, 'c) Drivers \<Rightarrow> DeviceHandle \<Rightarrow> ByteSlice \<Rightarrow> DeviceDataType \<Rightarrow> ('m, 'c, unit) runtime_step" where
  "runtime_copy_in_bytes dr h bytes dtype = on_runtime
     (sthen (slift (metal_handle h)) (\<lambda>i. metal_copy_in_bytes (dr_metal dr) i bytes dtype))
     (sthen (slift (cuda_handle h)) (\<lambda>i. cuda_copy_in_bytes (dr_cuda dr) i (sl_bytes bytes) dtype))"

definition runtime_sync :: "('m, 'c) Drivers \<Rightarrow> ('m, 'c, unit) runtime_step" where
  "runtime_sync dr = on_runtime (metal_sync (dr_metal dr)) (cuda_sync (dr_cuda dr))"

definition runtime_readback_bytes ::
    "('m, 'c) Drivers \<Rightarrow> DeviceHandle \<Rightarrow> DeviceDataType \<Rightarrow> ('m, 'c, u8 list) runtime_step" where
  "runtime_readback_bytes dr h dtype = on_runtime
     (sthen (slift (metal_handle h)) (\<lambda>i. metal_readback_bytes (dr_metal dr) i dtype))
     (sthen (slift (cuda_handle h)) (\<lambda>i. cuda_readback_bytes (dr_cuda dr) i dtype))"

definition runtime_release :: "('m, 'c) Drivers \<Rightarrow> DeviceHandle \<Rightarrow> ('m, 'c, unit) runtime_step" where
  "runtime_release dr h = on_runtime
     (sthen (slift (metal_handle h)) (metal_release (dr_metal dr)))
     (sthen (slift (cuda_handle h)) (cuda_release (dr_cuda dr)))"

definition dispatch_kernel ::
    "('m, 'c) Drivers \<Rightarrow> DeviceHandle \<Rightarrow> string \<Rightarrow> DeviceHandle list \<Rightarrow> grid3 \<Rightarrow> grid3 \<Rightarrow> ('m, 'c, unit) runtime_step" where
  "dispatch_kernel dr m entry buffers grid block = on_runtime
     (sthen (slift (metal_handle m)) (\<lambda>i. sthen (slift (try_map metal_handle buffers)) (\<lambda>bs.
        metal_launch_kernel_3d (dr_metal dr) i entry bs grid block)))
     (sthen (slift (cuda_handle m)) (\<lambda>i. sthen (slift (try_map cuda_handle buffers)) (\<lambda>bs.
        cuda_launch_kernel_3d (dr_cuda dr) i entry bs grid block)))"

definition runtime_launch_kernel_bound ::
    "('m, 'c) Drivers \<Rightarrow> DeviceHandle \<Rightarrow> string \<Rightarrow> DeviceLaunchBinding list \<Rightarrow> grid3 \<Rightarrow> grid3
       \<Rightarrow> ('m, 'c, unit) runtime_step" where
  "runtime_launch_kernel_bound dr m entry bindings grid block =
     sthen (sget (\<lambda>s. validate_dispatch_bindings (runtime_backend s) bindings)) (\<lambda>_ s.
       case s of
         MetalRuntime _ \<Rightarrow> on_runtime
           (sthen (slift (metal_handle m)) (\<lambda>i.
            sthen (slift (try_map metal_from_device_binding bindings)) (\<lambda>bs.
              metal_launch_kernel_bound (dr_metal dr) i entry bs grid block)))
           (slift (Ok ())) s
       | CudaRuntime _ \<Rightarrow>
           sthen (slift (handles_in_binding_order bindings)) (\<lambda>handles.
             dispatch_kernel dr m entry handles grid block) s)"

definition runtime_launch_kernel ::
    "('m, 'c) Drivers \<Rightarrow> DeviceHandle \<Rightarrow> string \<Rightarrow> DeviceHandle list \<Rightarrow> grid3 \<Rightarrow> grid3 \<Rightarrow> ('m, 'c, unit) runtime_step" where
  "runtime_launch_kernel dr m entry buffers grid block =
     sthen (slift (whole_handle_bindings buffers)) (\<lambda>bindings.
       runtime_launch_kernel_bound dr m entry bindings grid block)"

definition launch_kv_kernel ::
    "('m, 'c) Drivers \<Rightarrow> DeviceHandle \<Rightarrow> string \<Rightarrow> KvCacheDescriptor \<Rightarrow> allocation_map \<Rightarrow> grid3 \<Rightarrow> grid3
       \<Rightarrow> ('m, 'c, unit) runtime_step" where
  "launch_kv_kernel dr m entry kv allocations grid block =
     sthen (slift (resolve_launch_bindings kv allocations)) (\<lambda>bindings.
       runtime_launch_kernel_bound dr m entry bindings grid block)"

definition alloc_invocation_state :: "('m, 'c) Drivers \<Rightarrow> ('m, 'c, InvocationStateBuffer) runtime_step" where
  "alloc_invocation_state dr = sthen (runtime_alloc_bytes dr 16) (\<lambda>h. slift (Ok \<lparr>isb_handle = h\<rparr>))"

definition upload_invocation_state ::
    "('m, 'c) Drivers \<Rightarrow> InvocationStateBuffer \<Rightarrow> DescriptorInvocationState \<Rightarrow> ('m, 'c, unit) runtime_step" where
  "upload_invocation_state dr b state =
     sthen (sget (\<lambda>s. if dh_backend (isb_handle b) \<noteq> runtime_backend s then Err (device_invalid_handle (isb_handle b))
       else if dh_kind (isb_handle b) \<noteq> HandleBuffer 16 then
         Err (err_descriptor ''invocation-state buffer must be 16 bytes'')
       else Ok ())) (\<lambda>_.
     runtime_copy_in_bytes dr (isb_handle b) (owned (encoded_bytes state)) DtU8)"

end
