(* ===== verification/Runtime_Backend.thy ===== *)
theory Runtime_Backend
  imports Device_Host Transaction_Runs
begin

text \<open>
  The real execution backend of \<open>macos-arm64/src/transaction_backend.rs\<close> over the runtime set of
  \<open>device_runtime_set.rs\<close>: launches run on the session of a partition's device, transfers go through the
  host-staged adapter between two sessions, barriers synchronise every device once. The state is the
  backend, a method is a step on it. The elapsed time a copy measures is the argument \<open>elapsed\<close>, an
  arbitrary function of the state; a panic is \<^const>\<open>None\<close>.
\<close>

section \<open>The runtime set\<close>

record ('m, 'c) DeviceRuntimeSet =
  rs_members :: "(PhysicalDeviceId, ('m, 'c) DeviceRuntime) bmap"

definition backends_are_homogeneous :: "DeviceBackend list \<Rightarrow> bool" where
  "backends_are_homogeneous bs = (case bs of [] \<Rightarrow> True | first # rest \<Rightarrow> list_all (\<lambda>b. b = first) rest)"

definition runtime_set_from_members ::
    "(PhysicalDeviceId \<times> ('m, 'c) DeviceRuntime) list \<Rightarrow> (('m, 'c) DeviceRuntimeSet, HostError) result" where
  "runtime_set_from_members members =
     (let members = bmap_of_list members in
      if members = [] then
        Err (HostError_invalid_args ''DeviceRuntimeSet requires at least one PhysicalDeviceId'')
      else if \<not> backends_are_homogeneous (map PhysicalDeviceId_backend (bmap_keys members)) then
        Err (HostError_invalid_args ''DeviceRuntimeSet members must share one backend (Metal+CUDA in one job is a non-goal)'')
      else and_then (try_each (\<lambda>(i, runtime). ensure (runtime_backend runtime = PhysicalDeviceId_backend i)
          (HostError_invalid_args (''runtime backend '' @ DeviceBackend_spelling (runtime_backend runtime) @
            '' does not match PhysicalDeviceId '' @ PhysicalDeviceId_display i))) members) (\<lambda>_.
        Ok \<lparr>rs_members = members\<rparr>))"

definition runtime_set_len :: "('m, 'c) DeviceRuntimeSet \<Rightarrow> nat" where
  "runtime_set_len s = length (rs_members s)"

definition runtime_set_backend :: "('m, 'c) DeviceRuntimeSet \<Rightarrow> DeviceBackend" where
  "runtime_set_backend s = (case bmap_keys (rs_members s) of i # _ \<Rightarrow> PhysicalDeviceId_backend i | [] \<Rightarrow> Metal)"

definition runtime_set_contains :: "('m, 'c) DeviceRuntimeSet \<Rightarrow> PhysicalDeviceId \<Rightarrow> bool" where
  "runtime_set_contains s i = bmap_contains (rs_members s) i"

section \<open>The backend state\<close>

record LaunchProgram =
  lp_image :: "u8 list"
  lp_entry :: string

record ('m, 'c) DeviceRuntimeBackend =
  rb_set :: "('m, 'c) DeviceRuntimeSet"
  rb_partition_devices :: "(LogicalPartitionId, PhysicalDeviceId) bmap"
  rb_launch :: LaunchProgram
  rb_modules :: "(PhysicalDeviceId, DeviceHandle) bmap"
  rb_transport :: HostStagedAdapter
  rb_transfer_timeout :: nat
  rb_reservations :: "(LogicalPartitionId, ReservationRecord) bmap"
  rb_resources :: "(LogicalPartitionId, DeviceHandle list) bmap"
  rb_staged_writes :: "(OutputRef, StagedWrite) bmap"
  rb_published_writes :: "(OutputRef, StagedWrite) bmap"
  rb_staged_total_bytes :: u64
  rb_published_total_bytes :: u64
  rb_published_once :: bool
  rb_completed_events :: "OperationEvent bset"

type_synonym ('m, 'c, 'a) backend_step = "(('m, 'c) DeviceRuntimeBackend, 'a, BackendError) step"

definition runtime_backend_new ::
    "('m, 'c) DeviceRuntimeSet \<Rightarrow> (LogicalPartitionId, PhysicalDeviceId) bmap \<Rightarrow> LaunchProgram \<Rightarrow> TransferBudget \<Rightarrow> nat
       \<Rightarrow> (('m, 'c) DeviceRuntimeBackend, HostError) result" where
  "runtime_backend_new s partition_devices launch budget timeout =
     (if partition_devices = [] then
        Err (HostError_invalid_args ''DeviceRuntimeBackend requires at least one partition binding'')
      else and_then (try_each (\<lambda>(p, d). ensure (runtime_set_contains s d)
          (HostError_invalid_args (''partition '' @ lp_str p @ '' binds '' @ PhysicalDeviceId_display d @
            '', which is not a DeviceRuntimeSet member''))) partition_devices) (\<lambda>_.
        Ok \<lparr>rb_set = s, rb_partition_devices = partition_devices, rb_launch = launch, rb_modules = [],
            rb_transport = HostStagedAdapter_new budget, rb_transfer_timeout = timeout,
            rb_reservations = [], rb_resources = [], rb_staged_writes = [], rb_published_writes = [],
            rb_staged_total_bytes = 0, rb_published_total_bytes = 0, rb_published_once = False,
            rb_completed_events = []\<rparr>))"

datatype FaultClass = FaultAllocation | FaultOperation

definition map_host_error :: "LogicalPartitionId \<Rightarrow> FaultClass \<Rightarrow> HostError \<Rightarrow> BackendError" where
  "map_host_error p cls e =
     (if he_code e = ''E_TIMEOUT'' then Timeout p (he_message e)
      else if he_code e = ''E_CANCELLED'' then BackendCancelled p (he_message e)
      else if he_code e = ''E_CUDA_UNAVAILABLE'' \<or> he_code e = ''E_METAL_UNAVAILABLE'' then DeviceLoss p (he_message e)
      else case cls of
        FaultAllocation \<Rightarrow> Allocation p (HostError_display e)
      | FaultOperation \<Rightarrow> Operation p (HostError_display e))"

definition pattern_bytes :: "nat \<Rightarrow> u8 list" where
  "pattern_bytes len = map (\<lambda>i. of_nat (i mod 256)) [0..<len]"

definition device_of :: "LogicalPartitionId \<Rightarrow> ('m, 'c) DeviceRuntimeBackend \<Rightarrow> (PhysicalDeviceId, BackendError) result" where
  "device_of p b = ok_or (bmap_get (rb_partition_devices b) p)
     (Operation p (''partition '' @ lp_str p @ '' is not bound to a PhysicalDeviceId''))"

text \<open>\<open>runtime_mut\<close> followed by one call on the session, whose error is mapped.\<close>

definition with_runtime ::
    "LogicalPartitionId \<Rightarrow> FaultClass \<Rightarrow> ('m, 'c, 'a) runtime_step \<Rightarrow> ('m, 'c, 'a) backend_step" where
  "with_runtime p cls m =
     sthen (sget (device_of p)) (\<lambda>d b.
       case bmap_get (rs_members (rb_set b)) d of
         None \<Rightarrow> (Err (DeviceLoss p (''PhysicalDeviceId '' @ PhysicalDeviceId_display d @ '' is not in the runtime set'')), b)
       | Some runtime \<Rightarrow>
           (case m runtime of (r, t) \<Rightarrow>
              (map_err (map_host_error p cls) r, b\<lparr>rb_set := \<lparr>rs_members = bmap_insert d t (rs_members (rb_set b))\<rparr>\<rparr>)))"

definition track :: "LogicalPartitionId \<Rightarrow> DeviceHandle \<Rightarrow> ('m, 'c) DeviceRuntimeBackend \<Rightarrow> ('m, 'c) DeviceRuntimeBackend" where
  "track p h b = b\<lparr>rb_resources :=
     bmap_insert p ((case bmap_get (rb_resources b) p of Some hs \<Rightarrow> hs | None \<Rightarrow> []) @ [h]) (rb_resources b)\<rparr>"

definition backend_alloc ::
    "('m, 'c) Drivers \<Rightarrow> LogicalPartitionId \<Rightarrow> nat \<Rightarrow> ('m, 'c, DeviceHandle) backend_step" where
  "backend_alloc dr p len =
     sthen (with_runtime p FaultAllocation (runtime_alloc_bytes dr len)) (\<lambda>h.
     sthen (smodify (track p h)) (\<lambda>_. slift (Ok h)))"

definition ensure_module :: "('m, 'c) Drivers \<Rightarrow> LogicalPartitionId \<Rightarrow> ('m, 'c, DeviceHandle) backend_step" where
  "ensure_module dr p =
     sthen (sget (device_of p)) (\<lambda>d b.
       case bmap_get (rb_modules b) d of
         Some m \<Rightarrow> (Ok m, b)
       | None \<Rightarrow>
           sthen (with_runtime p FaultOperation (runtime_load_module dr (lp_image (rb_launch b)))) (\<lambda>m.
           sthen (smodify (\<lambda>b. b\<lparr>rb_modules := bmap_insert d m (rb_modules b)\<rparr>)) (\<lambda>_. slift (Ok m))) b)"

text \<open>Releases on a lost device are skipped, and a failed release is dropped.\<close>

definition release_handles :: "('m, 'c) Drivers \<Rightarrow> DeviceHandle list \<Rightarrow> ('m, 'c) DeviceRuntime \<Rightarrow> ('m, 'c) DeviceRuntime" where
  "release_handles dr hs runtime = fold (\<lambda>h t. snd (runtime_release dr h t)) hs runtime"

definition free_partition ::
    "('m, 'c) Drivers \<Rightarrow> LogicalPartitionId \<Rightarrow> ('m, 'c) DeviceRuntimeBackend \<Rightarrow> ('m, 'c) DeviceRuntimeBackend" where
  "free_partition dr p b =
     (let handles = (case bmap_get (rb_resources b) p of Some hs \<Rightarrow> hs | None \<Rightarrow> []);
          b = b\<lparr>rb_resources := bmap_remove p (rb_resources b)\<rparr>;
          b = snd (with_runtime p FaultOperation (\<lambda>t. (Ok (), release_handles dr handles t)) b)
      in b\<lparr>rb_reservations := bmap_remove p (rb_reservations b)\<rparr>)"

section \<open>Copies between devices\<close>

definition stage_to_source ::
    "('m, 'c) Drivers \<Rightarrow> LogicalPartitionId \<Rightarrow> nat \<Rightarrow> ('m, 'c, u8 list) backend_step" where
  "stage_to_source dr source len =
     (let pattern = pattern_bytes len in
      sthen (backend_alloc dr source len) (\<lambda>src.
      sthen (with_runtime source FaultOperation (runtime_copy_in_bytes dr src (owned pattern) DtU8)) (\<lambda>_.
      sthen (with_runtime source FaultOperation (runtime_readback_bytes dr src DtU8)) (\<lambda>bytes.
      sthen (slift (ensure (bytes = pattern)
        (Operation source ''host-staged source readback was not byte-exact''))) (\<lambda>_. slift (Ok bytes))))))"

definition land_on_destination ::
    "('m, 'c) Drivers \<Rightarrow> LogicalPartitionId \<Rightarrow> u8 list \<Rightarrow> nat \<Rightarrow> ('m, 'c, unit) backend_step" where
  "land_on_destination dr destination bytes len =
     (let pattern = pattern_bytes len in
      sthen (slift (ensure (bytes = pattern)
        (Operation destination ''host-staged copy was not byte-exact''))) (\<lambda>_.
      sthen (backend_alloc dr destination len) (\<lambda>dst.
      sthen (with_runtime destination FaultOperation (runtime_copy_in_bytes dr dst (owned bytes) DtU8)) (\<lambda>_.
      sthen (with_runtime destination FaultOperation (runtime_readback_bytes dr dst DtU8)) (\<lambda>landed.
      slift (ensure (landed = pattern)
        (Operation destination ''destination device buffer was not byte-exact after host-staged copy'')))))))"

definition host_stage_copy ::
    "('m, 'c) Drivers \<Rightarrow> (nat \<Rightarrow> string) \<Rightarrow> (('m, 'c) DeviceRuntimeBackend \<Rightarrow> nat) \<Rightarrow>
       LogicalPartitionId \<Rightarrow> LogicalPartitionId \<Rightarrow> TransferSpec \<Rightarrow> u64 \<Rightarrow> ('m, 'c) DeviceRuntimeBackend \<Rightarrow>
       ((unit, BackendError) result \<times> ('m, 'c) DeviceRuntimeBackend) option" where
  "host_stage_copy dr dbg elapsed source destination spec bytes b =
     (let len = unat bytes in
      case stage_to_source dr source len b of
        (Err e, b) \<Rightarrow> Some (Err e, b)
      | (Ok source_bytes, b) \<Rightarrow>
          (case host_staged_copy spec
              \<lparr>sv_owner = source, sv_dtype = ts_dtype spec, sv_layout = ts_layout spec,
               sv_generation = ts_generation spec, sv_bytes = source_bytes\<rparr>
              destination (elapsed b) (rb_transport b) of
             None \<Rightarrow> None
           | Some (Err e, transport) \<Rightarrow>
               Some (Err (into_backend_error dbg destination e), b\<lparr>rb_transport := transport\<rparr>)
           | Some (Ok outcome, transport) \<Rightarrow>
               Some (land_on_destination dr destination (to_destination_bytes outcome) len
                 (b\<lparr>rb_transport := transport\<rparr>))))"

section \<open>The methods\<close>

definition complete_events :: "TransactionOperation \<Rightarrow> ('m, 'c) DeviceRuntimeBackend \<Rightarrow> ('m, 'c) DeviceRuntimeBackend" where
  "complete_events op b = b\<lparr>rb_completed_events := bset_extend (op_completed_events op) (rb_completed_events b)\<rparr>"

definition reserve_class :: "('m, 'c) Drivers \<Rightarrow> LogicalPartitionId \<Rightarrow> u64 \<Rightarrow> ('m, 'c, unit) backend_step" where
  "reserve_class dr p bytes =
     (if 0 < bytes then sthen (backend_alloc dr p (unat bytes)) (\<lambda>_. slift (Ok ())) else slift (Ok ()))"

definition runtime_reserve ::
    "('m, 'c) Drivers \<Rightarrow> LogicalPartitionId \<Rightarrow> ReservationRecord \<Rightarrow> ('m, 'c, unit) backend_step" where
  "runtime_reserve dr p reservation =
     sthen (sget (\<lambda>b. ensure (\<not> bmap_contains (rb_reservations b) p)
       (Allocation p (''partition '' @ lp_str p @ '' already holds a reservation'')))) (\<lambda>_.
     sthen (sget (device_of p)) (\<lambda>_.
     sthen (reserve_class dr p (res_output_buffer_bytes reservation)) (\<lambda>_.
     sthen (reserve_class dr p (res_transfer_staging_bytes reservation)) (\<lambda>_.
     sthen (reserve_class dr p (res_transaction_scratch_bytes reservation)) (\<lambda>_.
     smodify (\<lambda>b. b\<lparr>rb_reservations := bmap_insert p reservation (rb_reservations b)\<rparr>))))))"

definition launch_grid :: "nat \<Rightarrow> u32" where
  "launch_grid len = of_nat (max (len div 4) 1)"

definition run_launch :: "('m, 'c) Drivers \<Rightarrow> LogicalPartitionId \<Rightarrow> u64 \<Rightarrow> ('m, 'c, unit) backend_step" where
  "run_launch dr p output_bytes =
     (let len = unat output_bytes in
      if 0 < len then
        sthen (ensure_module dr p) (\<lambda>m.
        sthen (backend_alloc dr p len) (\<lambda>src.
        sthen (backend_alloc dr p len) (\<lambda>dst.
        sthen (with_runtime p FaultOperation (runtime_copy_in_bytes dr src (owned (pattern_bytes len)) DtU8)) (\<lambda>_.
        sthen (sget (\<lambda>b. Ok (lp_entry (rb_launch b)))) (\<lambda>entry.
        sthen (with_runtime p FaultOperation
          (runtime_launch_kernel dr m entry [src, dst] (launch_grid len, 1, 1) (1, 1, 1))) (\<lambda>_.
        with_runtime p FaultOperation (runtime_sync dr)))))))
      else slift (Ok ()))"

definition broadcast_spec :: "CollectiveBroadcastMirror \<Rightarrow> LogicalPartitionId \<Rightarrow> nat \<Rightarrow> TransferSpec" where
  "broadcast_spec c participant timeout =
     \<lparr>ts_transfer_ref = TransferRef (collective_str (cm_id c) @ '':'' @ lp_str participant),
      ts_source_owner = cm_source c, ts_destination = participant,
      ts_range = \<lparr>br_offset = 0, br_length = cm_byte_count c\<rparr>, ts_direction = BIDI,
      ts_dtype = F32, ts_layout = Dense, ts_generation = 0, ts_path_label = HostStagedPath,
      ts_timeout = timeout\<rparr>"

fun run_broadcast ::
    "('m, 'c) Drivers \<Rightarrow> (nat \<Rightarrow> string) \<Rightarrow> (('m, 'c) DeviceRuntimeBackend \<Rightarrow> nat) \<Rightarrow> CollectiveBroadcastMirror \<Rightarrow>
       LogicalPartitionId list \<Rightarrow> ('m, 'c) DeviceRuntimeBackend \<Rightarrow>
       ((unit, BackendError) result \<times> ('m, 'c) DeviceRuntimeBackend) option" where
  "run_broadcast dr dbg elapsed c [] b = Some (Ok (), b)"
| "run_broadcast dr dbg elapsed c (participant # rest) b =
     (if participant = cm_source c then run_broadcast dr dbg elapsed c rest b
      else case host_stage_copy dr dbg elapsed (cm_source c) participant
             (broadcast_spec c participant (rb_transfer_timeout b)) (cm_byte_count c) b of
        Some (Ok _, b) \<Rightarrow> run_broadcast dr dbg elapsed c rest b
      | other \<Rightarrow> other)"

fun run_barrier ::
    "('m, 'c) Drivers \<Rightarrow> PhysicalDeviceId bset \<Rightarrow> LogicalPartitionId list \<Rightarrow> ('m, 'c, unit) backend_step" where
  "run_barrier dr synced [] b = (Ok (), b)"
| "run_barrier dr synced (p # rest) b =
     sthen (sget (device_of p)) (\<lambda>d.
       if List.member synced d then run_barrier dr synced rest
       else sthen (with_runtime p FaultOperation (runtime_sync dr)) (\<lambda>_. run_barrier dr (bset_insert d synced) rest)) b"

definition run_body ::
    "('m, 'c) Drivers \<Rightarrow> (nat \<Rightarrow> string) \<Rightarrow> (('m, 'c) DeviceRuntimeBackend \<Rightarrow> nat) \<Rightarrow> TransactionOperation \<Rightarrow>
       ('m, 'c) DeviceRuntimeBackend \<Rightarrow> ((unit, BackendError) result \<times> ('m, 'c) DeviceRuntimeBackend) option" where
  "run_body dr dbg elapsed op b =
     (case op of
        Launch p r output_bytes \<Rightarrow> Some (run_launch dr p output_bytes b)
      | Transfer t \<Rightarrow> host_stage_copy dr dbg elapsed (tm_source t) (tm_destination t)
          (TransferSpec_from_mirror t (rb_transfer_timeout b)) (tm_byte_count t) b
      | CollectiveBroadcast c \<Rightarrow> run_broadcast dr dbg elapsed c (cm_participants c) b
      | Barrier r partitions \<Rightarrow> Some (run_barrier dr [] partitions b))"

definition runtime_run_operation ::
    "('m, 'c) Drivers \<Rightarrow> (nat \<Rightarrow> string) \<Rightarrow> (('m, 'c) DeviceRuntimeBackend \<Rightarrow> nat) \<Rightarrow> TransactionOperation \<Rightarrow>
       ('m, 'c) DeviceRuntimeBackend \<Rightarrow> (BackendError option \<times> ('m, 'c) DeviceRuntimeBackend) option" where
  "runtime_run_operation dr dbg elapsed op b =
     map_option (\<lambda>(r, b). case r of Ok _ \<Rightarrow> (None, complete_events op b) | Err e \<Rightarrow> (Some e, b))
       (run_body dr dbg elapsed op b)"

definition runtime_stage_write ::
    "StagedWrite \<Rightarrow> ('m, 'c) DeviceRuntimeBackend \<Rightarrow> BackendError option \<times> ('m, 'c) DeviceRuntimeBackend" where
  "runtime_stage_write w b =
     (if bmap_contains (rb_staged_writes b) (sw_output_ref w) then
        (Some (Allocation (sw_partition w) (''output '' @ output_str (sw_output_ref w) @ '' staged twice'')), b)
      else (None,
        b\<lparr>rb_staged_total_bytes := saturating_add (rb_staged_total_bytes b) (sw_byte_count w),
          rb_staged_writes := bmap_insert (sw_output_ref w) w (rb_staged_writes b)\<rparr>))"

definition runtime_publish ::
    "('m, 'c) DeviceRuntimeBackend \<Rightarrow> BackendError option \<times> ('m, 'c) DeviceRuntimeBackend" where
  "runtime_publish b =
     (if rb_published_once b then
        (Some (Operation (LogicalPartitionId ''unknown'')
           (''publish called twice '' @ em_dash @ '' publication is one-shot'')), b)
      else (None,
        b\<lparr>rb_published_writes := rb_staged_writes b, rb_published_total_bytes := rb_staged_total_bytes b,
          rb_published_once := True\<rparr>))"

definition runtime_retire ::
    "('m, 'c) Drivers \<Rightarrow> LogicalPartitionId \<Rightarrow> TransactionFailure \<Rightarrow> ('m, 'c) DeviceRuntimeBackend \<Rightarrow> ('m, 'c) DeviceRuntimeBackend" where
  "runtime_retire dr p failure b =
     (let retired = sum_list (map sw_byte_count
            (filter (\<lambda>w. sw_partition w = p) (bmap_values (rb_staged_writes b))))
      in free_partition dr p
           (b\<lparr>rb_staged_total_bytes := saturating_sub (rb_staged_total_bytes b) retired,
              rb_staged_writes := filter (\<lambda>(_, w). sw_partition w \<noteq> p) (rb_staged_writes b)\<rparr>))"

definition step_error :: "(unit, BackendError) result \<Rightarrow> BackendError option" where
  "step_error r = (case r of Ok _ \<Rightarrow> None | Err e \<Rightarrow> Some e)"

definition runtime_execution_backend ::
    "('m, 'c) Drivers \<Rightarrow> (nat \<Rightarrow> string) \<Rightarrow> (('m, 'c) DeviceRuntimeBackend \<Rightarrow> nat) \<Rightarrow>
       ('m, 'c) DeviceRuntimeBackend DeviceExecutionBackend" where
  "runtime_execution_backend dr dbg elapsed =
     \<lparr>be_reserve = (\<lambda>p r b. map_prod step_error id (runtime_reserve dr p r b)),
      be_run_operation = (\<lambda>op b. the (runtime_run_operation dr dbg elapsed op b)),
      be_event_completed = (\<lambda>b e. List.member (rb_completed_events b) e),
      be_stage_write = runtime_stage_write, be_publish = runtime_publish,
      be_staged_bytes = rb_staged_total_bytes, be_published_bytes = rb_published_total_bytes,
      be_release = free_partition dr, be_retire = runtime_retire dr\<rparr>"

end
