(* ===== verification/Runtime_Safety.thy ===== *)
theory Runtime_Safety
  imports Runtime_Backend
begin

text \<open>
  What the device surface and the real backend promise. Handles of the other backend and bindings out of
  range never reach a session; launch records resolve exactly to bindings inside views; the real backend
  meets the contract of Exec_Backend whatever its sessions answer, so every theorem about transactions
  over a backend holds for it; and its copies never panic.
\<close>

section \<open>Handles and bindings\<close>

lemma metal_handle_Ok_iff [flow]: "metal_handle h = Ok i \<longleftrightarrow> dh_backend h = Metal \<and> i = dh_id h"
  by (auto simp: metal_handle_def)

lemma cuda_handle_Ok_iff [flow]: "cuda_handle h = Ok i \<longleftrightarrow> dh_backend h = Cuda \<and> i = dh_id h"
  by (auto simp: cuda_handle_def)

lemma foreign_handle:
  assumes "dh_backend h \<noteq> runtime_backend s"
  shows "runtime_copy_in_bytes dr h bytes dtype s = (Err (device_invalid_handle h), s)"
    and "runtime_readback_bytes dr h dtype s = (Err (device_invalid_handle h), s)"
    and "runtime_release dr h s = (Err (device_invalid_handle h), s)"
    and "dispatch_kernel dr h entry buffers grid block s = (Err (device_invalid_handle h), s)"
  using assms
  by (cases s; simp add: runtime_copy_in_bytes_def runtime_readback_bytes_def runtime_release_def dispatch_kernel_def
      metal_handle_def cuda_handle_def sthen_lift)+

lemma encoded_bytes_inject: "encoded_bytes s = encoded_bytes t \<longleftrightarrow> s = t"
  by (cases s; cases t) (simp add: encoded_bytes_def append_eq_append_conv u32_to_le_bytes_eq_iff)

lemma length_encoded_bytes: "length (encoded_bytes s) = 16"
  by (simp add: encoded_bytes_def)

definition binding_fits :: "DeviceBackend \<Rightarrow> DeviceLaunchBinding \<Rightarrow> bool" where
  "binding_fits backend b \<longleftrightarrow> dh_backend (db_handle b) = backend \<and> db_view_span b \<noteq> 0 \<and>
     (\<exists>capacity. handle_len_bytes (db_handle b) = Some capacity \<and>
        unat (db_byte_offset b) + unat (db_view_span b) \<le> unat capacity) \<and>
     (backend = Cuda \<longrightarrow> db_byte_offset b = 0 \<and> db_runtime_source b = SourceConstant)"

lemma end_within:
  "(\<exists>e. checked_add a n = Some e \<and> \<not> c < e) \<longleftrightarrow> unat a + unat n \<le> unat c"
proof (cases "checked_add a n")
  case None
  from this [unfolded checked_add_None_iff] have "\<not> unat a + unat n \<le> unat c"
    using unat_u64_lt [of c] by simp
  with None show ?thesis by simp
next
  case (Some e)
  from checked_add_unat [OF Some] have "\<not> c < e \<longleftrightarrow> unat a + unat n \<le> unat c"
    by (simp add: word_less_nat_alt not_less)
  with Some show ?thesis by simp
qed

lemma validate_dispatch_Ok_iff [flow]: "validate_dispatch_binding backend b = Ok u \<longleftrightarrow> binding_fits backend b"
proof -
  have "validate_dispatch_binding backend b = Ok u \<longleftrightarrow>
      dh_backend (db_handle b) = backend \<and> db_view_span b \<noteq> 0 \<and>
      (\<exists>capacity. handle_len_bytes (db_handle b) = Some capacity \<and>
        (\<exists>e. checked_add (db_byte_offset b) (db_view_span b) = Some e \<and> \<not> capacity < e)) \<and>
      \<not> (backend = Cuda \<and> is_cuda_dynamic b)"
    unfolding validate_dispatch_binding_def Let_def by (simp split: option.split)
  then show ?thesis
    unfolding end_within binding_fits_def is_cuda_dynamic_def by blast
qed

lemma refused_launch:
  assumes "\<not> (\<forall>b\<in>set bindings. binding_fits (runtime_backend s) b)"
  obtains e where "runtime_launch_kernel_bound dr m entry bindings grid block s = (Err e, s)"
proof (cases "validate_dispatch_bindings (runtime_backend s) bindings")
  case (Ok u)
  then show ?thesis using assms by (auto simp: validate_dispatch_bindings_def flow)
next
  case (Err e)
  then show ?thesis by (intro that) (simp add: runtime_launch_kernel_bound_def sthen_get)
qed

section \<open>Calls that name handles\<close>

text \<open>Every operation of the runtime that is given a handle, and the handles it is given.\<close>

datatype RuntimeCall =
    RtCopyIn DeviceHandle ByteSlice DeviceDataType
  | RtReadback DeviceHandle DeviceDataType
  | RtRelease DeviceHandle
  | RtDispatch DeviceHandle string "DeviceHandle list" grid3 grid3
  | RtLaunchBound DeviceHandle string "DeviceLaunchBinding list" grid3 grid3
  | RtLaunch DeviceHandle string "DeviceHandle list" grid3 grid3
  | RtLaunchKv DeviceHandle string KvCacheDescriptor allocation_map grid3 grid3
  | RtUploadState InvocationStateBuffer DescriptorInvocationState

fun runtime_call :: "('m, 'c) Drivers \<Rightarrow> RuntimeCall \<Rightarrow> ('m, 'c, unit) runtime_step" where
  "runtime_call dr (RtCopyIn h bytes dtype) = runtime_copy_in_bytes dr h bytes dtype"
| "runtime_call dr (RtReadback h dtype) = sthen (runtime_readback_bytes dr h dtype) (\<lambda>_. slift (Ok ()))"
| "runtime_call dr (RtRelease h) = runtime_release dr h"
| "runtime_call dr (RtDispatch m entry buffers grid block) = dispatch_kernel dr m entry buffers grid block"
| "runtime_call dr (RtLaunchBound m entry bindings grid block) = runtime_launch_kernel_bound dr m entry bindings grid block"
| "runtime_call dr (RtLaunch m entry buffers grid block) = runtime_launch_kernel dr m entry buffers grid block"
| "runtime_call dr (RtLaunchKv m entry kv allocations grid block) = launch_kv_kernel dr m entry kv allocations grid block"
| "runtime_call dr (RtUploadState b state) = upload_invocation_state dr b state"

fun named_handles :: "RuntimeCall \<Rightarrow> DeviceHandle set" where
  "named_handles (RtCopyIn h bytes dtype) = {h}"
| "named_handles (RtReadback h dtype) = {h}"
| "named_handles (RtRelease h) = {h}"
| "named_handles (RtDispatch m entry buffers grid block) = insert m (set buffers)"
| "named_handles (RtLaunchBound m entry bindings grid block) = insert m (db_handle ` set bindings)"
| "named_handles (RtLaunch m entry buffers grid block) = insert m (set buffers)"
| "named_handles (RtLaunchKv m entry kv allocations grid block) =
     insert m {h. \<exists>rec\<in>set (launch_records kv). handle_for_allocation allocations (lb_handle rec) = Ok h}"
| "named_handles (RtUploadState b state) = {isb_handle b}"

lemma try_map_refused: "x \<in> set xs \<Longrightarrow> (\<And>y. f x \<noteq> Ok y) \<Longrightarrow> \<exists>e. try_map f xs = Err e"
  by (induction xs) (auto simp: and_then_def split: result.split)

lemma foreign_dispatch:
  assumes "h \<in> insert m (set buffers)" "dh_backend h \<noteq> runtime_backend s"
  shows "\<exists>e. dispatch_kernel dr m entry buffers grid block s = (Err e, s)"
proof (cases "dh_backend m = runtime_backend s")
  case True
  with assms have h: "h \<in> set buffers" by auto
  show ?thesis
  proof (cases s)
    case (MetalRuntime t)
    with assms(2) have "metal_handle h \<noteq> Ok y" for y by (simp add: metal_handle_def)
    from try_map_refused [of h buffers metal_handle, OF h this] MetalRuntime show ?thesis
      by (auto simp: dispatch_kernel_def sthen_lift split: result.split)
  next
    case (CudaRuntime t)
    with assms(2) have "cuda_handle h \<noteq> Ok y" for y by (simp add: cuda_handle_def)
    from try_map_refused [of h buffers cuda_handle, OF h this] CudaRuntime show ?thesis
      by (auto simp: dispatch_kernel_def sthen_lift split: result.split)
  qed
qed (use foreign_handle(4) in blast)

lemma foreign_bound:
  assumes "h \<in> insert m (db_handle ` set bindings)" "dh_backend h \<noteq> runtime_backend s"
  shows "\<exists>e. runtime_launch_kernel_bound dr m entry bindings grid block s = (Err e, s)"
proof (cases "validate_dispatch_bindings (runtime_backend s) bindings")
  case (Ok u)
  then have "\<forall>b\<in>set bindings. binding_fits (runtime_backend s) b" by (auto simp: validate_dispatch_bindings_def flow)
  with assms have m: "dh_backend m \<noteq> runtime_backend s" by (auto simp: binding_fits_def)
  show ?thesis
  proof (cases s)
    case (MetalRuntime t)
    with m Ok show ?thesis by (simp add: runtime_launch_kernel_bound_def sthen_get sthen_lift metal_handle_def)
  next
    case (CudaRuntime t)
    with m Ok foreign_handle(4) [OF m, of dr] show ?thesis
      by (simp add: runtime_launch_kernel_bound_def sthen_get sthen_lift split: result.split)
  qed
next
  case (Err e)
  then show ?thesis by (simp add: runtime_launch_kernel_bound_def sthen_get)
qed

lemma whole_bindings_handles:
  assumes "whole_handle_bindings buffers = Ok bs"
  shows "db_handle ` set bs = set buffers"
proof -
  have one: "db_handle b = snd p" if "whole_handle_at p = Ok b" for p b
    using that by (auto simp: whole_handle_at_def whole_handle_def and_then_Ok_iff split: option.splits)
  have "list_all2 (\<lambda>p b. whole_handle_at p = Ok b) ps xs \<Longrightarrow> db_handle ` set xs = snd ` set ps" for ps xs
    by (induction rule: list_all2_induct) (auto dest: one)
  then have "db_handle ` set bs = snd ` set (List.enumerate 0 buffers)"
    using assms by (simp add: whole_handle_bindings_def try_map_Ok_iff)
  then show ?thesis by (metis image_set map_snd_enumerate)
qed

lemma resolved_handles:
  assumes "resolve_launch_bindings kv allocations = Ok bs" "rec \<in> set (launch_records kv)"
    and "handle_for_allocation allocations (lb_handle rec) = Ok h"
  shows "h \<in> db_handle ` set bs"
proof -
  have all: "list_all2 (\<lambda>r b. resolve_one_binding kv allocations r = Ok b) (launch_records kv) bs"
    using assms(1) by (auto simp: resolve_launch_bindings_def and_then_Ok_iff try_map_Ok_iff)
  have one: "db_handle b = h" if "resolve_one_binding kv allocations rec = Ok b" for b
    using that assms(3) by (auto simp: resolve_one_binding_def Let_def split: if_splits)
  have "list_all2 (\<lambda>r b. resolve_one_binding kv allocations r = Ok b) rs xs \<Longrightarrow> rec \<in> set rs \<Longrightarrow>
      \<exists>b\<in>set xs. resolve_one_binding kv allocations rec = Ok b" for rs xs
    by (induction rule: list_all2_induct) auto
  from this [OF all assms(2)] one show ?thesis by blast
qed

lemma foreign_refused:
  assumes "h \<in> named_handles c" "dh_backend h \<noteq> runtime_backend s"
  shows "\<exists>e. runtime_call dr c s = (Err e, s)"
proof (cases c)
  case (RtDispatch m entry buffers grid block)
  with assms foreign_dispatch show ?thesis by simp
next
  case (RtLaunchBound m entry bindings grid block)
  with assms foreign_bound show ?thesis by simp
next
  case (RtLaunch m entry buffers grid block)
  show ?thesis
  proof (cases "whole_handle_bindings buffers")
    case (Ok bs)
    with assms(1) RtLaunch have "h \<in> insert m (db_handle ` set bs)" by (simp add: whole_bindings_handles)
    from foreign_bound [OF this assms(2)] Ok RtLaunch show ?thesis by (simp add: runtime_launch_kernel_def sthen_lift)
  qed (simp add: RtLaunch runtime_launch_kernel_def sthen_lift)
next
  case (RtLaunchKv m entry kv allocations grid block)
  show ?thesis
  proof (cases "resolve_launch_bindings kv allocations")
    case (Ok bs)
    with assms(1) RtLaunchKv have "h \<in> insert m (db_handle ` set bs)" by (auto dest: resolved_handles)
    from foreign_bound [OF this assms(2)] Ok RtLaunchKv show ?thesis by (simp add: launch_kv_kernel_def sthen_lift)
  qed (simp add: RtLaunchKv launch_kv_kernel_def sthen_lift)
next
  case (RtUploadState b state)
  with assms show ?thesis by (simp add: upload_invocation_state_def sthen_get)
next
  case (RtReadback h dtype)
  with assms foreign_handle(2) [of h s dr dtype] show ?thesis by (simp add: sthen_def)
qed (use assms in \<open>simp_all add: foreign_handle(1,3)\<close>)

section \<open>Launch records\<close>

definition map_names_kv :: "KvCacheDescriptor \<Rightarrow> allocation_map \<Rightarrow> bool" where
  "map_names_kv kv allocations \<longleftrightarrow> distinct (map fst allocations) \<and>
     (\<forall>(i, h)\<in>set allocations. \<exists>a\<in>set (kv_allocations kv). al_id a = i \<and> handle_len_bytes h = Some (al_capacity a))"

lemma find_allocation:
  assumes "distinct (map al_id as)"
  shows "List.find (\<lambda>a. al_id a = i) as = Some a \<longleftrightarrow> a \<in> set as \<and> al_id a = i"
proof
  assume "a \<in> set as \<and> al_id a = i"
  then have "List.find (\<lambda>a. al_id a = i) as \<noteq> None" by (auto simp: find_None_iff)
  then obtain b where b: "List.find (\<lambda>a. al_id a = i) as = Some b" by blast
  then have "b \<in> set as" "al_id b = i" using find_Some_mem [OF b] by simp_all
  with \<open>a \<in> set as \<and> al_id a = i\<close> assms have "a = b" by (auto simp: distinct_map inj_on_def)
  with b show "List.find (\<lambda>a. al_id a = i) as = Some a" by simp
qed (auto dest: find_Some_mem)

lemma check_entry_Ok_iff:
  assumes "distinct (map al_id (kv_allocations kv))"
  shows "check_allocation_entry kv e seen = Ok t \<longleftrightarrow>
    (\<exists>a\<in>set (kv_allocations kv). al_id a = fst e \<and> handle_len_bytes (snd e) = Some (al_capacity a)) \<and>
    fst e \<notin> set seen \<and> t = seen @ [fst e]"
proof (cases "List.find (\<lambda>a. al_id a = fst e) (kv_allocations kv)")
  case None
  then have "\<not> (\<exists>a\<in>set (kv_allocations kv). al_id a = fst e)" by (auto simp: find_None_iff)
  with None show ?thesis by (auto simp: check_allocation_entry_def)
next
  case (Some a)
  from this [unfolded find_allocation [OF assms]] have a: "a \<in> set (kv_allocations kv)" "al_id a = fst e" by simp_all
  then have "b = a" if "b \<in> set (kv_allocations kv)" "al_id b = fst e" for b
    using assms that by (auto simp: distinct_map inj_on_def)
  with a have "(\<exists>b\<in>set (kv_allocations kv). al_id b = fst e \<and> handle_len_bytes (snd e) = Some (al_capacity b)) \<longleftrightarrow>
      handle_len_bytes (snd e) = Some (al_capacity a)" by metis
  then show ?thesis using Some by (auto simp: check_allocation_entry_def split: option.split)
qed

lemma allocation_map_Ok_iff:
  assumes "distinct (map al_id (kv_allocations kv))"
  shows "validate_allocation_map kv allocations = Ok u \<longleftrightarrow> map_names_kv kv allocations"
proof -
  have "try_fold (check_allocation_entry kv) xs seen = Ok t \<longleftrightarrow>
      (\<forall>e\<in>set xs. \<exists>a\<in>set (kv_allocations kv). al_id a = fst e \<and> handle_len_bytes (snd e) = Some (al_capacity a)) \<and>
      distinct (map fst xs) \<and> set (map fst xs) \<inter> set seen = {} \<and> t = seen @ map fst xs" for xs seen t
    by (induction xs arbitrary: seen) (auto simp: and_then_Ok_iff check_entry_Ok_iff [OF assms])
  from this [of allocations "[]"] show ?thesis
    by (simp add: validate_allocation_map_def and_then_Ok_iff map_names_kv_def case_prod_unfold) blast
qed

lemma note_one_Ok_iff:
  "note_allocation h e found = Ok t \<longleftrightarrow> (if snd e = h then found = None \<and> t = Some (fst e) else t = found)"
  by (auto simp: note_allocation_def)

lemma note_all_Ok_iff:
  "try_fold (note_allocation h) allocations found = Ok t \<longleftrightarrow>
     (let hits = filter (\<lambda>e. snd e = h) allocations in
      (found = None \<and> length hits \<le> 1 \<or> hits = []) \<and>
      t = (case hits of [] \<Rightarrow> found | e # _ \<Rightarrow> Some (fst e)))"
proof (induction allocations arbitrary: found)
  case (Cons e es)
  show ?case
    by (cases "snd e = h"; cases found)
      (auto simp: and_then_Ok_iff note_one_Ok_iff Let_def Cons.IH split: list.splits)
qed auto

lemma allocation_id_Ok_iff:
  "allocation_id_for_handle allocations h = Ok i \<longleftrightarrow> (\<exists>e. filter (\<lambda>e. snd e = h) allocations = [e] \<and> i = fst e)"
  unfolding allocation_id_for_handle_def and_then_Ok_iff note_all_Ok_iff Let_def ok_or_Ok_iff
  by (auto split: list.splits simp: length_Suc_conv le_Suc_eq)

lemma matching_view_iff:
  "matching_view kv i b \<noteq> None \<longleftrightarrow>
     (\<exists>v\<in>set (kv_views kv). vw_allocation v = i \<and> vw_base v = db_byte_offset b \<and> db_view_span b \<le> vw_span v)"
  by (auto simp: matching_view_def find_None_iff)

text \<open>The binding a record stands for, and when it resolves.\<close>

definition bound_record :: "DeviceHandle \<Rightarrow> DescriptorLaunchBinding \<Rightarrow> DeviceLaunchBinding" where
  "bound_record h rec = \<lparr>db_handle = h, db_binding_index = lb_index rec, db_byte_offset = lb_offset rec,
     db_view_span = lb_span rec, db_runtime_source = lb_source rec\<rparr>"

definition record_resolves :: "KvCacheDescriptor \<Rightarrow> allocation_map \<Rightarrow> DescriptorLaunchBinding \<Rightarrow> DeviceLaunchBinding \<Rightarrow> bool" where
  "record_resolves kv allocations rec b \<longleftrightarrow>
     (\<exists>h. b = bound_record h rec \<and> filter (\<lambda>e. snd e = h) allocations = [(lb_handle rec, h)]) \<and>
     (\<exists>v\<in>set (kv_views kv). vw_allocation v = lb_handle rec \<and> vw_base v = lb_offset rec \<and> lb_span rec \<le> vw_span v)"

lemma handle_for_Ok_iff:
  assumes "distinct (map fst allocations)"
  shows "handle_for_allocation allocations i = Ok h \<longleftrightarrow> (i, h) \<in> set allocations"
proof -
  have "List.find (\<lambda>e. fst e = i) allocations = Some e \<longleftrightarrow> e \<in> set allocations \<and> fst e = i" for e
  proof
    assume e: "e \<in> set allocations \<and> fst e = i"
    then have "List.find (\<lambda>e. fst e = i) allocations \<noteq> None" unfolding find_None_iff by blast
    then obtain d where d: "List.find (\<lambda>e. fst e = i) allocations = Some d" by blast
    then have "d \<in> set allocations" "fst d = i" using find_Some_mem [OF d] by simp_all
    with e assms have "d = e" by (auto simp: distinct_map inj_on_def)
    with d show "List.find (\<lambda>e. fst e = i) allocations = Some e" by simp
  qed (auto dest: find_Some_mem)
  then show ?thesis
    by (auto simp: handle_for_allocation_def ok_or_Ok_iff map_option_eq_Some)
qed

lemma check_resolved_record:
  assumes kv: "kv_valid kv" and names: "map_names_kv kv allocations"
    and rec: "rec \<in> set (kv_bindings kv)" "(lb_handle rec, h) \<in> set allocations"
  shows "check_resolved kv allocations (bound_record h rec) = Ok u \<longleftrightarrow>
    filter (\<lambda>e. snd e = h) allocations = [(lb_handle rec, h)] \<and>
    (\<exists>v\<in>set (kv_views kv). vw_allocation v = lb_handle rec \<and> vw_base v = lb_offset rec \<and> lb_span rec \<le> vw_span v)"
proof -
  have ids: "distinct (map al_id (kv_allocations kv))" using kv by (simp add: kv_valid_def allocations_valid_def)
  have fits: "fits_in (kv_allocations kv) (lb_handle rec) (lb_offset rec) (lb_span rec)"
    using kv rec(1) by (simp add: kv_valid_def)
  then obtain a where a: "a \<in> set (kv_allocations kv)" "al_id a = lb_handle rec"
    "unat (lb_offset rec) + unat (lb_span rec) \<le> unat (al_capacity a)" by (auto simp: fits_in_def)
  then have find: "List.find (\<lambda>a. al_id a = lb_handle rec) (kv_allocations kv) = Some a"
    by (simp add: find_allocation [OF ids])
  obtain e where e: "checked_add (lb_offset rec) (lb_span rec) = Some e" "\<not> al_capacity a < e"
    using a(3) unfolding end_within [symmetric] by blast
  have mine: "(lb_handle rec, h) \<in> set (filter (\<lambda>e. snd e = h) allocations)" using rec(2) by simp
  have one: "(\<exists>e. filter (\<lambda>e. snd e = h) allocations = [e] \<and> i = fst e) \<longleftrightarrow>
      filter (\<lambda>e. snd e = h) allocations = [(lb_handle rec, h)] \<and> i = lb_handle rec" for i
    using mine by (metis fst_conv list.set_intros(1) list.simps(15) singletonD empty_set)
  show ?thesis
    unfolding check_resolved_def Let_def and_then_Ok_iff bound_record_def DeviceLaunchBinding.select_convs
      allocation_id_Ok_iff one
    using find e by (auto simp: matching_view_def find_None_iff)
qed

lemma resolve_exact:
  "resolve_launch_bindings kv allocations = Ok bs \<longleftrightarrow>
     kv_valid kv \<and> map_names_kv kv allocations \<and> list_all2 (record_resolves kv allocations) (kv_bindings kv) bs"
proof (cases "kv_valid kv \<and> map_names_kv kv allocations")
  case False
  then show ?thesis
    by (auto simp: resolve_launch_bindings_def and_then_Ok_iff kv_validate_Ok_iff allocation_map_Ok_iff
        kv_valid_def allocations_valid_def)
next
  case True
  then have ids: "distinct (map al_id (kv_allocations kv))" and keys: "distinct (map fst allocations)"
    by (simp_all add: kv_valid_def allocations_valid_def map_names_kv_def)
  have one: "resolve_one_binding kv allocations rec = Ok b \<longleftrightarrow>
      (\<exists>h. (lb_handle rec, h) \<in> set allocations \<and> b = bound_record h rec) \<and>
      (\<exists>v\<in>set (kv_views kv). vw_allocation v = lb_handle rec \<and> vw_base v = lb_offset rec \<and> lb_span rec \<le> vw_span v)" for rec b
    by (auto simp: resolve_one_binding_def and_then_Ok_iff handle_for_Ok_iff [OF keys] Let_def bound_record_def
        matching_view_def find_None_iff)
  have both: "resolve_one_binding kv allocations rec = Ok b \<and> check_resolved kv allocations b = Ok () \<longleftrightarrow>
      record_resolves kv allocations rec b" if "rec \<in> set (kv_bindings kv)" for rec b
  proof
    assume "resolve_one_binding kv allocations rec = Ok b \<and> check_resolved kv allocations b = Ok ()"
    then show "record_resolves kv allocations rec b"
      using check_resolved_record [OF True [THEN conjunct1] True [THEN conjunct2] that] unfolding one record_resolves_def by blast
  next
    assume r: "record_resolves kv allocations rec b"
    then obtain h where b: "b = bound_record h rec" and f: "filter (\<lambda>e. snd e = h) allocations = [(lb_handle rec, h)]"
      unfolding record_resolves_def by blast
    from f have "(lb_handle rec, h) \<in> set (filter (\<lambda>e. snd e = h) allocations)" by simp
    then have mem: "(lb_handle rec, h) \<in> set allocations" by simp
    have "check_resolved kv allocations (bound_record h rec) = Ok ()"
      unfolding check_resolved_record [OF True [THEN conjunct1] True [THEN conjunct2] that mem]
      using f r by (simp add: record_resolves_def)
    moreover have "resolve_one_binding kv allocations rec = Ok b"
      unfolding one using mem b r by (auto simp: record_resolves_def)
    ultimately show "resolve_one_binding kv allocations rec = Ok b \<and> check_resolved kv allocations b = Ok ()"
      using b by simp
  qed
  have "list_all2 (\<lambda>rec b. resolve_one_binding kv allocations rec = Ok b) (kv_bindings kv) bs \<and>
      (\<forall>b\<in>set bs. check_resolved kv allocations b = Ok ()) \<longleftrightarrow>
      list_all2 (record_resolves kv allocations) (kv_bindings kv) bs"
    unfolding list_all2_conv_all_nth all_set_conv_all_nth using both by (metis nth_mem)
  then show ?thesis
    using True by (auto simp: resolve_launch_bindings_def validate_launch_bindings_def and_then_Ok_iff kv_validate_Ok_iff
        allocation_map_Ok_iff [OF ids] launch_records_def try_map_Ok_iff try_each_Ok_iff)
qed

lemma resolved_dispatch:
  assumes "resolve_launch_bindings kv allocations = Ok bs" "dh_backend ` snd ` set allocations \<subseteq> {Metal}"
  shows "validate_dispatch_bindings Metal bs = Ok ()"
proof -
  from assms(1) have kv: "kv_valid kv" and names: "map_names_kv kv allocations"
    and rs: "list_all2 (record_resolves kv allocations) (kv_bindings kv) bs" by (simp_all add: resolve_exact)
  have "binding_fits Metal b" if b: "b \<in> set bs" for b
  proof -
    from rs b obtain rec where rec: "rec \<in> set (kv_bindings kv)" "record_resolves kv allocations rec b"
      by (metis list_all2_conv_all_nth in_set_conv_nth)
    then obtain h where h: "b = bound_record h rec" "filter (\<lambda>e. snd e = h) allocations = [(lb_handle rec, h)]"
      unfolding record_resolves_def by blast
    then have "(lb_handle rec, h) \<in> set (filter (\<lambda>e. snd e = h) allocations)" by simp
    then have mem: "(lb_handle rec, h) \<in> set allocations" by simp
    with names obtain a where a: "a \<in> set (kv_allocations kv)" "al_id a = lb_handle rec"
        "handle_len_bytes h = Some (al_capacity a)"
      unfolding map_names_kv_def by blast
    have "fits_in (kv_allocations kv) (lb_handle rec) (lb_offset rec) (lb_span rec)"
      using kv rec(1) by (simp add: kv_valid_def)
    then obtain c where c: "lb_span rec \<noteq> 0" "c \<in> set (kv_allocations kv)" "al_id c = lb_handle rec"
        "unat (lb_offset rec) + unat (lb_span rec) \<le> unat (al_capacity c)" unfolding fits_in_def by blast
    have "distinct (map al_id (kv_allocations kv))" using kv by (simp add: kv_valid_def allocations_valid_def)
    with a c have "c = a" by (auto simp: distinct_map inj_on_def)
    moreover have "dh_backend h = Metal" using assms(2) mem by force
    ultimately show ?thesis using a c h(1) by (simp add: binding_fits_def bound_record_def)
  qed
  then show ?thesis by (simp add: validate_dispatch_bindings_def try_each_Ok_iff flow)
qed

section \<open>What the steps of the backend keep\<close>

text \<open>The part of the backend a transaction can see.\<close>

record BackendView =
  bv_reservations :: "(LogicalPartitionId, ReservationRecord) bmap"
  bv_staged :: "(OutputRef, StagedWrite) bmap"
  bv_published :: "(OutputRef, StagedWrite) bmap"
  bv_events :: "OperationEvent bset"

definition backend_view :: "('m, 'c) DeviceRuntimeBackend \<Rightarrow> BackendView" where
  "backend_view b = \<lparr>bv_reservations = rb_reservations b, bv_staged = rb_staged_writes b,
     bv_published = rb_published_writes b, bv_events = rb_completed_events b\<rparr>"

lemma backend_view_eq_iff:
  "backend_view b = backend_view c \<longleftrightarrow> rb_reservations b = rb_reservations c \<and>
     rb_staged_writes b = rb_staged_writes c \<and> rb_published_writes b = rb_published_writes c \<and>
     rb_completed_events b = rb_completed_events c"
  by (auto simp: backend_view_def)

abbreviation keeps_view :: "('m, 'c, 'a) backend_step \<Rightarrow> bool" where
  "keeps_view m \<equiv> (\<forall>v. preserves (\<lambda>b. backend_view b = v) m)"

lemma keeps_viewD: "keeps_view m \<Longrightarrow> m b = (r, t) \<Longrightarrow> backend_view t = backend_view b"
  by (auto dest: preservesD)

lemma keeps_view_intros [keeps]:
  "keeps_view m \<Longrightarrow> (\<And>x. keeps_view (f x)) \<Longrightarrow> keeps_view (sthen m f)"
  "keeps_view (slift r)" "keeps_view (sget g)"
  by (simp_all add: keeps)

lemma with_runtime_view [keeps]: "keeps_view (with_runtime p cls m)"
proof -
  have "keeps_view (\<lambda>b. case bmap_get (rs_members (rb_set b)) d of
         None \<Rightarrow> (Err (DeviceLoss p (''PhysicalDeviceId '' @ PhysicalDeviceId_display d @ '' is not in the runtime set'')), b)
       | Some runtime \<Rightarrow>
           (case m runtime of (r, t) \<Rightarrow>
              (map_err (map_host_error p cls) r, b\<lparr>rb_set := \<lparr>rs_members = bmap_insert d t (rs_members (rb_set b))\<rparr>\<rparr>)))" for d
    by (auto simp: preserves_def backend_view_def split: option.split prod.split)
  then show ?thesis unfolding with_runtime_def by (intro keeps)
qed

lemma track_view: "backend_view (track p h b) = backend_view b"
  by (simp add: track_def backend_view_def)

lemma hidden_fields_view:
  "backend_view (b\<lparr>rb_modules := ms\<rparr>) = backend_view b"
  "backend_view (b\<lparr>rb_transport := tr\<rparr>) = backend_view b"
  "backend_view (b\<lparr>rb_resources := rs\<rparr>) = backend_view b"
  by (simp_all add: backend_view_def)

lemma backend_alloc_view [keeps]: "keeps_view (backend_alloc dr p len)"
  unfolding backend_alloc_def by (simp add: keeps track_view)

lemma ensure_module_view [keeps]: "keeps_view (ensure_module dr p)"
proof -
  have "keeps_view (sthen (with_runtime p FaultOperation (runtime_load_module dr img)) (\<lambda>m.
     sthen (smodify (\<lambda>b. b\<lparr>rb_modules := bmap_insert d m (rb_modules b)\<rparr>)) (\<lambda>_. slift (Ok m))))" for d img
    by (simp add: keeps hidden_fields_view)
  then have "keeps_view (\<lambda>b. case bmap_get (rb_modules b) d of
         Some m \<Rightarrow> (Ok m, b)
       | None \<Rightarrow>
           sthen (with_runtime p FaultOperation (runtime_load_module dr (lp_image (rb_launch b)))) (\<lambda>m.
           sthen (smodify (\<lambda>b. b\<lparr>rb_modules := bmap_insert d m (rb_modules b)\<rparr>)) (\<lambda>_. slift (Ok m))) b)" for d
    by (simp add: preserves_def split: option.split)
  then show ?thesis unfolding ensure_module_def by (intro keeps)
qed

lemma stage_to_source_view [keeps]: "keeps_view (stage_to_source dr source len)"
  unfolding stage_to_source_def Let_def by (intro keeps)

lemma land_on_destination_view [keeps]: "keeps_view (land_on_destination dr destination bytes len)"
  unfolding land_on_destination_def Let_def by (intro keeps)

lemma reserve_class_view [keeps]: "keeps_view (reserve_class dr p bytes)"
  unfolding reserve_class_def by (cases "0 < bytes") (simp_all add: keeps)

lemma run_launch_view [keeps]: "keeps_view (run_launch dr p output_bytes)"
  unfolding run_launch_def Let_def by (cases "0 < unat output_bytes") (simp_all add: keeps)

lemma run_barrier_view [keeps]: "keeps_view (run_barrier dr synced ps)"
proof (induction ps arbitrary: synced)
  case Nil
  show ?case by (simp add: preserves_def)
next
  case (Cons p rest)
  have "keeps_view (if List.member synced d then run_barrier dr synced rest
       else sthen (with_runtime p FaultOperation (runtime_sync dr)) (\<lambda>_. run_barrier dr (bset_insert d synced) rest))" for d
    using Cons.IH by (simp add: keeps)
  then have "keeps_view (sthen (sget (device_of p)) (\<lambda>d.
       if List.member synced d then run_barrier dr synced rest
       else sthen (with_runtime p FaultOperation (runtime_sync dr)) (\<lambda>_. run_barrier dr (bset_insert d synced) rest)))"
    by (intro keeps)
  then show ?case by (simp add: preserves_def)
qed

section \<open>Copies never panic\<close>

lemma length_pattern: "length (pattern_bytes n) = n"
  by (simp add: pattern_bytes_def)

lemma staged_bytes: "stage_to_source dr source len b = (Ok bytes, t) \<Longrightarrow> bytes = pattern_bytes len"
  by (auto simp: stage_to_source_def Let_def sthen_Ok_iff slift_def ensure_Ok_iff)

lemma copy_whole_value:
  assumes "ts_range spec = \<lparr>br_offset = 0, br_length = n\<rparr>" "length bs = unat n"
  shows "host_staged_copy spec \<lparr>sv_owner = p, sv_dtype = d, sv_layout = l, sv_generation = g, sv_bytes = bs\<rparr> dst work a \<noteq> None"
proof -
  have "source_fits \<lparr>sv_owner = p, sv_dtype = d, sv_layout = l, sv_generation = g, sv_bytes = bs\<rparr>"
    using assms(2) unat_u64_lt [of n] by (simp add: source_fits_def fits_usize_def)
  moreover have "\<not> 2 ^ 64 \<le> unat (br_offset (ts_range spec)) + unat (br_length (ts_range spec))"
    using assms(1) unat_u64_lt [of n] by simp
  ultimately show ?thesis using host_copy_panics_iff by blast
qed

lemma host_stage_copy_runs:
  assumes "ts_range spec = \<lparr>br_offset = 0, br_length = n\<rparr>"
  shows "\<exists>r t. host_stage_copy dr dbg elapsed source destination spec n b = Some (r, t) \<and> backend_view t = backend_view b"
proof -
  obtain r1 b1 where s: "stage_to_source dr source (unat n) b = (r1, b1)" by (metis surj_pair)
  note v1 = keeps_viewD [OF stage_to_source_view s]
  show ?thesis
  proof (cases r1)
    case (Err e)
    with s v1 show ?thesis by (simp add: host_stage_copy_def)
  next
    case (Ok bytes)
    with staged_bytes s have bytes: "bytes = pattern_bytes (unat n)" by blast
    obtain r2 a where c: "host_staged_copy spec \<lparr>sv_owner = source, sv_dtype = ts_dtype spec, sv_layout = ts_layout spec,
        sv_generation = ts_generation spec, sv_bytes = bytes\<rparr> destination (elapsed b1) (rb_transport b1) = Some (r2, a)"
      using copy_whole_value [OF assms, of bytes] bytes by (metis length_pattern not_None_eq surj_pair)
    show ?thesis
    proof (cases r2)
      case (Err e)
      with s Ok c v1 show ?thesis by (simp add: host_stage_copy_def hidden_fields_view)
    next
      case outcome: (Ok o')
      obtain r3 t where l: "land_on_destination dr destination (to_destination_bytes o') (unat n)
          (b1\<lparr>rb_transport := a\<rparr>) = (r3, t)" by (metis surj_pair)
      with keeps_viewD [OF land_on_destination_view l] s Ok c v1 outcome show ?thesis
        by (simp add: host_stage_copy_def hidden_fields_view)
    qed
  qed
qed

lemma run_broadcast_runs:
  "\<exists>r t. run_broadcast dr dbg elapsed c ps b = Some (r, t) \<and> backend_view t = backend_view b"
proof (induction ps arbitrary: b)
  case (Cons p rest)
  show ?case
  proof (cases "p = cm_source c")
    case True
    with Cons show ?thesis by simp
  next
    case False
    have "ts_range (broadcast_spec c p (rb_transfer_timeout b)) = \<lparr>br_offset = 0, br_length = cm_byte_count c\<rparr>"
      by (simp add: broadcast_spec_def)
    from host_stage_copy_runs [OF this] obtain r t where
      h: "host_stage_copy dr dbg elapsed (cm_source c) p (broadcast_spec c p (rb_transfer_timeout b)) (cm_byte_count c) b
         = Some (r, t)" "backend_view t = backend_view b" by blast
    with False Cons [of t] show ?thesis by (cases r) auto
  qed
qed simp

lemma run_body_runs: "\<exists>r t. run_body dr dbg elapsed op b = Some (r, t) \<and> backend_view t = backend_view b"
proof (cases op)
  case (Launch p r n)
  obtain q t where "run_launch dr p n b = (q, t)" by (metis surj_pair)
  with keeps_viewD [OF run_launch_view this] Launch show ?thesis by (simp add: run_body_def)
next
  case (Transfer m)
  have "ts_range (TransferSpec_from_mirror m (rb_transfer_timeout b)) = \<lparr>br_offset = 0, br_length = tm_byte_count m\<rparr>"
    by (simp add: TransferSpec_from_mirror_def)
  from host_stage_copy_runs [OF this] Transfer show ?thesis by (simp add: run_body_def)
next
  case (CollectiveBroadcast c)
  then show ?thesis using run_broadcast_runs by (simp add: run_body_def)
next
  case (Barrier r ps)
  obtain q t where "run_barrier dr [] ps b = (q, t)" by (metis surj_pair)
  with keeps_viewD [OF run_barrier_view this] Barrier show ?thesis by (simp add: run_body_def)
qed

lemma extend_set: "set (bset_extend xs s) = set s \<union> set xs"
  unfolding bset_extend_def by (induction xs arbitrary: s) auto

lemma runtime_run_runs:
  "\<exists>e t. runtime_run_operation dr dbg elapsed op b = Some (e, t) \<and>
     rb_reservations t = rb_reservations b \<and> rb_staged_writes t = rb_staged_writes b \<and>
     rb_published_writes t = rb_published_writes b \<and>
     set (rb_completed_events t) = set (rb_completed_events b) \<union> (if e = None then set (op_completed_events op) else {})"
proof -
  obtain r t where "run_body dr dbg elapsed op b = Some (r, t)" "backend_view t = backend_view b"
    using run_body_runs by blast
  then show ?thesis
    by (cases r) (simp_all add: runtime_run_operation_def backend_view_eq_iff complete_events_def extend_set)
qed

section \<open>The contract of a backend\<close>

definition rb_ok :: "('m, 'c) DeviceRuntimeBackend \<Rightarrow> bool" where
  "rb_ok b \<longleftrightarrow> bmap_ok (rb_reservations b) \<and> bmap_ok (rb_staged_writes b)"

definition rb_held :: "('m, 'c) DeviceRuntimeBackend \<Rightarrow> LogicalPartitionId set" where
  "rb_held b = set (bmap_keys (rb_reservations b))"

definition rb_staged :: "('m, 'c) DeviceRuntimeBackend \<Rightarrow> OutputRef \<Rightarrow> StagedWrite option" where
  "rb_staged b = bmap_get (rb_staged_writes b)"

definition rb_published :: "('m, 'c) DeviceRuntimeBackend \<Rightarrow> OutputRef \<Rightarrow> StagedWrite option" where
  "rb_published b = bmap_get (rb_published_writes b)"

definition rb_fresh :: "('m, 'c) DeviceRuntimeBackend \<Rightarrow> bool" where
  "rb_fresh b \<longleftrightarrow> (\<exists>s devices launch budget timeout. runtime_backend_new s devices launch budget timeout = Ok b)"

text \<open>A reserve that fails part of the way keeps what it allocated, but the partition stays unreserved.\<close>

definition reserve_effect ::
    "LogicalPartitionId \<Rightarrow> ReservationRecord \<Rightarrow> ('m, 'c) DeviceRuntimeBackend \<Rightarrow>
       (unit, BackendError) result \<times> ('m, 'c) DeviceRuntimeBackend \<Rightarrow> bool" where
  "reserve_effect p reservation b o' \<longleftrightarrow>
     rb_staged_writes (snd o') = rb_staged_writes b \<and> rb_published_writes (snd o') = rb_published_writes b \<and>
     rb_completed_events (snd o') = rb_completed_events b \<and>
     rb_reservations (snd o') =
       (if step_error (fst o') = None then bmap_insert p reservation (rb_reservations b) else rb_reservations b)"

lemma reserve_effect_sthen:
  assumes "keeps_view m" "\<And>x t. backend_view t = backend_view b \<Longrightarrow> reserve_effect p q b (f x t)"
    "backend_view c = backend_view b"
  shows "reserve_effect p q b (sthen m f c)"
proof -
  obtain r t where m: "m c = (r, t)" by (metis surj_pair)
  with keeps_viewD [OF assms(1) m] assms(2,3) show ?thesis
    by (cases r) (simp_all add: sthen_def reserve_effect_def backend_view_eq_iff step_error_def)
qed

lemma reserve_effect: "reserve_effect p q b (runtime_reserve dr p q b)"
  unfolding runtime_reserve_def
  by (intro reserve_effect_sthen keeps refl)
    (simp add: smodify_def reserve_effect_def backend_view_eq_iff step_error_def)

lemma free_partition_view:
  "rb_staged_writes (free_partition dr p b) = rb_staged_writes b"
  "rb_published_writes (free_partition dr p b) = rb_published_writes b"
  "rb_completed_events (free_partition dr p b) = rb_completed_events b"
  "rb_reservations (free_partition dr p b) = bmap_remove p (rb_reservations b)"
proof -
  have "backend_view (snd (with_runtime p FaultOperation m (b\<lparr>rb_resources := rs\<rparr>))) = backend_view b" for m rs
    using keeps_viewD [OF with_runtime_view prod.collapse [symmetric]] hidden_fields_view(3) by metis
  then have "\<exists>t. backend_view t = backend_view b \<and>
      free_partition dr p b = t\<lparr>rb_reservations := bmap_remove p (rb_reservations t)\<rparr>"
    unfolding free_partition_def Let_def by blast
  then show "rb_staged_writes (free_partition dr p b) = rb_staged_writes b"
    "rb_published_writes (free_partition dr p b) = rb_published_writes b"
    "rb_completed_events (free_partition dr p b) = rb_completed_events b"
    "rb_reservations (free_partition dr p b) = bmap_remove p (rb_reservations b)"
    by (auto simp: backend_view_eq_iff)
qed

lemma runtime_methods:
  "be_reserve (runtime_execution_backend dr dbg elapsed) p q b = (res, b') \<longleftrightarrow>
     (\<exists>r. runtime_reserve dr p q b = (r, b') \<and> res = step_error r)"
  "be_run_operation (runtime_execution_backend dr dbg elapsed) op b = (res, b') \<longleftrightarrow>
     runtime_run_operation dr dbg elapsed op b = Some (res, b')"
  "be_stage_write (runtime_execution_backend dr dbg elapsed) = runtime_stage_write"
  "be_publish (runtime_execution_backend dr dbg elapsed) = runtime_publish"
  "be_release (runtime_execution_backend dr dbg elapsed) = free_partition dr"
  "be_retire (runtime_execution_backend dr dbg elapsed) = runtime_retire dr"
  "events_of (runtime_execution_backend dr dbg elapsed) b = set (rb_completed_events b)"
proof -
  show "be_run_operation (runtime_execution_backend dr dbg elapsed) op b = (res, b') \<longleftrightarrow>
     runtime_run_operation dr dbg elapsed op b = Some (res, b')"
    using runtime_run_runs [of dr dbg elapsed op b] by (auto simp: runtime_execution_backend_def)
qed (auto simp: runtime_execution_backend_def events_of_def map_prod_def split: prod.splits)

interpretation runtime_run: execution_environment
  "runtime_execution_backend dr dbg elapsed" rb_ok rb_held rb_staged rb_published rb_fresh "(=)"
  for dr :: "('m, 'c) Drivers" and dbg elapsed
proof unfold_locales
  fix b b' :: "('m, 'c) DeviceRuntimeBackend" and p q res
  assume "be_reserve (runtime_execution_backend dr dbg elapsed) p q b = (res, b')"
  then obtain r where "runtime_reserve dr p q b = (r, b')" "res = step_error r" by (auto simp: runtime_methods)
  with reserve_effect [of p q b dr] have effect: "rb_staged_writes b' = rb_staged_writes b"
    "rb_published_writes b' = rb_published_writes b" "rb_completed_events b' = rb_completed_events b"
    "rb_reservations b' = (if res = None then bmap_insert p q (rb_reservations b) else rb_reservations b)"
    by (simp_all add: reserve_effect_def)
  then show "events_of (runtime_execution_backend dr dbg elapsed) b \<subseteq> events_of (runtime_execution_backend dr dbg elapsed) b'"
    by (simp add: runtime_methods)
  assume "rb_ok b"
  with effect show "rb_ok b' \<and> rb_staged b' = rb_staged b \<and> rb_published b' = rb_published b \<and>
      rb_held b' = (if res = None then insert p (rb_held b) else rb_held b)"
    by (simp add: rb_ok_def rb_staged_def rb_published_def rb_held_def)
next
  fix b b' :: "('m, 'c) DeviceRuntimeBackend" and op res
  assume "be_run_operation (runtime_execution_backend dr dbg elapsed) op b = (res, b')"
  then have "runtime_run_operation dr dbg elapsed op b = Some (res, b')" by (simp add: runtime_methods)
  with runtime_run_runs [of dr dbg elapsed op b] have effect: "rb_staged_writes b' = rb_staged_writes b"
    "rb_published_writes b' = rb_published_writes b" "rb_reservations b' = rb_reservations b"
    "set (rb_completed_events b) \<subseteq> set (rb_completed_events b')" by auto
  then show "events_of (runtime_execution_backend dr dbg elapsed) b \<subseteq> events_of (runtime_execution_backend dr dbg elapsed) b'"
    by (simp add: runtime_methods)
  assume "rb_ok b"
  with effect show "rb_ok b' \<and> rb_held b' = rb_held b \<and> rb_staged b' = rb_staged b \<and> rb_published b' = rb_published b"
    by (simp add: rb_ok_def rb_staged_def rb_published_def rb_held_def)
next
  fix b :: "('m, 'c) DeviceRuntimeBackend" and p f
  assume "rb_ok b"
  then show "rb_ok (be_retire (runtime_execution_backend dr dbg elapsed) p f b) \<and>
      rb_held (be_retire (runtime_execution_backend dr dbg elapsed) p f b) = rb_held b - {p} \<and>
      rb_staged (be_retire (runtime_execution_backend dr dbg elapsed) p f b) = retire_staged p (rb_staged b) \<and>
      rb_published (be_retire (runtime_execution_backend dr dbg elapsed) p f b) = rb_published b"
    by (auto simp: runtime_methods runtime_retire_def Let_def free_partition_view rb_ok_def rb_held_def rb_staged_def
        rb_published_def keys_remove retire_staged_def map_of_filter_value bmap_ok_distinct fun_eq_iff split: option.splits)
next
  fix b :: "('m, 'c) DeviceRuntimeBackend"
  assume "rb_fresh b"
  then show "rb_ok b \<and> rb_held b = {} \<and> rb_staged b = Map.empty \<and> rb_published b = Map.empty"
    by (auto simp: rb_fresh_def runtime_backend_new_def and_then_Ok_iff rb_ok_def rb_held_def rb_staged_def rb_published_def
        split: if_splits)
qed (auto simp: runtime_methods runtime_stage_write_def runtime_publish_def runtime_retire_def free_partition_view
    rb_ok_def rb_held_def rb_staged_def rb_published_def keys_remove map_of_eq_None_iff Let_def split: if_splits)

section \<open>Releasing a partition\<close>

fun runtime_ids :: "('m, 'c) DeviceRuntime \<Rightarrow> u64 set" where
  "runtime_ids (MetalRuntime s) = fst ` set (hr_handles (ms_handles s))"
| "runtime_ids (CudaRuntime s) = fst ` set (hr_handles (cs_handles s))"

definition tracked :: "LogicalPartitionId \<Rightarrow> ('m, 'c) DeviceRuntimeBackend \<Rightarrow> DeviceHandle list" where
  "tracked p b = (case bmap_get (rb_resources b) p of Some hs \<Rightarrow> hs | None \<Rightarrow> [])"

lemma removed_ids: "fst ` set (hr_handles (snd (registry_remove i r))) = fst ` set (hr_handles r) - {i}"
  by (simp add: registry_remove_def keys_remove)

lemma metal_release_handles:
  "ms_handles (snd (metal_release dr i s)) = snd (registry_remove i (ms_handles s))"
proof (cases "registry_get i (ms_handles s)")
  case None
  then have "bmap_remove i (hr_handles (ms_handles s)) = hr_handles (ms_handles s)"
    by (auto simp: bmap_remove_def registry_get_def map_of_eq_None_iff filter_id_conv)
  with None show ?thesis by (simp add: metal_release_def registry_remove_def registry_get_def)
next
  case (Some h)
  then show ?thesis by (simp add: metal_release_def registry_remove_def registry_get_def)
qed

lemma runtime_release_ids:
  "runtime_ids (snd (runtime_release dr h t)) =
     (if dh_backend h = runtime_backend t then runtime_ids t - {dh_id h} else runtime_ids t)"
  "runtime_backend (snd (runtime_release dr h t)) = runtime_backend t"
  by (cases t; simp add: runtime_release_def sthen_lift metal_handle_def cuda_handle_def metal_release_handles
      Cuda_Safety.release_handles removed_ids split: prod.split; metis removed_ids metal_release_handles Cuda_Safety.release_handles snd_conv)+

lemma release_handles_ids:
  "runtime_ids (release_handles dr hs t) =
     runtime_ids t - {dh_id h |h. h \<in> set hs \<and> dh_backend h = runtime_backend t}"
  "runtime_backend (release_handles dr hs t) = runtime_backend t"
  unfolding release_handles_def
  by (induction hs arbitrary: t) (auto simp: runtime_release_ids)

lemma free_partition_device:
  assumes "device_of p b = Ok d" "bmap_get (rs_members (rb_set b)) d = Some t"
  shows "free_partition dr p b =
    b\<lparr>rb_resources := bmap_remove p (rb_resources b), rb_reservations := bmap_remove p (rb_reservations b),
      rb_set := \<lparr>rs_members = bmap_insert d (release_handles dr (tracked p b) t) (rs_members (rb_set b))\<rparr>\<rparr>"
proof -
  have "device_of p (b\<lparr>rb_resources := rs\<rparr>) = Ok d" for rs using assms(1) by (simp add: device_of_def)
  with assms(2) show ?thesis
    by (simp add: free_partition_def Let_def with_runtime_def sthen_get tracked_def)
qed

section \<open>Empty values\<close>

lemma alloc_zero_bytes: "\<exists>e. runtime_alloc_bytes dr 0 t = (Err e, t)"
  by (cases t)
    (simp_all add: runtime_alloc_bytes_def metal_alloc_bytes_def cuda_alloc_bytes_def sthen_def sget_def slift_def
      ensure_def split: result.split)

lemma empty_copy_refused:
  "\<exists>e t. host_stage_copy dr dbg elapsed source destination spec 0 b = Some (Err e, t)"
proof -
  obtain e t where "with_runtime source FaultAllocation (runtime_alloc_bytes dr 0) b = (Err e, t)"
  proof (cases "device_of source b")
    case (Err e)
    then show ?thesis by (intro that [of e b]) (simp add: with_runtime_def sthen_get)
  next
    case d: (Ok d)
    show ?thesis
    proof (cases "bmap_get (rs_members (rb_set b)) d")
      case None
      with d show ?thesis by (intro that) (simp add: with_runtime_def sthen_get)
    next
      case (Some t)
      obtain e where "runtime_alloc_bytes dr 0 t = (Err e, t)" using alloc_zero_bytes by blast
      with d Some show ?thesis by (intro that) (simp add: with_runtime_def sthen_get)
    qed
  qed
  then have "stage_to_source dr source 0 b = (Err e, t)"
    by (simp add: stage_to_source_def backend_alloc_def sthen_def Let_def)
  then show ?thesis by (simp add: host_stage_copy_def)
qed

end
