(* ===== verification/Sample_Runtime.thy ===== *)
theory Sample_Runtime
  imports Runtime_Safety Sample_Plan Sample_Device
begin

text \<open>
  Concrete inputs for the witnesses of the device surface and of the real backend: the two devices of
  the sample plan, each with the sample Metal session on the fake driver, and a KV plan of one
  allocation with its live handle.
\<close>

definition sample_drivers :: "(FakeMetalDriver, FakeCudaDriver) Drivers" where
  "sample_drivers = \<lparr>dr_metal = fake_metal sample_float, dr_cuda = fake_cuda sample_float\<rparr>"

definition sample_runtimes :: "(FakeMetalDriver, FakeCudaDriver) DeviceRuntimeSet" where
  "sample_runtimes = \<lparr>rs_members =
     [(sample_device ''x'', MetalRuntime metal_session0), (sample_device ''y'', MetalRuntime metal_session0)]\<rparr>"

definition sample_runtime_backend :: "(FakeMetalDriver, FakeCudaDriver) DeviceRuntimeBackend" where
  "sample_runtime_backend =
     \<lparr>rb_set = sample_runtimes,
      rb_partition_devices = [(LogicalPartitionId ''a'', sample_device ''x''), (LogicalPartitionId ''b'', sample_device ''y'')],
      rb_launch = \<lparr>lp_image = [1], lp_entry = ''main''\<rparr>, rb_modules = [],
      rb_transport = HostStagedAdapter_new \<lparr>tb_bytes = 1024, tb_time_nanos = 1000000000\<rparr>, rb_transfer_timeout = 1000000,
      rb_reservations = [], rb_resources = [], rb_staged_writes = [], rb_published_writes = [],
      rb_staged_total_bytes = 0, rb_published_total_bytes = 0, rb_published_once = False,
      rb_completed_events = []\<rparr>"

lemma sample_runtime_new:
  "runtime_backend_new sample_runtimes
     [(LogicalPartitionId ''a'', sample_device ''x''), (LogicalPartitionId ''b'', sample_device ''y'')]
     \<lparr>lp_image = [1], lp_entry = ''main''\<rparr> \<lparr>tb_bytes = 1024, tb_time_nanos = 1000000000\<rparr> 1000000 = Ok sample_runtime_backend"
  by (simp add: runtime_backend_new_def runtime_set_contains_def sample_runtimes_def sample_runtime_backend_def ensure_def
      bmap_contains_def)

text \<open>The sample plan with an empty launch, which the real backend skips.\<close>

definition runtime_operations :: "TransactionOperation list" where
  "runtime_operations =
     [Launch (LogicalPartitionId ''a'') (LaunchRef ''l'') 0,
      Transfer sample_transfer,
      Barrier (BarrierRef ''z'') [LogicalPartitionId ''a'', LogicalPartitionId ''b'']]"

definition runtime_tx :: ExecutionTransaction where
  "runtime_tx = (case ExecutionTransaction_new (TransactionId ''i'') sample_bound_plan runtime_operations sample_boundary of
     Ok tx \<Rightarrow> tx | Err e \<Rightarrow> undefined)"

lemma runtime_tx_new:
  "ExecutionTransaction_new (TransactionId ''i'') sample_bound_plan runtime_operations sample_boundary = Ok runtime_tx"
  by (simp add: runtime_tx_def ExecutionTransaction_new_def is_degenerate_def
      sample_bound_plan_def runtime_operations_def)

abbreviation sample_real :: "(FakeMetalDriver, FakeCudaDriver) DeviceRuntimeBackend DeviceExecutionBackend" where
  "sample_real \<equiv> runtime_execution_backend sample_drivers (\<lambda>n. []) (\<lambda>_. 0)"

lemma real_runs:
  assumes "runtime_run.tx_safe dr fmt elapsed tx b"
  shows "\<exists>tx' b'. run_calls dbg (runtime_execution_backend dr fmt elapsed) cs tx b = Some (tx', b')"
  using assms
proof (induction cs arbitrary: tx b)
  case (Cons c cs)
  from runtime_run.reach_step [OF reach_start Cons.prems] obtain tx1 b1 where
    step: "tx_call_step dbg (runtime_execution_backend dr fmt elapsed) c tx b = Some (tx1, b1)" by blast
  from runtime_run.reach_safe [OF reach_call [OF reach_start step] Cons.prems] have "runtime_run.tx_safe dr fmt elapsed tx1 b1" by blast
  from Cons.IH [OF this] step show ?case by simp
qed simp

lemma sample_real_runs: "\<exists>tx b. run_calls (\<lambda>s. s) sample_real cs runtime_tx sample_runtime_backend = Some (tx, b)"
proof -
  have "rb_fresh sample_runtime_backend" unfolding rb_fresh_def using sample_runtime_new by blast
  from real_runs [OF runtime_run.reach_start_safe(1) [OF runtime_tx_new this reach_start]] show ?thesis .
qed

section \<open>A partition with a buffer\<close>

definition loaded_runtime :: "(FakeMetalDriver, FakeCudaDriver) DeviceRuntime" where
  "loaded_runtime = MetalRuntime metal_session1"

lemma loaded_ids: "1 \<in> runtime_ids loaded_runtime"
  by (simp add: loaded_runtime_def metal_session1_def run_metal)

definition loaded_runtime_backend :: "(FakeMetalDriver, FakeCudaDriver) DeviceRuntimeBackend" where
  "loaded_runtime_backend = sample_runtime_backend\<lparr>
     rb_set := \<lparr>rs_members = [(sample_device ''x'', loaded_runtime), (sample_device ''y'', MetalRuntime metal_session0)]\<rparr>,
     rb_resources := [(LogicalPartitionId ''a'', [buffer_handle Metal 4 1])]\<rparr>"

lemma loaded_members_ok: "bmap_ok (rs_members (rb_set loaded_runtime_backend))"
proof -
  have "sample_device ''x'' < sample_device ''y''" by code_simp
  then show ?thesis by (simp add: loaded_runtime_backend_def)
qed

section \<open>A KV plan with a launch record\<close>

definition runtime_record :: DescriptorLaunchBinding where
  "runtime_record = \<lparr>lb_handle = 7, lb_index = 0, lb_offset = 0, lb_span = 32, lb_source = SourcePosition\<rparr>"

definition runtime_kv :: KvCacheDescriptor where
  "runtime_kv =
     \<lparr>kv_allocations = [\<lparr>al_id = 7, al_dtype = DtF32, al_capacity = 64, al_lifetime = PerProgram, al_init = ZeroFill\<rparr>],
      kv_views = [\<lparr>vw_allocation = 7, vw_dims = [2, 4], vw_strides = [4, 1], vw_base = 0, vw_span = 32\<rparr>],
      kv_state = \<lparr>iv_position = 0, iv_valid_len_after = 0, iv_query_rows = 1, iv_sequence_epoch = 0\<rparr>,
      kv_bindings = [runtime_record]\<rparr>"

lemma runtime_kv_valid: "kv_valid runtime_kv"
  by (simp add: runtime_kv_def runtime_record_def kv_valid_def allocations_valid_def view_valid_def fits_in_def)

lemma runtime_kv_resolves:
  "map_names_kv runtime_kv [(7, buffer_handle Metal 64 1)]"
  "list_all2 (record_resolves runtime_kv [(7, buffer_handle Metal 64 1)]) (kv_bindings runtime_kv)
     [bound_record (buffer_handle Metal 64 1) runtime_record]"
proof -
  have h: "handle_len_bytes (buffer_handle Metal 64 1) = Some 64" by (simp add: buffer_handle_def handle_len_bytes_def)
  show "map_names_kv runtime_kv [(7, buffer_handle Metal 64 1)]" by (simp add: map_names_kv_def runtime_kv_def h)
  have "record_resolves runtime_kv [(7, buffer_handle Metal 64 1)] runtime_record
      (bound_record (buffer_handle Metal 64 1) runtime_record)"
    unfolding record_resolves_def
    by (intro conjI exI [of _ "buffer_handle Metal 64 1"]) (simp_all add: runtime_kv_def runtime_record_def)
  then show "list_all2 (record_resolves runtime_kv [(7, buffer_handle Metal 64 1)]) (kv_bindings runtime_kv)
     [bound_record (buffer_handle Metal 64 1) runtime_record]" by (simp add: runtime_kv_def)
qed

end
