(* ===== verification/Distributed_Translate.thy ===== *)
theory Distributed_Translate
  imports Device_Types Transaction_Runs
begin

text \<open>
  From a carried image to a prepared transaction: \<open>macos-arm64/src/distributed_translate.rs\<close> translates
  the distributed section of an image into the operations of a transaction and binds its partitions onto
  a discovery snapshot, \<open>macos-arm64/src/invocation_facts.rs\<close> prepares the transaction on the fake and
  reports it. The image format is a foreign crate: its decoder, its admission and its version are
  arguments, and the records \<open>Wire\<dots>\<close> hold exactly the fields the source reads of a section, with ids
  that are only printed already rendered.
\<close>

section \<open>The section as the code reads it\<close>

record WireBoundary =
  wb_barriers :: "u32 list"
  wb_launches :: "u32 list"

datatype WireTransferDirection = WireH2D | WireD2H | WireBIDI

record WireTransfer =
  wt_id :: string
  wt_source :: u32
  wt_destination :: u32
  wt_byte_count :: u64
  wt_direction :: WireTransferDirection
  wt_element_ty :: string
  wt_producer_generation :: u32
  wt_consumer_generation :: u32
  wt_completion_boundary :: WireBoundary

record WireBroadcast =
  wc_id :: string
  wc_source :: u32
  wc_participants :: "u32 list"
  wc_byte_count :: u64

datatype WireOperation =
    WireLaunch (wl_partition: u32) (wl_launch: u32)
  | WireTransferOp WireTransfer
  | WireBroadcastOp WireBroadcast
  | WireBarrierOp (wr_id: u32) (wr_partitions: "u32 list")

datatype WireConstraint = PartitionBudgetBytes u32 u64 | OtherWireConstraint

record WireResult =
  wres_buffer :: u32
  wres_produced_by :: u32

record WirePartition =
  wp_id :: u32
  wp_results :: "WireResult list"

record WireSection =
  ws_version :: u32
  ws_hash :: string
  ws_partitions :: "WirePartition list"
  ws_placement :: "(u32 \<times> u64) list"
  ws_constraints :: "WireConstraint list"
  ws_operations :: "WireOperation list"
  ws_boundary :: WireBoundary

section \<open>Errors and policies\<close>

definition DEFAULT_PARTITION_BUDGET_BYTES :: u64 where
  "DEFAULT_PARTITION_BUDGET_BYTES = 160 * 1024 * 1024"

datatype TranslateError =
    TranslateDecode string
  | MissingDistributedSection
  | VersionMismatch u32 u32
  | TranslateAdmit string
  | TranslateUnsupported string

fun TranslateError_display :: "TranslateError \<Rightarrow> string" where
  "TranslateError_display (TranslateDecode detail) = ''distributed image decode failed: '' @ detail"
| "TranslateError_display MissingDistributedSection = ''device section carries no distributed execution section''"
| "TranslateError_display (VersionMismatch actual expected) =
     ''distributed section version '' @ display_u32 actual @ '' is not '' @ display_u32 expected"
| "TranslateError_display (TranslateAdmit detail) = ''distributed section admission failed: '' @ detail"
| "TranslateError_display (TranslateUnsupported detail) = ''distributed section unsupported: '' @ detail"

datatype BindPolicy = ColocateOnSnapshot | OnePhysicalPerPartition | SplitAcrossMembership u32

definition bind_policy_for_declared_count :: "nat \<Rightarrow> u32 \<Rightarrow> (BindPolicy, TranslateError) result" where
  "bind_policy_for_declared_count partition_count bind_count =
     (if bind_count = 0 then Err (TranslateUnsupported ''declared bind count 0 is not a legal bind'')
      else if bind_count = 1 then Ok ColocateOnSnapshot
      else let count = unat bind_count in
        if count = partition_count then Ok OnePhysicalPerPartition
        else if count < partition_count \<and> partition_count mod count = 0 then Ok (SplitAcrossMembership bind_count)
        else Err (TranslateUnsupported (''declared bind count '' @ display_u32 bind_count @ '' for '' @
          show_nat partition_count @ '' partitions is not 1 (colocate), '' @ show_nat partition_count @
          '' (one physical per partition), or a divisor (split); richer bind negotiation waits for MD5'')))"

definition oq2_default_headroom_policy_bytes :: "u64 \<Rightarrow> u64" where
  "oq2_default_headroom_policy_bytes n = n div 10 * 9 + (n mod 10) * 9 div 10"

section \<open>Translation\<close>

record TranslatedDistributedPlan =
  td_hash :: string
  td_partitions :: "LogicalPartitionId list"
  td_operations :: "TransactionOperation list"
  td_commit_boundary :: TransactionCommitBoundary
  td_partition_budget :: "(LogicalPartitionId, u64) bmap"

definition td_canonical_bytes :: "TranslatedDistributedPlan \<Rightarrow> u8 list" where
  "td_canonical_bytes p =
     fold (\<lambda>op out. out @ op_canonical_bytes op) (td_operations p) [] @ boundary_canonical_bytes (td_commit_boundary p)"

fun is_launch_op :: "TransactionOperation \<Rightarrow> bool" where
  "is_launch_op (Launch p r n) = True"
| "is_launch_op _ = False"

definition communication_graph_edge_count :: "TranslatedDistributedPlan \<Rightarrow> u64" where
  "communication_graph_edge_count p = of_nat (length (filter (\<lambda>op. \<not> is_launch_op op) (td_operations p)))"

definition logical_partition :: "u32 \<Rightarrow> LogicalPartitionId" where
  "logical_partition i = LogicalPartitionId (''partition-'' @ display_u32 i)"

definition launch_ref :: "u32 \<Rightarrow> LaunchRef" where
  "launch_ref i = LaunchRef (''launch-'' @ display_u32 i)"

definition barrier_ref :: "u32 \<Rightarrow> BarrierRef" where
  "barrier_ref i = BarrierRef (''barrier-'' @ display_u32 i)"

definition translate_commit_boundary :: "WireBoundary \<Rightarrow> TransactionCommitBoundary" where
  "translate_commit_boundary b =
     TransactionCommitBoundary_new (map barrier_ref (wb_barriers b)) (map launch_ref (wb_launches b))"

fun translate_direction :: "WireTransferDirection \<Rightarrow> TransferDirectionMirror" where
  "translate_direction WireH2D = H2D"
| "translate_direction WireD2H = D2H"
| "translate_direction WireBIDI = BIDI"

definition translate_dtype :: "string \<Rightarrow> (MirroredDtype, TranslateError) result" where
  "translate_dtype spelling =
     (if spelling = ''f32'' then Ok F32
      else if spelling = ''f64'' then Ok F64
      else if spelling = ''f16'' then Ok F16
      else if spelling = ''bf16'' then Ok BF16
      else if spelling = ''i8'' then Ok I8
      else if spelling = ''i32'' then Ok I32
      else Err (TranslateUnsupported (''element type `'' @ spelling @ ''` is outside the mirrored dtype surface'')))"

definition bytes_or_zero :: "(u32, u64) bmap \<Rightarrow> u32 \<Rightarrow> u64" where
  "bytes_or_zero m k = (case bmap_get m k of Some n \<Rightarrow> n | None \<Rightarrow> 0)"

fun translate_operation :: "(u32, u64) bmap \<Rightarrow> WireOperation \<Rightarrow> (TransactionOperation, TranslateError) result" where
  "translate_operation launch_output_bytes (WireLaunch p l) =
     Ok (Launch (logical_partition p) (launch_ref l) (bytes_or_zero launch_output_bytes l))"
| "translate_operation launch_output_bytes (WireTransferOp t) =
     and_then (translate_dtype (wt_element_ty t)) (\<lambda>dtype.
     Ok (Transfer \<lparr>tm_id = TransferRef (''transfer-'' @ wt_id t), tm_source = logical_partition (wt_source t),
        tm_destination = logical_partition (wt_destination t), tm_byte_count = wt_byte_count t,
        tm_direction = translate_direction (wt_direction t), tm_element_dtype = dtype, tm_layout = Dense, tm_path_label = HostStagedPath,
        tm_producer_generation = ucast (wt_producer_generation t), tm_consumer_generation = ucast (wt_consumer_generation t),
        tm_completion_boundary = translate_commit_boundary (wt_completion_boundary t)\<rparr>))"
| "translate_operation launch_output_bytes (WireBroadcastOp c) =
     Ok (CollectiveBroadcast \<lparr>cm_id = CollectiveRef (''collective-'' @ wc_id c), cm_source = logical_partition (wc_source c),
        cm_participants = bset_of_list (map logical_partition (wc_participants c)), cm_byte_count = wc_byte_count c\<rparr>)"
| "translate_operation launch_output_bytes (WireBarrierOp i ps) =
     Ok (Barrier (barrier_ref i) (bset_of_list (map logical_partition ps)))"

definition buffer_bytes_of :: "WireSection \<Rightarrow> (u32, u64) bmap" where
  "buffer_bytes_of s = fold (\<lambda>(b, n). bmap_insert b n) (ws_placement s) []"

definition launch_bytes_of :: "WireSection \<Rightarrow> (u32, u64) bmap" where
  "launch_bytes_of s =
     fold (\<lambda>p. fold (\<lambda>r. bmap_insert (wres_produced_by r) (bytes_or_zero (buffer_bytes_of s) (wres_buffer r))) (wp_results p))
       (ws_partitions s) []"

fun insert_budget :: "WireConstraint \<Rightarrow> (LogicalPartitionId, u64) bmap \<Rightarrow> (LogicalPartitionId, u64) bmap" where
  "insert_budget (PartitionBudgetBytes p n) m = bmap_insert (logical_partition p) n m"
| "insert_budget OtherWireConstraint m = m"

definition translate_admitted_section :: "WireSection \<Rightarrow> (TranslatedDistributedPlan, TranslateError) result" where
  "translate_admitted_section s =
     (let partitions = map (\<lambda>p. logical_partition (wp_id p)) (ws_partitions s);
          launch_output_bytes = launch_bytes_of s in
      and_then (try_map (translate_operation launch_output_bytes) (ws_operations s)) (\<lambda>operations.
      Ok \<lparr>td_hash = ws_hash s, td_partitions = partitions, td_operations = operations,
          td_commit_boundary = translate_commit_boundary (ws_boundary s),
          td_partition_budget = fold insert_budget (ws_constraints s)
            (fold (\<lambda>p. bmap_insert p DEFAULT_PARTITION_BUDGET_BYTES) partitions [])\<rparr>))"

text \<open>
  The foreign format: \<open>decode\<close> is the postcard decoder, \<open>admit_device\<close> the admission of the crate,
  \<open>distributed\<close> the optional section of a decoded device and \<open>version\<close> the section version it declares.
\<close>

record 'd WireFormat =
  wf_decode :: "u8 list \<Rightarrow> ('d, string) result"
  wf_admit :: "'d \<Rightarrow> string option"
  wf_distributed :: "'d \<Rightarrow> WireSection option"
  wf_version :: u32

definition translate_device_section_bytes ::
    "'d WireFormat \<Rightarrow> u8 list \<Rightarrow> (TranslatedDistributedPlan, TranslateError) result" where
  "translate_device_section_bytes fmt bytes =
     and_then (map_err TranslateDecode (wf_decode fmt bytes)) (\<lambda>device.
     and_then (case wf_admit fmt device of Some e \<Rightarrow> Err (TranslateAdmit e) | None \<Rightarrow> Ok ()) (\<lambda>_.
     and_then (ok_or (wf_distributed fmt device) MissingDistributedSection) (\<lambda>s.
     and_then (ensure (ws_version s = wf_version fmt) (VersionMismatch (ws_version s) (wf_version fmt))) (\<lambda>_.
     translate_admitted_section s))))"

section \<open>Binding\<close>

definition snapshot_physical_ids :: "DeviceDiscoverySnapshot \<Rightarrow> PhysicalDeviceId list" where
  "snapshot_physical_ids snapshot = map de_identity (bmap_values (ds_devices snapshot))"

definition partition_budget :: "TranslatedDistributedPlan \<Rightarrow> LogicalPartitionId \<Rightarrow> u64" where
  "partition_budget plan p =
     (case bmap_get (td_partition_budget plan) p of Some n \<Rightarrow> n | None \<Rightarrow> DEFAULT_PARTITION_BUDGET_BYTES)"

definition safe_limit_bytes_for :: "DeviceDiscoverySnapshot \<Rightarrow> PhysicalDeviceId \<Rightarrow> (u64, BindError) result" where
  "safe_limit_bytes_for snapshot device =
     ok_or (map_option (\<lambda>e. oq2_default_headroom_policy_bytes (api_total_bytes (de_memory e)))
         (List.find (\<lambda>e. de_identity e = device) (bmap_values (ds_devices snapshot))))
       (TopologyMismatch (''bound device '' @ PhysicalDeviceId_display device @
         '' has no snapshot memory facts; the OQ-2 safe limit cannot be derived''))"

definition partition_ledger :: "u64 \<Rightarrow> PartitionBudgetLedger" where
  "partition_ledger budget_bytes =
     (let quarter = budget_bytes div 4 in
      \<lparr>weight_bytes = 0, kv_cache_bytes = 0, activation_scratch_bytes = quarter, module_storage_bytes = 0,
       allocator_overhead_bytes = 0, transfer_staging_bytes = quarter, concurrent_state_bytes = 0\<rparr>)"

definition admit_virtual :: "u64 \<Rightarrow> PhysicalDeviceId \<Rightarrow> u64 \<Rightarrow> u64 \<Rightarrow> (VirtualDevicePartition, BindError) result" where
  "admit_virtual seed device budget_bytes safe_limit_bytes =
     map_err (\<lambda>e. case e of BudgetExceeded declared limit \<Rightarrow>
         BindBudgetExceeded (LogicalPartitionId (''vp:'' @ display_u64 seed)) declared limit)
       (admit \<lparr>req_partition_id = VirtualDevicePartitionId seed, req_bound_device = device,
               req_declared = partition_ledger budget_bytes\<rparr> (SafePhysicalLimit safe_limit_bytes))"

text \<open>
  The three loops over the partitions in plan order differ in the device they pick for an index; an
  index out of range panics and is \<^const>\<open>None\<close>.
\<close>

definition bind_partition ::
    "TranslatedDistributedPlan \<Rightarrow> DeviceDiscoverySnapshot \<Rightarrow> PhysicalDeviceId \<Rightarrow> nat \<times> LogicalPartitionId \<Rightarrow>
       Bindings \<Rightarrow> (Bindings, BindError) result" where
  "bind_partition plan snapshot device e bindings =
     and_then (safe_limit_bytes_for snapshot device) (\<lambda>limit.
     and_then (admit_virtual (of_nat (fst e) + 1) device (partition_budget plan (snd e)) limit) (\<lambda>vp.
     Ok (bmap_insert (snd e) (PartitionBinding_with_virtual_partition device vp) bindings)))"

fun bind_each ::
    "TranslatedDistributedPlan \<Rightarrow> DeviceDiscoverySnapshot \<Rightarrow> (nat \<Rightarrow> PhysicalDeviceId option) \<Rightarrow>
       (nat \<times> LogicalPartitionId) list \<Rightarrow> Bindings \<Rightarrow> (Bindings, BindError) result option" where
  "bind_each plan snapshot pick [] bindings = Some (Ok bindings)"
| "bind_each plan snapshot pick (e # rest) bindings =
     (case pick (fst e) of
        None \<Rightarrow> None
      | Some device \<Rightarrow>
          (case bind_partition plan snapshot device e bindings of
             Err error \<Rightarrow> Some (Err error)
           | Ok bindings \<Rightarrow> bind_each plan snapshot pick rest bindings))"

definition finish_bind ::
    "(u8 list \<Rightarrow> u8 list) \<Rightarrow> (AdmitError \<Rightarrow> string) \<Rightarrow> TranslatedDistributedPlan \<Rightarrow> Bindings \<Rightarrow> DeviceSet \<Rightarrow>
       DeviceDiscoverySnapshot \<Rightarrow> DeclaredPlacementConstraint list \<Rightarrow> (BoundDistributedPlan, BindError) result option" where
  "finish_bind sha dbg plan bindings device_set snapshot constraints =
     (case AdmittedLogicalPlan_admit (td_hash plan) (td_partitions plan) constraints of
        Err error \<Rightarrow> Some (Err (TopologyMismatch (''translated plan failed logical admission: '' @ dbg error)))
      | Ok admitted \<Rightarrow>
          bind sha admitted bindings device_set snapshot DeviceHealthGeneration_initial Virtual HostStagedTransport)"

definition bind_with ::
    "(u8 list \<Rightarrow> u8 list) \<Rightarrow> (AdmitError \<Rightarrow> string) \<Rightarrow> TranslatedDistributedPlan \<Rightarrow> DeviceDiscoverySnapshot \<Rightarrow>
       (nat \<Rightarrow> PhysicalDeviceId option) \<Rightarrow> PhysicalDeviceId list \<Rightarrow> DeclaredPlacementConstraint list \<Rightarrow>
       (BoundDistributedPlan, BindError) result option" where
  "bind_with sha dbg plan snapshot pick members constraints =
     (case bind_each plan snapshot pick (List.enumerate 0 (td_partitions plan)) [] of
        None \<Rightarrow> None
      | Some (Err e) \<Rightarrow> Some (Err e)
      | Some (Ok bindings) \<Rightarrow>
          finish_bind sha dbg plan bindings (DeviceSet_from_members members) snapshot constraints)"

definition no_physical_devices :: BindError where
  "no_physical_devices = TopologyMismatch ''discovery snapshot has no physical devices''"

definition bind_colocate ::
    "(u8 list \<Rightarrow> u8 list) \<Rightarrow> (AdmitError \<Rightarrow> string) \<Rightarrow> TranslatedDistributedPlan \<Rightarrow> DeviceDiscoverySnapshot \<Rightarrow>
       DeclaredPlacementConstraint list \<Rightarrow> (BoundDistributedPlan, BindError) result option" where
  "bind_colocate sha dbg plan snapshot constraints =
     (case snapshot_physical_ids snapshot of
        [] \<Rightarrow> Some (Err no_physical_devices)
      | device # _ \<Rightarrow> bind_with sha dbg plan snapshot (\<lambda>_. Some device) [device] constraints)"

definition promoted_device :: "PhysicalDeviceId list \<Rightarrow> nat \<Rightarrow> PhysicalDeviceId" where
  "promoted_device devices i =
     (if i < length devices then devices ! i else PhysicalDeviceId_cuda (''GPU-promoted-'' @ show_nat i) None)"

definition bind_one_physical_per_partition ::
    "(u8 list \<Rightarrow> u8 list) \<Rightarrow> (AdmitError \<Rightarrow> string) \<Rightarrow> TranslatedDistributedPlan \<Rightarrow> DeviceDiscoverySnapshot \<Rightarrow>
       DeclaredPlacementConstraint list \<Rightarrow> (BoundDistributedPlan, BindError) result option" where
  "bind_one_physical_per_partition sha dbg plan snapshot constraints =
     (let devices = snapshot_physical_ids snapshot in
      if devices = [] then Some (Err no_physical_devices)
      else bind_with sha dbg plan snapshot (\<lambda>i. Some (promoted_device devices i)) devices constraints)"

definition bind_split_across_membership ::
    "(u8 list \<Rightarrow> u8 list) \<Rightarrow> (AdmitError \<Rightarrow> string) \<Rightarrow> TranslatedDistributedPlan \<Rightarrow> DeviceDiscoverySnapshot \<Rightarrow> u32 \<Rightarrow>
       DeclaredPlacementConstraint list \<Rightarrow> (BoundDistributedPlan, BindError) result option" where
  "bind_split_across_membership sha dbg plan snapshot bind_count constraints =
     (let members = unat bind_count;
          partition_count = length (td_partitions plan);
          devices = snapshot_physical_ids snapshot in
      if members = 0 \<or> partition_count \<le> members \<or> partition_count mod members \<noteq> 0 then
        Some (Err (TopologyMismatch (''split bind count '' @ display_u32 bind_count @ '' is not a legal split of '' @
          show_nat partition_count @ '' partitions (1 < m < '' @ show_nat partition_count @ '', '' @
          show_nat partition_count @ '' % m == 0)'')))
      else if length devices \<noteq> members then
        Some (Err (TopologyMismatch (''split bind count '' @ display_u32 bind_count @ '' requires exactly '' @
          display_u32 bind_count @ '' physical device(s); snapshot has '' @ show_nat (length devices))))
      else let chunk = partition_count div members in
        bind_with sha dbg plan snapshot
          (\<lambda>i. if i div chunk < length devices then Some (devices ! (i div chunk)) else None) devices constraints)"

definition bind_translated_with_constraints ::
    "(u8 list \<Rightarrow> u8 list) \<Rightarrow> (AdmitError \<Rightarrow> string) \<Rightarrow> TranslatedDistributedPlan \<Rightarrow> DeviceDiscoverySnapshot \<Rightarrow> BindPolicy \<Rightarrow>
       DeclaredPlacementConstraint list \<Rightarrow> (BoundDistributedPlan, BindError) result option" where
  "bind_translated_with_constraints sha dbg plan snapshot policy constraints =
     (case policy of
        ColocateOnSnapshot \<Rightarrow> bind_colocate sha dbg plan snapshot constraints
      | OnePhysicalPerPartition \<Rightarrow> bind_one_physical_per_partition sha dbg plan snapshot constraints
      | SplitAcrossMembership bind_count \<Rightarrow>
          bind_split_across_membership sha dbg plan snapshot bind_count constraints)"

definition bind_translated ::
    "(u8 list \<Rightarrow> u8 list) \<Rightarrow> (AdmitError \<Rightarrow> string) \<Rightarrow> TranslatedDistributedPlan \<Rightarrow> DeviceDiscoverySnapshot \<Rightarrow> BindPolicy \<Rightarrow>
       (BoundDistributedPlan, BindError) result option" where
  "bind_translated sha dbg plan snapshot policy = bind_translated_with_constraints sha dbg plan snapshot policy []"

section \<open>Preparing an image\<close>

record DistributedPrepareReceipt =
  dp_physical_device_count :: u64
  dp_physical_device_ids :: "string list"
  dp_virtual_partition_count :: u64
  dp_virtual_partition_ids :: "string list"
  dp_fixture_identity_class :: string
  dp_transport_class :: string
  dp_hardware_isolation_claimed :: bool
  dp_bind_shape :: string
  dp_communication_graph_edge_count :: u64
  dp_snapshot_id :: string
  dp_logical_hash :: string
  dp_bound_hash :: string
  dp_transaction_state :: string

fun fixture_spelling :: "FixtureIdentityClass \<Rightarrow> string" where
  "fixture_spelling Physical = ''physical''"
| "fixture_spelling Virtual = ''virtual''"
| "fixture_spelling Synthetic = ''synthetic''"

fun transport_spelling :: "TransportClass \<Rightarrow> string" where
  "transport_spelling NoTransport = ''none''"
| "transport_spelling HostStagedTransport = ''host_staged''"
| "transport_spelling DirectedPeerNotAttempted = ''directed_peer_not_attempted''"

definition distributed_prepare_receipt :: "BoundDistributedPlan \<Rightarrow> u64 \<Rightarrow> DistributedPrepareReceipt" where
  "distributed_prepare_receipt bound edges =
     (let receipt = plan_receipt bound in
      \<lparr>dp_physical_device_count = physical_device_count receipt,
       dp_physical_device_ids = map PhysicalDeviceId_display (physical_device_ids receipt),
       dp_virtual_partition_count = virtual_partition_count receipt,
       dp_virtual_partition_ids = map VirtualDevicePartitionId_display (virtual_partition_ids receipt),
       dp_fixture_identity_class = fixture_spelling (fixture_identity_class receipt),
       dp_transport_class = transport_spelling (transport_class receipt),
       dp_hardware_isolation_claimed = False,
       dp_bind_shape = display_u64 (virtual_partition_count receipt) @ '':'' @ display_u64 (physical_device_count receipt),
       dp_communication_graph_edge_count = edges,
       dp_snapshot_id = display_snapshot_id (bdp_snapshot_id bound),
       dp_logical_hash = bdp_logical_hash bound,
       dp_bound_hash = bdp_bound_hash bound,
       dp_transaction_state = ''prepared''\<rparr>)"

text \<open>The debug renderings the errors carry.\<close>

record DebugNames =
  dn_admit :: "AdmitError \<Rightarrow> string"
  dn_bind :: "BindError \<Rightarrow> string"
  dn_construct :: "ConstructError \<Rightarrow> string"
  dn_prepare :: "PrepareError \<Rightarrow> string"
  dn_state :: "TransactionState \<Rightarrow> string"

definition translate_to_host_error :: "TranslateError \<Rightarrow> HostError" where
  "translate_to_host_error e = HostError_invalid_args (''distributed translate '' @ TranslateError_display e)"

definition bind_to_host_error :: "DebugNames \<Rightarrow> BindError \<Rightarrow> HostError" where
  "bind_to_host_error dn e =
     (case e of
        TopologyMismatch detail \<Rightarrow> HostError_invalid_args (''TopologyMismatch: '' @ detail)
      | other \<Rightarrow> HostError_invalid_args (''distributed bind rejected: '' @ dn_bind dn other))"

definition prepare_bound ::
    "DebugNames \<Rightarrow> nat \<Rightarrow> TranslatedDistributedPlan \<Rightarrow> BoundDistributedPlan \<Rightarrow>
       (DistributedPrepareReceipt, HostError) result option" where
  "prepare_bound dn elapsed translated bound =
     (case ExecutionTransaction_new (TransactionId ''md3h-h4-prepare'') bound (td_operations translated)
         (td_commit_boundary translated) of
        Err e \<Rightarrow> Some (Err (HostError_invalid_args (''distributed transaction construct failed: '' @ dn_construct dn e)))
      | Ok tx \<Rightarrow>
          (case prepare fake_backend elapsed tx FakeExecutionBackend_new of
             None \<Rightarrow> None
           | Some (Some e, tx, b) \<Rightarrow>
               Some (Err (HostError_invalid_args (''distributed transaction prepare failed: '' @ dn_prepare dn e)))
           | Some (None, tx, b) \<Rightarrow>
               if et_state tx \<noteq> Prepared then
                 Some (Err (HostError_invalid_args (''distributed transaction prepare left state '' @ dn_state dn (et_state tx))))
               else Some (Ok (distributed_prepare_receipt bound (communication_graph_edge_count translated)))))"

definition prepare_distributed_image ::
    "(u8 list \<Rightarrow> u8 list) \<Rightarrow> DebugNames \<Rightarrow> 'd WireFormat \<Rightarrow> nat \<Rightarrow> u8 list \<Rightarrow> DeviceDiscoverySnapshot \<Rightarrow> u32 \<Rightarrow>
       (DistributedPrepareReceipt, HostError) result option" where
  "prepare_distributed_image sha dn fmt elapsed img snapshot bind_count =
     (case map_err translate_to_host_error (translate_device_section_bytes fmt img) of
        Err e \<Rightarrow> Some (Err e)
      | Ok translated \<Rightarrow>
          (case map_err translate_to_host_error
              (bind_policy_for_declared_count (length (td_partitions translated)) bind_count) of
             Err e \<Rightarrow> Some (Err e)
           | Ok policy \<Rightarrow>
               (case bind_translated sha (dn_admit dn) translated snapshot policy of
                  None \<Rightarrow> None
                | Some (Err e) \<Rightarrow> Some (Err (bind_to_host_error dn e))
                | Some (Ok bound) \<Rightarrow> prepare_bound dn elapsed translated bound)))"

end
