(* ===== verification/Translate_Safety.thy ===== *)
theory Translate_Safety
  imports Distributed_Translate
begin

text \<open>
  What the translation and the binding of an image decide: the headroom policy in exact arithmetic, the
  bytes of a launch, the placement of every policy, and which images can be prepared at all.
\<close>

section \<open>Limits and budgets\<close>

lemma headroom_exact: "unat (oq2_default_headroom_policy_bytes n) = unat n * 9 div 10"
proof -
  define q r where "q = unat n div 10" and "r = unat n mod 10"
  have n: "unat n = 10 * q + r" and r: "r < 10" by (simp_all add: q_def r_def)
  have below: "unat n < 18446744073709551616" using unat_u64_lt [of n] by simp
  have "unat n * 9 = r * 9 + (q * 9) * 10" by (simp add: n)
  then have exact: "unat n * 9 div 10 = q * 9 + r * 9 div 10" by simp
  have small: "q * 9 + r * 9 div 10 < 18446744073709551616" "r * 9 < 18446744073709551616"
    using below n r by linarith+
  have "unat (n mod 10 * 9 div 10) = r * 9 div 10" "unat (n div 10 * 9) = q * 9"
    using small unfolding q_def r_def by (simp_all add: unat_div unat_mod unat_word_ariths)
  then show ?thesis
    unfolding oq2_default_headroom_policy_bytes_def exact using small by (simp add: unat_word_ariths)
qed

lemma policy_Ok_iff:
  "bind_policy_for_declared_count n k = Ok p \<longleftrightarrow>
     (k = 1 \<and> p = ColocateOnSnapshot) \<or>
     (k \<noteq> 0 \<and> k \<noteq> 1 \<and> unat k = n \<and> p = OnePhysicalPerPartition) \<or>
     (k \<noteq> 0 \<and> k \<noteq> 1 \<and> unat k < n \<and> unat k dvd n \<and> p = SplitAcrossMembership k)"
  by (auto simp: bind_policy_for_declared_count_def Let_def dvd_eq_mod_eq_0)

lemma ledger_total: "\<exists>t. total_bytes (partition_ledger b) = Some t \<and> unat t = 2 * (unat b div 4)"
proof -
  have q: "unat (b div 4) = unat b div 4" by (simp add: unat_div)
  have "unat b < 18446744073709551616" using unat_u64_lt [of b] by simp
  then have "unat b div 4 + unat b div 4 < 18446744073709551616" by linarith
  then have "checked_add (b div 4) (b div 4) = Some (b div 4 + b div 4)"
    by (simp add: checked_add_def q)
  moreover have zero: "checked_add 0 x = Some x" "checked_add x 0 = Some x" for x :: u64
    using unat_u64_lt [of x] by (simp_all add: checked_add_def)
  ultimately have t: "total_bytes (partition_ledger b) = Some (b div 4 + b div 4)"
    by (simp add: total_bytes_def partition_ledger_def Let_def)
  from \<open>checked_add (b div 4) (b div 4) = Some (b div 4 + b div 4)\<close> have "unat (b div 4 + b div 4) = unat (b div 4) + unat (b div 4)"
    by (rule checked_add_unat)
  with t show ?thesis by (simp add: q)
qed

section \<open>The bytes of a launch\<close>

lemma get_fold_insert:
  "bmap_ok m \<Longrightarrow> bmap_get (fold (\<lambda>x. bmap_insert (f x) (g x)) xs m) k =
     (case List.find (\<lambda>x. f x = k) (rev xs) of Some x \<Rightarrow> Some (g x) | None \<Rightarrow> bmap_get m k)"
proof (induction xs arbitrary: m)
  case (Cons x xs)
  then show ?case by (simp add: find_append split: option.split)
qed simp

lemma fold_concat: "fold (\<lambda>p. fold f (g p)) ps m = fold f (concat (map g ps)) m"
  by (induction ps arbitrary: m) simp_all

lemma launch_bytes_exact:
  "bytes_or_zero (launch_bytes_of s) l =
     (case List.find (\<lambda>r. wres_produced_by r = l) (rev (concat (map wp_results (ws_partitions s)))) of
        Some r \<Rightarrow> bytes_or_zero (buffer_bytes_of s) (wres_buffer r) | None \<Rightarrow> 0)"
  by (simp add: bytes_or_zero_def launch_bytes_of_def fold_concat get_fold_insert split: option.split)

section \<open>Placing the partitions\<close>

definition budget_fits :: "TranslatedDistributedPlan \<Rightarrow> DeviceDiscoveryEntry \<Rightarrow> LogicalPartitionId \<Rightarrow> bool" where
  "budget_fits plan e p \<longleftrightarrow> 2 * (unat (partition_budget plan p) div 4) \<le> unat (api_total_bytes (de_memory e)) * 9 div 10"

definition admitted_on :: "TranslatedDistributedPlan \<Rightarrow> DeviceDiscoverySnapshot \<Rightarrow> PhysicalDeviceId \<Rightarrow> nat \<Rightarrow>
    LogicalPartitionId \<Rightarrow> VirtualDevicePartition" where
  "admitted_on plan s device i p =
     \<lparr>vp_id = VirtualDevicePartitionId (of_nat i + 1), vp_bound_device = device,
      vp_ledger = partition_ledger (partition_budget plan p),
      vp_safe_limit = SafePhysicalLimit
        (oq2_default_headroom_policy_bytes (api_total_bytes (de_memory (the (find_entry s device))))),
      vp_state = Active\<rparr>"

definition binding_on :: "TranslatedDistributedPlan \<Rightarrow> DeviceDiscoverySnapshot \<Rightarrow> PhysicalDeviceId \<Rightarrow> nat \<Rightarrow>
    LogicalPartitionId \<Rightarrow> PartitionBinding" where
  "binding_on plan s device i p = PartitionBinding_with_virtual_partition device (admitted_on plan s device i p)"

definition fits_on :: "TranslatedDistributedPlan \<Rightarrow> DeviceDiscoverySnapshot \<Rightarrow> PhysicalDeviceId \<Rightarrow> LogicalPartitionId \<Rightarrow> bool" where
  "fits_on plan s device p \<longleftrightarrow> (\<exists>e. find_entry s device = Some e \<and> budget_fits plan e p)"

lemma bind_partition_Ok_iff:
  "bind_partition plan s device (i, p) b = Ok b' \<longleftrightarrow>
     fits_on plan s device p \<and> b' = bmap_insert p (binding_on plan s device i p) b"
proof (cases "find_entry s device")
  case None
  then show ?thesis
    by (simp add: bind_partition_def safe_limit_bytes_for_def find_entry_def fits_on_def and_then_Ok_iff ok_or_Ok_iff)
next
  case (Some e)
  obtain t where t: "total_bytes (partition_ledger (partition_budget plan p)) = Some t"
    "unat t = 2 * (unat (partition_budget plan p) div 4)" using ledger_total by blast
  have "t \<le> oq2_default_headroom_policy_bytes (api_total_bytes (de_memory e)) \<longleftrightarrow> budget_fits plan e p"
    by (simp add: word_le_nat_alt headroom_exact t(2) budget_fits_def)
  with Some t(1) show ?thesis
    by (auto simp: bind_partition_def safe_limit_bytes_for_def find_entry_def fits_on_def and_then_Ok_iff ok_or_Ok_iff
        admit_virtual_def admit_def Let_def binding_on_def admitted_on_def)
qed

lemma bind_each_cases:
  assumes "\<forall>e\<in>set xs. pick (fst e) = Some (dev (fst e))"
  shows "\<exists>r. bind_each plan s pick xs b = Some r \<and>
     (\<forall>b'. r = Ok b' \<longleftrightarrow> (\<forall>e\<in>set xs. fits_on plan s (dev (fst e)) (snd e)) \<and>
        b' = fold (\<lambda>e. bmap_insert (snd e) (binding_on plan s (dev (fst e)) (fst e) (snd e))) xs b)"
  using assms
proof (induction xs arbitrary: b)
  case (Cons e xs)
  obtain i p where e: "e = (i, p)" by (cases e)
  show ?case
  proof (cases "bind_partition plan s (dev i) (i, p) b")
    case (Ok b1)
    then have "fits_on plan s (dev i) p" "b1 = bmap_insert p (binding_on plan s (dev i) i p) b"
      by (simp_all add: bind_partition_Ok_iff)
    moreover obtain r where "bind_each plan s pick xs b1 = Some r"
      "\<forall>b'. r = Ok b' \<longleftrightarrow> (\<forall>e\<in>set xs. fits_on plan s (dev (fst e)) (snd e)) \<and>
        b' = fold (\<lambda>e. bmap_insert (snd e) (binding_on plan s (dev (fst e)) (fst e) (snd e))) xs b1"
      using Cons.IH [of b1] Cons.prems by auto
    ultimately show ?thesis using Cons.prems Ok e by auto
  next
    case (Err x)
    then have "bind_partition plan s (dev i) (i, p) b \<noteq> Ok (bmap_insert p (binding_on plan s (dev i) i p) b)" by simp
    then have "\<not> fits_on plan s (dev i) p" by (simp add: bind_partition_Ok_iff)
    with Err Cons.prems e show ?thesis by auto
  qed
qed auto

definition placement :: "TranslatedDistributedPlan \<Rightarrow> DeviceDiscoverySnapshot \<Rightarrow> (nat \<Rightarrow> PhysicalDeviceId) \<Rightarrow> Bindings" where
  "placement plan s dev = bmap_of_list
     (map (\<lambda>e. (snd e, binding_on plan s (dev (fst e)) (fst e) (snd e))) (List.enumerate 0 (td_partitions plan)))"

lemma fold_placement:
  "fold (\<lambda>e. bmap_insert (snd e) (binding_on plan s (dev (fst e)) (fst e) (snd e))) (List.enumerate 0 (td_partitions plan)) []
     = placement plan s dev"
proof -
  have "fold (\<lambda>e. bmap_insert (k e) (v e)) xs m = fold (\<lambda>(a, b). bmap_insert a b) (map (\<lambda>e. (k e, v e)) xs) m"
    for k v m and xs :: "(nat \<times> LogicalPartitionId) list" by (induction xs arbitrary: m) simp_all
  then show ?thesis by (simp add: placement_def bmap_of_list_def)
qed

lemma placement_ok: "bmap_ok (placement plan s dev)"
  by (simp add: placement_def)

lemma placement_get:
  assumes "distinct (td_partitions plan)"
  shows "bmap_get (placement plan s dev) p = Some b \<longleftrightarrow>
    (\<exists>i<length (td_partitions plan). td_partitions plan ! i = p \<and> b = binding_on plan s (dev i) i p)"
proof -
  let ?xs = "map (\<lambda>e. (snd e, binding_on plan s (dev (fst e)) (fst e) (snd e))) (List.enumerate 0 (td_partitions plan))"
  have d: "distinct (map fst ?xs)" using assms by (simp add: comp_def)
  then have "bmap_get (placement plan s dev) p = Some b \<longleftrightarrow> (p, b) \<in> set ?xs"
    by (simp only: placement_def map_of_bmap_of_list map_of_rev_distinct map_of_eq_Some_iff)
  also have "\<dots> \<longleftrightarrow> (\<exists>i<length (td_partitions plan). td_partitions plan ! i = p \<and> b = binding_on plan s (dev i) i p)"
  proof
    assume "(p, b) \<in> set ?xs"
    then show "\<exists>i<length (td_partitions plan). td_partitions plan ! i = p \<and> b = binding_on plan s (dev i) i p"
      by (auto simp: in_set_enumerate_eq)
  next
    assume "\<exists>i<length (td_partitions plan). td_partitions plan ! i = p \<and> b = binding_on plan s (dev i) i p"
    then obtain i where "i < length (td_partitions plan)" "td_partitions plan ! i = p" "b = binding_on plan s (dev i) i p" by blast
    then show "(p, b) \<in> set ?xs"
      unfolding set_map image_iff by (intro bexI [of _ "(i, p)"]) (simp_all add: in_set_enumerate_eq)
  qed
  finally show ?thesis .
qed

lemma placement_bindings:
  assumes "distinct (td_partitions plan)"
  shows "set (bmap_keys (placement plan s dev)) = set (td_partitions plan)"
    and "set (bmap_values (placement plan s dev)) =
      {binding_on plan s (dev i) i (td_partitions plan ! i) |i. i < length (td_partitions plan)}"
proof -
  have mem: "(p, b) \<in> set (placement plan s dev) \<longleftrightarrow>
      (\<exists>i<length (td_partitions plan). td_partitions plan ! i = p \<and> b = binding_on plan s (dev i) i p)" for p b
    using placement_get [OF assms, of s dev p b] bmap_get_iff_mem [OF placement_ok] by metis
  show "set (bmap_keys (placement plan s dev)) = set (td_partitions plan)"
  proof
    show "set (bmap_keys (placement plan s dev)) \<subseteq> set (td_partitions plan)" using mem by auto
    show "set (td_partitions plan) \<subseteq> set (bmap_keys (placement plan s dev))"
    proof
      fix p assume "p \<in> set (td_partitions plan)"
      then obtain i where "i < length (td_partitions plan)" "td_partitions plan ! i = p" by (metis in_set_conv_nth)
      with mem have "(p, binding_on plan s (dev i) i p) \<in> set (placement plan s dev)" by blast
      then show "p \<in> set (bmap_keys (placement plan s dev))" by force
    qed
  qed
  show "set (bmap_values (placement plan s dev)) =
      {binding_on plan s (dev i) i (td_partitions plan ! i) |i. i < length (td_partitions plan)}"
  proof
    show "set (bmap_values (placement plan s dev)) \<subseteq>
        {binding_on plan s (dev i) i (td_partitions plan ! i) |i. i < length (td_partitions plan)}" using mem by auto
    show "{binding_on plan s (dev i) i (td_partitions plan ! i) |i. i < length (td_partitions plan)} \<subseteq>
        set (bmap_values (placement plan s dev))"
    proof
      fix b assume "b \<in> {binding_on plan s (dev i) i (td_partitions plan ! i) |i. i < length (td_partitions plan)}"
      with mem obtain p where "(p, b) \<in> set (placement plan s dev)" by blast
      then show "b \<in> set (bmap_values (placement plan s dev))" by force
    qed
  qed
qed

lemma binding_on_simps [simp]:
  "pb_device (binding_on plan s d i p) = d"
  "pb_virtual (binding_on plan s d i p) = Some (admitted_on plan s d i p)"
  "vp_bound_device (admitted_on plan s d i p) = d"
  "vp_is_active (admitted_on plan s d i p)"
  by (simp_all add: binding_on_def PartitionBinding_with_virtual_partition_def admitted_on_def vp_is_active_def)

section \<open>What a policy accepts\<close>

definition logical_of :: "TranslatedDistributedPlan \<Rightarrow> DeclaredPlacementConstraint list \<Rightarrow> AdmittedLogicalPlan" where
  "logical_of plan cs = \<lparr>alp_hash = td_hash plan, alp_partitions = bset_of_list (td_partitions plan),
     alp_constraints = cs, alp_demand = LaunchResourceDemand_default\<rparr>"

definition placeable ::
    "TranslatedDistributedPlan \<Rightarrow> DeviceDiscoverySnapshot \<Rightarrow> (nat \<Rightarrow> PhysicalDeviceId) \<Rightarrow> PhysicalDeviceId list \<Rightarrow>
       DeclaredPlacementConstraint list \<Rightarrow> bool" where
  "placeable plan s dev members cs \<longleftrightarrow>
     is_sha256_hex (td_hash plan) \<and> td_partitions plan \<noteq> [] \<and>
     (\<forall>c\<in>set cs. constraint_partitions c \<subseteq> set (td_partitions plan)) \<and>
     (\<forall>i<length (td_partitions plan). fits_on plan s (dev i) (td_partitions plan ! i)) \<and>
     (\<forall>e\<in>set (bmap_values (ds_devices s)). de_health_generation e = DeviceHealthGeneration_initial) \<and>
     set members = dev ` {..<length (td_partitions plan)} \<and>
     (\<forall>c\<in>set cs. constraint_holds c (placement plan s dev))"

lemma all_enumerate: "(\<forall>e\<in>set (List.enumerate 0 xs). P (fst e) (snd e)) \<longleftrightarrow> (\<forall>i<length xs. P i (xs ! i))"
proof
  assume all: "\<forall>e\<in>set (List.enumerate 0 xs). P (fst e) (snd e)"
  show "\<forall>i<length xs. P i (xs ! i)"
  proof (intro allI impI)
    fix i assume "i < length xs"
    then have "(i, xs ! i) \<in> set (List.enumerate 0 xs)" by (simp add: in_set_enumerate_eq)
    with all show "P i (xs ! i)" by fastforce
  qed
qed (auto simp: in_set_enumerate_eq)

lemma bindable_placement:
  assumes "distinct (td_partitions plan)"
    and "\<forall>i<length (td_partitions plan). fits_on plan s (dev i) (td_partitions plan ! i)"
  shows "bindable (logical_of plan cs) (placement plan s dev) (DeviceSet_from_members members) s DeviceHealthGeneration_initial \<longleftrightarrow>
     (\<forall>e\<in>set (bmap_values (ds_devices s)). de_health_generation e = DeviceHealthGeneration_initial) \<and>
     set members = dev ` {..<length (td_partitions plan)} \<and>
     (\<forall>c\<in>set cs. constraint_holds c (placement plan s dev))"
proof -
  have devices: "pb_device ` set (bmap_values (placement plan s dev)) = dev ` {..<length (td_partitions plan)}"
    unfolding placement_bindings(2) [OF assms(1)] by (auto simp: image_iff) (metis binding_on_simps(1))
  have found: "find_entry s d \<noteq> None" if "d \<in> dev ` {..<length (td_partitions plan)}" for d
    using assms(2) that by (auto simp: fits_on_def)
  have active: "\<forall>b\<in>set (bmap_values (placement plan s dev)). \<forall>v. pb_virtual b = Some v \<longrightarrow>
      vp_bound_device v = pb_device b \<and> vp_is_active v"
    unfolding placement_bindings(2) [OF assms(1)] by auto
  have launch: "launch_fits LaunchResourceDemand_default caps" for caps
    by (simp add: launch_fits_def LaunchResourceDemand_default_def)
  have set_members: "set (set_members (DeviceSet_from_members members)) = set members"
    by (simp add: DeviceSet_from_members_def)
  have logical: "alp_demand (logical_of plan cs) = LaunchResourceDemand_default" "alp_constraints (logical_of plan cs) = cs"
    "set (alp_partitions (logical_of plan cs)) = set (td_partitions plan)" by (simp_all add: logical_of_def)
  show ?thesis
    unfolding bindable_def set_members devices logical placement_bindings(1) [OF assms(1)]
    using found active launch by blast
qed

lemma bind_with_cases:
  assumes "distinct (td_partitions plan)" "\<forall>i<length (td_partitions plan). pick i = Some (dev i)"
  shows "(\<exists>bound. bind_with sha dbg plan s pick members cs = Some (Ok bound) \<and> placeable plan s dev members cs \<and>
        bound_plan_of sha (logical_of plan cs) (placement plan s dev) (DeviceSet_from_members members) s Virtual
          HostStagedTransport bound) \<or>
     (\<exists>e. bind_with sha dbg plan s pick members cs = Some (Err e) \<and> \<not> placeable plan s dev members cs)"
proof -
  have "\<forall>e\<in>set (List.enumerate 0 (td_partitions plan)). pick (fst e) = Some (dev (fst e))"
    using assms(2) by (auto simp: in_set_enumerate_eq)
  from bind_each_cases [OF this, of plan s "[]", unfolded all_enumerate [where P = "\<lambda>i. fits_on plan s (dev i)"] fold_placement]
  obtain r where each: "bind_each plan s pick (List.enumerate 0 (td_partitions plan)) [] = Some r"
    and all: "\<forall>b. r = Ok b \<longleftrightarrow> (\<forall>i<length (td_partitions plan). fits_on plan s (dev i) (td_partitions plan ! i)) \<and>
      b = placement plan s dev" by (elim exE conjE)
  note r = all [rule_format]
  show ?thesis
  proof (cases r)
    case (Err e)
    with r have "\<not> placeable plan s dev members cs" unfolding placeable_def by blast
    with Err each show ?thesis by (simp add: bind_with_def)
  next
    case (Ok b)
    with r have fits: "\<forall>i<length (td_partitions plan). fits_on plan s (dev i) (td_partitions plan ! i)"
      and b: "b = placement plan s dev" by blast+
    show ?thesis
    proof (cases "AdmittedLogicalPlan_admit (td_hash plan) (td_partitions plan) cs")
      case refused: (Err e)
      then have "AdmittedLogicalPlan_admit (td_hash plan) (td_partitions plan) cs \<noteq> Ok (logical_of plan cs)" by simp
      from this [unfolded admit_plan_Ok_iff logical_of_def] have "\<not> placeable plan s dev members cs"
        unfolding placeable_def by blast
      with refused each Ok show ?thesis by (simp add: bind_with_def finish_bind_def)
    next
      case admitted: (Ok a)
      from this [unfolded admit_plan_Ok_iff] have a: "a = logical_of plan cs" "is_sha256_hex (td_hash plan)"
        "td_partitions plan \<noteq> []" "\<forall>c\<in>set cs. constraint_partitions c \<subseteq> set (td_partitions plan)"
        unfolding logical_of_def by blast+
      have "well_formed_bind a b (DeviceSet_from_members members)"
        using admitted_ok_admit [OF admitted] b by (simp add: well_formed_bind_def placement_ok DeviceSet_from_members_def)
      from bind_cases [OF this, of sha s DeviceHealthGeneration_initial Virtual HostStagedTransport]
      have "(\<exists>bound. bind_with sha dbg plan s pick members cs = Some (Ok bound) \<and>
            bindable a b (DeviceSet_from_members members) s DeviceHealthGeneration_initial \<and>
            bound_plan_of sha a b (DeviceSet_from_members members) s Virtual HostStagedTransport bound) \<or>
          (\<exists>e. bind_with sha dbg plan s pick members cs = Some (Err e) \<and>
            \<not> bindable a b (DeviceSet_from_members members) s DeviceHealthGeneration_initial)"
        using each Ok admitted by (simp add: bind_with_def finish_bind_def)
      moreover have "bindable a b (DeviceSet_from_members members) s DeviceHealthGeneration_initial \<longleftrightarrow>
          placeable plan s dev members cs"
        unfolding a(1) b bindable_placement [OF assms(1) fits] placeable_def using a fits by blast
      ultimately show ?thesis unfolding a(1) b by blast
    qed
  qed
qed

section \<open>The three policies\<close>

fun policy_device :: "nat \<Rightarrow> PhysicalDeviceId list \<Rightarrow> BindPolicy \<Rightarrow> nat \<Rightarrow> PhysicalDeviceId" where
  "policy_device n ids ColocateOnSnapshot i = hd ids"
| "policy_device n ids OnePhysicalPerPartition i = promoted_device ids i"
| "policy_device n ids (SplitAcrossMembership m) i = ids ! (i div (n div unat m))"

fun policy_legal :: "nat \<Rightarrow> PhysicalDeviceId list \<Rightarrow> BindPolicy \<Rightarrow> bool" where
  "policy_legal n ids ColocateOnSnapshot \<longleftrightarrow> ids \<noteq> []"
| "policy_legal n ids OnePhysicalPerPartition \<longleftrightarrow> ids \<noteq> []"
| "policy_legal n ids (SplitAcrossMembership m) \<longleftrightarrow> m \<noteq> 0 \<and> unat m < n \<and> unat m dvd n \<and> length ids = unat m"

fun policy_members :: "PhysicalDeviceId list \<Rightarrow> BindPolicy \<Rightarrow> PhysicalDeviceId list" where
  "policy_members ids ColocateOnSnapshot = [hd ids]"
| "policy_members ids OnePhysicalPerPartition = ids"
| "policy_members ids (SplitAcrossMembership m) = ids"

lemma colocated: "policy_device n ids ColocateOnSnapshot = (\<lambda>i. hd ids)"
  by (rule ext) simp

lemma promoted: "policy_device n ids OnePhysicalPerPartition = promoted_device ids"
  by (rule ext) simp

lemma divided: "policy_device n ids (SplitAcrossMembership m) = (\<lambda>i. ids ! (i div (n div unat m)))"
  by (rule ext) simp

lemma split_index: "i div (n div m) < m" if "i < n" "m dvd n" "0 < (m::nat)"
proof -
  obtain c where n: "n = m * c" using \<open>m dvd n\<close> by blast
  with \<open>i < n\<close> have "0 < c" by (metis gr0I mult_0_right not_less_zero)
  with n \<open>i < n\<close> \<open>0 < m\<close> show ?thesis by (simp add: less_mult_imp_div_less)
qed

definition bind_accepts ::
    "TranslatedDistributedPlan \<Rightarrow> DeviceDiscoverySnapshot \<Rightarrow> BindPolicy \<Rightarrow> DeclaredPlacementConstraint list \<Rightarrow> bool" where
  "bind_accepts plan s policy cs \<longleftrightarrow>
     policy_legal (length (td_partitions plan)) (snapshot_physical_ids s) policy \<and>
     placeable plan s (policy_device (length (td_partitions plan)) (snapshot_physical_ids s) policy)
       (policy_members (snapshot_physical_ids s) policy) cs"

definition bound_by ::
    "(u8 list \<Rightarrow> u8 list) \<Rightarrow> TranslatedDistributedPlan \<Rightarrow> DeviceDiscoverySnapshot \<Rightarrow> BindPolicy \<Rightarrow>
       DeclaredPlacementConstraint list \<Rightarrow> BoundDistributedPlan \<Rightarrow> bool" where
  "bound_by sha plan s policy cs bound \<longleftrightarrow>
     bound_plan_of sha (logical_of plan cs)
       (placement plan s (policy_device (length (td_partitions plan)) (snapshot_physical_ids s) policy))
       (DeviceSet_from_members (policy_members (snapshot_physical_ids s) policy)) s Virtual HostStagedTransport bound"

lemma bind_translated_cases:
  assumes "distinct (td_partitions plan)"
  shows "(\<exists>bound. bind_translated_with_constraints sha dbg plan s policy cs = Some (Ok bound) \<and>
        bind_accepts plan s policy cs \<and> bound_by sha plan s policy cs bound) \<or>
     (\<exists>e. bind_translated_with_constraints sha dbg plan s policy cs = Some (Err e) \<and> \<not> bind_accepts plan s policy cs)"
proof (cases policy)
  case ColocateOnSnapshot
  show ?thesis
  proof (cases "snapshot_physical_ids s")
    case Nil
    with ColocateOnSnapshot show ?thesis
      by (simp add: bind_translated_with_constraints_def bind_colocate_def bind_accepts_def)
  next
    case (Cons d ds)
    have "\<forall>i<length (td_partitions plan). (\<lambda>_. Some d) i = Some (policy_device (length (td_partitions plan)) (d # ds) ColocateOnSnapshot i)"
      by simp
    from bind_with_cases [OF assms this, of sha dbg s "[d]" cs] Cons ColocateOnSnapshot show ?thesis
      by (simp add: bind_translated_with_constraints_def bind_colocate_def bind_accepts_def bound_by_def colocated)
  qed
next
  case OnePhysicalPerPartition
  show ?thesis
  proof (cases "snapshot_physical_ids s = []")
    case True
    with OnePhysicalPerPartition show ?thesis
      by (simp add: bind_translated_with_constraints_def bind_one_physical_per_partition_def bind_accepts_def)
  next
    case False
    have "\<forall>i<length (td_partitions plan). (\<lambda>i. Some (promoted_device (snapshot_physical_ids s) i)) i =
        Some (policy_device (length (td_partitions plan)) (snapshot_physical_ids s) OnePhysicalPerPartition i)" by simp
    from bind_with_cases [OF assms this, of sha dbg s "snapshot_physical_ids s" cs] False OnePhysicalPerPartition show ?thesis
      by (simp add: bind_translated_with_constraints_def bind_one_physical_per_partition_def bind_accepts_def
          bound_by_def promoted Let_def)
  qed
next
  case (SplitAcrossMembership m)
  let ?n = "length (td_partitions plan)" and ?ids = "snapshot_physical_ids s"
  show ?thesis
  proof (cases "m \<noteq> 0 \<and> unat m < ?n \<and> unat m dvd ?n \<and> length ?ids = unat m")
    case False
    then have "\<not> bind_accepts plan s policy cs" unfolding bind_accepts_def SplitAcrossMembership policy_legal.simps by blast
    moreover have "\<exists>e. bind_split_across_membership sha dbg plan s m cs = Some (Err e)"
      using False by (auto simp: bind_split_across_membership_def Let_def dvd_eq_mod_eq_0 unat_eq_0)
    ultimately show ?thesis by (simp add: SplitAcrossMembership bind_translated_with_constraints_def)
  next
    case True
    then have m: "0 < unat m" by (simp add: unat_gt_0)
    let ?pick = "\<lambda>i. if i div (?n div unat m) < length ?ids then Some (?ids ! (i div (?n div unat m))) else None"
    have pick: "\<forall>i<?n. ?pick i = Some (policy_device ?n ?ids policy i)"
      using True m by (simp add: SplitAcrossMembership split_index)
    have "bind_split_across_membership sha dbg plan s m cs = bind_with sha dbg plan s ?pick ?ids cs"
      using True m by (simp add: bind_split_across_membership_def Let_def dvd_eq_mod_eq_0)
    moreover have "policy_legal ?n ?ids policy" "policy_members ?ids policy = ?ids"
      using True by (simp_all add: SplitAcrossMembership)
    ultimately show ?thesis
      using bind_with_cases [OF assms pick, of sha dbg s ?ids cs]
      by (simp add: bind_translated_with_constraints_def bind_accepts_def bound_by_def SplitAcrossMembership divided)
  qed
qed

section \<open>Preparing\<close>

lemma prepare_bound_cases:
  "(\<exists>tx. prepare_bound dn elapsed td bound = Some (Ok (distributed_prepare_receipt bound (communication_graph_edge_count td))) \<and>
      ExecutionTransaction_new (TransactionId ''md3h-h4-prepare'') bound (td_operations td) (td_commit_boundary td) = Ok tx \<and>
      accepted_plan tx) \<or>
   (\<exists>e. prepare_bound dn elapsed td bound = Some (Err e) \<and>
      (\<forall>tx. ExecutionTransaction_new (TransactionId ''md3h-h4-prepare'') bound (td_operations td) (td_commit_boundary td) = Ok tx
         \<longrightarrow> \<not> accepted_plan tx))"
proof (cases "ExecutionTransaction_new (TransactionId ''md3h-h4-prepare'') bound (td_operations td) (td_commit_boundary td)")
  case (Err e)
  then show ?thesis by (simp add: prepare_bound_def)
next
  case (Ok tx)
  then have tx: "\<not> is_degenerate bound" "et_bound_plan tx = bound" "et_state tx = New"
    by (auto simp: ExecutionTransaction_new_def split: if_splits)
  then obtain bs where bs: "plan_bindings (et_bound_plan tx) = Some bs"
    by (auto simp: is_degenerate_def plan_bindings_def split: BoundPlanKind.splits)
  have distinct: "distinct (map fst (tx_reservation tx))"
    by (simp add: tx_reservation_def reservation_keys bset_ok_distinct referenced_partitions_def)
  have "fake_ok FakeExecutionBackend_new" "fake_live FakeExecutionBackend_new" "fake_held FakeExecutionBackend_new = {}"
    by (auto simp: fake_ok_def fake_live_def fake_held_def fake_staged_def FakeExecutionBackend_new_def)
  then obtain b where "reserve_all fake_backend (tx_reservation tx) FakeExecutionBackend_new = (None, b)"
    using fake_reserve_all [of FakeExecutionBackend_new "tx_reservation tx"] distinct by auto
  with prepare_cases [OF tx(3) bs, of fake_backend elapsed FakeExecutionBackend_new] Ok show ?thesis
    by (auto simp: prepare_bound_def prepared_def)
qed

text \<open>The facts of a bind leave one bound plan.\<close>

lemma bound_plan_unique:
  assumes "bound_plan_of sha a b ds s f t p" "bound_plan_of sha a b ds s f t q"
  shows "p = q"
proof -
  have "bdp_kind p = bdp_kind q" using assms by (auto simp: bound_plan_of_def)
  moreover from this have "plan_canonical_bytes p = plan_canonical_bytes q"
    by (intro plan_bytes_cong) (use assms in \<open>simp_all add: bound_plan_of_def\<close>)
  ultimately show ?thesis
    using assms unfolding bound_plan_of_def by (intro BoundDistributedPlan.equality) simp_all
qed

definition transaction_accepted :: "TranslatedDistributedPlan \<Rightarrow> BoundDistributedPlan \<Rightarrow> bool" where
  "transaction_accepted td bound \<longleftrightarrow>
     (\<exists>tx. ExecutionTransaction_new (TransactionId ''md3h-h4-prepare'') bound (td_operations td) (td_commit_boundary td) = Ok tx \<and>
        accepted_plan tx)"

text \<open>The kind of an accepted plan, and the counts its receipt reports.\<close>

lemma accepted_distributed:
  assumes "bound_by sha td s policy cs bound" "transaction_accepted td bound"
  shows "length (td_partitions td) \<noteq> 1 \<or> \<not> distinct (td_partitions td)"
    and "bdp_kind bound = Distributed (placement td s (policy_device (length (td_partitions td)) (snapshot_physical_ids s) policy))"
proof -
  let ?b = "placement td s (policy_device (length (td_partitions td)) (snapshot_physical_ids s) policy)"
  from assms(2) have "\<not> is_degenerate bound"
    by (auto simp: transaction_accepted_def ExecutionTransaction_new_def split: if_splits)
  moreover have "plan_kind (logical_of td cs) ?b = Some (bdp_kind bound)"
    using assms(1) by (simp add: bound_by_def bound_plan_of_def)
  ultimately have single: "\<not> is_single_partition (logical_of td cs)" and kind: "bdp_kind bound = Distributed ?b"
    by (cases "bdp_kind bound"; auto simp: plan_kind_def is_degenerate_def split: if_splits list.splits)+
  then show "bdp_kind bound = Distributed ?b" by simp
  from single show "length (td_partitions td) \<noteq> 1 \<or> \<not> distinct (td_partitions td)"
    unfolding is_single_partition_def logical_of_def by simp (metis length_bset_distinct)
qed

lemma set_map_filter_virtual:
  "set (List.map_filter (\<lambda>b. map_option f (g b)) xs) = {f v |b v. b \<in> set xs \<and> g b = Some v}"
  by (force simp: List.map_filter_def)

lemma seed_id: "vp_id (admitted_on td s d i p) = VirtualDevicePartitionId (of_nat i + 1)"
  by (simp add: admitted_on_def)

lemma seeds_card:
  assumes "n \<le> 18446744073709551616"
  shows "card {VirtualDevicePartitionId (of_nat i + 1) |i. i < n} = n"
proof -
  have "inj_on (\<lambda>i. VirtualDevicePartitionId (of_nat i + 1)) {..<n}"
  proof (rule inj_onI)
    fix i j assume ij: "i \<in> {..<n}" "j \<in> {..<n}" and
      eq: "VirtualDevicePartitionId (of_nat i + 1) = VirtualDevicePartitionId (of_nat j + 1)"
    then have "(of_nat i :: u64) = of_nat j" by simp
    then have "unat (of_nat i :: u64) = unat (of_nat j :: u64)" by simp
    with ij assms show "i = j" by (simp add: unat_of_nat)
  qed
  moreover have "{VirtualDevicePartitionId (of_nat i + 1) |i. i < n} = (\<lambda>i. VirtualDevicePartitionId (of_nat i + 1)) ` {..<n}"
    by auto
  ultimately show ?thesis by (simp add: card_image)
qed

lemma placement_receipt:
  assumes "distinct (td_partitions td)" "length (td_partitions td) \<le> 18446744073709551616"
    and "bdp_kind bound = Distributed (placement td s dev)"
  shows "physical_device_ids (plan_receipt bound) = bset_of_list (map dev [0..<length (td_partitions td)])"
    and "physical_device_count (plan_receipt bound) = of_nat (card (dev ` {..<length (td_partitions td)}))"
    and "virtual_partition_count (plan_receipt bound) = of_nat (length (td_partitions td))"
proof -
  let ?n = "length (td_partitions td)"
  have devices: "pb_device ` set (bmap_values (placement td s dev)) = dev ` {..<?n}"
    unfolding placement_bindings(2) [OF assms(1)] by (auto simp: image_iff) (metis binding_on_simps(1))
  have ids: "physical_device_ids (plan_receipt bound) = bset_of_list (map pb_device (bmap_values (placement td s dev)))"
    by (simp add: plan_receipt_def assms(3) PartitionReceipt_new_def Let_def)
  show "physical_device_ids (plan_receipt bound) = bset_of_list (map dev [0..<?n])"
    unfolding ids by (rule bset_of_list_cong) (simp only: set_map devices [unfolded set_map] set_upt atLeast0LessThan)
  show "physical_device_count (plan_receipt bound) = of_nat (card (dev ` {..<?n}))"
    unfolding devices [symmetric] set_map [symmetric] length_bset_of_list [symmetric]
    by (simp add: plan_receipt_def assms(3) PartitionReceipt_new_def Let_def)
  have "{vp_id v |b v. b \<in> set (bmap_values (placement td s dev)) \<and> pb_virtual b = Some v} =
      {VirtualDevicePartitionId (of_nat i + 1) |i. i < ?n}"
    (is "?l = ?r")
  proof
    show "?l \<subseteq> ?r" unfolding placement_bindings(2) [OF assms(1)] by (auto simp: seed_id) blast
    show "?r \<subseteq> ?l" unfolding placement_bindings(2) [OF assms(1)] by (force simp: seed_id)
  qed
  then have "length (bset_of_list (List.map_filter (\<lambda>b. map_option vp_id (pb_virtual b)) (bmap_values (placement td s dev)))) = ?n"
    unfolding length_bset_of_list set_map_filter_virtual by (simp only: seeds_card [OF assms(2)])
  then show "virtual_partition_count (plan_receipt bound) = of_nat ?n"
    by (simp add: plan_receipt_def assms(3) PartitionReceipt_new_def Let_def)
qed

text \<open>Whether the operations of a section can run at all, independently of where its partitions are placed.\<close>

definition section_runnable :: "TranslatedDistributedPlan \<Rightarrow> bool" where
  "section_runnable td \<longleftrightarrow>
     length (td_partitions td) \<noteq> 1 \<and> td_operations td \<noteq> [] \<and>
     (\<forall>op\<in>set (td_operations td). set (op_partitions op) \<subseteq> set (td_partitions td)) \<and>
     distinct (map operation_ref (td_operations td)) \<and>
     (\<forall>r\<in>set (cb_barriers (td_commit_boundary td)). \<exists>op\<in>set (td_operations td). is_barrier r op) \<and>
     (\<forall>r\<in>set (cb_launches (td_commit_boundary td)). \<exists>op\<in>set (td_operations td). is_launch r op) \<and>
     (\<forall>q\<in>set (derive_reservation (td_operations td) (referenced_partitions (td_operations td))).
        class_six_bytes (snd q) \<le> partition_budget td (fst q) div 4 \<and>
        class_three_bytes (snd q) \<le> partition_budget td (fst q) div 4)"

lemma placement_fits:
  assumes "distinct (td_partitions td)" "p \<in> set (td_partitions td)"
  shows "reservation_fits (placement td s dev) p rec \<longleftrightarrow>
     class_six_bytes rec \<le> partition_budget td p div 4 \<and> class_three_bytes rec \<le> partition_budget td p div 4"
proof -
  obtain i where i: "i < length (td_partitions td)" "td_partitions td ! i = p" using assms(2) by (metis in_set_conv_nth)
  then have "bmap_get (placement td s dev) p = Some (binding_on td s (dev i) i p)"
    using placement_get [OF assms(1)] by blast
  moreover have "transfer_staging_bytes (vp_ledger (admitted_on td s (dev i) i p)) = partition_budget td p div 4"
    "activation_scratch_bytes (vp_ledger (admitted_on td s (dev i) i p)) = partition_budget td p div 4"
    by (simp_all add: admitted_on_def partition_ledger_def Let_def)
  ultimately show ?thesis by (simp add: reservation_fits_def)
qed

lemma transaction_accepted_iff:
  assumes "distinct (td_partitions td)" "bound_by sha td s policy cs bound"
  shows "transaction_accepted td bound \<longleftrightarrow> section_runnable td"
proof -
  let ?b = "placement td s (policy_device (length (td_partitions td)) (snapshot_physical_ids s) policy)"
    and ?ops = "td_operations td"
  note keys = placement_bindings(1) [OF assms(1), of s "policy_device (length (td_partitions td)) (snapshot_physical_ids s) policy"]
  have fits: "(\<forall>q\<in>set (derive_reservation ?ops (referenced_partitions ?ops)). reservation_fits ?b (fst q) (snd q)) \<longleftrightarrow>
      (\<forall>q\<in>set (derive_reservation ?ops (referenced_partitions ?ops)).
        class_six_bytes (snd q) \<le> partition_budget td (fst q) div 4 \<and>
        class_three_bytes (snd q) \<le> partition_budget td (fst q) div 4)"
    if sub: "\<forall>op\<in>set ?ops. set (op_partitions op) \<subseteq> set (td_partitions td)"
  proof (rule ball_cong [OF refl])
    fix q assume "q \<in> set (derive_reservation ?ops (referenced_partitions ?ops))"
    then have "fst q \<in> set (bmap_keys (derive_reservation ?ops (referenced_partitions ?ops)))" by force
    then have "fst q \<in> set (referenced_partitions ?ops)" unfolding reservation_keys .
    with sub have "fst q \<in> set (td_partitions td)" by (auto simp: set_referenced)
    from placement_fits [OF assms(1) this] show "reservation_fits ?b (fst q) (snd q) \<longleftrightarrow>
      class_six_bytes (snd q) \<le> partition_budget td (fst q) div 4 \<and>
      class_three_bytes (snd q) \<le> partition_budget td (fst q) div 4" .
  qed
  show ?thesis
  proof
    assume acc: "transaction_accepted td bound"
    from accepted_distributed [OF assms(2) acc] assms(1)
    have n: "length (td_partitions td) \<noteq> 1" and kind: "bdp_kind bound = Distributed ?b" by auto
    obtain tx where tx: "ExecutionTransaction_new (TransactionId ''md3h-h4-prepare'') bound ?ops (td_commit_boundary td) = Ok tx"
      "accepted_plan tx" using acc unfolding transaction_accepted_def by blast
    note f = new_fields [OF tx(1)]
    have bs: "plan_bindings (et_bound_plan tx) = Some ?b" by (simp add: f kind plan_bindings_def)
    from tx(2) [unfolded accepted_plan_def bs f(2) f(4)] show "section_runnable td"
      using n f(7) fits unfolding section_runnable_def option.inject ex_simps simp_thms keys by blast
  next
    assume run: "section_runnable td"
    then have "\<not> is_single_partition (logical_of td cs)"
      using length_bset_distinct [of "td_partitions td"] assms(1)
      by (simp add: section_runnable_def is_single_partition_def logical_of_def)
    with assms(2) have kind: "bdp_kind bound = Distributed ?b"
      by (simp add: bound_by_def bound_plan_of_def plan_kind_def)
    then have "\<not> is_degenerate bound" by (simp add: is_degenerate_def)
    with run obtain tx where tx: "ExecutionTransaction_new (TransactionId ''md3h-h4-prepare'') bound ?ops (td_commit_boundary td) = Ok tx"
      by (simp add: ExecutionTransaction_new_def section_runnable_def)
    note f = new_fields [OF tx]
    have bs: "plan_bindings (et_bound_plan tx) = Some ?b" by (simp add: f kind plan_bindings_def)
    have "accepted_plan tx"
      unfolding accepted_plan_def bs f(2) f(4) using run fits unfolding section_runnable_def option.inject ex_simps simp_thms keys
      by blast
    with tx show "transaction_accepted td bound" unfolding transaction_accepted_def by blast
  qed
qed

definition image_prepares ::
    "(u8 list \<Rightarrow> u8 list) \<Rightarrow> TranslatedDistributedPlan \<Rightarrow> DeviceDiscoverySnapshot \<Rightarrow> u32 \<Rightarrow> BindPolicy \<Rightarrow> BoundDistributedPlan \<Rightarrow> bool" where
  "image_prepares sha td s k policy bound \<longleftrightarrow>
     bind_policy_for_declared_count (length (td_partitions td)) k = Ok policy \<and> bind_accepts td s policy [] \<and>
     bound_by sha td s policy [] bound \<and> section_runnable td"

lemma prepare_image_cases:
  assumes "translate_device_section_bytes fmt img = Ok td" "distinct (td_partitions td)"
  shows "(\<exists>policy bound. prepare_distributed_image sha dn fmt elapsed img s k =
         Some (Ok (distributed_prepare_receipt bound (communication_graph_edge_count td))) \<and>
       image_prepares sha td s k policy bound) \<or>
     (\<exists>e. prepare_distributed_image sha dn fmt elapsed img s k = Some (Err e) \<and>
       (\<forall>policy bound. \<not> image_prepares sha td s k policy bound))"
proof (cases "bind_policy_for_declared_count (length (td_partitions td)) k")
  case (Err e)
  with assms(1) show ?thesis by (simp add: prepare_distributed_image_def image_prepares_def)
next
  case policy: (Ok policy)
  have run: "prepare_distributed_image sha dn fmt elapsed img s k =
      (case bind_translated_with_constraints sha (dn_admit dn) td s policy [] of
         None \<Rightarrow> None | Some (Err e) \<Rightarrow> Some (Err (bind_to_host_error dn e))
       | Some (Ok bound) \<Rightarrow> prepare_bound dn elapsed td bound)"
    using assms(1) policy by (simp add: prepare_distributed_image_def bind_translated_def)
  from bind_translated_cases [OF assms(2), of sha "dn_admit dn" s policy "[]"] show ?thesis
  proof (elim disjE exE conjE)
    fix e
    assume "bind_translated_with_constraints sha (dn_admit dn) td s policy [] = Some (Err e)" "\<not> bind_accepts td s policy []"
    with run policy show ?thesis by (simp add: image_prepares_def)
  next
    fix bound
    assume b: "bind_translated_with_constraints sha (dn_admit dn) td s policy [] = Some (Ok bound)"
      "bind_accepts td s policy []" "bound_by sha td s policy [] bound"
    from prepare_bound_cases [of dn elapsed td bound] show ?thesis
    proof (elim disjE exE conjE)
      fix tx
      assume "prepare_bound dn elapsed td bound = Some (Ok (distributed_prepare_receipt bound (communication_graph_edge_count td)))"
        "ExecutionTransaction_new (TransactionId ''md3h-h4-prepare'') bound (td_operations td) (td_commit_boundary td) = Ok tx"
        "accepted_plan tx"
      then have "section_runnable td"
        using transaction_accepted_iff [OF assms(2) b(3)] unfolding transaction_accepted_def by blast
      with b run policy \<open>prepare_bound dn elapsed td bound = _\<close> show ?thesis by (auto simp: image_prepares_def)
    next
      fix e
      assume e: "prepare_bound dn elapsed td bound = Some (Err e)"
        "\<forall>tx. ExecutionTransaction_new (TransactionId ''md3h-h4-prepare'') bound (td_operations td) (td_commit_boundary td) = Ok tx
           \<longrightarrow> \<not> accepted_plan tx"
      then have "\<not> section_runnable td"
        using transaction_accepted_iff [OF assms(2) b(3)] unfolding transaction_accepted_def by blast
      then have "\<not> image_prepares sha td s k p bound'" for p bound' by (simp add: image_prepares_def)
      with b run e(1) show ?thesis by simp
    qed
  qed
qed

lemma prepare_image_iff:
  assumes "translate_device_section_bytes fmt img = Ok td" "distinct (td_partitions td)"
  shows "prepare_distributed_image sha dn fmt elapsed img s k \<noteq> None \<and>
    (prepare_distributed_image sha dn fmt elapsed img s k = Some (Ok r) \<longleftrightarrow>
       (\<exists>policy bound. image_prepares sha td s k policy bound \<and>
          r = distributed_prepare_receipt bound (communication_graph_edge_count td)))"
proof -
  have only: "bound' = bound" if "image_prepares sha td s k policy bound" "image_prepares sha td s k policy' bound'"
    for policy policy' bound bound'
  proof -
    have "policy' = policy" using that by (simp add: image_prepares_def)
    with that show ?thesis using bound_plan_unique unfolding image_prepares_def bound_by_def by blast
  qed
  from prepare_image_cases [OF assms, of sha dn elapsed s k] show ?thesis
  proof (elim disjE exE conjE)
    fix policy bound
    assume run: "prepare_distributed_image sha dn fmt elapsed img s k =
        Some (Ok (distributed_prepare_receipt bound (communication_graph_edge_count td)))"
      and image: "image_prepares sha td s k policy bound"
    have "(\<exists>policy bound. image_prepares sha td s k policy bound \<and>
        r = distributed_prepare_receipt bound (communication_graph_edge_count td)) \<longleftrightarrow>
      r = distributed_prepare_receipt bound (communication_graph_edge_count td)"
      using only [OF image] image by blast
    then show ?thesis unfolding run by auto
  next
    fix e
    assume "prepare_distributed_image sha dn fmt elapsed img s k = Some (Err e)"
      "\<forall>policy bound. \<not> image_prepares sha td s k policy bound"
    then show ?thesis by simp
  qed
qed

lemma prepared_receipt_shape:
  assumes "image_prepares sha td s k policy bound"
    and "distinct (td_partitions td)" "length (td_partitions td) \<le> 18446744073709551616"
  shows "dp_virtual_partition_count (distributed_prepare_receipt bound edges) = of_nat (length (td_partitions td))"
    and "dp_physical_device_count (distributed_prepare_receipt bound edges) =
      of_nat (card (set (policy_members (snapshot_physical_ids s) policy)))"
    and "2 \<le> length (td_partitions td)"
proof -
  let ?dev = "policy_device (length (td_partitions td)) (snapshot_physical_ids s) policy"
  have b: "bound_by sha td s policy [] bound" and run: "section_runnable td"
    and place: "placeable td s ?dev (policy_members (snapshot_physical_ids s) policy) []"
    using assms(1) by (simp_all add: image_prepares_def bind_accepts_def)
  have "transaction_accepted td bound" using transaction_accepted_iff [OF assms(2) b] run by blast
  note kind = accepted_distributed(2) [OF b this]
  note r = placement_receipt [OF assms(2,3) kind]
  have members: "?dev ` {..<length (td_partitions td)} = set (policy_members (snapshot_physical_ids s) policy)"
    using place by (simp add: placeable_def)
  show "dp_virtual_partition_count (distributed_prepare_receipt bound edges) = of_nat (length (td_partitions td))"
    using r(3) by (simp add: distributed_prepare_receipt_def Let_def)
  show "dp_physical_device_count (distributed_prepare_receipt bound edges) =
      of_nat (card (set (policy_members (snapshot_physical_ids s) policy)))"
    using r(2) members by (simp add: distributed_prepare_receipt_def Let_def)
  have "td_partitions td \<noteq> []" using place by (simp add: placeable_def)
  with run show "2 \<le> length (td_partitions td)"
    unfolding section_runnable_def by (cases "td_partitions td"; cases "tl (td_partitions td)") auto
qed

text \<open>A split gives every device the same number of consecutive partitions.\<close>

lemma split_share:
  assumes "m dvd n" "j < m" "0 < n"
  shows "{i. i < n \<and> i div (n div m) = (j::nat)} = {j * (n div m)..<Suc j * (n div m)}"
proof -
  obtain c where n: "n = m * c" using assms(1) by blast
  have c: "n div m = c" "0 < c" using n assms(2,3) by auto
  have "i div c = j \<longleftrightarrow> j * c \<le> i \<and> i < Suc j * c" for i
    using div_nat_eqI [of c j i] c(2) dividend_less_div_times [of c i] by (auto simp: mult.commute)
  moreover have "i < n" if "i < Suc j * c" for i
    using that assms(2) mult_le_mono1 [of "Suc j" m c] n by linarith
  ultimately show ?thesis unfolding c(1) by auto
qed

end
