(* ===== verification/Sample_Translate.thy ===== *)
theory Sample_Translate
  imports Translate_Safety Sample_Plan
begin

text \<open>
  Concrete inputs for the witnesses of the translation: a section of four partitions with a launch, a
  transfer and a barrier, a format that decodes every image to it, and the snapshot of two devices of the
  sample plan, over which the four partitions are split.
\<close>

definition sample_result :: "u32 \<Rightarrow> u32 \<Rightarrow> WireResult" where
  "sample_result b l = \<lparr>wres_buffer = b, wres_produced_by = l\<rparr>"

definition sample_wire_transfer :: WireTransfer where
  "sample_wire_transfer =
     \<lparr>wt_id = ''0'', wt_source = 0, wt_destination = 2, wt_byte_count = 8, wt_direction = WireH2D,
      wt_element_ty = ''f32'', wt_producer_generation = 1, wt_consumer_generation = 1,
      wt_completion_boundary = \<lparr>wb_barriers = [5], wb_launches = []\<rparr>\<rparr>"

definition sample_section :: "u32 list \<Rightarrow> WireSection" where
  "sample_section ps =
     \<lparr>ws_version = 1, ws_hash = sample_hash,
      ws_partitions = map (\<lambda>p. \<lparr>wp_id = p, wp_results = (if p = 0 then [sample_result 1 7, sample_result 2 7] else [])\<rparr>) ps,
      ws_placement = [(1, 16), (2, 64)], ws_constraints = map (\<lambda>p. PartitionBudgetBytes p 65536) ps,
      ws_operations =
        (if length ps = 1 then [WireLaunch 0 7]
         else [WireLaunch 0 7, WireTransferOp sample_wire_transfer, WireBarrierOp 5 ps]),
      ws_boundary = \<lparr>wb_barriers = (if length ps = 1 then [] else [5]), wb_launches = [7]\<rparr>\<rparr>"

definition sample_format :: "u32 list \<Rightarrow> WireSection WireFormat" where
  "sample_format ps =
     \<lparr>wf_decode = (\<lambda>_. Ok (sample_section ps)), wf_admit = (\<lambda>_. None), wf_distributed = Some, wf_version = 1\<rparr>"

definition sample_debug :: DebugNames where
  "sample_debug = \<lparr>dn_admit = (\<lambda>_. []), dn_bind = (\<lambda>_. []), dn_construct = (\<lambda>_. []), dn_prepare = (\<lambda>_. []),
     dn_state = (\<lambda>_. [])\<rparr>"

definition sample_translated :: "u32 list \<Rightarrow> TranslatedDistributedPlan" where
  "sample_translated ps =
     (case translate_device_section_bytes (sample_format ps) [] of Ok td \<Rightarrow> td | Err e \<Rightarrow> undefined)"

lemma sample_translates:
  "translate_device_section_bytes (sample_format [0, 1, 2, 3]) [] = Ok (sample_translated [0, 1, 2, 3])"
  "translate_device_section_bytes (sample_format [0]) [] = Ok (sample_translated [0])"
  by (simp_all add: sample_translated_def translate_device_section_bytes_def sample_format_def
      and_then_def ok_or_def ensure_def translate_admitted_section_def sample_section_def Let_def try_map.simps
      sample_wire_transfer_def translate_dtype_def)

lemma sample_partitions:
  "td_partitions (sample_translated [0, 1, 2, 3]) =
     [LogicalPartitionId ''partition-0'', LogicalPartitionId ''partition-1'', LogicalPartitionId ''partition-2'',
      LogicalPartitionId ''partition-3'']"
  by code_simp

lemma sample_ids: "snapshot_physical_ids sample_snapshot = [sample_device ''x'', sample_device ''y'']"
  by (simp add: snapshot_physical_ids_def sample_snapshot_def sample_entry_def)


lemma sample_hash_ok: "is_sha256_hex sample_hash"
  by code_simp

lemma sample_runnable: "section_runnable (sample_translated [0, 1, 2, 3])"
  unfolding section_runnable_def by code_simp

lemma sample_budgets:
  "map (partition_budget (sample_translated [0, 1, 2, 3])) (td_partitions (sample_translated [0, 1, 2, 3])) =
     [65536, 65536, 65536, 65536]"
  by code_simp

lemma below_4: "{..<4::nat} = {0, 1, 2, 3}"
  by auto

lemma all_below_4: "(\<forall>i<4::nat. P i) \<longleftrightarrow> P 0 \<and> P 1 \<and> P 2 \<and> P 3"
  using below_4 by (metis insert_iff lessThan_iff empty_iff)

lemma sample_accepts:
  "bind_accepts (sample_translated [0, 1, 2, 3]) sample_snapshot (SplitAcrossMembership 2) []"
proof -
  let ?td = "sample_translated [0, 1, 2, 3]"
  have n: "length (td_partitions ?td) = 4" by (simp add: sample_partitions)
  have found: "find_entry sample_snapshot (sample_device ''x'') = Some (sample_entry 0 ''x'')"
      "find_entry sample_snapshot (sample_device ''y'') = Some (sample_entry 1 ''y'')"
    by (simp_all add: find_entry_def sample_snapshot_def sample_entry_def sample_device_def PhysicalDeviceId_metal_def)
  have total: "api_total_bytes (de_memory (sample_entry i c)) = 65536" for i c by (simp add: sample_entry_def)
  have "\<forall>i<4. partition_budget ?td (td_partitions ?td ! i) = 65536"
    using sample_budgets by (simp add: sample_partitions all_below_4)
  with found total have "\<forall>i<4. fits_on ?td sample_snapshot ([sample_device ''x'', sample_device ''y''] ! (i div 2)) (td_partitions ?td ! i)"
    by (simp add: fits_on_def budget_fits_def all_below_4)
  moreover have "(\<lambda>i. [sample_device ''x'', sample_device ''y''] ! (i div 2)) ` {..<4} = {sample_device ''x'', sample_device ''y''}"
    by (simp add: below_4)
  moreover have "\<forall>e\<in>set (bmap_values (ds_devices sample_snapshot)). de_health_generation e = DeviceHealthGeneration_initial"
    by (simp add: sample_snapshot_def sample_entry_def DeviceHealthGeneration_initial_def)
  moreover have "td_hash ?td = sample_hash" by code_simp
  moreover have "td_partitions ?td \<noteq> []" by (simp add: sample_partitions)
  ultimately show ?thesis
    using sample_hash_ok by (simp add: bind_accepts_def placeable_def n sample_ids divided)
qed

lemma sample_image_prepares:
  obtains bound where "image_prepares sample_sha (sample_translated [0, 1, 2, 3]) sample_snapshot 2 (SplitAcrossMembership 2) bound"
proof -
  let ?td = "sample_translated [0, 1, 2, 3]"
  have d: "distinct (td_partitions ?td)" by (simp add: sample_partitions)
  from bind_translated_cases [OF d, of sample_sha "\<lambda>_. []" sample_snapshot "SplitAcrossMembership 2" "[]"] sample_accepts
  obtain bound where "bound_by sample_sha ?td sample_snapshot (SplitAcrossMembership 2) [] bound" by blast
  moreover have "bind_policy_for_declared_count (length (td_partitions ?td)) 2 = Ok (SplitAcrossMembership 2)"
    by (simp add: policy_Ok_iff sample_partitions)
  ultimately show ?thesis using sample_accepts sample_runnable by (intro that) (simp add: image_prepares_def)
qed

end
