(* ===== verification/Repack_Plan.thy ===== *)
theory Repack_Plan
  imports Result_Flow
begin

text \<open>
  The repack plan of the admitted row (\<open>host-coordinator/src/repack_plan.rs\<close>): the five tensor classes
  with their facts, the descriptor of the declared f32 conversion and the selection per class. The
  digest of the \<open>sha2\<close> crate that the file re-exports is not used by it.
\<close>

section \<open>The row and its tensor classes\<close>

definition PINNED_SHA256_HEX :: string where
  "PINNED_SHA256_HEX = ''2fa3f013dcdd7b99f9b237717fa0b12d75bbb89984cc1274be1471a465bac9c2''"

definition ORACLE_TRANSFORM_IMPL :: string where
  "ORACLE_TRANSFORM_IMPL = ''ggml/src/ggml-quants.c @ a957b7747''"

definition F32_ELEMENT_BYTES :: u64 where "F32_ELEMENT_BYTES = 4"

definition PINNED_FILE_BYTES :: u64 where "PINNED_FILE_BYTES = 270590880"

datatype PinnedDtype = Pinned_F32 | Pinned_Q5_0 | Pinned_Q8_0 | Pinned_Q4_K | Pinned_Q6_K

fun PinnedDtype_name :: "PinnedDtype \<Rightarrow> string" where
  "PinnedDtype_name Pinned_F32 = ''F32''"
| "PinnedDtype_name Pinned_Q5_0 = ''Q5_0''"
| "PinnedDtype_name Pinned_Q8_0 = ''Q8_0''"
| "PinnedDtype_name Pinned_Q4_K = ''Q4_K''"
| "PinnedDtype_name Pinned_Q6_K = ''Q6_K''"

record PackedByteRange =
  pbr_start :: u64
  pbr_end :: u64

datatype PendingSecond = PendingSecondRepresentation

record RowIdentity =
  row_model_name :: string
  row_sha256_hex :: string
  row_file_bytes :: u64

definition pinned_row :: RowIdentity where
  "pinned_row = \<lparr>row_model_name = ''SmolLM2-360M-Instruct Q4_K_M'', row_sha256_hex = PINNED_SHA256_HEX,
     row_file_bytes = PINNED_FILE_BYTES\<rparr>"

record TensorClassFacts =
  tcf_ggml_type :: PinnedDtype
  tcf_tensor_count :: u64
  tcf_total_elements :: u64
  tcf_source_byte_extent :: u64
  tcf_representative_tensor :: string

definition f32_destination_byte_extent :: "TensorClassFacts \<Rightarrow> u64" where
  "f32_destination_byte_extent f = tcf_total_elements f * F32_ELEMENT_BYTES"

definition pinned_row_class_facts :: "TensorClassFacts list" where
  "pinned_row_class_facts =
     [\<lparr>tcf_ggml_type = Pinned_Q4_K, tcf_tensor_count = 16, tcf_total_elements = 39321600,
       tcf_source_byte_extent = 22118400, tcf_representative_tensor = ''blk.3.ffn_down.weight''\<rparr>,
      \<lparr>tcf_ggml_type = Pinned_Q5_0, tcf_tensor_count = 176, tcf_total_elements = 231014400,
       tcf_source_byte_extent = 158822400, tcf_representative_tensor = ''blk.0.attn_q.weight''\<rparr>,
      \<lparr>tcf_ggml_type = Pinned_Q6_K, tcf_tensor_count = 16, tcf_total_elements = 39321600,
       tcf_source_byte_extent = 32256000, tcf_representative_tensor = ''blk.0.ffn_down.weight''\<rparr>,
      \<lparr>tcf_ggml_type = Pinned_Q8_0, tcf_tensor_count = 17, tcf_total_elements = 52101120,
       tcf_source_byte_extent = 55357440, tcf_representative_tensor = ''blk.0.attn_v.weight''\<rparr>,
      \<lparr>tcf_ggml_type = Pinned_F32, tcf_tensor_count = 65, tcf_total_elements = 62400,
       tcf_source_byte_extent = 249600, tcf_representative_tensor = ''output_norm.weight''\<rparr>]"

section \<open>The descriptor\<close>

datatype DestinationLayout = ContiguousF32

datatype ElementInterpretation = F32LogicalElement

datatype AlgorithmFamily = F32ConversionFamily

record RepackShape = rsh_element_count :: u64

datatype RepackPadding = NoPadding

record RepackDescriptor =
  rd_source_tensor :: string
  rd_source_encoding :: PinnedDtype
  rd_source_byte_range :: "PackedByteRange option"
  rd_destination_layout :: DestinationLayout
  rd_element_interpretation :: ElementInterpretation
  rd_backend :: PendingSecond
  rd_algorithm_family :: AlgorithmFamily
  rd_shape :: RepackShape
  rd_padding :: RepackPadding
  rd_alignment_bytes :: u64
  rd_byte_extent :: u64
  rd_transform_impl :: string
  rd_output_digest :: "u8 list option"
  rd_setup_time_us :: "u64 option"
  rd_peak_temp_bytes :: "u64 option"
  rd_persistence_policy :: PendingSecond
  rd_executable_compatibility :: PendingSecond

definition declared_f32_conversion :: "TensorClassFacts \<Rightarrow> RepackDescriptor" where
  "declared_f32_conversion f =
     \<lparr>rd_source_tensor = tcf_representative_tensor f, rd_source_encoding = tcf_ggml_type f,
      rd_source_byte_range = None, rd_destination_layout = ContiguousF32,
      rd_element_interpretation = F32LogicalElement, rd_backend = PendingSecondRepresentation,
      rd_algorithm_family = F32ConversionFamily, rd_shape = \<lparr>rsh_element_count = tcf_total_elements f\<rparr>,
      rd_padding = NoPadding, rd_alignment_bytes = F32_ELEMENT_BYTES,
      rd_byte_extent = f32_destination_byte_extent f, rd_transform_impl = ORACLE_TRANSFORM_IMPL,
      rd_output_digest = None, rd_setup_time_us = None, rd_peak_temp_bytes = None,
      rd_persistence_policy = PendingSecondRepresentation,
      rd_executable_compatibility = PendingSecondRepresentation\<rparr>"

definition with_fixture_evidence :: "u8 list \<Rightarrow> u64 \<Rightarrow> u64 \<Rightarrow> RepackDescriptor \<Rightarrow> RepackDescriptor" where
  "with_fixture_evidence digest setup peak d =
     d\<lparr>rd_output_digest := Some digest, rd_setup_time_us := Some setup, rd_peak_temp_bytes := Some peak\<rparr>"

definition is_declared_f32_conversion :: "RepackDescriptor \<Rightarrow> bool" where
  "is_declared_f32_conversion d = (case rd_algorithm_family d of F32ConversionFamily \<Rightarrow> True)"

section \<open>The selection\<close>

datatype SelectedRepresentation =
    SelectedF32Conversion RepackDescriptor
  | SelectedDirectNative PendingSecond
  | SelectedUnsupported string

fun claims_direct_quantized_execution :: "SelectedRepresentation \<Rightarrow> bool" where
  "claims_direct_quantized_execution (SelectedDirectNative _) = True"
| "claims_direct_quantized_execution _ = False"

record PerClassSelection =
  pcs_facts :: TensorClassFacts
  pcs_representation :: SelectedRepresentation

record RepackSelection =
  rsel_row :: RowIdentity
  rsel_per_class :: "PerClassSelection list"

definition initial_declared_f32_conversion :: "RowIdentity \<Rightarrow> RepackSelection" where
  "initial_declared_f32_conversion row =
     \<lparr>rsel_row = row, rsel_per_class = map (\<lambda>f. \<lparr>pcs_facts = f,
        pcs_representation = SelectedF32Conversion (declared_f32_conversion f)\<rparr>) pinned_row_class_facts\<rparr>"

fun f32_of_selection :: "PinnedDtype \<Rightarrow> PerClassSelection \<Rightarrow> RepackDescriptor option" where
  "f32_of_selection c sel =
     (if tcf_ggml_type (pcs_facts sel) \<noteq> c then None
      else case pcs_representation sel of SelectedF32Conversion d \<Rightarrow> Some d | _ \<Rightarrow> None)"

fun first_f32 :: "PinnedDtype \<Rightarrow> PerClassSelection list \<Rightarrow> RepackDescriptor option" where
  "first_f32 c [] = None"
| "first_f32 c (sel # rest) = (case f32_of_selection c sel of Some d \<Rightarrow> Some d | None \<Rightarrow> first_f32 c rest)"

definition f32_conversion_descriptor :: "RepackSelection \<Rightarrow> PinnedDtype \<Rightarrow> RepackDescriptor option" where
  "f32_conversion_descriptor s c = first_f32 c (rsel_per_class s)"

definition selection_of_class :: "RepackSelection \<Rightarrow> PinnedDtype \<Rightarrow> PerClassSelection option" where
  "selection_of_class s c = List.find (\<lambda>sel. tcf_ggml_type (pcs_facts sel) = c) (rsel_per_class s)"

definition representation_of_class :: "RepackSelection \<Rightarrow> PinnedDtype \<Rightarrow> SelectedRepresentation option" where
  "representation_of_class s c = map_option pcs_representation (selection_of_class s c)"

fun is_unsupported :: "SelectedRepresentation \<Rightarrow> bool" where
  "is_unsupported (SelectedUnsupported _) = True"
| "is_unsupported _ = False"

definition every_class_selected :: "RepackSelection \<Rightarrow> bool" where
  "every_class_selected s \<longleftrightarrow>
     length (rsel_per_class s) = length pinned_row_class_facts \<and>
     list_all (\<lambda>sel. \<not> is_unsupported (pcs_representation sel)) (rsel_per_class s)"

section \<open>The initial selection\<close>

lemma initial_descriptor:
  "f32_conversion_descriptor (initial_declared_f32_conversion row) c =
     map_option declared_f32_conversion (List.find (\<lambda>f. tcf_ggml_type f = c) pinned_row_class_facts)"
proof -
  have "first_f32 c (map (\<lambda>f. \<lparr>pcs_facts = f, pcs_representation = SelectedF32Conversion (declared_f32_conversion f)\<rparr>) fs) =
      map_option declared_f32_conversion (List.find (\<lambda>f. tcf_ggml_type f = c) fs)" for fs
    by (induction fs) simp_all
  then show ?thesis by (simp add: f32_conversion_descriptor_def initial_declared_f32_conversion_def)
qed

lemma pinned_classes_complete: "List.find (\<lambda>f. tcf_ggml_type f = c) pinned_row_class_facts \<noteq> None"
  by (cases c) (simp_all add: pinned_row_class_facts_def)

lemma initial_descriptor_exists: "f32_conversion_descriptor (initial_declared_f32_conversion row) c \<noteq> None"
  using pinned_classes_complete by (simp add: initial_descriptor)

text \<open>No extent of the pinned classes wraps, and the packed classes fit the file.\<close>

lemma pinned_extents_exact:
  "f \<in> set pinned_row_class_facts \<Longrightarrow> unat (f32_destination_byte_extent f) = unat (tcf_total_elements f) * 4"
  by (auto simp: pinned_row_class_facts_def f32_destination_byte_extent_def F32_ELEMENT_BYTES_def)

end
