(* ===== verification/Capability_Record.thy ===== *)
theory Capability_Record
  imports Repack_Plan
begin

text \<open>
  The capability record of the admitted row (\<open>host-coordinator/src/capability.rs\<close>): the op families, the
  three-way result per family, the twelve dimensions, and the initial record over a repack selection.
  The construction panics when a consumed class has no declared conversion and is then \<^const>\<open>None\<close>.
\<close>

section \<open>Families and results\<close>

datatype OpFamily = FamGather | FamRmsNormalization | FamRope | FamCausalMaskedSoftmax | FamSiluComposition
  | FamQuantizedMatmul | FamLogitsHead

definition ALL_OP_FAMILIES :: "OpFamily list" where
  "ALL_OP_FAMILIES = [FamGather, FamRmsNormalization, FamRope, FamCausalMaskedSoftmax, FamSiluComposition,
     FamQuantizedMatmul, FamLogitsHead]"

fun OpFamily_name :: "OpFamily \<Rightarrow> string" where
  "OpFamily_name FamGather = ''gather''"
| "OpFamily_name FamRmsNormalization = ''rms_normalization''"
| "OpFamily_name FamRope = ''rope''"
| "OpFamily_name FamCausalMaskedSoftmax = ''causal_masked_softmax''"
| "OpFamily_name FamSiluComposition = ''silu_composition''"
| "OpFamily_name FamQuantizedMatmul = ''quantized_matmul''"
| "OpFamily_name FamLogitsHead = ''logits_head''"

fun consumed_tensor_classes :: "OpFamily \<Rightarrow> PinnedDtype list" where
  "consumed_tensor_classes FamGather = [Pinned_Q8_0]"
| "consumed_tensor_classes FamLogitsHead = [Pinned_Q8_0]"
| "consumed_tensor_classes FamQuantizedMatmul = [Pinned_Q4_K, Pinned_Q5_0, Pinned_Q6_K, Pinned_Q8_0]"
| "consumed_tensor_classes _ = []"

datatype CapabilityCandidate = RecipeCandidate OpFamily | F32ConversionCandidate | DirectNativeCandidate

record ConversionPlan = cvp_per_class :: "RepackDescriptor list"

datatype CapabilityResult =
    CapUnsupported string
  | CapSupportedDirect "CapabilityCandidate list"
  | CapWithConversion "CapabilityCandidate list" ConversionPlan

section \<open>The twelve dimensions\<close>

datatype CapabilityAssessment = LegalForPinnedShapes | ConversionRequired | NoConversionRequired
  | DirectNativeCandidateCorrect

datatype CapabilityDimension = AssessedDim CapabilityAssessment | PendingDim

record CapabilityDimensions =
  dim_legal_for_shapes_and_dtypes :: CapabilityDimension
  dim_recipe_implemented :: CapabilityDimension
  dim_compiled_specialization :: CapabilityDimension
  dim_device_features :: CapabilityDimension
  dim_layouts_compatible :: CapabilityDimension
  dim_workspace_feasible :: CapabilityDimension
  dim_alignment_aliasing :: CapabilityDimension
  dim_capture_reuse_safe :: CapabilityDimension
  dim_conversion_or_repack_required :: CapabilityDimension
  dim_alternatives :: CapabilityDimension
  dim_profitability_class :: CapabilityDimension
  dim_receipt_fallback :: CapabilityDimension

definition dimensions_initial :: "bool \<Rightarrow> CapabilityDimensions" where
  "dimensions_initial consumes_quantized_weights =
     (let conversion = if consumes_quantized_weights then AssessedDim ConversionRequired
            else AssessedDim NoConversionRequired;
          alternatives = if consumes_quantized_weights then AssessedDim DirectNativeCandidateCorrect
            else PendingDim in
      \<lparr>dim_legal_for_shapes_and_dtypes = AssessedDim LegalForPinnedShapes, dim_recipe_implemented = PendingDim,
       dim_compiled_specialization = PendingDim, dim_device_features = PendingDim,
       dim_layouts_compatible = PendingDim, dim_workspace_feasible = PendingDim,
       dim_alignment_aliasing = PendingDim, dim_capture_reuse_safe = PendingDim,
       dim_conversion_or_repack_required = conversion, dim_alternatives = alternatives,
       dim_profitability_class = PendingDim, dim_receipt_fallback = PendingDim\<rparr>)"

definition dimension_list :: "CapabilityDimensions \<Rightarrow> CapabilityDimension list" where
  "dimension_list d =
     [dim_legal_for_shapes_and_dtypes d, dim_recipe_implemented d, dim_compiled_specialization d,
      dim_device_features d, dim_layouts_compatible d, dim_workspace_feasible d, dim_alignment_aliasing d,
      dim_capture_reuse_safe d, dim_conversion_or_repack_required d, dim_alternatives d,
      dim_profitability_class d, dim_receipt_fallback d]"

fun is_assessed :: "CapabilityDimension \<Rightarrow> bool" where
  "is_assessed (AssessedDim _) = True"
| "is_assessed PendingDim = False"

definition assessed_count :: "CapabilityDimensions \<Rightarrow> nat" where
  "assessed_count d = length (filter is_assessed (dimension_list d))"

definition pending_count :: "CapabilityDimensions \<Rightarrow> nat" where
  "pending_count d = length (filter (\<lambda>x. \<not> is_assessed x) (dimension_list d))"

section \<open>The record\<close>

record OpFamilyCapability =
  ofc_op_family :: OpFamily
  ofc_result :: CapabilityResult
  ofc_dimensions :: CapabilityDimensions

record CapabilityRecord =
  cr_row :: RowIdentity
  cr_per_family :: "OpFamilyCapability list"

text \<open>A map whose function may panic.\<close>

fun map_or_panic :: "('a \<Rightarrow> 'b option) \<Rightarrow> 'a list \<Rightarrow> 'b list option" where
  "map_or_panic f [] = Some []"
| "map_or_panic f (x # xs) =
     (case f x of None \<Rightarrow> None | Some y \<Rightarrow> (case map_or_panic f xs of None \<Rightarrow> None | Some ys \<Rightarrow> Some (y # ys)))"

definition family_capability :: "RepackSelection \<Rightarrow> OpFamily \<Rightarrow> OpFamilyCapability option" where
  "family_capability selection family =
     (let consumed = consumed_tensor_classes family;
          consumes_quantized_weights = consumed \<noteq> [];
          dimensions = dimensions_initial consumes_quantized_weights in
      if consumes_quantized_weights then
        (case map_or_panic (f32_conversion_descriptor selection) consumed of
           None \<Rightarrow> None
         | Some per_class \<Rightarrow>
             Some \<lparr>ofc_op_family = family,
               ofc_result = CapWithConversion [F32ConversionCandidate, DirectNativeCandidate]
                 \<lparr>cvp_per_class = per_class\<rparr>,
               ofc_dimensions = dimensions\<rparr>)
      else Some \<lparr>ofc_op_family = family, ofc_result = CapSupportedDirect [RecipeCandidate family],
             ofc_dimensions = dimensions\<rparr>)"

definition capability_initial :: "RowIdentity \<Rightarrow> RepackSelection \<Rightarrow> CapabilityRecord option" where
  "capability_initial row selection =
     map_option (\<lambda>per_family. \<lparr>cr_row = row, cr_per_family = per_family\<rparr>)
       (map_or_panic (family_capability selection) ALL_OP_FAMILIES)"

definition capability_of_family :: "CapabilityRecord \<Rightarrow> OpFamily \<Rightarrow> OpFamilyCapability option" where
  "capability_of_family r family = List.find (\<lambda>cap. ofc_op_family cap = family) (cr_per_family r)"

fun result_unsupported :: "CapabilityResult \<Rightarrow> bool" where
  "result_unsupported (CapUnsupported _) = True"
| "result_unsupported _ = False"

definition every_family_decided :: "CapabilityRecord \<Rightarrow> bool" where
  "every_family_decided r \<longleftrightarrow>
     length (cr_per_family r) = length ALL_OP_FAMILIES \<and>
     list_all (\<lambda>cap. \<not> result_unsupported (ofc_result cap)) (cr_per_family r)"

section \<open>What the record contains\<close>

lemma map_or_panic_Some_iff: "map_or_panic f xs = Some ys \<longleftrightarrow> list_all2 (\<lambda>x y. f x = Some y) xs ys"
proof (induction xs arbitrary: ys)
  case (Cons x xs)
  then show ?case by (cases "f x"; cases ys; cases "map_or_panic f xs") (auto simp del: Cons.IH simp flip: Cons.IH)
qed auto

lemma map_or_panic_None_iff: "map_or_panic f xs = None \<longleftrightarrow> (\<exists>x\<in>set xs. f x = None)"
  by (induction xs) (auto split: option.splits)

lemma all_families: "set ALL_OP_FAMILIES = UNIV"
  by (auto simp: ALL_OP_FAMILIES_def) (metis OpFamily.exhaust)

definition quantized_classes :: "PinnedDtype set" where
  "quantized_classes = UNIV - {Pinned_F32}"

lemma consumed_quantized: "(\<Union>f. set (consumed_tensor_classes f)) = quantized_classes"
proof -
  have "(\<Union>f\<in>set ALL_OP_FAMILIES. set (consumed_tensor_classes f)) = {Pinned_Q4_K, Pinned_Q5_0, Pinned_Q6_K, Pinned_Q8_0}"
    by (auto simp: ALL_OP_FAMILIES_def)
  moreover have "c \<in> {Pinned_Q4_K, Pinned_Q5_0, Pinned_Q6_K, Pinned_Q8_0} \<longleftrightarrow> c \<noteq> Pinned_F32" for c by (cases c) auto
  ultimately show ?thesis unfolding quantized_classes_def all_families by auto
qed

lemma family_capability_None_iff:
  "family_capability s f = None \<longleftrightarrow> (\<exists>c\<in>set (consumed_tensor_classes f). f32_conversion_descriptor s c = None)"
proof (cases "consumed_tensor_classes f = []")
  case False
  then have "family_capability s f = None \<longleftrightarrow>
      map_or_panic (f32_conversion_descriptor s) (consumed_tensor_classes f) = None"
    by (simp add: family_capability_def Let_def split: option.split)
  then show ?thesis unfolding map_or_panic_None_iff .
qed (simp add: family_capability_def)

lemma capability_initial_None_iff:
  "capability_initial row s = None \<longleftrightarrow> (\<exists>c\<in>quantized_classes. f32_conversion_descriptor s c = None)"
  unfolding capability_initial_def option.map_disc_iff map_or_panic_None_iff all_families family_capability_None_iff
    consumed_quantized [symmetric] by blast

lemma capability_initial_family:
  assumes "capability_initial row s = Some r"
  shows "\<exists>cap. capability_of_family r f = Some cap \<and> family_capability s f = Some cap"
proof -
  obtain caps where caps: "list_all2 (\<lambda>x y. family_capability s x = Some y) ALL_OP_FAMILIES caps"
    and r: "cr_per_family r = caps"
    using assms by (auto simp: capability_initial_def map_or_panic_Some_iff)
  have named: "ofc_op_family y = x" if "family_capability s x = Some y" for x y
    using that by (auto simp: family_capability_def Let_def split: if_splits option.splits)
  have "list_all2 (\<lambda>x y. family_capability s x = Some y) fs cs \<Longrightarrow> f \<in> set fs \<Longrightarrow>
      \<exists>cap. List.find (\<lambda>cap. ofc_op_family cap = f) cs = Some cap \<and> family_capability s f = Some cap" for fs cs
    by (induction fs cs rule: list_all2_induct) (use named in auto)
  from this [OF caps] r show ?thesis by (simp add: capability_of_family_def all_families)
qed

lemma capability_initial_decided:
  assumes "capability_initial row s = Some r"
  shows "every_family_decided r"
proof -
  have caps: "list_all2 (\<lambda>x y. family_capability s x = Some y) ALL_OP_FAMILIES (cr_per_family r)"
    using assms by (auto simp: capability_initial_def map_or_panic_Some_iff)
  have "\<not> result_unsupported (ofc_result y)" if "family_capability s x = Some y" for x y
    using that by (auto simp: family_capability_def Let_def split: if_splits option.splits)
  with caps have "list_all (\<lambda>cap. \<not> result_unsupported (ofc_result cap)) (cr_per_family r)"
    by (induction rule: list_all2_induct) auto
  with list_all2_lengthD [OF caps] show ?thesis by (simp add: every_family_decided_def)
qed

end
