(* ===== verification/Spec2Isabelle.thy ===== *)
theory Spec2Isabelle
  imports Sample_Plan Sample_Host Sample_Device Sample_Sequence Sample_Runtime Sample_Translate Capability_Record
begin

text \<open>
  Verification of the faberlang host runtime: the execution coordinator (crates/host-coordinator),
  the carried device program (crates/host-device-core), the native device sessions (crates/host-cuda
  and macos-arm64/src/metal_host.rs), the routing kernel (crates/host-kernel) and the native worker
  pool (crates/host-native).

  \<^bold>\<open>The program.\<close> A host discovers its devices (discovery.rs) and gives each a physical identity
  (device_identity.rs). A selection resolves to a device set that is valid for one snapshot and one
  health epoch (device_set.rs). Software partitions with a byte ledger are admitted on a device
  (partition.rs). A logical plan is bound to a device set and its partitions (bound_plan.rs), a
  policy gates and ranks candidate plans (policy.rs), and a transaction prepares, executes and
  commits or aborts the operations of a bound plan on a backend (execution_transaction/). Typed
  ranges of values move between partitions through transport adapters (transport.rs). The device
  program itself is a descriptor the compiler carries (device_descriptor.rs): kernels, launches,
  data flow, results and a KV plan, validated and hashed before any driver sees it. A device session
  owns the modules and buffers of a driver and hands out opaque handles for them (device_registry.rs,
  device_handle.rs): CUDA (cuda_host.rs) caches modules by image, Metal (metal_host.rs) batches
  encodes and wraps mapped weight pages. Programs reach
  the host through routes: providers register manifests with a kernel that dispatches requests
  (host-kernel), and a native host runs them on a bounded pool of worker threads (host-native). An
  inference session (macos-arm64/src/composite_host) keeps one sequence over resident weights and
  KV arenas: a cursor machine admits prefill, decode and verification invocations and commits or
  poisons them (inference_state.rs, residency.rs, invocation_program.rs). Transactions run on real
  devices through one runtime type over both sessions and a backend that stages copies through the
  host (macos-arm64/src/device_host.rs, device_runtime_set.rs, transaction_backend.rs). A carried image with
  a distributed section is translated to a transaction, bound to a snapshot under a policy and prepared
  (macos-arm64/src/distributed_translate.rs, invocation_facts.rs).

  \<^bold>\<open>The theories\<close>, in import order:
  \<^item> Host_Prelude: machine integers, the result type, the collections of facts; Std_Collections: the
    ordered sets and maps of the standard library as sorted lists; Result_Flow: the question-mark
    operator, loops that stop at the first error.
  \<^item> Codec: the canonical byte encoders and the locale of prefix codes every encoder is shown to be.
  \<^item> Device_Identity, Virtual_Partition, Sha256, Discovery, Device_Set, Bound_Plan: one theory per
    source file named above (Sha256 is the hasher written in discovery.rs).
  \<^item> Mirror, Reservation, Exec_Backend: mirror.rs, reservation.rs and backend.rs of
    execution_transaction/. The trait of backends is the record DeviceExecutionBackend of functions
    over a backend state; its contract is the locales execution_backend and execution_environment,
    both interpreted on the fake backend of the source.
  \<^item> Transport: transport.rs; the contract of adapters is a locale interpreted on the host-staged
    and on the peer adapter.
  \<^item> Transaction: transaction.rs with its states, errors and receipts. Transaction_Safety: the
    reachable states, the invariant, the refinement of the atomic store. Transaction_Runs: exact
    boundary checks, receipts, terminal states and the completion of every accepted plan.
  \<^item> Policy: policy.rs. Sample_Plan: concrete plans, devices and requests used by the witnesses.
  \<^item> Device_Types, Descriptor: the types and the validation of device_descriptor.rs.
    Descriptor_Valid: the declarative predicate validation decides. Descriptor_Graph: the graph
    bytes, the hasher of that file and the identity theorem. Kv_Cache: the KV plan.
  \<^item> Valor: values and frame data (kernel/frame_data.rs). Host_Kernel: the routing kernel;
    Kernel_Registry: its maps represent a list of providers. Native_Host: the worker pool as a step
    relation; Native_Safety: its invariants and its measure. Sample_Host: their concrete inputs.
  \<^item> Device_Handles: handles, their control frames, the registry, counters and failure stages.
    State_Flow: methods that change their receiver and may fail. Device_Driver: the contract of a
    native driver as a locale and what a session in step with its driver keeps.
  \<^item> Cuda_Session, Cuda_Fake: the session and the sequencing fake of cuda_host.rs; Cuda_Safety: calls,
    reachable sessions, the invariant and the module cache, with the locale cuda_session interpreted
    on the fake. Metal_Session, Metal_Launch, Metal_Fake: the same for metal_host.rs with bound
    launches and mapped weights; Metal_Contract: the fake meets the contract, also for wrapped slices;
    Metal_Safety: reachable sessions and the locale metal_session, interpreted on the fake.
    Sample_Device: the sessions the witnesses run.
  \<^item> Device_Host: device_host.rs, one runtime over a Metal or a CUDA session with checked handles and
    launch records. Runtime_Backend: device_runtime_set.rs and transaction_backend.rs, the real backend
    of transactions. Runtime_Safety: what their checks decide, and the locale execution_environment
    interpreted on the real backend. Sample_Runtime: their concrete inputs.
  \<^item> Distributed_Translate: distributed_translate.rs and invocation_facts.rs, from a carried image to a
    prepared transaction; Translate_Safety: the placement of each bind policy and what an image needs
    to be prepared. Sample_Translate: their concrete inputs.
  \<^item> Repack_Plan, Capability_Record: repack_plan.rs and capability.rs of the coordinator, the declared
    conversion of every tensor class and what each family of operations needs of it.
  \<^item> Inference_State: the sequence machine of inference_state.rs; Inference_Safety: its calls, the plans
    a machine can have issued, stamps (epoch and committed length) that never decrease. Residency:
    residency.rs; Invocation_Programs: invocation_program.rs with the session runs, their invariant
    and the simulation of the sequence machine. Sample_Sequence: their concrete inputs.

  \<^bold>\<open>How the model corresponds to the code.\<close> A string is its list of UTF-8 bytes. A u64, u32, u8 is a
  word of that width, and a plain addition of the source is the wrapping addition of the release
  build. A BTreeSet or BTreeMap is a sorted list without duplicates, read in the order the code
  iterates. A key type is a datatype with one constructor and an order of its own, every other
  struct is a record whose fields carry a prefix. A function that returns a Result returns the
  datatype result (or an optional error where the source returns unit), and a function that can
  panic (expect, assert, a slice out of range) returns an option, in which the panic is None.
  Mutable state is passed and returned. The elapsed times the code measures are arguments.

  \<^bold>\<open>Parameters.\<close> The digest of the sha2 crate (argument sha of bind), the standard library's
  debug rendering of strings and durations (arguments dbg), the backend of a transaction (argument
  be) with the contract of the trait as hypotheses that the fake backend satisfies, the typed reads
  of the language runtime (record FromValor, locale from_valor) and its type of values (the datatype Valor
  has the constructors the wire code of the host matches on, valor_wire.rs), the function of a provider and the
  probe of a cancellation token (arbitrary functions, None where they panic), in the worker pool
  the answers of tokens and channels (arbitrary inputs of a step), the sum and product of f32 values
  (record Float32), the image format of the radix crates (record WireFormat over the fields the source
  reads of a section), and the CUDA and Metal drivers (records CudaDriver and MetalDriver over a driver
  state, with the contract of the locale device_driver that the fakes of the source satisfy).

  \<^bold>\<open>What is shown.\<close> Of the transaction: no partial publication, refinement of the atomic store,
  exact boundary and prepare checks, budgets, truthful receipts, settling and completion. Of the
  device program: validation decides the declarative predicate and never panics, the schedule
  worklist computes the reachable launches, the hashed bytes identify the program and its KV plan,
  and both hashers agree. Of the kernel: registration refines the provider list, dispatch is exact
  and enforces the declared types. Of the pool: no accepted job is lost or answered twice, shutdown
  cancels what runs and drains. Of the device sessions: live handles are exactly the objects the
  driver has not released, a released handle never resolves again, copied or wrapped bytes are read
  back, the module cache is exact, wrapped regions stay inside their mapping, bound launches keep
  the order of their indices. Of the real backend: it keeps the contract every theorem on transactions
  assumes and never panics, foreign handles never reach a session, launch records resolve exactly, a
  released partition gives its handles back. Of the translation: an image is prepared exactly when its
  policy places every partition within the headroom and its operations can run, a split is even, an
  image of one partition is refused. Of the inference session: admission is exact, the committed length is
  the exact sum of the committed rows, a plan takes effect at most once, a refused call changes
  nothing, poison is final, the session conserves what it was prepared with and behaves as the
  sequence machine. Of the rest: binding and the injectivity of the hashed bytes, policy
  outcomes, snapshot ids, the hasher, selection and topology, transport, and the limits of the code
  found on the way (overflow, leaked reservations, colliding references). The section of further
  results holds theorems of the same components that are not among the numbered ones.

  \<^bold>\<open>Loops and fuel.\<close> Every loop of the modelled code is a recursion over a list, a bounded fold or
  a function with a measure (the reachability worklist); no definition carries fuel.

  \<^bold>\<open>Not modelled.\<close> The launch adapter of CUDA, the
  program session of the composite host (session.rs and what is built on it) and the kernel library
  of macos-arm64 are next in the plan. The live drivers
  (libcuda, Metal), the device enumeration, the simulated QKV carrier of the Metal fake (its body is
  the numeric kernel library), the wasm and llvm runtimes and the providers are calls to foreign code
  for their larger part.
\<close>

text \<open>C1. No partial publication: whatever calls a caller makes, in any order and interleaved with completions, the outputs visible on the backend are the whole declared write-set of the plan once the transaction is committed, and nothing at all in every other state.\<close>

theorem atomic_publication:
  assumes "execution_environment be valid held staged published fresh env"
    and "ExecutionTransaction_new i plan ops bd = Ok tx0" and "fresh b0"
    and "tx_reach dbg be env tx0 b0 tx b"
  shows "published b =
    (if et_state tx = Committed then bmap_get (derive_declared_write_set ops) else Map.empty)"
proof -
  note s = execution_environment.reach_start_safe [OF assms]
  have "plan_write_set tx = bmap_get (derive_declared_write_set ops)"
    using s(2) new_fields(2) [OF assms(2)] by (simp add: same_plan_def plan_write_set_def)
  with execution_environment.safe_atomic [OF assms(1) s(1)] show ?thesis by simp
qed

theorem atomic_publication_witness:
  "\<exists>tx b. sample_run True commit_calls = Some (tx, b) \<and> et_state tx = Committed \<and>
     fake_published b = bmap_get (derive_declared_write_set sample_operations)"
proof (rule ends_inE [OF sample_commits])
  fix tx b
  assume run: "sample_run True commit_calls = Some (tx, b)" and "et_state tx = Committed"
  with atomic_publication [OF fake_run.execution_environment_axioms sample_new_Ok sample_fake_fresh
    sample_run_reach [OF run]] show ?thesis by simp
qed

text \<open>C2. The concrete transaction refines the atomic store of the module header: it starts as the new store with nothing visible, and every call from every reachable state returns a result that leaves the abstract store unchanged or takes one of its steps.\<close>

theorem transaction_refines_atomic_store:
  assumes "execution_environment be valid held staged published fresh env"
    and "ExecutionTransaction_new i plan ops bd = Ok tx0" and "fresh b0"
    and "tx_reach dbg be env tx0 b0 tx b"
  shows "tx_abs published tx0 b0 = \<lparr>as_phase = PNew, as_visible = Map.empty\<rparr> \<and>
    (\<exists>tx' b'. tx_call_step dbg be c tx b = Some (tx', b') \<and>
      (tx_abs published tx b = tx_abs published tx' b' \<or>
       atomic_step (bmap_get (derive_declared_write_set ops))
         (tx_abs published tx b) (tx_abs published tx' b')))"
proof -
  note safe0 = execution_environment.start_safe [OF assms(1,2) new_distributed [OF assms(2)] assms(3)]
  have "plan_write_set tx0 = bmap_get (derive_declared_write_set ops)"
    using new_fields(2) [OF assms(2)] by (simp add: plan_write_set_def)
  moreover have "tx_abs published tx0 b0 = \<lparr>as_phase = PNew, as_visible = Map.empty\<rparr>"
    using execution_environment.fresh_law [OF assms(1,3)] new_fields(1) [OF assms(2)]
    by (simp add: tx_abs_def)
  ultimately show ?thesis
    using execution_environment.reach_step [OF assms(1,4) safe0, of c] by simp
qed

theorem transaction_refines_atomic_store_witness:
  "\<exists>tx b. sample_run True execute_calls = Some (tx, b) \<and>
     (\<exists>tx' b'. tx_call_step (\<lambda>s. s) fake_backend (CallCommit (PublicationOrdinal 7) 3) tx b = Some (tx', b') \<and>
       (tx_abs fake_published tx b = tx_abs fake_published tx' b' \<or>
        atomic_step (bmap_get (derive_declared_write_set sample_operations))
          (tx_abs fake_published tx b) (tx_abs fake_published tx' b')))"
proof (rule ends_inE [OF sample_executes])
  fix tx b
  assume run: "sample_run True execute_calls = Some (tx, b)"
  with transaction_refines_atomic_store [OF fake_run.execution_environment_axioms sample_new_Ok
    sample_fake_fresh sample_run_reach [OF run], of "CallCommit (PublicationOrdinal 7) 3"] show ?thesis by blast
qed

text \<open>C3. Descriptor validation is exact: on every descriptor, however malformed, validate returns a result without panicking, and the result is Ok exactly when the descriptor satisfies the declarative well-formedness predicate (launch ids and roots, buffer versions, data-flow edges, one scheduled producer per version, reachability from the roots, kernels, slots, buffer identities, lifetime policies, results and end-of-run results).\<close>

theorem descriptor_validation_exact:
  "validate d \<noteq> None \<and> (validate d = Some (Ok ()) \<longleftrightarrow> valid_descriptor d)"
  by (rule validate_cases)

text \<open>C4. The canonical graph bytes identify the program: for valid descriptors whose list lengths fit the length prefixes, the bytes (followed by anything) agree exactly when the two descriptors carry the same program, that is the same lifetime, deduplicated buffer facts, roots, launches with their kernels up to the order of slots, edges, results and end-of-run results.\<close>

theorem graph_bytes_identify_program:
  assumes "valid_descriptor d" "valid_descriptor e" "graph_fits d" "graph_fits e"
  shows "program_graph_bytes d @ r = program_graph_bytes e @ s \<longleftrightarrow> same_program d e \<and> r = s"
  using assms by (rule graph_bytes_peel_iff)

theorem graph_bytes_identify_program_witness:
  "program_graph_bytes sample_descriptor = program_graph_bytes shuffled_descriptor \<and>
     sample_descriptor \<noteq> shuffled_descriptor"
proof -
  have "same_program sample_descriptor shuffled_descriptor" by (rule sample_same_program)
  then show ?thesis
    using graph_bytes_identify_program [OF sample_descriptors_valid sample_descriptors_fit, of "[]" "[]"]
    by (simp add: sample_program_defs)
qed

text \<open>C5. The kernel refines a list of providers: for a kernel built by registrations of ps, registering v succeeds exactly when the manifest of v is valid and neither its provider id nor any of its prefixes is taken, and the three internal maps of the resulting kernel represent v added to ps.\<close>

theorem registration_refines_provider_set:
  assumes "kernel_built k ps"
  shows "((\<exists>k'. register v k = Ok k') \<longleftrightarrow> accepts ps v) \<and>
    (\<forall>k'. register v k = Ok k' \<longrightarrow> represents k' (v # ps))"
  using register_accepts_iff [OF built_represents [OF assms]] register_represents [OF built_represents [OF assms]]
  by blast

theorem registration_refines_provider_set_witness:
  "\<exists>k'. register (sample_provider ''random'' ''aleator'') sample_kernel = Ok k' \<and>
     represents k' [sample_provider ''random'' ''aleator'', clock_provider]"
proof -
  have "accepts [clock_provider] (sample_provider ''random'' ''aleator'')"
    by (rule random_accepted)
  then show ?thesis
    using registration_refines_provider_set [OF sample_kernel_built, of "sample_provider ''random'' ''aleator''"]
    by blast
qed



text \<open>C7. No job is lost or answered twice: in every state reachable by any interleaving of callers, workers, shutdown and cancellation (below 2^64 requests), every accepted job is in exactly one place, the bounded queue, one worker, or the answered jobs, the ids of accepted jobs are distinct, and the queue holds at most its capacity.\<close>

theorem jobs_answered_once:
  assumes "native_reach (initial_state k workers capacity) st" "ns_started st \<le> 2 ^ 64"
  shows "mset (ns_accepted st) =
      mset (ns_buffer st) + at_workers job_held (ns_workers st) + mset (map fst (ns_answered st)) \<and>
    distinct (map nj_id (ns_accepted st)) \<and> distinct (map fst (ns_answered st)) \<and>
    length (ns_buffer st) \<le> capacity"
proof -
  have "native_inv st" by (rule reach_inv [OF assms(1) native_inv_initial assms(2)])
  moreover have "ns_capacity st = capacity"
    using reach_capacity [OF assms(1)] by (simp add: initial_state_def)
  ultimately show ?thesis
    using accepted_distinct [of st] by (auto simp: native_inv_def conserved_def ids_fresh_def)
qed

theorem jobs_answered_once_witness:
  "mset (ns_accepted pool_shutdown) = mset (ns_buffer pool_shutdown) +
     at_workers job_held (ns_workers pool_shutdown) + mset (map fst (ns_answered pool_shutdown))"
proof -
  have "ns_started pool_shutdown \<le> 2 ^ 64" by (simp add: pool_shutdown_def sample_pool_def)
  with jobs_answered_once [OF reach_pool_shutdown [unfolded pool_new_def]] show ?thesis by blast
qed

text \<open>C8. Shutdown drains the pool: once it has completed, as long as one worker has not left its loop some worker can take a step, every worker step strictly decreases a natural number that no step of anyone else raises, so the workers leave their loops after finitely many steps; and when all have left, the answered jobs are exactly the accepted jobs.\<close>

theorem shutdown_drains:
  assumes "native_reach (initial_state k workers capacity) st" "ns_started st \<le> 2 ^ 64"
    and "ns_shutdown st = ShDone" "0 < workers"
  shows "((\<exists>pc\<in>set (ns_workers st). pc \<noteq> WExit) \<longrightarrow>
      (\<exists>w < length (ns_workers st). worker_step first probe cancels accepted w st \<noteq> None)) \<and>
    (\<forall>w < length (ns_workers st). \<forall>st'. worker_step first probe cancels accepted w st = Some st' \<longrightarrow>
      work_left st' < work_left st) \<and>
    (\<forall>st'. native_step st st' \<longrightarrow> ns_shutdown st' = ShDone \<and> work_left st' \<le> work_left st) \<and>
    ((\<forall>pc\<in>set (ns_workers st). pc = WExit) \<longrightarrow>
      mset (map fst (ns_answered st)) = mset (ns_accepted st))"
proof (intro conjI allI impI)
  show "\<exists>w < length (ns_workers st). worker_step first probe cancels accepted w st \<noteq> None"
    if "\<exists>pc\<in>set (ns_workers st). pc \<noteq> WExit"
    using that worker_enabled [OF assms(3)] by (auto simp: in_set_conv_nth)
  show "work_left st' < work_left st"
    if "w < length (ns_workers st)" "worker_step first probe cancels accepted w st = Some st'" for w st'
    using that by (rule worker_step_decreases)
  show "ns_shutdown st' = ShDone" "work_left st' \<le> work_left st" if "native_step st st'" for st'
    using closed_step [OF that assms(3)] by simp_all
  show "mset (map fst (ns_answered st)) = mset (ns_accepted st)" if "\<forall>pc\<in>set (ns_workers st). pc = WExit"
  proof (rule drained_answers)
    show "ns_workers st \<noteq> []" using reach_workers [OF assms(1)] assms(4) by (auto simp: initial_state_def)
  qed (use that reach_inv [OF assms(1) native_inv_initial assms(2)] reach_exit [OF assms(1) exit_initial] in simp_all)
qed

theorem shutdown_drains_witness:
  "mset (map fst (ns_answered pool_drained)) = mset (ns_accepted pool_drained)"
proof -
  have "ns_started pool_drained \<le> 2 ^ 64" "ns_shutdown pool_drained = ShDone"
    "\<forall>pc\<in>set (ns_workers pool_drained). pc = WExit"
    by (simp_all add: pool_drained_def sample_pool_def)
  with shutdown_drains [OF reach_pool_drained [unfolded pool_new_def]] show ?thesis by simp
qed

text \<open>C9. The boundary check of commit is exact: an executing transaction is refused with BoundaryNotReached precisely while the backend has not completed the events of some participant of a boundary operation.\<close>

theorem commit_blocked_exactly_before_boundary:
  assumes "execution_environment be valid held staged published fresh env"
    and "ExecutionTransaction_new i plan ops bd = Ok tx0" and "fresh b0"
    and "tx_reach dbg be env tx0 b0 tx b" and "et_state tx = Executing"
  shows "(\<exists>m tx' b'. commit dbg be ord n tx b = Some (Err (BoundaryNotReached m), tx', b')) \<longleftrightarrow>
    \<not> boundary_reached tx (events_of be b)"
  by (rule execution_environment.commit_blocked_iff
        [OF assms(1) execution_environment.reach_start_safe(1) [OF assms(1-4)] assms(5)])

theorem commit_blocked_exactly_before_boundary_witness:
  "\<exists>tx b. sample_run False execute_calls = Some (tx, b) \<and>
     ((\<exists>m tx' b'. commit (\<lambda>s. s) fake_backend (PublicationOrdinal 7) 3 tx b =
          Some (Err (BoundaryNotReached m), tx', b')) \<longleftrightarrow>
      \<not> boundary_reached tx (events_of fake_backend b))"
proof (rule ends_inE [OF sample_waits])
  fix tx b
  assume run: "sample_run False execute_calls = Some (tx, b)" and "et_state tx = Executing"
  with commit_blocked_exactly_before_boundary [OF fake_run.execution_environment_axioms sample_new_Ok
    sample_fake_fresh sample_run_reach [OF run], of "PublicationOrdinal 7" 3] show ?thesis by simp
qed

text \<open>C10. A successful commit tells the truth: it came from an executing transaction whose boundary was reached, its receipt carries the plan hash, the ordinal, the derived write-set and reservation and only events the backend confirmed, and the backend then publishes exactly the write-set of the receipt and holds no reservation.\<close>

theorem committed_receipt:
  assumes "execution_environment be valid held staged published fresh env"
    and "ExecutionTransaction_new i plan ops bd = Ok tx0" and "fresh b0"
    and "tx_reach dbg be env tx0 b0 tx b"
    and "commit dbg be ord n tx b = Some (Ok receipt, tx', b')"
  shows "et_state tx = Executing \<and> boundary_reached tx (events_of be b) \<and>
    et_state tx' = Committed \<and> et_receipt tx' = Some receipt \<and>
    tx_decision receipt = DecisionCommitted ord \<and>
    tx_bound_hash receipt = bdp_bound_hash plan \<and>
    tx_declared_write_set receipt = derive_declared_write_set ops \<and>
    tx_reservation_summary receipt = derive_reservation ops (referenced_partitions ops) \<and>
    set (tx_synchronization_events receipt) \<subseteq> events_of be b \<and>
    published b' = bmap_get (tx_declared_write_set receipt) \<and> held b' = {}"
proof -
  note s = execution_environment.reach_start_safe [OF assms(1-4)]
  note r = execution_environment.commit_receipt [OF assms(1) s(1) assms(5)]
  have plan: "et_operations tx = ops" "et_bound_plan tx = plan"
    using s(2) new_fields [OF assms(2)] by (simp_all add: same_plan_def)
  have "tx_call_step dbg be (CallCommit ord n) tx b = Some (tx', b')"
    using assms(5) by simp
  from execution_environment.reach_start_safe [OF assms(1-3) reach_call [OF assms(4) this]]
  have s': "execution_environment.tx_safe be valid held staged published tx' b'" "same_plan tx0 tx'" by blast+
  have "plan_write_set tx' = bmap_get (derive_declared_write_set ops)"
    using s'(2) new_fields(2) [OF assms(2)] by (simp add: same_plan_def plan_write_set_def)
  with execution_environment.safe_atomic [OF assms(1) s'(1)] r(2)
    execution_environment.safe_holds(2) [OF assms(1) s'(1)] r(5) plan
  have "published b' = bmap_get (tx_declared_write_set receipt)" "held b' = {}" by simp_all
  with r plan execution_environment.commit_needs_boundary [OF assms(1) s(1) assms(5)]
  show ?thesis by (simp add: tx_reservation_def)
qed

theorem committed_receipt_witness:
  "\<exists>tx b receipt tx' b'. sample_run True execute_calls = Some (tx, b) \<and>
     commit (\<lambda>s. s) fake_backend (PublicationOrdinal 7) 3 tx b = Some (Ok receipt, tx', b') \<and>
     tx_decision receipt = DecisionCommitted (PublicationOrdinal 7) \<and>
     fake_published b' = bmap_get (tx_declared_write_set receipt) \<and> fake_held b' = {}"
proof -
  have "case sample_run True execute_calls of
        None \<Rightarrow> False
      | Some (tx, b) \<Rightarrow>
          (case commit (\<lambda>s. s) fake_backend (PublicationOrdinal 7) 3 tx b of
             Some (Ok receipt, _) \<Rightarrow> True | _ \<Rightarrow> False)"
    by code_simp
  then obtain tx b where run: "sample_run True execute_calls = Some (tx, b)"
      and "case commit (\<lambda>s. s) fake_backend (PublicationOrdinal 7) 3 tx b of
        Some (Ok receipt, _) \<Rightarrow> True | _ \<Rightarrow> False"
    by (cases "sample_run True execute_calls") auto
  from this(2) obtain receipt tx' b' where
      c: "commit (\<lambda>s. s) fake_backend (PublicationOrdinal 7) 3 tx b = Some (Ok receipt, tx', b')"
    by (rule some_okE) (auto split: prod.splits)
  with run committed_receipt [OF fake_run.execution_environment_axioms sample_new_Ok
    sample_fake_fresh sample_run_reach [OF run] c] show ?thesis by blast
qed



text \<open>C12. The cursor of a sequence is exact: after any list of calls whose plans were issued by begin_invocation (on this or any other live sequence), the committed length is the exact sum of the rows the answers report since the last successful reset, the epoch is one plus the number of successful resets, and the length is within the fixed capacity; no u32 addition wraps.\<close>

theorem sequence_length_exact:
  assumes "sequence_new capacity = Ok s0" "calls_issued cs" "sequence_run cs s0 = (rs, s)"
  shows "(unat (is_valid_len s), unat (is_epoch s)) = replay rs (0, 1) \<and>
    is_capacity s = capacity \<and> unat (is_valid_len s) \<le> unat capacity"
proof -
  have s0: "is_valid_len s0 = 0" "is_epoch s0 = 1" "is_capacity s0 = capacity"
    using assms(1) by (auto simp: sequence_new_def split: if_splits)
  from sequence_run_exact [OF assms(2) live_new [OF assms(1)] assms(3)] live_ok [of s] s0 show ?thesis
    by (auto simp: stamp_le_def sequence_ok_def)
qed

theorem sequence_length_exact_witness:
  "\<exists>rs. sequence_run sample_calls sequence0 = (rs, reset_effect sequence2) \<and> replay rs (0, 1) = (0, 2) \<and>
     unat (is_epoch (reset_effect sequence2)) = 2"
proof -
  obtain rs where run: "sequence_run sample_calls sequence0 = (rs, reset_effect sequence2)"
    using sample_calls_run by blast
  have "unat (is_epoch (reset_effect sequence2)) = 2" "is_valid_len (reset_effect sequence2) = 0"
    by (simp_all add: reset_effect_def sample_sequence)
  with run sequence_length_exact [OF sequence0_new sample_calls_issued run] show ?thesis by auto
qed

text \<open>C13. A plan takes effect at most once: when a call with an issued plan has committed rows, every later call with the same plan, after any list of calls in between, is refused and leaves the machine as it is, also after resets, because no call decreases the pair of epoch and committed length.\<close>

theorem plan_takes_effect_once:
  assumes "sequence_live s" "plan_issued p" "call_plan c = Some p" "sequence_call c s = (r, t)" "0 < answer_rows r"
    and "calls_issued cs" "sequence_run cs t = (rs, u)" "call_plan c' = Some p"
  shows "\<exists>e. sequence_call c' u = (Err e, u)"
proof -
  have live: "sequence_live t" by (rule live_call [OF assms(1) _ assms(4)]) (use assms(2,3) in auto)
  have "plan_spent p t" by (rule effect_spends [OF issued_ok [OF assms(2)] assms(3,4,5)])
  with sequence_run_exact [OF assms(6) live assms(7)] have "plan_spent p u" by (blast intro: spent_stays)
  from spent_refused [OF assms(8) spent_no_match [OF this]] show ?thesis by blast
qed

theorem plan_takes_effect_once_witness:
  "\<exists>e. sequence_call (SeqCommit plan0) sequence1 = (Err e, sequence1)"
proof -
  have "0 < answer_rows (Ok (AnswerFacts (pi_coordinates plan0)))" by (simp add: sample_sequence)
  from plan_takes_effect_once [OF sequence0_live plan0_issued _ plan0_committed this, of "[]" "[]" sequence1 "SeqCommit plan0"]
  show ?thesis by (simp add: calls_issued_def)
qed

text \<open>C14. The session refines the sequence machine: in every state reached from a prepared session each call answers as the machine answers and leaves the state the machine leaves, and the invocation-state words are the position, length and rows of the last commit with the live epoch, and zeros with the live epoch when nothing is committed.\<close>

theorem session_refines_sequence:
  assumes "session_prepare ms qs c = (Ok s0, c')" "session_reach s0 s" "session_call d s = (r, t)"
  shows "sequence_call (sequence_of_call d) (session_state s) = (r, session_state t) \<and>
    sr_invocation_state (sn_sequence s) =
      (case is_last_commit (session_state s) of
         None \<Rightarrow> invocation_state_reset (is_epoch (session_state s))
       | Some f \<Rightarrow> \<lparr>iv_position = cf_write_position f, iv_valid_len_after = is_valid_len (session_state s),
                     iv_query_rows = cf_query_rows f, iv_sequence_epoch = is_epoch (session_state s)\<rparr>)"
proof -
  note ok = session_reach_ok [OF assms(2,1)]
  then have "sequence_ok (session_state s)" by (simp add: live_ok)
  with ok session_call_simD [OF assms(3)] show ?thesis
    by (auto simp: shadows_sequence_def session_state_def sequence_ok_def split: option.splits)
qed

theorem session_refines_sequence_witness:
  "fst (session_call SessionRelease (ip_residency sample_programs)) = Ok AnswerUnit"
proof -
  let ?s0 = "ip_residency sample_programs"
  obtain c where adm: "programs_admit sample_invocations 1 = (Ok sample_programs, c)" using sample_programs_admitted by blast
  from this obtain ms qs where prep: "session_prepare ms qs 1 = (Ok ?s0, c)" by (rule programs_admit_Ok)
  obtain r s where call: "session_call SessionRelease ?s0 = (r, s)" by (metis surj_pair)
  have "\<not> is_released (session_state ?s0)"
    using admitted_fresh [OF adm] by (auto simp: sequence_new_def dest!: sym [of _ "session_state ?s0"] split: if_splits)
  then have "\<exists>t. sequence_call SeqRelease (session_state ?s0) = (Ok AnswerUnit, t)" by (simp add: flow)
  with session_refines_sequence [OF prep session_reach.start call] call show ?thesis by auto
qed

text \<open>C15. A refused call changes nothing: whatever the state and the arguments, when a call of the sequence machine or of the session residency answers with an error, the state after it is the state before it.\<close>

theorem refused_calls_change_nothing:
  "(sequence_call c s = (Err e, t) \<longrightarrow> t = s) \<and> (session_call d x = (Err e', y) \<longrightarrow> y = x)"
  using sequence_call_atomic [of c] session_call_atomic [of d] by (auto simp: fail_closed_def)

theorem refused_calls_change_nothing_witness:
  "snd (sequence_call (SeqCommit plan0) sequence1) = sequence1"
proof -
  have "\<not> plan_matches plan0 sequence1" by (simp add: plan_matches_def sample_sequence)
  then obtain e t where call: "sequence_call (SeqCommit plan0) sequence1 = (Err e, t)"
    by (metis spent_refused call_plan.simps(1))
  with refused_calls_change_nothing [of "SeqCommit plan0" sequence1 e t] show ?thesis by simp
qed

text \<open>C16. Admission is exact: begin_invocation succeeds if and only if the machine is live, the row count is positive, the mode fits the phase (prefill on a fresh sequence, one row for decode, two or more for verification on a committed prefix) and the mathematical sum of committed length and rows is within the capacity; the plan then carries the live cursor, and its causal window exists exactly for the rows below the row count and ends at the mathematical prefix plus row plus one.\<close>

theorem admission_exact:
  "(begin_invocation mode rows s = Ok p \<longleftrightarrow>
     \<not> is_released s \<and> (\<forall>e st. is_phase s \<noteq> PhasePoisoned e st) \<and> rows \<noteq> 0 \<and>
     (case mode of
        ModePrefill \<Rightarrow> is_phase s = PhaseFresh \<and> is_valid_len s = 0
      | ModeScalarDecode \<Rightarrow> rows = 1 \<and> is_phase s \<in> {PhasePrefill, PhaseDecode}
      | ModeVerification \<Rightarrow> 2 \<le> rows \<and> is_phase s \<in> {PhasePrefill, PhaseDecode} \<and> is_valid_len s \<noteq> 0) \<and>
     unat (is_valid_len s) + unat rows \<le> unat (is_capacity s) \<and> p = plan_at mode rows s) \<and>
   (begin_invocation mode rows s = Ok p \<longrightarrow>
     (\<forall>row e. causal_end_exclusive (pi_coordinates p) row = Ok e \<longleftrightarrow>
        row < rows \<and> unat e = unat (is_valid_len s) + unat row + 1))"
proof (rule conjI)
  show "begin_invocation mode rows s = Ok p \<longrightarrow>
     (\<forall>row e. causal_end_exclusive (pi_coordinates p) row = Ok e \<longleftrightarrow>
        row < rows \<and> unat e = unat (is_valid_len s) + unat row + 1)"
  proof
    assume "begin_invocation mode rows s = Ok p"
    then have p: "p = plan_at mode rows s" and room: "unat (is_valid_len s) + unat rows < 4294967296"
      using unat_u32_lt [of "is_capacity s"] by (simp_all add: begin_invocation_Ok_iff)
    then show "\<forall>row e. causal_end_exclusive (pi_coordinates p) row = Ok e \<longleftrightarrow>
        row < rows \<and> unat e = unat (is_valid_len s) + unat row + 1"
      using causal_end_Ok_iff [of "pi_coordinates p"] by (simp add: plan_at_def)
  qed
qed (simp add: begin_invocation_Ok_iff sequence_mutable_def mode_admits_def conj_assoc)

theorem admission_exact_witness:
  "\<exists>e. begin_invocation ModePrefill 3 sequence0 = Ok plan0 \<and>
     causal_end_exclusive (pi_coordinates plan0) 2 = Ok e \<and> unat e = 3"
proof -
  from conjunct2 [OF admission_exact [of ModePrefill 3 sequence0 plan0]] plan0_begun
  have window: "causal_end_exclusive (pi_coordinates plan0) 2 = Ok e \<longleftrightarrow>
      (2 :: u32) < 3 \<and> unat e = unat (is_valid_len sequence0) + unat (2 :: u32) + 1" for e by blast
  have "(2 :: u32) < 3" by (simp add: word_less_nat_alt)
  moreover have "unat (3 :: u32) = unat (is_valid_len sequence0) + unat (2 :: u32) + 1" by (simp add: sequence0_def)
  ultimately have "causal_end_exclusive (pi_coordinates plan0) 2 = Ok 3" using window by blast
  with plan0_begun show ?thesis by simp
qed

text \<open>C17. A session conserves its residents: in every state reached from a prepared session the model, the weights, the arenas and their views are the prepared objects with their identities, no cache byte was cleared, filled or copied, the allocations are released exactly when the sequence is, and live and released allocations add up to all of them.\<close>

theorem session_conserves_residents:
  assumes "session_prepare ms qs c = (Ok s0, c')" "session_reach s0 s"
  shows "sn_model s = sn_model s0 \<and> session_residents s = session_residents s0 \<and>
    sn_cache_clear_bytes s = 0 \<and> sn_buffer_zero_fill_bytes s = 0 \<and> sn_old_prefix_copy_bytes s = 0 \<and>
    sn_live_handles s = (\<not> is_released (session_state s)) \<and>
    live_allocation_count s + sn_released_allocations s = session_allocations s"
proof -
  from assms(1) have zero: "sn_cache_clear_bytes s0 = 0" "sn_buffer_zero_fill_bytes s0 = 0" "sn_old_prefix_copy_bytes s0 = 0"
    by (auto elim: session_prepare_Ok)
  from session_reach_ok [OF assms(2,1)] have "same_residents s0 s" "handles_accounted s" by simp_all
  with zero show ?thesis
    by (simp add: same_residents_def handles_accounted_def live_allocation_count_def)
qed

theorem session_conserves_residents_witness:
  "\<exists>s. session_reach (ip_residency sample_programs) s \<and> is_released (session_state s) \<and> \<not> sn_live_handles s"
proof -
  let ?s0 = "ip_residency sample_programs"
  obtain c where "programs_admit sample_invocations 1 = (Ok sample_programs, c)" using sample_programs_admitted by blast
  from this obtain ms qs where prep: "session_prepare ms qs 1 = (Ok ?s0, c)" by (rule programs_admit_Ok)
  have "\<not> is_released (session_state ?s0)"
    using session_conserves_residents [OF prep session_reach.start] prep by (auto elim: session_prepare_Ok)
  then have rel: "\<exists>t. sequence_call SeqRelease (session_state ?s0) = (Ok AnswerUnit, t) \<and> is_released t"
    by (simp add: flow)
  obtain r s where call: "session_call SessionRelease ?s0 = (r, s)" by (metis surj_pair)
  from session_call_simD [OF this] rel have "is_released (session_state s)" by auto
  moreover have reach: "session_reach ?s0 s" by (rule session_reach.step [OF session_reach.start _ call]) simp
  ultimately show ?thesis using session_conserves_residents [OF prep reach] by auto
qed

text \<open>C18. The real device backend keeps the contract of the trait: for every runtime set, drivers, timings and transaction over it, and after any calls, the published write-set is the whole declared one once the transaction is committed and empty otherwise, a committed transaction holds no reservation, and no operation makes the backend panic, whatever the device sessions answer.\<close>

theorem runtime_backend_publishes_atomically:
  assumes "runtime_backend_new s devices launch budget timeout = Ok b0"
    and "ExecutionTransaction_new i plan ops bd = Ok tx0"
    and "tx_reach dbg' (runtime_execution_backend dr dbg elapsed) (=) tx0 b0 tx b"
  shows "bmap_get (rb_published_writes b) =
      (if et_state tx = Committed then bmap_get (derive_declared_write_set ops) else Map.empty) \<and>
    (et_state tx = Committed \<longrightarrow> rb_reservations b = []) \<and>
    runtime_run_operation dr dbg elapsed op b \<noteq> None"
proof -
  have fresh: "rb_fresh b0" using assms(1) unfolding rb_fresh_def by blast
  note safe = runtime_run.reach_start_safe [OF assms(2) fresh assms(3)]
  have "plan_write_set tx = bmap_get (derive_declared_write_set ops)"
    using safe(2) new_fields(2) [OF assms(2)] by (simp add: same_plan_def plan_write_set_def)
  moreover have "et_state tx = Committed \<Longrightarrow> rb_held b = {}"
    using safe(1) by (simp add: runtime_run.tx_safe_def)
  ultimately show ?thesis
    using runtime_run.safe_atomic [OF safe(1)] runtime_run_runs [of dr dbg elapsed op b]
    by (auto simp: rb_published_def rb_held_def)
qed

theorem runtime_backend_publishes_atomically_witness:
  "\<exists>tx b. run_calls (\<lambda>s. s) sample_real commit_calls runtime_tx sample_runtime_backend = Some (tx, b) \<and>
     bmap_get (rb_published_writes b) =
       (if et_state tx = Committed then bmap_get (derive_declared_write_set runtime_operations) else Map.empty)"
proof -
  obtain tx b where run: "run_calls (\<lambda>s. s) sample_real commit_calls runtime_tx sample_runtime_backend = Some (tx, b)"
    using sample_real_runs by blast
  then have "tx_reach (\<lambda>s. s) sample_real (=) runtime_tx sample_runtime_backend tx b"
    by (rule run_calls_reach [OF _ reach_start])
  with runtime_backend_publishes_atomically [OF sample_runtime_new runtime_tx_new this] run show ?thesis by blast
qed

text \<open>C19. Handles are checked before a session is touched: every operation of the runtime that names a handle of another backend, as its module, as a buffer, in a binding, through the allocation map of a KV launch or as the invocation-state buffer, answers an error and leaves the runtime unchanged; copy, readback, release and dispatch answer E_DEVICE_INVALID_HANDLE for the handle. A bound launch with a binding that is foreign, empty, past the end of its allocation, or dynamic on CUDA is refused with the runtime unchanged.\<close>

theorem foreign_handles_never_reach_a_session:
  "(dh_backend h \<noteq> runtime_backend s \<longrightarrow>
     (\<forall>c. h \<in> named_handles c \<longrightarrow> (\<exists>e. runtime_call dr c s = (Err e, s))) \<and>
     runtime_copy_in_bytes dr h bytes dtype s = (Err (device_invalid_handle h), s) \<and>
     runtime_readback_bytes dr h dtype s = (Err (device_invalid_handle h), s) \<and>
     runtime_release dr h s = (Err (device_invalid_handle h), s) \<and>
     dispatch_kernel dr h entry buffers grid block s = (Err (device_invalid_handle h), s)) \<and>
   (x \<in> set bindings \<and> \<not> binding_fits (runtime_backend s) x \<longrightarrow>
     (\<exists>e. runtime_launch_kernel_bound dr m entry bindings grid block s = (Err e, s)))"
proof (intro conjI impI allI)
  fix c assume "dh_backend h \<noteq> runtime_backend s" "h \<in> named_handles c"
  then show "\<exists>e. runtime_call dr c s = (Err e, s)" by (intro foreign_refused)
next
  assume "x \<in> set bindings \<and> \<not> binding_fits (runtime_backend s) x"
  then show "\<exists>e. runtime_launch_kernel_bound dr m entry bindings grid block s = (Err e, s)"
    using refused_launch [of bindings s dr m entry grid block] by blast
qed (simp_all add: foreign_handle)

theorem foreign_handles_never_reach_a_session_witness:
  "(\<exists>e. runtime_call sample_drivers (RtLaunchBound (module_handle Cuda 1) ''main'' [] (1, 1, 1) (1, 1, 1))
      (MetalRuntime metal_session1) = (Err e, MetalRuntime metal_session1)) \<and>
   (\<exists>e. runtime_launch_kernel_bound sample_drivers (module_handle Metal 1) ''main''
      [bound_record (buffer_handle Metal 4 1) \<lparr>lb_handle = 7, lb_index = 0, lb_offset = 2, lb_span = 3, lb_source = SourcePosition\<rparr>]
      (1, 1, 1) (1, 1, 1) (MetalRuntime metal_session1) = (Err e, MetalRuntime metal_session1))"
proof -
  let ?s = "MetalRuntime metal_session1 :: (FakeMetalDriver, FakeCudaDriver) DeviceRuntime"
  let ?b = "bound_record (buffer_handle Metal 4 1) \<lparr>lb_handle = 7, lb_index = 0, lb_offset = 2, lb_span = 3, lb_source = SourcePosition\<rparr>"
  let ?c = "RtLaunchBound (module_handle Cuda 1) ''main'' [] (1, 1, 1) (1, 1, 1)"
  note refused = foreign_handles_never_reach_a_session [of "module_handle Cuda 1" ?s sample_drivers]
  have "dh_backend (module_handle Cuda 1) \<noteq> runtime_backend ?s" by (simp add: module_handle_def)
  moreover have "module_handle Cuda 1 \<in> named_handles ?c" by simp
  ultimately have "\<exists>e. runtime_call sample_drivers ?c ?s = (Err e, ?s)" using refused by blast
  moreover have "?b \<in> set [?b] \<and> \<not> binding_fits (runtime_backend ?s) ?b"
    by (simp add: binding_fits_def bound_record_def buffer_handle_def handle_len_bytes_def)
  then have "\<exists>e. runtime_launch_kernel_bound sample_drivers (module_handle Metal 1) ''main'' [?b] (1, 1, 1) (1, 1, 1) ?s = (Err e, ?s)"
    using refused by blast
  ultimately show ?thesis by blast
qed

text \<open>C20. Launch records resolve exactly: resolution succeeds if and only if the KV plan is valid, the allocation map names allocations of the plan once each with handles of their capacity, and every record starts at the base of a view of its allocation that is long enough, by a handle mapped to no other allocation; the result is then the records with those handles, in order, and it passes the dispatch checks when the handles are Metal.\<close>

theorem launch_records_resolve_exactly:
  "(resolve_launch_bindings kv allocations = Ok bs \<longleftrightarrow>
      kv_valid kv \<and> map_names_kv kv allocations \<and> list_all2 (record_resolves kv allocations) (kv_bindings kv) bs) \<and>
    (resolve_launch_bindings kv allocations = Ok bs \<and> dh_backend ` snd ` set allocations \<subseteq> {Metal} \<longrightarrow>
      validate_dispatch_bindings Metal bs = Ok ())"
  by (intro conjI impI resolve_exact) (elim conjE, rule resolved_dispatch)

theorem launch_records_resolve_exactly_witness:
  "validate_dispatch_bindings Metal [bound_record (buffer_handle Metal 64 1) runtime_record] = Ok ()"
proof -
  have "resolve_launch_bindings runtime_kv [(7, buffer_handle Metal 64 1)] =
      Ok [bound_record (buffer_handle Metal 64 1) runtime_record]"
    unfolding launch_records_resolve_exactly [THEN conjunct1] by (intro conjI runtime_kv_valid runtime_kv_resolves)
  moreover have "dh_backend ` snd ` set [(7 :: u32, buffer_handle Metal 64 1)] \<subseteq> {Metal}"
    by (simp add: buffer_handle_def)
  ultimately show ?thesis using launch_records_resolve_exactly [THEN conjunct2] by blast
qed

text \<open>C21. Releasing a partition gives back exactly what it holds: on the session of its device precisely the tracked handles of that backend are no longer registered, also when the driver fails to free some of them, the partition tracks nothing and is not reserved, and every other device, partition, module and write is as before.\<close>

theorem released_partition_frees_its_handles:
  assumes "device_of p b = Ok d" "bmap_get (rs_members (rb_set b)) d = Some t"
  shows "\<exists>t'. free_partition dr p b =
      b\<lparr>rb_resources := bmap_remove p (rb_resources b), rb_reservations := bmap_remove p (rb_reservations b),
        rb_set := \<lparr>rs_members = bmap_insert d t' (rs_members (rb_set b))\<rparr>\<rparr> \<and>
    runtime_ids t' = runtime_ids t - {dh_id h |h. h \<in> set (tracked p b) \<and> dh_backend h = runtime_backend t} \<and>
    runtime_backend t' = runtime_backend t"
  using free_partition_device [OF assms] release_handles_ids by blast

theorem released_partition_frees_its_handles_witness:
  "\<exists>t. bmap_get (rs_members (rb_set (free_partition sample_drivers (LogicalPartitionId ''a'') loaded_runtime_backend)))
      (sample_device ''x'') = Some t \<and> 1 \<in> runtime_ids loaded_runtime \<and> 1 \<notin> runtime_ids t"
proof -
  let ?b = loaded_runtime_backend and ?p = "LogicalPartitionId ''a''"
  have d: "device_of ?p ?b = Ok (sample_device ''x'')"
    and m: "bmap_get (rs_members (rb_set ?b)) (sample_device ''x'') = Some loaded_runtime"
    and h: "buffer_handle Metal 4 1 \<in> set (tracked ?p ?b)"
    by (simp_all add: loaded_runtime_backend_def sample_runtime_backend_def device_of_def sample_device_def ok_or_def
        tracked_def)
  have buf: "dh_backend (buffer_handle Metal 4 1) = Metal" "dh_id (buffer_handle Metal 4 1) = 1"
      "runtime_backend loaded_runtime = Metal"
    by (simp_all add: buffer_handle_def loaded_runtime_def)
  note ok = loaded_members_ok
  from released_partition_frees_its_handles [OF d m, of sample_drivers] obtain t where
    "bmap_get (rs_members (rb_set (free_partition sample_drivers ?p ?b))) (sample_device ''x'') = Some t"
    "1 \<notin> runtime_ids t" using h buf ok by auto
  with loaded_ids show ?thesis by blast
qed





text \<open>C24. When a plan is split over m devices and the bind succeeds, the snapshot has exactly m devices, partition i of the n partitions is bound to device i div (n / m) in the order of the snapshot, and every device gets exactly n / m partitions.\<close>

theorem split_places_evenly:
  assumes "bind_translated_with_constraints sha dbg plan s (SplitAcrossMembership m) cs = Some (Ok bound)"
    and "distinct (td_partitions plan)"
  shows "length (snapshot_physical_ids s) = unat m \<and>
    (\<exists>bs. plan_bindings bound = Some bs \<and>
      (\<forall>i<length (td_partitions plan). \<exists>x. bmap_get bs (td_partitions plan ! i) = Some x \<and>
         pb_device x = snapshot_physical_ids s ! (i div (length (td_partitions plan) div unat m)))) \<and>
    (\<forall>j<unat m. card {i. i < length (td_partitions plan) \<and> i div (length (td_partitions plan) div unat m) = j} =
       length (td_partitions plan) div unat m)"
proof -
  let ?n = "length (td_partitions plan)" and ?p = "SplitAcrossMembership m"
  let ?dev = "policy_device ?n (snapshot_physical_ids s) ?p"
  from bind_translated_cases [OF assms(2), of sha dbg s ?p cs] assms(1)
  have legal: "policy_legal ?n (snapshot_physical_ids s) ?p" and b: "bound_by sha plan s ?p cs bound"
    by (auto simp: bind_accepts_def)
  from legal have m: "m \<noteq> 0" "unat m < ?n" "unat m dvd ?n" "length (snapshot_physical_ids s) = unat m" by simp_all
  then have "1 < ?n" by (cases "?n = 1") (auto simp: unat_eq_0)
  then have "\<not> is_single_partition (logical_of plan cs)"
    using length_bset_distinct [of "td_partitions plan"] assms(2)
    by (simp add: is_single_partition_def logical_of_def)
  with b have "plan_bindings bound = Some (placement plan s ?dev)"
    by (auto simp: bound_by_def bound_plan_of_def plan_kind_def plan_bindings_def split: BoundPlanKind.splits)
  moreover have "\<exists>x. bmap_get (placement plan s ?dev) (td_partitions plan ! i) = Some x \<and>
      pb_device x = snapshot_physical_ids s ! (i div (?n div unat m))" if "i < ?n" for i
  proof -
    from that have "bmap_get (placement plan s ?dev) (td_partitions plan ! i) =
        Some (binding_on plan s (?dev i) i (td_partitions plan ! i))"
      using placement_get [OF assms(2)] by blast
    then show ?thesis by simp
  qed
  moreover have "card {i. i < ?n \<and> i div (?n div unat m) = j} = ?n div unat m" if "j < unat m" for j
    unfolding split_share [OF m(3) that order_less_trans [OF zero_less_one \<open>1 < ?n\<close>]] by simp
  ultimately show ?thesis using m(4) by blast
qed

theorem split_places_evenly_witness:
  "\<exists>bound. bind_translated_with_constraints sample_sha (\<lambda>_. []) (sample_translated [0, 1, 2, 3]) sample_snapshot
      (SplitAcrossMembership 2) [] = Some (Ok bound) \<and>
    (\<exists>bs. plan_bindings bound = Some bs \<and>
      (\<exists>x. bmap_get bs (LogicalPartitionId ''partition-3'') = Some x \<and> pb_device x = sample_device ''y''))"
proof -
  let ?td = "sample_translated [0, 1, 2, 3]"
  have d: "distinct (td_partitions ?td)" by (simp add: sample_partitions)
  from bind_translated_cases [OF d, of sample_sha "\<lambda>_. []" sample_snapshot "SplitAcrossMembership 2" "[]"] sample_accepts
  obtain bound where b: "bind_translated_with_constraints sample_sha (\<lambda>_. []) ?td sample_snapshot
      (SplitAcrossMembership 2) [] = Some (Ok bound)" by blast
  from split_places_evenly [OF b d] obtain bs where bs: "plan_bindings bound = Some bs"
    "\<forall>i<length (td_partitions ?td). \<exists>x. bmap_get bs (td_partitions ?td ! i) = Some x \<and>
      pb_device x = snapshot_physical_ids sample_snapshot ! (i div (length (td_partitions ?td) div unat (2 :: u32)))" by blast
  have nat_three: "(3::nat) div Suc (Suc 0) = Suc 0" by (metis One_nat_def Suc_1 div_nat_eqI div_less dividend_less_div_times numeral_3_eq_3 one_div_two_eq_zero div2_Suc_Suc)
  from bs(2) [rule_format, of 3] have "\<exists>x. bmap_get bs (LogicalPartitionId ''partition-3'') = Some x \<and>
      pb_device x = sample_device ''y''" by (simp add: sample_partitions sample_ids nat_three)
  with b bs(1) show ?thesis by blast
qed

text \<open>C25. A prepared plan stays within its admitted budget: for every partition the plan references, the staged bytes it moves and the outputs, events and scratch it needs are at most the admitted class 6 and class 3 bytes, provided those sums are below 2^64 (the code adds them in u64).\<close>

theorem prepared_within_budget:
  assumes "prepare be n tx b = Some (None, tx', b')"
    and "\<forall>op\<in>set (et_operations tx). op_fits op"
    and "p \<in> set (referenced_partitions (et_operations tx))"
    and "class_six_demand (et_operations tx) p < 2 ^ 64" "class_three_demand (et_operations tx) p < 2 ^ 64"
  shows "\<exists>bs x v. plan_bindings (et_bound_plan tx) = Some bs \<and> bmap_get bs p = Some x \<and>
     pb_virtual x = Some v \<and>
     class_six_demand (et_operations tx) p \<le> unat (transfer_staging_bytes (vp_ledger v)) \<and>
     class_three_demand (et_operations tx) p \<le> unat (activation_scratch_bytes (vp_ledger v))"
proof -
  have new: "et_state tx = New"
    using assms(1) by (auto simp: prepare_def split: if_splits)
  then obtain bs where bs: "plan_bindings (et_bound_plan tx) = Some bs"
    using assms(1) by (auto simp: prepare_def split: option.splits)
  from prepare_cases [OF new bs, of be n b] assms(1) have "accepted_plan tx" by auto
  with bs have "\<forall>q\<in>set (derive_reservation (et_operations tx) (referenced_partitions (et_operations tx))).
      reservation_fits bs (fst q) (snd q)"
    by (auto simp: accepted_plan_def)
  then have "reservation_fits bs p (demand_record (et_operations tx) p)"
    using assms(3) by (auto simp: derive_reservation_demand [OF assms(2)])
  then obtain x v where "bmap_get bs p = Some x" "pb_virtual x = Some v"
      "of_nat (class_six_demand (et_operations tx) p) \<le> transfer_staging_bytes (vp_ledger v)"
      "of_nat (class_three_demand (et_operations tx) p) \<le> activation_scratch_bytes (vp_ledger v)"
    by (auto simp: reservation_fits_def demand_record_classes)
  with bs assms(4,5) show ?thesis by (auto simp: word_le_nat_alt unat_of_nat_u64)
qed

theorem prepared_within_budget_witness:
  "class_three_demand sample_operations (LogicalPartitionId ''b'') \<le> 8192"
proof -
  have r: "fst (the (prepare fake_backend 1 sample_tx FakeExecutionBackend_new)) = None"
    "prepare fake_backend 1 sample_tx FakeExecutionBackend_new \<noteq> None"
    by code_simp+
  then obtain tx b where p: "prepare fake_backend 1 sample_tx FakeExecutionBackend_new = Some (None, tx, b)"
    by (cases "prepare fake_backend 1 sample_tx FakeExecutionBackend_new") (auto simp: prod_eq_iff)
  have c: "\<forall>op\<in>set (et_operations sample_tx). op_fits op"
      "LogicalPartitionId ''b'' \<in> set (referenced_partitions (et_operations sample_tx))"
      "class_six_demand (et_operations sample_tx) (LogicalPartitionId ''b'') < 2 ^ 64"
      "class_three_demand (et_operations sample_tx) (LogicalPartitionId ''b'') < 2 ^ 64"
    by code_simp+
  have "et_operations sample_tx = sample_operations" using new_fields(2) [OF sample_new_Ok] .
  moreover have "plan_bindings (et_bound_plan sample_tx) = Some sample_bindings"
    using new_fields(3) [OF sample_new_Ok] by (simp add: plan_bindings_def sample_bound_plan_def)
  moreover have "map_option (\<lambda>x. map_option (activation_scratch_bytes \<circ> vp_ledger) (pb_virtual x))
      (bmap_get sample_bindings (LogicalPartitionId ''b'')) = Some (Some 8192)"
    by (simp add: sample_bindings_def PartitionBinding_with_virtual_partition_def sample_partition_def
        sample_ledger_def)
  ultimately show ?thesis
    using prepared_within_budget [OF p c] by auto
qed

text \<open>C26. Progress: on the in-memory backend a plan that passes the acceptance predicate and whose writes have distinct output references runs through prepare, execute and commit, each returning success, and ends with its write-set published.\<close>

theorem accepted_plan_commits:
  assumes "ExecutionTransaction_new i plan ops bd = Ok tx" and "accepted_plan tx"
    and "distinct (map sw_output_ref (plan_writes ops))"
  shows "\<exists>tx1 b1 tx2 b2 receipt tx3 b3.
    prepare fake_backend n tx FakeExecutionBackend_new = Some (None, tx1, b1) \<and>
    execute fake_backend m tx1 b1 = Some (None, tx2, b2) \<and>
    commit dbg fake_backend ord k tx2 b2 = Some (Ok receipt, tx3, b3) \<and>
    fake_published b3 = bmap_get (derive_declared_write_set ops)"
  using fake_commits [OF assms, of n m dbg ord k] new_fields(2) [OF assms(1)]
  by (simp add: plan_write_set_def)

theorem accepted_plan_commits_witness:
  "\<exists>tx1 b1 tx2 b2 receipt tx3 b3.
    prepare fake_backend 1 sample_tx FakeExecutionBackend_new = Some (None, tx1, b1) \<and>
    execute fake_backend 2 tx1 b1 = Some (None, tx2, b2) \<and>
    commit (\<lambda>s. s) fake_backend (PublicationOrdinal 7) 3 tx2 b2 = Some (Ok receipt, tx3, b3) \<and>
    fake_published b3 = bmap_get (derive_declared_write_set sample_operations)"
proof (rule accepted_plan_commits [OF sample_new_Ok])
  have bs: "plan_bindings (et_bound_plan sample_tx) = Some sample_bindings"
    using new_fields(3) [OF sample_new_Ok] by (simp add: plan_bindings_def sample_bound_plan_def)
  have "fst (the (prepare fake_backend 1 sample_tx FakeExecutionBackend_new)) = None"
    by code_simp
  with prepare_cases [OF new_fields(1) [OF sample_new_Ok] bs, of fake_backend 1 FakeExecutionBackend_new]
  show "accepted_plan sample_tx" by auto
  show "distinct (map sw_output_ref (plan_writes sample_operations))" by code_simp
qed

text \<open>C27. No leak on either path: a reachable transaction only ever reserves partitions its plan references, after a commit none is reserved, and after an abort nothing is staged and, where the reservation had been taken, nothing is reserved.\<close>

theorem nothing_left_held:
  assumes "execution_environment be valid held staged published fresh env"
    and "ExecutionTransaction_new i plan ops bd = Ok tx0" and "fresh b0"
    and "tx_reach dbg be env tx0 b0 tx b"
  shows "held b \<subseteq> set (referenced_partitions ops) \<and> (et_state tx = Committed \<longrightarrow> held b = {}) \<and>
    (\<forall>f. et_state tx = Aborted f \<longrightarrow> staged b = Map.empty \<and> (et_reservation tx \<noteq> None \<longrightarrow> held b = {}))"
proof -
  note s = execution_environment.reach_start_safe [OF assms]
  have "et_operations tx = ops" using s(2) new_fields(2) [OF assms(2)] by (simp add: same_plan_def)
  with execution_environment.safe_holds [OF assms(1) s(1)] show ?thesis by blast
qed

theorem nothing_left_held_witness:
  "\<exists>tx b. sample_run True commit_calls = Some (tx, b) \<and> et_state tx = Committed \<and> fake_held b = {}"
proof (rule ends_inE [OF sample_commits])
  fix tx b
  assume run: "sample_run True commit_calls = Some (tx, b)" and "et_state tx = Committed"
  with nothing_left_held [OF fake_run.execution_environment_axioms sample_new_Ok sample_fake_fresh
    sample_run_reach [OF run]] show ?thesis by simp
qed

text \<open>C28. CUDA objects are accounted for: after any sequence of public calls on a session over the fake driver, whatever it is configured to simulate and wherever it is configured to fail, the tokens registered as modules are exactly the modules the driver holds, the tokens registered as buffers exactly its buffers, no two handles share a token, and the live handles plus the counted releases are the counted loads plus allocations. Over any driver, a release of a live handle answers and leaves the driver as one call of its free on the token of the handle does, and a release of a handle that is not registered changes nothing.\<close>

theorem cuda_handles_accounted:
  assumes "fake_cuda_configured d" "cuda_with_driver (fake_cuda fl) d = Ok s0"
    "cuda_reach (fake_cuda fl) fake_cuda_room s0 s"
    "c = cuda_driver_counters (fake_cuda fl) s"
  shows "module_tokens (cs_handles s) = set (bmap_keys (fc_modules (cs_driver s))) \<and>
    buffer_tokens (cs_handles s) = set (bmap_keys (fc_buffers (cs_driver s))) \<and>
    tokens_distinct (cs_handles s) \<and>
    cuda_live_handle_count s + (dc_module_releases c + dc_buffer_releases c) = dc_module_loads c + dc_buffer_allocs c \<and>
    (case registry_get i (cs_handles s) of
       None \<Rightarrow> cuda_release drv i s = (Err (cuda_invalid_handle i), s)
     | Some h \<Rightarrow> fst (cuda_release drv i s) = fst (cd_free drv (rh_token h) (cs_driver s)) \<and>
         cs_driver (snd (cuda_release drv i s)) = snd (cd_free drv (rh_token h) (cs_driver s)) \<and>
         registry_get i (cs_handles (snd (cuda_release drv i s))) = None)"
proof -
  note inv = fake_session.session_reach_inv [OF assms(3) fake_cuda_open_inv [OF assms(1,2)]]
  then have "fake_cuda_ok (cs_driver s)" by (simp add: cuda_inv_alt)
  from fake_cuda_counts [OF this] fake_session.live_handles [OF inv]
  have "cuda_live_handle_count s + (dc_module_releases c + dc_buffer_releases c) = dc_module_loads c + dc_buffer_allocs c"
    by (simp add: assms(4) cuda_driver_counters_def fake_cuda_def fc_counters_def)
  moreover obtain n where "registered n (cs_handles s) (fake_cuda_mods (cs_driver s)) (dom (fake_cuda_mem (cs_driver s)))"
    using inv by (auto simp: cuda_inv_alt)
  then have "module_tokens (cs_handles s) = set (bmap_keys (fc_modules (cs_driver s))) \<and>
      buffer_tokens (cs_handles s) = set (bmap_keys (fc_buffers (cs_driver s))) \<and> tokens_distinct (cs_handles s)"
    by (simp add: registered_def fake_cuda_mods_def dom_fake_cuda_mem)
  ultimately show ?thesis
    by (auto simp: release_frees_once registry_get_remove remove_cached_module_def split: option.split)
qed

theorem cuda_handles_accounted_witness:
  "cuda_live_handle_count cuda_session1 = 3 \<and>
   (let c = cuda_driver_counters (fake_cuda sample_float) cuda_session1
    in dc_module_loads c + dc_buffer_allocs c - (dc_module_releases c + dc_buffer_releases c) = 3) \<and>
   tokens_distinct (cs_handles cuda_session1)"
proof -
  let ?c = "cuda_driver_counters (fake_cuda sample_float) cuda_session1"
  note exact = cuda_handles_accounted [OF fake_cuda_configured_built(1) cuda_session0_open cuda_session1_reached refl]
  have "tokens_distinct (cs_handles cuda_session1)"
    and "cuda_live_handle_count cuda_session1 + (dc_module_releases ?c + dc_buffer_releases ?c) =
      dc_module_loads ?c + dc_buffer_allocs ?c" using exact by blast+
  moreover have "cuda_live_handle_count cuda_session1 = 3"
    by (simp add: run_cuda cuda_session1_def cuda_live_handle_count_def registry_len_def)
  ultimately show ?thesis by (simp add: Let_def)
qed

text \<open>C29. A released CUDA handle stays dead, whatever driver the session is opened over and whatever that driver answers, as long as the handle counter does not run out: after the release of a live handle and any further calls, the handle resolves neither as a module nor as a buffer, and releasing it again is refused with the invalid-handle error and leaves the session unchanged.\<close>

theorem cuda_release_is_final:
  assumes "cuda_with_driver dr d = Ok s0" "cuda_reach dr (\<lambda>_. True) s0 s"
    and "registry_get i (cs_handles s) \<noteq> None" "cuda_release dr i s = (r, s1)"
    and "cuda_reach dr (\<lambda>_. True) s1 s2"
  shows "cuda_module_token i s2 = Err (cuda_invalid_handle i) \<and> cuda_buffer_token i s2 = Err (cuda_invalid_handle i) \<and>
    cuda_release dr i s2 = (Err (cuda_invalid_handle i), s2)"
proof -
  have "numbered (cs_handles s)" by (rule reach_numbered [OF assms(2) opened_numbered [OF assms(1)]])
  note released = release_retires [OF this assms(4,3)]
  have "retired i s2" by (rule reach_retired [OF assms(5) released(2,1)])
  then show ?thesis by (simp add: retired_tokens)
qed

theorem cuda_release_is_final_witness:
  "cuda_buffer_token 1 (snd (cuda_release (fake_cuda sample_float) 1 cuda_session1)) = Err (cuda_invalid_handle 1)"
proof -
  have "registry_get 1 (cs_handles cuda_session1) \<noteq> None"
    by (simp add: run_cuda cuda_session1_def)
  moreover have "cuda_reach (fake_cuda sample_float) (\<lambda>_. True) cuda_session0 cuda_session1"
    using cuda_session1_reached by (rule cuda_reach_weaken)
  ultimately show ?thesis
    using cuda_release_is_final [OF cuda_session0_open _ _ prod.collapse [symmetric] cuda_start] by blast
qed

text \<open>C30. What is copied to a Metal buffer is read back, mapped or not: after a successful copy of a slice as long as the buffer, the readback returns exactly the bytes of the slice when no readback failure is injected, both when the bytes were copied and when the pages of a retained mapping that hold the slice were wrapped at their page remainder; any successful readback returns them.\<close>

theorem metal_slice_roundtrip:
  assumes "fake_metal_configured d" "metal_with_driver (fake_metal fl) d = Ok s0"
    "metal_reach (fake_metal fl) fake_metal_room s0 s"
    and "fake_metal_src (ms_driver s) src" "metal_buffer_token i s = Ok (token, length (sl_bytes src))"
    and "metal_copy_in_bytes (fake_metal fl) i src dtype s = (Ok (), s1)"
  shows "(bmap_get (fm_fail_at (ms_driver s1)) StageReadback = None \<longrightarrow>
      fst (metal_readback_bytes (fake_metal fl) i dtype s1) = Ok (sl_bytes src)) \<and>
    (\<forall>out s2. metal_readback_bytes (fake_metal fl) i dtype s1 = (Ok out, s2) \<longrightarrow> out = sl_bytes src)"
proof (intro conjI allI impI)
  note inv = fake_metal_session.session_reach_inv [OF assms(3) fake_metal_open_inv [OF assms(1,2)]]
  show "fst (metal_readback_bytes (fake_metal fl) i dtype s1) = Ok (sl_bytes src)"
    if "bmap_get (fm_fail_at (ms_driver s1)) StageReadback = None"
    by (rule fake_metal_readback [OF inv assms(4,5,6) that])
  show "out = sl_bytes src" if "metal_readback_bytes (fake_metal fl) i dtype s1 = (Ok out, s2)" for out s2
    by (rule fake_metal_session.bytes_roundtrip [OF inv assms(4,5,6) that])
qed

theorem metal_slice_roundtrip_witness:
  "fst (metal_readback_bytes (fake_metal sample_float) 1 DtF32 metal_session2) = Ok [4, 5, 6, 7] \<and>
   fm_mmap_wraps (ms_driver metal_session2) = 1"
  using metal_slice_roundtrip [OF fake_metal_configured_built(1) metal_session0_open metal_session1_reached sample_source sample_buffer sample_copied(1)]
    sample_copied(2,3) by (simp add: sample_slice_def)

text \<open>C31. A wrapped region never leaves its mapping: when a slice is admitted, the region starts at a page boundary, is a whole number of pages long, lies between the start and the end of the mapping that holds the slice, and contains the slice at the returned remainder, for all addresses and lengths, so no saturating operation of the admission lets a region through that is too long.\<close>

theorem metal_wrap_inside_mapping:
  assumes "mapped_wrap_for maps src = Some w" "\<forall>f\<in>set maps. map_fits f" "sl_addr src = Some addr"
    and "length (sl_bytes src) < 2 ^ 64"
  shows "\<exists>f\<in>set maps. unat (mf_page_size f) dvd unat (mw_ptr w) \<and> unat (mf_page_size f) dvd unat (mw_page_len w) \<and>
      unat (mf_ptr f) \<le> unat (mw_ptr w) \<and> unat (mw_ptr w) + unat (mw_page_len w) \<le> map_end f \<and>
      unat (mw_ptr w) + unat (mw_offset w) = unat addr \<and>
      unat (mw_offset w) + length (sl_bytes src) \<le> unat (mw_page_len w)"
proof -
  from assms(1) obtain f a where "sl_addr src = Some a" "f \<in> set maps" "wrap_in f a (slice_len src) = Some w"
    by (rule mapped_wrap_Some)
  with wrap_in_Some [of f a "slice_len src" w] assms(2,3) show ?thesis
    using assms(4) by (intro bexI [of _ f]) (simp_all add: slice_len_def unat_of_nat)
qed

theorem metal_wrap_inside_mapping_witness:
  "\<exists>f\<in>set [sample_mapping]. unat (mf_page_size f) dvd 4096 \<and> 4096 + 8 \<le> map_end f"
  using metal_wrap_inside_mapping [OF sample_wrap, of 4099]
  by (simp add: map_fits_def sample_mapping_def sample_slice_def)

text \<open>C32. KV plan validation is exact: it accepts precisely the plans whose allocations are distinct and non-empty and whose every view and launch binding names a declared allocation and lies inside it in unbounded arithmetic, so no sum or product of the check can wrap into acceptance.\<close>

theorem kv_validation_exact:
  "kv_validate kv = Ok () \<longleftrightarrow> kv_valid kv"
  by (rule kv_validate_Ok_iff)

text \<open>C33. Shutdown leaves no job running uncancelled: in every reachable state after begin_shutdown has completed, the cancellation token of each job a worker is running has been cancelled; a job cannot slip between the flag and the cancellation of the active table.\<close>

theorem shutdown_cancels_running_jobs:
  assumes "native_reach (initial_state k workers capacity) st" "ns_started st \<le> 2 ^ 64"
    and "ns_shutdown st = ShDone" "w < length (ns_workers st)" "ns_workers st ! w = WRun job"
  shows "nj_token job \<in> ns_cancelled st"
  using shutdown_cancels_running [OF reach_inv [OF assms(1) native_inv_initial assms(2)] assms(3-5)] .

theorem shutdown_cancels_running_jobs_witness:
  "nj_token sample_job \<in> ns_cancelled pool_shutdown"
  by (rule shutdown_cancels_running_jobs [OF reach_pool_shutdown [unfolded pool_new_def], where w = 0])
     (simp_all add: pool_shutdown_def sample_pool_def)

text \<open>C34. The reachability worklist of the schedule check ends for every edge list, cyclic ones included, and from the declared roots it collects exactly the launches related to a root by the reflexive transitive closure of the data-flow edges.\<close>

theorem schedule_reaches_closure:
  "set (reach_loop edges roots []) = (flow_edges edges)\<^sup>* `` set roots"
  using reach_loop_set [of edges "[]" roots] by simp

text \<open>C35. The declared types of a route are enforced: whenever dispatch succeeds, the route is declared by a registered provider, the opener of the request matches the declared opener carrier and the frames of the reply match the declared result carrier, whatever the provider function returns.\<close>

theorem dispatch_respects_contracts:
  assumes "kernel_built k ps" "dispatch k request ctx = Ok reply"
  shows "\<exists>v\<in>set ps. \<exists>call c. declares v call \<and> mc_route call = rq_route request \<and> RouteContract_parse call = Ok c \<and>
    opener_matches (rc_opener c) (rq_opener request) \<and> reply_matches (rc_result c) (pr_contents reply)"
  by (rule dispatch_Ok_typed [OF built_represents [OF assms(1)] assms(2)])

theorem dispatch_respects_contracts_witness:
  "\<exists>call c. declares clock_provider call \<and> mc_route call = ''tempus:now'' \<and> RouteContract_parse call = Ok c \<and>
     opener_matches (rc_opener c) Nihil \<and> reply_matches (rc_result c) [Item (Numerus 5)]"
  using dispatch_respects_contracts [OF sample_kernel_built now_dispatched]
  by (simp add: now_request_def reply_item_def)

text \<open>C36. The policy evaluator partitions the candidates: a plan is ranked exactly when it passes all four gates and rejected with at least one violation exactly when it does not; a stale or unresolvable selection rejects every plan, and the receipt carries the same two lists.\<close>

theorem policy_outcome_exact:
  assumes "topo_discovery (dc_topology (rq_constraints r)) = rq_discovery r"
  shows "\<exists>out. evaluate r = Some out \<and>
    er_rejected (po_receipt out) = po_rejected out \<and> er_ranked (po_receipt out) = po_ranked out \<and>
    (\<forall>x\<in>set (po_rejected out). pr_violations x \<noteq> []) \<and>
    (case gate_health_epoch_selection r of
       Ok s \<Rightarrow>
         map pr_plan (po_rejected out) = map cp_name (filter (\<lambda>p. \<not> plan_passes r s p) (rq_plans r)) \<and>
         mset (map rp_plan (po_ranked out)) = mset (map cp_name (filter (plan_passes r s) (rq_plans r)))
     | Err v \<Rightarrow>
         map pr_plan (po_rejected out) = map cp_name (rq_plans r) \<and> po_ranked out = [])"
proof -
  obtain out where out: "evaluate r = Some out"
    using assms evaluate_None_iff [of r] by (cases "evaluate r") auto
  with evaluate_lists [OF out] evaluate_receipt(1,2) [OF out] out show ?thesis
    by (cases "gate_health_epoch_selection r") (auto simp: plan_violations_Nil_iff comp_def ranked_mset simp del: mset_map mset_filter)
qed

theorem policy_outcome_exact_witness:
  "\<exists>out. evaluate sample_request = Some out \<and> map pr_plan (po_rejected out) = [''big'']"
proof -
  have topo: "topo_discovery (dc_topology (rq_constraints sample_request)) = rq_discovery sample_request"
    by (simp add: sample_request_def sample_topology_def)
  have g: "gate_health_epoch_selection sample_request =
      Ok \<lparr>set_members = [sample_device ''x'', sample_device ''y'']\<rparr>"
    by code_simp
  have "map cp_name (filter (\<lambda>p. \<not> plan_passes sample_request
      \<lparr>set_members = [sample_device ''x'', sample_device ''y'']\<rparr> p) (rq_plans sample_request)) = [''big'']"
    unfolding plan_violations_Nil_iff [symmetric] by code_simp
  with policy_outcome_exact [OF topo] g show ?thesis by auto
qed

text \<open>C37. Bind decides its contract without panicking: given an admitted plan it returns a plan exactly when the snapshot and members are current, the partitions and devices match, attached partitions are active and consistent, every placement constraint holds and the launch demand fits; the plan it returns carries the hash of its own canonical bytes.\<close>

theorem bind_decides:
  assumes "well_formed_bind a bindings ds"
  shows "((\<exists>plan. bind sha a bindings ds s g f tr = Some (Ok plan) \<and> bound_plan_of sha a bindings ds s f tr plan) \<longleftrightarrow>
      bindable a bindings ds s g) \<and>
    ((\<exists>e. bind sha a bindings ds s g f tr = Some (Err e)) \<longleftrightarrow> \<not> bindable a bindings ds s g)"
  using bind_cases [OF assms, of sha s g f tr] by auto

theorem bind_decides_witness:
  "bindable sample_admitted sample_bindings sample_set sample_snapshot (DeviceHealthGeneration 1)"
proof -
  have wf: "well_formed_bind sample_admitted sample_bindings sample_set" by code_simp
  have no_error: "case bind sample_sha sample_admitted sample_bindings sample_set sample_snapshot
      (DeviceHealthGeneration 1) Virtual HostStagedTransport of Some (Err e) \<Rightarrow> False | _ \<Rightarrow> True"
    by code_simp
  show ?thesis
  proof (rule ccontr)
    assume unbindable: "\<not> ?thesis"
    have "\<exists>e. bind sample_sha sample_admitted sample_bindings sample_set sample_snapshot
        (DeviceHealthGeneration 1) Virtual HostStagedTransport = Some (Err e)"
      by (rule bind_decides [OF wf, THEN conjunct2, THEN iffD2, OF unbindable])
    then obtain e where refused: "bind sample_sha sample_admitted sample_bindings sample_set sample_snapshot
        (DeviceHealthGeneration 1) Virtual HostStagedTransport = Some (Err e)" ..
    show False using no_error unfolding refused by (simp only: option.case result.case)
  qed
qed

text \<open>C38. The streaming hasher is the block fold of FIPS 180-4: feeding a message in any pieces and finalizing gives the compression of its padded blocks in order, and the one-shot digest is the same value.\<close>

theorem sha256_streaming:
  "Sha256_finalize (fold Sha256_update parts Sha256_new) = sha_reference (concat parts) \<and>
   Sha256_digest (concat parts) = sha_reference (concat parts)"
  using finalize_represents [OF represents_updates [of parts]]
    finalize_represents [OF represents_updates [of "[concat parts]"]]
  by (simp add: Sha256_digest_def)

text \<open>C39. Poison and release are final: from a machine that is poisoned or released, in every list of calls (commits, poisons, aborts, failures, resets, releases, with any plans) every call but a release is answered by an error, and so is a release of a machine that is released; the run leads back to the same machine, at most marked released, so committed length, epoch, last commit and the poisoned invocation stay for inspection, and no invocation is admitted any more.\<close>

theorem poison_is_final:
  assumes "is_released s \<or> is_phase s = PhasePoisoned e st" "sequence_run cs s = (rs, t)"
  shows "length rs = length cs \<and>
    (\<forall>i<length cs. cs ! i \<noteq> SeqRelease \<or> is_released s \<longrightarrow> (\<exists>x. rs ! i = Err x)) \<and>
    t \<in> {s, s\<lparr>is_released := True\<rparr>} \<and> begin_invocation mode rows t \<noteq> Ok p \<and> begin_transaction mode rows t \<noteq> Ok tx"
proof -
  have dead: "\<not> sequence_mutable s" using assms(1) by (auto simp: sequence_mutable_def)
  from run_immutable [OF this assms(2)] have t: "t \<in> {s, s\<lparr>is_released := True\<rparr>}" by blast
  with dead have "begin_invocation mode rows t \<noteq> Ok q" for q
    by (auto simp: begin_invocation_Ok_iff sequence_mutable_def)
  with t run_refused [OF dead assms(2)] show ?thesis by (auto simp: begin_transaction_def and_then_Ok_iff)
qed

theorem poison_is_final_witness:
  "\<exists>x. sequence_run [SeqReset, SeqRelease] (poison_effect plan0 StageDispatch sequence0) =
      ([Err x, Ok AnswerUnit], (poison_effect plan0 StageDispatch sequence0)\<lparr>is_released := True\<rparr>)"
proof -
  let ?s = "poison_effect plan0 StageDispatch sequence0"
  have phase: "is_phase ?s = PhasePoisoned 1 StageDispatch" and live: "\<not> is_released ?s"
    by (simp_all add: poison_effect_def sample_sequence)
  obtain rs t where run: "sequence_run [SeqReset] ?s = (rs, t)" by (metis surj_pair)
  note final = poison_is_final [OF disjI2 [OF phase] run]
  have "length rs = 1" "\<exists>x. rs ! 0 = Err x" using final by auto
  then obtain x where "rs = [Err x]" by (cases rs) auto
  have "\<not> sequence_mutable ?s" using phase by (simp add: sequence_mutable_def)
  then obtain e where "sequence_call SeqReset ?s = (Err e, ?s)" by (rule immutable_refused [where c = SeqReset]) simp
  moreover have "sequence_call SeqRelease ?s = (Ok AnswerUnit, ?s\<lparr>is_released := True\<rparr>)"
    using live by (simp add: flow)
  ultimately show ?thesis by (auto simp del: sequence_call.simps)
qed

text \<open>C40. Building the capability record panics exactly when some class other than F32 has no declared conversion in the selection. Otherwise every family is decided and found under its name: a family that consumes no quantized class is supported directly on its own recipe, any other carries exactly the selected descriptors of the classes it consumes, in order.\<close>

theorem capability_record_exact:
  "(capability_initial row s = None \<longleftrightarrow> (\<exists>c. c \<noteq> Pinned_F32 \<and> f32_conversion_descriptor s c = None)) \<and>
   (\<forall>r. capability_initial row s = Some r \<longrightarrow> every_family_decided r \<and>
     (\<forall>f. \<exists>cap. capability_of_family r f = Some cap \<and>
        (if consumed_tensor_classes f = [] then ofc_result cap = CapSupportedDirect [RecipeCandidate f]
         else \<exists>ds. ofc_result cap = CapWithConversion [F32ConversionCandidate, DirectNativeCandidate] \<lparr>cvp_per_class = ds\<rparr> \<and>
           list_all2 (\<lambda>c d. f32_conversion_descriptor s c = Some d) (consumed_tensor_classes f) ds)))"
proof -
  have shape: "if consumed_tensor_classes f = [] then ofc_result cap = CapSupportedDirect [RecipeCandidate f]
      else \<exists>ds. ofc_result cap = CapWithConversion [F32ConversionCandidate, DirectNativeCandidate] \<lparr>cvp_per_class = ds\<rparr> \<and>
        list_all2 (\<lambda>c d. f32_conversion_descriptor s c = Some d) (consumed_tensor_classes f) ds"
    if "family_capability s f = Some cap" for f cap
    using that by (auto simp: family_capability_def Let_def map_or_panic_Some_iff split: if_splits option.splits)
  have "capability_initial row s = None \<longleftrightarrow> (\<exists>c. c \<noteq> Pinned_F32 \<and> f32_conversion_descriptor s c = None)"
    by (auto simp: capability_initial_None_iff quantized_classes_def)
  then show ?thesis using shape capability_initial_decided capability_initial_family by meson
qed

theorem capability_record_exact_witness:
  "\<exists>r cap ds. capability_initial pinned_row (initial_declared_f32_conversion pinned_row) = Some r \<and> every_family_decided r \<and>
    capability_of_family r FamQuantizedMatmul = Some cap \<and>
    ofc_result cap = CapWithConversion [F32ConversionCandidate, DirectNativeCandidate] \<lparr>cvp_per_class = ds\<rparr> \<and> length ds = 4"
proof -
  let ?s = "initial_declared_f32_conversion pinned_row"
  note exact = capability_record_exact [of pinned_row ?s]
  from exact obtain r where r: "capability_initial pinned_row ?s = Some r" using initial_descriptor_exists by blast
  with exact have d: "every_family_decided r" and f: "\<forall>f. \<exists>cap. capability_of_family r f = Some cap \<and>
      (if consumed_tensor_classes f = [] then ofc_result cap = CapSupportedDirect [RecipeCandidate f]
       else \<exists>ds. ofc_result cap = CapWithConversion [F32ConversionCandidate, DirectNativeCandidate] \<lparr>cvp_per_class = ds\<rparr> \<and>
         list_all2 (\<lambda>c d. f32_conversion_descriptor ?s c = Some d) (consumed_tensor_classes f) ds)" by blast+
  from spec [OF f, of FamQuantizedMatmul] obtain cap ds where
    "capability_of_family r FamQuantizedMatmul = Some cap"
    "ofc_result cap = CapWithConversion [F32ConversionCandidate, DirectNativeCandidate] \<lparr>cvp_per_class = ds\<rparr>"
    "list_all2 (\<lambda>c d. f32_conversion_descriptor ?s c = Some d) (consumed_tensor_classes FamQuantizedMatmul) ds" by auto
  moreover from this(3) have "length ds = 4" by (auto dest: list_all2_lengthD)
  ultimately show ?thesis using r d by blast
qed

section \<open>Further results\<close>

text \<open>The derived reservation is the demand of the plan: each referenced partition gets the sum over the operations of the staging, output and event charges the accounting rules prescribe, each taken in u64, and no other partition gets a record.\<close>

theorem reservation_is_demand:
  assumes "\<forall>op\<in>set ops. op_fits op"
  shows "bmap_get (derive_reservation ops (referenced_partitions ops)) p =
    (if p \<in> set (referenced_partitions ops) then Some (demand_record ops p) else None)"
proof -
  have "map_of (map (\<lambda>p. (p, demand_record ops p)) qs) p =
      (if p \<in> set qs then Some (demand_record ops p) else None)" for qs
    by (induction qs) auto
  then show ?thesis by (simp add: derive_reservation_demand [OF assms])
qed

theorem reservation_is_demand_witness:
  "bmap_get (derive_reservation sample_operations (referenced_partitions sample_operations)) (LogicalPartitionId ''b'') =
     Some \<lparr>res_transfer_staging_bytes = 8, res_output_buffer_bytes = 8, res_event_bytes = 128,
           res_transaction_scratch_bytes = 4096\<rparr>"
proof -
  have fits: "\<forall>op\<in>set sample_operations. op_fits op" by code_simp
  have "LogicalPartitionId ''b'' \<in> set (referenced_partitions sample_operations)" by code_simp
  moreover have "demand_record sample_operations (LogicalPartitionId ''b'') =
      \<lparr>res_transfer_staging_bytes = 8, res_output_buffer_bytes = 8, res_event_bytes = 128,
       res_transaction_scratch_bytes = 4096\<rparr>"
    by code_simp
  ultimately show ?thesis using reservation_is_demand [OF fits, of "LogicalPartitionId ''b''"] by simp
qed

text \<open>Abort always settles: on a committed transaction it is refused and changes nothing; from every other reachable state it returns a receipt, the transaction is Aborted with that receipt recorded, and neither a published nor a staged write is left.\<close>

theorem abort_settles:
  assumes "execution_environment be valid held staged published fresh env"
    and "ExecutionTransaction_new i plan ops bd = Ok tx0" and "fresh b0"
    and "tx_reach dbg be env tx0 b0 tx b"
  shows "if et_state tx = Committed then abort be reason n tx b = Some (Err AlreadyCommitted, tx, b)
    else \<exists>receipt tx' b'. abort be reason n tx b = Some (Ok receipt, tx', b') \<and>
      (\<exists>f. et_state tx' = Aborted f) \<and> et_receipt tx' = Some receipt \<and>
      published b' = Map.empty \<and> staged b' = Map.empty"
proof (cases "et_state tx = Committed")
  case True
  then show ?thesis by (simp add: abort_def)
next
  case False
  note s = execution_environment.reach_start_safe [OF assms]
  obtain receipt tx' b' where a: "abort be reason n tx b = Some (Ok receipt, tx', b')"
    by (rule execution_environment.abort_returns [OF assms(1) s(1) False])
  note r = abort_Ok_state [OF a]
  have "tx_call_step dbg be (CallAbort reason n) tx b = Some (tx', b')"
    using a by simp
  from execution_environment.reach_start_safe(1) [OF assms(1-3) reach_call [OF assms(4) this]]
  have s': "execution_environment.tx_safe be valid held staged published tx' b'" .
  from r obtain f where f: "et_state tx' = Aborted f" by blast
  from execution_environment.safe_atomic [OF assms(1) s'] f have "published b' = Map.empty" by simp
  moreover from execution_environment.safe_holds(3) [OF assms(1) s' f] have "staged b' = Map.empty" .
  ultimately show ?thesis unfolding if_not_P [OF False] using a r by blast
qed

theorem abort_settles_witness:
  "\<exists>tx b. sample_run True execute_calls = Some (tx, b) \<and>
     (\<exists>receipt tx' b'. abort fake_backend ''stop'' 3 tx b = Some (Ok receipt, tx', b') \<and>
        fake_published b' = Map.empty \<and> fake_staged b' = Map.empty)"
proof (rule ends_inE [OF sample_executes])
  fix tx b
  assume run: "sample_run True execute_calls = Some (tx, b)" and "et_state tx = Executing"
  with abort_settles [OF fake_run.execution_environment_axioms sample_new_Ok sample_fake_fresh
    sample_run_reach [OF run], of "''stop''" 3] show ?thesis by auto
qed

text \<open>Abort is idempotent: after an abort returned a receipt, aborting again, whatever the reason and whatever happened to the backend meanwhile, returns that same receipt and leaves the transaction and the backend as they are.\<close>

theorem abort_idempotent:
  assumes "abort be reason n tx b = Some (Ok receipt, tx', b')"
  shows "abort be reason' n' tx' b'' = Some (Ok receipt, tx', b'')"
  using assms by (rule abort_again)

theorem abort_idempotent_witness:
  "\<exists>receipt tx b. abort fake_backend ''stop'' 3 sample_tx FakeExecutionBackend_new = Some (Ok receipt, tx, b) \<and>
     abort fake_backend ''again'' 4 tx busy_fake = Some (Ok receipt, tx, busy_fake)"
proof -
  have "case abort fake_backend ''stop'' 3 sample_tx FakeExecutionBackend_new of
      Some (Ok receipt, _) \<Rightarrow> True | _ \<Rightarrow> False"
    by code_simp
  then obtain receipt tx b where "abort fake_backend ''stop'' 3 sample_tx FakeExecutionBackend_new =
      Some (Ok receipt, tx, b)"
    by (auto split: option.splits result.splits prod.splits)
  with abort_idempotent [OF this, of "''again''" 4 busy_fake] show ?thesis by blast
qed

text \<open>Committed and Aborted are terminal: any further call leaves the backend untouched and the transaction as it is, except that a transport receipt may still be attached.\<close>

theorem terminal_states_absorb:
  assumes "terminal (et_state tx)" and "tx_call_step dbg be c tx b = Some (tx', b')"
  shows "b' = b \<and> (tx' = tx \<or> (\<exists>r. tx' = tx\<lparr>et_transport_receipt := Some r\<rparr>))"
  using assms by (rule terminal_absorbing)

theorem terminal_states_absorb_witness:
  "\<exists>tx b. sample_run True commit_calls = Some (tx, b) \<and>
     (\<forall>tx' b'. tx_call_step (\<lambda>s. s) fake_backend (CallAbort ''stop'' 1) tx b = Some (tx', b') \<longrightarrow> b' = b)"
proof (rule ends_inE [OF sample_commits])
  fix tx b
  assume run: "sample_run True commit_calls = Some (tx, b)" and "et_state tx = Committed"
  then have "terminal (et_state tx)" by (simp add: terminal_def)
  from terminal_states_absorb [OF this, of "\<lambda>s. s" fake_backend "CallAbort ''stop'' 1" b] run
  show ?thesis by blast
qed

text \<open>Only the accepted plan runs: handing execute_operation an operation that is not one of the snapshot, even one with the reference of a snapshot operation, is refused without touching the transaction or the backend.\<close>

theorem only_snapshot_operations:
  assumes "execution_environment be valid held staged published fresh env"
    and "ExecutionTransaction_new i plan ops bd = Ok tx0" and "fresh b0"
    and "tx_reach dbg be env tx0 b0 tx b" and "op \<notin> set ops"
  shows "\<exists>e. execute_operation be op tx b = Some (Some e, tx, b)"
proof (cases "et_state tx = Executing")
  case False
  then show ?thesis by (simp add: execute_operation_def)
next
  case True
  note s = execution_environment.reach_start_safe [OF assms(1-4)]
  have ops: "et_operations tx = ops" using s(2) new_fields(2) [OF assms(2)] by (simp add: same_plan_def)
  note keys = execution_environment.executing_keys [OF assms(1) s(1) True]
  show ?thesis
    by (rule execute_operation_cases [OF True keys, where op = op and be = be and b = b])
       (use assms(5) ops in auto)
qed

theorem only_snapshot_operations_witness:
  "\<exists>tx b e. sample_run True execute_calls = Some (tx, b) \<and>
     execute_operation fake_backend (Launch (LogicalPartitionId ''b'') (LaunchRef ''l'') 16) tx b = Some (Some e, tx, b)"
proof (rule ends_inE [OF sample_executes])
  fix tx b
  assume run: "sample_run True execute_calls = Some (tx, b)"
  have "Launch (LogicalPartitionId ''b'') (LaunchRef ''l'') 16 \<notin> set sample_operations"
    by (simp add: sample_operations_def)
  with only_snapshot_operations [OF fake_run.execution_environment_axioms sample_new_Ok
    sample_fake_fresh sample_run_reach [OF run]] run show ?thesis by blast
qed

text \<open>The ranking is the stable sort by a total key: objectives in declared order, minimised or maximised as each declares, ties broken by the stable device ids and then by input order; the ordinals never enter.\<close>

theorem policy_ranking_stable_sort:
  "rank_plans ps obs c =
     map (ranked_entry obs) (List.enumerate 0 (sort_key (rank_key obs) (map (score_plan obs c) ps)))"
  by (rule rank_plans_sorted)

text \<open>The memory gate checks assignments, not devices: a plan that binds one device twice is ranked although its declared requirements on that device exceed the declared budget of the device.\<close>

theorem policy_budget_is_per_assignment:
  "(case evaluate sample_request of None \<Rightarrow> False | Some out \<Rightarrow> ''twice'' \<in> set (map rp_plan (po_ranked out))) \<and>
   (case dc_per_device_budget (rq_constraints sample_request) of
      (d, limit) # _ \<Rightarrow>
        unat (limit_get limit) <
          sum_list (map (ledger_sum \<circ> da_required)
            (filter (\<lambda>a. da_device a = d) (cp_assignments (rq_plans sample_request ! 2))))
    | [] \<Rightarrow> False)"
proof -
  have "topo_discovery (dc_topology (rq_constraints sample_request)) = rq_discovery sample_request"
    by (simp add: sample_request_def sample_topology_def)
  then obtain out where out: "evaluate sample_request = Some out"
    using evaluate_None_iff [of sample_request] by (cases "evaluate sample_request") auto
  have "case gate_health_epoch_selection sample_request of
      Ok s \<Rightarrow> ''twice'' \<in> set (map rp_plan (rank_plans
        (filter (\<lambda>p. plan_violations sample_request s p = []) (rq_plans sample_request))
        (rq_objectives sample_request) (rq_constraints sample_request)))
    | Err v \<Rightarrow> False"
    by code_simp
  then have "''twice'' \<in> set (map rp_plan (po_ranked out))"
    using evaluate_lists [OF out] unfolding plan_violations_Nil_iff
    by (cases "gate_health_epoch_selection sample_request") (simp_all only: result.case prod.inject)
  moreover have "case dc_per_device_budget (rq_constraints sample_request) of
      (d, limit) # _ \<Rightarrow>
        unat (limit_get limit) <
          sum_list (map (ledger_sum \<circ> da_required)
            (filter (\<lambda>a. da_device a = d) (cp_assignments (rq_plans sample_request ! 2))))
    | [] \<Rightarrow> False"
    by code_simp
  ultimately show ?thesis unfolding out by (simp only: option.case)
qed

text \<open>Binding keeps the shape of the plan: the result is the implicit-local degenerate exactly when one partition is declared, and otherwise it carries the given bindings unchanged.\<close>

theorem bind_degenerate_iff:
  assumes "bind sha a bindings ds s g f tr = Some (Ok plan)"
  shows "(is_degenerate plan \<longleftrightarrow> is_single_partition a) \<and>
    (\<not> is_degenerate plan \<longrightarrow> plan_bindings plan = Some bindings)"
proof -
  obtain k where "plan_kind a bindings = Some k" "bdp_kind plan = k"
    using assms by (auto simp: bind_def Let_def split: if_splits option.splits)
  then show ?thesis
    by (cases k) (auto simp: is_degenerate_def plan_bindings_def plan_kind_def
        split: if_splits list.splits)
qed

theorem bind_degenerate_iff_witness:
  "\<exists>plan. bind sample_sha sample_admitted sample_bindings sample_set sample_snapshot
      (DeviceHealthGeneration 1) Virtual HostStagedTransport = Some (Ok plan) \<and>
     plan_bindings plan = Some sample_bindings"
proof -
  have "case bind sample_sha sample_admitted sample_bindings sample_set sample_snapshot
      (DeviceHealthGeneration 1) Virtual HostStagedTransport of Some (Ok plan) \<Rightarrow> True | _ \<Rightarrow> False"
    by code_simp
  then obtain plan where b: "bind sample_sha sample_admitted sample_bindings sample_set sample_snapshot
      (DeviceHealthGeneration 1) Virtual HostStagedTransport = Some (Ok plan)"
    by (auto split: option.splits result.splits)
  have "\<not> is_single_partition sample_admitted" by code_simp
  with bind_degenerate_iff [OF b] b show ?thesis by blast
qed

text \<open>The bytes hashed for a bound plan are an injective encoding of its binding facts: two plans have the same bytes exactly when they agree on the logical hash, the bindings with the ids of attached partitions, the device set, the snapshot id and the two receipt classes.\<close>

theorem plan_bytes_determine:
  assumes "plan_fits p" and "plan_fits q"
  shows "plan_canonical_bytes p = plan_canonical_bytes q \<longleftrightarrow>
    bdp_logical_hash p = bdp_logical_hash q \<and> kind_facts (bdp_kind p) = kind_facts (bdp_kind q) \<and>
    bdp_device_set p = bdp_device_set q \<and> bdp_snapshot_id p = bdp_snapshot_id q \<and>
    bdp_fixture p = bdp_fixture q \<and> bdp_transport p = bdp_transport q"
  using assms by (rule plan_bytes_inject)

theorem plan_bytes_determine_witness:
  "plan_canonical_bytes sample_bound_plan \<noteq> plan_canonical_bytes (sample_bound_plan\<lparr>bdp_fixture := Physical\<rparr>)"
proof -
  have "plan_fits sample_bound_plan" "plan_fits (sample_bound_plan\<lparr>bdp_fixture := Physical\<rparr>)"
    by code_simp+
  from plan_bytes_determine [OF this] show ?thesis
    by (simp add: sample_bound_plan_def)
qed

text \<open>The canonical bytes of a transaction operation determine it: two operations with the same bytes are the same operation, fields of every nested mirror and boundary included.\<close>

theorem operation_bytes_determine:
  assumes "op_strings_fit x" and "op_strings_fit y"
  shows "op_canonical_bytes x = op_canonical_bytes y \<longleftrightarrow> x = y"
  using assms by (rule op_prefix.inj)

theorem operation_bytes_determine_witness:
  "op_canonical_bytes (Transfer sample_transfer) \<noteq> op_canonical_bytes (Transfer (sample_transfer\<lparr>tm_byte_count := 9\<rparr>))"
proof -
  have "op_strings_fit (Transfer sample_transfer)" "op_strings_fit (Transfer (sample_transfer\<lparr>tm_byte_count := 9\<rparr>))"
    by code_simp+
  from operation_bytes_determine [OF this] show ?thesis
    by (simp add: sample_transfer_def)
qed

text \<open>Logical admission is exact: a plan is admitted exactly when its hash is spelled sha256 with 64 lower-case hex digits, it declares a partition and every constraint names declared partitions; what is admitted is what was declared.\<close>

theorem logical_admission_exact:
  "AdmittedLogicalPlan_admit h ps cs = Ok a \<longleftrightarrow>
     is_sha256_hex h \<and> ps \<noteq> [] \<and> (\<forall>c\<in>set cs. constraint_partitions c \<subseteq> set ps) \<and>
     a = \<lparr>alp_hash = h, alp_partitions = bset_of_list ps, alp_constraints = cs,
          alp_demand = LaunchResourceDemand_default\<rparr>"
  by (rule admit_plan_Ok_iff)

theorem logical_admission_exact_witness:
  "AdmittedLogicalPlan_admit sample_hash [LogicalPartitionId ''b'', LogicalPartitionId ''a''] [DistinctPhysicalDevices] =
     Ok sample_admitted"
proof -
  have "is_sha256_hex sample_hash" by code_simp
  moreover have "sample_admitted = \<lparr>alp_hash = sample_hash,
      alp_partitions = bset_of_list [LogicalPartitionId ''b'', LogicalPartitionId ''a''],
      alp_constraints = [DistinctPhysicalDevices], alp_demand = LaunchResourceDemand_default\<rparr>"
    by code_simp
  ultimately show ?thesis
    using logical_admission_exact [of sample_hash "[LogicalPartitionId ''b'', LogicalPartitionId ''a'']"
      "[DistinctPhysicalDevices]" sample_admitted] by (simp add: constraint_partitions_def)
qed

text \<open>Partition admission is exact even at the edge of u64: a ledger is admitted, frozen and active exactly when the true sum of its seven classes is at most the limit, and otherwise the error reports the total, or that it overflowed, and the limit.\<close>

theorem partition_admission_exact:
  "(admit r lim = Ok p \<longleftrightarrow> ledger_sum (req_declared r) \<le> unat (limit_get lim) \<and>
      p = \<lparr>vp_id = req_partition_id r, vp_bound_device = req_bound_device r,
           vp_ledger = req_declared r, vp_safe_limit = lim, vp_state = Active\<rparr>) \<and>
   (admit r lim = Err e \<longleftrightarrow> unat (limit_get lim) < ledger_sum (req_declared r) \<and>
      e = BudgetExceeded (total_bytes (req_declared r)) (limit_get lim))"
  by (simp add: admit_Ok_iff admit_Err_iff)

text \<open>The first failure wins and teardown is final: whatever is reported to an active partition, in any order, its identity and admitted ledger never change and its state is torn down, or the first failure reported, or still active.\<close>

theorem partition_lifecycle:
  assumes "vp_state p = Active"
  shows "vp_state (partition_run evs p) = (if EvTeardown \<in> set evs then TornDown else first_failure evs) \<and>
    vp_id (partition_run evs p) = vp_id p \<and> vp_bound_device (partition_run evs p) = vp_bound_device p \<and>
    vp_ledger (partition_run evs p) = vp_ledger p \<and> vp_safe_limit (partition_run evs p) = vp_safe_limit p"
  using assms by (simp add: partition_run_active partition_run_frame)

theorem partition_lifecycle_witness:
  "vp_state (partition_run [EvFailure (AllocationFailure ''m''), EvFailure (DeviceLossFailure ''d'')]
      (sample_partition 1 ''x'')) = PartitionFailed (AllocationFailure ''m'')"
  using partition_lifecycle [of "sample_partition 1 ''x''"
    "[EvFailure (AllocationFailure ''m''), EvFailure (DeviceLossFailure ''d'')]"]
  by (simp add: sample_partition_def)

text \<open>The in-memory backend keeps the contract the transaction is verified against: its reservations, staged writes and published writes obey every law of the trait, from any fresh instance and under any completion of events.\<close>

theorem fake_backend_contract:
  "execution_environment fake_backend fake_ok fake_held fake_staged fake_published fake_fresh fake_env"
  by (rule fake_run.execution_environment_axioms)

text \<open>The declared write-set is what the operations stage: the entry of a reference is the last write of the plan to it, so with distinct references every staged write is declared and every declared write is staged.\<close>

theorem declared_write_set_exact:
  "bmap_get (derive_declared_write_set ops) k = map_of (rev (keyed_writes (plan_writes ops))) k \<and>
   (distinct (map sw_output_ref (plan_writes ops)) \<longrightarrow>
      (bmap_get (derive_declared_write_set ops) k = Some w \<longleftrightarrow>
        w \<in> set (plan_writes ops) \<and> sw_output_ref w = k))"
proof -
  have get: "bmap_get (derive_declared_write_set ops) k = map_of (rev (keyed_writes (plan_writes ops))) k"
    by (simp add: declared_write_set_of_list map_of_bmap_of_list)
  moreover have "map_of (rev (keyed_writes (plan_writes ops))) k = Some w \<longleftrightarrow>
      w \<in> set (plan_writes ops) \<and> sw_output_ref w = k"
    if "distinct (map sw_output_ref (plan_writes ops))"
  proof -
    have "distinct (map fst (rev (keyed_writes (plan_writes ops))))"
      using that by (simp add: rev_map [symmetric])
    then show ?thesis by (auto simp: keyed_writes_def)
  qed
  ultimately show ?thesis by simp
qed

theorem declared_write_set_exact_witness:
  "bmap_get (derive_declared_write_set sample_operations) (OutputRef ''launch:l:output'') =
     Some \<lparr>sw_partition = LogicalPartitionId ''a'', sw_output_ref = OutputRef ''launch:l:output'', sw_byte_count = 16\<rparr>"
proof -
  have "distinct (map sw_output_ref (plan_writes sample_operations))" by code_simp
  moreover have "\<lparr>sw_partition = LogicalPartitionId ''a'', sw_output_ref = OutputRef ''launch:l:output'', sw_byte_count = 16\<rparr>
      \<in> set (plan_writes sample_operations)"
    by (simp add: plan_writes_def sample_operations_def)
  ultimately show ?thesis
    using declared_write_set_exact [of sample_operations "OutputRef ''launch:l:output''"
      "\<lparr>sw_partition = LogicalPartitionId ''a'', sw_output_ref = OutputRef ''launch:l:output'', sw_byte_count = 16\<rparr>"]
    by (metis StagedWrite.select_convs(2))
qed

text \<open>The budget check can be passed by overflow: a plan with two launches of half the word range on one partition is prepared, although its true class 3 demand is far above the admitted bytes.\<close>

theorem wrapped_demand_is_admitted:
  "(case prepare fake_backend 1 wrap_tx FakeExecutionBackend_new of Some (None, tx, b) \<Rightarrow> et_state tx = Prepared | _ \<Rightarrow> False) \<and>
   unat (activation_scratch_bytes sample_ledger) < class_three_demand wrap_operations (LogicalPartitionId ''a'')"
  by code_simp

text \<open>A prepare refused half-way leaves what it reserved: with partition b already taken, the reservation of a is held although prepare returned an error, and a following abort, which finds no recorded reservation, does not release it either.\<close>

theorem failed_prepare_keeps_reservation:
  "case prepare fake_backend 1 sample_tx busy_fake of
     Some (Some (PrepareBackend e), tx, b) \<Rightarrow>
       LogicalPartitionId ''a'' \<in> set (bmap_keys (fb_reservations b)) \<and>
       (case abort fake_backend ''stop'' 2 tx b of
          Some (Ok receipt, _, b') \<Rightarrow> LogicalPartitionId ''a'' \<in> set (bmap_keys (fb_reservations b'))
        | _ \<Rightarrow> False)
   | _ \<Rightarrow> False"
  by code_simp

text \<open>Execution of a single operation is not once only: after the whole plan has run, handing the barrier of the plan to execute_operation again succeeds, dispatches it again and appends a second executed record.\<close>

theorem executed_barrier_runs_again:
  "case sample_run True execute_calls of
     None \<Rightarrow> False
   | Some (tx, b) \<Rightarrow>
       (case execute_operation fake_backend (sample_operations ! 2) tx b of
          Some (None, tx', b') \<Rightarrow>
            length (et_executed_operations tx) = 3 \<and> length (et_executed_operations tx') = 4 \<and>
            length (fb_executed_operations b') = 4
        | _ \<Rightarrow> False)"
  by code_simp

text \<open>Output references are not unique across broadcasts: the reference joins the collective and the participant with a colon, so two different broadcasts of one plan can stage different writes under one output reference.\<close>

theorem broadcast_references_collide:
  "let c = (\<lambda>r p. CollectiveBroadcast \<lparr>cm_id = CollectiveRef r, cm_source = LogicalPartitionId ''s'',
              cm_participants = [LogicalPartitionId p, LogicalPartitionId ''s''], cm_byte_count = 1\<rparr>)
   in operation_ref (c ''x:y'' ''a'') \<noteq> operation_ref (c ''x'' ''y:a'') \<and>
      map sw_output_ref (op_staged_writes (c ''x:y'' ''a'')) = map sw_output_ref (op_staged_writes (c ''x'' ''y:a'')) \<and>
      op_staged_writes (c ''x:y'' ''a'') \<noteq> op_staged_writes (c ''x'' ''y:a'')"
  by code_simp

text \<open>A discovery sample is content-addressed: two samples with the same id are the same sample, facts, timestamp and probe state included, or their canonical bytes are an explicit SHA-256 collision.\<close>

theorem snapshot_id_determines:
  assumes "DeviceDiscoverySnapshot_new t ds p = Some s" and "DeviceDiscoverySnapshot_new t' ds' p' = Some s'"
    and "snapshot_fits s" and "snapshot_fits s'" and "ds_id s = ds_id s'"
  shows "s = s' \<or>
    (snapshot_canonical_bytes s \<noteq> snapshot_canonical_bytes s' \<and>
     Sha256_digest (snapshot_canonical_bytes s) = Sha256_digest (snapshot_canonical_bytes s'))"
proof (cases "snapshot_canonical_bytes s = snapshot_canonical_bytes s'")
  case True
  then have "ds_probe_utc_nanos s = ds_probe_utc_nanos s' \<and> ds_devices s = ds_devices s' \<and> ds_p2p s = ds_p2p s'"
    using snapshot_bytes_inject [OF assms(3,4)] by blast
  with assms(5) show ?thesis by (simp add: DeviceDiscoverySnapshot.equality)
next
  case False
  have "ds_id s = snapshot_id_from_canonical_bytes (snapshot_canonical_bytes s)"
    "ds_id s' = snapshot_id_from_canonical_bytes (snapshot_canonical_bytes s')"
    using assms(1,2) by (simp_all add: snapshot_new_Some_iff)
  with False assms(5) show ?thesis by (simp add: snapshot_id_from_canonical_bytes_def)
qed

theorem snapshot_id_determines_witness:
  "\<exists>s s'. DeviceDiscoverySnapshot_new 5 [(DeviceOrdinal 0, sample_entry 0 ''x'')] P2pNotAttempted = Some s \<and>
     snapshot_from_enumerated 5 [sample_entry 0 ''x''] = Some s' \<and>
     (s = s' \<or> (snapshot_canonical_bytes s \<noteq> snapshot_canonical_bytes s' \<and>
       Sha256_digest (snapshot_canonical_bytes s) = Sha256_digest (snapshot_canonical_bytes s')))"
proof -
  let ?ds = "[(DeviceOrdinal 0, sample_entry 0 ''x'')]"
  have k: "list_all (\<lambda>(key, e). key = de_ordinal e) ?ds" by code_simp
  then obtain s where s: "DeviceDiscoverySnapshot_new 5 ?ds P2pNotAttempted = Some s"
    by (simp add: DeviceDiscoverySnapshot_new_def Let_def)
  have f: "snapshot_from_enumerated 5 [sample_entry 0 ''x''] = Some s"
    using s by (simp add: snapshot_from_enumerated_def bmap_of_list_def sample_entry_def)
  have "\<forall>p\<in>set ?ds. keyed_entry_ok p" "fits_usize ?ds" by code_simp+
  moreover have "ds_devices s = ?ds" using s by (simp add: snapshot_new_Some_iff)
  ultimately have fits: "snapshot_fits s" by (simp add: snapshot_fits_def)
  from snapshot_id_determines [OF s s fits fits refl] s f show ?thesis by blast
qed

text \<open>Enumerating devices is total: the sample built from any list of entries exists, holds under each ordinal the last entry given for it, and never claims a peer probe.\<close>

theorem from_enumerated_last_wins:
  "\<exists>s. snapshot_from_enumerated t es = Some s \<and> ds_p2p s = P2pNotAttempted \<and> bmap_ok (ds_devices s) \<and>
     snapshot_entry s k = List.find (\<lambda>e. de_ordinal e = k) (rev es)"
  by (rule from_enumerated_total [of t es]) blast

text \<open>Constraint selection is exact: it succeeds precisely when the number of matching devices lies within the bounds, and the set it returns holds every recorded device of the current epoch that matches and nothing else.\<close>

theorem resolve_constraints_exact:
  "resolve (Constraints c) d g = Ok s \<longleftrightarrow>
     bset_ok (set_members s) \<and>
     set (set_members s) = de_identity ` {e \<in> set (bmap_values (ds_devices d)). constraint_matches c g e} \<and>
     con_min_count c \<le> DeviceSet_len s \<and>
     (\<forall>mx. con_max_count c = Some mx \<longrightarrow> DeviceSet_len s \<le> mx)"
  by (rule resolve_Constraints_Ok_iff)

theorem resolve_constraints_exact_witness:
  "DeviceSet_len sample_set \<le> 2"
proof -
  have "resolve (Constraints \<lparr>con_backend = Some Metal, con_exclude = [], con_min_count = 1, con_max_count = Some 2\<rparr>)
      sample_snapshot (DeviceHealthGeneration 1) = Ok sample_set"
    by code_simp
  from resolve_constraints_exact [THEN iffD1, OF this] show ?thesis by simp
qed

text \<open>Resolution only yields current members: whatever the selection, a resolved set validates against the same snapshot and health epoch, provided no device identity is recorded under two ordinals.\<close>

theorem resolved_set_validates:
  assumes "distinct (map de_identity (bmap_values (ds_devices d)))" and "resolve sel d g = Ok s"
  shows "DeviceSet_validate s d g = None"
  using assms by (rule resolve_valid)

theorem resolved_set_validates_witness:
  "DeviceSet_validate sample_set sample_snapshot (DeviceHealthGeneration 1) = None"
proof -
  have "distinct (map de_identity (bmap_values (ds_devices sample_snapshot)))"
    "resolve (Constraints \<lparr>con_backend = None, con_exclude = [], con_min_count = 1, con_max_count = None\<rparr>)
      sample_snapshot (DeviceHealthGeneration 1) = Ok sample_set"
    by code_simp+
  then show ?thesis by (rule resolved_set_validates)
qed

text \<open>The topology gate assumes nothing: on a topology the constructor accepted, a transfer may traverse a directed pair exactly when it stays on one device or that very direction is recorded as admitted.\<close>

theorem traversal_gate_exact:
  assumes "DeviceTopologySnapshot_new d ls = Some t"
  shows "traversal_allowed t i j = None \<longleftrightarrow>
    i = j \<or> (\<exists>l c lf. topology_link t i j = Some l \<and> link_state l = Admitted c lf)"
  by (rule traversal_allowed_None_iff [OF topology_new_ok [OF assms]])

theorem traversal_gate_exact_witness:
  "traversal_allowed sample_topology (sample_device ''y'') (sample_device ''x'') \<noteq> None"
proof -
  have new: "DeviceTopologySnapshot_new sample_snapshot [sample_link] = Some sample_topology" by code_simp
  have "topology_link sample_topology (sample_device ''y'') (sample_device ''x'') = None"
    "sample_device ''y'' \<noteq> sample_device ''x''"
    by code_simp+
  with traversal_gate_exact [OF new] show ?thesis by simp
qed

text \<open>Validation before copy is exact: a transfer passes precisely when its dtype, layout, generation, owner and destination are those of the source and the landing partition and the end of its range, computed in u64, is at most the source length.\<close>

theorem validation_exact:
  "validate_before_copy spec src dst = None \<longleftrightarrow>
     ts_dtype spec = sv_dtype src \<and> ts_layout spec = sv_layout src \<and>
     br_offset (ts_range spec) + br_length (ts_range spec) \<le> of_nat (length (sv_bytes src)) \<and>
     ts_generation spec = sv_generation src \<and>
     ts_source_owner spec = sv_owner src \<and> ts_destination spec = dst"
  by (simp add: validate_None_iff range_end_def sv_total_bytes_def)

text \<open>Host-staged copies land what was validated: in any sequence of copies, failed ones included, every outcome that succeeds passed validation and carries exactly the bytes of the declared range, and the adapter records exactly those transfers in order.\<close>

theorem copies_land_validated_bytes:
  assumes "run_copies host_staged_copy reqs a = Some (rs, a')"
  shows "list_all2 lands reqs rs \<and>
    ha_records a' = ha_records a @ concat (map (\<lambda>r. case r of Ok out \<Rightarrow> [to_record out] | Err e \<Rightarrow> []) rs)"
  using assms by (rule host_adapter.run_copies_result)

theorem copies_land_validated_bytes_witness:
  "\<exists>rs a. run_copies host_staged_copy
       [(sample_spec 2 3, sample_source, LogicalPartitionId ''b'', 10),
        (sample_spec 2 9, sample_source, LogicalPartitionId ''b'', 10)] sample_adapter = Some (rs, a) \<and>
     length (ha_records a) = 1"
proof -
  let ?reqs = "[(sample_spec 2 3, sample_source, LogicalPartitionId ''b'', 10::nat),
        (sample_spec 2 9, sample_source, LogicalPartitionId ''b'', 10)]"
  have "case run_copies host_staged_copy ?reqs sample_adapter of
      Some ([Ok _, Err _], _) \<Rightarrow> True | _ \<Rightarrow> False"
    by code_simp
  then obtain x e a where r: "run_copies host_staged_copy ?reqs sample_adapter = Some ([Ok x, Err e], a)"
    by (rule ok_then_errE)
  from copies_land_validated_bytes [OF r] r show ?thesis
    by (simp add: sample_adapter_def HostStagedAdapter_new_def)
qed

text \<open>The transfer budget is kept: after any sequence of copies from a new adapter the accounted bytes and time never exceed the declared budget, they are the sums over the recorded transfers, saturated at u64, and no staging buffer stays allocated.\<close>

theorem budget_never_exceeded:
  assumes "run_copies host_staged_copy reqs (HostStagedAdapter_new budget) = Some (rs, a)"
  shows "sp_active (ha_staging_pool a) = [] \<and>
    ha_used_bytes a \<le> tb_bytes (ha_declared_budget a) \<and>
    ha_used_time_nanos a \<le> tb_time_nanos (ha_declared_budget a) \<and>
    unat (ha_used_bytes a) = min (sum_list (map (unat \<circ> st_bytes) (ha_records a))) (2 ^ 64 - 1) \<and>
    unat (ha_used_time_nanos a) = min (sum_list (map (unat \<circ> st_expected_nanos) (ha_records a))) (2 ^ 64 - 1)"
  using host_adapter.run_copies_inv [OF host_adapter_new_ok assms]
  by (simp add: host_adapter_ok_def)

theorem budget_never_exceeded_witness:
  "\<exists>rs a. run_copies host_staged_copy [(sample_spec 2 3, sample_source, LogicalPartitionId ''b'', 10)]
       (HostStagedAdapter_new \<lparr>tb_bytes = 2, tb_time_nanos = u64_MAX\<rparr>) = Some (rs, a) \<and>
     ha_used_bytes a \<le> tb_bytes (ha_declared_budget a)"
proof -
  have "run_copies host_staged_copy [(sample_spec 2 3, sample_source, LogicalPartitionId ''b'', 10::nat)]
      (HostStagedAdapter_new \<lparr>tb_bytes = 2, tb_time_nanos = u64_MAX\<rparr>) \<noteq> None"
    by code_simp
  then obtain rs a where "run_copies host_staged_copy [(sample_spec 2 3, sample_source, LogicalPartitionId ''b'', 10::nat)]
      (HostStagedAdapter_new \<lparr>tb_bytes = 2, tb_time_nanos = u64_MAX\<rparr>) = Some (rs, a)"
    by auto
  with budget_never_exceeded [OF this] show ?thesis by blast
qed

text \<open>The one panic of a copy is the overflowing range: a copy that passes validation and the budget, with no injected failure, panics exactly when the offset and length of its range add up past u64, and no other copy panics.\<close>

theorem copy_panics_exactly_on_wrap:
  assumes "source_fits src"
  shows "host_staged_copy spec src dst work a = None \<longleftrightarrow>
     validate_before_copy spec src dst = None \<and>
     saturating_add (ha_used_bytes a) (br_length (ts_range spec)) \<le> tb_bytes (ha_declared_budget a) \<and>
     saturating_add (ha_used_time_nanos a)
       (expected_copy_time_nanos (br_length (ts_range spec)) (ts_direction spec) (ha_rates a))
       \<le> tb_time_nanos (ha_declared_budget a) \<and>
     ha_simulated_failure a = None \<and>
     2 ^ 64 \<le> unat (br_offset (ts_range spec)) + unat (br_length (ts_range spec))"
  using assms by (rule host_copy_panics_iff)

theorem copy_panics_exactly_on_wrap_witness:
  "host_staged_copy (sample_spec 18446744073709551615 2) sample_source (LogicalPartitionId ''b'') 10 sample_adapter = None"
proof -
  have "source_fits sample_source" by code_simp
  moreover have "validate_before_copy (sample_spec 18446744073709551615 2) sample_source (LogicalPartitionId ''b'') = None"
    "saturating_add (ha_used_bytes sample_adapter) (br_length (ts_range (sample_spec 18446744073709551615 2)))
       \<le> tb_bytes (ha_declared_budget sample_adapter)"
    "saturating_add (ha_used_time_nanos sample_adapter)
       (expected_copy_time_nanos (br_length (ts_range (sample_spec 18446744073709551615 2)))
         (ts_direction (sample_spec 18446744073709551615 2)) (ha_rates sample_adapter))
       \<le> tb_time_nanos (ha_declared_budget sample_adapter)"
    "ha_simulated_failure sample_adapter = None"
    "2 ^ 64 \<le> unat (br_offset (ts_range (sample_spec 18446744073709551615 2))) +
       unat (br_length (ts_range (sample_spec 18446744073709551615 2)))"
    by code_simp+
  ultimately show ?thesis using copy_panics_exactly_on_wrap by blast
qed

text \<open>The health epoch only moves forward: n advances raise it by n up to the largest u64, and an advance makes the epoch before it stale exactly while that maximum has not been reached.\<close>

theorem health_epoch_monotone:
  "unat (generation_get ((DeviceHealthGeneration_advance ^^ n) g)) = min (unat (generation_get g) + n) (2 ^ 64 - 1) \<and>
   (generation_is_stale (DeviceHealthGeneration_advance g) g \<longleftrightarrow> generation_get g \<noteq> u64_MAX)"
  using generation_after_advances [of n g] advance_stale_iff [of g] by blast

text \<open>The two hashers of the repository agree: the program graph hash, computed by the one-shot SHA-256 written in the descriptor file, is the text sha256: followed by the hexadecimal digest that the streaming hasher of the discovery snapshot computes on the same bytes.\<close>

theorem graph_hash_is_streaming_digest:
  "program_graph_hash d = ''sha256:'' @ concat (map hex_byte (Sha256_digest (program_graph_bytes d)))"
  by (rule program_graph_hash_digest)

text \<open>The combined identity of a program and its KV plan is exact: the concatenated bytes agree for two valid pairs exactly when the programs are the same and the plans have the same allocations, the same views up to order and the same bindings; the per-invocation state is not part of the identity.\<close>

theorem graph_and_kv_identity:
  assumes "valid_descriptor d" "valid_descriptor e" "graph_fits d" "graph_fits e"
    and "kv_valid kv" "kv_valid kw" "kv_fits kv" "kv_fits kw" "views_keyed kv"
  shows "program_graph_bytes d @ static_graph_bytes kv = program_graph_bytes e @ static_graph_bytes kw \<longleftrightarrow>
    same_program d e \<and> same_storage kv kw"
  using assms by (rule graph_and_kv_bytes_eq_iff)

theorem graph_and_kv_identity_witness:
  "program_graph_bytes sample_descriptor @ static_graph_bytes kv_a =
     program_graph_bytes shuffled_descriptor @ static_graph_bytes kv_b \<and> kv_state kv_a \<noteq> kv_state kv_b"
proof -
  have "same_program sample_descriptor shuffled_descriptor \<and> same_storage kv_a kv_b"
    by (simp only: sample_same_program sample_kv_fit simp_thms)
  moreover have "kv_state kv_a \<noteq> kv_state kv_b" by (simp add: kv_a_def kv_b_def sample_kv_def)
  ultimately show ?thesis
    using graph_and_kv_identity [OF sample_descriptors_valid sample_descriptors_fit sample_kv_valid sample_kv_fit(1-3)]
    by blast
qed

text \<open>The manifest a kernel reports lists every registered provider exactly once, sorted by provider id, although the kernel stores a provider once per prefix.\<close>

theorem kernel_manifest_lists_providers:
  assumes "kernel_built k ps"
  shows "km_providers (kernel_manifest k) = sort_key pm_provider (map manifest_of ps) \<and>
    distinct (map pm_provider (km_providers (kernel_manifest k)))"
  using kernel_manifest_eq [OF built_represents [OF assms]] rep_registry [OF built_represents [OF assms]]
  by (simp add: registry_ok_def comp_def distinct_map_sort_key)

theorem kernel_manifest_lists_providers_witness:
  "km_providers (kernel_manifest sample_kernel) = [sample_manifest ''clock'' ''tempus'']"
  using kernel_manifest_lists_providers [OF sample_kernel_built]
  by (simp add: clock_provider_def sample_provider_def)

text \<open>Every job ends its response stream: the frames a worker sends for a job carry no terminal frame before the last one, and on a channel that accepts them the last frame is terminal (done, cancel or error), whatever the provider replies and whenever the token is cancelled.\<close>

theorem job_frames_end_once:
  "(\<forall>f\<in>set (butlast (run_job k job first probe cancels accepted)). \<not> frame_terminal f) \<and>
   ((\<forall>n. accepted n) \<longrightarrow> ends_once (run_job k job first probe cancels accepted))"
  using run_job_ends(1) [of k job first probe cancels accepted] run_job_ends(2) [of accepted k job first probe cancels]
  by blast

theorem job_frames_end_once_witness:
  "ends_once (run_job sample_kernel sample_job False (\<lambda>_. Some False) (\<lambda>_. False) (\<lambda>_. True))"
  using job_frames_end_once [of sample_kernel sample_job False "\<lambda>_. Some False" "\<lambda>_. False" "\<lambda>_. True"] by simp

text \<open>What is copied to a CUDA buffer is read back: after a successful copy of f32 values into a handle, the readback of that handle succeeds with exactly these values when no readback failure is injected, and any successful readback returns these values.\<close>

theorem cuda_copy_roundtrip:
  assumes "fake_cuda_configured d" "cuda_with_driver (fake_cuda fl) d = Ok s0"
    "cuda_reach (fake_cuda fl) fake_cuda_room s0 s"
    and "cuda_copy_in_f32 (fake_cuda fl) i vals s = (Ok (), s1)"
  shows "(bmap_get (fc_fail_at (cs_driver s1)) StageReadback = None \<longrightarrow> fst (cuda_readback_f32 (fake_cuda fl) i s1) = Ok vals) \<and>
    (\<forall>out s2. cuda_readback_f32 (fake_cuda fl) i s1 = (Ok out, s2) \<longrightarrow> out = vals)"
proof (intro conjI allI impI)
  note inv = fake_session.session_reach_inv [OF assms(3) fake_cuda_open_inv [OF assms(1,2)]]
  show "fst (cuda_readback_f32 (fake_cuda fl) i s1) = Ok vals" if "bmap_get (fc_fail_at (cs_driver s1)) StageReadback = None"
    by (rule fake_cuda_readback_f32 [OF inv assms(4) that])
  fix out s2
  assume "cuda_readback_f32 (fake_cuda fl) i s1 = (Ok out, s2)"
  then obtain bytes s3 where "cuda_readback_bytes (fake_cuda fl) i DtF32 s1 = (Ok bytes, s3)" "out = f32_of_chunks bytes"
    by (auto simp: cuda_readback_f32_def flow slift_def)
  with fake_session.bytes_roundtrip [OF inv assms(4) [unfolded cuda_copy_in_f32_def]] show "out = vals"
    by (simp add: f32_of_chunks_concat)
qed

theorem cuda_copy_roundtrip_witness:
  "fst (cuda_readback_f32 (fake_cuda sample_float) 1
     (snd (cuda_copy_in_f32 (fake_cuda sample_float) 1 [5, 6] cuda_session1))) = Ok [5, 6]"
proof -
  obtain r s1 where run: "cuda_copy_in_f32 (fake_cuda sample_float) 1 [5, 6] cuda_session1 = (r, s1)" by (metis surj_pair)
  have "r = Ok ()" "bmap_get (fc_fail_at (cs_driver s1)) StageReadback = None"
    using run by (auto simp: cuda_session1_def run_cuda run_cuda_copy)
  with run cuda_copy_roundtrip [OF fake_cuda_configured_built(1) cuda_session0_open cuda_session1_reached, of 1 "[5, 6]" s1] show ?thesis by simp
qed

text \<open>The module cache is exact: loading an image that was loaded through the cache returns the same handle and leaves the session as it is, although the lookup goes by a 64-bit hash; teardown releases every cached module, forgets it, and done again it succeeds and changes nothing.\<close>

theorem cuda_module_cache_exact:
  assumes "fake_cuda_configured d" "cuda_with_driver (fake_cuda fl) d = Ok s0"
    "cuda_reach (fake_cuda fl) fake_cuda_room s0 s"
    and "cuda_room fake_cuda_room s" "cuda_load_cached_module (fake_cuda fl) img s = (Ok i, s1)"
    and "t = snd (cuda_teardown (fake_cuda fl) s1)"
  shows "cuda_load_cached_module (fake_cuda fl) img s1 = (Ok i, s1) \<and> registry_get i (cs_handles t) = None \<and>
    cached_module img t = None \<and> cuda_teardown (fake_cuda fl) t = (Ok (), t)"
proof (intro conjI)
  note inv = fake_session.session_reach_inv [OF assms(3) fake_cuda_open_inv [OF assms(1,2)]]
  note loaded = fake_session.inv_load_cached [OF inv assms(4,5)]
  have hit: "cached_module img s1 = Some \<lparr>cm_image = img, cm_handle = i\<rparr>" by (rule loaded(2)) simp
  have adm: "cs_admitted s1" "img \<noteq> []"
    using assms(5) by (auto dest: cached_load_admitted)
  then show "cuda_load_cached_module (fake_cuda fl) img s1 = (Ok i, s1)"
    using hit by (simp add: cuda_load_cached_module_def sthen_get sthen_lift cuda_require_admitted_def ensure_def)
  have cache: "cache_ok s1" using loaded(1) by (simp add: cuda_inv_def)
  show "registry_get i (cs_handles t) = None"
    using teardown_gone [OF hit cache, of "fake_cuda fl"] by (simp add: assms(6))
  note down = fake_session.inv_teardown [OF loaded(1) prod.collapse [symmetric]]
  have "cache_ok t" "cache_entries t = []" using down by (simp_all add: assms(6) cuda_inv_def)
  then show "cached_module img t = None" "cuda_teardown (fake_cuda fl) t = (Ok (), t)"
    by (auto simp: fake_session.teardown_again intro: cached_none)
qed

theorem cuda_module_cache_exact_witness:
  "cuda_load_cached_module (fake_cuda sample_float) [7] cuda_session1 = (Ok 2, cuda_session1)"
proof -
  have room: "cuda_room fake_cuda_room cuda_session1" by (simp add: run_cuda cuda_session1_def)
  have "cuda_load_cached_module (fake_cuda sample_float) [7] cuda_session1 = (Ok 2, cuda_session1)"
    by (simp add: run_cuda cuda_session1_def)
  from cuda_module_cache_exact [OF fake_cuda_configured_built(1) cuda_session0_open cuda_session1_reached room this refl] show ?thesis by (rule conjunct1)
qed

text \<open>No Metal object leaks: after any sequence of public calls on a session over the fake driver, with mapped files, wrapped slices and injected failures, the live handles plus the counted releases are the counted loads plus allocations, and the driver has waited exactly once for every submitted batch.\<close>

theorem metal_handles_accounted:
  assumes "fake_metal_configured d" "metal_with_driver (fake_metal fl) d = Ok s0"
    "metal_reach (fake_metal fl) fake_metal_room s0 s"
    "c = metal_driver_counters (fake_metal fl) s"
  shows "metal_live_handle_count s + (dc_module_releases c + dc_buffer_releases c) = dc_module_loads c + dc_buffer_allocs c \<and>
    md_blocking_wait_count (fake_metal fl) (ms_driver s) = md_command_submit_count (fake_metal fl) (ms_driver s)"
proof (rule conjI)
  note inv = fake_metal_session.session_reach_inv [OF assms(3) fake_metal_open_inv [OF assms(1,2)]]
  then have ok: "fake_metal_ok (ms_driver s)" by (simp add: metal_inv_def in_step_def)
  from fake_metal_counts [OF this] fake_metal_session.live_handles [OF inv]
  show "metal_live_handle_count s + (dc_module_releases c + dc_buffer_releases c) = dc_module_loads c + dc_buffer_allocs c"
    by (simp add: assms(4) metal_driver_counters_def fake_metal_def fm_counters_def)
  show "md_blocking_wait_count (fake_metal fl) (ms_driver s) = md_command_submit_count (fake_metal fl) (ms_driver s)"
    using ok by (simp add: fake_metal_def fake_metal_ok_def)
qed

theorem metal_handles_accounted_witness:
  "metal_live_handle_count metal_session1 = 2 \<and>
   (let c = metal_driver_counters (fake_metal sample_float) metal_session1
    in dc_module_loads c + dc_buffer_allocs c - (dc_module_releases c + dc_buffer_releases c) = 2)"
proof -
  have "metal_live_handle_count metal_session1 = 2"
    by (simp add: run_metal metal_session1_def metal_live_handle_count_def registry_len_def)
  with metal_handles_accounted [OF fake_metal_configured_built(1) metal_session0_open metal_session1_reached refl] show ?thesis
    by (auto simp: Let_def)
qed

text \<open>A released Metal handle stays dead: whatever calls follow, it resolves neither as a module nor as a buffer, and releasing it again is refused and changes nothing.\<close>

theorem metal_release_is_final:
  assumes "fake_metal_configured d" "metal_with_driver (fake_metal fl) d = Ok s0"
    "metal_reach (fake_metal fl) fake_metal_room s0 s"
    and "registry_get i (ms_handles s) \<noteq> None" "metal_release (fake_metal fl) i s = (r, s1)"
    and "metal_reach (fake_metal fl) fake_metal_room s1 s2"
  shows "metal_module_token i s2 = Err (metal_invalid_handle i) \<and> metal_buffer_token i s2 = Err (metal_invalid_handle i) \<and>
    metal_release (fake_metal fl) i s2 = (Err (metal_invalid_handle i), s2)"
proof -
  note inv = fake_metal_session.session_reach_inv [OF assms(3) fake_metal_open_inv [OF assms(1,2)]]
  have "metal_inv fake_metal_ok fake_metal_mods fake_metal_mem s1"
    using fake_metal_session.inv_release [OF inv, of fl i] assms(5) by simp
  then have "bmap_ok (hr_handles (ms_handles s1))" by (rule metal_inv_bmap)
  with metal_reach_dead [OF assms(6)] metal_release_dead [OF inv assms(5,4)] have "dead_id i (ms_handles s2)" by blast
  then show "metal_module_token i s2 = Err (metal_invalid_handle i) \<and> metal_buffer_token i s2 = Err (metal_invalid_handle i) \<and>
    metal_release (fake_metal fl) i s2 = (Err (metal_invalid_handle i), s2)"
    by (simp add: metal_dead_tokens)
qed

text \<open>The order of a bound launch is exact: the bindings reach the encoder if and only if their declared indices are a permutation of 0 to n-1, and then they are passed in the order of the indices, none lost and none repeated.\<close>

theorem metal_bindings_exact:
  "ordered_launch_bindings bs = Ok ys \<longleftrightarrow>
     map (\<lambda>b. unat (mb_binding_index b)) ys = [0..<length bs] \<and> set ys = set bs"
  by (rule ordered_bindings_Ok_iff)

text \<open>The composed offset of a binding is exact: it is accepted if and only if the mathematical sum of the page remainder, the offset and the span is within the buffer, and it is the mathematical sum of the first two.\<close>

theorem metal_offset_exact:
  "compose_bind_offset region off span len = Ok c \<longleftrightarrow>
     unat c = unat region + unat off \<and> unat region + unat off + unat span \<le> unat len"
  by (rule compose_Ok_iff)

text \<open>The control-frame carrier of a device handle is exact: the handle parsed from its own rendering is the handle itself if its numbers fit a signed 64-bit integer, and is refused otherwise, for any reading of scalars that reads back what was written.\<close>

theorem handle_carrier_exact:
  assumes "from_valor fv"
  shows "handle_from_valor fv (handle_to_valor h) = (if handle_fits h then Some h else None)"
  by (rule from_valor.handle_roundtrip [OF assms])

theorem handle_carrier_exact_witness:
  "handle_from_valor strict_from_valor (handle_to_valor \<lparr>dh_backend = Cuda, dh_kind = HandleBuffer 16, dh_id = 3\<rparr>) =
     Some \<lparr>dh_backend = Cuda, dh_kind = HandleBuffer 16, dh_id = 3\<rparr>"
  using handle_carrier_exact [OF strict.from_valor_axioms] by (simp add: handle_fits_def)

text \<open>The windows of an issued plan are exact: for every query row the causal window ends at the mathematical prefix plus row plus one, never past the new committed length, and the position of a candidate row is the mathematical prefix plus row, inside the fixed storage; the unchecked addition of the candidate view cannot wrap.\<close>

theorem plan_windows_exact:
  assumes "plan_issued (it_plan tx)" "row < cf_query_rows (pi_coordinates (it_plan tx))"
  shows "\<exists>e x. causal_end_exclusive (pi_coordinates (it_plan tx)) row = Ok e \<and>
      candidate_position (candidate_rows tx) row = Ok x \<and>
      unat x = unat (cf_prefix_before (pi_coordinates (it_plan tx))) + unat row \<and> unat e = unat x + 1 \<and>
      unat e \<le> unat (cf_valid_len_after (pi_coordinates (it_plan tx))) \<and>
      unat x < unat (cf_capacity (pi_coordinates (it_plan tx)))"
proof -
  have ok: "facts_ok (pi_coordinates (it_plan tx))" using issued_ok [OF assms(1)] by (simp add: plan_ok_def)
  obtain e where e: "causal_end_exclusive (pi_coordinates (it_plan tx)) row = Ok e"
      "unat e = unat (cf_prefix_before (pi_coordinates (it_plan tx))) + unat row + 1"
      "unat e \<le> unat (cf_valid_len_after (pi_coordinates (it_plan tx)))" by (rule causal_window [OF ok assms(2)])
  have "row < cr_rows (candidate_rows tx)" using assms(2) by (simp add: candidate_rows_def Let_def)
  from candidate_window [OF ok this] obtain x where x: "candidate_position (candidate_rows tx) row = Ok x"
      "unat x = unat (cf_prefix_before (pi_coordinates (it_plan tx))) + unat row"
      "unat x < unat (cr_capacity (candidate_rows tx))" .
  from x(3) have "unat x < unat (cf_capacity (pi_coordinates (it_plan tx)))" by (simp add: candidate_rows_def Let_def)
  with e x(1,2) show ?thesis by metis
qed

theorem plan_windows_exact_witness:
  "\<exists>e x. causal_end_exclusive (pi_coordinates plan1) 3 = Ok e \<and> candidate_position (candidate_rows tx1) 3 = Ok x \<and>
     unat x = 6 \<and> unat e = 7"
proof -
  have "plan_issued (it_plan tx1)" "(3 :: u32) < cf_query_rows (pi_coordinates (it_plan tx1))"
    using plan1_issued by (simp_all add: tx1_def) (simp add: sample_sequence word_less_nat_alt)
  from plan_windows_exact [OF this] obtain e x where "causal_end_exclusive (pi_coordinates plan1) 3 = Ok e"
      "candidate_position (candidate_rows tx1) 3 = Ok x"
      "unat x = unat (cf_prefix_before (pi_coordinates plan1)) + 3" "unat e = unat x + 1"
    by (auto simp: tx1_def)
  moreover have "unat (cf_prefix_before (pi_coordinates plan1)) = 3" by (simp add: sample_sequence)
  ultimately show ?thesis by (intro exI [of _ e] exI [of _ x]) simp
qed

text \<open>Admission keeps the plan: when the programs of a descriptor are admitted, the cache plan of the session has the arenas of the admitted plan and exactly its views, validates itself, the objects of the session have pairwise distinct identities as long as fewer than 2^64 were minted, and the prefill program starts with its declared rows.\<close>

theorem admitted_cache_plan_valid:
  assumes "programs_admit d c = (Ok p, c')" "length (session_residents (ip_residency p)) < 2 ^ 64"
  shows "kv_allocations (cache_plan (sn_sequence (ip_residency p))) = kv_allocations (ad_kv d) \<and>
    mset (kv_views (cache_plan (sn_sequence (ip_residency p)))) = mset (kv_views (ad_kv d)) \<and>
    kv_validate (cache_plan (sn_sequence (ip_residency p))) = Ok () \<and>
    distinct (map ra_identity (session_residents (ip_residency p))) \<and>
    (\<exists>plan. begin_selected ModePrefill p = Ok plan \<and> cf_query_rows (pi_coordinates plan) = ad_prefill_query_rows d)"
proof -
  from assms(1) obtain ms qs where prep: "session_prepare ms qs c = (Ok (ip_residency p), c')" by (rule programs_admit_Ok)
  from admitted_cache_plan [OF assms(1)] identities_distinct [OF prep assms(2)] admitted_prefill_starts [OF assms(1)]
  show ?thesis by (simp add: plan_at_def)
qed

theorem admitted_cache_plan_valid_witness:
  "kv_validate (cache_plan (sn_sequence (ip_residency sample_programs))) = Ok ()"
proof -
  obtain c where adm: "programs_admit sample_invocations 1 = (Ok sample_programs, c)" using sample_programs_admitted by blast
  then obtain ms qs where "session_prepare ms qs 1 = (Ok (ip_residency sample_programs), c)"
    and w: "sp_weights ms = ad_weights sample_invocations" by (rule programs_admit_Ok) simp
  then obtain c1 where "model_prepare ms 1 = (Ok (sn_model (ip_residency sample_programs)), c1)"
    by (auto elim: session_prepare_Ok)
  from residents_new_Ok [OF model_prepare_Ok(1) [OF this]]
  have "map ra_descriptor (mr_weights (sn_model (ip_residency sample_programs))) = ad_weights sample_invocations"
    unfolding w by (rule conjunct1)
  from arg_cong [OF this, of length] have "length (mr_weights (sn_model (ip_residency sample_programs))) = 1"
    by (simp add: sample_invocations_def)
  then have "length (session_residents (ip_residency sample_programs)) < 2 ^ 64" by (simp add: session_residents_def)
  from admitted_cache_plan_valid [OF adm this] show ?thesis by simp
qed

text \<open>Zero bytes cannot be transferred on the real backend: whatever the state, running a transfer with byte count zero answers an error, because no session allocates an empty buffer, while the fake backend completes the same operation.\<close>

theorem empty_transfer_fails_on_devices:
  assumes "tm_byte_count m = 0"
  shows "(\<exists>e t. runtime_run_operation dr dbg elapsed (Transfer m) b = Some (Some e, t)) \<and>
    fst (fake_run_operation (Transfer m) fb) = None"
proof -
  obtain e t where "host_stage_copy dr dbg elapsed (tm_source m) (tm_destination m)
      (TransferSpec_from_mirror m (rb_transfer_timeout b)) 0 b = Some (Err e, t)" using empty_copy_refused by blast
  with assms show ?thesis by (simp add: runtime_run_operation_def run_body_def fake_run_operation_def Let_def)
qed

theorem empty_transfer_fails_on_devices_witness:
  "\<exists>e t. runtime_run_operation sample_drivers (\<lambda>n. []) (\<lambda>_. 0) (Transfer (sample_transfer\<lparr>tm_byte_count := 0\<rparr>))
     sample_runtime_backend = Some (Some e, t)"
  using empty_transfer_fails_on_devices [of "sample_transfer\<lparr>tm_byte_count := 0\<rparr>" sample_drivers "\<lambda>n. []"
      "\<lambda>_. 0" sample_runtime_backend] by simp

text \<open>The grid width of a launch is a quarter of its output bytes, at least one, cast to 32 bits: it is exact below 2^34 bytes and zero at 2^34.\<close>

theorem launch_grid_wraps:
  "launch_grid (2 ^ 34) = 0 \<and> (len < 2 ^ 34 \<longrightarrow> unat (launch_grid len) = max (len div 4) 1)"
proof
  show "launch_grid (2 ^ 34) = 0" by (simp add: launch_grid_def)
  show "len < 2 ^ 34 \<longrightarrow> unat (launch_grid len) = max (len div 4) 1"
  proof
    assume "len < 2 ^ 34"
    then show "unat (launch_grid len) = max (len div 4) 1"
      by (simp add: launch_grid_def unsigned_of_nat take_bit_nat_eq_self)
  qed
qed

theorem launch_grid_wraps_witness: "unat (launch_grid 16) = 4"
  using launch_grid_wraps [of 16] by simp

text \<open>An image whose section has one partition is never prepared: whatever the snapshot and the declared bind count, the answer is an error, because a single partition binds to a degenerate plan, of which no transaction can be constructed.\<close>

theorem one_partition_image_refused:
  assumes "translate_device_section_bytes fmt img = Ok td" and "length (td_partitions td) = 1"
  shows "\<exists>e. prepare_distributed_image sha dn fmt elapsed img s k = Some (Err e)"
proof -
  have "distinct (td_partitions td)" using assms(2) by (cases "td_partitions td") auto
  from prepare_image_cases [OF assms(1) this, of sha dn elapsed s k] assms(2) show ?thesis
    unfolding image_prepares_def section_runnable_def by blast
qed

theorem one_partition_image_refused_witness:
  "\<exists>e. prepare_distributed_image sample_sha sample_debug (sample_format [0]) 0 [] sample_snapshot 1 = Some (Err e)"
proof -
  have "length (td_partitions (sample_translated [0])) = 1" by code_simp
  from one_partition_image_refused [OF sample_translates(2) this] show ?thesis by blast
qed

text \<open>The default headroom policy is nine tenths of the total memory rounded down, exactly, for every 64-bit total.\<close>

theorem headroom_is_nine_tenths:
  "unat (oq2_default_headroom_policy_bytes n) = unat n * 9 div 10"
  by (rule headroom_exact)

text \<open>The output bytes of a launch are the bytes of one buffer only, that of the last result of the section which the launch produces, and zero when it produces none.\<close>

theorem launch_counts_last_result:
  "translate_operation (launch_bytes_of s) (WireLaunch p l) = Ok (Launch (logical_partition p) (launch_ref l)
     (case List.find (\<lambda>r. wres_produced_by r = l) (rev (concat (map wp_results (ws_partitions s)))) of
        Some r \<Rightarrow> bytes_or_zero (buffer_bytes_of s) (wres_buffer r) | None \<Rightarrow> 0))"
  by (simp add: launch_bytes_exact)

text \<open>The initial selection selects every class: the descriptor of a class is that of its facts, its encoding is the class, its byte extent is exactly four bytes per element, and no selected representation claims direct quantized execution.\<close>

theorem initial_selection_complete:
  "every_class_selected (initial_declared_f32_conversion row) \<and>
   (\<exists>d. f32_conversion_descriptor (initial_declared_f32_conversion row) c = Some d \<and> rd_source_encoding d = c \<and>
      unat (rd_byte_extent d) = unat (rsh_element_count (rd_shape d)) * 4 \<and>
      representation_of_class (initial_declared_f32_conversion row) c = Some (SelectedF32Conversion d)) \<and>
   \<not> (\<exists>r. representation_of_class (initial_declared_f32_conversion row) c = Some r \<and> claims_direct_quantized_execution r)"
proof -
  let ?s = "initial_declared_f32_conversion row"
  have rep: "representation_of_class ?s c = map_option (\<lambda>f. SelectedF32Conversion (declared_f32_conversion f))
      (List.find (\<lambda>f. tcf_ggml_type f = c) pinned_row_class_facts)"
  proof -
    have "map_option pcs_representation (List.find (\<lambda>sel. tcf_ggml_type (pcs_facts sel) = c) (map (\<lambda>f. \<lparr>pcs_facts = f,
        pcs_representation = SelectedF32Conversion (declared_f32_conversion f)\<rparr>) fs)) =
      map_option (\<lambda>f. SelectedF32Conversion (declared_f32_conversion f)) (List.find (\<lambda>f. tcf_ggml_type f = c) fs)" for fs
      by (induction fs) simp_all
    then show ?thesis by (simp add: representation_of_class_def selection_of_class_def initial_declared_f32_conversion_def)
  qed
  obtain f where f: "List.find (\<lambda>f. tcf_ggml_type f = c) pinned_row_class_facts = Some f"
    using pinned_classes_complete [of c] by blast
  have "f \<in> set pinned_row_class_facts" "tcf_ggml_type f = c"
    using find_Some_mem [OF f] by simp_all
  moreover have "every_class_selected ?s"
    by (simp add: every_class_selected_def initial_declared_f32_conversion_def list_all_iff)
  ultimately show ?thesis
    using pinned_extents_exact by (simp add: initial_descriptor rep f declared_f32_conversion_def)
qed

end
